(* ===== verification/Etl_Prelude.thy ===== *)
theory Etl_Prelude
  imports
    Main
    "HOL-Library.Word"
    "HOL-Library.Char_ord"
    "HOL-Library.List_Lexorder"
    "HOL-Library.Signed_Division"
    "HOL-Library.Sublist"
    "HOL-Library.Code_Target_Nat"
begin

unbundle bit_operations_syntax

text \<open>
  What every component shares: the model of the parts of the Rust standard library the
  source uses (text, integer parsing, \<^verbatim>\<open>Result\<close>, \<^verbatim>\<open>BTreeMap\<close>) and the lemmas about them.

  A Rust \<^verbatim>\<open>String\<close> is a HOL \<open>string\<close>, one \<open>char\<close> per Unicode scalar value; a HOL
  \<open>char\<close> holds the scalar values U+0000 to U+00FF, so the development covers text over that
  range. A Rust \<^verbatim>\<open>Result<T, E>\<close> is \<open>'e + 't\<close> with \<open>Inl\<close> the error. A Rust \<^verbatim>\<open>u32\<close>
  or \<^verbatim>\<open>u64\<close> is a \<open>nat\<close> whose wrap-around is written out where the source can reach it, or a
  word where the source works on its bits; a Rust \<^verbatim>\<open>i64\<close> is an \<open>int\<close>.
\<close>

section \<open>Collections of facts\<close>

named_theorems result_simps \<open>rewriting of fallible computations\<close>
named_theorems text_simps \<open>rewriting of operations on text\<close>
named_theorems wf_intros \<open>introduction rules of the well-formedness invariants\<close>

type_synonym str = string
type_synonym u64 = "64 word"
type_synonym u8 = "8 word"

section \<open>Results\<close>

fun and_then :: "'e + 'a \<Rightarrow> ('a \<Rightarrow> 'e + 'b) \<Rightarrow> 'e + 'b" where
  "and_then (Inl e) f = Inl e"
| "and_then (Inr x) f = f x"

declare and_then.simps [result_simps]

fun map_err :: "('e \<Rightarrow> 'f) \<Rightarrow> 'e + 'a \<Rightarrow> 'f + 'a" where
  "map_err f (Inl e) = Inl (f e)"
| "map_err f (Inr x) = Inr x"

definition ok_or :: "'e \<Rightarrow> 'a option \<Rightarrow> 'e + 'a" where
  "ok_or e x = (case x of None \<Rightarrow> Inl e | Some y \<Rightarrow> Inr y)"

lemma ok_or_simps [simp, result_simps]:
  "ok_or e None = Inl e" "ok_or e (Some x) = Inr x"
  by (simp_all add: ok_or_def)

lemma ok_or_eq_Inr_iff [simp]: "ok_or e x = Inr y \<longleftrightarrow> x = Some y"
  by (cases x) simp_all

lemma and_then_eq_Inr_iff: "and_then r f = Inr y \<longleftrightarrow> (\<exists>x. r = Inr x \<and> f x = Inr y)"
  by (cases r) auto

lemma and_then_pair_Inr_iff:
  "and_then r (\<lambda>(a, b). f a b) = Inr y \<longleftrightarrow> (\<exists>a b. r = Inr (a, b) \<and> f a b = Inr y)"
  by (cases r) auto

lemma and_then_eq_Inl_iff:
  "and_then r f = Inl e \<longleftrightarrow> r = Inl e \<or> (\<exists>x. r = Inr x \<and> f x = Inl e)"
  by (cases r) auto

lemma map_err_eq_Inr_iff [simp]: "map_err f r = Inr y \<longleftrightarrow> r = Inr y"
  by (cases r) auto

lemma map_err_eq_Inl_iff: "map_err f r = Inl e \<longleftrightarrow> (\<exists>e'. r = Inl e' \<and> e = f e')"
  by (cases r) auto

text \<open>Collecting an iterator of results stops at the first error.\<close>

fun traverse :: "('a \<Rightarrow> 'e + 'b) \<Rightarrow> 'a list \<Rightarrow> 'e + 'b list" where
  "traverse f [] = Inr []"
| "traverse f (x # xs) =
     and_then (f x) (\<lambda>y. and_then (traverse f xs) (\<lambda>ys. Inr (y # ys)))"

lemma traverse_Inr_iff: "traverse f xs = Inr ys \<longleftrightarrow> list_all2 (\<lambda>x y. f x = Inr y) xs ys"
  by (induction xs arbitrary: ys) (auto simp: and_then_eq_Inr_iff list_all2_Cons1)

lemma traverse_length: "traverse f xs = Inr ys \<Longrightarrow> length ys = length xs"
  by (auto simp: traverse_Inr_iff dest: list_all2_lengthD)

lemma traverse_nth: "traverse f xs = Inr ys \<Longrightarrow> i < length xs \<Longrightarrow> f (xs ! i) = Inr (ys ! i)"
  by (auto simp: traverse_Inr_iff dest: list_all2_nthD)

lemma traverse_Inl: "traverse f xs = Inl e \<Longrightarrow> \<exists>x \<in> set xs. f x = Inl e"
  by (induction xs) (auto simp: and_then_eq_Inl_iff)

text \<open>The values an option iterator produces, as \<^verbatim>\<open>filter_map\<close> collects them.\<close>

definition filter_map :: "('a \<Rightarrow> 'b option) \<Rightarrow> 'a list \<Rightarrow> 'b list" where
  "filter_map f xs = List.map_filter f xs"

lemma filter_map_simps [simp]:
  "filter_map f [] = []"
  "filter_map f (x # xs) = (case f x of None \<Rightarrow> filter_map f xs | Some y \<Rightarrow> y # filter_map f xs)"
  by (simp_all add: filter_map_def List.map_filter_def split: option.split)

lemma set_filter_map: "set (filter_map f xs) = {y. \<exists>x \<in> set xs. f x = Some y}"
  by (induction xs) (auto split: option.split)

lemma filter_map_append [simp]: "filter_map f (xs @ ys) = filter_map f xs @ filter_map f ys"
  by (induction xs) (auto split: option.split)

section \<open>Text\<close>

abbreviation code :: "char \<Rightarrow> nat" where
  "code c \<equiv> of_char c"

definition is_whitespace :: "char \<Rightarrow> bool" where
  "is_whitespace c \<longleftrightarrow>
     (9 \<le> code c \<and> code c \<le> 13) \<or> code c = 32 \<or> code c = 133 \<or> code c = 160"

definition is_ascii_digit :: "char \<Rightarrow> bool" where
  "is_ascii_digit c \<longleftrightarrow> 48 \<le> code c \<and> code c \<le> 57"

definition is_ascii_lower :: "char \<Rightarrow> bool" where
  "is_ascii_lower c \<longleftrightarrow> 97 \<le> code c \<and> code c \<le> 122"

definition is_ascii_upper :: "char \<Rightarrow> bool" where
  "is_ascii_upper c \<longleftrightarrow> 65 \<le> code c \<and> code c \<le> 90"

definition is_ascii_alphabetic :: "char \<Rightarrow> bool" where
  "is_ascii_alphabetic c \<longleftrightarrow> is_ascii_lower c \<or> is_ascii_upper c"

definition is_ascii_alphanumeric :: "char \<Rightarrow> bool" where
  "is_ascii_alphanumeric c \<longleftrightarrow> is_ascii_alphabetic c \<or> is_ascii_digit c"

definition ascii_lower :: "char \<Rightarrow> char" where
  "ascii_lower c = (if is_ascii_upper c then char_of (code c + 32 :: nat) else c)"

definition to_ascii_lowercase :: "str \<Rightarrow> str" where
  "to_ascii_lowercase s = map ascii_lower s"

definition eq_ignore_ascii_case :: "str \<Rightarrow> str \<Rightarrow> bool" where
  "eq_ignore_ascii_case s t \<longleftrightarrow> to_ascii_lowercase s = to_ascii_lowercase t"

lemmas char_class_defs =
  is_whitespace_def is_ascii_digit_def is_ascii_lower_def is_ascii_upper_def
  is_ascii_alphabetic_def is_ascii_alphanumeric_def ascii_lower_def

definition trim_start :: "str \<Rightarrow> str" where
  "trim_start s = dropWhile is_whitespace s"

definition trim_end :: "str \<Rightarrow> str" where
  "trim_end s = rev (dropWhile is_whitespace (rev s))"

definition trim :: "str \<Rightarrow> str" where
  "trim s = trim_end (trim_start s)"

text \<open>\<^verbatim>\<open>split(c)\<close>: always at least one piece. \<^verbatim>\<open>split_once(c)\<close>: before and after the first.\<close>

fun split_on :: "(char \<Rightarrow> bool) \<Rightarrow> str \<Rightarrow> str list" where
  "split_on p [] = [[]]"
| "split_on p (c # s) =
     (if p c then [] # split_on p s
      else (case split_on p s of [] \<Rightarrow> [[c]] | w # ws \<Rightarrow> (c # w) # ws))"

fun split_once :: "(char \<Rightarrow> bool) \<Rightarrow> str \<Rightarrow> (str \<times> str) option" where
  "split_once p [] = None"
| "split_once p (c # s) =
     (if p c then Some ([], s)
      else map_option (\<lambda>(a, b). (c # a, b)) (split_once p s))"

definition split_whitespace :: "str \<Rightarrow> str list" where
  "split_whitespace s = filter (\<lambda>w. w \<noteq> []) (split_on is_whitespace s)"

fun strip_prefix :: "str \<Rightarrow> str \<Rightarrow> str option" where
  "strip_prefix [] s = Some s"
| "strip_prefix (p # ps) [] = None"
| "strip_prefix (p # ps) (c # s) = (if p = c then strip_prefix ps s else None)"

definition strip_suffix :: "str \<Rightarrow> str \<Rightarrow> str option" where
  "strip_suffix p s = map_option rev (strip_prefix (rev p) (rev s))"

definition starts_with :: "str \<Rightarrow> str \<Rightarrow> bool" where
  "starts_with s p \<longleftrightarrow> take (length p) s = p"

definition ends_with :: "str \<Rightarrow> str \<Rightarrow> bool" where
  "ends_with s p \<longleftrightarrow> starts_with (rev s) (rev p)"

fun join_with :: "str \<Rightarrow> str list \<Rightarrow> str" where
  "join_with sep [] = []"
| "join_with sep [w] = w"
| "join_with sep (w # v # ws) = w @ sep @ join_with sep (v # ws)"

lemma split_on_nonempty [simp]: "split_on p s \<noteq> []"
  by (induction s) (auto split: list.split)

lemma split_on_no_sep: "\<forall>c \<in> set s. \<not> p c \<Longrightarrow> split_on p s = [s]"
  by (induction s) auto

lemma split_on_append_sep:
  "p c \<Longrightarrow> \<forall>d \<in> set a. \<not> p d \<Longrightarrow> split_on p (a @ c # b) = a # split_on p b"
  by (induction a) auto

lemma split_on_pieces: "w \<in> set (split_on p s) \<Longrightarrow> c \<in> set w \<Longrightarrow> \<not> p c \<and> c \<in> set s"
  by (induction s arbitrary: w) (force split: if_splits list.splits)+

lemma split_once_Some:
  "split_once p s = Some (a, b) \<Longrightarrow> \<exists>c. p c \<and> s = a @ c # b \<and> (\<forall>d \<in> set a. \<not> p d)"
  by (induction s arbitrary: a) (auto split: if_splits)

lemma split_once_None_iff: "split_once p s = None \<longleftrightarrow> (\<forall>c \<in> set s. \<not> p c)"
  by (induction s) auto

lemma split_once_append:
  "p c \<Longrightarrow> \<forall>d \<in> set a. \<not> p d \<Longrightarrow> split_once p (a @ c # b) = Some (a, b)"
  by (induction a) auto

lemma strip_prefix_Some_iff: "strip_prefix p s = Some t \<longleftrightarrow> s = p @ t"
  by (induction p s rule: strip_prefix.induct) auto

lemma strip_suffix_Some_iff: "strip_suffix p s = Some t \<longleftrightarrow> s = t @ p"
  by (auto simp: strip_suffix_def strip_prefix_Some_iff)
     (metis rev_append rev_rev_ident)

lemma starts_with_iff: "starts_with s p \<longleftrightarrow> (\<exists>t. s = p @ t)"
  unfolding starts_with_def by (metis append_eq_conv_conj append_take_drop_id)

lemma ends_with_iff: "ends_with s p \<longleftrightarrow> (\<exists>t. s = t @ p)"
  unfolding ends_with_def starts_with_iff by (metis rev_append rev_rev_ident)

text \<open>Trimming is idempotent, and leaves a text with no outer white space alone.\<close>

lemma dropWhile_hd: "dropWhile p s = c # t \<Longrightarrow> \<not> p c"
  by (metis hd_dropWhile list.distinct(1) list.sel(1))

lemma trim_start_id: "s = [] \<or> \<not> is_whitespace (hd s) \<Longrightarrow> trim_start s = s"
  by (cases s) (auto simp: trim_start_def)

lemma trim_end_id: "s = [] \<or> \<not> is_whitespace (last s) \<Longrightarrow> trim_end s = s"
  by (cases s rule: rev_cases) (auto simp: trim_end_def)

lemma trim_id:
  "s = [] \<or> (\<not> is_whitespace (hd s) \<and> \<not> is_whitespace (last s)) \<Longrightarrow> trim s = s"
  using trim_start_id [of s] trim_end_id [of s] by (auto simp: trim_def)

lemma trim_end_last: "trim_end s \<noteq> [] \<Longrightarrow> \<not> is_whitespace (last (trim_end s))"
  unfolding trim_end_def by (metis hd_dropWhile hd_rev rev_is_Nil_conv rev_rev_ident)

lemma trim_end_prefix: "prefix (trim_end s) s"
proof -
  have "s = rev (dropWhile is_whitespace (rev s)) @ rev (takeWhile is_whitespace (rev s))"
    by (metis rev_append rev_rev_ident takeWhile_dropWhile_id)
  then show ?thesis unfolding trim_end_def by (metis prefixI)
qed

lemma trim_start_hd: "trim_start s \<noteq> [] \<Longrightarrow> \<not> is_whitespace (hd (trim_start s))"
  unfolding trim_start_def by (rule hd_dropWhile)

lemma trim_hd: "trim s \<noteq> [] \<Longrightarrow> \<not> is_whitespace (hd (trim s))"
  using trim_end_prefix [of "trim_start s"] trim_start_hd [of s]
  unfolding trim_def by (metis hd_append2 prefix_def append_is_Nil_conv)

lemma trim_last: "trim s \<noteq> [] \<Longrightarrow> \<not> is_whitespace (last (trim s))"
  unfolding trim_def by (rule trim_end_last)

lemma trim_trim [simp, text_simps]: "trim (trim s) = trim s"
  using trim_hd trim_last by (intro trim_id) blast

lemma set_trim_subset: "set (trim s) \<subseteq> set s"
  unfolding trim_def trim_start_def
  by (meson set_dropWhileD set_mono_prefix subset_iff trim_end_prefix)

lemma trim_Nil [simp]: "trim [] = []"
  by (simp add: trim_def trim_start_def trim_end_def)

section \<open>Integer parsing\<close>

text \<open>
  \<^verbatim>\<open>str::parse\<close> on integers: an optional sign (only \<^verbatim>\<open>+\<close> when unsigned), one ASCII digit
  or more, and a value in range; anything else is an error.
\<close>

definition digit_value :: "char \<Rightarrow> nat" where
  "digit_value c = code c - 48"

definition digits_value :: "str \<Rightarrow> nat" where
  "digits_value s = foldl (\<lambda>n c. 10 * n + digit_value c) 0 s"

definition parse_digits :: "str \<Rightarrow> nat option" where
  "parse_digits s = (if s \<noteq> [] \<and> list_all is_ascii_digit s then Some (digits_value s) else None)"

definition parse_unsigned :: "nat \<Rightarrow> str \<Rightarrow> nat option" where
  "parse_unsigned w s =
     (case parse_digits (if s \<noteq> [] \<and> hd s = CHR ''+'' then tl s else s) of
        None \<Rightarrow> None
      | Some n \<Rightarrow> if n < 2 ^ w then Some n else None)"

definition parse_u32 :: "str \<Rightarrow> nat option" where
  "parse_u32 s = parse_unsigned 32 s"

definition parse_u64 :: "str \<Rightarrow> nat option" where
  "parse_u64 s = parse_unsigned 64 s"

definition parse_i64 :: "str \<Rightarrow> int option" where
  "parse_i64 s =
     (if s \<noteq> [] \<and> hd s = CHR ''-'' then
        (case parse_digits (tl s) of
           None \<Rightarrow> None
         | Some n \<Rightarrow> if n \<le> 2 ^ 63 then Some (- int n) else None)
      else
        (case parse_digits (if s \<noteq> [] \<and> hd s = CHR ''+'' then tl s else s) of
           None \<Rightarrow> None
         | Some n \<Rightarrow> if n < 2 ^ 63 then Some (int n) else None))"

lemma parse_unsigned_bound: "parse_unsigned w s = Some n \<Longrightarrow> n < 2 ^ w"
  by (auto simp: parse_unsigned_def split: option.splits if_splits)

lemma parse_i64_bound: "parse_i64 s = Some n \<Longrightarrow> - (2 ^ 63) \<le> n \<and> n < 2 ^ 63"
proof (cases "s \<noteq> [] \<and> hd s = CHR ''-''")
  case True
  assume "parse_i64 s = Some n"
  with True obtain m where "n = - int m" "m \<le> 2 ^ 63"
    by (auto simp: parse_i64_def split: option.splits if_splits)
  then have "int m \<le> 2 ^ 63" by (metis of_nat_le_iff of_nat_numeral of_nat_power)
  then show ?thesis using \<open>n = - int m\<close> by simp
next
  case False
  assume "parse_i64 s = Some n"
  with False obtain m where "n = int m" "m < 2 ^ 63"
    unfolding parse_i64_def by (auto split: option.splits if_splits)
  then have "int m < 2 ^ 63" by (metis of_nat_less_iff of_nat_numeral of_nat_power)
  then show ?thesis using \<open>n = int m\<close> by simp
qed

text \<open>Printing: \<^verbatim>\<open>{}\<close> of an unsigned number, and \<^verbatim>\<open>{:0w}\<close> of a number padded to a width.\<close>

definition digit_char :: "nat \<Rightarrow> char" where
  "digit_char d = char_of (48 + d)"

fun show_nat :: "nat \<Rightarrow> str" where
  "show_nat n = (if n < 10 then [digit_char n] else show_nat (n div 10) @ [digit_char (n mod 10)])"

declare show_nat.simps [simp del]

definition pad_nat :: "nat \<Rightarrow> nat \<Rightarrow> str" where
  "pad_nat w n = (let s = show_nat n in replicate (w - length s) (CHR ''0'') @ s)"

definition show_int :: "int \<Rightarrow> str" where
  "show_int i = (if i < 0 then CHR ''-'' # show_nat (nat (- i)) else show_nat (nat i))"

definition pad_int :: "nat \<Rightarrow> int \<Rightarrow> str" where
  "pad_int w i = (if i < 0 then CHR ''-'' # pad_nat (w - 1) (nat (- i)) else pad_nat w (nat i))"

lemma digit_value_char: "d < 10 \<Longrightarrow> digit_value (digit_char d) = d"
  by (simp add: digit_value_def digit_char_def)

lemma is_ascii_digit_char: "d < 10 \<Longrightarrow> is_ascii_digit (digit_char d)"
  by (simp add: is_ascii_digit_def digit_char_def)

lemma digits_value_snoc: "digits_value (s @ [c]) = 10 * digits_value s + digit_value c"
  by (simp add: digits_value_def)

lemma digits_value_zeros: "digits_value (replicate k (CHR ''0'') @ s) = digits_value s"
  by (induction k) (simp_all add: digits_value_def digit_value_def)

lemma show_nat_digits: "s = show_nat n \<Longrightarrow> s \<noteq> [] \<and> list_all is_ascii_digit s \<and> digits_value s = n"
proof (induction n arbitrary: s rule: show_nat.induct)
  case (1 n)
  show ?case
  proof (cases "n < 10")
    case True
    with 1 show ?thesis
      by (simp add: show_nat.simps [of n] is_ascii_digit_char digit_value_char digits_value_def)
  next
    case False
    with 1 show ?thesis
      by (simp add: show_nat.simps [of n] is_ascii_digit_char digit_value_char digits_value_snoc)
  qed
qed

lemma parse_digits_show_nat [simp]: "parse_digits (show_nat n) = Some n"
  using show_nat_digits [OF refl, of n] by (simp add: parse_digits_def)

lemma pad_nat_digits: "pad_nat w n \<noteq> [] \<and> list_all is_ascii_digit (pad_nat w n)
    \<and> digits_value (pad_nat w n) = n"
  using show_nat_digits [OF refl, of n]
  by (auto simp: pad_nat_def Let_def digits_value_zeros list_all_iff is_ascii_digit_def)

lemma parse_digits_pad_nat [simp]: "parse_digits (pad_nat w n) = Some n"
  using pad_nat_digits [of w n] by (simp add: parse_digits_def)

section \<open>Division\<close>

lemma sdiv_nonneg: "0 \<le> a \<Longrightarrow> 0 < b \<Longrightarrow> a sdiv b = a div (b::int)"
  by (cases "a = 0") (auto simp: signed_divide_int_def sgn_if)

lemma smod_nonneg: "0 \<le> a \<Longrightarrow> 0 < b \<Longrightarrow> a smod b = a mod (b::int)"
  by (cases "a = 0") (auto simp: signed_modulo_int_def signed_divide_int_def minus_div_mult_eq_mod)

lemma int_div_less_iff:
  assumes "0 < k"
  shows "u div k < n \<longleftrightarrow> u < n * (k::int)"
proof
  assume "u div k < n"
  then have "(u div k + 1) * k \<le> n * k" using assms by (intro mult_right_mono) auto
  moreover have "u < (u div k + 1) * k"
    using div_mult_mod_eq [of u k] pos_mod_bound [OF assms, of u] by (simp only: distrib_right)
  ultimately show "u < n * k" by linarith
next
  assume u: "u < n * k"
  show "u div k < n"
  proof (rule ccontr)
    assume "\<not> u div k < n"
    then have "n * k \<le> u div k * k" using assms by (intro mult_right_mono) auto
    with u div_mult_mod_eq [of u k] pos_mod_sign [OF assms, of u] show False by linarith
  qed
qed

lemma div_times_le: "0 < k \<Longrightarrow> u div k * k \<le> (u::int)"
  using div_mult_mod_eq [of u k] pos_mod_sign [of k u] by linarith

lemma int_le_div_iff: "0 < k \<Longrightarrow> n \<le> u div k \<longleftrightarrow> n * k \<le> (u::int)"
  using int_div_less_iff [of k u n] by linarith

lemma int_step_after:
  assumes "0 < (k::int)"
  shows "x < (x div k + 1) * k" "k dvd u \<Longrightarrow> x < u \<Longrightarrow> (x div k + 1) * k \<le> u"
proof -
  show "x < (x div k + 1) * k" using int_div_less_iff [OF assms, of x "x div k + 1"] by simp
  assume "k dvd u" "x < u"
  then obtain m where m: "u = m * k" by (metis dvd_def mult.commute)
  then have "x div k + 1 \<le> m" using int_div_less_iff [OF assms, of x m] \<open>x < u\<close> by simp
  then show "(x div k + 1) * k \<le> u" unfolding m using assms by (intro mult_right_mono) auto
qed

end
