(* ===== verification/Civil_Time.thy ===== *)
theory Civil_Time
  imports Etl_Prelude
begin

text \<open>
  Civil dates in UTC: \<^verbatim>\<open>crates/state/src/time.rs\<close>. The record is the source's
  \<^verbatim>\<open>DateTime\<close>; \<open>civil_from_days\<close> and \<open>days_from_civil\<close> are Hinnant's algorithms with
  Rust's truncating division (\<open>sdiv\<close>, \<open>smod\<close>), as the source writes them. The lemmas show that
  the two are inverse on every day and every valid date, that the days of a month are
  consecutive, and hence that breaking a timestamp up and putting it back is the identity.
\<close>

section \<open>The code\<close>

definition SECONDS_PER_DAY :: int where
  "SECONDS_PER_DAY = 86400"

record date_time =
  dt_year :: int
  dt_month :: nat
  dt_day :: nat
  dt_hour :: nat
  dt_minute :: nat
  dt_second :: nat

definition is_leap_year :: "int \<Rightarrow> bool" where
  "is_leap_year y \<longleftrightarrow> y smod 4 = 0 \<and> (y smod 100 \<noteq> 0 \<or> y smod 400 = 0)"

definition days_in_month :: "int \<Rightarrow> nat \<Rightarrow> nat" where
  "days_in_month y m =
     (if m \<in> {1, 3, 5, 7, 8, 10, 12} then 31
      else if m \<in> {4, 6, 9, 11} then 30
      else if m = 2 \<and> is_leap_year y then 29
      else if m = 2 then 28
      else 0)"

definition civil_from_days :: "int \<Rightarrow> int \<times> int \<times> int" where
  "civil_from_days days =
     (let shifted = days + 719468;
          era = (if shifted \<ge> 0 then shifted else shifted - 146096) sdiv 146097;
          day_of_era = shifted - era * 146097;
          year_of_era =
            (day_of_era - day_of_era sdiv 1460 + day_of_era sdiv 36524 - day_of_era sdiv 146096)
              sdiv 365;
          year = year_of_era + era * 400;
          day_of_year = day_of_era - (365 * year_of_era + year_of_era sdiv 4 - year_of_era sdiv 100);
          month_position = (5 * day_of_year + 2) sdiv 153;
          day = day_of_year - (153 * month_position + 2) sdiv 5 + 1;
          month = (if month_position < 10 then month_position + 3 else month_position - 9)
      in (year + (if month \<le> 2 then 1 else 0), month, day))"

definition days_from_civil :: "int \<Rightarrow> int \<Rightarrow> int \<Rightarrow> int" where
  "days_from_civil year0 month day =
     (let year = year0 - (if month \<le> 2 then 1 else 0);
          era = (if year \<ge> 0 then year else year - 399) sdiv 400;
          year_of_era = year - era * 400;
          month_position = (if month > 2 then month - 3 else month + 9);
          day_of_year = (153 * month_position + 2) sdiv 5 + day - 1;
          day_of_era = year_of_era * 365 + year_of_era sdiv 4 - year_of_era sdiv 100 + day_of_year
      in era * 146097 + day_of_era - 719468)"

definition from_unix :: "int \<Rightarrow> date_time" where
  "from_unix seconds =
     (let days = seconds div SECONDS_PER_DAY;
          within_day = seconds mod SECONDS_PER_DAY
      in case civil_from_days days of (y, m, d) \<Rightarrow>
        \<lparr> dt_year = y, dt_month = nat m, dt_day = nat d,
          dt_hour = nat (within_day sdiv 3600),
          dt_minute = nat ((within_day smod 3600) sdiv 60),
          dt_second = nat (within_day smod 60) \<rparr>)"

definition to_unix :: "date_time \<Rightarrow> int" where
  "to_unix w = days_from_civil (dt_year w) (int (dt_month w)) (int (dt_day w)) * SECONDS_PER_DAY
     + int (dt_hour w) * 3600 + int (dt_minute w) * 60 + int (dt_second w)"

definition weekday :: "date_time \<Rightarrow> nat" where
  "weekday w = nat ((days_from_civil (dt_year w) (int (dt_month w)) (int (dt_day w)) + 4) mod 7)"

definition date_to_rfc3339 :: "date_time \<Rightarrow> str" where
  "date_to_rfc3339 w =
     pad_int 4 (dt_year w) @ ''-'' @ pad_nat 2 (dt_month w) @ ''-'' @ pad_nat 2 (dt_day w) @ ''T''
     @ pad_nat 2 (dt_hour w) @ '':'' @ pad_nat 2 (dt_minute w) @ '':'' @ pad_nat 2 (dt_second w) @ ''Z''"

definition to_rfc3339 :: "int \<Rightarrow> str" where
  "to_rfc3339 seconds = date_to_rfc3339 (from_unix seconds)"

definition parse_date_part :: "str \<Rightarrow> (int \<times> nat \<times> nat) option" where
  "parse_date_part date =
     (case split_on (\<lambda>c. c = CHR ''-'') date of
        [y, m, d] \<Rightarrow>
          (case (parse_i64 y, parse_u32 m, parse_u32 d) of
             (Some yy, Some mm, Some dd) \<Rightarrow>
               if 1 \<le> mm \<and> mm \<le> 12 \<and> 1 \<le> dd \<and> dd \<le> days_in_month yy mm
               then Some (yy, mm, dd) else None
           | _ \<Rightarrow> None)
      | _ \<Rightarrow> None)"

definition parse_clock_part :: "str \<Rightarrow> (nat \<times> nat \<times> nat) option" where
  "parse_clock_part clock0 =
     (let clock = hd (split_on (\<lambda>c. c = CHR ''.'') clock0);
          fields = (case split_on (\<lambda>c. c = CHR '':'') clock of
             [h, m] \<Rightarrow> Some (parse_u32 h, parse_u32 m, Some 0)
           | [h, m, s] \<Rightarrow> Some (parse_u32 h, parse_u32 m, parse_u32 s)
           | _ \<Rightarrow> None)
      in case fields of
           Some (Some hh, Some mm, Some ss) \<Rightarrow>
             if hh \<le> 23 \<and> mm \<le> 59 \<and> ss \<le> 60 then Some (hh, mm, min ss 59) else None
         | _ \<Rightarrow> None)"

definition from_rfc3339 :: "str \<Rightarrow> int option" where
  "from_rfc3339 text0 =
     (let body0 = trim text0
      in case (case strip_suffix ''Z'' body0 of None \<Rightarrow> strip_suffix ''z'' body0 | Some b \<Rightarrow> Some b) of
           None \<Rightarrow> None
         | Some body \<Rightarrow>
             (case split_once (\<lambda>c. c \<in> {CHR ''T'', CHR ''t'', CHR '' ''}) body of
                None \<Rightarrow> None
              | Some (date, clock) \<Rightarrow>
                  (case (parse_date_part date, parse_clock_part clock) of
                     (Some (y, m, d), Some (h, mi, s)) \<Rightarrow>
                       Some (to_unix \<lparr> dt_year = y, dt_month = m, dt_day = d,
                                       dt_hour = h, dt_minute = mi, dt_second = s \<rparr>)
                   | _ \<Rightarrow> None)))"

section \<open>Division\<close>

lemma sdiv_floor:
  assumes b: "0 < b"
  shows "(if a \<ge> 0 then a else a - (b - 1)) sdiv b = a div (b::int)"
proof (cases "a \<ge> 0")
  case True
  with b show ?thesis by (simp add: sdiv_nonneg)
next
  case False
  have "(a - (b - 1)) sdiv b = - ((b - 1 - a) div b)"
    using False b by (simp add: signed_divide_int_def sgn_if)
  moreover have "(b - 1 - a) div b = - (a div b)"
  proof (rule int_div_pos_eq)
    show "b - 1 - a = b * - (a div b) + (b - 1 - a mod b)"
      using mult_div_mod_eq [of b a] by (simp add: algebra_simps)
    show "0 \<le> b - 1 - a mod b" "b - 1 - a mod b < b"
      using b pos_mod_bound [of b a] pos_mod_sign [of b a] by linarith+
  qed
  ultimately show ?thesis using False by simp
qed

lemma era_floor:
  "(if (s::int) \<ge> 0 then s else s - 146096) sdiv 146097 = s div 146097"
  "(if (t::int) \<ge> 0 then t else t - 399) sdiv 400 = t div 400"
  using sdiv_floor [of 146097 s] sdiv_floor [of 400 t] by (auto split: if_splits)

lemma smod_eq_0_iff:
  assumes "0 < b"
  shows "a smod b = 0 \<longleftrightarrow> b dvd (a::int)"
proof -
  have "\<bar>a\<bar> div \<bar>b\<bar> * b = \<bar>a\<bar> \<longleftrightarrow> b dvd \<bar>a\<bar>"
    using assms by (metis abs_of_pos dvd_div_mult_self dvd_triv_right)
  then show ?thesis
    using assms by (auto simp: signed_modulo_int_def signed_divide_int_def sgn_if abs_if split: if_splits)
qed

section \<open>Years and months within an era\<close>

text \<open>
  Facts about the 146097 days of a 400-year era. The year of a day is \<open>yoe\<close>; a year \<open>y\<close>
  runs from \<open>year_start y\<close> to \<open>year_last y\<close>. The numerator of \<open>yoe\<close> is monotone, so
  checking it at the two ends of each of the 400 years decides every day between them.
\<close>

definition year_start :: "int \<Rightarrow> int" where
  "year_start y = 365 * y + y div 4 - y div 100"

definition year_last :: "int \<Rightarrow> int" where
  "year_last y = year_start (y + 1) - 1 + (if y = 399 then 1 else 0)"

definition year_num :: "int \<Rightarrow> int" where
  "year_num n = n - n div 1460 + n div 36524 - n div 146096"

definition yoe :: "int \<Rightarrow> int" where
  "yoe n = year_num n div 365"

definition leap :: "int \<Rightarrow> bool" where
  "leap y \<longleftrightarrow> 4 dvd y \<and> (\<not> 100 dvd y \<or> 400 dvd y)"

lemma is_leap_year_leap: "is_leap_year y \<longleftrightarrow> leap y"
  by (simp add: is_leap_year_def leap_def smod_eq_0_iff)

lemma div_succ:
  assumes k: "0 < k"
  shows "(n + 1) div k = n div k + (if k dvd n + 1 then 1 else (0::int))"
proof (cases "n mod k = k - 1")
  case True
  then have "n + 1 = k * (n div k + 1)"
    using mult_div_mod_eq [of k n] True by (simp add: distrib_left)
  then show ?thesis using k by (metis dvd_triv_left nonzero_mult_div_cancel_left less_irrefl)
next
  case False
  have r: "0 \<le> n mod k + 1" "n mod k + 1 < k"
    using False k pos_mod_bound [of k n] pos_mod_sign [of k n] by linarith+
  have "n + 1 = k * (n div k) + (n mod k + 1)"
    using mult_div_mod_eq [of k n] by simp
  then have "(n + 1) div k = n div k" "(n + 1) mod k = n mod k + 1"
    using r by (rule int_div_pos_eq, rule int_mod_pos_eq)
  moreover have "\<not> k dvd n + 1"
    using calculation(2) pos_mod_sign [OF k, of n] by (simp add: dvd_eq_mod_eq_0)
  ultimately show ?thesis by simp
qed

lemma year_num_step: "year_num n \<le> year_num (n + 1)"
proof -
  have "(36524::int) dvd n + 1" if "(146096::int) dvd n + 1"
    using dvd_trans [OF _ that, of 36524] by simp
  then show ?thesis by (auto simp: year_num_def div_succ)
qed

lemma year_num_mono: "a \<le> b \<Longrightarrow> year_num a \<le> year_num b"
  by (induction rule: int_ge_induct) (auto intro: order_trans [OF _ year_num_step])

lemma year_ends_check:
  "list_all (\<lambda>y. 365 * y \<le> year_num (year_start y) \<and> year_num (year_last y) < 365 * (y + 1)
     \<and> year_last y = year_start y + (if leap (y + 1) then 365 else 364)) [0..399]"
  by code_simp

lemma year_ends:
  assumes "0 \<le> y" "y < 400"
  shows "365 * y \<le> year_num (year_start y)" "year_num (year_last y) < 365 * (y + 1)"
    "year_last y = year_start y + (if leap (y + 1) then 365 else 364)"
proof -
  have "y \<in> set [0..399]" using assms by simp
  with year_ends_check show "365 * y \<le> year_num (year_start y)"
    "year_num (year_last y) < 365 * (y + 1)"
    "year_last y = year_start y + (if leap (y + 1) then 365 else 364)"
    unfolding list_all_iff by blast+
qed

text \<open>Every day of an era lies in the year \<open>yoe\<close> computes, and that year is unique.\<close>

lemma yoe_bounds:
  assumes "0 \<le> n" "n < 146097"
  shows "0 \<le> yoe n" "yoe n < 400"
proof -
  have "year_num 0 \<le> year_num n" "year_num n \<le> year_num 146096"
    using assms by (auto intro: year_num_mono)
  moreover have "year_num 0 = 0" "year_num 146096 = 145999"
    by (simp_all add: year_num_def)
  ultimately show "0 \<le> yoe n" "yoe n < 400" by (simp_all add: yoe_def)
qed

lemma yoe_unique:
  assumes "0 \<le> y" "y < 400" "year_start y \<le> n" "n \<le> year_last y"
  shows "yoe n = y"
proof -
  have "365 * y \<le> year_num n" "year_num n < 365 * (y + 1)"
    using year_ends [OF assms(1,2)] year_num_mono [OF assms(3)] year_num_mono [OF assms(4)]
    by linarith+
  then show ?thesis by (simp add: yoe_def)
qed

lemma year_last_next: "y < 399 \<Longrightarrow> year_start (y + 1) = year_last y + 1"
  by (simp add: year_last_def)

lemma yoe_range:
  assumes n: "0 \<le> n" "n < 146097"
  shows "year_start (yoe n) \<le> n" "n \<le> year_last (yoe n)"
proof -
  define y where "y = yoe n"
  have y: "0 \<le> y" "y < 400" using yoe_bounds [OF n] by (simp_all add: y_def)
  have num: "365 * y \<le> year_num n" "year_num n < 365 * (y + 1)"
    by (simp_all add: y_def yoe_def)
  show "year_start (yoe n) \<le> n"
  proof (rule ccontr)
    assume "\<not> ?thesis"
    then have less: "n < year_start y" by (simp add: y_def)
    moreover have "year_start 0 = 0" by (simp add: year_start_def)
    ultimately have "0 < y" using n y by (cases "y = 0") auto
    then have "n \<le> year_last (y - 1)"
      using less year_last_next [of "y - 1"] y by simp
    then have "year_num n < 365 * y"
      using year_num_mono [of n] year_ends(2) [of "y - 1"] \<open>0 < y\<close> y by fastforce
    with num show False by simp
  qed
  show "n \<le> year_last (yoe n)"
  proof (rule ccontr)
    assume "\<not> ?thesis"
    then have less: "year_last y < n" by (simp add: y_def)
    moreover have "year_last 399 = 146096" by (simp add: year_last_def year_start_def)
    ultimately have "y < 399" using n y by (cases "y = 399") auto
    then have "year_start (y + 1) \<le> n" using less year_last_next [of y] by simp
    then have "365 * (y + 1) \<le> year_num n"
      using year_num_mono [of _ n] year_ends(1) [of "y + 1"] \<open>y < 399\<close> y by fastforce
    with num show False by simp
  qed
qed

text \<open>Months, counted from March.\<close>

definition month_start :: "int \<Rightarrow> int" where
  "month_start p = (153 * p + 2) div 5"

definition month_of_yday :: "int \<Rightarrow> int" where
  "month_of_yday n = (5 * n + 2) div 153"

lemma month_of_yday_check:
  "list_all (\<lambda>n. 0 \<le> month_of_yday n \<and> month_of_yday n \<le> 11
     \<and> month_start (month_of_yday n) \<le> n \<and> n < month_start (month_of_yday n + 1)) [0..365]"
  by code_simp

lemma month_of_yday_range:
  assumes "0 \<le> n" "n \<le> 365"
  shows "0 \<le> month_of_yday n" "month_of_yday n \<le> 11"
    "month_start (month_of_yday n) \<le> n" "n < month_start (month_of_yday n + 1)"
proof -
  have "n \<in> set [0..365]" using assms by simp
  with month_of_yday_check show "0 \<le> month_of_yday n" "month_of_yday n \<le> 11"
    "month_start (month_of_yday n) \<le> n" "n < month_start (month_of_yday n + 1)"
    unfolding list_all_iff by blast+
qed

lemma month_start_mono: "p \<le> q \<Longrightarrow> month_start p \<le> month_start q"
  by (simp add: month_start_def zdiv_mono1)

lemma month_of_yday_unique:
  assumes "0 \<le> p" "month_start p \<le> n" "n < month_start (p + 1)" "n \<le> 365"
  shows "month_of_yday n = p"
proof -
  have "month_start 0 = 0" by (simp add: month_start_def)
  then have n: "0 \<le> n" using month_start_mono [OF assms(1)] assms(2) by linarith
  have "month_of_yday n + 1 \<le> p \<Longrightarrow> False" "p + 1 \<le> month_of_yday n \<Longrightarrow> False"
    using month_of_yday_range(3,4) [OF n assms(4)] assms(2,3)
      month_start_mono [of "month_of_yday n + 1" p] month_start_mono [of "p + 1" "month_of_yday n"]
    by linarith+
  then show ?thesis by (cases "month_of_yday n" p rule: linorder_cases) auto
qed

section \<open>The two conversions\<close>

definition march_month :: "int \<Rightarrow> int" where
  "march_month m = (if m > 2 then m - 3 else m + 9)"

definition civil_month :: "int \<Rightarrow> int" where
  "civil_month p = (if p < 10 then p + 3 else p - 9)"

definition march_year :: "int \<Rightarrow> int \<Rightarrow> int" where
  "march_year y m = y - (if m \<le> 2 then 1 else 0)"

definition valid_date :: "int \<Rightarrow> int \<Rightarrow> int \<Rightarrow> bool" where
  "valid_date y m d \<longleftrightarrow> 1 \<le> m \<and> m \<le> 12 \<and> 1 \<le> d \<and> d \<le> int (days_in_month y (nat m))"

lemma civil_month_march_month [simp]: "1 \<le> m \<Longrightarrow> m \<le> 12 \<Longrightarrow> civil_month (march_month m) = m"
  by (auto simp: civil_month_def march_month_def)

lemma march_month_civil_month [simp]: "0 \<le> p \<Longrightarrow> p \<le> 11 \<Longrightarrow> march_month (civil_month p) = p"
  by (auto simp: civil_month_def march_month_def)

lemma march_month_range: "1 \<le> m \<Longrightarrow> m \<le> 12 \<Longrightarrow> 0 \<le> march_month m \<and> march_month m \<le> 11"
  by (auto simp: march_month_def)

lemma civil_month_range: "0 \<le> p \<Longrightarrow> p \<le> 11 \<Longrightarrow> 1 \<le> civil_month p \<and> civil_month p \<le> 12"
  by (auto simp: civil_month_def)

lemma civil_from_days_eq:
  assumes "n = (days + 719468) mod 146097" "q = month_of_yday (n - year_start (yoe n))"
  shows "civil_from_days days =
    (yoe n + (days + 719468) div 146097 * 400 + (if civil_month q \<le> 2 then 1 else 0),
     civil_month q, n - year_start (yoe n) - month_start q + 1)"
proof -
  have n: "0 \<le> n" "n < 146097" using assms(1) by simp_all
  have y: "0 \<le> yoe n" "yoe n < 400" using yoe_bounds [OF n] by simp_all
  have num: "0 \<le> year_num n" using year_num_mono [of 0 n] n by (simp add: year_num_def)
  have d: "0 \<le> n - year_start (yoe n)" "n - year_start (yoe n) \<le> 365"
    using yoe_range [OF n] year_ends(3) [OF y] by (auto split: if_splits)
  have q: "0 \<le> q" "q \<le> 11" using month_of_yday_range [OF d] assms(2) by simp_all
  have era: "days + 719468 - (days + 719468) div 146097 * 146097 = n"
    using assms(1) by (simp add: minus_div_mult_eq_mod)
  have yoe': "(n - n sdiv 1460 + n sdiv 36524 - n sdiv 146096) sdiv 365 = yoe n"
    using n num by (simp add: sdiv_nonneg yoe_def year_num_def)
  have start: "n - (365 * yoe n + yoe n sdiv 4 - yoe n sdiv 100) = n - year_start (yoe n)"
    using y by (simp add: sdiv_nonneg year_start_def)
  have mp: "(5 * (n - year_start (yoe n)) + 2) sdiv 153 = q"
    using d assms(2) by (simp add: sdiv_nonneg month_of_yday_def)
  have ms: "(153 * q + 2) sdiv 5 = month_start q"
    using q by (simp add: sdiv_nonneg month_start_def)
  show ?thesis
    unfolding civil_from_days_def Let_def era_floor era yoe' start mp ms civil_month_def
    by simp
qed

lemma days_from_civil_eq:
  assumes "1 \<le> m" "m \<le> 12"
  shows "days_from_civil y m d =
    march_year y m div 400 * 146097 + year_start (march_year y m mod 400)
    + month_start (march_month m) + d - 1 - 719468"
proof -
  have era: "(if march_year y m \<ge> 0 then march_year y m else march_year y m - 399) sdiv 400
      = march_year y m div 400"
    by (rule era_floor)
  have r: "march_year y m - march_year y m div 400 * 400 = march_year y m mod 400"
    by (simp add: minus_div_mult_eq_mod)
  have ms: "(153 * march_month m + 2) sdiv 5 = month_start (march_month m)"
    using march_month_range [OF assms] by (simp add: sdiv_nonneg month_start_def)
  have st: "march_year y m mod 400 * 365 + march_year y m mod 400 sdiv 4
      - march_year y m mod 400 sdiv 100 = year_start (march_year y m mod 400)"
    by (simp add: sdiv_nonneg year_start_def)
  show ?thesis
    unfolding days_from_civil_def Let_def march_year_def [symmetric] march_month_def [symmetric]
      era r ms
    using st by simp
qed

lemma month_start_values:
  "month_start 0 = 0" "month_start 1 = 31" "month_start 2 = 61" "month_start 3 = 92"
  "month_start 4 = 122" "month_start 5 = 153" "month_start 6 = 184" "month_start 7 = 214"
  "month_start 8 = 245" "month_start 9 = 275" "month_start 10 = 306" "month_start 11 = 337"
  "month_start 12 = 367"
  by (simp_all add: month_start_def)

lemma leap_mod_400: "leap (y mod 400 + 1) = leap (y + 1)"
proof -
  have "k dvd y mod 400 + 1 \<longleftrightarrow> k dvd y + 1" if "k dvd 400" for k :: int
  proof -
    have "y + 1 = 400 * (y div 400) + (y mod 400 + 1)" by simp
    then show ?thesis using that by (metis dvd_add_right_iff dvd_mult2)
  qed
  then show ?thesis by (simp add: leap_def)
qed

lemma int_12_cases:
  assumes "1 \<le> m" "m \<le> (12::int)"
  shows "m = 1 \<or> m = 2 \<or> m = 3 \<or> m = 4 \<or> m = 5 \<or> m = 6 \<or> m = 7 \<or> m = 8 \<or> m = 9
    \<or> m = 10 \<or> m = 11 \<or> m = 12"
  using assms by presburger

lemma month_length_start:
  assumes "1 \<le> m" "m \<le> 12" "m \<noteq> 2"
  shows "int (days_in_month y (nat m)) = month_start (march_month m + 1) - month_start (march_month m)"
  using int_12_cases [OF assms(1,2)] assms(3)
  by (auto simp: days_in_month_def march_month_def month_start_values)

lemma february_length: "days_in_month y 2 = (if leap y then 29 else 28)"
  by (simp add: days_in_month_def is_leap_year_leap)

lemma valid_date_yday:
  assumes "valid_date y m d"
  shows "month_start (march_month m) + d - 1 < month_start (march_month m + 1)"
    "0 \<le> month_start (march_month m) + d - 1"
    "year_start (march_year y m mod 400) + month_start (march_month m) + d - 1
      \<le> year_last (march_year y m mod 400)"
proof -
  have m: "1 \<le> m" "m \<le> 12" and d: "1 \<le> d" "d \<le> int (days_in_month y (nat m))"
    using assms by (simp_all add: valid_date_def)
  have p: "0 \<le> march_month m" "march_month m \<le> 11" using march_month_range [OF m] by simp_all
  show "0 \<le> month_start (march_month m) + d - 1"
    using month_start_mono [OF p(1)] d by (simp add: month_start_values)
  have feb: "march_month 2 = 11" by (simp add: march_month_def)
  show lt: "month_start (march_month m) + d - 1 < month_start (march_month m + 1)"
  proof (cases "m = 2")
    case True
    with d show ?thesis by (auto simp: february_length feb month_start_values split: if_splits)
  next
    case False
    with d month_length_start [OF m] show ?thesis by simp
  qed
  have yl: "year_last (march_year y m mod 400) =
      year_start (march_year y m mod 400) + (if leap (march_year y m + 1) then 365 else 364)"
    using year_ends(3) [of "march_year y m mod 400"] by (simp add: leap_mod_400)
  show "year_start (march_year y m mod 400) + month_start (march_month m) + d - 1
      \<le> year_last (march_year y m mod 400)"
  proof (cases "m = 2")
    case True
    then have "march_year y m + 1 = y" by (simp add: march_year_def)
    with True d show ?thesis
      unfolding yl by (auto simp: february_length feb month_start_values split: if_splits)
  next
    case False
    then have "march_month m + 1 \<le> 11" using m by (auto simp: march_month_def)
    then have "month_start (march_month m + 1) \<le> 337"
      using month_start_mono [of "march_month m + 1" 11] by (simp add: month_start_values)
    with lt show ?thesis unfolding yl by auto
  qed
qed

lemma year_start_nonneg: "0 \<le> y \<Longrightarrow> 0 \<le> year_start y"
  using zdiv_mono2 [of y 4 100] by (simp add: year_start_def)

lemma year_last_bound: "0 \<le> y \<Longrightarrow> y < 400 \<Longrightarrow> year_last y < 146097"
proof (cases "y = 399")
  case True
  then show ?thesis by (simp add: year_last_def year_start_def)
next
  case False
  assume y: "0 \<le> y" "y < 400"
  have "365 * (y + 1) + (y + 1) div 4 \<le> 365 * 399 + 399 div 4"
    using y False by (intro add_mono mult_left_mono zdiv_mono1) auto
  moreover have "0 \<le> (y + 1) div 100" using y by simp
  ultimately show ?thesis using False by (simp add: year_last_def year_start_def)
qed

text \<open>A valid date survives the trip through the day count.\<close>

lemma civil_days_roundtrip:
  assumes v: "valid_date y m d"
  shows "civil_from_days (days_from_civil y m d) = (y, m, d)"
proof -
  define Y where "Y = march_year y m"
  define p where "p = march_month m"
  define n where "n = year_start (Y mod 400) + month_start p + d - 1"
  have m: "1 \<le> m" "m \<le> 12" using v by (simp_all add: valid_date_def)
  have p: "0 \<le> p" "p \<le> 11" using march_month_range [OF m] by (simp_all add: p_def)
  note yd = valid_date_yday [OF v, folded Y_def p_def]
  have n: "0 \<le> n" "n < 146097"
    using yd year_start_nonneg [of "Y mod 400"] year_last_bound [of "Y mod 400"]
    by (simp_all add: n_def)
  have days: "days_from_civil y m d + 719468 = Y div 400 * 146097 + n"
    using days_from_civil_eq [OF m, of y d] by (simp add: Y_def p_def n_def)
  then have dm: "(days_from_civil y m d + 719468) div 146097 = Y div 400"
    "n = (days_from_civil y m d + 719468) mod 146097"
    using n by (simp_all add: div_pos_pos_trivial mod_pos_pos_trivial)
  have yn: "yoe n = Y mod 400"
    using yd by (intro yoe_unique) (simp_all add: n_def)
  have "n - year_start (yoe n) \<le> 365"
    using yoe_range [OF n] year_ends(3) [OF yoe_bounds [OF n]] by (auto split: if_splits)
  moreover have nd: "n - year_start (yoe n) = month_start p + d - 1"
    unfolding yn by (simp add: n_def)
  ultimately have "month_of_yday (n - year_start (yoe n)) = p"
    using yd p v by (intro month_of_yday_unique) (simp_all add: valid_date_def)
  then have "civil_from_days (days_from_civil y m d) =
    (Y mod 400 + Y div 400 * 400 + (if civil_month p \<le> 2 then 1 else 0), civil_month p, d)"
    using civil_from_days_eq [OF dm(2) refl] dm(1) yn nd by simp
  then show ?thesis using m by (auto simp: p_def Y_def march_year_def)
qed

text \<open>Every day has a valid date, and the date leads back to the day.\<close>

lemma days_civil_roundtrip:
  assumes c: "civil_from_days days = (y, m, d)"
  shows "valid_date y m d" "days_from_civil y m d = days"
proof -
  define n where "n = (days + 719468) mod 146097"
  define E where "E = (days + 719468) div 146097"
  define Y where "Y = yoe n"
  define k where "k = n - year_start Y"
  define p where "p = month_of_yday k"
  have n: "0 \<le> n" "n < 146097" by (simp_all add: n_def)
  have Y: "0 \<le> Y" "Y < 400" using yoe_bounds [OF n] by (simp_all add: Y_def)
  have k: "0 \<le> k" "k \<le> (if leap (Y + 1) then 365 else 364)"
    using yoe_range [OF n] year_ends(3) [OF Y] by (simp_all add: k_def Y_def)
  then have "k \<le> 365" by (auto split: if_splits)
  note mp = month_of_yday_range [OF k(1) this, folded p_def]
  have ymd: "y = Y + E * 400 + (if civil_month p \<le> 2 then 1 else 0)" "m = civil_month p"
    "d = k - month_start p + 1"
    using trans [OF c [symmetric] civil_from_days_eq [OF n_def, of p]]
    by (auto simp: p_def k_def Y_def E_def)
  have m: "1 \<le> m" "m \<le> 12" using civil_month_range [OF mp(1,2)] by (simp_all add: ymd)
  have my: "march_year y m = Y + 400 * E" and mm: "march_month m = p"
    using mp by (simp_all add: ymd march_year_def)
  have "leap (Y + 1) = leap y" if "m = 2"
  proof -
    have "Y = march_year y m mod 400" using my Y by simp
    moreover have "march_year y m + 1 = y" using that by (simp add: march_year_def)
    ultimately show ?thesis using leap_mod_400 [of "march_year y m"] by simp
  qed
  moreover have "p = 11" if "m = 2" using mm that by (simp add: march_month_def)
  ultimately have "d \<le> int (days_in_month y (nat m))"
    using month_length_start [OF m, of y] mm mp k
    by (cases "m = 2") (auto simp: ymd(3) february_length month_start_values split: if_splits)
  then show "valid_date y m d" using m mp by (simp add: valid_date_def ymd(3))
  have "n + E * 146097 = days + 719468" by (simp add: n_def E_def)
  then show "days_from_civil y m d = days"
    using days_from_civil_eq [OF m, of y d] my mm Y by (simp add: ymd(3) k_def)
qed

text \<open>Days of one month are consecutive, and so are the months.\<close>

lemma days_from_civil_day:
  "1 \<le> m \<Longrightarrow> m \<le> 12 \<Longrightarrow> days_from_civil y m d = days_from_civil y m 1 + d - 1"
  by (simp add: days_from_civil_eq)

lemma valid_date_first: "1 \<le> m \<Longrightarrow> m \<le> 12 \<Longrightarrow> valid_date y m 1"
  using int_12_cases [of m]
  by (auto simp: valid_date_def days_in_month_def)

lemma year_start_next:
  "year_start ((Y + 1) mod 400) + (Y + 1) div 400 * 146097
     = year_start (Y mod 400) + Y div 400 * 146097 + (if leap (Y + 1) then 366 else 365)"
proof -
  have ends: "year_last (Y mod 400) = year_start (Y mod 400) + (if leap (Y + 1) then 365 else 364)"
    using year_ends(3) [of "Y mod 400"] by (simp add: leap_mod_400)
  define q where "q = Y div 400"
  define r where "r = Y mod 400"
  have r: "0 \<le> r" "r < 400" by (simp_all add: r_def)
  have dm: "Y = 400 * q + r" by (simp add: q_def r_def)
  show ?thesis
  proof (cases "r = 399")
    case True
    then have s: "Y + 1 = 400 * (q + 1) + 0" using dm by simp
    have "(Y + 1) mod 400 = 0" "(Y + 1) div 400 = q + 1"
      using int_mod_pos_eq [OF s] int_div_pos_eq [OF s] by simp_all
    then show ?thesis
      using ends True unfolding q_def [symmetric] r_def [symmetric]
      by (simp add: year_last_def year_start_def split: if_splits)
  next
    case False
    have s: "Y + 1 = 400 * q + (r + 1)" using dm by simp
    have "(Y + 1) mod 400 = r + 1" "(Y + 1) div 400 = q"
      using int_mod_pos_eq [OF s] int_div_pos_eq [OF s] r False by simp_all
    then show ?thesis
      using ends False unfolding q_def [symmetric] r_def [symmetric]
      by (simp add: year_last_def split: if_splits)
  qed
qed

definition next_month :: "int \<times> int \<Rightarrow> int \<times> int" where
  "next_month ym = (case ym of (y, m) \<Rightarrow> if m = 12 then (y + 1, 1) else (y, m + 1))"

lemma days_next_month:
  assumes m: "1 \<le> m" "m \<le> 12" and n: "next_month (y, m) = (y', m')"
  shows "days_from_civil y' m' 1 = days_from_civil y m 1 + int (days_in_month y (nat m))"
proof (cases "m = 2")
  case True
  then have "y' = y" "m' = 3" using n by (simp_all add: next_month_def)
  then show ?thesis
    using True year_start_next [of "y - 1"]
    by (simp add: days_from_civil_eq march_year_def march_month_def february_length
        month_start_values split: if_splits)
next
  case False
  then have "march_year y' m' = march_year y m" "march_month m' = march_month m + 1"
    "1 \<le> m'" "m' \<le> 12"
    using m n by (auto simp: next_month_def march_year_def march_month_def split: if_splits)
  then show ?thesis using month_length_start [OF m False] m by (simp add: days_from_civil_eq)
qed

text \<open>The days from the first of a month up to the next first are that month's.\<close>

lemma civil_from_days_in_month:
  assumes m: "1 \<le> m" "m \<le> 12"
    and "days_from_civil y m 1 \<le> t" "t < days_from_civil y m 1 + int (days_in_month y (nat m))"
  shows "civil_from_days t = (y, m, t - days_from_civil y m 1 + 1)"
proof -
  have "valid_date y m (t - days_from_civil y m 1 + 1)"
    using assms by (simp add: valid_date_def)
  from civil_days_roundtrip [OF this] show ?thesis
    using days_from_civil_day [OF m, of y "t - days_from_civil y m 1 + 1"] by simp
qed

section \<open>Timestamps\<close>

definition valid_dt :: "date_time \<Rightarrow> bool" where
  "valid_dt w \<longleftrightarrow> valid_date (dt_year w) (int (dt_month w)) (int (dt_day w))
     \<and> dt_hour w < 24 \<and> dt_minute w < 60 \<and> dt_second w < 60"

text \<open>The time of day of the seconds since midnight.\<close>

definition hour_of :: "int \<Rightarrow> nat" where
  "hour_of r = nat (r div 3600)"

definition minute_of :: "int \<Rightarrow> nat" where
  "minute_of r = nat (r mod 3600 div 60)"

definition second_of :: "int \<Rightarrow> nat" where
  "second_of r = nat (r mod 60)"

lemma second_of_mod: "(r::int) mod 3600 mod 60 = r mod 60"
  by (rule mod_mod_cancel) simp

lemma time_of_day_range:
  assumes "0 \<le> r" "r < 86400"
  shows "hour_of r < 24" "minute_of r < 60" "second_of r < 60"
proof -
  show "hour_of r < 24" using assms by (simp add: hour_of_def nat_less_iff)
  have "r mod 3600 < 3600" by (rule pos_mod_bound) simp
  then show "minute_of r < 60" by (simp add: minute_of_def nat_less_iff)
  show "second_of r < 60" by (simp add: second_of_def nat_less_iff)
qed

lemma time_of_day_sum:
  assumes "0 \<le> r"
  shows "int (hour_of r) * 3600 + int (minute_of r) * 60 + int (second_of r) = r"
proof -
  have 1: "int (hour_of r) = r div 3600" using assms by (simp add: hour_of_def pos_imp_zdiv_nonneg_iff)
  have 2: "int (minute_of r) = r mod 3600 div 60"
    by (simp add: minute_of_def pos_imp_zdiv_nonneg_iff)
  have 3: "int (second_of r) = r mod 3600 mod 60" by (simp add: second_of_def second_of_mod)
  have "r div 3600 * 3600 + (r mod 3600 div 60 * 60 + r mod 3600 mod 60) = r"
    by (simp only: div_mult_mod_eq)
  then show ?thesis unfolding 1 2 3 by (simp only: add.assoc)
qed

lemma time_of_day_unique:
  fixes h m s :: nat
  assumes b: "m < 60" "s < 60"
  defines "r \<equiv> int h * 3600 + int m * 60 + int s"
  shows "hour_of r = h" "minute_of r = m" "second_of r = s"
proof -
  have r: "r = 3600 * int h + (60 * int m + int s)" by (simp add: r_def)
  have h: "r div 3600 = int h" "r mod 3600 = 60 * int m + int s"
    using b by (intro int_div_pos_eq [OF r] int_mod_pos_eq [OF r]; simp)+
  have ms: "(60 * int m + int s) div 60 = int m" "(60 * int m + int s) mod 60 = int s"
    using b by (intro int_div_pos_eq [OF refl] int_mod_pos_eq [OF refl]; simp)+
  show "hour_of r = h" by (simp only: hour_of_def h nat_int)
  show "minute_of r = m" by (simp only: minute_of_def h ms nat_int)
  show "second_of r = s" using second_of_mod [of r] by (simp only: second_of_def h ms nat_int)
qed

lemma from_unix_fields:
  "dt_hour (from_unix s) = hour_of (s mod 86400)"
  "dt_minute (from_unix s) = minute_of (s mod 86400)"
  "dt_second (from_unix s) = second_of (s mod 86400)"
proof -
  have r: "0 \<le> s mod 86400" by simp
  have "s mod 86400 smod 3600 sdiv 60 = s mod 86400 mod 3600 div 60"
    using r by (simp only: smod_nonneg sdiv_nonneg pos_mod_sign zero_less_numeral)
  then show "dt_minute (from_unix s) = minute_of (s mod 86400)"
    by (simp only: from_unix_def Let_def SECONDS_PER_DAY_def minute_of_def prod.case_eq_if
        date_time.select_convs)
  show "dt_hour (from_unix s) = hour_of (s mod 86400)" "dt_second (from_unix s) = second_of (s mod 86400)"
    using r by (simp_all only: from_unix_def Let_def SECONDS_PER_DAY_def hour_of_def second_of_def
        sdiv_nonneg smod_nonneg zero_less_numeral prod.case_eq_if date_time.select_convs)
qed

lemma from_unix_date:
  assumes "civil_from_days (s div 86400) = (y, m, d)"
  shows "dt_year (from_unix s) = y" "dt_month (from_unix s) = nat m" "dt_day (from_unix s) = nat d"
  using assms by (simp_all add: from_unix_def Let_def SECONDS_PER_DAY_def)

lemma from_unix_valid [wf_intros]: "valid_dt (from_unix s)"
proof -
  obtain y m d where c: "civil_from_days (s div 86400) = (y, m, d)" by (metis prod_cases3)
  have r: "0 \<le> s mod 86400" "s mod 86400 < 86400" by simp_all
  have "valid_date y (int (nat m)) (int (nat d))"
    using days_civil_roundtrip(1) [OF c] by (simp add: valid_date_def)
  then show ?thesis
    unfolding valid_dt_def from_unix_date [OF c] from_unix_fields
    using time_of_day_range [OF r] by blast
qed

lemma to_unix_from_unix [simp]: "to_unix (from_unix s) = s"
proof -
  obtain y m d where c: "civil_from_days (s div 86400) = (y, m, d)" by (metis prod_cases3)
  note v = days_civil_roundtrip [OF c]
  have md: "int (nat m) = m" "int (nat d) = d" using v(1) by (simp_all add: valid_date_def)
  have "to_unix (from_unix s) = s div 86400 * 86400 + s mod 86400"
    using time_of_day_sum [of "s mod 86400"]
    unfolding to_unix_def SECONDS_PER_DAY_def from_unix_date [OF c] from_unix_fields md v(2)
    by linarith
  then show ?thesis by simp
qed

lemma to_unix_split:
  assumes "dt_hour w < 24" "dt_minute w < 60" "dt_second w < 60"
  shows "to_unix w div 86400 = days_from_civil (dt_year w) (int (dt_month w)) (int (dt_day w))"
    "to_unix w mod 86400 = int (dt_hour w) * 3600 + int (dt_minute w) * 60 + int (dt_second w)"
proof -
  define r where "r = int (dt_hour w) * 3600 + int (dt_minute w) * 60 + int (dt_second w)"
  have r: "0 \<le> r" "r < 86400" using assms by (simp_all add: r_def)
  have "to_unix w = 86400 * days_from_civil (dt_year w) (int (dt_month w)) (int (dt_day w)) + r"
    by (simp add: to_unix_def SECONDS_PER_DAY_def r_def)
  from int_div_pos_eq [OF this r] int_mod_pos_eq [OF this r]
  show "to_unix w div 86400 = days_from_civil (dt_year w) (int (dt_month w)) (int (dt_day w))"
    "to_unix w mod 86400 = int (dt_hour w) * 3600 + int (dt_minute w) * 60 + int (dt_second w)"
    by (simp_all add: r_def)
qed

lemma from_unix_to_unix:
  assumes "valid_dt w"
  shows "from_unix (to_unix w) = w"
proof -
  have b: "dt_hour w < 24" "dt_minute w < 60" "dt_second w < 60"
    and v: "valid_date (dt_year w) (int (dt_month w)) (int (dt_day w))"
    using assms by (simp_all add: valid_dt_def)
  note sp = to_unix_split [OF b]
  have c: "civil_from_days (to_unix w div 86400) = (dt_year w, int (dt_month w), int (dt_day w))"
    using civil_days_roundtrip [OF v] sp(1) by simp
  show ?thesis
    using from_unix_date [OF c] from_unix_fields [of "to_unix w"]
    unfolding sp(2) time_of_day_unique [OF b(2,3)]
    by (intro date_time.equality) simp_all
qed

end
