(* ===== verification/Cron_Expr.thy ===== *)
theory Cron_Expr
  imports Civil_Time
begin

text \<open>
  Cron expressions: the types and the parser of \<^verbatim>\<open>crates/scheduler/src/cron.rs\<close>. A field is
  a 64-bit mask (\<open>field_set\<close>). The loop that fills a mask adds a \<^verbatim>\<open>u32\<close> step with the
  wrap-around a release build has; it is given fuel, and the constructor \<open>LoopsForever\<close>, which
  the source does not have, stands for the loop not ending within it. \<open>parse_field_returns\<close>
  shows it is never the outcome for the five kinds of field.
\<close>

section \<open>The code\<close>

datatype cron_error =
    WrongFieldCount str nat
  | EmptyExpr str
  | UnknownShorthand str
  | Malformed str str
  | OutOfRange str int nat nat
  | BackwardsRange str nat nat
  | ZeroStep str
  | UnknownName str str
  | LoopsForever

record field_set =
  fs_bits :: u64

definition fs_default :: field_set where
  "fs_default = \<lparr> fs_bits = 0 \<rparr>"

definition fs_contains :: "field_set \<Rightarrow> nat \<Rightarrow> bool" where
  "fs_contains s v \<longleftrightarrow> v < 64 \<and> (fs_bits s AND push_bit v 1) \<noteq> 0"

definition fs_insert :: "field_set \<Rightarrow> nat \<Rightarrow> field_set" where
  "fs_insert s v = (if v < 64 then s\<lparr> fs_bits := fs_bits s OR push_bit v 1 \<rparr> else s)"

definition trailing_zeros :: "u64 \<Rightarrow> nat" where
  "trailing_zeros w = (case find (\<lambda>i. bit w i) [0..<64] of Some i \<Rightarrow> i | None \<Rightarrow> 64)"

definition fs_next_from :: "field_set \<Rightarrow> nat \<Rightarrow> nat option" where
  "fs_next_from s start =
     (if start \<ge> 64 then None
      else let remaining = drop_bit start (fs_bits s)
           in if remaining = 0 then None else Some (start + trailing_zeros remaining))"

record field_kind =
  fk_name :: str
  fk_low :: nat
  fk_high :: nat
  fk_names :: "str list"
  fk_name_base :: nat

definition MINUTE :: field_kind where
  "MINUTE = \<lparr> fk_name = ''minute'', fk_low = 0, fk_high = 59, fk_names = [], fk_name_base = 0 \<rparr>"

definition HOUR :: field_kind where
  "HOUR = \<lparr> fk_name = ''hour'', fk_low = 0, fk_high = 23, fk_names = [], fk_name_base = 0 \<rparr>"

definition DAY_OF_MONTH :: field_kind where
  "DAY_OF_MONTH =
     \<lparr> fk_name = ''day-of-month'', fk_low = 1, fk_high = 31, fk_names = [], fk_name_base = 0 \<rparr>"

definition MONTH :: field_kind where
  "MONTH = \<lparr> fk_name = ''month'', fk_low = 1, fk_high = 12,
     fk_names = [''jan'', ''feb'', ''mar'', ''apr'', ''may'', ''jun'',
                 ''jul'', ''aug'', ''sep'', ''oct'', ''nov'', ''dec''],
     fk_name_base = 1 \<rparr>"

definition DAY_OF_WEEK :: field_kind where
  "DAY_OF_WEEK = \<lparr> fk_name = ''day-of-week'', fk_low = 0, fk_high = 7,
     fk_names = [''sun'', ''mon'', ''tue'', ''wed'', ''thu'', ''fri'', ''sat''],
     fk_name_base = 0 \<rparr>"

record cron =
  cr_minutes :: field_set
  cr_hours :: field_set
  cr_days_of_month :: field_set
  cr_months :: field_set
  cr_days_of_week :: field_set
  cr_dom_restricted :: bool
  cr_dow_restricted :: bool
  cr_text :: str

fun position :: "('a \<Rightarrow> bool) \<Rightarrow> 'a list \<Rightarrow> nat option" where
  "position p [] = None"
| "position p (x # xs) = (if p x then Some 0 else map_option Suc (position p xs))"

definition parse_value :: "str \<Rightarrow> field_kind \<Rightarrow> cron_error + nat" where
  "parse_value raw kind =
     (let value = trim raw
      in if fk_names kind \<noteq> [] \<and> value \<noteq> [] \<and> is_ascii_alphabetic (hd value) then
           (let wanted = to_ascii_lowercase value
            in case position (\<lambda>name. starts_with wanted name) (fk_names kind) of
                 None \<Rightarrow> Inl (UnknownName (fk_name kind) value)
               | Some found \<Rightarrow> Inr (found + fk_name_base kind))
         else
           (case parse_i64 value of
              None \<Rightarrow> Inl (Malformed (fk_name kind) value)
            | Some n \<Rightarrow>
                if n < int (fk_low kind) \<or> n > int (fk_high kind)
                then Inl (OutOfRange (fk_name kind) n (fk_low kind) (fk_high kind))
                else Inr (nat n)))"

definition split_range :: "str \<Rightarrow> (str \<times> str) option" where
  "split_range s =
     (case s of
        [] \<Rightarrow> None
      | c # rest \<Rightarrow> map_option (\<lambda>(a, b). (c # a, b)) (split_once (\<lambda>d. d = CHR ''-'') rest))"

definition parse_step :: "field_kind \<Rightarrow> str \<Rightarrow> cron_error + (str \<times> nat)" where
  "parse_step kind part =
     (case split_once (\<lambda>c. c = CHR ''/'') part of
        Some (rng, step) \<Rightarrow>
          (case parse_u32 (trim step) of
             None \<Rightarrow> Inl (Malformed (fk_name kind) part)
           | Some n \<Rightarrow> if n = 0 then Inl (ZeroStep (fk_name kind)) else Inr (trim rng, n))
      | None \<Rightarrow> Inr (part, 1))"

definition parse_bounds :: "field_kind \<Rightarrow> str \<Rightarrow> nat \<Rightarrow> cron_error + (nat \<times> nat)" where
  "parse_bounds kind rng step =
     (if rng = ''*'' then Inr (fk_low kind, fk_high kind)
      else case split_range rng of
        Some (start, stop) \<Rightarrow>
          and_then (parse_value start kind) (\<lambda>low.
          and_then (parse_value stop kind) (\<lambda>high.
            if low > high then Inl (BackwardsRange (fk_name kind) low high) else Inr (low, high)))
      | None \<Rightarrow>
          and_then (parse_value rng kind) (\<lambda>single.
            if step > 1 then Inr (single, fk_high kind) else Inr (single, single)))"

fun fill_range :: "nat \<Rightarrow> nat \<Rightarrow> nat \<Rightarrow> nat \<Rightarrow> field_set \<Rightarrow> field_set option" where
  "fill_range 0 v high step s = (if v \<le> high then None else Some s)"
| "fill_range (Suc fuel) v high step s =
     (if v \<le> high then fill_range fuel ((v + step) mod 2 ^ 32) high step (fs_insert s v) else Some s)"

definition FILL_FUEL :: nat where
  "FILL_FUEL = 61"

definition parse_part :: "field_kind \<Rightarrow> str \<Rightarrow> str \<Rightarrow> field_set \<Rightarrow> cron_error + field_set" where
  "parse_part kind field raw s =
     (let part = trim raw
      in if part = [] then Inl (Malformed (fk_name kind) field)
         else and_then (parse_step kind part) (\<lambda>(rng, step).
              and_then (parse_bounds kind rng step) (\<lambda>(low, high).
                ok_or LoopsForever (fill_range FILL_FUEL low high step s))))"

fun parse_parts :: "field_kind \<Rightarrow> str \<Rightarrow> str list \<Rightarrow> field_set \<Rightarrow> cron_error + field_set" where
  "parse_parts kind field [] s = Inr s"
| "parse_parts kind field (p # ps) s =
     and_then (parse_part kind field p s) (\<lambda>s'. parse_parts kind field ps s')"

definition parse_field :: "str \<Rightarrow> field_kind \<Rightarrow> cron_error + field_set" where
  "parse_field field kind =
     parse_parts kind field (split_on (\<lambda>c. c = CHR '','') field) fs_default"

definition expand_shorthand :: "str \<Rightarrow> cron_error + str" where
  "expand_shorthand trimmed =
     (case strip_prefix ''@'' trimmed of
        Some shorthand \<Rightarrow>
          (let s = to_ascii_lowercase shorthand
           in if s = ''hourly'' then Inr ''0 * * * *''
              else if s = ''daily'' \<or> s = ''midnight'' then Inr ''0 0 * * *''
              else if s = ''weekly'' then Inr ''0 0 * * 0''
              else if s = ''monthly'' then Inr ''0 0 1 * *''
              else if s = ''yearly'' \<or> s = ''annually'' then Inr ''0 0 1 1 *''
              else Inl (UnknownShorthand trimmed))
      | None \<Rightarrow> Inr trimmed)"

definition fold_sunday :: "field_set \<Rightarrow> field_set" where
  "fold_sunday s =
     (if fs_contains s 7
      then (let s' = fs_insert s 0 in s'\<lparr> fs_bits := fs_bits s' AND NOT (push_bit 7 1) \<rparr>)
      else s)"

definition cron_of_fields :: "str \<Rightarrow> str list \<Rightarrow> cron_error + cron" where
  "cron_of_fields trimmed fs =
     (if length fs \<noteq> 5 then Inl (WrongFieldCount trimmed (length fs))
      else
        and_then (parse_field (fs ! 4) DAY_OF_WEEK) (\<lambda>dow.
        and_then (parse_field (fs ! 0) MINUTE) (\<lambda>minutes.
        and_then (parse_field (fs ! 1) HOUR) (\<lambda>hours.
        and_then (parse_field (fs ! 2) DAY_OF_MONTH) (\<lambda>dom.
        and_then (parse_field (fs ! 3) MONTH) (\<lambda>months.
          Inr \<lparr> cr_minutes = minutes, cr_hours = hours, cr_days_of_month = dom,
                cr_months = months, cr_days_of_week = fold_sunday dow,
                cr_dom_restricted = (fs ! 2 \<noteq> ''*''), cr_dow_restricted = (fs ! 4 \<noteq> ''*''),
                cr_text = trimmed \<rparr>))))))"

definition cron_parse :: "str \<Rightarrow> cron_error + cron" where
  "cron_parse source =
     (let trimmed = trim source
      in if trimmed = [] then Inl (EmptyExpr source)
         else and_then (expand_shorthand trimmed) (\<lambda>expanded.
                cron_of_fields trimmed (split_whitespace expanded)))"

definition cron_to_string :: "cron \<Rightarrow> str" where
  "cron_to_string c = cr_text c"

section \<open>Bit sets\<close>

lemma and_push_bit_eq_0_iff: "v < 64 \<Longrightarrow> (w AND push_bit v 1) \<noteq> 0 \<longleftrightarrow> bit w v" for w :: u64
  by (simp add: and_exp_eq_0_iff_not_bit)

lemma fs_contains_iff: "fs_contains s v \<longleftrightarrow> v < 64 \<and> bit (fs_bits s) v"
  unfolding fs_contains_def using and_push_bit_eq_0_iff by blast

lemma fs_contains_default [simp]: "\<not> fs_contains fs_default v"
  by (simp add: fs_contains_iff fs_default_def)

lemma fs_contains_insert [simp]:
  "fs_contains (fs_insert s v) u \<longleftrightarrow> fs_contains s u \<or> (u = v \<and> v < 64)"
  by (auto simp: fs_contains_iff fs_insert_def bit_or_iff bit_exp_iff)

lemma bit_clear_seven: "bit (NOT (push_bit 7 (1 :: u64))) v \<longleftrightarrow> v < 64 \<and> v \<noteq> 7"
  unfolding bit_not_iff bit_push_bit_iff by (auto simp: bit_1_iff)

lemma fs_contains_fold_sunday:
  "fs_contains (fold_sunday s) v \<longleftrightarrow>
     v \<noteq> 7 \<and> (fs_contains s v \<or> (v = 0 \<and> fs_contains s 7))"
proof (cases "fs_contains s 7")
  case True
  then have "fs_contains (fold_sunday s) v \<longleftrightarrow> v \<noteq> 7 \<and> fs_contains (fs_insert s 0) v"
    unfolding fold_sunday_def Let_def fs_contains_iff
    by (simp add: bit_and_iff bit_clear_seven del: push_bit_of_1) blast
  with True show ?thesis by auto
next
  case False
  then show ?thesis by (auto simp: fold_sunday_def)
qed

lemma trailing_zeros_bit:
  assumes "w \<noteq> 0"
  shows "bit w (trailing_zeros w)" "\<And>i. i < trailing_zeros w \<Longrightarrow> \<not> bit w i" "trailing_zeros w < 64"
proof -
  obtain i where "bit w i" using assms bit_eqI [of w 0] by auto
  then have i: "i < 64" "bit w i" using bit_imp_le_length by fastforce+
  then have "find (bit w) [0..<64] \<noteq> None" by (auto simp: find_None_iff)
  then obtain j where j: "find (bit w) [0..<64] = Some j" by blast
  then have "trailing_zeros w = j" by (simp add: trailing_zeros_def)
  moreover have "bit w j \<and> j < 64 \<and> (\<forall>k < j. \<not> bit w k)"
    using j by (fastforce simp: find_Some_iff)
  ultimately show "bit w (trailing_zeros w)" "\<And>i. i < trailing_zeros w \<Longrightarrow> \<not> bit w i"
    "trailing_zeros w < 64" by simp_all
qed

text \<open>\<open>fs_next_from\<close> is the least member at or above its argument.\<close>

lemma fs_next_from_Some:
  assumes "fs_next_from s a = Some v"
  shows "a \<le> v" "fs_contains s v" "\<And>u. a \<le> u \<Longrightarrow> u < v \<Longrightarrow> \<not> fs_contains s u"
proof -
  define r where "r = drop_bit a (fs_bits s)"
  have r: "r \<noteq> 0" "v = a + trailing_zeros r"
    using assms by (auto simp: fs_next_from_def Let_def r_def split: if_splits)
  note tz = trailing_zeros_bit [OF r(1)]
  show "a \<le> v" by (simp add: r)
  have b: "bit (fs_bits s) v" using tz(1) by (simp add: r(2) r_def bit_drop_bit_eq)
  then show "fs_contains s v" using bit_imp_le_length [OF b] by (simp add: fs_contains_iff)
  show "\<not> fs_contains s u" if "a \<le> u" "u < v" for u
    using tz(2) [of "u - a"] that by (auto simp: r(2) r_def bit_drop_bit_eq fs_contains_iff)
qed

lemma fs_next_from_None:
  assumes "fs_next_from s a = None" "a \<le> u"
  shows "\<not> fs_contains s u"
proof (cases "a \<ge> 64")
  case True
  with assms(2) show ?thesis by (simp add: fs_contains_iff)
next
  case False
  with assms(1) have "drop_bit a (fs_bits s) = 0"
    by (simp add: fs_next_from_def Let_def split: if_splits)
  then have "\<not> bit (drop_bit a (fs_bits s)) (u - a)" by simp
  with assms(2) show ?thesis by (simp add: bit_drop_bit_eq fs_contains_iff)
qed

section \<open>The loop that fills a mask\<close>

text \<open>Only values up to \<open>high\<close> are ever inserted, whatever the step.\<close>

lemma fill_range_contains:
  "fill_range fuel v high step s = Some s' \<Longrightarrow> fs_contains s' u \<Longrightarrow> fs_contains s u \<or> u \<le> high"
  by (induction fuel v high step s rule: fill_range.induct) (auto split: if_splits)

lemma fill_range_keeps:
  "fill_range fuel v high step s = Some s' \<Longrightarrow> fs_contains s u \<Longrightarrow> fs_contains s' u"
  by (induction fuel v high step s rule: fill_range.induct) (auto split: if_splits)

lemma fill_range_first:
  "fill_range fuel v high step s = Some s' \<Longrightarrow> v \<le> high \<Longrightarrow> v < 64 \<Longrightarrow> fs_contains s' v"
  by (cases fuel) (auto intro: fill_range_keeps)

text \<open>More fuel does not change the outcome.\<close>

lemma fill_range_mono:
  "fill_range fuel v high step s = Some s' \<Longrightarrow> fill_range (fuel + k) v high step s = Some s'"
proof (induction fuel v high step s rule: fill_range.induct)
  case (1 v high step s)
  then show ?case by (cases k) (auto split: if_splits)
qed (auto split: if_splits)

text \<open>A step that cannot wrap climbs past \<open>high\<close>.\<close>

lemma fill_range_climbs:
  assumes "0 < step" "high + step < 2 ^ 32" "high < v + fuel"
  shows "\<exists>s'. fill_range fuel v high step s = Some s'"
  using assms
proof (induction fuel arbitrary: v s)
  case 0
  then show ?case by auto
next
  case (Suc fuel)
  show ?case
  proof (cases "v \<le> high")
    case True
    then have "(v + step) mod 2 ^ 32 = v + step" using Suc.prems by simp
    then show ?thesis using Suc True by simp
  qed simp
qed

text \<open>A step so large that it wraps goes down by its distance to \<open>2\<^sup>3\<^sup>2\<close> each time, and leaves the
  range at the bottom.\<close>

lemma fill_range_descends:
  assumes "v \<le> high" "v < fuel" "high < 2 ^ 31" "high + step \<ge> 2 ^ 32" "step < 2 ^ 32"
  shows "\<exists>s'. fill_range fuel v high step s = Some s'"
  using assms
proof (induction fuel arbitrary: v s)
  case 0
  then show ?case by simp
next
  case (Suc fuel)
  show ?case
  proof (cases "v + step < 2 ^ 32")
    case True
    then have "\<not> (v + step) mod 2 ^ 32 \<le> high" using Suc.prems by simp
    then show ?thesis using Suc.prems by (cases fuel) auto
  next
    case False
    then have e: "(v + step) mod 2 ^ 32 = v + step - 2 ^ 32"
      using Suc.prems by (simp add: mod_if)
    with False Suc.prems have "(v + step) mod 2 ^ 32 < v" by simp
    with Suc show ?thesis by simp
  qed
qed

lemma fill_range_returns:
  assumes "v \<le> high" "high \<le> 59" "0 < step" "step < 2 ^ 32"
  shows "\<exists>s'. fill_range FILL_FUEL v high step s = Some s'"
proof (cases "high + step < 2 ^ 32")
  case True
  with assms show ?thesis by (intro fill_range_climbs) (simp_all add: FILL_FUEL_def)
next
  case False
  with assms show ?thesis by (intro fill_range_descends) (simp_all add: FILL_FUEL_def)
qed

text \<open>With a step that cannot wrap, the values inserted are exactly the arithmetic progression.\<close>

lemma fill_range_values:
  assumes "fill_range fuel v high step s = Some s'" "high + step < 2 ^ 32" "0 < step" "high < 64"
  shows "fs_contains s' u \<longleftrightarrow> fs_contains s u \<or> (u \<le> high \<and> v \<le> u \<and> step dvd u - v)"
  using assms
proof (induction fuel v high step s rule: fill_range.induct)
  case (1 v high step s)
  then show ?case by (auto split: if_splits)
next
  case (2 fuel v high step s)
  show ?case
  proof (cases "v \<le> high")
    case True
    then have m: "(v + step) mod 2 ^ 32 = v + step" using "2.prems" by simp
    have D: "step dvd u - v \<longleftrightarrow> u = v \<or> (v + step \<le> u \<and> step dvd u - (v + step))" if le: "v \<le> u"
    proof -
      obtain k where u: "u = v + k" using le_Suc_ex [OF le] by blast
      have "step dvd k \<longleftrightarrow> k = 0 \<or> (step \<le> k \<and> step dvd k - step)"
        by (cases "k = 0") (auto simp: dvd_minus_self dest: dvd_imp_le)
      then show ?thesis by (auto simp: u)
    qed
    have "fill_range fuel ((v + step) mod 2 ^ 32) high step (fs_insert s v) = Some s'"
      using "2.prems"(1) True by simp
    from "2.IH" [OF True this "2.prems"(2-4)]
    have IH: "fs_contains s' u \<longleftrightarrow> (fs_contains s u \<or> u = v)
        \<or> (u \<le> high \<and> v + step \<le> u \<and> step dvd u - (v + step))"
      using True "2.prems"(4) unfolding m by simp
    show ?thesis
    proof (cases "v \<le> u")
      case le: True
      show ?thesis unfolding IH D [OF le] using le True by blast
    next
      case False
      then show ?thesis unfolding IH by simp
    qed
  next
    case False
    then show ?thesis using "2.prems" by auto
  qed
qed

section \<open>What a parsed field matches\<close>

text \<open>The five kinds of field satisfy \<open>kind_ok\<close>, all that the parser needs to know of them.\<close>

definition kind_ok :: "field_kind \<Rightarrow> bool" where
  "kind_ok k \<longleftrightarrow> fk_low k \<le> fk_high k \<and> fk_high k \<le> 59
     \<and> (fk_names k \<noteq> [] \<longrightarrow> fk_low k \<le> fk_name_base k
          \<and> fk_name_base k + length (fk_names k) \<le> fk_high k + 1)"

lemma kind_ok_kinds [simp, wf_intros]:
  "kind_ok MINUTE" "kind_ok HOUR" "kind_ok DAY_OF_MONTH" "kind_ok MONTH" "kind_ok DAY_OF_WEEK"
  by (simp_all add: kind_ok_def MINUTE_def HOUR_def DAY_OF_MONTH_def MONTH_def DAY_OF_WEEK_def)

lemma position_Some: "position p xs = Some i \<Longrightarrow> i < length xs \<and> p (xs ! i)"
  by (induction xs arbitrary: i) (auto split: if_splits)

lemma parse_value_range:
  assumes "kind_ok k" "parse_value t k = Inr n"
  shows "fk_low k \<le> n \<and> n \<le> fk_high k"
proof (cases "fk_names k \<noteq> [] \<and> trim t \<noteq> [] \<and> is_ascii_alphabetic (hd (trim t))")
  case True
  with assms(2) obtain i where "position (\<lambda>name. starts_with (to_ascii_lowercase (trim t)) name)
      (fk_names k) = Some i" "n = i + fk_name_base k"
    by (auto simp: parse_value_def Let_def split: option.splits)
  with True assms(1) position_Some show ?thesis by (fastforce simp: kind_ok_def)
next
  case False
  with assms(2) show ?thesis
    by (auto simp: parse_value_def Let_def split: option.splits if_splits)
qed

lemma parse_value_not_forever [simp]: "parse_value t k \<noteq> Inl LoopsForever"
  by (auto simp: parse_value_def Let_def split: option.splits)

lemma parse_step_range: "parse_step k part = Inr (rng, n) \<Longrightarrow> 0 < n \<and> n < 2 ^ 32"
  by (auto simp: parse_step_def parse_u32_def split: option.splits if_splits dest!: parse_unsigned_bound)

lemma parse_step_not_forever [simp]: "parse_step k part \<noteq> Inl LoopsForever"
  by (auto simp: parse_step_def split: option.splits)

lemma parse_bounds_range:
  assumes "kind_ok k" "parse_bounds k rng step = Inr (low, high)"
  shows "fk_low k \<le> low \<and> low \<le> high \<and> high \<le> fk_high k"
  using assms parse_value_range [OF assms(1)]
  by (fastforce simp: parse_bounds_def and_then_eq_Inr_iff kind_ok_def split: option.splits if_splits)

lemma parse_bounds_not_forever [simp]: "parse_bounds k rng step \<noteq> Inl LoopsForever"
  by (auto simp: parse_bounds_def and_then_eq_Inl_iff split: option.splits if_splits)

lemma parse_part_Inr:
  assumes "parse_part k f raw s = Inr s'"
  obtains rng step low high where
    "parse_step k (trim raw) = Inr (rng, step)" "parse_bounds k rng step = Inr (low, high)"
    "fill_range FILL_FUEL low high step s = Some s'"
  using assms
  by (auto simp: parse_part_def Let_def and_then_eq_Inr_iff split: if_splits)

lemma parse_part_not_forever:
  assumes "kind_ok k"
  shows "parse_part k f raw s \<noteq> Inl LoopsForever"
proof
  assume "parse_part k f raw s = Inl LoopsForever"
  then obtain rng step low high where ps: "parse_step k (trim raw) = Inr (rng, step)"
    and pb: "parse_bounds k rng step = Inr (low, high)"
    and none: "fill_range FILL_FUEL low high step s = None"
    by (auto simp: parse_part_def Let_def and_then_eq_Inl_iff ok_or_def
        split: if_splits option.splits)
  from parse_bounds_range [OF assms pb] assms have "low \<le> high" "high \<le> 59"
    by (simp_all add: kind_ok_def)
  then obtain s' where "fill_range FILL_FUEL low high step s = Some s'"
    using fill_range_returns [of low high step s] parse_step_range [OF ps] by blast
  with none show False by simp
qed

lemma parse_parts_not_forever: "kind_ok k \<Longrightarrow> parse_parts k f ps s \<noteq> Inl LoopsForever"
  by (induction ps arbitrary: s) (auto simp: and_then_eq_Inl_iff parse_part_not_forever)

lemma parse_field_returns: "kind_ok k \<Longrightarrow> parse_field f k \<noteq> Inl LoopsForever"
  by (simp add: parse_field_def parse_parts_not_forever)

lemma parse_parts_upper:
  "kind_ok k \<Longrightarrow> parse_parts k f ps s = Inr s' \<Longrightarrow> fs_contains s' v
     \<Longrightarrow> fs_contains s v \<or> v \<le> fk_high k"
proof (induction ps arbitrary: s)
  case (Cons p ps)
  then obtain t where t: "parse_part k f p s = Inr t" "parse_parts k f ps t = Inr s'"
    by (auto simp: and_then_eq_Inr_iff)
  from t(1) obtain rng step low high where "parse_bounds k rng step = Inr (low, high)"
    "fill_range FILL_FUEL low high step s = Some t" by (rule parse_part_Inr)
  with parse_bounds_range [OF Cons.prems(1)] fill_range_contains
  have "fs_contains t v \<Longrightarrow> fs_contains s v \<or> v \<le> fk_high k" by fastforce
  with Cons t(2) show ?case by blast
qed simp

lemma parse_field_upper:
  "kind_ok k \<Longrightarrow> parse_field f k = Inr s \<Longrightarrow> fs_contains s v \<Longrightarrow> v \<le> fk_high k"
  using parse_parts_upper by (fastforce simp: parse_field_def)

lemma parse_parts_keeps:
  "parse_parts k f ps s = Inr s' \<Longrightarrow> fs_contains s v \<Longrightarrow> fs_contains s' v"
proof (induction ps arbitrary: s)
  case (Cons p ps)
  then obtain t where t: "parse_part k f p s = Inr t" "parse_parts k f ps t = Inr s'"
    by (auto simp: and_then_eq_Inr_iff)
  from t(1) obtain rng step low high where "fill_range FILL_FUEL low high step s = Some t"
    by (rule parse_part_Inr)
  with Cons t(2) fill_range_keeps show ?case by blast
qed simp

text \<open>A field that parses always matches some value of its range.\<close>

lemma parse_field_nonempty:
  assumes "kind_ok k" "parse_field f k = Inr s"
  shows "\<exists>v. fk_low k \<le> v \<and> v \<le> fk_high k \<and> fs_contains s v"
proof -
  obtain p ps where sp: "split_on (\<lambda>c. c = CHR '','') f = p # ps"
    by (metis neq_Nil_conv split_on_nonempty)
  with assms(2) obtain t where t: "parse_part k f p fs_default = Inr t" "parse_parts k f ps t = Inr s"
    by (auto simp: parse_field_def and_then_eq_Inr_iff)
  from t(1) obtain rng step low high where pb: "parse_bounds k rng step = Inr (low, high)"
    and fr: "fill_range FILL_FUEL low high step fs_default = Some t" by (rule parse_part_Inr)
  note b = parse_bounds_range [OF assms(1) pb]
  then have "fs_contains t low"
    using fr assms(1) by (auto intro!: fill_range_first simp: kind_ok_def)
  with parse_parts_keeps [OF t(2)] b show ?thesis by auto
qed

text \<open>
  What a part of a field denotes, as the grammar in the module's documentation says: the values
  of the range at multiples of the step from its start. \<open>part_fits\<close> rules out the steps with
  which the \<^verbatim>\<open>u32\<close> addition wraps.
\<close>

definition part_denotes :: "field_kind \<Rightarrow> str \<Rightarrow> nat \<Rightarrow> bool" where
  "part_denotes k part v \<longleftrightarrow>
     (case parse_step k (trim part) of
        Inl _ \<Rightarrow> False
      | Inr (rng, step) \<Rightarrow>
          (case parse_bounds k rng step of
             Inl _ \<Rightarrow> False
           | Inr (low, high) \<Rightarrow> low \<le> v \<and> v \<le> high \<and> step dvd v - low))"

definition part_fits :: "field_kind \<Rightarrow> str \<Rightarrow> bool" where
  "part_fits k part \<longleftrightarrow>
     (case parse_step k (trim part) of
        Inl _ \<Rightarrow> True
      | Inr (rng, step) \<Rightarrow> fk_high k + step < 2 ^ 32)"

definition field_denotes :: "field_kind \<Rightarrow> str \<Rightarrow> nat \<Rightarrow> bool" where
  "field_denotes k f v \<longleftrightarrow> (\<exists>part \<in> set (split_on (\<lambda>c. c = CHR '','') f). part_denotes k part v)"

definition field_fits :: "field_kind \<Rightarrow> str \<Rightarrow> bool" where
  "field_fits k f \<longleftrightarrow> list_all (part_fits k) (split_on (\<lambda>c. c = CHR '','') f)"

lemma parse_part_denotes:
  assumes "kind_ok k" "part_fits k part" "parse_part k f part s = Inr s'"
  shows "fs_contains s' v \<longleftrightarrow> fs_contains s v \<or> part_denotes k part v"
proof -
  from assms(3) obtain rng step low high where ps: "parse_step k (trim part) = Inr (rng, step)"
    and pb: "parse_bounds k rng step = Inr (low, high)"
    and fr: "fill_range FILL_FUEL low high step s = Some s'" by (rule parse_part_Inr)
  have "high + step < 2 ^ 32" "0 < step" "high < 64"
    using parse_bounds_range [OF assms(1) pb] parse_step_range [OF ps] assms(1,2) ps
    by (auto simp: part_fits_def kind_ok_def)
  from fill_range_values [OF fr this] show ?thesis by (auto simp: part_denotes_def ps pb)
qed

lemma parse_parts_denotes:
  "kind_ok k \<Longrightarrow> list_all (part_fits k) ps \<Longrightarrow> parse_parts k f ps s = Inr s'
     \<Longrightarrow> fs_contains s' v \<longleftrightarrow> fs_contains s v \<or> (\<exists>part \<in> set ps. part_denotes k part v)"
proof (induction ps arbitrary: s)
  case (Cons p ps)
  then obtain t where t: "parse_part k f p s = Inr t" "parse_parts k f ps t = Inr s'"
    by (auto simp: and_then_eq_Inr_iff)
  with Cons parse_part_denotes [OF Cons.prems(1) _ t(1)] show ?case by auto
qed simp

lemma parse_field_denotes:
  "kind_ok k \<Longrightarrow> field_fits k f \<Longrightarrow> parse_field f k = Inr s
     \<Longrightarrow> fs_contains s v \<longleftrightarrow> field_denotes k f v"
  unfolding parse_field_def field_fits_def field_denotes_def
  by (simp add: parse_parts_denotes)

section \<open>Whole expressions\<close>

definition wf_cron :: "cron \<Rightarrow> bool" where
  "wf_cron c \<longleftrightarrow>
     (\<forall>v. fs_contains (cr_minutes c) v \<longrightarrow> v \<le> 59) \<and> (\<forall>v. fs_contains (cr_hours c) v \<longrightarrow> v \<le> 23)
     \<and> (\<forall>v. fs_contains (cr_days_of_month c) v \<longrightarrow> v \<le> 31)
     \<and> (\<forall>v. fs_contains (cr_months c) v \<longrightarrow> v \<le> 12)
     \<and> (\<forall>v. fs_contains (cr_days_of_week c) v \<longrightarrow> v \<le> 6)"

lemma cron_parse_Inr:
  assumes "cron_parse t = Inr c"
  obtains e f0 f1 f2 f3 f4 dow where
    "trim t \<noteq> []" "expand_shorthand (trim t) = Inr e" "split_whitespace e = [f0, f1, f2, f3, f4]"
    "parse_field f4 DAY_OF_WEEK = Inr dow" "parse_field f0 MINUTE = Inr (cr_minutes c)"
    "parse_field f1 HOUR = Inr (cr_hours c)" "parse_field f2 DAY_OF_MONTH = Inr (cr_days_of_month c)"
    "parse_field f3 MONTH = Inr (cr_months c)" "cr_days_of_week c = fold_sunday dow"
    "cr_dom_restricted c = (f2 \<noteq> ''*'')" "cr_dow_restricted c = (f4 \<noteq> ''*'')" "cr_text c = trim t"
proof -
  from assms obtain e where ne: "trim t \<noteq> []" and e: "expand_shorthand (trim t) = Inr e"
    and c: "cron_of_fields (trim t) (split_whitespace e) = Inr c"
    by (auto simp: cron_parse_def Let_def and_then_eq_Inr_iff split: if_splits)
  from c have "length (split_whitespace e) = 5"
    by (simp add: cron_of_fields_def split: if_splits)
  then obtain f0 f1 f2 f3 f4 where f: "split_whitespace e = [f0, f1, f2, f3, f4]"
    by (auto simp: length_Suc_conv numeral_eq_Suc)
  show thesis
    using c unfolding f cron_of_fields_def
    by (auto simp: and_then_eq_Inr_iff intro!: that [OF ne e f])
qed

lemma cron_parse_wf [wf_intros]:
  assumes "cron_parse t = Inr c"
  shows "wf_cron c"
proof -
  from assms obtain f0 f1 f2 f3 f4 dow where
    "parse_field f4 DAY_OF_WEEK = Inr dow" "parse_field f0 MINUTE = Inr (cr_minutes c)"
    "parse_field f1 HOUR = Inr (cr_hours c)" "parse_field f2 DAY_OF_MONTH = Inr (cr_days_of_month c)"
    "parse_field f3 MONTH = Inr (cr_months c)" and sun: "cr_days_of_week c = fold_sunday dow"
    by (rule cron_parse_Inr)
  note up = this(1-5) [THEN parse_field_upper [rotated]]
  have "fk_high DAY_OF_WEEK = 7" by (simp add: DAY_OF_WEEK_def)
  then have "v \<le> 6" if "fs_contains (cr_days_of_week c) v" for v
    using that up(1) [of v] unfolding sun fs_contains_fold_sunday by force
  moreover have "fk_high MINUTE = 59" "fk_high HOUR = 23" "fk_high DAY_OF_MONTH = 31"
    "fk_high MONTH = 12"
    by (simp_all add: MINUTE_def HOUR_def DAY_OF_MONTH_def MONTH_def)
  ultimately show ?thesis using up(2-5) unfolding wf_cron_def by fastforce
qed

lemma cron_parse_returns: "cron_parse t \<noteq> Inl LoopsForever"
  by (auto simp: cron_parse_def cron_of_fields_def Let_def and_then_eq_Inl_iff parse_field_returns
      expand_shorthand_def split: option.splits if_splits)

lemma cron_parse_to_string: "cron_parse t = Inr c \<Longrightarrow> cron_parse (cron_to_string c) = Inr c"
proof -
  assume p: "cron_parse t = Inr c"
  then have "cr_text c = trim t" "trim t \<noteq> []" by (auto elim!: cron_parse_Inr)
  then have "cron_parse (cr_text c) = cron_parse t"
    by (simp add: cron_parse_def)
  with p show ?thesis by (simp add: cron_to_string_def)
qed

end
