(* ===== verification/Firing.thy ===== *)
theory Firing
  imports Etl_Prelude
begin

text \<open>
  The contract between the scheduler's loop and the two triggers that are due at a time
  (\<^verbatim>\<open>every\<close> and \<^verbatim>\<open>cron\<close>): \<open>next c a\<close> is the first instant strictly after \<open>a\<close> at which
  trigger \<open>c\<close> fires. The scheduler never looks inside a trigger; what it relies on is proved
  here once, from the contract. It is interpreted for intervals in \<open>Every_Interval\<close> and for cron
  expressions in \<open>Cron_Next\<close>.
\<close>

locale firing =
  fixes good :: "'c \<Rightarrow> bool"
    and fires :: "'c \<Rightarrow> int \<Rightarrow> bool"
    and next_fire :: "'c \<Rightarrow> int \<Rightarrow> int option"
  assumes next_later: "good c \<Longrightarrow> next_fire c a = Some t \<Longrightarrow> a < t"
    and next_fires: "good c \<Longrightarrow> next_fire c a = Some t \<Longrightarrow> fires c t"
    and next_least: "good c \<Longrightarrow> next_fire c a = Some t \<Longrightarrow> a < u \<Longrightarrow> u < t \<Longrightarrow> \<not> fires c u"
begin

text \<open>A later start is never answered with an earlier firing.\<close>

lemma next_mono:
  assumes "good c" "a \<le> b" "next_fire c a = Some s" "next_fire c b = Some t"
  shows "s \<le> t"
proof (rule ccontr)
  assume "\<not> s \<le> t"
  moreover have "a < t" using next_later [OF assms(1,4)] assms(2) by simp
  ultimately have "\<not> fires c t" using next_least [OF assms(1,3)] by simp
  with next_fires [OF assms(1,4)] show False by contradiction
qed

text \<open>Asking again before the answer has come gives the same answer.\<close>

lemma next_stable:
  assumes "good c" "a \<le> b" "next_fire c a = Some s" "b < s" "next_fire c b = Some t"
  shows "t = s"
proof (rule antisym)
  show "s \<le> t" by (rule next_mono [OF assms(1-3,5)])
  show "t \<le> s"
  proof (rule ccontr)
    assume "\<not> t \<le> s"
    with next_least [OF assms(1,5) assms(4)] next_fires [OF assms(1,3)] show False by simp
  qed
qed

text \<open>
  A run that ends at or after a firing is not followed by another run for that firing: the
  instants a schedule is due at strictly increase.
\<close>

lemma next_after_finish:
  assumes "good c" "due \<le> finished" "next_fire c finished = Some t"
  shows "due < t"
  using next_later [OF assms(1,3)] assms(2) by simp

end

end
