(* ===== verification/Cron_Next.thy ===== *)
theory Cron_Next
  imports Cron_Expr Firing
begin

text \<open>
  When a cron expression fires: \<^verbatim>\<open>Cron::matches\<close>, \<^verbatim>\<open>Cron::day_matches\<close> and
  \<^verbatim>\<open>Cron::next_after\<close> of \<^verbatim>\<open>crates/scheduler/src/cron.rs\<close>. One turn of the source's loop is
  \<open>cron_step\<close>: \<open>Inl\<close> a new probe to go on from, \<open>Inr\<close> the instant to return. \<open>cron_scan\<close> is
  the loop; its termination is proved from \<open>cron_step_progress\<close>. The lemmas show that every
  skip passes over no minute that matches.
\<close>

section \<open>The code\<close>

definition SEARCH_YEARS :: int where
  "SEARCH_YEARS = 5"

definition day_matches :: "cron \<Rightarrow> date_time \<Rightarrow> bool" where
  "day_matches c w =
     (let by_month_day = fs_contains (cr_days_of_month c) (dt_day w);
          by_week_day = fs_contains (cr_days_of_week c) (weekday w)
      in case (cr_dom_restricted c, cr_dow_restricted c) of
           (True, True) \<Rightarrow> by_month_day \<or> by_week_day
         | (True, False) \<Rightarrow> by_month_day
         | (False, True) \<Rightarrow> by_week_day
         | (False, False) \<Rightarrow> True)"

definition cron_matches :: "cron \<Rightarrow> date_time \<Rightarrow> bool" where
  "cron_matches c w \<longleftrightarrow> fs_contains (cr_months c) (dt_month w) \<and> day_matches c w
     \<and> fs_contains (cr_hours c) (dt_hour w) \<and> fs_contains (cr_minutes c) (dt_minute w)"

definition start_of_next_month :: "date_time \<Rightarrow> int" where
  "start_of_next_month w =
     (case (if dt_month w = 12 then (dt_year w + 1, 1) else (dt_year w, dt_month w + 1)) of
        (y, m) \<Rightarrow> to_unix \<lparr> dt_year = y, dt_month = m, dt_day = 1,
                            dt_hour = 0, dt_minute = 0, dt_second = 0 \<rparr>)"

definition start_of_next_day :: "date_time \<Rightarrow> int" where
  "start_of_next_day w =
     (if dt_day w < days_in_month (dt_year w) (dt_month w)
      then to_unix (w\<lparr> dt_day := dt_day w + 1, dt_hour := 0, dt_minute := 0, dt_second := 0 \<rparr>)
      else start_of_next_month w)"

definition cron_step :: "cron \<Rightarrow> int \<Rightarrow> int + int" where
  "cron_step c probe =
     (let w = from_unix probe
      in if \<not> fs_contains (cr_months c) (dt_month w) then Inl (start_of_next_month w)
         else if \<not> day_matches c w then Inl (start_of_next_day w)
         else case fs_next_from (cr_hours c) (dt_hour w) of
                None \<Rightarrow> Inl (start_of_next_day w)
              | Some hour \<Rightarrow>
                  (let from_minute = (if hour = dt_hour w then dt_minute w else 0)
                   in case fs_next_from (cr_minutes c) from_minute of
                        Some minute \<Rightarrow>
                          Inr (to_unix (w\<lparr> dt_hour := hour, dt_minute := minute, dt_second := 0 \<rparr>))
                      | None \<Rightarrow>
                          Inl (to_unix (w\<lparr> dt_hour := hour, dt_minute := 59, dt_second := 0 \<rparr>) + 60)))"

section \<open>Calendar arithmetic on timestamps\<close>

lemma hour_minute_less:
  assumes "0 \<le> r" "r < int h * 3600 + int m * 60" "m \<le> 60"
  shows "hour_of r < h \<or> (hour_of r = h \<and> minute_of r < m)"
proof -
  have "int (hour_of r) * 3600 + int (minute_of r) * 60 \<le> r"
    using time_of_day_sum [OF assms(1)] by linarith
  with assms(2,3) show ?thesis by linarith
qed

lemma hour_minute_mono:
  assumes "0 \<le> r" "r \<le> r'" "r' < 86400"
  shows "hour_of r \<le> hour_of r'" "hour_of r = hour_of r' \<Longrightarrow> minute_of r \<le> minute_of r'"
proof -
  note t = time_of_day_sum [of r] time_of_day_sum [of r'] time_of_day_range [of r]
    time_of_day_range [of r'] assms
  show "hour_of r \<le> hour_of r'" using t by linarith
  show "hour_of r = hour_of r' \<Longrightarrow> minute_of r \<le> minute_of r'" using t by linarith
qed

lemma to_unix_from_unix_at:
  "to_unix (from_unix s\<lparr> dt_hour := h, dt_minute := m, dt_second := 0 \<rparr>)
     = s div 86400 * 86400 + int h * 3600 + int m * 60"
proof -
  obtain y mo d where c: "civil_from_days (s div 86400) = (y, mo, d)" by (metis prod_cases3)
  note v = days_civil_roundtrip [OF c]
  then have "int (nat mo) = mo" "int (nat d) = d" by (simp_all add: valid_date_def)
  then show ?thesis using v(2) by (simp add: to_unix_def SECONDS_PER_DAY_def from_unix_date [OF c])
qed

lemma start_of_next_month_from_unix:
  assumes c: "civil_from_days (s div 86400) = (y, m, d)"
  shows "start_of_next_month (from_unix s)
    = (days_from_civil y m 1 + int (days_in_month y (nat m))) * 86400"
proof -
  have m: "1 \<le> m" "m \<le> 12" using days_civil_roundtrip(1) [OF c] by (simp_all add: valid_date_def)
  obtain y' m' where n: "next_month (y, m) = (y', m')" by fastforce
  have "start_of_next_month (from_unix s) = days_from_civil y' m' 1 * 86400"
  proof (cases "m = 12")
    case True
    then show ?thesis using n
      by (simp add: start_of_next_month_def from_unix_date [OF c] next_month_def to_unix_def
          SECONDS_PER_DAY_def)
  next
    case False
    then have "nat m \<noteq> 12" "int (Suc (nat m)) = m + 1" using m by auto
    then show ?thesis using n False
      by (auto simp: start_of_next_month_def from_unix_date [OF c] next_month_def to_unix_def
          SECONDS_PER_DAY_def add.commute [of 1])
  qed
  then show ?thesis using days_next_month [OF m n] by simp
qed

lemma start_of_next_day_from_unix: "start_of_next_day (from_unix s) = (s div 86400 + 1) * 86400"
proof -
  obtain y m d where c: "civil_from_days (s div 86400) = (y, m, d)" by (metis prod_cases3)
  note v = days_civil_roundtrip [OF c]
  then have m: "1 \<le> m" "m \<le> 12" and d: "1 \<le> d" "d \<le> int (days_in_month y (nat m))"
    by (simp_all add: valid_date_def)
  show ?thesis
  proof (cases "nat d < days_in_month y (nat m)")
    case True
    then show ?thesis
      using v(2) m d days_from_civil_day [OF m, of y d] days_from_civil_day [OF m, of y "1 + d"]
      by (simp add: start_of_next_day_def from_unix_date [OF c] to_unix_def SECONDS_PER_DAY_def)
  next
    case False
    then have "int (days_in_month y (nat m)) = d" using d by linarith
    then show ?thesis
      using False v(2) days_from_civil_day [OF m, of y d]
      by (simp add: start_of_next_day_def from_unix_date [OF c] start_of_next_month_from_unix [OF c])
  qed
qed

text \<open>Every day up to the start of the next month has the same month.\<close>

lemma same_month_until_next:
  assumes "s div 86400 \<le> u div 86400" "u < start_of_next_month (from_unix s)"
  shows "dt_month (from_unix u) = dt_month (from_unix s)"
proof -
  obtain y m d where c: "civil_from_days (s div 86400) = (y, m, d)" by (metis prod_cases3)
  note v = days_civil_roundtrip [OF c]
  then have m: "1 \<le> m" "m \<le> 12" and d: "1 \<le> d" by (simp_all add: valid_date_def)
  have "u div 86400 < days_from_civil y m 1 + int (days_in_month y (nat m))"
    using assms(2) unfolding start_of_next_month_from_unix [OF c] by (simp add: int_div_less_iff)
  moreover have "days_from_civil y m 1 \<le> u div 86400"
    using assms(1) days_from_civil_day [OF m, of y d] v(2) d by linarith
  ultimately have "civil_from_days (u div 86400) = (y, m, u div 86400 - days_from_civil y m 1 + 1)"
    using civil_from_days_in_month [OF m] by blast
  then show ?thesis by (simp add: from_unix_date [OF c] from_unix_date)
qed

lemma start_of_next_month_after: "s < start_of_next_month (from_unix s)"
proof -
  obtain y m d where c: "civil_from_days (s div 86400) = (y, m, d)" by (metis prod_cases3)
  note v = days_civil_roundtrip [OF c]
  then have m: "1 \<le> m" "m \<le> 12" and d: "d \<le> int (days_in_month y (nat m))"
    by (simp_all add: valid_date_def)
  have "s div 86400 < days_from_civil y m 1 + int (days_in_month y (nat m))"
    using days_from_civil_day [OF m, of y d] v(2) d by linarith
  then show ?thesis unfolding start_of_next_month_from_unix [OF c] by (simp add: int_div_less_iff)
qed

lemma start_of_next_day_after: "s < (s div 86400 + 1) * (86400::int)"
  using int_div_less_iff [of 86400 s "s div 86400 + 1"] by simp

text \<open>The date of an instant decides whether its day matches.\<close>

lemma day_matches_same_day:
  assumes "u div 86400 = s div 86400"
  shows "dt_month (from_unix u) = dt_month (from_unix s)"
    "day_matches c (from_unix u) = day_matches c (from_unix s)"
proof -
  obtain y m d where c: "civil_from_days (s div 86400) = (y, m, d)" by (metis prod_cases3)
  then have "civil_from_days (u div 86400) = (y, m, d)" using assms by simp
  note f = from_unix_date [OF this] from_unix_date [OF c]
  show "dt_month (from_unix u) = dt_month (from_unix s)" by (simp add: f)
  show "day_matches c (from_unix u) = day_matches c (from_unix s)"
    by (simp add: day_matches_def weekday_def f)
qed

section \<open>One turn of the loop\<close>

text \<open>A turn that goes on does so from a later probe, whatever the expression.\<close>

lemma cron_step_progress:
  assumes "cron_step c p = Inl q"
  shows "p < q"
proof -
  have "p = p div 86400 * 86400 + int (hour_of (p mod 86400)) * 3600
      + int (minute_of (p mod 86400)) * 60 + int (second_of (p mod 86400))"
    using time_of_day_sum [of "p mod 86400"] div_mult_mod_eq [of p 86400] pos_mod_sign [of 86400 p]
    by linarith
  moreover have "minute_of (p mod 86400) \<le> 59" "second_of (p mod 86400) < 60"
    using time_of_day_range(2,3) [of "p mod 86400"] by auto
  ultimately have "p < p div 86400 * 86400 + int h * 3600 + int 59 * 60 + 60"
    if "hour_of (p mod 86400) \<le> h" for h using that by linarith
  with assms start_of_next_month_after [of p] start_of_next_day_after [of p] show ?thesis
    by (auto simp: cron_step_def Let_def start_of_next_day_from_unix to_unix_from_unix_at
        from_unix_fields split: if_splits option.splits dest!: fs_next_from_Some(1))
qed

function cron_scan :: "cron \<Rightarrow> int \<Rightarrow> int \<Rightarrow> int option" where
  "cron_scan c limit probe =
     (if probe < limit then
        (case cron_step c probe of Inl next \<Rightarrow> cron_scan c limit next | Inr found \<Rightarrow> Some found)
      else None)"
  by pat_completeness auto
termination
  by (relation "measure (\<lambda>(c, limit, probe). nat (limit - probe))") (auto dest: cron_step_progress)

declare cron_scan.simps [simp del]

definition cron_next_after :: "cron \<Rightarrow> int \<Rightarrow> int option" where
  "cron_next_after c after =
     (let probe = (after div 60 + 1) * 60;
          limit = probe + SEARCH_YEARS * 366 * 86400
      in cron_scan c limit probe)"

text \<open>\<open>clear c p q\<close>: no whole minute from \<open>p\<close> up to \<open>q\<close> matches.\<close>

definition clear :: "cron \<Rightarrow> int \<Rightarrow> int \<Rightarrow> bool" where
  "clear c p q \<longleftrightarrow> (\<forall>u. p \<le> u \<and> u < q \<longrightarrow> \<not> cron_matches c (from_unix u))"

lemma clear_trans: "clear c p q \<Longrightarrow> clear c q r \<Longrightarrow> clear c p r"
  unfolding clear_def by (metis not_le)

lemma same_day_until:
  assumes "s \<le> u" "u < (s div 86400 + 1) * 86400"
  shows "u div 86400 = s div (86400::int)"
  using assms zdiv_mono1 [of s u 86400] int_div_less_iff [of 86400 u "s div 86400 + 1"] by simp

lemma clear_month:
  "\<not> fs_contains (cr_months c) (dt_month (from_unix p)) \<Longrightarrow> clear c p (start_of_next_month (from_unix p))"
  unfolding clear_def cron_matches_def
  by (metis same_month_until_next zdiv_mono1 zero_less_numeral)

lemma clear_day:
  "\<not> day_matches c (from_unix p) \<Longrightarrow> clear c p (start_of_next_day (from_unix p))"
  unfolding clear_def cron_matches_def start_of_next_day_from_unix
  using day_matches_same_day(2) [OF same_day_until] by blast

text \<open>Within a day, nothing matches before the first hour and minute that do.\<close>

lemma same_day_mono:
  assumes "p \<le> u" "u div 86400 = p div (86400::int)"
  shows "0 \<le> p mod 86400" "p mod 86400 \<le> u mod 86400" "u mod 86400 < 86400"
  using assms(1) div_mult_mod_eq [of p 86400] div_mult_mod_eq [of u 86400] unfolding assms(2)
  by (simp, linarith, simp)

lemma clear_hours:
  assumes n: "fs_next_from (cr_hours c) (dt_hour (from_unix p)) = None"
  shows "clear c p (start_of_next_day (from_unix p))"
  unfolding clear_def start_of_next_day_from_unix
proof (intro allI impI notI, elim conjE)
  fix u assume u: "p \<le> u" "u < (p div 86400 + 1) * 86400" and m: "cron_matches c (from_unix u)"
  have "dt_hour (from_unix p) \<le> dt_hour (from_unix u)"
    using hour_minute_mono(1) [OF same_day_mono [OF u(1) same_day_until [OF u]]]
    by (simp add: from_unix_fields)
  from fs_next_from_None [OF n this] m show False by (simp add: cron_matches_def)
qed

lemma clear_within_hour:
  assumes h: "fs_next_from (cr_hours c) (dt_hour (from_unix p)) = Some h" "h \<le> 23"
    and m: "m \<le> 60"
    and none: "\<And>v. (if h = dt_hour (from_unix p) then dt_minute (from_unix p) else 0) \<le> v
      \<Longrightarrow> v < m \<Longrightarrow> \<not> fs_contains (cr_minutes c) v"
  shows "clear c p (p div 86400 * 86400 + int h * 3600 + int m * 60)"
  unfolding clear_def
proof (intro allI impI notI, elim conjE)
  fix u assume u: "p \<le> u" "u < p div 86400 * 86400 + int h * 3600 + int m * 60"
    and hit: "cron_matches c (from_unix u)"
  have "u < (p div 86400 + 1) * 86400" using u(2) h(2) m by (simp add: algebra_simps)
  note day = same_day_until [OF u(1) this]
  note md = same_day_mono [OF u(1) day]
  have r: "u mod 86400 < int h * 3600 + int m * 60"
    using u(2) div_mult_mod_eq [of u 86400] unfolding day by linarith
  have hu: "fs_contains (cr_hours c) (hour_of (u mod 86400))"
    and mu: "fs_contains (cr_minutes c) (minute_of (u mod 86400))"
    using hit by (simp_all add: cron_matches_def from_unix_fields)
  have "\<not> hour_of (u mod 86400) < h"
    using fs_next_from_Some(3) [OF h(1)] hour_minute_mono(1) [OF md] hu
    unfolding from_unix_fields by blast
  then have eq: "hour_of (u mod 86400) = h" "minute_of (u mod 86400) < m"
    using hour_minute_less [OF _ r m] by auto
  have "(if h = dt_hour (from_unix p) then dt_minute (from_unix p) else 0) \<le> minute_of (u mod 86400)"
    using hour_minute_mono(2) [OF md] eq(1) by (auto simp: from_unix_fields)
  from none [OF this eq(2)] mu show False by simp
qed

lemma cron_matches_at:
  assumes "fs_contains (cr_months c) (dt_month (from_unix p))" "day_matches c (from_unix p)"
    "fs_contains (cr_hours c) h" "fs_contains (cr_minutes c) m" "h \<le> 23" "m \<le> 59"
  shows "cron_matches c (from_unix (p div 86400 * 86400 + int h * 3600 + int m * 60))"
proof -
  define w where "w = from_unix p\<lparr> dt_hour := h, dt_minute := m, dt_second := 0 \<rparr>"
  have "valid_dt w" using from_unix_valid [of p] assms(5,6) by (simp add: w_def valid_dt_def)
  from from_unix_to_unix [OF this]
  have "from_unix (p div 86400 * 86400 + int h * 3600 + int m * 60) = w"
    unfolding w_def to_unix_from_unix_at .
  moreover have "day_matches c w"
    using assms(2) by (simp add: w_def day_matches_def weekday_def)
  ultimately show ?thesis using assms(1,3,4) by (simp add: cron_matches_def w_def)
qed

lemma day_start_aligned: "(60::int) dvd k * 86400"
  by (rule dvd_mult) simp

lemma hour_minute_aligned: "(60::int) dvd p div 86400 * 86400 + int h * 3600 + int m * 60"
  using day_start_aligned by simp

lemma cron_step_hour:
  assumes "fs_contains (cr_months c) (dt_month (from_unix p))" "day_matches c (from_unix p)"
    "fs_next_from (cr_hours c) (dt_hour (from_unix p)) = Some h"
  shows "cron_step c p =
    (case fs_next_from (cr_minutes c) (if h = dt_hour (from_unix p) then dt_minute (from_unix p) else 0)
     of Some m \<Rightarrow> Inr (p div 86400 * 86400 + int h * 3600 + int m * 60)
      | None \<Rightarrow> Inl (p div 86400 * 86400 + int h * 3600 + int 60 * 60))"
  unfolding cron_step_def Let_def to_unix_from_unix_at using assms by (simp split: option.split)

lemma cron_step_Inl:
  assumes wf: "wf_cron c" and st: "cron_step c p = Inl q"
  shows "clear c p q \<and> 60 dvd q"
proof -
  obtain y m d where cv: "civil_from_days (p div 86400) = (y, m, d)" by (metis prod_cases3)
  have al: "60 dvd start_of_next_month (from_unix p)" "60 dvd start_of_next_day (from_unix p)"
    unfolding start_of_next_month_from_unix [OF cv] start_of_next_day_from_unix
    by (rule day_start_aligned)+
  show ?thesis
  proof (cases "\<not> fs_contains (cr_months c) (dt_month (from_unix p)) \<or> \<not> day_matches c (from_unix p)
      \<or> fs_next_from (cr_hours c) (dt_hour (from_unix p)) = None")
    case True
    with st show ?thesis using al clear_month clear_day clear_hours
      by (auto simp: cron_step_def Let_def split: if_splits option.splits)
  next
    case False
    then obtain h where h: "fs_next_from (cr_hours c) (dt_hour (from_unix p)) = Some h" by auto
    define f where "f = (if h = dt_hour (from_unix p) then dt_minute (from_unix p) else 0)"
    have mn: "fs_next_from (cr_minutes c) f = None"
      and q: "q = p div 86400 * 86400 + int h * 3600 + int 60 * 60"
      using st False cron_step_hour [OF _ _ h] by (auto simp: f_def [symmetric] split: option.splits)
    have "h \<le> 23" using wf fs_next_from_Some(2) [OF h] by (simp add: wf_cron_def)
    then have "clear c p q"
      unfolding q by (intro clear_within_hour [OF h]) (use fs_next_from_None [OF mn] f_def in auto)
    moreover have "60 dvd q" unfolding q by (rule hour_minute_aligned)
    ultimately show ?thesis ..
  qed
qed

lemma cron_step_Inr:
  assumes wf: "wf_cron c" and al: "60 dvd p" and st: "cron_step c p = Inr t"
  shows "p \<le> t \<and> 60 dvd t \<and> cron_matches c (from_unix t) \<and> clear c p t"
proof -
  from st obtain h m where mo: "fs_contains (cr_months c) (dt_month (from_unix p))"
    and dm: "day_matches c (from_unix p)"
    and h: "fs_next_from (cr_hours c) (dt_hour (from_unix p)) = Some h"
    and m: "fs_next_from (cr_minutes c)
      (if h = dt_hour (from_unix p) then dt_minute (from_unix p) else 0) = Some m"
    and t: "t = p div 86400 * 86400 + int h * 3600 + int m * 60"
    unfolding cron_step_def Let_def to_unix_from_unix_at
    by (auto split: if_splits option.splits)
  note nh = fs_next_from_Some [OF h] and nm = fs_next_from_Some [OF m]
  have b: "h \<le> 23" "m \<le> 59" using wf nh(2) nm(2) by (simp_all add: wf_cron_def)
  have sec: "int (second_of (p mod 86400)) = 0"
  proof -
    have "p mod 86400 mod 60 = p mod 60" by (rule mod_mod_cancel) simp
    then show ?thesis using al by (simp add: second_of_def)
  qed
  have "p = p div 86400 * 86400 + int (hour_of (p mod 86400)) * 3600
      + int (minute_of (p mod 86400)) * 60"
    using time_of_day_sum [of "p mod 86400"] sec div_mult_mod_eq [of p 86400]
      pos_mod_sign [of 86400 p] by linarith
  moreover have "minute_of (p mod 86400) < 60" by (rule time_of_day_range(2)) simp_all
  ultimately have "p \<le> t" using nh(1) nm(1) unfolding t from_unix_fields by (auto split: if_splits)
  moreover have "60 dvd t" unfolding t by (rule hour_minute_aligned)
  moreover have "cron_matches c (from_unix t)"
    unfolding t by (rule cron_matches_at [OF mo dm nh(2) nm(2) b])
  moreover have "clear c p t"
    unfolding t using nm(3) b by (intro clear_within_hour [OF h]) auto
  ultimately show ?thesis by blast
qed

section \<open>The loop\<close>

lemma cron_scan_Some:
  assumes "wf_cron c" "60 dvd p" "cron_scan c limit p = Some t"
  shows "p \<le> t \<and> 60 dvd t \<and> cron_matches c (from_unix t) \<and> clear c p t"
  using assms
proof (induction c limit p rule: cron_scan.induct)
  case (1 c limit p)
  show ?case
  proof (cases "cron_step c p")
    case (Inl q)
    then have "p < limit" "cron_scan c limit q = Some t"
      using "1.prems"(3) by (simp_all add: cron_scan.simps [of c limit p] split: if_splits)
    moreover note q = cron_step_Inl [OF "1.prems"(1) Inl] cron_step_progress [OF Inl]
    ultimately have "q \<le> t \<and> 60 dvd t \<and> cron_matches c (from_unix t) \<and> clear c q t"
      using "1.IH" [OF _ Inl] "1.prems"(1) by blast
    with q show ?thesis using clear_trans [of c p q t] by auto
  next
    case (Inr u)
    then have "u = t" using "1.prems"(3) by (simp add: cron_scan.simps [of c limit p] split: if_splits)
    with cron_step_Inr [OF "1.prems"(1,2) Inr] show ?thesis by simp
  qed
qed

lemma cron_scan_None:
  assumes "wf_cron c" "cron_scan c limit p = None"
  shows "clear c p limit"
  using assms
proof (induction c limit p rule: cron_scan.induct)
  case (1 c limit p)
  show ?case
  proof (cases "p < limit")
    case True
    with "1.prems" obtain q where q: "cron_step c p = Inl q" "cron_scan c limit q = None"
      by (auto simp: cron_scan.simps [of c limit p] split: sum.splits)
    from "1.IH" [OF True q(1) "1.prems"(1) q(2)] cron_step_Inl [OF "1.prems"(1) q(1)]
    show ?thesis using clear_trans by blast
  qed (auto simp: clear_def)
qed

lemma cron_first_probe: "after < (after div 60 + 1) * (60::int)" "(after div 60) * 60 \<le> (after::int)"
  using div_mult_mod_eq [of after 60] pos_mod_bound [of 60 after] pos_mod_sign [of 60 after]
  by (auto simp: algebra_simps)

lemma cron_next_after_Some:
  assumes "wf_cron c" "cron_next_after c after = Some t"
  shows "after < t" "60 dvd t" "cron_matches c (from_unix t)"
    "clear c ((after div 60 + 1) * 60) t"
  using cron_scan_Some [OF assms(1) _ assms(2) [unfolded cron_next_after_def Let_def]]
    cron_first_probe(1) [of after] by auto

lemma cron_next_after_None:
  assumes "wf_cron c" "cron_next_after c after = None"
  shows "clear c ((after div 60 + 1) * 60) ((after div 60 + 1) * 60 + 5 * 366 * 86400)"
  using cron_scan_None [OF assms(1) assms(2) [unfolded cron_next_after_def Let_def]]
  by (simp add: SEARCH_YEARS_def)

text \<open>A whole minute after \<open>after\<close> is at or past the first probe.\<close>

lemma first_probe_least:
  assumes "60 dvd u" "after < u"
  shows "(after div 60 + 1) * 60 \<le> (u::int)"
proof -
  obtain k where k: "u = 60 * k" using assms(1) by blast
  then have "after div 60 < k" using assms(2) by (simp add: int_div_less_iff)
  then show ?thesis unfolding k by simp
qed

text \<open>A parsed expression meets the contract of a trigger.\<close>

interpretation cron: firing wf_cron "\<lambda>c u. 60 dvd u \<and> cron_matches c (from_unix u)" cron_next_after
proof
  fix c a t u assume c: "wf_cron c" "cron_next_after c a = Some t"
  note n = cron_next_after_Some [OF c]
  show "a < t" "60 dvd t \<and> cron_matches c (from_unix t)" using n by blast+
  assume "a < u" "u < t"
  then show "\<not> (60 dvd u \<and> cron_matches c (from_unix u))"
    using n(4) first_probe_least unfolding clear_def by blast
qed

text \<open>
  C1: The instant \<^verbatim>\<open>Cron::next_after\<close> answers for a parsed expression is a whole minute strictly
  after the one asked about, the expression matches it, and no whole minute in between
  matches: the skipping of months, days and hours never passes over a firing.
\<close>

theorem cron_next_after_first:
  assumes "cron_parse t = Inr c" "cron_next_after c after = Some next"
  shows "after < next \<and> 60 dvd next \<and> cron_matches c (from_unix next)
    \<and> (\<forall>u. after < u \<and> u < next \<and> 60 dvd u \<longrightarrow> \<not> cron_matches c (from_unix u))"
  using cron_next_after_Some [OF cron_parse_wf [OF assms(1)] assms(2)] first_probe_least
  unfolding clear_def by blast

text \<open>
  When \<^verbatim>\<open>Cron::next_after\<close> answers \<^verbatim>\<open>None\<close>, the expression matches no instant of the five
  years of 366 days that follow: a schedule is only reported as never firing when it
  really does not fire in that window.
\<close>

lemma cron_next_after_never:
  assumes "cron_parse t = Inr c" "cron_next_after c after = None"
    and "60 dvd u" "after < u" "u \<le> after + 5 * 366 * 86400"
  shows "\<not> cron_matches c (from_unix u)"
proof -
  have "u < (after div 60 + 1) * 60 + 5 * 366 * 86400"
    using assms(5) cron_first_probe(1) [of after] by linarith
  with cron_next_after_None [OF cron_parse_wf [OF assms(1)] assms(2)] first_probe_least [OF assms(3,4)]
  show ?thesis unfolding clear_def by blast
qed

text \<open>Two instances: midnight of every day, and an expression that never fires.\<close>

section \<open>Instances\<close>

text \<open>01:02 on the second of January and on its Fridays; and the 31st of February, which is
  never.\<close>

definition sample_cron :: cron where
  "sample_cron = \<lparr> cr_minutes = \<lparr> fs_bits = 4 \<rparr>, cr_hours = \<lparr> fs_bits = 2 \<rparr>,
     cr_days_of_month = \<lparr> fs_bits = 4 \<rparr>, cr_months = \<lparr> fs_bits = 2 \<rparr>,
     cr_days_of_week = \<lparr> fs_bits = 32 \<rparr>, cr_dom_restricted = True, cr_dow_restricted = True,
     cr_text = ''2 1 2 1 fri'' \<rparr>"

lemma sample_cron_parse: "cron_parse ''2 1 2 1 fri'' = Inr sample_cron"
  by code_simp

lemma sample_cron_next: "cron_next_after sample_cron 90061 = Some 90120"
  by code_simp

lemma star_parses:
  assumes "kind_ok k"
  shows "\<exists>s. parse_field ''*'' k = Inr s"
proof -
  have "\<exists>s. fill_range FILL_FUEL (fk_low k) (fk_high k) 1 fs_default = Some s"
    using assms by (intro fill_range_climbs) (auto simp: FILL_FUEL_def kind_ok_def)
  moreover have "trim ''*'' = ''*''" by (rule trim_id) (simp add: is_whitespace_def)
  ultimately show ?thesis
    by (auto simp: parse_field_def parse_part_def parse_step_def parse_bounds_def)
qed

lemma never_cron_fields:
  "parse_field ''0'' MINUTE = Inr \<lparr> fs_bits = 1 \<rparr>" "parse_field ''0'' HOUR = Inr \<lparr> fs_bits = 1 \<rparr>"
  "parse_field ''31'' DAY_OF_MONTH = Inr \<lparr> fs_bits = 2147483648 \<rparr>"
  "parse_field ''2'' MONTH = Inr \<lparr> fs_bits = 4 \<rparr>"
  "trim ''0 0 31 2 *'' = ''0 0 31 2 *''" "expand_shorthand ''0 0 31 2 *'' = Inr ''0 0 31 2 *''"
  "split_whitespace ''0 0 31 2 *'' = [''0'', ''0'', ''31'', ''2'', ''*'']"
  by code_simp+

lemma never_cron_parse:
  "\<exists>c. cron_parse ''0 0 31 2 *'' = Inr c \<and> cr_months c = \<lparr> fs_bits = 4 \<rparr>
     \<and> cr_days_of_month c = \<lparr> fs_bits = 2147483648 \<rparr> \<and> cr_dom_restricted c \<and> \<not> cr_dow_restricted c"
proof -
  obtain s where "parse_field ''*'' DAY_OF_WEEK = Inr s"
    using star_parses [of DAY_OF_WEEK] kind_ok_kinds by blast
  then show ?thesis by (simp add: cron_parse_def cron_of_fields_def never_cron_fields)
qed

lemma bit_4_31: "bit (4 :: u64) n \<longleftrightarrow> n = 2" "bit (2147483648 :: u64) n \<longleftrightarrow> n = 31"
proof -
  have "(4 :: u64) = 2 ^ 2" "(2147483648 :: u64) = 2 ^ 31" by simp_all
  then show "bit (4 :: u64) n \<longleftrightarrow> n = 2" "bit (2147483648 :: u64) n \<longleftrightarrow> n = 31"
    by (simp_all only: bit_exp_iff) (auto simp: possible_bit_def)
qed

lemma never_cron_none:
  assumes "wf_cron c" "cr_months c = \<lparr> fs_bits = 4 \<rparr>" "cr_days_of_month c = \<lparr> fs_bits = 2147483648 \<rparr>"
    "cr_dom_restricted c" "\<not> cr_dow_restricted c"
  shows "cron_next_after c after = None"
proof (cases "cron_next_after c after")
  case (Some t)
  have r: "cr_dom_restricted c = True" "cr_dow_restricted c = False" using assms(4,5) by simp_all
  have "dt_month (from_unix t) = 2" "dt_day (from_unix t) = 31"
    using cron_next_after_Some(3) [OF assms(1) Some]
    unfolding cron_matches_def day_matches_def assms(2,3) r fs_contains_iff Let_def
    by (simp_all only: field_set.select_convs bit_4_31 prod.case bool.case simp_thms)
  then show ?thesis
    using from_unix_valid [of t] by (auto simp: valid_dt_def valid_date_def days_in_month_def split: if_splits)
qed simp

theorem cron_next_after_first_witness:
  "cron_parse ''2 1 2 1 fri'' = Inr sample_cron \<and> cron_next_after sample_cron 90061 = Some 90120
   \<and> cron_matches sample_cron (from_unix 90120)"
  using sample_cron_parse sample_cron_next cron_next_after_first [OF sample_cron_parse sample_cron_next]
  by blast

lemma cron_next_after_never_witness:
  "\<exists>c. cron_parse ''0 0 31 2 *'' = Inr c \<and> cron_next_after c 0 = None
     \<and> \<not> cron_matches c (from_unix 60)"
proof -
  obtain c where c: "cron_parse ''0 0 31 2 *'' = Inr c" "cron_next_after c 0 = None"
    using never_cron_parse never_cron_none cron_parse_wf by meson
  then show ?thesis using cron_next_after_never [OF c, of 60] by auto
qed

section \<open>What an expression denotes\<close>

text \<open>
  An accepted expression means what its five fields say: a minute, hour, day or month is in the
  set kept for it exactly when some part of the field's list covers it, a range being its values at
  multiples of the step from its start, and the day of the week 7 is Sunday, which is 0. The
  hypothesis on each field rules out the steps so large that the source's 32-bit sum wraps.
\<close>

lemma cron_fields_denote:
  assumes "cron_parse t = Inr c" "expand_shorthand (trim t) = Inr e"
    and "split_whitespace e = [minute, hour, day, month, dow]"
    and "field_fits MINUTE minute" "field_fits HOUR hour" "field_fits DAY_OF_MONTH day"
      "field_fits MONTH month" "field_fits DAY_OF_WEEK dow"
  shows "fs_contains (cr_minutes c) v = field_denotes MINUTE minute v
    \<and> fs_contains (cr_hours c) v = field_denotes HOUR hour v
    \<and> fs_contains (cr_days_of_month c) v = field_denotes DAY_OF_MONTH day v
    \<and> fs_contains (cr_months c) v = field_denotes MONTH month v
    \<and> fs_contains (cr_days_of_week c) v = (v \<noteq> 7 \<and>
        (field_denotes DAY_OF_WEEK dow v \<or> (v = 0 \<and> field_denotes DAY_OF_WEEK dow 7)))"
proof -
  from assms(1) obtain e' f0 f1 f2 f3 f4 ds where p: "expand_shorthand (trim t) = Inr e'"
    "split_whitespace e' = [f0, f1, f2, f3, f4]" "parse_field f4 DAY_OF_WEEK = Inr ds"
    "parse_field f0 MINUTE = Inr (cr_minutes c)" "parse_field f1 HOUR = Inr (cr_hours c)"
    "parse_field f2 DAY_OF_MONTH = Inr (cr_days_of_month c)" "parse_field f3 MONTH = Inr (cr_months c)"
    "cr_days_of_week c = fold_sunday ds" by (rule cron_parse_Inr)
  have f: "f0 = minute" "f1 = hour" "f2 = day" "f3 = month" "f4 = dow"
    using p(1,2) assms(2,3) by auto
  note den = parse_field_denotes [OF _ assms(4) p(4)[unfolded f]] parse_field_denotes [OF _ assms(5) p(5)[unfolded f]]
    parse_field_denotes [OF _ assms(6) p(6)[unfolded f]] parse_field_denotes [OF _ assms(7) p(7)[unfolded f]]
    parse_field_denotes [OF _ assms(8) p(3)[unfolded f]]
  show ?thesis using den kind_ok_kinds by (simp add: p(8) fs_contains_fold_sunday)
qed

lemma cron_fields_denote_witness:
  "fs_contains (cr_days_of_week sample_cron) 5 = field_denotes DAY_OF_WEEK ''fri'' 5"
proof -
  have e: "expand_shorthand (trim ''2 1 2 1 fri'') = Inr ''2 1 2 1 fri''" by code_simp
  have s: "split_whitespace ''2 1 2 1 fri'' = [''2'', ''1'', ''2'', ''1'', ''fri'']" by code_simp
  have f: "field_fits MINUTE ''2''" "field_fits HOUR ''1''" "field_fits DAY_OF_MONTH ''2''"
    "field_fits MONTH ''1''" "field_fits DAY_OF_WEEK ''fri''" by code_simp+
  show ?thesis using cron_fields_denote [OF sample_cron_parse e s f, of 5] by simp
qed

text \<open>
  Parsing an expression always ends, for every text: the loop that fills a field stops within
  61 steps even where its 32-bit sum wraps.
\<close>

lemma cron_parse_ends: "cron_parse t \<noteq> Inl LoopsForever"
  by (rule cron_parse_returns)

text \<open>
  Where the sum does wrap, the values run backwards: \<^verbatim>\<open>5/4294967295\<close> is six minutes of the hour and
  not one.
\<close>

lemma step_wraps:
  "\<exists>s. parse_field ''5/4294967295'' MINUTE = Inr s \<and> (\<forall>v \<in> {0, 1, 2, 3, 4, 5}. fs_contains s v)"
proof -
  have "(case parse_field ''5/4294967295'' MINUTE of
      Inr s \<Rightarrow> list_all (fs_contains s) [0, 1, 2, 3, 4, 5] | Inl _ \<Rightarrow> False)" by code_simp
  then show ?thesis by (auto split: sum.splits)
qed

end
