(* ===== verification/Every_Interval.thy ===== *)
theory Every_Interval
  imports Firing
begin

text \<open>
  Intervals: \<^verbatim>\<open>crates/scheduler/src/every.rs\<close>. The \<^verbatim>\<open>u64\<close> sums and products are checked, as
  \<^verbatim>\<open>checked_mul\<close> and \<^verbatim>\<open>checked_add\<close> do; the loop over the characters is \<open>interval_scan\<close>.
\<close>

section \<open>The code\<close>

definition MAX_SECONDS :: nat where
  "MAX_SECONDS = 400 * 86400"

datatype interval_error =
    IntervalMalformed str
  | NoUnit str
  | UnknownUnit str
  | IntervalZero
  | TooLong str nat
  | IntervalOverflow str

record interval =
  iv_seconds :: nat
  iv_text :: str

definition checked_mul :: "nat \<Rightarrow> nat \<Rightarrow> nat option" where
  "checked_mul a b = (if a * b < 2 ^ 64 then Some (a * b) else None)"

definition checked_add :: "nat \<Rightarrow> nat \<Rightarrow> nat option" where
  "checked_add a b = (if a + b < 2 ^ 64 then Some (a + b) else None)"

definition unit_multiplier :: "char \<Rightarrow> interval_error + nat" where
  "unit_multiplier c =
     (let other = ascii_lower c
      in if other = CHR ''s'' then Inr 1
         else if other = CHR ''m'' then Inr 60
         else if other = CHR ''h'' then Inr 3600
         else if other = CHR ''d'' then Inr 86400
         else Inl (UnknownUnit [other]))"

fun interval_scan :: "str \<Rightarrow> str \<Rightarrow> nat \<Rightarrow> str \<Rightarrow> bool \<Rightarrow> interval_error + (nat \<times> str \<times> bool)" where
  "interval_scan trimmed [] seconds digits saw_a_unit = Inr (seconds, digits, saw_a_unit)"
| "interval_scan trimmed (c # rest) seconds digits saw_a_unit =
     (if is_ascii_digit c then interval_scan trimmed rest seconds (digits @ [c]) saw_a_unit
      else if is_whitespace c \<or> c = CHR ''_'' then interval_scan trimmed rest seconds digits saw_a_unit
      else if digits = [] then Inl (IntervalMalformed trimmed)
      else and_then (unit_multiplier c) (\<lambda>multiplier.
           and_then (ok_or (IntervalOverflow trimmed) (parse_u64 digits)) (\<lambda>count.
           and_then (ok_or (IntervalOverflow trimmed)
                       (Option.bind (checked_mul count multiplier) (checked_add seconds)))
             (\<lambda>seconds'. interval_scan trimmed rest seconds' [] True))))"

definition interval_parse :: "str \<Rightarrow> interval_error + interval" where
  "interval_parse source =
     (let trimmed = trim source
      in if trimmed = [] then Inl (IntervalMalformed source)
         else and_then (interval_scan trimmed trimmed 0 [] False) (\<lambda>(seconds, digits, saw_a_unit).
           if digits \<noteq> [] then Inl (NoUnit digits)
           else if \<not> saw_a_unit then Inl (IntervalMalformed trimmed)
           else if seconds = 0 then Inl IntervalZero
           else if seconds > MAX_SECONDS then Inl (TooLong trimmed (MAX_SECONDS div 86400))
           else Inr \<lparr> iv_seconds = seconds, iv_text = trimmed \<rparr>))"

definition interval_next_after :: "interval \<Rightarrow> int \<Rightarrow> int \<Rightarrow> int" where
  "interval_next_after i anchor after =
     (let step = int (iv_seconds i)
      in if anchor > after then anchor
         else let elapsed = after - anchor
              in anchor + (elapsed div step + 1) * step)"

definition missed_between :: "interval \<Rightarrow> int \<Rightarrow> int \<Rightarrow> nat" where
  "missed_between i scheduled now =
     (if now \<le> scheduled then 0 else nat ((now - scheduled) sdiv int (iv_seconds i)))"

definition interval_to_string :: "interval \<Rightarrow> str" where
  "interval_to_string i = iv_text i"

section \<open>Parsing\<close>

definition wf_interval :: "interval \<Rightarrow> bool" where
  "wf_interval i \<longleftrightarrow> 0 < iv_seconds i \<and> iv_seconds i \<le> MAX_SECONDS"

lemma interval_parse_wf [wf_intros]: "interval_parse t = Inr i \<Longrightarrow> wf_interval i"
  by (auto simp: interval_parse_def Let_def and_then_eq_Inr_iff wf_interval_def split: if_splits)

lemma interval_parse_text:
  "interval_parse t = Inr i \<Longrightarrow> iv_text i = trim t \<and> trim t \<noteq> []"
  by (auto simp: interval_parse_def Let_def and_then_eq_Inr_iff split: if_splits)

lemma interval_parse_to_string:
  assumes "interval_parse t = Inr i"
  shows "interval_parse (interval_to_string i) = Inr i"
proof -
  have "interval_parse (trim t) = interval_parse t"
    using interval_parse_text [OF assms] by (simp add: interval_parse_def)
  then show ?thesis using assms interval_parse_text [OF assms] by (simp add: interval_to_string_def)
qed

text \<open>The text of a list of counts and units, as people write a duration.\<close>

fun show_parts :: "(nat \<times> char) list \<Rightarrow> str" where
  "show_parts [] = []"
| "show_parts ((n, u) # ps) = show_nat n @ u # show_parts ps"

fun parts_seconds :: "(nat \<times> char) list \<Rightarrow> nat" where
  "parts_seconds [] = 0"
| "parts_seconds ((n, u) # ps) = n * (case unit_multiplier u of Inr k \<Rightarrow> k | Inl _ \<Rightarrow> 0) + parts_seconds ps"

definition UNITS :: "char set" where
  "UNITS = {CHR ''s'', CHR ''m'', CHR ''h'', CHR ''d''}"

lemma units:
  assumes "u \<in> UNITS"
  shows "\<not> is_ascii_digit u" "\<not> is_whitespace u" "u \<noteq> CHR ''_''"
    "\<exists>k. unit_multiplier u = Inr k \<and> 0 < k"
  using assms by (auto simp: UNITS_def char_class_defs unit_multiplier_def Let_def)

lemma interval_scan_digits:
  "list_all is_ascii_digit ds \<Longrightarrow>
     interval_scan t (ds @ rest) s d saw = interval_scan t rest s (d @ ds) saw"
  by (induction ds arbitrary: d) auto

lemma parse_u64_show_nat: "n < 2 ^ 64 \<Longrightarrow> parse_u64 (show_nat n) = Some n"
proof -
  assume n: "n < 2 ^ 64"
  have d: "show_nat n \<noteq> []" "is_ascii_digit (hd (show_nat n))"
    using show_nat_digits [OF refl, of n] by (auto simp: list_all_iff)
  then have "hd (show_nat n) \<noteq> CHR ''+''" by (auto simp: is_ascii_digit_def)
  with n show ?thesis by (simp add: parse_u64_def parse_unsigned_def)
qed

lemma interval_scan_show_parts:
  assumes "snd ` set ps \<subseteq> UNITS" "s + parts_seconds ps < 2 ^ 64"
  shows "interval_scan t (show_parts ps) s [] saw = Inr (s + parts_seconds ps, [], saw \<or> ps \<noteq> [])"
  using assms
proof (induction ps arbitrary: s saw rule: parts_seconds.induct)
  case (2 n u ps)
  then have u: "u \<in> UNITS" by simp
  obtain k where k: "unit_multiplier u = Inr k" "0 < k" using units(4) [OF u] by blast
  have sum: "s + n * k + parts_seconds ps < 2 ^ 64" using "2.prems"(2) k by simp
  have "n \<le> n * k" using k by simp
  then have n: "n < 2 ^ 64" "n * k < 2 ^ 64" "s + n * k < 2 ^ 64" using sum by linarith+
  have d: "list_all is_ascii_digit (show_nat n)" "show_nat n \<noteq> []"
    using show_nat_digits [OF refl, of n] by simp_all
  have "interval_scan t (show_parts ((n, u) # ps)) s [] saw
      = interval_scan t (show_parts ps) (s + n * k) [] True"
    using units(1-3) [OF u] d n k
    by (simp add: interval_scan_digits parse_u64_show_nat checked_mul_def checked_add_def)
  also have "\<dots> = Inr (s + n * k + parts_seconds ps, [], True)"
    using "2.IH" [of "s + n * k" True] "2.prems"(1) sum by simp
  finally show ?case using k by (simp add: add.assoc)
qed simp

lemma show_parts_ends:
  assumes "snd ` set ps \<subseteq> UNITS" "ps \<noteq> []"
  shows "show_parts ps \<noteq> []" "is_ascii_digit (hd (show_parts ps))" "last (show_parts ps) \<in> UNITS"
proof -
  obtain n u qs where ps: "ps = (n, u) # qs" using assms(2) by (cases ps) auto
  have d: "show_nat n \<noteq> []" "is_ascii_digit (hd (show_nat n))"
    using show_nat_digits [OF refl, of n] by (auto simp: list_all_iff)
  show "show_parts ps \<noteq> []" "is_ascii_digit (hd (show_parts ps))" using d by (simp_all add: ps)
  show "last (show_parts ps) \<in> UNITS"
    using assms by (induction ps rule: show_parts.induct) force+
qed

text \<open>
  A duration written as counts and units in any order is parsed to the sum of its parts: the
  text \<^verbatim>\<open>2h30m\<close> is 9000 seconds, and a repeated unit is added up. Anything from one second to the
  limit of 400 days is accepted.
\<close>

lemma interval_parse_parts:
  assumes "snd ` set ps \<subseteq> UNITS" "0 < parts_seconds ps" "parts_seconds ps \<le> MAX_SECONDS"
  shows "interval_parse (show_parts ps)
    = Inr \<lparr> iv_seconds = parts_seconds ps, iv_text = show_parts ps \<rparr>"
proof -
  have ne: "ps \<noteq> []" using assms(2) by auto
  note ends = show_parts_ends [OF assms(1) ne]
  have "\<not> is_whitespace (hd (show_parts ps))"
    using ends(2) by (auto simp: is_ascii_digit_def is_whitespace_def)
  then have t: "trim (show_parts ps) = show_parts ps"
    using units(2) [OF ends(3)] by (intro trim_id) simp
  have "0 + parts_seconds ps < 2 ^ 64" using assms(3) by (simp add: MAX_SECONDS_def)
  from interval_scan_show_parts [OF assms(1) this] show ?thesis
    using assms(2,3) ends(1) ne by (simp add: interval_parse_def Let_def t)
qed

lemma interval_parse_parts_witness:
  "interval_parse (show_parts [(2, CHR ''h''), (30, CHR ''m'')])
     = Inr \<lparr> iv_seconds = 9000, iv_text = show_parts [(2, CHR ''h''), (30, CHR ''m'')] \<rparr>"
  using interval_parse_parts [of "[(2, CHR ''h''), (30, CHR ''m'')]"]
  by (simp add: UNITS_def MAX_SECONDS_def unit_multiplier_def Let_def ascii_lower_def
      is_ascii_upper_def)

section \<open>Counting\<close>

text \<open>The instants an interval fires at, counting from an anchor.\<close>

definition on_grid :: "int \<Rightarrow> interval \<Rightarrow> int \<Rightarrow> bool" where
  "on_grid anchor i t \<longleftrightarrow> anchor \<le> t \<and> int (iv_seconds i) dvd t - anchor"

lemma interval_next_after_first:
  assumes "wf_interval i"
  shows "after < interval_next_after i anchor after"
    "on_grid anchor i (interval_next_after i anchor after)"
    "\<And>u. on_grid anchor i u \<Longrightarrow> after < u \<Longrightarrow> interval_next_after i anchor after \<le> u"
proof -
  have k: "0 < int (iv_seconds i)" using assms by (simp add: wf_interval_def)
  note st = int_step_after [OF k]
  show "after < interval_next_after i anchor after"
    using st(1) [of "after - anchor"] by (auto simp: interval_next_after_def Let_def)
  show "on_grid anchor i (interval_next_after i anchor after)"
    using k by (auto simp: on_grid_def interval_next_after_def Let_def pos_imp_zdiv_nonneg_iff)
  show "interval_next_after i anchor after \<le> u" if "on_grid anchor i u" "after < u" for u
    using st(2) [of "u - anchor" "after - anchor"] that
    by (auto simp: on_grid_def interval_next_after_def Let_def)
qed

text \<open>An interval and its anchor meet the contract of a trigger.\<close>

interpretation every: firing
  "\<lambda>(anchor, i). wf_interval i" "\<lambda>(anchor, i). on_grid anchor i"
  "\<lambda>(anchor, i) after. Some (interval_next_after i anchor after)"
proof
  fix c :: "int \<times> interval" and a t u
  assume c: "case c of (anchor, i) \<Rightarrow> wf_interval i"
    and t: "(case c of (anchor, i) \<Rightarrow> \<lambda>after. Some (interval_next_after i anchor after)) a = Some t"
  obtain anchor i where ci: "c = (anchor, i)" by force
  note f = interval_next_after_first [where i = i and anchor = anchor and after = a]
  show "a < t" "(case c of (anchor, i) \<Rightarrow> on_grid anchor i) t" using c t f by (auto simp: ci)
  assume "a < u" "u < t"
  then show "\<not> (case c of (anchor, i) \<Rightarrow> on_grid anchor i) u" using c t f by (fastforce simp: ci)
qed

text \<open>
  \<^verbatim>\<open>missed_between\<close> counts the ticks that passed: the multiples of the interval after
  \<open>scheduled\<close> and no later than \<open>now\<close>.
\<close>

lemma missed_between_counts:
  assumes "wf_interval i"
  shows "missed_between i scheduled now
    = card {k :: nat. 0 < k \<and> scheduled + int k * int (iv_seconds i) \<le> now}"
proof (cases "now \<le> scheduled")
  case True
  have "{k :: nat. 0 < k \<and> scheduled + int k * int (iv_seconds i) \<le> now} = {}"
  proof -
    have "\<not> (0 < k \<and> scheduled + int k * int (iv_seconds i) \<le> now)" for k :: nat
    proof
      assume k: "0 < k \<and> scheduled + int k * int (iv_seconds i) \<le> now"
      then have "0 < int k * int (iv_seconds i)" using assms by (simp add: wf_interval_def)
      with k True show False by linarith
    qed
    then show ?thesis by blast
  qed
  then show ?thesis using True by (simp only: missed_between_def if_True card.empty)
next
  case False
  define s where "s = int (iv_seconds i)"
  have s: "0 < s" using assms by (simp add: s_def wf_interval_def)
  define n where "n = nat ((now - scheduled) div s)"
  have n: "int n = (now - scheduled) div s"
    using False s by (simp add: n_def pos_imp_zdiv_nonneg_iff)
  have "scheduled + int k * s \<le> now \<longleftrightarrow> k \<le> n" for k
  proof -
    have "int k * s \<le> now - scheduled \<longleftrightarrow> int k \<le> (now - scheduled) div s"
      using int_le_div_iff [OF s] by blast
    then show ?thesis using n by linarith
  qed
  then have "{k. 0 < k \<and> scheduled + int k * s \<le> now} = {1..n}"
    by (simp only: set_eq_iff mem_Collect_eq atLeastAtMost_iff) (simp add: Suc_le_eq)
  moreover have "missed_between i scheduled now = n"
    using False s by (simp add: missed_between_def n_def s_def [symmetric] sdiv_nonneg)
  ultimately show ?thesis by (simp add: s_def)
qed

lemma missed_between_counts_witness:
  "missed_between \<lparr> iv_seconds = 60, iv_text = ''1m'' \<rparr> 0 200
     = card {k :: nat. 0 < k \<and> 0 + int k * int 60 \<le> 200}"
  using missed_between_counts [of "\<lparr> iv_seconds = 60, iv_text = ''1m'' \<rparr>" 0 200]
  by (simp add: wf_interval_def MAX_SECONDS_def)

end
