(* ===== verification/Watch_Poll.thy ===== *)
theory Watch_Poll
  imports Etl_Prelude "HOL-Library.Product_Lexorder"
begin

text \<open>
  Watched paths: \<^verbatim>\<open>crates/scheduler/src/watch.rs\<close>. What the file system answers for a path is a
  \<open>disk_view\<close>: the metadata of the path (\<open>None\<close> when there is none), and, for a directory, the
  metadata of its entries (an entry whose metadata cannot be read is \<open>None\<close>). A path is its
  text, with \<^verbatim>\<open>/\<close> as the separator.
\<close>

section \<open>The code\<close>

definition DEFAULT_POLL_SECONDS :: nat where
  "DEFAULT_POLL_SECONDS = 10"

type_synonym stamp = "(nat \<times> nat \<times> nat) option"

record watch =
  w_path :: str
  w_poll_seconds :: nat

definition watch_new :: "str \<Rightarrow> nat option \<Rightarrow> watch" where
  "watch_new path poll_seconds =
     \<lparr> w_path = path,
       w_poll_seconds = (case poll_seconds of
          Some seconds \<Rightarrow> if seconds > 0 then seconds else DEFAULT_POLL_SECONDS
        | None \<Rightarrow> DEFAULT_POLL_SECONDS) \<rparr>"

definition is_absolute :: "str \<Rightarrow> bool" where
  "is_absolute p \<longleftrightarrow> starts_with p ''/''"

definition path_join :: "str \<Rightarrow> str \<Rightarrow> str" where
  "path_join base p =
     (if is_absolute p then p
      else if base = [] \<or> ends_with base ''/'' then base @ p
      else base @ ''/'' @ p)"

definition watch_resolve :: "watch \<Rightarrow> str \<Rightarrow> str" where
  "watch_resolve w workspace =
     (if is_absolute (w_path w) then w_path w else path_join workspace (w_path w))"

record watch_state =
  ws_seen :: stamp
  ws_started :: bool
  ws_unsettled :: bool

definition watch_state_default :: watch_state where
  "watch_state_default = \<lparr> ws_seen = None, ws_started = False, ws_unsettled = False \<rparr>"

datatype poll = Quiet | Changing | Settled | Baseline

record file_meta =
  fm_is_dir :: bool
  fm_modified :: "(nat \<times> nat) option"
  fm_len :: nat

type_synonym disk_view = "file_meta option \<times> file_meta option list option"

definition newest :: "file_meta \<Rightarrow> nat \<times> nat \<times> nat" where
  "newest m = (case fm_modified m of
     Some (secs, nanos) \<Rightarrow> (secs, nanos, fm_len m)
   | None \<Rightarrow> (0, 0, fm_len m))"

fun stamp_entries ::
  "file_meta option list \<Rightarrow> nat \<times> nat \<times> nat \<Rightarrow> nat \<Rightarrow> (nat \<times> nat \<times> nat) \<times> nat" where
  "stamp_entries [] best total_len = (best, total_len)"
| "stamp_entries (None # es) best total_len = stamp_entries es best total_len"
| "stamp_entries (Some m # es) best total_len =
     (let stamp = newest m;
          total' = (total_len + snd (snd stamp)) mod 2 ^ 64;
          newer = (fst stamp > fst best
                   \<or> (fst stamp = fst best \<and> fst (snd stamp) > fst (snd best)))
      in stamp_entries es (if newer then stamp else best) total')"

definition stamp_of :: "disk_view \<Rightarrow> stamp" where
  "stamp_of view =
     (case view of
        (None, _) \<Rightarrow> None
      | (Some metadata, dir) \<Rightarrow>
          if \<not> fm_is_dir metadata then Some (newest metadata)
          else (case dir of
             None \<Rightarrow> Some (newest metadata)
           | Some entries \<Rightarrow>
               (case stamp_entries entries (newest metadata) (snd (snd (newest metadata))) of
                  (best, total_len) \<Rightarrow> Some (fst best, fst (snd best), total_len))))"

definition watch_poll :: "stamp \<Rightarrow> watch_state \<Rightarrow> poll \<times> watch_state" where
  "watch_poll stamp st =
     (if \<not> ws_started st then (Baseline, st\<lparr> ws_started := True, ws_seen := stamp \<rparr>)
      else if stamp \<noteq> ws_seen st then (Changing, st\<lparr> ws_seen := stamp, ws_unsettled := True \<rparr>)
      else if ws_unsettled st then (Settled, st\<lparr> ws_unsettled := False \<rparr>)
      else (Quiet, st))"

definition is_changing :: "watch_state \<Rightarrow> bool" where
  "is_changing st \<longleftrightarrow> ws_unsettled st"

section \<open>What a sequence of polls concludes\<close>

text \<open>The polls of a path whose stamps, poll by poll, are given.\<close>

fun poll_all :: "watch_state \<Rightarrow> stamp list \<Rightarrow> poll list" where
  "poll_all st [] = []"
| "poll_all st (s # ss) = (case watch_poll s st of (p, st') \<Rightarrow> p # poll_all st' ss)"

lemma poll_all_started:
  assumes "ws_started st" "n < length ss"
  shows "poll_all st ss ! n =
    (if (ws_seen st # ss) ! Suc n \<noteq> (ws_seen st # ss) ! n then Changing
     else if (if n = 0 then ws_unsettled st else (ws_seen st # ss) ! n \<noteq> (ws_seen st # ss) ! (n - 1))
     then Settled else Quiet)"
  using assms
proof (induction ss arbitrary: st n)
  case (Cons s ss)
  show ?case
  proof (cases n)
    case 0
    then show ?thesis using Cons.prems(1) by (simp add: watch_poll_def)
  next
    case (Suc m)
    obtain p st' where w: "watch_poll s st = (p, st')" by force
    then have st': "ws_started st'" "ws_seen st' = s" "ws_unsettled st' \<longleftrightarrow> s \<noteq> ws_seen st"
      using Cons.prems(1) by (auto simp: watch_poll_def split: if_splits)
    have "m < length ss" using Cons.prems(2) Suc by simp
    from Cons.IH [OF st'(1) this] show ?thesis
      using st' Suc by (cases m) (auto simp: w)
  qed
qed simp

text \<open>
  A watch fires exactly on a poll that sees the same stamp as the one before it when that one
  had seen a change: never on the first poll, never while the stamp is still moving, and once
  for each change that settles.
\<close>

lemma poll_all_settles:
  assumes "n < length ss"
  shows "poll_all watch_state_default ss ! n =
    (if n = 0 then Baseline
     else if ss ! n \<noteq> ss ! (n - 1) then Changing
     else if 2 \<le> n \<and> ss ! (n - 1) \<noteq> ss ! (n - 2) then Settled
     else Quiet)"
proof (cases ss)
  case Nil
  with assms show ?thesis by simp
next
  case (Cons s rest)
  have w: "watch_poll s watch_state_default
      = (Baseline, \<lparr> ws_seen = s, ws_started = True, ws_unsettled = False \<rparr>)"
    by (simp add: watch_poll_def watch_state_default_def)
  show ?thesis
  proof (cases n)
    case 0
    then show ?thesis by (simp add: Cons w)
  next
    case (Suc m)
    then have "m < length rest" using assms Cons by simp
    from poll_all_started [OF _ this, of "\<lparr> ws_seen = s, ws_started = True, ws_unsettled = False \<rparr>"]
    show ?thesis using Suc by (cases m) (auto simp: Cons w)
  qed
qed

lemma poll_all_settles_witness:
  "poll_all watch_state_default [None, Some (1, 0, 5), Some (1, 0, 5)] ! 2 = Settled"
  using poll_all_settles [of 2 "[None, Some (1, 0, 5), Some (1, 0, 5)]"] by (simp add: numeral_2_eq_2)

section \<open>The stamp of a directory\<close>

definition mtime :: "file_meta \<Rightarrow> nat \<times> nat" where
  "mtime m = (case fm_modified m of Some t \<Rightarrow> t | None \<Rightarrow> (0, 0))"

definition readable :: "file_meta option list \<Rightarrow> file_meta list" where
  "readable es = filter_map id es"

lemma readable_simps [simp]:
  "readable [] = []" "readable (None # es) = readable es" "readable (Some m # es) = m # readable es"
  by (simp_all add: readable_def)

lemma newest_mtime: "newest m = (fst (mtime m), snd (mtime m), fm_len m)"
  by (auto simp: newest_def mtime_def split: option.split)

lemma stamp_entries_max:
  assumes "stamp_entries es b n = (b', n')" "n < 2 ^ 64"
  shows "(fst b', fst (snd b')) = fold max (map mtime (readable es)) (fst b, fst (snd b))
    \<and> n' = (n + sum_list (map fm_len (readable es))) mod 2 ^ 64"
  using assms
proof (induction es arbitrary: b n)
  case (Cons e es)
  show ?case
  proof (cases e)
    case None
    with Cons show ?thesis by simp
  next
    case (Some m)
    define t where "t = (n + fm_len m) mod 2 ^ 64"
    define c where "c = (if fst (newest m) > fst b
      \<or> (fst (newest m) = fst b \<and> fst (snd (newest m)) > fst (snd b)) then newest m else b)"
    have "stamp_entries es c t = (b', n')"
      using Cons.prems(1) unfolding Some stamp_entries.simps Let_def c_def t_def
      by (simp only: newest_mtime snd_conv)
    moreover have "t < 2 ^ 64" by (simp add: t_def)
    ultimately have ih: "(fst b', fst (snd b')) = fold max (map mtime (readable es)) (fst c, fst (snd c))"
      "n' = (t + sum_list (map fm_len (readable es))) mod 2 ^ 64"
      using Cons.IH by blast+
    have "(fst c, fst (snd c)) = max (mtime m) (fst b, fst (snd b))"
      by (cases "mtime m") (auto simp: c_def newest_mtime max_def less_eq_prod_def)
    moreover have "n' = (n + sum_list (map fm_len (readable (e # es)))) mod 2 ^ 64"
      unfolding ih(2) t_def Some readable_simps list.map sum_list.Cons mod_add_left_eq
      by (simp only: add.assoc)
    ultimately show ?thesis by (simp add: Some ih(1))
  qed
qed simp

text \<open>
  The stamp of a directory is the newest modification time among the directory and its
  readable entries, and the sum of their lengths modulo \<open>2\<^sup>6\<^sup>4\<close>: rewriting an entry with a newer
  time than all of them, or changing the total length, changes the stamp.
\<close>

lemma stamp_of_directory:
  assumes "fm_is_dir d" "fm_len d < 2 ^ 64"
  shows "stamp_of (Some d, Some es) =
    (let t = Max (insert (mtime d) (mtime ` set (readable es)))
     in Some (fst t, snd t, (fm_len d + sum_list (map fm_len (readable es))) mod 2 ^ 64))"
proof -
  obtain b n where e: "stamp_entries es (newest d) (fm_len d) = (b, n)" by (metis surj_pair)
  have "(fst b, fst (snd b)) = Max (insert (mtime d) (mtime ` set (readable es)))"
    using stamp_entries_max [OF e assms(2)] Max.set_eq_fold [of "mtime d" "map mtime (readable es)"]
    by (simp add: newest_mtime)
  then have t: "fst b = fst (Max (insert (mtime d) (mtime ` set (readable es))))"
    "fst (snd b) = snd (Max (insert (mtime d) (mtime ` set (readable es))))"
    by (metis fst_conv, metis snd_conv)
  have "snd (snd (newest d)) = fm_len d" by (simp add: newest_mtime)
  with e have "stamp_of (Some d, Some es) = Some (fst b, fst (snd b), n)"
    using assms(1) by (simp add: stamp_of_def)
  then show ?thesis using stamp_entries_max [OF e assms(2)] by (simp only: t Let_def)
qed

lemma stamp_of_directory_witness:
  "stamp_of (Some \<lparr> fm_is_dir = True, fm_modified = Some (5, 0), fm_len = 0 \<rparr>,
     Some [Some \<lparr> fm_is_dir = False, fm_modified = Some (7, 3), fm_len = 10 \<rparr>, None])
   = Some (7, 3, 10)"
  using stamp_of_directory [of "\<lparr> fm_is_dir = True, fm_modified = Some (5, 0), fm_len = 0 \<rparr>"
      "[Some \<lparr> fm_is_dir = False, fm_modified = Some (7, 3), fm_len = 10 \<rparr>, None]"]
  by (simp add: mtime_def max_def less_eq_prod_def)

end
