(* ===== verification/Ordered_Map.thy ===== *)
theory Ordered_Map
  imports Etl_Prelude
begin

text \<open>
  \<^verbatim>\<open>BTreeMap\<close>: an association list with strictly increasing keys, which is also the order the
  source iterates in. The locale \<open>ordered_map\<close> is the contract the components use; the
  interpretation at the end discharges it for \<open>om_insert\<close> and \<open>om_remove\<close>.
\<close>

type_synonym ('k, 'v) om = "('k \<times> 'v) list"

fun om_insert :: "'k :: linorder \<Rightarrow> 'v \<Rightarrow> ('k, 'v) om \<Rightarrow> ('k, 'v) om" where
  "om_insert k v [] = [(k, v)]"
| "om_insert k v ((k', v') # m) =
     (if k < k' then (k, v) # (k', v') # m
      else if k = k' then (k, v) # m
      else (k', v') # om_insert k v m)"

fun om_remove :: "'k :: linorder \<Rightarrow> ('k, 'v) om \<Rightarrow> ('k, 'v) om" where
  "om_remove k [] = []"
| "om_remove k ((k', v') # m) = (if k = k' then m else (k', v') # om_remove k m)"

definition om_get :: "('k, 'v) om \<Rightarrow> 'k \<Rightarrow> 'v option" where
  "om_get m k = map_of m k"

definition om_contains :: "('k, 'v) om \<Rightarrow> 'k \<Rightarrow> bool" where
  "om_contains m k \<longleftrightarrow> om_get m k \<noteq> None"

definition om_keys :: "('k, 'v) om \<Rightarrow> 'k list" where
  "om_keys m = map fst m"

definition om_extend :: "('k :: linorder, 'v) om \<Rightarrow> ('k \<times> 'v) list \<Rightarrow> ('k, 'v) om" where
  "om_extend m kvs = foldl (\<lambda>acc (k, v). om_insert k v acc) m kvs"

definition om_ok :: "('k :: linorder, 'v) om \<Rightarrow> bool" where
  "om_ok m \<longleftrightarrow> sorted_wrt (<) (map fst m)"

lemma om_ok_simps [simp]:
  "om_ok []" "om_ok ((k, v) # m) \<longleftrightarrow> (\<forall>x \<in> set m. k < fst x) \<and> om_ok m"
  by (auto simp: om_ok_def)

lemma fst_set_om_insert [simp]: "fst ` set (om_insert k v m) = insert k (fst ` set m)"
  by (induction k v m rule: om_insert.induct) auto

lemma fst_set_om_remove: "fst ` set (om_remove k m) \<subseteq> fst ` set m"
  by (induction k m rule: om_remove.induct) auto

lemma ball_fst: "(\<forall>x \<in> set m. P (fst x)) \<longleftrightarrow> (\<forall>k \<in> fst ` set m. P k)"
  by simp

lemma ball_om_insert: "(\<forall>x \<in> set (om_insert k v m). j < fst x) \<longleftrightarrow> j < k \<and> (\<forall>x \<in> set m. j < fst x)"
  unfolding ball_fst [of _ "(<) j"] fst_set_om_insert by simp

lemma om_insert_ok [intro]: "om_ok m \<Longrightarrow> om_ok (om_insert k v m)"
  by (induction k v m rule: om_insert.induct) (auto simp: ball_om_insert intro: less_trans)

lemma ball_om_remove: "\<forall>x \<in> set m. j < fst x \<Longrightarrow> \<forall>x \<in> set (om_remove k m). j < fst x"
  unfolding ball_fst [of _ "(<) j"] using fst_set_om_remove by blast

lemma om_remove_ok [intro]: "om_ok m \<Longrightarrow> om_ok (om_remove k m)"
  by (induction k m rule: om_remove.induct) (auto dest: ball_om_remove)

lemma om_get_None_iff: "om_get m k = None \<longleftrightarrow> k \<notin> fst ` set m"
  by (simp add: om_get_def map_of_eq_None_iff)

lemma om_get_insert: "om_get (om_insert k v m) j = (if j = k then Some v else om_get m j)"
  by (induction k v m rule: om_insert.induct) (auto simp: om_get_def)

lemma om_get_below:
  fixes k :: "'k :: linorder"
  shows "\<forall>x \<in> set m. k < fst x \<Longrightarrow> om_get m k = None"
  by (induction m) (auto simp: om_get_def)

lemma om_get_Cons: "om_get ((k', v') # m) k = (if k = k' then Some v' else om_get m k)"
  by (simp add: om_get_def)

lemma om_get_remove: "om_ok m \<Longrightarrow> om_get (om_remove k m) j = (if j = k then None else om_get m j)"
proof (induction k m rule: om_remove.induct)
  case (2 k k' v' m)
  then have "om_get m k' = None" by (simp add: om_get_below)
  with 2 show ?case by (auto simp: om_get_Cons)
qed (simp add: om_get_def)

lemma om_ext: "om_ok m \<Longrightarrow> om_ok n \<Longrightarrow> (\<And>k. om_get m k = om_get n k) \<Longrightarrow> m = n"
proof (induction m arbitrary: n)
  case Nil
  show ?case
  proof (cases n)
    case (Cons kw n')
    with Nil(3) [of "fst kw"] show ?thesis by (cases kw) (simp add: om_get_def)
  qed simp
next
  case (Cons kv m)
  obtain k v where kv: "kv = (k, v)" by force
  have v: "om_get n k = Some v" using Cons.prems(3) [of k] by (simp add: kv om_get_Cons)
  then obtain j w n' where n: "n = (j, w) # n'" by (cases n) (auto simp: om_get_def)
  have below: "om_get m k = None" "om_get n' j = None"
    using Cons.prems(1,2) unfolding kv n om_ok_simps by (auto intro: om_get_below)
  have "k = j"
  proof (rule ccontr)
    assume ne: "k \<noteq> j"
    then have "om_get n' k = Some v" "om_get m j = Some w"
      using v Cons.prems(3) [of j] by (simp_all add: kv n om_get_Cons)
    then have "k \<in> fst ` set n'" "j \<in> fst ` set m"
      using om_get_None_iff by (metis option.distinct(1))+
    then have "j < k" "k < j" using Cons.prems(1,2) unfolding kv n om_ok_simps by auto
    then show False by simp
  qed
  moreover have "v = w" using v calculation by (simp add: n om_get_Cons)
  moreover have "m = n'"
  proof (rule Cons.IH)
    show "om_ok m" "om_ok n'" using Cons.prems(1,2) by (simp_all add: kv n)
    show "om_get m x = om_get n' x" for x
      using Cons.prems(3) [of x] below \<open>k = j\<close> by (cases "x = k") (simp_all add: kv n om_get_Cons)
  qed
  ultimately show ?case by (simp add: kv n)
qed

locale ordered_map =
  fixes ok :: "'m \<Rightarrow> bool"
    and get :: "'m \<Rightarrow> 'k \<Rightarrow> 'v option"
    and ins :: "'k \<Rightarrow> 'v \<Rightarrow> 'm \<Rightarrow> 'm"
    and del :: "'k \<Rightarrow> 'm \<Rightarrow> 'm"
  assumes ins_ok: "ok m \<Longrightarrow> ok (ins k v m)"
    and del_ok: "ok m \<Longrightarrow> ok (del k m)"
    and get_ins: "ok m \<Longrightarrow> get (ins k v m) j = (if j = k then Some v else get m j)"
    and get_del: "ok m \<Longrightarrow> get (del k m) j = (if j = k then None else get m j)"
    and ext_eq: "ok m \<Longrightarrow> ok n \<Longrightarrow> (\<And>k. get m k = get n k) \<Longrightarrow> m = n"
begin

lemma ins_same: "ok m \<Longrightarrow> get m k = Some v \<Longrightarrow> ins k v m = m"
  by (rule ext_eq) (auto simp: ins_ok get_ins)

lemma ins_twice: "ok m \<Longrightarrow> ins k v (ins k w m) = ins k v m"
  by (rule ext_eq) (auto simp: ins_ok get_ins)

lemma ins_commute: "ok m \<Longrightarrow> j \<noteq> k \<Longrightarrow> ins j v (ins k w m) = ins k w (ins j v m)"
  by (rule ext_eq) (auto simp: ins_ok get_ins)

lemma del_absent: "ok m \<Longrightarrow> get m k = None \<Longrightarrow> del k m = m"
  by (rule ext_eq) (auto simp: del_ok get_del)

lemma del_ins: "ok m \<Longrightarrow> get m k = None \<Longrightarrow> del k (ins k v m) = m"
  by (rule ext_eq) (auto simp: ins_ok del_ok get_ins get_del)

lemma foldl_ins_ok: "ok m \<Longrightarrow> ok (foldl (\<lambda>acc (k, v). ins k v acc) m kvs)"
  by (induction kvs arbitrary: m) (auto simp: ins_ok)

lemma get_foldl_ins:
  "ok m \<Longrightarrow> get (foldl (\<lambda>acc (k, v). ins k v acc) m kvs) j
    = (case map_of (rev kvs) j of Some v \<Rightarrow> Some v | None \<Rightarrow> get m j)"
proof (induction kvs arbitrary: m)
  case (Cons kv kvs)
  obtain k v where "kv = (k, v)" by force
  with Cons.IH [of "ins k v m"] Cons.prems show ?case
    by (auto simp: ins_ok get_ins map_add_def split: option.split)
qed simp

end

interpretation om: ordered_map om_ok om_get om_insert om_remove
  by unfold_locales (auto simp: om_get_insert om_get_remove intro: om_ext)

end
