(* ===== verification/Json_Value.thy ===== *)
theory Json_Value
  imports Ordered_Map
begin

text \<open>
  \<^verbatim>\<open>serde_json::Value\<close>, the type the source passes JSON around in. Objects keep the order they
  were written in (the workspace builds \<^verbatim>\<open>serde_json\<close> with \<^verbatim>\<open>preserve_order\<close>). A number is an
  integer, or, when it is not, the text it prints as. Parsing and printing of JSON text are
  \<^verbatim>\<open>serde_json\<close>'s own and stay parameters of the definitions that use them; \<open>json_text\<close> is the
  compact form \<^verbatim>\<open>Display\<close> prints, for the escapes of control characters, quotes and backslashes.
\<close>

datatype json =
    JNull
  | JBool bool
  | JInt int
  | JFloat str
  | JString str
  | JArray "json list"
  | JObject "(str \<times> json) list"

definition json_get :: "json \<Rightarrow> str \<Rightarrow> json option" where
  "json_get v k = (case v of JObject fs \<Rightarrow> map_of fs k | _ \<Rightarrow> None)"

definition json_as_str :: "json \<Rightarrow> str option" where
  "json_as_str v = (case v of JString s \<Rightarrow> Some s | _ \<Rightarrow> None)"

definition json_as_array :: "json \<Rightarrow> json list option" where
  "json_as_array v = (case v of JArray vs \<Rightarrow> Some vs | _ \<Rightarrow> None)"

definition json_as_u64 :: "json \<Rightarrow> nat option" where
  "json_as_u64 v = (case v of JInt i \<Rightarrow> if 0 \<le> i \<and> i < 2 ^ 64 then Some (nat i) else None | _ \<Rightarrow> None)"

definition json_as_bool :: "json \<Rightarrow> bool option" where
  "json_as_bool v = (case v of JBool b \<Rightarrow> Some b | _ \<Rightarrow> None)"

definition json_is_null :: "json \<Rightarrow> bool" where
  "json_is_null v \<longleftrightarrow> v = JNull"

definition hex_digit :: "nat \<Rightarrow> char" where
  "hex_digit d = (if d < 10 then char_of (48 + d) else char_of (87 + d))"

definition json_escape :: "char \<Rightarrow> str" where
  "json_escape c =
     (if c = CHR 0x22 then [CHR 0x5C, CHR 0x22]
      else if c = CHR 0x5C then [CHR 0x5C, CHR 0x5C]
      else if code c = (8::nat) then [CHR 0x5C, CHR ''b'']
      else if code c = (9::nat) then [CHR 0x5C, CHR ''t'']
      else if code c = (10::nat) then [CHR 0x5C, CHR ''n'']
      else if code c = (12::nat) then [CHR 0x5C, CHR ''f'']
      else if code c = (13::nat) then [CHR 0x5C, CHR ''r'']
      else if code c < (32::nat)
        then [CHR 0x5C, CHR ''u'', CHR ''0'', CHR ''0'', hex_digit (code c div 16), hex_digit (code c mod 16)]
      else [c])"

definition json_quote :: "str \<Rightarrow> str" where
  "json_quote s = CHR 0x22 # concat (map json_escape s) @ [CHR 0x22]"

fun json_text :: "json \<Rightarrow> str" where
  "json_text JNull = ''null''"
| "json_text (JBool b) = (if b then ''true'' else ''false'')"
| "json_text (JInt i) = show_int i"
| "json_text (JFloat t) = t"
| "json_text (JString s) = json_quote s"
| "json_text (JArray vs) = ''['' @ join_with '','' (map json_text vs) @ '']''"
| "json_text (JObject fs) =
     ''{'' @ join_with '','' (map (\<lambda>(k, v). json_quote k @ '':'' @ json_text v) fs) @ ''}''"

end
