(* ===== verification/Schedules.thy ===== *)
theory Schedules
  imports Cron_Next Every_Interval Watch_Poll Json_Value
begin

text \<open>
  Schedules: \<^verbatim>\<open>crates/scheduler/src/lib.rs\<close>. A trigger on the wire is a \<open>raw_trigger\<close>, every
  field of it optional; \<open>trigger_of_raw\<close> is its \<^verbatim>\<open>TryFrom\<close> and \<open>raw_of_trigger\<close> the way
  back. Reading a file is \<open>schedules_load\<close>: the outcome of the read and the JSON parser are its
  arguments.
\<close>

section \<open>The code\<close>

definition CURRENT_FORMAT_VERSION :: nat where
  "CURRENT_FORMAT_VERSION = 1"

datatype trigger_error =
    TriggerMissing
  | TriggerSeveral str
  | TimezoneRefused str
  | PollWithoutWatch
  | TriggerInterval interval_error
  | TriggerCron cron_error

datatype trigger = TEvery interval | TCron cron | TWatch watch

definition trigger_describe :: "trigger \<Rightarrow> str" where
  "trigger_describe t = (case t of
     TEvery i \<Rightarrow> ''every '' @ interval_to_string i
   | TCron c \<Rightarrow> ''cron '' @ cron_to_string c
   | TWatch w \<Rightarrow> ''watch '' @ w_path w)"

record raw_trigger =
  rt_every :: "str option"
  rt_cron :: "str option"
  rt_watch :: "str option"
  rt_poll_seconds :: "nat option"
  rt_tz :: "str option"
  rt_extra :: "(str, json) om"

definition raw_trigger_default :: raw_trigger where
  "raw_trigger_default = \<lparr> rt_every = None, rt_cron = None, rt_watch = None,
     rt_poll_seconds = None, rt_tz = None, rt_extra = [] \<rparr>"

definition trigger_of_raw :: "raw_trigger \<Rightarrow> trigger_error + trigger" where
  "trigger_of_raw raw =
     (case rt_tz raw of
        Some zone \<Rightarrow> Inl (TimezoneRefused zone)
      | None \<Rightarrow>
          (let named = (if rt_every raw \<noteq> None then [''every''] else [])
                 @ (if rt_cron raw \<noteq> None then [''cron''] else [])
                 @ (if rt_watch raw \<noteq> None then [''watch''] else [])
           in if length named = 0 then Inl TriggerMissing
              else if length named \<noteq> 1 then Inl (TriggerSeveral (join_with '', '' named))
              else if rt_poll_seconds raw \<noteq> None \<and> rt_watch raw = None then Inl PollWithoutWatch
              else case rt_every raw of
                     Some s \<Rightarrow> and_then (map_err TriggerInterval (interval_parse s)) (\<lambda>i. Inr (TEvery i))
                   | None \<Rightarrow>
                       (case rt_cron raw of
                          Some s \<Rightarrow> and_then (map_err TriggerCron (cron_parse s)) (\<lambda>c. Inr (TCron c))
                        | None \<Rightarrow> Inr (TWatch (watch_new (the (rt_watch raw)) (rt_poll_seconds raw))))))"

definition raw_of_trigger :: "trigger \<Rightarrow> raw_trigger" where
  "raw_of_trigger t = (case t of
     TEvery i \<Rightarrow> raw_trigger_default\<lparr> rt_every := Some (interval_to_string i) \<rparr>
   | TCron c \<Rightarrow> raw_trigger_default\<lparr> rt_cron := Some (cron_to_string c) \<rparr>
   | TWatch w \<Rightarrow> raw_trigger_default\<lparr> rt_watch := Some (w_path w),
                                      rt_poll_seconds := Some (w_poll_seconds w) \<rparr>)"

record schedule =
  sch_name :: str
  sch_pipeline :: str
  sch_trigger :: trigger
  sch_enabled :: bool
  sch_context :: "str option"
  sch_params :: "(str, str) om"
  sch_extra :: "(str, json) om"

definition pipeline_in :: "schedule \<Rightarrow> str \<Rightarrow> str" where
  "pipeline_in s workspace =
     (if is_absolute (sch_pipeline s) then sch_pipeline s else path_join workspace (sch_pipeline s))"

record schedule_file =
  sf_format_version :: nat
  sf_schedules :: "schedule list"
  sf_extra :: "(str, json) om"

definition schedule_file_default :: schedule_file where
  "schedule_file_default =
     \<lparr> sf_format_version = CURRENT_FORMAT_VERSION, sf_schedules = [], sf_extra = [] \<rparr>"

datatype schedule_error =
    ScheduleRead str
  | ScheduleMalformed str
  | ScheduleTooNew str nat nat
  | Unnamed nat
  | DuplicateName str
  | NoPipeline str

fun check_schedules :: "nat \<Rightarrow> str list \<Rightarrow> schedule list \<Rightarrow> schedule_error + unit" where
  "check_schedules pos seen [] = Inr ()"
| "check_schedules pos seen (s # ss) =
     (if trim (sch_name s) = [] then Inl (Unnamed pos)
      else if sch_name s \<in> set seen then Inl (DuplicateName (sch_name s))
      else if sch_pipeline s = [] then Inl (NoPipeline (sch_name s))
      else check_schedules (Suc pos) (sch_name s # seen) ss)"

definition schedule_file_check :: "schedule_file \<Rightarrow> schedule_error + unit" where
  "schedule_file_check f = check_schedules 0 [] (sf_schedules f)"

datatype read_outcome = ReadOk str | ReadNotFound | ReadFailed

definition schedules_load ::
  "(str \<Rightarrow> schedule_file option) \<Rightarrow> str \<Rightarrow> read_outcome \<Rightarrow> schedule_error + schedule_file" where
  "schedules_load parse path outcome =
     (case outcome of
        ReadNotFound \<Rightarrow> Inr schedule_file_default
      | ReadFailed \<Rightarrow> Inl (ScheduleRead path)
      | ReadOk content \<Rightarrow>
          and_then (ok_or (ScheduleMalformed path) (parse content)) (\<lambda>f.
            if sf_format_version f > CURRENT_FORMAT_VERSION
            then Inl (ScheduleTooNew path (sf_format_version f) CURRENT_FORMAT_VERSION)
            else and_then (schedule_file_check f) (\<lambda>_. Inr f)))"

definition enabled_schedules :: "schedule_file \<Rightarrow> schedule list" where
  "enabled_schedules f = filter sch_enabled (sf_schedules f)"

section \<open>Triggers\<close>

definition wf_trigger :: "trigger \<Rightarrow> bool" where
  "wf_trigger t = (case t of
     TEvery i \<Rightarrow> wf_interval i | TCron c \<Rightarrow> wf_cron c | TWatch w \<Rightarrow> 0 < w_poll_seconds w)"

lemma watch_new_poll: "0 < w_poll_seconds (watch_new p n)"
  by (auto simp: watch_new_def DEFAULT_POLL_SECONDS_def split: option.split)

lemma trigger_of_raw_Inr:
  assumes "trigger_of_raw raw = Inr t"
  obtains (every) s i where "rt_tz raw = None" "rt_every raw = Some s" "rt_cron raw = None"
      "rt_watch raw = None" "interval_parse s = Inr i" "t = TEvery i"
  | (cron) s c where "rt_tz raw = None" "rt_every raw = None" "rt_cron raw = Some s"
      "rt_watch raw = None" "cron_parse s = Inr c" "t = TCron c"
  | (watch) p where "rt_tz raw = None" "rt_every raw = None" "rt_cron raw = None"
      "rt_watch raw = Some p" "t = TWatch (watch_new p (rt_poll_seconds raw))"
  using assms
  by (auto simp: trigger_of_raw_def Let_def and_then_eq_Inr_iff split: option.splits if_splits)

lemma trigger_of_raw_wf [wf_intros]:
  assumes "trigger_of_raw raw = Inr t"
  shows "wf_trigger t"
  using assms
proof (cases rule: trigger_of_raw_Inr)
  case every
  then show ?thesis by (simp add: wf_trigger_def interval_parse_wf)
next
  case cron
  then show ?thesis by (simp add: wf_trigger_def cron_parse_wf)
next
  case watch
  then show ?thesis by (simp add: wf_trigger_def watch_new_poll)
qed

text \<open>
  A trigger that was accepted is accepted again, unchanged, from the form it is written back
  in: a schedule file that is loaded and saved keeps its triggers.
\<close>

lemma trigger_roundtrip:
  assumes "trigger_of_raw raw = Inr t"
  shows "trigger_of_raw (raw_of_trigger t) = Inr t"
  using assms
proof (cases rule: trigger_of_raw_Inr)
  case every
  then show ?thesis
    by (simp add: raw_of_trigger_def raw_trigger_default_def trigger_of_raw_def
        interval_parse_to_string)
next
  case cron
  then show ?thesis
    by (simp add: raw_of_trigger_def raw_trigger_default_def trigger_of_raw_def
        cron_parse_to_string)
next
  case watch
  then show ?thesis
    using watch_new_poll [of "w_path (watch_new p (rt_poll_seconds raw))"]
    by (auto simp: raw_of_trigger_def raw_trigger_default_def trigger_of_raw_def watch_new_def
        DEFAULT_POLL_SECONDS_def split: option.split)
qed

lemma trigger_roundtrip_witness:
  "trigger_of_raw (raw_of_trigger (TWatch \<lparr> w_path = ''inbox'', w_poll_seconds = 10 \<rparr>))
     = Inr (TWatch \<lparr> w_path = ''inbox'', w_poll_seconds = 10 \<rparr>)"
  using trigger_roundtrip
    [of "\<lparr> rt_every = None, rt_cron = None, rt_watch = Some ''inbox'', rt_poll_seconds = None,
           rt_tz = None, rt_extra = [] \<rparr>" "TWatch \<lparr> w_path = ''inbox'', w_poll_seconds = 10 \<rparr>"]
  by (simp add: trigger_of_raw_def watch_new_def DEFAULT_POLL_SECONDS_def)

text \<open>
  A trigger that names a timezone is refused whatever else it says, and one that is accepted
  names exactly one of \<^verbatim>\<open>every\<close>, \<^verbatim>\<open>cron\<close> and \<^verbatim>\<open>watch\<close>, with a poll interval only for a watch.
\<close>

lemma trigger_of_raw_accepts:
  "(rt_tz raw = Some zone \<longrightarrow> trigger_of_raw raw = Inl (TimezoneRefused zone))
   \<and> (trigger_of_raw raw = Inr t \<longrightarrow>
        length (filter (\<lambda>f. f \<noteq> None) [rt_every raw, rt_cron raw, rt_watch raw]) = 1
        \<and> (rt_poll_seconds raw \<noteq> None \<longrightarrow> rt_watch raw \<noteq> None) \<and> rt_tz raw = None)"
  by (auto simp: trigger_of_raw_def Let_def split: option.splits if_splits)

lemma trigger_of_raw_accepts_witness:
  "trigger_of_raw \<lparr> rt_every = None, rt_cron = Some ''0 3 * * *'', rt_watch = None,
     rt_poll_seconds = None, rt_tz = Some ''IST'', rt_extra = [] \<rparr> = Inl (TimezoneRefused ''IST'')"
  using trigger_of_raw_accepts [of "\<lparr> rt_every = None, rt_cron = Some ''0 3 * * *'',
    rt_watch = None, rt_poll_seconds = None, rt_tz = Some ''IST'', rt_extra = [] \<rparr>" "''IST''"]
  by simp

section \<open>Schedule files\<close>

definition well_named :: "schedule \<Rightarrow> bool" where
  "well_named s \<longleftrightarrow> trim (sch_name s) \<noteq> [] \<and> sch_pipeline s \<noteq> []"

lemma check_schedules_iff:
  "check_schedules n seen ss = Inr () \<longleftrightarrow>
     list_all well_named ss \<and> distinct (map sch_name ss) \<and> set (map sch_name ss) \<inter> set seen = {}"
  by (induction n seen ss rule: check_schedules.induct) (auto simp: well_named_def)

text \<open>
  A schedule file that exists loads exactly when it parses, is of a version this build
  understands, and gives every schedule a name, a distinct one, and a pipeline; a file that is
  not there is the empty set of schedules.
\<close>

lemma schedules_load_iff:
  "(schedules_load parse path (ReadOk content) = Inr f \<longleftrightarrow>
      parse content = Some f \<and> sf_format_version f \<le> CURRENT_FORMAT_VERSION
      \<and> list_all well_named (sf_schedules f) \<and> distinct (map sch_name (sf_schedules f)))
   \<and> schedules_load parse path ReadNotFound = Inr schedule_file_default"
  by (auto simp: schedules_load_def and_then_eq_Inr_iff schedule_file_check_def check_schedules_iff
      not_less split: if_splits)

end
