(* ===== verification/Scheduler_Loop.thy ===== *)
theory Scheduler_Loop
  imports Schedules
begin

text \<open>
  The scheduler's loop: \<^verbatim>\<open>crates/scheduler/src/run.rs\<close>. Everything outside the scheduler is an
  \<open>env\<close> over a world \<open>'w\<close> that is threaded through every call: the clock (the \<^verbatim>\<open>Clock\<close> trait),
  the closure that runs a pipeline, the file system a watch looks at, and the stop request.
  \<open>sched_run\<close> takes fuel, one unit a pass; \<open>sched_run_returns\<close> gives how much a bounded run
  needs.
\<close>

section \<open>The code\<close>

datatype outcome = Succeeded | Failed | Broken

definition outcome_name :: "outcome \<Rightarrow> str" where
  "outcome_name r = (case r of Succeeded \<Rightarrow> ''ok'' | Failed \<Rightarrow> ''failed'' | Broken \<Rightarrow> ''broken'')"

definition outcome_is_ok :: "outcome \<Rightarrow> bool" where
  "outcome_is_ok r \<longleftrightarrow> r = Succeeded"

record 'w env =
  ev_now :: "'w \<Rightarrow> int \<times> 'w"
  ev_sleep :: "nat \<Rightarrow> 'w \<Rightarrow> 'w"
  ev_runner :: "schedule \<Rightarrow> 'w \<Rightarrow> outcome \<times> 'w"
  ev_look :: "str \<Rightarrow> 'w \<Rightarrow> disk_view \<times> 'w"
  ev_stop :: "'w \<Rightarrow> bool \<times> 'w"

record tick =
  tk_name :: str
  tk_due :: int
  tk_started :: int
  tk_outcome :: outcome
  tk_took :: int
  tk_missed :: nat

type_synonym summary = "tick list"

definition summary_ran :: "summary \<Rightarrow> nat" where
  "summary_ran ticks = length ticks"

definition summary_failed :: "summary \<Rightarrow> nat" where
  "summary_failed ticks = length (filter (\<lambda>t. \<not> outcome_is_ok (tk_outcome t)) ticks)"

definition summary_missed :: "summary \<Rightarrow> nat" where
  "summary_missed ticks = sum_list (map tk_missed ticks)"

record entry =
  en_schedule :: schedule
  en_next :: "int option"
  en_last_run :: "int option"
  en_missed :: nat
  en_behind :: nat
  en_watch :: "(str \<times> watch_state) option"
  en_next_poll :: int

definition describe_next :: "entry \<Rightarrow> int \<Rightarrow> str" where
  "describe_next e now =
     (case sch_trigger (en_schedule e) of
        TWatch w \<Rightarrow> ''when '' @ w_path w @ '' changes''
      | _ \<Rightarrow> (case en_next e of
            Some next \<Rightarrow> if next \<le> now then ''due now'' else to_rfc3339 next
          | None \<Rightarrow> ''never''))"

definition entry_new :: "str \<Rightarrow> int \<Rightarrow> schedule \<Rightarrow> int option \<Rightarrow> entry" where
  "entry_new workspace now s previous =
     (case (case sch_trigger s of
              TEvery i \<Rightarrow>
                (Some ((case previous of Some p \<Rightarrow> p | None \<Rightarrow> now) + int (iv_seconds i)), None, 0)
            | TCron c \<Rightarrow> (cron_next_after c now, None, 0)
            | TWatch w \<Rightarrow> (None, Some (watch_resolve w workspace, watch_state_default), now)) of
        (next, wtch, next_poll) \<Rightarrow>
          \<lparr> en_schedule = s, en_next = next, en_last_run = previous, en_missed = 0,
            en_behind = (case (sch_trigger s, previous) of
               (TEvery i, Some p) \<Rightarrow> missed_between i (p + int (iv_seconds i)) now
             | _ \<Rightarrow> 0),
            en_watch = wtch, en_next_poll = next_poll \<rparr>)"

fun entries_new ::
  "str \<Rightarrow> int \<Rightarrow> (schedule \<Rightarrow> 'w \<Rightarrow> int option \<times> 'w) \<Rightarrow> schedule list \<Rightarrow> 'w \<Rightarrow> entry list \<times> 'w" where
  "entries_new workspace now last_run [] w = ([], w)"
| "entries_new workspace now last_run (s # ss) w =
     (case last_run s w of (previous, w1) \<Rightarrow>
      case entries_new workspace now last_run ss w1 of (es, w2) \<Rightarrow>
        (entry_new workspace now s previous # es, w2))"

definition wake_at :: "entry list \<Rightarrow> int option" where
  "wake_at es =
     (case filter_map (\<lambda>e. case en_watch e of Some _ \<Rightarrow> Some (en_next_poll e) | None \<Rightarrow> en_next e) es of
        [] \<Rightarrow> None
      | t # ts \<Rightarrow> Some (fold min ts t))"

definition poll_seconds_of :: "entry \<Rightarrow> nat" where
  "poll_seconds_of e = (case sch_trigger (en_schedule e) of
     TWatch w \<Rightarrow> w_poll_seconds w | _ \<Rightarrow> DEFAULT_POLL_SECONDS)"

definition entry_due :: "'w env \<Rightarrow> int \<Rightarrow> entry \<Rightarrow> 'w \<Rightarrow> bool \<times> entry \<times> 'w" where
  "entry_due ev now e w =
     (case en_watch e of
        Some (path, st) \<Rightarrow>
          if now < en_next_poll e then (False, e, w)
          else (case ev_look ev path w of (view, w1) \<Rightarrow>
                case watch_poll (stamp_of view) st of (p, st') \<Rightarrow>
                  (p = Settled,
                   e\<lparr> en_next_poll := now + int (poll_seconds_of e), en_watch := Some (path, st') \<rparr>, w1))
      | None \<Rightarrow> ((case en_next e of Some next \<Rightarrow> next \<le> now | None \<Rightarrow> False), e, w))"

fun due_now :: "'w env \<Rightarrow> int \<Rightarrow> nat \<Rightarrow> entry list \<Rightarrow> 'w \<Rightarrow> nat list \<times> entry list \<times> 'w" where
  "due_now ev now idx [] w = ([], [], w)"
| "due_now ev now idx (e # es) w =
     (case entry_due ev now e w of (d, e', w1) \<Rightarrow>
      case due_now ev now (Suc idx) es w1 of (due, es', w2) \<Rightarrow>
        ((if d then idx # due else due), e' # es', w2))"

definition advance :: "trigger \<Rightarrow> int \<Rightarrow> int \<Rightarrow> int option" where
  "advance t due finished = (case t of
     TEvery i \<Rightarrow> Some (interval_next_after i due finished)
   | TCron c \<Rightarrow> cron_next_after c finished
   | TWatch _ \<Rightarrow> None)"

definition run_entry :: "'w env \<Rightarrow> entry \<Rightarrow> 'w \<Rightarrow> tick \<times> entry \<times> 'w" where
  "run_entry ev e w =
     (case ev_now ev w of (started, w1) \<Rightarrow>
      let was_due = (case en_next e of Some n \<Rightarrow> n | None \<Rightarrow> started)
      in case ev_runner ev (en_schedule e) w1 of (result, w2) \<Rightarrow>
         case ev_now ev w2 of (finished, w3) \<Rightarrow>
         let missed = (case sch_trigger (en_schedule e) of
               TEvery i \<Rightarrow> missed_between i started finished
             | _ \<Rightarrow> 0)
         in (\<lparr> tk_name = sch_name (en_schedule e), tk_due = was_due, tk_started = started,
               tk_outcome = result, tk_took = max (finished - started) 0, tk_missed = missed \<rparr>,
             e\<lparr> en_missed := en_missed e + missed, en_last_run := Some started,
                en_next := advance (sch_trigger (en_schedule e)) was_due finished \<rparr>,
             w3))"

fun run_due :: "'w env \<Rightarrow> nat list \<Rightarrow> entry list \<Rightarrow> 'w \<Rightarrow> tick list \<times> entry list \<times> 'w" where
  "run_due ev [] es w = ([], es, w)"
| "run_due ev (idx # due) es w =
     (case run_entry ev (es ! idx) w of (t, e', w1) \<Rightarrow>
      case run_due ev due (es[idx := e']) w1 of (ts, es', w2) \<Rightarrow> (t # ts, es', w2))"

definition sched_pass :: "'w env \<Rightarrow> entry list \<Rightarrow> 'w \<Rightarrow> tick list \<times> entry list \<times> 'w" where
  "sched_pass ev es w =
     (case ev_now ev w of (now, w1) \<Rightarrow>
      case due_now ev now 0 es w1 of (due, es', w2) \<Rightarrow> run_due ev due es' w2)"

definition MAX_SLEEP_SECONDS :: nat where
  "MAX_SLEEP_SECONDS = 30"

fun sched_run ::
  "nat \<Rightarrow> 'w env \<Rightarrow> nat option \<Rightarrow> nat \<Rightarrow> summary \<Rightarrow> entry list \<Rightarrow> 'w
     \<Rightarrow> (summary \<times> entry list \<times> 'w) option" where
  "sched_run 0 ev max_passes passes summary es w = None"
| "sched_run (Suc fuel) ev max_passes passes summary es w =
     (case ev_stop ev w of (stop, w0) \<Rightarrow>
      if stop then Some (summary, es, w0)
      else case sched_pass ev es w0 of (ts, es1, w1) \<Rightarrow>
        let summary' = summary @ ts; passes' = passes + 1
        in if (case max_passes of Some limit \<Rightarrow> passes' \<ge> limit | None \<Rightarrow> False)
           then Some (summary', es1, w1)
           else case ev_stop ev w1 of (stop', w2) \<Rightarrow>
             if stop' then Some (summary', es1, w2)
             else case wake_at es1 of
                    None \<Rightarrow> Some (summary', es1, w2)
                  | Some wake \<Rightarrow>
                      (case ev_now ev w2 of (now, w3) \<Rightarrow>
                       let w4 = (if wake > now
                                 then ev_sleep ev (min (nat (wake - now)) MAX_SLEEP_SECONDS) w3 else w3)
                       in sched_run fuel ev max_passes passes' summary' es1 w4))"

section \<open>Entries\<close>

definition wf_entry :: "entry \<Rightarrow> bool" where
  "wf_entry e \<longleftrightarrow> wf_trigger (sch_trigger (en_schedule e))
     \<and> (case sch_trigger (en_schedule e) of
          TWatch _ \<Rightarrow> en_watch e \<noteq> None \<and> en_next e = None
        | _ \<Rightarrow> en_watch e = None)"

lemma entry_new_wf [wf_intros]: "wf_trigger (sch_trigger s) \<Longrightarrow> wf_entry (entry_new ws now s prev)"
  by (auto simp: wf_entry_def entry_new_def split: trigger.split)

lemma entry_new_schedule [simp]: "en_schedule (entry_new ws now s prev) = s"
  by (auto simp: entry_new_def split: trigger.split)

lemma entries_new_wf:
  "entries_new ws now last_run ss w = (es, w') \<Longrightarrow> \<forall>s \<in> set ss. wf_trigger (sch_trigger s)
     \<Longrightarrow> list_all wf_entry es \<and> map en_schedule es = ss"
  by (induction ss arbitrary: w es) (auto split: prod.splits intro: entry_new_wf)

lemma entry_due_keeps:
  assumes "entry_due ev now e w = (d, e', w')" "wf_entry e"
  shows "wf_entry e'" "en_schedule e' = en_schedule e" "en_next e' = en_next e"
    "en_last_run e' = en_last_run e" "en_missed e' = en_missed e"
  using assms by (auto simp: entry_due_def wf_entry_def split: option.splits if_splits prod.splits
      trigger.splits)

lemma due_now_keeps:
  "due_now ev now i es w = (due, es', w') \<Longrightarrow> list_all wf_entry es \<Longrightarrow>
     list_all wf_entry es' \<and> map en_schedule es' = map en_schedule es \<and> map en_next es' = map en_next es"
  by (induction ev now i es w arbitrary: due es' w' rule: due_now.induct)
     (auto split: prod.splits dest: entry_due_keeps)

lemma due_now_range:
  "due_now ev now i es w = (due, es', w') \<Longrightarrow>
     sorted_wrt (<) due \<and> (\<forall>k \<in> set due. i \<le> k \<and> k < i + length es) \<and> length es' = length es"
  by (induction ev now i es w arbitrary: due es' w' rule: due_now.induct)
     (fastforce split: prod.splits if_splits)+

text \<open>An entry that is not watched is due exactly when its time has come.\<close>

lemma due_now_timed:
  "due_now ev now i es w = (due, es', w') \<Longrightarrow> k < length es \<Longrightarrow> en_watch (es ! k) = None \<Longrightarrow>
     i + k \<in> set due \<longleftrightarrow> (\<exists>t. en_next (es ! k) = Some t \<and> t \<le> now)"
proof (induction ev now i es w arbitrary: due es' w' k rule: due_now.induct)
  case (2 ev now i e es w)
  obtain d e' w1 where d: "entry_due ev now e w = (d, e', w1)" by (metis prod_cases3)
  obtain due1 es1 w2 where r: "due_now ev now (Suc i) es w1 = (due1, es1, w2)" by (metis prod_cases3)
  have due: "due = (if d then i # due1 else due1)" using "2.prems"(1) by (simp add: d r)
  have low: "\<forall>j \<in> set due1. Suc i \<le> j" using due_now_range [OF r] by blast
  show ?case
  proof (cases k)
    case 0
    then have "d \<longleftrightarrow> (\<exists>t. en_next e = Some t \<and> t \<le> now)"
      using d "2.prems"(3) by (auto simp: entry_due_def split: option.splits)
    then show ?thesis using 0 low due by auto
  next
    case (Suc m)
    have "Suc i + m \<in> set due1 \<longleftrightarrow> (\<exists>t. en_next (es ! m) = Some t \<and> t \<le> now)"
      using "2.IH" [OF d [symmetric] refl r] "2.prems" Suc by simp
    then show ?thesis using Suc due by auto
  qed
qed simp

text \<open>A watched entry is due only when a change was pending, so never at its first look.\<close>

lemma due_now_watched:
  "due_now ev now i es w = (due, es', w') \<Longrightarrow> k < length es \<Longrightarrow> en_watch (es ! k) = Some (path, st) \<Longrightarrow> i + k \<in> set due \<Longrightarrow>
     en_next_poll (es ! k) \<le> now \<and> ws_started st \<and> ws_unsettled st"
proof (induction ev now i es w arbitrary: due es' w' k rule: due_now.induct)
  case (2 ev now i e es w)
  obtain d e' w1 where d: "entry_due ev now e w = (d, e', w1)" by (metis prod_cases3)
  obtain due1 es1 w2 where r: "due_now ev now (Suc i) es w1 = (due1, es1, w2)" by (metis prod_cases3)
  have due: "due = (if d then i # due1 else due1)" using "2.prems"(1) by (simp add: d r)
  show ?case
  proof (cases k)
    case 0
    have "\<forall>j \<in> set due1. Suc i \<le> j" using due_now_range [OF r] by blast
    then have d "en_watch e = Some (path, st)" using "2.prems"(3,4) 0 due by (auto split: if_splits)
    then show ?thesis using d 0 by (auto simp: entry_due_def watch_poll_def split: prod.splits if_splits)
  next
    case (Suc m)
    then have "Suc i + m \<in> set due1" using "2.prems"(4) due by (auto split: if_splits)
    then show ?thesis using "2.IH" [OF d [symmetric] refl r] "2.prems"(2,3) Suc by simp
  qed
qed simp

lemma entry_new_watched:
  "sch_trigger s = TWatch t \<Longrightarrow> en_watch (entry_new ws now s prev) = Some (watch_resolve t ws, watch_state_default)"
  by (simp add: entry_new_def)

section \<open>After a run\<close>

text \<open>
  A trigger is next due strictly after the run finished: the ticks the run overran are skipped,
  never queued.
\<close>

lemma advance_later:
  assumes "wf_trigger t" "advance t due finished = Some n"
  shows "finished < n"
proof (cases t)
  case (TEvery i)
  then show ?thesis
    using assms every.next_later [of "(due, i)" finished n] by (simp add: advance_def wf_trigger_def)
next
  case (TCron c)
  then show ?thesis
    using assms cron.next_later [of c finished n] by (simp add: advance_def wf_trigger_def)
qed (use assms in \<open>simp add: advance_def\<close>)

lemma run_entry_keeps:
  assumes "run_entry ev e w = (t, e', w')" "wf_entry e"
  shows "wf_entry e'" "en_schedule e' = en_schedule e" "tk_name t = sch_name (en_schedule e)"
    "en_last_run e' = Some (tk_started t)"
  using assms by (auto simp: run_entry_def wf_entry_def advance_def Let_def
      split: prod.splits trigger.splits)

lemma run_due_keeps:
  "run_due ev due es w = (ts, es', w') \<Longrightarrow> list_all wf_entry es \<Longrightarrow> \<forall>k \<in> set due. k < length es \<Longrightarrow>
     list_all wf_entry es' \<and> map en_schedule es' = map en_schedule es
     \<and> map tk_name ts = map (\<lambda>k. sch_name (en_schedule (es ! k))) due"
proof (induction ev due es w arbitrary: ts es' w' rule: run_due.induct)
  case (2 ev i due es w)
  obtain t e' w1 where r: "run_entry ev (es ! i) w = (t, e', w1)" by (metis prod_cases3)
  obtain ts1 es1 w2 where d: "run_due ev due (es[i := e']) w1 = (ts1, es1, w2)" by (metis prod_cases3)
  have i: "i < length es" using "2.prems"(3) by simp
  then have wf: "wf_entry (es ! i)" using "2.prems"(2) by (simp add: list_all_length)
  note k = run_entry_keeps [OF r wf]
  have same: "map en_schedule (es[i := e']) = map en_schedule es"
    using k(2) i by (metis list_update_id map_update nth_map)
  have wfs: "list_all wf_entry (es[i := e'])"
    using "2.prems"(2) k(1) i by (auto simp: list_all_length nth_list_update)
  have "\<forall>j \<in> set due. j < length (es[i := e'])" using "2.prems"(3) by simp
  from "2.IH" [OF r [symmetric] refl d wfs this]
  have ih: "list_all wf_entry es1" "map en_schedule es1 = map en_schedule es"
    "map tk_name ts1 = map (\<lambda>k. sch_name (en_schedule (es[i := e'] ! k))) due"
    using same by simp_all
  have "en_schedule (es[i := e'] ! j) = en_schedule (es ! j)" if "j < length es" for j
    using same that by (metis length_list_update nth_map)
  then have "map tk_name ts1 = map (\<lambda>k. sch_name (en_schedule (es ! k))) due"
    unfolding ih(3) using "2.prems"(3) by simp
  with ih k(3) "2.prems"(1) show ?case by (auto simp: r d)
qed simp

lemma sched_pass_keeps:
  assumes "sched_pass ev es w = (ts, es', w')" "list_all wf_entry es"
  shows "list_all wf_entry es' \<and> map en_schedule es' = map en_schedule es"
proof -
  obtain now w1 where n: "ev_now ev w = (now, w1)" by force
  obtain due es1 w2 where d: "due_now ev now 0 es w1 = (due, es1, w2)" by (metis prod_cases3)
  have r: "run_due ev due es1 w2 = (ts, es', w')" using assms(1) by (simp add: sched_pass_def n d)
  note k = due_now_keeps [OF d assms(2)]
  have "\<forall>k \<in> set due. k < length es1" using due_now_range [OF d] by auto
  from run_due_keeps [OF r _ this] k show ?thesis by simp
qed

text \<open>
  A pass keeps the scheduler well formed: the same schedules in the same order, a watch
  for every watch trigger and for nothing else, and triggers as the parser left them. It holds
  from \<^verbatim>\<open>Scheduler::new\<close> on, for any number of passes, whatever the clock, the runs and the file
  system do.
\<close>

lemma sched_run_keeps:
  assumes "sched_run fuel ev max_passes passes summary es w = Some (summary', es', w')"
    and "list_all wf_entry es"
  shows "list_all wf_entry es' \<and> map en_schedule es' = map en_schedule es"
  using assms
proof (induction fuel arbitrary: passes summary es w)
  case (Suc fuel)
  obtain s0 w0 where s0: "ev_stop ev w = (s0, w0)" by force
  obtain ts es1 w1 where p: "sched_pass ev es w0 = (ts, es1, w1)" by (metis prod_cases3)
  obtain s1 w2 where s1: "ev_stop ev w1 = (s1, w2)" by force
  obtain now w3 where n: "ev_now ev w2 = (now, w3)" by force
  note k = sched_pass_keeps [OF p Suc.prems(2)]
  show ?case
    using Suc.prems(1) k Suc.IH [OF _ conjunct1 [OF k]] Suc.prems(2)
    by (auto simp: s0 p s1 n Let_def split: if_splits option.splits)
qed simp

lemma sched_run_keeps_witness:
  "sched_run 1 \<lparr> ev_now = (\<lambda>w. (7, w)), ev_sleep = (\<lambda>_ w. w), ev_runner = (\<lambda>_ w. (Succeeded, w)),
       ev_look = (\<lambda>_ w. ((None, None), w)), ev_stop = (\<lambda>w. (False, w)) \<rparr> (Some 1) 0 [] [] ()
     = Some ([], [], ())
   \<and> list_all wf_entry []"
  using sched_run_keeps [of 1 "\<lparr> ev_now = (\<lambda>w. (7, w)), ev_sleep = (\<lambda>_ w. w),
      ev_runner = (\<lambda>_ w. (Succeeded, w)), ev_look = (\<lambda>_ w. ((None, None), w)),
      ev_stop = (\<lambda>w. (False, w)) \<rparr>" "Some 1" 0 "[]" "[]" "()" "[]" "[]" "()"]
  by (simp add: sched_pass_def)

text \<open>
  C5: After a run the schedule is next due strictly after the run finished, so no schedule fires
  twice for one instant and no missed tick is queued; an interval stays on the grid it was due on
  and takes the first point of it past the finish, and what it reports as missed is the number of
  whole intervals the run itself took.
\<close>

theorem run_entry_advances:
  assumes "wf_entry e"
    and "ev_now ev w = (started, w1)" "ev_runner ev (en_schedule e) w1 = (result, w2)"
      "ev_now ev w2 = (finished, w3)"
    and "run_entry ev e w = (t, e', w')"
  shows "(\<forall>n. en_next e' = Some n \<longrightarrow> finished < n)
    \<and> tk_missed t = (case sch_trigger (en_schedule e) of
         TEvery i \<Rightarrow> missed_between i started finished | _ \<Rightarrow> 0)
    \<and> (\<forall>i. sch_trigger (en_schedule e) = TEvery i \<longrightarrow>
         (\<exists>n. en_next e' = Some n \<and> on_grid (tk_due t) i n
            \<and> (\<forall>u. on_grid (tk_due t) i u \<and> finished < u \<longrightarrow> n \<le> u)))"
proof -
  define due where "due = (case en_next e of Some n \<Rightarrow> n | None \<Rightarrow> started)"
  have r: "tk_due t = due" "en_next e' = advance (sch_trigger (en_schedule e)) due finished"
    "tk_missed t = (case sch_trigger (en_schedule e) of
         TEvery i \<Rightarrow> missed_between i started finished | _ \<Rightarrow> 0)"
    using assms(2-5) by (auto simp: run_entry_def due_def Let_def)
  have wf: "wf_trigger (sch_trigger (en_schedule e))" using assms(1) by (simp add: wf_entry_def)
  have "\<exists>n. en_next e' = Some n \<and> on_grid due i n
      \<and> (\<forall>u. on_grid due i u \<and> finished < u \<longrightarrow> n \<le> u)"
    if "sch_trigger (en_schedule e) = TEvery i" for i
  proof -
    have "wf_interval i" using wf that by (simp add: wf_trigger_def)
    from interval_next_after_first [OF this] show ?thesis using that by (simp add: r advance_def)
  qed
  with advance_later [OF wf] show ?thesis unfolding r by blast
qed

definition sample_schedule :: schedule where
  "sample_schedule = \<lparr> sch_name = ''hourly'', sch_pipeline = ''p.json'',
     sch_trigger = TEvery \<lparr> iv_seconds = 60, iv_text = ''1m'' \<rparr>, sch_enabled = True,
     sch_context = None, sch_params = [], sch_extra = [] \<rparr>"

definition sample_entry :: entry where
  "sample_entry = entry_new ''/ws'' 0 sample_schedule (Some 100)"

text \<open>A clock that advances by 70 seconds at every reading, and a runner that always succeeds.\<close>

definition sample_env :: "int env" where
  "sample_env = \<lparr> ev_now = (\<lambda>w. (w, w + 70)), ev_sleep = (\<lambda>n w. w + int n),
     ev_runner = (\<lambda>_ w. (Succeeded, w)), ev_look = (\<lambda>_ w. ((None, None), w)),
     ev_stop = (\<lambda>w. (False, w)) \<rparr>"

lemma sample_entry_wf: "wf_entry sample_entry"
  unfolding sample_entry_def
  by (rule entry_new_wf) (simp add: sample_schedule_def wf_trigger_def wf_interval_def MAX_SECONDS_def)

theorem run_entry_advances_witness:
  "\<exists>t e'. run_entry sample_env sample_entry 200 = (t, e', 340) \<and> tk_missed t = 1
     \<and> (\<forall>n. en_next e' = Some n \<longrightarrow> 270 < n)"
proof -
  obtain t e' w' where r: "run_entry sample_env sample_entry 200 = (t, e', w')" by (metis prod_cases3)
  moreover have "w' = 340" using r by (simp add: run_entry_def sample_env_def Let_def)
  moreover have "sch_trigger (en_schedule sample_entry) = TEvery \<lparr> iv_seconds = 60, iv_text = ''1m'' \<rparr>"
    by (simp add: sample_entry_def sample_schedule_def)
  moreover have "missed_between \<lparr> iv_seconds = 60, iv_text = ''1m'' \<rparr> 200 270 = 1"
    by (simp add: missed_between_def sdiv_nonneg)
  ultimately show ?thesis
    using run_entry_advances [OF sample_entry_wf _ _ _ r, of 200 270 Succeeded 270 270 340]
    by (simp add: sample_env_def)
qed

text \<open>
  What is reported as missed is counted from the moment the run started, not from the grid: of a
  run that starts late and crosses a tick, the tick is neither run nor counted.
\<close>

lemma late_start_undercounts:
  "missed_between \<lparr> iv_seconds = 60, iv_text = ''1m'' \<rparr> 50 70 = 0
   \<and> advance (TEvery \<lparr> iv_seconds = 60, iv_text = ''1m'' \<rparr>) 0 70 = Some 120
   \<and> on_grid 0 \<lparr> iv_seconds = 60, iv_text = ''1m'' \<rparr> 60"
  by (simp add: missed_between_def sdiv_nonneg advance_def interval_next_after_def on_grid_def)

text \<open>
  A pass runs exactly the schedules that are due when it starts, each once and in file order:
  a timed schedule runs if and only if its time has come.
\<close>

lemma sched_pass_runs_due:
  assumes "list_all wf_entry es" "ev_now ev w = (now, w1)" "sched_pass ev es w = (ts, es', w')"
  shows "\<exists>due. sorted_wrt (<) due \<and> set due \<subseteq> {..<length es}
    \<and> map tk_name ts = map (\<lambda>k. sch_name (en_schedule (es ! k))) due
    \<and> (\<forall>k < length es. en_watch (es ! k) = None \<longrightarrow>
         (k \<in> set due \<longleftrightarrow> (\<exists>t. en_next (es ! k) = Some t \<and> t \<le> now)))"
proof -
  obtain due es1 w2 where d: "due_now ev now 0 es w1 = (due, es1, w2)" by (metis prod_cases3)
  have r: "run_due ev due es1 w2 = (ts, es', w')" using assms(2,3) by (simp add: sched_pass_def d)
  note range = due_now_range [OF d]
  note k = due_now_keeps [OF d assms(1)]
  have "\<forall>j \<in> set due. j < length es1" using range by auto
  from run_due_keeps [OF r _ this] k
  have "map tk_name ts = map (\<lambda>j. sch_name (en_schedule (es1 ! j))) due" by blast
  moreover have "en_schedule (es1 ! j) = en_schedule (es ! j)" if "j < length es" for j
    using k that range by (metis nth_map)
  ultimately have "map tk_name ts = map (\<lambda>j. sch_name (en_schedule (es ! j))) due"
    using range by auto
  moreover have "j \<in> set due \<longleftrightarrow> (\<exists>t. en_next (es ! j) = Some t \<and> t \<le> now)"
    if "j < length es" "en_watch (es ! j) = None" for j
    using due_now_timed [OF d that] by simp
  ultimately show ?thesis using range by (intro exI [of _ due]) auto
qed

lemma sched_pass_runs_due_witness:
  "\<exists>ts es' w'. sched_pass sample_env [sample_entry] 200 = (ts, es', w') \<and> map tk_name ts = [''hourly'']"
proof -
  obtain ts es' w' where p: "sched_pass sample_env [sample_entry] 200 = (ts, es', w')"
    by (metis prod_cases3)
  have wf: "list_all wf_entry [sample_entry]" using sample_entry_wf by simp
  have n: "ev_now sample_env 200 = (200, 270)" by (simp add: sample_env_def)
  obtain due where due: "sorted_wrt (<) due" "set due \<subseteq> {..<1}" "0 \<in> set due"
    "map tk_name ts = map (\<lambda>k. sch_name (en_schedule ([sample_entry] ! k))) due"
    using sched_pass_runs_due [OF wf n p]
    by (auto simp: sample_entry_def entry_new_def sample_schedule_def)
  then obtain rest where rest: "due = 0 # rest" by (cases due) auto
  with due(1,2) have "rest = []" by (cases rest) auto
  with rest have "due = [0]" by simp
  with due(4) p show ?thesis by (simp add: sample_entry_def sample_schedule_def)
qed

section \<open>Sleeping and stopping\<close>

lemma fold_min: "fold min ts t = Min (insert t (set ts))" for t :: int
  by (metis Min.set_eq_fold list.simps(15))

definition wake_times :: "entry list \<Rightarrow> int list" where
  "wake_times es = filter_map
     (\<lambda>e. case en_watch e of Some _ \<Rightarrow> Some (en_next_poll e) | None \<Rightarrow> en_next e) es"

text \<open>
  The loop wakes at the earliest moment at which a watch is to be polled or a timed schedule is
  due, and reports that nothing ever will be exactly when there is no such moment.
\<close>

lemma wake_at_earliest:
  "(wake_at es = None \<longleftrightarrow> wake_times es = [])
   \<and> (wake_at es = Some t \<longleftrightarrow> t \<in> set (wake_times es) \<and> (\<forall>u \<in> set (wake_times es). t \<le> u))"
proof (cases "wake_times es")
  case Nil
  then show ?thesis by (simp add: wake_at_def wake_times_def)
next
  case (Cons a as)
  then have "wake_at es = Some (Min (set (wake_times es)))"
    by (simp add: wake_at_def wake_times_def fold_min)
  moreover have "Min (set (wake_times es)) = t
      \<longleftrightarrow> t \<in> set (wake_times es) \<and> (\<forall>u \<in> set (wake_times es). t \<le> u)"
    using Cons by (intro Min_eq_iff) auto
  ultimately show ?thesis using Cons by simp
qed

lemma wake_at_earliest_witness: "wake_at [sample_entry] = Some 160"
  using wake_at_earliest [of "[sample_entry]" 160]
  by (simp add: wake_times_def sample_entry_def entry_new_def sample_schedule_def interval_next_after_def)

text \<open>
  A run bounded to a number of passes ends: one unit of fuel per pass (and one when the bound
  is zero, since a pass is made before the bound is looked at) is enough, whatever the clock, the
  runs and the file system do.
\<close>

lemma sched_run_returns:
  assumes "max 1 (limit - passes) \<le> fuel"
  shows "\<exists>r. sched_run fuel ev (Some limit) passes summary es w = Some r"
  using assms
proof (induction fuel arbitrary: passes summary es w)
  case (Suc fuel)
  obtain s0 w0 where s0: "ev_stop ev w = (s0, w0)" by force
  obtain ts es1 w1 where p: "sched_pass ev es w0 = (ts, es1, w1)" by (metis prod_cases3)
  obtain s1 w2 where s1: "ev_stop ev w1 = (s1, w2)" by force
  obtain now w3 where n: "ev_now ev w2 = (now, w3)" by force
  show ?case
  proof (cases "limit \<le> Suc passes")
    case True
    then show ?thesis by (simp add: s0 p Let_def)
  next
    case False
    then have "max 1 (limit - Suc passes) \<le> fuel" using Suc.prems by simp
    from Suc.IH [OF this] show ?thesis
      by (simp add: s0 p s1 n Let_def split: option.split)
  qed
qed simp

lemma sched_run_returns_witness:
  "\<exists>r. sched_run 3 sample_env (Some 3) 0 [] [sample_entry] 200 = Some r"
  using sched_run_returns [of 3 0 3] by simp

end
