(* ===== verification/State_Store.thy ===== *)
theory State_Store
  imports Civil_Time Json_Value
begin

text \<open>
  What a pipeline remembers between runs: \<^verbatim>\<open>crates/state/src/lib.rs\<close>. The disk is a partial map
  from paths to contents; what the operating system does to a call is an argument
  (\<open>write_result\<close>, and a flag for each call that can fail). JSON is \<^verbatim>\<open>serde_json\<close>'s, so the
  printer and the parser of a state are arguments too. \<open>save_step\<close> cuts a save into the steps
  between which a crash can fall.
\<close>

section \<open>What one pipeline remembers\<close>

definition STATE_FORMAT_VERSION :: nat where
  "STATE_FORMAT_VERSION = 1"

definition STATE_DIR :: str where
  "STATE_DIR = ''.etl/state''"

datatype state_error =
    StateRead str
  | StateWrite str
  | StateMalformed str
  | StateTooNew str nat nat
  | BadKey str str

record watermark =
  wm_value :: str
  wm_column :: str
  wm_at :: str
  wm_extra :: "(str, json) om"

definition matches_column :: "watermark \<Rightarrow> str \<Rightarrow> bool" where
  "matches_column w column \<longleftrightarrow> wm_column w = column"

record checkpoint =
  cp_component :: str
  cp_value :: json
  cp_at :: str
  cp_extra :: "(str, json) om"

record pipeline_state =
  ps_format_version :: nat
  ps_watermarks :: "(str, watermark) om"
  ps_checkpoints :: "(str, checkpoint) om"
  ps_extra :: "(str, json) om"

definition pipeline_state_default :: pipeline_state where
  "pipeline_state_default =
     \<lparr> ps_format_version = 0, ps_watermarks = [], ps_checkpoints = [], ps_extra = [] \<rparr>"

definition state_watermark :: "pipeline_state \<Rightarrow> str \<Rightarrow> watermark option" where
  "state_watermark st node_id = om_get (ps_watermarks st) node_id"

definition state_advance :: "str \<Rightarrow> str \<Rightarrow> str \<Rightarrow> str \<Rightarrow> pipeline_state \<Rightarrow> pipeline_state" where
  "state_advance now_utc node_id column v st =
     st\<lparr> ps_watermarks := om_insert node_id
           \<lparr> wm_value = v, wm_column = column, wm_at = now_utc, wm_extra = [] \<rparr> (ps_watermarks st) \<rparr>"

definition state_checkpoint :: "pipeline_state \<Rightarrow> str \<Rightarrow> checkpoint option" where
  "state_checkpoint st node_id = om_get (ps_checkpoints st) node_id"

definition record_checkpoint :: "str \<Rightarrow> str \<Rightarrow> str \<Rightarrow> json \<Rightarrow> pipeline_state \<Rightarrow> pipeline_state" where
  "record_checkpoint now_utc node_id component v st =
     st\<lparr> ps_checkpoints := om_insert node_id
           \<lparr> cp_component = component, cp_value = v, cp_at = now_utc, cp_extra = [] \<rparr>
           (ps_checkpoints st) \<rparr>"

definition state_forget :: "str \<Rightarrow> pipeline_state \<Rightarrow> bool \<times> pipeline_state" where
  "state_forget node_id st =
     (let wmark = om_contains (ps_watermarks st) node_id;
          cpoint = om_contains (ps_checkpoints st) node_id
      in (wmark \<or> cpoint,
          st\<lparr> ps_watermarks := om_remove node_id (ps_watermarks st),
              ps_checkpoints := om_remove node_id (ps_checkpoints st) \<rparr>))"

definition state_forget_all :: "pipeline_state \<Rightarrow> pipeline_state" where
  "state_forget_all st = st\<lparr> ps_watermarks := [], ps_checkpoints := [] \<rparr>"

definition state_is_empty :: "pipeline_state \<Rightarrow> bool" where
  "state_is_empty st \<longleftrightarrow> ps_watermarks st = [] \<and> ps_checkpoints st = []"

section \<open>Paths\<close>

definition rsplit_once :: "(char \<Rightarrow> bool) \<Rightarrow> str \<Rightarrow> (str \<times> str) option" where
  "rsplit_once p s = map_option (\<lambda>(a, b). (rev b, rev a)) (split_once p (rev s))"

definition file_name :: "str \<Rightarrow> str option" where
  "file_name path =
     (let parts = filter (\<lambda>w. w \<noteq> [] \<and> w \<noteq> ''.'') (split_on (\<lambda>c. c = CHR ''/'') path)
      in if parts = [] \<or> last parts = ''..'' then None else Some (last parts))"

definition stem_of :: "str \<Rightarrow> str" where
  "stem_of name = (case rsplit_once (\<lambda>c. c = CHR ''.'') name of
     Some (before, after) \<Rightarrow> if before = [] then name else before
   | None \<Rightarrow> name)"

definition extension_of :: "str \<Rightarrow> str option" where
  "extension_of name = (case rsplit_once (\<lambda>c. c = CHR ''.'') name of
     Some (before, after) \<Rightarrow> if before = [] then None else Some after
   | None \<Rightarrow> None)"

definition file_stem :: "str \<Rightarrow> str option" where
  "file_stem path = map_option stem_of (file_name path)"

definition with_extension :: "str \<Rightarrow> str \<Rightarrow> str" where
  "with_extension path ext =
     (case rsplit_once (\<lambda>c. c = CHR ''/'') path of
        Some (parent, name) \<Rightarrow> parent @ ''/'' @ stem_of name @ ''.'' @ ext
      | None \<Rightarrow> stem_of path @ ''.'' @ ext)"

section \<open>Keys\<close>

definition path_for :: "str \<Rightarrow> str \<Rightarrow> str" where
  "path_for dir key = dir @ ''/'' @ key @ ''.json''"

definition key_char :: "char \<Rightarrow> bool" where
  "key_char c \<longleftrightarrow> is_ascii_alphanumeric c \<or> c = CHR ''-'' \<or> c = CHR ''_'' \<or> c = CHR ''.''"

definition sanitise :: "str \<Rightarrow> str" where
  "sanitise key =
     (let cleaned = map (\<lambda>c. if key_char c then c else CHR ''_'') key
      in if list_all (\<lambda>c. c = CHR ''.'') cleaned then ''pipeline'' else cleaned)"

definition key_for :: "str option \<Rightarrow> str \<Rightarrow> str" where
  "key_for name path =
     (let from_name = (case name of
            Some n \<Rightarrow> if trim n \<noteq> [] then Some (trim n) else None
          | None \<Rightarrow> None)
      in sanitise (case from_name of
           Some n \<Rightarrow> n
         | None \<Rightarrow> (case file_stem path of Some s \<Rightarrow> s | None \<Rightarrow> ''pipeline'')))"

definition check_key :: "str \<Rightarrow> state_error + unit" where
  "check_key key =
     (if key = [] then Inl (BadKey key ''it is empty'')
      else if CHR ''/'' \<in> set key \<or> CHR 0x5C \<in> set key
        then Inl (BadKey key ''it contains a path separator'')
      else if list_all (\<lambda>c. c = CHR ''.'') key
        then Inl (BadKey key ''it names a directory rather than a file'')
      else Inr ())"

section \<open>Loading and saving\<close>

type_synonym disk = "str \<Rightarrow> str option"

datatype write_result = WriteOk | WriteOpenFails | WritePartial nat

definition state_load ::
  "(str \<Rightarrow> pipeline_state option) \<Rightarrow> bool \<Rightarrow> str \<Rightarrow> str \<Rightarrow> disk \<Rightarrow> state_error + pipeline_state" where
  "state_load parse read_fails dir key d =
     and_then (check_key key) (\<lambda>_.
       let path = path_for dir key
       in case d path of
            None \<Rightarrow> Inr (pipeline_state_default\<lparr> ps_format_version := STATE_FORMAT_VERSION \<rparr>)
          | Some content \<Rightarrow>
              if read_fails then Inl (StateRead path)
              else and_then (ok_or (StateMalformed path) (parse content)) (\<lambda>st.
                if ps_format_version st > STATE_FORMAT_VERSION
                then Inl (StateTooNew key (ps_format_version st) STATE_FORMAT_VERSION)
                else Inr st))"

definition state_save ::
  "(pipeline_state \<Rightarrow> str) \<Rightarrow> bool \<Rightarrow> write_result \<Rightarrow> bool \<Rightarrow> str \<Rightarrow> str \<Rightarrow> pipeline_state \<Rightarrow> disk
     \<Rightarrow> (state_error + unit) \<times> disk" where
  "state_save ser dir_fails wrote rename_fails dir key st d =
     (case check_key key of
        Inl e \<Rightarrow> (Inl e, d)
      | Inr _ \<Rightarrow>
          (let path = path_for dir key
           in if dir_fails then (Inl (StateWrite dir), d)
              else
                let body = ser (st\<lparr> ps_format_version := STATE_FORMAT_VERSION \<rparr>) @ [CHR 0x0A];
                    temporary = with_extension path ''json.tmp''
                in case wrote of
                     WriteOpenFails \<Rightarrow> (Inl (StateWrite temporary), d)
                   | WritePartial n \<Rightarrow> (Inl (StateWrite temporary), d(temporary \<mapsto> take n body))
                   | WriteOk \<Rightarrow>
                       if rename_fails
                       then (Inl (StateWrite path), (d(temporary \<mapsto> body))(temporary := None))
                       else (Inr (), (d(temporary := None))(path \<mapsto> body))))"

definition listing :: "str \<Rightarrow> str list \<Rightarrow> str list" where
  "listing ext names = sort (filter_map
     (\<lambda>name. if extension_of name = Some ext then Some (stem_of name) else None) names)"

definition state_keys :: "(state_error + str list option) \<Rightarrow> state_error + str list" where
  "state_keys entries =
     and_then entries (\<lambda>es. Inr (case es of None \<Rightarrow> [] | Some names \<Rightarrow> listing ''json'' names))"

section \<open>Keys are file names\<close>

lemma key_char_safe: "key_char c \<Longrightarrow> c \<noteq> CHR ''/'' \<and> c \<noteq> CHR 0x5C"
  by (auto simp: key_char_def char_class_defs)

lemma pipeline_chars: "c \<in> set ''pipeline'' \<Longrightarrow> key_char c"
proof -
  have "list_all key_char ''pipeline''" by code_simp
  then show "c \<in> set ''pipeline'' \<Longrightarrow> key_char c" by (simp only: list_all_iff)
qed

lemma underscore_char: "key_char (CHR ''_'')"
  by (simp add: key_char_def)

lemma sanitise_chars: "c \<in> set (sanitise k) \<Longrightarrow> key_char c"
  using pipeline_chars underscore_char by (auto simp: sanitise_def Let_def split: if_splits)

lemma sanitise_ok: "sanitise k \<noteq> [] \<and> \<not> list_all (\<lambda>c. c = CHR ''.'') (sanitise k)"
  by (auto simp: sanitise_def Let_def split: if_splits)

lemma sanitise_fixed:
  assumes "\<forall>c \<in> set k. key_char c" "\<not> list_all (\<lambda>c. c = CHR ''.'') k"
  shows "sanitise k = k"
proof -
  have "map (\<lambda>c. if key_char c then c else CHR ''_'') k = k" using assms(1) by (simp add: map_idI)
  with assms(2) show ?thesis by (simp add: sanitise_def Let_def)
qed

lemma sanitise_idem [simp]: "sanitise (sanitise k) = sanitise k"
  using sanitise_chars sanitise_ok by (intro sanitise_fixed) auto

lemma check_key_iff:
  "check_key k = Inr () \<longleftrightarrow>
     k \<noteq> [] \<and> CHR ''/'' \<notin> set k \<and> CHR 0x5C \<notin> set k \<and> \<not> list_all (\<lambda>c. c = CHR ''.'') k"
  by (simp add: check_key_def)

text \<open>
  Whatever a pipeline is called and wherever its document lies, its key passes the check at the
  boundary to the disk, and the file it names lies in the state directory itself: no name leads
  out of the workspace.
\<close>

lemma key_for_safe:
  "check_key (key_for name path) = Inr ()
   \<and> split_on (\<lambda>c. c = CHR ''/'') (path_for dir (key_for name path))
       = split_on (\<lambda>c. c = CHR ''/'') dir @ [key_for name path @ ''.json'']"
proof -
  obtain k where k: "key_for name path = sanitise k"
    by (simp add: key_for_def Let_def)
  have safe: "CHR ''/'' \<notin> set (sanitise k)" "CHR 0x5C \<notin> set (sanitise k)"
    using sanitise_chars key_char_safe by blast+
  have "split_on (\<lambda>c. c = CHR ''/'') (dir @ CHR ''/'' # t)
      = split_on (\<lambda>c. c = CHR ''/'') dir @ split_on (\<lambda>c. c = CHR ''/'') t" for t
    by (induction dir) (auto split: list.split)
  moreover have "split_on (\<lambda>c. c = CHR ''/'') (sanitise k @ ''.json'') = [sanitise k @ ''.json'']"
    using safe by (intro split_on_no_sep) auto
  ultimately show ?thesis using safe sanitise_ok [of k] by (simp add: k check_key_iff path_for_def)
qed

lemma rsplit_once_append:
  "p c \<Longrightarrow> \<forall>d \<in> set b. \<not> p d \<Longrightarrow> rsplit_once p (a @ c # b) = Some (a, b)"
  by (simp add: rsplit_once_def split_once_append)

lemma stem_of_json [simp]:
  assumes "k \<noteq> []"
  shows "stem_of (k @ ''.json'') = k" "extension_of (k @ ''.json'') = Some ''json''"
  using assms rsplit_once_append [of "\<lambda>c. c = CHR ''.''" "CHR ''.''" "''json''" k]
  by (simp_all add: stem_of_def extension_of_def)

lemma temporary_path:
  assumes "check_key key = Inr ()"
  shows "with_extension (path_for dir key) ''json.tmp'' = path_for dir key @ ''.tmp''"
proof -
  have "key \<noteq> []" "CHR ''/'' \<notin> set key" using assms by (simp_all add: check_key_iff)
  then have "rsplit_once (\<lambda>c. c = CHR ''/'') (path_for dir key) = Some (dir, key @ ''.json'')"
    using rsplit_once_append [of "\<lambda>c. c = CHR ''/''" "CHR ''/''" "key @ ''.json''" dir]
    by (auto simp: path_for_def)
  with \<open>key \<noteq> []\<close> show ?thesis by (simp add: with_extension_def) (simp add: path_for_def)
qed

lemma path_for_inj: "path_for dir j = path_for dir k \<longleftrightarrow> j = k"
  by (simp add: path_for_def)

lemma temporary_fresh: "path_for dir key @ ''.tmp'' \<noteq> path_for dir key'"
proof
  assume "path_for dir key @ ''.tmp'' = path_for dir key'"
  then have "last (path_for dir key @ ''.tmp'') = last (path_for dir key')" by simp
  then show False by (simp add: path_for_def)
qed

section \<open>A save is all or nothing\<close>

text \<open>
  C36: A state that was saved is the state that is loaded, stamped with this build's version; the
  state of every other pipeline is untouched. (The hypothesis on \<^verbatim>\<open>serde_json\<close> is that it reads
  back what it printed.)
\<close>

theorem save_then_load:
  assumes "check_key key = Inr ()"
    and "parse (ser (st\<lparr> ps_format_version := STATE_FORMAT_VERSION \<rparr>) @ [CHR 0x0A])
      = Some (st\<lparr> ps_format_version := STATE_FORMAT_VERSION \<rparr>)"
    and "state_save ser False WriteOk False dir key st d = (r, d')"
  shows "r = Inr () \<and> state_load parse False dir key d' = Inr (st\<lparr> ps_format_version := STATE_FORMAT_VERSION \<rparr>)
    \<and> (\<forall>other. other \<noteq> key \<longrightarrow>
         state_load parse fails dir other d' = state_load parse fails dir other d)"
proof -
  let ?body = "ser (st\<lparr> ps_format_version := STATE_FORMAT_VERSION \<rparr>) @ [CHR 0x0A]"
  let ?p = "path_for dir key"
  have s: "r = Inr ()" "d' = (d(?p @ ''.tmp'' := None))(?p \<mapsto> ?body)"
    using assms(1,3) by (simp_all add: state_save_def Let_def temporary_path)
  have "state_load parse False dir key d' = Inr (st\<lparr> ps_format_version := STATE_FORMAT_VERSION \<rparr>)"
    using assms(1,2) by (simp add: state_load_def s)
  moreover have "d' (path_for dir other) = d (path_for dir other)" if "other \<noteq> key" for other
    using that temporary_fresh [of dir key other] by (auto simp: s path_for_inj)
  then have "state_load parse fails dir other d' = state_load parse fails dir other d"
    if "other \<noteq> key" for other using that by (simp add: state_load_def)
  ultimately show ?thesis using s(1) by blast
qed

theorem save_then_load_witness:
  "state_load (\<lambda>_. Some (pipeline_state_default\<lparr> ps_format_version := STATE_FORMAT_VERSION \<rparr>)) False
     ''s'' ''orders'' (snd (state_save (\<lambda>_. ''x'') False WriteOk False ''s'' ''orders''
        pipeline_state_default Map.empty))
   = Inr (pipeline_state_default\<lparr> ps_format_version := STATE_FORMAT_VERSION \<rparr>)"
proof -
  have "check_key ''orders'' = Inr ()" by (simp add: check_key_iff)
  from save_then_load [OF this, of "\<lambda>_. Some (pipeline_state_default\<lparr> ps_format_version := STATE_FORMAT_VERSION \<rparr>)"
      "\<lambda>_. ''x''" pipeline_state_default "''s''" Map.empty]
  show ?thesis by (metis (no_types, lifting) prod.collapse)
qed

text \<open>The steps of a save that a crash can fall between.\<close>

datatype save_phase = SaveBegin | SaveWriting nat | SaveRenamed

inductive save_step :: "str \<Rightarrow> str \<Rightarrow> str \<Rightarrow> save_phase \<times> disk \<Rightarrow> save_phase \<times> disk \<Rightarrow> bool"
  for path temporary body where
  save_create: "save_step path temporary body (SaveBegin, d) (SaveWriting 0, d(temporary \<mapsto> []))"
| save_write: "n < length body \<Longrightarrow>
    save_step path temporary body (SaveWriting n, d) (SaveWriting (Suc n), d(temporary \<mapsto> take (Suc n) body))"
| save_rename: "save_step path temporary body
    (SaveWriting (length body), d) (SaveRenamed, (d(temporary := None))(path \<mapsto> body))"

inductive_cases save_step_BeginE: "save_step p t b (SaveBegin, d) c"
inductive_cases save_step_WritingE: "save_step p t b (SaveWriting n, d) c"
inductive_cases save_step_RenamedE: "save_step p t b (SaveRenamed, d) c"

definition save_invariant :: "str \<Rightarrow> str \<Rightarrow> str \<Rightarrow> disk \<Rightarrow> save_phase \<times> disk \<Rightarrow> bool" where
  "save_invariant path temporary body d0 c \<longleftrightarrow>
     (\<forall>p. p \<noteq> path \<and> p \<noteq> temporary \<longrightarrow> snd c p = d0 p)
     \<and> (case fst c of
          SaveRenamed \<Rightarrow> snd c path = Some body
        | SaveWriting n \<Rightarrow> snd c path = d0 path \<and> snd c temporary = Some (take n body) \<and> n \<le> length body
        | SaveBegin \<Rightarrow> snd c = d0)"

lemma save_step_invariant:
  assumes "save_step path temporary body c c'" "save_invariant path temporary body d0 c"
    "path \<noteq> temporary"
  shows "save_invariant path temporary body d0 c'"
  using assms by (cases rule: save_step.cases) (auto simp: save_invariant_def)

lemma save_steps_invariant:
  assumes "(save_step path temporary body)\<^sup>*\<^sup>* (SaveBegin, d0) c" "path \<noteq> temporary"
  shows "save_invariant path temporary body d0 c"
  using assms(1)
proof (induction rule: rtranclp_induct)
  case base
  then show ?case by (simp add: save_invariant_def)
next
  case (step c c')
  from save_step_invariant [OF step.hyps(2) step.IH assms(2)] show ?case .
qed

lemma save_writes:
  "n \<le> length body \<Longrightarrow>
     (save_step path temporary body)\<^sup>*\<^sup>* (SaveBegin, d) (SaveWriting n, d(temporary \<mapsto> take n body))"
proof (induction n)
  case 0
  have "save_step path temporary body (SaveBegin, d) (SaveWriting 0, d(temporary \<mapsto> []))"
    by (rule save_create)
  then show ?case by (simp only: take_0 r_into_rtranclp)
next
  case (Suc n)
  then have "save_step path temporary body (SaveWriting n, d(temporary \<mapsto> take n body))
      (SaveWriting (Suc n), (d(temporary \<mapsto> take n body))(temporary \<mapsto> take (Suc n) body))"
    by (intro save_write) simp
  with Suc show ?case
    by (metis (no_types) Suc_leD fun_upd_upd rtranclp.rtrancl_into_rtrancl)
qed

lemma save_renames:
  "(save_step path temporary body)\<^sup>*\<^sup>* (SaveBegin, d) (SaveRenamed, (d(temporary := None))(path \<mapsto> body))"
  using save_writes [of "length body" body path temporary d]
    save_rename [of path temporary body "d(temporary \<mapsto> body)"]
  by (auto intro: rtranclp.rtrancl_into_rtrancl)

text \<open>
  C35: A crash at any point of a save leaves every pipeline's state file as it was or as it was to
  become, never in between, and the save of the model is such a run of steps to the end: what is
  loaded after the crash is the previous state or the new one.
\<close>

theorem save_crash_safe:
  assumes "check_key key = Inr ()"
    and "(save_step (path_for dir key) (path_for dir key @ ''.tmp'') body)\<^sup>*\<^sup>* (SaveBegin, d) (phase, d')"
  shows "(state_load parse False dir key d' = state_load parse False dir key d
          \<or> state_load parse False dir key d' = state_load parse False dir key (d(path_for dir key \<mapsto> body)))
    \<and> (\<forall>other. other \<noteq> key \<longrightarrow> d' (path_for dir other) = d (path_for dir other))
    \<and> (\<forall>ser st. body = ser (st\<lparr> ps_format_version := STATE_FORMAT_VERSION \<rparr>) @ [CHR 0x0A] \<longrightarrow>
         (save_step (path_for dir key) (path_for dir key @ ''.tmp'') body)\<^sup>*\<^sup>* (SaveBegin, d)
           (SaveRenamed, snd (state_save ser False WriteOk False dir key st d)))"
proof -
  have "path_for dir key \<noteq> path_for dir key @ ''.tmp''" by simp
  note inv = save_steps_invariant [OF assms(2) this]
  have "d' (path_for dir key) = d (path_for dir key) \<or> d' (path_for dir key) = Some body"
    using inv by (cases phase) (auto simp: save_invariant_def)
  then have "state_load parse False dir key d' = state_load parse False dir key d
      \<or> state_load parse False dir key d' = state_load parse False dir key (d(path_for dir key \<mapsto> body))"
    by (auto simp: state_load_def)
  moreover have "d' (path_for dir other) = d (path_for dir other)" if "other \<noteq> key" for other
    using inv that temporary_fresh [of dir key other] by (auto simp: save_invariant_def path_for_inj)
  moreover have "(save_step (path_for dir key) (path_for dir key @ ''.tmp'') body)\<^sup>*\<^sup>* (SaveBegin, d)
       (SaveRenamed, snd (state_save ser False WriteOk False dir key st d))"
    if "body = ser (st\<lparr> ps_format_version := STATE_FORMAT_VERSION \<rparr>) @ [CHR 0x0A]" for ser st
    using save_renames [of "path_for dir key" "path_for dir key @ ''.tmp''" body d] assms(1) that
    by (simp add: state_save_def Let_def temporary_path)
  ultimately show ?thesis by blast
qed

theorem save_crash_safe_witness:
  "state_load (\<lambda>_. None) False ''s'' ''k'' (Map.empty(''s/k.json.tmp'' \<mapsto> []))
     = state_load (\<lambda>_. None) False ''s'' ''k'' Map.empty
   \<or> state_load (\<lambda>_. None) False ''s'' ''k'' (Map.empty(''s/k.json.tmp'' \<mapsto> []))
     = state_load (\<lambda>_. None) False ''s'' ''k'' (Map.empty(path_for ''s'' ''k'' \<mapsto> ''x''))"
proof -
  have k: "check_key ''k'' = Inr ()" by (simp add: check_key_iff)
  have "path_for ''s'' ''k'' @ ''.tmp'' = ''s/k.json.tmp''" by (simp add: path_for_def)
  then have "(save_step (path_for ''s'' ''k'') (path_for ''s'' ''k'' @ ''.tmp'') ''x'')\<^sup>*\<^sup>*
      (SaveBegin, Map.empty) (SaveWriting 0, Map.empty(''s/k.json.tmp'' \<mapsto> []))"
    using save_create [of "path_for ''s'' ''k''" "''s/k.json.tmp''" "''x''" Map.empty] by auto
  from save_crash_safe [OF k this] show ?thesis by blast
qed

text \<open>
  A state file that is there but cannot be read, does not parse, or was written by a newer
  build is an error; only a file that is not there is a pipeline that never ran.
\<close>

lemma load_never_guesses:
  "state_load parse fails dir key d = Inr st \<longleftrightarrow>
     check_key key = Inr ()
     \<and> (case d (path_for dir key) of
          None \<Rightarrow> st = pipeline_state_default\<lparr> ps_format_version := STATE_FORMAT_VERSION \<rparr>
        | Some content \<Rightarrow> \<not> fails \<and> parse content = Some st \<and> ps_format_version st \<le> STATE_FORMAT_VERSION)"
  by (auto simp: state_load_def and_then_eq_Inr_iff Let_def not_less split: option.splits if_splits)

text \<open>A save that fails leaves the state file as it was.\<close>

lemma failed_save_keeps:
  assumes "state_save ser dir_fails wrote rename_fails dir key st d = (Inl e, d')"
  shows "d' (path_for dir k) = d (path_for dir k)"
proof (cases "check_key key")
  case (Inl x)
  with assms show ?thesis by (simp add: state_save_def)
next
  case (Inr u)
  then have "check_key key = Inr ()" by simp
  then show ?thesis
    using assms temporary_fresh [of dir key k]
    by (auto simp: state_save_def Let_def temporary_path split: if_splits write_result.splits)
qed

section \<open>Watermarks\<close>

definition wf_state :: "pipeline_state \<Rightarrow> bool" where
  "wf_state st \<longleftrightarrow> om_ok (ps_watermarks st) \<and> om_ok (ps_checkpoints st)"

lemma state_ops_wf [wf_intros]:
  "wf_state pipeline_state_default"
  "wf_state st \<Longrightarrow> wf_state (state_advance now n c v st)"
  "wf_state st \<Longrightarrow> wf_state (record_checkpoint now n c j st)"
  "wf_state st \<Longrightarrow> wf_state (snd (state_forget n st))"
  by (auto simp: wf_state_def pipeline_state_default_def state_advance_def record_checkpoint_def
      state_forget_def Let_def)

text \<open>
  Recording a watermark changes what is remembered for that node alone and remembers the
  column with it; forgetting a node undoes both its watermark and its checkpoint, says whether
  there was one, and leaves every other node alone.
\<close>

lemma watermark_laws:
  assumes "wf_state st"
  shows "state_watermark (state_advance now n c v st) m =
      (if m = n then Some \<lparr> wm_value = v, wm_column = c, wm_at = now, wm_extra = [] \<rparr>
       else state_watermark st m)
    \<and> state_checkpoint (state_advance now n c v st) m = state_checkpoint st m
    \<and> state_watermark (snd (state_forget n st)) m = (if m = n then None else state_watermark st m)
    \<and> state_checkpoint (snd (state_forget n st)) m = (if m = n then None else state_checkpoint st m)
    \<and> (fst (state_forget n st) \<longleftrightarrow> state_watermark st n \<noteq> None \<or> state_checkpoint st n \<noteq> None)"
proof -
  have ok: "om_ok (ps_watermarks st)" "om_ok (ps_checkpoints st)"
    using assms by (simp_all add: wf_state_def)
  show ?thesis
    by (simp add: state_watermark_def state_checkpoint_def state_advance_def state_forget_def Let_def
        om_contains_def om.get_ins [OF ok(1)] om.get_del [OF ok(1)] om.get_del [OF ok(2)])
qed

lemma watermark_laws_witness:
  "state_watermark (state_advance ''now'' ''n'' ''ts'' ''5'' pipeline_state_default) ''n''
     = Some \<lparr> wm_value = ''5'', wm_column = ''ts'', wm_at = ''now'', wm_extra = [] \<rparr>"
  using watermark_laws [OF state_ops_wf(1), of "''now''" "''n''" "''ts''" "''5''" "''n''"] by simp

end
