(* ===== verification/Run_History.thy ===== *)
theory Run_History
  imports State_Store
begin

text \<open>
  The record of what happened: \<^verbatim>\<open>crates/state/src/runs.rs\<close>. A history file is one JSON object
  per line; printing and parsing of a record are \<^verbatim>\<open>serde_json\<close>'s and arguments here. Run ids are
  modelled with the hexadecimal suffix written out.
\<close>

section \<open>The code\<close>

definition RUNS_FORMAT_VERSION :: nat where
  "RUNS_FORMAT_VERSION = 1"

definition RUNS_DIR :: str where
  "RUNS_DIR = ''.etl/runs''"

datatype run_outcome = RunSucceeded | RunFailed

definition run_outcome_name :: "run_outcome \<Rightarrow> str" where
  "run_outcome_name r = (case r of RunSucceeded \<Rightarrow> ''succeeded'' | RunFailed \<Rightarrow> ''failed'')"

record stage_record =
  sr_node_id :: str
  sr_label :: str
  sr_component_id :: str
  sr_rows :: "nat option"
  sr_rejected :: "nat option"
  sr_skipped :: "str option"
  sr_elapsed_ms :: "nat option"

record watermark_record =
  wr_node_id :: str
  wr_column :: str
  wr_value :: "str option"

record run_record =
  rr_format_version :: nat
  rr_id :: str
  rr_pipeline :: str
  rr_path :: "str option"
  rr_started :: str
  rr_elapsed_ms :: nat
  rr_outcome :: run_outcome
  rr_stages :: "stage_record list"
  rr_notes :: "str list"
  rr_warnings :: "str list"
  rr_failures :: "str list"
  rr_watermarks :: "watermark_record list"
  rr_extra :: "(str, json) om"

definition rows_written :: "run_record \<Rightarrow> nat option" where
  "rows_written r = (case rev (filter_map sr_rows (rr_stages r)) of [] \<Rightarrow> None | n # _ \<Rightarrow> Some n)"

fun hex_nat :: "nat \<Rightarrow> nat \<Rightarrow> str" where
  "hex_nat 0 n = []"
| "hex_nat (Suc w) n = hex_nat w (n div 16) @ [hex_digit (n mod 16)]"

definition new_id :: "str \<Rightarrow> nat \<Rightarrow> str" where
  "new_id started sfx = filter is_ascii_digit started @ ''-'' @ hex_nat 4 (sfx mod 65536)"

definition history_path :: "str \<Rightarrow> str \<Rightarrow> str" where
  "history_path dir key = dir @ ''/'' @ key @ ''.jsonl''"

definition text_lines :: "str \<Rightarrow> str list" where
  "text_lines s =
     (let pieces = split_on (\<lambda>c. c = CHR 0x0A) s;
          ls = (if last pieces = [] then butlast pieces else pieces)
      in map (\<lambda>l. if l \<noteq> [] \<and> last l = CHR 0x0D then butlast l else l) ls)"

definition history_append ::
  "(run_record \<Rightarrow> str) \<Rightarrow> bool \<Rightarrow> write_result \<Rightarrow> str \<Rightarrow> str \<Rightarrow> run_record \<Rightarrow> disk
     \<Rightarrow> (state_error + unit) \<times> disk" where
  "history_append ser dir_fails wrote dir key r d =
     (case check_key key of
        Inl e \<Rightarrow> (Inl e, d)
      | Inr _ \<Rightarrow>
          (let path = history_path dir key;
               line = ser (r\<lparr> rr_format_version := RUNS_FORMAT_VERSION \<rparr>) @ [CHR 0x0A];
               old = (case d path of Some t \<Rightarrow> t | None \<Rightarrow> [])
           in if dir_fails then (Inl (StateWrite dir), d)
              else case wrote of
                     WriteOpenFails \<Rightarrow> (Inl (StateWrite path), d)
                   | WritePartial n \<Rightarrow> (Inl (StateWrite path), d(path \<mapsto> old @ take n line))
                   | WriteOk \<Rightarrow> (Inr (), d(path \<mapsto> old @ line))))"

definition records_of :: "(str \<Rightarrow> run_record option) \<Rightarrow> str \<Rightarrow> run_record list" where
  "records_of parse content =
     filter_map parse (filter (\<lambda>l. trim l \<noteq> []) (text_lines content))"

definition history_read ::
  "(str \<Rightarrow> run_record option) \<Rightarrow> bool \<Rightarrow> str \<Rightarrow> str \<Rightarrow> disk \<Rightarrow> state_error + run_record list" where
  "history_read parse read_fails dir key d =
     and_then (check_key key) (\<lambda>_.
       let path = history_path dir key
       in case d path of
            None \<Rightarrow> Inr []
          | Some content \<Rightarrow> if read_fails then Inl (StateRead path) else Inr (records_of parse content))"

definition history_recent ::
  "(str \<Rightarrow> run_record option) \<Rightarrow> bool \<Rightarrow> str \<Rightarrow> str \<Rightarrow> nat \<Rightarrow> disk \<Rightarrow> state_error + run_record list" where
  "history_recent parse read_fails dir key limit d =
     and_then (history_read parse read_fails dir key d) (\<lambda>records. Inr (take limit (rev records)))"

fun find_in_keys ::
  "(str \<Rightarrow> run_record option) \<Rightarrow> bool \<Rightarrow> str \<Rightarrow> str list \<Rightarrow> str \<Rightarrow> disk \<Rightarrow> state_error + run_record option"
where
  "find_in_keys parse fails dir [] wanted d = Inr None"
| "find_in_keys parse fails dir (key # keys) wanted d =
     and_then (history_read parse fails dir key d) (\<lambda>records.
       case find (\<lambda>r. rr_id r = wanted) records of
         Some found \<Rightarrow> Inr (Some found)
       | None \<Rightarrow> find_in_keys parse fails dir keys wanted d)"

definition history_keys :: "(state_error + str list option) \<Rightarrow> state_error + str list" where
  "history_keys entries =
     and_then entries (\<lambda>es. Inr (case es of None \<Rightarrow> [] | Some names \<Rightarrow> listing ''jsonl'' names))"

definition history_find ::
  "(str \<Rightarrow> run_record option) \<Rightarrow> bool \<Rightarrow> str \<Rightarrow> (state_error + str list option) \<Rightarrow> str option \<Rightarrow> str \<Rightarrow> disk
     \<Rightarrow> state_error + run_record option" where
  "history_find parse fails dir entries key wanted d =
     and_then (case key of Some k \<Rightarrow> Inr [k] | None \<Rightarrow> history_keys entries) (\<lambda>keys.
       find_in_keys parse fails dir keys wanted d)"

definition history_prune ::
  "(run_record \<Rightarrow> str) \<Rightarrow> (str \<Rightarrow> run_record option) \<Rightarrow> bool \<Rightarrow> write_result \<Rightarrow> bool \<Rightarrow> str \<Rightarrow> str \<Rightarrow> nat \<Rightarrow> disk
     \<Rightarrow> (state_error + nat) \<times> disk" where
  "history_prune ser parse fails wrote rename_fails dir key keep d =
     (case history_read parse fails dir key d of
        Inl e \<Rightarrow> (Inl e, d)
      | Inr records \<Rightarrow>
          if length records \<le> keep then (Inr 0, d)
          else
            let dropped = length records - keep;
                body = concat (map (\<lambda>r. ser r @ [CHR 0x0A]) (drop dropped records));
                path = history_path dir key;
                temporary = with_extension path ''jsonl.tmp''
            in case wrote of
                 WriteOpenFails \<Rightarrow> (Inl (StateWrite temporary), d)
               | WritePartial n \<Rightarrow> (Inl (StateWrite temporary), d(temporary \<mapsto> take n body))
               | WriteOk \<Rightarrow>
                   if rename_fails
                   then (Inl (StateWrite path), (d(temporary \<mapsto> body))(temporary := None))
                   else (Inr dropped, (d(temporary := None))(path \<mapsto> body)))"

section \<open>Lines\<close>

text \<open>What \<^verbatim>\<open>serde_json\<close> is relied on for: a record is one line, and reads back.\<close>

definition line_ok :: "(run_record \<Rightarrow> str) \<Rightarrow> (str \<Rightarrow> run_record option) \<Rightarrow> run_record \<Rightarrow> bool" where
  "line_ok ser parse r \<longleftrightarrow> CHR 0x0A \<notin> set (ser r) \<and> trim (ser r) \<noteq> [] \<and> last (ser r) \<noteq> CHR 0x0D
     \<and> parse (ser r) = Some r"

lemma split_on_snoc_sep:
  "p c \<Longrightarrow> split_on p (a @ c # b) = split_on p a @ split_on p b"
  by (induction a) (auto split: list.split)

lemma text_lines_append:
  "text_lines (a @ CHR 0x0A # b) = text_lines (a @ [CHR 0x0A]) @ text_lines b"
proof -
  let ?p = "\<lambda>c. c = CHR 0x0A"
  have "split_on ?p (a @ CHR 0x0A # b) = split_on ?p a @ split_on ?p b" for b
    by (rule split_on_snoc_sep) simp
  then show ?thesis by (auto simp: text_lines_def Let_def butlast_append)
qed

lemma text_lines_one:
  assumes "CHR 0x0A \<notin> set l" "l \<noteq> []" "last l \<noteq> CHR 0x0D"
  shows "text_lines (l @ [CHR 0x0A]) = [l]"
proof -
  have "split_on (\<lambda>c. c = CHR 0x0A) (l @ [CHR 0x0A]) = [l, []]"
    using assms(1) split_on_append_sep [of "\<lambda>c. c = CHR 0x0A" "CHR 0x0A" l "[]"] by auto
  then show ?thesis using assms(2,3) by (simp add: text_lines_def Let_def)
qed

definition ends_line :: "str \<Rightarrow> bool" where
  "ends_line s \<longleftrightarrow> s = [] \<or> last s = CHR 0x0A"

lemma records_of_append:
  assumes "ends_line a"
  shows "records_of parse (a @ b) = records_of parse a @ records_of parse b"
proof (cases a rule: rev_cases)
  case Nil
  then show ?thesis by (simp add: records_of_def text_lines_def)
next
  case (snoc s c)
  with assms have "a = s @ [CHR 0x0A]" by (simp add: ends_line_def)
  then show ?thesis using text_lines_append [of s b] by (simp add: records_of_def)
qed

lemma records_of_line:
  assumes "line_ok ser parse r"
  shows "records_of parse (ser r @ [CHR 0x0A]) = [r]"
proof -
  have "ser r \<noteq> []" using assms by (auto simp: line_ok_def)
  then show ?thesis using assms text_lines_one [of "ser r"] by (simp add: records_of_def line_ok_def)
qed

lemma records_of_lines:
  "list_all (line_ok ser parse) rs \<Longrightarrow>
     records_of parse (concat (map (\<lambda>r. ser r @ [CHR 0x0A]) rs)) = rs"
proof (induction rs)
  case Nil
  then show ?case by (simp add: records_of_def text_lines_def)
next
  case (Cons r rs)
  have "ends_line (ser r @ [CHR 0x0A])" by (simp add: ends_line_def)
  from records_of_append [OF this, of parse "concat (map (\<lambda>r. ser r @ [CHR 0x0A]) rs)"]
  have "records_of parse (concat (map (\<lambda>r. ser r @ [CHR 0x0A]) (r # rs)))
      = records_of parse (ser r @ [CHR 0x0A]) @ rs"
    using Cons by simp
  then show ?case using Cons.prems by (simp only: records_of_line list.pred_inject append.simps)
qed

section \<open>What the history promises\<close>

text \<open>
  Appending a run to a history whose last line is complete adds that run, stamped with this
  build's version, after everything that was there, and loses none of it.
\<close>

lemma append_then_read:
  assumes "check_key key = Inr ()"
    and "line_ok ser parse (r\<lparr> rr_format_version := RUNS_FORMAT_VERSION \<rparr>)"
    and "case d (history_path dir key) of None \<Rightarrow> True | Some t \<Rightarrow> ends_line t"
    and "history_read parse False dir key d = Inr rs"
    and "history_append ser False WriteOk dir key r d = (res, d')"
  shows "res = Inr ()
    \<and> history_read parse False dir key d' = Inr (rs @ [r\<lparr> rr_format_version := RUNS_FORMAT_VERSION \<rparr>])"
proof -
  let ?r = "r\<lparr> rr_format_version := RUNS_FORMAT_VERSION \<rparr>"
  let ?old = "case d (history_path dir key) of Some t \<Rightarrow> t | None \<Rightarrow> []"
  have old: "ends_line ?old \<and> records_of parse ?old = rs"
  proof (cases "d (history_path dir key)")
    case None
    then show ?thesis
      using assms(1,4)
      by (simp_all add: history_read_def ends_line_def records_of_def text_lines_def)
  next
    case (Some t)
    then show ?thesis
      using assms(1,3,4) by (simp_all add: history_read_def)
  qed
  have "res = Inr ()" "d' = d(history_path dir key \<mapsto> ?old @ ser ?r @ [CHR 0x0A])"
    using assms(1,5) by (simp_all add: history_append_def Let_def)
  then show ?thesis
    using assms(1) old records_of_append [OF conjunct1 [OF old], of parse "ser ?r @ [CHR 0x0A]"]
    by (simp add: history_read_def records_of_line [OF assms(2)])
qed

definition sample_run :: run_record where
  "sample_run = \<lparr> rr_format_version = 1, rr_id = ''20260101000000-0001'', rr_pipeline = ''orders'',
     rr_path = None, rr_started = ''2026-01-01T00:00:00Z'', rr_elapsed_ms = 5,
     rr_outcome = RunSucceeded, rr_stages = [], rr_notes = [], rr_warnings = [], rr_failures = [],
     rr_watermarks = [], rr_extra = [] \<rparr>"

text \<open>A parser that knows one line, for the instances.\<close>

definition sample_parse :: "str \<Rightarrow> run_record option" where
  "sample_parse l = (if l = ''r'' then Some sample_run else None)"

lemma sample_line_ok:
  "line_ok (\<lambda>_. ''r'') sample_parse (sample_run\<lparr> rr_format_version := RUNS_FORMAT_VERSION \<rparr>)"
  by (simp add: line_ok_def sample_parse_def sample_run_def RUNS_FORMAT_VERSION_def trim_def
      trim_start_def trim_end_def is_whitespace_def)

lemma k_key: "check_key ''k'' = Inr ()"
  by (simp add: check_key_iff)

lemma append_then_read_witness:
  "history_read sample_parse False ''h'' ''k''
     (snd (history_append (\<lambda>_. ''r'') False WriteOk ''h'' ''k'' sample_run Map.empty)) = Inr [sample_run]"
proof -
  obtain res d' where a: "history_append (\<lambda>_. ''r'') False WriteOk ''h'' ''k'' sample_run Map.empty = (res, d')"
    by force
  have "history_read sample_parse False ''h'' ''k'' Map.empty = Inr []"
    using k_key by (simp add: history_read_def)
  from append_then_read [OF k_key sample_line_ok _ this a] show ?thesis
    by (simp add: a) (simp add: sample_run_def RUNS_FORMAT_VERSION_def)
qed

text \<open>
  Pruning keeps the most recent runs that can be read, in order, and says how many it dropped; a
  prune that fails leaves the history as it was.
\<close>

lemma prune_keeps_recent:
  assumes "check_key key = Inr ()" "history_read parse False dir key d = Inr rs"
    "list_all (line_ok ser parse) rs"
    "history_prune ser parse False wrote rename_fails dir key keep d = (res, d')"
  shows "case res of
      Inr n \<Rightarrow> n = length rs - keep \<and> history_read parse False dir key d' = Inr (drop n rs)
    | Inl e \<Rightarrow> d' (history_path dir key) = d (history_path dir key)"
proof (cases "length rs \<le> keep")
  case True
  then show ?thesis using assms(2,4) by (auto simp: history_prune_def)
next
  case False
  let ?path = "history_path dir key"
  have key: "key \<noteq> []" "CHR ''/'' \<notin> set key" using assms(1) by (simp_all add: check_key_iff)
  have "rsplit_once (\<lambda>c. c = CHR ''/'') ?path = Some (dir, key @ ''.jsonl'')"
    using rsplit_once_append [of "\<lambda>c. c = CHR ''/''" "CHR ''/''" "key @ ''.jsonl''" dir] key
    by (auto simp: history_path_def)
  moreover have "stem_of (key @ ''.jsonl'') = key"
    using rsplit_once_append [of "\<lambda>c. c = CHR ''.''" "CHR ''.''" "''jsonl''" key] key
    by (simp add: stem_of_def)
  ultimately have temp: "with_extension ?path ''jsonl.tmp'' = ?path @ ''.tmp''"
    by (simp add: with_extension_def) (simp add: history_path_def)
  have "list_all (line_ok ser parse) (drop (length rs - keep) rs)"
    using assms(3) by (auto simp: list_all_iff dest: in_set_dropD)
  from records_of_lines [OF this] show ?thesis
    using assms(2,4) False assms(1)
    by (auto simp: history_prune_def history_read_def Let_def temp split: write_result.splits if_splits)
qed

lemma prune_keeps_recent_witness:
  "fst (history_prune (\<lambda>_. ''r'') sample_parse False WriteOk False ''h'' ''k'' 1
     (Map.empty(''h/k.jsonl'' \<mapsto> [CHR ''r'', CHR 0x0A, CHR ''r'', CHR 0x0A]))) = Inr 1"
proof -
  let ?d = "Map.empty(''h/k.jsonl'' \<mapsto> [CHR ''r'', CHR 0x0A, CHR ''r'', CHR 0x0A])"
  obtain res d' where p: "history_prune (\<lambda>_. ''r'') sample_parse False WriteOk False ''h'' ''k'' 1 ?d = (res, d')"
    by force
  have ok: "list_all (line_ok (\<lambda>_. ''r'') sample_parse) [sample_run, sample_run]"
    using sample_line_ok by (simp add: sample_run_def RUNS_FORMAT_VERSION_def)
  have "records_of sample_parse [CHR ''r'', CHR 0x0A, CHR ''r'', CHR 0x0A] = [sample_run, sample_run]"
    using records_of_lines [OF ok] by simp
  then have r: "history_read sample_parse False ''h'' ''k'' ?d = Inr [sample_run, sample_run]"
    using k_key by (simp add: history_read_def history_path_def)
  have "res = Inr 1"
    using prune_keeps_recent [OF k_key r ok p] p r by (auto simp: history_prune_def Let_def)
  then show ?thesis using p by (metis fst_conv)
qed

text \<open>The limit most recent runs come newest first.\<close>

lemma history_recent_newest:
  "history_recent parse fails dir key limit d = Inr rs \<longleftrightarrow>
     (\<exists>all. history_read parse fails dir key d = Inr all \<and> rs = take limit (rev all))"
  by (auto simp: history_recent_def and_then_eq_Inr_iff)

text \<open>
  A run that was found has the id that was asked for.
\<close>

lemma find_in_keys_id: "find_in_keys parse fails dir keys wanted d = Inr (Some r) \<Longrightarrow> rr_id r = wanted"
  by (induction keys) (auto simp: and_then_eq_Inr_iff find_Some_iff split: option.splits)

section \<open>A record cut short\<close>

text \<open>
  A crash that cuts an append short costs the record being written, as the module says; but the
  line has no end, so the next record appended continues it and is lost with it, although its own
  append succeeded.
\<close>

lemma torn_append_loses_next:
  "\<exists>ser parse r d1 d2.
     history_append ser False (WritePartial 1) ''h'' ''k'' r Map.empty = (Inl (StateWrite ''h/k.jsonl''), d1)
     \<and> history_append ser False WriteOk ''h'' ''k'' r d1 = (Inr (), d2)
     \<and> line_ok ser parse (r\<lparr> rr_format_version := RUNS_FORMAT_VERSION \<rparr>)
     \<and> history_read parse False ''h'' ''k'' d2 = Inr []"
proof -
  define d1 where "d1 = Map.empty(''h/k.jsonl'' \<mapsto> ''r'')"
  define d2 where "d2 = d1(''h/k.jsonl'' \<mapsto> ''rr'' @ [CHR 0x0A])"
  have "history_append (\<lambda>_. ''r'') False (WritePartial 1) ''h'' ''k'' sample_run Map.empty
      = (Inl (StateWrite ''h/k.jsonl''), d1)"
    using k_key by (simp add: history_append_def history_path_def Let_def d1_def)
  moreover have "history_append (\<lambda>_. ''r'') False WriteOk ''h'' ''k'' sample_run d1 = (Inr (), d2)"
    using k_key by (simp add: history_append_def history_path_def Let_def d1_def d2_def)
  moreover have "history_read sample_parse False ''h'' ''k'' d2 = Inr []"
    using k_key text_lines_one [of "''rr''"]
    by (simp add: history_read_def history_path_def d2_def records_of_def sample_parse_def)
  ultimately show ?thesis using sample_line_ok by blast
qed

section \<open>Run ids\<close>

lemma hex_nat_length [simp]: "length (hex_nat w n) = w"
  by (induction w arbitrary: n) auto

lemma hex_digit_inj: "a < 16 \<Longrightarrow> b < 16 \<Longrightarrow> hex_digit a = hex_digit b \<Longrightarrow> a = b"
  by (auto simp: hex_digit_def of_char_eq_iff [symmetric] split: if_splits)

lemma hex_nat_inj: "m < 16 ^ w \<Longrightarrow> n < 16 ^ w \<Longrightarrow> hex_nat w m = hex_nat w n \<Longrightarrow> m = n"
proof (induction w arbitrary: m n)
  case (Suc w)
  then have "m div 16 < 16 ^ w" "n div 16 < 16 ^ w" by (simp_all add: div_less_iff_less_mult)
  moreover have "hex_nat w (m div 16) = hex_nat w (n div 16)" "m mod 16 = n mod 16"
    using Suc.prems(3) hex_digit_inj [of "m mod 16" "n mod 16"] by simp_all
  ultimately have "m div 16 = n div 16" using Suc.IH by blast
  with \<open>m mod 16 = n mod 16\<close> show ?case by (metis div_mult_mod_eq)
qed simp

lemma new_id_inj:
  "new_id s m = new_id s n \<longleftrightarrow> m mod 65536 = n mod 65536"
  using hex_nat_inj [of "m mod 65536" 4 "n mod 65536"] by (auto simp: new_id_def)

end
