(* ===== verification/Workspace_Lock.thy ===== *)
theory Workspace_Lock
  imports State_Store
begin

text \<open>
  One scheduler per workspace: \<^verbatim>\<open>crates/scheduler/src/lock.rs\<close>, on both of the platforms it is
  compiled for (\<^verbatim>\<open>cfg(windows)\<close> is the argument \<open>windows\<close>). The lock file is there or not
  (\<open>lk_file\<close>), and on Windows may be held open with no sharing (\<open>lk_open\<close>), which the operating
  system ends with the process. Every call on the file system may fail: the directory, the opening, each
  removal, and the writing of the status, which then may leave anything. Several processes over one
  workspace are the step relation \<open>lock_step\<close>; a crash keeps the files and closes the handles.
\<close>

section \<open>The code\<close>

record holder =
  ho_pid :: nat
  ho_host :: str
  ho_since :: str

definition holder_to_string :: "holder \<Rightarrow> str" where
  "holder_to_string h =
     ''pid '' @ show_nat (ho_pid h) @ (if ho_host h \<noteq> [] then '' on '' @ ho_host h else [])
     @ '', since '' @ ho_since h"

datatype io_error = AlreadyExists | PermissionDenied | RawOs nat | OtherIo

datatype lock_error = Held str str | LockIo str io_error

text \<open>What the status file reads as: nothing (no file, or one that cannot be read), text that is no holder, or a holder.\<close>

datatype status_file = Unread | Garbled | Says holder

record lock_files =
  lk_file :: bool
  lk_open :: bool
  lk_status :: status_file

text \<open>
  What goes wrong in an acquire: the directory, the removal that \<^verbatim>\<open>--force\<close> asks for, the opening, and the
  writing of the status, with what it leaves.
\<close>

record lock_faults =
  lf_dir :: "io_error option"
  lf_remove :: bool
  lf_open :: "io_error option"
  lf_status :: "status_file option"

definition no_faults :: lock_faults where
  "no_faults = \<lparr> lf_dir = None, lf_remove = False, lf_open = None, lf_status = None \<rparr>"

definition open_exclusive :: "bool \<Rightarrow> io_error option \<Rightarrow> lock_files \<Rightarrow> (io_error + unit) \<times> lock_files" where
  "open_exclusive windows fault l =
     (case fault of
        Some e \<Rightarrow> (Inl e, l)
      | None \<Rightarrow>
          if windows
          then (if lk_open l then (Inl (RawOs 32), l)
                else (Inr (), l\<lparr> lk_file := True, lk_open := True \<rparr>))
          else (if lk_file l then (Inl AlreadyExists, l) else (Inr (), l\<lparr> lk_file := True \<rparr>)))"

definition is_taken :: "io_error \<Rightarrow> bool" where
  "is_taken e \<longleftrightarrow> e = AlreadyExists \<or> e = PermissionDenied \<or> e = RawOs 32"

text \<open>A removal fails by itself (\<open>fails\<close>), or on Windows because the file is held open.\<close>

definition remove_lock_file :: "bool \<Rightarrow> bool \<Rightarrow> lock_files \<Rightarrow> lock_files" where
  "remove_lock_file windows fails l = (if fails \<or> windows \<and> lk_open l then l else l\<lparr> lk_file := False \<rparr>)"

definition advice_for :: "bool \<Rightarrow> str \<Rightarrow> str" where
  "advice_for windows path =
     (if windows then []
      else CHR 0x0A # ''If that process is gone '' @ [CHR 0xE2, CHR 0x80, CHR 0x94] @ '' after a crash or a power cut ''
        @ [CHR 0xE2, CHR 0x80, CHR 0x94] @ '' take the lock with `etl schedule start --force`, or delete '' @ path)"

definition read_holder :: "status_file \<Rightarrow> str" where
  "read_holder st = (case st of
     Says h \<Rightarrow> holder_to_string h | Garbled \<Rightarrow> ''an unreadable status file'' | Unread \<Rightarrow> ''another process'')"

definition lock_acquire ::
  "bool \<Rightarrow> str \<Rightarrow> bool \<Rightarrow> holder \<Rightarrow> lock_faults \<Rightarrow> lock_files \<Rightarrow> (lock_error + unit) \<times> lock_files" where
  "lock_acquire windows path force me f l =
     (case lf_dir f of
        Some e \<Rightarrow> (Inl (LockIo path e), l)
      | None \<Rightarrow>
          (let l1 = (if force then remove_lock_file windows (lf_remove f) l else l)
           in case open_exclusive windows (lf_open f) l1 of
                (Inr _, l2) \<Rightarrow> (Inr (), l2\<lparr> lk_status := (case lf_status f of None \<Rightarrow> Says me | Some left \<Rightarrow> left) \<rparr>)
              | (Inl e, l2) \<Rightarrow>
                  (if is_taken e then Inl (Held (read_holder (lk_status l2)) (advice_for windows path))
                   else Inl (LockIo path e), l2)))"

text \<open>The handle is closed, and then both files are removed, if they can be.\<close>

definition lock_drop :: "bool \<Rightarrow> bool \<Rightarrow> bool \<Rightarrow> lock_files \<Rightarrow> lock_files" where
  "lock_drop windows status_stays file_stays l =
     (let l1 = (if windows then l\<lparr> lk_open := False \<rparr> else l);
          l2 = (if status_stays then l1 else l1\<lparr> lk_status := Unread \<rparr>)
      in remove_lock_file windows file_stays l2)"

definition hostname :: "str option \<Rightarrow> str option \<Rightarrow> str" where
  "hostname computername host = (case computername of
     Some c \<Rightarrow> c
   | None \<Rightarrow> (case host of Some h \<Rightarrow> h | None \<Rightarrow> []))"

section \<open>Several schedulers on one workspace\<close>

text \<open>
  A configuration is the files and the set of processes that believe they hold the lock. A process
  leaves by dropping its lock, whatever of its tidying fails, or by crashing.
\<close>

type_synonym lock_config = "lock_files \<times> nat set"

definition lock_crash :: "bool \<Rightarrow> lock_files \<Rightarrow> lock_files" where
  "lock_crash windows l = (if windows then l\<lparr> lk_open := False \<rparr> else l)"

inductive lock_step :: "bool \<Rightarrow> bool \<Rightarrow> str \<Rightarrow> lock_config \<Rightarrow> lock_config \<Rightarrow> bool"
  for windows may_force path where
  taken: "p \<notin> hs \<Longrightarrow> (force \<longrightarrow> may_force) \<Longrightarrow>
    lock_acquire windows path force me f l = (Inr (), l') \<Longrightarrow>
    lock_step windows may_force path (l, hs) (l', insert p hs)"
| refused: "(force \<longrightarrow> may_force) \<Longrightarrow>
    lock_acquire windows path force me f l = (Inl e, l') \<Longrightarrow>
    lock_step windows may_force path (l, hs) (l', hs)"
| dropped: "p \<in> hs \<Longrightarrow>
    lock_step windows may_force path (l, hs) (lock_drop windows status_stays file_stays l, hs - {p})"
| crashed: "p \<in> hs \<Longrightarrow>
    lock_step windows may_force path (l, hs) (lock_crash windows l, hs - {p})"

inductive_cases lock_stepE: "lock_step windows may_force path (l, hs) c"

definition lock_empty :: lock_files where
  "lock_empty = \<lparr> lk_file = False, lk_open = False, lk_status = Unread \<rparr>"

definition lock_invariant :: "bool \<Rightarrow> lock_config \<Rightarrow> bool" where
  "lock_invariant windows c \<longleftrightarrow>
     (snd c = {} \<or> (\<exists>p. snd c = {p}))
     \<and> (if windows then (lk_open (fst c) \<longleftrightarrow> snd c \<noteq> {}) \<and> (lk_open (fst c) \<longrightarrow> lk_file (fst c))
        else (snd c \<noteq> {} \<longrightarrow> lk_file (fst c)) \<and> \<not> lk_open (fst c))"

lemma acquire_unix:
  "lock_acquire False path False me f l = (Inr (), l') \<Longrightarrow>
     \<not> lk_file l \<and> lk_file l' \<and> lk_open l' = lk_open l"
  by (auto simp: lock_acquire_def open_exclusive_def split: option.splits if_splits sum.splits prod.splits)

lemma acquire_windows:
  "lock_acquire True path force me f l = (Inr (), l') \<Longrightarrow> \<not> lk_open l \<and> lk_open l' \<and> lk_file l'"
  by (auto simp: lock_acquire_def open_exclusive_def remove_lock_file_def Let_def
      split: option.splits if_splits sum.splits prod.splits)

lemma refused_unix:
  "lock_acquire False path False me f l = (Inl e, l') \<Longrightarrow> l' = l"
  by (auto simp: lock_acquire_def open_exclusive_def split: option.splits if_splits sum.splits prod.splits)

lemma refused_windows:
  "lock_acquire True path force me f l = (Inl e, l') \<Longrightarrow>
     lk_open l' = lk_open l \<and> (lk_open l \<longrightarrow> lk_file l' = lk_file l)"
  by (auto simp: lock_acquire_def open_exclusive_def remove_lock_file_def Let_def
      split: option.splits if_splits sum.splits prod.splits)

lemma lock_step_invariant:
  assumes "lock_step windows may_force path c c'" "windows \<or> \<not> may_force" "lock_invariant windows c"
  shows "lock_invariant windows c'"
proof (cases windows)
  case True
  with assms show ?thesis
    by (cases rule: lock_step.cases)
       (auto simp: lock_invariant_def lock_drop_def lock_crash_def remove_lock_file_def Let_def
        dest: acquire_windows refused_windows)
next
  case False
  with assms show ?thesis
    by (cases rule: lock_step.cases)
       (auto simp: lock_invariant_def lock_drop_def lock_crash_def remove_lock_file_def Let_def
        dest: acquire_unix refused_unix)
qed

lemma lock_reachable_invariant:
  assumes "(lock_step windows may_force path)\<^sup>*\<^sup>* (lock_empty, {}) (l, hs)" "windows \<or> \<not> may_force"
  shows "lock_invariant windows (l, hs)"
  using assms(1)
proof (induction rule: rtranclp_induct2)
  case refl
  show ?case by (simp add: lock_invariant_def lock_empty_def)
next
  case (step l hs l' hs')
  from lock_step_invariant [OF step.hyps(2) assms(2) step.IH] show ?case .
qed

text \<open>
  C37: At most one scheduler holds a workspace at any time, through any sequence of starts, stops and
  crashes: on Windows even when \<^verbatim>\<open>--force\<close> is used, elsewhere as long as it is not.
\<close>

theorem one_scheduler:
  assumes "(lock_step windows may_force path)\<^sup>*\<^sup>* (lock_empty, {}) (l, hs)" "windows \<or> \<not> may_force"
  shows "finite hs \<and> card hs \<le> 1"
  using lock_reachable_invariant [OF assms] by (auto simp: lock_invariant_def)

lemma one_holder_run:
  "lock_step windows may_force path (lock_empty, {})
     (\<lparr> lk_file = True, lk_open = windows, lk_status = Says me \<rparr>, {1})"
proof -
  have "lock_acquire windows path False me no_faults lock_empty
      = (Inr (), \<lparr> lk_file = True, lk_open = windows, lk_status = Says me \<rparr>)"
    by (cases windows) (simp_all add: lock_acquire_def open_exclusive_def lock_empty_def no_faults_def)
  from lock_step.taken [OF _ _ this, of 1 "{}" may_force] show ?thesis by simp
qed

theorem one_scheduler_witness:
  "finite {1 :: nat} \<and> card {1 :: nat} \<le> 1"
proof -
  have "(lock_step True False [])\<^sup>*\<^sup>* (lock_empty, {})
      (\<lparr> lk_file = True, lk_open = True, lk_status = Says \<lparr> ho_pid = 1, ho_host = [], ho_since = [] \<rparr> \<rparr>, {1})"
    by (rule r_into_rtranclp) (rule one_holder_run)
  from one_scheduler [OF this] show ?thesis by blast
qed

text \<open>
  C40: What a stop leaves behind. While a process holds the workspace, another start is refused as
  held, on Windows a forced one too. Once
  it is gone, on Windows the next start takes the lock, however the process ended and whatever could
  not be tidied up. Elsewhere it does if the lock file was removed; after a crash, or where the removal
  failed, the next start is refused with what the status file says of the holder and the advice to use
  \<^verbatim>\<open>--force\<close>, which takes the lock if it can remove the file, and is refused the same way if it cannot.
\<close>

theorem what_a_stop_leaves:
  assumes "(lock_step windows may_force path)\<^sup>*\<^sup>* (lock_empty, {}) (l, {p})" "windows \<or> \<not> may_force"
    and "after = lock_crash windows l \<or> after = lock_drop windows status_stays file_stays l"
    and "stale \<longleftrightarrow> after = lock_crash windows l \<or> file_stays"
  shows "(\<forall>force. (force \<longrightarrow> windows) \<longrightarrow>
      fst (lock_acquire windows path force me no_faults l) = Inl (Held (read_holder (lk_status l)) (advice_for windows path))) \<and>
    (windows \<longrightarrow> (\<forall>force. fst (lock_acquire windows path force me no_faults after) = Inr ())) \<and>
    (\<not> windows \<and> \<not> stale \<longrightarrow> (\<forall>force. fst (lock_acquire windows path force me no_faults after) = Inr ())) \<and>
    (\<not> windows \<and> stale \<longrightarrow>
       lock_acquire windows path False me no_faults after = (Inl (Held (read_holder (lk_status after)) (advice_for False path)), after) \<and>
       fst (lock_acquire windows path True me no_faults after) = Inr () \<and>
       lock_acquire windows path True me (no_faults\<lparr> lf_remove := True \<rparr>) after
         = (Inl (Held (read_holder (lk_status after)) (advice_for False path)), after))"
proof -
  have inv: "lock_invariant windows (l, {p})" by (rule lock_reachable_invariant [OF assms(1,2)])
  note defs = lock_acquire_def open_exclusive_def no_faults_def remove_lock_file_def is_taken_def Let_def lock_invariant_def
    lock_crash_def lock_drop_def
  show ?thesis
  proof (cases windows)
    case True
    with inv assms(3) show ?thesis by (cases status_stays; cases file_stays) (auto simp: defs)
  next
    case False
    with inv assms(3,4) show ?thesis by (cases status_stays; cases file_stays) (auto simp: defs)
  qed
qed

theorem what_a_stop_leaves_witness:
  "fst (lock_acquire False ''.etl/scheduler.lock'' False \<lparr> ho_pid = 2, ho_host = [], ho_since = ''t'' \<rparr> no_faults
      (lock_crash False \<lparr> lk_file = True, lk_open = False, lk_status = Says \<lparr> ho_pid = 1, ho_host = ''h'', ho_since = ''s'' \<rparr> \<rparr>))
   = Inl (Held ''pid 1 on h, since s'' (advice_for False ''.etl/scheduler.lock''))"
proof -
  let ?path = "''.etl/scheduler.lock''"
  let ?l = "\<lparr> lk_file = True, lk_open = False, lk_status = Says \<lparr> ho_pid = 1, ho_host = ''h'', ho_since = ''s'' \<rparr> \<rparr>"
  have "(lock_step False False ?path)\<^sup>*\<^sup>* (lock_empty, {}) (?l, {1})"
    by (rule r_into_rtranclp) (rule one_holder_run [of False])
  from what_a_stop_leaves [OF this _ disjI1 [OF refl] refl, of "\<lparr> ho_pid = 2, ho_host = [], ho_since = ''t'' \<rparr>"] show ?thesis
    by (simp add: lock_crash_def read_holder_def) code_simp
qed

text \<open>
  Outside Windows, forcing past a live lock does more than let two schedulers run: the one that
  was forced out removes the new holder's lock file when it stops, so a third start is not refused
  while the second still runs.
\<close>

lemma forced_lock_is_lost:
  "\<exists>l. (lock_step False True path)\<^sup>*\<^sup>* (lock_empty, {}) (l, {2}) \<and> \<not> lk_file l
     \<and> fst (lock_acquire False path False me no_faults l) = Inr ()"
proof -
  let ?l = "\<lambda>h. \<lparr> lk_file = True, lk_open = False, lk_status = Says h \<rparr>"
  have 1: "lock_step False True path (lock_empty, {}) (?l me, {1})"
    using one_holder_run [of False True path me] by simp
  have 2: "lock_step False True path (?l me, {1}) (?l me, {1, 2})"
    using lock_step.taken [of 2 "{1}" True True False path me no_faults "?l me" "?l me"]
    by (auto simp: lock_acquire_def open_exclusive_def remove_lock_file_def insert_commute no_faults_def)
  have 3: "lock_step False True path (?l me, {1, 2}) (lock_drop False False False (?l me), {1, 2} - {1})"
    by (rule lock_step.dropped) simp
  have e: "lock_drop False False False (?l me) = lock_empty" "{1, 2} - {1 :: nat} = {2}"
    by (auto simp: lock_drop_def remove_lock_file_def lock_empty_def)
  have "(lock_step False True path)\<^sup>*\<^sup>* (lock_empty, {}) (lock_empty, {2})"
    using 1 2 3 [unfolded e] by (meson r_into_rtranclp rtranclp_trans)
  then show ?thesis
    by (intro exI [of _ lock_empty]) (simp add: lock_empty_def lock_acquire_def open_exclusive_def no_faults_def)
qed

end
