(* ===== verification/Secret_Store.thy ===== *)
theory Secret_Store
  imports Watch_Poll Json_Value
begin

text \<open>
  Secrets encrypted at rest: \<^verbatim>\<open>crates/secrets/src/lib.rs\<close>. AES-256-GCM comes from a crate and is a
  pair of arguments, \<open>encrypt\<close> and \<open>decrypt\<close>, from a key, a nonce, the associated data and the
  message; what is relied on of them is stated in the theorems as named hypotheses. The random
  bytes of a nonce or a key are arguments. Hexadecimal and UTF-8 are modelled: the latter for the
  characters up to U+00FF, which take one byte or two.
\<close>

section \<open>Hexadecimal and UTF-8\<close>

type_synonym bytes = "u8 list"

definition nibble_char :: "nat \<Rightarrow> char" where
  "nibble_char d = (if d < 10 then char_of (48 + d) else char_of (87 + d))"

definition to_hex :: "bytes \<Rightarrow> str" where
  "to_hex bs = concat (map (\<lambda>b. [nibble_char (unat (drop_bit 4 b)), nibble_char (unat (b AND 15))]) bs)"

definition to_digit_16 :: "char \<Rightarrow> u8 option" where
  "to_digit_16 c =
     (if is_ascii_digit c then Some (of_nat (code c - 48))
      else if 97 \<le> code c \<and> code c \<le> (102 :: nat) then Some (of_nat (code c - 87))
      else if 65 \<le> code c \<and> code c \<le> (70 :: nat) then Some (of_nat (code c - 55))
      else None)"

fun pair_up :: "u8 list \<Rightarrow> bytes" where
  "pair_up (a # b # ds) = (push_bit 4 a OR b) # pair_up ds"
| "pair_up _ = []"

definition from_hex :: "str \<Rightarrow> bytes option" where
  "from_hex s =
     (if odd (length s) then None
      else case traverse (\<lambda>c. ok_or () (to_digit_16 c)) s of
             Inl _ \<Rightarrow> None
           | Inr digits \<Rightarrow> Some (pair_up digits))"

definition utf8_char :: "char \<Rightarrow> bytes" where
  "utf8_char c = (if code c < (128 :: nat) then [of_nat (code c)]
     else [of_nat (192 + code c div 64), of_nat (128 + code c mod 64)])"

definition as_bytes :: "str \<Rightarrow> bytes" where
  "as_bytes s = concat (map utf8_char s)"

fun from_utf8 :: "bytes \<Rightarrow> str option" where
  "from_utf8 [] = Some []"
| "from_utf8 (b # bs) =
     (if unat b < 128 then map_option ((#) (char_of (unat b))) (from_utf8 bs)
      else case bs of
             c # cs \<Rightarrow>
               if 194 \<le> unat b \<and> unat b \<le> 195 \<and> 128 \<le> unat c \<and> unat c < 192
               then map_option ((#) (char_of ((unat b - 192) * 64 + (unat c - 128)))) (from_utf8 cs)
               else None
           | [] \<Rightarrow> None)"

section \<open>The store\<close>

definition SECRETS_FORMAT_VERSION :: nat where
  "SECRETS_FORMAT_VERSION = 1"

definition KEY_PATH :: str where
  "KEY_PATH = ''.etl/keys/workspace.key''"

definition STORE_PATH :: str where
  "STORE_PATH = ''.etl/secrets.json''"

definition KEY_BYTES :: nat where
  "KEY_BYTES = 32"

datatype secret_error =
    NoKey str
  | Unreadable str
  | Unwritable str
  | KeyMalformed str str
  | StoreMalformed str
  | EntryMalformed str str str
  | Undecryptable str
  | Unencryptable str
  | NotText str
  | EmptyName

record secret_entry =
  se_nonce :: str
  se_ciphertext :: str
  se_description :: "str option"

record store_file =
  st_format_version :: nat
  st_secrets :: "(str, secret_entry) om"

definition store_file_default :: store_file where
  "store_file_default = \<lparr> st_format_version = 0, st_secrets = [] \<rparr>"

record secret_store =
  ss_workspace :: str
  ss_key :: bytes
  ss_file :: store_file

type_synonym secret_disk = "str \<Rightarrow> str option"

definition key_path :: "str \<Rightarrow> str" where
  "key_path workspace = path_join workspace KEY_PATH"

definition store_path :: "str \<Rightarrow> str" where
  "store_path workspace = path_join workspace STORE_PATH"

definition has_key :: "str \<Rightarrow> secret_disk \<Rightarrow> bool" where
  "has_key workspace d \<longleftrightarrow> d (key_path workspace) \<noteq> None"

definition initialise ::
  "bytes \<Rightarrow> bool \<Rightarrow> str \<Rightarrow> secret_disk \<Rightarrow> (secret_error + str) \<times> secret_disk" where
  "initialise fresh write_fails workspace d =
     (let path = key_path workspace
      in if d path \<noteq> None then (Inr path, d)
         else if write_fails then (Inl (Unwritable path), d)
         else (Inr path, d(path \<mapsto> to_hex fresh @ [CHR 0x0A])))"

definition read_key :: "bool \<Rightarrow> str \<Rightarrow> secret_disk \<Rightarrow> secret_error + bytes" where
  "read_key read_fails path d =
     (case (if read_fails then None else d path) of
        None \<Rightarrow> Inl (Unreadable path)
      | Some content \<Rightarrow>
          (case from_hex (trim content) of
             None \<Rightarrow> Inl (KeyMalformed path ''it is not hexadecimal'')
           | Some bs \<Rightarrow>
               if length bs = KEY_BYTES then Inr bs
               else Inl (KeyMalformed path (''it is '' @ show_nat (length bs)
                      @ '' bytes, and an AES-256 key is 32''))))"

definition open_existing ::
  "(str \<Rightarrow> store_file option) \<Rightarrow> bool \<Rightarrow> bool \<Rightarrow> str \<Rightarrow> secret_disk \<Rightarrow> secret_error + secret_store" where
  "open_existing parse key_fails store_fails workspace d =
     (if \<not> has_key workspace d then Inl (NoKey (key_path workspace))
      else and_then (read_key key_fails (key_path workspace) d) (\<lambda>key.
             and_then
               (case d (store_path workspace) of
                  None \<Rightarrow> Inr store_file_default
                | Some content \<Rightarrow>
                    if store_fails then Inl (Unreadable (store_path workspace))
                    else ok_or (StoreMalformed (store_path workspace)) (parse content)) (\<lambda>file.
             Inr \<lparr> ss_workspace = workspace, ss_key = key, ss_file = file \<rparr>)))"

definition open_store ::
  "bytes \<Rightarrow> bool \<Rightarrow> (str \<Rightarrow> store_file option) \<Rightarrow> bool \<Rightarrow> bool \<Rightarrow> str \<Rightarrow> secret_disk
     \<Rightarrow> (secret_error + secret_store) \<times> secret_disk" where
  "open_store fresh write_fails parse key_fails store_fails workspace d =
     (case initialise fresh write_fails workspace d of
        (Inl e, d') \<Rightarrow> (Inl e, d')
      | (Inr _, d') \<Rightarrow> (open_existing parse key_fails store_fails workspace d', d'))"

definition secret_names :: "secret_store \<Rightarrow> str list" where
  "secret_names s = om_keys (st_secrets (ss_file s))"

definition secret_is_empty :: "secret_store \<Rightarrow> bool" where
  "secret_is_empty s \<longleftrightarrow> st_secrets (ss_file s) = []"

definition secret_contains :: "secret_store \<Rightarrow> str \<Rightarrow> bool" where
  "secret_contains s name \<longleftrightarrow> om_contains (st_secrets (ss_file s)) name"

definition secret_description :: "secret_store \<Rightarrow> str \<Rightarrow> str option" where
  "secret_description s name = Option.bind (om_get (st_secrets (ss_file s)) name) se_description"

type_synonym encryptor = "bytes \<Rightarrow> bytes \<Rightarrow> bytes \<Rightarrow> bytes \<Rightarrow> bytes option"

definition secret_set ::
  "encryptor \<Rightarrow> bytes \<Rightarrow> str \<Rightarrow> str \<Rightarrow> str option \<Rightarrow> secret_store \<Rightarrow> secret_error + secret_store" where
  "secret_set encrypt nonce name v description s =
     (if trim name = [] then Inl EmptyName
      else and_then (ok_or (Unencryptable name) (encrypt (ss_key s) nonce (as_bytes name) (as_bytes v)))
        (\<lambda>ciphertext. Inr (s\<lparr> ss_file := \<lparr> st_format_version = SECRETS_FORMAT_VERSION,
             st_secrets = om_insert name \<lparr> se_nonce = to_hex nonce, se_ciphertext = to_hex ciphertext,
                                           se_description = description \<rparr>
                            (st_secrets (ss_file s)) \<rparr> \<rparr>)))"

definition secret_get :: "encryptor \<Rightarrow> str \<Rightarrow> secret_store \<Rightarrow> secret_error + str option" where
  "secret_get decrypt name s =
     (case om_get (st_secrets (ss_file s)) name of
        None \<Rightarrow> Inr None
      | Some entry \<Rightarrow>
          (let path = store_path (ss_workspace s)
           in and_then (ok_or (EntryMalformed path name ''its nonce is not hexadecimal'')
                          (from_hex (se_nonce entry))) (\<lambda>nonce.
              if length nonce \<noteq> 12
              then Inl (EntryMalformed path name
                     (''its nonce is '' @ show_nat (length nonce) @ '' bytes, not 12''))
              else and_then (ok_or (EntryMalformed path name ''its ciphertext is not hexadecimal'')
                               (from_hex (se_ciphertext entry))) (\<lambda>ciphertext.
                   and_then (ok_or (Undecryptable name) (decrypt (ss_key s) nonce (as_bytes name) ciphertext))
                     (\<lambda>plaintext. and_then (ok_or (NotText name) (from_utf8 plaintext)) (\<lambda>v. Inr (Some v)))))))"

definition secret_remove :: "str \<Rightarrow> secret_store \<Rightarrow> bool \<times> secret_store" where
  "secret_remove name s =
     (secret_contains s name,
      s\<lparr> ss_file := (ss_file s)\<lparr> st_secrets := om_remove name (st_secrets (ss_file s)) \<rparr> \<rparr>)"

definition secret_save ::
  "(store_file \<Rightarrow> str) \<Rightarrow> bool \<Rightarrow> secret_store \<Rightarrow> secret_disk \<Rightarrow> (secret_error + unit) \<times> secret_disk" where
  "secret_save ser write_fails s d =
     (let path = store_path (ss_workspace s)
      in if write_fails then (Inl (Unwritable path), d)
         else (Inr (), d(path \<mapsto> ser (ss_file s) @ [CHR 0x0A])))"

definition random_token :: "bytes \<Rightarrow> str" where
  "random_token fresh = to_hex fresh"

section \<open>Round trips\<close>

lemma nibble_digit: "d < 16 \<Longrightarrow> to_digit_16 (nibble_char d) = Some (of_nat d)"
  by (auto simp: nibble_char_def to_digit_16_def is_ascii_digit_def)

lemma low_nibble: "b AND 15 = take_bit 4 b" for b :: u8
  by (simp add: take_bit_eq_mask mask_eq_exp_minus_1)

lemma byte_of_nibbles: "push_bit 4 (drop_bit 4 b) OR (b AND 15) = b" for b :: u8
proof (rule bit_eqI)
  fix n assume "possible_bit TYPE(u8) n"
  then show "bit (push_bit 4 (drop_bit 4 b) OR (b AND 15)) n \<longleftrightarrow> bit b n"
    unfolding low_nibble bit_or_iff bit_push_bit_iff bit_drop_bit_eq bit_take_bit_iff
    by (cases "4 \<le> n") auto
qed

lemma nibbles_small: "unat (drop_bit 4 b) < 16" "unat (b AND 15) < 16" for b :: u8
proof -
  have "unat b < 2 ^ 8" using unsigned_less [of b] by simp
  then show "unat (drop_bit 4 b) < 16"
    using take_bit_nat_less_exp [of 8 "unat b"] unfolding unsigned_drop_bit_eq
    by (simp add: drop_bit_eq_div div_less_iff_less_mult)
  have "take_bit 4 (unat b) < 2 ^ 4" by (rule take_bit_nat_less_exp)
  then show "unat (b AND 15) < 16" unfolding low_nibble by (simp add: unsigned_take_bit_eq)
qed

lemma to_hex_length: "length (to_hex bs) = 2 * length bs"
  by (induction bs) (simp_all add: to_hex_def)

lemma to_hex_digits:
  "traverse (\<lambda>c. ok_or () (to_digit_16 c)) (to_hex bs)
     = Inr (concat (map (\<lambda>b. [drop_bit 4 b, b AND 15]) bs))"
  by (induction bs) (simp_all add: to_hex_def nibble_digit nibbles_small)

text \<open>Hexadecimal loses nothing.\<close>

lemma from_hex_to_hex_eq: "from_hex (to_hex bs) = Some bs"
proof -
  have "pair_up (concat (map (\<lambda>b. [drop_bit 4 b, b AND 15]) bs)) = bs"
    by (induction bs) (simp_all add: byte_of_nibbles)
  then show ?thesis by (simp add: from_hex_def to_hex_length to_hex_digits)
qed

lemma char_code_less: "code c < (256 :: nat)"
  by (cases c) (simp add: of_char_def horner_sum_simps split: bool.split)

lemma from_utf8_append: "from_utf8 (utf8_char c @ bs) = map_option ((#) c) (from_utf8 bs)"
proof (cases "code c < (128 :: nat)")
  case True
  then have "unat (of_nat (code c) :: u8) = code c" by (simp add: unat_of_nat)
  with True show ?thesis by (simp add: utf8_char_def)
next
  case False
  define n where "n = (code c :: nat)"
  have n: "n < 256" "128 \<le> n" using char_code_less [of c] False by (simp_all add: n_def)
  have d: "2 \<le> n div 64" "n div 64 \<le> 3"
    using n div_le_mono [of 128 n 64] by (simp_all add: less_mult_imp_div_less less_Suc_eq_le [symmetric])
  have "n mod 64 < 64" by simp
  then have u: "unat (of_nat (192 + n div 64) :: u8) = 192 + n div 64"
    "unat (of_nat (128 + n mod 64) :: u8) = 128 + n mod 64"
    using d by (simp_all only: unat_of_nat) (simp_all add: take_bit_eq_mod)
  have "(n div 64) * 64 + n mod 64 = n" by simp
  then have "char_of ((n div 64) * 64 + n mod 64) = c" by (simp add: n_def)
  then show ?thesis
    using False d \<open>n mod 64 < 64\<close> unfolding utf8_char_def n_def [symmetric]
    by (simp add: u del: of_nat_add)
qed

lemma from_utf8_as_bytes [simp]: "from_utf8 (as_bytes s) = Some s"
  by (induction s) (simp_all add: as_bytes_def from_utf8_append)

section \<open>What the store promises\<close>

definition wf_store :: "secret_store \<Rightarrow> bool" where
  "wf_store s \<longleftrightarrow> om_ok (st_secrets (ss_file s))"

lemma secret_set_wf [wf_intros]:
  "wf_store s \<Longrightarrow> secret_set encrypt nonce name v desc s = Inr s' \<Longrightarrow> wf_store s'"
  by (auto simp: secret_set_def wf_store_def and_then_eq_Inr_iff split: if_splits)

lemma secret_remove_wf [wf_intros]: "wf_store s \<Longrightarrow> wf_store (snd (secret_remove name s))"
  by (auto simp: secret_remove_def wf_store_def)

lemma secret_set_Inr:
  assumes "secret_set encrypt nonce name v desc s = Inr s'"
  obtains c where "trim name \<noteq> []" "encrypt (ss_key s) nonce (as_bytes name) (as_bytes v) = Some c"
    "ss_key s' = ss_key s" "ss_workspace s' = ss_workspace s"
    "st_secrets (ss_file s') = om_insert name
       \<lparr> se_nonce = to_hex nonce, se_ciphertext = to_hex c, se_description = desc \<rparr> (st_secrets (ss_file s))"
  using assms by (auto simp: secret_set_def and_then_eq_Inr_iff split: if_splits)

lemma secret_get_entry:
  assumes "om_get (st_secrets (ss_file s)) name
      = Some \<lparr> se_nonce = to_hex nonce, se_ciphertext = to_hex c, se_description = desc \<rparr>"
    and "length nonce = 12"
  shows "secret_get decrypt name s = (case decrypt (ss_key s) nonce (as_bytes name) c of
      None \<Rightarrow> Inl (Undecryptable name)
    | Some m \<Rightarrow> (case from_utf8 m of None \<Rightarrow> Inl (NotText name) | Some v \<Rightarrow> Inr (Some v)))"
  using assms by (simp add: secret_get_def Let_def from_hex_to_hex_eq split: option.split)

text \<open>
  A secret that was set is the secret that is read, whatever its text, and every other secret
  reads as it did before. (The cipher is relied on to decrypt what it encrypted, under the same
  key, nonce and associated data; a nonce is 12 bytes.)
\<close>

lemma set_then_get:
  assumes "secret_set encrypt nonce name v desc s = Inr s'" "length nonce = 12"
    and "\<forall>key aad m c. encrypt key nonce aad m = Some c \<longrightarrow> decrypt key nonce aad c = Some m"
  shows "secret_get decrypt other s' = (if other = name then Inr (Some v) else secret_get decrypt other s)"
  using assms(1)
proof (cases rule: secret_set_Inr)
  case (1 c)
  show ?thesis
  proof (cases "other = name")
    case True
    then have "om_get (st_secrets (ss_file s')) other
        = Some \<lparr> se_nonce = to_hex nonce, se_ciphertext = to_hex c, se_description = desc \<rparr>"
      by (simp add: 1(5) om_get_insert)
    from secret_get_entry [OF this assms(2)] assms(3) 1(2) show ?thesis by (simp add: True 1(3))
  next
    case False
    then show ?thesis unfolding secret_get_def 1(3,4,5) by (simp add: om_get_insert)
  qed
qed

text \<open>
  An entry moved to another name inside the file does not decrypt, but is an error, since the
  name is authenticated with the value; and a secret that is there is never reported as not being
  there. (The cipher is relied on to refuse associated data other than what was encrypted.)
\<close>

lemma renamed_entry_fails:
  assumes "om_get (st_secrets (ss_file s)) other
      = Some \<lparr> se_nonce = to_hex nonce, se_ciphertext = to_hex c, se_description = desc \<rparr>"
    and "length nonce = 12" "encrypt (ss_key s) nonce (as_bytes name) m = Some c"
    and "\<forall>key aad m c aad'. encrypt key nonce aad m = Some c \<and> aad' \<noteq> aad \<longrightarrow> decrypt key nonce aad' c = None"
    and "other \<noteq> name"
  shows "secret_get decrypt other s = Inl (Undecryptable other)
    \<and> (\<forall>n. secret_get decrypt n s = Inr None \<longleftrightarrow> \<not> secret_contains s n)"
proof -
  have "as_bytes other \<noteq> as_bytes name" using assms(5) from_utf8_as_bytes by (metis option.inject)
  then have "decrypt (ss_key s) nonce (as_bytes other) c = None" using assms(3,4) by blast
  with secret_get_entry [OF assms(1,2)] have "secret_get decrypt other s = Inl (Undecryptable other)"
    by simp
  moreover have "secret_get decrypt n s = Inr None \<longleftrightarrow> \<not> secret_contains s n" for n
    by (auto simp: secret_get_def secret_contains_def om_contains_def Let_def and_then_eq_Inr_iff
        split: option.splits if_splits)
  ultimately show ?thesis by blast
qed

text \<open>A cipher for the instances: the associated data travels in front of the message.\<close>

definition sample_encrypt :: encryptor where
  "sample_encrypt key nonce aad m = Some (of_nat (length aad) # aad @ m)"

definition sample_decrypt :: encryptor where
  "sample_decrypt key nonce aad c =
     (if c \<noteq> [] \<and> hd c = of_nat (length aad) \<and> take (length aad) (tl c) = aad \<and> length aad \<le> length (tl c)
      then Some (drop (length aad) (tl c)) else None)"

definition sample_store :: secret_store where
  "sample_store = \<lparr> ss_workspace = ''/ws'', ss_key = replicate 32 0, ss_file = store_file_default \<rparr>"

lemma set_then_get_witness:
  "\<exists>s'. secret_set sample_encrypt (replicate 12 0) ''db'' ''p'' None sample_store = Inr s'
     \<and> secret_get sample_decrypt ''db'' s' = Inr (Some ''p'')"
proof -
  have "trim ''db'' = ''db''" by (rule trim_id) (simp add: is_whitespace_def)
  then obtain s' where s: "secret_set sample_encrypt (replicate 12 0) ''db'' ''p'' None sample_store = Inr s'"
    by (simp add: secret_set_def sample_encrypt_def)
  have "\<forall>key aad m c. sample_encrypt key (replicate 12 0) aad m = Some c
      \<longrightarrow> sample_decrypt key (replicate 12 0) aad c = Some m"
    by (auto simp: sample_encrypt_def sample_decrypt_def)
  with set_then_get [OF s, of sample_decrypt "''db''"] s show ?thesis by simp
qed

lemma renamed_entry_fails_witness:
  "\<exists>decrypt :: encryptor. secret_get decrypt ''x'' (sample_store\<lparr> ss_file := \<lparr> st_format_version = 1,
       st_secrets = [(''x'', \<lparr> se_nonce = to_hex (replicate 12 0), se_ciphertext = to_hex [112],
                              se_description = None \<rparr>)] \<rparr> \<rparr>) = Inl (Undecryptable ''x'')"
proof -
  define enc :: encryptor where "enc = (\<lambda>key nonce aad m. if aad = as_bytes ''db'' then Some m else None)"
  define dec :: encryptor where "dec = (\<lambda>key nonce aad c. if aad = as_bytes ''db'' then Some c else None)"
  let ?s = "sample_store\<lparr> ss_file := \<lparr> st_format_version = 1,
       st_secrets = [(''x'', \<lparr> se_nonce = to_hex (replicate 12 0), se_ciphertext = to_hex [112],
                              se_description = None \<rparr>)] \<rparr> \<rparr>"
  have 1: "om_get (st_secrets (ss_file ?s)) ''x''
      = Some \<lparr> se_nonce = to_hex (replicate 12 0), se_ciphertext = to_hex [112], se_description = None \<rparr>"
    by (simp add: om_get_def)
  have 2: "enc (ss_key ?s) (replicate 12 0) (as_bytes ''db'') [112] = Some [112]" by (simp add: enc_def)
  have 3: "\<forall>key aad m c aad'. enc key (replicate 12 0) aad m = Some c \<and> aad' \<noteq> aad
      \<longrightarrow> dec key (replicate 12 0) aad' c = None"
    by (auto simp: enc_def dec_def split: if_splits)
  from renamed_entry_fails [OF 1, where encrypt = enc and decrypt = dec and name = "''db''" and m = "[112]"] 2 3
  show ?thesis by auto
qed

section \<open>The key file\<close>

lemma hex_not_white: "c \<in> set (to_hex bs) \<Longrightarrow> \<not> is_whitespace c"
proof -
  assume "c \<in> set (to_hex bs)"
  then have "\<exists>b \<in> set bs. c = nibble_char (unat (drop_bit 4 b)) \<or> c = nibble_char (unat (b AND 15))"
    by (auto simp: to_hex_def)
  then obtain d where d: "c = nibble_char d" "d < 16" using nibbles_small by blast
  then show ?thesis by (auto simp: nibble_char_def is_whitespace_def)
qed

lemma trim_hex: "trim (to_hex bs @ [CHR 0x0A]) = to_hex bs"
proof -
  note hex = hex_not_white [of _ bs]
  have "trim_start (to_hex bs @ [CHR 0x0A]) = (if to_hex bs = [] then [] else to_hex bs @ [CHR 0x0A])"
    using hex by (cases "to_hex bs") (auto simp: trim_start_def is_whitespace_def)
  moreover have "trim_end (to_hex bs @ [CHR 0x0A]) = trim_end (to_hex bs)"
    by (simp add: trim_end_def is_whitespace_def)
  moreover have "trim_end (to_hex bs) = to_hex bs"
    using hex by (intro trim_end_id) (metis last_in_set)
  ultimately show ?thesis by (auto simp: trim_def trim_end_def)
qed

text \<open>
  Opening a workspace with no key makes one that is read back; one that has a key keeps it, so no
  secret is ever made unreadable by opening the store, and initialising again is not an error.
\<close>

lemma initialise_keeps_key:
  assumes "length fresh = KEY_BYTES" "initialise fresh False workspace d = (r, d')"
  shows "r = Inr (key_path workspace)
    \<and> (d (key_path workspace) \<noteq> None \<longrightarrow> d' = d)
    \<and> (d (key_path workspace) = None \<longrightarrow> read_key False (key_path workspace) d' = Inr fresh)"
  using assms by (auto simp: initialise_def Let_def read_key_def trim_hex from_hex_to_hex_eq split: if_splits)

lemma initialise_keeps_key_witness:
  "\<exists>d'. initialise (replicate 32 7) False ''/ws'' Map.empty = (Inr (key_path ''/ws''), d')
     \<and> read_key False (key_path ''/ws'') d' = Inr (replicate 32 7)"
proof -
  obtain r d' where i: "initialise (replicate 32 7) False ''/ws'' Map.empty = (r, d')" by force
  from initialise_keeps_key [OF _ i] i show ?thesis by (auto simp: KEY_BYTES_def)
qed

end
