(* ===== verification/Console_Auth.thy ===== *)
theory Console_Auth
  imports Secret_Store
begin

text \<open>
  Who may do what on the console: \<^verbatim>\<open>crates/console/src/auth.rs\<close>. A role is a \<open>linorder\<close>, as the
  derived \<^verbatim>\<open>Ord\<close> of the source makes it; a freshly minted token's random bytes are an argument.
\<close>

section \<open>The code\<close>

definition TOKEN_BYTES :: nat where
  "TOKEN_BYTES = 32"

datatype role = Viewer | Operator

instantiation role :: linorder
begin

definition less_eq_role :: "role \<Rightarrow> role \<Rightarrow> bool" where
  "less_eq_role a b \<longleftrightarrow> a = Viewer \<or> b = Operator"

definition less_role :: "role \<Rightarrow> role \<Rightarrow> bool" where
  "less_role a b \<longleftrightarrow> a = Viewer \<and> b = Operator"

instance
  by standard (auto simp: less_eq_role_def less_role_def intro: role.exhaust)

end

definition role_name :: "role \<Rightarrow> str" where
  "role_name r = (case r of Viewer \<Rightarrow> ''viewer'' | Operator \<Rightarrow> ''operator'')"

definition allows :: "role \<Rightarrow> role \<Rightarrow> bool" where
  "allows r required \<longleftrightarrow> r \<ge> required"

datatype token_source = Minted | Environment

record tokens =
  tok_operator :: str
  tok_viewer :: str
  tok_operator_source :: token_source
  tok_viewer_source :: token_source

definition source_of :: "str option \<Rightarrow> token_source" where
  "source_of v = (case v of Some _ \<Rightarrow> Environment | None \<Rightarrow> Minted)"

definition given :: "str option \<Rightarrow> str option" where
  "given v = (case v of Some t \<Rightarrow> if trim t \<noteq> [] then Some t else None | None \<Rightarrow> None)"

definition tokens_build :: "bytes \<Rightarrow> bytes \<Rightarrow> str option \<Rightarrow> str option \<Rightarrow> tokens" where
  "tokens_build fresh1 fresh2 operator0 viewer0 =
     (let operator = given operator0; viewer = given viewer0
      in \<lparr> tok_operator = (case operator of Some t \<Rightarrow> t | None \<Rightarrow> random_token fresh1),
           tok_viewer = (case viewer of Some t \<Rightarrow> t | None \<Rightarrow> random_token fresh2),
           tok_operator_source = source_of operator,
           tok_viewer_source = source_of viewer \<rparr>)"

fun difference :: "u8 \<Rightarrow> bytes \<Rightarrow> bytes \<Rightarrow> u8" where
  "difference acc (a # as) (b # bs) = difference (acc OR (a XOR b)) as bs"
| "difference acc _ _ = acc"

definition constant_time_eq :: "bytes \<Rightarrow> bytes \<Rightarrow> bool" where
  "constant_time_eq left right \<longleftrightarrow>
     (if length left \<noteq> length right then False else difference 0 left right = 0)"

definition role_for :: "tokens \<Rightarrow> str \<Rightarrow> role option" where
  "role_for t presented =
     (let is_operator = constant_time_eq (as_bytes presented) (as_bytes (tok_operator t));
          is_viewer = constant_time_eq (as_bytes presented) (as_bytes (tok_viewer t))
      in if is_operator then Some Operator else if is_viewer then Some Viewer else None)"

definition roles_collide :: "tokens \<Rightarrow> bool" where
  "roles_collide t \<longleftrightarrow> tok_operator t = tok_viewer t"

definition bearer_of :: "str \<Rightarrow> str option" where
  "bearer_of header =
     (case split_once (\<lambda>c. c = CHR '' '') (trim header) of
        None \<Rightarrow> None
      | Some (scheme, token) \<Rightarrow>
          if \<not> eq_ignore_ascii_case scheme ''bearer'' then None
          else let tok = trim token in if tok = [] then None else Some tok)"

section \<open>Comparing tokens\<close>

lemma difference_zero: "difference acc xs ys = 0 \<longleftrightarrow> acc = 0 \<and> (\<forall>(x, y) \<in> set (zip xs ys). x = y)"
proof (induction acc xs ys rule: difference.induct)
  case (1 acc a as b bs)
  have "a XOR b = 0 \<longleftrightarrow> a = b"
    by (metis xor.assoc xor.left_neutral xor_self_eq)
  with 1 show ?case by (auto simp: or_eq_0_iff)
qed auto

text \<open>The comparison that does not return early still decides equality.\<close>

lemma constant_time_eq_iff_bytes: "constant_time_eq left right \<longleftrightarrow> left = right"
proof (cases "length left = length right")
  case True
  then have "(\<forall>(x, y) \<in> set (zip left right). x = y) \<longleftrightarrow> left = right"
    by (induction left right rule: list_induct2) auto
  with True show ?thesis by (simp add: constant_time_eq_def difference_zero)
qed (auto simp: constant_time_eq_def)

lemma as_bytes_inj: "as_bytes s = as_bytes t \<longleftrightarrow> s = t"
  by (metis from_utf8_as_bytes option.inject)

lemma role_for_eq:
  "role_for t p = (if p = tok_operator t then Some Operator else if p = tok_viewer t then Some Viewer else None)"
  by (simp add: role_for_def Let_def constant_time_eq_iff_bytes as_bytes_inj)

text \<open>
  Only the two tokens open the console. Whoever may do something only an operator may presented the
  operator's token; an empty or blank token is never accepted, from whatever the environment
  holds; and tokens that do not collide give the viewer no more than reading.
\<close>

lemma role_for_sound:
  assumes "fresh1 \<noteq> []" "fresh2 \<noteq> []" "t = tokens_build fresh1 fresh2 operator viewer"
  shows "(role_for t p = Some r \<and> allows r Operator \<longrightarrow> p = tok_operator t)
    \<and> (trim p = [] \<longrightarrow> role_for t p = None)
    \<and> (\<not> roles_collide t \<longrightarrow> role_for t (tok_viewer t) = Some Viewer)
    \<and> (role_for t p \<noteq> None \<longleftrightarrow> p = tok_operator t \<or> p = tok_viewer t)"
proof -
  have "trim (random_token f) \<noteq> []" if "f \<noteq> []" for f
  proof -
    have "trim (to_hex f) = to_hex f" using hex_not_white by (intro trim_id) (metis last_in_set list.set_sel(1))
    moreover have "to_hex f \<noteq> []" using that to_hex_length [of f] by (cases f) auto
    ultimately show ?thesis by (simp add: random_token_def)
  qed
  then have "trim (tok_operator t) \<noteq> []" "trim (tok_viewer t) \<noteq> []"
    using assms by (auto simp: tokens_build_def Let_def given_def split: option.splits if_splits)
  then show ?thesis
    by (auto simp: role_for_eq allows_def less_eq_role_def roles_collide_def split: if_splits)
qed

lemma role_for_sound_witness:
  "role_for (tokens_build [1] [2] (Some ''op'') (Some ''view'')) '' '' = None
   \<and> role_for (tokens_build [1] [2] (Some ''op'') (Some ''view'')) ''view'' = Some Viewer"
proof -
  have op: "given (Some ''op'') = Some ''op''" "given (Some ''view'') = Some ''view''"
    "trim '' '' = []"
    by (simp_all add: given_def trim_def trim_start_def trim_end_def is_whitespace_def)
  then have "tok_viewer (tokens_build [1] [2] (Some ''op'') (Some ''view'')) = ''view''"
    "tok_operator (tokens_build [1] [2] (Some ''op'') (Some ''view'')) = ''op''"
    by (simp_all add: tokens_build_def)
  then show ?thesis
    using role_for_sound [of "[1]" "[2]" "tokens_build [1] [2] (Some ''op'') (Some ''view'')"
        "Some ''op''" "Some ''view''" "'' ''"] op
    by (simp add: roles_collide_def)
qed

text \<open>A bearer token is never blank, and is what stands after the scheme.\<close>

lemma bearer_of_trimmed: "bearer_of h = Some t \<Longrightarrow> trim t = t \<and> t \<noteq> []"
  by (auto simp: bearer_of_def Let_def split: option.splits if_splits)

lemma bearer_of_header:
  assumes "eq_ignore_ascii_case scheme ''bearer''" "CHR '' '' \<notin> set scheme" "scheme \<noteq> []"
    "\<not> is_whitespace (hd scheme)" "trim t = t" "t \<noteq> []"
  shows "bearer_of (scheme @ CHR '' '' # t) = Some t"
proof -
  have "\<not> is_whitespace (last t)" using trim_last [of t] assms(5,6) by simp
  then have "trim (scheme @ CHR '' '' # t) = scheme @ CHR '' '' # t"
    using assms(3,4,6) by (intro trim_id) simp
  moreover have "split_once (\<lambda>c. c = CHR '' '') (scheme @ CHR '' '' # t) = Some (scheme, t)"
    using assms(2) by (intro split_once_append) auto
  ultimately show ?thesis using assms(1,5,6) by (simp add: bearer_of_def)
qed

text \<open>
  A stable token with white space around it is kept as it is, while the token of a header is
  trimmed: such a token opens nothing through the \<^verbatim>\<open>Authorization\<close> header, whatever is sent.
\<close>

lemma padded_token_locked_out:
  assumes "trim op \<noteq> op" "trim op \<noteq> []" "t = tokens_build fresh1 fresh2 (Some op) viewer"
    and "bearer_of header = Some presented"
  shows "role_for t presented \<noteq> Some Operator"
proof -
  have "tok_operator t = op" using assms(2,3) by (simp add: tokens_build_def given_def Let_def)
  moreover have "presented \<noteq> op" using bearer_of_trimmed [OF assms(4)] assms(1) by auto
  ultimately show ?thesis by (auto simp: role_for_eq)
qed

lemma padded_token_locked_out_witness:
  "role_for (tokens_build [1] [2] (Some ''op '') None) ''op'' \<noteq> Some Operator"
proof -
  have "trim ''op '' = ''op''" "trim ''op'' = ''op''"
    by (simp_all add: trim_def trim_start_def trim_end_def is_whitespace_def)
  moreover have "bearer_of (''Bearer'' @ CHR '' '' # ''op'') = Some ''op''"
    using \<open>trim ''op'' = ''op''\<close>
  proof (intro bearer_of_header)
    show "eq_ignore_ascii_case ''Bearer'' ''bearer''" by code_simp
  qed (simp_all add: is_whitespace_def)
  ultimately show ?thesis using padded_token_locked_out [of "''op ''"] by simp
qed

end
