(* ===== verification/Component_Spec.thy ===== *)
theory Component_Spec
  imports Json_Value
begin

text \<open>
  What a component is: \<^verbatim>\<open>crates/metadata/src/component.rs\<close>. The builder methods of the source
  (\<^verbatim>\<open>.required()\<close>, \<^verbatim>\<open>.help(..)\<close> and so on) are functions from specs to specs here.
\<close>

section \<open>The code\<close>

datatype namespace =
  NsSource | NsTransform | NsSink | NsQuality | NsControl | NsCode

definition namespace_prefix :: "namespace \<Rightarrow> str" where
  "namespace_prefix n = (case n of
     NsSource \<Rightarrow> ''src'' | NsTransform \<Rightarrow> ''xf'' | NsSink \<Rightarrow> ''snk''
   | NsQuality \<Rightarrow> ''qa'' | NsControl \<Rightarrow> ''ctl'' | NsCode \<Rightarrow> ''code'')"

definition namespace_from_prefix :: "str \<Rightarrow> namespace option" where
  "namespace_from_prefix p =
     (if p = ''src'' then Some NsSource
      else if p = ''xf'' then Some NsTransform
      else if p = ''snk'' then Some NsSink
      else if p = ''qa'' then Some NsQuality
      else if p = ''ctl'' then Some NsControl
      else if p = ''code'' then Some NsCode
      else None)"

definition namespace_all :: "namespace list" where
  "namespace_all = [NsSource, NsTransform, NsSink, NsQuality, NsControl, NsCode]"

datatype property_type =
    PtText | PtPath | PtSql | PtCode | PtBool | PtInteger | PtNumber
  | PtStringList | PtMap | PtEnum

definition is_string :: "json \<Rightarrow> bool" where
  "is_string v \<longleftrightarrow> (case v of JString _ \<Rightarrow> True | _ \<Rightarrow> False)"

definition property_accepts :: "property_type \<Rightarrow> json \<Rightarrow> bool" where
  "property_accepts t v \<longleftrightarrow>
     (if t \<in> {PtText, PtPath, PtSql, PtCode, PtEnum} then is_string v
      else case t of
        PtBool \<Rightarrow> (case v of JBool _ \<Rightarrow> True | _ \<Rightarrow> False)
      | PtInteger \<Rightarrow> (case v of JInt i \<Rightarrow> - (2 ^ 63) \<le> i \<and> i < 2 ^ 64 | _ \<Rightarrow> False)
      | PtNumber \<Rightarrow> (case v of JInt _ \<Rightarrow> True | JFloat _ \<Rightarrow> True | _ \<Rightarrow> False)
      | PtStringList \<Rightarrow> (case v of JArray items \<Rightarrow> list_all is_string items | _ \<Rightarrow> False)
      | PtMap \<Rightarrow> (case v of JObject pairs \<Rightarrow> list_all (\<lambda>(_, w). is_string w) pairs | _ \<Rightarrow> False)
      | _ \<Rightarrow> False)"

definition property_expectation :: "property_type \<Rightarrow> str" where
  "property_expectation t = (case t of
     PtText \<Rightarrow> ''must be text'' | PtPath \<Rightarrow> ''must be text'' | PtSql \<Rightarrow> ''must be text''
   | PtCode \<Rightarrow> ''must be text''
   | PtEnum \<Rightarrow> ''must be one of the listed values''
   | PtBool \<Rightarrow> ''must be true or false''
   | PtInteger \<Rightarrow> ''must be a whole number''
   | PtNumber \<Rightarrow> ''must be a number''
   | PtStringList \<Rightarrow> ''must be a list of names''
   | PtMap \<Rightarrow> ''must be a set of name/value pairs'')"

definition ascii_upper :: "char \<Rightarrow> char" where
  "ascii_upper c = (if is_ascii_lower c then char_of (code c - 32 :: nat) else c)"

text \<open>
  The first character in upper case: a character is its bytes in UTF-8, and the upper case is that of
  Unicode for ASCII and for Latin-1, where the sharp s becomes two letters; a character beyond is kept.
\<close>

definition upper_first :: "str \<Rightarrow> str" where
  "upper_first w = (case w of
     [] \<Rightarrow> []
   | [c] \<Rightarrow> [ascii_upper c]
   | c # d # rest \<Rightarrow>
       if c = CHR 0xC3 \<and> d = CHR 0x9F then ''SS'' @ rest
       else if c = CHR 0xC3 \<and> d = CHR 0xBF then CHR 0xC5 # CHR 0xB8 # rest
       else if c = CHR 0xC3 \<and> 0xA0 \<le> code d \<and> code d \<noteq> 0xB7 then c # char_of (code d - 32 :: nat) # rest
       else if c = CHR 0xC2 \<and> d = CHR 0xB5 then CHR 0xCE # CHR 0x9C # rest
       else ascii_upper c # d # rest)"

definition title_case :: "str \<Rightarrow> str" where
  "title_case name =
     join_with '' '' (map upper_first
       (filter (\<lambda>w. w \<noteq> []) (split_on (\<lambda>c. c = CHR ''_'' \<or> c = CHR ''-'') name)))"

record property_spec =
  pp_name :: str
  pp_label :: str
  pp_type :: property_type
  pp_required :: bool
  pp_default :: "json option"
  pp_help :: "str option"
  pp_options :: "str list"

definition property_new :: "str \<Rightarrow> property_type \<Rightarrow> property_spec" where
  "property_new name t = \<lparr> pp_name = name, pp_label = title_case name, pp_type = t,
     pp_required = False, pp_default = None, pp_help = None, pp_options = [] \<rparr>"

definition prop_text :: "str \<Rightarrow> property_spec" where "prop_text name = property_new name PtText"

definition prop_path :: "str \<Rightarrow> property_spec" where "prop_path name = property_new name PtPath"

definition prop_sql :: "str \<Rightarrow> property_spec" where "prop_sql name = property_new name PtSql"

definition prop_code :: "str \<Rightarrow> property_spec" where "prop_code name = property_new name PtCode"

definition prop_boolean :: "str \<Rightarrow> property_spec" where "prop_boolean name = property_new name PtBool"

definition prop_integer :: "str \<Rightarrow> property_spec" where "prop_integer name = property_new name PtInteger"

definition prop_number :: "str \<Rightarrow> property_spec" where "prop_number name = property_new name PtNumber"

definition prop_string_list :: "str \<Rightarrow> property_spec" where "prop_string_list name = property_new name PtStringList"

definition prop_map :: "str \<Rightarrow> property_spec" where "prop_map name = property_new name PtMap"

definition prop_enumerated :: "str \<Rightarrow> str list \<Rightarrow> property_spec" where
  "prop_enumerated name options = (property_new name PtEnum)\<lparr> pp_options := options \<rparr>"

definition prop_required :: "property_spec \<Rightarrow> property_spec" where
  "prop_required p = p\<lparr> pp_required := True \<rparr>"

definition prop_label :: "str \<Rightarrow> property_spec \<Rightarrow> property_spec" where
  "prop_label label p = p\<lparr> pp_label := label \<rparr>"

definition prop_default :: "json \<Rightarrow> property_spec \<Rightarrow> property_spec" where
  "prop_default v p = p\<lparr> pp_default := Some v \<rparr>"

definition prop_help :: "str \<Rightarrow> property_spec \<Rightarrow> property_spec" where
  "prop_help help p = p\<lparr> pp_help := Some help \<rparr>"

datatype control_kind =
  CkWait | CkLog | CkFail | CkBranch | CkSequence | CkAssert

definition gates_downstream :: "control_kind \<Rightarrow> bool" where
  "gates_downstream k \<longleftrightarrow> k = CkBranch"

record port_spec =
  po_name :: str
  po_label :: str
  po_help :: "str option"

definition port_new :: "str \<Rightarrow> port_spec" where
  "port_new name = \<lparr> po_name = name, po_label = title_case name, po_help = None \<rparr>"

definition port_help :: "str \<Rightarrow> port_spec \<Rightarrow> port_spec" where
  "port_help help p = p\<lparr> po_help := Some help \<rparr>"

definition REJECTED_PORT :: str where
  "REJECTED_PORT = ''rejected''"

definition MAIN_PORT :: str where
  "MAIN_PORT = ''main''"

definition port_main :: port_spec where
  "port_main = port_new ''main''"

definition port_input :: port_spec where
  "port_input = port_new ''in''"

definition port_rejected :: port_spec where
  "port_rejected = (port_new REJECTED_PORT)\<lparr> po_help := Some ''Rows that did not pass the check.'' \<rparr>"

record component_spec =
  cs_id :: str
  cs_namespace :: namespace
  cs_label :: str
  cs_description :: "str option"
  cs_icon :: "str option"
  cs_inputs :: "port_spec list"
  cs_outputs :: "port_spec list"
  cs_properties :: "property_spec list"
  cs_control :: "control_kind option"
  cs_requires_extensions :: "str list"

text \<open>\<^verbatim>\<open>ComponentSpec::new\<close> panics on an id of no known namespace: \<open>None\<close> here.\<close>

definition component_new :: "str \<Rightarrow> str \<Rightarrow> component_spec option" where
  "component_new ident label =
     map_option (\<lambda>ns.
       (case (case ns of
                NsSource \<Rightarrow> ([], [port_main])
              | NsSink \<Rightarrow> ([port_input], [])
              | NsControl \<Rightarrow> ([port_input], [port_main])
              | NsQuality \<Rightarrow> ([port_input], [port_main, port_rejected])
              | _ \<Rightarrow> ([port_input], [port_main])) of
          (ins, outs) \<Rightarrow>
            \<lparr> cs_id = ident, cs_namespace = ns, cs_label = label, cs_description = None, cs_icon = None,
              cs_inputs = ins, cs_outputs = outs, cs_properties = [], cs_control = None,
              cs_requires_extensions = [] \<rparr>))
       (namespace_from_prefix (hd (split_on (\<lambda>c. c = CHR ''.'') ident)))"

definition spec_control :: "control_kind \<Rightarrow> component_spec \<Rightarrow> component_spec" where
  "spec_control kind c = c\<lparr> cs_control := Some kind \<rparr>"

definition spec_description :: "str \<Rightarrow> component_spec \<Rightarrow> component_spec" where
  "spec_description description c = c\<lparr> cs_description := Some description \<rparr>"

definition spec_icon :: "str \<Rightarrow> component_spec \<Rightarrow> component_spec" where
  "spec_icon icon c = c\<lparr> cs_icon := Some icon \<rparr>"

definition spec_inputs :: "port_spec list \<Rightarrow> component_spec \<Rightarrow> component_spec" where
  "spec_inputs inputs c = c\<lparr> cs_inputs := inputs \<rparr>"

definition spec_outputs :: "port_spec list \<Rightarrow> component_spec \<Rightarrow> component_spec" where
  "spec_outputs outputs c = c\<lparr> cs_outputs := outputs \<rparr>"

definition spec_properties :: "property_spec list \<Rightarrow> component_spec \<Rightarrow> component_spec" where
  "spec_properties properties c = c\<lparr> cs_properties := properties \<rparr>"

definition requires_extension :: "str \<Rightarrow> component_spec \<Rightarrow> component_spec" where
  "requires_extension ext c =
     (if ext \<in> set (cs_requires_extensions c) then c
      else c\<lparr> cs_requires_extensions := cs_requires_extensions c @ [ext] \<rparr>)"

definition component_property :: "component_spec \<Rightarrow> str \<Rightarrow> property_spec option" where
  "component_property c name = find (\<lambda>p. pp_name p = name) (cs_properties c)"

definition input_count :: "component_spec \<Rightarrow> nat" where
  "input_count c = length (cs_inputs c)"

definition has_output :: "component_spec \<Rightarrow> str option \<Rightarrow> bool" where
  "has_output c handle =
     (let wanted = (case handle of Some h \<Rightarrow> h | None \<Rightarrow> MAIN_PORT)
      in list_ex (\<lambda>p. po_name p = wanted) (cs_outputs c))"

definition output_names :: "component_spec \<Rightarrow> str list" where
  "output_names c = map po_name (cs_outputs c)"

definition has_reject_port :: "component_spec \<Rightarrow> bool" where
  "has_reject_port c \<longleftrightarrow> has_output c (Some REJECTED_PORT)"

definition component_needs_session :: "component_spec \<Rightarrow> bool" where
  "component_needs_session c \<longleftrightarrow> cs_control c \<noteq> None"

section \<open>Namespaces and ports\<close>

lemma namespace_roundtrip [simp]: "namespace_from_prefix (namespace_prefix n) = Some n"
  by (cases n) (simp_all add: namespace_from_prefix_def namespace_prefix_def)

lemma namespace_from_prefix_Some: "namespace_from_prefix p = Some n \<Longrightarrow> p = namespace_prefix n"
  by (auto simp: namespace_from_prefix_def namespace_prefix_def split: if_splits)

text \<open>
  A new component's ports follow its namespace: only a source has no input, only a sink no
  output, and only a quality component a port for rejected rows; an edge that names no port leaves
  by \<^verbatim>\<open>main\<close>.
\<close>

lemma component_new_ports:
  assumes "component_new ident label = Some c"
  shows "(cs_inputs c = [] \<longleftrightarrow> cs_namespace c = NsSource)
    \<and> (cs_outputs c = [] \<longleftrightarrow> cs_namespace c = NsSink)
    \<and> (has_reject_port c \<longleftrightarrow> cs_namespace c = NsQuality)
    \<and> (has_output c None \<longleftrightarrow> cs_namespace c \<noteq> NsSink)
    \<and> hd (split_on (\<lambda>ch. ch = CHR ''.'') ident) = namespace_prefix (cs_namespace c)"
proof -
  obtain ns where ns: "namespace_from_prefix (hd (split_on (\<lambda>ch. ch = CHR ''.'') ident)) = Some ns"
    using assms by (auto simp: component_new_def)
  note defs = has_reject_port_def has_output_def REJECTED_PORT_def MAIN_PORT_def
    port_main_def port_input_def port_rejected_def port_new_def
  show ?thesis
    using assms namespace_from_prefix_Some [OF ns]
    by (cases ns) (auto simp: component_new_def ns defs)
qed

lemma component_new_ports_witness:
  "\<exists>c. component_new ''qa.not_null'' ''Not null'' = Some c \<and> has_reject_port c"
proof -
  have "split_on (\<lambda>ch. ch = CHR ''.'') ''qa.not_null'' = [''qa'', ''not_null'']" by code_simp
  then obtain c where c: "component_new ''qa.not_null'' ''Not null'' = Some c" "cs_namespace c = NsQuality"
    by (simp add: component_new_def namespace_from_prefix_def)
  from component_new_ports [OF c(1)] c show ?thesis by blast
qed

section \<open>What the builder methods leave alone\<close>

lemmas prop_steps = prop_text_def prop_path_def prop_sql_def prop_code_def prop_boolean_def
  prop_integer_def prop_number_def prop_string_list_def prop_map_def prop_enumerated_def
  prop_required_def prop_label_def prop_default_def prop_help_def property_new_def

lemmas spec_steps = spec_control_def spec_description_def spec_icon_def spec_inputs_def
  spec_outputs_def spec_properties_def requires_extension_def

lemma requires_extension_distinct:
  "distinct (cs_requires_extensions c) \<Longrightarrow> distinct (cs_requires_extensions (requires_extension e c))"
  by (simp add: requires_extension_def)

text \<open>The extensions of a component are a set: adding one twice changes nothing.\<close>

lemma requires_extension_idem: "requires_extension e (requires_extension e c) = requires_extension e c"
  by (simp add: requires_extension_def)

end
