(* ===== verification/Pipeline_Doc.thy ===== *)
theory Pipeline_Doc
  imports Component_Spec
begin

text \<open>
  The pipeline document: \<^verbatim>\<open>crates/metadata/src/lib.rs\<close>, and the JSON schema generated for it from
  the component specs, \<^verbatim>\<open>crates/metadata/src/schema.rs\<close>. A coordinate, which is a float the engine
  carries and never computes with, is the text it prints as.
\<close>

section \<open>Columns\<close>

datatype data_type =
    DtString | DtInt32 | DtInt64 | DtFloat32 | DtFloat64 | DtBool | DtDate | DtTimestamp | DtTime
  | DtDecimal | DtJson | DtBinary | DtGeometry

definition data_type_name :: "data_type \<Rightarrow> str" where
  "data_type_name t = (case t of
     DtString \<Rightarrow> ''string'' | DtInt32 \<Rightarrow> ''int32'' | DtInt64 \<Rightarrow> ''int64'' | DtFloat32 \<Rightarrow> ''float32''
   | DtFloat64 \<Rightarrow> ''float64'' | DtBool \<Rightarrow> ''bool'' | DtDate \<Rightarrow> ''date'' | DtTimestamp \<Rightarrow> ''timestamp''
   | DtTime \<Rightarrow> ''time'' | DtDecimal \<Rightarrow> ''decimal'' | DtJson \<Rightarrow> ''json'' | DtBinary \<Rightarrow> ''binary''
   | DtGeometry \<Rightarrow> ''geometry'')"

record column =
  col_name :: str
  col_type :: data_type
  col_nullable :: bool
  col_primary_key :: "bool option"
  col_format :: "str option"
  col_classification :: "str option"
  col_extra :: "(str, json) om"

section \<open>The graph\<close>

record incremental =
  inc_column :: str
  inc_start :: "str option"
  inc_extra :: "(str, json) om"

record node_policy =
  np_retry_attempts :: "nat option"
  np_retry_backoff_ms :: "nat option"
  np_continue_on_failure :: "bool option"
  np_memory_limit_mb :: "nat option"

definition node_policy_default :: node_policy where
  "node_policy_default = \<lparr> np_retry_attempts = None, np_retry_backoff_ms = None,
     np_continue_on_failure = None, np_memory_limit_mb = None \<rparr>"

definition policy_is_default :: "node_policy \<Rightarrow> bool" where
  "policy_is_default p \<longleftrightarrow> p = node_policy_default"

record node_data =
  nd_label :: str
  nd_subtitle :: "str option"
  nd_component_id :: "str option"
  nd_properties :: "json option"
  nd_schema :: "column list option"
  nd_sample_rows :: "json list option"
  nd_disabled :: "bool option"
  nd_materialize :: "str option"
  nd_alias :: "str option"
  nd_policy :: "node_policy option"
  nd_incremental :: "incremental option"
  nd_extra :: "(str, json) om"

definition is_disabled :: "node_data \<Rightarrow> bool" where
  "is_disabled d = (case nd_disabled d of Some b \<Rightarrow> b | None \<Rightarrow> False)"

definition properties_or_null :: "node_data \<Rightarrow> json" where
  "properties_or_null d = (case nd_properties d of Some p \<Rightarrow> p | None \<Rightarrow> JNull)"

record pipeline_node =
  pn_id :: str
  pn_flow_type :: "str option"
  pn_position :: "str \<times> str"
  pn_data :: node_data
  pn_extra :: "(str, json) om"

record edge_data =
  ed_connection_type :: "str option"
  ed_label :: "str option"
  ed_condition :: "str option"
  ed_extra :: "(str, json) om"

record pipeline_edge =
  pe_id :: str
  pe_source :: str
  pe_target :: str
  pe_source_handle :: "str option"
  pe_target_handle :: "str option"
  pe_edge_type :: "str option"
  pe_data :: "edge_data option"
  pe_extra :: "(str, json) om"

record parameter_spec =
  pa_type :: "str option"
  pa_required :: "bool option"
  pa_default :: "json option"
  pa_description :: "str option"
  pa_extra :: "(str, json) om"

record pipeline_doc =
  doc_format_version :: nat
  doc_name :: "str option"
  doc_nodes :: "pipeline_node list"
  doc_edges :: "pipeline_edge list"
  doc_resource_pool :: str
  doc_parameters :: "(str, parameter_spec) om"
  doc_extra :: "(str, json) om"

definition doc_node :: "pipeline_doc \<Rightarrow> str \<Rightarrow> pipeline_node option" where
  "doc_node d ident = find (\<lambda>n. pn_id n = ident) (doc_nodes d)"

definition enabled_nodes :: "pipeline_doc \<Rightarrow> pipeline_node list" where
  "enabled_nodes d = filter (\<lambda>n. \<not> is_disabled (pn_data n)) (doc_nodes d)"

section \<open>The schema\<close>

text \<open>\<^verbatim>\<open>Map::insert\<close> of an insertion-ordered JSON object: a key that is there keeps its place.\<close>

fun obj_insert :: "str \<Rightarrow> json \<Rightarrow> (str \<times> json) list \<Rightarrow> (str \<times> json) list" where
  "obj_insert k v [] = [(k, v)]"
| "obj_insert k v ((k', v') # fs) = (if k = k' then (k, v) # fs else (k', v') # obj_insert k v fs)"

definition REFERENCE_PATTERN :: str where
  "REFERENCE_PATTERN = ''^'' @ [CHR 0x5C] @ ''$'' @ [CHR 0x5C] @ ''{[^}]+'' @ [CHR 0x5C] @ ''}$''"

definition flow_type :: "namespace \<Rightarrow> str" where
  "flow_type n = (case n of NsSource \<Rightarrow> ''source'' | NsSink \<Rightarrow> ''sink'' | _ \<Rightarrow> ''transform'')"

definition type_of :: "str \<Rightarrow> json" where
  "type_of t = JObject [(''type'', JString t)]"

definition strings :: "str list \<Rightarrow> json" where
  "strings ws = JArray (map JString ws)"

definition nonempty_string :: json where
  "nonempty_string = JObject [(''type'', JString ''string''), (''minLength'', JInt 1)]"

definition ref_to :: "str \<Rightarrow> json" where
  "ref_to key = JObject [(''$ref'', JString (''#/$defs/'' @ key))]"

definition reference_schema :: json where
  "reference_schema = JObject [(''type'', JString ''string''), (''pattern'', JString REFERENCE_PATTERN)]"

definition any_of :: "json list \<Rightarrow> (str \<times> json) list" where
  "any_of alternatives = [(''anyOf'', JArray alternatives)]"

definition property_schema :: "property_spec \<Rightarrow> json" where
  "property_schema p =
     (let fs0 = (case pp_type p of
            PtText \<Rightarrow> [(''type'', JString ''string'')]
          | PtPath \<Rightarrow> [(''type'', JString ''string'')]
          | PtSql \<Rightarrow> [(''type'', JString ''string'')]
          | PtCode \<Rightarrow> [(''type'', JString ''string'')]
          | PtEnum \<Rightarrow> any_of [JObject [(''enum'', strings (pp_options p))], reference_schema]
          | PtBool \<Rightarrow> any_of [type_of ''boolean'', reference_schema]
          | PtInteger \<Rightarrow> any_of [type_of ''integer'', reference_schema]
          | PtNumber \<Rightarrow> any_of [type_of ''number'', reference_schema]
          | PtStringList \<Rightarrow> any_of
              [JObject [(''type'', JString ''array''), (''items'', type_of ''string'')], reference_schema]
          | PtMap \<Rightarrow> [(''type'', JString ''object''), (''additionalProperties'', type_of ''string'')]);
          fs1 = (case pp_help p of Some h \<Rightarrow> obj_insert ''description'' (JString h) fs0 | None \<Rightarrow> fs0);
          fs2 = (case pp_default p of Some d \<Rightarrow> obj_insert ''default'' d fs1 | None \<Rightarrow> fs1)
      in JObject fs2)"

definition closed_object :: "(str \<times> json) list \<Rightarrow> (str \<times> json) list \<Rightarrow> json" where
  "closed_object before fs =
     JObject (before @ [(''properties'', JObject fs), (''additionalProperties'', JBool False)])"

definition node_required :: "component_spec \<Rightarrow> str list" where
  "node_required c =
     map pp_name (filter (\<lambda>p. pp_required p \<and> pp_default p = None) (cs_properties c))"

definition node_properties :: "component_spec \<Rightarrow> (str \<times> json) list" where
  "node_properties c = foldl (\<lambda>fs p. obj_insert (pp_name p) (property_schema p) fs) [] (cs_properties c)"

definition node_schema :: "component_spec \<Rightarrow> json" where
  "node_schema c =
     (let required = node_required c;
          data_required = [''label'', ''componentId''] @ (if required \<noteq> [] then [''properties''] else []);
          description = cs_label c @ (case cs_description c of Some d \<Rightarrow> '': '' @ d | None \<Rightarrow> [])
      in closed_object
           [(''description'', JString description), (''type'', JString ''object''),
            (''required'', strings [''id'', ''type'', ''position'', ''data''])]
           [(''id'', nonempty_string),
            (''type'', JObject [(''const'', JString (flow_type (cs_namespace c)))]),
            (''position'', ref_to ''position''),
            (''data'', closed_object
               [(''type'', JString ''object''), (''required'', strings data_required)]
               [(''label'', type_of ''string''), (''subtitle'', type_of ''string''),
                (''componentId'', JObject [(''const'', JString (cs_id c))]),
                (''properties'', closed_object
                   [(''type'', JString ''object''), (''required'', strings required)] (node_properties c)),
                (''alias'', type_of ''string''), (''disabled'', type_of ''boolean''),
                (''materialize'', JObject [(''enum'', strings [''auto'', ''view'', ''memory'', ''disk''])]),
                (''policy'', ref_to ''policy''), (''incremental'', ref_to ''incremental'')])])"

definition position_schema :: json where
  "position_schema = closed_object
     [(''type'', JString ''object''), (''required'', strings [''x'', ''y''])]
     [(''x'', type_of ''number''), (''y'', type_of ''number'')]"

definition edge_schema :: json where
  "edge_schema = closed_object
     [(''description'', JString (''From one node's output handle (sourceHandle, usually '' @ [CHR 0x22]
        @ ''main'' @ [CHR 0x22] @ '') to another's input handle (targetHandle, usually '' @ [CHR 0x22]
        @ ''in'' @ [CHR 0x22] @ '').'')),
      (''type'', JString ''object''), (''required'', strings [''id'', ''source'', ''target''])]
     [(''id'', nonempty_string), (''source'', nonempty_string), (''target'', nonempty_string),
      (''sourceHandle'', type_of ''string''), (''targetHandle'', type_of ''string'')]"

definition at_least :: "int \<Rightarrow> json" where
  "at_least n = JObject [(''type'', JString ''integer''), (''minimum'', JInt n)]"

definition policy_schema :: json where
  "policy_schema = closed_object [(''type'', JString ''object'')]
     [(''retryAttempts'', at_least 0), (''retryBackoffMs'', at_least 0),
      (''continueOnFailure'', type_of ''boolean''), (''memoryLimitMb'', at_least 1)]"

definition incremental_schema :: json where
  "incremental_schema = closed_object
     [(''description'', JString
         ''Load only rows whose column is above the last successful run's highest.''),
      (''type'', JString ''object''), (''required'', strings [''column''])]
     [(''column'', type_of ''string''), (''start'', type_of ''string'')]"

definition parameter_schema :: json where
  "parameter_schema = closed_object [(''type'', JString ''object'')]
     [(''type'', JObject [(''enum'', strings [''string'', ''number'', ''integer'', ''boolean''])]),
      (''required'', type_of ''boolean''), (''default'', JObject []), (''description'', type_of ''string'')]"

definition schema_defs :: "component_spec list \<Rightarrow> (str \<times> json) list" where
  "schema_defs specs =
     obj_insert ''parameter'' parameter_schema (obj_insert ''incremental'' incremental_schema
       (obj_insert ''policy'' policy_schema (obj_insert ''edge'' edge_schema
         (obj_insert ''position'' position_schema
           (foldl (\<lambda>fs c. obj_insert (''node.'' @ cs_id c) (node_schema c) fs) [] specs)))))"

definition pipeline_schema :: "component_spec list \<Rightarrow> json" where
  "pipeline_schema specs =
     JObject
       [(''$schema'', JString ''https://json-schema.org/draft/2020-12/schema''),
        (''title'', JString ''etl pipeline document''),
        (''description'', JString (''A pipeline: nodes, each running one component, wired by edges ''
           @ ''from an output handle to an input handle. formatVersion is 1.'')),
        (''type'', JString ''object''),
        (''required'', strings [''formatVersion'', ''nodes'', ''edges'']),
        (''properties'', JObject
           [(''formatVersion'', JObject [(''const'', JInt 1)]),
            (''name'', nonempty_string),
            (''resourcePool'', type_of ''string''),
            (''nodes'', JObject [(''type'', JString ''array''), (''minItems'', JInt 1),
               (''items'', JObject (any_of (map (\<lambda>c. ref_to (''node.'' @ cs_id c)) specs)))]),
            (''edges'', JObject [(''type'', JString ''array''), (''items'', ref_to ''edge'')]),
            (''parameters'', JObject [(''type'', JString ''object''),
               (''additionalProperties'', ref_to ''parameter'')])]),
        (''additionalProperties'', JBool False),
        (''$defs'', JObject (schema_defs specs))]"

section \<open>What the schema says\<close>

lemma map_of_obj_insert [simp]:
  "map_of (obj_insert k v fs) j = (if j = k then Some v else map_of fs j)"
  by (induction k v fs rule: obj_insert.induct) auto

lemma map_of_obj_inserts:
  "map_of (foldl (\<lambda>fs c. obj_insert (key c) (val c) fs) fs0 cs) j
     = (case find (\<lambda>c. key c = j) (rev cs) of Some c \<Rightarrow> Some (val c) | None \<Rightarrow> map_of fs0 j)"
proof (induction cs rule: rev_induct)
  case (snoc c cs)
  then show ?case by (auto split: option.split)
qed simp

lemma find_unique:
  "distinct (map key cs) \<Longrightarrow> c \<in> set cs \<Longrightarrow> find (\<lambda>x. key x = key c) (rev cs) = Some c"
proof (induction cs rule: rev_induct)
  case (snoc x cs)
  then show ?case by (auto simp: image_iff)
qed simp

lemma node_key_not_fixed:
  "''node.'' @ t \<noteq> ''parameter''" "''node.'' @ t \<noteq> ''incremental''" "''node.'' @ t \<noteq> ''policy''"
  "''node.'' @ t \<noteq> ''edge''" "''node.'' @ t \<noteq> ''position''"
  by simp_all

text \<open>
  The generated schema ties a node to one component: every component of the registry has its own
  definition, under a name the node list refers to, and a property is required of the writer exactly
  when the component requires it and gives it no default.
\<close>

lemma schema_describes_components:
  assumes "distinct (map cs_id specs)" "c \<in> set specs"
  shows "Option.bind (json_get (pipeline_schema specs) ''$defs'') (\<lambda>d. json_get d (''node.'' @ cs_id c))
      = Some (node_schema c)
    \<and> set (node_required c) = {pp_name p | p. p \<in> set (cs_properties c) \<and> pp_required p \<and> pp_default p = None}"
proof -
  have "distinct (map (\<lambda>c. ''node.'' @ cs_id c) specs)"
    using assms(1) by (simp add: distinct_map inj_on_def)
  from find_unique [OF this assms(2)]
  have "map_of (schema_defs specs) (''node.'' @ cs_id c) = Some (node_schema c)"
    by (simp add: schema_defs_def map_of_obj_inserts)
  then have "Option.bind (json_get (pipeline_schema specs) ''$defs'') (\<lambda>d. json_get d (''node.'' @ cs_id c))
      = Some (node_schema c)"
    by (simp add: json_get_def pipeline_schema_def)
  moreover have "set (node_required c) = {pp_name p | p. p \<in> set (cs_properties c) \<and> pp_required p \<and> pp_default p = None}"
    by (auto simp: node_required_def)
  ultimately show ?thesis ..
qed

lemma schema_describes_components_witness:
  "\<exists>c. component_new ''src.file.csv'' ''CSV file'' = Some c
     \<and> Option.bind (json_get (pipeline_schema [c]) ''$defs'') (\<lambda>d. json_get d ''node.src.file.csv'') = Some (node_schema c)"
proof -
  have "split_on (\<lambda>ch. ch = CHR ''.'') ''src.file.csv'' = [''src'', ''file'', ''csv'']" by code_simp
  then obtain c where c: "component_new ''src.file.csv'' ''CSV file'' = Some c" "cs_id c = ''src.file.csv''"
    by (simp add: component_new_def namespace_from_prefix_def)
  with schema_describes_components [of "[c]" c] show ?thesis by auto
qed

end
