(* ===== verification/Plan_Graph.thy ===== *)
theory Plan_Graph
  imports Pipeline_Doc
begin

text \<open>
  The graph half of the compiler: \<^verbatim>\<open>build_index\<close>, \<^verbatim>\<open>resolve_edges\<close>, \<^verbatim>\<open>drop_disabled\<close> and
  \<^verbatim>\<open>topological_order\<close> of \<^verbatim>\<open>crates/duckdb-engine/src/plan/mod.rs\<close>, and the errors of
  \<^verbatim>\<open>crates/duckdb-engine/src/lib.rs\<close>. Nodes are positions in the document. The min-heap of Kahn's
  algorithm is the sorted list of its elements. Both loops are proved to end by a measure; the
  guards \<open>t < length deg\<close> and \<open>0 < deg ! t\<close> stand where the source indexes and subtracts, and
  never fail on a resolved document.
\<close>

section \<open>Errors\<close>

datatype engine_error =
    EmptyPipeline
  | DuplicateNodeId str
  | UnknownEdgeEndpoint str str
  | SelfEdge str str
  | MissingComponentId str
  | UnknownNamespace str str str
  | CycleError "str list"
  | MissingProperty str str str
  | InvalidProperty str str str
  | UnsupportedComponent str str
  | RawInstall str
  | WrongInputCount str str nat nat
  | UnknownPort str str str "str list"
  | ReservedNodeId str str

definition error_node_id :: "engine_error \<Rightarrow> str option" where
  "error_node_id e = (case e of
     DuplicateNodeId i \<Rightarrow> Some i
   | MissingComponentId i \<Rightarrow> Some i
   | UnknownNamespace i _ _ \<Rightarrow> Some i
   | MissingProperty i _ _ \<Rightarrow> Some i
   | InvalidProperty i _ _ \<Rightarrow> Some i
   | UnsupportedComponent i _ \<Rightarrow> Some i
   | RawInstall i \<Rightarrow> Some i
   | WrongInputCount i _ _ _ \<Rightarrow> Some i
   | UnknownPort i _ _ _ \<Rightarrow> Some i
   | ReservedNodeId i _ \<Rightarrow> Some i
   | UnknownEdgeEndpoint _ i \<Rightarrow> Some i
   | SelfEdge _ i \<Rightarrow> Some i
   | CycleError ids \<Rightarrow> (case ids of [] \<Rightarrow> None | i # _ \<Rightarrow> Some i)
   | EmptyPipeline \<Rightarrow> None)"

datatype stage_kind = StSource | StTransform | StSink | StQuality | StControl

definition stage_kind_of :: "str \<Rightarrow> str \<Rightarrow> engine_error + stage_kind" where
  "stage_kind_of node_id component_id =
     (let ns = hd (split_on (\<lambda>c. c = CHR ''.'') component_id)
      in if ns = ''src'' then Inr StSource
         else if ns = ''xf'' \<or> ns = ''code'' then Inr StTransform
         else if ns = ''snk'' then Inr StSink
         else if ns = ''qa'' then Inr StQuality
         else if ns = ''ctl'' then Inr StControl
         else Inl (UnknownNamespace node_id component_id ns))"

definition produces_relation :: "stage_kind \<Rightarrow> bool" where
  "produces_relation k \<longleftrightarrow> k \<noteq> StSink"

section \<open>The code\<close>

fun build_index :: "nat \<Rightarrow> (str \<times> nat) list \<Rightarrow> pipeline_node list \<Rightarrow> engine_error + (str \<times> nat) list" where
  "build_index pos index [] = Inr index"
| "build_index pos index (n # ns) =
     (if map_of index (pn_id n) \<noteq> None then Inl (DuplicateNodeId (pn_id n))
      else build_index (Suc pos) ((pn_id n, pos) # index) ns)"

definition classify :: "pipeline_node list \<Rightarrow> engine_error + stage_kind list" where
  "classify nodes = traverse (\<lambda>n.
     case nd_component_id (pn_data n) of
       None \<Rightarrow> Inl (MissingComponentId (pn_id n))
     | Some c \<Rightarrow> stage_kind_of (pn_id n) c) nodes"

record resolved_edge =
  re_source :: nat
  re_target :: nat
  re_source_handle :: "str option"
  re_target_handle :: "str option"

definition resolve_edge :: "(str \<times> nat) list \<Rightarrow> pipeline_edge \<Rightarrow> engine_error + resolved_edge" where
  "resolve_edge index e =
     and_then (ok_or (UnknownEdgeEndpoint (pe_id e) (pe_source e)) (map_of index (pe_source e))) (\<lambda>src.
     and_then (ok_or (UnknownEdgeEndpoint (pe_id e) (pe_target e)) (map_of index (pe_target e))) (\<lambda>tgt.
       if src = tgt then Inl (SelfEdge (pe_id e) (pe_source e))
       else Inr \<lparr> re_source = src, re_target = tgt,
                  re_source_handle = pe_source_handle e, re_target_handle = pe_target_handle e \<rparr>))"

definition resolve_edges :: "pipeline_doc \<Rightarrow> (str \<times> nat) list \<Rightarrow> engine_error + resolved_edge list" where
  "resolve_edges d index = traverse (resolve_edge index) (doc_edges d)"

datatype plan_warning =
    DisabledSkipped str
  | DroppedDownstreamOfDisabled str str
  | Orphan str
  | UnknownProperty str str
  | UnknownMaterialize str str
  | NoSink
  | IncrementalIgnored str str

definition id_at :: "pipeline_doc \<Rightarrow> nat \<Rightarrow> str" where
  "id_at d p = pn_id (doc_nodes d ! p)"

fun drop_edges :: "pipeline_doc \<Rightarrow> nat \<Rightarrow> resolved_edge list \<Rightarrow> bool list
    \<Rightarrow> bool list \<times> nat list \<times> plan_warning list" where
  "drop_edges d current [] dropped = (dropped, [], [])"
| "drop_edges d current (e # es) dropped =
     (let t = re_target e
      in if re_source e = current \<and> t < length dropped \<and> \<not> dropped ! t then
           (case drop_edges d current es (dropped[t := True]) of
              (dropped', pushed, ws) \<Rightarrow>
                (dropped', t # pushed, DroppedDownstreamOfDisabled (id_at d t) (id_at d current) # ws))
         else drop_edges d current es dropped)"

definition undropped :: "bool list \<Rightarrow> nat" where
  "undropped dropped = length (filter Not dropped)"

lemma undropped_update:
  "t < length dropped \<Longrightarrow> \<not> dropped ! t \<Longrightarrow> Suc (undropped (dropped[t := True])) = undropped dropped"
proof (induction dropped arbitrary: t)
  case (Cons b dropped)
  then show ?case by (cases t) (auto simp: undropped_def)
qed simp

lemma drop_edges_count:
  "drop_edges d c es dropped = (dropped', pushed, ws) \<Longrightarrow>
     undropped dropped' + length pushed = undropped dropped"
proof (induction es arbitrary: dropped dropped' pushed ws)
  case (Cons e es)
  show ?case
  proof (cases "re_source e = c \<and> re_target e < length dropped \<and> \<not> dropped ! re_target e")
    case True
    obtain dr p w where r: "drop_edges d c es (dropped[re_target e := True]) = (dr, p, w)"
      by (metis prod_cases3)
    with Cons.prems True have "dropped' = dr" "pushed = re_target e # p" by (auto simp: Let_def)
    with Cons.IH [OF r] undropped_update [of "re_target e" dropped] True show ?thesis by simp
  next
    case False
    with Cons.prems have "drop_edges d c es dropped = (dropped', pushed, ws)" by (auto simp: Let_def)
    then show ?thesis by (rule Cons.IH)
  qed
qed simp

function drop_loop :: "pipeline_doc \<Rightarrow> resolved_edge list \<Rightarrow> bool list \<Rightarrow> nat list
    \<Rightarrow> bool list \<times> plan_warning list" where
  "drop_loop d es dropped [] = (dropped, [])"
| "drop_loop d es dropped (current # queue) =
     (case drop_edges d current es dropped of (dropped', pushed, ws) \<Rightarrow>
      case drop_loop d es dropped' (queue @ pushed) of (dropped'', ws') \<Rightarrow> (dropped'', ws @ ws'))"
  by pat_completeness auto
termination
  by (relation "measure (\<lambda>(d, es, dropped, queue). undropped dropped + length queue)")
     (auto dest!: sym [of "(_, _, _)"] drop_edges_count)

definition disabled_positions :: "pipeline_doc \<Rightarrow> nat list" where
  "disabled_positions d =
     filter (\<lambda>p. is_disabled (pn_data (doc_nodes d ! p))) [0..<length (doc_nodes d)]"

definition drop_disabled :: "pipeline_doc \<Rightarrow> resolved_edge list \<Rightarrow> bool list \<times> plan_warning list" where
  "drop_disabled d es =
     (let off = disabled_positions d;
          dropped = map (\<lambda>n. is_disabled (pn_data n)) (doc_nodes d)
      in case drop_loop d es dropped off of
           (dropped', ws) \<Rightarrow> (dropped', map (\<lambda>p. DisabledSkipped (id_at d p)) off @ ws))"

definition live_edges :: "bool list \<Rightarrow> resolved_edge list \<Rightarrow> resolved_edge list" where
  "live_edges dropped es = filter (\<lambda>e. \<not> dropped ! re_source e \<and> \<not> dropped ! re_target e) es"

definition in_degrees :: "nat \<Rightarrow> resolved_edge list \<Rightarrow> nat list" where
  "in_degrees n live = map (\<lambda>v. length (filter (\<lambda>e. re_target e = v) live)) [0..<n]"

fun relax :: "nat \<Rightarrow> resolved_edge list \<Rightarrow> nat list \<Rightarrow> nat list \<Rightarrow> nat list \<times> nat list" where
  "relax current [] deg ready = (deg, ready)"
| "relax current (e # es) deg ready =
     (let t = re_target e
      in if re_source e = current \<and> t < length deg \<and> 0 < deg ! t then
           (let deg' = deg[t := deg ! t - 1]
            in relax current es deg' (if deg' ! t = 0 then insort t ready else ready))
         else relax current es deg ready)"

lemma sum_list_decrement:
  "t < length xs \<Longrightarrow> 0 < xs ! t \<Longrightarrow> Suc (sum_list (xs[t := xs ! t - 1])) = sum_list (xs :: nat list)"
proof (induction xs arbitrary: t)
  case (Cons x xs)
  then show ?case by (cases t) auto
qed simp

lemma relax_measure:
  "relax c es deg ready = (deg', ready') \<Longrightarrow>
     sum_list deg' + length ready' \<le> sum_list deg + length ready"
proof (induction es arbitrary: deg ready)
  case (Cons e es)
  show ?case
  proof (cases "re_source e = c \<and> re_target e < length deg \<and> 0 < deg ! re_target e")
    case True
    let ?t = "re_target e"
    have "relax c es (deg[?t := deg ! ?t - 1])
        (if deg[?t := deg ! ?t - 1] ! ?t = 0 then insort ?t ready else ready) = (deg', ready')"
      using Cons.prems True by (simp add: Let_def)
    from Cons.IH [OF this] sum_list_decrement [of ?t deg] True show ?thesis
      by (auto split: if_splits)
  next
    case False
    with Cons.prems have "relax c es deg ready = (deg', ready')" by (auto simp: Let_def)
    then show ?thesis by (rule Cons.IH)
  qed
qed simp

function kahn :: "resolved_edge list \<Rightarrow> nat list \<Rightarrow> nat list \<Rightarrow> nat list \<Rightarrow> nat list" where
  "kahn live deg [] order = order"
| "kahn live deg (current # ready) order =
     (case relax current live deg ready of (deg', ready') \<Rightarrow> kahn live deg' ready' (order @ [current]))"
  by pat_completeness auto
termination
  by (relation "measure (\<lambda>(live, deg, ready, order). sum_list deg + length ready)")
     (auto dest!: sym [of "(_, _)"] relax_measure)

definition topological_order ::
  "pipeline_doc \<Rightarrow> resolved_edge list \<Rightarrow> bool list \<Rightarrow> engine_error + nat list" where
  "topological_order d es dropped =
     (let n = length (doc_nodes d);
          live = live_edges dropped es;
          deg = in_degrees n live;
          ready = filter (\<lambda>p. \<not> dropped ! p \<and> deg ! p = 0) [0..<n];
          expected = length (filter (\<lambda>p. \<not> dropped ! p) [0..<n]);
          order = kahn live deg ready []
      in if length order \<noteq> expected
         then Inl (CycleError (map (id_at d) (filter (\<lambda>p. \<not> dropped ! p \<and> p \<notin> set order) [0..<n])))
         else Inr order)"

end
