(* ===== verification/Sql_Text.thy ===== *)
theory Sql_Text
  imports Etl_Prelude
begin

text \<open>
  Quoting, and the refusal of \<^verbatim>\<open>INSTALL\<close>: \<^verbatim>\<open>crates/duckdb-engine/src/sql.rs\<close>. The scanner of the
  source moves an index over the bytes; here it takes the rest of the text. A byte of a character
  outside ASCII matches none of its cases, as the character does here.
\<close>

section \<open>The code\<close>

definition double_char :: "char \<Rightarrow> str \<Rightarrow> str" where
  "double_char q s = concat (map (\<lambda>c. if c = q then [q, c] else [c]) s)"

definition quote_identifier :: "str \<Rightarrow> str" where
  "quote_identifier name = [CHR 0x22] @ double_char (CHR 0x22) name @ [CHR 0x22]"

definition quote_literal :: "str \<Rightarrow> str" where
  "quote_literal v = [CHR 0x27] @ double_char (CHR 0x27) v @ [CHR 0x27]"

definition quote_path :: "str \<Rightarrow> str" where
  "quote_path path = quote_literal (map (\<lambda>c. if c = CHR 0x5C then CHR ''/'' else c) path)"

definition is_word_char :: "char \<Rightarrow> bool" where
  "is_word_char c \<longleftrightarrow> is_ascii_alphanumeric c \<or> c = CHR ''_''"

definition is_word_start :: "char \<Rightarrow> bool" where
  "is_word_start c \<longleftrightarrow> is_ascii_alphabetic c \<or> c = CHR ''_''"

definition dollar_tag :: "str \<Rightarrow> nat option" where
  "dollar_tag s =
     (let tag = takeWhile is_word_char (tl s)
      in if starts_with (drop (1 + length tag) s) ''$'' then Some (2 + length tag) else None)"

fun skip_to :: "str \<Rightarrow> str \<Rightarrow> str" where
  "skip_to tag [] = []"
| "skip_to tag (c # s) = (if starts_with (c # s) tag then c # s else skip_to tag s)"

lemma skip_to_length: "length (skip_to tag s) \<le> length s"
  by (induction s) auto

lemma dollar_tag_pos: "dollar_tag s = Some n \<Longrightarrow> 0 < n"
  by (auto simp: dollar_tag_def Let_def split: if_splits)

lemma dropWhile_less:
  "length (dropWhile p s) < Suc (length s)" "length (dropWhile p s) - k < Suc (length s)"
  using length_dropWhile_le [of p s] by linarith+

lemma skip_to_less: "length (skip_to tag (drop m s)) - k < Suc (length s)"
  using skip_to_length [of tag "drop m s"] by simp

lemma skip_tag_less:
  assumes "dollar_tag (c # s) = Some n"
  shows "length (skip_to tag (drop n (c # s))) - k < Suc (length s)"
  using skip_to_length [of tag "drop n (c # s)"] dollar_tag_pos [OF assms] by simp

function (sequential) contains_install :: "str \<Rightarrow> bool" where
  "contains_install [] = False"
| "contains_install (c # s) =
     (if c = CHR 0x27 then contains_install (drop 1 (dropWhile (\<lambda>d. d \<noteq> CHR 0x27) s))
      else if c = CHR 0x22 then contains_install (drop 1 (dropWhile (\<lambda>d. d \<noteq> CHR 0x22) s))
      else if c = CHR ''$'' then
        (case dollar_tag (c # s) of
           Some n \<Rightarrow> contains_install (drop n (skip_to (take n (c # s)) (drop n (c # s))))
         | None \<Rightarrow> contains_install s)
      else if c = CHR ''-'' \<and> starts_with s ''-'' then contains_install (dropWhile (\<lambda>d. d \<noteq> CHR 0x0A) s)
      else if c = CHR ''/'' \<and> starts_with s ''*'' then
        contains_install (drop 2 (skip_to ''*/'' (drop 1 s)))
      else if is_word_start c then
        (if eq_ignore_ascii_case (takeWhile is_word_char (c # s)) ''install'' then True
         else contains_install (dropWhile is_word_char s))
      else contains_install s)"
  by pat_completeness auto
termination
  by (relation "measure length") (auto simp: dropWhile_less skip_to_less skip_tag_less simp del: drop_Suc_Cons)

section \<open>Quoting\<close>

text \<open>
  How the database reads a quoted token, the quote doubled inside it: the value and what follows.
  This is the reference the quoting is measured against.
\<close>

fun read_quoted :: "char \<Rightarrow> str \<Rightarrow> (str \<times> str) option" where
  "read_quoted q [] = None"
| "read_quoted q (c # s) =
     (if c \<noteq> q then map_option (\<lambda>(v, r). (c # v, r)) (read_quoted q s)
      else case s of
             d # s' \<Rightarrow> if d = q then map_option (\<lambda>(v, r). (q # v, r)) (read_quoted q s') else Some ([], s)
           | [] \<Rightarrow> Some ([], []))"

lemma read_quoted_double:
  "rest = [] \<or> hd rest \<noteq> q \<Longrightarrow> read_quoted q (double_char q v @ q # rest) = Some (v, rest)"
  by (induction v) (auto simp: double_char_def split: list.split)

text \<open>
  C38: Quoted text is one token, whatever it holds: reading it back gives the text and leaves exactly
  what was written after it, so no value can close its literal and no name its identifier.
\<close>

theorem quoting_is_one_token:
  assumes "rest = [] \<or> (hd rest \<noteq> CHR 0x27 \<and> hd rest \<noteq> CHR 0x22)"
  shows "read_quoted (CHR 0x27) (tl (quote_literal v @ rest)) = Some (v, rest)
    \<and> read_quoted (CHR 0x22) (tl (quote_identifier v @ rest)) = Some (v, rest)"
  using assms read_quoted_double [of rest "CHR 0x27" v] read_quoted_double [of rest "CHR 0x22" v]
  by (auto simp: quote_literal_def quote_identifier_def)

theorem quoting_is_one_token_witness:
  "read_quoted (CHR 0x27) (tl (quote_literal [CHR ''x'', CHR 0x27, CHR '';''] @ '' AS y''))
     = Some ([CHR ''x'', CHR 0x27, CHR '';''], '' AS y'')"
  using quoting_is_one_token [of "'' AS y''" "[CHR ''x'', CHR 0x27, CHR '';'']"] by simp

section \<open>The scanner\<close>

text \<open>
  SQL text put together from its tokens: words, literals, quoted names, comments, and single
  characters that start none of these.
\<close>

datatype sql_piece =
    SqlWord str
  | SqlLiteral str
  | SqlName str
  | SqlLineComment str
  | SqlBlockComment str
  | SqlOther char

fun render_piece :: "sql_piece \<Rightarrow> str" where
  "render_piece (SqlWord w) = w"
| "render_piece (SqlLiteral v) = quote_literal v"
| "render_piece (SqlName n) = quote_identifier n"
| "render_piece (SqlLineComment t) = ''--'' @ t @ [CHR 0x0A]"
| "render_piece (SqlBlockComment t) = ''/*'' @ t @ ''*/''"
| "render_piece (SqlOther c) = [c]"

definition plain_char :: "char \<Rightarrow> bool" where
  "plain_char c \<longleftrightarrow> \<not> is_word_start c \<and> c \<notin> {CHR 0x27, CHR 0x22, CHR ''$'', CHR ''-'', CHR ''/''}"

fun piece_ok :: "sql_piece \<Rightarrow> bool" where
  "piece_ok (SqlWord w) \<longleftrightarrow> w \<noteq> [] \<and> is_word_start (hd w) \<and> list_all is_word_char w"
| "piece_ok (SqlLineComment t) \<longleftrightarrow> CHR 0x0A \<notin> set t"
| "piece_ok (SqlBlockComment t) \<longleftrightarrow> CHR ''*'' \<notin> set t"
| "piece_ok (SqlOther c) \<longleftrightarrow> plain_char c"
| "piece_ok _ \<longleftrightarrow> True"

fun render :: "sql_piece list \<Rightarrow> str" where
  "render [] = []"
| "render (p # ps) = render_piece p @ render ps"

text \<open>A word must not run into what follows it.\<close>

fun pieces_ok :: "sql_piece list \<Rightarrow> bool" where
  "pieces_ok [] \<longleftrightarrow> True"
| "pieces_ok (SqlWord w # ps) \<longleftrightarrow> piece_ok (SqlWord w) \<and> pieces_ok ps
     \<and> (render ps = [] \<or> \<not> is_word_char (hd (render ps)))"
| "pieces_ok (p # ps) \<longleftrightarrow> piece_ok p \<and> pieces_ok ps"

lemma skip_doubled:
  "contains_install (drop 1 (dropWhile (\<lambda>d. d \<noteq> q) (double_char q v @ q # rest)))
     = contains_install rest"
  if "q = CHR 0x27 \<or> q = CHR 0x22"
  using that by (induction v) (auto simp: double_char_def)

lemma word_chars:
  "is_word_start c \<Longrightarrow> c \<noteq> CHR 0x27 \<and> c \<noteq> CHR 0x22 \<and> c \<noteq> CHR ''$'' \<and> c \<noteq> CHR ''-'' \<and> c \<noteq> CHR ''/''"
  by (auto simp: is_word_start_def is_ascii_alphabetic_def is_ascii_lower_def is_ascii_upper_def)

lemma skip_to_block: "CHR ''*'' \<notin> set t \<Longrightarrow> skip_to ''*/'' (t @ ''*/'' @ rest) = ''*/'' @ rest"
  by (induction t) (auto simp: starts_with_def)

lemma contains_install_word:
  assumes "w \<noteq> []" "is_word_start (hd w)" "list_all is_word_char w" "rest = [] \<or> \<not> is_word_char (hd rest)"
  shows "contains_install (w @ rest) \<longleftrightarrow> eq_ignore_ascii_case w ''install'' \<or> contains_install rest"
proof -
  obtain c cs where w: "w = c # cs" using assms(1) by (cases w) auto
  have all: "list_all is_word_char cs" "is_word_char c" using assms(3) by (simp_all add: w)
  have "takeWhile is_word_char (c # cs @ rest) = c # cs" "dropWhile is_word_char (cs @ rest) = rest"
    using all assms(4) by (cases rest; simp add: list_all_iff takeWhile_append dropWhile_append)+
  with assms(2) word_chars [of c] show ?thesis by (simp add: w)
qed

text \<open>
  On text made of such tokens the scanner finds an \<^verbatim>\<open>INSTALL\<close>, in any case of letters, exactly when
  it is a word of its own: never inside a literal, a quoted name or a comment.
\<close>

lemma contains_install_iff:
  assumes "pieces_ok ps"
  shows "contains_install (render ps) \<longleftrightarrow> (\<exists>w. SqlWord w \<in> set ps \<and> eq_ignore_ascii_case w ''install'')"
  using assms
proof (induction ps)
  case (Cons p ps)
  have ok: "piece_ok p" "pieces_ok ps" using Cons.prems by (cases p; simp)+
  show ?case
  proof (cases p)
    case (SqlWord w)
    with Cons.prems have "render ps = [] \<or> \<not> is_word_char (hd (render ps))" by simp
    with contains_install_word [of w "render ps"] ok Cons.IH SqlWord show ?thesis by auto
  next
    case (SqlLiteral v)
    then show ?thesis
      using skip_doubled [of "CHR 0x27" v "render ps"] ok Cons.IH by (simp add: quote_literal_def)
  next
    case (SqlName v)
    then show ?thesis
      using skip_doubled [of "CHR 0x22" v "render ps"] ok Cons.IH by (simp add: quote_identifier_def)
  next
    case (SqlLineComment t)
    then have "CHR 0x0A \<notin> set t" using ok(1) by simp
    then have "dropWhile (\<lambda>d. d \<noteq> CHR 0x0A) (t @ CHR 0x0A # render ps) = CHR 0x0A # render ps"
      by (induction t) auto
    then show ?thesis using SqlLineComment ok Cons.IH by (simp add: starts_with_def is_word_start_def char_class_defs)
  next
    case (SqlBlockComment t)
    then show ?thesis using skip_to_block [of t "render ps"] ok Cons.IH by (simp add: starts_with_def)
  next
    case (SqlOther c)
    then show ?thesis using ok Cons.IH by (simp add: plain_char_def)
  qed
qed simp

lemma contains_install_iff_witness:
  "contains_install (render [SqlWord ''Install'', SqlOther (CHR '' ''), SqlName ''httpfs''])
   \<and> \<not> contains_install (render [SqlWord ''SELECT'', SqlOther (CHR '' ''), SqlLiteral ''INSTALL x''])"
proof -
  have "eq_ignore_ascii_case ''Install'' ''install''" "\<not> eq_ignore_ascii_case ''SELECT'' ''install''"
    by code_simp+
  moreover have "pieces_ok [SqlWord ''Install'', SqlOther (CHR '' ''), SqlName ''httpfs'']"
    "pieces_ok [SqlWord ''SELECT'', SqlOther (CHR '' ''), SqlLiteral ''INSTALL x'']"
    by code_simp+
  ultimately show ?thesis
    using contains_install_iff [of "[SqlWord ''Install'', SqlOther (CHR '' ''), SqlName ''httpfs'']"]
      contains_install_iff [of "[SqlWord ''SELECT'', SqlOther (CHR '' ''), SqlLiteral ''INSTALL x'']"]
    by auto
qed

text \<open>
  The scanner does not know escape strings: in \<^verbatim>\<open>E'..'\<close> a backslash escapes the quote, so the
  statement after this literal is one the database runs and the scanner takes for text.
\<close>

lemma escape_string_hides_install:
  "\<not> contains_install (''SELECT E'' @ [CHR 0x27, CHR 0x5C, CHR 0x27, CHR 0x27] @ ''; INSTALL httpfs; --'' @ [CHR 0x27])"
  by code_simp

end
