(* ===== verification/Plan_Types.thy ===== *)
theory Plan_Types
  imports Plan_Graph Sql_Text
begin

text \<open>
  The parts of a compiled stage, from \<^verbatim>\<open>crates/duckdb-engine/src/plan/mod.rs\<close>: how its relation is
  realised, its inputs, its policy with the document's defaults filled in, its control half, the
  probes that count its rows, and the check of a node's properties against its component's spec
  from \<^verbatim>\<open>plan/specs.rs\<close>. A 64-bit count saturates at \<open>2 ^ 64 - 1\<close>, as in the source.
\<close>

section \<open>How a stage is realised\<close>

datatype materialize = MatAuto | MatView | MatMemory | MatDisk

definition materialize_parse :: "str \<Rightarrow> materialize option" where
  "materialize_parse token =
     (let t = trim token
      in if t = ''auto'' then Some MatAuto
         else if t = ''view'' then Some MatView
         else if t = ''memory'' then Some MatMemory
         else if t = ''disk'' then Some MatDisk
         else None)"

definition materialize_name :: "materialize \<Rightarrow> str" where
  "materialize_name m = (case m of
     MatAuto \<Rightarrow> ''auto'' | MatView \<Rightarrow> ''view'' | MatMemory \<Rightarrow> ''memory'' | MatDisk \<Rightarrow> ''disk'')"

definition is_materialised :: "materialize \<Rightarrow> bool" where
  "is_materialised m \<longleftrightarrow> m = MatMemory \<or> m = MatDisk"

definition SPILL_DIR :: str where "SPILL_DIR = ''.etl/tmp''"

definition NATIVE_DIR :: str where "NATIVE_DIR = ''.etl/tmp/native''"

text \<open>The text before and after the first occurrence of a separator, as \<^verbatim>\<open>split_once\<close> on text.\<close>

fun split_once_str :: "str \<Rightarrow> str \<Rightarrow> (str \<times> str) option" where
  "split_once_str sep [] = (if sep = [] then Some ([], []) else None)"
| "split_once_str sep (c # s) =
     (if starts_with (c # s) sep then Some ([], drop (length sep) (c # s))
      else map_option (\<lambda>(a, b). (c # a, b)) (split_once_str sep s))"

definition url_for_lineage :: "str \<Rightarrow> str" where
  "url_for_lineage url =
     (let without_query = hd (split_on (\<lambda>c. c = CHR ''?'' \<or> c = CHR ''#'') url)
      in case split_once_str ''://'' without_query of
           Some (scheme, rest) \<Rightarrow>
             (let authority = takeWhile (\<lambda>c. c \<noteq> CHR ''/'') rest;
                  path = dropWhile (\<lambda>c. c \<noteq> CHR ''/'') rest;
                  host = last (split_on (\<lambda>c. c = CHR 0x40) authority)
              in scheme @ ''://'' @ host @ path)
         | None \<Rightarrow> without_query)"

section \<open>Inputs\<close>

datatype direction = Ingest | Egress | DirTransform

record native_step =
  ns_direction :: direction
  ns_properties :: json
  ns_staging :: str
  ns_checkpoint :: "json option"
  ns_input :: "str option"
  ns_feed :: "str option"

definition native_is_transform :: "native_step \<Rightarrow> bool" where
  "native_is_transform s \<longleftrightarrow> ns_direction s = DirTransform"

definition REJECT_SUFFIX :: str where "REJECT_SUFFIX = ''__rejected''"

definition reject_relation :: "str \<Rightarrow> str" where
  "reject_relation node_id = node_id @ REJECT_SUFFIX"

record input =
  in_node_id :: str
  in_source_handle :: "str option"
  in_target_handle :: "str option"

definition input_relation :: "input \<Rightarrow> str" where
  "input_relation i =
     (if in_source_handle i = Some REJECTED_PORT then reject_relation (in_node_id i) else in_node_id i)"

definition input_is_rejected :: "input \<Rightarrow> bool" where
  "input_is_rejected i \<longleftrightarrow> in_source_handle i = Some REJECTED_PORT"

section \<open>Policy\<close>

definition U64_MAX :: nat where "U64_MAX = 2 ^ 64 - 1"

record stage_policy =
  sp_retry_attempts :: nat
  sp_retry_backoff_ms :: nat
  sp_continue_on_failure :: bool
  sp_memory_limit_mb :: "nat option"

definition DEFAULT_RETRY_BACKOFF_MS :: nat where "DEFAULT_RETRY_BACKOFF_MS = 250"

definition stage_policy_default :: stage_policy where
  "stage_policy_default = \<lparr> sp_retry_attempts = 0, sp_retry_backoff_ms = 0,
     sp_continue_on_failure = False, sp_memory_limit_mb = None \<rparr>"

definition policy_from_node :: "node_policy option \<Rightarrow> stage_policy" where
  "policy_from_node p = (case p of
     None \<Rightarrow> stage_policy_default
   | Some policy \<Rightarrow>
       (let retry_attempts = (case np_retry_attempts policy of Some n \<Rightarrow> n | None \<Rightarrow> 0)
        in \<lparr> sp_retry_attempts = retry_attempts,
             sp_retry_backoff_ms = (case np_retry_backoff_ms policy of
                 Some ms \<Rightarrow> ms
               | None \<Rightarrow> if 0 < retry_attempts then DEFAULT_RETRY_BACKOFF_MS else 0),
             sp_continue_on_failure = (case np_continue_on_failure policy of Some b \<Rightarrow> b | None \<Rightarrow> False),
             sp_memory_limit_mb = np_memory_limit_mb policy \<rparr>))"

definition policy_needs_session :: "stage_policy \<Rightarrow> bool" where
  "policy_needs_session p \<longleftrightarrow>
     0 < sp_retry_attempts p \<or> sp_continue_on_failure p \<or> sp_memory_limit_mb p \<noteq> None"

definition backoff_for :: "stage_policy \<Rightarrow> nat \<Rightarrow> nat" where
  "backoff_for p attempt = min U64_MAX (sp_retry_backoff_ms p * 2 ^ min (attempt - 1) 16)"

section \<open>Control and counting\<close>

record control =
  ct_kind :: control_kind
  ct_probe :: "str option"
  ct_message :: "str option"
  ct_wait_ms :: "nat option"

record count_probe =
  cp_sql :: str
  cp_port :: "str option"

definition probe_is_rejected :: "count_probe \<Rightarrow> bool" where
  "probe_is_rejected p \<longleftrightarrow> cp_port p = Some REJECTED_PORT"

record stage_incremental =
  si_column :: str
  si_since :: "str option"
  si_probe :: str

record stage =
  st_node_id :: str
  st_component_id :: str
  st_label :: str
  st_kind :: stage_kind
  st_splits :: bool
  st_sql :: str
  st_counts :: "count_probe list"
  st_inputs :: "input list"
  st_from :: "str option"
  st_alias :: "str option"
  st_sink_path :: "str option"
  st_sink_mode :: "str option"
  st_materialize :: materialize
  st_spill_path :: "str option"
  st_requires_extensions :: "str list"
  st_policy :: stage_policy
  st_control :: "control option"
  st_incremental :: "stage_incremental option"
  st_external :: "str option"
  st_native :: "native_step option"

definition runs_native_transform :: "stage \<Rightarrow> bool" where
  "runs_native_transform s \<longleftrightarrow> (case st_native s of Some n \<Rightarrow> native_is_transform n | None \<Rightarrow> False)"

definition work_happens_here :: "stage \<Rightarrow> bool" where
  "work_happens_here s \<longleftrightarrow>
     st_kind s = StSink \<or> st_kind s = StControl \<or> is_materialised (st_materialize s) \<or>
     runs_native_transform s"

definition stage_needs_session :: "stage \<Rightarrow> bool" where
  "stage_needs_session s \<longleftrightarrow>
     st_control s \<noteq> None \<or> policy_needs_session (st_policy s) \<or> runs_native_transform s"

definition reject_relation_name :: "stage \<Rightarrow> str option" where
  "reject_relation_name s = (if st_splits s then Some (reject_relation (st_node_id s)) else None)"

section \<open>Checking properties\<close>

record unknown_property =
  up_node_id :: str
  up_property :: str

definition check_value :: "str \<Rightarrow> property_spec \<Rightarrow> json \<Rightarrow> engine_error + unit" where
  "check_value node_id p v =
     (if \<not> property_accepts (pp_type p) v
      then Inl (InvalidProperty node_id (pp_name p) (property_expectation (pp_type p)))
      else case json_as_str v of
             None \<Rightarrow> Inr ()
           | Some t \<Rightarrow>
               if pp_required p \<and> trim t = []
               then Inl (InvalidProperty node_id (pp_name p) ''must not be empty'')
               else if pp_options p \<noteq> [] \<and> t \<notin> set (pp_options p)
               then Inl (InvalidProperty node_id (pp_name p)
                      (''must be one of: '' @ join_with '', '' (pp_options p)))
               else Inr ())"

fun resolve_specs :: "str \<Rightarrow> component_spec \<Rightarrow> (str \<times> json) list \<Rightarrow> property_spec list
    \<Rightarrow> (str \<times> json) list \<Rightarrow> engine_error + (str \<times> json) list" where
  "resolve_specs node_id spec supplied [] resolved = Inr resolved"
| "resolve_specs node_id spec supplied (p # ps) resolved =
     (case map_of supplied (pp_name p) of
        Some v \<Rightarrow>
          if v = JNull then
            (case pp_default p of
               Some d \<Rightarrow> resolve_specs node_id spec supplied ps (obj_insert (pp_name p) d resolved)
             | None \<Rightarrow>
                 if pp_required p then Inl (MissingProperty node_id (cs_id spec) (pp_name p))
                 else resolve_specs node_id spec supplied ps resolved)
          else and_then (check_value node_id p v) (\<lambda>_.
            resolve_specs node_id spec supplied ps (obj_insert (pp_name p) v resolved))
      | None \<Rightarrow>
          (case pp_default p of
             Some d \<Rightarrow> resolve_specs node_id spec supplied ps (obj_insert (pp_name p) d resolved)
           | None \<Rightarrow>
               if pp_required p then Inl (MissingProperty node_id (cs_id spec) (pp_name p))
               else resolve_specs node_id spec supplied ps resolved))"

fun carry_through :: "(str \<times> json) list \<Rightarrow> (str \<times> json) list \<Rightarrow> (str \<times> json) list" where
  "carry_through [] resolved = resolved"
| "carry_through ((k, v) # rest) resolved =
     carry_through rest (if map_of resolved k = None then resolved @ [(k, v)] else resolved)"

definition resolve_properties ::
  "str \<Rightarrow> component_spec \<Rightarrow> json \<Rightarrow> engine_error + json \<times> unknown_property list" where
  "resolve_properties node_id spec properties =
     and_then (case properties of
         JObject fs \<Rightarrow> Inr fs
       | JNull \<Rightarrow> Inr []
       | _ \<Rightarrow> Inl (InvalidProperty node_id ''properties'' ''must be an object'')) (\<lambda>supplied.
     let unknown = map (\<lambda>(k, _). \<lparr> up_node_id = node_id, up_property = k \<rparr>)
           (filter (\<lambda>(k, _). component_property spec k = None) supplied)
     in and_then (resolve_specs node_id spec supplied (cs_properties spec) []) (\<lambda>resolved.
        Inr (JObject (carry_through supplied resolved), unknown)))"

definition check_input_count :: "str \<Rightarrow> component_spec \<Rightarrow> nat \<Rightarrow> engine_error + unit" where
  "check_input_count node_id spec actual =
     (if input_count spec = actual then Inr ()
      else Inl (WrongInputCount node_id (cs_id spec) (input_count spec) actual))"

end
