(* ===== verification/Builder_Kit.thy ===== *)
theory Builder_Kit
  imports Plan_Types
begin

text \<open>
  What the SQL builders share, from \<^verbatim>\<open>crates/duckdb-engine/src/plan/builders.rs\<close>: the node being
  lowered, access to its checked properties, its inputs, and the shapes of statement a builder
  ends in. A native component is the record of what its trait object answers
  (\<^verbatim>\<open>crates/plugin-sdk/src/lib.rs\<close>); the table of them is an argument of the definitions that
  consult it.
\<close>

abbreviation QT :: str where "QT \<equiv> [CHR 0x27]"

abbreviation NL :: str where "NL \<equiv> [CHR 0x0A]"

abbreviation BACKSLASH :: str where "BACKSLASH \<equiv> [CHR 0x5C]"

section \<open>Native components\<close>

datatype connector_error =
    PropertyError str str
  | DataError str
  | IoFailure str str
  | StagingError str

fun connector_error_text :: "connector_error \<Rightarrow> str" where
  "connector_error_text (PropertyError p reason) = ''property '' @ QT @ p @ QT @ '': '' @ reason"
| "connector_error_text (DataError t) = t"
| "connector_error_text (IoFailure path cause) = path @ '': '' @ cause"
| "connector_error_text (StagingError t) = ''staging: '' @ t"

record native_component =
  nc_spec :: component_spec
  nc_check :: "json \<Rightarrow> connector_error + unit"
  nc_reads :: "json \<Rightarrow> str list"
  nc_adds :: "json \<Rightarrow> (str \<times> str) list"
  nc_portable :: "json \<Rightarrow> bool"

datatype connector =
    ConnSource native_component
  | ConnSink native_component
  | ConnTransform native_component

fun connector_component :: "connector \<Rightarrow> native_component" where
  "connector_component (ConnSource n) = n"
| "connector_component (ConnSink n) = n"
| "connector_component (ConnTransform n) = n"

definition connector_spec :: "connector \<Rightarrow> component_spec" where
  "connector_spec c = nc_spec (connector_component c)"

definition connector_check :: "connector \<Rightarrow> json \<Rightarrow> connector_error + unit" where
  "connector_check c = nc_check (connector_component c)"

type_synonym connectors = "str \<Rightarrow> connector option"

definition ROW_KEY :: str where "ROW_KEY = ''__etl_row''"

section \<open>The node being lowered\<close>

record incremental_filter =
  fi_column :: str
  fi_since :: "str option"

record lowering =
  lo_node_id :: str
  lo_component_id :: str
  lo_properties :: json
  lo_inputs :: "input list"
  lo_alias :: "str option"
  lo_materialize :: materialize
  lo_spill_path :: "str option"
  lo_staging :: "str option"
  lo_incremental :: "incremental_filter option"

type_synonym build = "lowering \<Rightarrow> engine_error + str"

definition invalid :: "lowering \<Rightarrow> str \<Rightarrow> str \<Rightarrow> engine_error" where
  "invalid node key reason = InvalidProperty (lo_node_id node) key reason"

definition missing :: "lowering \<Rightarrow> str \<Rightarrow> engine_error" where
  "missing node key = MissingProperty (lo_node_id node) (lo_component_id node) key"

definition trim_end_matches :: "(char \<Rightarrow> bool) \<Rightarrow> str \<Rightarrow> str" where
  "trim_end_matches p s = rev (dropWhile p (rev s))"

definition show_bool :: "bool \<Rightarrow> str" where
  "show_bool b = (if b then ''true'' else ''false'')"

section \<open>Property access\<close>

definition required_str :: "lowering \<Rightarrow> str \<Rightarrow> engine_error + str" where
  "required_str node key = (case json_get (lo_properties node) key of
     Some v \<Rightarrow>
       (case v of
          JString s \<Rightarrow> if trim s \<noteq> [] then Inr s else Inl (invalid node key ''must not be empty'')
        | _ \<Rightarrow> Inl (invalid node key ''must be text''))
   | None \<Rightarrow> Inl (missing node key))"

definition resolved_str :: "lowering \<Rightarrow> str \<Rightarrow> engine_error + str" where
  "resolved_str = required_str"

definition optional_str :: "lowering \<Rightarrow> str \<Rightarrow> engine_error + str option" where
  "optional_str node key = (case json_get (lo_properties node) key of
     None \<Rightarrow> Inr None
   | Some v \<Rightarrow>
       (case v of
          JNull \<Rightarrow> Inr None
        | JString s \<Rightarrow> Inr (Some s)
        | _ \<Rightarrow> Inl (invalid node key ''must be text'')))"

definition optional_bool :: "lowering \<Rightarrow> str \<Rightarrow> engine_error + bool option" where
  "optional_bool node key = (case json_get (lo_properties node) key of
     None \<Rightarrow> Inr None
   | Some v \<Rightarrow>
       (case v of
          JNull \<Rightarrow> Inr None
        | JBool b \<Rightarrow> Inr (Some b)
        | _ \<Rightarrow> Inl (invalid node key ''must be true or false'')))"

definition resolved_bool :: "lowering \<Rightarrow> str \<Rightarrow> engine_error + bool" where
  "resolved_bool node key = and_then (optional_bool node key) (ok_or (missing node key))"

definition optional_array :: "lowering \<Rightarrow> str \<Rightarrow> engine_error + json list option" where
  "optional_array node key = (case json_get (lo_properties node) key of
     None \<Rightarrow> Inr None
   | Some v \<Rightarrow>
       (case v of
          JNull \<Rightarrow> Inr None
        | JArray vs \<Rightarrow> Inr (Some vs)
        | _ \<Rightarrow> Inl (invalid node key ''must be a list'')))"

definition required_array :: "lowering \<Rightarrow> str \<Rightarrow> engine_error + json list" where
  "required_array node key = and_then (optional_array node key) (ok_or (missing node key))"

definition non_negative :: "lowering \<Rightarrow> str \<Rightarrow> engine_error + int" where
  "non_negative node key =
     and_then (case json_get (lo_properties node) key of
         None \<Rightarrow> Inl (missing node key)
       | Some v \<Rightarrow>
           (case v of
              JNull \<Rightarrow> Inl (missing node key)
            | JInt i \<Rightarrow> Inr (if - (2 ^ 63) \<le> i \<and> i < 2 ^ 63 then Some i else None)
            | _ \<Rightarrow> Inr None)) (\<lambda>value.
     case value of
       Some i \<Rightarrow> if 0 \<le> i then Inr i else Inl (invalid node key ''must not be negative'')
     | None \<Rightarrow> Inl (invalid node key ''must be a whole number''))"

definition non_empty_map :: "lowering \<Rightarrow> str \<Rightarrow> engine_error + (str \<times> json) list" where
  "non_empty_map node key =
     and_then (case json_get (lo_properties node) key of
         None \<Rightarrow> Inl (missing node key)
       | Some v \<Rightarrow>
           (case v of
              JObject pairs \<Rightarrow> Inr pairs
            | JNull \<Rightarrow> Inl (missing node key)
            | _ \<Rightarrow> Inl (invalid node key ''must be a set of name/value pairs''))) (\<lambda>pairs.
     if pairs = [] then Inl (invalid node key ''must name at least one column'') else Inr pairs)"

definition map_entries :: "lowering \<Rightarrow> str \<Rightarrow> (str \<times> json) list
    \<Rightarrow> (str \<Rightarrow> str \<Rightarrow> engine_error + str) \<Rightarrow> engine_error + str list" where
  "map_entries node key pairs render_entry =
     traverse (\<lambda>(name, value).
       and_then (ok_or (invalid node key (''the value for '' @ QT @ name @ QT @ '' must be text''))
         (json_as_str value)) (render_entry name)) pairs"

definition column_list :: "lowering \<Rightarrow> str \<Rightarrow> json list \<Rightarrow> engine_error + str list" where
  "column_list node key values =
     (if values = [] then Inl (invalid node key ''must name at least one column'')
      else traverse (\<lambda>v. ok_or (invalid node key ''every entry must be a column name'')
             (map_option quote_identifier (json_as_str v))) values)"

definition optional_column_list :: "lowering \<Rightarrow> str \<Rightarrow> engine_error + str list" where
  "optional_column_list node key = and_then (optional_array node key) (\<lambda>found.
     case found of
       None \<Rightarrow> Inr []
     | Some values \<Rightarrow> if values = [] then Inr [] else column_list node key values)"

definition type_char :: "char \<Rightarrow> bool" where
  "type_char c \<longleftrightarrow> is_ascii_alphanumeric c \<or> c \<in> set '' _,()[]''"

definition type_name :: "lowering \<Rightarrow> str \<Rightarrow> engine_error + str" where
  "type_name node declared =
     (let trimmed = trim declared
      in if trimmed = [] \<or> \<not> list_all type_char trimmed
         then Inl (invalid node ''columns'' (QT @ declared @ QT @ '' is not a SQL type name''))
         else Inr trimmed)"

definition checked_columns :: "lowering \<Rightarrow> str \<Rightarrow> engine_error + str list" where
  "checked_columns node key = and_then (required_array node key) (column_list node key)"

definition checked_values :: "lowering \<Rightarrow> str \<Rightarrow> engine_error + str list" where
  "checked_values node key = and_then (required_array node key) (\<lambda>values.
     if values = [] then Inl (invalid node key ''must list at least one value'')
     else traverse (\<lambda>v. ok_or (invalid node key ''every entry must be text'')
            (map_option quote_literal (json_as_str v))) values)"

definition optional_number :: "lowering \<Rightarrow> str \<Rightarrow> engine_error + str option" where
  "optional_number node key = (case json_get (lo_properties node) key of
     None \<Rightarrow> Inr None
   | Some v \<Rightarrow>
       (case v of
          JNull \<Rightarrow> Inr None
        | JInt _ \<Rightarrow> Inr (Some (json_text v))
        | JFloat _ \<Rightarrow> Inr (Some (json_text v))
        | _ \<Rightarrow> Inl (invalid node key ''must be a number'')))"

section \<open>Inputs\<close>

definition exactly_one_input :: "lowering \<Rightarrow> engine_error + str" where
  "exactly_one_input node = (case lo_inputs node of
     [only] \<Rightarrow> Inr (input_relation only)
   | inputs \<Rightarrow> Inl (WrongInputCount (lo_node_id node) (lo_component_id node) 1 (length inputs)))"

definition side :: "input \<Rightarrow> str" where
  "side i = (case in_target_handle i of Some h \<Rightarrow> h | None \<Rightarrow> [])"

definition exactly_two_inputs :: "lowering \<Rightarrow> engine_error + str \<times> str" where
  "exactly_two_inputs node = (case lo_inputs node of
     [a, b] \<Rightarrow>
       if side b = ''left'' \<or> side a = ''right''
       then Inr (input_relation b, input_relation a)
       else Inr (input_relation a, input_relation b)
   | inputs \<Rightarrow> Inl (WrongInputCount (lo_node_id node) (lo_component_id node) 2 (length inputs)))"

section \<open>Statement shapes\<close>

text \<open>
  A decimal number as \<^verbatim>\<open>f64\<close> parses it, on text of digits, dots and signs: an optional sign, then
  digits with at most one dot among them.
\<close>

definition decimal_text :: "str \<Rightarrow> bool" where
  "decimal_text v =
     (let body = (case v of c # s \<Rightarrow> if c = CHR ''-'' \<or> c = CHR ''+'' then s else v | [] \<Rightarrow> []);
          parts = split_on (\<lambda>c. c = CHR ''.'') body
      in length parts \<le> 2 \<and> list_all (list_all is_ascii_digit) parts \<and> concat parts \<noteq> [])"

definition watermark_literal :: "str \<Rightarrow> str" where
  "watermark_literal v =
     (if v \<noteq> [] \<and> decimal_text v \<and>
         list_all (\<lambda>c. is_ascii_digit c \<or> c = CHR ''.'' \<or> c = CHR ''-'' \<or> c = CHR ''+'') v
      then v else quote_literal v)"

definition watermark_probe :: "str \<Rightarrow> str \<Rightarrow> str" where
  "watermark_probe node_id col =
     ''SELECT max('' @ quote_identifier col @ '') AS w FROM '' @ quote_identifier node_id @ '';''"

definition apply_watermark :: "lowering \<Rightarrow> str \<Rightarrow> str" where
  "apply_watermark node body = (case lo_incremental node of
     None \<Rightarrow> body
   | Some f \<Rightarrow>
       (case fi_since f of
          None \<Rightarrow> body
        | Some since \<Rightarrow> ''SELECT * FROM ('' @ body @ '') WHERE '' @ quote_identifier (fi_column f) @
            '' > '' @ watermark_literal since))"

definition create_view :: "lowering \<Rightarrow> str \<Rightarrow> str" where
  "create_view node body0 =
     (let name = quote_identifier (lo_node_id node);
          body = apply_watermark node body0;
          view = ''CREATE OR REPLACE TEMP VIEW '' @ name @ '' AS ('' @ body @ '');'';
          statement = (case lo_materialize node of
              MatMemory \<Rightarrow> ''CREATE OR REPLACE TEMP TABLE '' @ name @ '' AS ('' @ body @ '');''
            | MatDisk \<Rightarrow>
                (case lo_spill_path node of
                   Some spill \<Rightarrow>
                     ''COPY ('' @ body @ '') TO '' @ quote_path spill @ '' (FORMAT parquet);'' @ NL @
                     ''CREATE OR REPLACE TEMP VIEW '' @ name @ '' AS (SELECT * FROM read_parquet('' @
                     quote_path spill @ ''));''
                 | None \<Rightarrow> view)
            | _ \<Rightarrow> view)
      in case lo_alias node of
           Some alias \<Rightarrow> statement @ NL @ ''CREATE OR REPLACE TEMP VIEW '' @ quote_identifier alias @
             '' AS SELECT * FROM '' @ name @ '';''
         | None \<Rightarrow> statement)"

definition copy_to :: "str \<Rightarrow> str \<Rightarrow> str \<Rightarrow> str" where
  "copy_to upstream path options =
     ''COPY (SELECT * FROM '' @ quote_identifier upstream @ '') TO '' @ quote_path path @
     '' ('' @ options @ '');''"

definition plain_base :: "str \<Rightarrow> str" where
  "plain_base upstream = ''SELECT * FROM '' @ quote_identifier upstream"

definition quality_split :: "lowering \<Rightarrow> str \<Rightarrow> str \<Rightarrow> str list \<Rightarrow> str" where
  "quality_split node base predicate helper_columns =
     (let projection = (if helper_columns = [] then ''*''
            else ''* EXCLUDE ('' @ join_with '', '' (map quote_identifier helper_columns) @ '')'');
          accepted = ''SELECT '' @ projection @ '' FROM ('' @ base @ '') WHERE coalesce('' @ predicate @ '', false)'';
          rejected = ''SELECT '' @ projection @ '' FROM ('' @ base @ '') WHERE NOT coalesce('' @ predicate @ '', false)''
      in create_view node accepted @ NL @ ''CREATE OR REPLACE TEMP VIEW '' @
         quote_identifier (reject_relation (lo_node_id node)) @ '' AS ('' @ rejected @ '');'')"

definition make_probe :: "str \<Rightarrow> str option \<Rightarrow> count_probe" where
  "make_probe relation port =
     \<lparr> cp_sql = ''SELECT count(*) AS n FROM '' @ quote_identifier relation @ '';'', cp_port = port \<rparr>"

definition count_probes :: "str \<Rightarrow> stage_kind \<Rightarrow> bool \<Rightarrow> str option \<Rightarrow> count_probe list" where
  "count_probes node_id kind splits from_rel =
     (case (if produces_relation kind then Some node_id else from_rel) of
        None \<Rightarrow> []
      | Some relation \<Rightarrow>
          make_probe relation (if splits then Some MAIN_PORT else None) #
          (if splits then [make_probe (reject_relation node_id) (Some REJECTED_PORT)] else []))"

end
