(* ===== verification/Reader_Writer_Builders.thy ===== *)
theory Reader_Writer_Builders
  imports Builder_Kit
begin

text \<open>
  The builders of \<^verbatim>\<open>crates/duckdb-engine/src/plan/builders.rs\<close> that read data in and write it out:
  files, spreadsheets, object storage, table formats, databases, and the SQL half of native
  components.
\<close>

section \<open>Files\<close>

definition source_csv :: build where
  "source_csv node =
     and_then (required_str node ''path'') (\<lambda>path.
     and_then (resolved_bool node ''header'') (\<lambda>header.
     and_then (optional_str node ''delimiter'') (\<lambda>delimiter.
     let arguments = [quote_path path, ''header='' @ show_bool header] @
           (case delimiter of Some d \<Rightarrow> [''delim='' @ quote_literal d] | None \<Rightarrow> [])
     in Inr (create_view node (''SELECT * FROM read_csv('' @ join_with '', '' arguments @ '')'')))))"

definition source_parquet :: build where
  "source_parquet node =
     and_then (required_str node ''path'') (\<lambda>path.
       Inr (create_view node (''SELECT * FROM read_parquet('' @ quote_path path @ '')'')))"

definition source_jsonl :: build where
  "source_jsonl node =
     and_then (required_str node ''path'') (\<lambda>path.
     and_then (resolved_bool node ''ignore_errors'') (\<lambda>ignore_errors.
       Inr (create_view node (''SELECT * FROM read_json('' @ quote_path path @
         '', format='' @ QT @ ''newline_delimited'' @ QT @ '', ignore_errors='' @ show_bool ignore_errors @ '')''))))"

definition source_json :: build where
  "source_json node =
     and_then (required_str node ''path'') (\<lambda>path.
     and_then (resolved_bool node ''ignore_errors'') (\<lambda>ignore_errors.
       Inr (create_view node (''SELECT * FROM read_json('' @ quote_path path @
         '', format='' @ QT @ ''array'' @ QT @ '', ignore_errors='' @ show_bool ignore_errors @ '')''))))"

definition source_excel :: build where
  "source_excel node =
     and_then (required_str node ''path'') (\<lambda>path.
     and_then (resolved_bool node ''header'') (\<lambda>header.
     and_then (optional_str node ''sheet'') (\<lambda>sheet.
     let arguments = [quote_path path, ''header='' @ show_bool header] @
           (case sheet of Some s \<Rightarrow> [''sheet='' @ quote_literal s] | None \<Rightarrow> [])
     in Inr (create_view node (''SELECT * FROM read_xlsx('' @ join_with '', '' arguments @ '')'')))))"

section \<open>Object storage and table formats\<close>

definition cloud_reader :: build where
  "cloud_reader node =
     and_then (required_str node ''path'') (\<lambda>path.
     and_then (resolved_str node ''format'') (\<lambda>format.
     and_then
       (if format = ''parquet'' then Inr (''SELECT * FROM read_parquet('' @ quote_path path @ '')'')
        else if format = ''csv'' then
          and_then (resolved_bool node ''header'') (\<lambda>header.
            Inr (''SELECT * FROM read_csv('' @ quote_path path @ '', header='' @ show_bool header @ '')''))
        else if format = ''json'' then Inr (''SELECT * FROM read_json('' @ quote_path path @ '')'')
        else Inl (invalid node ''format'' (QT @ format @ QT @
               '' is not a readable format; use parquet, csv, or json''))) (\<lambda>body.
     Inr (create_view node body))))"

definition bucket_of :: "str \<Rightarrow> str" where
  "bucket_of path = (case split_once_str ''://'' path of
     Some (scheme, rest) \<Rightarrow> scheme @ ''://'' @ hd (split_on (\<lambda>c. c = CHR ''/'') rest)
   | None \<Rightarrow> path)"

definition s3_option :: "str \<Rightarrow> str option \<Rightarrow> str list" where
  "s3_option name v = (case v of Some s \<Rightarrow> [name @ '' '' @ quote_literal s] | None \<Rightarrow> [])"

definition s3_endpoint :: "lowering \<Rightarrow> str option \<Rightarrow> engine_error + str list" where
  "s3_endpoint node endpoint = (case endpoint of
     None \<Rightarrow> Inr []
   | Some e \<Rightarrow>
       and_then (case split_once_str ''://'' e of
           Some (scheme, host) \<Rightarrow>
             if scheme = ''http'' then Inr (host, False)
             else if scheme = ''https'' then Inr (host, True)
             else and_then (resolved_bool node ''use_ssl'') (\<lambda>ssl. Inr (e, ssl))
         | None \<Rightarrow> and_then (resolved_bool node ''use_ssl'') (\<lambda>ssl. Inr (e, ssl))) (\<lambda>(host, ssl).
       Inr [''ENDPOINT '' @ quote_literal (trim_end_matches (\<lambda>c. c = CHR ''/'') host),
            ''USE_SSL '' @ show_bool ssl]))"

definition with_s3_secret :: "lowering \<Rightarrow> str \<Rightarrow> engine_error + str" where
  "with_s3_secret node statement =
     and_then (optional_str node ''key_id'') (\<lambda>key_id.
     and_then (optional_str node ''secret'') (\<lambda>secret.
     and_then (optional_str node ''session_token'') (\<lambda>session_token.
     and_then (optional_str node ''region'') (\<lambda>region.
     and_then (optional_str node ''endpoint'') (\<lambda>endpoint.
     and_then (optional_str node ''url_style'') (\<lambda>url_style.
     if list_all (\<lambda>v. v = None) [key_id, secret, session_token, region, endpoint, url_style]
     then Inr statement
     else if (key_id = None) \<noteq> (secret = None)
     then Inl (invalid node (if key_id \<noteq> None then ''secret'' else ''key_id'')
            ''is needed too: key_id and secret only work as a pair'')
     else and_then (s3_endpoint node endpoint) (\<lambda>reach.
       and_then (required_str node ''path'') (\<lambda>path.
       let options = [''TYPE s3''] @ s3_option ''KEY_ID'' key_id @ s3_option ''SECRET'' secret @
             s3_option ''SESSION_TOKEN'' session_token @ s3_option ''REGION'' region @
             s3_option ''URL_STYLE'' url_style @ reach @
             [''SCOPE '' @ quote_literal (bucket_of path)]
       in Inr (''CREATE OR REPLACE SECRET '' @ quote_identifier (lo_node_id node @ ''_s3'') @
            '' ('' @ join_with '', '' options @ '');'' @ NL @ statement)))))))))"

definition source_s3 :: build where
  "source_s3 node = and_then (cloud_reader node) (with_s3_secret node)"

definition source_http :: build where
  "source_http = cloud_reader"

definition source_iceberg :: build where
  "source_iceberg node =
     and_then (required_str node ''path'') (\<lambda>path.
     and_then (resolved_bool node ''allow_moved_paths'') (\<lambda>moved.
     and_then (optional_str node ''version'') (\<lambda>version.
     if moved \<and> ends_with (trim_end_matches (\<lambda>c. c = CHR ''/'' \<or> c = CHR 0x5C) path) ''.metadata.json''
     then Inl (invalid node ''path''
            (''must be the table'' @ QT @ ''s root directory when allow_moved_paths is set, not a '' @
             ''.metadata.json file; name the metadata file in version instead''))
     else let arguments = [quote_path path, ''allow_moved_paths='' @ show_bool moved] @
                (case version of Some v \<Rightarrow> [''version='' @ quote_literal v] | None \<Rightarrow> [])
          in Inr (create_view node (''SELECT * FROM iceberg_scan('' @ join_with '', '' arguments @ '')'')))))"

definition source_delta :: build where
  "source_delta node =
     and_then (required_str node ''path'') (\<lambda>path.
       Inr (create_view node (''SELECT * FROM delta_scan('' @ quote_path path @ '')'')))"

section \<open>Databases\<close>

definition attach_database :: "lowering \<Rightarrow> str \<Rightarrow> bool \<Rightarrow> engine_error + str \<times> str" where
  "attach_database node database_type read_only =
     and_then (required_str node ''connection'') (\<lambda>connection.
     let alias = lo_node_id node @ ''_db'';
         options = ''TYPE '' @ database_type @ (if read_only then '', READ_ONLY'' else [])
     in Inr (''ATTACH '' @ quote_literal connection @ '' AS '' @ quote_identifier alias @
          '' ('' @ options @ '');'', alias))"

definition qualified_table :: "lowering \<Rightarrow> str \<Rightarrow> engine_error + str" where
  "qualified_table node alias =
     and_then (required_str node ''table'') (\<lambda>table.
     and_then (optional_str node ''schema'') (\<lambda>schema.
     Inr (quote_identifier alias @
       (case schema of Some s \<Rightarrow> ''.'' @ quote_identifier s | None \<Rightarrow> []) @
       ''.'' @ quote_identifier table)))"

definition source_database :: "lowering \<Rightarrow> str \<Rightarrow> engine_error + str" where
  "source_database node database_type =
     and_then (attach_database node database_type True) (\<lambda>(attach, alias).
     and_then (qualified_table node alias) (\<lambda>table.
     Inr (attach @ NL @ create_view node (''SELECT * FROM '' @ table))))"

definition source_postgres :: build where
  "source_postgres node = source_database node ''postgres''"

definition source_mysql :: build where
  "source_mysql node = and_then (source_database node ''mysql'') (\<lambda>s.
     Inr (''SET mysql_aggregate_pushdown_enabled=false;'' @ NL @ s))"

definition source_sqlite :: build where
  "source_sqlite node = source_database node ''sqlite''"

definition bad_mode :: "lowering \<Rightarrow> str \<Rightarrow> engine_error" where
  "bad_mode node mode = invalid node ''mode'' (QT @ mode @ QT @ '' is not a write mode; use overwrite or append'')"

definition sink_database :: "lowering \<Rightarrow> str \<Rightarrow> engine_error + str" where
  "sink_database node database_type =
     and_then (exactly_one_input node) (\<lambda>upstream.
     and_then (attach_database node database_type False) (\<lambda>(attach, alias).
     and_then (qualified_table node alias) (\<lambda>table.
     let source = quote_identifier upstream
     in and_then (resolved_str node ''mode'') (\<lambda>mode.
        and_then
          (if mode = ''overwrite''
           then Inr (''CREATE OR REPLACE TABLE '' @ table @ '' AS SELECT * FROM '' @ source @ '';'')
           else if mode = ''append''
           then Inr (''CREATE TABLE IF NOT EXISTS '' @ table @ '' AS SELECT * FROM '' @ source @
                  '' WHERE false;'' @ NL @ ''INSERT INTO '' @ table @ '' SELECT * FROM '' @ source @ '';'')
           else Inl (bad_mode node mode)) (\<lambda>write_sql.
        Inr (attach @ NL @ write_sql))))))"

definition sink_postgres :: build where
  "sink_postgres node = sink_database node ''postgres''"

definition sink_sqlite :: build where
  "sink_sqlite node = sink_database node ''sqlite''"

definition backticked :: "str \<Rightarrow> str" where
  "backticked name = [CHR 0x60] @ double_char (CHR 0x60) name @ [CHR 0x60]"

definition mysql_widen :: "str \<Rightarrow> str \<Rightarrow> str \<Rightarrow> str \<Rightarrow> str" where
  "mysql_widen mysql_table source alias already_there =
     ''SET VARIABLE etl_fractions = (SELECT CASE WHEN '' @ already_there @ '' THEN '' @ QT @ ''DO 0'' @ QT @
     '' ELSE coalesce('' @ quote_literal (''ALTER TABLE '' @ mysql_table @ '' '') @ '' || string_agg('' @
     QT @ ''MODIFY '' @ [CHR 0x60] @ QT @ '' || replace(column_name, '' @ QT @ [CHR 0x60] @ QT @ '', '' @
     QT @ [CHR 0x60, CHR 0x60] @ QT @ '') || '' @ QT @ [CHR 0x60] @ '' DATETIME(6)'' @ QT @ '', '' @
     QT @ '', '' @ QT @ ''), '' @ QT @ ''DO 0'' @ QT @ '') END FROM (DESCRIBE '' @ source @
     '') WHERE column_type LIKE '' @ QT @ ''TIMESTAMP%'' @ QT @ '');'' @ NL @
     ''CALL mysql_execute('' @ quote_literal alias @ '', getvariable('' @ QT @ ''etl_fractions'' @ QT @ ''));'' @ NL @
     ''CALL mysql_clear_cache();''"

definition sink_mysql :: build where
  "sink_mysql node =
     and_then (exactly_one_input node) (\<lambda>upstream.
     and_then (attach_database node ''mysql'' False) (\<lambda>(attach, alias).
     and_then (qualified_table node alias) (\<lambda>table.
     and_then (required_str node ''table'') (\<lambda>name.
     and_then (optional_str node ''schema'') (\<lambda>schema.
     let source = quote_identifier upstream;
         mysql_table = (case schema of
             Some s \<Rightarrow> backticked s @ ''.'' @ backticked name | None \<Rightarrow> backticked name);
         create = '' AS SELECT * FROM '' @ source @ '' WHERE false;'' @ NL;
         fill = NL @ ''INSERT INTO '' @ table @ '' SELECT * FROM '' @ source @ '';''
     in and_then (resolved_str node ''mode'') (\<lambda>mode.
        and_then
          (if mode = ''overwrite''
           then Inr (''CREATE OR REPLACE TABLE '' @ table @ create @
                  mysql_widen mysql_table source alias ''false'' @ fill)
           else if mode = ''append''
           then (let there = ''database_name = '' @ quote_literal alias @ '' AND table_name = '' @
                       quote_literal name @
                       (case schema of Some s \<Rightarrow> '' AND schema_name = '' @ quote_literal s | None \<Rightarrow> [])
                 in Inr (''SET VARIABLE etl_existed = (SELECT count(*) > 0 FROM duckdb_tables() WHERE '' @
                      there @ '');'' @ NL @ ''CREATE TABLE IF NOT EXISTS '' @ table @ create @
                      mysql_widen mysql_table source alias
                        (''getvariable('' @ QT @ ''etl_existed'' @ QT @ '')'') @ fill))
           else Inl (bad_mode node mode)) (\<lambda>write_sql.
        Inr (attach @ NL @ write_sql))))))))"

section \<open>File sinks\<close>

definition sink_parquet :: build where
  "sink_parquet node =
     and_then (exactly_one_input node) (\<lambda>upstream.
     and_then (required_str node ''path'') (\<lambda>path.
     and_then (resolved_str node ''compression'') (\<lambda>compression.
     Inr (copy_to upstream path (''FORMAT parquet, COMPRESSION '' @ quote_literal compression)))))"

definition sink_csv :: build where
  "sink_csv node =
     and_then (exactly_one_input node) (\<lambda>upstream.
     and_then (required_str node ''path'') (\<lambda>path.
     and_then (resolved_bool node ''header'') (\<lambda>header.
     and_then (optional_str node ''delimiter'') (\<lambda>delimiter.
     let options = [''FORMAT csv'', ''HEADER '' @ show_bool header] @
           (case delimiter of Some d \<Rightarrow> [''DELIMITER '' @ quote_literal d] | None \<Rightarrow> [])
     in Inr (copy_to upstream path (join_with '', '' options))))))"

definition sink_json :: build where
  "sink_json node =
     and_then (exactly_one_input node) (\<lambda>upstream.
     and_then (required_str node ''path'') (\<lambda>path.
     Inr (copy_to upstream path ''FORMAT json, ARRAY true'')))"

definition sink_jsonl :: build where
  "sink_jsonl node =
     and_then (exactly_one_input node) (\<lambda>upstream.
     and_then (required_str node ''path'') (\<lambda>path.
     Inr (copy_to upstream path ''FORMAT json'')))"

definition sink_excel :: build where
  "sink_excel node =
     and_then (exactly_one_input node) (\<lambda>upstream.
     and_then (required_str node ''path'') (\<lambda>path.
     and_then (resolved_bool node ''header'') (\<lambda>header.
     and_then (optional_str node ''sheet'') (\<lambda>sheet.
     Inr (copy_to upstream path (''FORMAT xlsx, HEADER '' @ show_bool header @
       (case sheet of Some s \<Rightarrow> '', SHEET '' @ quote_literal s | None \<Rightarrow> [])))))))"

definition sink_s3 :: build where
  "sink_s3 node =
     and_then (exactly_one_input node) (\<lambda>upstream.
     and_then (required_str node ''path'') (\<lambda>path.
     and_then (resolved_str node ''format'') (\<lambda>format.
     and_then
       (if format = ''parquet'' then
          and_then (resolved_str node ''compression'') (\<lambda>compression.
            Inr (''FORMAT parquet, COMPRESSION '' @ quote_literal compression))
        else if format = ''csv'' then
          and_then (resolved_bool node ''header'') (\<lambda>header.
            Inr (''FORMAT csv, HEADER '' @ show_bool header))
        else if format = ''json'' then Inr ''FORMAT json''
        else Inl (invalid node ''format'' (QT @ format @ QT @
               '' is not a writable format; use parquet, csv, or json''))) (\<lambda>options.
     with_s3_secret node (copy_to upstream path options)))))"

section \<open>Native components\<close>

definition staging_path :: "lowering \<Rightarrow> engine_error + str" where
  "staging_path node = ok_or (invalid node ''componentId'' (QT @ lo_component_id node @ QT @
     '' is registered as native but has no connector'')) (lo_staging node)"

definition registered_transform :: "connectors \<Rightarrow> lowering \<Rightarrow> engine_error + native_component" where
  "registered_transform conns node = (case conns (lo_component_id node) of
     Some (ConnTransform t) \<Rightarrow> Inr t
   | _ \<Rightarrow> Inl (invalid node ''componentId'' (QT @ lo_component_id node @ QT @
            '' is registered as a native transform but has no connector'')))"

definition native_input_table :: "str \<Rightarrow> str" where
  "native_input_table node_id = node_id @ ''__native_in''"

definition native_source :: build where
  "native_source node =
     and_then (staging_path node) (\<lambda>staging.
     and_then
       (case json_get (lo_properties node) ''columns'' of
          Some (JObject (pair # pairs)) \<Rightarrow>
            and_then (map_entries node ''columns'' (pair # pairs) (\<lambda>col declared.
              and_then (type_name node declared) (\<lambda>t.
                Inr (quote_literal col @ '': '' @ quote_literal t)))) (\<lambda>columns.
            Inr (''columns={'' @ join_with '', '' columns @ ''}''))
        | _ \<Rightarrow> Inr ''sample_size=-1'') (\<lambda>shape.
     Inr (create_view node (''SELECT * FROM read_json('' @ quote_path staging @
       '', format='' @ QT @ ''newline_delimited'' @ QT @ '', '' @ shape @ '')''))))"

definition native_sink :: build where
  "native_sink node =
     and_then (exactly_one_input node) (\<lambda>upstream.
     and_then (staging_path node) (\<lambda>staging.
     Inr (copy_to upstream staging ''FORMAT json'')))"

definition native_transform :: "connectors \<Rightarrow> build" where
  "native_transform conns node =
     and_then (staging_path node) (\<lambda>staging.
     and_then (registered_transform conns node) (\<lambda>t.
     let added = nc_adds t (lo_properties node);
         columns = (quote_literal ROW_KEY @ '': '' @ QT @ ''BIGINT'' @ QT) #
           map (\<lambda>(name, sql_type). quote_literal name @ '': '' @ quote_literal sql_type) added;
         selected = map (\<lambda>(name, _). ''o.'' @ quote_identifier name) added
     in Inr (create_view node (''SELECT i.* EXCLUDE ('' @ ROW_KEY @ ''), '' @ join_with '', '' selected @
          '' FROM '' @ quote_identifier (native_input_table (lo_node_id node)) @
          '' i LEFT JOIN read_json('' @ quote_path staging @ '', format='' @ QT @ ''newline_delimited'' @ QT @
          '', columns={'' @ join_with '', '' columns @ ''}) o USING ('' @ ROW_KEY @ '') ORDER BY i.'' @ ROW_KEY))))"

definition native_feed :: "connectors \<Rightarrow> lowering \<Rightarrow> str \<Rightarrow> engine_error + str" where
  "native_feed conns node file =
     and_then (exactly_one_input node) (\<lambda>upstream.
     and_then (registered_transform conns node) (\<lambda>t.
     let table = quote_identifier (native_input_table (lo_node_id node));
         read = ROW_KEY # map quote_identifier (nc_reads t (lo_properties node))
     in Inr (''CREATE OR REPLACE TEMP TABLE '' @ table @ '' AS SELECT row_number() OVER () AS '' @ ROW_KEY @
          '', * FROM '' @ quote_identifier upstream @ '';'' @ NL @
          ''COPY (SELECT '' @ join_with '', '' read @ '' FROM '' @ table @ '') TO '' @ quote_path file @
          '' (FORMAT json);'')))"

end
