(* ===== verification/Transform_Builders.thy ===== *)
theory Transform_Builders
  imports Builder_Kit
begin

text \<open>
  The builders of \<^verbatim>\<open>crates/duckdb-engine/src/plan/builders.rs\<close> that reshape, check and gate rows:
  the \<^verbatim>\<open>xf\<close>, \<^verbatim>\<open>qa\<close> and \<^verbatim>\<open>ctl\<close> components, and what a control node does besides passing rows on.
\<close>

section \<open>Columns and rows\<close>

definition transform_sql :: build where
  "transform_sql node =
     and_then (required_str node ''query'') (\<lambda>query.
     Inr (create_view node (trim_end_matches (\<lambda>c. c = CHR '';'') (trim query))))"

definition transform_filter :: build where
  "transform_filter node =
     and_then (exactly_one_input node) (\<lambda>upstream.
     and_then (required_str node ''predicate'') (\<lambda>predicate.
     Inr (create_view node (''SELECT * FROM '' @ quote_identifier upstream @ '' WHERE '' @ trim predicate))))"

definition transform_select :: build where
  "transform_select node =
     and_then (exactly_one_input node) (\<lambda>upstream.
     and_then (required_array node ''columns'') (\<lambda>values.
     and_then (column_list node ''columns'' values) (\<lambda>projected.
     Inr (create_view node (''SELECT '' @ join_with '', '' projected @ '' FROM '' @ quote_identifier upstream)))))"

definition join_condition :: "lowering \<Rightarrow> str \<Rightarrow> engine_error + str" where
  "join_condition node join_type =
     and_then (optional_array node ''keys'') (\<lambda>keys.
     and_then (optional_str node ''condition'') (\<lambda>condition.
     if join_type = ''CROSS JOIN'' then
       (if keys \<noteq> None \<or> condition \<noteq> None
        then Inl (invalid node ''type'' ''a cross join takes neither keys nor a condition'')
        else Inr [])
     else
       case (keys, condition) of
         (Some _, Some _) \<Rightarrow> Inl (invalid node ''keys'' ''set either keys or condition, not both'')
       | (Some (k # ks), None) \<Rightarrow>
           and_then (traverse (\<lambda>v. ok_or (invalid node ''keys'' ''every key must be a column name'')
             (map_option quote_identifier (json_as_str v))) (k # ks)) (\<lambda>names.
           Inr ('' USING ('' @ join_with '', '' names @ '')''))
       | (None, Some c) \<Rightarrow> Inr ('' ON '' @ trim c)
       | _ \<Rightarrow> Inl (missing node ''keys'')))"

definition transform_join :: build where
  "transform_join node =
     and_then (exactly_two_inputs node) (\<lambda>(l, r).
     and_then (resolved_str node ''type'') (\<lambda>t.
     and_then
       (if t = ''inner'' then Inr ''INNER JOIN''
        else if t = ''left'' then Inr ''LEFT JOIN''
        else if t = ''right'' then Inr ''RIGHT JOIN''
        else if t = ''full'' \<or> t = ''outer'' then Inr ''FULL OUTER JOIN''
        else if t = ''cross'' then Inr ''CROSS JOIN''
        else Inl (invalid node ''type'' (QT @ t @ QT @
               '' is not a join type; use inner, left, right, full, or cross''))) (\<lambda>join_type.
     and_then (join_condition node join_type) (\<lambda>condition.
     Inr (create_view node (''SELECT * FROM '' @ quote_identifier l @ '' '' @ join_type @ '' '' @
       quote_identifier r @ condition))))))"

definition transform_derive :: build where
  "transform_derive node =
     and_then (exactly_one_input node) (\<lambda>upstream.
     and_then (required_str node ''expressions'') (\<lambda>expressions.
     Inr (create_view node (''SELECT *, '' @ trim_end_matches (\<lambda>c. c = CHR '','') (trim expressions) @
       '' FROM '' @ quote_identifier upstream))))"

definition transform_rename :: build where
  "transform_rename node =
     and_then (exactly_one_input node) (\<lambda>upstream.
     and_then (non_empty_map node ''columns'') (\<lambda>pairs.
     and_then (map_entries node ''columns'' pairs (\<lambda>old new.
       Inr (quote_identifier old @ '' AS '' @ quote_identifier new))) (\<lambda>renames.
     Inr (create_view node (''SELECT * RENAME ('' @ join_with '', '' renames @ '') FROM '' @
       quote_identifier upstream)))))"

definition transform_cast :: build where
  "transform_cast node =
     and_then (exactly_one_input node) (\<lambda>upstream.
     and_then (non_empty_map node ''columns'') (\<lambda>pairs.
     and_then (map_entries node ''columns'' pairs (\<lambda>col declared.
       and_then (type_name node declared) (\<lambda>t.
       Inr (''CAST('' @ quote_identifier col @ '' AS '' @ t @ '') AS '' @ quote_identifier col)))) (\<lambda>casts.
     Inr (create_view node (''SELECT * REPLACE ('' @ join_with '', '' casts @ '') FROM '' @
       quote_identifier upstream)))))"

definition transform_distinct :: build where
  "transform_distinct node =
     and_then (exactly_one_input node) (\<lambda>upstream.
     Inr (create_view node (''SELECT DISTINCT * FROM '' @ quote_identifier upstream)))"

definition transform_dedup :: build where
  "transform_dedup node =
     and_then (exactly_one_input node) (\<lambda>upstream.
     and_then (required_array node ''keys'') (\<lambda>values.
     and_then (column_list node ''keys'' values) (\<lambda>keys.
     and_then (optional_str node ''order_by'') (\<lambda>order_by.
     let window = ''PARTITION BY '' @ join_with '', '' keys @
           (case order_by of Some o1 \<Rightarrow> '' ORDER BY '' @ trim o1 | None \<Rightarrow> [])
     in Inr (create_view node (''SELECT * FROM '' @ quote_identifier upstream @
          '' QUALIFY row_number() OVER ('' @ window @ '') = 1''))))))"

definition transform_sort :: build where
  "transform_sort node =
     and_then (exactly_one_input node) (\<lambda>upstream.
     and_then (required_str node ''by'') (\<lambda>by_text.
     Inr (create_view node (''SELECT * FROM '' @ quote_identifier upstream @ '' ORDER BY '' @ trim by_text))))"

definition transform_limit :: build where
  "transform_limit node =
     and_then (exactly_one_input node) (\<lambda>upstream.
     and_then (non_negative node ''count'') (\<lambda>n.
     and_then (non_negative node ''offset'') (\<lambda>offset.
     Inr (create_view node (''SELECT * FROM '' @ quote_identifier upstream @ '' LIMIT '' @ show_int n @
       (if 0 < offset then '' OFFSET '' @ show_int offset else []))))))"

definition transform_sample :: build where
  "transform_sample node =
     and_then (exactly_one_input node) (\<lambda>upstream.
     and_then (non_negative node ''size'') (\<lambda>sz.
     and_then (resolved_str node ''unit'') (\<lambda>unit_name.
     and_then
       (if unit_name = ''rows'' then Inr (''USING SAMPLE '' @ show_int sz @ '' ROWS'')
        else if unit_name = ''percent'' then Inr (''USING SAMPLE reservoir('' @ show_int sz @ '' PERCENT)'')
        else Inl (invalid node ''unit'' (QT @ unit_name @ QT @
               '' is not a sample unit; use rows or percent''))) (\<lambda>clause.
     Inr (create_view node (''SELECT * FROM '' @ quote_identifier upstream @ '' '' @ clause))))))"

section \<open>Summaries\<close>

definition transform_aggregate :: build where
  "transform_aggregate node =
     and_then (exactly_one_input node) (\<lambda>upstream.
     and_then (required_str node ''aggregations'') (\<lambda>given_text.
     and_then (optional_column_list node ''group_by'') (\<lambda>groups.
     let aggregations = trim_end_matches (\<lambda>c. c = CHR '','') (trim given_text);
         grouped = join_with '', '' groups
     in Inr (create_view node
          (if groups = []
           then ''SELECT '' @ aggregations @ '' FROM '' @ quote_identifier upstream
           else ''SELECT '' @ grouped @ '', '' @ aggregations @ '' FROM '' @ quote_identifier upstream @
             '' GROUP BY '' @ grouped)))))"

definition transform_window :: build where
  "transform_window node =
     and_then (exactly_one_input node) (\<lambda>upstream.
     and_then (required_str node ''expression'') (\<lambda>expression.
     and_then (required_str node ''output_column'') (\<lambda>output.
     and_then (optional_column_list node ''partition_by'') (\<lambda>partition_cols.
     and_then (optional_str node ''order_by'') (\<lambda>order_by.
     let over0 = (if partition_cols = [] then [] else ''PARTITION BY '' @ join_with '', '' partition_cols);
         over = (case order_by of
             Some o1 \<Rightarrow> over0 @ (if over0 = [] then [] else '' '') @ ''ORDER BY '' @ trim o1
           | None \<Rightarrow> over0)
     in Inr (create_view node (''SELECT *, '' @ trim expression @ '' OVER ('' @ over @ '') AS '' @
          quote_identifier output @ '' FROM '' @ quote_identifier upstream)))))))"

definition transform_pivot :: build where
  "transform_pivot node =
     and_then (exactly_one_input node) (\<lambda>upstream.
     and_then (required_array node ''on'') (\<lambda>on_values.
     and_then (column_list node ''on'' on_values) (\<lambda>on_cols.
     and_then (required_str node ''using'') (\<lambda>using_text.
     and_then (required_array node ''values'') (\<lambda>values0.
     and_then
       (if values0 = [] then Inl (invalid node ''values'' ''must list at least one value'')
        else traverse (\<lambda>v. ok_or (invalid node ''values'' ''every value must be text'')
               (map_option quote_literal (json_as_str v))) values0) (\<lambda>values.
     and_then (optional_column_list node ''group_by'') (\<lambda>groups.
     Inr (create_view node (''PIVOT '' @ quote_identifier upstream @ '' ON '' @ join_with '', '' on_cols @
       '' IN ('' @ join_with '', '' values @ '') USING '' @ trim using_text @
       (if groups = [] then [] else '' GROUP BY '' @ join_with '', '' groups))))))))))"

definition transform_unpivot :: build where
  "transform_unpivot node =
     and_then (exactly_one_input node) (\<lambda>upstream.
     and_then (required_array node ''columns'') (\<lambda>values.
     and_then (column_list node ''columns'' values) (\<lambda>columns.
     and_then (resolved_str node ''name_column'') (\<lambda>name_column.
     and_then (resolved_str node ''value_column'') (\<lambda>value_column.
     Inr (create_view node (''UNPIVOT '' @ quote_identifier upstream @ '' ON '' @ join_with '', '' columns @
       '' INTO NAME '' @ quote_identifier name_column @ '' VALUE '' @ quote_identifier value_column)))))))"

section \<open>Two inputs\<close>

definition two_sided :: "str \<Rightarrow> str \<Rightarrow> str \<Rightarrow> str" where
  "two_sided l operator r =
     ''SELECT * FROM '' @ quote_identifier l @ '' '' @ operator @ '' SELECT * FROM '' @ quote_identifier r"

definition transform_union :: build where
  "transform_union node =
     and_then (exactly_two_inputs node) (\<lambda>(l, r).
     and_then (resolved_bool node ''all'') (\<lambda>all_rows.
     and_then (resolved_bool node ''by_name'') (\<lambda>by_name.
     Inr (create_view node (two_sided l (''UNION'' @ (if all_rows then '' ALL'' else []) @
       (if by_name then '' BY NAME'' else [])) r)))))"

definition set_operation :: "lowering \<Rightarrow> str \<Rightarrow> engine_error + str" where
  "set_operation node operator =
     and_then (exactly_two_inputs node) (\<lambda>(l, r).
     and_then (resolved_bool node ''all'') (\<lambda>all_rows.
     Inr (create_view node (two_sided l (operator @ (if all_rows then '' ALL'' else [])) r))))"

definition transform_intersect :: build where
  "transform_intersect node = set_operation node ''INTERSECT''"

definition transform_except :: build where
  "transform_except node = set_operation node ''EXCEPT''"

section \<open>Quality\<close>

definition quality_not_null :: build where
  "quality_not_null node =
     and_then (exactly_one_input node) (\<lambda>upstream.
     and_then (checked_columns node ''columns'') (\<lambda>columns.
     Inr (quality_split node (plain_base upstream)
       (join_with '' AND '' (map (\<lambda>c. c @ '' IS NOT NULL'') columns)) [])))"

definition quality_unique :: build where
  "quality_unique node =
     and_then (exactly_one_input node) (\<lambda>upstream.
     and_then (checked_columns node ''columns'') (\<lambda>columns.
     let helper = ''__etl_occurrences'';
         base = ''SELECT *, count(*) OVER (PARTITION BY '' @ join_with '', '' columns @ '') AS '' @
           quote_identifier helper @ '' FROM '' @ quote_identifier upstream
     in Inr (quality_split node base (quote_identifier helper @ '' = 1'') [helper])))"

definition quality_range :: build where
  "quality_range node =
     and_then (exactly_one_input node) (\<lambda>upstream.
     and_then (required_str node ''column'') (\<lambda>col.
     and_then (optional_number node ''min'') (\<lambda>low.
     and_then (optional_number node ''max'') (\<lambda>high.
     let q = quote_identifier col;
         bounds = (case low of Some n \<Rightarrow> [q @ '' >= '' @ n] | None \<Rightarrow> []) @
           (case high of Some n \<Rightarrow> [q @ '' <= '' @ n] | None \<Rightarrow> [])
     in if bounds = []
        then Inl (invalid node ''min'' ''or max must be set; a range with neither bound checks nothing'')
        else Inr (quality_split node (plain_base upstream) (join_with '' AND '' bounds) [])))))"

definition quality_regex :: build where
  "quality_regex node =
     and_then (exactly_one_input node) (\<lambda>upstream.
     and_then (required_str node ''column'') (\<lambda>col.
     and_then (required_str node ''pattern'') (\<lambda>pattern.
     Inr (quality_split node (plain_base upstream)
       (''regexp_matches('' @ quote_identifier col @ '', '' @ quote_literal pattern @ '')'') []))))"

definition quality_accepted_values :: build where
  "quality_accepted_values node =
     and_then (exactly_one_input node) (\<lambda>upstream.
     and_then (required_str node ''column'') (\<lambda>col.
     and_then (checked_values node ''values'') (\<lambda>values.
     Inr (quality_split node (plain_base upstream)
       (quote_identifier col @ '' IN ('' @ join_with '', '' values @ '')'') []))))"

definition quality_expression :: build where
  "quality_expression node =
     and_then (exactly_one_input node) (\<lambda>upstream.
     and_then (required_str node ''predicate'') (\<lambda>predicate.
     Inr (quality_split node (plain_base upstream) predicate [])))"

definition quality_referential :: build where
  "quality_referential node =
     and_then (exactly_two_inputs node) (\<lambda>(l, r).
     and_then (required_str node ''column'') (\<lambda>col.
     and_then (required_str node ''reference_column'') (\<lambda>reference.
     Inr (quality_split node (plain_base l)
       (quote_identifier col @ '' IN (SELECT '' @ quote_identifier reference @ '' FROM '' @
         quote_identifier r @ '')'') []))))"

section \<open>Control\<close>

definition control_passthrough :: build where
  "control_passthrough node = (case lo_inputs node of
     [] \<Rightarrow> Inl (WrongInputCount (lo_node_id node) (lo_component_id node) 1 0)
   | i # _ \<Rightarrow> Inr (create_view node (plain_base (input_relation i))))"

definition number_bounds :: "str option \<Rightarrow> str option \<Rightarrow> str list" where
  "number_bounds minimum maximum =
     (case minimum of Some low \<Rightarrow> [''count(*) >= '' @ low] | None \<Rightarrow> []) @
     (case maximum of Some high \<Rightarrow> [''count(*) <= '' @ high] | None \<Rightarrow> [])"

definition assertion_probe :: "lowering \<Rightarrow> str \<Rightarrow> engine_error + str" where
  "assertion_probe node upstream =
     and_then (optional_array node ''columns'') (\<lambda>found.
     case found of
       Some values \<Rightarrow>
         and_then (column_list node ''columns'' values) (\<lambda>columns.
         Inr (''SELECT count(*) >= 0 AS ok FROM (SELECT '' @ join_with '', '' columns @ '' FROM '' @
           quote_identifier upstream @ '' LIMIT 0);''))
     | None \<Rightarrow>
         and_then (optional_number node ''min'') (\<lambda>minimum.
         and_then (optional_number node ''max'') (\<lambda>maximum.
         let bounds = number_bounds minimum maximum
         in if bounds = []
            then Inl (invalid node ''min''
                   ''or max must be set; a row count with neither bound checks nothing'')
            else Inr (''SELECT ('' @ join_with '' AND '' bounds @ '') AS ok FROM '' @
                   quote_identifier upstream @ '';''))))"

definition assertion_message :: "lowering \<Rightarrow> engine_error + str" where
  "assertion_message node =
     and_then (optional_str node ''message'') (\<lambda>message.
     case message of
       Some m \<Rightarrow> Inr m
     | None \<Rightarrow>
         and_then (optional_array node ''columns'') (\<lambda>found.
         case found of
           Some values \<Rightarrow>
             and_then (column_list node ''columns'' values) (\<lambda>columns.
             Inr (''expected the columns '' @ join_with '', '' columns))
         | None \<Rightarrow>
             and_then (optional_number node ''min'') (\<lambda>minimum.
             and_then (optional_number node ''max'') (\<lambda>maximum.
             Inr (case (minimum, maximum) of
                 (Some low, Some high) \<Rightarrow> ''expected between '' @ low @ '' and '' @ high @ '' rows''
               | (Some low, None) \<Rightarrow> ''expected at least '' @ low @ '' rows''
               | (None, Some high) \<Rightarrow> ''expected at most '' @ high @ '' rows''
               | (None, None) \<Rightarrow> ''the row count is outside its bounds'')))))"

definition matching_rows :: "str \<Rightarrow> str \<Rightarrow> str" where
  "matching_rows upstream predicate =
     ''SELECT count(*) AS n FROM '' @ quote_identifier upstream @ '' WHERE coalesce('' @ predicate @ '', false);''"

definition control_for ::
  "control_kind \<Rightarrow> str \<Rightarrow> str \<Rightarrow> json \<Rightarrow> input list \<Rightarrow> engine_error + control" where
  "control_for kind node_id component_id properties inputs =
     (let node = \<lparr> lo_node_id = node_id, lo_component_id = component_id, lo_properties = properties,
            lo_inputs = inputs, lo_alias = None, lo_materialize = MatAuto, lo_spill_path = None,
            lo_staging = None, lo_incremental = None \<rparr>;
          upstream = (case inputs of i # _ \<Rightarrow> input_relation i | [] \<Rightarrow> node_id);
          make = (\<lambda>probe message wait. \<lparr> ct_kind = kind, ct_probe = probe, ct_message = message, ct_wait_ms = wait \<rparr>)
      in case kind of
           CkWait \<Rightarrow>
             and_then (optional_str node ''message'') (\<lambda>message.
             and_then (non_negative node ''ms'') (\<lambda>ms. Inr (make None message (Some (nat ms)))))
         | CkLog \<Rightarrow> and_then (optional_str node ''message'') (\<lambda>message. Inr (make None message None))
         | CkFail \<Rightarrow>
             and_then (optional_str node ''when'') (\<lambda>condition.
             and_then (required_str node ''message'') (\<lambda>message.
             Inr (make (map_option (matching_rows upstream) condition) (Some message) None)))
         | CkBranch \<Rightarrow>
             and_then (required_str node ''predicate'') (\<lambda>predicate.
             and_then (optional_str node ''message'') (\<lambda>message.
             Inr (make (Some (matching_rows upstream predicate)) message None)))
         | CkSequence \<Rightarrow>
             and_then (exactly_two_inputs node) (\<lambda>(_, after).
             Inr (make (Some (''SELECT count(*) AS n FROM '' @ quote_identifier after @ '';'')) None None))
         | CkAssert \<Rightarrow>
             and_then (assertion_probe node upstream) (\<lambda>probe.
             and_then (assertion_message node) (\<lambda>message.
             Inr (make (Some probe) (Some message) None))))"

end
