(* ===== verification/Plan_Order.thy ===== *)
theory Plan_Order
  imports Plan_Graph
begin

text \<open>
  What the graph half of the compiler computes. An index is exactly the positions of the ids and
  exists exactly when they are distinct; the dropped nodes are exactly those reachable from a
  switched-off one; Kahn's loop returns every kept node once, each after everything it reads and
  each the lowest position that was available, or it fails exactly when the kept nodes have a
  cycle and then names the nodes on or after one.
\<close>

section \<open>The index and the edges\<close>

lemma build_index_iff:
  "build_index pos idx ns = Inr idx' \<longleftrightarrow>
     distinct (map pn_id ns) \<and> (\<forall>n\<in>set ns. map_of idx (pn_id n) = None) \<and>
     idx' = rev (zip (map pn_id ns) [pos..<pos + length ns]) @ idx"
proof (induction ns arbitrary: pos idx)
  case (Cons n ns)
  show ?case
  proof (cases "map_of idx (pn_id n)")
    case None
    have u: "[pos..<pos + length (n # ns)] = pos # [Suc pos..<Suc pos + length ns]"
      using upt_conv_Cons [of pos "pos + length (n # ns)"] by (simp del: upt_Suc)
    have m: "(\<forall>x\<in>set ns. map_of ((pn_id n, pos) # idx) (pn_id x) = None) \<longleftrightarrow>
        (\<forall>x\<in>set ns. map_of idx (pn_id x) = None) \<and> pn_id n \<notin> pn_id ` set ns"
    proof -
      have "map_of ((pn_id n, pos) # idx) (pn_id x) = None \<longleftrightarrow>
          map_of idx (pn_id x) = None \<and> pn_id n \<noteq> pn_id x" for x
        by auto
      then show ?thesis unfolding image_iff by blast
    qed
    have "build_index pos idx (n # ns) = Inr idx' \<longleftrightarrow>
        build_index (Suc pos) ((pn_id n, pos) # idx) ns = Inr idx'" using None by simp
    also have "\<dots> \<longleftrightarrow> distinct (map pn_id (n # ns)) \<and> (\<forall>x\<in>set (n # ns). map_of idx (pn_id x) = None) \<and>
        idx' = rev (zip (map pn_id ns) [Suc pos..<Suc pos + length ns]) @ (pn_id n, pos) # idx"
      unfolding Cons.IH m using None by auto
    finally show ?thesis unfolding u by simp
  qed auto
qed auto

lemma build_index_error:
  "build_index pos idx ns = Inl e \<Longrightarrow> \<exists>n\<in>set ns. e = DuplicateNodeId (pn_id n)"
  by (induction ns arbitrary: pos idx) (auto split: if_splits)

lemma map_of_index:
  assumes "build_index 0 [] ns = Inr idx"
  shows "map_of idx i = Some p \<longleftrightarrow> p < length ns \<and> pn_id (ns ! p) = i"
proof -
  let ?z = "zip (map pn_id ns) [0..<length ns]"
  from assms have d: "distinct (map pn_id ns)" and i: "idx = rev ?z"
    by (auto simp: build_index_iff)
  have m: "map fst ?z = map pn_id ns" by simp
  have "map_of (rev ?z) i = Some p \<longleftrightarrow> (i, p) \<in> set (rev ?z)"
    by (rule map_of_eq_Some_iff) (simp add: rev_map [symmetric] m d del: map_fst_zip)
  also have "\<dots> \<longleftrightarrow> p < length ns \<and> pn_id (ns ! p) = i" by (force simp: in_set_zip)
  finally show ?thesis by (simp add: i)
qed

definition resolved_doc :: "nat \<Rightarrow> resolved_edge list \<Rightarrow> bool" where
  "resolved_doc n es \<longleftrightarrow> (\<forall>e\<in>set es. re_source e < n \<and> re_target e < n \<and> re_source e \<noteq> re_target e)"

lemma resolve_edge_ok:
  assumes "build_index 0 [] (doc_nodes d) = Inr idx" "resolve_edge idx e = Inr r"
  shows "re_source r < length (doc_nodes d) \<and> re_target r < length (doc_nodes d) \<and>
    re_source r \<noteq> re_target r \<and>
    id_at d (re_source r) = pe_source e \<and> id_at d (re_target r) = pe_target e \<and>
    re_source_handle r = pe_source_handle e \<and> re_target_handle r = pe_target_handle e"
  using assms(2) map_of_index [OF assms(1)]
  by (auto simp: resolve_edge_def id_at_def ok_or_def split: option.splits if_splits)

lemma resolve_edges_resolved:
  assumes "build_index 0 [] (doc_nodes d) = Inr idx" "resolve_edges d idx = Inr es"
  shows "resolved_doc (length (doc_nodes d)) es"
proof -
  from assms(2) have "list_all2 (\<lambda>e r. resolve_edge idx e = Inr r) (doc_edges d) es"
    by (simp add: resolve_edges_def traverse_Inr_iff)
  then have "\<exists>e. resolve_edge idx e = Inr r" if "r \<in> set es" for r
    using that by (auto simp: list_all2_conv_all_nth in_set_conv_nth)
  with resolve_edge_ok [OF assms(1)] show ?thesis unfolding resolved_doc_def by meson
qed

section \<open>Dropping what depends on a switched-off node\<close>

definition edge_rel :: "resolved_edge list \<Rightarrow> (nat \<times> nat) set" where
  "edge_rel es = (\<lambda>e. (re_source e, re_target e)) ` set es"

lemma edge_relI: "e \<in> set es \<Longrightarrow> (re_source e, re_target e) \<in> edge_rel es"
  by (auto simp: edge_rel_def)

lemma edge_rel_iff: "(u, v) \<in> edge_rel es \<longleftrightarrow> (\<exists>e\<in>set es. re_source e = u \<and> re_target e = v)"
  by (auto simp: edge_rel_def)

lemma drop_edges_spec:
  "drop_edges d c es dropped = (dr, p, ws) \<Longrightarrow> (\<forall>e\<in>set es. re_target e < length dropped) \<Longrightarrow>
     length dr = length dropped \<and>
     set p = {t. \<not> dropped ! t \<and> (c, t) \<in> edge_rel es} \<and>
     (\<forall>i<length dropped. dr ! i \<longleftrightarrow> dropped ! i \<or> i \<in> set p)"
proof (induction es arbitrary: dropped dr p ws)
  case (Cons e es)
  show ?case
  proof (cases "re_source e = c \<and> \<not> dropped ! re_target e")
    case True
    let ?t = "re_target e"
    obtain dr1 p1 w1 where r: "drop_edges d c es (dropped[?t := True]) = (dr1, p1, w1)"
      by (metis prod_cases3)
    with Cons.prems True have e: "dr = dr1" "p = ?t # p1" by (auto simp: Let_def)
    from Cons.IH [OF r] Cons.prems(2) have
      "length dr1 = length dropped"
      "set p1 = {t. \<not> dropped[?t := True] ! t \<and> (c, t) \<in> edge_rel es}"
      "\<forall>i<length dropped. dr1 ! i \<longleftrightarrow> dropped[?t := True] ! i \<or> i \<in> set p1"
      by auto
    with True e Cons.prems(2) show ?thesis
      by (auto simp: nth_list_update edge_rel_iff split: if_splits)
  next
    case False
    with Cons.prems have r: "drop_edges d c es dropped = (dr, p, ws)" by (auto simp: Let_def)
    from Cons.IH [OF r] Cons.prems(2) False show ?thesis by (auto simp: edge_rel_iff)
  qed
qed (auto simp: edge_rel_def)

lemma drop_loop_spec:
  assumes "drop_loop d es dropped queue = (dr, ws)"
    and "\<forall>e\<in>set es. re_target e < length dropped"
    and "\<forall>q\<in>set queue. q < length dropped \<and> dropped ! q"
    and "\<forall>(u, v)\<in>edge_rel es. u < length dropped \<longrightarrow> dropped ! u \<longrightarrow> u \<notin> set queue \<longrightarrow> dropped ! v"
  shows "length dr = length dropped \<and> (\<forall>i<length dropped. dropped ! i \<longrightarrow> dr ! i) \<and>
    (\<forall>i<length dropped. dr ! i \<longrightarrow>
       (\<exists>j<length dropped. dropped ! j \<and> (j, i) \<in> (edge_rel es)\<^sup>*)) \<and>
    (\<forall>(u, v)\<in>edge_rel es. u < length dropped \<longrightarrow> dr ! u \<longrightarrow> dr ! v)"
  using assms
proof (induction d es dropped queue arbitrary: dr ws rule: drop_loop.induct)
  case (2 d es dropped current queue)
  obtain dr1 p w1 where r: "drop_edges d current es dropped = (dr1, p, w1)" by (metis prod_cases3)
  obtain dr2 w2 where l: "drop_loop d es dr1 (queue @ p) = (dr2, w2)" by (metis prod.exhaust)
  from 2(2) r l have e: "dr = dr2" by simp
  from drop_edges_spec [OF r 2(3)] have len: "length dr1 = length dropped"
    and p: "set p = {t. \<not> dropped ! t \<and> (current, t) \<in> edge_rel es}"
    and dr1: "\<forall>i<length dropped. dr1 ! i \<longleftrightarrow> dropped ! i \<or> i \<in> set p" by auto
  have tgt: "v < length dropped" if "(u, v) \<in> edge_rel es" for u v
    using that 2(3) by (auto simp: edge_rel_def)
  have q: "\<forall>q\<in>set (queue @ p). q < length dr1 \<and> dr1 ! q"
    using 2(4) len dr1 p tgt by auto
  have cl: "\<forall>(u, v)\<in>edge_rel es. u < length dr1 \<longrightarrow> dr1 ! u \<longrightarrow> u \<notin> set (queue @ p) \<longrightarrow> dr1 ! v"
  proof (clarify, goal_cases)
    case (1 u v)
    with len dr1 have "dropped ! u" by auto
    show ?case
    proof (cases "u = current")
      case True
      with 1(1) p tgt dr1 show ?thesis by auto
    next
      case False
      with 1 2(5) \<open>dropped ! u\<close> len have "dropped ! v" by auto
      with dr1 tgt 1(1) show ?thesis by auto
    qed
  qed
  from 2(3) len have "\<forall>e\<in>set es. re_target e < length dr1" by simp
  from 2(1) [OF r [symmetric] refl l this q cl] have
    ih: "length dr2 = length dr1" "\<forall>i<length dr1. dr1 ! i \<longrightarrow> dr2 ! i"
    "\<forall>i<length dr1. dr2 ! i \<longrightarrow> (\<exists>j<length dr1. dr1 ! j \<and> (j, i) \<in> (edge_rel es)\<^sup>*)"
    "\<forall>(u, v)\<in>edge_rel es. u < length dr1 \<longrightarrow> dr2 ! u \<longrightarrow> dr2 ! v" by auto
  have "\<exists>j<length dropped. dropped ! j \<and> (j, i) \<in> (edge_rel es)\<^sup>*"
    if "i < length dropped" "dr2 ! i" for i
  proof -
    from ih(3) that len obtain j where j: "j < length dropped" "dr1 ! j" "(j, i) \<in> (edge_rel es)\<^sup>*"
      by auto
    show ?thesis
    proof (cases "dropped ! j")
      case False
      with j dr1 p have "(current, j) \<in> edge_rel es" by auto
      with j 2(4) show ?thesis by (auto intro: converse_rtrancl_into_rtrancl)
    qed (use j in auto)
  qed
  with ih len dr1 e show ?case by auto
qed auto

lemma drop_disabled_spec:
  assumes "resolved_doc (length (doc_nodes d)) es" "drop_disabled d es = (dropped, ws)"
  shows "length dropped = length (doc_nodes d)"
    and "i < length (doc_nodes d) \<Longrightarrow>
      dropped ! i \<longleftrightarrow> (\<exists>j<length (doc_nodes d). is_disabled (pn_data (doc_nodes d ! j)) \<and>
                                  (j, i) \<in> (edge_rel es)\<^sup>*)"
proof -
  let ?n = "length (doc_nodes d)" and ?off = "\<lambda>j. is_disabled (pn_data (doc_nodes d ! j))"
  let ?d0 = "map (\<lambda>n. is_disabled (pn_data n)) (doc_nodes d)"
  obtain dr w where l: "drop_loop d es ?d0 (disabled_positions d) = (dr, w)" by (metis prod.exhaust)
  with assms(2) have e: "dropped = dr" by (simp add: drop_disabled_def Let_def)
  have tgt: "v < ?n" "u < ?n" if "(u, v) \<in> edge_rel es" for u v
    using that assms(1) by (auto simp: edge_rel_def resolved_doc_def)
  have s: "length dr = ?n" "\<forall>i<?n. ?off i \<longrightarrow> dr ! i"
    "\<forall>i<?n. dr ! i \<longrightarrow> (\<exists>j<?n. ?off j \<and> (j, i) \<in> (edge_rel es)\<^sup>*)"
    "\<forall>(u, v)\<in>edge_rel es. dr ! u \<longrightarrow> dr ! v"
    using drop_loop_spec [OF l] assms(1) tgt
    by (auto simp: resolved_doc_def disabled_positions_def) (metis nth_map)
  from s(1) e show "length dropped = ?n" by simp
  have c: "dr ! i" if "(j, i) \<in> (edge_rel es)\<^sup>*" "dr ! j" for i j
    using that by (induction rule: rtrancl_induct) (use s(4) in auto)
  show "dropped ! i \<longleftrightarrow> (\<exists>j<?n. ?off j \<and> (j, i) \<in> (edge_rel es)\<^sup>*)" if "i < ?n"
    using that s(2,3) c e by auto
qed

section \<open>Kahn's loop\<close>

definition edges_between :: "nat \<Rightarrow> nat \<Rightarrow> resolved_edge list \<Rightarrow> nat" where
  "edges_between c v es = length (filter (\<lambda>e. re_source e = c \<and> re_target e = v) es)"

definition waiting :: "resolved_edge list \<Rightarrow> nat set \<Rightarrow> nat \<Rightarrow> nat" where
  "waiting live seen v = length (filter (\<lambda>e. re_target e = v \<and> re_source e \<notin> seen) live)"

lemma edges_between_simps [simp]:
  "edges_between c v [] = 0"
  "edges_between c v (e # es) =
     (if re_source e = c \<and> re_target e = v then Suc (edges_between c v es) else edges_between c v es)"
  by (simp_all add: edges_between_def)

lemma waiting_insert:
  "c \<notin> seen \<Longrightarrow> waiting live seen v = waiting live (insert c seen) v + edges_between c v live"
  by (induction live) (auto simp: waiting_def edges_between_def)

lemma waiting_zero: "waiting live seen v = 0 \<longleftrightarrow> (\<forall>u. (u, v) \<in> edge_rel live \<longrightarrow> u \<in> seen)"
  by (auto simp: waiting_def filter_empty_conv edge_rel_iff)

lemma relax_spec:
  assumes "relax c es deg ready = (deg', ready')"
    and "\<forall>e\<in>set es. re_target e < length deg"
    and "\<forall>v<length deg. edges_between c v es \<le> deg ! v"
    and "\<forall>v\<in>set ready. v < length deg \<and> deg ! v = 0" "distinct ready" "sorted ready"
  shows "length deg' = length deg \<and> (\<forall>v<length deg. deg' ! v = deg ! v - edges_between c v es) \<and>
    set ready' = set ready \<union> {v. v < length deg \<and> 0 < edges_between c v es \<and> deg ! v = edges_between c v es} \<and>
    distinct ready' \<and> sorted ready'"
  using assms
proof (induction es arbitrary: deg ready)
  case (Cons e es)
  let ?t = "re_target e"
  show ?case
  proof (cases "re_source e = c")
    case True
    let ?deg = "deg[?t := deg ! ?t - 1]"
    let ?ready = "if ?deg ! ?t = 0 then insort ?t ready else ready"
    from Cons.prems(2,3) True have t: "?t < length deg" "0 < deg ! ?t" by (auto dest!: spec [of _ ?t])
    with True Cons.prems(1) have r: "relax c es ?deg ?ready = (deg', ready')" by (simp add: Let_def)
    have 1: "\<forall>e\<in>set es. re_target e < length ?deg" using Cons.prems(2) by simp
    have 2: "\<forall>v<length ?deg. edges_between c v es \<le> ?deg ! v"
      using Cons.prems(3) True t by (auto simp: nth_list_update split: if_splits)
    have nt: "?t \<notin> set ready" using Cons.prems(4) t by auto
    have 3: "\<forall>v\<in>set ?ready. v < length ?deg \<and> ?deg ! v = 0"
      using Cons.prems(4) t nt by (auto simp: set_insort_key nth_list_update)
    have 4: "distinct ?ready" "sorted ?ready"
      using Cons.prems(5,6) nt by (simp_all add: distinct_insort sorted_insort)
    have ih: "length deg' = length ?deg" "\<forall>v<length ?deg. deg' ! v = ?deg ! v - edges_between c v es"
      "set ready' = set ?ready \<union> {v. v < length ?deg \<and> 0 < edges_between c v es \<and> ?deg ! v = edges_between c v es}"
      "distinct ready'" "sorted ready'"
      using Cons.IH [OF r 1 2 3 4] by blast+
    have "set ready' = set ready \<union>
        {v. v < length deg \<and> 0 < edges_between c v (e # es) \<and> deg ! v = edges_between c v (e # es)}"
    proof (intro set_eqI)
      fix v
      show "v \<in> set ready' \<longleftrightarrow> v \<in> set ready \<union>
          {v. v < length deg \<and> 0 < edges_between c v (e # es) \<and> deg ! v = edges_between c v (e # es)}"
      proof (cases "v = ?t")
        case True
        with \<open>re_source e = c\<close> t nt 2 show ?thesis
          unfolding ih(3) by (auto simp: set_insort_key)
      next
        case False
        with t show ?thesis unfolding ih(3) by (simp add: set_insort_key)
      qed
    qed
    moreover have "\<forall>v<length deg. deg' ! v = deg ! v - edges_between c v (e # es)"
      using ih(2) True t by (auto simp: nth_list_update)
    ultimately show ?thesis using ih by simp
  next
    case False
    with Cons.prems(1) have r: "relax c es deg ready = (deg', ready')" by (auto simp: Let_def)
    from Cons.IH [OF r] Cons.prems False show ?thesis by simp
  qed
qed auto

definition kahn_inv :: "nat \<Rightarrow> (nat \<Rightarrow> bool) \<Rightarrow> resolved_edge list \<Rightarrow> nat list \<Rightarrow> nat list \<Rightarrow> nat list \<Rightarrow> bool" where
  "kahn_inv n kept live deg ready order \<longleftrightarrow>
     length deg = n \<and> (\<forall>v<n. deg ! v = waiting live (set order) v) \<and>
     set ready = {v. v < n \<and> kept v \<and> v \<notin> set order \<and> deg ! v = 0} \<and>
     distinct ready \<and> sorted ready \<and> distinct order \<and> (\<forall>v\<in>set order. v < n \<and> kept v) \<and>
     (\<forall>i<length order. \<forall>u. (u, order ! i) \<in> edge_rel live \<longrightarrow> u \<in> set (take i order)) \<and>
     (\<forall>i<length order. \<forall>v<n. kept v \<longrightarrow> v \<notin> set (take i order) \<longrightarrow>
        (\<forall>u. (u, v) \<in> edge_rel live \<longrightarrow> u \<in> set (take i order)) \<longrightarrow> order ! i \<le> v)"

definition live_in :: "nat \<Rightarrow> (nat \<Rightarrow> bool) \<Rightarrow> resolved_edge list \<Rightarrow> bool" where
  "live_in n kept live \<longleftrightarrow>
     (\<forall>e\<in>set live. re_source e < n \<and> re_target e < n \<and> re_source e \<noteq> re_target e \<and>
                   kept (re_source e) \<and> kept (re_target e))"

lemma kahn_step:
  assumes "live_in n kept live" "kahn_inv n kept live deg (c # ready) order"
    and "relax c live deg ready = (deg', ready')"
  shows "kahn_inv n kept live deg' ready' (order @ [c])"
proof -
  note inv = assms(2)[unfolded kahn_inv_def]
  have len: "length deg = n" and deg: "\<forall>v<n. deg ! v = waiting live (set order) v"
    and rd: "set (c # ready) = {v. v < n \<and> kept v \<and> v \<notin> set order \<and> deg ! v = 0}"
    and dis: "distinct (c # ready)" and srt: "sorted (c # ready)" using inv by blast+
  from rd have c: "c < n" "kept c" "c \<notin> set order" "deg ! c = 0" by auto
  have w: "waiting live (set order) v = waiting live (insert c (set order)) v + edges_between c v live" for v
    using c(3) by (rule waiting_insert)
  have "length deg' = length deg \<and> (\<forall>v<length deg. deg' ! v = deg ! v - edges_between c v live) \<and>
    set ready' = set ready \<union> {v. v < length deg \<and> 0 < edges_between c v live \<and> deg ! v = edges_between c v live} \<and>
    distinct ready' \<and> sorted ready'"
  proof (rule relax_spec [OF assms(3)])
    show "\<forall>e\<in>set live. re_target e < length deg" using assms(1) len by (auto simp: live_in_def)
    show "\<forall>v<length deg. edges_between c v live \<le> deg ! v" using deg w len by simp
    show "\<forall>v\<in>set ready. v < length deg \<and> deg ! v = 0" using rd dis len by auto
  qed (use dis srt in auto)
  then have r: "length deg' = n" "\<forall>v<n. deg' ! v = deg ! v - edges_between c v live"
    "set ready' = set ready \<union> {v. v < n \<and> 0 < edges_between c v live \<and> deg ! v = edges_between c v live}"
    "distinct ready'" "sorted ready'" using len by auto
  have deg': "\<forall>v<n. deg' ! v = waiting live (set (order @ [c])) v" using r(2) deg w by simp
  have kept_target: "kept v" if "0 < edges_between c v live" for v
    using that assms(1) by (auto simp: live_in_def edges_between_def filter_empty_conv)
  have not_seen: "v \<notin> set order" if "0 < edges_between c v live" for v
  proof
    assume "v \<in> set order"
    then obtain i where i: "i < length order" "order ! i = v" by (auto simp: in_set_conv_nth)
    from that have "(c, v) \<in> edge_rel live" by (auto simp: edges_between_def filter_empty_conv edge_rel_iff)
    with i inv have "c \<in> set (take i order)" by blast
    with c(3) show False by (auto dest: in_set_takeD)
  qed
  have not_self: "edges_between c c live = 0"
    using assms(1) by (auto simp: live_in_def edges_between_def filter_empty_conv)
  have ready': "set ready' = {v. v < n \<and> kept v \<and> v \<notin> set (order @ [c]) \<and> deg' ! v = 0}"
  proof (intro set_eqI iffI)
    fix v assume "v \<in> set ready'"
    then consider "v \<in> set ready"
      | "v < n" "0 < edges_between c v live" "deg ! v = edges_between c v live"
      unfolding r(3) by auto
    then show "v \<in> {v. v < n \<and> kept v \<and> v \<notin> set (order @ [c]) \<and> deg' ! v = 0}"
    proof cases
      case 1
      with rd have "v < n \<and> kept v \<and> v \<notin> set order \<and> deg ! v = 0" by auto
      with 1 r(2) dis show ?thesis by auto
    next
      case 2
      with r(2) kept_target not_seen not_self show ?thesis by (cases "v = c") auto
    qed
  next
    fix v assume v: "v \<in> {v. v < n \<and> kept v \<and> v \<notin> set (order @ [c]) \<and> deg' ! v = 0}"
    then have vn: "v < n" "deg' ! v = 0" by auto
    with deg' have "waiting live (insert c (set order)) v = 0" by fastforce
    with vn deg w [of v] have "deg ! v = edges_between c v live" by simp
    with v rd r(3) show "v \<in> set ready'" by (cases "deg ! v = 0") auto
  qed
  have before: "\<forall>i<length (order @ [c]). \<forall>u. (u, (order @ [c]) ! i) \<in> edge_rel live \<longrightarrow>
      u \<in> set (take i (order @ [c]))"
    using inv c deg by (auto simp: nth_append less_Suc_eq waiting_zero)
  have low: "c \<le> v" if "v < n" "kept v" "v \<notin> set order"
    "\<forall>u. (u, v) \<in> edge_rel live \<longrightarrow> u \<in> set order" for v
  proof -
    from that deg have "deg ! v = 0" by (simp add: waiting_zero)
    with that rd have "v \<in> set (c # ready)" by blast
    with srt show ?thesis by auto
  qed
  have lowest: "\<forall>i<length (order @ [c]). \<forall>v<n. kept v \<longrightarrow> v \<notin> set (take i (order @ [c])) \<longrightarrow>
      (\<forall>u. (u, v) \<in> edge_rel live \<longrightarrow> u \<in> set (take i (order @ [c]))) \<longrightarrow> (order @ [c]) ! i \<le> v"
    using inv low by (auto simp: nth_append less_Suc_eq)
  have "distinct (order @ [c])" "\<forall>v\<in>set (order @ [c]). v < n \<and> kept v" using inv c by auto
  with r deg' ready' before lowest show ?thesis unfolding kahn_inv_def by blast
qed

lemma kahn_end:
  "live_in n kept live \<Longrightarrow> kahn_inv n kept live deg ready order \<Longrightarrow>
     \<exists>deg'. kahn_inv n kept live deg' [] (kahn live deg ready order)"
proof (induction live deg ready order rule: kahn.induct)
  case (2 live deg current ready order)
  obtain deg' ready' where r: "relax current live deg ready = (deg', ready')" by (metis prod.exhaust)
  from 2(1) [OF r [symmetric] 2(2) kahn_step [OF 2(2,3) r]] r show ?case by simp
qed auto

lemma live_edge_rel:
  "(u, v) \<in> edge_rel (live_edges dropped es) \<longleftrightarrow> (u, v) \<in> edge_rel es \<and> \<not> dropped ! u \<and> \<not> dropped ! v"
  by (auto simp: edge_rel_iff live_edges_def)

lemma live_in_live_edges:
  "resolved_doc n es \<Longrightarrow> live_in n (\<lambda>p. \<not> dropped ! p) (live_edges dropped es)"
  by (auto simp: live_in_def live_edges_def resolved_doc_def)

definition document_order :: "pipeline_doc \<Rightarrow> resolved_edge list \<Rightarrow> bool list \<Rightarrow> nat list" where
  "document_order d es dropped =
     (let n = length (doc_nodes d); deg = in_degrees n (live_edges dropped es)
      in kahn (live_edges dropped es) deg (filter (\<lambda>p. \<not> dropped ! p \<and> deg ! p = 0) [0..<n]) [])"

lemma document_order_inv:
  assumes "resolved_doc (length (doc_nodes d)) es"
  shows "\<exists>deg. kahn_inv (length (doc_nodes d)) (\<lambda>p. \<not> dropped ! p) (live_edges dropped es) deg []
    (document_order d es dropped)"
  unfolding document_order_def Let_def
proof (rule kahn_end [OF live_in_live_edges [OF assms]])
  let ?n = "length (doc_nodes d)" and ?live = "live_edges dropped es"
  let ?deg = "in_degrees ?n ?live"
  let ?ready = "filter (\<lambda>p. \<not> dropped ! p \<and> ?deg ! p = 0) [0..<?n]"
  have "length ?deg = ?n" "\<forall>v<?n. ?deg ! v = waiting ?live (set []) v"
    by (simp_all add: in_degrees_def waiting_def)
  moreover have "set ?ready = {v. v < ?n \<and> \<not> dropped ! v \<and> v \<notin> set [] \<and> ?deg ! v = 0}" by auto
  moreover have "distinct ?ready" "sorted ?ready" by (simp_all add: sorted_wrt_filter)
  ultimately show "kahn_inv ?n (\<lambda>p. \<not> dropped ! p) ?live ?deg ?ready []"
    unfolding kahn_inv_def by simp
qed

lemma topological_order_cases:
  "topological_order d es dropped =
     (let n = length (doc_nodes d); order = document_order d es dropped
      in if length order \<noteq> length (filter (\<lambda>p. \<not> dropped ! p) [0..<n])
         then Inl (CycleError (map (id_at d) (filter (\<lambda>p. \<not> dropped ! p \<and> p \<notin> set order) [0..<n])))
         else Inr order)"
  by (simp add: topological_order_def document_order_def Let_def)

lemma complete_iff:
  assumes "distinct order" "set order \<subseteq> {p. p < n \<and> \<not> dropped ! p}"
  shows "length order = length (filter (\<lambda>p. \<not> dropped ! p) [0..<n]) \<longleftrightarrow>
    set order = {p. p < n \<and> \<not> dropped ! p}"
proof -
  let ?k = "filter (\<lambda>p. \<not> dropped ! p) [0..<n]"
  have "length ?k = card (set ?k)" by (rule distinct_card [symmetric]) simp
  moreover have "set ?k = {p. p < n \<and> \<not> dropped ! p}" by auto
  ultimately have e: "length ?k = card {p. p < n \<and> \<not> dropped ! p}" by simp
  have f: "finite {p. p < n \<and> \<not> dropped ! p}" by simp
  have "length order = card (set order)" using assms(1) by (simp add: distinct_card)
  with e card_subset_eq [OF f assms(2)] show ?thesis by argo
qed

lemma kahn_inv_facts:
  assumes "kahn_inv n kept live deg ready order"
  shows "distinct order" "set order \<subseteq> {p. p < n \<and> kept p}"
    and "i < length order \<Longrightarrow> (u, order ! i) \<in> edge_rel live \<Longrightarrow> u \<in> set (take i order)"
    and "i < length order \<Longrightarrow> v < n \<Longrightarrow> kept v \<Longrightarrow> v \<notin> set (take i order) \<Longrightarrow>
      \<forall>u. (u, v) \<in> edge_rel live \<longrightarrow> u \<in> set (take i order) \<Longrightarrow> order ! i \<le> v"
  using assms unfolding kahn_inv_def by blast+

definition before_in :: "'a list \<Rightarrow> 'a \<Rightarrow> 'a \<Rightarrow> bool" where
  "before_in order u v \<longleftrightarrow> (\<exists>i j. i < j \<and> j < length order \<and> order ! i = u \<and> order ! j = v)"

lemma before_in_trans:
  assumes "distinct order" "before_in order u v" "before_in order v w"
  shows "before_in order u w"
proof -
  from assms(2) obtain i j where 1: "i < j" "j < length order" "order ! i = u" "order ! j = v"
    by (auto simp: before_in_def)
  from assms(3) obtain k l where 2: "k < l" "l < length order" "order ! k = v" "order ! l = w"
    by (auto simp: before_in_def)
  from 1 2 assms(1) have "j = k" by (metis nth_eq_iff_index_eq order.strict_trans)
  with 1 2 have "i < l" by simp
  with 1 2 show ?thesis unfolding before_in_def by blast
qed

lemma before_in_irrefl: "distinct order \<Longrightarrow> \<not> before_in order u u"
  by (auto simp: before_in_def nth_eq_iff_index_eq)

lemma ordered_after_sources:
  assumes "kahn_inv n kept live deg ready order" "(u, v) \<in> edge_rel live" "v \<in> set order"
  shows "before_in order u v"
proof -
  from assms(3) obtain j where j: "j < length order" "order ! j = v" by (auto simp: in_set_conv_nth)
  with kahn_inv_facts(3) [OF assms(1), of j u] assms(2) have "u \<in> set (take j order)" by blast
  then obtain i where "i < j" "order ! i = u" using j(1) by (auto simp: in_set_conv_nth)
  with j show ?thesis unfolding before_in_def by blast
qed

lemma ordered_after_ancestors:
  assumes "kahn_inv n kept live deg ready order" "(u, v) \<in> (edge_rel live)\<^sup>+" "v \<in> set order"
  shows "before_in order u v"
  using assms(2,3)
proof (induction rule: trancl_induct)
  case (base v)
  with ordered_after_sources [OF assms(1)] show ?case by blast
next
  case (step v w)
  from ordered_after_sources [OF assms(1) step(2,4)] have b: "before_in order v w" .
  then have "v \<in> set order" by (auto simp: before_in_def)
  with step b before_in_trans [OF kahn_inv_facts(1) [OF assms(1)]] show ?case by blast
qed

lemma cycle_above:
  assumes "finite R" "v \<in> R" "\<And>x. x \<in> R \<Longrightarrow> \<exists>w\<in>R. (w, x) \<in> E"
  shows "\<exists>u. (u, u) \<in> E\<^sup>+ \<and> (u, v) \<in> E\<^sup>*"
proof (rule ccontr)
  assume no: "\<not> ?thesis"
  let ?A = "{x \<in> R. (x, v) \<in> E\<^sup>*}"
  let ?F = "E \<inter> ?A \<times> ?A"
  have "acyclic ?F"
  proof (rule acyclicI, intro allI notI)
    fix x assume "(x, x) \<in> ?F\<^sup>+"
    then have "(x, x) \<in> E\<^sup>+" by (rule trancl_mono_subset [THEN subsetD, rotated]) blast
    moreover from \<open>(x, x) \<in> ?F\<^sup>+\<close> have "x \<in> ?A" by (auto dest: tranclD)
    ultimately show False using no by blast
  qed
  moreover have "finite ?F" using assms(1) by (auto intro: finite_subset [of _ "R \<times> R"])
  ultimately have wf: "wf ?F" by (rule finite_acyclic_wf [rotated])
  have v: "v \<in> ?A" using assms(2) by simp
  obtain m where m: "m \<in> ?A" "\<And>y. (y, m) \<in> ?F \<Longrightarrow> y \<notin> ?A"
    by (rule wfE_min [OF wf v]) blast
  from m(1) assms(3) obtain w where "w \<in> R" "(w, m) \<in> E" by blast
  with m(1) have "w \<in> ?A" by (auto intro: converse_rtrancl_into_rtrancl)
  with m \<open>(w, m) \<in> E\<close> show False by blast
qed

lemma left_over:
  assumes "live_in n kept live" "kahn_inv n kept live deg [] order" "v < n" "kept v"
  shows "v \<notin> set order \<longleftrightarrow> (\<exists>u. (u, u) \<in> (edge_rel live)\<^sup>+ \<and> (u, v) \<in> (edge_rel live)\<^sup>*)"
proof
  assume v: "v \<notin> set order"
  let ?R = "{p. p < n \<and> kept p \<and> p \<notin> set order}"
  have "\<exists>w\<in>?R. (w, x) \<in> edge_rel live" if "x \<in> ?R" for x
  proof -
    from assms(2) that have "waiting live (set order) x \<noteq> 0" by (auto simp: kahn_inv_def)
    then obtain w where w: "(w, x) \<in> edge_rel live" "w \<notin> set order" by (auto simp: waiting_zero)
    with assms(1) have "w < n" "kept w" by (auto simp: live_in_def edge_rel_iff)
    with w show ?thesis by blast
  qed
  with v assms(3,4) show "\<exists>u. (u, u) \<in> (edge_rel live)\<^sup>+ \<and> (u, v) \<in> (edge_rel live)\<^sup>*"
    by (intro cycle_above [of ?R]) auto
next
  assume "\<exists>u. (u, u) \<in> (edge_rel live)\<^sup>+ \<and> (u, v) \<in> (edge_rel live)\<^sup>*"
  then obtain u where u: "(u, u) \<in> (edge_rel live)\<^sup>+" "(u, v) \<in> (edge_rel live)\<^sup>*" by blast
  have irr: "u \<notin> set order"
    using ordered_after_ancestors [OF assms(2) u(1)] before_in_irrefl [OF kahn_inv_facts(1) [OF assms(2)]]
    by blast
  show "v \<notin> set order"
  proof
    assume v: "v \<in> set order"
    with u(2) irr have "(u, v) \<in> (edge_rel live)\<^sup>+" by (auto simp: rtrancl_eq_or_trancl)
    from ordered_after_ancestors [OF assms(2) this v] irr show False by (auto simp: before_in_def)
  qed
qed

section \<open>The properties\<close>

lemma topological_order_Inr:
  assumes "resolved_doc (length (doc_nodes d)) es" "topological_order d es dropped = Inr order"
  shows "distinct order" "set order = {p. p < length (doc_nodes d) \<and> \<not> dropped ! p}"
    and "\<exists>deg. kahn_inv (length (doc_nodes d)) (\<lambda>p. \<not> dropped ! p) (live_edges dropped es) deg [] order"
proof -
  from document_order_inv [OF assms(1)] obtain deg where
    inv: "kahn_inv (length (doc_nodes d)) (\<lambda>p. \<not> dropped ! p) (live_edges dropped es) deg []
      (document_order d es dropped)" by blast
  from assms(2) have o: "document_order d es dropped = order"
    and l: "length order = length (filter (\<lambda>p. \<not> dropped ! p) [0..<length (doc_nodes d)])"
    by (simp_all add: topological_order_cases Let_def split: if_splits)
  from inv o show "distinct order" and
    "\<exists>deg. kahn_inv (length (doc_nodes d)) (\<lambda>p. \<not> dropped ! p) (live_edges dropped es) deg [] order"
    using kahn_inv_facts(1) by blast+
  from l complete_iff kahn_inv_facts(1,2) [OF inv] o
  show "set order = {p. p < length (doc_nodes d) \<and> \<not> dropped ! p}" by blast
qed

lemma topological_order_Inl:
  assumes "resolved_doc (length (doc_nodes d)) es"
  shows "(\<exists>e. topological_order d es dropped = Inl e) \<longleftrightarrow> \<not> acyclic (edge_rel (live_edges dropped es))"
    and "topological_order d es dropped = Inl e \<Longrightarrow>
      e = CycleError (map (id_at d) (filter (\<lambda>p. \<not> dropped ! p \<and>
            (\<exists>u. (u, u) \<in> (edge_rel (live_edges dropped es))\<^sup>+ \<and>
                 (u, p) \<in> (edge_rel (live_edges dropped es))\<^sup>*)) [0..<length (doc_nodes d)]))"
proof -
  let ?n = "length (doc_nodes d)" and ?live = "live_edges dropped es"
  let ?order = "document_order d es dropped"
  from document_order_inv [OF assms] obtain deg where
    inv: "kahn_inv ?n (\<lambda>p. \<not> dropped ! p) ?live deg [] ?order" by blast
  note li = live_in_live_edges [OF assms, of dropped]
  note left = left_over [OF li inv]
  have complete: "(\<exists>e. topological_order d es dropped = Inl e) \<longleftrightarrow>
      set ?order \<noteq> {p. p < ?n \<and> \<not> dropped ! p}"
    using complete_iff kahn_inv_facts(1,2) [OF inv] by (simp add: topological_order_cases Let_def)
  also have "\<dots> \<longleftrightarrow> (\<exists>v<?n. \<not> dropped ! v \<and> v \<notin> set ?order)"
    using kahn_inv_facts(2) [OF inv] by blast
  also have "\<dots> \<longleftrightarrow> \<not> acyclic (edge_rel ?live)"
  proof
    assume "\<exists>v<?n. \<not> dropped ! v \<and> v \<notin> set ?order"
    with left show "\<not> acyclic (edge_rel ?live)" by (auto simp: acyclic_def)
  next
    assume "\<not> acyclic (edge_rel ?live)"
    then obtain u where u: "(u, u) \<in> (edge_rel ?live)\<^sup>+" by (auto simp: acyclic_def)
    then obtain w where "(u, w) \<in> edge_rel ?live" by (auto dest: tranclD)
    with li have "u < ?n" "\<not> dropped ! u" by (auto simp: live_in_def edge_rel_iff)
    with left u show "\<exists>v<?n. \<not> dropped ! v \<and> v \<notin> set ?order" by blast
  qed
  finally show "(\<exists>e. topological_order d es dropped = Inl e) \<longleftrightarrow> \<not> acyclic (edge_rel ?live)" .
  show "e = CycleError (map (id_at d) (filter (\<lambda>p. \<not> dropped ! p \<and>
      (\<exists>u. (u, u) \<in> (edge_rel ?live)\<^sup>+ \<and> (u, p) \<in> (edge_rel ?live)\<^sup>*)) [0..<?n]))"
    if e: "topological_order d es dropped = Inl e"
  proof -
    from e have "e = CycleError (map (id_at d) (filter (\<lambda>p. \<not> dropped ! p \<and> p \<notin> set ?order) [0..<?n]))"
      by (auto simp: topological_order_cases Let_def split: if_splits)
    also have "filter (\<lambda>p. \<not> dropped ! p \<and> p \<notin> set ?order) [0..<?n] =
        filter (\<lambda>p. \<not> dropped ! p \<and> (\<exists>u. (u, u) \<in> (edge_rel ?live)\<^sup>+ \<and> (u, p) \<in> (edge_rel ?live)\<^sup>*)) [0..<?n]"
      using left by (intro filter_cong) auto
    finally show ?thesis .
  qed
qed

text \<open>A small document: \<^verbatim>\<open>c\<close> reads \<^verbatim>\<open>a\<close> and \<^verbatim>\<open>b\<close>, and \<^verbatim>\<open>d\<close> reads \<^verbatim>\<open>off\<close>, which is switched off.\<close>

definition sample_data :: "str \<Rightarrow> bool \<Rightarrow> node_data" where
  "sample_data component off = \<lparr> nd_label = [], nd_subtitle = None, nd_component_id = Some component,
     nd_properties = None, nd_schema = None, nd_sample_rows = None, nd_disabled = Some off,
     nd_materialize = None, nd_alias = None, nd_policy = None, nd_incremental = None, nd_extra = [] \<rparr>"

definition sample_node :: "str \<Rightarrow> str \<Rightarrow> bool \<Rightarrow> pipeline_node" where
  "sample_node i component off = \<lparr> pn_id = i, pn_flow_type = None, pn_position = ([], []),
     pn_data = sample_data component off, pn_extra = [] \<rparr>"

definition sample_edge :: "str \<Rightarrow> str \<Rightarrow> pipeline_edge" where
  "sample_edge u v = \<lparr> pe_id = u @ v, pe_source = u, pe_target = v, pe_source_handle = None,
     pe_target_handle = None, pe_edge_type = None, pe_data = None, pe_extra = [] \<rparr>"

definition sample_doc :: "pipeline_edge list \<Rightarrow> pipeline_doc" where
  "sample_doc edges = \<lparr> doc_format_version = 1, doc_name = None,
     doc_nodes = [sample_node ''c'' ''xf.join'' False, sample_node ''a'' ''src.csv'' False,
       sample_node ''b'' ''src.csv'' False, sample_node ''d'' ''snk.csv'' False,
       sample_node ''off'' ''src.csv'' True],
     doc_edges = edges, doc_resource_pool = [], doc_parameters = [], doc_extra = [] \<rparr>"

definition sample_edges :: "pipeline_edge list" where
  "sample_edges = [sample_edge ''a'' ''c'', sample_edge ''b'' ''c'', sample_edge ''off'' ''d'']"

definition sample_index :: "(str \<times> nat) list" where
  "sample_index = [(''off'', 4), (''d'', 3), (''b'', 2), (''a'', 1), (''c'', 0)]"

definition plain_edge :: "nat \<Rightarrow> nat \<Rightarrow> resolved_edge" where
  "plain_edge u v = \<lparr> re_source = u, re_target = v, re_source_handle = None, re_target_handle = None \<rparr>"

lemma sample_graph:
  "build_index 0 [] (doc_nodes (sample_doc es)) = Inr sample_index"
  "resolve_edges (sample_doc sample_edges) sample_index =
     Inr [plain_edge 1 0, plain_edge 2 0, plain_edge 4 3]"
  "resolve_edges (sample_doc [sample_edge ''a'' ''b'', sample_edge ''b'' ''a'', sample_edge ''b'' ''c'']) sample_index =
     Inr [plain_edge 1 2, plain_edge 2 1, plain_edge 2 0]"
  "drop_disabled (sample_doc sample_edges) [plain_edge 1 0, plain_edge 2 0, plain_edge 4 3] =
     ([False, False, False, True, True],
      [DisabledSkipped ''off'', DroppedDownstreamOfDisabled ''d'' ''off''])"
  "topological_order (sample_doc sample_edges) [plain_edge 1 0, plain_edge 2 0, plain_edge 4 3]
     [False, False, False, True, True] = Inr [1, 2, 0]"
  by (simp_all add: sample_doc_def sample_node_def sample_data_def sample_edge_def sample_edges_def
      sample_index_def plain_edge_def resolve_edges_def resolve_edge_def drop_disabled_def
      disabled_positions_def is_disabled_def id_at_def topological_order_def live_edges_def
      in_degrees_def Let_def upt_conv_Cons)

lemma sample_length: "length (doc_nodes (sample_doc es)) = 5"
  by (simp add: sample_doc_def)

text \<open>
  C4: A node is dropped exactly when it is switched off or lies downstream of a node that is:
  after the ids are indexed and the edges resolved, the flag of a position is set if and only if
  some switched-off position reaches it along the edges of the document.
\<close>

theorem dropped_exactly_downstream:
  assumes "build_index 0 [] (doc_nodes d) = Inr idx" "resolve_edges d idx = Inr es"
    and "drop_disabled d es = (dropped, ws)" "i < length (doc_nodes d)"
  shows "dropped ! i \<longleftrightarrow> (\<exists>j<length (doc_nodes d).
    is_disabled (pn_data (doc_nodes d ! j)) \<and> (j, i) \<in> (edge_rel es)\<^sup>*)"
  by (rule drop_disabled_spec(2) [OF resolve_edges_resolved [OF assms(1,2)] assms(3,4)])

theorem dropped_exactly_downstream_witness:
  "\<exists>j<5. is_disabled (pn_data (doc_nodes (sample_doc sample_edges) ! j)) \<and>
     (j, 3) \<in> (edge_rel [plain_edge 1 0, plain_edge 2 0, plain_edge 4 3])\<^sup>*"
  using dropped_exactly_downstream [OF sample_graph(1,2,4), of 3] unfolding sample_length by simp

text \<open>
  C2: The order the compiler runs in is a topological order of the kept nodes, and a stable one:
  every node that was not dropped appears exactly once, no dropped node appears, every node
  comes after each kept node it reads, and each step takes the lowest document position among
  the nodes whose inputs have all been placed.
\<close>

theorem order_is_topological:
  assumes "build_index 0 [] (doc_nodes d) = Inr idx" "resolve_edges d idx = Inr es"
    and "topological_order d es dropped = Inr order"
  shows "distinct order \<and> set order = {p. p < length (doc_nodes d) \<and> \<not> dropped ! p} \<and>
    (\<forall>e\<in>set es. \<not> dropped ! re_source e \<and> \<not> dropped ! re_target e \<longrightarrow>
       before_in order (re_source e) (re_target e)) \<and>
    (\<forall>i<length order. \<forall>v\<in>set order - set (take i order).
       (\<forall>u. (u, v) \<in> edge_rel es \<and> \<not> dropped ! u \<longrightarrow> u \<in> set (take i order)) \<longrightarrow> order ! i \<le> v)"
proof -
  note r = resolve_edges_resolved [OF assms(1,2)]
  note o = topological_order_Inr [OF r assms(3)]
  from o(3) obtain deg where inv: "kahn_inv (length (doc_nodes d)) (\<lambda>p. \<not> dropped ! p)
    (live_edges dropped es) deg [] order" by blast
  have "before_in order (re_source e) (re_target e)"
    if "e \<in> set es" "\<not> dropped ! re_source e" "\<not> dropped ! re_target e" for e
  proof (rule ordered_after_sources [OF inv])
    show "(re_source e, re_target e) \<in> edge_rel (live_edges dropped es)"
      using that edge_relI live_edge_rel by blast
    show "re_target e \<in> set order" using that o(2) r by (auto simp: resolved_doc_def)
  qed
  moreover have "order ! i \<le> v" if "i < length order" "v \<in> set order - set (take i order)"
    "\<forall>u. (u, v) \<in> edge_rel es \<and> \<not> dropped ! u \<longrightarrow> u \<in> set (take i order)" for i v
    using kahn_inv_facts(4) [OF inv that(1), of v] that o(2) live_edge_rel by blast
  ultimately show ?thesis using o(1,2) by blast
qed

theorem order_is_topological_witness:
  "before_in [1, 2, 0 :: nat] 2 0 \<and> set [1, 2, 0 :: nat] = {p. p < 5 \<and> \<not> [False, False, False, True, True] ! p}"
  using order_is_topological [OF sample_graph(1,2,5)] unfolding sample_length
  by (simp add: plain_edge_def)

text \<open>
  C3: The compiler reports a cycle exactly when there is one: ordering fails if and only if the
  edges between kept nodes have a cycle, and the error lists, in document order, exactly the
  kept nodes that lie on a cycle or downstream of one.
\<close>

theorem cycle_reported_exactly:
  assumes "build_index 0 [] (doc_nodes d) = Inr idx" "resolve_edges d idx = Inr es"
  shows "((\<exists>e. topological_order d es dropped = Inl e) \<longleftrightarrow>
      \<not> acyclic (edge_rel (live_edges dropped es))) \<and>
    (\<forall>e. topological_order d es dropped = Inl e \<longrightarrow>
      e = CycleError (map (id_at d) (filter (\<lambda>p. \<not> dropped ! p \<and>
            (\<exists>u. (u, u) \<in> (edge_rel (live_edges dropped es))\<^sup>+ \<and>
                 (u, p) \<in> (edge_rel (live_edges dropped es))\<^sup>*)) [0..<length (doc_nodes d)])))"
  using topological_order_Inl [OF resolve_edges_resolved [OF assms]] by blast

theorem cycle_reported_exactly_witness:
  "\<exists>e. topological_order
     (sample_doc [sample_edge ''a'' ''b'', sample_edge ''b'' ''a'', sample_edge ''b'' ''c''])
     [plain_edge 1 2, plain_edge 2 1, plain_edge 2 0] [False, False, False, True, True] = Inl e"
proof -
  let ?E = "edge_rel (live_edges [False, False, False, True, True]
    [plain_edge 1 2, plain_edge 2 1, plain_edge 2 0])"
  have "(1, 2) \<in> ?E" "(2, 1) \<in> ?E" by (simp_all add: live_edges_def plain_edge_def edge_rel_def)
  then have "(1, 1) \<in> ?E\<^sup>+" by (meson trancl.simps)
  then have "\<not> acyclic ?E" by (auto simp: acyclic_def)
  with cycle_reported_exactly [OF sample_graph(1,3), of "[False, False, False, True, True]"]
  show ?thesis by blast
qed

end
