(* ===== verification/Plan_Stage.thy ===== *)
theory Plan_Stage
  imports Reader_Writer_Builders Transform_Builders Plan_Order
begin

text \<open>
  The second half of the compiler in \<^verbatim>\<open>crates/duckdb-engine/src/plan/mod.rs\<close>: \<^verbatim>\<open>build_stages\<close>,
  the checks around it, and \<^verbatim>\<open>compile_with\<close> itself. The component registry, the native components
  and what the workspace remembers are arguments. What lowering notices on the way is returned
  beside each stage in place of the \<^verbatim>\<open>&mut Noticed\<close> of the source.
\<close>

section \<open>Around the stages\<close>

type_synonym registry = "str \<Rightarrow> (component_spec \<times> build) option"

record compile_options =
  opt_watermarks :: "(str, str) om"
  opt_checkpoints :: "(str, json) om"

definition compile_options_default :: compile_options where
  "compile_options_default = \<lparr> opt_watermarks = [], opt_checkpoints = [] \<rparr>"

record noticed =
  no_unknown_properties :: "unknown_property list"
  no_unknown_materialize :: "plan_warning list"
  no_ignored_incremental :: "plan_warning list"

definition reserve_suffix :: "pipeline_node list \<Rightarrow> engine_error + unit" where
  "reserve_suffix nodes = (case find (\<lambda>n. ends_with (pn_id n) REJECT_SUFFIX) nodes of
     None \<Rightarrow> Inr ()
   | Some n \<Rightarrow> Inl (ReservedNodeId (pn_id n) REJECT_SUFFIX))"

definition lookup_component :: "registry \<Rightarrow> str \<Rightarrow> str \<Rightarrow> engine_error + component_spec \<times> build" where
  "lookup_component reg node_id component_id =
     ok_or (UnsupportedComponent node_id component_id) (reg component_id)"

definition check_port :: "registry \<Rightarrow> pipeline_doc \<Rightarrow> input \<Rightarrow> engine_error + unit" where
  "check_port reg d i = (case doc_node d (in_node_id i) of
     None \<Rightarrow> Inr ()
   | Some upstream \<Rightarrow>
       (case nd_component_id (pn_data upstream) of
          None \<Rightarrow> Inr ()
        | Some c \<Rightarrow>
            (case reg c of
               None \<Rightarrow> Inr ()
             | Some (spec, _) \<Rightarrow>
                 if has_output spec (in_source_handle i) then Inr ()
                 else Inl (UnknownPort (pn_id upstream) c
                        (case in_source_handle i of Some h \<Rightarrow> h | None \<Rightarrow> [])
                        (output_names spec)))))"

definition check_ports :: "registry \<Rightarrow> pipeline_doc \<Rightarrow> input list \<Rightarrow> engine_error + unit" where
  "check_ports reg d inputs = and_then (traverse (check_port reg d) inputs) (\<lambda>_. Inr ())"

definition stage_inputs :: "pipeline_doc \<Rightarrow> resolved_edge list \<Rightarrow> nat \<Rightarrow> input list" where
  "stage_inputs d es p =
     map (\<lambda>e. \<lparr> in_node_id = id_at d (re_source e), in_source_handle = re_source_handle e,
                in_target_handle = re_target_handle e \<rparr>)
       (filter (\<lambda>e. re_target e = p) es)"

definition stage_from :: "input list \<Rightarrow> str option" where
  "stage_from inputs = (case inputs of [only] \<Rightarrow> Some (input_relation only) | _ \<Rightarrow> None)"

definition wanted_materialize :: "str \<Rightarrow> str option \<Rightarrow> materialize \<times> plan_warning list" where
  "wanted_materialize node_id asked = (case asked of
     None \<Rightarrow> (MatAuto, [])
   | Some token \<Rightarrow>
       (case materialize_parse token of
          Some m \<Rightarrow> (m, [])
        | None \<Rightarrow> (MatAuto, [UnknownMaterialize node_id token])))"

definition stage_incremental_of ::
  "compile_options \<Rightarrow> stage_kind \<Rightarrow> str \<Rightarrow> str \<Rightarrow> incremental option
     \<Rightarrow> stage_incremental option \<times> plan_warning list" where
  "stage_incremental_of opts kind node_id component_id inc = (case inc of
     None \<Rightarrow> (None, [])
   | Some declared \<Rightarrow>
       if kind \<noteq> StSource then (None, [IncrementalIgnored node_id component_id])
       else (Some \<lparr> si_column = inc_column declared,
                    si_since = (case om_get (opt_watermarks opts) node_id of
                        Some w \<Rightarrow> Some w | None \<Rightarrow> inc_start declared),
                    si_probe = watermark_probe node_id (inc_column declared) \<rparr>, []))"

definition connector_checked :: "str \<Rightarrow> connector option \<Rightarrow> json \<Rightarrow> engine_error + unit" where
  "connector_checked node_id conn properties = (case conn of
     None \<Rightarrow> Inr ()
   | Some c \<Rightarrow> map_err (\<lambda>e. case e of
         PropertyError p reason \<Rightarrow> InvalidProperty node_id p reason
       | other \<Rightarrow> InvalidProperty node_id ''properties'' (connector_error_text other))
       (connector_check c properties))"

definition direction_of :: "connector \<Rightarrow> direction" where
  "direction_of c = (case c of
     ConnSource _ \<Rightarrow> Ingest | ConnSink _ \<Rightarrow> Egress | ConnTransform _ \<Rightarrow> DirTransform)"

definition str_property :: "json \<Rightarrow> str \<Rightarrow> str option" where
  "str_property properties key = Option.bind (json_get properties key) json_as_str"

definition stage_external :: "stage_kind \<Rightarrow> direction option \<Rightarrow> json \<Rightarrow> str option" where
  "stage_external kind dir properties =
     (if kind = StTransform \<and> dir = Some DirTransform then
        (case str_property properties ''base_url'' of
           Some url \<Rightarrow> if trim url \<noteq> [] then Some (url_for_lineage url) else None
         | None \<Rightarrow> None)
      else if kind = StSource \<or> kind = StSink then
        (case str_property properties ''path'' of
           Some p \<Rightarrow> Some p
         | None \<Rightarrow>
             (case str_property properties ''url'' of
                Some url \<Rightarrow> Some (url_for_lineage url)
              | None \<Rightarrow>
                  (case str_property properties ''table'' of
                     None \<Rightarrow> None
                   | Some table \<Rightarrow> Some (case str_property properties ''schema'' of
                         Some schema \<Rightarrow> schema @ ''.'' @ table | None \<Rightarrow> table))))
      else None)"

section \<open>Building a stage\<close>

text \<open>
  \<open>lower_stage\<close> is the half of the loop body that follows the checks of the node against its spec.
\<close>

definition lower_stage :: "connectors \<Rightarrow> compile_options \<Rightarrow> pipeline_node \<Rightarrow> stage_kind \<Rightarrow> str
    \<Rightarrow> input list \<Rightarrow> component_spec \<Rightarrow> build \<Rightarrow> json \<Rightarrow> unknown_property list
    \<Rightarrow> engine_error + stage \<times> noticed" where
  "lower_stage conns opts node kind component_id inputs spec build_sql properties unknown =
     (let data = pn_data node; i = pn_id node;
          from_rel = stage_from inputs;
          splits = has_reject_port spec;
          asked = wanted_materialize i (nd_materialize data);
          mat = (if produces_relation kind then fst asked else MatAuto);
          spill = (if mat = MatDisk then Some (SPILL_DIR @ ''/'' @ i @ ''.parquet'') else None);
          loads = stage_incremental_of opts kind i component_id (nd_incremental data);
          conn = conns component_id;
          dir = map_option direction_of conn;
          staging = map_option (\<lambda>_. NATIVE_DIR @ ''/'' @ i @ ''.jsonl'') dir;
          feed_file = (if dir = Some DirTransform then Some (NATIVE_DIR @ ''/'' @ i @ ''.in.jsonl'') else None);
          low = \<lparr> lo_node_id = i, lo_component_id = component_id, lo_properties = properties,
                  lo_inputs = inputs, lo_alias = nd_alias data, lo_materialize = mat,
                  lo_spill_path = spill, lo_staging = staging,
                  lo_incremental = map_option (\<lambda>s. \<lparr> fi_column = si_column s, fi_since = si_since s \<rparr>) (fst loads) \<rparr>
      in and_then (connector_checked i conn properties) (\<lambda>_.
         and_then (build_sql low) (\<lambda>sql.
         and_then (case feed_file of
             Some file \<Rightarrow> and_then (native_feed conns low file) (\<lambda>f. Inr (Some f))
           | None \<Rightarrow> Inr None) (\<lambda>feed.
         and_then (case cs_control spec of
             None \<Rightarrow> Inr None
           | Some k \<Rightarrow> and_then (control_for k i component_id properties inputs) (\<lambda>c. Inr (Some c))) (\<lambda>ctl.
         if contains_install sql then Inl (RawInstall i)
         else Inr (\<lparr> st_node_id = i, st_component_id = component_id, st_label = nd_label data,
                st_kind = kind, st_splits = splits, st_sql = sql,
                st_counts = count_probes i kind splits from_rel, st_inputs = inputs, st_from = from_rel,
                st_alias = nd_alias data,
                st_sink_path = (if kind = StSink then str_property properties ''path'' else None),
                st_sink_mode = (if kind = StSink then str_property properties ''mode'' else None),
                st_materialize = mat, st_spill_path = spill,
                st_requires_extensions = cs_requires_extensions spec,
                st_policy = policy_from_node (nd_policy data), st_control = ctl,
                st_incremental = fst loads, st_external = stage_external kind dir properties,
                st_native = map_option (\<lambda>dr. \<lparr> ns_direction = dr, ns_properties = properties,
                  ns_staging = NATIVE_DIR @ ''/'' @ i @ ''.jsonl'',
                  ns_checkpoint = (if dr = Ingest then om_get (opt_checkpoints opts) i else None),
                  ns_input = feed_file, ns_feed = feed \<rparr>) dir \<rparr>,
              \<lparr> no_unknown_properties = unknown, no_unknown_materialize = snd asked,
                no_ignored_incremental = snd loads \<rparr>))))))"

definition build_stage :: "registry \<Rightarrow> connectors \<Rightarrow> pipeline_doc \<Rightarrow> stage_kind list
    \<Rightarrow> resolved_edge list \<Rightarrow> compile_options \<Rightarrow> nat \<Rightarrow> engine_error + stage \<times> noticed" where
  "build_stage reg conns d kinds es opts p =
     (let node = doc_nodes d ! p; i = pn_id node;
          component_id = (case nd_component_id (pn_data node) of Some c \<Rightarrow> c | None \<Rightarrow> []);
          inputs = stage_inputs d es p
      in and_then (check_ports reg d inputs) (\<lambda>_.
         and_then (lookup_component reg i component_id) (\<lambda>component.
         and_then (check_input_count i (fst component) (length inputs)) (\<lambda>_.
         and_then (resolve_properties i (fst component) (properties_or_null (pn_data node))) (\<lambda>checked.
         lower_stage conns opts node (kinds ! p) component_id inputs (fst component) (snd component)
           (fst checked) (snd checked))))))"

definition build_stages :: "registry \<Rightarrow> connectors \<Rightarrow> pipeline_doc \<Rightarrow> stage_kind list
    \<Rightarrow> resolved_edge list \<Rightarrow> nat list \<Rightarrow> compile_options \<Rightarrow> engine_error + (stage \<times> noticed) list" where
  "build_stages reg conns d kinds es order opts = traverse (build_stage reg conns d kinds es opts) order"

definition collect_graph_warnings ::
  "pipeline_doc \<Rightarrow> resolved_edge list \<Rightarrow> bool list \<Rightarrow> stage list \<Rightarrow> plan_warning list" where
  "collect_graph_warnings d es dropped stages =
     (if 1 < length (doc_nodes d)
      then map (\<lambda>p. Orphan (id_at d p))
             (filter (\<lambda>p. \<not> dropped ! p \<and> \<not> list_ex (\<lambda>e. re_source e = p \<or> re_target e = p) es)
               [0..<length (doc_nodes d)])
      else []) @
     (if stages \<noteq> [] \<and> \<not> list_ex (\<lambda>s. st_kind s = StSink) stages then [NoSink] else [])"

record plan =
  pl_format_version :: nat
  pl_stages :: "stage list"
  pl_warnings :: "plan_warning list"

definition compile_with :: "registry \<Rightarrow> connectors \<Rightarrow> compile_options \<Rightarrow> pipeline_doc \<Rightarrow> engine_error + plan" where
  "compile_with reg conns opts d =
     (if doc_nodes d = [] then Inl EmptyPipeline
      else and_then (reserve_suffix (doc_nodes d)) (\<lambda>_.
           and_then (build_index 0 [] (doc_nodes d)) (\<lambda>idx.
           and_then (classify (doc_nodes d)) (\<lambda>kinds.
           and_then (resolve_edges d idx) (\<lambda>es.
           let (dropped, ws) = drop_disabled d es
           in and_then (topological_order d es dropped) (\<lambda>order.
              and_then (build_stages reg conns d kinds es order opts) (\<lambda>built.
              let stages = map fst built; seen = map snd built
              in Inr \<lparr> pl_format_version = doc_format_version d, pl_stages = stages,
                   pl_warnings = ws @
                     map (\<lambda>u. UnknownProperty (up_node_id u) (up_property u))
                       (concat (map no_unknown_properties seen)) @
                     concat (map no_unknown_materialize seen) @
                     concat (map no_ignored_incremental seen) @
                     collect_graph_warnings d es dropped stages \<rparr>)))))))"

definition compile :: "registry \<Rightarrow> connectors \<Rightarrow> pipeline_doc \<Rightarrow> engine_error + plan" where
  "compile reg conns d = compile_with reg conns compile_options_default d"

section \<open>The plan\<close>

definition plan_is_empty :: "plan \<Rightarrow> bool" where
  "plan_is_empty p \<longleftrightarrow> pl_stages p = []"

definition plan_stage :: "plan \<Rightarrow> str \<Rightarrow> stage option" where
  "plan_stage p node_id = find (\<lambda>s. st_node_id s = node_id) (pl_stages p)"

definition plan_spills :: "plan \<Rightarrow> str list" where
  "plan_spills p = filter_map st_spill_path (pl_stages p)"

definition plan_sinks :: "plan \<Rightarrow> stage list" where
  "plan_sinks p = filter (\<lambda>s. st_kind s = StSink) (pl_stages p)"

definition plan_extensions :: "plan \<Rightarrow> str list" where
  "plan_extensions p = remdups_adj (sort (concat (map st_requires_extensions (pl_stages p))))"

definition stages_needing :: "plan \<Rightarrow> str \<Rightarrow> stage list" where
  "stages_needing p ext = filter (\<lambda>s. list_ex (\<lambda>e. e = ext) (st_requires_extensions s)) (pl_stages p)"

definition has_prelude_probe :: "plan \<Rightarrow> bool \<Rightarrow> bool" where
  "has_prelude_probe p counts \<longleftrightarrow> counts \<and> plan_extensions p \<noteq> []"

definition plan_needs_session :: "plan \<Rightarrow> bool" where
  "plan_needs_session p \<longleftrightarrow> list_ex stage_needs_session (pl_stages p)"

definition unportable :: "connectors \<Rightarrow> plan \<Rightarrow> stage list" where
  "unportable conns p = filter (\<lambda>s. case conns (st_component_id s) of
       Some (ConnTransform t) \<Rightarrow> \<not> (case st_native s of
           Some step \<Rightarrow> nc_portable t (ns_properties step) | None \<Rightarrow> False)
     | _ \<Rightarrow> False) (pl_stages p)"

definition session_reasons :: "plan \<Rightarrow> str list" where
  "session_reasons p = map st_node_id (filter stage_needs_session (pl_stages p))"

definition plan_order :: "plan \<Rightarrow> str list" where
  "plan_order p = map st_node_id (pl_stages p)"

definition PRELUDE_PROBE :: str where "PRELUDE_PROBE = ''SELECT 0 AS n;''"

definition stage_script :: "bool \<Rightarrow> stage \<Rightarrow> str" where
  "stage_script counts s =
     ''-- '' @ st_node_id s @ '' ('' @ st_component_id s @ '')'' @ NL @
     (case st_native s of
        Some step \<Rightarrow>
          if native_is_transform step
          then (case ns_feed step of Some feed \<Rightarrow> feed @ NL | None \<Rightarrow> []) @
               ''-- '' @ st_component_id s @ '' runs here, in Rust: '' @
               (case ns_input step of Some i \<Rightarrow> i | None \<Rightarrow> []) @ '' to '' @ ns_staging step @ NL
          else []
      | None \<Rightarrow> []) @
     st_sql s @ NL @
     (if counts then concat (map (\<lambda>c. cp_sql c @ NL) (st_counts s)) else []) @
     (case st_incremental s of Some inc \<Rightarrow> si_probe inc @ NL | None \<Rightarrow> []) @ NL"

definition plan_script :: "plan \<Rightarrow> bool \<Rightarrow> str" where
  "plan_script p counts =
     (let exts = plan_extensions p
      in (if exts \<noteq> []
          then ''-- extensions'' @ NL @ concat (map (\<lambda>e. ''LOAD '' @ e @ '';'' @ NL) exts) @
               (if counts then PRELUDE_PROBE @ NL else []) @ NL
          else []) @
         concat (map (stage_script counts) (pl_stages p)))"

definition plan_count_probes :: "plan \<Rightarrow> (stage \<times> count_probe) list" where
  "plan_count_probes p = concat (map (\<lambda>s. map (Pair s) (st_counts s)) (pl_stages p))"

definition watermark_probes :: "plan \<Rightarrow> (stage \<times> stage_incremental) list" where
  "watermark_probes p = filter_map (\<lambda>s. map_option (Pair s) (st_incremental s)) (pl_stages p)"

definition plan_is_incremental :: "plan \<Rightarrow> bool" where
  "plan_is_incremental p \<longleftrightarrow> list_ex (\<lambda>s. st_incremental s \<noteq> None) (pl_stages p)"

section \<open>The stages one node needs\<close>

definition inputs_of :: "plan \<Rightarrow> str \<Rightarrow> str list" where
  "inputs_of p node_id = (case plan_stage p node_id of
     Some s \<Rightarrow> map in_node_id (st_inputs s) | None \<Rightarrow> [])"

definition inputs_left :: "plan \<Rightarrow> str list \<Rightarrow> nat" where
  "inputs_left p needed =
     sum_list (map (\<lambda>s. length (st_inputs s)) (filter (\<lambda>s. st_node_id s \<notin> set needed) (pl_stages p)))"

lemma sum_list_filter_drop:
  assumes "x \<in> set xs" "P x" "\<not> Q x" "\<And>y. Q y \<Longrightarrow> P y"
  shows "f x + sum_list (map f (filter Q xs)) \<le> (sum_list (map f (filter P xs)) :: nat)"
  using assms(1)
proof (induction xs)
  case (Cons y ys)
  have le: "sum_list (map f (filter Q ys)) \<le> sum_list (map f (filter P ys))"
    using assms(4) by (induction ys) auto
  show ?case
  proof (cases "x = y")
    case True
    with assms(2,3) le show ?thesis by simp
  next
    case False
    with Cons have "f x + sum_list (map f (filter Q ys)) \<le> sum_list (map f (filter P ys))" by simp
    with assms(4) show ?thesis by auto
  qed
qed simp

lemma inputs_left_decreases:
  assumes "node_id \<notin> set needed"
  shows "length (inputs_of p node_id) + inputs_left p (node_id # needed) \<le> inputs_left p needed"
proof (cases "plan_stage p node_id")
  case None
  have "inputs_left p (node_id # needed) = inputs_left p needed"
    using None by (auto simp: inputs_left_def plan_stage_def find_None_iff intro!: arg_cong [of _ _ sum_list] map_cong filter_cong)
  with None show ?thesis by (simp add: inputs_of_def)
next
  case (Some s)
  then have "s \<in> set (pl_stages p)" "st_node_id s = node_id"
    by (auto simp: plan_stage_def find_Some_iff)
  with assms show ?thesis
    using sum_list_filter_drop [of s "pl_stages p" "\<lambda>s. st_node_id s \<notin> set needed"
        "\<lambda>s. st_node_id s \<notin> set (node_id # needed)" "\<lambda>s. length (st_inputs s)"]
    by (simp add: inputs_left_def inputs_of_def Some)
qed

text \<open>The frontier of \<^verbatim>\<open>Plan::upto\<close> is a stack: its head is the end the source pushes to and pops from.\<close>

function upto_loop :: "plan \<Rightarrow> str list \<Rightarrow> str list \<Rightarrow> str list" where
  "upto_loop p needed [] = needed"
| "upto_loop p needed (current # frontier) =
     (if current \<in> set needed then upto_loop p needed frontier
      else upto_loop p (current # needed) (rev (inputs_of p current) @ frontier))"
  by pat_completeness auto
termination
proof (relation "measure (\<lambda>(p, needed, frontier). inputs_left p needed + length frontier)")
  fix p :: plan and needed frontier :: "str list" and current :: str
  assume "current \<notin> set needed"
  from inputs_left_decreases [OF this, of p]
  show "((p, current # needed, rev (inputs_of p current) @ frontier), p, needed, current # frontier)
      \<in> measure (\<lambda>(p, needed, frontier). inputs_left p needed + length frontier)" by simp
qed auto

definition plan_upto :: "plan \<Rightarrow> str \<Rightarrow> stage list option" where
  "plan_upto p node_id =
     map_option (\<lambda>_. let needed = upto_loop p [] [node_id]
       in filter (\<lambda>s. st_kind s \<noteq> StSink) (filter (\<lambda>s. st_node_id s \<in> set needed) (pl_stages p)))
     (plan_stage p node_id)"

end
