(* ===== verification/Plan_Compile.thy ===== *)
theory Plan_Compile
  imports Plan_Stage
begin

text \<open>
  What a compiled plan is, in terms of the document: which nodes it runs and in which order, what
  the stages needed for one node are, and what the check against \<^verbatim>\<open>INSTALL\<close> does and does not
  reach.
\<close>

section \<open>Taking a compilation apart\<close>

lemma compile_with_Inr:
  assumes "compile_with reg conns opts d = Inr pl"
  obtains idx kinds es dropped ws order built where
    "reserve_suffix (doc_nodes d) = Inr ()"
    "build_index 0 [] (doc_nodes d) = Inr idx" "classify (doc_nodes d) = Inr kinds"
    "resolve_edges d idx = Inr es" "drop_disabled d es = (dropped, ws)"
    "topological_order d es dropped = Inr order"
    "build_stages reg conns d kinds es order opts = Inr built" "pl_stages pl = map fst built"
proof -
  from assms obtain u idx kinds es where r: "reserve_suffix (doc_nodes d) = Inr u" and 1:
    "build_index 0 [] (doc_nodes d) = Inr idx" "classify (doc_nodes d) = Inr kinds"
    "resolve_edges d idx = Inr es"
    and rest: "(let (dropped, ws) = drop_disabled d es
       in and_then (topological_order d es dropped) (\<lambda>order.
          and_then (build_stages reg conns d kinds es order opts) (\<lambda>built.
          let stages = map fst built; seen = map snd built
          in Inr \<lparr> pl_format_version = doc_format_version d, pl_stages = stages,
               pl_warnings = ws @
                 map (\<lambda>u. UnknownProperty (up_node_id u) (up_property u))
                   (concat (map no_unknown_properties seen)) @
                 concat (map no_unknown_materialize seen) @
                 concat (map no_ignored_incremental seen) @
                 collect_graph_warnings d es dropped stages \<rparr>))) = Inr pl"
    unfolding compile_with_def by (auto simp only: and_then_eq_Inr_iff split: if_split_asm)
  obtain dropped ws where dd: "drop_disabled d es = (dropped, ws)" by (metis prod.exhaust)
  from rest obtain order built where "topological_order d es dropped = Inr order"
    "build_stages reg conns d kinds es order opts = Inr built" "pl_stages pl = map fst built"
    unfolding dd Let_def by (auto simp: and_then_eq_Inr_iff)
  moreover from r have "reserve_suffix (doc_nodes d) = Inr ()" by simp
  ultimately show ?thesis using 1 dd that by blast
qed

lemma guarded_Inr_iff: "(if c then Inl e else Inr x) = Inr y \<longleftrightarrow> \<not> c \<and> x = y"
  by auto

lemma lower_stage_facts:
  assumes "lower_stage conns opts node kind component_id inputs spec build_sql properties unknown = Inr (s, n)"
  shows "st_node_id s = pn_id node \<and> st_inputs s = inputs \<and> st_kind s = kind \<and>
    \<not> contains_install (st_sql s) \<and> st_from s = stage_from (st_inputs s) \<and>
    st_counts s = count_probes (st_node_id s) (st_kind s) (st_splits s) (st_from s)"
  using assms unfolding lower_stage_def Let_def and_then_eq_Inr_iff guarded_Inr_iff prod.inject
  by (elim exE conjE) (drule sym [of _ s], simp)

lemma build_stage_facts:
  assumes "build_stage reg conns d kinds es opts p = Inr (s, n)"
  shows "st_node_id s = id_at d p \<and> st_inputs s = stage_inputs d es p \<and> st_kind s = kinds ! p \<and>
    \<not> contains_install (st_sql s) \<and> st_from s = stage_from (st_inputs s) \<and>
    st_counts s = count_probes (st_node_id s) (st_kind s) (st_splits s) (st_from s)"
  using assms unfolding build_stage_def Let_def and_then_eq_Inr_iff id_at_def
  by (elim exE conjE) (drule lower_stage_facts, simp)

lemmas build_stage_Inr = build_stage_facts [THEN conjunct1]
  build_stage_facts [THEN conjunct2, THEN conjunct1]
  build_stage_facts [THEN conjunct2, THEN conjunct2, THEN conjunct1]
  build_stage_facts [THEN conjunct2, THEN conjunct2, THEN conjunct2, THEN conjunct1]

lemma build_stages_nth:
  assumes "build_stages reg conns d kinds es order opts = Inr built" "i < length order"
  shows "i < length built"
    "build_stage reg conns d kinds es opts (order ! i) = Inr (fst (built ! i), snd (built ! i))"
  using assms traverse_length [of "build_stage reg conns d kinds es opts" order built]
    traverse_nth [of "build_stage reg conns d kinds es opts" order built i]
  by (simp_all add: build_stages_def)

lemma plan_order_ids:
  assumes "build_stages reg conns d kinds es order opts = Inr built" "pl_stages pl = map fst built"
  shows "plan_order pl = map (id_at d) order"
proof (rule nth_equalityI)
  show len: "length (plan_order pl) = length (map (id_at d) order)"
    using assms traverse_length by (fastforce simp: plan_order_def build_stages_def)
  fix i assume "i < length (plan_order pl)"
  with len have i: "i < length order" by simp
  from build_stage_Inr(1) [OF build_stages_nth(2) [OF assms(1) i]] build_stages_nth(1) [OF assms(1) i] i
  show "plan_order pl ! i = map (id_at d) order ! i" by (simp add: plan_order_def assms(2))
qed

lemma lower_stage_loads:
  assumes "lower_stage conns opts node kind component_id inputs spec build_sql properties unknown = Inr (s, n)"
  shows "st_component_id s = component_id \<and>
    st_incremental s = fst (stage_incremental_of opts kind (pn_id node) component_id (nd_incremental (pn_data node))) \<and>
    (\<forall>step. st_native s = Some step \<longrightarrow> ns_checkpoint step =
       (if ns_direction step = Ingest then om_get (opt_checkpoints opts) (pn_id node) else None))"
  using assms unfolding lower_stage_def Let_def and_then_eq_Inr_iff guarded_Inr_iff prod.inject
  by (elim exE conjE) (drule sym [of _ s], auto)

definition component_of :: "pipeline_node \<Rightarrow> str" where
  "component_of node = (case nd_component_id (pn_data node) of Some c \<Rightarrow> c | None \<Rightarrow> [])"

lemma build_stage_loads:
  assumes "build_stage reg conns d kinds es opts p = Inr (s, n)"
  shows "st_component_id s = component_of (doc_nodes d ! p) \<and>
    st_incremental s = fst (stage_incremental_of opts (kinds ! p) (pn_id (doc_nodes d ! p))
      (component_of (doc_nodes d ! p)) (nd_incremental (pn_data (doc_nodes d ! p)))) \<and>
    (\<forall>step. st_native s = Some step \<longrightarrow> ns_checkpoint step = (if ns_direction step = Ingest
       then om_get (opt_checkpoints opts) (pn_id (doc_nodes d ! p)) else None))"
  using assms unfolding build_stage_def Let_def and_then_eq_Inr_iff component_of_def
  by (elim exE conjE) (drule lower_stage_loads, simp)

section \<open>Positions and ids\<close>

definition doc_reads :: "pipeline_doc \<Rightarrow> (str \<times> str) set" where
  "doc_reads d = (\<lambda>e. (pe_source e, pe_target e)) ` set (doc_edges d)"

lemma rtrancl_image:
  assumes "\<And>u v. (u, v) \<in> E \<Longrightarrow> (f u, f v) \<in> R" "(u, v) \<in> E\<^sup>*"
  shows "(f u, f v) \<in> R\<^sup>*"
  using assms(2) by (induction rule: rtrancl_induct) (auto intro: rtrancl_into_rtrancl assms(1))

lemma rtrancl_preimage:
  assumes "\<And>a b. (a, b) \<in> R \<Longrightarrow> \<exists>u v. (u, v) \<in> E \<and> a = f u \<and> b = f v"
    and "inj_on f A" "\<And>u v. (u, v) \<in> E \<Longrightarrow> u \<in> A \<and> v \<in> A" "(f u, b) \<in> R\<^sup>*" "u \<in> A"
  shows "\<exists>v\<in>A. b = f v \<and> (u, v) \<in> E\<^sup>*"
  using assms(4)
proof (induction rule: rtrancl_induct)
  case base
  with assms(5) show ?case by blast
next
  case (step b c)
  then obtain v where v: "v \<in> A" "b = f v" "(u, v) \<in> E\<^sup>*" by blast
  from assms(1) [OF step(2)] obtain w x where w: "(w, x) \<in> E" "b = f w" "c = f x" by blast
  with v assms(3) [OF w(1)] have "w = v" using assms(2) by (auto dest: inj_onD)
  with v w assms(3) [OF w(1)] show ?case by (auto intro: rtrancl_into_rtrancl)
qed

lemma resolved_edges_ids:
  assumes "build_index 0 [] (doc_nodes d) = Inr idx" "resolve_edges d idx = Inr es"
  shows "inj_on (id_at d) {..<length (doc_nodes d)}"
    and "doc_reads d = (\<lambda>(u, v). (id_at d u, id_at d v)) ` edge_rel es"
    and "(u, v) \<in> edge_rel es \<Longrightarrow> u < length (doc_nodes d) \<and> v < length (doc_nodes d)"
proof -
  from assms(1) have "distinct (map pn_id (doc_nodes d))" by (simp add: build_index_iff)
  then show "inj_on (id_at d) {..<length (doc_nodes d)}"
    by (auto simp: inj_on_def id_at_def distinct_conv_nth)
  from assms(2) have all: "list_all2 (\<lambda>e r. resolve_edge idx e = Inr r) (doc_edges d) es"
    by (simp add: resolve_edges_def traverse_Inr_iff)
  then have "list_all2 (\<lambda>e r. (pe_source e, pe_target e) = (id_at d (re_source r), id_at d (re_target r)))
      (doc_edges d) es"
    by (rule list_all2_mono) (use resolve_edge_ok [OF assms(1)] in force)
  then have "map (\<lambda>e. (pe_source e, pe_target e)) (doc_edges d) =
      map (\<lambda>r. (id_at d (re_source r), id_at d (re_target r))) es"
    by (induction rule: list_all2_induct) auto
  then have "set (map (\<lambda>e. (pe_source e, pe_target e)) (doc_edges d)) =
      set (map (\<lambda>r. (id_at d (re_source r), id_at d (re_target r))) es)" by simp
  then show "doc_reads d = (\<lambda>(u, v). (id_at d u, id_at d v)) ` edge_rel es"
    by (simp add: doc_reads_def edge_rel_def image_image)
  show "u < length (doc_nodes d) \<and> v < length (doc_nodes d)" if "(u, v) \<in> edge_rel es"
    using that resolve_edges_resolved [OF assms] by (auto simp: resolved_doc_def edge_rel_iff)
qed

lemma reaches_ids:
  assumes "build_index 0 [] (doc_nodes d) = Inr idx" "resolve_edges d idx = Inr es"
    and "u < length (doc_nodes d)" "v < length (doc_nodes d)"
  shows "(id_at d u, id_at d v) \<in> (doc_reads d)\<^sup>* \<longleftrightarrow> (u, v) \<in> (edge_rel es)\<^sup>*"
proof
  note ids = resolved_edges_ids [OF assms(1,2)]
  show "(id_at d u, id_at d v) \<in> (doc_reads d)\<^sup>*" if "(u, v) \<in> (edge_rel es)\<^sup>*"
    by (rule rtrancl_image [OF _ that]) (auto simp: ids(2))
  assume r: "(id_at d u, id_at d v) \<in> (doc_reads d)\<^sup>*"
  have "\<exists>w\<in>{..<length (doc_nodes d)}. id_at d v = id_at d w \<and> (u, w) \<in> (edge_rel es)\<^sup>*"
    by (rule rtrancl_preimage [OF _ ids(1) _ r]) (use ids(2,3) assms(3) in auto)
  then obtain w where w: "w < length (doc_nodes d)" "id_at d v = id_at d w" "(u, w) \<in> (edge_rel es)\<^sup>*"
    by blast
  with assms(4) ids(1) have "w = v" by (auto dest: inj_onD)
  with w show "(u, v) \<in> (edge_rel es)\<^sup>*" by simp
qed

definition switched_off_above :: "pipeline_doc \<Rightarrow> str \<Rightarrow> bool" where
  "switched_off_above d i \<longleftrightarrow>
     (\<exists>m\<in>set (doc_nodes d). is_disabled (pn_data m) \<and> (pn_id m, i) \<in> (doc_reads d)\<^sup>*)"

lemma dropped_by_id:
  assumes "build_index 0 [] (doc_nodes d) = Inr idx" "resolve_edges d idx = Inr es"
    and "drop_disabled d es = (dropped, ws)" "p < length (doc_nodes d)"
  shows "dropped ! p \<longleftrightarrow> switched_off_above d (id_at d p)"
proof -
  have "dropped ! p \<longleftrightarrow> (\<exists>j<length (doc_nodes d). is_disabled (pn_data (doc_nodes d ! j)) \<and>
      (j, p) \<in> (edge_rel es)\<^sup>*)"
    by (rule drop_disabled_spec(2) [OF resolve_edges_resolved [OF assms(1,2)] assms(3,4)])
  also have "\<dots> \<longleftrightarrow> (\<exists>j<length (doc_nodes d). is_disabled (pn_data (doc_nodes d ! j)) \<and>
      (id_at d j, id_at d p) \<in> (doc_reads d)\<^sup>*)"
    using reaches_ids [OF assms(1,2) _ assms(4)] by blast
  also have "\<dots> \<longleftrightarrow> switched_off_above d (id_at d p)"
    by (auto simp: switched_off_above_def id_at_def Bex_def in_set_conv_nth)
  finally show ?thesis .
qed

lemma before_in_map:
  assumes "before_in xs u v"
  shows "before_in (map f xs) (f u) (f v)"
proof -
  from assms obtain i j where "i < j" "j < length xs" "xs ! i = u" "xs ! j = v"
    by (auto simp: before_in_def)
  then have "i < j \<and> j < length (map f xs) \<and> map f xs ! i = f u \<and> map f xs ! j = f v" by auto
  then show ?thesis unfolding before_in_def by blast
qed

section \<open>What a compiled plan runs\<close>

lemma compiled_order:
  assumes "compile_with reg conns opts d = Inr pl"
  shows "distinct (plan_order pl) \<and>
    set (plan_order pl) = {i. i \<in> pn_id ` set (doc_nodes d) \<and> \<not> switched_off_above d i} \<and>
    (\<forall>e\<in>set (doc_edges d). pe_target e \<in> set (plan_order pl) \<longrightarrow>
       before_in (plan_order pl) (pe_source e) (pe_target e))"
proof -
  from assms obtain idx kinds es dropped ws order built where
    idx: "build_index 0 [] (doc_nodes d) = Inr idx" and es: "resolve_edges d idx = Inr es"
    and dd: "drop_disabled d es = (dropped, ws)" and ord: "topological_order d es dropped = Inr order"
    and st: "build_stages reg conns d kinds es order opts = Inr built" "pl_stages pl = map fst built"
    by (rule compile_with_Inr)
  let ?n = "length (doc_nodes d)"
  note ids = resolved_edges_ids [OF idx es] and rd = resolve_edges_resolved [OF idx es]
  note o = topological_order_Inr [OF rd ord]
  note by_id = dropped_by_id [OF idx es dd]
  have po: "plan_order pl = map (id_at d) order" by (rule plan_order_ids [OF st])
  from o(2) have sub: "set order \<subseteq> {..<?n}" by auto
  have "distinct (plan_order pl)"
    unfolding po using o(1) ids(1) sub by (simp add: distinct_map inj_on_subset)
  moreover have "set (plan_order pl) = {i. i \<in> pn_id ` set (doc_nodes d) \<and> \<not> switched_off_above d i}"
  proof -
    have "set (plan_order pl) = id_at d ` {p. p < ?n \<and> \<not> dropped ! p}" by (simp add: po o(2))
    also have "\<dots> = id_at d ` {p. p < ?n \<and> \<not> switched_off_above d (id_at d p)}"
      using by_id by (intro arg_cong [of _ _ "image (id_at d)"]) auto
    also have "\<dots> = {i. i \<in> pn_id ` set (doc_nodes d) \<and> \<not> switched_off_above d i}"
      by (auto simp: id_at_def set_conv_nth)
    finally show ?thesis .
  qed
  moreover have "before_in (plan_order pl) (pe_source e) (pe_target e)"
    if e: "e \<in> set (doc_edges d)" "pe_target e \<in> set (plan_order pl)" for e
  proof -
    from e(1) have "(pe_source e, pe_target e) \<in> doc_reads d" by (auto simp: doc_reads_def)
    then obtain u v where uv: "(u, v) \<in> edge_rel es" "pe_source e = id_at d u" "pe_target e = id_at d v"
      unfolding ids(2) by auto
    from e(2) obtain w where w: "w \<in> set order" "id_at d v = id_at d w" unfolding po uv(3) by auto
    with ids(1) ids(3) [OF uv(1)] sub have v: "v \<in> set order" by (auto dest: inj_onD)
    then have kv: "\<not> dropped ! v" using o(2) by blast
    have "\<not> dropped ! u"
    proof
      assume "dropped ! u"
      then have "switched_off_above d (id_at d u)" using by_id ids(3) [OF uv(1)] by blast
      moreover have "(id_at d u, id_at d v) \<in> doc_reads d" unfolding ids(2) using uv(1) by force
      ultimately have "switched_off_above d (id_at d v)"
        unfolding switched_off_above_def by (meson rtrancl.rtrancl_into_rtrancl)
      with by_id ids(3) [OF uv(1)] kv show False by blast
    qed
    with kv uv(1) have "(u, v) \<in> edge_rel (live_edges dropped es)" by (simp add: live_edge_rel)
    with o(3) v have "before_in order u v" using ordered_after_sources by blast
    then show ?thesis unfolding po uv by (rule before_in_map)
  qed
  ultimately show ?thesis by blast
qed

lemma compiled_stage_at:
  assumes "compile_with reg conns opts d = Inr pl" "s \<in> set (pl_stages pl)"
  obtains idx kinds es p n where "p < length (doc_nodes d)" "build_index 0 [] (doc_nodes d) = Inr idx"
    "resolve_edges d idx = Inr es" "build_stage reg conns d kinds es opts p = Inr (s, n)"
proof -
  from assms(1) obtain idx kinds es dropped ws order built where
    idx: "build_index 0 [] (doc_nodes d) = Inr idx" and es: "resolve_edges d idx = Inr es"
    and ord: "topological_order d es dropped = Inr order"
    and st: "build_stages reg conns d kinds es order opts = Inr built" "pl_stages pl = map fst built"
    by (rule compile_with_Inr)
  from assms(2) have "s \<in> fst ` set built" by (simp add: st(2))
  then obtain b where b: "b \<in> set built" "s = fst b" by blast
  then obtain i where i: "i < length built" "s = fst (built ! i)" by (metis in_set_conv_nth)
  moreover from st(1) have "length built = length order"
    by (simp add: build_stages_def traverse_length)
  moreover from topological_order_Inr(2) [OF resolve_edges_resolved [OF idx es] ord] i calculation
  have "order ! i < length (doc_nodes d)" using nth_mem [of i order] by auto
  ultimately show ?thesis
    using that [OF _ idx es, of "order ! i" kinds "snd (built ! i)"] build_stages_nth(2) [OF st(1), of i]
    by simp
qed

lemma compiled_stage:
  assumes "compile_with reg conns opts d = Inr pl" "s \<in> set (pl_stages pl)"
  obtains idx kinds es p n where "build_index 0 [] (doc_nodes d) = Inr idx"
    "resolve_edges d idx = Inr es" "build_stage reg conns d kinds es opts p = Inr (s, n)"
  by (rule compiled_stage_at [OF assms])

lemma compiled_inputs:
  assumes "compile_with reg conns opts d = Inr pl" "s \<in> set (pl_stages pl)" "inp \<in> set (st_inputs s)"
  shows "\<exists>e\<in>set (doc_edges d). pe_source e = in_node_id inp \<and> pe_target e = st_node_id s \<and>
    pe_source_handle e = in_source_handle inp \<and> pe_target_handle e = in_target_handle inp"
proof -
  from assms(1,2) obtain idx kinds es p n where
    idx: "build_index 0 [] (doc_nodes d) = Inr idx" and es: "resolve_edges d idx = Inr es"
    and b: "build_stage reg conns d kinds es opts p = Inr (s, n)" by (rule compiled_stage)
  note f = build_stage_Inr(1,2) [OF b]
  from assms(3) obtain r where r: "r \<in> set es" "re_target r = p"
    "inp = \<lparr> in_node_id = id_at d (re_source r), in_source_handle = re_source_handle r,
             in_target_handle = re_target_handle r \<rparr>"
    unfolding f(2) by (auto simp: stage_inputs_def)
  have "list_all2 (\<lambda>e r. resolve_edge idx e = Inr r) (doc_edges d) es"
    using es by (simp add: resolve_edges_def traverse_Inr_iff)
  moreover from r(1) obtain j where j: "j < length es" "es ! j = r" by (metis in_set_conv_nth)
  ultimately have "j < length (doc_edges d)" "resolve_edge idx (doc_edges d ! j) = Inr r"
    by (simp_all add: list_all2_conv_all_nth)
  then obtain e where e: "e \<in> set (doc_edges d)" "resolve_edge idx e = Inr r" by (metis nth_mem)
  with resolve_edge_ok [OF idx e(2)] r f(1) show ?thesis by (intro bexI [of _ e]) auto
qed

lemma compiled_facts:
  assumes "compile_with reg conns opts d = Inr pl" "s \<in> set (pl_stages pl)"
  shows "\<not> contains_install (st_sql s)" "st_from s = stage_from (st_inputs s)"
    "st_counts s = count_probes (st_node_id s) (st_kind s) (st_splits s) (st_from s)"
  using compiled_stage [OF assms] build_stage_facts by (metis prod.collapse)+

section \<open>A small pipeline\<close>

definition parquet_spec :: component_spec where
  "parquet_spec = spec_properties [prop_required (prop_path ''path'')]
     (the (component_new ''src.file.parquet'' ''Parquet file''))"

definition distinct_spec :: component_spec where
  "distinct_spec = the (component_new ''xf.distinct'' ''Distinct rows'')"

definition two_components :: registry where
  "two_components c =
     (if c = ''src.file.parquet'' then Some (parquet_spec, source_parquet)
      else if c = ''xf.distinct'' then Some (distinct_spec, transform_distinct) else None)"

definition reading_node :: "str \<Rightarrow> bool \<Rightarrow> pipeline_node" where
  "reading_node i off = (sample_node i ''src.file.parquet'' off)
     \<lparr> pn_data := (sample_data ''src.file.parquet'' off)
         \<lparr> nd_properties := Some (JObject [(''path'', JString ''in.parquet'')]) \<rparr> \<rparr>"

definition small_doc :: "str \<Rightarrow> pipeline_doc" where
  "small_doc a = (sample_doc [sample_edge a ''b'', sample_edge ''off'' ''c''])
     \<lparr> doc_nodes := [sample_node ''b'' ''xf.distinct'' False, reading_node a False,
         reading_node ''off'' True, sample_node ''c'' ''xf.distinct'' False] \<rparr>"

definition small_plan :: "str \<Rightarrow> engine_error + plan" where
  "small_plan a = compile two_components (\<lambda>_. None) (small_doc a)"

lemma small_plan_order: "(case small_plan ''a'' of Inr p \<Rightarrow> plan_order p | Inl _ \<Rightarrow> []) = [''a'', ''b'']"
  by code_simp

lemma small_plan_Inr: obtains p where "small_plan ''a'' = Inr p" "plan_order p = [''a'', ''b'']"
  using small_plan_order by (auto split: sum.splits)

text \<open>
  C6: What a compiled plan runs, in terms of the document: each node that is not switched off and
  has nothing switched off upstream exactly once and no other node, and every stage reads along
  edges of the document that end in it, from stages that come before it.
\<close>

theorem compile_runs_after_inputs:
  assumes "compile_with reg conns opts d = Inr pl"
  shows "distinct (plan_order pl) \<and>
    set (plan_order pl) = {i. i \<in> pn_id ` set (doc_nodes d) \<and> \<not> switched_off_above d i} \<and>
    (\<forall>s\<in>set (pl_stages pl). \<forall>inp\<in>set (st_inputs s).
       before_in (plan_order pl) (in_node_id inp) (st_node_id s) \<and>
       (\<exists>e\<in>set (doc_edges d). pe_source e = in_node_id inp \<and> pe_target e = st_node_id s \<and>
          pe_source_handle e = in_source_handle inp \<and> pe_target_handle e = in_target_handle inp))"
proof -
  note o = compiled_order [OF assms]
  have "before_in (plan_order pl) (in_node_id inp) (st_node_id s)"
    if s: "s \<in> set (pl_stages pl)" and i: "inp \<in> set (st_inputs s)" for s inp
  proof -
    from compiled_inputs [OF assms s i] obtain e where
      "e \<in> set (doc_edges d)" "pe_source e = in_node_id inp" "pe_target e = st_node_id s" by blast
    moreover from s have "st_node_id s \<in> set (plan_order pl)" by (simp add: plan_order_def)
    ultimately show ?thesis using o by metis
  qed
  with o compiled_inputs [OF assms] show ?thesis by blast
qed

theorem compile_runs_after_inputs_witness:
  "\<exists>p. small_plan ''a'' = Inr p \<and> plan_order p = [''a'', ''b''] \<and> switched_off_above (small_doc ''a'') ''c''"
proof -
  obtain p where p: "small_plan ''a'' = Inr p" "plan_order p = [''a'', ''b'']" by (rule small_plan_Inr)
  then have "compile_with two_components (\<lambda>_. None) compile_options_default (small_doc ''a'') = Inr p"
    by (simp add: small_plan_def compile_def)
  note runs = compile_runs_after_inputs [OF this, THEN conjunct2, THEN conjunct1]
  have "''c'' \<notin> set (plan_order p)" by (simp add: p(2))
  then have "''c'' \<notin> {i. i \<in> pn_id ` set (doc_nodes (small_doc ''a'')) \<and> \<not> switched_off_above (small_doc ''a'') i}"
    unfolding runs .
  moreover have "''c'' \<in> pn_id ` set (doc_nodes (small_doc ''a''))"
    by (simp add: small_doc_def sample_node_def)
  ultimately show ?thesis using p by blast
qed

section \<open>The stages one node needs\<close>

definition plan_reads :: "plan \<Rightarrow> (str \<times> str) set" where
  "plan_reads p = {(i, j). j \<in> set (inputs_of p i)}"

lemma upto_loop_reaches:
  assumes "i \<in> set (upto_loop p needed frontier)"
  shows "i \<in> set needed \<or> (\<exists>f\<in>set frontier. (f, i) \<in> (plan_reads p)\<^sup>*)"
  using assms
proof (induction p needed frontier rule: upto_loop.induct)
  case (2 p needed current frontier)
  show ?case
  proof (cases "current \<in> set needed")
    case True
    with 2 show ?thesis by auto
  next
    case False
    with 2(2) 2(3) have "i \<in> set (current # needed) \<or>
        (\<exists>f\<in>set (rev (inputs_of p current) @ frontier). (f, i) \<in> (plan_reads p)\<^sup>*)" by simp
    moreover have "(current, i) \<in> (plan_reads p)\<^sup>*"
      if "f \<in> set (inputs_of p current)" "(f, i) \<in> (plan_reads p)\<^sup>*" for f
      using that by (auto simp: plan_reads_def intro: converse_rtrancl_into_rtrancl)
    ultimately show ?thesis by auto
  qed
qed simp

lemma upto_loop_closed:
  assumes "\<And>i. i \<in> set needed \<Longrightarrow> set (inputs_of p i) \<subseteq> set needed \<union> set frontier"
  shows "set needed \<union> set frontier \<subseteq> set (upto_loop p needed frontier) \<and>
    (\<forall>i\<in>set (upto_loop p needed frontier). set (inputs_of p i) \<subseteq> set (upto_loop p needed frontier))"
  using assms
proof (induction p needed frontier rule: upto_loop.induct)
  case (2 p needed current frontier)
  show ?case
  proof (cases "current \<in> set needed")
    case True
    with 2(3) have "set needed \<union> set frontier \<subseteq> set (upto_loop p needed frontier) \<and>
      (\<forall>i\<in>set (upto_loop p needed frontier). set (inputs_of p i) \<subseteq> set (upto_loop p needed frontier))"
      by (intro 2(1)) auto
    with True show ?thesis by auto
  next
    case False
    let ?next = "rev (inputs_of p current) @ frontier"
    from 2(3) have "set (current # needed) \<union> set ?next \<subseteq> set (upto_loop p (current # needed) ?next) \<and>
      (\<forall>i\<in>set (upto_loop p (current # needed) ?next).
         set (inputs_of p i) \<subseteq> set (upto_loop p (current # needed) ?next))"
      by (intro 2(2) [OF False]) auto
    with False show ?thesis by auto
  qed
qed auto

lemma upto_loop_ancestors: "set (upto_loop p [] [i]) = {j. (i, j) \<in> (plan_reads p)\<^sup>*}"
proof (intro set_eqI iffI)
  fix j assume "j \<in> set (upto_loop p [] [i])"
  from upto_loop_reaches [OF this] show "j \<in> {j. (i, j) \<in> (plan_reads p)\<^sup>*}" by simp
next
  fix j assume "j \<in> {j. (i, j) \<in> (plan_reads p)\<^sup>*}"
  then have "(i, j) \<in> (plan_reads p)\<^sup>*" by simp
  then show "j \<in> set (upto_loop p [] [i])"
    by (induction rule: rtrancl_induct)
      (use upto_loop_closed [of "[]" p "[i]"] in \<open>auto simp: plan_reads_def\<close>)
qed

text \<open>
  C8: The stages a preview of one node runs are those the node depends on, and no more: the loop
  that collects them stops, and leaves, in plan order and without the sinks, exactly the stages
  reached by following inputs from the node; a node that is not in the plan has none.
\<close>

theorem upto_is_ancestors:
  "plan_upto p i =
     (if i \<in> set (plan_order p)
      then Some (filter (\<lambda>s. st_kind s \<noteq> StSink \<and> (i, st_node_id s) \<in> (plan_reads p)\<^sup>*) (pl_stages p))
      else None)"
proof (cases "plan_stage p i")
  case None
  then have "i \<notin> set (plan_order p)" by (auto simp: plan_stage_def find_None_iff plan_order_def)
  with None show ?thesis by (simp add: plan_upto_def)
next
  case (Some s)
  then have "i \<in> set (plan_order p)" by (auto simp: plan_stage_def find_Some_iff plan_order_def)
  then show ?thesis by (simp add: plan_upto_def Some Let_def upto_loop_ancestors conj_commute del: upto_loop.simps)
qed

section \<open>What the check against INSTALL reaches\<close>

text \<open>
  No stage of a compiled plan carries SQL in which an \<^verbatim>\<open>INSTALL\<close> stands outside quotes and
  comments, whatever the document says.
\<close>

lemma compiled_sql_is_clean:
  assumes "compile_with reg conns opts d = Inr pl"
  shows "list_all (\<lambda>s. \<not> contains_install (st_sql s)) (pl_stages pl)"
  using compiled_facts(1) [OF assms] by (simp add: list_all_iff)

lemma compiled_sql_is_clean_witness:
  "\<exists>p. small_plan ''a'' = Inr p \<and> list_all (\<lambda>s. \<not> contains_install (st_sql s)) (pl_stages p)"
proof -
  obtain p where p: "small_plan ''a'' = Inr p" "plan_order p = [''a'', ''b'']" by (rule small_plan_Inr)
  then have "compile_with two_components (\<lambda>_. None) compile_options_default (small_doc ''a'') = Inr p"
    by (simp add: small_plan_def compile_def)
  from compiled_sql_is_clean [OF this] p show ?thesis by blast
qed

text \<open>
  The script does not inherit that: it heads each stage with a comment holding the node's id, and a
  line break in the id ends the comment.
\<close>

lemma script_comment_escapes:
  "(case small_plan (''a'' @ NL @ ''INSTALL x; --'') of
      Inr p \<Rightarrow> list_all (\<lambda>s. \<not> contains_install (st_sql s)) (pl_stages p) \<and>
        contains_install (plan_script p False)
    | Inl _ \<Rightarrow> False)"
  by code_simp

text \<open>
  Nor does the control half of a stage: the predicate of a branch goes into its probe, which the
  session runs, and the check looks at the stage's SQL only.
\<close>

definition gate_components :: registry where
  "gate_components c =
     (if c = ''ctl.branch'' then Some (spec_control CkBranch (spec_properties
        [prop_required (prop_sql ''predicate'')] (the (component_new ''ctl.branch'' ''Branch''))),
        control_passthrough)
      else two_components c)"

definition gate_doc :: "str \<Rightarrow> pipeline_doc" where
  "gate_doc predicate = (sample_doc [sample_edge ''a'' ''g''])
     \<lparr> doc_nodes := [reading_node ''a'' False, (sample_node ''g'' ''ctl.branch'' False)
         \<lparr> pn_data := (sample_data ''ctl.branch'' False)
            \<lparr> nd_properties := Some (JObject [(''predicate'', JString predicate)]) \<rparr> \<rparr>] \<rparr>"

lemma control_probe_unchecked:
  "(case compile gate_components (\<lambda>_. None) (gate_doc ''true, false); INSTALL x; --'') of
      Inr p \<Rightarrow> list_ex (\<lambda>s. case st_control s of
          Some c \<Rightarrow> (case ct_probe c of Some q \<Rightarrow> contains_install q | None \<Rightarrow> False)
        | None \<Rightarrow> False) (pl_stages p)
    | Inl _ \<Rightarrow> False)"
  by code_simp

section \<open>Names of relations\<close>

text \<open>
  Nothing keeps an alias apart from the ids: the view of one node's alias and the view of another
  node can have the same name, and the later one replaces the other.
\<close>

definition alias_doc :: pipeline_doc where
  "alias_doc = (sample_doc [sample_edge ''a'' ''b''])
     \<lparr> doc_nodes := [(reading_node ''a'' False)
         \<lparr> pn_data := (pn_data (reading_node ''a'' False))\<lparr> nd_alias := Some ''b'' \<rparr> \<rparr>,
         sample_node ''b'' ''xf.distinct'' False] \<rparr>"

lemma alias_may_shadow_node:
  "(case compile two_components (\<lambda>_. None) alias_doc of
      Inr p \<Rightarrow> plan_order p = [''a'', ''b''] \<and> map st_alias (pl_stages p) = [Some ''b'', None]
    | Inl _ \<Rightarrow> False)"
  by code_simp

end
