(* ===== verification/Ai_Text_Builders.thy ===== *)
theory Ai_Text_Builders
  imports Builder_Kit
begin

text \<open>
  The builders of \<^verbatim>\<open>crates/duckdb-engine/src/plan/builders.rs\<close> that prepare text: splitting a column
  into overlapping chunks, and replacing personal data found by its shape. \<open>chunk_cut\<close> and
  \<open>chunk_next\<close> write the two expressions the chunker's recursive query computes at each step: how
  long a chunk is, and where the next one starts.
\<close>

section \<open>Chunks\<close>

definition WS_PATTERN :: str where "WS_PATTERN = QT @ BACKSLASH @ ''s'' @ QT"

definition BLANK :: str where "BLANK = QT @ '' '' @ QT"

definition GLOBAL :: str where "GLOBAL = QT @ ''g'' @ QT"

definition chunk_from_end :: "int \<Rightarrow> str \<Rightarrow> str \<Rightarrow> str" where
  "chunk_from_end sz t start =
     ''strpos(reverse(regexp_replace(substring('' @ t @ '', '' @ start @ '', '' @ show_int sz @ ''), '' @
     WS_PATTERN @ '', '' @ BLANK @ '', '' @ GLOBAL @ '')), '' @ BLANK @ '')''"

definition chunk_cut :: "int \<Rightarrow> int \<Rightarrow> str \<Rightarrow> str \<Rightarrow> str" where
  "chunk_cut sz overlap t start =
     (let back = chunk_from_end sz t start; n = show_int sz
      in ''CASE WHEN '' @ start @ '' + '' @ n @ '' - 1 >= length('' @ t @ '') THEN length('' @ t @ '') - '' @
         start @ '' + 1 WHEN '' @ back @ '' BETWEEN 1 AND '' @ show_int (sz - overlap - 1) @ '' THEN '' @
         n @ '' - '' @ back @ '' ELSE '' @ n @ '' END'')"

definition chunk_next :: "int \<Rightarrow> str" where
  "chunk_next overlap =
     (let raw = ''p.__etl_start + p.__etl_cut - '' @ show_int overlap;
          found = ''strpos(regexp_replace(substring(p.__etl_text, '' @ raw @ '', '' @ show_int overlap @ ''), '' @
            WS_PATTERN @ '', '' @ BLANK @ '', '' @ GLOBAL @ ''), '' @ BLANK @ '')''
      in ''CASE WHEN regexp_matches(substring(p.__etl_text, '' @ raw @ '' - 1, 1), '' @ WS_PATTERN @
         '') THEN '' @ raw @ '' WHEN '' @ found @ '' > 0 THEN '' @ raw @ '' + '' @ found @ '' ELSE '' @ raw @ '' END'')"

definition transform_ai_chunk :: build where
  "transform_ai_chunk node =
     and_then (exactly_one_input node) (\<lambda>upstream.
     and_then (resolved_str node ''column'') (\<lambda>col.
     and_then (non_negative node ''size'') (\<lambda>sz.
     and_then (non_negative node ''overlap'') (\<lambda>overlap.
     if sz = 0 then Inl (invalid node ''size'' ''must be at least 1'')
     else if overlap \<ge> sz
     then Inl (invalid node ''overlap'' (''must be smaller than size ('' @ show_int sz @ '')''))
     else and_then (resolved_str node ''output'') (\<lambda>out0.
     let column = quote_identifier col;
         idx = quote_identifier (out0 @ ''_index'');
         output = quote_identifier out0;
         cut = chunk_cut sz overlap
     in Inr (create_view node
       (''WITH RECURSIVE __etl_rows AS (SELECT *, row_number() OVER () AS __etl_row, CAST('' @ column @
        '' AS VARCHAR) AS __etl_text FROM '' @ quote_identifier upstream @ ''), __etl_chunks AS ('' @
        ''SELECT r.__etl_row, r.__etl_text, CAST(1 AS BIGINT) AS __etl_start, CAST(0 AS BIGINT) AS __etl_step, c.__etl_cut '' @
        ''FROM __etl_rows r, LATERAL (SELECT '' @ cut ''r.__etl_text'' ''1'' @ '' AS __etl_cut) c '' @
        ''WHERE length(trim(r.__etl_text)) > 0 UNION ALL '' @
        ''SELECT p.__etl_row, p.__etl_text, n.__etl_next, p.__etl_step + 1, c.__etl_cut '' @
        ''FROM __etl_chunks p, LATERAL (SELECT '' @ chunk_next overlap @ '' AS __etl_next) n, LATERAL (SELECT '' @
        cut ''p.__etl_text'' ''n.__etl_next'' @ '' AS __etl_cut) c '' @
        ''WHERE p.__etl_start + '' @ show_int sz @ '' - 1 < length(p.__etl_text)) '' @
        ''SELECT r.* EXCLUDE (__etl_row, __etl_text, '' @ column @ ''), '' @
        ''row_number() OVER (PARTITION BY c.__etl_row ORDER BY c.__etl_step) - 1 AS '' @ idx @
        '', c.__etl_chunk AS '' @ output @
        '' FROM (SELECT __etl_row, __etl_step, trim(substring(__etl_text, __etl_start, __etl_cut)) AS __etl_chunk FROM __etl_chunks) c '' @
        ''JOIN __etl_rows r USING (__etl_row) WHERE c.__etl_chunk <> '' @ QT @ QT @
        '' ORDER BY c.__etl_row, c.__etl_step'')))))))"

section \<open>Redaction\<close>

definition B_EDGE :: str where "B_EDGE = BACKSLASH @ ''b''"

definition DOT :: str where "DOT = BACKSLASH @ ''.''"

definition OCTET :: str where
  "OCTET = ''(?:25[0-5]|2[0-4][0-9]|1[0-9][0-9]|[1-9]?[0-9])''"

definition REDACT_PATTERNS :: "(str \<times> str \<times> str) list" where
  "REDACT_PATTERNS =
     [(''email'', ''[A-Za-z0-9._%+-]+@[A-Za-z0-9-]+(?:'' @ DOT @ ''[A-Za-z0-9-]+)*'' @ DOT @ ''[A-Za-z]{2,}'',
       ''EMAIL''),
      (''ip'', B_EDGE @ ''(?:'' @ OCTET @ DOT @ ''){3}'' @ OCTET @ B_EDGE @ ''|'' @ B_EDGE @
        ''(?:[0-9A-Fa-f]{1,4}:){7}[0-9A-Fa-f]{1,4}'' @ B_EDGE, ''IP''),
      (''credit_card'', B_EDGE @ ''(?:[0-9][ -]?){12,18}[0-9]'' @ B_EDGE, ''CARD''),
      (''ssn'', B_EDGE @ ''[0-9]{3}-[0-9]{2}-[0-9]{4}'' @ B_EDGE, ''SSN''),
      (''phone'', ''(?:'' @ BACKSLASH @ ''+[0-9]{1,3}[ .-]?)?(?:'' @ BACKSLASH @ ''([0-9]{1,4}'' @ BACKSLASH @
        '')[ .-]?)?'' @ B_EDGE @ ''[0-9]+(?:[ .-][0-9]+)*'' @ B_EDGE, ''PHONE'')]"

definition REDACT_KINDS :: "str list" where
  "REDACT_KINDS = [''email'', ''phone'', ''credit_card'', ''ssn'', ''ip'']"

definition DIGITS_SQL :: str where
  "DIGITS_SQL = ''regexp_replace(__etl_m, '' @ QT @ ''[^0-9]'' @ QT @ '', '' @ QT @ QT @ '', '' @ GLOBAL @ '')''"

definition redact_accepts :: "str \<Rightarrow> str option" where
  "redact_accepts kind =
     (if kind = ''credit_card'' then
        (let digit = ''CAST(substring(reverse('' @ DIGITS_SQL @ ''), __etl_i, 1) AS INTEGER)''
         in Some (''list_sum(list_transform(range(1, length('' @ DIGITS_SQL @ '') + 1), lambda __etl_i: '' @
              ''CASE WHEN __etl_i % 2 = 0 THEN '' @ digit @ '' * 2 - CASE WHEN '' @ digit @
              '' * 2 > 9 THEN 9 ELSE 0 END ELSE '' @ digit @ '' END)) % 10 = 0''))
      else if kind = ''phone'' then
        Some (''length('' @ DIGITS_SQL @ '') BETWEEN 10 AND 15 AND regexp_matches(__etl_m, '' @ QT @ ''[ .()+-]'' @
          QT @ '') AND NOT regexp_matches(__etl_m, '' @ QT @ ''^(?:19|20)[0-9]{2}-[0-9]{2}-[0-9]{2}'' @ QT @ '')'')
      else None)"

definition redact_expression :: "str \<Rightarrow> str \<Rightarrow> str \<Rightarrow> str \<Rightarrow> bool \<Rightarrow> str" where
  "redact_expression v kind pattern0 token hashed =
     (let pattern = quote_literal pattern0; judged = redact_accepts kind
      in if judged = None \<and> \<not> hashed
         then ''regexp_replace('' @ v @ '', '' @ pattern @ '', '' @ QT @ ''['' @ token @ '']'' @ QT @ '', '' @ GLOBAL @ '')''
         else
           let found = ''regexp_extract_all('' @ v @ '', '' @ pattern @ '')'';
               matches = (case judged of
                   Some test \<Rightarrow> ''list_filter('' @ found @ '', lambda __etl_m: '' @ test @ '')''
                 | None \<Rightarrow> found);
               identity = (if kind = ''email'' \<or> kind = ''ip'' then ''lower(__etl_m)'' else DIGITS_SQL);
               replacement = (if hashed
                 then QT @ ''['' @ token @ '':'' @ QT @ '' || left(sha256('' @ identity @ ''), 12) || '' @
                      QT @ '']'' @ QT
                 else QT @ ''['' @ token @ '']'' @ QT)
           in ''list_reduce(list_prepend('' @ v @ '', '' @ matches @
              ''), lambda __etl_acc, __etl_m: replace(__etl_acc, __etl_m, '' @ replacement @ ''))'')"

definition redact_layer :: "bool \<Rightarrow> str list \<Rightarrow> str \<Rightarrow> str \<times> str \<times> str \<Rightarrow> str" where
  "redact_layer hashed columns relation entry = (case entry of (kind, pattern, token) \<Rightarrow>
     ''(SELECT * REPLACE ('' @ join_with '', ''
       (map (\<lambda>c. redact_expression (''CAST('' @ c @ '' AS VARCHAR)'') kind pattern token hashed @
              '' AS '' @ c) columns) @
     '') FROM '' @ relation @ '')'')"

definition wanted_kinds :: "lowering \<Rightarrow> json list \<Rightarrow> engine_error + str list" where
  "wanted_kinds node kinds = traverse (\<lambda>v.
     (case json_as_str v of
        Some k \<Rightarrow> if k \<in> set REDACT_KINDS then Inr k
          else Inl (invalid node ''kinds'' (json_text v @ '' is not one of '' @ join_with '', '' REDACT_KINDS))
      | None \<Rightarrow> Inl (invalid node ''kinds'' (json_text v @ '' is not one of '' @ join_with '', '' REDACT_KINDS)))) kinds"

definition transform_ai_redact :: build where
  "transform_ai_redact node =
     and_then (exactly_one_input node) (\<lambda>upstream.
     and_then (checked_columns node ''columns'') (\<lambda>columns.
     and_then (resolved_str node ''replacement'') (\<lambda>replacement.
     and_then (required_array node ''kinds'') (\<lambda>kinds.
     and_then (wanted_kinds node kinds) (\<lambda>wanted.
     if wanted = [] then Inl (invalid node ''kinds'' ''must list at least one kind'')
     else
       let relation = foldl (redact_layer (replacement = ''hash'') columns) (quote_identifier upstream)
             (filter (\<lambda>(kind, _, _). kind \<in> set wanted) REDACT_PATTERNS)
       in Inr (create_view node (''SELECT * FROM '' @ relation)))))))"

end
