(* ===== verification/Spec_Table.thy ===== *)
theory Spec_Table
  imports Plan_Stage Ai_Text_Builders
begin

text \<open>
  The component registry: the table of \<^verbatim>\<open>crates/duckdb-engine/src/plan/specs.rs\<close>, entry by entry
  and in its order, and the map built from it. Each row pairs a spec, written as the chain of
  builder methods the source applies to \<^verbatim>\<open>ComponentSpec::new\<close>, with the function that lowers it. The
  native components come from another crate: their list is an argument.
\<close>

section \<open>Shared properties\<close>

definition cloud_format :: property_spec where
  "cloud_format = prop_default (JString ''parquet'') (prop_enumerated ''format'' [''parquet'', ''csv'', ''json''])"

definition s3_access :: "property_spec list" where
  "s3_access =
     [prop_help ''Access key id. Set it and secret together.'' (prop_text ''key_id''),
      prop_help ''Secret access key. Use ${SECRET:name} rather than the value itself.'' (prop_text ''secret''),
      prop_help ''For temporary credentials.'' (prop_text ''session_token''),
      prop_help ''e.g. eu-west-1.'' (prop_text ''region''),
      prop_help (''For an S3-compatible store, e.g. http://localhost:9000 for MinIO. An http:// or '' @
        ''https:// prefix sets use_ssl.'') (prop_text ''endpoint''),
      prop_help ''MinIO and most S3-compatible stores want path.''
        (prop_enumerated ''url_style'' [''vhost'', ''path'']),
      prop_help ''Only used with endpoint, when it has no http:// or https:// prefix.''
        (prop_default (JBool True) (prop_boolean ''use_ssl''))]"

definition database_read :: "str \<Rightarrow> property_spec list" where
  "database_read example =
     [prop_help (''Connection string, e.g. '' @ example) (prop_required (prop_text ''connection'')),
      prop_help ''Table to read.'' (prop_required (prop_text ''table'')),
      prop_help (''Unset, the database'' @ QT @ ''s own default schema applies.'') (prop_text ''schema'')]"

definition database_write :: "str \<Rightarrow> property_spec list" where
  "database_write example =
     [prop_help (''Connection string, e.g. '' @ example) (prop_required (prop_text ''connection'')),
      prop_help ''Table to write.'' (prop_required (prop_text ''table'')),
      prop_help (''Unset, the database'' @ QT @ ''s own default schema applies.'') (prop_text ''schema''),
      prop_help ''overwrite replaces the table; append adds rows to it.''
        (prop_label ''If the table exists''
          (prop_default (JString ''overwrite'') (prop_enumerated ''mode'' [''overwrite'', ''append''])))]"

definition write_mode :: property_spec where
  "write_mode =
     prop_help ''error_if_exists refuses before anything is written.''
       (prop_label ''If the file exists''
         (prop_default (JString ''overwrite'') (prop_enumerated ''mode'' [''overwrite'', ''error_if_exists''])))"

section \<open>The table\<close>

text \<open>A row is \<open>None\<close> where \<^verbatim>\<open>ComponentSpec::new\<close> would panic.\<close>

type_synonym table_row = "(component_spec \<times> build) option"

definition table_entry :: "str \<Rightarrow> str \<Rightarrow> (component_spec \<Rightarrow> component_spec) list \<Rightarrow> build \<Rightarrow> table_row" where
  "table_entry ident label steps lower =
     map_option (\<lambda>c. (fold (\<lambda>f. f) steps c, lower)) (component_new ident label)"

text \<open>Sources.\<close>

definition first_sources :: "table_row list" where
  "first_sources =
  [table_entry ''src.file.csv'' ''CSV file''
     [spec_description ''Read a delimited text file.'',
      spec_icon ''file-text'',
      spec_properties
        [prop_help ''File to read. Globs such as data/*.csv are allowed.''
          (prop_required (prop_path ''path'')),
         prop_help ''Treat the first row as column names.''
          (prop_default (JBool True) (prop_boolean ''header'')),
         prop_help ''Left unset, the delimiter is detected from the file.'' (prop_text ''delimiter'')]]
     source_csv,
   table_entry ''src.file.parquet'' ''Parquet file''
     [spec_description ''Read a Parquet file.'',
      spec_icon ''file-box'',
      spec_properties
        [prop_help ''File to read. Globs are allowed.'' (prop_required (prop_path ''path''))]]
     source_parquet,
   table_entry ''src.file.jsonl'' ''JSON Lines file''
     [spec_description ''Read a newline-delimited JSON file.'',
      spec_icon ''file-json'',
      spec_properties
        [prop_help ''File to read. Globs are allowed.'' (prop_required (prop_path ''path'')),
         prop_help ''Skip lines that do not parse.''
          (prop_default (JBool False) (prop_boolean ''ignore_errors''))]]
     source_jsonl]"

text \<open>Transforms, and two more file sources.\<close>

definition first_transforms :: "table_row list" where
  "first_transforms =
  [table_entry ''xf.filter'' ''Filter''
     [spec_description ''Keep only the rows matching a condition.'',
      spec_icon ''filter'',
      spec_properties
        [prop_help ''A SQL condition, e.g. amount > 100.'' (prop_required (prop_sql ''predicate''))]]
     transform_filter,
   table_entry ''xf.select'' ''Select columns''
     [spec_description ''Keep a subset of columns, in the order given.'',
      spec_icon ''columns-3'',
      spec_properties
        [prop_help ''Column names to keep.'' (prop_required (prop_string_list ''columns''))]]
     transform_select,
   table_entry ''xf.join'' ''Join''
     [spec_description ''Combine two inputs on shared keys or a condition.'',
      spec_icon ''git-merge'',
      spec_inputs [port_help ''The left side of the join.'' (port_new ''left''), port_help ''The right side of the join.'' (port_new ''right'')],
      spec_properties
        [prop_label ''Join type'' (prop_default (JString ''inner'') (prop_enumerated ''type'' [''inner'', ''left'', ''right'', ''full'', ''outer'', ''cross''])),
         prop_help ''Columns present in both inputs. Use this or a condition.''
          (prop_string_list ''keys''),
         prop_help ''A join condition, when the key names differ.'' (prop_sql ''condition'')]]
     transform_join,
   table_entry ''xf.sql'' ''SQL''
     [spec_description ''Write the query yourself. Upstream nodes are in scope by id.'',
      spec_icon ''code'',
      spec_properties
        [prop_help ''A SELECT statement.'' (prop_required (prop_sql ''query''))]]
     transform_sql,
   table_entry ''src.file.json'' ''JSON file''
     [spec_description ''Read a JSON file holding an array of records.'',
      spec_icon ''file-json'',
      spec_properties
        [prop_help ''File to read. Globs are allowed.'' (prop_required (prop_path ''path'')),
         prop_help ''Skip records that do not parse.''
          (prop_default (JBool False) (prop_boolean ''ignore_errors''))]]
     source_json,
   table_entry ''src.file.excel'' ''Excel file''
     [spec_description ''Read a sheet from an .xlsx workbook.'',
      spec_icon ''sheet'',
      requires_extension ''excel'',
      spec_properties
        [prop_help ''Workbook to read.'' (prop_required (prop_path ''path'')),
         prop_help ''Which sheet. Unset, the first one is read.'' (prop_text ''sheet''),
         prop_help ''Treat the first row as column names.''
          (prop_default (JBool True) (prop_boolean ''header''))]]
     source_excel]"

text \<open>Object storage, table formats and databases.\<close>

definition remote_sources :: "table_row list" where
  "remote_sources =
  [table_entry ''src.cloud.s3'' ''S3 object''
     [spec_description ''Read a file from S3 or another S3-compatible store.'',
      spec_icon ''cloud-download'',
      requires_extension ''httpfs'',
      spec_properties
        ([prop_help ''An s3:// URI. Globs are allowed.'' (prop_required (prop_path ''path'')),
         cloud_format,
         prop_help ''For CSV: treat the first row as column names.''
          (prop_default (JBool True) (prop_boolean ''header''))] @ s3_access)]
     source_s3,
   table_entry ''src.cloud.http'' ''HTTP file''
     [spec_description ''Read a file over HTTP or HTTPS.'',
      spec_icon ''globe'',
      requires_extension ''httpfs'',
      spec_properties
        [prop_help ''An http:// or https:// URL.'' (prop_required (prop_path ''path'')),
         cloud_format,
         prop_help ''For CSV: treat the first row as column names.''
          (prop_default (JBool True) (prop_boolean ''header''))]]
     source_http,
   table_entry ''src.lake.iceberg'' ''Iceberg table''
     [spec_description ''Read an Apache Iceberg table.'',
      spec_icon ''mountain-snow'',
      requires_extension ''iceberg'',
      requires_extension ''httpfs'',
      spec_properties
        [prop_help ''The table's root directory, or one of its .metadata.json files. A root directory needs version set, unless it has a version-hint.text.''
          (prop_required (prop_path ''path'')),
         prop_help ''Which metadata version to read: its file name without .metadata.json. Also reads an earlier snapshot.''
          (prop_text ''version''),
         prop_help ''For a table copied or moved from where it was written. Needs path to be the table's root directory, and version.''
          (prop_default (JBool False) (prop_boolean ''allow_moved_paths''))]]
     source_iceberg,
   table_entry ''src.lake.delta'' ''Delta Lake table''
     [spec_description ''Read a Delta Lake table.'',
      spec_icon ''triangle'',
      requires_extension ''delta'',
      requires_extension ''httpfs'',
      spec_properties
        [prop_help ''The table's root directory.'' (prop_required (prop_path ''path''))]]
     source_delta,
   table_entry ''src.db.postgres'' ''PostgreSQL table''
     [spec_description ''Read a table from a PostgreSQL database.'',
      spec_icon ''database'',
      requires_extension ''postgres'',
      spec_properties
        (database_read ''dbname=analytics host=localhost user=postgres'')]
     source_postgres,
   table_entry ''src.db.mysql'' ''MySQL table''
     [spec_description ''Read a table from a MySQL or MariaDB database.'',
      spec_icon ''database'',
      requires_extension ''mysql'',
      spec_properties
        (database_read ''host=localhost user=root database=analytics'')]
     source_mysql,
   table_entry ''src.db.sqlite'' ''SQLite table''
     [spec_description ''Read a table from a SQLite database file.'',
      spec_icon ''database'',
      requires_extension ''sqlite'',
      spec_properties
        (database_read ''data/analytics.db'')]
     source_sqlite]"

text \<open>Reshaping columns, choosing rows.\<close>

definition column_transforms :: "table_row list" where
  "column_transforms =
  [table_entry ''xf.derive'' ''Derive columns''
     [spec_description ''Add computed columns, keeping every column already there.'',
      spec_icon ''square-plus'',
      spec_properties
        [prop_help ''A select list, e.g. amount * 1.2 AS gross, upper(name) AS name_upper.''
          (prop_required (prop_sql ''expressions''))]]
     transform_derive,
   table_entry ''xf.rename'' ''Rename columns''
     [spec_description ''Rename columns, leaving the rest untouched.'',
      spec_icon ''pencil'',
      spec_properties
        [prop_help ''Each column's current name, mapped to its new one.''
          (prop_required (prop_map ''columns''))]]
     transform_rename,
   table_entry ''xf.cast'' ''Cast types''
     [spec_description ''Change the type of one or more columns.'',
      spec_icon ''type'',
      spec_properties
        [prop_help ''Each column name, mapped to a SQL type such as DECIMAL(10,2).''
          (prop_required (prop_map ''columns''))]]
     transform_cast,
   table_entry ''xf.distinct'' ''Distinct rows''
     [spec_description ''Remove rows that are identical across every column.'',
      spec_icon ''copy-minus'']
     transform_distinct,
   table_entry ''xf.dedup'' ''Deduplicate''
     [spec_description ''Keep one row per key.'',
      spec_icon ''copy-check'',
      spec_properties
        [prop_help ''The columns that identify a duplicate.''
          (prop_required (prop_string_list ''keys'')),
         prop_help ''Which duplicate wins, e.g. updated_at DESC. Unset, any one of them does.''
          (prop_sql ''order_by'')]]
     transform_dedup,
   table_entry ''xf.sort'' ''Sort''
     [spec_description ''Put the rows in order.'',
      spec_icon ''arrow-down-up'',
      spec_properties
        [prop_help ''e.g. amount DESC, order_id.'' (prop_required (prop_sql ''by''))]]
     transform_sort,
   table_entry ''xf.limit'' ''Limit''
     [spec_description ''Keep at most a fixed number of rows.'',
      spec_icon ''list-end'',
      spec_properties
        [prop_help ''How many rows to keep.'' (prop_required (prop_integer ''count'')),
         prop_help ''How many rows to skip first.'' (prop_default (JInt 0) (prop_integer ''offset''))]]
     transform_limit,
   table_entry ''xf.sample'' ''Sample''
     [spec_description ''Take a random subset, for a quick look at a large input.'',
      spec_icon ''dices'',
      spec_properties
        [prop_help ''How many rows, or what percentage.'' (prop_required (prop_integer ''size'')),
         prop_default (JString ''rows'') (prop_enumerated ''unit'' [''rows'', ''percent''])]]
     transform_sample]"

text \<open>Summarising, and text for AI.\<close>

definition summary_transforms :: "table_row list" where
  "summary_transforms =
  [table_entry ''xf.aggregate'' ''Aggregate''
     [spec_description ''Group rows and summarise each group.'',
      spec_icon ''sigma'',
      spec_properties
        [prop_help ''e.g. sum(amount) AS total, count(*) AS orders.''
          (prop_required (prop_sql ''aggregations'')),
         prop_help ''Columns to group by. Left empty, the whole input is a single group.''
          (prop_string_list ''group_by'')]]
     transform_aggregate,
   table_entry ''xf.window'' ''Window function''
     [spec_description ''Add a column computed across a window of related rows.'',
      spec_icon ''panel-top'',
      spec_properties
        [prop_help ''e.g. sum(amount), or row_number().'' (prop_required (prop_sql ''expression'')),
         prop_help ''What to call the new column.'' (prop_required (prop_text ''output_column'')),
         prop_help ''Restart the window for each distinct value of these columns.''
          (prop_string_list ''partition_by''),
         prop_help ''Row order within the window.'' (prop_sql ''order_by'')]]
     transform_window,
   table_entry ''xf.pivot'' ''Pivot''
     [spec_description ''Turn row values into columns.'',
      spec_icon ''table-2'',
      spec_properties
        [prop_help ''The columns whose values become new columns.''
          (prop_required (prop_string_list ''on'')),
         prop_help ''The values to make columns for. Required rather than detected: a pivot inside a view cannot discover them from the data.''
          (prop_required (prop_string_list ''values'')),
         prop_help ''How to combine each cell, e.g. sum(amount).'' (prop_required (prop_sql ''using'')),
         prop_help ''Columns to keep as rows.'' (prop_string_list ''group_by'')]]
     transform_pivot,
   table_entry ''xf.unpivot'' ''Unpivot''
     [spec_description ''Turn columns into rows.'',
      spec_icon ''table-columns-split'',
      spec_properties
        [prop_help ''The columns to fold into rows.'' (prop_required (prop_string_list ''columns'')),
         prop_help ''The column that will hold the old column name.''
          (prop_default (JString ''name'') (prop_text ''name_column'')),
         prop_help ''The column that will hold the value.''
          (prop_default (JString ''value'') (prop_text ''value_column''))]]
     transform_unpivot,
   table_entry ''xf.ai.chunk'' ''Chunk text''
     [spec_description ''Split a text column into overlapping chunks, one row each, for embedding or retrieval.'',
      spec_icon ''scissors'',
      spec_properties
        [prop_help ''The text to split. A row with no text gives no chunks.''
          (prop_required (prop_text ''column'')),
         prop_help ''Most characters in a chunk. A chunk ends at the last whitespace before this, when there is one.''
          (prop_default (JInt 1000) (prop_integer ''size'')),
         prop_help ''Characters a chunk repeats from the end of the one before, starting at a word where it can. Smaller than size.''
          (prop_default (JInt 100) (prop_integer ''overlap'')),
         prop_help ''The chunk's column; its position is <output>_index, from 0. The text column is replaced; the others are kept.''
          (prop_default (JString ''chunk'') (prop_text ''output''))]]
     transform_ai_chunk,
   table_entry ''xf.ai.redact'' ''Redact PII''
     [spec_description ''Replace personal data found by its shape, such as emails and card numbers.'',
      spec_icon ''eye-off'',
      spec_properties
        [prop_help ''The text columns to redact.'' (prop_required (prop_string_list ''columns'')),
         prop_help ''Any of email, phone (with an area code), credit_card (passing the Luhn check), ssn (123-45-6789), ip (IPv4, full IPv6). Found by pattern: names and street addresses are not found.''
          (prop_default (JArray (map JString REDACT_KINDS)) (prop_string_list ''kinds'')),
         prop_help ''token writes [EMAIL]; hash writes [EMAIL:<12 hex>] from SHA-256, so equal values still match. A hash is pseudonymous, not anonymous: a known value can be hashed and compared.''
          (prop_default (JString ''token'') (prop_enumerated ''replacement'' [''token'', ''hash'']))]]
     transform_ai_redact]"

text \<open>Combining two inputs.\<close>

definition two_input_transforms :: "table_row list" where
  "two_input_transforms =
  [table_entry ''xf.union'' ''Union''
     [spec_description ''Stack two inputs on top of one another.'',
      spec_icon ''rows-3'',
      spec_inputs [port_help ''The rows that come first.'' (port_new ''left''), port_help ''The rows appended to them.'' (port_new ''right'')],
      spec_properties
        [prop_help ''Keep duplicate rows. Switched off, identical rows collapse.''
          (prop_default (JBool True) (prop_boolean ''all'')),
         prop_help ''Match columns by name rather than by position.''
          (prop_default (JBool False) (prop_boolean ''by_name''))]]
     transform_union,
   table_entry ''xf.intersect'' ''Intersect''
     [spec_description ''Keep only the rows present in both inputs.'',
      spec_icon ''circle-dot'',
      spec_inputs [port_new ''left'', port_new ''right''],
      spec_properties
        [prop_help ''Keep duplicate matches rather than one row each.''
          (prop_default (JBool False) (prop_boolean ''all''))]]
     transform_intersect,
   table_entry ''xf.except'' ''Except''
     [spec_description ''Keep the rows from the left input that are not in the right.'',
      spec_icon ''circle-minus'',
      spec_inputs [port_new ''left'', port_new ''right''],
      spec_properties
        [prop_help ''Keep duplicate rows rather than one of each.''
          (prop_default (JBool False) (prop_boolean ''all''))]]
     transform_except]"

text \<open>Sinks.\<close>

definition file_sinks :: "table_row list" where
  "file_sinks =
  [table_entry ''snk.file.parquet'' ''Parquet file''
     [spec_description ''Write a Parquet file.'',
      spec_icon ''file-box'',
      spec_properties
        [prop_help ''File to write.'' (prop_required (prop_path ''path'')),
         write_mode,
         prop_default (JString ''zstd'') (prop_enumerated ''compression'' [''zstd'', ''snappy'', ''gzip'', ''brotli'', ''lz4'', ''uncompressed''])]]
     sink_parquet,
   table_entry ''snk.file.csv'' ''CSV file''
     [spec_description ''Write a delimited text file.'',
      spec_icon ''file-text'',
      spec_properties
        [prop_help ''File to write.'' (prop_required (prop_path ''path'')),
         write_mode,
         prop_help ''Write column names as the first row.''
          (prop_default (JBool True) (prop_boolean ''header'')),
         prop_default (JString '','') (prop_text ''delimiter'')]]
     sink_csv,
   table_entry ''snk.file.json'' ''JSON file''
     [spec_description ''Write a JSON file holding an array of records.'',
      spec_icon ''file-json'',
      spec_properties
        [prop_help ''File to write.'' (prop_required (prop_path ''path'')),
         write_mode]]
     sink_json,
   table_entry ''snk.file.jsonl'' ''JSON Lines file''
     [spec_description ''Write one JSON record per line.'',
      spec_icon ''file-json'',
      spec_properties
        [prop_help ''File to write.'' (prop_required (prop_path ''path'')),
         write_mode]]
     sink_jsonl,
   table_entry ''snk.file.excel'' ''Excel file''
     [spec_description ''Write an .xlsx workbook.'',
      spec_icon ''sheet'',
      requires_extension ''excel'',
      spec_properties
        [prop_help ''Workbook to write.'' (prop_required (prop_path ''path'')),
         write_mode,
         prop_help ''Write column names as the first row.''
          (prop_default (JBool True) (prop_boolean ''header'')),
         prop_help ''Name for the sheet.'' (prop_text ''sheet'')]]
     sink_excel,
   table_entry ''snk.cloud.s3'' ''S3 object''
     [spec_description ''Write a file to S3 or another S3-compatible store.'',
      spec_icon ''cloud-upload'',
      requires_extension ''httpfs'',
      spec_properties
        ([prop_help ''An s3:// URI.'' (prop_required (prop_path ''path'')),
         cloud_format,
         prop_help ''For CSV: write column names as the first row.''
          (prop_default (JBool True) (prop_boolean ''header'')),
         prop_help ''For Parquet.''
          (prop_default (JString ''zstd'') (prop_enumerated ''compression'' [''zstd'', ''snappy'', ''gzip'', ''brotli'', ''lz4'', ''uncompressed'']))] @ s3_access)]
     sink_s3]"

text \<open>Sinks: databases.\<close>

definition database_sinks :: "table_row list" where
  "database_sinks =
  [table_entry ''snk.db.postgres'' ''PostgreSQL table''
     [spec_description ''Write a table into a PostgreSQL database.'',
      spec_icon ''database'',
      requires_extension ''postgres'',
      spec_properties
        (database_write ''dbname=analytics host=localhost user=postgres'')]
     sink_postgres,
   table_entry ''snk.db.mysql'' ''MySQL table''
     [spec_description ''Write a table into a MySQL or MariaDB database.'',
      spec_icon ''database'',
      requires_extension ''mysql'',
      spec_properties
        (database_write ''host=localhost user=root database=analytics'')]
     sink_mysql,
   table_entry ''snk.db.sqlite'' ''SQLite table''
     [spec_description ''Write a table into a SQLite database file.'',
      spec_icon ''database'',
      requires_extension ''sqlite'',
      spec_properties
        (database_write ''data/analytics.db'')]
     sink_sqlite]"

text \<open>Quality.\<close>

definition quality_checks :: "table_row list" where
  "quality_checks =
  [table_entry ''qa.not_null'' ''Not null''
     [spec_description ''Reject rows where any of the named columns is null.'',
      spec_icon ''shield-alert'',
      spec_properties
        [prop_help ''Every one of these must have a value.''
          (prop_required (prop_string_list ''columns''))]]
     quality_not_null,
   table_entry ''qa.unique'' ''Unique''
     [spec_description ''Reject rows whose key appears more than once.'',
      spec_icon ''fingerprint'',
      spec_properties
        [prop_help (''The key. Named together they form one compound key, not one check each. Every copy of a repeated key is rejected '' @ [CHR 0xE2, CHR 0x80, CHR 0x94] @ '' to keep one instead, use xf.dedup.'')
          (prop_required (prop_string_list ''columns''))]]
     quality_unique,
   table_entry ''qa.range'' ''Range''
     [spec_description ''Reject rows whose value falls outside a numeric range.'',
      spec_icon ''ruler'',
      spec_properties
        [prop_help ''The column to bound.'' (prop_required (prop_text ''column'')),
         prop_help ''Lowest accepted value, inclusive.'' (prop_number ''min''),
         prop_help ''Highest accepted value, inclusive.'' (prop_number ''max'')]]
     quality_range,
   table_entry ''qa.regex'' ''Pattern''
     [spec_description ''Reject rows whose text does not match a pattern.'',
      spec_icon ''regex'',
      spec_properties
        [prop_help ''The column to test.'' (prop_required (prop_text ''column'')),
         prop_help ''A regular expression, e.g. ^[^@]+@[^@]+$ for an email address.''
          (prop_required (prop_text ''pattern''))]]
     quality_regex,
   table_entry ''qa.accepted_values'' ''Accepted values''
     [spec_description ''Reject rows whose value is not one of a listed set.'',
      spec_icon ''list-checks'',
      spec_properties
        [prop_help ''The column to test.'' (prop_required (prop_text ''column'')),
         prop_help ''The values this column is allowed to hold.''
          (prop_required (prop_string_list ''values''))]]
     quality_accepted_values,
   table_entry ''qa.expression'' ''Expression''
     [spec_description ''Reject rows for which a SQL expression is not true.'',
      spec_icon ''code'',
      spec_properties
        [prop_help ''A boolean SQL expression over the input's columns, e.g. total >= 0 AND status <> 'void'. A row for which it is unknown is rejected.''
          (prop_required (prop_sql ''predicate''))]]
     quality_expression,
   table_entry ''qa.referential'' ''Referential''
     [spec_description ''Reject rows whose key is not present in a second input.'',
      spec_icon ''link'',
      spec_inputs [port_new ''left'', port_new ''right''],
      spec_properties
        [prop_help ''The key on the left input.'' (prop_required (prop_text ''column'')),
         prop_help ''The column on the right input it must be found in.''
          (prop_required (prop_text ''reference_column''))]]
     quality_referential]"

text \<open>Control, and the assertions about a whole relation.\<close>

definition control_components :: "table_row list" where
  "control_components =
  [table_entry ''ctl.wait'' ''Wait''
     [spec_description ''Hold for a fixed time, then carry on.'',
      spec_icon ''clock'',
      spec_control CkWait,
      spec_properties
        [prop_help ''How long to wait, in milliseconds.'' (prop_required (prop_integer ''ms'')),
         prop_help ''Printed while waiting.'' (prop_text ''message'')]]
     control_passthrough,
   table_entry ''ctl.log'' ''Log''
     [spec_description ''Report how many rows went past, with a note.'',
      spec_icon ''scroll-text'',
      spec_control CkLog,
      spec_properties
        [prop_help ''Printed with the row count when the rows go past.'' (prop_text ''message'')]]
     control_passthrough,
   table_entry ''ctl.fail'' ''Fail''
     [spec_description ''Stop the run, always or when a condition holds.'',
      spec_icon ''octagon-x'',
      spec_control CkFail,
      spec_properties
        [prop_help ''A row predicate. The run fails if any row matches. Left unset, reaching this node fails the run.''
          (prop_sql ''when''),
         prop_help ''What to say when it fails.'' (prop_required (prop_text ''message''))]]
     control_passthrough,
   table_entry ''ctl.branch'' ''Branch''
     [spec_description ''Run what follows only if some row matches.'',
      spec_icon ''git-branch'',
      spec_control CkBranch,
      spec_properties
        [prop_help ''A row predicate. What follows runs if at least one row matches.''
          (prop_required (prop_sql ''predicate'')),
         prop_help ''Printed when the branch is not taken.'' (prop_text ''message'')]]
     control_passthrough,
   table_entry ''ctl.sequence'' ''Sequence''
     [spec_description ''Finish one branch before another starts.'',
      spec_icon ''list-ordered'',
      spec_control CkSequence,
      spec_inputs [port_help ''Passed through to the output.'' (port_new ''main''), port_help ''Read to completion first. Its rows are dropped.'' (port_new ''after'')],
      spec_properties
        []]
     control_passthrough,
   table_entry ''qa.row_count'' ''Row count''
     [spec_description ''Fail the run unless the row count is within bounds.'',
      spec_icon ''hash'',
      spec_control CkAssert,
      spec_outputs [port_main],
      spec_properties
        [prop_help ''Fewest rows that is acceptable, inclusive.'' (prop_number ''min''),
         prop_help ''Most rows that is acceptable, inclusive.'' (prop_number ''max''),
         prop_help ''What to say when the count is outside.'' (prop_text ''message'')]]
     control_passthrough,
   table_entry ''qa.schema_match'' ''Schema match''
     [spec_description ''Fail the run unless the named columns are present.'',
      spec_icon ''table-properties'',
      spec_control CkAssert,
      spec_outputs [port_main],
      spec_properties
        [prop_help ''Columns that must exist on the input.''
          (prop_required (prop_string_list ''columns'')),
         prop_help ''What to say when one is missing.'' (prop_text ''message'')]]
     control_passthrough]"

definition lowered_by_duckdb :: "table_row list" where
  "lowered_by_duckdb = first_sources @ first_transforms @ remote_sources @ column_transforms @
     summary_transforms @ two_input_transforms @ file_sinks @ database_sinks @ quality_checks @
     control_components"

section \<open>The registry\<close>

definition connectors_of :: "(str \<times> connector) list \<Rightarrow> connectors" where
  "connectors_of natives = map_of natives"

definition native_row :: "connectors \<Rightarrow> connector \<Rightarrow> table_row" where
  "native_row conns c = Some (connector_spec c, (case c of
     ConnSource _ \<Rightarrow> native_source | ConnSink _ \<Rightarrow> native_sink | ConnTransform _ \<Rightarrow> native_transform conns))"

definition native_components :: "(str \<times> connector) list \<Rightarrow> table_row list" where
  "native_components natives = map (\<lambda>(_, c). native_row (connectors_of natives) c) natives"

definition all_components :: "(str \<times> connector) list \<Rightarrow> table_row list" where
  "all_components natives = lowered_by_duckdb @ native_components natives"

type_synonym component_map = "(str, component_spec \<times> build) om"

definition registry_of :: "(str \<times> connector) list \<Rightarrow> component_map option" where
  "registry_of natives = map_option (\<lambda>rows. foldl (\<lambda>m (spec, lower). om_insert (cs_id spec) (spec, lower) m) [] rows)
     (those (all_components natives))"

definition registry_get :: "component_map \<Rightarrow> registry" where
  "registry_get m = om_get m"

definition registry_specs :: "component_map \<Rightarrow> component_spec list" where
  "registry_specs m = map (fst \<circ> snd) m"

definition registry_size :: "component_map \<Rightarrow> nat" where
  "registry_size m = length m"

section \<open>The table, row by row\<close>

definition row_ok :: "(component_spec \<Rightarrow> build \<Rightarrow> bool) \<Rightarrow> table_row \<Rightarrow> bool" where
  "row_ok P row = (case row of Some (c, b) \<Rightarrow> P c b | None \<Rightarrow> False)"

definition new_ports :: "namespace \<Rightarrow> port_spec list \<times> port_spec list" where
  "new_ports ns = (case ns of
     NsSource \<Rightarrow> ([], [port_main]) | NsSink \<Rightarrow> ([port_input], [])
   | NsQuality \<Rightarrow> ([port_input], [port_main, port_rejected]) | _ \<Rightarrow> ([port_input], [port_main]))"

definition new_spec :: "namespace \<Rightarrow> str \<Rightarrow> str \<Rightarrow> component_spec" where
  "new_spec ns ident label = \<lparr> cs_id = ident, cs_namespace = ns, cs_label = label, cs_description = None,
     cs_icon = None, cs_inputs = fst (new_ports ns), cs_outputs = snd (new_ports ns),
     cs_properties = [], cs_control = None, cs_requires_extensions = [] \<rparr>"

lemma component_new_eq:
  "component_new ident label =
     map_option (\<lambda>ns. new_spec ns ident label) (namespace_from_prefix (hd (split_on (\<lambda>c. c = CHR ''.'') ident)))"
  by (auto simp: component_new_def new_spec_def new_ports_def option.map_comp o_def
      intro!: option.map_cong0 split: namespace.split)

lemma hd_split_on_Nil: "hd (split_on p []) = []"
  by simp

lemma hd_split_on_Cons: "hd (split_on p (c # s)) = (if p c then [] else c # hd (split_on p s))"
  using split_on_nonempty [of p s] by (cases "split_on p s") auto

lemma row_ok_entry:
  "row_ok P (table_entry ident label steps b) =
     (case namespace_from_prefix (hd (split_on (\<lambda>c. c = CHR ''.'') ident)) of
        None \<Rightarrow> False | Some ns \<Rightarrow> P (fold (\<lambda>f. f) steps (new_spec ns ident label)) b)"
  by (simp add: row_ok_def table_entry_def component_new_eq split: option.split)

named_theorems spec_projections

lemma spec_projections_steps [spec_projections]:
  "cs_id (spec_description x c) = cs_id c" "cs_id (spec_icon x c) = cs_id c"
  "cs_id (spec_inputs ps c) = cs_id c" "cs_id (spec_outputs ps c) = cs_id c"
  "cs_id (spec_properties qs c) = cs_id c" "cs_id (spec_control k c) = cs_id c"
  "cs_id (requires_extension e c) = cs_id c" "cs_id (new_spec ns i l) = i"
  "cs_namespace (spec_description x c) = cs_namespace c" "cs_namespace (spec_icon x c) = cs_namespace c"
  "cs_namespace (spec_inputs ps c) = cs_namespace c" "cs_namespace (spec_outputs ps c) = cs_namespace c"
  "cs_namespace (spec_properties qs c) = cs_namespace c" "cs_namespace (spec_control k c) = cs_namespace c"
  "cs_namespace (requires_extension e c) = cs_namespace c" "cs_namespace (new_spec ns i l) = ns"
  "cs_inputs (spec_description x c) = cs_inputs c" "cs_inputs (spec_icon x c) = cs_inputs c"
  "cs_inputs (spec_inputs ps c) = ps" "cs_inputs (spec_outputs ps c) = cs_inputs c"
  "cs_inputs (spec_properties qs c) = cs_inputs c" "cs_inputs (spec_control k c) = cs_inputs c"
  "cs_inputs (requires_extension e c) = cs_inputs c" "cs_inputs (new_spec ns i l) = fst (new_ports ns)"
  "cs_properties (spec_description x c) = cs_properties c" "cs_properties (spec_icon x c) = cs_properties c"
  "cs_properties (spec_inputs ps c) = cs_properties c" "cs_properties (spec_outputs ps c) = cs_properties c"
  "cs_properties (spec_properties qs c) = qs" "cs_properties (spec_control k c) = cs_properties c"
  "cs_properties (requires_extension e c) = cs_properties c" "cs_properties (new_spec ns i l) = []"
  "cs_control (spec_description x c) = cs_control c" "cs_control (spec_icon x c) = cs_control c"
  "cs_control (spec_inputs ps c) = cs_control c" "cs_control (spec_outputs ps c) = cs_control c"
  "cs_control (spec_properties qs c) = cs_control c" "cs_control (spec_control k c) = Some k"
  "cs_control (requires_extension e c) = cs_control c" "cs_control (new_spec ns i l) = None"
  "cs_outputs (spec_description x c) = cs_outputs c" "cs_outputs (spec_icon x c) = cs_outputs c"
  "cs_outputs (spec_inputs ps c) = cs_outputs c" "cs_outputs (spec_outputs ps c) = ps"
  "cs_outputs (spec_properties qs c) = cs_outputs c" "cs_outputs (spec_control k c) = cs_outputs c"
  "cs_outputs (requires_extension e c) = cs_outputs c" "cs_outputs (new_spec ns i l) = snd (new_ports ns)"
  by (simp_all add: spec_steps new_spec_def)

lemma prop_projections [spec_projections]:
  "pp_name (prop_help h p) = pp_name p" "pp_name (prop_label h p) = pp_name p"
  "pp_name (prop_default v p) = pp_name p" "pp_name (prop_required p) = pp_name p"
  "pp_type (prop_help h p) = pp_type p" "pp_type (prop_label h p) = pp_type p"
  "pp_type (prop_default v p) = pp_type p" "pp_type (prop_required p) = pp_type p"
  "pp_required (prop_help h p) = pp_required p" "pp_required (prop_label h p) = pp_required p"
  "pp_required (prop_default v p) = pp_required p" "pp_required (prop_required p) = True"
  "pp_default (prop_help h p) = pp_default p" "pp_default (prop_label h p) = pp_default p"
  "pp_default (prop_default v p) = Some v" "pp_default (prop_required p) = pp_default p"
  "pp_options (prop_help h p) = pp_options p" "pp_options (prop_label h p) = pp_options p"
  "pp_options (prop_default v p) = pp_options p" "pp_options (prop_required p) = pp_options p"
  by (simp_all add: prop_steps)

lemma prop_kinds [spec_projections]:
  "pp_name (prop_text n) = n" "pp_name (prop_path n) = n" "pp_name (prop_sql n) = n"
  "pp_name (prop_code n) = n" "pp_name (prop_boolean n) = n" "pp_name (prop_integer n) = n"
  "pp_name (prop_number n) = n" "pp_name (prop_string_list n) = n" "pp_name (prop_map n) = n"
  "pp_name (prop_enumerated n os) = n"
  "pp_type (prop_text n) = PtText" "pp_type (prop_path n) = PtPath" "pp_type (prop_sql n) = PtSql"
  "pp_type (prop_code n) = PtCode" "pp_type (prop_boolean n) = PtBool" "pp_type (prop_integer n) = PtInteger"
  "pp_type (prop_number n) = PtNumber" "pp_type (prop_string_list n) = PtStringList"
  "pp_type (prop_map n) = PtMap" "pp_type (prop_enumerated n os) = PtEnum"
  "\<not> pp_required (prop_text n)" "\<not> pp_required (prop_path n)" "\<not> pp_required (prop_sql n)"
  "\<not> pp_required (prop_code n)" "\<not> pp_required (prop_boolean n)" "\<not> pp_required (prop_integer n)"
  "\<not> pp_required (prop_number n)" "\<not> pp_required (prop_string_list n)" "\<not> pp_required (prop_map n)"
  "\<not> pp_required (prop_enumerated n os)"
  "pp_default (prop_text n) = None" "pp_default (prop_path n) = None" "pp_default (prop_sql n) = None"
  "pp_default (prop_code n) = None" "pp_default (prop_boolean n) = None" "pp_default (prop_integer n) = None"
  "pp_default (prop_number n) = None" "pp_default (prop_string_list n) = None" "pp_default (prop_map n) = None"
  "pp_default (prop_enumerated n os) = None"
  "pp_options (prop_text n) = []" "pp_options (prop_path n) = []" "pp_options (prop_sql n) = []"
  "pp_options (prop_code n) = []" "pp_options (prop_boolean n) = []" "pp_options (prop_integer n) = []"
  "pp_options (prop_number n) = []" "pp_options (prop_string_list n) = []" "pp_options (prop_map n) = []"
  "pp_options (prop_enumerated n os) = os"
  by (simp_all add: prop_steps)

lemmas table_groups = first_sources_def first_transforms_def remote_sources_def column_transforms_def
  summary_transforms_def two_input_transforms_def file_sinks_def database_sinks_def
  quality_checks_def control_components_def

lemma namespace_prefixes [simp]:
  "namespace_from_prefix ''src'' = Some NsSource" "namespace_from_prefix ''xf'' = Some NsTransform"
  "namespace_from_prefix ''snk'' = Some NsSink" "namespace_from_prefix ''qa'' = Some NsQuality"
  "namespace_from_prefix ''ctl'' = Some NsControl"
  by (simp_all add: namespace_from_prefix_def)

text \<open>
  Every spec of the table: the ids are as listed, each property's default is a value its own type
  accepts and one of its options when it has any, and no two properties share a name.
\<close>

definition defaults_fit :: "component_spec \<Rightarrow> build \<Rightarrow> bool" where
  "defaults_fit c b \<longleftrightarrow> distinct (map pp_name (cs_properties c)) \<and>
     list_all (\<lambda>p. case pp_default p of None \<Rightarrow> True
       | Some v \<Rightarrow> property_accepts (pp_type p) v \<and> v \<noteq> JNull \<and>
           (case v of JString t \<Rightarrow> pp_options p = [] \<or> t \<in> set (pp_options p) | _ \<Rightarrow> True)) (cs_properties c)"

lemma table_defaults_fit: "list_all (row_ok defaults_fit) lowered_by_duckdb"
  unfolding lowered_by_duckdb_def list_all_append table_groups
  by (simp add: row_ok_entry hd_split_on_Cons defaults_fit_def spec_projections property_accepts_def
      is_string_def cloud_format_def s3_access_def database_read_def database_write_def write_mode_def
      REDACT_KINDS_def)

end
