(* ===== verification/Property_Check.thy ===== *)
theory Property_Check
  imports Plan_Types
begin

text \<open>
  What the check of a node's properties promises its builder (\<^verbatim>\<open>resolve_properties\<close> of
  \<^verbatim>\<open>plan/specs.rs\<close>): \<open>property_fault\<close> and \<open>resolved_value\<close> are the specification, one property at
  a time, and the lemmas relate the two loops of the code to them.
\<close>

section \<open>Specification\<close>

definition supplied_value :: "(str \<times> json) list \<Rightarrow> str \<Rightarrow> json option" where
  "supplied_value supplied key = (case map_of supplied key of
     Some v \<Rightarrow> if v = JNull then None else Some v | None \<Rightarrow> None)"

definition property_fault :: "str \<Rightarrow> component_spec \<Rightarrow> (str \<times> json) list \<Rightarrow> property_spec \<Rightarrow> engine_error option" where
  "property_fault i spec supplied p = (case supplied_value supplied (pp_name p) of
     Some v \<Rightarrow> (case check_value i p v of Inl e \<Rightarrow> Some e | Inr _ \<Rightarrow> None)
   | None \<Rightarrow> if pp_default p = None \<and> pp_required p
       then Some (MissingProperty i (cs_id spec) (pp_name p)) else None)"

definition resolved_value :: "(str \<times> json) list \<Rightarrow> property_spec \<Rightarrow> json option" where
  "resolved_value supplied p = (case supplied_value supplied (pp_name p) of
     Some v \<Rightarrow> Some v | None \<Rightarrow> pp_default p)"

section \<open>The two loops\<close>

lemma map_of_carry_through:
  "map_of (carry_through supplied resolved) k =
     (case map_of resolved k of Some v \<Rightarrow> Some v | None \<Rightarrow> map_of supplied k)"
  by (induction supplied resolved rule: carry_through.induct)
    (auto simp: map_add_def split: option.splits)

fun fill :: "(str \<times> json) list \<Rightarrow> property_spec list \<Rightarrow> (str \<times> json) list \<Rightarrow> (str \<times> json) list" where
  "fill supplied [] resolved = resolved"
| "fill supplied (p # ps) resolved = fill supplied ps (case resolved_value supplied p of
     Some v \<Rightarrow> obj_insert (pp_name p) v resolved | None \<Rightarrow> resolved)"

lemma resolve_specs_Cons:
  "resolve_specs i spec supplied (p # ps) resolved =
     (case property_fault i spec supplied p of
        Some e \<Rightarrow> Inl e
      | None \<Rightarrow> resolve_specs i spec supplied ps (case resolved_value supplied p of
          Some v \<Rightarrow> obj_insert (pp_name p) v resolved | None \<Rightarrow> resolved))"
  by (cases "map_of supplied (pp_name p)"; cases "pp_default p")
    (auto simp: property_fault_def resolved_value_def supplied_value_def and_then_eq_Inl_iff
      split: sum.split)

lemma resolve_specs_eq:
  "resolve_specs i spec supplied ps resolved =
     (case filter_map (property_fault i spec supplied) ps of
        e # _ \<Rightarrow> Inl e | [] \<Rightarrow> Inr (fill supplied ps resolved))"
proof (induction ps arbitrary: resolved)
  case (Cons p ps)
  show ?case unfolding resolve_specs_Cons Cons.IH by (simp split: option.split list.split)
qed simp

lemma map_of_fill_other: "k \<notin> pp_name ` set ps \<Longrightarrow> map_of (fill supplied ps resolved) k = map_of resolved k"
  by (induction ps arbitrary: resolved) (auto simp: map_of_obj_insert split: option.splits)

lemma map_of_fill:
  assumes "distinct (map pp_name ps)" "p \<in> set ps" "map_of resolved (pp_name p) = None"
  shows "map_of (fill supplied ps resolved) (pp_name p) = resolved_value supplied p"
  using assms
proof (induction ps arbitrary: resolved)
  case (Cons q ps)
  show ?case
  proof (cases "p = q")
    case True
    with Cons.prems show ?thesis
      by (auto simp: map_of_fill_other map_of_obj_insert split: option.splits)
  next
    case False
    with Cons.prems have p: "p \<in> set ps" "pp_name p \<noteq> pp_name q" by (auto simp: rev_image_eqI)
    with Cons.prems show ?thesis
      by (auto simp: Cons.IH map_of_obj_insert split: option.splits)
  qed
qed simp

lemma filter_map_Nil_iff: "filter_map f xs = [] \<longleftrightarrow> (\<forall>x\<in>set xs. f x = None)"
  by (induction xs) (auto split: option.splits)

lemma component_property_None_iff: "component_property spec k = None \<longleftrightarrow> k \<notin> pp_name ` set (cs_properties spec)"
  by (auto simp: component_property_def find_None_iff)

lemma resolve_properties_eq:
  "resolve_properties i spec (JObject supplied) =
     (case filter_map (property_fault i spec supplied) (cs_properties spec) of
        e # _ \<Rightarrow> Inl e
      | [] \<Rightarrow> Inr (JObject (carry_through supplied (fill supplied (cs_properties spec) [])),
             map (\<lambda>(k, _). \<lparr> up_node_id = i, up_property = k \<rparr>)
               (filter (\<lambda>(k, _). component_property spec k = None) supplied)))"
  by (simp add: resolve_properties_def resolve_specs_eq split: list.split)

lemma resolve_properties_shape:
  assumes "resolve_properties i spec properties = Inr r"
  shows "\<exists>supplied. resolve_properties i spec (JObject supplied) = Inr r"
proof (cases properties)
  case JNull
  then have "resolve_properties i spec (JObject []) = resolve_properties i spec properties"
    by (simp add: resolve_properties_def)
  with assms show ?thesis by metis
qed (use assms in \<open>auto simp: resolve_properties_def\<close>)

lemma resolved_lookup:
  assumes "resolve_properties i spec (JObject supplied) = Inr (v, unknown)"
    and "distinct (map pp_name (cs_properties spec))"
  shows "p \<in> set (cs_properties spec) \<Longrightarrow> json_get v (pp_name p) =
      (case resolved_value supplied p of Some w \<Rightarrow> Some w | None \<Rightarrow> map_of supplied (pp_name p))"
    and "component_property spec k = None \<Longrightarrow> json_get v k = map_of supplied k"
    and "p \<in> set (cs_properties spec) \<Longrightarrow> property_fault i spec supplied p = None"
  using assms unfolding resolve_properties_eq
  by (auto simp: json_get_def map_of_carry_through map_of_fill map_of_fill_other filter_map_Nil_iff
      component_property_None_iff split: list.splits)

text \<open>
  The check of a node's properties against its component's spec: it fails exactly when some
  property is at fault, with the fault of the first one in the spec's order; otherwise the builder
  reads for each property the value supplied, or the default where none (or null) was, reads a key
  the spec does not know as it was supplied, and exactly those keys are reported as unknown.
\<close>

lemma resolve_properties_correct:
  assumes "distinct (map pp_name (cs_properties spec))"
  shows "(\<forall>e. resolve_properties i spec (JObject supplied) = Inl e \<longleftrightarrow>
      (\<exists>faults. filter_map (property_fault i spec supplied) (cs_properties spec) = e # faults)) \<and>
    (\<forall>v unknown. resolve_properties i spec (JObject supplied) = Inr (v, unknown) \<longrightarrow>
      (\<forall>p\<in>set (cs_properties spec). json_get v (pp_name p) =
         (case resolved_value supplied p of Some w \<Rightarrow> Some w | None \<Rightarrow> map_of supplied (pp_name p))) \<and>
      (\<forall>k. component_property spec k = None \<longrightarrow> json_get v k = map_of supplied k) \<and>
      map up_property unknown = filter (\<lambda>k. component_property spec k = None) (map fst supplied))"
proof (intro conjI allI impI)
  show "resolve_properties i spec (JObject supplied) = Inl e \<longleftrightarrow>
      (\<exists>faults. filter_map (property_fault i spec supplied) (cs_properties spec) = e # faults)" for e
    unfolding resolve_properties_eq by (auto split: list.split)
  fix v unknown assume r: "resolve_properties i spec (JObject supplied) = Inr (v, unknown)"
  show "\<forall>p\<in>set (cs_properties spec). json_get v (pp_name p) =
         (case resolved_value supplied p of Some w \<Rightarrow> Some w | None \<Rightarrow> map_of supplied (pp_name p))"
    using resolved_lookup(1) [OF r assms] by blast
  show "json_get v k = map_of supplied k" if "component_property spec k = None" for k
    using resolved_lookup(2) [OF r assms that] .
  show "map up_property unknown = filter (\<lambda>k. component_property spec k = None) (map fst supplied)"
    using r unfolding resolve_properties_eq
    by (auto simp: filter_map case_prod_unfold o_def split: list.splits)
qed

definition limit_spec :: component_spec where
  "limit_spec = \<lparr> cs_id = ''xf.limit'', cs_namespace = NsTransform, cs_label = ''Limit'',
     cs_description = None, cs_icon = None, cs_inputs = [port_input], cs_outputs = [port_main],
     cs_properties = [prop_required (prop_integer ''count''), prop_default (JInt 0) (prop_integer ''offset'')],
     cs_control = None, cs_requires_extensions = [] \<rparr>"

lemma resolve_properties_correct_witness:
  "(\<exists>e. resolve_properties ''n'' limit_spec (JObject [(''offset'', JInt 2)]) = Inl e) \<and>
   (\<exists>v. resolve_properties ''n'' limit_spec (JObject [(''count'', JInt 5), (''colour'', JNull)]) =
      Inr (v, [\<lparr> up_node_id = ''n'', up_property = ''colour'' \<rparr>]) \<and>
      json_get v ''count'' = Some (JInt 5) \<and> json_get v ''offset'' = Some (JInt 0))"
proof -
  have d: "distinct (map pp_name (cs_properties limit_spec))"
    by (simp add: limit_spec_def prop_steps)
  note r = resolve_properties_correct [OF d, of "''n''"]
  let ?bad = "[(''offset'', JInt 2)]" and ?good = "[(''count'', JInt 5), (''colour'', JNull)]"
  have "filter_map (property_fault ''n'' limit_spec ?bad) (cs_properties limit_spec) =
      [MissingProperty ''n'' ''xf.limit'' ''count'']"
    by (simp add: filter_map_def limit_spec_def prop_steps property_fault_def supplied_value_def
        check_value_def property_accepts_def json_as_str_def)
  with r [of ?bad] have "\<exists>e. resolve_properties ''n'' limit_spec (JObject ?bad) = Inl e" by blast
  moreover have ok: "\<exists>v. resolve_properties ''n'' limit_spec (JObject ?good) =
      Inr (v, [\<lparr> up_node_id = ''n'', up_property = ''colour'' \<rparr>])"
    unfolding resolve_properties_eq
    by (simp add: filter_map_def limit_spec_def prop_steps property_fault_def supplied_value_def
        check_value_def property_accepts_def json_as_str_def component_property_def)
  then obtain v where v: "resolve_properties ''n'' limit_spec (JObject ?good) =
      Inr (v, [\<lparr> up_node_id = ''n'', up_property = ''colour'' \<rparr>])" ..
  with r [of ?good] have "\<forall>p\<in>set (cs_properties limit_spec). json_get v (pp_name p) =
      (case resolved_value ?good p of Some w \<Rightarrow> Some w | None \<Rightarrow> map_of ?good (pp_name p))" by blast
  then have "json_get v ''count'' = Some (JInt 5)" "json_get v ''offset'' = Some (JInt 0)"
    by (simp_all add: limit_spec_def prop_steps resolved_value_def supplied_value_def)
  with v show ?thesis using calculation by blast
qed

end
