(* ===== verification/Registry_Sound.thy ===== *)
theory Registry_Sound
  imports Spec_Table Property_Check
begin

text \<open>
  The registry as a whole: every row of the table is well formed, the map built from it finds each
  component under its own id, and a builder handed what its row's spec promises -- checked
  properties and the declared number of inputs -- can only fail by naming a value it cannot use.
\<close>

section \<open>How a builder may fail\<close>

definition blames :: "lowering \<Rightarrow> str list \<Rightarrow> engine_error + 'a \<Rightarrow> bool" where
  "blames node keys r = (case r of
     Inr _ \<Rightarrow> True
   | Inl e \<Rightarrow> (\<exists>k reason. e = InvalidProperty (lo_node_id node) k reason) \<or>
       (\<exists>k\<in>set keys. e = MissingProperty (lo_node_id node) (lo_component_id node) k))"

definition has_value :: "lowering \<Rightarrow> str \<Rightarrow> bool" where
  "has_value node key \<longleftrightarrow> (\<exists>v. json_get (lo_properties node) key = Some v \<and> v \<noteq> JNull)"

named_theorems blame

lemma blames_Inr [blame]: "blames node keys (Inr x)"
  by (simp add: blames_def)

lemma blames_invalid [blame]: "blames node keys (Inl (invalid node k reason))"
  by (simp add: blames_def invalid_def)

lemma blames_missing: "k \<in> set keys \<Longrightarrow> blames node keys (Inl (missing node k))"
  by (simp add: blames_def missing_def)

lemma blames_and_then [blame]:
  "blames node keys r \<Longrightarrow> (\<And>x. blames node keys (f x)) \<Longrightarrow> blames node keys (and_then r f)"
  by (cases r) (auto simp: blames_def)

lemma blames_and_then_pair [blame]:
  "blames node keys r \<Longrightarrow> (\<And>x y. blames node keys (f x y)) \<Longrightarrow>
    blames node keys (and_then r (\<lambda>(x, y). f x y))"
  by (cases r) (auto simp: blames_def)

lemma blames_if [blame]:
  "(c \<Longrightarrow> blames node keys a) \<Longrightarrow> (\<not> c \<Longrightarrow> blames node keys b) \<Longrightarrow> blames node keys (if c then a else b)"
  by simp

lemma blames_option [blame]:
  "blames node keys a \<Longrightarrow> (\<And>x. blames node keys (f x)) \<Longrightarrow>
    blames node keys (case v of None \<Rightarrow> a | Some x \<Rightarrow> f x)"
  by (cases v) auto

lemma blames_ok_or [blame]: "blames node keys (Inl e :: engine_error + 'a) \<Longrightarrow> blames node keys (ok_or e (v :: 'a option))"
  by (cases v) (auto simp: blames_def)

lemma blames_traverse [blame]: "(\<And>x. blames node keys (f x)) \<Longrightarrow> blames node keys (traverse f xs)"
  by (induction xs) (auto intro!: blames_and_then blames_Inr)

lemma blames_one_input [blame]: "length (lo_inputs node) = 1 \<Longrightarrow> blames node keys (exactly_one_input node)"
  by (auto simp: exactly_one_input_def blames_def length_Suc_conv)

lemma blames_two_inputs [blame]: "length (lo_inputs node) = 2 \<Longrightarrow> blames node keys (exactly_two_inputs node)"
  by (auto simp: exactly_two_inputs_def blames_def length_Suc_conv numeral_2_eq_2)

section \<open>Reading properties\<close>

lemma blames_required_str [blame]: "has_value node k \<Longrightarrow> blames node keys (required_str node k)"
  by (auto simp: has_value_def required_str_def blames_def invalid_def split: json.split)

lemma blames_resolved_str [blame]: "has_value node k \<Longrightarrow> blames node keys (resolved_str node k)"
  by (simp add: resolved_str_def blames_required_str)

lemma blames_optional_str [blame]: "blames node keys (optional_str node k)"
  by (auto simp: optional_str_def intro!: blame split: json.split)

lemma blames_optional_bool [blame]: "blames node keys (optional_bool node k)"
  by (auto simp: optional_bool_def intro!: blame split: json.split)

lemma blames_optional_array [blame]: "blames node keys (optional_array node k)"
  by (auto simp: optional_array_def intro!: blame split: json.split)

lemma blames_optional_number [blame]: "blames node keys (optional_number node k)"
  by (auto simp: optional_number_def intro!: blame split: json.split)

lemma blames_resolved_bool [blame]: "has_value node k \<Longrightarrow> blames node keys (resolved_bool node k)"
  by (auto simp: has_value_def resolved_bool_def optional_bool_def blames_def invalid_def split: json.split)

lemma blames_required_array [blame]: "has_value node k \<Longrightarrow> blames node keys (required_array node k)"
  by (auto simp: has_value_def required_array_def optional_array_def blames_def invalid_def split: json.split)

lemma blames_non_negative [blame]: "has_value node k \<Longrightarrow> blames node keys (non_negative node k)"
  by (auto simp: has_value_def non_negative_def blames_def invalid_def split: json.split)

lemma blames_non_empty_map [blame]: "has_value node k \<Longrightarrow> blames node keys (non_empty_map node k)"
  by (auto simp: has_value_def non_empty_map_def blames_def invalid_def split: json.split)

lemma blames_map_entries [blame]:
  "(\<And>name v. blames node keys (f name v)) \<Longrightarrow> blames node keys (map_entries node k pairs f)"
  by (auto simp: map_entries_def intro!: blame)

lemma blames_column_list [blame]: "blames node keys (column_list node k values)"
  by (auto simp: column_list_def intro!: blame)

lemma blames_optional_column_list [blame]: "blames node keys (optional_column_list node k)"
  by (auto simp: optional_column_list_def intro!: blame)

lemma blames_checked_columns [blame]: "has_value node k \<Longrightarrow> blames node keys (checked_columns node k)"
  by (auto simp: checked_columns_def intro!: blame)

lemma blames_checked_values [blame]: "has_value node k \<Longrightarrow> blames node keys (checked_values node k)"
  by (auto simp: checked_values_def intro!: blame)

lemma blames_type_name [blame]: "blames node keys (type_name node declared)"
  by (auto simp: type_name_def Let_def intro!: blame)

lemma blames_staging_path [blame]: "blames node keys (staging_path node)"
  by (auto simp: staging_path_def intro!: blame)

lemma blames_registered_transform [blame]: "blames node keys (registered_transform conns node)"
  by (auto simp: registered_transform_def intro!: blame split: option.split connector.split)

section \<open>The builders\<close>

lemmas source_builders = source_csv_def source_parquet_def source_jsonl_def source_json_def
  source_excel_def cloud_reader_def source_s3_def source_http_def source_iceberg_def source_delta_def
  attach_database_def qualified_table_def source_database_def source_postgres_def source_mysql_def
  source_sqlite_def s3_endpoint_def

lemmas sink_builders = sink_database_def sink_postgres_def sink_sqlite_def sink_mysql_def
  sink_parquet_def sink_csv_def sink_json_def sink_jsonl_def sink_excel_def sink_s3_def bad_mode_def

lemmas transform_builders = transform_sql_def transform_filter_def transform_select_def
  transform_join_def transform_derive_def transform_rename_def transform_cast_def
  transform_distinct_def transform_dedup_def transform_sort_def transform_limit_def
  transform_sample_def transform_aggregate_def transform_window_def transform_pivot_def
  transform_unpivot_def transform_union_def set_operation_def transform_intersect_def
  transform_except_def transform_ai_chunk_def transform_ai_redact_def wanted_kinds_def

lemmas quality_builders = quality_not_null_def quality_unique_def quality_range_def quality_regex_def
  quality_accepted_values_def quality_expression_def quality_referential_def

lemma blames_passthrough [blame]: "0 < length (lo_inputs node) \<Longrightarrow> blames node keys (control_passthrough node)"
  by (auto simp: control_passthrough_def intro!: blame split: list.split)

lemma blames_s3_endpoint [blame]: "has_value node ''use_ssl'' \<Longrightarrow> blames node keys (s3_endpoint node e)"
  by (cases e) (auto simp: s3_endpoint_def intro!: blame split: option.split prod.split)

lemma blames_with_s3_secret [blame]:
  "has_value node ''use_ssl'' \<Longrightarrow> has_value node ''path'' \<Longrightarrow> blames node keys (with_s3_secret node s)"
  unfolding with_s3_secret_def Let_def by (intro blame) auto

lemma blames_join_condition [blame]: "blames node [''keys''] (join_condition node t)"
  unfolding join_condition_def
  by (intro blame) (auto intro!: blame blames_missing split: option.split list.split)

text \<open>What the compiler establishes before it calls a builder.\<close>

definition promised :: "component_spec \<Rightarrow> lowering \<Rightarrow> bool" where
  "promised c node \<longleftrightarrow> length (lo_inputs node) = input_count c \<and>
     list_all (\<lambda>p. (pp_required p \<or> pp_default p \<noteq> None) \<longrightarrow> has_value node (pp_name p)) (cs_properties c)"

definition may_miss :: "component_spec \<Rightarrow> str list" where
  "may_miss c = (if cs_id c = ''xf.join'' then [''keys''] else [])"

definition lowers_soundly :: "component_spec \<Rightarrow> build \<Rightarrow> bool" where
  "lowers_soundly c b \<longleftrightarrow> (\<forall>node. promised c node \<longrightarrow> blames node (may_miss c) (b node))"

lemmas promise_simps = row_ok_entry hd_split_on_Cons lowers_soundly_def promised_def may_miss_def
  input_count_def new_ports_def spec_projections cloud_format_def s3_access_def database_read_def
  database_write_def write_mode_def

lemma first_sources_lower: "list_all (row_ok lowers_soundly) first_sources"
  unfolding first_sources_def by (auto simp: promise_simps source_builders Let_def intro!: blame)

lemma first_transforms_lower: "list_all (row_ok lowers_soundly) first_transforms"
  unfolding first_transforms_def by (auto simp: promise_simps source_builders transform_builders Let_def intro!: blame)

lemma remote_sources_lower: "list_all (row_ok lowers_soundly) remote_sources"
  unfolding remote_sources_def by (auto simp: promise_simps source_builders Let_def intro!: blame)

lemma column_transforms_lower: "list_all (row_ok lowers_soundly) column_transforms"
  unfolding column_transforms_def by (auto simp: promise_simps transform_builders Let_def intro!: blame)

lemma summary_transforms_lower: "list_all (row_ok lowers_soundly) summary_transforms"
  unfolding summary_transforms_def by (auto simp: promise_simps transform_builders Let_def intro!: blame)

lemma two_input_transforms_lower: "list_all (row_ok lowers_soundly) two_input_transforms"
  unfolding two_input_transforms_def by (auto simp: promise_simps transform_builders Let_def intro!: blame)

lemma file_sinks_lower: "list_all (row_ok lowers_soundly) file_sinks"
  unfolding file_sinks_def by (auto simp: promise_simps sink_builders Let_def intro!: blame)

lemma database_sinks_lower: "list_all (row_ok lowers_soundly) database_sinks"
  unfolding database_sinks_def by (auto simp: promise_simps sink_builders source_builders Let_def intro!: blame)

lemma quality_checks_lower: "list_all (row_ok lowers_soundly) quality_checks"
  unfolding quality_checks_def by (auto simp: promise_simps quality_builders Let_def intro!: blame)

lemma control_components_lower: "list_all (row_ok lowers_soundly) control_components"
  unfolding control_components_def by (auto simp: promise_simps  Let_def intro!: blame)

lemma table_lowers: "list_all (row_ok lowers_soundly) lowered_by_duckdb"
  unfolding lowered_by_duckdb_def list_all_append
  by (intro conjI first_sources_lower first_transforms_lower remote_sources_lower
      column_transforms_lower summary_transforms_lower two_input_transforms_lower file_sinks_lower
      database_sinks_lower quality_checks_lower control_components_lower)

section \<open>The control half\<close>

definition controls_soundly :: "component_spec \<Rightarrow> build \<Rightarrow> bool" where
  "controls_soundly c b \<longleftrightarrow> (\<forall>node kind. cs_control c = Some kind \<longrightarrow> promised c node \<longrightarrow>
     blames node [] (control_for kind (lo_node_id node) (lo_component_id node) (lo_properties node)
       (lo_inputs node)))"

definition bare :: "lowering \<Rightarrow> lowering" where
  "bare node = \<lparr> lo_node_id = lo_node_id node, lo_component_id = lo_component_id node,
     lo_properties = lo_properties node, lo_inputs = lo_inputs node, lo_alias = None,
     lo_materialize = MatAuto, lo_spill_path = None, lo_staging = None, lo_incremental = None \<rparr>"

lemma blames_bare: "blames (bare node) keys r \<Longrightarrow> blames node keys r"
  by (cases r) (auto simp: blames_def bare_def)

lemma blames_assertion [blame]:
  "blames node keys (assertion_probe node upstream)" "blames node keys (assertion_message node)"
  unfolding assertion_probe_def assertion_message_def Let_def by (intro blame; simp add: blame)+

lemma control_for_blames:
  assumes "kind = CkWait \<Longrightarrow> has_value node ''ms''" "kind = CkFail \<Longrightarrow> has_value node ''message''"
    and "kind = CkBranch \<Longrightarrow> has_value node ''predicate''"
    and "kind = CkSequence \<Longrightarrow> length (lo_inputs node) = 2"
  shows "blames node [] (control_for kind (lo_node_id node) (lo_component_id node) (lo_properties node)
    (lo_inputs node))"
proof (rule blames_bare)
  have "has_value (bare node) k = has_value node k" for k by (simp add: has_value_def bare_def)
  with assms show "blames (bare node) [] (control_for kind (lo_node_id node) (lo_component_id node)
      (lo_properties node) (lo_inputs node))"
    unfolding control_for_def Let_def bare_def [symmetric]
    by (cases kind) (auto intro!: blame simp: bare_def)
qed

lemma other_rows_control:
  "list_all (row_ok controls_soundly) (first_sources @ first_transforms @ remote_sources @
     column_transforms @ summary_transforms @ two_input_transforms @ file_sinks @ database_sinks @
     quality_checks)"
  unfolding list_all_append table_groups
  by (simp add: row_ok_entry hd_split_on_Cons controls_soundly_def spec_projections)

lemma control_rows_control: "list_all (row_ok controls_soundly) control_components"
  unfolding control_components_def
  by (auto simp: row_ok_entry hd_split_on_Cons controls_soundly_def spec_projections promised_def
      input_count_def new_ports_def intro!: control_for_blames)

lemma table_controls: "list_all (row_ok controls_soundly) lowered_by_duckdb"
  using other_rows_control control_rows_control by (simp add: lowered_by_duckdb_def)

section \<open>The registry\<close>

definition row_id :: "table_row \<Rightarrow> str option" where
  "row_id row = map_option (\<lambda>(c, b). cs_id c) row"

lemma row_id_entry:
  "row_id (table_entry ident label steps b) =
     (case namespace_from_prefix (hd (split_on (\<lambda>c. c = CHR ''.'') ident)) of
        None \<Rightarrow> None | Some ns \<Rightarrow> Some (cs_id (fold (\<lambda>f. f) steps (new_spec ns ident label))))"
  by (simp add: row_id_def table_entry_def component_new_eq split: option.split)

lemmas row_id_simps = row_id_entry hd_split_on_Cons spec_projections

definition table_ids :: "str list" where
  "table_ids =
     [''src.file.csv'', ''src.file.parquet'', ''src.file.jsonl'', ''xf.filter'', ''xf.select'',
      ''xf.join'', ''xf.sql'', ''src.file.json'', ''src.file.excel'', ''src.cloud.s3'',
      ''src.cloud.http'', ''src.lake.iceberg'', ''src.lake.delta'', ''src.db.postgres'',
      ''src.db.mysql'', ''src.db.sqlite'', ''xf.derive'', ''xf.rename'', ''xf.cast'', ''xf.distinct'',
      ''xf.dedup'', ''xf.sort'', ''xf.limit'', ''xf.sample'', ''xf.aggregate'', ''xf.window'',
      ''xf.pivot'', ''xf.unpivot'', ''xf.ai.chunk'', ''xf.ai.redact'', ''xf.union'',
      ''xf.intersect'', ''xf.except'', ''snk.file.parquet'', ''snk.file.csv'', ''snk.file.json'',
      ''snk.file.jsonl'', ''snk.file.excel'', ''snk.cloud.s3'', ''snk.db.postgres'',
      ''snk.db.mysql'', ''snk.db.sqlite'', ''qa.not_null'', ''qa.unique'', ''qa.range'',
      ''qa.regex'', ''qa.accepted_values'', ''qa.expression'', ''qa.referential'', ''ctl.wait'',
      ''ctl.log'', ''ctl.fail'', ''ctl.branch'', ''ctl.sequence'', ''qa.row_count'',
      ''qa.schema_match'']"

lemma lowered_ids: "map row_id lowered_by_duckdb = map Some table_ids"
  unfolding lowered_by_duckdb_def table_groups table_ids_def by (simp add: row_id_simps)

lemma table_ids_distinct: "distinct table_ids"
  by code_simp

lemma native_ids: "map row_id (native_components natives) = map (\<lambda>(_, c). Some (cs_id (connector_spec c))) natives"
  by (auto simp: native_components_def row_id_def native_row_def)

lemma those_map_Some: "those (map Some xs) = Some xs"
  by (induction xs) auto

lemma those_Some: "None \<notin> set rows \<Longrightarrow> \<exists>xs. rows = map Some xs"
  by (rule exI [of _ "map the rows"]) (induction rows, auto)

lemma all_rows_present: "\<exists>xs. all_components natives = map Some xs"
proof (rule those_Some)
  have "row_id r \<noteq> None" if "r \<in> set lowered_by_duckdb" for r
  proof -
    from that have "row_id r \<in> set (map row_id lowered_by_duckdb)" by simp
    then show ?thesis unfolding lowered_ids by auto
  qed
  then show "None \<notin> set (all_components natives)"
    by (auto simp: all_components_def native_components_def native_row_def row_id_def)
qed

lemma registry_rows:
  assumes "registry_of natives = Some m" "all_components natives = map Some xs"
  shows "registry_get m i = map_of (rev (map (\<lambda>r. (cs_id (fst r), r)) xs)) i"
proof -
  let ?kvs = "map (\<lambda>r. (cs_id (fst r), r)) xs"
  from assms have "m = foldl (\<lambda>m (spec, lower). om_insert (cs_id spec) (spec, lower) m) [] xs"
    by (auto simp: registry_of_def those_map_Some)
  also have "\<dots> = foldl (\<lambda>acc (k, v). om_insert k v acc) [] ?kvs"
    by (simp add: foldl_map case_prod_unfold)
  finally show ?thesis
    using om.get_foldl_ins [of "[]" ?kvs i] by (auto simp: registry_get_def om_get_def split: option.splits)
qed

lemma registry_get_row:
  assumes "registry_of natives = Some m" "registry_get m i = Some (c, b)"
  shows "Some (c, b) \<in> set (all_components natives)" "cs_id c = i"
proof -
  obtain xs where xs: "all_components natives = map Some xs" using all_rows_present by blast
  from assms(2) have "(i, (c, b)) \<in> set (map (\<lambda>r. (cs_id (fst r), r)) xs)"
    unfolding registry_rows [OF assms(1) xs] by (auto dest: map_of_SomeD)
  then show "Some (c, b) \<in> set (all_components natives)" "cs_id c = i" by (auto simp: xs)
qed

lemma registry_lookup:
  assumes "distinct (map row_id (all_components natives))"
  shows "\<exists>m. registry_of natives = Some m \<and> (\<forall>i c b. registry_get m i = Some (c, b) \<longleftrightarrow>
    Some (c, b) \<in> set (all_components natives) \<and> cs_id c = i)"
proof -
  obtain xs where xs: "all_components natives = map Some xs" using all_rows_present by blast
  let ?kvs = "map (\<lambda>r. (cs_id (fst r), r)) xs"
  obtain m where m: "registry_of natives = Some m" by (auto simp: registry_of_def xs those_map_Some)
  have "map row_id (all_components natives) = map Some (map (\<lambda>r. cs_id (fst r)) xs)"
    unfolding xs by (auto simp: row_id_def)
  with assms have "distinct (map (\<lambda>r. cs_id (fst r)) xs)" by (simp only: distinct_map [of Some])
  then have d: "distinct (map fst (rev ?kvs))" by (simp add: rev_map [symmetric] o_def)
  have "registry_get m i = Some (c, b) \<longleftrightarrow> Some (c, b) \<in> set (all_components natives) \<and> cs_id c = i" for i c b
    unfolding registry_rows [OF m xs] map_of_eq_Some_iff [OF d] by (force simp: xs)
  with m show ?thesis by blast
qed

text \<open>
  The registry is complete and unambiguous: building it never panics, and, as long as no native
  component reuses an id, it holds exactly the rows of the table -- looking an id up gives the row
  whose spec has that id, and the function that lowers it.
\<close>

lemma registry_finds_each:
  assumes "distinct (map row_id (all_components natives))"
  shows "\<exists>m. registry_of natives = Some m \<and> (\<forall>i c b. registry_get m i = Some (c, b) \<longleftrightarrow>
    Some (c, b) \<in> set (all_components natives) \<and> cs_id c = i)"
  by (rule registry_lookup [OF assms])

lemma registry_finds_each_witness:
  "\<exists>m. registry_of [] = Some m \<and> (\<forall>i c b. registry_get m i = Some (c, b) \<longleftrightarrow>
    Some (c, b) \<in> set (all_components []) \<and> cs_id c = i)"
proof (rule registry_finds_each)
  show "distinct (map row_id (all_components []))"
    by (simp add: all_components_def native_components_def lowered_ids distinct_map table_ids_distinct)
qed

section \<open>Lowering a checked node\<close>

text \<open>
  What a native component has to be for the engine: a spec whose defaults fit, no control half, and
  exactly one input when rows flow into it.
\<close>

definition native_fits :: "connector \<Rightarrow> bool" where
  "native_fits c \<longleftrightarrow> (let spec = connector_spec c in
     defaults_fit spec native_source \<and> cs_control spec = None \<and>
     (case c of ConnSource _ \<Rightarrow> True | _ \<Rightarrow> input_count spec = 1))"

definition natives_fit :: "(str \<times> connector) list \<Rightarrow> bool" where
  "natives_fit natives \<longleftrightarrow> distinct (map row_id (all_components natives)) \<and>
     list_all (\<lambda>(i, c). cs_id (connector_spec c) = i \<and> native_fits c) natives"

lemma row_ok_Some: "row_ok P (Some (c, b)) = P c b"
  by (simp add: row_ok_def)

lemma natives_defaults: "natives_fit natives \<Longrightarrow> list_all (row_ok defaults_fit) (native_components natives)"
  by (auto simp: natives_fit_def native_fits_def native_components_def native_row_def row_ok_Some
      Let_def defaults_fit_def list_all_iff)

lemma natives_control: "natives_fit natives \<Longrightarrow> list_all (row_ok controls_soundly) (native_components natives)"
  by (auto simp: natives_fit_def native_fits_def native_components_def native_row_def row_ok_Some
      Let_def controls_soundly_def list_all_iff)

lemma native_builders_blame:
  "blames node keys (native_source node)"
  "length (lo_inputs node) = 1 \<Longrightarrow> blames node keys (native_sink node)"
  "blames node keys (native_transform conns node)"
  "length (lo_inputs node) = 1 \<Longrightarrow> blames node keys (native_feed conns node file)"
  unfolding native_source_def native_sink_def native_transform_def native_feed_def Let_def
  by (intro blame; simp add: blame split: option.split json.split list.split)+

lemma natives_lower: "natives_fit natives \<Longrightarrow> list_all (row_ok lowers_soundly) (native_components natives)"
  by (auto simp: natives_fit_def native_fits_def native_components_def native_row_def row_ok_Some
      Let_def lowers_soundly_def promised_def list_all_iff native_builders_blame split: connector.splits)

lemma registered_row:
  assumes "natives_fit natives" "registry_of natives = Some m" "registry_get m i = Some (c, b)"
  shows "defaults_fit c b" "controls_soundly c b" "lowers_soundly c b" "cs_id c = i"
proof -
  from registry_get_row [OF assms(2,3)] have r: "Some (c, b) \<in> set (all_components natives)" "cs_id c = i" .
  have "P c b" if "list_all (row_ok P) lowered_by_duckdb" "list_all (row_ok P) (native_components natives)" for P
    using that r(1) by (auto simp: all_components_def list_all_iff row_ok_def split: option.splits)
  from this [OF table_defaults_fit natives_defaults] this [OF table_controls natives_control]
    this [OF table_lowers natives_lower] r(2) assms(1)
  show "defaults_fit c b" "controls_soundly c b" "lowers_soundly c b" "cs_id c = i" by blast+
qed

lemma resolved_has_value:
  assumes "resolve_properties i c properties = Inr (v, unknown)" "defaults_fit c b"
    and "p \<in> set (cs_properties c)" "pp_required p \<or> pp_default p \<noteq> None" "lo_properties node = v"
  shows "has_value node (pp_name p)"
proof -
  obtain supplied where r: "resolve_properties i c (JObject supplied) = Inr (v, unknown)"
    using resolve_properties_shape [OF assms(1)] ..
  have d: "distinct (map pp_name (cs_properties c))"
    and def: "pp_default p = Some w \<Longrightarrow> w \<noteq> JNull" for w
    using assms(2,3) by (auto simp: defaults_fit_def list_all_iff split: option.splits)
  note l = resolved_lookup [OF r d]
  have "\<exists>w. resolved_value supplied p = Some w \<and> w \<noteq> JNull"
    using l(3) [OF assms(3)] assms(4) def
    by (auto simp: property_fault_def resolved_value_def supplied_value_def split: option.splits if_splits)
  with l(1) [OF assms(3)] show ?thesis by (auto simp: has_value_def assms(5))
qed

lemma promised_lowering:
  assumes "resolve_properties i c properties = Inr (v, unknown)" "defaults_fit c b"
    and "length (lo_inputs node) = input_count c" "lo_properties node = v"
  shows "promised c node"
  using resolved_has_value [OF assms(1,2) _ _ assms(4)] assms(3)
  by (auto simp: promised_def list_all_iff)

lemma transform_inputs:
  assumes "natives_fit natives" "registry_of natives = Some m" "registry_get m i = Some (c, b)"
    and "connectors_of natives i = Some (ConnTransform t)"
  shows "input_count c = 1"
proof -
  from assms(4) have n: "(i, ConnTransform t) \<in> set natives" by (auto simp: connectors_of_def dest: map_of_SomeD)
  with assms(1) have f: "native_fits (ConnTransform t)" "cs_id (connector_spec (ConnTransform t)) = i"
    by (auto simp: natives_fit_def list_all_iff)
  let ?row = "(connector_spec (ConnTransform t), native_transform (connectors_of natives))"
  from n have "native_row (connectors_of natives) (ConnTransform t) \<in> set (native_components natives)"
    unfolding native_components_def by force
  then have "Some ?row \<in> set (all_components natives)"
    by (simp add: all_components_def native_row_def)
  moreover from assms(1) have "distinct (map row_id (all_components natives))" by (simp add: natives_fit_def)
  from registry_lookup [OF this] assms(2)
  have "registry_get m i = Some (c, b) \<longleftrightarrow> Some (c, b) \<in> set (all_components natives) \<and> cs_id c = i" for c b
    by auto
  ultimately have "registry_get m i = Some ?row" using f(2) by simp
  with assms(3) f(1) show ?thesis by (simp add: native_fits_def Let_def)
qed

lemma lower_stage_errors:
  assumes "natives_fit natives" "registry_of natives = Some m" "registry_get m cid = Some (c, b)"
    and "length inputs = input_count c"
    and "resolve_properties (pn_id node) c properties = Inr (v, unknown)"
    and "lower_stage (connectors_of natives) opts node kind cid inputs c b v unknown = Inl e"
  shows "e = RawInstall (pn_id node) \<or> (\<exists>k r. e = InvalidProperty (pn_id node) k r) \<or>
    (cid = ''xf.join'' \<and> e = MissingProperty (pn_id node) cid ''keys'')"
proof -
  note row = registered_row [OF assms(1-3)]
  let ?i = "pn_id node" and ?conns = "connectors_of natives"
  define ok where "ok = (\<lambda>e. (\<exists>k r. e = InvalidProperty ?i k r) \<or>
    (cid = ''xf.join'' \<and> e = MissingProperty ?i cid ''keys''))"
  have conn: "ok e" if "connector_checked ?i conn v = Inl e" for e conn
    using that by (auto simp: ok_def connector_checked_def split: option.splits sum.splits connector_error.splits
        elim!: map_err.elims)
  have promised: "promised c low" if "lo_inputs low = inputs" "lo_properties low = v" for low
    by (rule promised_lowering [OF assms(5) row(1)]) (use that assms(4) in simp_all)
  have build: "ok e" if "b low = Inl e" "lo_inputs low = inputs" "lo_properties low = v"
    "lo_node_id low = ?i" "lo_component_id low = cid" for e low
    using row(3,4) promised [OF that(2,3)] that by (fastforce simp: lowers_soundly_def blames_def may_miss_def ok_def split: if_splits)
  have feed: "ok e" if "native_feed ?conns low fl = Inl e" "lo_inputs low = inputs" "lo_node_id low = ?i"
    "?conns cid = Some (ConnTransform t)" for e low fl t
    using native_builders_blame(4) [of low "[]" ?conns fl] that assms(4)
      transform_inputs [OF assms(1-3) that(4)] by (auto simp: blames_def ok_def)
  have ctl: "ok e" if "cs_control c = Some k" "control_for k ?i cid v inputs = Inl e" for e k
  proof -
    let ?low = "\<lparr> lo_node_id = ?i, lo_component_id = cid, lo_properties = v, lo_inputs = inputs,
      lo_alias = None, lo_materialize = MatAuto, lo_spill_path = None, lo_staging = None,
      lo_incremental = None \<rparr>"
    have "promised c ?low" by (rule promised) simp_all
    with row(2) that(1) have "blames ?low [] (control_for k ?i cid v inputs)"
      by (fastforce simp: controls_soundly_def)
    with that(2) show ?thesis by (auto simp: blames_def ok_def)
  qed
  have "ok e \<or> e = RawInstall ?i"
    using assms(6) unfolding lower_stage_def Let_def and_then_eq_Inl_iff
    apply (elim disjE exE conjE)
    subgoal using conn by blast
    subgoal by (rule disjI1, erule build) simp_all
    subgoal by (auto simp: and_then_eq_Inl_iff direction_of_def intro: feed split: option.splits if_splits connector.splits)
    subgoal by (auto simp: and_then_eq_Inl_iff intro: ctl split: option.splits)
    subgoal by (auto split: if_splits)
    done
  then show ?thesis by (auto simp: ok_def)
qed

text \<open>
  C7: The spec of a component is a contract its builder can rely on: once a node has passed the
  checks against its spec -- the component is registered, its inputs are counted, its properties
  resolved -- lowering it cannot fail for want of an input or a property. What is left is a value
  that makes no sense, an \<^verbatim>\<open>INSTALL\<close> in the SQL, or a join with neither keys nor a condition.
\<close>

theorem checked_node_lowers:
  assumes "natives_fit natives" "registry_of natives = Some m"
    and "lookup_component (registry_get m) (pn_id node) cid = Inr (c, b)"
    and "check_input_count (pn_id node) c (length inputs) = Inr ()"
    and "resolve_properties (pn_id node) c properties = Inr (v, unknown)"
    and "lower_stage (connectors_of natives) opts node kind cid inputs c b v unknown = Inl e"
  shows "e = RawInstall (pn_id node) \<or> (\<exists>k r. e = InvalidProperty (pn_id node) k r) \<or>
    (cid = ''xf.join'' \<and> e = MissingProperty (pn_id node) cid ''keys'')"
proof (rule lower_stage_errors [OF assms(1,2) _ _ assms(5,6)])
  show "registry_get m cid = Some (c, b)" using assms(3) by (simp add: lookup_component_def)
  show "length inputs = input_count c" using assms(4) by (simp add: check_input_count_def split: if_splits)
qed

definition one_input :: "input list" where
  "one_input = [\<lparr> in_node_id = ''a'', in_source_handle = None, in_target_handle = None \<rparr>]"

lemma registry_without_natives: "natives_fit []"
  by (simp add: natives_fit_def all_components_def native_components_def lowered_ids distinct_map
      table_ids_distinct)

lemma limit_row:
  "\<exists>c h h'. Some (c, transform_limit) \<in> set (all_components []) \<and> cs_id c = ''xf.limit'' \<and>
     input_count c = 1 \<and> cs_control c = None \<and>
     cs_properties c = [prop_help h (prop_required (prop_integer ''count'')),
       prop_help h' (prop_default (JInt 0) (prop_integer ''offset''))]"
proof -
  have "row_ok (\<lambda>c b. b = transform_limit \<and> cs_id c = ''xf.limit'' \<and> input_count c = 1 \<and> cs_control c = None \<and>
      (\<exists>h h'. cs_properties c = [prop_help h (prop_required (prop_integer ''count'')),
        prop_help h' (prop_default (JInt 0) (prop_integer ''offset''))])) (column_transforms ! 6)"
    by (auto simp: column_transforms_def row_ok_entry hd_split_on_Cons spec_projections input_count_def new_ports_def)
  moreover have "column_transforms ! 6 \<in> set (all_components [])"
    by (simp add: all_components_def lowered_by_duckdb_def column_transforms_def)
  ultimately show ?thesis unfolding row_ok_def by (fastforce split: option.splits)
qed

theorem checked_node_lowers_witness:
  "\<exists>m c v e. registry_get m ''xf.limit'' = Some (c, transform_limit) \<and>
     lower_stage (connectors_of []) compile_options_default (sample_node ''n'' ''xf.limit'' False)
       StTransform ''xf.limit'' one_input c transform_limit v [] = Inl e \<and>
     (\<exists>k r. e = InvalidProperty ''n'' k r)"
proof -
  from registry_lookup [of "[]"] registry_without_natives obtain m where m: "registry_of [] = Some m"
    "\<And>i c b. registry_get m i = Some (c, b) \<longleftrightarrow> Some (c, b) \<in> set (all_components []) \<and> cs_id c = i"
    by (auto simp: natives_fit_def)
  from limit_row obtain c h h' where c: "Some (c, transform_limit) \<in> set (all_components [])"
    "cs_id c = ''xf.limit''" "input_count c = 1" "cs_control c = None"
    "cs_properties c = [prop_help h (prop_required (prop_integer ''count'')),
       prop_help h' (prop_default (JInt 0) (prop_integer ''offset''))]" by blast
  let ?n = "sample_node ''n'' ''xf.limit'' False"
  let ?v = "JObject [(''count'', JInt (- 1)), (''offset'', JInt 0)]"
  have get: "registry_get m ''xf.limit'' = Some (c, transform_limit)" using m(2) c(1,2) by simp
  have i: "pn_id ?n = ''n''" by (simp add: sample_node_def)
  have look: "lookup_component (registry_get m) (pn_id ?n) ''xf.limit'' = Inr (c, transform_limit)"
    by (simp add: lookup_component_def get)
  have count: "check_input_count (pn_id ?n) c (length one_input) = Inr ()"
    by (simp add: check_input_count_def c(3) one_input_def)
  have res: "resolve_properties (pn_id ?n) c (JObject [(''count'', JInt (- 1))]) = Inr (?v, [])"
    by (simp add: resolve_properties_def component_property_def c(5) spec_projections check_value_def
        property_accepts_def json_as_str_def)
  have fail: "lower_stage (connectors_of []) compile_options_default ?n StTransform ''xf.limit'' one_input
      c transform_limit ?v [] = Inl (InvalidProperty ''n'' ''count'' ''must not be negative'')"
    by (simp add: lower_stage_def connector_checked_def connectors_of_def transform_limit_def
        exactly_one_input_def one_input_def non_negative_def json_get_def invalid_def i)
  from checked_node_lowers [OF registry_without_natives m(1) look count res fail] get fail
  show ?thesis unfolding i by blast
qed

end
