(* ===== verification/Builder_Facts.thy ===== *)
theory Builder_Facts
  imports Transform_Builders
begin

text \<open>
  What the helpers of the compiler promise: which input is the left one, what a watermark turns
  into, how long a retry waits, what of a URL reaches the lineage, and where two of the source's
  comments promise more than the code does.
\<close>

section \<open>Two inputs\<close>

definition named_side :: "input \<Rightarrow> bool" where
  "named_side i \<longleftrightarrow> side i = ''left'' \<or> side i = ''right''"

text \<open>
  The sides of a two-input component follow the handles, not the order of the edges: as soon as
  one edge is named \<^verbatim>\<open>left\<close> or \<^verbatim>\<open>right\<close> and the two are not named alike, swapping the edges
  changes nothing, and an input named \<^verbatim>\<open>left\<close> is the first of the pair.
\<close>

lemma sides_follow_handles:
  assumes "lo_inputs node = [a, b]" "lo_inputs node' = [b, a]" "side a \<noteq> side b"
    and "named_side a \<or> named_side b"
  shows "exactly_two_inputs node = exactly_two_inputs node' \<and>
    (side b = ''left'' \<longrightarrow> exactly_two_inputs node = Inr (input_relation b, input_relation a))"
  using assms by (auto simp: exactly_two_inputs_def named_side_def)

text \<open>Two edges for the examples, and a node that reads them.\<close>

definition example_input :: "str \<Rightarrow> str \<Rightarrow> input" where
  "example_input i handle = \<lparr> in_node_id = i, in_source_handle = None, in_target_handle = Some handle \<rparr>"

definition example_node :: "input list \<Rightarrow> json \<Rightarrow> lowering" where
  "example_node inputs properties = \<lparr> lo_node_id = ''n'', lo_component_id = ''c'',
     lo_properties = properties, lo_inputs = inputs, lo_alias = None, lo_materialize = MatAuto,
     lo_spill_path = None, lo_staging = None, lo_incremental = None \<rparr>"

lemmas example_simps = example_input_def example_node_def side_def input_relation_def named_side_def

lemma sides_follow_handles_witness:
  "exactly_two_inputs (example_node [example_input ''r'' ''right'', example_input ''l'' ''left''] JNull)
     = Inr (''l'', ''r'')"
proof -
  let ?r = "example_input ''r'' ''right''" and ?l = "example_input ''l'' ''left''"
  have "lo_inputs (example_node [?r, ?l] JNull) = [?r, ?l]" "lo_inputs (example_node [?l, ?r] JNull) = [?l, ?r]"
    "side ?r \<noteq> side ?l" "named_side ?r \<or> named_side ?l" by (simp_all add: example_simps)
  note sides = sides_follow_handles [OF this, THEN conjunct2]
  have "side ?l = ''left''" "input_relation ?l = ''l''" "input_relation ?r = ''r''"
    by (simp_all add: example_simps)
  with sides show ?thesis by simp
qed

text \<open>
  The ports of a sequence node are called \<^verbatim>\<open>main\<close> and \<^verbatim>\<open>after\<close>, which that rule does not know, and its
  view takes the first edge: an edge into \<^verbatim>\<open>after\<close> that comes first in the document is the one
  passed on, and the rows of \<^verbatim>\<open>main\<close> are the ones read and dropped.
\<close>

lemma sequence_ignores_ports:
  "control_passthrough (example_node [example_input ''a'' ''after'', example_input ''m'' ''main''] JNull)
     = Inr (create_view (example_node [example_input ''a'' ''after'', example_input ''m'' ''main''] JNull)
         (plain_base ''a''))"
  "control_for CkSequence ''n'' ''c'' JNull [example_input ''a'' ''after'', example_input ''m'' ''main''] =
     Inr \<lparr> ct_kind = CkSequence,
       ct_probe = Some (''SELECT count(*) AS n FROM '' @ quote_identifier ''m'' @ '';''),
       ct_message = None, ct_wait_ms = None \<rparr>"
  by (simp_all add: control_passthrough_def control_for_def exactly_two_inputs_def example_simps)

section \<open>Watermarks\<close>

definition number_char :: "char \<Rightarrow> bool" where
  "number_char c \<longleftrightarrow> is_ascii_digit c \<or> c = CHR ''.'' \<or> c = CHR ''-'' \<or> c = CHR ''+''"

text \<open>
  A remembered value cannot escape the predicate it is put in: what is written is either the
  value itself, and then it is made of digits, dots and signs only, or one quoted literal that
  reads back as the value and leaves exactly what follows it.
\<close>

lemma watermark_is_one_token:
  assumes "rest = [] \<or> hd rest \<noteq> CHR 0x27"
  shows "(watermark_literal v = v \<and> v \<noteq> [] \<and> list_all number_char v) \<or>
    (watermark_literal v = quote_literal v \<and>
     read_quoted (CHR 0x27) (tl (watermark_literal v @ rest)) = Some (v, rest))"
  using read_quoted_double [of rest "CHR 0x27" v] assms
  by (auto simp: watermark_literal_def quote_literal_def number_char_def list_all_iff)

lemma watermark_is_one_token_witness:
  "watermark_literal ''1'' = ''1'' \<and> watermark_literal ''1-'' = quote_literal ''1-'' \<and>
     read_quoted (CHR 0x27) (tl (watermark_literal ''1-'' @ '' AND'')) = Some (''1-'', '' AND'')"
proof -
  have "watermark_literal ''1'' = ''1''" "watermark_literal ''1-'' = quote_literal ''1-''"
    "quote_literal ''1-'' \<noteq> ''1-''" by code_simp+
  with watermark_is_one_token [of "'' AND''" "''1-''"] show ?thesis by simp
qed

section \<open>Waiting before a retry\<close>

text \<open>
  The wait before a retry doubles from the node's backoff and stops at sixteen doublings, never
  leaves a 64-bit count, and never shrinks from one attempt to the next.
\<close>

lemma backoff_doubles:
  "backoff_for p (Suc n) = min U64_MAX (sp_retry_backoff_ms p * 2 ^ min n 16) \<and>
   backoff_for p n \<le> U64_MAX \<and> backoff_for p n \<le> backoff_for p (Suc n) \<and>
   backoff_for p (17 + n) = backoff_for p 17"
proof -
  have "min (n - 1) 16 \<le> min n 16" by simp
  then have "sp_retry_backoff_ms p * 2 ^ min (n - 1) 16 \<le> sp_retry_backoff_ms p * 2 ^ min n 16"
    by (intro mult_le_mono power_increasing) auto
  then have "backoff_for p n \<le> backoff_for p (Suc n)"
    unfolding backoff_for_def by (intro min.mono) simp_all
  then show ?thesis by (simp add: backoff_for_def)
qed

section \<open>URLs\<close>

lemma split_once_str_scheme:
  "CHR '':'' \<notin> set a \<Longrightarrow> split_once_str ''://'' (a @ ''://'' @ b) = Some (a, b)"
  by (induction a) (auto simp: starts_with_def)

lemma hd_split_on_clean:
  assumes "\<forall>c\<in>set a. \<not> p c" "b = [] \<or> p (hd b)"
  shows "hd (split_on p (a @ b)) = a"
  using assms by (cases b) (auto simp: split_on_append_sep split_on_no_sep)

lemma split_on_append: "p c \<Longrightarrow> split_on p (a @ c # b) = split_on p a @ split_on p b"
proof (induction a)
  case (Cons d a)
  then show ?case by (cases "split_on p a") auto
qed simp

definition url_text :: "str \<Rightarrow> bool" where
  "url_text s \<longleftrightarrow> CHR ''?'' \<notin> set s \<and> CHR ''#'' \<notin> set s"

text \<open>
  What a URL leaves in the lineage is the scheme, the host and the path: whatever stands before
  an \<^verbatim>\<open>@\<close> in the authority, and everything from the first question mark or hash sign on, is gone --
  as long as the userinfo holds no unescaped slash, question mark or hash sign.
\<close>

lemma lineage_url_is_clean:
  assumes "url_text scheme" "CHR '':'' \<notin> set scheme"
    and "url_text userinfo" "CHR ''/'' \<notin> set userinfo"
    and "url_text host" "CHR ''/'' \<notin> set host" "CHR 0x40 \<notin> set host"
    and "url_text path" "path = [] \<or> hd path = CHR ''/''"
    and "rest = [] \<or> hd rest = CHR ''?'' \<or> hd rest = CHR ''#''"
  shows "url_for_lineage (scheme @ ''://'' @ userinfo @ [CHR 0x40] @ host @ path @ rest) = scheme @ ''://'' @ host @ path"
proof -
  let ?kept = "scheme @ ''://'' @ (userinfo @ [CHR 0x40] @ host) @ path"
  have "hd (split_on (\<lambda>c. c = CHR ''?'' \<or> c = CHR ''#'') (?kept @ rest)) = ?kept"
    by (rule hd_split_on_clean) (use assms in \<open>auto simp: url_text_def\<close>)
  moreover have "split_once_str ''://'' ?kept = Some (scheme, (userinfo @ [CHR 0x40] @ host) @ path)"
    by (rule split_once_str_scheme) (rule assms(2))
  moreover have "takeWhile (\<lambda>c. c \<noteq> CHR ''/'') ((userinfo @ [CHR 0x40] @ host) @ path) = userinfo @ [CHR 0x40] @ host"
    "dropWhile (\<lambda>c. c \<noteq> CHR ''/'') ((userinfo @ [CHR 0x40] @ host) @ path) = path"
    using assms(4,6,9) by (cases path; auto simp: takeWhile_append dropWhile_append)+
  moreover have "split_on (\<lambda>c. c = CHR 0x40) host = [host]"
    by (rule split_on_no_sep) (use assms(7) in blast)
  then have "last (split_on (\<lambda>c. c = CHR 0x40) (userinfo @ [CHR 0x40] @ host)) = host"
    by (simp add: split_on_append)
  ultimately show ?thesis by (simp add: url_for_lineage_def Let_def)
qed

lemma lineage_url_is_clean_witness:
  "url_for_lineage (''https'' @ ''://'' @ ''me:pw'' @ [CHR 0x40] @ ''h'' @ ''/x'' @ ''?t=1'') = ''https'' @ ''://'' @ ''h'' @ ''/x''"
  by (rule lineage_url_is_clean) (simp_all add: url_text_def)

text \<open>A slash in the password is enough to keep it: the authority is taken to end there.\<close>

lemma lineage_keeps_slashed_password:
  "url_for_lineage (''https://me:p/w'' @ [CHR 0x40] @ ''h/x'') = ''https://me:p/w'' @ [CHR 0x40] @ ''h/x''"
  by code_simp

section \<open>Type names\<close>

text \<open>
  A type is let through on its characters alone, and the closing bracket is one of them: a type
  name can end the cast it is put in and start another column.
\<close>

lemma type_name_closes_the_cast:
  "type_name node ''INTEGER) AS a, CAST(b AS INTEGER'' = Inr ''INTEGER) AS a, CAST(b AS INTEGER''"
proof -
  have "trim ''INTEGER) AS a, CAST(b AS INTEGER'' = ''INTEGER) AS a, CAST(b AS INTEGER''"
    "list_all type_char ''INTEGER) AS a, CAST(b AS INTEGER''" by code_simp+
  then show ?thesis by (simp add: type_name_def)
qed

end
