(* ===== verification/Session_Frame.thy ===== *)
theory Session_Frame
  imports Plan_Types
begin

text \<open>
  \<^verbatim>\<open>crates/duckdb-engine/src/session.rs\<close>: statements sent to a DuckDB process that is held open, and
  the markers that frame what it prints. The two pipes are lists of what \<^verbatim>\<open>recv_timeout\<close> gives in
  turn: a line, or silence for the length of the timeout -- and the end of a list is a pipe that
  was closed. What a stream of JSON values parses to is an argument, as \<^verbatim>\<open>serde_json\<close>'s: the values
  read up to the end of the text, or the error that stopped it.
\<close>

section \<open>The code\<close>

definition DEFAULT_TIMEOUT :: nat where "DEFAULT_TIMEOUT = 600"

datatype session_error =
    SessionSpawn str str
  | SessionClosed str
  | SessionTimeout nat str
  | SessionWrite str
  | SessionBadOutput str
  | SessionOutOfStep nat nat

definition session_error_text :: "session_error \<Rightarrow> str" where
  "session_error_text e = (case e of
     SessionSpawn path source \<Rightarrow> ''could not start the DuckDB binary at '' @ path @ '': '' @ source
   | SessionClosed sql \<Rightarrow> ''lost contact with DuckDB while running: '' @ sql
   | SessionTimeout seconds sql \<Rightarrow>
       ''DuckDB did not answer within '' @ show_nat seconds @ ''s. The statement was: '' @ sql
   | SessionWrite source \<Rightarrow> ''could not send a statement to DuckDB: '' @ source
   | SessionBadOutput text \<Rightarrow> ''DuckDB's output could not be read as JSON: '' @ text
   | SessionOutOfStep expected seen \<Rightarrow>
       ''the session lost its place: expected marker '' @ show_nat expected @ '' but saw '' @
       show_nat seen @ ''. This is a bug in the session protocol, not in the pipeline.'')"

record answer =
  an_values :: "json list"
  an_stderr :: str

definition has_message :: "answer \<Rightarrow> bool" where
  "has_message a \<longleftrightarrow> trim (an_stderr a) \<noteq> []"

definition MARK :: str where "MARK = ''__etl_mark_''"

definition ERROR_MARK :: str where "ERROR_MARK = ''__etl_errmark_''"

definition marker_for :: "nat \<Rightarrow> str" where
  "marker_for sequence = MARK @ show_nat sequence @ ''__''"

definition error_marker_for :: "nat \<Rightarrow> str" where
  "error_marker_for sequence = ERROR_MARK @ show_nat sequence @ ''__''"

definition sequence_after :: "str \<Rightarrow> str \<Rightarrow> nat option" where
  "sequence_after line mark = (case split_once_str mark line of
     None \<Rightarrow> None
   | Some (_, rest) \<Rightarrow>
       (case split_once_str ''__'' rest of
          None \<Rightarrow> None
        | Some (digits, _) \<Rightarrow> parse_u64 digits))"

definition marker_sequence :: "str \<Rightarrow> nat option" where
  "marker_sequence line = sequence_after line MARK"

definition error_marker_sequence :: "str \<Rightarrow> nat option" where
  "error_marker_sequence line = sequence_after line ERROR_MARK"

datatype wait = TimedOut | WaitClosed | OutOfStep nat

datatype arrival = Line str | Silence

type_synonym pipe = "arrival list"

definition trim_cr :: "str \<Rightarrow> str" where
  "trim_cr line = rev (dropWhile (\<lambda>c. c = CHR 0x0D) (rev line))"

fun read_until :: "(str \<Rightarrow> nat option) \<Rightarrow> nat \<Rightarrow> pipe \<Rightarrow> (wait + str list) \<times> pipe" where
  "read_until marker sequence [] = (Inl WaitClosed, [])"
| "read_until marker sequence (Silence # source) = (Inl TimedOut, source)"
| "read_until marker sequence (Line line # source) = (case marker line of
     Some seen \<Rightarrow> if seen \<noteq> sequence then (Inl (OutOfStep seen), source) else (Inr [], source)
   | None \<Rightarrow>
       (case read_until marker sequence source of
          (Inl w, left) \<Rightarrow> (Inl w, left)
        | (Inr collected, left) \<Rightarrow> (Inr (trim_cr line # collected), left)))"

definition LF :: str where "LF = [CHR 0x0A]"

definition read_answer :: "nat \<Rightarrow> pipe \<Rightarrow> pipe \<Rightarrow> (wait + str \<times> str) \<times> pipe \<times> pipe" where
  "read_answer sequence lines errors =
     (case read_until marker_sequence sequence lines of
        (Inl w, lines') \<Rightarrow> (Inl w, lines', errors)
      | (Inr stdout, lines') \<Rightarrow>
          (case read_until error_marker_sequence sequence errors of
             (Inl w, errors') \<Rightarrow> (Inl w, lines', errors')
           | (Inr stderr, errors') \<Rightarrow> (Inr (join_with LF stdout @ LF, join_with LF stderr), lines', errors')))"

text \<open>
  The stream of values: what was read before the stream ended or broke, and how it broke. An end in
  the middle of a value is not an error.
\<close>

datatype stream_end = AtEof | BrokenAt str

type_synonym json_stream = "str \<Rightarrow> json list \<times> stream_end"

definition parse_values :: "json_stream \<Rightarrow> str \<Rightarrow> session_error + json list" where
  "parse_values parse text = (case parse text of
     (vs, AtEof) \<Rightarrow> Inr vs
   | (vs, BrokenAt message) \<Rightarrow> Inl (SessionBadOutput message))"

text \<open>
  A session: the next sequence number, the text sent so far, and the pipes. Sending appends to
  what was sent; DuckDB's reply to a text is an argument, which may depend on all that was sent before and
  on whether the process was killed, and adds to the two pipes.
\<close>

record session =
  sn_sequence :: nat
  sn_open :: bool
  sn_killed :: bool
  sn_sent :: "str list"
  sn_lines :: pipe
  sn_errors :: pipe

type_synonym duckdb = "bool \<Rightarrow> str list \<Rightarrow> str \<Rightarrow> str + pipe \<times> pipe"

definition send_raw :: "duckdb \<Rightarrow> str \<Rightarrow> session \<Rightarrow> (session_error + unit) \<times> session" where
  "send_raw db text s =
     (if \<not> sn_open s then (Inl (SessionClosed text), s)
      else case db (sn_killed s) (sn_sent s) text of
        Inl source \<Rightarrow> (Inl (SessionWrite source), s)
      | Inr (out, err) \<Rightarrow> (Inr (), s\<lparr> sn_sent := sn_sent s @ [text], sn_lines := sn_lines s @ out,
          sn_errors := sn_errors s @ err \<rparr>))"

definition framed :: "nat \<Rightarrow> str \<Rightarrow> str" where
  "framed sequence sql = sql @ LF @ ''SELECT '' @ [CHR 0x27] @ marker_for sequence @ [CHR 0x27] @
     '' AS __etl_mark;'' @ LF @ ''SELECT error('' @ [CHR 0x27] @ error_marker_for sequence @
     [CHR 0x27] @ '');'' @ LF"

definition execute :: "duckdb \<Rightarrow> json_stream \<Rightarrow> str \<Rightarrow> session \<Rightarrow> (session_error + answer) \<times> session" where
  "execute db parse sql s0 =
     (let s = s0\<lparr> sn_sequence := sn_sequence s0 + 1 \<rparr>; sequence = sn_sequence s
      in case send_raw db (framed sequence sql) s of
           (Inl e, s1) \<Rightarrow> (Inl e, s1)
         | (Inr _, s1) \<Rightarrow>
             (case read_answer sequence (sn_lines s1) (sn_errors s1) of
                (r, lines', errors') \<Rightarrow>
                  (let s2 = s1\<lparr> sn_lines := lines', sn_errors := errors' \<rparr>
                   in case r of
                        Inr (stdout, stderr) \<Rightarrow>
                          (map_sum id (\<lambda>vs. \<lparr> an_values = vs, an_stderr = stderr \<rparr>) (parse_values parse stdout), s2)
                      | Inl TimedOut \<Rightarrow> (Inl (SessionTimeout DEFAULT_TIMEOUT sql), s2\<lparr> sn_killed := True \<rparr>)
                      | Inl WaitClosed \<Rightarrow> (Inl (SessionClosed sql), s2)
                      | Inl (OutOfStep seen) \<Rightarrow> (Inl (SessionOutOfStep sequence seen), s2))))"

fun send_all :: "duckdb \<Rightarrow> str list \<Rightarrow> session \<Rightarrow> (session_error + unit) \<times> session" where
  "send_all db [] s = (Inr (), s)"
| "send_all db (t # ts) s = (case send_raw db t s of
     (Inl e, s') \<Rightarrow> (Inl e, s')
   | (Inr _, s') \<Rightarrow> send_all db ts s')"

definition run_prelude :: "duckdb \<Rightarrow> json_stream \<Rightarrow> str option \<Rightarrow> str list \<Rightarrow> session
    \<Rightarrow> (session_error + unit) \<times> session" where
  "run_prelude db parse extension_dir extensions s =
     (case send_all db ((''.bail off'' @ LF) #
          (case extension_dir of
             Some directory \<Rightarrow> [''SET extension_directory='' @ quote_path directory @ '';'' @ LF]
           | None \<Rightarrow> []) @ map (\<lambda>e. ''LOAD '' @ e @ '';'' @ LF) extensions) s of
        (Inl e, s1) \<Rightarrow> (Inl e, s1)
      | (Inr _, s1) \<Rightarrow>
          (case execute db parse ''SELECT 1 AS ok;'' s1 of
             (Inl e, s2) \<Rightarrow> (Inl e, s2)
           | (Inr a, s2) \<Rightarrow>
               if an_values a = [] \<or> has_message a
               then (Inl (SessionBadOutput (''the session prelude failed. DuckDB said: '' @
                       trim (an_stderr a))), s2)
               else (Inr (), s2)))"

definition session_start :: session where
  "session_start = \<lparr> sn_sequence = 0, sn_open = True, sn_killed = False, sn_sent = [], sn_lines = [], sn_errors = [] \<rparr>"

definition session_open :: "str option \<Rightarrow> duckdb \<Rightarrow> json_stream \<Rightarrow> str \<Rightarrow> str option \<Rightarrow> str list
    \<Rightarrow> session_error + session" where
  "session_open spawn_error db parse binary extension_dir extensions = (case spawn_error of
     Some source \<Rightarrow> Inl (SessionSpawn binary source)
   | None \<Rightarrow>
       (case run_prelude db parse extension_dir extensions session_start of
          (Inl e, _) \<Rightarrow> Inl e
        | (Inr _, s) \<Rightarrow> Inr s))"

definition session_close :: "session \<Rightarrow> session" where
  "session_close s = s\<lparr> sn_open := False \<rparr>"

section \<open>What the markers say\<close>

lemma split_once_str_found:
  "sep \<noteq> [] \<Longrightarrow> (\<And>a c b. pre = a @ c # b \<Longrightarrow> \<not> starts_with (c # b @ sep @ post) sep) \<Longrightarrow>
    split_once_str sep (pre @ sep @ post) = Some (pre, post)"
proof (induction pre)
  case Nil
  then obtain d sep' where "sep = d # sep'" by (cases sep) auto
  then show ?case by (simp add: starts_with_iff)
next
  case (Cons c pre)
  have "\<not> starts_with (c # pre @ sep @ post) sep" using Cons.prems(2) [of "[]" c pre] by simp
  moreover have "split_once_str sep (pre @ sep @ post) = Some (pre, post)"
  proof (rule Cons.IH [OF Cons.prems(1)])
    fix a d b
    assume "pre = a @ d # b"
    then show "\<not> starts_with (d # b @ sep @ post) sep" using Cons.prems(2) [of "c # a" d b] by simp
  qed
  ultimately show ?case by simp
qed

lemma digits_before_underscores:
  "list_all is_ascii_digit ds \<Longrightarrow> split_once_str ''__'' (ds @ ''__'' @ post) = Some (ds, post)"
proof (rule split_once_str_found)
  fix a c b
  assume "list_all is_ascii_digit ds" "ds = a @ c # b"
  then have "is_ascii_digit c" by simp
  then have "c \<noteq> CHR ''_''" by (auto simp: is_ascii_digit_def)
  then show "\<not> starts_with (c # b @ ''__'' @ post) ''__''" by (simp add: starts_with_iff)
qed simp

lemma parse_u64_shown: "n < 2 ^ 64 \<Longrightarrow> parse_u64 (show_nat n) = Some n"
proof -
  assume n: "n < 2 ^ 64"
  have digits: "show_nat n \<noteq> []" "list_all is_ascii_digit (show_nat n)" using show_nat_digits [of _ n] by auto
  then have "hd (show_nat n) \<noteq> CHR ''+''" by (cases "show_nat n") (auto simp: is_ascii_digit_def)
  with n show ?thesis by (simp add: parse_u64_def parse_unsigned_def)
qed

lemma sequence_after_marker:
  assumes "n < 2 ^ 64" "mark \<noteq> []"
    and "\<And>a c b. pre = a @ c # b \<Longrightarrow> \<not> starts_with (c # b @ mark @ show_nat n @ ''__'' @ post) mark"
  shows "sequence_after (pre @ mark @ show_nat n @ ''__'' @ post) mark = Some n"
proof -
  have "split_once_str mark (pre @ mark @ show_nat n @ ''__'' @ post) = Some (pre, show_nat n @ ''__'' @ post)"
    using assms(2,3) by (rule split_once_str_found)
  then show ?thesis
    using show_nat_digits [of _ n] parse_u64_shown [OF assms(1)]
    by (simp add: sequence_after_def digits_before_underscores [simplified])
qed

lemma clean_before_marker:
  "CHR ''_'' \<notin> set pre \<Longrightarrow> n < 2 ^ 64 \<Longrightarrow>
    sequence_after (pre @ MARK @ show_nat n @ ''__'' @ post) MARK = Some n"
  "CHR ''_'' \<notin> set pre \<Longrightarrow> n < 2 ^ 64 \<Longrightarrow>
    sequence_after (pre @ ERROR_MARK @ show_nat n @ ''__'' @ post) ERROR_MARK = Some n"
  by (rule sequence_after_marker; auto simp: MARK_def ERROR_MARK_def starts_with_iff)+

section \<open>Attribution\<close>

definition quiet :: "(str \<Rightarrow> nat option) \<Rightarrow> str list \<Rightarrow> bool" where
  "quiet marker lines \<longleftrightarrow> list_all (\<lambda>l. marker l = None) lines"

lemma read_until_exact:
  "quiet marker lines \<Longrightarrow> marker m = Some n \<Longrightarrow>
    read_until marker n (map Line lines @ Line m # rest) = (Inr (map trim_cr lines), rest)"
  by (induction lines) (auto simp: quiet_def)

lemma read_until_stale:
  "quiet marker lines \<Longrightarrow> marker m = Some k \<Longrightarrow> k \<noteq> n \<Longrightarrow>
    read_until marker n (map Line lines @ Line m # rest) = (Inl (OutOfStep k), rest)"
  by (induction lines) (auto simp: quiet_def)

text \<open>
  What was sent before the \<open>k\<close>th of the statements, and what DuckDB does with it: it prints the rows of the
  statement and then the marker, and says what it has to say and then the error marker. What it prints and
  says (\<open>reply\<close>) may depend on everything that was sent before, so on the views that exist by then and on
  whether a statement is tried again; and only lines that do come are asked not to look like a marker.
\<close>

definition sent_before :: "session \<Rightarrow> str list \<Rightarrow> nat \<Rightarrow> str list" where
  "sent_before s sqls k = sn_sent s @ map (\<lambda>i. framed (sn_sequence s + i + 1) (sqls ! i)) [0..<k]"

type_synonym replies = "str list \<Rightarrow> str \<Rightarrow> str list \<times> str list"

definition answers_once :: "duckdb \<Rightarrow> replies \<Rightarrow> str list \<Rightarrow> nat \<Rightarrow> str \<Rightarrow> bool" where
  "answers_once db reply sent n sql \<longleftrightarrow> (\<exists>m e.
     db False sent (framed n sql) =
       Inr (map Line (fst (reply sent sql)) @ [Line m], map Line (snd (reply sent sql)) @ [Line e]) \<and>
     marker_sequence m = Some n \<and> error_marker_sequence e = Some n \<and>
     quiet marker_sequence (fst (reply sent sql)) \<and> quiet error_marker_sequence (snd (reply sent sql)))"

definition answers_in_turn :: "duckdb \<Rightarrow> replies \<Rightarrow> session \<Rightarrow> str list \<Rightarrow> bool" where
  "answers_in_turn db reply s sqls \<longleftrightarrow>
     (\<forall>k < length sqls. answers_once db reply (sent_before s sqls k) (sn_sequence s + k + 1) (sqls ! k))"

fun execute_each :: "duckdb \<Rightarrow> json_stream \<Rightarrow> str list \<Rightarrow> session \<Rightarrow> (session_error + answer) list" where
  "execute_each db parse [] s = []"
| "execute_each db parse (sql # sqls) s = (case execute db parse sql s of
     (r, s') \<Rightarrow> r # execute_each db parse sqls s')"

definition own_answer :: "json_stream \<Rightarrow> str list \<times> str list \<Rightarrow> session_error + answer" where
  "own_answer parse reply = map_sum id
     (\<lambda>vs. \<lparr> an_values = vs, an_stderr = join_with LF (map trim_cr (snd reply)) \<rparr>)
     (parse_values parse (join_with LF (map trim_cr (fst reply)) @ LF))"

definition in_step :: "session \<Rightarrow> bool" where
  "in_step s \<longleftrightarrow> sn_open s \<and> \<not> sn_killed s \<and> sn_lines s = [] \<and> sn_errors s = []"

lemma execute_in_step:
  assumes "answers_once db reply (sn_sent s) (sn_sequence s + 1) sql" "in_step s"
  obtains s' where "execute db parse sql s = (own_answer parse (reply (sn_sent s) sql), s')" "in_step s'"
    "sn_sequence s' = sn_sequence s + 1" "sn_sent s' = sn_sent s @ [framed (sn_sequence s + 1) sql]"
proof -
  obtain out err where reply: "reply (sn_sent s) sql = (out, err)" by force
  from assms(1) obtain m e where db:
    "db False (sn_sent s) (framed (sn_sequence s + 1) sql) = Inr (map Line out @ [Line m], map Line err @ [Line e])"
    "marker_sequence m = Some (sn_sequence s + 1)" "error_marker_sequence e = Some (sn_sequence s + 1)"
    "quiet marker_sequence out" "quiet error_marker_sequence err"
    unfolding answers_once_def reply fst_conv snd_conv by blast
  from read_until_exact [OF db(4,2), of "[]"] read_until_exact [OF db(5,3), of "[]"]
  have "read_answer (sn_sequence s + 1) (map Line out @ [Line m]) (map Line err @ [Line e]) =
      (Inr (join_with LF (map trim_cr out) @ LF, join_with LF (map trim_cr err)), [], [])"
    by (simp add: read_answer_def)
  with db(1) assms(2) have "execute db parse sql s = (own_answer parse (reply (sn_sent s) sql),
      s\<lparr> sn_sequence := sn_sequence s + 1, sn_sent := sn_sent s @ [framed (sn_sequence s + 1) sql], sn_lines := [], sn_errors := [] \<rparr>)"
    by (simp add: execute_def Let_def send_raw_def in_step_def own_answer_def reply)
  from that [OF this] assms(2) show thesis by (simp add: in_step_def)
qed

lemma sent_before_later:
  assumes "sn_sequence s' = sn_sequence s + 1" "sn_sent s' = sn_sent s @ [framed (sn_sequence s + 1) sql]"
  shows "sent_before s (sql # sqls) (Suc k) = sent_before s' sqls k"
  by (simp add: sent_before_def assms upt_conv_Cons map_Suc_upt [symmetric] del: upt_Suc)

text \<open>
  C31: Every statement gets its own answer: as long as DuckDB answers in turn and no line of data or
  of a message looks like a marker, each statement of a session receives the rows and the message
  that DuckDB, with all that was sent before it, had for that statement, and those of no other,
  whatever its neighbours printed and however late a message reaches its pipe.
\<close>

theorem answers_are_attributed:
  assumes "answers_in_turn db reply s sqls" "in_step s"
  shows "execute_each db parse sqls s =
    map (\<lambda>k. own_answer parse (reply (sent_before s sqls k) (sqls ! k))) [0..<length sqls]"
  using assms
proof (induction sqls arbitrary: s)
  case (Cons sql sqls)
  have once: "answers_once db reply (sn_sent s) (sn_sequence s + 1) sql"
    using Cons.prems(1) by (auto simp: answers_in_turn_def sent_before_def dest: spec [where x = 0])
  from execute_in_step [OF once Cons.prems(2), of parse] obtain s' where
    here: "execute db parse sql s = (own_answer parse (reply (sn_sent s) sql), s')" "in_step s'" and
    s': "sn_sequence s' = sn_sequence s + 1" "sn_sent s' = sn_sent s @ [framed (sn_sequence s + 1) sql]" .
  note later = sent_before_later [OF s', of sqls]
  have "answers_in_turn db reply s' sqls"
    unfolding answers_in_turn_def
  proof (intro allI impI)
    fix k
    assume "k < length sqls"
    with Cons.prems(1) have "answers_once db reply (sent_before s (sql # sqls) (Suc k)) (sn_sequence s + Suc k + 1) ((sql # sqls) ! Suc k)"
      unfolding answers_in_turn_def by (metis Suc_less_eq length_Cons)
    then show "answers_once db reply (sent_before s' sqls k) (sn_sequence s' + k + 1) (sqls ! k)"
      by (simp add: later s')
  qed
  from Cons.IH [OF this here(2)] show ?case
    by (simp add: here(1) sent_before_def [of s _ 0] upt_conv_Cons map_Suc_upt [symmetric] later del: upt_Suc)
qed simp

text \<open>A DuckDB with a view: to ask for it is an error until it was made.\<close>

definition remembering_reply :: replies where
  "remembering_reply sent sql =
     (if \<not> starts_with sql ''SELECT v'' then ([], [])
      else if list_ex (\<lambda>t. starts_with t ''CREATE v'') sent then ([''1''], []) else ([], [''Catalog Error'']))"

definition remembering :: duckdb where
  "remembering _ sent text = Inr (case (marker_sequence text, remembering_reply sent text) of
     (None, _) \<Rightarrow> ([], [])
   | (Some n, out, err) \<Rightarrow> (map Line out @ [Line (marker_for n)], map Line err @ [Line (error_marker_for n)]))"

definition ones :: json_stream where
  "ones text = (if CHR ''1'' \<in> set text then [JInt 1] else [], AtEof)"

lemma remembering_answers:
  assumes "CHR ''_'' \<notin> set sql" "n < 2 ^ 64" "8 \<le> length sql"
  shows "answers_once remembering remembering_reply sent n sql"
proof -
  have "marker_sequence (framed n sql) = Some n"
    unfolding marker_sequence_def framed_def marker_for_def
    using clean_before_marker(1) [of "sql @ LF @ ''SELECT '' @ [CHR 0x27]" n] assms(1,2) by (simp add: LF_def)
  moreover have "marker_sequence (marker_for n) = Some n" "error_marker_sequence (error_marker_for n) = Some n"
    unfolding marker_sequence_def marker_for_def error_marker_sequence_def error_marker_for_def
    using clean_before_marker [of "[]" n "[]"] assms(2) by simp_all
  moreover have "error_marker_sequence ''Catalog Error'' = None" "marker_sequence ''1'' = None" by code_simp+
  moreover have "starts_with (framed n sql) ''SELECT v'' \<longleftrightarrow> starts_with sql ''SELECT v''"
    using assms(3) by (simp add: framed_def starts_with_def)
  then have "remembering_reply sent (framed n sql) = remembering_reply sent sql" by (simp add: remembering_reply_def)
  ultimately show ?thesis
    by (simp add: answers_once_def remembering_def quiet_def) (simp add: remembering_reply_def)
qed

theorem answers_are_attributed_witness:
  "execute_each remembering ones [''SELECT v;'', ''CREATE v;'', ''SELECT v;''] session_start =
     [Inr \<lparr> an_values = [], an_stderr = ''Catalog Error'' \<rparr>, Inr \<lparr> an_values = [], an_stderr = [] \<rparr>,
      Inr \<lparr> an_values = [JInt 1], an_stderr = [] \<rparr>]"
proof -
  let ?sqls = "[''SELECT v;'', ''CREATE v;'', ''SELECT v;'']"
  have "answers_once remembering remembering_reply (sent_before session_start ?sqls k) (sn_sequence session_start + k + 1) (?sqls ! k)"
    if "k < 3" for k
    using that by (intro remembering_answers) (auto simp: session_start_def less_Suc_eq numeral_3_eq_3)
  then have "answers_in_turn remembering remembering_reply session_start ?sqls" by (simp add: answers_in_turn_def)
  moreover have "in_step session_start" by (simp add: in_step_def session_start_def)
  ultimately have "execute_each remembering ones ?sqls session_start =
      map (\<lambda>k. own_answer ones (remembering_reply (sent_before session_start ?sqls k) (?sqls ! k))) [0..<length ?sqls]"
    by (rule answers_are_attributed)
  also have "\<dots> = [Inr \<lparr> an_values = [], an_stderr = ''Catalog Error'' \<rparr>, Inr \<lparr> an_values = [], an_stderr = [] \<rparr>,
      Inr \<lparr> an_values = [JInt 1], an_stderr = [] \<rparr>]"
    by code_simp
  finally show ?thesis .
qed

text \<open>
  An answer left over from an earlier statement is noticed, never taken for this one's.
\<close>

lemma stale_answer_is_noticed:
  assumes "quiet marker_sequence lines" "marker_sequence m = Some k" "k \<noteq> n"
  shows "fst (read_answer n (map Line lines @ Line m # rest) errors) = Inl (OutOfStep k)"
  using read_until_stale [OF assms] by (simp add: read_answer_def)

end
