(* ===== verification/Params.thy ===== *)
theory Params
  imports Plan_Types
begin

text \<open>
  \<^verbatim>\<open>crates/duckdb-engine/src/params.rs\<close> and \<^verbatim>\<open>context.rs\<close>: the contract of a document's
  parameters and the one-pass substitution of \<^verbatim>\<open>${...}\<close> in its properties. The environment, the
  secret store's \<^verbatim>\<open>get\<close> and today's date are arguments. The interpolator of the source moves an
  index over the text; here it takes the rest of the text, with the trace it mutates threaded
  through.
\<close>

section \<open>The code\<close>

definition BUILT_INS :: "str list" where
  "BUILT_INS = [''workspace'', ''date'']"

definition REDACTED :: str where
  "REDACTED = ''********''"

datatype param_error =
    Unresolved str str str "str list"
  | Unterminated str str str
  | EmptyReference str str
  | MissingRequired str
  | EmptyRequired str
  | WrongType str str str str
  | UnknownContext str str str "str list"
  | MissingEnvironment str str str
  | NoSecretStore str str str
  | MissingSecret str str str "str list"
  | UnreadableSecret str str str str

definition param_error_node :: "param_error \<Rightarrow> str option" where
  "param_error_node e = (case e of
     Unresolved node _ _ _ \<Rightarrow> Some node
   | Unterminated node _ _ \<Rightarrow> Some node
   | EmptyReference node _ \<Rightarrow> Some node
   | UnknownContext node _ _ _ \<Rightarrow> Some node
   | MissingEnvironment node _ _ \<Rightarrow> Some node
   | NoSecretStore node _ _ \<Rightarrow> Some node
   | MissingSecret node _ _ _ \<Rightarrow> Some node
   | UnreadableSecret node _ _ _ \<Rightarrow> Some node
   | MissingRequired _ \<Rightarrow> None
   | EmptyRequired _ \<Rightarrow> None
   | WrongType _ _ _ _ \<Rightarrow> None)"

datatype param_warning = Undeclared str | ShadowsBuiltIn str

record trace =
  tr_used :: "(str, str) om"
  tr_secrets :: "(str, unit) om"

definition trace_default :: trace where
  "trace_default = \<lparr> tr_used = [], tr_secrets = [] \<rparr>"

record resolved_params =
  rp_document :: pipeline_doc
  rp_warnings :: "param_warning list"
  rp_used :: "(str, str) om"
  rp_secrets :: "(str, unit) om"

text \<open>\<^verbatim>\<open>str::replace\<close>: every non-overlapping occurrence from the left, for a pattern that is not empty.\<close>

function replace_all :: "str \<Rightarrow> str \<Rightarrow> str \<Rightarrow> str" where
  "replace_all pat with_text [] = []"
| "replace_all pat with_text (c # s) =
     (if pat \<noteq> [] \<and> starts_with (c # s) pat
      then with_text @ replace_all pat with_text (drop (length pat) (c # s))
      else c # replace_all pat with_text s)"
  by pat_completeness auto
termination by (relation "measure (\<lambda>(_, _, s). length s)") (auto simp: neq_Nil_conv)

definition redact :: "str list \<Rightarrow> str \<Rightarrow> str" where
  "redact secrets text = foldl (\<lambda>out s. if s \<noteq> [] then replace_all s REDACTED out else out) text secrets"

definition secret_values :: "resolved_params \<Rightarrow> str list" where
  "secret_values r = om_keys (rp_secrets r)"

definition uses_secrets :: "resolved_params \<Rightarrow> bool" where
  "uses_secrets r \<longleftrightarrow> rp_secrets r \<noteq> []"

definition resolved_redact :: "resolved_params \<Rightarrow> str \<Rightarrow> str" where
  "resolved_redact r text = redact (secret_values r) text"

record secret_source =
  ss_get :: "str \<Rightarrow> str + str option"
  ss_names :: "str list"

record resolver =
  rv_explicit :: "(str, str) om"
  rv_contexts :: "(str, (str, str) om) om"
  rv_active :: "str option"
  rv_workspace :: str
  rv_today :: str
  rv_secrets :: "secret_source option"
  rv_defer :: bool

definition resolver_new :: "str \<Rightarrow> str \<Rightarrow> resolver" where
  "resolver_new today workspace = \<lparr> rv_explicit = [], rv_contexts = [], rv_active = None,
     rv_workspace = workspace, rv_today = today, rv_secrets = None, rv_defer = False \<rparr>"

definition rv_bind :: "str \<Rightarrow> str \<Rightarrow> resolver \<Rightarrow> resolver" where
  "rv_bind name v r = r\<lparr> rv_explicit := om_insert name v (rv_explicit r) \<rparr>"

definition defer_built_ins :: "resolver \<Rightarrow> resolver" where
  "defer_built_ins r = r\<lparr> rv_defer := True \<rparr>"

definition rv_context :: "str \<Rightarrow> (str, str) om \<Rightarrow> resolver \<Rightarrow> resolver" where
  "rv_context name vars r = r\<lparr> rv_contexts := om_insert name vars (rv_contexts r) \<rparr>"

definition rv_activate :: "str option \<Rightarrow> resolver \<Rightarrow> resolver" where
  "rv_activate name r = r\<lparr> rv_active := name \<rparr>"

definition knows_context :: "resolver \<Rightarrow> str \<Rightarrow> bool" where
  "knows_context r name = om_contains (rv_contexts r) name"

definition built_in :: "resolver \<Rightarrow> str \<Rightarrow> str option" where
  "built_in r name =
     (if name \<notin> set BUILT_INS then None
      else if rv_defer r then Some (''${'' @ name @ ''}'')
      else if name = ''workspace''
      then Some (map (\<lambda>c. if c = CHR 0x5C then CHR ''/'' else c) (rv_workspace r))
      else if name = ''date'' then Some (rv_today r)
      else None)"

definition scalar :: "json \<Rightarrow> str" where
  "scalar v = (case v of JString t \<Rightarrow> t | JNull \<Rightarrow> [] | other \<Rightarrow> json_text other)"

type_synonym declared_params = "(str, parameter_spec) om"

definition active_value :: "resolver \<Rightarrow> str \<Rightarrow> str option" where
  "active_value r name = (case rv_active r of
     None \<Rightarrow> None
   | Some active \<Rightarrow> (case om_get (rv_contexts r) active of
       Some vars \<Rightarrow> om_get vars name | None \<Rightarrow> None))"

definition lookup_param :: "resolver \<Rightarrow> declared_params \<Rightarrow> str \<Rightarrow> str option" where
  "lookup_param r declared name = (case om_get (rv_explicit r) name of
     Some v \<Rightarrow> Some v
   | None \<Rightarrow>
       (case active_value r name of
          Some v \<Rightarrow> Some v
        | None \<Rightarrow>
            (case Option.bind (om_get declared name) pa_default of
               Some d \<Rightarrow> Some (scalar d)
             | None \<Rightarrow> built_in r name)))"

definition known_names :: "resolver \<Rightarrow> declared_params \<Rightarrow> str list" where
  "known_names r declared =
     om_keys (om_extend [] (map (\<lambda>n. (n, ())) (om_keys (rv_explicit r) @ om_keys declared @ BUILT_INS @
       (case rv_active r of
          None \<Rightarrow> []
        | Some active \<Rightarrow> (case om_get (rv_contexts r) active of Some vars \<Rightarrow> om_keys vars | None \<Rightarrow> [])))))"

section \<open>The contract\<close>

definition looks_like_a_date :: "str \<Rightarrow> bool" where
  "looks_like_a_date v =
     (let date = hd (split_on (\<lambda>c. c = CHR ''T'' \<or> c = CHR '' '') v);
          parts = split_on (\<lambda>c. c = CHR ''-'') date
      in length parts = 3 \<and> length (parts ! 0) = 4 \<and>
         list_all (\<lambda>p. p \<noteq> [] \<and> list_all is_ascii_digit p) parts)"

text \<open>The grammar \<^verbatim>\<open>f64\<close> parses: a sign, then a word for infinity or not-a-number, or a decimal with an
  optional exponent.\<close>

definition unsigned_text :: "str \<Rightarrow> str" where
  "unsigned_text v = (case v of c # s \<Rightarrow> if c = CHR ''-'' \<or> c = CHR ''+'' then s else v | [] \<Rightarrow> [])"

definition parses_as_f64 :: "str \<Rightarrow> bool" where
  "parses_as_f64 v =
     (let body = unsigned_text v;
          mantissa = takeWhile (\<lambda>c. c \<noteq> CHR ''e'' \<and> c \<noteq> CHR ''E'') body;
          exponent = dropWhile (\<lambda>c. c \<noteq> CHR ''e'' \<and> c \<noteq> CHR ''E'') body;
          parts = split_on (\<lambda>c. c = CHR ''.'') mantissa
      in list_ex (eq_ignore_ascii_case body) [''inf'', ''infinity'', ''nan''] \<or>
         (length parts \<le> 2 \<and> list_all (list_all is_ascii_digit) parts \<and> concat parts \<noteq> [] \<and>
          (exponent = [] \<or>
           (unsigned_text (tl exponent) \<noteq> [] \<and> list_all is_ascii_digit (unsigned_text (tl exponent))))))"

definition check_type :: "str \<Rightarrow> parameter_spec \<Rightarrow> str \<Rightarrow> param_error + unit" where
  "check_type name spec v = (case pa_type spec of
     None \<Rightarrow> Inr ()
   | Some declared \<Rightarrow>
       (let ok = (if declared = ''string'' \<or> declared = ''text'' then True
              else if declared = ''integer'' \<or> declared = ''int'' then parse_i64 (trim v) \<noteq> None
              else if declared = ''number'' \<or> declared = ''float'' then parses_as_f64 (trim v)
              else if declared = ''boolean'' \<or> declared = ''bool'' then trim v = ''true'' \<or> trim v = ''false''
              else if declared = ''date'' then looks_like_a_date (trim v)
              else True)
        in if ok then Inr ()
           else Inl (WrongType name declared v
             (if declared \<noteq> [] \<and> hd declared \<in> set ''aeiou'' then ''an'' else ''a''))))"

definition is_required :: "parameter_spec \<Rightarrow> bool" where
  "is_required spec \<longleftrightarrow> pa_required spec = Some True"

definition check_parameter :: "resolver \<Rightarrow> declared_params \<Rightarrow> str \<times> parameter_spec \<Rightarrow> param_error + param_warning list" where
  "check_parameter r declared entry = (case entry of (name, spec) \<Rightarrow>
     let warned = (if name \<in> set BUILT_INS then [ShadowsBuiltIn name] else [])
     in case lookup_param r declared name of
          None \<Rightarrow> if is_required spec then Inl (MissingRequired name) else Inr warned
        | Some v \<Rightarrow>
            if is_required spec \<and> trim v = [] then Inl (EmptyRequired name)
            else and_then (check_type name spec v) (\<lambda>_. Inr warned))"

definition check_contract :: "pipeline_doc \<Rightarrow> resolver \<Rightarrow> param_error + param_warning list" where
  "check_contract d r =
     and_then (traverse (check_parameter r (doc_parameters d)) (doc_parameters d)) (\<lambda>warned.
       Inr (concat warned @ map Undeclared
         (filter (\<lambda>n. \<not> om_contains (doc_parameters d) n) (om_keys (rv_explicit r)))))"

section \<open>Substitution\<close>

type_synonym env_vars = "str \<Rightarrow> str option"

definition resolve_secret :: "str \<Rightarrow> str \<Rightarrow> resolver \<Rightarrow> str \<Rightarrow> trace \<Rightarrow> param_error + str \<times> trace" where
  "resolve_secret node property r name tr = (case rv_secrets r of
     None \<Rightarrow> Inl (NoSecretStore node property name)
   | Some store \<Rightarrow>
       (case ss_get store name of
          Inl reason \<Rightarrow> Inl (UnreadableSecret node property name reason)
        | Inr None \<Rightarrow> Inl (MissingSecret node property name (ss_names store))
        | Inr (Some v) \<Rightarrow> Inr (v, tr\<lparr> tr_secrets := om_insert v () (tr_secrets tr) \<rparr>)))"

definition resolve_one :: "env_vars \<Rightarrow> str \<Rightarrow> str \<Rightarrow> resolver \<Rightarrow> declared_params \<Rightarrow> str \<Rightarrow> trace
    \<Rightarrow> param_error + str \<times> trace" where
  "resolve_one env node property r declared given tr =
     (let reference = trim given
      in if reference = [] then Inl (EmptyReference node property)
         else case strip_prefix ''SECRET:'' reference of
           Some name \<Rightarrow> resolve_secret node property r (trim name) tr
         | None \<Rightarrow>
             (case strip_prefix ''ENV:'' reference of
                Some key \<Rightarrow>
                  (case env (trim key) of
                     Some v \<Rightarrow> Inr (v, tr)
                   | None \<Rightarrow> Inl (MissingEnvironment node property (trim key)))
              | None \<Rightarrow>
                  (case split_once (\<lambda>c. c = CHR ''.'') reference of
                     Some (context, variable) \<Rightarrow>
                       (case om_get (rv_contexts r) context of
                          None \<Rightarrow> Inl (UnknownContext node property context (om_keys (rv_contexts r)))
                        | Some vars \<Rightarrow>
                            (case om_get vars variable of
                               Some v \<Rightarrow> Inr (v, tr)
                             | None \<Rightarrow> Inl (Unresolved node property reference (om_keys vars))))
                   | None \<Rightarrow>
                       (case lookup_param r declared reference of
                          Some v \<Rightarrow> Inr (v, tr)
                        | None \<Rightarrow> Inl (Unresolved node property reference (known_names r declared))))))"

definition record_use :: "str \<Rightarrow> str \<Rightarrow> trace \<Rightarrow> trace" where
  "record_use reference v tr =
     (let recorded = (if om_contains (tr_secrets tr) v then REDACTED else v)
      in tr\<lparr> tr_used := om_insert reference recorded (tr_used tr) \<rparr>)"

text \<open>
  The work of the loop after a \<^verbatim>\<open>${\<close>: the text up to the next closing brace, and what follows it.
\<close>

definition until_close :: "str \<Rightarrow> (str \<times> str) option" where
  "until_close s = split_once (\<lambda>c. c = CHR ''}'') s"

lemma until_close_shorter: "until_close s = Some (reference, rest) \<Longrightarrow> length rest < length s"
  unfolding until_close_def by (drule split_once_Some) auto

function interpolate :: "(str \<Rightarrow> trace \<Rightarrow> param_error + str \<times> trace) \<Rightarrow> param_error \<Rightarrow> str \<Rightarrow> trace
    \<Rightarrow> param_error + str \<times> trace" where
  "interpolate one unclosed s tr = (case s of
     [] \<Rightarrow> Inr ([], tr)
   | c # s1 \<Rightarrow>
       if c \<noteq> CHR ''$'' then
         and_then (interpolate one unclosed s1 tr) (\<lambda>(out, tr'). Inr (c # out, tr'))
       else (case s1 of
         [] \<Rightarrow> Inr (''$'', tr)
       | d # s2 \<Rightarrow>
           if d = CHR ''$'' then
             and_then (interpolate one unclosed s2 tr) (\<lambda>(out, tr'). Inr (CHR ''$'' # out, tr'))
           else if d = CHR ''{'' then
             (case until_close s2 of
                None \<Rightarrow> Inl unclosed
              | Some (reference, rest) \<Rightarrow>
                  and_then (one reference tr) (\<lambda>(v, tr1).
                  and_then (interpolate one unclosed rest (record_use reference v tr1)) (\<lambda>(out, tr').
                    Inr (v @ out, tr'))))
           else and_then (interpolate one unclosed s1 tr) (\<lambda>(out, tr'). Inr (CHR ''$'' # out, tr'))))"
  by pat_completeness auto
termination
  by (relation "measure (\<lambda>(_, _, s, _). length s)") (auto dest: until_close_shorter)

declare interpolate.simps [simp del]

definition interpolate_text :: "env_vars \<Rightarrow> str \<Rightarrow> str \<Rightarrow> resolver \<Rightarrow> declared_params \<Rightarrow> str \<Rightarrow> trace
    \<Rightarrow> param_error + str \<times> trace" where
  "interpolate_text env node property r declared text tr =
     interpolate (resolve_one env node property r declared) (Unterminated node property text) text tr"

fun walk :: "env_vars \<Rightarrow> str \<Rightarrow> resolver \<Rightarrow> declared_params \<Rightarrow> str \<Rightarrow> json \<Rightarrow> trace \<Rightarrow> param_error + json \<times> trace"
  and walk_items :: "env_vars \<Rightarrow> str \<Rightarrow> resolver \<Rightarrow> declared_params \<Rightarrow> str \<Rightarrow> json list \<Rightarrow> trace
    \<Rightarrow> param_error + json list \<times> trace"
  and walk_fields :: "env_vars \<Rightarrow> str \<Rightarrow> resolver \<Rightarrow> declared_params \<Rightarrow> (str \<times> json) list \<Rightarrow> trace
    \<Rightarrow> param_error + (str \<times> json) list \<times> trace" where
  "walk env node r declared property (JString text) tr =
     and_then (interpolate_text env node property r declared text tr) (\<lambda>(out, tr'). Inr (JString out, tr'))"
| "walk env node r declared property (JArray items) tr =
     and_then (walk_items env node r declared property items tr) (\<lambda>(out, tr'). Inr (JArray out, tr'))"
| "walk env node r declared property (JObject pairs) tr =
     and_then (walk_fields env node r declared pairs tr) (\<lambda>(out, tr'). Inr (JObject out, tr'))"
| "walk env node r declared property other tr = Inr (other, tr)"
| "walk_items env node r declared property [] tr = Inr ([], tr)"
| "walk_items env node r declared property (v # vs) tr =
     and_then (walk env node r declared property v tr) (\<lambda>(v', tr1).
     and_then (walk_items env node r declared property vs tr1) (\<lambda>(vs', tr2). Inr (v' # vs', tr2)))"
| "walk_fields env node r declared [] tr = Inr ([], tr)"
| "walk_fields env node r declared ((k, v) # fs) tr =
     and_then (walk env node r declared k v tr) (\<lambda>(v', tr1).
     and_then (walk_fields env node r declared fs tr1) (\<lambda>(fs', tr2). Inr ((k, v') # fs', tr2)))"

fun resolve_nodes :: "env_vars \<Rightarrow> resolver \<Rightarrow> declared_params \<Rightarrow> pipeline_node list \<Rightarrow> trace
    \<Rightarrow> param_error + pipeline_node list \<times> trace" where
  "resolve_nodes env r declared [] tr = Inr ([], tr)"
| "resolve_nodes env r declared (n # ns) tr =
     and_then (case nd_properties (pn_data n) of
         None \<Rightarrow> Inr (n, tr)
       | Some properties \<Rightarrow>
           and_then (walk env (pn_id n) r declared ''properties'' properties tr) (\<lambda>(v, tr').
             Inr (n\<lparr> pn_data := (pn_data n)\<lparr> nd_properties := Some v \<rparr> \<rparr>, tr'))) (\<lambda>(n', tr1).
     and_then (resolve_nodes env r declared ns tr1) (\<lambda>(ns', tr2). Inr (n' # ns', tr2)))"

definition resolve :: "env_vars \<Rightarrow> pipeline_doc \<Rightarrow> resolver \<Rightarrow> param_error + resolved_params" where
  "resolve env d r =
     and_then (check_contract d r) (\<lambda>warnings.
     and_then (resolve_nodes env r (doc_parameters d) (doc_nodes d) trace_default) (\<lambda>(nodes, tr).
     Inr \<lparr> rp_document = d\<lparr> doc_nodes := nodes \<rparr>, rp_warnings = warnings,
           rp_used = tr_used tr, rp_secrets = tr_secrets tr \<rparr>))"

section \<open>Contexts\<close>

datatype context_error =
    ContextUnreadable str
  | ContextMalformed str
  | ContextUnknown str "str list"
  | ContextActiveMissing str str

record env_context =
  ec_description :: "str option"
  ec_variables :: "(str, str) om"
  ec_extra :: "(str, json) om"

record contexts_file =
  cf_format_version :: nat
  cf_active :: "str option"
  cf_contexts :: "(str, env_context) om"
  cf_extra :: "(str, json) om"

definition CONTEXTS_PATH :: str where "CONTEXTS_PATH = ''.etl/contexts.json''"

definition contexts_default :: contexts_file where
  "contexts_default = \<lparr> cf_format_version = 0, cf_active = None, cf_contexts = [], cf_extra = [] \<rparr>"

datatype file_read = FileText str | FileAbsent | FileUnreadable

text \<open>Reading the file and parsing its JSON are arguments.\<close>

definition contexts_load :: "(str \<Rightarrow> contexts_file option) \<Rightarrow> file_read \<Rightarrow> str \<Rightarrow> context_error + contexts_file" where
  "contexts_load parse found path = (case found of
     FileAbsent \<Rightarrow> Inr contexts_default
   | FileUnreadable \<Rightarrow> Inl (ContextUnreadable path)
   | FileText text \<Rightarrow>
       (case parse text of
          None \<Rightarrow> Inl (ContextMalformed path)
        | Some loaded \<Rightarrow>
            (case cf_active loaded of
               None \<Rightarrow> Inr loaded
             | Some active \<Rightarrow> if om_contains (cf_contexts loaded) active then Inr loaded
                 else Inl (ContextActiveMissing active path))))"

definition contexts_names :: "contexts_file \<Rightarrow> str list" where
  "contexts_names f = om_keys (cf_contexts f)"

definition contexts_apply :: "contexts_file \<Rightarrow> resolver \<Rightarrow> str option \<Rightarrow> context_error + resolver" where
  "contexts_apply f r requested =
     (let loaded = foldl (\<lambda>acc (name, c). rv_context name (ec_variables c) acc) r (cf_contexts f)
      in case requested of
           Some name \<Rightarrow>
             if om_contains (cf_contexts f) name then Inr (rv_activate (Some name) loaded)
             else Inl (ContextUnknown name (om_keys (cf_contexts f)))
         | None \<Rightarrow> Inr (rv_activate (cf_active f) loaded))"

end
