(* ===== verification/Exec_World.thy ===== *)
theory Exec_World
  imports Session_Frame Plan_Stage Params
begin

text \<open>
  What the executor works with, from \<^verbatim>\<open>crates/duckdb-engine/src/exec.rs\<close>: its errors, options and
  reports, where it looks for DuckDB and the extensions, and the files it makes room for.

  Everything outside the engine -- DuckDB, the file system, the clock, the connectors -- answers as
  a function of the calls made so far (and of the receipts taken), so an outside with any state of
  its own is covered. The state
  of a run is that history with the locals whose \<^verbatim>\<open>Drop\<close> matters: the staging files, the receipts
  held, and whether a session is open. An action returns a value or an error with the new state.
\<close>

section \<open>Errors and options\<close>

datatype exec_error =
    DuckdbNotFound "str list"
  | ExecSpawn str str
  | StageFailed str str str
  | RunFailed str
  | ExtensionLoadFailed str str
  | OutputDirectory str str
  | OutputExists str str
  | BadOutput str
  | NoSuchNode str
  | CannotPreview str
  | ExecSession session_error

definition DUCKDB_BIN_ENV :: str where "DUCKDB_BIN_ENV = ''ETL_DUCKDB_BIN''"

definition DUCKDB_EXTENSIONS_ENV :: str where "DUCKDB_EXTENSIONS_ENV = ''ETL_DUCKDB_EXTENSIONS''"

definition PREVIEW_LIMIT_MAX :: nat where "PREVIEW_LIMIT_MAX = 500"

record run_options =
  ro_duckdb_bin :: "str option"
  ro_working_dir :: "str option"
  ro_counts :: bool
  ro_extension_dir :: "str option"
  ro_redact :: "str list"

definition run_options_default :: run_options where
  "run_options_default = \<lparr> ro_duckdb_bin = None, ro_working_dir = None, ro_counts = True,
     ro_extension_dir = None, ro_redact = [] \<rparr>"

section \<open>Reports\<close>

datatype skip_reason = SkFailed | SkUpstreamFailed str | SkNotTaken str

definition skip_describe :: "skip_reason \<Rightarrow> str" where
  "skip_describe r = (case r of
     SkFailed \<Rightarrow> ''failed''
   | SkUpstreamFailed node_id \<Rightarrow> ''skipped: '' @ node_id @ '' failed''
   | SkNotTaken node_id \<Rightarrow> ''not taken: '' @ node_id)"

definition skip_is_failure :: "skip_reason \<Rightarrow> bool" where
  "skip_is_failure r \<longleftrightarrow> (case r of SkNotTaken _ \<Rightarrow> False | _ \<Rightarrow> True)"

record stage_outcome =
  so_node_id :: str
  so_label :: str
  so_component_id :: str
  so_rows :: "nat option"
  so_rejected :: "nat option"
  so_skipped :: "skip_reason option"
  so_elapsed :: "nat option"

definition rows_in :: "stage_outcome \<Rightarrow> nat option" where
  "rows_in o1 = (case (so_rows o1, so_rejected o1) of
     (Some rows, Some rejected) \<Rightarrow> Some (rows + rejected)
   | (rows, None) \<Rightarrow> rows
   | (None, rejected) \<Rightarrow> rejected)"

record run_watermark =
  rw_node_id :: str
  rw_column :: str
  rw_value :: "str option"

record run_checkpoint =
  rc_node_id :: str
  rc_component_id :: str
  rc_value :: json

record stage_failure =
  sf_node_id :: str
  sf_label :: str
  sf_message :: str

record run_report =
  rr_stages :: "stage_outcome list"
  rr_elapsed :: nat
  rr_duckdb_bin :: str
  rr_script :: str
  rr_spilled :: nat
  rr_notes :: "str list"
  rr_watermarks :: "run_watermark list"
  rr_checkpoints :: "run_checkpoint list"
  rr_warnings :: "str list"
  rr_failures :: "stage_failure list"

definition report_failed :: "run_report \<Rightarrow> bool" where
  "report_failed r \<longleftrightarrow> rr_failures r \<noteq> []"

definition total_rows_written :: "run_report \<Rightarrow> nat option" where
  "total_rows_written r = (case rev (filter_map so_rows (rr_stages r)) of n # _ \<Rightarrow> Some n | [] \<Rightarrow> None)"

section \<open>Outside the engine\<close>

record summary =
  sm_detail :: str
  sm_checkpoint :: "json option"

type_synonym receipt = nat

datatype event =
    Opened
  | Closed
  | Executed str
  | Spawned str
  | Slept nat
  | ReadClock
  | MadeDirectories str
  | Removed str
  | CreatedFile str
  | OpenedFile str
  | Flushed str
  | SourceRead str
  | Transformed str
  | SinkWritten str
  | Held str receipt
  | Acknowledged str receipt
  | Released str receipt

record process_output =
  po_success :: bool
  po_stdout :: str
  po_stderr :: str

type_synonym history = "event list"

record outside =
  os_open :: "history \<Rightarrow> str \<Rightarrow> str option \<Rightarrow> str option \<Rightarrow> str list \<Rightarrow> session_error + unit"
  os_execute :: "history \<Rightarrow> str \<Rightarrow> session_error + answer"
  os_spawn :: "history \<Rightarrow> str \<Rightarrow> str option \<Rightarrow> str \<Rightarrow> str + process_output"
  os_parse :: json_stream
  os_clock :: "history \<Rightarrow> nat"
  os_is_file :: "str \<Rightarrow> bool"
  os_is_dir :: "str \<Rightarrow> bool"
  os_exists :: "history \<Rightarrow> str \<Rightarrow> bool"
  os_env :: "str \<Rightarrow> str option"
  os_current_dir :: "str option"
  os_on_path :: bool
  os_make_dirs :: "history \<Rightarrow> str \<Rightarrow> str option"
  os_remove :: "history \<Rightarrow> str \<Rightarrow> bool"
  os_create :: "history \<Rightarrow> str \<Rightarrow> str option"
  os_open_file :: "history \<Rightarrow> str \<Rightarrow> str option"
  os_flush :: "history \<Rightarrow> str \<Rightarrow> str option"
  os_connector :: connectors
  os_read :: "history \<Rightarrow> str \<Rightarrow> json \<Rightarrow> json option \<Rightarrow> connector_error + summary \<times> receipt option"
  os_transform :: "history \<Rightarrow> str \<Rightarrow> json \<Rightarrow> connector_error + summary"
  os_write :: "history \<Rightarrow> str \<Rightarrow> json \<Rightarrow> connector_error + summary"
  os_acknowledge :: "history \<Rightarrow> receipt \<Rightarrow> connector_error + str"
  os_release :: "history \<Rightarrow> receipt \<Rightarrow> connector_error + str"

record machine =
  mc_history :: history
  mc_staging :: "str list"
  mc_held :: "(str \<times> receipt) list"
  mc_session :: bool

definition machine_start :: machine where
  "machine_start = \<lparr> mc_history = [], mc_staging = [], mc_held = [], mc_session = False \<rparr>"

section \<open>Actions\<close>

type_synonym ('e, 'a) act = "machine \<Rightarrow> ('e + 'a) \<times> machine"

definition yields :: "'a \<Rightarrow> ('e, 'a) act" where
  "yields a = (\<lambda>m. (Inr a, m))"

definition fails :: "'e \<Rightarrow> ('e, 'a) act" where
  "fails e = (\<lambda>m. (Inl e, m))"

definition given :: "'e + 'a \<Rightarrow> ('e, 'a) act" where
  "given r = (\<lambda>m. (r, m))"

definition seq :: "('e, 'a) act \<Rightarrow> ('a \<Rightarrow> ('e, 'b) act) \<Rightarrow> ('e, 'b) act" where
  "seq f g = (\<lambda>m. case f m of (Inl e, m') \<Rightarrow> (Inl e, m') | (Inr a, m') \<Rightarrow> g a m')"

text \<open>The result of an action as a value, where the source matches on it instead of returning early.\<close>

definition attempt :: "('e, 'a) act \<Rightarrow> ('f, 'e + 'a) act" where
  "attempt f = (\<lambda>m. case f m of (r, m') \<Rightarrow> (Inr r, m'))"

definition map_failure :: "('e \<Rightarrow> 'f) \<Rightarrow> ('e, 'a) act \<Rightarrow> ('f, 'a) act" where
  "map_failure h f = (\<lambda>m. case f m of (r, m') \<Rightarrow> (map_sum h id r, m'))"

text \<open>A call to the outside: its answer depends on what was called before, and it is remembered.\<close>

definition call :: "event \<Rightarrow> (history \<Rightarrow> 'a) \<Rightarrow> ('e, 'a) act" where
  "call ev answer_of = (\<lambda>m. (Inr (answer_of (mc_history m)), m\<lparr> mc_history := mc_history m @ [ev] \<rparr>))"

fun for_each :: "('x \<Rightarrow> 'a \<Rightarrow> ('e, 'a) act) \<Rightarrow> 'x list \<Rightarrow> 'a \<Rightarrow> ('e, 'a) act" where
  "for_each f [] a = yields a"
| "for_each f (x # xs) a = seq (f x a) (\<lambda>a'. for_each f xs a')"

definition on_machine :: "(machine \<Rightarrow> machine) \<Rightarrow> ('e, unit) act" where
  "on_machine h = (\<lambda>m. (Inr (), h m))"

section \<open>Paths\<close>

text \<open>
  \<^verbatim>\<open>Path::join\<close>, \<^verbatim>\<open>parent\<close> and \<^verbatim>\<open>ancestors\<close> where the separator is a slash, on paths without
  components that are a single dot.
\<close>

definition path_join :: "str \<Rightarrow> str \<Rightarrow> str" where
  "path_join directory path =
     (if starts_with path ''/'' then path
      else if directory = [] \<or> ends_with directory ''/'' then directory @ path
      else directory @ ''/'' @ path)"

definition trim_slashes :: "str \<Rightarrow> str" where
  "trim_slashes p = rev (dropWhile (\<lambda>c. c = CHR ''/'') (rev p))"

definition path_parent :: "str \<Rightarrow> str option" where
  "path_parent p =
     (let trimmed = trim_slashes p
      in if trimmed = [] then None
         else (let up = rev (dropWhile (\<lambda>c. c \<noteq> CHR ''/'') (rev trimmed))
               in Some (if trim_slashes up = [] then take 1 up else trim_slashes up)))"

lemma path_parent_shorter: "path_parent p = Some q \<Longrightarrow> length q < length p"
proof -
  assume q: "path_parent p = Some q"
  have trim: "length (trim_slashes s) \<le> length s" for s
    using length_dropWhile_le [of "\<lambda>c. c = CHR ''/''" "rev s"] by (simp add: trim_slashes_def)
  let ?t = "trim_slashes p" and ?up = "rev (dropWhile (\<lambda>c. c \<noteq> CHR ''/'') (rev (trim_slashes p)))"
  from q have t: "?t \<noteq> []" by (auto simp: path_parent_def Let_def)
  then obtain c s where "rev ?t = c # s" by (cases "rev ?t") auto
  moreover from \<open>rev ?t = c # s\<close> have "dropWhile (\<lambda>c. c = CHR ''/'') (rev p) = c # s"
    by (simp add: trim_slashes_def)
  then have "c \<noteq> CHR ''/''"
    using hd_dropWhile [of "\<lambda>c. c = CHR ''/''" "rev p"] by (metis list.discI list.sel(1))
  ultimately have "length ?up \<le> length s"
    using length_dropWhile_le [of "\<lambda>c. c \<noteq> CHR ''/''" s] by simp
  moreover from \<open>rev ?t = c # s\<close> have "length ?t = Suc (length s)" by (metis length_Cons length_rev)
  moreover from q have "length q \<le> length ?up"
    using trim [of ?up] by (auto simp: path_parent_def Let_def split: if_splits)
  ultimately show ?thesis using trim [of p] by linarith
qed

function ancestors :: "str \<Rightarrow> str list" where
  "ancestors p = p # (case path_parent p of Some q \<Rightarrow> ancestors q | None \<Rightarrow> [])"
  by pat_completeness auto
termination by (relation "measure length") (auto dest: path_parent_shorter)

declare ancestors.simps [simp del]

definition resolve_against :: "str \<Rightarrow> run_options \<Rightarrow> str" where
  "resolve_against path options = (case ro_working_dir options of
     Some directory \<Rightarrow> path_join directory path
   | None \<Rightarrow> path)"

section \<open>Finding DuckDB\<close>

definition starting_point :: "outside \<Rightarrow> run_options \<Rightarrow> str" where
  "starting_point os options = (case ro_working_dir options of
     Some directory \<Rightarrow> directory
   | None \<Rightarrow> (case os_current_dir os of Some directory \<Rightarrow> directory | None \<Rightarrow> ''.''))"

definition find_vendored :: "outside \<Rightarrow> str \<Rightarrow> str option" where
  "find_vendored os start = find (os_is_file os)
     (map (\<lambda>directory. path_join (path_join (path_join directory ''tools'') ''duckdb'') ''duckdb'')
       (ancestors start))"

definition locate_extension_dir :: "outside \<Rightarrow> run_options \<Rightarrow> str option" where
  "locate_extension_dir os options = (case ro_extension_dir options of
     Some explicit \<Rightarrow> Some explicit
   | None \<Rightarrow>
       (case os_env os DUCKDB_EXTENSIONS_ENV of
          Some from_env \<Rightarrow> Some from_env
        | None \<Rightarrow> find (os_is_dir os)
            (map (\<lambda>directory. path_join (path_join (path_join directory ''tools'') ''duckdb'') ''extensions'')
              (ancestors (starting_point os options)))))"

definition locate_duckdb :: "outside \<Rightarrow> run_options \<Rightarrow> exec_error + str" where
  "locate_duckdb os options =
     (let start = starting_point os options;
          explicit = ro_duckdb_bin options;
          from_env = os_env os DUCKDB_BIN_ENV;
          usable = (\<lambda>p. case p of Some path \<Rightarrow> os_is_file os path | None \<Rightarrow> False)
      in if usable explicit then Inr (the explicit)
         else if usable from_env then Inr (the from_env)
         else case find_vendored os start of
           Some vendored \<Rightarrow> Inr vendored
         | None \<Rightarrow>
             if os_on_path os then Inr ''duckdb''
             else Inl (DuckdbNotFound
               ((case explicit of Some path \<Rightarrow> [path] | None \<Rightarrow> []) @
                (case from_env of Some path \<Rightarrow> [DUCKDB_BIN_ENV @ ''='' @ path] | None \<Rightarrow> []) @
                [start @ ''/**/tools/duckdb/'', ''duckdb on PATH''])))"

definition with_extension_directory :: "outside \<Rightarrow> plan \<Rightarrow> run_options \<Rightarrow> str" where
  "with_extension_directory os p options =
     (let script = plan_script p (ro_counts options)
      in if plan_extensions p = [] then script
         else case locate_extension_dir os options of
           None \<Rightarrow> script
         | Some directory \<Rightarrow> ''SET extension_directory='' @ quote_path directory @ '';'' @ LF @ LF @ script)"

section \<open>Making room\<close>

definition make_dirs :: "outside \<Rightarrow> str \<Rightarrow> (exec_error, unit) act" where
  "make_dirs os directory =
     seq (call (MadeDirectories directory) (\<lambda>h. os_make_dirs os h directory)) (\<lambda>r. case r of
       Some source \<Rightarrow> fails (OutputDirectory directory source)
     | None \<Rightarrow> yields ())"

definition make_missing_parent :: "outside \<Rightarrow> str \<Rightarrow> (exec_error, unit) act" where
  "make_missing_parent os path = (\<lambda>m. (case path_parent path of
     None \<Rightarrow> yields ()
   | Some directory \<Rightarrow>
       if directory \<noteq> [] \<and> \<not> os_exists os (mc_history m) directory then make_dirs os directory
       else yields ()) m)"

definition prepare_sink :: "outside \<Rightarrow> run_options \<Rightarrow> stage \<Rightarrow> unit \<Rightarrow> (exec_error, unit) act" where
  "prepare_sink os options s _ = (case st_sink_path s of
     None \<Rightarrow> yields ()
   | Some path \<Rightarrow>
       if split_once_str ''://'' path \<noteq> None then yields ()
       else (\<lambda>m.
         (let resolved = resolve_against path options
          in if st_sink_mode s = Some ''error_if_exists'' \<and> os_exists os (mc_history m) resolved
             then fails (OutputExists (st_label s) resolved)
             else make_missing_parent os resolved) m))"

definition prepare_sinks :: "outside \<Rightarrow> plan \<Rightarrow> run_options \<Rightarrow> (exec_error, unit) act" where
  "prepare_sinks os p options = for_each (prepare_sink os options) (plan_sinks p) ()"

definition prepare_spills :: "outside \<Rightarrow> plan \<Rightarrow> run_options \<Rightarrow> (exec_error, unit) act" where
  "prepare_spills os p options =
     for_each (\<lambda>spill _. make_missing_parent os (resolve_against spill options)) (plan_spills p) ()"

definition clear_spills :: "outside \<Rightarrow> plan \<Rightarrow> run_options \<Rightarrow> ('e, nat) act" where
  "clear_spills os p options =
     for_each (\<lambda>spill n. seq (call (Removed (resolve_against spill options))
         (\<lambda>h. os_remove os h (resolve_against spill options))) (\<lambda>removed.
       yields (if removed then n + 1 else n))) (plan_spills p) 0"

end
