(* ===== verification/Exec_Native.thy ===== *)
theory Exec_Native
  imports Exec_World
begin

text \<open>
  \<^verbatim>\<open>crates/duckdb-engine/src/native.rs\<close>: the native sources read before DuckDB starts, the transforms
  run between their feed and their view, and the sinks deliver after a run that succeeded; what the
  sources hold is acknowledged or released. A connector is known to the engine by the calls it
  answers; the staging format is one JSON object per line.
\<close>

section \<open>Staging files and receipts\<close>

record staged =
  sd_notes :: "str list"
  sd_checkpoints :: "run_checkpoint list"

record settled =
  se_notes :: "str list"
  se_warnings :: "str list"

definition native_of :: "stage \<Rightarrow> direction \<Rightarrow> native_step option" where
  "native_of s d = (case st_native s of
     Some step \<Rightarrow> if ns_direction step = d then Some step else None
   | None \<Rightarrow> None)"

definition masked :: "run_options \<Rightarrow> str \<Rightarrow> str" where
  "masked options text = redact (ro_redact options) text"

definition connector_failed :: "stage \<Rightarrow> connector_error \<Rightarrow> run_options \<Rightarrow> exec_error" where
  "connector_failed s e options =
     StageFailed (st_node_id s) (st_label s) (masked options (connector_error_text e))"

definition unregistered :: "stage \<Rightarrow> exec_error" where
  "unregistered s = StageFailed (st_node_id s) (st_label s)
     (QT @ st_component_id s @ QT @ '' is planned as native but no connector is registered for it'')"

definition track_file :: "outside \<Rightarrow> run_options \<Rightarrow> str \<Rightarrow> (exec_error, str) act" where
  "track_file os options path0 =
     (let path = resolve_against path0 options
      in seq (case path_parent path of Some directory \<Rightarrow> make_dirs os directory | None \<Rightarrow> yields ()) (\<lambda>_.
         seq (on_machine (\<lambda>m. m\<lparr> mc_staging := mc_staging m @ [path] \<rparr>)) (\<lambda>_. yields path)))"

definition prepare_step :: "outside \<Rightarrow> run_options \<Rightarrow> native_step \<Rightarrow> (exec_error, str) act" where
  "prepare_step os options step = track_file os options (ns_staging step)"

definition hold_receipt :: "str \<Rightarrow> receipt \<Rightarrow> ('e, unit) act" where
  "hold_receipt label r = on_machine (\<lambda>m. m\<lparr> mc_held := mc_held m @ [(label, r)],
     mc_history := mc_history m @ [Held label r] \<rparr>)"

fun settle_each :: "(str \<Rightarrow> receipt \<Rightarrow> event) \<Rightarrow> (history \<Rightarrow> receipt \<Rightarrow> connector_error + str)
    \<Rightarrow> (str \<Rightarrow> connector_error + str \<Rightarrow> settled \<Rightarrow> settled) \<Rightarrow> (str \<times> receipt) list \<Rightarrow> settled \<Rightarrow> ('e, settled) act" where
  "settle_each ev ask say [] sd = yields sd"
| "settle_each ev ask say ((label, r) # hs) sd =
     seq (call (ev label r) (\<lambda>h. ask h r)) (\<lambda>result. settle_each ev ask say hs (say label result sd))"

definition settled_line :: "run_options \<Rightarrow> str \<Rightarrow> str \<Rightarrow> connector_error + str \<Rightarrow> settled \<Rightarrow> settled" where
  "settled_line options trouble label result sd = (case result of
     Inr line \<Rightarrow> sd\<lparr> se_notes := se_notes sd @ [label @ '': '' @ line] \<rparr>
   | Inl e \<Rightarrow> sd\<lparr> se_warnings := se_warnings sd @
       [label @ '': the messages read could not be '' @ trouble @ '': '' @
        masked options (connector_error_text e)] \<rparr>)"

definition settled_default :: settled where
  "settled_default = \<lparr> se_notes = [], se_warnings = [] \<rparr>"

definition acknowledge_receipts :: "outside \<Rightarrow> run_options \<Rightarrow> ('e, settled) act" where
  "acknowledge_receipts os options = (\<lambda>m. settle_each Acknowledged (os_acknowledge os)
     (settled_line options ''acknowledged and will be delivered again'')
     (mc_held m) settled_default (m\<lparr> mc_held := [] \<rparr>))"

definition release_receipts :: "outside \<Rightarrow> run_options \<Rightarrow> ('e, settled) act" where
  "release_receipts os options = (\<lambda>m. settle_each Released (os_release os)
     (settled_line options ''released, so they come back only when their hold runs out'')
     (mc_held m) settled_default (m\<lparr> mc_held := [] \<rparr>))"

text \<open>What happens when the locals of a run go out of scope: the session, the receipts, the files.\<close>

definition drop_session :: "machine \<Rightarrow> machine" where
  "drop_session m = (if mc_session m then m\<lparr> mc_session := False, mc_history := mc_history m @ [Closed] \<rparr> else m)"

definition drop_receipts :: "machine \<Rightarrow> machine" where
  "drop_receipts m = m\<lparr> mc_held := [],
     mc_history := mc_history m @ map (\<lambda>(label, r). Released label r) (mc_held m) \<rparr>"

definition drop_staging :: "machine \<Rightarrow> machine" where
  "drop_staging m = m\<lparr> mc_staging := [], mc_history := mc_history m @ map Removed (mc_staging m) \<rparr>"

definition in_scope :: "('e, 'a) act \<Rightarrow> ('e, 'a) act" where
  "in_scope f = (\<lambda>m. case f m of (r, m') \<Rightarrow> (r, drop_staging (drop_receipts (drop_session m'))))"

section \<open>Sources, sinks and transforms\<close>

definition read_source :: "outside \<Rightarrow> run_options \<Rightarrow> stage \<Rightarrow> native_step \<Rightarrow> staged \<Rightarrow> (exec_error, staged) act" where
  "read_source os options s step staged =
     seq (prepare_step os options step) (\<lambda>path.
     seq (call (CreatedFile path) (\<lambda>h. os_create os h path)) (\<lambda>created. case created of
       Some cause \<Rightarrow> fails (connector_failed s (IoFailure path cause) options)
     | None \<Rightarrow>
         seq (call (SourceRead (st_node_id s))
             (\<lambda>h. os_read os h (st_component_id s) (ns_properties step) (ns_checkpoint step))) (\<lambda>result.
         case result of
           Inl e \<Rightarrow> fails (connector_failed s e options)
         | Inr (summary, receipt) \<Rightarrow>
             seq (case receipt of Some r \<Rightarrow> hold_receipt (st_label s) r | None \<Rightarrow> yields ()) (\<lambda>_.
             seq (call (Flushed path) (\<lambda>h. os_flush os h path)) (\<lambda>flushed. case flushed of
               Some cause \<Rightarrow> fails (connector_failed s (IoFailure path cause) options)
             | None \<Rightarrow> yields (staged
                 \<lparr> sd_notes := sd_notes staged @ [st_label s @ '': '' @ masked options (sm_detail summary)],
                   sd_checkpoints := sd_checkpoints staged @ (case sm_checkpoint summary of
                     Some v \<Rightarrow> [\<lparr> rc_node_id = st_node_id s, rc_component_id = st_component_id s, rc_value = v \<rparr>]
                   | None \<Rightarrow> []) \<rparr>))))))"

definition stage_source :: "outside \<Rightarrow> run_options \<Rightarrow> stage \<Rightarrow> staged \<Rightarrow> (exec_error, staged) act" where
  "stage_source os options s staged = (case native_of s Ingest of
     None \<Rightarrow> yields staged
   | Some step \<Rightarrow>
       (case os_connector os (st_component_id s) of
          Some (ConnSource _) \<Rightarrow> read_source os options s step staged
        | _ \<Rightarrow> fails (unregistered s)))"

definition stage_sources :: "outside \<Rightarrow> run_options \<Rightarrow> stage list \<Rightarrow> (exec_error, staged) act" where
  "stage_sources os options stages =
     for_each (stage_source os options) stages \<lparr> sd_notes = [], sd_checkpoints = [] \<rparr>"

definition native_prepare_sinks :: "outside \<Rightarrow> run_options \<Rightarrow> stage list \<Rightarrow> (exec_error, unit) act" where
  "native_prepare_sinks os options stages = for_each (\<lambda>s _. case native_of s Egress of
       Some step \<Rightarrow> seq (prepare_step os options step) (\<lambda>_. yields ())
     | None \<Rightarrow> yields ()) stages ()"

definition deliver_sink :: "outside \<Rightarrow> run_options \<Rightarrow> str set \<Rightarrow> stage \<Rightarrow> str list \<Rightarrow> (exec_error, str list) act" where
  "deliver_sink os options not_taken s notes = (case native_of s Egress of
     None \<Rightarrow> yields notes
   | Some step \<Rightarrow>
       if st_node_id s \<in> not_taken then yields notes
       else case os_connector os (st_component_id s) of
         Some (ConnSink _) \<Rightarrow>
           (let path = resolve_against (ns_staging step) options
            in seq (call (OpenedFile path) (\<lambda>h. os_open_file os h path)) (\<lambda>opened. case opened of
                 Some cause \<Rightarrow> fails (connector_failed s (IoFailure path cause) options)
               | None \<Rightarrow>
                   seq (call (SinkWritten (st_node_id s))
                       (\<lambda>h. os_write os h (st_component_id s) (ns_properties step))) (\<lambda>result. case result of
                     Inl e \<Rightarrow> fails (connector_failed s e options)
                   | Inr summary \<Rightarrow> yields (notes @ [st_label s @ '': '' @ sm_detail summary]))))
       | _ \<Rightarrow> fails (unregistered s))"

definition deliver_sinks :: "outside \<Rightarrow> run_options \<Rightarrow> stage list \<Rightarrow> str set \<Rightarrow> (exec_error, str list) act" where
  "deliver_sinks os options stages not_taken = for_each (deliver_sink os options not_taken) stages []"

definition withheld :: "stage list \<Rightarrow> str list" where
  "withheld stages = map (\<lambda>s. st_label s @ '': nothing delivered, because the run failed'')
     (filter (\<lambda>s. native_of s Egress \<noteq> None) stages)"

definition session_execute :: "outside \<Rightarrow> str \<Rightarrow> ('e, session_error + answer) act" where
  "session_execute os sql = call (Executed sql) (\<lambda>h. os_execute os h sql)"

definition execute_or_fail :: "outside \<Rightarrow> str \<Rightarrow> (exec_error, answer) act" where
  "execute_or_fail os sql = seq (session_execute os sql) (\<lambda>r. given (map_sum ExecSession id r))"

definition transform_files :: "outside \<Rightarrow> run_options \<Rightarrow> stage \<Rightarrow> native_step \<Rightarrow> str \<Rightarrow> str \<Rightarrow> (connector_error, summary) act" where
  "transform_files os options s step feed_file out_file =
     seq (call (OpenedFile feed_file) (\<lambda>h. os_open_file os h feed_file)) (\<lambda>opened. case opened of
       Some cause \<Rightarrow> fails (IoFailure feed_file cause)
     | None \<Rightarrow>
         seq (call (CreatedFile out_file) (\<lambda>h. os_create os h out_file)) (\<lambda>created. case created of
           Some cause \<Rightarrow> fails (IoFailure out_file cause)
         | None \<Rightarrow>
             seq (call (Transformed (st_node_id s)) (\<lambda>h. os_transform os h (st_component_id s) (ns_properties step)))
               (\<lambda>result. case result of
                  Inl e \<Rightarrow> fails e
                | Inr summary \<Rightarrow>
                    seq (call (Flushed out_file) (\<lambda>h. os_flush os h out_file)) (\<lambda>flushed. case flushed of
                      Some cause \<Rightarrow> fails (IoFailure out_file cause)
                    | None \<Rightarrow> yields summary))))"

definition run_transform :: "outside \<Rightarrow> run_options \<Rightarrow> stage \<Rightarrow> (exec_error, str + str) act" where
  "run_transform os options s = (case native_of s DirTransform of
     None \<Rightarrow> yields (Inr [])
   | Some step \<Rightarrow>
       (case os_connector os (st_component_id s) of
          Some (ConnTransform _) \<Rightarrow>
            (case (ns_input step, ns_feed step) of
               (Some feed_file, Some feed) \<Rightarrow>
                 seq (track_file os options feed_file) (\<lambda>feed_path.
                 seq (prepare_step os options step) (\<lambda>out_path.
                 seq (execute_or_fail os feed) (\<lambda>a.
                   if has_message a then yields (Inl (masked options (trim (an_stderr a))))
                   else seq (attempt (transform_files os options s step feed_path out_path)) (\<lambda>outcome.
                     yields (case outcome of
                       Inr summary \<Rightarrow> Inr (st_label s @ '': '' @ masked options (sm_detail summary))
                     | Inl e \<Rightarrow> Inl (masked options (connector_error_text e)))))))
             | _ \<Rightarrow> fails (unregistered s))
        | _ \<Rightarrow> fails (unregistered s)))"

end
