(* ===== verification/Exec_Driven.thy ===== *)
theory Exec_Driven
  imports Exec_Native
begin

text \<open>
  The driven path of \<^verbatim>\<open>crates/duckdb-engine/src/exec.rs\<close>: one DuckDB process held open, stages sent
  to it one at a time, control nodes acting before their rows go on, retries and the policy deciding
  what a failure stops.
\<close>

section \<open>Control nodes\<close>

datatype control_action = ActContinue | ActNote str | ActDoNotTake str

definition EM_DASH :: str where "EM_DASH = [CHR 0xE2, CHR 0x80, CHR 0x94]"

definition first_number :: "json \<Rightarrow> nat option" where
  "first_number v = (case v of
     JArray (JObject ((_, first) # _) # _) \<Rightarrow>
       (case first of JBool True \<Rightarrow> Some 1 | JBool False \<Rightarrow> Some 0 | other \<Rightarrow> json_as_u64 other)
   | _ \<Rightarrow> None)"

definition first_of :: "'a list \<Rightarrow> 'a option" where
  "first_of xs = (case xs of x # _ \<Rightarrow> Some x | [] \<Rightarrow> None)"

definition probe_control :: "outside \<Rightarrow> stage \<Rightarrow> control \<Rightarrow> (exec_error, str + nat option) act" where
  "probe_control os s c = (case ct_probe c of
     None \<Rightarrow> yields (Inr None)
   | Some probe \<Rightarrow>
       seq (execute_or_fail os probe) (\<lambda>a.
         yields (case Option.bind (first_of (an_values a)) first_number of
             Some number \<Rightarrow> Inr (Some number)
           | None \<Rightarrow>
               (let said = trim (an_stderr a);
                    detail = (if said = [] then st_label s @ '' produced no answer'' else said)
                in Inl (case ct_message c of
                     Some note \<Rightarrow> if note \<noteq> [] then note @ ''. '' @ detail else detail
                   | None \<Rightarrow> detail)))))"

definition control_says :: "control \<Rightarrow> str" where
  "control_says c = (case ct_message c of Some t \<Rightarrow> t | None \<Rightarrow> [])"

definition decide :: "stage \<Rightarrow> control \<Rightarrow> nat option \<Rightarrow> str + control_action" where
  "decide s c answered = (case ct_kind c of
     CkWait \<Rightarrow>
       (let waited = st_label s @ '' '' @ EM_DASH @ '' waited '' @
              show_nat (case ct_wait_ms c of Some ms \<Rightarrow> ms | None \<Rightarrow> 0) @ ''ms''
        in Inr (ActNote (case ct_message c of Some note \<Rightarrow> waited @ '': '' @ note | None \<Rightarrow> waited)))
   | CkLog \<Rightarrow> Inr (case ct_message c of
         Some note \<Rightarrow> ActNote (st_label s @ '' '' @ EM_DASH @ '' '' @ note)
       | None \<Rightarrow> ActContinue)
   | CkFail \<Rightarrow>
       (case answered of
          None \<Rightarrow> Inl (control_says c)
        | Some matched \<Rightarrow>
            if matched = 0 then Inr ActContinue
            else Inl (control_says c @ '' ('' @ show_nat matched @ '' row(s) matched)''))
   | CkBranch \<Rightarrow>
       (if answered = None \<or> answered = Some 0
        then Inr (ActDoNotTake (case ct_message c of
            Some note \<Rightarrow> st_label s @ '' '' @ EM_DASH @ '' not taken: '' @ note
          | None \<Rightarrow> st_label s @ '' '' @ EM_DASH @ '' not taken, nothing downstream ran''))
        else Inr (ActNote (st_label s @ '' '' @ EM_DASH @ '' taken ('' @ show_nat (the answered) @ '' row(s))'')))
   | CkSequence \<Rightarrow> Inr ActContinue
   | CkAssert \<Rightarrow> (if answered = Some 1 then Inr ActContinue else Inl (control_says c)))"

definition act_control :: "outside \<Rightarrow> stage \<Rightarrow> control \<Rightarrow> (exec_error, str + control_action) act" where
  "act_control os s c =
     seq (probe_control os s c) (\<lambda>probed. case probed of
       Inl message \<Rightarrow> yields (Inl message)
     | Inr answered \<Rightarrow>
         seq (if ct_kind c = CkWait
              then call (Slept (case ct_wait_ms c of Some ms \<Rightarrow> ms | None \<Rightarrow> 0)) (\<lambda>_. ())
              else yields ()) (\<lambda>_.
           yields (decide s c answered)))"

section \<open>One stage\<close>

record readings =
  rd_counts :: "nat list"
  rd_watermark :: "str option"

definition blocked_by :: "stage \<Rightarrow> str set \<Rightarrow> str option" where
  "blocked_by s unusable = map_option in_node_id (find (\<lambda>i. in_node_id i \<in> unusable) (st_inputs s))"

definition count_in :: "json \<Rightarrow> nat option" where
  "count_in v = Option.bind (Option.bind (json_as_array v) first_of)
     (\<lambda>row. Option.bind (json_get row ''n'') json_as_u64)"

fun count_probes_from :: "outside \<Rightarrow> stage \<Rightarrow> count_probe list \<Rightarrow> nat list \<Rightarrow> ('e, str + nat list) act" where
  "count_probes_from os s [] counts = yields (Inr counts)"
| "count_probes_from os s (probe # probes) counts =
     seq (session_execute os (cp_sql probe)) (\<lambda>r. case r of
       Inl e \<Rightarrow> yields (Inl (session_error_text e))
     | Inr a \<Rightarrow>
         (case Option.bind (first_of (an_values a)) count_in of
            Some n \<Rightarrow> count_probes_from os s probes (counts @ [n])
          | None \<Rightarrow>
              (let said = trim (an_stderr a)
               in yields (Inl (if said = [] then st_label s @ '' produced no rows to count'' else said)))))"

definition collect_counts :: "outside \<Rightarrow> run_options \<Rightarrow> stage \<Rightarrow> ('e, str + nat list) act" where
  "collect_counts os options s =
     (if \<not> ro_counts options then yields (Inr []) else count_probes_from os s (st_counts s) [])"

text \<open>\<^verbatim>\<open>Value::get\<close> of a key: only an object has one.\<close>

definition collect_watermark :: "outside \<Rightarrow> stage \<Rightarrow> ('e, str + str option) act" where
  "collect_watermark os s = (case st_incremental s of
     None \<Rightarrow> yields (Inr None)
   | Some state \<Rightarrow>
       seq (session_execute os (si_probe state)) (\<lambda>r. yields (case r of
         Inl e \<Rightarrow> Inl (session_error_text e)
       | Inr a \<Rightarrow>
           (let said = trim (an_stderr a); quiet = (if said = [] then Inr None else Inl said)
            in case Option.bind (first_of (an_values a)) (\<lambda>row. json_get row ''w'') of
                 None \<Rightarrow> quiet
               | Some cell \<Rightarrow>
                   (case cell of
                      JNull \<Rightarrow> quiet
                    | JString text \<Rightarrow> Inr (Some text)
                    | other \<Rightarrow> Inr (Some (json_text other)))))))"

definition set_memory_limit :: "outside \<Rightarrow> stage \<Rightarrow> (exec_error, unit) act" where
  "set_memory_limit os s = (case sp_memory_limit_mb (st_policy s) of
     None \<Rightarrow> yields ()
   | Some limit \<Rightarrow>
       seq (execute_or_fail os (''SET memory_limit='' @ QT @ show_nat limit @ ''MB'' @ QT @ '';'')) (\<lambda>_. yields ()))"

definition reset_memory_limit :: "outside \<Rightarrow> stage \<Rightarrow> (exec_error, unit) act" where
  "reset_memory_limit os s =
     (if sp_memory_limit_mb (st_policy s) \<noteq> None
      then seq (execute_or_fail os ''RESET memory_limit;'') (\<lambda>_. yields ()) else yields ())"

definition attempt_stage :: "outside \<Rightarrow> run_options \<Rightarrow> stage \<Rightarrow> (exec_error, str + readings) act" where
  "attempt_stage os options s =
     seq (set_memory_limit os s) (\<lambda>_.
     seq (execute_or_fail os (st_sql s)) (\<lambda>a.
     let said = trim (an_stderr a) in
     seq (if ro_counts options
          then seq (collect_counts os options s) (\<lambda>r. yields (case r of
                 Inl from_probe \<Rightarrow> Inl (if said = [] then from_probe else said)
               | Inr counts \<Rightarrow> Inr counts))
          else yields (if has_message a then Inl said else Inr [])) (\<lambda>result.
     seq (case result of
            Inl message \<Rightarrow> yields (Inl message)
          | Inr counts \<Rightarrow> seq (collect_watermark os s) (\<lambda>w. yields (map_sum id
              (\<lambda>v. \<lparr> rd_counts = counts, rd_watermark = v \<rparr>) w))) (\<lambda>result.
     seq (reset_memory_limit os s) (\<lambda>_. yields result)))))"

function run_stage_from :: "outside \<Rightarrow> run_options \<Rightarrow> stage \<Rightarrow> nat \<Rightarrow> (exec_error, str + readings) act" where
  "run_stage_from os options s tried =
     seq (attempt_stage os options s) (\<lambda>outcome. case outcome of
       Inr readings \<Rightarrow> yields (Inr readings)
     | Inl message \<Rightarrow>
         if sp_retry_attempts (st_policy s) \<le> tried then yields (Inl message)
         else seq (call (Slept (backoff_for (st_policy s) (tried + 1))) (\<lambda>_. ())) (\<lambda>_.
           run_stage_from os options s (tried + 1)))"
  by pat_completeness auto
termination
  by (relation "measure (\<lambda>(_, _, s, tried). sp_retry_attempts (st_policy s) - tried)") auto

declare run_stage_from.simps [simp del]

definition run_stage :: "outside \<Rightarrow> run_options \<Rightarrow> stage \<Rightarrow> (exec_error, str + readings) act" where
  "run_stage os options s = run_stage_from os options s 0"

definition timing :: "stage \<Rightarrow> nat \<Rightarrow> nat option" where
  "timing s took = (if work_happens_here s then Some took else None)"

definition skipped_outcome :: "stage \<Rightarrow> skip_reason \<Rightarrow> stage_outcome" where
  "skipped_outcome s reason = \<lparr> so_node_id = st_node_id s, so_label = st_label s,
     so_component_id = st_component_id s, so_rows = None, so_rejected = None,
     so_skipped = Some reason, so_elapsed = None \<rparr>"

fun index_where :: "('a \<Rightarrow> bool) \<Rightarrow> 'a list \<Rightarrow> nat option" where
  "index_where p [] = None"
| "index_where p (x # xs) = (if p x then Some 0 else map_option Suc (index_where p xs))"

definition nth_opt :: "'a list \<Rightarrow> nat \<Rightarrow> 'a option" where
  "nth_opt xs i = (if i < length xs then Some (xs ! i) else None)"

definition count_at :: "stage \<Rightarrow> nat list \<Rightarrow> bool \<Rightarrow> nat option" where
  "count_at s counts rejected =
     Option.bind (index_where (\<lambda>p. probe_is_rejected p = rejected) (st_counts s)) (nth_opt counts)"

definition stage_outcome_of :: "stage \<Rightarrow> nat list \<Rightarrow> stage_outcome" where
  "stage_outcome_of s counts = \<lparr> so_node_id = st_node_id s, so_label = st_label s,
     so_component_id = st_component_id s, so_rows = count_at s counts False,
     so_rejected = (if st_splits s then count_at s counts True else None),
     so_skipped = None, so_elapsed = None \<rparr>"

section \<open>The run\<close>

record drive =
  dr_outcomes :: "stage_outcome list"
  dr_failures :: "stage_failure list"
  dr_unusable :: "str set"
  dr_untaken :: "str set"
  dr_notes :: "str list"
  dr_watermarks :: "run_watermark list"
  dr_script :: str

definition drive_start :: "str list \<Rightarrow> drive" where
  "drive_start notes = \<lparr> dr_outcomes = [], dr_failures = [], dr_unusable = {}, dr_untaken = {},
     dr_notes = notes, dr_watermarks = [], dr_script = [] \<rparr>"

definition script_of :: "stage \<Rightarrow> str" where
  "script_of s = ''-- '' @ st_node_id s @ '' ('' @ st_component_id s @ '')'' @ LF @ st_sql s @ LF @ LF"

definition add_note :: "str \<Rightarrow> drive \<Rightarrow> drive" where
  "add_note note d = d\<lparr> dr_notes := dr_notes d @ [note] \<rparr>"

text \<open>A stage that failed: it is unusable from here on, and its policy decides whether the run goes on.\<close>

definition stage_fails :: "stage \<Rightarrow> stage_outcome \<Rightarrow> str \<Rightarrow> str \<Rightarrow> drive \<Rightarrow> (exec_error, drive) act" where
  "stage_fails s outcome message shown d =
     (if sp_continue_on_failure (st_policy s)
      then yields (d\<lparr> dr_unusable := insert (st_node_id s) (dr_unusable d),
             dr_outcomes := dr_outcomes d @ [outcome],
             dr_failures := dr_failures d @ [\<lparr> sf_node_id = st_node_id s, sf_label = st_label s,
               sf_message = message \<rparr>] \<rparr>)
      else fails (StageFailed (st_node_id s) (st_label s) shown))"

definition stage_ran :: "stage \<Rightarrow> readings \<Rightarrow> nat \<Rightarrow> drive \<Rightarrow> drive" where
  "stage_ran s readings took d =
     d\<lparr> dr_outcomes := dr_outcomes d @ [(stage_outcome_of s (rd_counts readings))\<lparr> so_elapsed := timing s took \<rparr>],
        dr_watermarks := dr_watermarks d @ (case st_incremental s of
            Some state \<Rightarrow> [\<lparr> rw_node_id = st_node_id s, rw_column = si_column state,
              rw_value = rd_watermark readings \<rparr>]
          | None \<Rightarrow> []) \<rparr>"

definition clock :: "outside \<Rightarrow> ('e, nat) act" where
  "clock os = call ReadClock (os_clock os)"

definition drive_sql :: "outside \<Rightarrow> run_options \<Rightarrow> stage \<Rightarrow> nat \<Rightarrow> drive \<Rightarrow> (exec_error, drive) act" where
  "drive_sql os options s started d =
     seq (run_stage os options s) (\<lambda>ran.
     seq (clock os) (\<lambda>now. case ran of
       Inr readings \<Rightarrow> yields (stage_ran s readings (now - started) d)
     | Inl message \<Rightarrow>
         stage_fails s ((skipped_outcome s SkFailed)\<lparr> so_elapsed := timing s (now - started) \<rparr>)
           message (masked options message) d))"

definition drive_transform :: "outside \<Rightarrow> run_options \<Rightarrow> stage \<Rightarrow> nat \<Rightarrow> drive \<Rightarrow> (exec_error, drive) act" where
  "drive_transform os options s started d =
     (if runs_native_transform s
      then seq (run_transform os options s) (\<lambda>r. case r of
             Inr note \<Rightarrow> drive_sql os options s started (add_note note d)
           | Inl message \<Rightarrow> stage_fails s (skipped_outcome s SkFailed) message message d)
      else drive_sql os options s started d)"

definition drive_control :: "outside \<Rightarrow> run_options \<Rightarrow> stage \<Rightarrow> nat \<Rightarrow> drive \<Rightarrow> (exec_error, drive) act" where
  "drive_control os options s started d = (case st_control s of
     None \<Rightarrow> drive_transform os options s started d
   | Some c \<Rightarrow>
       seq (act_control os s c) (\<lambda>r. case r of
         Inr ActContinue \<Rightarrow> drive_transform os options s started d
       | Inr (ActNote note) \<Rightarrow> drive_transform os options s started (add_note note d)
       | Inr (ActDoNotTake note) \<Rightarrow> drive_transform os options s started
           ((add_note note d)\<lparr> dr_untaken := insert (st_node_id s) (dr_untaken d) \<rparr>)
       | Inl message \<Rightarrow> stage_fails s (skipped_outcome s SkFailed) message (masked options message) d))"

definition drive_stage :: "outside \<Rightarrow> run_options \<Rightarrow> stage \<Rightarrow> drive \<Rightarrow> (exec_error, drive) act" where
  "drive_stage os options s d0 =
     (let d = d0\<lparr> dr_script := dr_script d0 @ script_of s \<rparr>
      in case blocked_by s (dr_unusable d) of
           Some gone \<Rightarrow> yields (d\<lparr> dr_unusable := insert (st_node_id s) (dr_unusable d),
             dr_outcomes := dr_outcomes d @ [skipped_outcome s (SkUpstreamFailed gone)] \<rparr>)
         | None \<Rightarrow>
             (case blocked_by s (dr_untaken d) of
                Some branch \<Rightarrow> yields (d\<lparr> dr_untaken := insert (st_node_id s) (dr_untaken d),
                  dr_outcomes := dr_outcomes d @ [skipped_outcome s (SkNotTaken branch)] \<rparr>)
              | None \<Rightarrow>
                  seq (clock os) (\<lambda>started. drive_control os options s started d)))"

definition session_open_error :: "session_error \<Rightarrow> str list \<Rightarrow> run_options \<Rightarrow> exec_error" where
  "session_open_error source extensions options = (case source of
     SessionBadOutput message \<Rightarrow>
       if extensions \<noteq> [] then ExtensionLoadFailed (join_with '', '' extensions) (masked options message)
       else ExecSession source
   | _ \<Rightarrow> ExecSession source)"

definition open_session :: "outside \<Rightarrow> run_options \<Rightarrow> str \<Rightarrow> str option \<Rightarrow> str list \<Rightarrow> (session_error, unit) act" where
  "open_session os options binary extension_dir extensions =
     seq (call Opened (\<lambda>h. os_open os h binary (ro_working_dir options) extension_dir extensions)) (\<lambda>r. case r of
       Inl e \<Rightarrow> fails e
     | Inr _ \<Rightarrow> on_machine (\<lambda>m. m\<lparr> mc_session := True \<rparr>))"

definition close_session :: "('e, unit) act" where
  "close_session = on_machine drop_session"

definition settle :: "outside \<Rightarrow> run_options \<Rightarrow> plan \<Rightarrow> staged \<Rightarrow> drive
    \<Rightarrow> (exec_error, run_checkpoint list \<times> settled \<times> str list) act" where
  "settle os options p staged d =
     (if dr_failures d = []
      then seq (deliver_sinks os options (pl_stages p) (dr_untaken d)) (\<lambda>delivered.
           seq (acknowledge_receipts os options) (\<lambda>settled.
             yields (sd_checkpoints staged, settled, dr_notes d @ delivered)))
      else seq (release_receipts os options) (\<lambda>settled.
             yields ([], settled, dr_notes d @ withheld (pl_stages p))))"

definition driven_body :: "outside \<Rightarrow> plan \<Rightarrow> run_options \<Rightarrow> str \<Rightarrow> (exec_error, run_report) act" where
  "driven_body os p options binary =
     seq (prepare_sinks os p options) (\<lambda>_.
     seq (prepare_spills os p options) (\<lambda>_.
     seq (clock os) (\<lambda>started.
     seq (native_prepare_sinks os options (pl_stages p)) (\<lambda>_.
     seq (stage_sources os options (pl_stages p)) (\<lambda>staged.
     seq (map_failure (\<lambda>e. session_open_error e (plan_extensions p) options)
           (open_session os options binary (locate_extension_dir os options) (plan_extensions p))) (\<lambda>_.
     seq (for_each (drive_stage os options) (pl_stages p) (drive_start (sd_notes staged))) (\<lambda>d.
     seq close_session (\<lambda>_.
     seq (settle os options p staged d) (\<lambda>(checkpoints, settled, notes).
     seq (clock os) (\<lambda>now.
     seq (clear_spills os p options) (\<lambda>spilled.
       yields \<lparr> rr_stages = dr_outcomes d, rr_elapsed = now - started, rr_duckdb_bin = binary,
         rr_script = masked options (dr_script d), rr_spilled = spilled,
         rr_notes = notes @ se_notes settled, rr_watermarks = dr_watermarks d,
         rr_checkpoints = checkpoints, rr_warnings = se_warnings settled,
         rr_failures = map (\<lambda>f. f\<lparr> sf_message := masked options (sf_message f) \<rparr>) (dr_failures d) \<rparr>)))))))))))"

definition run_driven :: "outside \<Rightarrow> plan \<Rightarrow> run_options \<Rightarrow> str \<Rightarrow> (exec_error, run_report) act" where
  "run_driven os p options binary = in_scope (driven_body os p options binary)"

end
