(* ===== verification/Exec_Script.thy ===== *)
theory Exec_Script
  imports Exec_Driven
begin

text \<open>
  The one-script path of \<^verbatim>\<open>crates/duckdb-engine/src/exec.rs\<close>, where the whole plan is one invocation
  of DuckDB and the counts, the watermarks and the stage to blame are read off what it printed; the
  choice between the two paths; and the preview of one node's rows.
\<close>

section \<open>Reading the output\<close>

definition parse_counts :: "json_stream \<Rightarrow> str \<Rightarrow> exec_error + nat list" where
  "parse_counts parse stdout = (case parse stdout of
     (vs, AtEof) \<Rightarrow> Inr (filter_map count_in vs)
   | (vs, BrokenAt message) \<Rightarrow> Inl (BadOutput message))"

definition watermark_cell :: "json \<Rightarrow> json option" where
  "watermark_cell v = Option.bind (Option.bind (json_as_array v) first_of) (\<lambda>row. json_get row ''w'')"

definition cell_text :: "json \<Rightarrow> str option" where
  "cell_text cell = (case cell of
     JNull \<Rightarrow> None
   | JString text \<Rightarrow> Some text
   | other \<Rightarrow> Some (json_text other))"

definition parse_watermarks :: "json_stream \<Rightarrow> str \<Rightarrow> str option list" where
  "parse_watermarks parse stdout = map cell_text (filter_map watermark_cell (fst (parse stdout)))"

definition read_watermarks :: "plan \<Rightarrow> str option list \<Rightarrow> run_watermark list" where
  "read_watermarks p vs = map (\<lambda>((s, state), v).
       \<lparr> rw_node_id = st_node_id s, rw_column = si_column state, rw_value = v \<rparr>)
     (zip (watermark_probes p) vs)"

definition attribute_failure :: "plan \<Rightarrow> bool \<Rightarrow> nat list \<Rightarrow> str \<Rightarrow> exec_error" where
  "attribute_failure p counts_enabled counts message =
     (if \<not> counts_enabled then RunFailed message
      else case nth_opt (map fst (plan_count_probes p)) (length counts) of
        Some s \<Rightarrow> StageFailed (st_node_id s) (st_label s) message
      | None \<Rightarrow> RunFailed message)"

definition counts_by_output :: "plan \<Rightarrow> nat list \<Rightarrow> str \<times> bool \<Rightarrow> nat option" where
  "counts_by_output p counts = map_of (rev (zip
     (map (\<lambda>(s, probe). (st_node_id s, probe_is_rejected probe)) (plan_count_probes p)) counts))"

definition script_outcomes :: "plan \<Rightarrow> bool \<Rightarrow> nat list \<Rightarrow> stage_outcome list" where
  "script_outcomes p counts_enabled counts =
     (let by_output = (if counts_enabled then counts_by_output p counts else Map.empty)
      in map (\<lambda>s. \<lparr> so_node_id = st_node_id s, so_label = st_label s,
           so_component_id = st_component_id s, so_rows = by_output (st_node_id s, False),
           so_rejected = (if st_splits s then by_output (st_node_id s, True) else None),
           so_skipped = None, so_elapsed = None \<rparr>) (pl_stages p))"

section \<open>The run\<close>

definition spawn_script :: "outside \<Rightarrow> run_options \<Rightarrow> str \<Rightarrow> str \<Rightarrow> (exec_error, process_output) act" where
  "spawn_script os options binary script =
     seq (call (Spawned script) (\<lambda>h. os_spawn os h binary (ro_working_dir options) script)) (\<lambda>r. case r of
       Inl source \<Rightarrow> fails (ExecSpawn binary source)
     | Inr output \<Rightarrow> yields output)"

definition stage_counts :: "plan \<Rightarrow> run_options \<Rightarrow> process_output \<Rightarrow> nat list \<Rightarrow> exec_error + nat list" where
  "stage_counts p options output counts =
     (if has_prelude_probe p (ro_counts options)
      then if counts = []
           then Inl (ExtensionLoadFailed (join_with '', '' (plan_extensions p))
                  (masked options (trim (po_stderr output))))
           else Inr (tl counts)
      else Inr counts)"

definition one_script_body :: "outside \<Rightarrow> plan \<Rightarrow> run_options \<Rightarrow> str \<Rightarrow> (exec_error, run_report) act" where
  "one_script_body os p options binary =
     (let script = with_extension_directory os p options in
     seq (prepare_sinks os p options) (\<lambda>_.
     seq (prepare_spills os p options) (\<lambda>_.
     seq (clock os) (\<lambda>started.
     seq (native_prepare_sinks os options (pl_stages p)) (\<lambda>_.
     seq (stage_sources os options (pl_stages p)) (\<lambda>staged.
     seq (spawn_script os options binary script) (\<lambda>output.
     seq (clear_spills os p options) (\<lambda>spilled.
     seq (given (parse_counts (os_parse os) (po_stdout output))) (\<lambda>printed.
     seq (given (stage_counts p options output printed)) (\<lambda>counts.
     if \<not> po_success output
     then fails (attribute_failure p (ro_counts options) counts (masked options (trim (po_stderr output))))
     else
     seq (deliver_sinks os options (pl_stages p) {}) (\<lambda>delivered.
     seq (acknowledge_receipts os options) (\<lambda>settled.
     seq (clock os) (\<lambda>now.
       yields \<lparr> rr_stages = script_outcomes p (ro_counts options) counts, rr_elapsed = now - started,
         rr_duckdb_bin = binary, rr_script = masked options script, rr_spilled = spilled,
         rr_notes = sd_notes staged @ delivered @ se_notes settled,
         rr_watermarks = read_watermarks p (parse_watermarks (os_parse os) (po_stdout output)),
         rr_checkpoints = sd_checkpoints staged, rr_warnings = se_warnings settled,
         rr_failures = [] \<rparr>)))))))))))))"

definition run_one_script :: "outside \<Rightarrow> plan \<Rightarrow> run_options \<Rightarrow> str \<Rightarrow> (exec_error, run_report) act" where
  "run_one_script os p options binary = in_scope (one_script_body os p options binary)"

definition run :: "outside \<Rightarrow> plan \<Rightarrow> run_options \<Rightarrow> (exec_error, run_report) act" where
  "run os p options =
     seq (given (locate_duckdb os options)) (\<lambda>binary.
       if plan_needs_session p then run_driven os p options binary
       else run_one_script os p options binary)"

section \<open>Preview\<close>

record preview_rows =
  pv_node_id :: str
  pv_columns :: "str list"
  pv_rows :: "json list"
  pv_truncated :: bool

definition last_array :: "json list \<Rightarrow> json list" where
  "last_array vs = (case rev vs of JArray rows # _ \<Rightarrow> rows | _ \<Rightarrow> [])"

definition preview_stage :: "outside \<Rightarrow> run_options \<Rightarrow> stage \<Rightarrow> unit \<Rightarrow> (exec_error, unit) act" where
  "preview_stage os options s _ =
     (let failed = (\<lambda>message. StageFailed (st_node_id s) (st_label s) (masked options message))
      in seq (if runs_native_transform s
              then seq (run_transform os options s) (\<lambda>r. case r of
                     Inl message \<Rightarrow> fails (failed message)
                   | Inr _ \<Rightarrow> yields ())
              else yields ()) (\<lambda>_.
         seq (execute_or_fail os (st_sql s)) (\<lambda>a.
           if has_message a then fails (failed (trim (an_stderr a))) else yields ())))"

definition preview_in_session :: "outside \<Rightarrow> plan \<Rightarrow> stage list \<Rightarrow> str \<Rightarrow> run_options \<Rightarrow> str \<Rightarrow> (exec_error, json list) act" where
  "preview_in_session os p stages limit_query options binary =
     seq (map_failure (\<lambda>e. session_open_error e (plan_extensions p) options)
           (open_session os options binary (locate_extension_dir os options) (plan_extensions p))) (\<lambda>_.
     seq (for_each (preview_stage os options) stages ()) (\<lambda>_.
     seq (execute_or_fail os limit_query) (\<lambda>a.
     seq close_session (\<lambda>_.
     seq (clear_spills os p options) (\<lambda>_.
       if has_message a then fails (RunFailed (masked options (trim (an_stderr a))))
       else yields (last_array (an_values a)))))))"

definition preview_script :: "outside \<Rightarrow> plan \<Rightarrow> stage list \<Rightarrow> str \<Rightarrow> run_options \<Rightarrow> str" where
  "preview_script os p stages limit_query options =
     (case locate_extension_dir os options of
        Some directory \<Rightarrow>
          if plan_extensions p \<noteq> [] then ''SET extension_directory='' @ quote_path directory @ '';'' @ LF else []
      | None \<Rightarrow> []) @
     concat (map (\<lambda>e. ''LOAD '' @ e @ '';'' @ LF) (plan_extensions p)) @
     concat (map (\<lambda>s. st_sql s @ LF) stages) @ limit_query @ LF"

definition preview_in_one_script :: "outside \<Rightarrow> plan \<Rightarrow> stage list \<Rightarrow> str \<Rightarrow> run_options \<Rightarrow> str \<Rightarrow> (exec_error, json list) act" where
  "preview_in_one_script os p stages limit_query options binary =
     seq (spawn_script os options binary (preview_script os p stages limit_query options)) (\<lambda>output.
     seq (clear_spills os p options) (\<lambda>_.
       if \<not> po_success output then fails (RunFailed (masked options (trim (po_stderr output))))
       else yields (last_array (fst (os_parse os (po_stdout output))))))"

definition clamp_limit :: "nat \<Rightarrow> nat" where
  "clamp_limit n = max 1 (min n PREVIEW_LIMIT_MAX)"

definition preview_of :: "str \<Rightarrow> nat \<Rightarrow> json list \<Rightarrow> preview_rows" where
  "preview_of node_id limit rows =
     (let kept = take limit rows
      in \<lparr> pv_node_id = node_id,
           pv_columns = (case kept of JObject fs # _ \<Rightarrow> map fst fs | _ \<Rightarrow> []),
           pv_rows = kept, pv_truncated = limit < length rows \<rparr>)"

definition preview_body :: "outside \<Rightarrow> plan \<Rightarrow> str \<Rightarrow> nat \<Rightarrow> run_options \<Rightarrow> (exec_error, preview_rows) act" where
  "preview_body os p node_id requested options =
     seq (given (locate_duckdb os options)) (\<lambda>binary.
     seq (given (ok_or (NoSuchNode node_id) (plan_upto p node_id))) (\<lambda>stages.
     if \<not> list_ex (\<lambda>s. st_node_id s = node_id) stages then fails (CannotPreview node_id)
     else
     (let limit = clamp_limit requested;
          limit_query = ''SELECT * FROM '' @ quote_identifier node_id @ '' LIMIT '' @ show_nat (limit + 1) @ '';''
      in seq (stage_sources os options stages) (\<lambda>_.
         seq (on_machine drop_receipts) (\<lambda>_.
         seq (if list_ex runs_native_transform stages
              then preview_in_session os p stages limit_query options binary
              else preview_in_one_script os p stages limit_query options binary) (\<lambda>rows.
           yields (preview_of node_id limit rows)))))))"

definition preview :: "outside \<Rightarrow> plan \<Rightarrow> str \<Rightarrow> nat \<Rightarrow> run_options \<Rightarrow> (exec_error, preview_rows) act" where
  "preview os p node_id requested options = in_scope (preview_body os p node_id requested options)"

end
