(* ===== verification/Exec_Logic.thy ===== *)
theory Exec_Logic
  imports Exec_Script
begin

text \<open>
  A small program logic for the executor's actions: from a state with a given property, an action
  ends in a value or an error with what is promised of either. The locale holds for every property
  of a run that only receipts, deliveries and created files can touch, and carries it through all
  that happens before a run settles.
\<close>

section \<open>Triples\<close>

definition ensures :: "(machine \<Rightarrow> bool) \<Rightarrow> ('e, 'a) act \<Rightarrow> ('a \<Rightarrow> machine \<Rightarrow> bool) \<Rightarrow> ('e \<Rightarrow> machine \<Rightarrow> bool) \<Rightarrow> bool" where
  "ensures P f Q E \<longleftrightarrow> (\<forall>m. P m \<longrightarrow> (case f m of (Inr a, m') \<Rightarrow> Q a m' | (Inl e, m') \<Rightarrow> E e m'))"

abbreviation preserves :: "(machine \<Rightarrow> bool) \<Rightarrow> ('e, 'a) act \<Rightarrow> bool" where
  "preserves I f \<equiv> ensures I f (\<lambda>_. I) (\<lambda>_. I)"

lemma ensuresD_Inr: "ensures P f Q E \<Longrightarrow> P m \<Longrightarrow> f m = (Inr a, m') \<Longrightarrow> Q a m'"
  and ensuresD_Inl: "ensures P f Q E \<Longrightarrow> P m \<Longrightarrow> f m = (Inl e, m') \<Longrightarrow> E e m'"
  by (auto simp: ensures_def dest: spec [where x = m])

lemma ensures_pre: "ensures P f Q E \<Longrightarrow> (\<And>m. P' m \<Longrightarrow> P m) \<Longrightarrow> ensures P' f Q E"
  by (auto simp: ensures_def)

lemma ensures_post:
  "ensures P f Q E \<Longrightarrow> (\<And>a m. Q a m \<Longrightarrow> Q' a m) \<Longrightarrow> (\<And>e m. E e m \<Longrightarrow> E' e m) \<Longrightarrow> ensures P f Q' E'"
  unfolding ensures_def by (fastforce split: prod.splits sum.splits)

lemma ensures_yields: "(\<And>m. P m \<Longrightarrow> Q a m) \<Longrightarrow> ensures P (yields a) Q E"
  by (simp add: ensures_def yields_def)

lemma ensures_fails: "(\<And>m. P m \<Longrightarrow> E e m) \<Longrightarrow> ensures P (fails e) Q E"
  by (simp add: ensures_def fails_def)

lemma ensures_given:
  "(\<And>m a. P m \<Longrightarrow> r = Inr a \<Longrightarrow> Q a m) \<Longrightarrow> (\<And>m e. P m \<Longrightarrow> r = Inl e \<Longrightarrow> E e m) \<Longrightarrow>
    ensures P (given r) Q E"
  by (auto simp: ensures_def given_def split: sum.splits)

lemma ensures_call:
  "(\<And>m. P m \<Longrightarrow> Q (answer_of (mc_history m)) (m\<lparr> mc_history := mc_history m @ [ev] \<rparr>)) \<Longrightarrow>
    ensures P (call ev answer_of) Q E"
  by (simp add: ensures_def call_def)

lemma ensures_on_machine: "(\<And>m. P m \<Longrightarrow> Q () (h m)) \<Longrightarrow> ensures P (on_machine h) Q E"
  by (simp add: ensures_def on_machine_def)

lemma ensures_seq:
  "ensures P f R E \<Longrightarrow> (\<And>a. ensures (R a) (g a) Q E) \<Longrightarrow> ensures P (seq f g) Q E"
  unfolding ensures_def seq_def by (fastforce split: prod.splits sum.splits)

lemma ensures_attempt:
  "ensures P f (\<lambda>a. Q (Inr a)) (\<lambda>e. Q (Inl e)) \<Longrightarrow> ensures P (attempt f) Q E"
  unfolding ensures_def attempt_def by (fastforce split: prod.splits sum.splits)

lemma ensures_map_failure:
  "ensures P f Q (\<lambda>e. E (h e)) \<Longrightarrow> ensures P (map_failure h f) Q E"
  unfolding ensures_def map_failure_def by (fastforce split: prod.splits sum.splits)

lemma ensures_for_each:
  "(\<And>x a. x \<in> set xs \<Longrightarrow> ensures (I a) (f x a) I E) \<Longrightarrow> ensures (I a) (for_each f xs a) I E"
proof (induction xs arbitrary: a)
  case Nil
  show ?case by (simp add: ensures_yields)
next
  case (Cons x xs)
  show ?case
    unfolding for_each.simps by (rule ensures_seq [where R = I]) (use Cons in auto)
qed

lemma ensures_with_machine: "(\<And>m0. ensures (\<lambda>m. P m \<and> m = m0) (f m0) Q E) \<Longrightarrow> ensures P (\<lambda>m. f m m) Q E"
  by (auto simp: ensures_def)

lemma ensures_if:
  "(b \<Longrightarrow> ensures P f Q E) \<Longrightarrow> (\<not> b \<Longrightarrow> ensures P g Q E) \<Longrightarrow> ensures P (if b then f else g) Q E"
  by simp

lemma ensures_option:
  "(x = None \<Longrightarrow> ensures P f Q E) \<Longrightarrow> (\<And>y. x = Some y \<Longrightarrow> ensures P (g y) Q E) \<Longrightarrow>
    ensures P (case x of None \<Rightarrow> f | Some y \<Rightarrow> g y) Q E"
  by (cases x) auto

lemma ensures_sum:
  "(\<And>e. x = Inl e \<Longrightarrow> ensures P (f e) Q E) \<Longrightarrow> (\<And>a. x = Inr a \<Longrightarrow> ensures P (g a) Q E) \<Longrightarrow>
    ensures P (case x of Inl e \<Rightarrow> f e | Inr a \<Rightarrow> g a) Q E"
  by (cases x) auto

lemma ensures_prod: "(\<And>a b. x = (a, b) \<Longrightarrow> ensures P (f a b) Q E) \<Longrightarrow> ensures P (case x of (a, b) \<Rightarrow> f a b) Q E"
  by (cases x) auto

lemma ensures_connector:
  "(\<And>n. x = ConnSource n \<Longrightarrow> ensures P (f n) Q E) \<Longrightarrow> (\<And>n. x = ConnSink n \<Longrightarrow> ensures P (g n) Q E) \<Longrightarrow>
    (\<And>n. x = ConnTransform n \<Longrightarrow> ensures P (h n) Q E) \<Longrightarrow>
    ensures P (case x of ConnSource n \<Rightarrow> f n | ConnSink n \<Rightarrow> g n | ConnTransform n \<Rightarrow> h n) Q E"
  by (cases x) auto

lemma ensures_action:
  "(x = ActContinue \<Longrightarrow> ensures P f Q E) \<Longrightarrow> (\<And>n. x = ActNote n \<Longrightarrow> ensures P (g n) Q E) \<Longrightarrow>
    (\<And>n. x = ActDoNotTake n \<Longrightarrow> ensures P (h n) Q E) \<Longrightarrow>
    ensures P (case x of ActContinue \<Rightarrow> f | ActNote n \<Rightarrow> g n | ActDoNotTake n \<Rightarrow> h n) Q E"
  by (cases x) auto

lemmas ensures_cases = ensures_if ensures_option ensures_sum ensures_prod ensures_connector ensures_action

text \<open>The rules for an invariant: one per combinator, applied from the outside in.\<close>

lemma preserves_yields: "preserves I (yields a)"
  by (rule ensures_yields)

lemma preserves_fails: "preserves I (fails e)"
  by (rule ensures_fails)

lemma preserves_given: "preserves I (given r)"
  by (rule ensures_given)

lemma preserves_seq: "preserves I f \<Longrightarrow> (\<And>a. preserves I (g a)) \<Longrightarrow> preserves I (seq f g)"
  by (rule ensures_seq)

lemma preserves_for_each: "(\<And>x a. preserves I (f x a)) \<Longrightarrow> preserves I (for_each f xs a)"
  by (rule ensures_for_each)

lemma preserves_attempt: "preserves I f \<Longrightarrow> preserves I (attempt f)"
  by (rule ensures_attempt)

lemma preserves_map_failure: "preserves I f \<Longrightarrow> preserves I (map_failure h f)"
  by (rule ensures_map_failure)

lemmas preserves_rules = preserves_yields preserves_fails preserves_given preserves_seq preserves_for_each preserves_attempt
  preserves_map_failure ensures_cases

section \<open>Everything before a run settles\<close>

fun neutral :: "event \<Rightarrow> bool" where
  "neutral (Held _ _) \<longleftrightarrow> False"
| "neutral (Acknowledged _ _) \<longleftrightarrow> False"
| "neutral (Released _ _) \<longleftrightarrow> False"
| "neutral (SinkWritten _) \<longleftrightarrow> False"
| "neutral (CreatedFile _) \<longleftrightarrow> False"
| "neutral _ \<longleftrightarrow> True"

locale run_invariant =
  fixes I :: "machine \<Rightarrow> bool"
  assumes event: "I m \<Longrightarrow> neutral ev \<Longrightarrow> I (m\<lparr> mc_history := mc_history m @ [ev] \<rparr>)"
    and track: "I m \<Longrightarrow> I (m\<lparr> mc_staging := mc_staging m @ [path] \<rparr>)"
    and create: "I m \<Longrightarrow> path \<in> set (mc_staging m) \<Longrightarrow> I (m\<lparr> mc_history := mc_history m @ [CreatedFile path] \<rparr>)"
    and hold: "I m \<Longrightarrow> I (m\<lparr> mc_held := mc_held m @ [(label, r)], mc_history := mc_history m @ [Held label r] \<rparr>)"
    and session: "I m \<Longrightarrow> I (m\<lparr> mc_session := b \<rparr>)"
begin

lemma keep_call: "neutral ev \<Longrightarrow> preserves I (call ev answer_of)"
  by (rule ensures_call) (rule event)

lemma keep_make_dirs: "preserves I (make_dirs os directory)"
  unfolding make_dirs_def by (intro preserves_rules keep_call) simp

lemma keep_make_missing_parent: "preserves I (make_missing_parent os path)"
  unfolding make_missing_parent_def
  by (rule ensures_with_machine, rule ensures_pre [where P = I])
    (auto intro!: preserves_rules keep_make_dirs)

lemma keep_prepare_sinks: "preserves I (prepare_sinks os p options)"
proof -
  have "preserves I (prepare_sink os options s u)" for s u
    unfolding prepare_sink_def Let_def
  proof (intro ensures_cases preserves_yields)
    fix path
    show "preserves I (\<lambda>m. (if st_sink_mode s = Some ''error_if_exists'' \<and>
          os_exists os (mc_history m) (resolve_against path options)
        then fails (OutputExists (st_label s) (resolve_against path options))
        else make_missing_parent os (resolve_against path options)) m)"
      by (rule ensures_with_machine, rule ensures_pre [where P = I])
        (simp_all add: ensures_cases preserves_fails keep_make_missing_parent)
  qed
  then show ?thesis unfolding prepare_sinks_def by (intro preserves_rules)
qed

lemma keep_prepare_spills: "preserves I (prepare_spills os p options)"
  unfolding prepare_spills_def by (intro preserves_rules keep_make_missing_parent)

lemma keep_clear_spills: "preserves I (clear_spills os p options)"
  unfolding clear_spills_def by (intro preserves_rules keep_call) simp

lemma keep_clock: "preserves I (clock os)"
  unfolding clock_def by (rule keep_call) simp

lemma keep_execute: "preserves I (session_execute os sql)" "preserves I (execute_or_fail os sql)"
  unfolding execute_or_fail_def session_execute_def by (intro preserves_rules keep_call; simp)+

lemma track_file_tracks:
  "ensures I (track_file os options path) (\<lambda>full m. I m \<and> full \<in> set (mc_staging m)) (\<lambda>_. I)"
  unfolding track_file_def Let_def
  apply (rule ensures_seq [where R = "\<lambda>_. I"])
   apply (intro preserves_rules keep_make_dirs)
  apply (rule ensures_seq [where R = "\<lambda>_ m. I m \<and> resolve_against path options \<in> set (mc_staging m)"])
   apply (rule ensures_on_machine, simp add: track)
  apply (rule ensures_yields, simp)
  done

lemma prepare_step_tracks:
  "ensures I (prepare_step os options step) (\<lambda>full m. I m \<and> full \<in> set (mc_staging m)) (\<lambda>_. I)"
  unfolding prepare_step_def by (rule track_file_tracks)

lemma keep_track_file: "preserves I (track_file os options path)"
  by (rule ensures_post [OF track_file_tracks]) auto

lemma keep_prepare_step: "preserves I (prepare_step os options step)"
  unfolding prepare_step_def by (rule keep_track_file)

lemma keep_create:
  "ensures (\<lambda>m. I m \<and> path \<in> set (mc_staging m)) (call (CreatedFile path) answer_of) (\<lambda>_. I) (\<lambda>_. I)"
  by (rule ensures_call) (simp add: create)

lemma keep_hold: "preserves I (hold_receipt label r)"
  unfolding hold_receipt_def by (rule ensures_on_machine) (rule hold)

lemma keep_read_source: "preserves I (read_source os options s step sd)"
  unfolding read_source_def
  apply (rule ensures_seq [OF prepare_step_tracks])
  apply (rule ensures_seq [OF keep_create])
  apply (intro preserves_rules keep_call keep_hold; simp)
  done

lemma keep_stage_sources: "preserves I (stage_sources os options stages)"
proof -
  have "preserves I (stage_source os options s sd)" for s sd
    unfolding stage_source_def by (intro preserves_rules keep_read_source)
  then show ?thesis unfolding stage_sources_def by (intro preserves_rules)
qed

lemma keep_native_prepare_sinks: "preserves I (native_prepare_sinks os options stages)"
  unfolding native_prepare_sinks_def by (intro preserves_rules keep_prepare_step)

lemma keep_transform_files:
  "ensures (\<lambda>m. I m \<and> out \<in> set (mc_staging m)) (transform_files os options s step feed out) (\<lambda>_. I) (\<lambda>_. I)"
  unfolding transform_files_def
  apply (rule ensures_seq [where R = "\<lambda>_ m. I m \<and> out \<in> set (mc_staging m)"])
   apply (rule ensures_call, simp add: event)
  apply (rule ensures_option)
   apply (rule ensures_seq [OF keep_create])
   apply (intro preserves_rules keep_call; simp)
  apply (rule ensures_fails, simp)
  done

lemma keep_run_transform: "preserves I (run_transform os options s)"
proof -
  let ?T = "\<lambda>path m. I m \<and> path \<in> set (mc_staging m)"
  have execute: "ensures (?T path) (execute_or_fail os sql) (\<lambda>_. ?T path) (\<lambda>_. I)" for path sql
    unfolding execute_or_fail_def session_execute_def
    by (rule ensures_seq [where R = "\<lambda>_. ?T path"])
      (auto intro!: ensures_call ensures_given simp: event)
  show ?thesis
    unfolding run_transform_def
    apply (intro ensures_cases preserves_yields preserves_fails)
    apply (rule preserves_seq [OF keep_track_file])
    apply (rule ensures_seq [OF prepare_step_tracks])
    apply (rule ensures_seq [OF execute])
    apply (rule ensures_if)
     apply (rule ensures_yields, simp)
    apply (rule ensures_seq [OF ensures_attempt [where Q = "\<lambda>_. I"]])
     apply (rule keep_transform_files)
    apply (rule preserves_yields)
    done
qed

lemma keep_act_control: "preserves I (act_control os s c)"
  unfolding act_control_def probe_control_def
  by (intro preserves_rules keep_execute keep_call; simp)

lemma keep_collect_counts: "preserves I (collect_counts os options s)"
proof -
  have "preserves I (count_probes_from os s probes counts)" for probes counts
    by (induction probes arbitrary: counts)
      (auto simp: Let_def intro!: preserves_rules keep_execute)
  then show ?thesis unfolding collect_counts_def by (intro preserves_rules)
qed

lemma keep_attempt_stage: "preserves I (attempt_stage os options s)"
  unfolding attempt_stage_def set_memory_limit_def reset_memory_limit_def collect_watermark_def Let_def
  by (intro preserves_rules keep_execute keep_collect_counts)

lemma keep_run_stage: "preserves I (run_stage os options s)"
proof -
  have "preserves I (run_stage_from os options s tried)" for tried
  proof (induction os options s tried rule: run_stage_from.induct)
    case (1 os options s tried)
    show ?case
      by (subst run_stage_from.simps)
        (intro preserves_rules keep_attempt_stage keep_call 1; simp)
  qed
  then show ?thesis unfolding run_stage_def .
qed

lemma keep_drive_stage: "preserves I (drive_stage os options s d)"
proof -
  have fails: "preserves I (stage_fails s out message shown d)" for out message shown d
    unfolding stage_fails_def by (intro preserves_rules)
  have sql: "preserves I (drive_sql os options s t d)" for t d
    unfolding drive_sql_def by (intro preserves_rules keep_run_stage keep_clock fails)
  have transform: "preserves I (drive_transform os options s t d)" for t d
    unfolding drive_transform_def by (intro preserves_rules keep_run_transform sql fails)
  have control: "preserves I (drive_control os options s t d)" for t d
    unfolding drive_control_def by (intro preserves_rules keep_act_control transform fails)
  show ?thesis
    unfolding drive_stage_def Let_def by (intro preserves_rules keep_clock control)
qed

lemma keep_open_session: "preserves I (open_session os options binary directory extensions)"
  unfolding open_session_def
  by (intro preserves_rules keep_call ensures_on_machine; simp add: session)

lemma keep_drop_session: "I m \<Longrightarrow> I (drop_session m)"
  unfolding drop_session_def using event [of "m\<lparr> mc_session := False \<rparr>" Closed] session [of m False] by simp

lemma keep_close_session: "preserves I close_session"
  unfolding close_session_def by (rule ensures_on_machine) (rule keep_drop_session)

lemma keep_spawn_script: "preserves I (spawn_script os options binary script)"
  unfolding spawn_script_def by (intro preserves_rules keep_call; simp)

lemmas keep_all = keep_prepare_sinks keep_prepare_spills keep_clear_spills keep_clock
  keep_stage_sources keep_native_prepare_sinks keep_drive_stage keep_open_session
  keep_close_session keep_spawn_script

end

end
