(* ===== verification/Exec_Settle.thy ===== *)
theory Exec_Settle
  imports Exec_Logic
begin

text \<open>
  How a run ends: nothing is delivered or acknowledged by a run that failed, every receipt a source
  handed over is settled exactly once on every path, and no staging file is left behind.
\<close>

section \<open>Settling\<close>

text \<open>An invariant that a delivery keeps as well.\<close>

locale settling_invariant = run_invariant +
  assumes written: "I m \<Longrightarrow> I (m\<lparr> mc_history := mc_history m @ [SinkWritten n] \<rparr>)"
begin

lemma keep_deliver_sinks: "preserves I (deliver_sinks os options stages not_taken)"
proof -
  have call: "preserves I (call (SinkWritten n) answer_of)" for n answer_of
    by (rule ensures_call) (rule written)
  have "preserves I (deliver_sink os options not_taken s told)" for s told
    unfolding deliver_sink_def Let_def by (intro preserves_rules keep_call call; simp)
  then show ?thesis unfolding deliver_sinks_def by (intro preserves_rules)
qed

end

definition never_fails :: "('e, 'a) act \<Rightarrow> bool" where
  "never_fails f \<longleftrightarrow> ensures (\<lambda>_. True) f (\<lambda>_ _. True) (\<lambda>_ _. False)"

lemma ensures_never_fails: "never_fails f \<Longrightarrow> ensures P f Q E' \<Longrightarrow> ensures P f Q E"
  unfolding never_fails_def ensures_def by (fastforce split: sum.splits prod.splits)

lemma never_fails_rules:
  "never_fails (yields a)" "never_fails (call ev g)" "never_fails (on_machine h)"
  "never_fails f \<Longrightarrow> (\<And>a. never_fails (k a)) \<Longrightarrow> never_fails (seq f k)"
  unfolding never_fails_def
  by (auto simp: ensures_yields ensures_call ensures_on_machine intro: ensures_seq [where R = "\<lambda>_ _. True"])

lemma never_fails_for_each: "(\<And>x a. never_fails (f x a)) \<Longrightarrow> never_fails (for_each f xs a)"
  unfolding never_fails_def by (rule ensures_for_each [where I = "\<lambda>_ _. True"])

lemma never_fails_clock: "never_fails (clock os)"
  and never_fails_clear_spills: "never_fails (clear_spills os p options)"
  unfolding clock_def clear_spills_def by (intro never_fails_rules never_fails_for_each)+

lemma settle_each_does:
  "\<exists>sd'. settle_each ev ask say hs sd m =
     (Inr sd', m\<lparr> mc_history := mc_history m @ map (\<lambda>(label, r). ev label r) hs \<rparr>)"
proof (induction ev ask say hs sd arbitrary: m rule: settle_each.induct)
  case (2 ev ask say label r hs sd)
  from 2 [of "ask (mc_history m) r" "m\<lparr> mc_history := mc_history m @ [ev label r] \<rparr>"]
  show ?case by (simp add: seq_def call_def)
qed (simp add: yields_def)

lemma acknowledge_does:
  "\<exists>sd. acknowledge_receipts os options m = (Inr sd, m\<lparr> mc_held := [],
     mc_history := mc_history m @ map (\<lambda>(label, r). Acknowledged label r) (mc_held m) \<rparr>)"
  unfolding acknowledge_receipts_def
  using settle_each_does [where m = "m\<lparr> mc_held := [] \<rparr>" and hs = "mc_held m"] by simp

lemma release_does:
  "\<exists>sd. release_receipts os options m = (Inr sd, m\<lparr> mc_held := [],
     mc_history := mc_history m @ map (\<lambda>(label, r). Released label r) (mc_held m) \<rparr>)"
  unfolding release_receipts_def
  using settle_each_does [where m = "m\<lparr> mc_held := [] \<rparr>" and hs = "mc_held m"] by simp

lemma ensures_acknowledge:
  "(\<And>m sd. P m \<Longrightarrow> Q sd (m\<lparr> mc_held := [],
      mc_history := mc_history m @ map (\<lambda>(label, r). Acknowledged label r) (mc_held m) \<rparr>)) \<Longrightarrow>
    ensures P (acknowledge_receipts os options) Q E"
  unfolding ensures_def using acknowledge_does [of os options] by (metis (mono_tags, lifting) case_prod_conv sum.case(2))

lemma ensures_release:
  "(\<And>m sd. P m \<Longrightarrow> Q sd (m\<lparr> mc_held := [],
      mc_history := mc_history m @ map (\<lambda>(label, r). Released label r) (mc_held m) \<rparr>)) \<Longrightarrow>
    ensures P (release_receipts os options) Q E"
  unfolding ensures_def using release_does [of os options] by (metis (mono_tags, lifting) case_prod_conv sum.case(2))

section \<open>A failed run settles nothing\<close>

definition unsettled :: "machine \<Rightarrow> bool" where
  "unsettled m \<longleftrightarrow> (\<forall>label r. Acknowledged label r \<notin> set (mc_history m)) \<and> (\<forall>n. SinkWritten n \<notin> set (mc_history m))"

definition unacknowledged :: "machine \<Rightarrow> bool" where
  "unacknowledged m \<longleftrightarrow> (\<forall>label r. Acknowledged label r \<notin> set (mc_history m))"

interpretation unsettled: run_invariant unsettled
  by unfold_locales (auto simp: unsettled_def)

interpretation unacknowledged: settling_invariant unacknowledged
  by unfold_locales (auto simp: unacknowledged_def)

lemma unsettled_unacknowledged: "unsettled m \<Longrightarrow> unacknowledged m"
  by (simp add: unsettled_def unacknowledged_def)

text \<open>What a body owes at its end: after a failure nothing was settled, after an error nothing acknowledged.\<close>

definition honest :: "run_report \<Rightarrow> machine \<Rightarrow> bool" where
  "honest report m \<longleftrightarrow> (report_failed report \<longrightarrow> rr_checkpoints report = [] \<and> unsettled m)"

lemma settle_honest:
  "ensures unsettled (settle os options p staged d)
     (\<lambda>(cks, settled, told) m. dr_failures d \<noteq> [] \<longrightarrow> cks = [] \<and> unsettled m) (\<lambda>_. unacknowledged)"
  unfolding settle_def
  apply (rule ensures_if)
   apply (rule ensures_seq [where R = "\<lambda>_. unacknowledged"])
    apply (rule ensures_pre [OF unacknowledged.keep_deliver_sinks unsettled_unacknowledged], assumption)
   apply (rule ensures_seq [where R = "\<lambda>_ _. True"])
    apply (rule ensures_acknowledge, simp)
   apply (rule ensures_yields, simp)
  apply (rule ensures_seq [where R = "\<lambda>_. unsettled"])
   apply (rule ensures_release, auto simp: unsettled_def)[1]
  apply (rule ensures_yields, simp)
  done

lemma driven_body_honest:
  "ensures unsettled (driven_body os p options binary) honest (\<lambda>_. unacknowledged)"
proof -
  have weaken: "ensures unsettled f (\<lambda>_. unsettled) (\<lambda>_. unacknowledged)" if "preserves unsettled f"
    for f :: "('e, 'a) act"
    by (rule ensures_post [OF that]) (auto dest: unsettled_unacknowledged)
  have after: "ensures (\<lambda>m. c \<longrightarrow> cks = [] \<and> unsettled m) f (\<lambda>_ m. c \<longrightarrow> cks = [] \<and> unsettled m) E"
    if "never_fails f" "preserves unsettled f" for c f E and cks :: "run_checkpoint list"
    by (rule ensures_never_fails [OF that(1)])
      (use that in \<open>force simp: ensures_def never_fails_def split: prod.splits sum.splits\<close>)
  show ?thesis
    unfolding driven_body_def
    apply (rule ensures_seq [OF weaken [OF unsettled.keep_prepare_sinks]])
    apply (rule ensures_seq [OF weaken [OF unsettled.keep_prepare_spills]])
    apply (rule ensures_seq [OF weaken [OF unsettled.keep_clock]])
    apply (rule ensures_seq [OF weaken [OF unsettled.keep_native_prepare_sinks]])
    apply (rule ensures_seq [OF weaken [OF unsettled.keep_stage_sources]])
    apply (rule ensures_seq [OF weaken [OF preserves_map_failure [OF unsettled.keep_open_session]]])
    apply (rule ensures_seq [OF weaken [OF preserves_for_each [OF unsettled.keep_drive_stage]]])
    apply (rule ensures_seq [OF weaken [OF unsettled.keep_close_session]])
    apply (rule ensures_seq [OF settle_honest])
    apply (rule ensures_prod)+
    apply (rule ensures_seq)
     apply simp
     apply (rule after [OF never_fails_clock unsettled.keep_clock])
    apply (rule ensures_seq)
     apply (rule after [OF never_fails_clear_spills unsettled.keep_clear_spills])
    apply (rule ensures_yields, simp add: honest_def report_failed_def)
    done
qed

lemma one_script_body_honest:
  "ensures unacknowledged (one_script_body os p options binary) honest (\<lambda>_. unacknowledged)"
  unfolding one_script_body_def Let_def
  apply (rule ensures_seq [OF unacknowledged.keep_prepare_sinks])
  apply (rule ensures_seq [OF unacknowledged.keep_prepare_spills])
  apply (rule ensures_seq [OF unacknowledged.keep_clock])
  apply (rule ensures_seq [OF unacknowledged.keep_native_prepare_sinks])
  apply (rule ensures_seq [OF unacknowledged.keep_stage_sources])
  apply (rule ensures_seq [OF unacknowledged.keep_spawn_script])
  apply (rule ensures_seq [OF unacknowledged.keep_clear_spills])
  apply (rule ensures_seq [OF preserves_given])
  apply (rule ensures_seq [OF preserves_given])
  apply (rule ensures_if)
   apply (rule ensures_fails, assumption)
  apply (rule ensures_seq [OF unacknowledged.keep_deliver_sinks])
  apply (rule ensures_seq [where R = "\<lambda>_ _. True"])
   apply (rule ensures_acknowledge, simp)
  apply (rule ensures_seq [where R = "\<lambda>_ _. True"])
   apply (rule ensures_never_fails [OF never_fails_clock never_fails_clock [unfolded never_fails_def]])
  apply (rule ensures_yields, simp add: honest_def report_failed_def)
  done

lemma in_scope_result:
  assumes "in_scope f m = (r, m')"
  obtains m1 where "f m = (r, m1)" "m' = drop_staging (drop_receipts (drop_session m1))"
  using assms by (auto simp: in_scope_def split: prod.splits)

lemma drops_settle_nothing:
  "unsettled m \<Longrightarrow> unsettled (drop_staging (drop_receipts (drop_session m)))"
  "unacknowledged m \<Longrightarrow> unacknowledged (drop_staging (drop_receipts (drop_session m)))"
  by (auto simp: unsettled_def unacknowledged_def drop_session_def drop_receipts_def drop_staging_def)

lemma in_scope_honest:
  "ensures P f honest (\<lambda>_. unacknowledged) \<Longrightarrow> ensures P (in_scope f) honest (\<lambda>_. unacknowledged)"
  unfolding ensures_def in_scope_def
  by (fastforce simp: honest_def drops_settle_nothing split: prod.splits sum.splits)

lemma machine_start_unsettled: "unsettled machine_start"
  by (simp add: unsettled_def machine_start_def)

lemma run_honest: "ensures unsettled (run os p options) honest (\<lambda>_. unacknowledged)"
  unfolding run_def run_driven_def run_one_script_def
  apply (rule ensures_seq [where R = "\<lambda>_. unsettled"])
   apply (rule ensures_given, assumption, erule unsettled_unacknowledged)
  apply (intro ensures_if in_scope_honest driven_body_honest)
  apply (rule ensures_pre [OF one_script_body_honest unsettled_unacknowledged], assumption)
  done

text \<open>
  C27: A run that failed settles nothing: whatever went wrong, no message a source held is
  acknowledged; and when the run carried on past a failed stage and has a report, no sink delivered
  anything and no position is kept, so the next run reads again what this one never finished.
\<close>

theorem failed_run_settles_nothing:
  assumes "run os p options machine_start = (r, m)"
    and "case r of Inr report \<Rightarrow> report_failed report | Inl _ \<Rightarrow> True"
  shows "(\<forall>label x. Acknowledged label x \<notin> set (mc_history m)) \<and>
    (\<forall>report. r = Inr report \<longrightarrow> rr_checkpoints report = [] \<and> (\<forall>n. SinkWritten n \<notin> set (mc_history m)))"
proof (cases r)
  case (Inl e)
  with ensuresD_Inl [OF run_honest machine_start_unsettled] assms(1) show ?thesis
    by (auto simp: unacknowledged_def)
next
  case (Inr report)
  with ensuresD_Inr [OF run_honest machine_start_unsettled] assms show ?thesis
    by (auto simp: honest_def unsettled_def)
qed

section \<open>Every receipt is settled once\<close>

definition accounted :: "machine \<Rightarrow> bool" where
  "accounted m \<longleftrightarrow> (\<forall>label r. count_list (mc_history m) (Held label r) =
     count_list (mc_history m) (Acknowledged label r) + count_list (mc_history m) (Released label r) +
     count_list (mc_held m) (label, r))"

interpretation accounted: settling_invariant accounted
proof unfold_locales
  fix m ev
  assume "accounted m" "neutral ev"
  then show "accounted (m\<lparr> mc_history := mc_history m @ [ev] \<rparr>)"
    by (cases ev) (simp_all add: accounted_def)
qed (auto simp: accounted_def)

lemma count_settled:
  "count_list (map (\<lambda>(l, x). Acknowledged l x) hs) (Acknowledged label r) = count_list hs (label, r)"
  "count_list (map (\<lambda>(l, x). Released l x) hs) (Released label r) = count_list hs (label, r)"
  "count_list (map (\<lambda>(l, x). Acknowledged l x) hs) (Released label r) = 0"
  "count_list (map (\<lambda>(l, x). Released l x) hs) (Acknowledged label r) = 0"
  "count_list (map (\<lambda>(l, x). Acknowledged l x) hs) (Held label r) = 0"
  "count_list (map (\<lambda>(l, x). Released l x) hs) (Held label r) = 0"
  by (induction hs) (auto split: prod.splits)

lemma count_removed:
  "count_list (map Removed fs) (Held label r) = 0"
  "count_list (map Removed fs) (Acknowledged label r) = 0"
  "count_list (map Removed fs) (Released label r) = 0"
  by (induction fs) auto

lemma settling_accounted:
  "preserves accounted (acknowledge_receipts os options)" "preserves accounted (release_receipts os options)"
  by (rule ensures_acknowledge ensures_release; simp add: accounted_def count_settled)+

lemma drops_accounted: "accounted m \<Longrightarrow> accounted (drop_staging (drop_receipts (drop_session m)))"
  using accounted.keep_drop_session [of m]
  by (simp add: accounted_def drop_receipts_def drop_staging_def count_settled count_removed)

lemmas accounted_rules = preserves_rules settling_accounted accounted.keep_all accounted.keep_deliver_sinks

lemma run_accounted: "preserves accounted (run os p options)"
proof -
  have scoped: "preserves accounted (in_scope f)" if "preserves accounted f" for f :: "('e, 'a) act"
    using that unfolding ensures_def in_scope_def by (auto simp: drops_accounted split: prod.splits sum.splits)
  have "preserves accounted (driven_body os p options b)" "preserves accounted (one_script_body os p options b)" for b
    unfolding driven_body_def settle_def one_script_body_def Let_def by (intro accounted_rules)+
  then show ?thesis
    unfolding run_def run_driven_def run_one_script_def by (intro preserves_rules scoped)
qed

lemma in_scope_clean: "in_scope f m = (r, m') \<Longrightarrow> mc_held m' = [] \<and> mc_staging m' = [] \<and> \<not> mc_session m'"
  by (auto simp: in_scope_def drop_staging_def drop_receipts_def drop_session_def split: prod.splits if_splits)

lemma run_clean:
  "run os p options machine_start = (r, m) \<Longrightarrow> mc_held m = [] \<and> mc_staging m = [] \<and> \<not> mc_session m"
  by (auto simp: run_def run_driven_def run_one_script_def seq_def given_def machine_start_def
      split: sum.splits if_splits dest: in_scope_clean)

text \<open>
  C29: Every receipt is settled exactly once: on every path through a run, early returns included,
  a receipt is acknowledged or released as often as a source handed it over, and none is still held
  when the run has ended.
\<close>

theorem receipts_settled_once:
  assumes "run os p options machine_start = (r, m)"
  shows "mc_held m = [] \<and> count_list (mc_history m) (Held label x) =
    count_list (mc_history m) (Acknowledged label x) + count_list (mc_history m) (Released label x)"
proof -
  have "accounted machine_start" by (simp add: accounted_def machine_start_def)
  with ensuresD_Inr [OF run_accounted] ensuresD_Inl [OF run_accounted] assms have "accounted m"
    by (cases r) blast+
  with run_clean [OF assms] show ?thesis by (simp add: accounted_def)
qed

section \<open>No staging file is left\<close>

definition tracked :: "machine \<Rightarrow> bool" where
  "tracked m \<longleftrightarrow> (\<forall>path. CreatedFile path \<in> set (mc_history m) \<longrightarrow> path \<in> set (mc_staging m))"

interpretation tracked: settling_invariant tracked
proof unfold_locales
  fix m ev
  assume "tracked m" "neutral ev"
  then show "tracked (m\<lparr> mc_history := mc_history m @ [ev] \<rparr>)"
    by (cases ev) (auto simp: tracked_def)
qed (auto simp: tracked_def)

lemma settling_tracked:
  "preserves tracked (acknowledge_receipts os options)" "preserves tracked (release_receipts os options)"
  by (rule ensures_acknowledge ensures_release; auto simp: tracked_def)+

lemmas tracked_rules = preserves_rules settling_tracked tracked.keep_all tracked.keep_deliver_sinks

definition swept :: "machine \<Rightarrow> bool" where
  "swept m \<longleftrightarrow> (\<forall>path. CreatedFile path \<in> set (mc_history m) \<longrightarrow>
     (\<exists>before after. mc_history m = before @ after \<and> CreatedFile path \<in> set before \<and>
       CreatedFile path \<notin> set after \<and> Removed path \<in> set after))"

lemma drops_sweep: "tracked m \<Longrightarrow> swept (drop_staging (drop_receipts (drop_session m)))"
proof -
  let ?m = "drop_receipts (drop_session m)"
  assume "tracked m"
  then have tracked: "tracked ?m"
    using tracked.keep_drop_session [of m] by (auto simp: tracked_def drop_receipts_def)
  show ?thesis
    unfolding swept_def
  proof (intro allI impI)
    fix path
    assume "CreatedFile path \<in> set (mc_history (drop_staging ?m))"
    then have "CreatedFile path \<in> set (mc_history ?m)" by (auto simp: drop_staging_def)
    with tracked show "\<exists>before after. mc_history (drop_staging ?m) = before @ after \<and>
        CreatedFile path \<in> set before \<and> CreatedFile path \<notin> set after \<and> Removed path \<in> set after"
      by (intro exI [of _ "mc_history ?m"] exI [of _ "map Removed (mc_staging ?m)"])
        (auto simp: drop_staging_def tracked_def)
  qed
qed

lemma in_scope_sweeps:
  "preserves tracked f \<Longrightarrow> ensures tracked (in_scope f) (\<lambda>_. swept) (\<lambda>_. swept)"
  unfolding ensures_def in_scope_def by (auto simp: drops_sweep split: prod.splits sum.splits)

lemma run_swept: "ensures (\<lambda>m. mc_history m = [] \<and> tracked m) (run os p options) (\<lambda>_. swept) (\<lambda>_. swept)"
proof -
  have "preserves tracked (driven_body os p options b)" "preserves tracked (one_script_body os p options b)" for b
    unfolding driven_body_def settle_def one_script_body_def Let_def by (intro tracked_rules)+
  note bodies = this
  show ?thesis
    unfolding run_def run_driven_def run_one_script_def
    apply (intro ensures_seq [where R = "\<lambda>_. tracked"] ensures_if in_scope_sweeps)
    apply (rule ensures_given; simp add: swept_def)
    apply (rule bodies)+
    done
qed

text \<open>
  A run leaves no staging file behind: on every path, whatever file was created to exchange
  records with a connector is removed after it was last created.
\<close>

lemma staging_is_swept:
  assumes "run os p options machine_start = (r, m)" "CreatedFile path \<in> set (mc_history m)"
  shows "\<exists>before after. mc_history m = before @ after \<and> CreatedFile path \<in> set before \<and>
    CreatedFile path \<notin> set after \<and> Removed path \<in> set after"
proof -
  have "mc_history machine_start = [] \<and> tracked machine_start" by (simp add: tracked_def machine_start_def)
  with ensuresD_Inr [OF run_swept] ensuresD_Inl [OF run_swept] assms(1) have "swept m"
    by (cases r) blast+
  with assms(2) show ?thesis by (simp add: swept_def)
qed

section \<open>A preview only reads\<close>

lemma preview_unsettled: "preserves unsettled (preview os p node_id requested options)"
proof -
  have stage: "preserves unsettled (preview_stage os options s u)" for s u
    unfolding preview_stage_def Let_def
    by (intro preserves_rules unsettled.keep_run_transform unsettled.keep_execute)
  have drop: "preserves unsettled (on_machine drop_receipts)"
    by (rule ensures_on_machine) (auto simp: unsettled_def drop_receipts_def)
  have "preserves unsettled (preview_body os p node_id requested options)"
    unfolding preview_body_def preview_in_session_def preview_in_one_script_def Let_def
    by (intro preserves_rules stage drop unsettled.keep_all unsettled.keep_execute)
  then show ?thesis
    unfolding preview_def ensures_def in_scope_def
    by (auto simp: drops_settle_nothing split: prod.splits sum.splits)
qed

text \<open>
  A preview is a read: whatever becomes of it, no sink delivers and no message is acknowledged.
\<close>

lemma preview_only_reads:
  assumes "preview os p node_id requested options machine_start = (r, m)"
  shows "Acknowledged label x \<notin> set (mc_history m) \<and> SinkWritten n \<notin> set (mc_history m)"
proof -
  have "unsettled m"
    using ensuresD_Inr [OF preview_unsettled machine_start_unsettled]
      ensuresD_Inl [OF preview_unsettled machine_start_unsettled] assms
    by (cases r) blast+
  then show ?thesis by (auto simp: unsettled_def)
qed

end
