(* ===== verification/Exec_Flow.thy ===== *)
theory Exec_Flow
  imports Exec_Settle
begin

text \<open>
  Which stages of a driven run run: those downstream of a failed stage are skipped and name it,
  those downstream of a branch that was not taken are skipped and name that, and the others run --
  stated over the whole graph of inputs, where the code looks one step up at a time.
\<close>

section \<open>One stage\<close>

definition upstream_failed :: "stage_outcome \<Rightarrow> bool" where
  "upstream_failed o1 \<longleftrightarrow> (\<exists>b. so_skipped o1 = Some (SkUpstreamFailed b))"

definition not_taken :: "stage_outcome \<Rightarrow> bool" where
  "not_taken o1 \<longleftrightarrow> (\<exists>b. so_skipped o1 = Some (SkNotTaken b))"

definition failed_itself :: "stage_outcome \<Rightarrow> bool" where
  "failed_itself o1 \<longleftrightarrow> so_skipped o1 = Some SkFailed"

text \<open>
  A branch that DuckDB answered no to: it has a condition, and that counted no row (or it has none to count).
  \<open>h\<close> is all that was asked of the outside before.
\<close>

definition declines :: "outside \<Rightarrow> stage \<Rightarrow> history \<Rightarrow> bool" where
  "declines os s h \<longleftrightarrow> (\<exists>c. st_control s = Some c \<and> ct_kind c = CkBranch \<and>
     (\<forall>probe. ct_probe c = Some probe \<longrightarrow>
        (\<exists>a. os_execute os h probe = Inr a \<and> Option.bind (first_of (an_values a)) first_number = Some 0)))"

text \<open>What a stage that was reached does to the state of the drive; \<open>t\<close> is whether it declined.\<close>

definition reached :: "bool \<Rightarrow> stage \<Rightarrow> drive \<Rightarrow> drive \<Rightarrow> bool" where
  "reached t s d d' \<longleftrightarrow> (\<exists>o1. dr_outcomes d' = dr_outcomes d @ [o1] \<and> so_node_id o1 = st_node_id s \<and>
     \<not> upstream_failed o1 \<and> \<not> not_taken o1 \<and>
     dr_unusable d' = dr_unusable d \<union> (if failed_itself o1 then {st_node_id s} else {}) \<and>
     dr_untaken d' = (if t then insert (st_node_id s) (dr_untaken d) else dr_untaken d))"

lemma stage_fails_reached:
  "so_skipped out = Some SkFailed \<Longrightarrow> so_node_id out = st_node_id s \<Longrightarrow>
    ensures P (stage_fails s out message shown d) (\<lambda>d' _. reached False s d d') (\<lambda>_ _. True)"
  unfolding stage_fails_def
  by (intro ensures_if ensures_yields ensures_fails)
    (auto simp: reached_def upstream_failed_def not_taken_def failed_itself_def)

lemma drive_sql_reached:
  "ensures P (drive_sql os options s t d) (\<lambda>d' _. reached False s d d') (\<lambda>_ _. True)"
proof -
  have any: "ensures P f (\<lambda>_ _. True) (\<lambda>_ _. True)" for P and f :: "('e, 'a) act"
    by (auto simp: ensures_def split: prod.splits sum.splits)
  show ?thesis
    unfolding drive_sql_def
    apply (rule ensures_seq [OF any])
    apply (rule ensures_seq [OF any])
    apply (rule ensures_sum)
     apply (rule stage_fails_reached; simp add: skipped_outcome_def)
    apply (rule ensures_yields)
    apply (auto simp: reached_def stage_ran_def stage_outcome_of_def upstream_failed_def not_taken_def
        failed_itself_def)
    done
qed

lemma reached_noted:
  "reached False s (add_note note d) d' \<Longrightarrow> reached False s d d'"
  "reached False s ((add_note note d)\<lparr> dr_untaken := insert (st_node_id s) (dr_untaken d) \<rparr>) d' \<Longrightarrow> reached True s d d'"
  by (auto simp: reached_def add_note_def)

lemma ensures_any: "ensures P f (\<lambda>_ _. True) (\<lambda>_ _. True)"
  by (auto simp: ensures_def split: prod.splits sum.splits)

lemma drive_transform_reached:
  "ensures P (drive_transform os options s t d) (\<lambda>d' _. reached False s d d') (\<lambda>_ _. True)"
  unfolding drive_transform_def
  apply (rule ensures_if)
   apply (rule ensures_seq [OF ensures_any])
   apply (rule ensures_sum)
    apply (rule stage_fails_reached; simp add: skipped_outcome_def)
   apply (rule ensures_post [OF drive_sql_reached], erule reached_noted(1), rule TrueI)
  apply (rule drive_sql_reached)
  done

lemma ensures_fact: "(b \<Longrightarrow> ensures (\<lambda>_. True) f Q E) \<Longrightarrow> ensures (\<lambda>_. b) f Q E"
  by (simp add: ensures_def)

lemma decide_declines:
  "(\<exists>note. decide s c answered = Inr (ActDoNotTake note)) \<longleftrightarrow> ct_kind c = CkBranch \<and> (answered = None \<or> answered = Some 0)"
  by (auto simp: decide_def split: control_kind.split option.split)

lemma probe_control_answers:
  assumes "probe_control os s c m = (Inr q, m1)"
  shows "case q of
      Inr answered \<Rightarrow> (case ct_probe c of None \<Rightarrow> answered = None
        | Some probe \<Rightarrow> \<exists>a number. os_execute os (mc_history m) probe = Inr a \<and>
            Option.bind (first_of (an_values a)) first_number = Some number \<and> answered = Some number)
    | Inl message \<Rightarrow> \<exists>probe a. ct_probe c = Some probe \<and> os_execute os (mc_history m) probe = Inr a \<and>
        Option.bind (first_of (an_values a)) first_number = None"
proof (cases "ct_probe c")
  case None
  with assms show ?thesis by (auto simp: probe_control_def yields_def)
next
  case (Some probe)
  note unfold = probe_control_def execute_or_fail_def session_execute_def call_def seq_def given_def yields_def Some
  show ?thesis
  proof (cases "os_execute os (mc_history m) probe")
    case (Inl e)
    with assms show ?thesis by (simp add: unfold)
  next
    case (Inr a)
    with assms show ?thesis
      by (cases "Option.bind (first_of (an_values a)) first_number") (auto simp: unfold Let_def)
  qed
qed

lemma act_control_declines:
  assumes "st_control s = Some c"
  shows "ensures (\<lambda>m. mc_history m = h) (act_control os s c)
    (\<lambda>r _. (\<exists>note. r = Inr (ActDoNotTake note)) \<longleftrightarrow> declines os s h) (\<lambda>_ _. True)"
  unfolding ensures_def
proof (intro allI impI)
  fix m :: machine
  assume h: "mc_history m = h"
  obtain r m1 where probed: "probe_control os s c m = (r, m1)" by force
  show "case act_control os s c m of (Inl e, m') \<Rightarrow> True
      | (Inr r, m') \<Rightarrow> (\<exists>note. r = Inr (ActDoNotTake note)) \<longleftrightarrow> declines os s h"
  proof (cases r)
    case (Inl e)
    then show ?thesis by (simp add: act_control_def seq_def probed)
  next
    case r: (Inr q)
    note answers = probe_control_answers [OF probed [unfolded r], unfolded h]
    show ?thesis
    proof (cases q)
      case (Inl message)
      then show ?thesis using answers r assms by (auto simp: act_control_def seq_def probed yields_def declines_def)
    next
      case q: (Inr answered)
      have "\<exists>m2. act_control os s c m = (Inr (decide s c answered), m2)"
        by (simp add: act_control_def seq_def probed yields_def call_def r q)
      moreover have "ct_kind c = CkBranch \<and> (answered = None \<or> answered = Some 0) \<longleftrightarrow> declines os s h"
        using answers q assms by (auto simp: declines_def split: option.splits)
      ultimately show ?thesis by (auto simp: decide_declines)
    qed
  qed
qed

lemma drive_control_reached:
  "ensures (\<lambda>m. mc_history m = h) (drive_control os options s t d) (\<lambda>d' _. reached (declines os s h) s d d') (\<lambda>_ _. True)"
proof (cases "st_control s")
  case None
  then have "\<not> declines os s h" by (simp add: declines_def)
  with None show ?thesis by (simp add: drive_control_def drive_transform_reached)
next
  case (Some c)
  show ?thesis
    unfolding drive_control_def Some option.case
    apply (rule ensures_seq [OF act_control_declines [OF Some]])
    apply (rule ensures_fact)
    apply (rule ensures_sum)
     apply (simp add: stage_fails_reached skipped_outcome_def)
    apply (rule ensures_action)
      apply (simp add: drive_transform_reached)
     apply (rule ensures_post [OF drive_transform_reached])
      apply (simp add: reached_noted(1))
     apply simp
    apply (rule ensures_post [OF drive_transform_reached])
     apply (simp add: reached_noted(2))
    apply simp
    done
qed

definition input_in :: "stage \<Rightarrow> str set \<Rightarrow> bool" where
  "input_in s ids \<longleftrightarrow> (\<exists>i \<in> set (st_inputs s). in_node_id i \<in> ids)"

lemma blocked_by_iff: "blocked_by s ids = None \<longleftrightarrow> \<not> input_in s ids"
  by (auto simp: blocked_by_def input_in_def find_None_iff)

definition stage_step :: "outside \<Rightarrow> history \<Rightarrow> stage \<Rightarrow> drive \<Rightarrow> drive \<Rightarrow> bool" where
  "stage_step os h s d d' \<longleftrightarrow> (\<exists>o1. dr_outcomes d' = dr_outcomes d @ [o1] \<and> so_node_id o1 = st_node_id s \<and>
     (upstream_failed o1 \<longleftrightarrow> input_in s (dr_unusable d)) \<and>
     (not_taken o1 \<longleftrightarrow> \<not> input_in s (dr_unusable d) \<and> input_in s (dr_untaken d)) \<and>
     dr_unusable d' = dr_unusable d \<union> (if failed_itself o1 \<or> upstream_failed o1 then {st_node_id s} else {}) \<and>
     dr_untaken d' = dr_untaken d \<union>
       (if not_taken o1 \<or> \<not> upstream_failed o1 \<and> declines os s h then {st_node_id s} else {}))"

lemma drive_stage_step:
  "ensures (\<lambda>m. mc_history m = h) (drive_stage os options s d) (\<lambda>d' _. stage_step os (h @ [ReadClock]) s d d') (\<lambda>_ _. True)"
proof -
  let ?d = "d\<lparr> dr_script := dr_script d @ script_of s \<rparr>"
  have up: "upstream_failed (skipped_outcome s (SkUpstreamFailed b))" "\<not> not_taken (skipped_outcome s (SkUpstreamFailed b))"
    "not_taken (skipped_outcome s (SkNotTaken b))" "\<not> upstream_failed (skipped_outcome s (SkNotTaken b))"
    "\<not> failed_itself (skipped_outcome s (SkNotTaken b))" "\<not> failed_itself (skipped_outcome s (SkUpstreamFailed b))"
    "so_node_id (skipped_outcome s r) = st_node_id s" for b r
    by (simp_all add: upstream_failed_def not_taken_def failed_itself_def skipped_outcome_def)
  have ran: "stage_step os (h @ [ReadClock]) s d d'" if "reached (declines os s (h @ [ReadClock])) s ?d d'" "\<not> input_in s (dr_unusable d)" "\<not> input_in s (dr_untaken d)" for d'
    using that by (auto simp: reached_def stage_step_def)
  show ?thesis
    unfolding drive_stage_def Let_def
    apply (rule ensures_option)
     apply (rule ensures_option)
      apply (rule ensures_seq [where R = "\<lambda>_ m. mc_history m = h @ [ReadClock]"])
       apply (simp add: ensures_def clock_def call_def)
      apply (rule ensures_post [OF drive_control_reached])
       apply (rule ran; simp add: blocked_by_iff)
      apply simp
     apply (rule ensures_yields)
     subgoal premises p for b
       using p blocked_by_iff [of s "dr_unusable d"] blocked_by_iff [of s "dr_untaken d"]
       by (auto simp: stage_step_def up)
    apply (rule ensures_yields)
    subgoal premises p for b
      using p blocked_by_iff [of s "dr_unusable d"] by (auto simp: stage_step_def up)
    done
qed

lemma drive_stage_steps: "ensures P (drive_stage os options s d) (\<lambda>d' _. \<exists>h. stage_step os h s d d') (\<lambda>_ _. True)"
  unfolding ensures_def
proof (intro allI impI)
  fix m
  show "case drive_stage os options s d m of (Inl e, m') \<Rightarrow> True | (Inr d', m') \<Rightarrow> \<exists>h. stage_step os h s d d'"
    using ensuresD_Inr [OF drive_stage_step [of "mc_history m" os options s d] refl]
    by (fastforce split: prod.splits sum.splits)
qed

section \<open>All the stages\<close>

definition ids :: "stage list \<Rightarrow> str list" where
  "ids ss = map st_node_id ss"

definition inputs_first :: "stage list \<Rightarrow> bool" where
  "inputs_first ss \<longleftrightarrow> (\<forall>before s after. ss = before @ s # after \<longrightarrow>
     (\<forall>i \<in> set (st_inputs s). in_node_id i \<in> set (ids before)))"

definition reads :: "stage list \<Rightarrow> (str \<times> str) set" where
  "reads ss = {(in_node_id i, st_node_id s) | s i. s \<in> set ss \<and> i \<in> set (st_inputs s)}"

text \<open>Where an outcome stands, seen from a later state of the drive.\<close>

definition placed :: "drive \<Rightarrow> stage \<Rightarrow> stage_outcome \<Rightarrow> bool" where
  "placed d s o1 \<longleftrightarrow> so_node_id o1 = st_node_id s \<and>
     (upstream_failed o1 \<longleftrightarrow> input_in s (dr_unusable d)) \<and>
     (not_taken o1 \<longleftrightarrow> \<not> input_in s (dr_unusable d) \<and> input_in s (dr_untaken d)) \<and>
     (st_node_id s \<in> dr_unusable d \<longleftrightarrow> failed_itself o1 \<or> upstream_failed o1) \<and>
     (not_taken o1 \<longrightarrow> st_node_id s \<in> dr_untaken d)"

definition walked :: "stage list \<Rightarrow> drive \<Rightarrow> bool" where
  "walked before d \<longleftrightarrow> list_all2 (placed d) before (dr_outcomes d) \<and>
     dr_unusable d \<subseteq> set (ids before) \<and> dr_untaken d \<subseteq> set (ids before)"

lemma input_in_cong:
  "(\<And>i. i \<in> set (st_inputs s) \<Longrightarrow> in_node_id i \<in> A \<longleftrightarrow> in_node_id i \<in> B) \<Longrightarrow> input_in s A = input_in s B"
  by (auto simp: input_in_def)

lemma walked_step:
  assumes "walked before d" "stage_step os h s d d'" "distinct (ids (before @ [s]))"
    and "inputs_first (before @ [s])"
  shows "walked (before @ [s]) d'"
proof -
  from assms(2) obtain o1 where o1: "dr_outcomes d' = dr_outcomes d @ [o1]" "so_node_id o1 = st_node_id s"
    "upstream_failed o1 \<longleftrightarrow> input_in s (dr_unusable d)"
    "not_taken o1 \<longleftrightarrow> \<not> input_in s (dr_unusable d) \<and> input_in s (dr_untaken d)"
    "dr_unusable d' = dr_unusable d \<union> (if failed_itself o1 \<or> upstream_failed o1 then {st_node_id s} else {})"
    and untaken: "dr_untaken d' = dr_untaken d \<union>
       (if not_taken o1 \<or> \<not> upstream_failed o1 \<and> declines os s h then {st_node_id s} else {})"
    unfolding stage_step_def by blast
  have o1': "not_taken o1 \<longrightarrow> st_node_id s \<in> dr_untaken d'" "dr_untaken d \<subseteq> dr_untaken d'"
    "dr_untaken d' \<subseteq> insert (st_node_id s) (dr_untaken d)"
    using untaken by auto
  note o1 = o1 o1'
  let ?new = "st_node_id s"
  from assms(3) have new: "?new \<notin> set (ids before)" by (simp add: ids_def)
  have same: "x \<in> dr_unusable d' \<longleftrightarrow> x \<in> dr_unusable d" "x \<in> dr_untaken d' \<longleftrightarrow> x \<in> dr_untaken d" if "x \<noteq> ?new" for x
    using o1(5,7,8) that by (auto split: if_splits)
  have earlier: "in_node_id i \<noteq> ?new" if "t \<in> set (before @ [s])" "i \<in> set (st_inputs t)" for t i
  proof -
    from that(1) obtain us vs where split: "before @ [s] = us @ t # vs" by (meson split_list)
    with assms(4) that(2) have "in_node_id i \<in> set (ids us)" by (auto simp: inputs_first_def)
    moreover from split have "set us \<subseteq> set before"
      by (cases vs rule: rev_cases) auto
    ultimately show ?thesis using new by (auto simp: ids_def)
  qed
  have inputs: "input_in t (dr_unusable d') = input_in t (dr_unusable d)"
    "input_in t (dr_untaken d') = input_in t (dr_untaken d)" if "t \<in> set (before @ [s])" for t
    using earlier [OF that] same by (auto intro!: input_in_cong)
  have "list_all2 (placed d') before (dr_outcomes d)"
  proof (rule list.rel_mono_strong [OF assms(1) [unfolded walked_def, THEN conjunct1]])
    fix t o2
    assume t: "t \<in> set before"
    with new have "st_node_id t \<noteq> ?new" by (metis ids_def image_eqI list.set_map)
    with inputs [of t] same [of "st_node_id t"] t show "placed d t o2 \<Longrightarrow> placed d' t o2"
      by (simp add: placed_def)
  qed
  moreover have "placed d' s o1"
  proof -
    have "?new \<notin> dr_unusable d" using assms(1) new by (auto simp: walked_def)
    with o1(2-6) inputs [of s] show ?thesis by (simp add: placed_def)
  qed
  ultimately have "list_all2 (placed d') (before @ [s]) (dr_outcomes d')"
    unfolding o1(1) by (intro list_all2_appendI) simp_all
  moreover have "dr_unusable d' \<subseteq> set (ids (before @ [s]))" "dr_untaken d' \<subseteq> set (ids (before @ [s]))"
    using assms(1) o1(5,8) by (auto simp: walked_def ids_def split: if_splits)
  ultimately show ?thesis by (simp add: walked_def)
qed

lemma inputs_first_prefix:
  assumes "inputs_first (before @ after)"
  shows "inputs_first before"
  unfolding inputs_first_def
proof (intro allI impI)
  fix us s vs
  assume "before = us @ s # vs"
  then have "before @ after = us @ s # (vs @ after)" by simp
  with assms show "\<forall>i\<in>set (st_inputs s). in_node_id i \<in> set (ids us)"
    unfolding inputs_first_def by blast
qed

lemma walked_all:
  assumes "distinct (ids (before @ ss))" "inputs_first (before @ ss)" "walked before d"
  shows "ensures P (for_each (drive_stage os options) ss d) (\<lambda>d' _. walked (before @ ss) d') (\<lambda>_ _. True)"
  using assms
proof (induction ss arbitrary: before d P)
  case Nil
  then show ?case by (simp add: ensures_yields)
next
  case (Cons s ss)
  have first: "inputs_first (before @ [s])"
    using Cons.prems(2) inputs_first_prefix [of "before @ [s]" ss] by simp
  have "distinct (ids (before @ [s]))" using Cons.prems(1) by (auto simp: ids_def)
  note step = walked_step [OF Cons.prems(3) _ this first]
  have "ensures (\<lambda>m. \<exists>h. stage_step os h s d d1) (for_each (drive_stage os options) ss d1)
      (\<lambda>d' _. walked (before @ s # ss) d') (\<lambda>_ _. True)" for d1
  proof (rule ensures_fact)
    assume "\<exists>h. stage_step os h s d d1"
    then obtain h where "stage_step os h s d d1" by blast
    from Cons.IH [OF _ _ step [OF this]] Cons.prems(1,2)
    show "ensures (\<lambda>_. True) (for_each (drive_stage os options) ss d1) (\<lambda>d' _. walked (before @ s # ss) d') (\<lambda>_ _. True)" by simp
  qed
  then show ?case
    unfolding for_each.simps by (rule ensures_seq [OF drive_stage_steps])
qed

lemma walked_start: "walked [] (drive_start told)"
  by (simp add: walked_def drive_start_def)

lemma walked_stage:
  assumes "walked ss d" "s \<in> set ss" "distinct (ids ss)" "o1 \<in> set (dr_outcomes d)" "so_node_id o1 = st_node_id s"
  shows "upstream_failed o1 \<longleftrightarrow> input_in s (dr_unusable d)"
    and "not_taken o1 \<longleftrightarrow> \<not> input_in s (dr_unusable d) \<and> input_in s (dr_untaken d)"
    and "st_node_id s \<in> dr_unusable d \<longleftrightarrow> failed_itself o1 \<or> upstream_failed o1"
    and "not_taken o1 \<longrightarrow> st_node_id s \<in> dr_untaken d"
proof -
  note all = assms(1) [unfolded walked_def, THEN conjunct1]
  from assms(4) obtain k where k: "k < length (dr_outcomes d)" "dr_outcomes d ! k = o1"
    by (auto simp: in_set_conv_nth)
  with all have len: "k < length ss" by (auto dest: list_all2_lengthD)
  from list_all2_nthD [OF all len] k(2) assms(5) have "st_node_id (ss ! k) = st_node_id s"
    by (simp add: placed_def)
  with assms(2,3) len have "ss ! k = s"
    unfolding ids_def by (metis distinct_map inj_onD nth_mem)
  with list_all2_nthD [OF all len] k(2)
  show "upstream_failed o1 \<longleftrightarrow> input_in s (dr_unusable d)"
    and "not_taken o1 \<longleftrightarrow> \<not> input_in s (dr_unusable d) \<and> input_in s (dr_untaken d)"
    and "st_node_id s \<in> dr_unusable d \<longleftrightarrow> failed_itself o1 \<or> upstream_failed o1"
    and "not_taken o1 \<longrightarrow> st_node_id s \<in> dr_untaken d"
    by (simp_all add: placed_def)
qed

lemma walked_outcome:
  assumes "walked ss d" "s \<in> set ss"
  obtains o1 where "o1 \<in> set (dr_outcomes d)" "so_node_id o1 = st_node_id s"
proof -
  note all = assms(1) [unfolded walked_def, THEN conjunct1]
  from assms(2) obtain k where k: "k < length ss" "ss ! k = s" by (auto simp: in_set_conv_nth)
  with list_all2_lengthD [OF all] have "dr_outcomes d ! k \<in> set (dr_outcomes d)" by simp
  moreover from list_all2_nthD [OF all k(1)] k(2) have "so_node_id (dr_outcomes d ! k) = st_node_id s"
    by (simp add: placed_def)
  ultimately show thesis by (rule that)
qed

definition failed_ids :: "drive \<Rightarrow> str set" where
  "failed_ids d = so_node_id ` {o1 \<in> set (dr_outcomes d). failed_itself o1}"

lemma input_in_reads:
  "s \<in> set ss \<Longrightarrow> distinct (ids ss) \<Longrightarrow> input_in s A \<longleftrightarrow> (\<exists>u \<in> A. (u, st_node_id s) \<in> reads ss)"
  unfolding input_in_def reads_def ids_def by (auto simp: distinct_map inj_on_def)

section \<open>The whole graph\<close>

lemma walked_owner:
  assumes "walked ss d" "o1 \<in> set (dr_outcomes d)"
  obtains t where "t \<in> set ss" "placed d t o1"
proof -
  note all = assms(1) [unfolded walked_def, THEN conjunct1]
  from assms(2) obtain k where k: "k < length (dr_outcomes d)" "dr_outcomes d ! k = o1"
    by (auto simp: in_set_conv_nth)
  with list_all2_lengthD [OF all] have len: "k < length ss" by simp
  with list_all2_nthD [OF all len] k(2) that show thesis by (metis nth_mem)
qed

lemma unusable_down:
  assumes "walked ss d" "distinct (ids ss)" "u \<in> dr_unusable d" "(u, y) \<in> reads ss"
  shows "y \<in> dr_unusable d"
proof -
  from assms(4) obtain t where t: "t \<in> set ss" "y = st_node_id t" by (auto simp: reads_def)
  with assms(2-4) have "input_in t (dr_unusable d)" by (auto simp: input_in_reads)
  moreover from walked_outcome [OF assms(1) t(1)] obtain o1 where
    "o1 \<in> set (dr_outcomes d)" "so_node_id o1 = st_node_id t" .
  ultimately show ?thesis using walked_stage [OF assms(1) t(1) assms(2)] t(2) by blast
qed

lemma failed_unusable:
  assumes "walked ss d" "u \<in> failed_ids d"
  shows "u \<in> dr_unusable d"
proof -
  from assms(2) obtain o1 where o1: "o1 \<in> set (dr_outcomes d)" "failed_itself o1" "so_node_id o1 = u"
    by (auto simp: failed_ids_def)
  from walked_owner [OF assms(1) o1(1)] obtain t where "placed d t o1" .
  with o1 show ?thesis by (auto simp: placed_def)
qed

lemma unusable_from_failed:
  assumes "walked ss d" "distinct (ids ss)" "inputs_first ss"
  shows "before @ s # after = ss \<Longrightarrow> st_node_id s \<in> dr_unusable d \<Longrightarrow>
    \<exists>u \<in> failed_ids d. (u, st_node_id s) \<in> (reads ss)\<^sup>*"
proof (induction "length before" arbitrary: before s after rule: less_induct)
  case less
  have s: "s \<in> set ss" using less.prems(1) by auto
  from walked_outcome [OF assms(1) s] obtain o1 where
    o1: "o1 \<in> set (dr_outcomes d)" "so_node_id o1 = st_node_id s" .
  note facts = walked_stage [OF assms(1) s assms(2) o1]
  show ?case
  proof (cases "failed_itself o1")
    case True
    with o1 show ?thesis by (auto simp: failed_ids_def)
  next
    case False
    with facts(1,3) less.prems(2) obtain i where
      i: "i \<in> set (st_inputs s)" "in_node_id i \<in> dr_unusable d" by (auto simp: input_in_def)
    have "in_node_id i \<in> set (ids before)"
      using assms(3) less.prems(1) i(1) unfolding inputs_first_def by blast
    then obtain t where t: "t \<in> set before" "in_node_id i = st_node_id t" by (auto simp: ids_def)
    from t(1) obtain us vs where before: "before = us @ t # vs" by (meson split_list)
    have edge: "(st_node_id t, st_node_id s) \<in> reads ss" using s i(1) t(2) by (force simp: reads_def)
    have "\<exists>u \<in> failed_ids d. (u, st_node_id t) \<in> (reads ss)\<^sup>*"
      by (rule less.hyps [of us t "vs @ s # after"]) (use before t i(2) less.prems(1) in auto)
    with edge show ?thesis by (meson rtrancl_into_rtrancl)
  qed
qed

lemma unusable_iff:
  assumes "walked ss d" "distinct (ids ss)" "inputs_first ss" "s \<in> set ss"
  shows "st_node_id s \<in> dr_unusable d \<longleftrightarrow> (\<exists>u \<in> failed_ids d. (u, st_node_id s) \<in> (reads ss)\<^sup>*)"
proof
  assume "st_node_id s \<in> dr_unusable d"
  moreover from assms(4) obtain before after where "before @ s # after = ss" by (metis split_list)
  ultimately show "\<exists>u \<in> failed_ids d. (u, st_node_id s) \<in> (reads ss)\<^sup>*"
    by (rule unusable_from_failed [OF assms(1-3), rotated])
next
  assume "\<exists>u \<in> failed_ids d. (u, st_node_id s) \<in> (reads ss)\<^sup>*"
  then obtain u where u: "u \<in> dr_unusable d" "(u, st_node_id s) \<in> (reads ss)\<^sup>*"
    using failed_unusable [OF assms(1)] by blast
  from u(2,1) show "st_node_id s \<in> dr_unusable d"
    by (induction rule: rtrancl_induct) (use unusable_down [OF assms(1,2)] in blast)+
qed

lemma taken_step:
  assumes "walked ss d" "distinct (ids ss)" "(u, y) \<in> reads ss" "u \<in> dr_untaken d" "y \<notin> dr_unusable d"
  shows "y \<in> dr_untaken d"
proof -
  from assms(3) obtain t where t: "t \<in> set ss" "y = st_node_id t" by (auto simp: reads_def)
  from walked_outcome [OF assms(1) t(1)] obtain o1 where
    o1: "o1 \<in> set (dr_outcomes d)" "so_node_id o1 = st_node_id t" .
  note facts = walked_stage [OF assms(1) t(1) assms(2) o1]
  from assms(5) t(2) facts(1,3) have "\<not> input_in t (dr_unusable d)" by blast
  moreover have "input_in t (dr_untaken d)" using assms(2-4) t by (auto simp: input_in_reads)
  ultimately show ?thesis using facts(2,4) t(2) by blast
qed

lemma untaken_down:
  assumes "walked ss d" "distinct (ids ss)" "(u, y) \<in> (reads ss)\<^sup>+" "u \<in> dr_untaken d" "y \<notin> dr_unusable d"
  shows "y \<in> dr_untaken d"
  using assms(3,5)
proof (induction rule: trancl_induct)
  case (base y)
  then show ?case using taken_step [OF assms(1,2) base(1) assms(4)] by blast
next
  case (step y z)
  then show ?case using unusable_down [OF assms(1,2)] taken_step [OF assms(1,2)] by blast
qed

lemma failed_above:
  assumes "walked ss d" "distinct (ids ss)" "inputs_first ss" "s \<in> set ss" "o1 \<in> set (dr_outcomes d)" "so_node_id o1 = st_node_id s"
  shows "upstream_failed o1 \<longleftrightarrow> (\<exists>u \<in> failed_ids d. (u, st_node_id s) \<in> (reads ss)\<^sup>+)"
proof
  note facts = walked_stage [OF assms(1,4,2,5,6)]
  assume "upstream_failed o1"
  with facts(1) assms(2,4) obtain y where y: "y \<in> dr_unusable d" "(y, st_node_id s) \<in> reads ss"
    by (auto simp: input_in_reads)
  moreover from y(1) assms(1) obtain t where "t \<in> set ss" "y = st_node_id t"
    by (auto simp: walked_def ids_def)
  ultimately obtain u where "u \<in> failed_ids d" "(u, y) \<in> (reads ss)\<^sup>*"
    using unusable_iff [OF assms(1-3)] by blast
  with y(2) show "\<exists>u \<in> failed_ids d. (u, st_node_id s) \<in> (reads ss)\<^sup>+"
    by (blast intro: rtrancl_into_trancl1)
next
  note facts = walked_stage [OF assms(1,4,2,5,6)]
  assume "\<exists>u \<in> failed_ids d. (u, st_node_id s) \<in> (reads ss)\<^sup>+"
  then obtain u y where "u \<in> failed_ids d" "(u, y) \<in> (reads ss)\<^sup>*" "(y, st_node_id s) \<in> reads ss"
    using tranclD2 by fast
  moreover from this(2) have "y \<in> dr_unusable d"
    by (induction rule: rtrancl_induct)
      (use failed_unusable [OF assms(1) \<open>u \<in> failed_ids d\<close>] unusable_down [OF assms(1,2)] in blast)+
  ultimately show "upstream_failed o1" using facts(1) assms(2,4) by (auto simp: input_in_reads)
qed

section \<open>What the branches decided\<close>

text \<open>
  The turn of a stage: what had been asked of the outside when it came, after the stages before it and the
  reading of the clock. A branch said no when it declined at its turn.
\<close>

definition said_no :: "outside \<Rightarrow> run_options \<Rightarrow> stage list \<Rightarrow> str list \<Rightarrow> machine \<Rightarrow> stage \<Rightarrow> bool" where
  "said_no os options ss told m g \<longleftrightarrow> (\<exists>before after d1 m1. ss = before @ g # after \<and>
     for_each (drive_stage os options) before (drive_start told) m = (Inr d1, m1) \<and> declines os g (mc_history m1 @ [ReadClock]))"

lemma for_each_append: "for_each f (xs @ ys) a = seq (for_each f xs a) (for_each f ys)"
proof (induction xs arbitrary: a)
  case Nil
  show ?case by (simp add: seq_def yields_def)
next
  case (Cons x xs)
  then show ?case by (auto simp: seq_def fun_eq_iff split: prod.splits sum.splits)
qed

lemma later_stages:
  assumes "for_each (drive_stage os options) after d2 m2 = (Inr d, m')"
  shows "dr_untaken d2 \<subseteq> dr_untaken d \<and> dr_untaken d \<subseteq> dr_untaken d2 \<union> set (ids after) \<and> set (dr_outcomes d2) \<subseteq> set (dr_outcomes d)"
  using assms
proof (induction after arbitrary: d2 m2)
  case (Cons s after)
  obtain d3 m3 where one: "drive_stage os options s d2 m2 = (Inr d3, m3)" "for_each (drive_stage os options) after d3 m3 = (Inr d, m')"
    using Cons.prems by (auto simp: seq_def split: prod.splits sum.splits)
  from ensuresD_Inr [OF drive_stage_steps [where P = "\<lambda>_. True"] TrueI one(1)] obtain h where "stage_step os h s d2 d3" by blast
  then have "dr_untaken d2 \<subseteq> dr_untaken d3" "dr_untaken d3 \<subseteq> insert (st_node_id s) (dr_untaken d2)"
    "set (dr_outcomes d2) \<subseteq> set (dr_outcomes d3)"
    by (auto simp: stage_step_def split: if_splits)
  with Cons.IH [OF one(2)] show ?case by (auto simp: ids_def)
qed (simp add: yields_def)

text \<open>A stage is in what was not taken when it was itself not taken, or was reached and said no.\<close>

lemma untaken_id:
  assumes "for_each (drive_stage os options) ss (drive_start told) m = (Inr d, m')" "distinct (ids ss)" "inputs_first ss"
    "s \<in> set ss" "o1 \<in> set (dr_outcomes d)" "so_node_id o1 = st_node_id s"
  shows "st_node_id s \<in> dr_untaken d \<longleftrightarrow> not_taken o1 \<or> \<not> upstream_failed o1 \<and> said_no os options ss told m s"
proof -
  have walked: "walked ss d"
    using walked_all [of "[]" ss "drive_start told" "\<lambda>_. True" os options] assms(1-3) walked_start by (auto dest: ensuresD_Inr)
  from assms(4) obtain before after where ss: "ss = before @ s # after" by (metis split_list)
  obtain d1 m1 where first: "for_each (drive_stage os options) before (drive_start told) m = (Inr d1, m1)"
    using assms(1) by (auto simp: ss for_each_append seq_def split: prod.splits sum.splits)
  then obtain d2 m2 where one: "drive_stage os options s d1 m1 = (Inr d2, m2)"
    and rest: "for_each (drive_stage os options) after d2 m2 = (Inr d, m')"
    using assms(1) by (auto simp: ss for_each_append seq_def split: prod.splits sum.splits)
  from ensuresD_Inr [OF drive_stage_step [of "mc_history m1"] refl one] obtain o2 where
    o2: "dr_outcomes d2 = dr_outcomes d1 @ [o2]" "so_node_id o2 = st_node_id s" "dr_untaken d2 = dr_untaken d1 \<union>
       (if not_taken o2 \<or> \<not> upstream_failed o2 \<and> declines os s (mc_history m1 @ [ReadClock]) then {st_node_id s} else {})"
    by (auto simp: stage_step_def)
  have "walked before d1"
    using walked_all [of "[]" before "drive_start told" "\<lambda>_. True" os options] assms(2,3) walked_start first inputs_first_prefix [of before]
    by (auto simp: ss ids_def dest: ensuresD_Inr)
  then have "st_node_id s \<notin> dr_untaken d1" using assms(2) by (auto simp: walked_def ss ids_def)
  moreover have "st_node_id s \<in> dr_untaken d \<longleftrightarrow> st_node_id s \<in> dr_untaken d2"
    using later_stages [OF rest] assms(2) by (auto simp: ss ids_def)
  moreover have "o2 \<in> set (dr_outcomes d)" using later_stages [OF rest] o2(1) by auto
  then have "not_taken o2 \<longleftrightarrow> not_taken o1" "upstream_failed o2 \<longleftrightarrow> upstream_failed o1"
    using walked_stage(1,2) [OF walked assms(4,2)] assms(5,6) o2(2) by blast+
  moreover have "said_no os options ss told m s \<longleftrightarrow> declines os s (mc_history m1 @ [ReadClock])"
  proof
    assume "said_no os options ss told m s"
    then obtain before' after' d1' m1' where other: "ss = before' @ s # after'"
      "for_each (drive_stage os options) before' (drive_start told) m = (Inr d1', m1')" "declines os s (mc_history m1' @ [ReadClock])"
      by (auto simp: said_no_def)
    have "distinct ss" using assms(2) by (simp add: ids_def distinct_map)
    then have "s \<notin> set before" "s \<notin> set after" by (simp_all add: ss)
    with ss other(1) have "before' = before" using append_Cons_eq_iff [of s before after before' after'] by simp
    with first other(2,3) show "declines os s (mc_history m1 @ [ReadClock])" by simp
  qed (use ss first in \<open>auto simp: said_no_def\<close>)
  ultimately show ?thesis using o2(3) by auto
qed

lemma untaken_from_no:
  assumes "for_each (drive_stage os options) ss (drive_start told) m = (Inr d, m')" "distinct (ids ss)" "inputs_first ss"
  shows "before @ s # after = ss \<Longrightarrow> st_node_id s \<in> dr_untaken d \<Longrightarrow>
    \<exists>g \<in> set ss. said_no os options ss told m g \<and> (st_node_id g, st_node_id s) \<in> (reads ss)\<^sup>*"
proof (induction "length before" arbitrary: before s after rule: less_induct)
  case less
  have walked: "walked ss d"
    using walked_all [of "[]" ss "drive_start told" "\<lambda>_. True" os options] assms walked_start by (auto dest: ensuresD_Inr)
  have s: "s \<in> set ss" using less.prems(1) by auto
  from walked_outcome [OF walked s] obtain o1 where
    o1: "o1 \<in> set (dr_outcomes d)" "so_node_id o1 = st_node_id s" .
  note facts = walked_stage [OF walked s assms(2) o1]
  show ?case
  proof (cases "not_taken o1")
    case False
    with untaken_id [OF assms s o1] less.prems(2) s show ?thesis by blast
  next
    case True
    with facts(2) obtain i where i: "i \<in> set (st_inputs s)" "in_node_id i \<in> dr_untaken d" by (auto simp: input_in_def)
    have "in_node_id i \<in> set (ids before)"
      using assms(3) less.prems(1) i(1) unfolding inputs_first_def by blast
    then obtain t where t: "t \<in> set before" "in_node_id i = st_node_id t" by (auto simp: ids_def)
    from t(1) obtain us vs where before: "before = us @ t # vs" by (meson split_list)
    have edge: "(st_node_id t, st_node_id s) \<in> reads ss" using s i(1) t(2) by (force simp: reads_def)
    have "\<exists>g \<in> set ss. said_no os options ss told m g \<and> (st_node_id g, st_node_id t) \<in> (reads ss)\<^sup>*"
      by (rule less.hyps [of us t "vs @ s # after"]) (use before t i(2) less.prems(1) in auto)
    with edge show ?thesis by (meson rtrancl_into_rtrancl)
  qed
qed

text \<open>
  C28: Nothing runs on what is not there, and nothing else is held back: at the end of a driven run a
  stage is reported as skipped for a failure exactly when a stage that failed is among its
  ancestors, and as not taken exactly when no ancestor failed and one is a branch that was answered no: what
  DuckDB said to its condition, when its turn came, counted no row.
\<close>

theorem skipped_exactly_downstream:
  assumes "for_each (drive_stage os options) ss (drive_start told) m = (Inr d, m')"
    and "distinct (ids ss)" "inputs_first ss" "s \<in> set ss"
    and "o1 \<in> set (dr_outcomes d)" "so_node_id o1 = st_node_id s"
  shows "(upstream_failed o1 \<longleftrightarrow> (\<exists>u \<in> failed_ids d. (u, st_node_id s) \<in> (reads ss)\<^sup>+)) \<and>
    (not_taken o1 \<longleftrightarrow> (\<forall>u \<in> failed_ids d. (u, st_node_id s) \<notin> (reads ss)\<^sup>+) \<and>
       (\<exists>g \<in> set ss. said_no os options ss told m g \<and> (st_node_id g, st_node_id s) \<in> (reads ss)\<^sup>+))"
proof (rule conjI)
  from walked_all [of "[]" ss "drive_start told" "\<lambda>_. True" os options] assms(1-3) walked_start
  have walked: "walked ss d" by (auto dest: ensuresD_Inr)
  note facts = walked_stage [OF walked assms(4,2,5,6)]
  show up: "upstream_failed o1 \<longleftrightarrow> (\<exists>u \<in> failed_ids d. (u, st_node_id s) \<in> (reads ss)\<^sup>+)"
    by (rule failed_above [OF walked assms(2-6)])
  have "not_taken o1 \<longleftrightarrow> \<not> upstream_failed o1 \<and>
      (\<exists>g \<in> set ss. said_no os options ss told m g \<and> (st_node_id g, st_node_id s) \<in> (reads ss)\<^sup>+)"
  proof
    assume "not_taken o1"
    with facts(1,2) obtain i where i: "\<not> upstream_failed o1" "i \<in> set (st_inputs s)" "in_node_id i \<in> dr_untaken d"
      by (auto simp: input_in_def)
    then obtain y where y: "(st_node_id y, st_node_id s) \<in> reads ss" "st_node_id y \<in> dr_untaken d" "y \<in> set ss"
    proof -
      from i(3) walked obtain y where "y \<in> set ss" "in_node_id i = st_node_id y" by (auto simp: walked_def ids_def)
      moreover from this i(2) assms(4) have "(st_node_id y, st_node_id s) \<in> reads ss" by (force simp: reads_def)
      ultimately show ?thesis using i(3) that by simp
    qed
    then obtain before after where "before @ y # after = ss" by (metis split_list)
    from untaken_from_no [OF assms(1-3) this y(2)] y(1) i(1) show "\<not> upstream_failed o1 \<and>
      (\<exists>g \<in> set ss. said_no os options ss told m g \<and> (st_node_id g, st_node_id s) \<in> (reads ss)\<^sup>+)"
      by (meson rtrancl_into_trancl1)
  next
    assume "\<not> upstream_failed o1 \<and> (\<exists>g \<in> set ss. said_no os options ss told m g \<and> (st_node_id g, st_node_id s) \<in> (reads ss)\<^sup>+)"
    then obtain g where g: "\<not> upstream_failed o1" "g \<in> set ss" "said_no os options ss told m g" "(st_node_id g, st_node_id s) \<in> (reads ss)\<^sup>+"
      by blast
    from walked_outcome [OF walked g(2)] obtain o2 where o2: "o2 \<in> set (dr_outcomes d)" "so_node_id o2 = st_node_id g" .
    have "\<not> upstream_failed o2"
      using failed_above [OF walked assms(2,3) g(2) o2] up g(1,4) by (meson trancl_trans)
    then have untaken: "st_node_id g \<in> dr_untaken d" using untaken_id [OF assms(1-3) g(2) o2] g(3) by blast
    from g(4) obtain y where y: "(st_node_id g, y) \<in> (reads ss)\<^sup>*" "(y, st_node_id s) \<in> reads ss" using tranclD2 by metis
    have ok: "\<not> input_in s (dr_unusable d)" using g(1) facts(1) by simp
    with y(2) assms(2,4) have "y \<notin> dr_unusable d" by (auto simp: input_in_reads)
    with untaken_down [OF walked assms(2)] untaken y(1) have "y \<in> dr_untaken d" by (metis rtranclD)
    with facts(2) ok y(2) assms(2,4) show "not_taken o1" by (auto simp: input_in_reads)
  qed
  with up show "not_taken o1 \<longleftrightarrow> (\<forall>u \<in> failed_ids d. (u, st_node_id s) \<notin> (reads ss)\<^sup>+) \<and>
       (\<exists>g \<in> set ss. said_no os options ss told m g \<and> (st_node_id g, st_node_id s) \<in> (reads ss)\<^sup>+)" by blast
qed

end
