(* ===== verification/Params_Facts.thy ===== *)
theory Params_Facts
  imports Params Plan_Order
begin

text \<open>
  What substitution promises: it is one pass over the pieces of the text, a doubled dollar is a
  dollar, nothing but properties changes, and no secret reaches what is recorded or shown -- and
  where resolving a document in two steps, at build time and again where it runs, breaks these.
\<close>

section \<open>One pass over the pieces\<close>

datatype text_piece = Plain str | Dollar | Reference str

fun render_text_piece :: "text_piece \<Rightarrow> str" where
  "render_text_piece (Plain t) = t"
| "render_text_piece Dollar = ''$$''"
| "render_text_piece (Reference r) = ''${'' @ r @ ''}''"

definition render_pieces :: "text_piece list \<Rightarrow> str" where
  "render_pieces ps = concat (map render_text_piece ps)"

fun text_piece_ok :: "text_piece \<Rightarrow> bool" where
  "text_piece_ok (Plain t) \<longleftrightarrow> CHR ''$'' \<notin> set t"
| "text_piece_ok Dollar \<longleftrightarrow> True"
| "text_piece_ok (Reference r) \<longleftrightarrow> CHR ''}'' \<notin> set r"

text \<open>What a template stands for: each piece on its own, the value of a reference put in as it is.\<close>

fun eval_pieces :: "(str \<Rightarrow> trace \<Rightarrow> param_error + str \<times> trace) \<Rightarrow> text_piece list \<Rightarrow> trace
    \<Rightarrow> param_error + str \<times> trace" where
  "eval_pieces one [] tr = Inr ([], tr)"
| "eval_pieces one (Plain t # ps) tr =
     and_then (eval_pieces one ps tr) (\<lambda>(out, tr'). Inr (t @ out, tr'))"
| "eval_pieces one (Dollar # ps) tr =
     and_then (eval_pieces one ps tr) (\<lambda>(out, tr'). Inr (''$'' @ out, tr'))"
| "eval_pieces one (Reference r # ps) tr =
     and_then (one r tr) (\<lambda>(v, tr1).
     and_then (eval_pieces one ps (record_use r v tr1)) (\<lambda>(out, tr'). Inr (v @ out, tr')))"

lemma and_then_prefix:
  "and_then (and_then r (\<lambda>(out, tr). Inr (a @ out, tr))) (\<lambda>(out, tr). Inr (c # out, tr)) =
     and_then r (\<lambda>(out, tr). Inr (c # a @ out, tr))"
  by (cases r) auto

lemma interpolate_char:
  "c \<noteq> CHR ''$'' \<Longrightarrow> interpolate one unclosed (c # s) tr =
     and_then (interpolate one unclosed s tr) (\<lambda>(out, tr'). Inr (c # out, tr'))"
  by (subst interpolate.simps) simp

lemma interpolate_plain:
  "CHR ''$'' \<notin> set t \<Longrightarrow> interpolate one unclosed (t @ s) tr =
     and_then (interpolate one unclosed s tr) (\<lambda>(out, tr'). Inr (t @ out, tr'))"
proof (induction t)
  case Nil
  then show ?case by (cases "interpolate one unclosed s tr") auto
next
  case (Cons c t)
  then have "c \<noteq> CHR ''$''" by auto
  with Cons show ?case by (simp add: interpolate_char and_then_prefix)
qed

lemma interpolate_dollar:
  "interpolate one unclosed (CHR ''$'' # CHR ''$'' # s) tr =
     and_then (interpolate one unclosed s tr) (\<lambda>(out, tr'). Inr (''$'' @ out, tr'))"
  by (subst interpolate.simps) simp

lemma interpolate_reference:
  assumes "CHR ''}'' \<notin> set r"
  shows "interpolate one unclosed (CHR ''$'' # CHR ''{'' # r @ CHR ''}'' # s) tr =
     and_then (one r tr) (\<lambda>(v, tr1).
     and_then (interpolate one unclosed s (record_use r v tr1)) (\<lambda>(out, tr'). Inr (v @ out, tr')))"
proof -
  have "until_close (r @ CHR ''}'' # s) = Some (r, s)"
    unfolding until_close_def by (rule split_once_append) (use assms in auto)
  then show ?thesis by (subst interpolate.simps) simp
qed

lemma interpolate_pieces:
  "list_all text_piece_ok ps \<Longrightarrow> interpolate one unclosed (render_pieces ps) tr = eval_pieces one ps tr"
proof (induction ps arbitrary: tr)
  case Nil
  then show ?case by (simp add: render_pieces_def interpolate.simps)
next
  case (Cons p ps)
  then have IH: "\<And>tr. interpolate one unclosed (concat (map render_text_piece ps)) tr = eval_pieces one ps tr"
    by (simp add: render_pieces_def)
  show ?case
  proof (cases p)
    case (Plain t)
    with Cons.prems show ?thesis by (simp add: render_pieces_def IH interpolate_plain)
  next
    case Dollar
    then show ?thesis by (simp add: render_pieces_def IH interpolate_dollar)
  next
    case (Reference r)
    with Cons.prems show ?thesis by (simp add: render_pieces_def IH interpolate_reference)
  qed
qed

text \<open>
  C34: Substitution is single-pass: a template made of plain text, doubled dollars and references
  becomes the text, single dollars and values in their places, and a value is put in as it is --
  whatever it holds, it is not looked at for references again.
\<close>

theorem substitution_is_single_pass:
  assumes "list_all text_piece_ok ps"
  shows "interpolate_text env node property r declared (render_pieces ps) tr =
    eval_pieces (resolve_one env node property r declared) ps tr"
  unfolding interpolate_text_def by (rule interpolate_pieces [OF assms])

definition example_resolver :: resolver where
  "example_resolver = rv_bind ''x'' ''${ENV:TOKEN}'' (resolver_new ''2026-01-02'' ''/w'')"

theorem substitution_is_single_pass_witness:
  "interpolate_text Map.empty ''n'' ''p'' example_resolver [] ''a $$ ${x}'' trace_default =
     Inr (''a $ ${ENV:TOKEN}'', \<lparr> tr_used = [(''x'', ''${ENV:TOKEN}'')], tr_secrets = [] \<rparr>)"
proof -
  let ?ps = "[Plain ''a '', Dollar, Plain '' '', Reference ''x'']"
  have ok: "list_all text_piece_ok ?ps" by simp
  have "render_pieces ?ps = ''a $$ ${x}''" by (simp add: render_pieces_def)
  moreover have "eval_pieces (resolve_one Map.empty ''n'' ''p'' example_resolver []) ?ps trace_default =
      Inr (''a $ ${ENV:TOKEN}'', \<lparr> tr_used = [(''x'', ''${ENV:TOKEN}'')], tr_secrets = [] \<rparr>)" by code_simp
  ultimately show ?thesis
    using substitution_is_single_pass [OF ok, of Map.empty "''n''" "''p''" example_resolver "[]" trace_default]
    by simp
qed

text \<open>
  Doubling is the escape: any text whatever, its dollars doubled, comes out of substitution as
  it was, and nothing is looked up on the way.
\<close>

lemma doubled_dollars_roundtrip:
  "interpolate_text env node property r declared (double_char (CHR ''$'') t) tr = Inr (t, tr)"
proof -
  have "interpolate one unclosed (double_char (CHR ''$'') t) tr = Inr (t, tr)" for one unclosed
  proof (induction t)
    case Nil
    then show ?case by (simp add: double_char_def interpolate.simps)
  next
    case (Cons c t)
    then show ?case
      by (cases "c = CHR ''$''")
        (simp_all add: double_char_def interpolate_dollar interpolate_char)
  qed
  then show ?thesis by (simp add: interpolate_text_def)
qed

section \<open>What is recorded\<close>

lemma interpolate_keeps:
  assumes "\<And>r tr v tr1. I tr \<Longrightarrow> one r tr = Inr (v, tr1) \<Longrightarrow> I (record_use r v tr1)"
    and "I tr" "interpolate one unclosed s tr = Inr (out, tr')"
  shows "I tr'"
  using assms
proof (induction one unclosed s tr arbitrary: out tr' rule: interpolate.induct)
  case (1 one unclosed s tr)
  note step = 1(5)
  show ?case
    using 1(6,7)
    apply (subst (asm) interpolate.simps)
    apply (auto simp: and_then_eq_Inr_iff split: list.splits if_splits option.splits)
    subgoal using 1(1) step by blast
    subgoal using 1(1) step by blast
    subgoal using 1(2) step by blast
    subgoal premises p for s2 r rest v tr1 ab
      using 1(3) [OF p(2) _ _ _ _ p(3) refl step step [OF p(1,4)] p(5)] by simp
    subgoal using 1(4) step by blast
    done
qed

definition keeps :: "env_vars \<Rightarrow> resolver \<Rightarrow> declared_params \<Rightarrow> (trace \<Rightarrow> bool) \<Rightarrow> bool" where
  "keeps env r declared I \<longleftrightarrow> (\<forall>node property reference tr v tr1. I tr \<longrightarrow>
     resolve_one env node property r declared reference tr = Inr (v, tr1) \<longrightarrow> I (record_use reference v tr1))"

lemma interpolate_text_keeps:
  "keeps env r declared I \<Longrightarrow> I tr \<Longrightarrow>
    interpolate_text env node property r declared text tr = Inr (out, tr') \<Longrightarrow> I tr'"
  unfolding interpolate_text_def
  by (rule interpolate_keeps [where I = I]) (auto simp: keeps_def)

lemma walk_keeps:
  assumes "keeps env r declared I"
  shows "I tr \<Longrightarrow> walk env node r declared property v tr = Inr (v', tr') \<Longrightarrow> I tr'"
    and "I tr \<Longrightarrow> walk_items env node r declared property vs tr = Inr (vs', tr') \<Longrightarrow> I tr'"
    and "I tr \<Longrightarrow> walk_fields env node r declared fs tr = Inr (fs', tr') \<Longrightarrow> I tr'"
  using assms
  by (induction env node r declared property v tr and env node r declared property vs tr
      and env node r declared fs tr arbitrary: v' tr' and vs' tr' and fs' tr'
      rule: walk_walk_items_walk_fields.induct)
    (auto simp: and_then_eq_Inr_iff dest: interpolate_text_keeps)

lemma resolve_nodes_keeps:
  "keeps env r declared I \<Longrightarrow> I tr \<Longrightarrow> resolve_nodes env r declared ns tr = Inr (ns', tr') \<Longrightarrow> I tr'"
proof (induction ns arbitrary: tr ns')
  case (Cons n ns)
  from Cons.prems(3) obtain n' tr1 ns2 where
    head: "(case nd_properties (pn_data n) of None \<Rightarrow> Inr (n, tr)
       | Some properties \<Rightarrow> and_then (walk env (pn_id n) r declared ''properties'' properties tr)
           (\<lambda>(v, tr'). Inr (n\<lparr> pn_data := (pn_data n)\<lparr> nd_properties := Some v \<rparr> \<rparr>, tr'))) = Inr (n', tr1)"
    and tail: "resolve_nodes env r declared ns tr1 = Inr (ns2, tr')"
    by (auto simp: and_then_eq_Inr_iff)
  have "I tr1"
  proof (cases "nd_properties (pn_data n)")
    case None
    with head Cons.prems(2) show ?thesis by simp
  next
    case (Some v)
    with head obtain w where "walk env (pn_id n) r declared ''properties'' v tr = Inr (w, tr1)"
      by (auto simp: and_then_eq_Inr_iff)
    from walk_keeps(1) [OF Cons.prems(1,2) this] show ?thesis .
  qed
  from Cons.IH [OF Cons.prems(1) this tail] show ?case .
qed simp

lemma resolve_keeps:
  assumes "resolve env d r = Inr res" "keeps env r (doc_parameters d) I" "I trace_default"
  shows "\<exists>tr. rp_used res = tr_used tr \<and> rp_secrets res = tr_secrets tr \<and> I tr"
  using assms resolve_nodes_keeps [OF assms(2,3)]
  by (fastforce simp: resolve_def and_then_eq_Inr_iff)

definition secret_reference :: "str \<Rightarrow> bool" where
  "secret_reference reference \<longleftrightarrow> strip_prefix ''SECRET:'' (trim reference) \<noteq> None"

lemma resolve_one_secret:
  assumes "resolve_one env node property r declared reference tr = Inr (v, tr1)"
  shows "secret_reference reference \<Longrightarrow> om_contains (tr_secrets tr1) v"
    and "tr_used tr1 = tr_used tr" "om_contains (tr_secrets tr) s \<Longrightarrow> om_contains (tr_secrets tr1) s"
  using assms
  by (auto simp: resolve_one_def Let_def secret_reference_def resolve_secret_def om_contains_def
      om_get_insert split: if_splits option.splits sum.splits prod.splits)

text \<open>
  What is recorded about a run names no secret: after a document is resolved, the entry of
  every reference to the secret store reads as the mask, whatever its value and however often it
  was used.
\<close>

lemma secret_uses_are_masked:
  assumes "resolve env d r = Inr res" "om_get (rp_used res) reference = Some v"
    and "secret_reference reference"
  shows "v = REDACTED"
proof -
  let ?I = "\<lambda>tr. \<forall>k v. om_get (tr_used tr) k = Some v \<longrightarrow> secret_reference k \<longrightarrow> v = REDACTED"
  have "keeps env r (doc_parameters d) ?I"
    unfolding keeps_def
    using resolve_one_secret(1,2) by (auto simp: record_use_def Let_def om_get_insert split: if_splits)
  from resolve_keeps [OF assms(1) this] assms(2,3) show ?thesis by (auto simp: trace_default_def om_get_def)
qed

text \<open>A document of one source, and a store that holds one secret.\<close>

definition one_source :: "(str, parameter_spec) om \<Rightarrow> (str \<times> json) list \<Rightarrow> pipeline_doc" where
  "one_source parameters properties = (sample_doc [])
     \<lparr> doc_nodes := [(sample_node ''a'' ''src.csv'' False)
         \<lparr> pn_data := (sample_data ''src.csv'' False)\<lparr> nd_properties := Some (JObject properties) \<rparr> \<rparr>],
       doc_parameters := parameters \<rparr>"

definition with_secret :: "resolver \<Rightarrow> resolver" where
  "with_secret r = r\<lparr> rv_secrets := Some \<lparr>
     ss_get = (\<lambda>n. if n = ''db'' then Inr (Some ''hunter2'') else Inr None), ss_names = [''db''] \<rparr> \<rparr>"

definition secret_run :: resolved_params where
  "secret_run = (case resolve Map.empty (one_source [] [(''path'', JString ''p=${SECRET:db}'')])
     (with_secret example_resolver) of Inr res \<Rightarrow> res
   | Inl _ \<Rightarrow> \<lparr> rp_document = sample_doc [], rp_warnings = [], rp_used = [], rp_secrets = [] \<rparr>)"

lemma secret_run_is:
  "resolve Map.empty (one_source [] [(''path'', JString ''p=${SECRET:db}'')])
     (with_secret example_resolver) = Inr secret_run"
  "rp_used secret_run = [(''SECRET:db'', REDACTED)]" "secret_values secret_run = [''hunter2'']"
  by (code_simp, code_simp, code_simp)

lemma secret_uses_are_masked_witness: "om_get (rp_used secret_run) ''SECRET:db'' = Some REDACTED"
proof -
  obtain v where v: "om_get (rp_used secret_run) ''SECRET:db'' = Some v"
    by (simp add: secret_run_is(2) om_get_def)
  have "secret_reference ''SECRET:db''" by code_simp
  from secret_uses_are_masked [OF secret_run_is(1) v this] v show ?thesis by simp
qed

section \<open>What is shown\<close>

definition occurs_in :: "str \<Rightarrow> str \<Rightarrow> bool" where
  "occurs_in s t \<longleftrightarrow> (\<exists>a b. t = a @ s @ b)"

definition maskless :: "str \<Rightarrow> bool" where
  "maskless s \<longleftrightarrow> CHR ''*'' \<notin> set s"

lemma occurs_in_Cons: "occurs_in s (c # t) \<longleftrightarrow> starts_with (c # t) s \<or> occurs_in s t"
  unfolding occurs_in_def starts_with_iff by (metis append_Cons append_Nil list.exhaust list.inject)

lemma occurs_after_mask:
  assumes "occurs_in s (R @ t)" "s \<noteq> []" "maskless s" "set R \<subseteq> {CHR ''*''}"
  shows "occurs_in s t"
  using assms(1,4)
proof (induction R)
  case (Cons c R)
  have "\<not> starts_with ((c # R) @ t) s"
    using assms(2,3) Cons.prems(2) by (cases s) (auto simp: starts_with_iff maskless_def)
  with Cons show ?case by (simp add: occurs_in_Cons)
qed simp

lemma replace_all_prefix:
  "replace_all pat REDACTED t = s @ b \<Longrightarrow> maskless s \<Longrightarrow> starts_with t s"
proof (induction pat REDACTED t arbitrary: s rule: replace_all.induct)
  case (2 pat c t)
  show ?case
  proof (cases s)
    case (Cons d s')
    with 2(3,4) have "\<not> (pat \<noteq> [] \<and> starts_with (c # t) pat)"
      by (auto simp: REDACTED_def maskless_def)
    with 2 Cons show ?thesis by (auto simp: starts_with_iff maskless_def)
  qed (simp add: starts_with_iff)
qed (simp add: starts_with_iff)

lemma replace_all_introduces_none:
  "occurs_in s (replace_all pat REDACTED t) \<Longrightarrow> s \<noteq> [] \<Longrightarrow> maskless s \<Longrightarrow> occurs_in s t"
proof (induction pat REDACTED t rule: replace_all.induct)
  case (2 pat c t)
  note inside = 2(1) and after = 2(2) and s = 2(4,5)
  show ?case
  proof (cases "pat \<noteq> [] \<and> starts_with (c # t) pat")
    case True
    with 2(3) have "occurs_in s (REDACTED @ replace_all pat REDACTED (drop (length pat) (c # t)))" by simp
    then have "occurs_in s (replace_all pat REDACTED (drop (length pat) (c # t)))"
      by (rule occurs_after_mask) (use s in \<open>auto simp: REDACTED_def\<close>)
    then have "occurs_in s (drop (length pat) (c # t))" by (rule inside [OF True]) (use s in auto)
    then show ?thesis
      unfolding occurs_in_def by (metis append.assoc append_take_drop_id)
  next
    case False
    with 2(3) have "occurs_in s (c # replace_all pat REDACTED t)" by simp
    then consider "starts_with (c # replace_all pat REDACTED t) s" | "occurs_in s (replace_all pat REDACTED t)"
      by (auto simp: occurs_in_Cons)
    then show ?thesis
    proof cases
      case 1
      with s(1) obtain s' b where "s = c # s'" "replace_all pat REDACTED t = s' @ b"
        by (cases s) (auto simp: starts_with_iff)
      with replace_all_prefix [of pat t s' b] s(2) have "starts_with (c # t) s"
        by (auto simp: starts_with_iff maskless_def)
      then show ?thesis by (simp add: occurs_in_Cons)
    next
      case 2
      from after [OF False this s] show ?thesis by (simp add: occurs_in_Cons)
    qed
  qed
qed simp

lemma replace_all_removes:
  "pat \<noteq> [] \<Longrightarrow> maskless pat \<Longrightarrow> \<not> occurs_in pat (replace_all pat REDACTED t)"
proof (induction pat REDACTED t rule: replace_all.induct)
  case (1 pat)
  then show ?case by (simp add: occurs_in_def)
next
  case (2 pat c t)
  note inside = 2(1) and after = 2(2) and pat = 2(3,4)
  show ?case
  proof (cases "starts_with (c # t) pat")
    case True
    with inside pat have IH: "\<not> occurs_in pat (replace_all pat REDACTED (drop (length pat) (c # t)))"
      by blast
    have "\<not> occurs_in pat (REDACTED @ replace_all pat REDACTED (drop (length pat) (c # t)))"
    proof
      assume "occurs_in pat (REDACTED @ replace_all pat REDACTED (drop (length pat) (c # t)))"
      from occurs_after_mask [OF this pat] IH show False by (simp add: REDACTED_def)
    qed
    with True pat(1) show ?thesis by simp
  next
    case False
    have "\<not> starts_with (c # replace_all pat REDACTED t) pat"
    proof
      assume "starts_with (c # replace_all pat REDACTED t) pat"
      with pat(1) obtain p b where p: "pat = c # p" "replace_all pat REDACTED t = p @ b"
        by (cases pat) (auto simp: starts_with_iff)
      with replace_all_prefix [OF p(2)] pat(2) False show False
        by (auto simp: starts_with_iff maskless_def)
    qed
    moreover from after [OF _ pat] False have "\<not> occurs_in pat (replace_all pat REDACTED t)" by blast
    ultimately show ?thesis using False by (simp add: occurs_in_Cons)
  qed
qed

lemma redact_Cons: "redact (x # xs) t = redact xs (if x \<noteq> [] then replace_all x REDACTED t else t)"
  by (simp add: redact_def)

lemma redact_introduces_none:
  "occurs_in s (redact secrets t) \<Longrightarrow> s \<noteq> [] \<Longrightarrow> maskless s \<Longrightarrow> occurs_in s t"
proof (induction secrets arbitrary: t)
  case Nil
  then show ?case by (simp add: redact_def)
next
  case (Cons x xs)
  from Cons.IH [OF _ Cons.prems(2,3)] Cons.prems(1)
  have "occurs_in s (if x \<noteq> [] then replace_all x REDACTED t else t)"
    unfolding redact_Cons by blast
  then show ?case
    using replace_all_introduces_none [OF _ Cons.prems(2,3)] by (cases "x = []") auto
qed

lemma redact_removes:
  assumes "s \<noteq> []" "maskless s"
  shows "s \<in> set secrets \<Longrightarrow> \<not> occurs_in s (redact secrets t)"
proof (induction secrets arbitrary: t)
  case (Cons x xs)
  show ?case
  proof (cases "x = s")
    case True
    have "\<not> occurs_in s (replace_all s REDACTED t)" using assms by (rule replace_all_removes)
    then have "\<not> occurs_in s (redact xs (replace_all s REDACTED t))"
      using redact_introduces_none [OF _ assms] by blast
    with True assms(1) show ?thesis by (simp add: redact_Cons)
  next
    case False
    with Cons.prems have "s \<in> set xs" by simp
    then show ?thesis unfolding redact_Cons by (rule Cons.IH)
  qed
qed simp

text \<open>
  C33: Nothing a person is shown holds a secret: after masking, none of the secrets the run used
  occurs in the text, in whatever order and however they overlap -- as long as it is not empty and
  holds no asterisk, which the mask itself is made of.
\<close>

theorem redact_hides_secrets:
  assumes "s \<in> set (secret_values r)" "s \<noteq> []" "maskless s"
  shows "\<not> occurs_in s (resolved_redact r t)"
  unfolding resolved_redact_def using assms(2,3,1) by (rule redact_removes)

theorem redact_hides_secrets_witness: "\<not> occurs_in ''hunter2'' (resolved_redact secret_run ''a hunter2 b'')"
  by (rule redact_hides_secrets) (simp_all add: secret_run_is(3) maskless_def)

text \<open>The rest of a longer secret can stay, where a shorter one is its beginning.\<close>

lemma overlapping_secret_leaks: "redact [''pass'', ''password1''] ''x=password1'' = ''x=********word1''"
  by code_simp

section \<open>Resolving twice\<close>

text \<open>
  A built artifact holds the resolved document, its parameters still declared, and resolves it again
  where it runs, with nothing bound. A required parameter that was given at build time is then
  missing.
\<close>

definition required_parameter :: parameter_spec where
  "required_parameter = \<lparr> pa_type = None, pa_required = Some True, pa_default = None,
     pa_description = None, pa_extra = [] \<rparr>"

definition build_then_run :: "env_vars \<Rightarrow> pipeline_doc \<Rightarrow> resolver \<Rightarrow> resolver \<Rightarrow> param_error + resolved_params" where
  "build_then_run env d built runs =
     and_then (resolve (\<lambda>_. None) d (defer_built_ins built)) (\<lambda>first. resolve env (rp_document first) runs)"

lemma built_artifact_refuses:
  "build_then_run Map.empty (one_source [(''x'', required_parameter)] [(''path'', JString ''${x}'')])
     (rv_bind ''x'' ''in.csv'' (resolver_new ''2026-01-02'' ''/b'')) (resolver_new ''2026-01-03'' ''/w'') =
   Inl (MissingRequired ''x'')"
  "(case resolve Map.empty (one_source [(''x'', required_parameter)] [(''path'', JString ''${x}'')])
      (defer_built_ins (rv_bind ''x'' ''in.csv'' (resolver_new ''2026-01-02'' ''/b''))) of
      Inr _ \<Rightarrow> True | Inl _ \<Rightarrow> False)"
  by (code_simp, code_simp)

text \<open>
  The second resolution also looks at the values the first put in: one that holds a reference to the
  environment is looked up there when the artifact runs.
\<close>

lemma second_resolution_rescans:
  "map_sum id (\<lambda>res. rp_used res)
     (build_then_run [''TOKEN'' \<mapsto> ''t0p''] (one_source [] [(''path'', JString ''${x}'')])
        example_resolver (resolver_new ''2026-01-03'' ''/w'')) =
   Inr [(''ENV:TOKEN'', ''t0p'')]"
  "map_sum id (\<lambda>res. rp_used res)
     (build_then_run Map.empty (one_source [] [(''path'', JString ''$${workspace}'')])
        example_resolver (resolver_new ''2026-01-03'' ''/w'')) =
   Inr [(''workspace'', ''/w'')]"
  by (code_simp, code_simp)

section \<open>The contract\<close>

lemma traverse_InrD: "traverse f xs = Inr ys \<Longrightarrow> x \<in> set xs \<Longrightarrow> \<exists>y. f x = Inr y"
  by (induction xs arbitrary: ys) (auto simp: and_then_eq_Inr_iff)

text \<open>
  A run never starts on a value that is missing, blank or of the wrong type: when a document
  resolves, every parameter it declares as required is provided by an explicit value, the active
  context, a default or a built-in and is not blank, and every provided value fits the type
  declared for it.
\<close>

lemma resolved_means_provided:
  assumes "resolve env d r = Inr res" "(name, spec) \<in> set (doc_parameters d)"
  shows "(case lookup_param r (doc_parameters d) name of
     None \<Rightarrow> \<not> is_required spec
   | Some v \<Rightarrow> (is_required spec \<longrightarrow> trim v \<noteq> []) \<and> check_type name spec v = Inr ())"
proof -
  from assms(1) obtain w where "traverse (check_parameter r (doc_parameters d)) (doc_parameters d) = Inr w"
    by (auto simp: resolve_def check_contract_def and_then_eq_Inr_iff)
  from traverse_InrD [OF this assms(2)] show ?thesis
    by (auto simp: check_parameter_def Let_def and_then_eq_Inr_iff split: option.splits if_splits)
qed

lemma resolved_means_provided_witness:
  "lookup_param example_resolver [(''x'', required_parameter)] ''x'' \<noteq> None"
proof -
  have "\<not> isl (resolve Map.empty (one_source [(''x'', required_parameter)] []) example_resolver)"
    by code_simp
  then obtain res where
    "resolve Map.empty (one_source [(''x'', required_parameter)] []) example_resolver = Inr res"
    by (auto simp: isl_def) (metis obj_sumE)
  from resolved_means_provided [OF this, of "''x''" required_parameter] show ?thesis
    by (auto simp: one_source_def is_required_def required_parameter_def split: option.splits)
qed

end
