(* ===== verification/Exec_Counts.thy ===== *)
theory Exec_Counts
  imports Exec_Flow Params_Facts
begin

text \<open>
  What a run reports: the retries it made and how long it waited between them, the rows of each
  stage -- the same on both paths -- and texts without the secrets it was told to mask.
\<close>

section \<open>Retries\<close>

definition extends :: "history \<Rightarrow> (event \<Rightarrow> bool) \<Rightarrow> machine \<Rightarrow> bool" where
  "extends h p m \<longleftrightarrow> (\<exists>evs. mc_history m = h @ evs \<and> list_all p evs)"

lemma extends_call: "p ev \<Longrightarrow> preserves (extends h p) (call ev answer_of)"
  by (rule ensures_call) (force simp: extends_def)

fun executing :: "event \<Rightarrow> bool" where
  "executing (Executed _) \<longleftrightarrow> True"
| "executing _ \<longleftrightarrow> False"

lemma attempt_stage_executes: "preserves (extends h executing) (attempt_stage os options s)"
proof -
  have execute: "preserves (extends h executing) (session_execute os sql)"
    "preserves (extends h executing) (execute_or_fail os sql)" for sql
    unfolding execute_or_fail_def session_execute_def by (intro preserves_rules extends_call; simp)+
  have counts: "preserves (extends h executing) (count_probes_from os s probes counts)" for probes counts
    by (induction probes arbitrary: counts) (auto simp: Let_def intro!: preserves_rules execute)
  show ?thesis
    unfolding attempt_stage_def set_memory_limit_def reset_memory_limit_def collect_watermark_def
      collect_counts_def Let_def
    by (intro preserves_rules execute counts)
qed

definition sleeps :: "history \<Rightarrow> nat list" where
  "sleeps h = filter_map (\<lambda>e. case e of Slept ms \<Rightarrow> Some ms | _ \<Rightarrow> None) h"

lemma sleeps_append: "sleeps (h @ h') = sleeps h @ sleeps h'"
  by (simp add: sleeps_def)

lemma sleeps_executing: "list_all executing evs \<Longrightarrow> sleeps evs = []"
  by (induction evs) (auto simp: sleeps_def elim: executing.elims)

lemma attempt_stage_never_sleeps:
  assumes "attempt_stage os options s m = (r, m')"
  shows "sleeps (mc_history m') = sleeps (mc_history m)"
proof -
  have "extends (mc_history m) executing m" by (simp add: extends_def)
  with ensuresD_Inr [OF attempt_stage_executes] ensuresD_Inl [OF attempt_stage_executes] assms
  have "extends (mc_history m) executing m'" by (cases r) blast+
  then show ?thesis by (auto simp: extends_def sleeps_append sleeps_executing)
qed

lemma run_stage_from_sleeps:
  "run_stage_from os options s tried m = (r, m') \<Longrightarrow> tried \<le> sp_retry_attempts (st_policy s) \<Longrightarrow>
    \<exists>k. tried \<le> k \<and> k \<le> sp_retry_attempts (st_policy s) \<and>
      sleeps (mc_history m') = sleeps (mc_history m) @ map (backoff_for (st_policy s)) [tried + 1..<k + 1] \<and>
      (\<forall>message. r = Inr (Inl message) \<longrightarrow> k = sp_retry_attempts (st_policy s))"
proof (induction os options s tried arbitrary: m rule: run_stage_from.induct)
  case (1 os options s tried)
  let ?n = "sp_retry_attempts (st_policy s)"
  obtain r1 m1 where first: "attempt_stage os options s m = (r1, m1)" by fastforce
  note quiet = attempt_stage_never_sleeps [OF first]
  show ?case
  proof (cases "\<exists>message. r1 = Inr (Inl message) \<and> \<not> ?n \<le> tried")
    case False
    with 1(2) first have "m' = m1" "\<And>message. r = Inr (Inl message) \<Longrightarrow> ?n \<le> tried"
      by (auto simp: run_stage_from.simps seq_def yields_def split: sum.splits)
    with quiet 1(3) show ?thesis by (intro exI [of _ tried]) auto
  next
    case True
    let ?m = "m1\<lparr> mc_history := mc_history m1 @ [Slept (backoff_for (st_policy s) (tried + 1))] \<rparr>"
    from True obtain message where message: "r1 = Inr (Inl message)" "\<not> ?n \<le> tried" by blast
    with 1(2) first have again: "run_stage_from os options s (tried + 1) ?m = (r, m')"
      by (subst (asm) run_stage_from.simps) (simp add: seq_def call_def)
    from 1(1) [OF message(2) again] message(2) obtain k where k: "tried + 1 \<le> k" "k \<le> ?n"
      "sleeps (mc_history m') = sleeps (mc_history ?m) @ map (backoff_for (st_policy s)) [tried + 2..<k + 1]"
      "\<forall>message. r = Inr (Inl message) \<longrightarrow> k = ?n"
      by auto
    moreover have "[tried + 1..<k + 1] = (tried + 1) # [tried + 2..<k + 1]"
      using k(1) by (simp add: upt_conv_Cons)
    ultimately show ?thesis
      using quiet by (intro exI [of _ k]) (auto simp: sleeps_append sleeps_def)
  qed
qed

text \<open>
  A stage is tried again as often as its policy allows and no more: it ends after some number of
  retries, at most the number allowed, having waited the doubling time of the policy before each;
  and it is given up as failed only when every retry has been used.
\<close>

lemma retries_are_bounded:
  "\<exists>k \<le> sp_retry_attempts (st_policy s).
     sleeps (mc_history (snd (run_stage os options s m))) =
       sleeps (mc_history m) @ map (backoff_for (st_policy s)) [1..<k + 1] \<and>
     ((\<exists>message. fst (run_stage os options s m) = Inr (Inl message)) \<longrightarrow> k = sp_retry_attempts (st_policy s))"
proof -
  obtain r m' where run: "run_stage_from os options s 0 m = (r, m')" by fastforce
  from run_stage_from_sleeps [OF this] show ?thesis by (force simp: run_stage_def run)
qed

section \<open>The same rows on both paths\<close>

definition probe_keys :: "stage list \<Rightarrow> (str \<times> bool) list" where
  "probe_keys ss = concat (map (\<lambda>s. map (\<lambda>pr. (st_node_id s, probe_is_rejected pr)) (st_counts s)) ss)"

lemma counts_by_output_keys:
  "counts_by_output p counts = map_of (rev (zip (probe_keys (pl_stages p)) counts))"
  by (simp add: counts_by_output_def probe_keys_def plan_count_probes_def map_concat comp_def)

lemma stage_counts_found:
  "distinct (map probe_is_rejected probes) \<Longrightarrow> length cs = length probes \<Longrightarrow>
    map_of (rev (zip (map (\<lambda>pr. (i, probe_is_rejected pr)) probes) cs)) (i, flag) =
    Option.bind (index_where (\<lambda>pr. probe_is_rejected pr = flag) probes) (nth_opt cs)"
proof (induction probes arbitrary: cs)
  case (Cons pr probes)
  then obtain c cs' where cs: "cs = c # cs'" "length cs' = length probes" by (cases cs) auto
  have shift: "Option.bind (map_option Suc x) (nth_opt (c # cs')) = Option.bind x (nth_opt cs')" for x
    by (cases x) (auto simp: nth_opt_def)
  have none: "probe_is_rejected pr \<notin> probe_is_rejected ` set probes" using Cons.prems(1) by simp
  have missing: "index_where (\<lambda>q. probe_is_rejected q = flag) qs = None"
    if "flag \<notin> probe_is_rejected ` set qs" for qs
    using that by (induction qs) auto
  from Cons.IH [of cs'] Cons.prems(1) cs(2) have IH:
    "map_of (rev (zip (map (\<lambda>pr. (i, probe_is_rejected pr)) probes) cs')) (i, flag) =
       Option.bind (index_where (\<lambda>pr. probe_is_rejected pr = flag) probes) (nth_opt cs')" by simp
  show ?case
  proof (cases "probe_is_rejected pr = flag")
    case True
    with none missing [of probes] IH cs(1) show ?thesis by (simp add: map_add_def nth_opt_def)
  next
    case False
    with IH cs(1) shift show ?thesis by (simp add: map_add_def split: option.splits)
  qed
qed simp

lemma other_ids_missing:
  "i \<notin> set (ids ss) \<Longrightarrow> map_of (rev (zip (probe_keys ss) counts)) (i, flag) = None"
  by (auto simp: map_of_eq_None_iff probe_keys_def ids_def dest!: set_zip_leftD)

lemma outputs_found:
  assumes "distinct (ids ss)" "list_all2 (\<lambda>s cs. length cs = length (st_counts s)) ss css"
    and "\<And>s. s \<in> set ss \<Longrightarrow> distinct (map probe_is_rejected (st_counts s))"
  shows "list_all2 (\<lambda>s cs. \<forall>flag. map_of (rev (zip (probe_keys ss) (concat css))) (st_node_id s, flag) =
    count_at s cs flag) ss css"
  using assms(2,1,3)
proof (induction ss css rule: list_all2_induct)
  case (Cons s ss cs css)
  let ?own = "map (\<lambda>pr. (st_node_id s, probe_is_rejected pr)) (st_counts s)"
  have zip: "map_of (rev (zip (probe_keys (s # ss)) (concat (cs # css)))) =
      map_of (rev (zip ?own cs)) ++ map_of (rev (zip (probe_keys ss) (concat css)))"
    using Cons.hyps(1) by (simp add: probe_keys_def)
  from Cons.prems(1) have new: "st_node_id s \<notin> set (ids ss)" by (simp add: ids_def)
  have "map_of (rev (zip ?own cs)) (st_node_id t, flag) = None" if "t \<in> set ss" for t flag
  proof -
    have "st_node_id t \<noteq> st_node_id s" using new that by (metis ids_def image_eqI list.set_map)
    then show ?thesis by (auto simp: map_of_eq_None_iff dest!: set_zip_leftD)
  qed
  moreover have "list_all2 (\<lambda>s cs. \<forall>flag. map_of (rev (zip (probe_keys ss) (concat css))) (st_node_id s, flag) =
      count_at s cs flag) ss css"
    using Cons.IH Cons.prems by (simp add: ids_def)
  ultimately have "list_all2 (\<lambda>t own. \<forall>flag. map_of (rev (zip (probe_keys (s # ss)) (concat (cs # css))))
      (st_node_id t, flag) = count_at t own flag) ss css"
    unfolding zip by (elim list.rel_mono_strong) (auto simp: map_add_def split: option.splits)
  moreover have "map_of (rev (zip (probe_keys (s # ss)) (concat (cs # css)))) (st_node_id s, flag) =
      count_at s cs flag" for flag
    unfolding zip using other_ids_missing [OF new, of "concat css"] Cons.prems(2) [of s] Cons.hyps(1)
    by (simp add: map_add_def stage_counts_found count_at_def)
  ultimately show ?case by simp
qed simp

text \<open>
  C30: The two transports agree on what they report: given the same counts for the probes of each
  stage, the rows and rejected rows read off the output of one script are those a session pairs with
  each stage -- for stages with names of their own and at most one probe of each kind.
\<close>

theorem both_paths_report_alike:
  assumes "distinct (plan_order p)"
    and "list_all2 (\<lambda>s cs. length cs = length (st_counts s)) (pl_stages p) css"
    and "\<forall>s \<in> set (pl_stages p). distinct (map probe_is_rejected (st_counts s))"
  shows "script_outcomes p True (concat css) = map2 stage_outcome_of (pl_stages p) css"
proof -
  have "list_all2 (\<lambda>s cs. \<forall>flag. counts_by_output p (concat css) (st_node_id s, flag) = count_at s cs flag)
      (pl_stages p) css"
    unfolding counts_by_output_keys
    by (rule outputs_found) (use assms in \<open>auto simp: plan_order_def ids_def\<close>)
  then show ?thesis
    unfolding script_outcomes_def Let_def
    by (intro nth_equalityI)
      (auto simp: list_all2_conv_all_nth stage_outcome_of_def)
qed

section \<open>Nothing secret is reported\<close>

definition keeps_secret :: "str \<Rightarrow> run_report \<Rightarrow> bool" where
  "keeps_secret s report \<longleftrightarrow> \<not> occurs_in s (rr_script report) \<and>
     (\<forall>f \<in> set (rr_failures report). \<not> occurs_in s (sf_message f))"

lemma bodies_keep_secret:
  assumes "s \<noteq> []" "maskless s" "s \<in> set (ro_redact options)"
  shows "ensures P (driven_body os p options binary) (\<lambda>report _. keeps_secret s report) (\<lambda>_ _. True)"
    and "ensures P (one_script_body os p options binary) (\<lambda>report _. keeps_secret s report) (\<lambda>_ _. True)"
proof -
  note clean = redact_removes [OF assms]
  show "ensures P (driven_body os p options binary) (\<lambda>report _. keeps_secret s report) (\<lambda>_ _. True)"
    unfolding driven_body_def
    by (intro ensures_seq [OF ensures_any] ensures_prod ensures_yields)
      (auto simp: keeps_secret_def masked_def clean)
  show "ensures P (one_script_body os p options binary) (\<lambda>report _. keeps_secret s report) (\<lambda>_ _. True)"
    unfolding one_script_body_def Let_def
    by (intro ensures_seq [OF ensures_any] ensures_if ensures_yields ensures_fails)
      (auto simp: keeps_secret_def masked_def clean)
qed

text \<open>
  The script and the failures of a report are masked: no secret the run was told of occurs in
  the copy of the script or in any failure's message -- for a secret that is not empty and holds no
  asterisk.
\<close>

lemma report_keeps_secrets:
  assumes "run os p options machine_start = (Inr report, m)"
    and "s \<in> set (ro_redact options)" "s \<noteq> []" "maskless s"
  shows "\<not> occurs_in s (rr_script report) \<and> (\<forall>f \<in> set (rr_failures report). \<not> occurs_in s (sf_message f))"
proof -
  note bodies = bodies_keep_secret [OF assms(3,4,2)]
  have scoped: "ensures P (in_scope f) (\<lambda>report _. keeps_secret s report) (\<lambda>_ _. True)"
    if "ensures P f (\<lambda>report _. keeps_secret s report) (\<lambda>_ _. True)" for P and f :: "(exec_error, run_report) act"
    using that unfolding ensures_def in_scope_def by (fastforce split: prod.splits sum.splits)
  have "ensures (\<lambda>_. True) (run os p options) (\<lambda>report _. keeps_secret s report) (\<lambda>_ _. True)"
    unfolding run_def run_driven_def run_one_script_def
    by (intro ensures_seq [OF ensures_any] ensures_if scoped bodies)
  from ensuresD_Inr [OF this _ assms(1)] show ?thesis by (simp add: keeps_secret_def)
qed

end
