(* ===== verification/Exec_Example.thy ===== *)
theory Exec_Example
  imports Exec_Counts
begin

text \<open>
  Runs carried out: witnesses for the properties of the executor, and runs that show where it falls
  short of what it says.
\<close>

section \<open>A run\<close>

text \<open>
  A plan that reads a queue, fails one stage and carries on, and ends in a native sink; an outside
  where only that stage's statement fails.
\<close>

definition example_stage :: "str \<Rightarrow> str \<Rightarrow> stage" where
  "example_stage i sql = \<lparr> st_node_id = i, st_component_id = ''xf.x'', st_label = i, st_kind = StTransform,
     st_splits = False, st_sql = sql, st_counts = [], st_inputs = [], st_from = None, st_alias = None,
     st_sink_path = None, st_sink_mode = None, st_materialize = MatAuto, st_spill_path = None,
     st_requires_extensions = [], st_policy = stage_policy_default, st_control = None,
     st_incremental = None, st_external = None, st_native = None \<rparr>"

definition native_example :: "direction \<Rightarrow> native_step" where
  "native_example d = \<lparr> ns_direction = d, ns_properties = JNull, ns_staging = ''tmp/f'', ns_checkpoint = None,
     ns_input = None, ns_feed = None \<rparr>"

definition reads_from :: "str \<Rightarrow> input" where
  "reads_from i = \<lparr> in_node_id = i, in_source_handle = None, in_target_handle = None \<rparr>"

definition example_plan :: "str \<Rightarrow> plan" where
  "example_plan middle = \<lparr> pl_format_version = 1, pl_stages =
     [(example_stage ''q'' ''Q'')\<lparr> st_component_id := ''src.q'', st_native := Some (native_example Ingest) \<rparr>,
      (example_stage ''m'' middle)\<lparr> st_inputs := [reads_from ''q''],
        st_policy := stage_policy_default\<lparr> sp_continue_on_failure := True \<rparr> \<rparr>,
      (example_stage ''s'' ''S'')\<lparr> st_component_id := ''snk.q'', st_kind := StSink,
        st_inputs := [reads_from ''m''], st_native := Some (native_example Egress) \<rparr>],
     pl_warnings = [] \<rparr>"

definition example_component :: native_component where
  "example_component = \<lparr> nc_spec = the (component_new ''src.q'' ''Q''), nc_check = (\<lambda>_. Inr ()),
     nc_reads = (\<lambda>_. []), nc_adds = (\<lambda>_. []), nc_portable = (\<lambda>_. True) \<rparr>"

definition no_values :: json_stream where
  "no_values _ = ([], AtEof)"

definition example_outside :: outside where
  "example_outside = \<lparr> os_open = (\<lambda>_ _ _ _ _. Inr ()),
     os_execute = (\<lambda>_ sql. Inr \<lparr> an_values = [], an_stderr = (if sql = ''BAD'' then ''Boom'' else []) \<rparr>),
     os_spawn = (\<lambda>_ _ _ _. Inr \<lparr> po_success = True, po_stdout = [], po_stderr = [] \<rparr>),
     os_parse = no_values, os_clock = length, os_is_file = (\<lambda>_. True), os_is_dir = (\<lambda>_. False),
     os_exists = (\<lambda>_ _. False), os_env = (\<lambda>_. None), os_current_dir = None, os_on_path = False,
     os_make_dirs = (\<lambda>_ _. None), os_remove = (\<lambda>_ _. True), os_create = (\<lambda>_ _. None),
     os_open_file = (\<lambda>_ _. None), os_flush = (\<lambda>_ _. None),
     os_connector = (\<lambda>c. if c = ''src.q'' then Some (ConnSource example_component)
       else if c = ''snk.q'' then Some (ConnSink example_component) else None),
     os_read = (\<lambda>_ _ _ _. Inr (\<lparr> sm_detail = ''2 read'', sm_checkpoint = Some (JInt 7) \<rparr>, Some 1)),
     os_transform = (\<lambda>_ _ _. Inr \<lparr> sm_detail = [], sm_checkpoint = None \<rparr>),
     os_write = (\<lambda>_ _ _. Inr \<lparr> sm_detail = ''2 sent'', sm_checkpoint = None \<rparr>),
     os_acknowledge = (\<lambda>_ _. Inr ''settled''), os_release = (\<lambda>_ _. Inr ''given back'') \<rparr>"

definition example_run :: "str \<Rightarrow> (exec_error + run_report) \<times> machine" where
  "example_run middle = run example_outside (example_plan middle)
     (run_options_default\<lparr> ro_duckdb_bin := Some ''duckdb'', ro_counts := False \<rparr>) machine_start"

text \<open>
  Evaluation from the outside in: an action is run on its state before the rest of the program is
  looked at.
\<close>

lemma seq_on: "seq f g m = (case f m of (Inl e, m') \<Rightarrow> (Inl e, m') | (Inr a, m') \<Rightarrow> g a m')"
  by (simp add: seq_def)

lemma seq_first: "m = m' \<Longrightarrow> seq f g m = seq f g m'"
  by simp

lemma act_on:
  "yields a m = (Inr a, m)" "fails e m = (Inl e, m)" "given r m = (r, m)" "on_machine h m = (Inr (), h m)"
  "attempt f m = (case f m of (r, m') \<Rightarrow> (Inr r, m'))"
  "map_failure k f m = (case f m of (r, m') \<Rightarrow> (map_sum k id r, m'))"
  "call ev answer_of m = (Inr (answer_of (mc_history m)), m\<lparr> mc_history := mc_history m @ [ev] \<rparr>)"
  "in_scope f m = (case f m of (r, m') \<Rightarrow> (r, drop_staging (drop_receipts (drop_session m'))))"
  by (simp_all add: yields_def fails_def given_def on_machine_def attempt_def map_failure_def call_def in_scope_def)

lemmas act_code = seq_on act_on run_def run_driven_def run_one_script_def driven_body_def one_script_body_def
  prepare_sinks_def prepare_sink_def prepare_spills_def make_missing_parent_def make_dirs_def clear_spills_def
  clock_def native_prepare_sinks_def prepare_step_def track_file_def stage_sources_def stage_source_def
  read_source_def hold_receipt_def open_session_def close_session_def drive_stage_def drive_control_def
  drive_transform_def drive_sql_def run_stage_def run_stage_from.simps attempt_stage_def set_memory_limit_def
  reset_memory_limit_def collect_counts_def collect_watermark_def execute_or_fail_def session_execute_def
  settle_def deliver_sinks_def deliver_sink_def acknowledge_receipts_def release_receipts_def
  drop_session_def drop_receipts_def drop_staging_def stage_fails_def stage_ran_def act_control_def
  probe_control_def run_transform_def transform_files_def

lemmas leaf_code = locate_duckdb_def starting_point_def find_vendored_def locate_extension_dir_def
  ancestors.simps path_join_def path_parent_def trim_slashes_def resolve_against_def starts_with_def
  ends_with_def plan_needs_session_def stage_needs_session_def policy_needs_session_def
  runs_native_transform_def native_is_transform_def plan_sinks_def plan_spills_def plan_extensions_def
  native_of_def has_message_def trim_def trim_start_def trim_end_def
  is_whitespace_def blocked_by_def script_of_def drive_start_def add_note_def skipped_outcome_def
  stage_outcome_of_def count_at_def nth_opt_def timing_def withheld_def settled_line_def
  settled_default_def Let_def no_values_def first_of_def report_failed_def

lemmas mask_code = masked_def redact_def

lemmas example_defs = example_stage_def native_example_def reads_from_def example_plan_def
  example_outside_def run_options_default_def machine_start_def stage_policy_default_def

lemma example_run_bad:
  "\<exists>report. fst (example_run ''BAD'') = Inr report \<and> report_failed report"
  "mc_history (snd (example_run ''BAD'')) = [ReadClock, MadeDirectories ''tmp'', MadeDirectories ''tmp'',
     CreatedFile ''tmp/f'', SourceRead ''q'', Held ''q'' 1, Flushed ''tmp/f'', Opened, ReadClock,
     Executed ''Q'', ReadClock, ReadClock, Executed ''BAD'', ReadClock, Closed, Released ''q'' 1,
     ReadClock, Removed ''tmp/f'', Removed ''tmp/f'']"
  unfolding example_run_def by (simp_all add: act_code leaf_code mask_code example_defs cong: seq_first)

lemma example_run_good:
  "mc_history (snd (example_run ''M'')) = [ReadClock, MadeDirectories ''tmp'', MadeDirectories ''tmp'',
     CreatedFile ''tmp/f'', SourceRead ''q'', Held ''q'' 1, Flushed ''tmp/f'', Opened, ReadClock,
     Executed ''Q'', ReadClock, ReadClock, Executed ''M'', ReadClock, ReadClock, Executed ''S'', ReadClock,
     Closed, OpenedFile ''tmp/f'', SinkWritten ''s'', Acknowledged ''q'' 1,
     ReadClock, Removed ''tmp/f'', Removed ''tmp/f'']"
  unfolding example_run_def by (simp add: act_code leaf_code mask_code example_defs cong: seq_first)

theorem failed_run_settles_nothing_witness:
  "\<exists>report. fst (example_run ''BAD'') = Inr report \<and> rr_checkpoints report = []"
proof -
  obtain report where report: "fst (example_run ''BAD'') = Inr report" "report_failed report"
    using example_run_bad(1) by blast
  then have "example_run ''BAD'' = (Inr report, snd (example_run ''BAD''))" by (metis prod.collapse)
  from failed_run_settles_nothing [OF this [unfolded example_run_def]] report show ?thesis by simp
qed

definition retried_stage :: stage where
  "retried_stage = (example_stage ''m'' ''BAD'')
     \<lparr> st_policy := stage_policy_default\<lparr> sp_retry_attempts := 2, sp_retry_backoff_ms := 10 \<rparr> \<rparr>"

definition uncounted :: run_options where
  "uncounted = run_options_default\<lparr> ro_counts := False \<rparr>"

lemma retried_stage_fails:
  "\<exists>message. fst (run_stage example_outside uncounted retried_stage machine_start) = Inr (Inl message)"
  unfolding retried_stage_def uncounted_def
  by (simp add: act_code leaf_code mask_code example_defs backoff_for_def U64_MAX_def cong: seq_first)

theorem retries_are_bounded_witness:
  "sleeps (mc_history (snd (run_stage example_outside uncounted retried_stage machine_start))) = [10, 20]"
proof -
  have "[1..<3] = [1, 2::nat]" by (simp add: upt_rec)
  then have policy: "map (backoff_for (st_policy retried_stage)) [1..<3] = [10, 20]"
    by (simp add: retried_stage_def example_stage_def stage_policy_default_def backoff_for_def U64_MAX_def)
  have attempts: "sp_retry_attempts (st_policy retried_stage) = 2"
    by (simp add: retried_stage_def)
  obtain k where k: "sleeps (mc_history (snd (run_stage example_outside uncounted retried_stage machine_start)))
      = sleeps (mc_history machine_start) @ map (backoff_for (st_policy retried_stage)) [1..<k + 1]" "k = 2"
    using retries_are_bounded [of retried_stage example_outside uncounted machine_start]
      retried_stage_fails unfolding attempts by blast
  with policy show ?thesis by (simp add: machine_start_def sleeps_def)
qed

theorem receipts_settled_once_witness:
  "count_list (mc_history (snd (example_run ''BAD''))) (Held ''q'' 1) = 1 \<and>
   count_list (mc_history (snd (example_run ''BAD''))) (Released ''q'' 1) = 1"
proof -
  have run: "run example_outside (example_plan ''BAD'') (run_options_default\<lparr> ro_duckdb_bin := Some ''duckdb'',
      ro_counts := False \<rparr>) machine_start = (fst (example_run ''BAD''), snd (example_run ''BAD''))"
    by (simp add: example_run_def)
  from receipts_settled_once [OF run, of "''q''" 1] show ?thesis by (simp add: example_run_bad(2))
qed

theorem staging_is_swept_witness:
  "CreatedFile ''tmp/f'' \<in> set (mc_history (snd (example_run ''M''))) \<and>
   Removed ''tmp/f'' \<in> set (mc_history (snd (example_run ''M'')))"
proof -
  have run: "run example_outside (example_plan ''M'') (run_options_default\<lparr> ro_duckdb_bin := Some ''duckdb'',
      ro_counts := False \<rparr>) machine_start = (fst (example_run ''M''), snd (example_run ''M''))"
    by (simp add: example_run_def)
  have created: "CreatedFile ''tmp/f'' \<in> set (mc_history (snd (example_run ''M'')))"
    by (simp add: example_run_good)
  from staging_is_swept [OF run this] created show ?thesis by (metis UnCI set_append)
qed

theorem preview_only_reads_witness:
  "SinkWritten ''s'' \<notin> set (mc_history (snd (preview example_outside (example_plan ''M'') ''m'' 10
     run_options_default machine_start)))"
  using preview_only_reads [of example_outside "example_plan ''M''" "''m''" 10 run_options_default
      "fst (preview example_outside (example_plan ''M'') ''m'' 10 run_options_default machine_start)"
      "snd (preview example_outside (example_plan ''M'') ''m'' 10 run_options_default machine_start)"]
  by simp

definition example_drive :: "(exec_error + drive) \<times> machine" where
  "example_drive = for_each (drive_stage example_outside
     (run_options_default\<lparr> ro_counts := False \<rparr>)) (pl_stages (example_plan ''BAD'')) (drive_start []) machine_start"

lemma example_drive_outcomes:
  "\<exists>d. fst example_drive = Inr d \<and> (\<exists>o3 \<in> set (dr_outcomes d).
     so_node_id o3 = ''s'' \<and> so_skipped o3 = Some (SkUpstreamFailed ''m''))"
  unfolding example_drive_def by (simp add: act_code leaf_code mask_code example_defs cong: seq_first)

lemma example_plan_ordered:
  "distinct (ids (pl_stages (example_plan t)))" "inputs_first (pl_stages (example_plan t))"
  by (auto simp: example_plan_def ids_def example_stage_def inputs_first_def reads_from_def Cons_eq_append_conv)

theorem skipped_exactly_downstream_witness:
  "\<exists>d. fst example_drive = Inr d \<and> (\<exists>u \<in> failed_ids d. (u, ''s'') \<in> (reads (pl_stages (example_plan ''BAD'')))\<^sup>+)"
proof -
  from example_drive_outcomes obtain d o3 where d: "fst example_drive = Inr d"
    and o3: "o3 \<in> set (dr_outcomes d)" "so_node_id o3 = ''s''" "so_skipped o3 = Some (SkUpstreamFailed ''m'')"
    by blast
  let ?s = "(example_stage ''s'' ''S'')\<lparr> st_component_id := ''snk.q'', st_kind := StSink,
    st_inputs := [reads_from ''m''], st_native := Some (native_example Egress) \<rparr>"
  have "for_each (drive_stage example_outside (run_options_default\<lparr> ro_counts := False \<rparr>))
      (pl_stages (example_plan ''BAD'')) (drive_start []) machine_start = (Inr d, snd example_drive)"
    using d(1) by (metis example_drive_def prod.collapse)
  moreover have "?s \<in> set (pl_stages (example_plan ''BAD''))" by (simp add: example_plan_def)
  moreover have "o3 \<in> set (dr_outcomes d)" "so_node_id o3 = st_node_id ?s"
    using o3 by (simp_all add: example_stage_def)
  ultimately have "upstream_failed o3 \<longleftrightarrow>
      (\<exists>u \<in> failed_ids d. (u, st_node_id ?s) \<in> (reads (pl_stages (example_plan ''BAD'')))\<^sup>+)"
    using skipped_exactly_downstream [OF _ example_plan_ordered] by blast
  moreover have "upstream_failed o3" using o3(3) by (simp add: upstream_failed_def)
  ultimately show ?thesis using d(1) by (auto simp: example_stage_def)
qed

definition secret_plan :: plan where
  "secret_plan = \<lparr> pl_format_version = 1, pl_stages = [example_stage ''a'' ''ATTACH hunter2''], pl_warnings = [] \<rparr>"

lemma secret_plan_runs:
  "\<exists>report. fst (run example_outside secret_plan (run_options_default\<lparr> ro_duckdb_bin := Some ''duckdb'',
     ro_counts := False, ro_redact := [''hunter2''] \<rparr>) machine_start) = Inr report"
  by (simp add: act_code leaf_code example_defs secret_plan_def spawn_script_def
      parse_counts_def stage_counts_def has_prelude_probe_def cong: seq_first)

theorem report_keeps_secrets_witness:
  "\<exists>report. fst (run example_outside secret_plan (run_options_default\<lparr> ro_duckdb_bin := Some ''duckdb'',
      ro_counts := False, ro_redact := [''hunter2''] \<rparr>) machine_start) = Inr report \<and>
    \<not> occurs_in ''hunter2'' (rr_script report)"
proof -
  let ?run = "run example_outside secret_plan (run_options_default\<lparr> ro_duckdb_bin := Some ''duckdb'',
      ro_counts := False, ro_redact := [''hunter2''] \<rparr>) machine_start"
  from secret_plan_runs obtain report where report: "fst ?run = Inr report" by blast
  then have "?run = (Inr report, snd ?run)" by (metis prod.collapse)
  from report_keeps_secrets [OF this, of "''hunter2''"] report show ?thesis by (simp add: maskless_def)
qed

definition counted_plan :: plan where
  "counted_plan = \<lparr> pl_format_version = 1, pl_stages =
     [(example_stage ''a'' ''A'')\<lparr> st_counts := [\<lparr> cp_sql = ''N'', cp_port = None \<rparr>] \<rparr>,
      (example_stage ''b'' ''B'')\<lparr> st_counts := [\<lparr> cp_sql = ''N'', cp_port = None \<rparr>] \<rparr>],
     pl_warnings = [] \<rparr>"

theorem both_paths_report_alike_witness:
  "script_outcomes counted_plan True (concat [[5], [7]]) =
     map2 stage_outcome_of (pl_stages counted_plan) [[5], [7]]"
  by (rule both_paths_report_alike)
    (auto simp: counted_plan_def plan_order_def example_stage_def)

section \<open>Where the executor falls short\<close>

text \<open>
  A session hands the answers of a statement over as the arrays DuckDB printed, and the watermark is
  looked up in the array itself: a driven run never has one, whatever the probe answered. The
  one-script path looks in the first row.
\<close>

lemma session_records_no_watermark:
  assumes "st_incremental s = Some state"
    and "os_execute os (mc_history m) (si_probe state) = Inr \<lparr> an_values = [JArray rows], an_stderr = [] \<rparr>"
  shows "fst (collect_watermark os s m) = Inr (Inr None)"
  using assms by (simp add: collect_watermark_def session_execute_def seq_def call_def yields_def first_of_def
      json_get_def Let_def)

lemma one_script_reads_watermark:
  "parse_watermarks (\<lambda>_. ([JArray [JObject [(''w'', JString ''2026-01-02'')]]], AtEof)) out = [Some ''2026-01-02'']"
  by code_simp

text \<open>
  The stage blamed is the one whose count did not arrive. When the probe of a watermark fails, after
  that stage's counts have arrived, the next stage is blamed.
\<close>

definition blamed_plan :: plan where
  "blamed_plan = counted_plan\<lparr> pl_stages := map (\<lambda>s. if st_node_id s = ''a''
     then s\<lparr> st_incremental := Some \<lparr> si_column = ''missing_column'', si_since = None, si_probe = ''W'' \<rparr> \<rparr>
     else s) (pl_stages counted_plan) \<rparr>"

lemma watermark_failure_blames_next:
  "attribute_failure blamed_plan True [5] ''no such column'' = StageFailed ''b'' ''b'' ''no such column''"
  by code_simp

text \<open>A driven run that stops at a failed stage leaves the spill files of the stages before it.\<close>

definition spill_plan :: plan where
  "spill_plan = \<lparr> pl_format_version = 1, pl_stages =
     [(example_stage ''a'' ''A'')\<lparr> st_spill_path := Some ''tmp/a.parquet'',
        st_policy := stage_policy_default\<lparr> sp_retry_attempts := 1 \<rparr> \<rparr>, example_stage ''b'' ''BAD''],
     pl_warnings = [] \<rparr>"

lemma failed_session_leaves_spills:
  "fst (run example_outside spill_plan (run_options_default\<lparr> ro_duckdb_bin := Some ''duckdb'',
     ro_counts := False \<rparr>) machine_start) = Inl (StageFailed ''b'' ''b'' ''Boom'')"
  "Removed ''tmp/a.parquet'' \<notin> set (mc_history (snd (run example_outside spill_plan
     (run_options_default\<lparr> ro_duckdb_bin := Some ''duckdb'', ro_counts := False \<rparr>) machine_start)))"
  by (simp_all add: act_code leaf_code mask_code example_defs spill_plan_def cong: seq_first)

text \<open>
  Two texts reach the report with their secrets in them: what a sink says of its delivery, and the
  statement a lost session was running.
\<close>

lemma sink_note_unmasked:
  assumes "native_of s Egress = Some step" "st_node_id s \<notin> untaken"
    and "os_connector os (st_component_id s) = Some (ConnSink n)"
    and "\<And>h. os_open_file os h (resolve_against (ns_staging step) options) = None"
    and "\<And>h. os_write os h (st_component_id s) (ns_properties step) = Inr \<lparr> sm_detail = detail, sm_checkpoint = None \<rparr>"
  shows "fst (deliver_sink os options untaken s [] m) = Inr [st_label s @ '': '' @ detail]"
  using assms by (simp add: deliver_sink_def Let_def seq_def call_def yields_def)

lemma lost_session_shows_statement:
  assumes "os_execute os (mc_history m) sql = Inl (SessionClosed sql)"
  shows "fst (execute_or_fail os sql m) = Inl (ExecSession (SessionClosed sql))"
    and "session_error_text (SessionClosed sql) = ''lost contact with DuckDB while running: '' @ sql"
  using assms by (simp_all add: execute_or_fail_def session_execute_def seq_def call_def given_def session_error_text_def)

end
