(* ===== verification/Remember.thy ===== *)
theory Remember
  imports State_Store Plan_Compile Exec_World
begin

text \<open>
  What a workspace remembers, applied to one run of one pipeline
  (\<^verbatim>\<open>crates/duckdb-engine/src/remember.rs\<close>): the stored marks that still fit a document become the
  options of its next compile, and the report of a finished run becomes stored marks. The clock
  that stamps a mark is an argument, as a function of how many marks were stamped before it.
  The theorem composes the two with the compiler: the next run starts each node where the last
  one left it.
\<close>

section \<open>From stored state to compile options\<close>

record remembering =
  rg_options :: compile_options
  rg_warnings :: "str list"

definition remembering_default :: remembering where
  "remembering_default = \<lparr> rg_options = compile_options_default, rg_warnings = [] \<rparr>"

definition column_changed :: "str \<Rightarrow> str \<Rightarrow> str \<Rightarrow> str" where
  "column_changed i now before = QT @ i @ QT @ '' now watches '' @ QT @ now @ QT @
     '' but its watermark was taken from '' @ QT @ before @ QT @ ''; reading from the start''"

definition component_changed :: "str \<Rightarrow> str \<Rightarrow> str \<Rightarrow> str" where
  "component_changed i now before = QT @ i @ QT @ '' is now '' @ QT @ now @ QT @
     '' but its saved position came from '' @ QT @ before @ QT @ ''; reading from the start''"

definition give_watermark :: "str \<Rightarrow> str \<Rightarrow> remembering \<Rightarrow> remembering" where
  "give_watermark i v r = r\<lparr> rg_options := (rg_options r)
     \<lparr> opt_watermarks := om_insert i v (opt_watermarks (rg_options r)) \<rparr> \<rparr>"

definition give_checkpoint :: "str \<Rightarrow> json \<Rightarrow> remembering \<Rightarrow> remembering" where
  "give_checkpoint i v r = r\<lparr> rg_options := (rg_options r)
     \<lparr> opt_checkpoints := om_insert i v (opt_checkpoints (rg_options r)) \<rparr> \<rparr>"

definition warn :: "str \<Rightarrow> remembering \<Rightarrow> remembering" where
  "warn w r = r\<lparr> rg_warnings := rg_warnings r @ [w] \<rparr>"

definition recall_watermark :: "pipeline_state \<Rightarrow> pipeline_node \<Rightarrow> remembering \<Rightarrow> remembering" where
  "recall_watermark stored node r =
     (case (nd_incremental (pn_data node), state_watermark stored (pn_id node)) of
        (Some declared, Some w) \<Rightarrow>
          if matches_column w (inc_column declared) then give_watermark (pn_id node) (wm_value w) r
          else warn (column_changed (pn_id node) (inc_column declared) (wm_column w)) r
      | _ \<Rightarrow> r)"

definition recall_checkpoint :: "pipeline_state \<Rightarrow> pipeline_node \<Rightarrow> remembering \<Rightarrow> remembering" where
  "recall_checkpoint stored node r =
     (case state_checkpoint stored (pn_id node) of
        Some c \<Rightarrow>
          if cp_component c = component_of node then give_checkpoint (pn_id node) (cp_value c) r
          else warn (component_changed (pn_id node) (component_of node) (cp_component c)) r
      | None \<Rightarrow> r)"

definition compile_options_for :: "pipeline_doc \<Rightarrow> pipeline_state \<Rightarrow> remembering" where
  "compile_options_for d stored =
     foldl (\<lambda>r node. recall_checkpoint stored node (recall_watermark stored node r))
       remembering_default (doc_nodes d)"

section \<open>From a report to stored state\<close>

record remembered =
  rem_advanced :: "(str \<times> str) list"
  rem_nothing_new :: "str list"
  rem_positions :: "str list"

definition remembered_default :: remembered where
  "remembered_default = \<lparr> rem_advanced = [], rem_nothing_new = [], rem_positions = [] \<rparr>"

definition remembered_changed :: "remembered \<Rightarrow> bool" where
  "remembered_changed r \<longleftrightarrow> rem_advanced r \<noteq> [] \<or> rem_positions r \<noteq> []"

definition stamped :: "remembered \<Rightarrow> nat" where
  "stamped r = length (rem_advanced r) + length (rem_positions r)"

definition remember_watermark ::
  "(nat \<Rightarrow> str) \<Rightarrow> remembered \<times> pipeline_state \<Rightarrow> run_watermark \<Rightarrow> remembered \<times> pipeline_state" where
  "remember_watermark now_utc acc w = (case acc of (r, st) \<Rightarrow>
     (case rw_value w of
        Some v \<Rightarrow> (r\<lparr> rem_advanced := rem_advanced r @ [(rw_node_id w, v)] \<rparr>,
          state_advance (now_utc (stamped r)) (rw_node_id w) (rw_column w) v st)
      | None \<Rightarrow> (r\<lparr> rem_nothing_new := rem_nothing_new r @ [rw_node_id w] \<rparr>, st)))"

definition remember_checkpoint ::
  "(nat \<Rightarrow> str) \<Rightarrow> remembered \<times> pipeline_state \<Rightarrow> run_checkpoint \<Rightarrow> remembered \<times> pipeline_state" where
  "remember_checkpoint now_utc acc c = (case acc of (r, st) \<Rightarrow>
     (r\<lparr> rem_positions := rem_positions r @ [rc_node_id c] \<rparr>,
      record_checkpoint (now_utc (stamped r)) (rc_node_id c) (rc_component_id c) (rc_value c) st))"

definition remember :: "(nat \<Rightarrow> str) \<Rightarrow> run_report \<Rightarrow> pipeline_state \<Rightarrow> remembered \<times> pipeline_state" where
  "remember now_utc report stored =
     (if report_failed report then (remembered_default, stored)
      else foldl (remember_checkpoint now_utc)
             (foldl (remember_watermark now_utc) (remembered_default, stored) (rr_watermarks report))
             (rr_checkpoints report))"

section \<open>What a compile is given\<close>

lemmas recall_defs = recall_watermark_def recall_checkpoint_def give_watermark_def give_checkpoint_def warn_def

text \<open>The stored watermark a node may use, and the stored position.\<close>

definition fits_watermark :: "pipeline_state \<Rightarrow> str \<Rightarrow> str \<Rightarrow> str option" where
  "fits_watermark st i column = (case state_watermark st i of
     Some w \<Rightarrow> if matches_column w column then Some (wm_value w) else None
   | None \<Rightarrow> None)"

definition fits_checkpoint :: "pipeline_state \<Rightarrow> str \<Rightarrow> str \<Rightarrow> json option" where
  "fits_checkpoint st i component = (case state_checkpoint st i of
     Some c \<Rightarrow> if cp_component c = component then Some (cp_value c) else None
   | None \<Rightarrow> None)"

abbreviation given_watermark :: "remembering \<Rightarrow> str \<Rightarrow> str option" where
  "given_watermark r \<equiv> om_get (opt_watermarks (rg_options r))"

abbreviation given_checkpoint :: "remembering \<Rightarrow> str \<Rightarrow> json option" where
  "given_checkpoint r \<equiv> om_get (opt_checkpoints (rg_options r))"

lemma recalled_step:
  "given_watermark (recall_checkpoint st node (recall_watermark st node r)) i =
     (case nd_incremental (pn_data node) of
        Some declared \<Rightarrow> (case fits_watermark st (pn_id node) (inc_column declared) of
            Some v \<Rightarrow> if i = pn_id node then Some v else given_watermark r i
          | None \<Rightarrow> given_watermark r i)
      | None \<Rightarrow> given_watermark r i)"
  "given_checkpoint (recall_checkpoint st node (recall_watermark st node r)) i =
     (case fits_checkpoint st (pn_id node) (component_of node) of
        Some v \<Rightarrow> if i = pn_id node then Some v else given_checkpoint r i
      | None \<Rightarrow> given_checkpoint r i)"
  by (auto simp: recall_defs om_get_insert fits_watermark_def fits_checkpoint_def split: option.split)

abbreviation recall_all :: "pipeline_state \<Rightarrow> pipeline_node list \<Rightarrow> remembering \<Rightarrow> remembering" where
  "recall_all st nodes r \<equiv> foldl (\<lambda>r node. recall_checkpoint st node (recall_watermark st node r)) r nodes"

lemma recalled_elsewhere:
  "i \<notin> pn_id ` set nodes \<Longrightarrow> given_watermark (recall_all st nodes r) i = given_watermark r i"
  "i \<notin> pn_id ` set nodes \<Longrightarrow> given_checkpoint (recall_all st nodes r) i = given_checkpoint r i"
  by (induction nodes arbitrary: r) (auto simp: recalled_step split: option.split)

lemma recalled:
  assumes "distinct (map pn_id (doc_nodes d))" "node \<in> set (doc_nodes d)"
  shows "given_watermark (compile_options_for d st) (pn_id node) =
      (case nd_incremental (pn_data node) of
         Some declared \<Rightarrow> fits_watermark st (pn_id node) (inc_column declared)
       | None \<Rightarrow> None)"
    and "given_checkpoint (compile_options_for d st) (pn_id node) =
      fits_checkpoint st (pn_id node) (component_of node)"
proof -
  obtain before after where nodes: "doc_nodes d = before @ node # after"
    using assms(2) by (meson split_list)
  with assms(1) have "pn_id node \<notin> pn_id ` set before" "pn_id node \<notin> pn_id ` set after" by auto
  moreover have "given_watermark remembering_default i = None" "given_checkpoint remembering_default i = None" for i
    by (simp_all add: remembering_default_def compile_options_default_def om_get_def)
  ultimately show "given_watermark (compile_options_for d st) (pn_id node) =
      (case nd_incremental (pn_data node) of
         Some declared \<Rightarrow> fits_watermark st (pn_id node) (inc_column declared)
       | None \<Rightarrow> None)"
    and "given_checkpoint (compile_options_for d st) (pn_id node) =
      fits_checkpoint st (pn_id node) (component_of node)"
    unfolding compile_options_for_def nodes
    by (simp_all add: recalled_elsewhere recalled_step split: option.split)
qed

section \<open>What a run leaves\<close>

text \<open>The last value a report has for a node: the mark of a successful run that loaded something.\<close>

definition last_reported :: "run_report \<Rightarrow> str \<Rightarrow> run_watermark option" where
  "last_reported report i = (if report_failed report then None
     else find (\<lambda>w. rw_node_id w = i \<and> rw_value w \<noteq> None) (rev (rr_watermarks report)))"

definition last_position :: "run_report \<Rightarrow> str \<Rightarrow> run_checkpoint option" where
  "last_position report i = (if report_failed report then None
     else find (\<lambda>c. rc_node_id c = i) (rev (rr_checkpoints report)))"

lemma find_append: "find P (xs @ ys) = (case find P xs of Some x \<Rightarrow> Some x | None \<Rightarrow> find P ys)"
  by (induction xs) auto

lemma remember_watermark_state:
  "snd (remember_watermark now acc w) = (case rw_value w of
     Some v \<Rightarrow> state_advance (now (stamped (fst acc))) (rw_node_id w) (rw_column w) v (snd acc)
   | None \<Rightarrow> snd acc)"
  by (simp add: remember_watermark_def split: prod.split option.split)

lemma remember_checkpoint_state:
  "snd (remember_checkpoint now acc c) = record_checkpoint (now (stamped (fst acc))) (rc_node_id c)
     (rc_component_id c) (rc_value c) (snd acc)"
  by (simp add: remember_checkpoint_def split: prod.split)

lemma fits_simps:
  "fits_watermark (state_advance at j c v st) i column =
     (if i = j then (if c = column then Some v else None) else fits_watermark st i column)"
  "fits_checkpoint (state_advance at j c v st) i component = fits_checkpoint st i component"
  "fits_watermark (record_checkpoint at j k p st) i column = fits_watermark st i column"
  "fits_checkpoint (record_checkpoint at j k p st) i component =
     (if i = j then (if k = component then Some p else None) else fits_checkpoint st i component)"
  by (simp_all add: fits_watermark_def fits_checkpoint_def state_watermark_def state_checkpoint_def
    state_advance_def record_checkpoint_def om_get_insert matches_column_def)

lemma remembered_watermarks:
  "fits_watermark (snd (foldl (remember_watermark now) acc ws)) i column =
     (case find (\<lambda>w. rw_node_id w = i \<and> rw_value w \<noteq> None) (rev ws) of
        Some w \<Rightarrow> if rw_column w = column then rw_value w else None
      | None \<Rightarrow> fits_watermark (snd acc) i column)"
  "fits_checkpoint (snd (foldl (remember_watermark now) acc ws)) i component =
     fits_checkpoint (snd acc) i component"
  by (induction ws arbitrary: acc)
    (auto simp: remember_watermark_state find_append fits_simps split: option.split)

lemma remembered_positions:
  "fits_checkpoint (snd (foldl (remember_checkpoint now) acc cs)) i component =
     (case find (\<lambda>c. rc_node_id c = i) (rev cs) of
        Some c \<Rightarrow> if rc_component_id c = component then Some (rc_value c) else None
      | None \<Rightarrow> fits_checkpoint (snd acc) i component)"
  "fits_watermark (snd (foldl (remember_checkpoint now) acc cs)) i column =
     fits_watermark (snd acc) i column"
  by (induction cs arbitrary: acc)
    (auto simp: remember_checkpoint_state find_append fits_simps split: option.split)

lemma remembered_fits:
  "fits_watermark (snd (remember now report st)) i column =
     (case last_reported report i of
        Some w \<Rightarrow> if rw_column w = column then rw_value w else None
      | None \<Rightarrow> fits_watermark st i column)"
  "fits_checkpoint (snd (remember now report st)) i component =
     (case last_position report i of
        Some c \<Rightarrow> if rc_component_id c = component then Some (rc_value c) else None
      | None \<Rightarrow> fits_checkpoint st i component)"
  by (simp_all add: remember_def last_reported_def last_position_def remembered_watermarks remembered_positions
    cong: option.case_cong)

section \<open>The next run\<close>

lemma compiled_stage_node:
  assumes "compile_with reg conns opts d = Inr pl" "s \<in> set (pl_stages pl)"
  obtains node kind where "distinct (map pn_id (doc_nodes d))" "node \<in> set (doc_nodes d)"
    "st_node_id s = pn_id node" "st_component_id s = component_of node"
    "st_incremental s = fst (stage_incremental_of opts kind (pn_id node) (component_of node)
       (nd_incremental (pn_data node)))"
    "\<forall>step. st_native s = Some step \<longrightarrow> ns_checkpoint step =
       (if ns_direction step = Ingest then om_get (opt_checkpoints opts) (pn_id node) else None)"
proof -
  from assms obtain idx kinds es p n where p: "p < length (doc_nodes d)"
    and idx: "build_index 0 [] (doc_nodes d) = Inr idx"
    and b: "build_stage reg conns d kinds es opts p = Inr (s, n)" by (rule compiled_stage_at)
  from idx have distinct: "distinct (map pn_id (doc_nodes d))" by (simp add: build_index_iff)
  from build_stage_Inr(1) [OF b] have i: "st_node_id s = pn_id (doc_nodes d ! p)" by (simp add: id_at_def)
  from that [OF distinct nth_mem [OF p] i] build_stage_loads [OF b] show ?thesis by blast
qed

text \<open>Where a node reads from: what the run reported, else what was stored, where it still fits.\<close>

definition resumes_at :: "run_report \<Rightarrow> pipeline_state \<Rightarrow> str \<Rightarrow> str \<Rightarrow> str option" where
  "resumes_at report st i column = (case last_reported report i of
     Some w \<Rightarrow> if rw_column w = column then rw_value w else None
   | None \<Rightarrow> fits_watermark st i column)"

definition resumes_from :: "run_report \<Rightarrow> pipeline_state \<Rightarrow> str \<Rightarrow> str \<Rightarrow> json option" where
  "resumes_from report st i component = (case last_position report i of
     Some c \<Rightarrow> if rc_component_id c = component then Some (rc_value c) else None
   | None \<Rightarrow> fits_checkpoint st i component)"

text \<open>
  C9: A run's marks reach the next run. Once a report is remembered and the stored state is given to
  the next compile, each incremental source starts after the last value the run reported for it, or,
  where the run failed or found nothing new, after the value stored before; a value taken from
  another column counts for nothing, and then the source starts where the document says. A native
  source is handed its last reported position, or the stored one, and never one another component
  wrote.
\<close>

theorem next_run_resumes:
  assumes "compile_with reg conns (rg_options (compile_options_for d (snd (remember now_utc report stored)))) d = Inr pl"
    and "s \<in> set (pl_stages pl)"
  shows "\<exists>node\<in>set (doc_nodes d). pn_id node = st_node_id s \<and>
    (\<forall>inc. st_incremental s = Some inc \<longrightarrow> (\<exists>declared. nd_incremental (pn_data node) = Some declared \<and>
       si_column inc = inc_column declared \<and>
       si_since inc = (case resumes_at report stored (st_node_id s) (inc_column declared) of
           Some v \<Rightarrow> Some v | None \<Rightarrow> inc_start declared))) \<and>
    (\<forall>step. st_native s = Some step \<longrightarrow> ns_checkpoint step =
       (if ns_direction step = Ingest then resumes_from report stored (st_node_id s) (st_component_id s) else None))"
proof -
  from assms obtain node kind where node: "distinct (map pn_id (doc_nodes d))" "node \<in> set (doc_nodes d)"
    "st_node_id s = pn_id node" "st_component_id s = component_of node"
    and loads: "st_incremental s = fst (stage_incremental_of
       (rg_options (compile_options_for d (snd (remember now_utc report stored)))) kind (pn_id node) (component_of node)
       (nd_incremental (pn_data node)))"
    "\<forall>step. st_native s = Some step \<longrightarrow> ns_checkpoint step =
       (if ns_direction step = Ingest
        then given_checkpoint (compile_options_for d (snd (remember now_utc report stored))) (pn_id node) else None)"
    by (rule compiled_stage_node)
  have "\<exists>declared. nd_incremental (pn_data node) = Some declared \<and> si_column inc = inc_column declared \<and>
      si_since inc = (case resumes_at report stored (pn_id node) (inc_column declared) of
         Some v \<Rightarrow> Some v | None \<Rightarrow> inc_start declared)" if inc: "st_incremental s = Some inc" for inc
  proof -
    from inc loads(1) obtain declared where declared: "nd_incremental (pn_data node) = Some declared"
      by (cases "nd_incremental (pn_data node)") (simp_all add: stage_incremental_of_def)
    from inc loads(1) have "inc = \<lparr> si_column = inc_column declared, si_since =
        (case given_watermark (compile_options_for d (snd (remember now_utc report stored))) (pn_id node) of
           Some w \<Rightarrow> Some w | None \<Rightarrow> inc_start declared),
        si_probe = watermark_probe (pn_id node) (inc_column declared) \<rparr>"
      by (simp add: stage_incremental_of_def declared split: if_split_asm)
    then show ?thesis
      by (simp add: declared recalled(1) [OF node(1,2)] remembered_fits(1) resumes_at_def)
  qed
  moreover have "given_checkpoint (compile_options_for d (snd (remember now_utc report stored))) (pn_id node)
      = resumes_from report stored (pn_id node) (component_of node)"
    by (simp add: recalled(2) [OF node(1,2)] remembered_fits(2) resumes_from_def)
  ultimately show ?thesis
    using loads(2) by (intro bexI [OF _ node(2)]) (simp add: node(3,4))
qed

text \<open>The other half of the promise: a failed run changes nothing that is stored.\<close>

lemma failed_run_remembers_nothing:
  "report_failed report \<Longrightarrow> remember now_utc report stored = (remembered_default, stored)"
  by (simp add: remember_def)

lemma foldl_unmoved:
  fixes measured :: "'a \<Rightarrow> nat"
  assumes "\<And>acc x. measured acc \<le> measured (f acc x) \<and> (measured (f acc x) = measured acc \<longrightarrow> kept (f acc x) = kept acc)"
  shows "measured acc \<le> measured (foldl f acc xs) \<and>
    (measured (foldl f acc xs) = measured acc \<longrightarrow> kept (foldl f acc xs) = kept acc)"
proof (induction xs arbitrary: acc)
  case (Cons x xs)
  from Cons [of "f acc x"] assms [of acc x] show ?case by auto
qed simp

lemma unchanged_when_nothing_remembered:
  assumes "remember now_utc report stored = (r, stored')" "\<not> remembered_changed r"
  shows "stored' = stored"
proof (cases "report_failed report")
  case False
  let ?ws = "foldl (remember_watermark now_utc) (remembered_default, stored) (rr_watermarks report)"
  have "stamped (fst acc) \<le> stamped (fst (foldl (remember_watermark now_utc) acc ws)) \<and>
      (stamped (fst (foldl (remember_watermark now_utc) acc ws)) = stamped (fst acc) \<longrightarrow>
       snd (foldl (remember_watermark now_utc) acc ws) = snd acc)" for acc ws
    by (rule foldl_unmoved) (auto simp: remember_watermark_def stamped_def split: prod.split option.split)
  note marks = this [of "(remembered_default, stored)" "rr_watermarks report"]
  have "stamped (fst acc) \<le> stamped (fst (foldl (remember_checkpoint now_utc) acc cs)) \<and>
      (stamped (fst (foldl (remember_checkpoint now_utc) acc cs)) = stamped (fst acc) \<longrightarrow>
       snd (foldl (remember_checkpoint now_utc) acc cs) = snd acc)" for acc cs
    by (rule foldl_unmoved) (auto simp: remember_checkpoint_def stamped_def split: prod.split)
  note positions = this [of ?ws "rr_checkpoints report"]
  from assms(2) have "stamped r = 0" by (simp add: remembered_changed_def stamped_def)
  with assms(1) False marks positions show ?thesis by (simp add: remember_def)
next
  case True
  with assms(1) show ?thesis by (simp add: remember_def)
qed

section \<open>An example\<close>

definition marked_doc :: pipeline_doc where
  "marked_doc = (sample_doc [sample_edge ''a'' ''b''])
     \<lparr> doc_nodes := [(reading_node ''a'' False)
         \<lparr> pn_data := (pn_data (reading_node ''a'' False))
            \<lparr> nd_incremental := Some \<lparr> inc_column = ''id'', inc_start = Some ''0'', inc_extra = [] \<rparr> \<rparr> \<rparr>,
         sample_node ''b'' ''xf.distinct'' False] \<rparr>"

definition marked_report :: run_report where
  "marked_report = \<lparr> rr_stages = [], rr_elapsed = 0, rr_duckdb_bin = [], rr_script = [], rr_spilled = 0,
     rr_notes = [], rr_watermarks = [\<lparr> rw_node_id = ''a'', rw_column = ''id'', rw_value = Some ''42'' \<rparr>],
     rr_checkpoints = [], rr_warnings = [], rr_failures = [] \<rparr>"

definition marked_options :: compile_options where
  "marked_options = rg_options (compile_options_for marked_doc
     (snd (remember (\<lambda>_. ''2026-01-01T00:00:00Z'') marked_report pipeline_state_default)))"

lemma marked_plan:
  "case compile_with two_components (\<lambda>_. None) marked_options marked_doc of
     Inr p \<Rightarrow> map (\<lambda>s. (st_node_id s, st_incremental s = None)) (pl_stages p) = [(''a'', False), (''b'', True)]
   | Inl _ \<Rightarrow> False"
  by code_simp

theorem next_run_resumes_witness:
  "\<exists>p s inc. compile_with two_components (\<lambda>_. None) marked_options marked_doc = Inr p \<and> s \<in> set (pl_stages p) \<and>
     st_incremental s = Some inc \<and> si_since inc = Some ''42''"
proof -
  obtain p where p: "compile_with two_components (\<lambda>_. None) marked_options marked_doc = Inr p"
    and shape: "map (\<lambda>s. (st_node_id s, st_incremental s = None)) (pl_stages p) = [(''a'', False), (''b'', True)]"
    using marked_plan by (auto split: sum.splits)
  from shape have "\<exists>s\<in>set (pl_stages p). st_node_id s = ''a'' \<and> st_incremental s \<noteq> None"
    by (auto simp: map_eq_Cons_conv)
  then obtain s inc where s: "s \<in> set (pl_stages p)" "st_node_id s = ''a''" "st_incremental s = Some inc"
    by blast
  from next_run_resumes [OF p [unfolded marked_options_def] s(1)] s(2,3) obtain node declared where
    "node \<in> set (doc_nodes marked_doc)" "pn_id node = ''a''" "nd_incremental (pn_data node) = Some declared"
    and since: "si_since inc = (case resumes_at marked_report pipeline_state_default ''a'' (inc_column declared) of
      Some v \<Rightarrow> Some v | None \<Rightarrow> inc_start declared)" by metis
  then have "inc_column declared = ''id''"
    by (auto simp: marked_doc_def reading_node_def sample_node_def sample_data_def)
  with since have "si_since inc = Some ''42''"
    by (simp add: resumes_at_def last_reported_def report_failed_def marked_report_def)
  with p s show ?thesis by blast
qed

end
