(* ===== verification/Lineage.thy ===== *)
theory Lineage
  imports Plan_Compile Exec_World
begin

text \<open>
  What is said about a plan and about a run: the lineage derived from a compiled plan
  (\<^verbatim>\<open>crates/duckdb-engine/src/lineage.rs\<close>) and the lines of a report (\<^verbatim>\<open>report.rs\<close>). The theorem ties
  the lineage to the document the plan was compiled from. Times are counted in milliseconds; text
  beyond ASCII is written as its UTF-8 bytes, so a column counts characters, not bytes.
\<close>

section \<open>Lineage\<close>

record lineage_node =
  ln_id :: str
  ln_label :: str
  ln_component_id :: str
  ln_kind :: str
  ln_external :: "str option"
  ln_incremental_column :: "str option"
  ln_columns :: "str list option"

record lineage_edge =
  le_from :: str
  le_to :: str
  le_port :: str

record external_end =
  ex_node_id :: str
  ex_component_id :: str
  ex_name :: str

record lineage =
  lg_format_version :: nat
  lg_nodes :: "lineage_node list"
  lg_edges :: "lineage_edge list"
  lg_inputs :: "external_end list"
  lg_outputs :: "external_end list"

definition kind_name :: "stage_kind \<Rightarrow> str" where
  "kind_name k = (case k of
     StSource \<Rightarrow> ''source'' | StTransform \<Rightarrow> ''transform'' | StSink \<Rightarrow> ''sink''
   | StQuality \<Rightarrow> ''quality'' | StControl \<Rightarrow> ''control'')"

definition lineage_node_of :: "stage \<Rightarrow> lineage_node" where
  "lineage_node_of s = \<lparr> ln_id = st_node_id s, ln_label = st_label s, ln_component_id = st_component_id s,
     ln_kind = kind_name (st_kind s), ln_external = st_external s,
     ln_incremental_column = map_option si_column (st_incremental s), ln_columns = None \<rparr>"

definition lineage_edges_of :: "stage \<Rightarrow> lineage_edge list" where
  "lineage_edges_of s = map (\<lambda>i. \<lparr> le_from = in_node_id i, le_to = st_node_id s,
     le_port = (case in_source_handle i of Some h \<Rightarrow> h | None \<Rightarrow> MAIN_PORT) \<rparr>) (st_inputs s)"

definition external_ends :: "plan \<Rightarrow> stage_kind \<Rightarrow> external_end list" where
  "external_ends p wanted = filter_map
     (\<lambda>s. map_option (\<lambda>name. \<lparr> ex_node_id = st_node_id s, ex_component_id = st_component_id s,
        ex_name = name \<rparr>) (st_external s))
     (filter (\<lambda>s. st_kind s = wanted) (pl_stages p))"

definition lineage_of :: "plan \<Rightarrow> lineage" where
  "lineage_of p = \<lparr> lg_format_version = pl_format_version p,
     lg_nodes = map lineage_node_of (pl_stages p),
     lg_edges = concat (map lineage_edges_of (pl_stages p)),
     lg_inputs = external_ends p StSource, lg_outputs = external_ends p StSink \<rparr>"

section \<open>A report, line by line\<close>

definition is_continuation :: "char \<Rightarrow> bool" where
  "is_continuation c \<longleftrightarrow> 128 \<le> (of_char c :: nat) \<and> (of_char c :: nat) < 192"

definition char_count :: "str \<Rightarrow> nat" where
  "char_count s = length (filter (\<lambda>c. \<not> is_continuation c) s)"

definition pad_left :: "nat \<Rightarrow> str \<Rightarrow> str" where
  "pad_left n s = replicate (n - char_count s) (CHR '' '') @ s"

definition pad_right :: "nat \<Rightarrow> str \<Rightarrow> str" where
  "pad_right n s = s @ replicate (n - char_count s) (CHR '' '')"

definition outcome_line :: "nat \<Rightarrow> stage_outcome \<Rightarrow> str" where
  "outcome_line width o1 =
     (let rows = (case (so_skipped o1, so_rows o1) of
            (Some reason, _) \<Rightarrow> skip_describe reason
          | (None, Some n) \<Rightarrow> show_nat n @ '' rows''
          | (None, None) \<Rightarrow> ''-'');
          rejected = (case so_rejected o1 of Some n \<Rightarrow> ''  '' @ show_nat n @ '' rejected'' | None \<Rightarrow> []);
          took = (case so_elapsed o1 of Some ms \<Rightarrow> ''  '' @ show_nat ms @ ''ms'' | None \<Rightarrow> [])
      in ''  '' @ pad_right width (so_label o1) @ ''  '' @ pad_left 12 rows @ ''  '' @
         so_component_id o1 @ rejected @ took)"

definition report_lines :: "run_report \<Rightarrow> str list" where
  "report_lines r =
     (let width = foldr max (map (\<lambda>o1. char_count (so_label o1)) (rr_stages r)) 0
      in map (outcome_line width) (rr_stages r) @
         map (\<lambda>f. ''  ! '' @ sf_label f @ '' ('' @ sf_node_id f @ ''): '' @ sf_message f) (rr_failures r) @
         map (\<lambda>note. ''  '' @ [CHR 0xC2, CHR 0xB7] @ '' '' @ note) (rr_notes r) @
         map (\<lambda>w. ''  '' @ [CHR 0xE2, CHR 0x9A, CHR 0xA0] @ '' '' @ w) (rr_warnings r))"

section \<open>Lineage is the document that runs\<close>

lemma lineage_edge_set:
  "set (lg_edges (lineage_of p)) = {\<lparr> le_from = in_node_id i, le_to = st_node_id s,
     le_port = (case in_source_handle i of Some h \<Rightarrow> h | None \<Rightarrow> MAIN_PORT) \<rparr> | s i.
       s \<in> set (pl_stages p) \<and> i \<in> set (st_inputs s)}"
  by (auto simp: lineage_of_def lineage_edges_of_def)

lemma edge_resolved:
  assumes "resolve_edges d idx = Inr es" "e \<in> set (doc_edges d)"
  shows "\<exists>r\<in>set es. resolve_edge idx e = Inr r"
proof -
  from assms(1) have all: "list_all2 (\<lambda>e r. resolve_edge idx e = Inr r) (doc_edges d) es"
    by (simp add: resolve_edges_def traverse_Inr_iff)
  from assms(2) obtain j where "j < length (doc_edges d)" "e = doc_edges d ! j"
    by (auto simp: in_set_conv_nth)
  with all show ?thesis by (auto simp: list_all2_conv_all_nth intro!: bexI [of _ "es ! j"])
qed

lemma compiled_edge_ends:
  assumes "compile_with reg conns opts d = Inr pl" "e \<in> set (doc_edges d)"
  shows "pe_target e \<in> pn_id ` set (doc_nodes d)"
proof -
  from assms(1) obtain idx es where idx: "build_index 0 [] (doc_nodes d) = Inr idx"
    and es: "resolve_edges d idx = Inr es" by (rule compile_with_Inr)
  from edge_resolved [OF es assms(2)] obtain r where "resolve_edge idx e = Inr r" by blast
  from resolve_edge_ok [OF idx this] show ?thesis by (metis id_at_def imageI nth_mem)
qed

lemma compiled_edge_is_input:
  assumes "compile_with reg conns opts d = Inr pl" "e \<in> set (doc_edges d)"
    and "s \<in> set (pl_stages pl)" "st_node_id s = pe_target e"
  shows "\<exists>i\<in>set (st_inputs s). in_node_id i = pe_source e \<and> in_source_handle i = pe_source_handle e"
proof -
  from assms(1,3) obtain idx kinds es p n where p: "p < length (doc_nodes d)"
    and idx: "build_index 0 [] (doc_nodes d) = Inr idx" and es: "resolve_edges d idx = Inr es"
    and b: "build_stage reg conns d kinds es opts p = Inr (s, n)" by (rule compiled_stage_at)
  note f = build_stage_Inr(1,2) [OF b]
  from edge_resolved [OF es assms(2)] obtain r where r: "r \<in> set es" "resolve_edge idx e = Inr r" by blast
  from resolve_edge_ok [OF idx r(2)] have ok: "pe_source e = id_at d (re_source r)"
    "pe_target e = id_at d (re_target r)" "pe_source_handle e = re_source_handle r" by auto
  have "(re_source r, re_target r) \<in> edge_rel es" using r(1) by (auto simp: edge_rel_iff)
  with resolved_edges_ids(1,3) [OF idx es] p f(1) ok(2) assms(4) have "re_target r = p"
    by (auto simp: inj_on_def)
  with r(1) ok f(2) show ?thesis by (auto simp: stage_inputs_def)
qed

text \<open>
  C16: The lineage of a compiled plan is the part of the document that runs: one node for each stage,
  in the order of the run, and an edge from one node's port to another exactly where the document
  draws it into a node that is not switched off, an unset handle being the port \<^verbatim>\<open>main\<close>; both ends
  of every edge are nodes of the lineage.
\<close>

theorem lineage_is_the_document:
  assumes "compile_with reg conns opts d = Inr pl"
  shows "map ln_id (lg_nodes (lineage_of pl)) = plan_order pl \<and>
    set (lg_edges (lineage_of pl)) =
      {\<lparr> le_from = pe_source e, le_to = pe_target e,
         le_port = (case pe_source_handle e of Some h \<Rightarrow> h | None \<Rightarrow> MAIN_PORT) \<rparr> | e.
         e \<in> set (doc_edges d) \<and> \<not> switched_off_above d (pe_target e)} \<and>
    (\<forall>e\<in>set (lg_edges (lineage_of pl)).
       {le_from e, le_to e} \<subseteq> ln_id ` set (lg_nodes (lineage_of pl)))"
proof (intro conjI)
  show nodes: "map ln_id (lg_nodes (lineage_of pl)) = plan_order pl"
    by (simp add: lineage_of_def lineage_node_of_def plan_order_def)
  note order = compiled_order [OF assms]
  show "set (lg_edges (lineage_of pl)) = {\<lparr> le_from = pe_source e, le_to = pe_target e,
         le_port = (case pe_source_handle e of Some h \<Rightarrow> h | None \<Rightarrow> MAIN_PORT) \<rparr> | e.
         e \<in> set (doc_edges d) \<and> \<not> switched_off_above d (pe_target e)}" (is "?found = ?drawn")
  proof (intro set_eqI iffI)
    fix x assume "x \<in> ?found"
    then obtain s i where x: "x = \<lparr> le_from = in_node_id i, le_to = st_node_id s,
        le_port = (case in_source_handle i of Some h \<Rightarrow> h | None \<Rightarrow> MAIN_PORT) \<rparr>"
      and s: "s \<in> set (pl_stages pl)" "i \<in> set (st_inputs s)" unfolding lineage_edge_set by blast
    from compiled_inputs [OF assms s] obtain e where e: "e \<in> set (doc_edges d)"
      "pe_source e = in_node_id i" "pe_target e = st_node_id s" "pe_source_handle e = in_source_handle i" by blast
    moreover from s(1) have "st_node_id s \<in> set (plan_order pl)" by (simp add: plan_order_def)
    with order e(3) have "\<not> switched_off_above d (pe_target e)" by auto
    ultimately show "x \<in> ?drawn" unfolding x by (intro CollectI exI [of _ e]) simp
  next
    fix x assume "x \<in> ?drawn"
    then obtain e where x: "x = \<lparr> le_from = pe_source e, le_to = pe_target e,
         le_port = (case pe_source_handle e of Some h \<Rightarrow> h | None \<Rightarrow> MAIN_PORT) \<rparr>"
      and e: "e \<in> set (doc_edges d)" "\<not> switched_off_above d (pe_target e)" by blast
    have "pe_target e \<in> pn_id ` set (doc_nodes d)" by (rule compiled_edge_ends [OF assms e(1)])
    with order e(2) have "pe_target e \<in> set (plan_order pl)" by blast
    then obtain s where s: "s \<in> set (pl_stages pl)" "st_node_id s = pe_target e"
      by (auto simp: plan_order_def)
    from compiled_edge_is_input [OF assms e(1) s] obtain i where "i \<in> set (st_inputs s)"
      "in_node_id i = pe_source e" "in_source_handle i = pe_source_handle e" by blast
    with s show "x \<in> ?found" unfolding x lineage_edge_set
      by (intro CollectI exI [of _ s] exI [of _ i]) simp
  qed
  show "\<forall>e\<in>set (lg_edges (lineage_of pl)). {le_from e, le_to e} \<subseteq> ln_id ` set (lg_nodes (lineage_of pl))"
  proof
    fix x assume "x \<in> set (lg_edges (lineage_of pl))"
    then obtain s i where x: "le_from x = in_node_id i" "le_to x = st_node_id s"
      and s: "s \<in> set (pl_stages pl)" "i \<in> set (st_inputs s)" unfolding lineage_edge_set by force
    from compiled_inputs [OF assms s] obtain e where e: "e \<in> set (doc_edges d)"
      "pe_source e = in_node_id i" "pe_target e = st_node_id s" by blast
    moreover from s(1) have "st_node_id s \<in> set (plan_order pl)" by (simp add: plan_order_def)
    ultimately have "before_in (plan_order pl) (in_node_id i) (st_node_id s)" using order by metis
    then have "in_node_id i \<in> set (plan_order pl)" unfolding before_in_def by (metis nth_mem less_trans)
    moreover from s(1) have "st_node_id s \<in> set (plan_order pl)" by (simp add: plan_order_def)
    moreover from nodes have "ln_id ` set (lg_nodes (lineage_of pl)) = set (plan_order pl)" by (metis set_map)
    ultimately show "{le_from x, le_to x} \<subseteq> ln_id ` set (lg_nodes (lineage_of pl))" using x by simp
  qed
qed

theorem lineage_is_the_document_witness:
  "\<exists>p. small_plan ''a'' = Inr p \<and>
     \<lparr> le_from = ''a'', le_to = ''b'', le_port = ''main'' \<rparr> \<in> set (lg_edges (lineage_of p))"
proof -
  obtain p where p: "small_plan ''a'' = Inr p" "plan_order p = [''a'', ''b'']" by (rule small_plan_Inr)
  then have compiled: "compile_with two_components (\<lambda>_. None) compile_options_default (small_doc ''a'') = Inr p"
    by (simp add: small_plan_def compile_def)
  have "\<not> switched_off_above (small_doc ''a'') ''b''" using compiled_order [OF compiled] p(2) by auto
  moreover have "sample_edge ''a'' ''b'' \<in> set (doc_edges (small_doc ''a''))"
    by (simp add: small_doc_def sample_doc_def)
  ultimately have "\<lparr> le_from = ''a'', le_to = ''b'', le_port = ''main'' \<rparr> \<in> set (lg_edges (lineage_of p))"
    unfolding lineage_is_the_document [OF compiled, THEN conjunct2, THEN conjunct1]
    by (intro CollectI exI [of _ "sample_edge ''a'' ''b''"]) (simp add: sample_edge_def MAIN_PORT_def)
  with p show ?thesis by blast
qed

end
