(* ===== verification/Runner_Payload.thy ===== *)
theory Runner_Payload
  imports Pipeline_Doc "HOL-Library.Word"
begin

text \<open>
  A pipeline baked into an executable (\<^verbatim>\<open>crates/runner/src/lib.rs\<close>): the payload appended after the
  runner's own bytes and found again by reading backwards from the end of the file. Files are a
  partial map from paths to bytes, absent where the operating system refuses to read. The header is
  \<^verbatim>\<open>serde_json\<close>'s, so its printer and its two readers (of the version alone, and of the whole) are
  arguments. Lengths in the file are 64-bit words, and a sum of them that overflows is checked.
\<close>

unbundle bit_operations_syntax

section \<open>Words in a file\<close>

type_synonym octets = "8 word list"

type_synonym file_store = "str \<Rightarrow> octets option"

definition to_le_bytes :: "64 word \<Rightarrow> octets" where
  "to_le_bytes w = map (\<lambda>i. ucast (drop_bit (8 * i) w)) [0..<8]"

definition from_le_bytes :: "octets \<Rightarrow> 64 word" where
  "from_le_bytes bs = word_rcat (rev bs)"

definition checked_add_u64 :: "64 word \<Rightarrow> 64 word \<Rightarrow> 64 word option" where
  "checked_add_u64 a b = (if unat a + unat b < 2 ^ 64 then Some (a + b) else None)"

definition saturating_add_u64 :: "64 word \<Rightarrow> 64 word \<Rightarrow> 64 word" where
  "saturating_add_u64 a b = (if unat a + unat b < 2 ^ 64 then a + b else - 1)"

definition FNV_OFFSET :: "64 word" where "FNV_OFFSET = 0xcbf29ce484222325"

definition FNV_PRIME :: "64 word" where "FNV_PRIME = 0x1000000001b3"

definition fnv1a :: "octets \<Rightarrow> 64 word" where
  "fnv1a bs = foldl (\<lambda>hash byte. (hash XOR ucast byte) * FNV_PRIME) FNV_OFFSET bs"

section \<open>The payload\<close>

definition MAGIC :: "64 word" where
  "MAGIC = from_le_bytes [0x45, 0x54, 0x4C, 0x42, 0x41, 0x4B, 0x45, 0x31]"

definition TRAILER_LEN :: nat where "TRAILER_LEN = 24"

definition PAYLOAD_FORMAT_VERSION :: nat where "PAYLOAD_FORMAT_VERSION = 1"

datatype payload_error =
    Unreadable str
  | Unwritable str
  | NoSelf
  | Incompatible str nat
  | Corrupt str
  | Truncated str nat nat
  | AlreadyBaked str
  | UnsafeName str

datatype file_role = RoleEngine | RoleExtension

record embedded_file =
  ef_name :: str
  ef_role :: file_role
  ef_offset :: "64 word"
  ef_length :: "64 word"
  ef_executable :: bool
  ef_extra :: "(str, json) om"

record payload =
  py_format_version :: nat
  py_name :: str
  py_built_at :: str
  py_pipeline :: pipeline_doc
  py_files :: "embedded_file list"
  py_duckdb_version :: str
  py_platform :: str
  py_blob_digest :: "64 word"
  py_carries_secrets :: bool
  py_extra :: "(str, json) om"

definition payload_new :: "str \<Rightarrow> str \<Rightarrow> pipeline_doc \<Rightarrow> payload" where
  "payload_new name built_at d = \<lparr> py_format_version = PAYLOAD_FORMAT_VERSION, py_name = name,
     py_built_at = built_at, py_pipeline = d, py_files = [], py_duckdb_version = [], py_platform = [],
     py_blob_digest = 0, py_carries_secrets = False, py_extra = [] \<rparr>"

record blobs =
  bl_path :: str
  bl_start :: nat
  bl_length :: nat
  bl_key :: "64 word"

definition blobs_is_empty :: "blobs \<Rightarrow> bool" where
  "blobs_is_empty b \<longleftrightarrow> bl_length b = 0"

section \<open>Reading\<close>

definition find_trailer :: "str \<Rightarrow> octets \<Rightarrow> payload_error + (nat \<times> nat) option" where
  "find_trailer path content =
     (let total = length content
      in if total < TRAILER_LEN then Inr None
      else let trailer = drop (total - TRAILER_LEN) content;
               header_len = from_le_bytes (take 8 trailer);
               blob_len = from_le_bytes (take 8 (drop 8 trailer));
               magic = from_le_bytes (take 8 (drop 16 trailer))
           in if magic \<noteq> MAGIC then Inr None
           else (case Option.bind (checked_add_u64 (of_nat TRAILER_LEN) header_len)
                    (\<lambda>sum. checked_add_u64 sum blob_len) of
               None \<Rightarrow> Inl (Truncated path (2 ^ 64 - 1) total)
             | Some claimed \<Rightarrow>
                 if total < unat claimed then Inl (Truncated path (unat claimed) total)
                 else Inr (Some (unat header_len, unat blob_len))))"

definition read_header :: "(octets \<Rightarrow> nat option) \<Rightarrow> (octets \<Rightarrow> payload option) \<Rightarrow> str \<Rightarrow> octets
    \<Rightarrow> payload_error + payload" where
  "read_header probe parse path header = (case probe header of
     None \<Rightarrow> Inl (Corrupt path)
   | Some found \<Rightarrow>
       if found \<noteq> PAYLOAD_FORMAT_VERSION then Inl (Incompatible path found)
       else ok_or (Corrupt path) (parse header))"

definition read_from :: "(octets \<Rightarrow> nat option) \<Rightarrow> (octets \<Rightarrow> payload option) \<Rightarrow> file_store \<Rightarrow> str
    \<Rightarrow> payload_error + (payload \<times> blobs) option" where
  "read_from probe parse files path = (case files path of
     None \<Rightarrow> Inl (Unreadable path)
   | Some content \<Rightarrow>
       and_then (find_trailer path content) (\<lambda>found. case found of
         None \<Rightarrow> Inr None
       | Some (header_len, blob_len) \<Rightarrow>
           (let header_at = length content - TRAILER_LEN - header_len;
                header = take header_len (drop header_at content)
            in and_then (read_header probe parse path header) (\<lambda>p.
               Inr (Some (p, \<lparr> bl_path = path, bl_start = length content - TRAILER_LEN - header_len - blob_len,
                 bl_length = blob_len, bl_key = fnv1a header \<rparr>))))))"

definition blobs_read :: "file_store \<Rightarrow> blobs \<Rightarrow> embedded_file \<Rightarrow> payload_error + octets" where
  "blobs_read files b f =
     (if (case checked_add_u64 (ef_offset f) (ef_length f) of
            Some stop \<Rightarrow> unat stop \<le> bl_length b | None \<Rightarrow> False)
      then (case files (bl_path b) of
              None \<Rightarrow> Inl (Unreadable (bl_path b))
            | Some content \<Rightarrow>
                (let at = bl_start b + unat (ef_offset f)
                 in if length content < at + unat (ef_length f) then Inl (Unreadable (bl_path b))
                    else Inr (take (unat (ef_length f)) (drop at content))))
      else Inl (Truncated (bl_path b) (unat (saturating_add_u64 (ef_offset f) (ef_length f))) (bl_length b)))"

section \<open>Writing\<close>

text \<open>
  How far the operating system lets the writing get: a copy or an append that fails may have written some of
  it. A copy of a file onto itself truncates it, as the documentation of \<^verbatim>\<open>fs::copy\<close> says.
\<close>

datatype build_io = BuildOk | CopyFails "nat option" | AppendFails nat | ModeFails

definition trailer_of :: "nat \<Rightarrow> nat \<Rightarrow> octets" where
  "trailer_of header_len blob_len =
     to_le_bytes (of_nat header_len) @ to_le_bytes (of_nat blob_len) @ to_le_bytes MAGIC"

definition copied :: "file_store \<Rightarrow> str \<Rightarrow> str \<Rightarrow> octets" where
  "copied files runner destination = (if destination = runner then [] else the (files runner))"

definition write_built :: "(octets \<Rightarrow> nat option) \<Rightarrow> (octets \<Rightarrow> payload option) \<Rightarrow> (payload \<Rightarrow> octets)
    \<Rightarrow> build_io \<Rightarrow> str \<Rightarrow> str \<Rightarrow> octets \<Rightarrow> payload \<Rightarrow> file_store
    \<Rightarrow> (payload_error + unit) \<times> payload \<times> file_store" where
  "write_built probe parse ser io runner destination region p files =
     (case read_from probe parse files runner of
        Inl e \<Rightarrow> (Inl e, p, files)
      | Inr (Some _) \<Rightarrow> (Inl (AlreadyBaked runner), p, files)
      | Inr None \<Rightarrow>
          (let p' = p\<lparr> py_blob_digest := fnv1a region \<rparr>;
               header = ser p';
               own = copied files runner destination;
               appended = region @ header @ trailer_of (length header) (length region)
           in case io of
                CopyFails None \<Rightarrow> (Inl (Unwritable destination), p', files)
              | CopyFails (Some n) \<Rightarrow> (Inl (Unwritable destination), p', files(destination \<mapsto> take n own))
              | AppendFails n \<Rightarrow> (Inl (Unwritable destination), p', files(destination \<mapsto> own @ take n appended))
              | ModeFails \<Rightarrow> (Inl (Unwritable destination), p', files(destination \<mapsto> own @ appended))
              | BuildOk \<Rightarrow> (Inr (), p', files(destination \<mapsto> own @ appended))))"

section \<open>What was baked is what is read\<close>

lemma le_bytes_length [simp]: "length (to_le_bytes w) = 8"
  by (simp add: to_le_bytes_def)

lemma le_bytes [simp]: "from_le_bytes (to_le_bytes w) = w"
proof (rule bit_word_eqI)
  fix n assume n: "n < LENGTH(64)"
  have "n mod 8 < 8" by simp
  moreover from n have "n div 8 < 8" by simp
  ultimately have "bit (horner_sum uint (2 ^ LENGTH(8)) (to_le_bytes w)) n \<longleftrightarrow> bit w n"
    unfolding bit_horner_sum_uint_exp_iff by (simp add: to_le_bytes_def bit_simps)
  with n show "bit (from_le_bytes (to_le_bytes w)) n \<longleftrightarrow> bit w n"
    by (simp add: from_le_bytes_def word_rcat_def bit_simps)
qed

lemma trailer_parts:
  "length (trailer_of h b) = TRAILER_LEN"
  "from_le_bytes (take 8 (trailer_of h b)) = of_nat h"
  "from_le_bytes (take 8 (drop 8 (trailer_of h b))) = of_nat b"
  "from_le_bytes (take 8 (drop 16 (trailer_of h b))) = MAGIC"
  by (simp_all add: trailer_of_def TRAILER_LEN_def)

lemma checked_add_u64_Some_iff: "checked_add_u64 a b = Some c \<longleftrightarrow> unat a + unat b < 2 ^ 64 \<and> c = a + b"
  by (auto simp: checked_add_u64_def)

lemma unat_checked: "checked_add_u64 a b = Some c \<Longrightarrow> unat c = unat a + unat b"
  by (auto simp: checked_add_u64_Some_iff unat_add_lem [THEN iffD1])

lemma claimed_sum:
  fixes header region :: nat
  assumes "TRAILER_LEN + header + region < 2 ^ 64"
  shows "\<exists>c. Option.bind (checked_add_u64 (of_nat TRAILER_LEN) (of_nat header))
      (\<lambda>sum. checked_add_u64 sum (of_nat region)) = Some c \<and> unat c = TRAILER_LEN + header + region"
proof -
  from assms have small: "unat (of_nat TRAILER_LEN :: 64 word) = TRAILER_LEN"
    "unat (of_nat header :: 64 word) = header" "unat (of_nat region :: 64 word) = region"
    by (simp_all add: unat_of_nat TRAILER_LEN_def)
  have first: "checked_add_u64 (of_nat TRAILER_LEN) (of_nat header) = Some (of_nat TRAILER_LEN + of_nat header)"
    using assms small by (simp add: checked_add_u64_Some_iff)
  from unat_checked [OF this] small have u: "unat (of_nat TRAILER_LEN + of_nat header :: 64 word) = TRAILER_LEN + header"
    by simp
  have second: "checked_add_u64 (of_nat TRAILER_LEN + of_nat header) (of_nat region)
      = Some (of_nat TRAILER_LEN + of_nat header + of_nat region)"
    using assms small u by (simp add: checked_add_u64_Some_iff)
  from unat_checked [OF second] u small first second show ?thesis by simp
qed

lemma read_built:
  assumes "files path = Some (own @ region @ header @ trailer_of (length header) (length region))"
    and "length (own @ region @ header @ trailer_of (length header) (length region)) < 2 ^ 64"
    and "probe header = Some PAYLOAD_FORMAT_VERSION" "parse header = Some p"
  shows "read_from probe parse files path = Inr (Some (p, \<lparr> bl_path = path, bl_start = length own,
     bl_length = length region, bl_key = fnv1a header \<rparr>))"
proof -
  let ?t = "trailer_of (length header) (length region)"
  let ?content = "own @ region @ header @ ?t"
  have len: "length ?content = length own + length region + length header + TRAILER_LEN"
    by (simp add: trailer_parts)
  from assms(2) len have fits: "TRAILER_LEN + length header + length region < 2 ^ 64" by simp
  have small: "unat (of_nat (length header) :: 64 word) = length header"
    "unat (of_nat (length region) :: 64 word) = length region"
    using fits by (simp_all add: unat_of_nat)
  obtain c where c: "Option.bind (checked_add_u64 (of_nat TRAILER_LEN) (of_nat (length header)))
      (\<lambda>sum. checked_add_u64 sum (of_nat (length region))) = Some c"
    "unat c = TRAILER_LEN + length header + length region" using claimed_sum [OF fits] by blast
  have trailer: "drop (length ?content - TRAILER_LEN) ?content = ?t"
    by (simp add: trailer_parts)
  have header: "take (length header) (drop (length ?content - TRAILER_LEN - length header) ?content) = header"
    by (simp add: trailer_parts)
  have "find_trailer path ?content = Inr (Some (length header, length region))"
    unfolding find_trailer_def Let_def trailer trailer_parts(2-4) c(1) small
    by (simp add: c(2) trailer_parts(1))
  moreover have "read_header probe parse path header = Inr p"
    by (simp add: read_header_def assms(3,4))
  ultimately show ?thesis
    unfolding read_from_def assms(1) by (simp add: Let_def trailer_parts(1))
qed

text \<open>
  What was baked is what is read. A payload appended to a plain runner is found again at the end
  of the built file, whole, with the digest of its files; every embedded file is read back byte for
  byte from where the header says; and a file with a payload is refused as a runner, so nothing is
  ever baked in twice. (\<^verbatim>\<open>serde_json\<close> is to read back what it printed, and the file is to be shorter
  than \<open>2 ^ 64\<close> bytes.)
\<close>

lemma built_then_read:
  assumes "write_built probe parse ser BuildOk runner destination region p files = (Inr (), p', files')"
    and "probe (ser p') = Some PAYLOAD_FORMAT_VERSION" "parse (ser p') = Some p'"
    and "\<forall>content. files' destination = Some content \<longrightarrow> length content < 2 ^ 64"
  shows "p' = p\<lparr> py_blob_digest := fnv1a region \<rparr> \<and>
    (\<exists>b. read_from probe parse files' destination = Inr (Some (p', b)) \<and>
       bl_length b = length region \<and> bl_key b = fnv1a (ser p') \<and>
       (\<forall>f. unat (ef_offset f) + unat (ef_length f) \<le> length region \<longrightarrow>
          blobs_read files' b f = Inr (take (unat (ef_length f)) (drop (unat (ef_offset f)) region)))) \<and>
    (\<forall>io elsewhere other q.
       fst (write_built probe parse ser io destination elsewhere other q files') = Inl (AlreadyBaked destination))"
proof -
  let ?p = "p\<lparr> py_blob_digest := fnv1a region \<rparr>"
  let ?own = "copied files runner destination"
  from assms(1) have p': "p' = ?p" and files': "files' = files(destination \<mapsto> ?own @ region @ ser ?p @
      trailer_of (length (ser ?p)) (length region))"
    by (auto simp: write_built_def Let_def split: sum.splits option.splits)
  let ?b = "\<lparr> bl_path = destination, bl_start = length ?own, bl_length = length region, bl_key = fnv1a (ser ?p) \<rparr>"
  have read: "read_from probe parse files' destination = Inr (Some (p', ?b))"
    using assms(2-4) unfolding p' by (intro read_built) (simp_all add: files')
  have embedded: "blobs_read files' ?b f = Inr (take (unat (ef_length f)) (drop (unat (ef_offset f)) region))"
    if fits: "unat (ef_offset f) + unat (ef_length f) \<le> length region" for f
  proof -
    have "length region < 2 ^ 64" using assms(4) by (simp add: files')
    with fits have "checked_add_u64 (ef_offset f) (ef_length f) = Some (ef_offset f + ef_length f)"
      by (simp add: checked_add_u64_Some_iff)
    moreover from unat_checked [OF this] fits have "unat (ef_offset f + ef_length f) \<le> length region" by simp
    ultimately show ?thesis using fits by (simp add: blobs_read_def files')
  qed
  have "fst (write_built probe parse ser io destination elsewhere other q files') = Inl (AlreadyBaked destination)"
    for io elsewhere other q by (simp add: write_built_def read)
  with p' read embedded show ?thesis by (intro conjI exI [of _ ?b]) auto
qed

definition plain_payload :: payload where
  "plain_payload = payload_new ''p'' ''2026-01-01T00:00:00Z'' \<lparr> doc_format_version = 1, doc_name = None,
     doc_nodes = [], doc_edges = [], doc_resource_pool = [], doc_parameters = [], doc_extra = [] \<rparr>"

lemma built_then_read_witness:
  "\<exists>p' files' b. write_built (\<lambda>_. Some 1) (\<lambda>_. Some (plain_payload\<lparr> py_blob_digest := fnv1a [1, 2, 3, 4] \<rparr>))
      (\<lambda>_. [7]) BuildOk ''runner'' ''out'' [1, 2, 3, 4] plain_payload [''runner'' \<mapsto> [9, 9]] = (Inr (), p', files') \<and>
    read_from (\<lambda>_. Some 1) (\<lambda>_. Some (plain_payload\<lparr> py_blob_digest := fnv1a [1, 2, 3, 4] \<rparr>)) files' ''out'' = Inr (Some (p', b)) \<and>
    blobs_read files' b \<lparr> ef_name = ''duckdb'', ef_role = RoleEngine, ef_offset = 1, ef_length = 2,
      ef_executable = True, ef_extra = [] \<rparr> = Inr [2, 3]"
proof -
  let ?probe = "\<lambda>_ :: octets. Some 1" and ?baked = "plain_payload\<lparr> py_blob_digest := fnv1a [1, 2, 3, 4] \<rparr>"
  obtain r p' files' where built: "write_built ?probe (\<lambda>_. Some ?baked) (\<lambda>_. [7]) BuildOk ''runner'' ''out''
      [1, 2, 3, 4] plain_payload [''runner'' \<mapsto> [9, 9]] = (r, p', files')" by (metis prod_cases3)
  have plain: "read_from ?probe (\<lambda>_. Some ?baked) [''runner'' \<mapsto> [9, 9]] ''runner'' = Inr None"
    by (simp add: read_from_def find_trailer_def TRAILER_LEN_def)
  with built have r: "r = Inr ()" "p' = ?baked"
    and content: "files' ''out'' = Some ([9, 9] @ [1, 2, 3, 4] @ [7] @ trailer_of (length [7 :: 8 word]) (length [1, 2, 3, 4 :: 8 word]))"
    by (auto simp: write_built_def Let_def copied_def)
  have facts: "?probe [7] = Some PAYLOAD_FORMAT_VERSION" "Some ?baked = Some p'"
    "\<forall>c. files' ''out'' = Some c \<longrightarrow> length c < 2 ^ 64"
    by (simp_all add: PAYLOAD_FORMAT_VERSION_def r content trailer_parts(1) TRAILER_LEN_def)
  from built_then_read [OF built [unfolded r(1)] facts] obtain b where
    b: "read_from ?probe (\<lambda>_. Some ?baked) files' ''out'' = Inr (Some (p', b))"
    "\<forall>f. unat (ef_offset f) + unat (ef_length f) \<le> length [1, 2, 3, 4 :: 8 word] \<longrightarrow>
       blobs_read files' b f = Inr (take (unat (ef_length f)) (drop (unat (ef_offset f)) [1, 2, 3, 4]))" by metis
  have "blobs_read files' b \<lparr> ef_name = ''duckdb'', ef_role = RoleEngine, ef_offset = 1, ef_length = 2,
      ef_executable = True, ef_extra = [] \<rparr> = Inr [2, 3]" by (subst b(2) [rule_format]) simp_all
  with b(1) built r show ?thesis by blast
qed

text \<open>
  Nothing keeps a build from writing over the runner it copies: it then reports success, and leaves the
  payload with no program before it.
\<close>

lemma built_over_its_runner:
  assumes "read_from probe parse files runner = Inr None"
  shows "\<exists>p' header. write_built probe parse ser BuildOk runner runner region p files =
    (Inr (), p', files(runner \<mapsto> region @ header @ trailer_of (length header) (length region)))"
  using assms by (simp add: write_built_def copied_def Let_def) blast

text \<open>A build changes its destination and no other file.\<close>

lemma write_built_elsewhere:
  "write_built probe parse ser io runner destination region p files = (r, p', files') \<Longrightarrow> q \<noteq> destination \<Longrightarrow> files' q = files q"
  by (auto simp: write_built_def Let_def split: sum.splits option.splits build_io.splits)

section \<open>Reading a file somebody else made\<close>

lemma find_trailer_fits:
  assumes "find_trailer path content = Inr (Some (h, r))"
  shows "TRAILER_LEN + h + r \<le> length content"
proof -
  let ?trailer = "drop (length content - TRAILER_LEN) content"
  let ?h = "from_le_bytes (take 8 ?trailer)" and ?r = "from_le_bytes (take 8 (drop 8 ?trailer))"
  from assms obtain c where c: "Option.bind (checked_add_u64 (of_nat TRAILER_LEN) ?h) (\<lambda>sum. checked_add_u64 sum ?r) = Some c"
    "unat c \<le> length content" "h = unat ?h" "r = unat ?r"
    by (auto simp: find_trailer_def Let_def not_less split: if_split_asm option.split_asm)
  from c(1) obtain sum where sum: "checked_add_u64 (of_nat TRAILER_LEN) ?h = Some sum" "checked_add_u64 sum ?r = Some c"
    by (cases "checked_add_u64 (of_nat TRAILER_LEN) ?h") auto
  have "unat (of_nat TRAILER_LEN :: 64 word) = TRAILER_LEN" by (simp add: TRAILER_LEN_def)
  with c(2) show ?thesis
    using unat_checked [OF sum(1)] unat_checked [OF sum(2)] unfolding c(3,4) by linarith
qed

text \<open>
  However a file was made, what is read of it lies in it: a payload that is found leaves the header,
  the trailer and the whole region inside the file, and an embedded file that is read lies inside the
  region, with exactly the length the header gives; a sum that overflows is refused, not wrapped.
\<close>

lemma embedded_reads_stay_in_region:
  assumes "files path = Some content" "read_from probe parse files path = Inr (Some (p, b))"
  shows "bl_start b + bl_length b + TRAILER_LEN \<le> length content \<and>
    (\<forall>f bytes. blobs_read files b f = Inr bytes \<longrightarrow>
       unat (ef_offset f) + unat (ef_length f) \<le> bl_length b \<and>
       bytes = take (unat (ef_length f)) (drop (unat (ef_offset f))
         (take (bl_length b) (drop (bl_start b) content))) \<and>
       length bytes = unat (ef_length f))"
proof -
  from assms obtain h r where trailer: "find_trailer path content = Inr (Some (h, r))"
    and b: "bl_path b = path" "bl_length b = r" "bl_start b = length content - TRAILER_LEN - h - r"
    by (auto simp: read_from_def and_then_eq_Inr_iff Let_def split: option.split_asm)
  from find_trailer_fits [OF trailer] have inside: "bl_start b + bl_length b + TRAILER_LEN \<le> length content"
    unfolding b(2,3) by linarith
  have "unat (ef_offset f) + unat (ef_length f) \<le> bl_length b \<and>
       bytes = take (unat (ef_length f)) (drop (unat (ef_offset f)) (take (bl_length b) (drop (bl_start b) content))) \<and>
       length bytes = unat (ef_length f)" if read: "blobs_read files b f = Inr bytes" for f bytes
  proof -
    from read obtain stop where stop: "checked_add_u64 (ef_offset f) (ef_length f) = Some stop" "unat stop \<le> bl_length b"
      and bytes: "bytes = take (unat (ef_length f)) (drop (bl_start b + unat (ef_offset f)) content)"
      "bl_start b + unat (ef_offset f) + unat (ef_length f) \<le> length content"
      using assms(1) b(1) by (auto simp: blobs_read_def Let_def split: if_splits option.splits)
    from unat_checked [OF stop(1)] stop(2) have "unat (ef_offset f) + unat (ef_length f) \<le> bl_length b" by simp
    moreover from this have "unat (ef_length f) \<le> bl_length b - unat (ef_offset f)" by linarith
    moreover from bytes(2) have "unat (ef_length f) \<le> length content - (bl_start b + unat (ef_offset f))" by linarith
    ultimately show ?thesis using bytes(1) by (simp add: drop_take add.commute min_absorb1)
  qed
  with inside show ?thesis by blast
qed

text \<open>
  A download cut short is not told from a plain runner: what is missing is the end, the magic with it.
\<close>

lemma magic_number: "MAGIC = 0x31454B41424C5445"
  by (simp add: MAGIC_def from_le_bytes_def word_rcat_def)

lemma magic_bytes: "to_le_bytes MAGIC = [0x45, 0x54, 0x4C, 0x42, 0x41, 0x4B, 0x45, 0x31]"
  by (simp add: magic_number to_le_bytes_def upt_rec)

lemma example_trailer: "trailer_of 1 0 = [1, 0, 0, 0, 0, 0, 0, 0, 0, 0, 0, 0, 0, 0, 0, 0,
    0x45, 0x54, 0x4C, 0x42, 0x41, 0x4B, 0x45, 0x31]"
proof -
  have "to_le_bytes 0 = [0, 0, 0, 0, 0, 0, 0, 0]" "to_le_bytes 1 = [1, 0, 0, 0, 0, 0, 0, 0]"
    by (simp_all add: to_le_bytes_def upt_rec)
  then show ?thesis by (simp add: trailer_of_def magic_bytes)
qed

lemma cut_download_looks_plain:
  "find_trailer ''out'' (butlast ([9, 9, 7] @ trailer_of 1 0)) = Inr None"
  unfolding example_trailer
  by (simp add: find_trailer_def magic_number TRAILER_LEN_def from_le_bytes_def word_rcat_def)

lemma embedded_reads_stay_in_region_witness:
  "\<exists>b. read_from (\<lambda>_. Some 1) (\<lambda>_. Some plain_payload)
        [''out'' \<mapsto> [9, 9, 1, 2, 7] @ trailer_of (length [7 :: 8 word]) (length [1, 2 :: 8 word])] ''out''
      = Inr (Some (plain_payload, b)) \<and> bl_start b + bl_length b + TRAILER_LEN \<le> 29"
proof -
  have read: "read_from (\<lambda>_. Some 1) (\<lambda>_. Some plain_payload) [''out'' \<mapsto> [9, 9] @ [1, 2] @ [7] @ trailer_of (length [7 :: 8 word]) (length [1, 2 :: 8 word])] ''out''
      = Inr (Some (plain_payload, \<lparr> bl_path = ''out'', bl_start = length [9, 9 :: 8 word], bl_length = length [1, 2 :: 8 word], bl_key = fnv1a [7] \<rparr>))"
    by (rule read_built) (simp_all add: trailer_parts(1) TRAILER_LEN_def PAYLOAD_FORMAT_VERSION_def)
  from embedded_reads_stay_in_region [OF _ this, THEN conjunct1] read show ?thesis
    by (simp add: trailer_parts(1) TRAILER_LEN_def)
qed

end
