(* ===== verification/Runner_Extract.thy ===== *)
theory Runner_Extract
  imports Runner_Payload Run_History
begin

text \<open>
  Putting the files an artifact carries on disk (\<^verbatim>\<open>crates/runner/src/extract.rs\<close>). A place is the list
  of the components of an absolute path, resolved lexically; the disk is a finite table of files and
  directories. Unpacking is cut into the calls between which another process can run or the machine
  can stop, and \<open>unpack_moves\<close> interleaves any number of processes that unpack the same artifact,
  the operating system choosing how far each call gets.
\<close>

section \<open>Places\<close>

type_synonym place = "str list"

definition join_component :: "place \<Rightarrow> str \<Rightarrow> place" where
  "join_component p c = (if c = [] \<or> c = ''.'' then p else if c = ''..'' then butlast p else p @ [c])"

definition place_join :: "place \<Rightarrow> str \<Rightarrow> place" where
  "place_join p s = foldl join_component (if starts_with s ''/'' then [] else p)
     (split_on (\<lambda>c. c = CHR ''/'') s)"

definition under :: "place \<Rightarrow> place \<Rightarrow> bool" where
  "under p q \<longleftrightarrow> take (length p) q = p"

section \<open>The disk\<close>

text \<open>A directory is an entry without content.\<close>

type_synonym disk_table = "(place \<times> octets option) list"

definition there :: "disk_table \<Rightarrow> place \<Rightarrow> bool" where
  "there t p \<longleftrightarrow> map_of t p \<noteq> None"

definition is_file_at :: "disk_table \<Rightarrow> place \<Rightarrow> bool" where
  "is_file_at t p \<longleftrightarrow> (case map_of t p of Some (Some _) \<Rightarrow> True | _ \<Rightarrow> False)"

definition put_file :: "place \<Rightarrow> octets \<Rightarrow> disk_table \<Rightarrow> disk_table" where
  "put_file p bytes t = (p, Some bytes) # t"

definition make_place :: "place \<Rightarrow> disk_table \<Rightarrow> disk_table" where
  "make_place p t = (if there t p then t else (p, None) # t)"

text \<open>Removing a tree takes it whole, or stops part of the way and leaves some of it.\<close>

datatype reach = Whole | Stopped "place list"

definition remove_tree :: "reach \<Rightarrow> place \<Rightarrow> disk_table \<Rightarrow> disk_table" where
  "remove_tree r p t = filter (\<lambda>(q, _). under p q \<longrightarrow> (case r of Whole \<Rightarrow> False | Stopped kept \<Rightarrow> q \<in> set kept)) t"

text \<open>A directory can be renamed onto nothing or onto an empty directory.\<close>

definition can_land :: "disk_table \<Rightarrow> place \<Rightarrow> bool" where
  "can_land t p \<longleftrightarrow> list_all (\<lambda>(q, content). under p q \<longrightarrow> q = p \<and> content = None) t"

definition move_tree :: "place \<Rightarrow> place \<Rightarrow> disk_table \<Rightarrow> disk_table" where
  "move_tree old new t = map (\<lambda>(q, content). (if under old q then new @ drop (length old) q else q, content))
     (filter (\<lambda>(q, _). \<not> under new q) t)"

section \<open>Where things go\<close>

definition CACHE_ENV :: str where "CACHE_ENV = ''ETL_RUNNER_CACHE''"

definition EXTENSIONS_DIR :: str where "EXTENSIONS_DIR = ''extensions''"

definition COMPLETE_MARKER :: str where "COMPLETE_MARKER = ''.complete''"

definition is_safe_name :: "str \<Rightarrow> bool" where
  "is_safe_name name \<longleftrightarrow> name \<noteq> [] \<and> name \<noteq> ''.'' \<and> name \<noteq> ''..'' \<and> CHR ''/'' \<notin> set name \<and>
     CHR 0x5C \<notin> set name \<and> CHR 0x00 \<notin> set name \<and> CHR '':'' \<notin> set name"

definition runner_sanitise :: "str \<Rightarrow> str" where
  "runner_sanitise name =
     (let cleaned = map (\<lambda>c. if is_ascii_alphanumeric c \<or> c = CHR ''-'' \<or> c = CHR ''_'' then c else CHR ''_'') name
      in if cleaned = [] then ''pipeline'' else cleaned)"

definition cache_name :: "payload \<Rightarrow> blobs \<Rightarrow> str" where
  "cache_name p b = runner_sanitise (py_name p) @ ''-'' @ hex_nat 16 (unat (bl_key b))"

definition cache_dir_in :: "place \<Rightarrow> payload \<Rightarrow> blobs \<Rightarrow> place" where
  "cache_dir_in base p b = place_join (place_join base ''etl-runner'') (cache_name p b)"

definition private_dir :: "place \<Rightarrow> nat \<Rightarrow> place" where
  "private_dir root pid = butlast root @ [''.partial-'' @ last root @ ''-'' @ show_nat pid]"

definition extension_dir_for :: "payload \<Rightarrow> place \<Rightarrow> place" where
  "extension_dir_for p root = place_join (place_join (place_join root EXTENSIONS_DIR) (py_duckdb_version p)) (py_platform p)"

definition destination :: "payload \<Rightarrow> place \<Rightarrow> embedded_file \<Rightarrow> place" where
  "destination p root f = (case ef_role f of
     RoleEngine \<Rightarrow> place_join root (ef_name f)
   | RoleExtension \<Rightarrow> place_join (extension_dir_for p root) (ef_name f))"

definition engine_at :: "payload \<Rightarrow> place \<Rightarrow> place option" where
  "engine_at p root = map_option (\<lambda>f. place_join root (ef_name f)) (find (\<lambda>f. ef_role f = RoleEngine) (py_files p))"

definition extension_root :: "payload \<Rightarrow> place \<Rightarrow> place option" where
  "extension_root p root =
     (if list_ex (\<lambda>f. ef_role f = RoleExtension) (py_files p) then Some (place_join root EXTENSIONS_DIR) else None)"

section \<open>One process, call by call\<close>

datatype unpack_pc =
    ClearPrivate
  | MakePrivate
  | WriteFile nat
  | MarkComplete
  | LookForStale
  | LookForMarker
  | RemoveStale
  | Publish
  | LookForWinner
  | ClearOwn bool
  | Finished "payload_error + unit"

datatype call_result = Works | Refused | Torn nat | Partly "place list"

definition removal :: "call_result \<Rightarrow> place \<Rightarrow> disk_table \<Rightarrow> disk_table" where
  "removal r p t = (case r of
     Works \<Rightarrow> remove_tree Whole p t | Partly kept \<Rightarrow> remove_tree (Stopped kept) p t | _ \<Rightarrow> t)"

definition unwritable_at :: "place \<Rightarrow> payload_error" where
  "unwritable_at p = Unwritable (concat (map (\<lambda>c. ''/'' @ c) p))"

definition write_or_fail :: "call_result \<Rightarrow> place \<Rightarrow> place \<Rightarrow> octets \<Rightarrow> unpack_pc \<Rightarrow> disk_table \<Rightarrow> unpack_pc \<times> disk_table" where
  "write_or_fail r blamed p bytes go_on t = (case r of
     Works \<Rightarrow> (go_on, put_file p bytes t)
   | Torn n \<Rightarrow> (Finished (Inl (unwritable_at blamed)), put_file p (take n bytes) t)
   | _ \<Rightarrow> (Finished (Inl (unwritable_at blamed)), t))"

definition write_embedded :: "payload \<Rightarrow> (embedded_file \<Rightarrow> payload_error + octets) \<Rightarrow> place \<Rightarrow> call_result
    \<Rightarrow> nat \<Rightarrow> disk_table \<Rightarrow> unpack_pc \<times> disk_table" where
  "write_embedded p contents private r i t =
     (let f = py_files p ! i;
          t' = (if ef_role f = RoleExtension then make_place (extension_dir_for p private) t else t);
          go_on = (if Suc i < length (py_files p) then WriteFile (Suc i) else MarkComplete)
      in case contents f of
           Inl e \<Rightarrow> (Finished (Inl e), t')
         | Inr bytes \<Rightarrow> write_or_fail r (destination p private f) (destination p private f) bytes go_on t')"

fun unpack_call :: "payload \<Rightarrow> (embedded_file \<Rightarrow> payload_error + octets) \<Rightarrow> octets \<Rightarrow> place \<Rightarrow> nat \<Rightarrow> call_result
    \<Rightarrow> unpack_pc \<Rightarrow> disk_table \<Rightarrow> unpack_pc \<times> disk_table" where
  "unpack_call p contents stamp root pid r ClearPrivate t =
     (MakePrivate, removal r (private_dir root pid) t)"
| "unpack_call p contents stamp root pid r MakePrivate t =
     (if r = Works then (WriteFile 0, make_place (private_dir root pid) t)
      else (Finished (Inl (unwritable_at (private_dir root pid))), t))"
| "unpack_call p contents stamp root pid r (WriteFile i) t =
     write_embedded p contents (private_dir root pid) r i t"
| "unpack_call p contents stamp root pid r MarkComplete t =
     write_or_fail r (private_dir root pid) (private_dir root pid @ [COMPLETE_MARKER]) stamp LookForStale t"
| "unpack_call p contents stamp root pid r LookForStale t =
     (if there t root then LookForMarker else Publish, t)"
| "unpack_call p contents stamp root pid r LookForMarker t =
     (if is_file_at t (root @ [COMPLETE_MARKER]) then Publish else RemoveStale, t)"
| "unpack_call p contents stamp root pid r RemoveStale t = (Publish, removal r root t)"
| "unpack_call p contents stamp root pid r Publish t =
     (if r = Works \<and> can_land t root
      then (Finished (Inr ()), move_tree (private_dir root pid) root t)
      else (LookForWinner, t))"
| "unpack_call p contents stamp root pid r LookForWinner t =
     (ClearOwn (is_file_at t (root @ [COMPLETE_MARKER])), t)"
| "unpack_call p contents stamp root pid r (ClearOwn won) t =
     (Finished (if won then Inr () else Inl (unwritable_at root)), removal r (private_dir root pid) t)"
| "unpack_call p contents stamp root pid r (Finished x) t = (Finished x, t)"

text \<open>Every call leaves fewer to make, so a process alone comes to an end.\<close>

fun calls_left :: "nat \<Rightarrow> unpack_pc \<Rightarrow> nat" where
  "calls_left n ClearPrivate = n + 10"
| "calls_left n MakePrivate = n + 9"
| "calls_left n (WriteFile i) = 8 + (n - i)"
| "calls_left n MarkComplete = 7"
| "calls_left n LookForStale = 6"
| "calls_left n LookForMarker = 5"
| "calls_left n RemoveStale = 4"
| "calls_left n Publish = 3"
| "calls_left n LookForWinner = 2"
| "calls_left n (ClearOwn won) = 1"
| "calls_left n (Finished x) = 0"

lemma write_or_fail_pc: "fst (write_or_fail r blamed q bytes go_on t) \<in> {go_on} \<union> range Finished"
  by (cases r) (auto simp: write_or_fail_def)

lemma calls_decrease:
  assumes "\<forall>x. pc \<noteq> Finished x"
  shows "calls_left (length (py_files p)) (fst (unpack_call p contents stamp root pid r pc t))
    < calls_left (length (py_files p)) pc"
proof (cases pc)
  case (WriteFile i)
  have "fst (write_embedded p contents (private_dir root pid) r i t) \<in>
      {if Suc i < length (py_files p) then WriteFile (Suc i) else MarkComplete} \<union> range Finished"
    using write_or_fail_pc by (auto simp: write_embedded_def Let_def split: sum.split)
  then show ?thesis by (auto simp: WriteFile split: if_splits)
next
  case MarkComplete
  then show ?thesis
    using write_or_fail_pc [of r "private_dir root pid" "private_dir root pid @ [COMPLETE_MARKER]" stamp LookForStale t]
    by auto
qed (use assms in auto)

function unpack_from :: "payload \<Rightarrow> (embedded_file \<Rightarrow> payload_error + octets) \<Rightarrow> octets \<Rightarrow> place \<Rightarrow> nat
    \<Rightarrow> (unpack_pc \<Rightarrow> call_result) \<Rightarrow> unpack_pc \<Rightarrow> disk_table \<Rightarrow> (payload_error + unit) \<times> disk_table" where
  "unpack_from p contents stamp root pid answers pc t = (case pc of
     Finished x \<Rightarrow> (x, t)
   | _ \<Rightarrow> unpack_from p contents stamp root pid answers
       (fst (unpack_call p contents stamp root pid (answers pc) pc t))
       (snd (unpack_call p contents stamp root pid (answers pc) pc t)))"
  by pat_completeness auto
termination
  by (relation "measure (\<lambda>(p, _, _, _, _, _, pc, _). calls_left (length (py_files p)) pc)")
    (simp_all add: calls_decrease case_prod_beta del: calls_left.simps unpack_call.simps)

declare unpack_from.simps [simp del]

definition unpack_into_place :: "payload \<Rightarrow> (embedded_file \<Rightarrow> payload_error + octets) \<Rightarrow> octets \<Rightarrow> place \<Rightarrow> nat
    \<Rightarrow> (unpack_pc \<Rightarrow> call_result) \<Rightarrow> disk_table \<Rightarrow> (payload_error + unit) \<times> disk_table" where
  "unpack_into_place p contents stamp root pid answers t =
     unpack_from p contents stamp root pid answers ClearPrivate t"

record extracted =
  et_duckdb_bin :: "place option"
  et_extension_dir :: "place option"
  et_root :: place
  et_freshly_extracted :: bool

definition built_stamp :: "payload \<Rightarrow> octets" where
  "built_stamp p = map (\<lambda>c. of_nat (of_char c)) (py_built_at p)"

definition extract_into :: "file_store \<Rightarrow> (unpack_pc \<Rightarrow> call_result) \<Rightarrow> nat \<Rightarrow> place \<Rightarrow> payload \<Rightarrow> blobs
    \<Rightarrow> disk_table \<Rightarrow> (payload_error + extracted) \<times> disk_table" where
  "extract_into files answers pid base p b t =
     (let root = cache_dir_in base p b
      in if py_files p = []
         then (Inr \<lparr> et_duckdb_bin = None, et_extension_dir = None, et_root = root, et_freshly_extracted = False \<rparr>, t)
         else case find (\<lambda>f. \<not> is_safe_name (ef_name f)) (py_files p) of
           Some f \<Rightarrow> (Inl (UnsafeName (ef_name f)), t)
         | None \<Rightarrow>
             (let fresh = \<not> is_file_at t (root @ [COMPLETE_MARKER]);
                  done = \<lparr> et_duckdb_bin = engine_at p root, et_extension_dir = extension_root p root,
                    et_root = root, et_freshly_extracted = fresh \<rparr>
              in if fresh
                 then (case unpack_into_place p (blobs_read files b) (built_stamp p) root pid answers t of
                   (Inl e, t') \<Rightarrow> (Inl e, t')
                 | (Inr _, t') \<Rightarrow> (Inr done, t'))
                 else (Inr done, t)))"

section \<open>Several processes at once\<close>

inductive unpack_moves :: "payload \<Rightarrow> (embedded_file \<Rightarrow> payload_error + octets) \<Rightarrow> octets \<Rightarrow> place
    \<Rightarrow> (nat \<Rightarrow> unpack_pc) \<times> disk_table \<Rightarrow> (nat \<Rightarrow> unpack_pc) \<times> disk_table \<Rightarrow> bool"
  for p contents stamp root where
  one_call: "unpack_moves p contents stamp root (pcs, t) (pcs(pid := pc'), t')"
    if "unpack_call p contents stamp root pid r (pcs pid) t = (pc', t')"

section \<open>Tables\<close>

lemma map_of_filter_key: "map_of (filter (\<lambda>(q, _). P q) t) q = (if P q then map_of t q else None)"
  by (induction t) auto

lemma map_of_put_file [simp]: "map_of (put_file p bytes t) q = (if q = p then Some (Some bytes) else map_of t q)"
  by (simp add: put_file_def)

lemma map_of_make_place:
  "map_of (make_place p t) q = (if q = p \<and> map_of t p = None then Some None else map_of t q)"
  by (auto simp: make_place_def there_def)

lemma map_of_remove_tree: "\<not> under p q \<Longrightarrow> map_of (remove_tree r p t) q = map_of t q"
  unfolding remove_tree_def
  by (subst map_of_filter_key [of "\<lambda>q. under p q \<longrightarrow> (case r of Whole \<Rightarrow> False | Stopped kept \<Rightarrow> q \<in> set kept)"]) simp

lemma map_of_removal: "\<not> under p q \<Longrightarrow> map_of (removal r p t) q = map_of t q"
  by (simp add: removal_def map_of_remove_tree split: call_result.split)

lemma under_append: "length p = length q \<Longrightarrow> under p (q @ rel) \<longleftrightarrow> p = q"
  by (auto simp: under_def)

lemma under_prefix: "under p q \<longleftrightarrow> (\<exists>rel. q = p @ rel)"
  by (auto simp: under_def) (metis append_take_drop_id)

lemma map_of_move_tree:
  assumes "length old = length new" "old \<noteq> new"
  shows "map_of (move_tree old new t) (new @ rel) = map_of t (old @ rel)"
    and "\<not> under old q \<Longrightarrow> \<not> under new q \<Longrightarrow> map_of (move_tree old new t) q = map_of t q"
proof -
  have apart: "\<not> (under old x \<and> under new x)" for x
    using assms by (auto simp: under_def)
  show "map_of (move_tree old new t) (new @ rel) = map_of t (old @ rel)"
    unfolding move_tree_def
    by (induction t) (use apart assms in \<open>auto simp: under_prefix split: if_splits\<close>)
  show "map_of (move_tree old new t) q = map_of t q" if "\<not> under old q" "\<not> under new q"
    unfolding move_tree_def
    by (induction t) (use apart assms that in \<open>auto simp: under_prefix split: if_splits\<close>)
qed

section \<open>An artifact that stays where it is put\<close>

definition has_extension :: "payload \<Rightarrow> bool" where
  "has_extension p \<longleftrightarrow> list_ex (\<lambda>f. ef_role f = RoleExtension) (py_files p)"

definition contained :: "payload \<Rightarrow> bool" where
  "contained p \<longleftrightarrow> list_all (\<lambda>f. is_safe_name (ef_name f)) (py_files p) \<and>
     (has_extension p \<longrightarrow> is_safe_name (py_duckdb_version p) \<and> is_safe_name (py_platform p))"

definition placed_at :: "payload \<Rightarrow> embedded_file \<Rightarrow> place" where
  "placed_at p f = (case ef_role f of
     RoleEngine \<Rightarrow> [ef_name f]
   | RoleExtension \<Rightarrow> [EXTENSIONS_DIR, py_duckdb_version p, py_platform p, ef_name f])"

lemma place_join_safe: "is_safe_name c \<Longrightarrow> place_join q c = q @ [c]"
proof -
  assume safe: "is_safe_name c"
  then have "split_on (\<lambda>c. c = CHR ''/'') c = [c]" "\<not> starts_with c ''/''"
    by (auto simp: is_safe_name_def starts_with_def intro!: split_on_no_sep) (cases c; auto)
  with safe show ?thesis by (simp add: place_join_def join_component_def is_safe_name_def)
qed

lemma destination_placed:
  assumes "contained p" "f \<in> set (py_files p)"
  shows "destination p q f = q @ placed_at p f"
proof (cases "ef_role f")
  case RoleExtension
  with assms have "is_safe_name (py_duckdb_version p)" "is_safe_name (py_platform p)" "is_safe_name (ef_name f)"
    "is_safe_name EXTENSIONS_DIR"
    by (auto simp: contained_def has_extension_def list_ex_iff list_all_iff is_safe_name_def EXTENSIONS_DIR_def)
  with RoleExtension show ?thesis
    by (simp add: destination_def placed_at_def extension_dir_for_def place_join_safe)
next
  case RoleEngine
  with assms show ?thesis
    by (simp add: destination_def placed_at_def place_join_safe contained_def list_all_iff)
qed

lemma extension_dir_placed:
  assumes "contained p" "f \<in> set (py_files p)" "ef_role f = RoleExtension"
  shows "extension_dir_for p q = q @ [EXTENSIONS_DIR, py_duckdb_version p, py_platform p]"
proof -
  from assms have "is_safe_name (py_duckdb_version p)" "is_safe_name (py_platform p)" "is_safe_name EXTENSIONS_DIR"
    by (auto simp: contained_def has_extension_def list_ex_iff is_safe_name_def EXTENSIONS_DIR_def)
  then show ?thesis by (simp add: extension_dir_for_def place_join_safe)
qed

section \<open>A directory that is complete\<close>

text \<open>What was laid down so far, and what a finished directory holds: the last of two at one place.\<close>

definition laid :: "payload \<Rightarrow> (embedded_file \<Rightarrow> payload_error + octets) \<Rightarrow> nat \<Rightarrow> (place \<times> octets) list" where
  "laid p contents n = map (\<lambda>f. (placed_at p f, case contents f of Inr bytes \<Rightarrow> bytes | Inl _ \<Rightarrow> []))
     (take n (py_files p))"

definition holds :: "disk_table \<Rightarrow> place \<Rightarrow> (place \<times> octets) list \<Rightarrow> bool" where
  "holds t q xs \<longleftrightarrow> (\<forall>(rel, bytes) \<in> set xs.
     map_of t (q @ rel) = map_option Some (map_of (rev xs) rel))"

definition unpacked :: "payload \<Rightarrow> (embedded_file \<Rightarrow> payload_error + octets) \<Rightarrow> octets \<Rightarrow> place \<Rightarrow> disk_table \<Rightarrow> bool" where
  "unpacked p contents stamp q t \<longleftrightarrow>
     holds t q (laid p contents (length (py_files p)) @ [([COMPLETE_MARKER], stamp)])"

definition same_under :: "place \<Rightarrow> disk_table \<Rightarrow> disk_table \<Rightarrow> bool" where
  "same_under q t t' \<longleftrightarrow> (\<forall>rel. map_of t' (q @ rel) = map_of t (q @ rel))"

lemma holds_same: "same_under q t t' \<Longrightarrow> holds t' q xs \<longleftrightarrow> holds t q xs"
  by (simp add: holds_def same_under_def)

lemma holds_moved:
  "holds t q xs \<Longrightarrow> \<forall>rel. map_of t' (q' @ rel) = map_of t (q @ rel) \<Longrightarrow> holds t' q' xs"
  by (simp add: holds_def)

lemma holds_Nil [simp]: "holds t q []"
  by (simp add: holds_def)

lemma holds_put:
  assumes "holds t q xs" "\<forall>x content. map_of t x = Some (Some content) \<longrightarrow> map_of t' x = Some (Some content)"
  shows "holds (put_file (q @ rel) bytes t') q (xs @ [(rel, bytes)])"
proof -
  have "map_of t' (q @ r) = map_option Some (map_of (rev xs) r)" if "(r, b) \<in> set xs" for r b
  proof -
    from that obtain c where c: "map_of (rev xs) r = Some c"
      by (metis map_of_eq_None_iff not_None_eq fst_conv image_eqI set_rev)
    with assms(1) that have "map_of t (q @ r) = Some (Some c)" by (fastforce simp: holds_def)
    with assms(2) c show ?thesis by simp
  qed
  then show ?thesis by (auto simp: holds_def)
qed

lemma unpacked_marker: "unpacked p contents stamp q t \<Longrightarrow> is_file_at t (q @ [COMPLETE_MARKER])"
  by (auto simp: unpacked_def holds_def is_file_at_def)

section \<open>The race\<close>

definition clean_root :: "payload \<Rightarrow> (embedded_file \<Rightarrow> payload_error + octets) \<Rightarrow> octets \<Rightarrow> place \<Rightarrow> disk_table \<Rightarrow> bool" where
  "clean_root p contents stamp root t \<longleftrightarrow>
     (\<forall>rel. map_of t (root @ rel) = None) \<or> unpacked p contents stamp root t"

fun racing_pc :: "payload \<Rightarrow> (embedded_file \<Rightarrow> payload_error + octets) \<Rightarrow> octets \<Rightarrow> place \<Rightarrow> place \<Rightarrow> unpack_pc
    \<Rightarrow> disk_table \<Rightarrow> bool" where
  "racing_pc p contents stamp root own (WriteFile i) t \<longleftrightarrow>
     i < length (py_files p) \<and> holds t own (laid p contents i)"
| "racing_pc p contents stamp root own MarkComplete t \<longleftrightarrow> holds t own (laid p contents (length (py_files p)))"
| "racing_pc p contents stamp root own LookForStale t \<longleftrightarrow> unpacked p contents stamp own t"
| "racing_pc p contents stamp root own LookForMarker t \<longleftrightarrow>
     unpacked p contents stamp own t \<and> unpacked p contents stamp root t"
| "racing_pc p contents stamp root own RemoveStale t \<longleftrightarrow> False"
| "racing_pc p contents stamp root own Publish t \<longleftrightarrow> unpacked p contents stamp own t"
| "racing_pc p contents stamp root own (ClearOwn won) t \<longleftrightarrow> (won \<longrightarrow> unpacked p contents stamp root t)"
| "racing_pc p contents stamp root own (Finished x) t \<longleftrightarrow> (x = Inr () \<longrightarrow> unpacked p contents stamp root t)"
| "racing_pc p contents stamp root own ClearPrivate t \<longleftrightarrow> True"
| "racing_pc p contents stamp root own MakePrivate t \<longleftrightarrow> True"
| "racing_pc p contents stamp root own LookForWinner t \<longleftrightarrow> True"

lemma racing_pc_same:
  assumes "racing_pc p contents stamp root own pc t" "same_under own t t'"
    and "unpacked p contents stamp root t \<Longrightarrow> unpacked p contents stamp root t'"
  shows "racing_pc p contents stamp root own pc t'"
  using assms by (cases pc) (auto simp: holds_same unpacked_def [of _ _ _ own])

lemma private_dirs:
  assumes "root \<noteq> []"
  shows "length (private_dir root pid) = length root" "private_dir root pid \<noteq> root"
    "private_dir root pid = private_dir root pid' \<longleftrightarrow> pid = pid'"
proof -
  show "length (private_dir root pid) = length root" using assms by (simp add: private_dir_def)
  show "private_dir root pid \<noteq> root"
  proof
    assume "private_dir root pid = root"
    then have "last (private_dir root pid) = last root" by simp
    then have "length (''.partial-'' @ last root @ ''-'' @ show_nat pid) = length (last root)"
      by (simp add: private_dir_def)
    then show False by simp
  qed
  have "pid = pid'" if "show_nat pid = show_nat pid'" using that show_nat_digits by metis
  then show "private_dir root pid = private_dir root pid' \<longleftrightarrow> pid = pid'" by (auto simp: private_dir_def)
qed

lemma write_or_fail_table:
  "snd (write_or_fail r blamed q bytes go_on t) = t \<or> (\<exists>b. snd (write_or_fail r blamed q bytes go_on t) = put_file q b t)"
  by (cases r) (auto simp: write_or_fail_def)

lemma write_embedded_elsewhere:
  assumes "contained p" "i < length (py_files p)" "\<not> under own q"
  shows "map_of (snd (write_embedded p contents own r i t)) q = map_of t q"
proof -
  let ?f = "py_files p ! i"
  from assms(2) have f: "?f \<in> set (py_files p)" by simp
  from assms(3) have outside: "q \<noteq> own @ rel" for rel by (auto simp: under_prefix)
  then have dirs: "ef_role ?f = RoleExtension \<Longrightarrow> map_of (make_place (extension_dir_for p own) t) q = map_of t q"
    by (simp add: extension_dir_placed [OF assms(1) f] map_of_make_place)
  show ?thesis
    using write_or_fail_table [of r "destination p own ?f" "destination p own ?f"] outside dirs
    unfolding write_embedded_def Let_def destination_placed [OF assms(1) f]
    by (auto split: sum.split) (metis (full_types) map_of_put_file)+
qed

text \<open>A call changes nothing outside the directory of its process, but for the rename that lands.\<close>

lemma call_outside:
  assumes "contained p" "racing_pc p contents stamp root (private_dir root pid) pc t"
    and "pc \<noteq> Publish \<or> r \<noteq> Works \<or> \<not> can_land t root" "\<not> under (private_dir root pid) q"
  shows "map_of (snd (unpack_call p contents stamp root pid r pc t)) q = map_of t q"
proof (cases pc)
  case (WriteFile i)
  with assms show ?thesis by (simp add: write_embedded_elsewhere)
next
  case MarkComplete
  from assms(4) have "q \<noteq> private_dir root pid @ [COMPLETE_MARKER]" by (auto simp: under_prefix)
  with MarkComplete show ?thesis
    using write_or_fail_table [of r "private_dir root pid" "private_dir root pid @ [COMPLETE_MARKER]" stamp LookForStale t]
    by auto
next
  case MakePrivate
  from assms(4) have "q \<noteq> private_dir root pid" by (auto simp: under_def)
  with MakePrivate show ?thesis by (simp add: map_of_make_place)
qed (use assms in \<open>auto simp: map_of_removal\<close>)

lemma can_land_absent:
  assumes "can_land t root"
  shows "\<not> unpacked p contents stamp root t"
proof
  assume "unpacked p contents stamp root t"
  then have "is_file_at t (root @ [COMPLETE_MARKER])" by (rule unpacked_marker)
  then obtain c where "map_of t (root @ [COMPLETE_MARKER]) = Some (Some c)"
    by (auto simp: is_file_at_def split: option.splits)
  then have "(root @ [COMPLETE_MARKER], Some c) \<in> set t" by (rule map_of_SomeD)
  with assms show False by (auto simp: can_land_def list_all_iff under_prefix)
qed

lemma call_effect:
  assumes "contained p" "root \<noteq> []" "racing_pc p contents stamp root (private_dir root pid) pc t"
  obtains (landed) "pc = Publish" "r = Works" "can_land t root"
      "unpack_call p contents stamp root pid r pc t = (Finished (Inr ()), move_tree (private_dir root pid) root t)"
    | (stayed) "same_under root t (snd (unpack_call p contents stamp root pid r pc t))"
      "pc \<noteq> Publish \<or> r \<noteq> Works \<or> \<not> can_land t root"
proof (cases "pc = Publish \<and> r = Works \<and> can_land t root")
  case True
  with landed show ?thesis by simp
next
  case False
  have "\<not> under (private_dir root pid) (root @ rel)" for rel
    using private_dirs(1,2) [OF assms(2)] by (simp add: under_append)
  with call_outside [OF assms(1,3)] False
  have "same_under root t (snd (unpack_call p contents stamp root pid r pc t))"
    by (simp add: same_under_def)
  with stayed False show ?thesis by blast
qed

lemma call_elsewhere:
  assumes "contained p" "root \<noteq> []" "racing_pc p contents stamp root (private_dir root pid) pc t" "pid' \<noteq> pid"
  shows "same_under (private_dir root pid') t (snd (unpack_call p contents stamp root pid r pc t))"
proof -
  have apart: "\<not> under (private_dir root pid) (private_dir root pid' @ rel)"
    "\<not> under root (private_dir root pid' @ rel)" for rel
    using private_dirs [OF assms(2)] assms(4) by (auto simp: under_append dest: sym [of root])
  from assms(1-3) show ?thesis
  proof (cases rule: call_effect [where r = r])
    case landed
    with apart private_dirs(1,2) [OF assms(2)] show ?thesis by (simp add: same_under_def map_of_move_tree(2))
  next
    case stayed
    with call_outside [OF assms(1,3)] apart show ?thesis by (simp add: same_under_def)
  qed
qed

lemma laid_Suc:
  "i < length (py_files p) \<Longrightarrow> laid p contents (Suc i) = laid p contents i @
     [(placed_at p (py_files p ! i), case contents (py_files p ! i) of Inr bytes \<Rightarrow> bytes | Inl _ \<Rightarrow> [])]"
  by (simp add: laid_def take_Suc_conv_app_nth)

lemma write_embedded_racing:
  assumes "contained p" "i < length (py_files p)" "holds t own (laid p contents i)"
  shows "racing_pc p contents stamp root own (fst (write_embedded p contents own r i t))
    (snd (write_embedded p contents own r i t))"
proof (cases "contents (py_files p ! i)")
  case (Inr bytes)
  let ?f = "py_files p ! i"
  let ?t = "if ef_role ?f = RoleExtension then make_place (extension_dir_for p own) t else t"
  have kept: "\<forall>x content. map_of t x = Some (Some content) \<longrightarrow> map_of ?t x = Some (Some content)"
    by (auto simp: map_of_make_place)
  from assms(2) have "?f \<in> set (py_files p)" by simp
  note dest = destination_placed [OF assms(1) this]
  have "holds (put_file (own @ placed_at p ?f) bytes ?t) own (laid p contents (Suc i))"
    using holds_put [OF assms(3) kept, of "placed_at p ?f" bytes] by (simp add: laid_Suc [OF assms(2)] Inr)
  moreover have "\<not> Suc i < length (py_files p) \<Longrightarrow> Suc i = length (py_files p)" using assms(2) by simp
  ultimately show ?thesis
    by (cases r) (auto simp: write_embedded_def write_or_fail_def Inr dest Let_def)
qed (simp add: write_embedded_def)

lemma unpack_call_racing:
  assumes "contained p" "root \<noteq> []" "py_files p \<noteq> []"
    and "clean_root p contents stamp root t" "racing_pc p contents stamp root (private_dir root pid) pc t"
    and "unpack_call p contents stamp root pid r pc t = (pc', t')"
  shows "clean_root p contents stamp root t' \<and> racing_pc p contents stamp root (private_dir root pid) pc' t' \<and>
    (unpacked p contents stamp root t \<longrightarrow> unpacked p contents stamp root t')"
  using assms(1,2,5)
proof (cases rule: call_effect [where r = r])
  case landed
  with assms(5) have own: "unpacked p contents stamp (private_dir root pid) t" by simp
  from landed assms(6) have r: "pc' = Finished (Inr ())" "t' = move_tree (private_dir root pid) root t" by simp_all
  have "\<forall>rel. map_of t' (root @ rel) = map_of t (private_dir root pid @ rel)"
    using map_of_move_tree(1) private_dirs(1,2) [OF assms(2)] by (simp add: r(2))
  with own have "unpacked p contents stamp root t'" unfolding unpacked_def by (rule holds_moved)
  then show ?thesis by (simp add: r clean_root_def)
next
  case stayed
  then have root: "same_under root t t'" using assms(6) by simp
  then have same: "unpacked p contents stamp root t' \<longleftrightarrow> unpacked p contents stamp root t"
    by (simp add: unpacked_def holds_same)
  have "clean_root p contents stamp root t'"
    using assms(4) root by (simp add: clean_root_def same same_under_def)
  moreover have "racing_pc p contents stamp root (private_dir root pid) pc' t'"
  proof (cases pc)
    case (WriteFile i)
    with assms(5,6) write_embedded_racing [OF assms(1), of i t "private_dir root pid" contents stamp root r]
    show ?thesis by simp
  next
    case MarkComplete
    then have "holds (put_file (private_dir root pid @ [COMPLETE_MARKER]) stamp t) (private_dir root pid)
        (laid p contents (length (py_files p)) @ [([COMPLETE_MARKER], stamp)])"
      using assms(5) by (intro holds_put) auto
    with MarkComplete assms(6) show ?thesis by (cases r) (auto simp: write_or_fail_def unpacked_def)
  next
    case LookForStale
    with assms(4-6) show ?thesis
      by (auto simp: clean_root_def there_def split: if_splits) (metis append_Nil2 option.distinct(1))
  next
    case LookForMarker
    with assms(5,6) unpacked_marker show ?thesis by (auto split: if_splits)
  next
    case LookForWinner
    with assms(6) have pc': "pc' = ClearOwn (is_file_at t (root @ [COMPLETE_MARKER]))" "t' = t" by auto
    have "unpacked p contents stamp root t" if "is_file_at t (root @ [COMPLETE_MARKER])"
      using that assms(4) by (auto simp: clean_root_def is_file_at_def)
    then show ?thesis by (simp add: pc')
  next
    case MakePrivate
    with assms(3,6) show ?thesis by (auto simp: laid_def split: if_splits)
  next
    case (ClearOwn won)
    with assms(5,6) same show ?thesis by auto
  qed (use assms(5,6) stayed same in \<open>auto split: if_splits\<close>)
  ultimately show ?thesis by (simp add: same)
qed

lemma unpack_moves_racing:
  assumes "unpack_moves p contents stamp root c c'" "contained p" "root \<noteq> []" "py_files p \<noteq> []"
    and "clean_root p contents stamp root (snd c)"
    and "\<forall>pid. racing_pc p contents stamp root (private_dir root pid) (fst c pid) (snd c)"
  shows "clean_root p contents stamp root (snd c') \<and>
    (\<forall>pid. racing_pc p contents stamp root (private_dir root pid) (fst c' pid) (snd c'))"
  using assms(1)
proof cases
  case (one_call pid r pcs t pc' t')
  from assms(5,6) one_call have inv: "clean_root p contents stamp root t"
    "racing_pc p contents stamp root (private_dir root pid') (pcs pid') t" for pid' by auto
  note step = unpack_call_racing [OF assms(2-4) inv(1) inv(2) [of pid] one_call(3)]
  have "racing_pc p contents stamp root (private_dir root pid') (pcs pid') t'" if "pid' \<noteq> pid" for pid'
    using racing_pc_same [OF inv(2) [of pid'], of t'] call_elsewhere [OF assms(2,3) inv(2) [of pid] that, of r]
      step one_call(3) by simp
  with step one_call show ?thesis by simp
qed

lemma racing_reachable:
  assumes "contained p" "root \<noteq> []" "py_files p \<noteq> []" "clean_root p contents stamp root t"
    and "(unpack_moves p contents stamp root)\<^sup>*\<^sup>* (\<lambda>_. ClearPrivate, t) (pcs, t')"
  shows "(is_file_at t' (root @ [COMPLETE_MARKER]) \<longrightarrow> unpacked p contents stamp root t') \<and>
    (pcs pid = Finished (Inr ()) \<longrightarrow> unpacked p contents stamp root t')"
proof -
  have "clean_root p contents stamp root (snd (pcs, t')) \<and>
      (\<forall>pid. racing_pc p contents stamp root (private_dir root pid) (fst (pcs, t') pid) (snd (pcs, t')))"
    using assms(5)
  proof (induction rule: rtranclp_induct)
    case base
    with assms(4) show ?case by simp
  next
    case (step c c')
    with unpack_moves_racing [OF step(2) assms(1-3)] show ?case by blast
  qed
  then have inv: "clean_root p contents stamp root t'"
    "racing_pc p contents stamp root (private_dir root pid) (pcs pid) t'" by auto
  have "unpacked p contents stamp root t'" if "is_file_at t' (root @ [COMPLETE_MARKER])"
    using inv(1) that by (auto simp: clean_root_def is_file_at_def)
  with inv(2) show ?thesis by auto
qed

text \<open>
  C24: Any number of processes can unpack one artifact at once, each call of each of them succeeding,
  failing or stopping part of the way, and any of them stopping for good. Where no stale directory
  was left, the directory they share never looks complete unless every file is in it with its bytes,
  and it holds them all, and keeps them, from the moment the first of them reports that it is done.
\<close>

theorem unpacking_races_safely:
  assumes "contained p" "root \<noteq> []" "py_files p \<noteq> []" "clean_root p contents stamp root t"
    and "(unpack_moves p contents stamp root)\<^sup>*\<^sup>* (\<lambda>_. ClearPrivate, t) (pcs, t')"
  shows "(is_file_at t' (root @ [COMPLETE_MARKER]) \<longrightarrow> unpacked p contents stamp root t') \<and>
    (\<forall>pid. pcs pid = Finished (Inr ()) \<longrightarrow> unpacked p contents stamp root t')"
  using racing_reachable [OF assms] by blast

text \<open>One process on its own is one of the interleavings, so what it returns is covered too.\<close>

lemma unpack_from_step:
  assumes "\<forall>x. pc \<noteq> Finished x"
  shows "unpack_from p contents stamp root pid answers pc t =
    unpack_from p contents stamp root pid answers
      (fst (unpack_call p contents stamp root pid (answers pc) pc t))
      (snd (unpack_call p contents stamp root pid (answers pc) pc t))"
  using assms by (subst unpack_from.simps) (cases pc; simp only: unpack_pc.case; blast)

lemma unpack_from_moves:
  assumes "unpack_from p contents stamp root pid answers pc t = (x, t')"
  shows "(unpack_moves p contents stamp root)\<^sup>*\<^sup>* (pcs(pid := pc), t) (pcs(pid := Finished x), t')"
  using assms
proof (induction "calls_left (length (py_files p)) pc" arbitrary: pc t rule: less_induct)
  case less
  show ?case
  proof (cases "\<exists>y. pc = Finished y")
    case True
    with less(2) show ?thesis by (auto simp: unpack_from.simps)
  next
    case False
    let ?next = "unpack_call p contents stamp root pid (answers pc) pc t"
    have "unpack_moves p contents stamp root (pcs(pid := pc), t) ((pcs(pid := pc))(pid := fst ?next), snd ?next)"
      by (rule one_call [where r = "answers pc"]) simp
    then have "unpack_moves p contents stamp root (pcs(pid := pc), t) (pcs(pid := fst ?next), snd ?next)"
      by simp
    moreover have "(unpack_moves p contents stamp root)\<^sup>*\<^sup>* (pcs(pid := fst ?next), snd ?next) (pcs(pid := Finished x), t')"
      using False less(2) by (intro less(1) calls_decrease) (simp_all add: unpack_from_step [of pc])
    ultimately show ?thesis by (rule converse_rtranclp_into_rtranclp)
  qed
qed

lemma extracted_is_unpacked:
  assumes "extract_into files answers pid base p b t = (Inr x, t')" "py_files p \<noteq> []"
    and "has_extension p \<longrightarrow> is_safe_name (py_duckdb_version p) \<and> is_safe_name (py_platform p)"
    and "cache_dir_in base p b \<noteq> []"
    and "clean_root p (blobs_read files b) (built_stamp p) (cache_dir_in base p b) t"
  shows "unpacked p (blobs_read files b) (built_stamp p) (et_root x) t' \<and> et_root x = cache_dir_in base p b"
proof -
  let ?root = "cache_dir_in base p b" and ?contents = "blobs_read files b" and ?stamp = "built_stamp p"
  from assms(1,2) have names: "find (\<lambda>f. \<not> is_safe_name (ef_name f)) (py_files p) = None"
    by (auto simp: extract_into_def Let_def split: option.splits)
  with assms(3) have contained: "contained p" by (auto simp: contained_def find_None_iff list_all_iff)
  show ?thesis
  proof (cases "is_file_at t (?root @ [COMPLETE_MARKER])")
    case True
    with assms(1,2) names have "et_root x = ?root" "t' = t" by (auto simp: extract_into_def Let_def)
    moreover from True assms(5) have "unpacked p ?contents ?stamp ?root t"
      by (auto simp: clean_root_def is_file_at_def)
    ultimately show ?thesis by simp
  next
    case False
    with assms(1,2) names have x: "et_root x = ?root"
      and run: "unpack_from p ?contents ?stamp ?root pid answers ClearPrivate t = (Inr (), t')"
      by (auto simp: extract_into_def unpack_into_place_def Let_def split: prod.splits sum.splits)
    have "(\<lambda>_. ClearPrivate)(pid := ClearPrivate) = (\<lambda>_. ClearPrivate)" by auto
    with unpack_from_moves [OF run, of "\<lambda>_. ClearPrivate"]
    have "(unpack_moves p ?contents ?stamp ?root)\<^sup>*\<^sup>* (\<lambda>_. ClearPrivate, t) ((\<lambda>_. ClearPrivate)(pid := Finished (Inr ())), t')"
      by simp
    from racing_reachable [OF contained assms(4,2,5) this] x show ?thesis by simp
  qed
qed

section \<open>Schedules\<close>

definition call_by :: "payload \<Rightarrow> (embedded_file \<Rightarrow> payload_error + octets) \<Rightarrow> octets \<Rightarrow> place
    \<Rightarrow> (nat \<Rightarrow> unpack_pc) \<times> disk_table \<Rightarrow> nat \<Rightarrow> (nat \<Rightarrow> unpack_pc) \<times> disk_table" where
  "call_by p contents stamp root c pid =
     (let moved = unpack_call p contents stamp root pid Works (fst c pid) (snd c)
      in ((fst c)(pid := fst moved), snd moved))"

lemma call_by_moves: "unpack_moves p contents stamp root c (call_by p contents stamp root c pid)"
  using one_call [of p contents stamp root pid Works "fst c" "snd c"]
  by (cases c) (simp add: call_by_def Let_def)

lemma schedule_moves: "(unpack_moves p contents stamp root)\<^sup>*\<^sup>* c (foldl (call_by p contents stamp root) c pids)"
proof (induction pids arbitrary: c)
  case (Cons pid pids)
  show ?case unfolding foldl_Cons by (rule converse_rtranclp_into_rtranclp [OF call_by_moves Cons])
qed simp

definition one_engine :: payload where
  "one_engine = plain_payload\<lparr> py_files := [\<lparr> ef_name = ''duckdb'', ef_role = RoleEngine, ef_offset = 0,
     ef_length = 1, ef_executable = True, ef_extra = [] \<rparr>] \<rparr>"

definition two_unpack :: "disk_table \<Rightarrow> nat list \<Rightarrow> (nat \<Rightarrow> unpack_pc) \<times> disk_table" where
  "two_unpack t pids = foldl (call_by one_engine (\<lambda>_. Inr [7]) [1] [''tmp'', ''p'']) (\<lambda>_. ClearPrivate, t) pids"

theorem unpacking_races_safely_witness:
  "fst (two_unpack [] [0, 1, 0, 1, 0, 1, 0, 1, 0, 1, 0, 1, 1, 1]) 1 = Finished (Inr ()) \<and>
   unpacked one_engine (\<lambda>_. Inr [7]) [1] [''tmp'', ''p''] (snd (two_unpack [] [0, 1, 0, 1, 0, 1, 0, 1, 0, 1, 0, 1, 1, 1]))"
proof -
  have "contained one_engine" "py_files one_engine \<noteq> []" by code_simp+
  moreover have "clean_root one_engine (\<lambda>_. Inr [7]) [1] [''tmp'', ''p''] []" by (simp add: clean_root_def)
  moreover have finished: "fst (two_unpack [] [0, 1, 0, 1, 0, 1, 0, 1, 0, 1, 0, 1, 1, 1]) 1 = Finished (Inr ())" by code_simp
  moreover have "(unpack_moves one_engine (\<lambda>_. Inr [7]) [1] [''tmp'', ''p''])\<^sup>*\<^sup>* (\<lambda>_. ClearPrivate, [])
      (fst (two_unpack [] [0, 1, 0, 1, 0, 1, 0, 1, 0, 1, 0, 1, 1, 1]), snd (two_unpack [] [0, 1, 0, 1, 0, 1, 0, 1, 0, 1, 0, 1, 1, 1]))"
    unfolding two_unpack_def prod.collapse by (rule schedule_moves)
  ultimately show ?thesis
    using unpacking_races_safely [of one_engine "[''tmp'', ''p'']" "\<lambda>_. Inr [7]" "[1]" "[]"
      "fst (two_unpack [] [0, 1, 0, 1, 0, 1, 0, 1, 0, 1, 0, 1, 1, 1])"
      "snd (two_unpack [] [0, 1, 0, 1, 0, 1, 0, 1, 0, 1, 0, 1, 1, 1])"] by blast
qed

text \<open>
  A stale directory breaks this. It is looked at in one call and removed in another, and in between
  another process can put its finished directory there: that process has reported that it is done,
  and then its files are gone.
\<close>

lemma stale_check_removes_winner:
  "fst (two_unpack [([''tmp'', ''p''], None)] [0, 0, 0, 0, 0, 0, 1, 1, 1, 1, 1, 1, 1, 1]) 1 = Finished (Inr ())"
  "there (snd (two_unpack [([''tmp'', ''p''], None)] [0, 0, 0, 0, 0, 0, 1, 1, 1, 1, 1, 1, 1, 1])) [''tmp'', ''p'', ''duckdb'']"
  "\<not> there (snd (two_unpack [([''tmp'', ''p''], None)] [0, 0, 0, 0, 0, 0, 1, 1, 1, 1, 1, 1, 1, 1, 0])) [''tmp'', ''p'', ''duckdb'']"
  by code_simp+

text \<open>
  Nor is an artifact always contained: the names of its files are checked, the version and the
  platform its extensions are put under are not.
\<close>

definition escaping_payload :: payload where
  "escaping_payload = plain_payload\<lparr> py_platform := ''/etc/cron.d'', py_files := [\<lparr> ef_name = ''job'',
     ef_role = RoleExtension, ef_offset = 0, ef_length = 1, ef_executable = False, ef_extra = [] \<rparr>] \<rparr>"

lemma platform_escapes:
  "list_all (\<lambda>f. is_safe_name (ef_name f)) (py_files escaping_payload)"
  "map (destination escaping_payload [''tmp'', ''p'']) (py_files escaping_payload) = [[''etc'', ''cron.d'', ''job'']]"
  by code_simp+

end
