(* ===== verification/Runner_Main.thy ===== *)
theory Runner_Main
  imports Runner_Extract Remember Lineage Params Exec_Example "HOL-Library.Countable"
begin

text \<open>
  The program an artifact is (\<^verbatim>\<open>crates/runner/src/main.rs\<close>): read the payload out of its own
  executable, resolve what was left open, unpack the engine, load what earlier runs remembered,
  compile, run, and remember the run, in that order and with the exit code of whichever failed. What
  it prints to the terminal is left out, but for the lines of the report; what the machine answers is
  the record \<open>runner_world\<close>.
\<close>

section \<open>Exit codes\<close>

definition EXIT_OK :: nat where "EXIT_OK = 0"
definition EXIT_USAGE :: nat where "EXIT_USAGE = 1"
definition EXIT_INVALID :: nat where "EXIT_INVALID = 2"
definition EXIT_FAILED :: nat where "EXIT_FAILED = 3"

record runner_cli =
  rl_workspace :: "str option"
  rl_info :: bool
  rl_no_counts :: bool

text \<open>The crates and the machine the runner calls.\<close>

record runner_world =
  rn_registry :: registry
  rn_outside :: outside
  rn_env :: env_vars
  rn_today :: str
  rn_now :: "nat \<Rightarrow> str"
  rn_self :: "str option"
  rn_files :: file_store
  rn_probe :: "octets \<Rightarrow> nat option"
  rn_parse :: "octets \<Rightarrow> payload option"
  rn_pid :: nat
  rn_cache_base :: place
  rn_unpack :: "unpack_pc \<Rightarrow> call_result"
  rn_state_parse :: "str \<Rightarrow> pipeline_state option"
  rn_state_print :: "pipeline_state \<Rightarrow> str"
  rn_read_fails :: bool
  rn_dir_fails :: bool
  rn_write :: write_result
  rn_rename_fails :: bool

definition place_text :: "place \<Rightarrow> str" where
  "place_text p = concat (map (\<lambda>c. ''/'' @ c) p)"

definition runner_workspace :: "runner_world \<Rightarrow> runner_cli \<Rightarrow> str" where
  "runner_workspace w cli = (case rl_workspace cli of
     Some d \<Rightarrow> d
   | None \<Rightarrow> (case os_current_dir (rn_outside w) of Some d \<Rightarrow> d | None \<Rightarrow> ''.''))"

definition runner_state_dir :: "runner_world \<Rightarrow> runner_cli \<Rightarrow> str" where
  "runner_state_dir w cli = path_join (runner_workspace w cli) STATE_DIR"

definition runner_options :: "runner_world \<Rightarrow> runner_cli \<Rightarrow> extracted \<Rightarrow> run_options" where
  "runner_options w cli x = \<lparr> ro_duckdb_bin = map_option place_text (et_duckdb_bin x),
     ro_working_dir = Some (runner_workspace w cli), ro_counts = \<not> rl_no_counts cli,
     ro_extension_dir = map_option place_text (et_extension_dir x), ro_redact = [] \<rparr>"

definition runner_load :: "runner_world \<Rightarrow> runner_cli \<Rightarrow> str \<Rightarrow> disk \<Rightarrow> state_error + pipeline_state" where
  "runner_load w cli key dsk =
     state_load (rn_state_parse w) (rn_read_fails w) (runner_state_dir w cli) key dsk"

section \<open>A run\<close>

text \<open>What a finished run leaves: the lines of its report, its exit code, and the state on disk.\<close>

definition runner_finish :: "runner_world \<Rightarrow> runner_cli \<Rightarrow> str \<Rightarrow> pipeline_state \<Rightarrow> exec_error + run_report \<Rightarrow> disk
    \<Rightarrow> nat \<times> str list \<times> disk" where
  "runner_finish w cli key stored result dsk = (case result of
     Inl e \<Rightarrow> (case e of DuckdbNotFound _ \<Rightarrow> EXIT_USAGE | _ \<Rightarrow> EXIT_FAILED, [], dsk)
   | Inr report \<Rightarrow>
       if report_failed report then (EXIT_FAILED, report_lines report, dsk)
       else let (remembered, stored') = remember (rn_now w) report stored
            in if remembered_changed remembered
               then (case state_save (rn_state_print w) (rn_dir_fails w) (rn_write w) (rn_rename_fails w)
                        (runner_state_dir w cli) key stored' dsk of
                       (Inl _, dsk') \<Rightarrow> (EXIT_FAILED, report_lines report, dsk')
                     | (Inr _, dsk') \<Rightarrow> (EXIT_OK, report_lines report, dsk'))
               else (EXIT_OK, report_lines report, dsk))"

definition runner_execute :: "runner_world \<Rightarrow> runner_cli \<Rightarrow> payload \<Rightarrow> blobs \<Rightarrow> disk \<Rightarrow> disk_table
    \<Rightarrow> nat \<times> str list \<times> disk \<times> disk_table" where
  "runner_execute w cli p b dsk t =
     (case resolve (rn_env w) (py_pipeline p) (resolver_new (rn_today w) (runner_workspace w cli)) of
        Inl _ \<Rightarrow> (EXIT_INVALID, [], dsk, t)
      | Inr resolved \<Rightarrow>
          (case extract_into (rn_files w) (rn_unpack w) (rn_pid w) (rn_cache_base w) p b t of
             (Inl _, t') \<Rightarrow> (EXIT_USAGE, [], dsk, t')
           | (Inr x, t') \<Rightarrow>
               (case runner_load w cli (py_name p) dsk of
                  Inl _ \<Rightarrow> (EXIT_INVALID, [], dsk, t')
                | Inr stored \<Rightarrow>
                    (let d = rp_document resolved;
                         remembering = compile_options_for d stored
                     in case compile_with (rn_registry w) (os_connector (rn_outside w)) (rg_options remembering) d of
                          Inl _ \<Rightarrow> (EXIT_INVALID, [], dsk, t')
                        | Inr plan \<Rightarrow>
                            (let (ec, lines, dsk') = runner_finish w cli (py_name p) stored
                               (fst (run (rn_outside w) plan (runner_options w cli x) machine_start)) dsk
                             in (ec, lines, dsk', t'))))))"

definition runner_dispatch :: "runner_world \<Rightarrow> runner_cli \<Rightarrow> disk \<Rightarrow> disk_table
    \<Rightarrow> nat \<times> str list \<times> disk \<times> disk_table" where
  "runner_dispatch w cli dsk t = (case rn_self w of
     None \<Rightarrow> (EXIT_USAGE, [], dsk, t)
   | Some path \<Rightarrow>
       (case read_from (rn_probe w) (rn_parse w) (rn_files w) path of
          Inl _ \<Rightarrow> (EXIT_USAGE, [], dsk, t)
        | Inr None \<Rightarrow> (EXIT_USAGE, [], dsk, t)
        | Inr (Some (p, b)) \<Rightarrow>
            if rl_info cli then (EXIT_OK, [], dsk, t) else runner_execute w cli p b dsk t))"

section \<open>What an artifact leaves behind\<close>

lemma saved_is_loaded:
  assumes "state_save ser dir_fails wrote rename_fails dir key st d = (Inr u, d')"
    and "parse (ser (st\<lparr> ps_format_version := STATE_FORMAT_VERSION \<rparr>) @ [CHR 0x0A])
      = Some (st\<lparr> ps_format_version := STATE_FORMAT_VERSION \<rparr>)"
  shows "state_load parse False dir key d' = Inr (st\<lparr> ps_format_version := STATE_FORMAT_VERSION \<rparr>)"
proof (cases "check_key key")
  case (Inr v)
  with assms(1) have "d' (path_for dir key) = Some (ser (st\<lparr> ps_format_version := STATE_FORMAT_VERSION \<rparr>) @ [CHR 0x0A])"
    by (auto simp: state_save_def Let_def split: if_splits write_result.splits)
  with Inr assms(2) show ?thesis by (simp add: state_load_def)
qed (use assms(1) in \<open>simp add: state_save_def\<close>)

lemma loaded_when_readable:
  "state_load parse read_fails dir key d = Inr st \<Longrightarrow> state_load parse False dir key d = Inr st"
  by (auto simp: state_load_def and_then_eq_Inr_iff Let_def split: option.splits if_splits)

lemma fits_version [simp]:
  "fits_watermark (st\<lparr> ps_format_version := v \<rparr>) i column = fits_watermark st i column"
  "fits_checkpoint (st\<lparr> ps_format_version := v \<rparr>) i component = fits_checkpoint st i component"
  by (simp_all add: fits_watermark_def fits_checkpoint_def state_watermark_def state_checkpoint_def)

lemma remember_resumes:
  "fits_watermark (snd (remember now report st)) i column = resumes_at report st i column"
  "fits_checkpoint (snd (remember now report st)) i component = resumes_from report st i component"
  by (simp_all add: remembered_fits resumes_at_def resumes_from_def)

lemma exit_codes [simp]:
  "EXIT_USAGE \<noteq> EXIT_OK" "EXIT_INVALID \<noteq> EXIT_OK" "EXIT_FAILED \<noteq> EXIT_OK"
  by (simp_all add: EXIT_OK_def EXIT_USAGE_def EXIT_INVALID_def EXIT_FAILED_def)

lemma runner_finish_cases:
  assumes "runner_finish w cli key stored result dsk = (ec, lines, dsk')"
  shows "(ec = EXIT_OK \<and> (\<exists>report remembered stored'. result = Inr report \<and> \<not> report_failed report \<and>
        remember (rn_now w) report stored = (remembered, stored') \<and>
        (if remembered_changed remembered
         then \<exists>u. state_save (rn_state_print w) (rn_dir_fails w) (rn_write w) (rn_rename_fails w)
            (runner_state_dir w cli) key stored' dsk = (Inr u, dsk')
         else dsk' = dsk))) \<or>
    (ec \<noteq> EXIT_OK \<and> (\<forall>k. dsk' (path_for (runner_state_dir w cli) k) = dsk (path_for (runner_state_dir w cli) k)))"
proof (cases result)
  case (Inl e)
  with assms show ?thesis by (cases e) (auto simp: runner_finish_def)
next
  case (Inr report)
  obtain remembered stored' where r: "remember (rn_now w) report stored = (remembered, stored')" by fastforce
  obtain saved disk' where s: "state_save (rn_state_print w) (rn_dir_fails w) (rn_write w) (rn_rename_fails w)
      (runner_state_dir w cli) key stored' dsk = (saved, disk')" by fastforce
  show ?thesis
  proof (cases "\<not> report_failed report \<and> remembered_changed remembered")
    case True
    then show ?thesis
    proof (cases saved)
      case (Inl e)
      with assms Inr True r s failed_save_keeps [OF s [unfolded Inl]] show ?thesis
        by (simp add: runner_finish_def)
    next
      case (Inr u)
      with assms \<open>result = Inr report\<close> True r s show ?thesis by (auto simp: runner_finish_def)
    qed
  qed (use assms Inr r in \<open>auto simp: runner_finish_def split: if_splits\<close>)
qed

text \<open>
  C17: An artifact remembers a run exactly when it succeeded. It exits with 0 only after its document
  resolved and compiled, every stage of the run succeeded and what the run reported is on disk: the
  next run of it starts from there. With any other exit code the state of every pipeline is as it
  was. (\<^verbatim>\<open>serde_json\<close> is to read back the state it printed.)
\<close>

theorem artifact_remembers_only_success:
  assumes "runner_execute w cli p b dsk t = (ec, lines, dsk', t')"
    and "\<And>st. rn_state_parse w (rn_state_print w (st\<lparr> ps_format_version := STATE_FORMAT_VERSION \<rparr>) @ [CHR 0x0A])
      = Some (st\<lparr> ps_format_version := STATE_FORMAT_VERSION \<rparr>)"
  shows "if ec = EXIT_OK
    then \<exists>resolved stored plan x report stored'.
      resolve (rn_env w) (py_pipeline p) (resolver_new (rn_today w) (runner_workspace w cli)) = Inr resolved \<and>
      runner_load w cli (py_name p) dsk = Inr stored \<and>
      compile_with (rn_registry w) (os_connector (rn_outside w))
        (rg_options (compile_options_for (rp_document resolved) stored)) (rp_document resolved) = Inr plan \<and>
      fst (run (rn_outside w) plan (runner_options w cli x) machine_start) = Inr report \<and> \<not> report_failed report \<and>
      state_load (rn_state_parse w) False (runner_state_dir w cli) (py_name p) dsk' = Inr stored' \<and>
      (\<forall>i column. fits_watermark stored' i column = resumes_at report stored i column) \<and>
      (\<forall>i component. fits_checkpoint stored' i component = resumes_from report stored i component)
    else \<forall>key. state_load (rn_state_parse w) False (runner_state_dir w cli) key dsk'
      = state_load (rn_state_parse w) False (runner_state_dir w cli) key dsk"
proof -
  let ?dir = "runner_state_dir w cli"
  have untouched: "\<forall>key. state_load (rn_state_parse w) False ?dir key d = state_load (rn_state_parse w) False ?dir key dsk"
    if "\<forall>k. d (path_for ?dir k) = dsk (path_for ?dir k)" for d
    using that by (simp add: state_load_def)
  consider (early) "ec \<noteq> EXIT_OK" "dsk' = dsk"
    | (ran) resolved x stored plan where
      "resolve (rn_env w) (py_pipeline p) (resolver_new (rn_today w) (runner_workspace w cli)) = Inr resolved"
      "runner_load w cli (py_name p) dsk = Inr stored"
      "compile_with (rn_registry w) (os_connector (rn_outside w))
        (rg_options (compile_options_for (rp_document resolved) stored)) (rp_document resolved) = Inr plan"
      "runner_finish w cli (py_name p) stored
        (fst (run (rn_outside w) plan (runner_options w cli x) machine_start)) dsk = (ec, lines, dsk')"
    using assms(1) unfolding runner_execute_def
    by (auto simp: Let_def split: sum.splits prod.splits)
  then show ?thesis
  proof cases
    case early
    then show ?thesis by simp
  next
    case ran
    show ?thesis
    proof (cases "ec = EXIT_OK")
      case True
      with runner_finish_cases [OF ran(4)] obtain report remembered stored' where
        report: "fst (run (rn_outside w) plan (runner_options w cli x) machine_start) = Inr report" "\<not> report_failed report"
        and r: "remember (rn_now w) report stored = (remembered, stored')"
        and saved: "if remembered_changed remembered
         then \<exists>u. state_save (rn_state_print w) (rn_dir_fails w) (rn_write w) (rn_rename_fails w)
            ?dir (py_name p) stored' dsk = (Inr u, dsk') else dsk' = dsk" by blast
      have "\<exists>v. state_load (rn_state_parse w) False ?dir (py_name p) dsk' = Inr (stored'\<lparr> ps_format_version := v \<rparr>)"
      proof (cases "remembered_changed remembered")
        case True
        with saved obtain u where "state_save (rn_state_print w) (rn_dir_fails w) (rn_write w) (rn_rename_fails w)
            ?dir (py_name p) stored' dsk = (Inr u, dsk')" by auto
        from saved_is_loaded [where parse = "rn_state_parse w", OF this assms(2)] show ?thesis by blast
      next
        case False
        with saved unchanged_when_nothing_remembered [OF r] have "dsk' = dsk" "stored' = stored" by simp_all
        with ran(2) have "state_load (rn_state_parse w) False ?dir (py_name p) dsk' = Inr stored'"
          unfolding runner_load_def by (blast intro: loaded_when_readable)
        then show ?thesis by (intro exI [of _ "ps_format_version stored'"]) simp
      qed
      then obtain v where "state_load (rn_state_parse w) False ?dir (py_name p) dsk' = Inr (stored'\<lparr> ps_format_version := v \<rparr>)" ..
      moreover have "stored' = snd (remember (rn_now w) report stored)" by (simp add: r)
      then have "\<forall>i column. fits_watermark (stored'\<lparr> ps_format_version := v \<rparr>) i column = resumes_at report stored i column"
        "\<forall>i component. fits_checkpoint (stored'\<lparr> ps_format_version := v \<rparr>) i component = resumes_from report stored i component"
        by (simp_all add: remember_resumes)
      ultimately show ?thesis
        unfolding if_P [OF True] using ran(1-3) report by (intro exI conjI)
    next
      case False
      with runner_finish_cases [OF ran(4)] have "\<forall>k. dsk' (path_for ?dir k) = dsk (path_for ?dir k)" by blast
      from untouched [OF this] show ?thesis unfolding if_not_P [OF False] .
    qed
  qed
qed

section \<open>An example\<close>

text \<open>A printer of states and its inverse, by numbering the states.\<close>

instance json :: countable
  by countable_datatype

definition state_number :: "pipeline_state \<Rightarrow> nat" where
  "state_number st = to_nat (ps_format_version st,
     map (\<lambda>(k, w). (k, wm_value w, wm_column w, wm_at w, wm_extra w)) (ps_watermarks st),
     map (\<lambda>(k, c). (k, cp_component c, cp_value c, cp_at c, cp_extra c)) (ps_checkpoints st), ps_extra st)"

lemma state_number_inj: "inj state_number"
proof (rule injI)
  fix st st' assume "state_number st = state_number st'"
  then have "ps_format_version st = ps_format_version st'" "ps_extra st = ps_extra st'"
    and maps: "map (\<lambda>(k, w). (k, wm_value w, wm_column w, wm_at w, wm_extra w)) (ps_watermarks st) =
      map (\<lambda>(k, w). (k, wm_value w, wm_column w, wm_at w, wm_extra w)) (ps_watermarks st')"
      "map (\<lambda>(k, c). (k, cp_component c, cp_value c, cp_at c, cp_extra c)) (ps_checkpoints st) =
      map (\<lambda>(k, c). (k, cp_component c, cp_value c, cp_at c, cp_extra c)) (ps_checkpoints st')"
    by (simp_all add: state_number_def)
  moreover from maps(1) have "ps_watermarks st = ps_watermarks st'"
    by (rule list.inj_map_strong [rotated]) (auto intro: watermark.equality)
  moreover from maps(2) have "ps_checkpoints st = ps_checkpoints st'"
    by (rule list.inj_map_strong [rotated]) (auto intro: checkpoint.equality)
  ultimately show "st = st'" by (simp add: pipeline_state.equality)
qed

definition idle_doc :: pipeline_doc where
  "idle_doc = (sample_doc [])\<lparr> doc_nodes := [reading_node ''a'' True] \<rparr>"

definition idle_payload :: payload where
  "idle_payload = payload_new ''idle'' [] idle_doc"

definition idle_world :: runner_world where
  "idle_world = \<lparr> rn_registry = two_components, rn_outside = example_outside\<lparr> os_connector := \<lambda>_. None \<rparr>,
     rn_env = (\<lambda>_. None), rn_today = ''2026-01-01'', rn_now = (\<lambda>_. ''2026-01-01T00:00:00Z''), rn_self = Some ''/bin/idle'',
     rn_files = Map.empty, rn_probe = (\<lambda>_. None), rn_parse = (\<lambda>_. None), rn_pid = 1, rn_cache_base = [''tmp''],
     rn_unpack = (\<lambda>_. Works), rn_state_parse = (\<lambda>s. Some (inv state_number (length s - 1))),
     rn_state_print = (\<lambda>st. replicate (state_number st) (CHR ''x'')), rn_read_fails = False,
     rn_dir_fails = False, rn_write = WriteOk, rn_rename_fails = False \<rparr>"

definition idle_cli :: runner_cli where
  "idle_cli = \<lparr> rl_workspace = Some ''/work'', rl_info = False, rl_no_counts = True \<rparr>"

lemma idle_resolved: "map_sum (\<lambda>_. ()) rp_document (resolve (\<lambda>_. None) idle_doc (resolver_new ''2026-01-01'' ''/work'')) = Inr idle_doc"
  by code_simp

lemma idle_compiled: "map_sum (\<lambda>_. ()) pl_stages (compile_with two_components (\<lambda>_. None) compile_options_default idle_doc) = Inr []"
  by code_simp

lemma idle_recalled: "compile_options_for idle_doc (pipeline_state_default\<lparr> ps_format_version := STATE_FORMAT_VERSION \<rparr>) = remembering_default"
  by code_simp

lemma idle_run:
  assumes "pl_stages plan = []"
  shows "\<exists>report. fst (run (rn_outside idle_world) plan (runner_options idle_world idle_cli
      \<lparr> et_duckdb_bin = None, et_extension_dir = None, et_root = root, et_freshly_extracted = False \<rparr>) machine_start)
    = Inr report \<and> rr_failures report = [] \<and> rr_watermarks report = [] \<and> rr_checkpoints report = []"
  using assms
  by (simp add: runner_options_def runner_workspace_def idle_cli_def idle_world_def act_code leaf_code mask_code
    example_defs spawn_script_def stage_counts_def has_prelude_probe_def parse_counts_def parse_watermarks_def
    read_watermarks_def watermark_probes_def script_outcomes_def cong: seq_first)

lemma idle_execution:
  "fst (runner_execute idle_world idle_cli idle_payload b Map.empty []) = EXIT_OK"
proof -
  obtain resolved where res: "resolve (\<lambda>_. None) idle_doc (resolver_new ''2026-01-01'' ''/work'') = Inr resolved"
    "rp_document resolved = idle_doc"
    using idle_resolved by (cases "resolve (\<lambda>_. None) idle_doc (resolver_new ''2026-01-01'' ''/work'')") auto
  obtain plan where plan: "compile_with two_components (\<lambda>_. None) compile_options_default idle_doc = Inr plan"
    "pl_stages plan = []"
    using idle_compiled by (cases "compile_with two_components (\<lambda>_. None) compile_options_default idle_doc") auto
  have load: "runner_load idle_world idle_cli ''idle'' Map.empty = Inr (pipeline_state_default\<lparr> ps_format_version := STATE_FORMAT_VERSION \<rparr>)"
    by (simp add: runner_load_def state_load_def check_key_def)
  obtain report where report: "fst (run (rn_outside idle_world) plan (runner_options idle_world idle_cli
      \<lparr> et_duckdb_bin = None, et_extension_dir = None, et_root = cache_dir_in [''tmp''] idle_payload b,
        et_freshly_extracted = False \<rparr>) machine_start) = Inr report" "rr_failures report = []"
    "rr_watermarks report = []" "rr_checkpoints report = []" using idle_run [OF plan(2)] by blast
  have parts: "rn_env idle_world = (\<lambda>_. None)" "rn_today idle_world = ''2026-01-01''"
    "runner_workspace idle_world idle_cli = ''/work''" "py_pipeline idle_payload = idle_doc"
    "py_name idle_payload = ''idle''" "py_files idle_payload = []" "rn_registry idle_world = two_components"
    "os_connector (rn_outside idle_world) = (\<lambda>_. None)" "rn_cache_base idle_world = [''tmp'']"
    by (simp_all add: idle_world_def idle_cli_def idle_payload_def payload_new_def runner_workspace_def)
  have "rg_options remembering_default = compile_options_default" by (simp add: remembering_default_def)
  then show ?thesis
    by (simp add: runner_execute_def parts res load idle_recalled plan report extract_into_def Let_def
      runner_finish_def report_failed_def remember_def remembered_changed_def remembered_default_def
      cong: sum.case_cong)
qed

theorem artifact_remembers_only_success_witness:
  "\<exists>lines dsk' t' stored'. runner_execute idle_world idle_cli idle_payload
      \<lparr> bl_path = ''/bin/idle'', bl_start = 0, bl_length = 0, bl_key = 0 \<rparr> Map.empty [] = (EXIT_OK, lines, dsk', t') \<and>
    state_load (rn_state_parse idle_world) False (runner_state_dir idle_world idle_cli) ''idle'' dsk' = Inr stored'"
proof -
  let ?b = "\<lparr> bl_path = ''/bin/idle'', bl_start = 0, bl_length = 0, bl_key = 0 \<rparr>"
  obtain lines dsk' t' where run: "runner_execute idle_world idle_cli idle_payload ?b Map.empty [] = (EXIT_OK, lines, dsk', t')"
    using idle_execution [of ?b] by (metis prod_cases4 fst_conv)
  have "rn_state_parse idle_world (rn_state_print idle_world (st\<lparr> ps_format_version := STATE_FORMAT_VERSION \<rparr>) @ [CHR 0x0A])
      = Some (st\<lparr> ps_format_version := STATE_FORMAT_VERSION \<rparr>)" for st
    by (simp add: idle_world_def inv_f_f [OF state_number_inj])
  from artifact_remembers_only_success [OF run this] run show ?thesis
    by (auto simp: idle_payload_def payload_new_def)
qed

end
