(* ===== verification/Mcp_Server.thy ===== *)
theory Mcp_Server
  imports State_Store Pipeline_Doc
begin

text \<open>
  The MCP server (\<^verbatim>\<open>crates/mcp/src/lib.rs\<close>): which paths a tool takes, what each of the thirteen tools
  does, and how an answer is marked. The workspace behind it is a record of functions, as the trait
  \<^verbatim>\<open>Workspace\<close> is; the protocol itself is \<^verbatim>\<open>rmcp\<close>'s. A path is the list of the components below
  the root of the file system. The files are a map that a call may change: \<open>create_pipeline\<close> writes a document
  itself, and a run and a build change what the workspace behind the trait changes; every other tool only reads.
\<close>

section \<open>Paths\<close>

type_synonym path_parts = "str list"

definition path_components :: "str \<Rightarrow> path_parts" where
  "path_components s = filter (\<lambda>c. c \<noteq> [] \<and> c \<noteq> ''.'') (split_on (\<lambda>c. c = CHR ''/'') s)"

fun normalised :: "path_parts \<Rightarrow> path_parts \<Rightarrow> path_parts option" where
  "normalised walked [] = Some walked"
| "normalised walked (part # parts) =
     (if part = ''..'' then (if walked = [] then None else normalised (butlast walked) parts)
      else normalised (walked @ [part]) parts)"

datatype path_refusal = PathEmpty | PathLeadsOutside str | PathOutside str path_parts

definition inside :: "path_parts \<Rightarrow> str \<Rightarrow> path_refusal + path_parts" where
  "inside root given =
     (let written = trim given
      in if written = [] then Inl PathEmpty
         else case normalised [] (if starts_with written ''/'' then path_components written
                else root @ path_components written) of
           None \<Rightarrow> Inl (PathLeadsOutside written)
         | Some normal \<Rightarrow>
             if take (length root) normal = root \<and> normal \<noteq> root then Inr normal
             else Inl (PathOutside written root))"

definition path_text :: "path_parts \<Rightarrow> str" where
  "path_text p = concat (map (\<lambda>c. ''/'' @ c) p)"

definition refusal_text :: "path_refusal \<Rightarrow> str" where
  "refusal_text r = (case r of
     PathEmpty \<Rightarrow> ''the path is empty''
   | PathLeadsOutside w \<Rightarrow> [CHR 0x27] @ w @ [CHR 0x27] @ '' leads outside the workspace''
   | PathOutside w root \<Rightarrow> [CHR 0x27] @ w @ [CHR 0x27] @ '' is outside the workspace ('' @ path_text root @
       ''); give a path inside it'')"

section \<open>The workspace\<close>

record bindings =
  bi_params :: "(str, str) om"
  bi_context :: "str option"

type_synonym mcp_files = "path_parts \<Rightarrow> str option"

record mcp_workspace =
  mw_root :: path_parts
  mw_manifest :: json
  mw_schema :: json
  mw_pipelines :: "mcp_files \<Rightarrow> str + json"
  mw_validate :: "str \<Rightarrow> bindings \<Rightarrow> mcp_files \<Rightarrow> str + json"
  mw_plan :: "path_parts \<Rightarrow> bindings \<Rightarrow> mcp_files \<Rightarrow> str + json"
  mw_lineage :: "path_parts \<Rightarrow> bindings \<Rightarrow> mcp_files \<Rightarrow> str + json"
  mw_run :: "path_parts \<Rightarrow> bindings \<Rightarrow> mcp_files \<Rightarrow> (str + json) \<times> mcp_files"
  mw_runs :: "str option \<Rightarrow> nat \<Rightarrow> mcp_files \<Rightarrow> str + json"
  mw_run_record :: "str \<Rightarrow> mcp_files \<Rightarrow> str + json"
  mw_build :: "path_parts \<Rightarrow> str option \<Rightarrow> path_parts \<Rightarrow> bindings \<Rightarrow> mcp_files \<Rightarrow> (str + json) \<times> mcp_files"
  mw_connections :: "mcp_files \<Rightarrow> str + json"

text \<open>The text a document is handed over as, the text it is written as, and what the disk does.\<close>

record mcp_io =
  mi_compact :: "json \<Rightarrow> str"
  mi_pretty :: "json \<Rightarrow> str"
  mi_dirs_fail :: "str option"
  mi_write :: write_result
  mi_cause :: str

section \<open>Answers\<close>

record tool_result =
  tr_is_error :: bool
  tr_content :: "str + json"

definition outcome_of :: "str + json \<Rightarrow> tool_result" where
  "outcome_of v = (case v of
     Inr answer \<Rightarrow> \<lparr> tr_is_error = (json_get answer ''valid'' = Some (JBool False) \<or>
       json_get answer ''outcome'' = Some (JString ''failed'')), tr_content = Inr answer \<rparr>
   | Inl message \<Rightarrow> \<lparr> tr_is_error = True, tr_content = Inl message \<rparr>)"

definition json_at :: "json \<Rightarrow> str \<Rightarrow> json" where
  "json_at v key = (case json_get v key of Some x \<Rightarrow> x | None \<Rightarrow> JNull)"

definition elements :: "json \<Rightarrow> json list" where
  "elements v = (case json_as_array v of Some vs \<Rightarrow> vs | None \<Rightarrow> [])"

section \<open>The tools\<close>

datatype tool =
    ListComponents "str option"
  | GetComponent str
  | GetSchema
  | ListPipelines
  | ValidatePipeline "json option" "str option" bindings
  | CreatePipeline str json bool bindings
  | RunPipeline str bindings
  | PlanPipeline str bindings
  | GetLineage str bindings
  | ListRuns "str option" "nat option"
  | GetRunLog str
  | BuildExecutable str str "str option" bindings
  | ListConnections

definition trim_dots :: "str \<Rightarrow> str" where
  "trim_dots s = rev (dropWhile (\<lambda>c. c = CHR ''.'') (rev s))"

definition component_summary :: "json \<Rightarrow> json" where
  "component_summary component =
     (let required = map (\<lambda>p. json_at p ''name'')
        (filter (\<lambda>p. json_at p ''required'' = JBool True) (elements (json_at component ''properties'')))
      in JObject [(''id'', json_at component ''id''), (''label'', json_at component ''label''),
           (''namespace'', json_at component ''namespace''),
           (''description'', json_at component ''description''), (''required'', JArray required)])"

definition in_namespace :: "str option \<Rightarrow> json \<Rightarrow> bool" where
  "in_namespace wanted component = (case wanted of
     Some p \<Rightarrow> (case json_as_str (json_at component ''id'') of Some i \<Rightarrow> starts_with i (p @ ''.'') | None \<Rightarrow> False)
   | None \<Rightarrow> True)"

definition list_components :: "mcp_workspace \<Rightarrow> str option \<Rightarrow> tool_result" where
  "list_components w asked =
     (let wanted = map_option (\<lambda>n. trim_dots (trim n)) asked;
          listed = map component_summary (filter (in_namespace wanted) (elements (json_at (mw_manifest w) ''components'')))
      in outcome_of (Inr (JObject [(''components'', JArray listed)])))"

definition get_component :: "mcp_workspace \<Rightarrow> str \<Rightarrow> tool_result" where
  "get_component w i = outcome_of (ok_or
     (''no component '' @ [CHR 0x27] @ trim i @ [CHR 0x27] @ ''; list_components names them'')
     (find (\<lambda>component. json_at component ''id'' = JString (trim i)) (elements (json_at (mw_manifest w) ''components''))))"

definition mcp_path :: "mcp_workspace \<Rightarrow> str \<Rightarrow> str + path_parts" where
  "mcp_path w written = map_err refusal_text (inside (mw_root w) written)"

definition path_extension :: "path_parts \<Rightarrow> str option" where
  "path_extension p = (if p = [] then None else extension_of (last p))"

definition validate_pipeline :: "mcp_workspace \<Rightarrow> mcp_io \<Rightarrow> json option \<Rightarrow> str option \<Rightarrow> bindings \<Rightarrow> mcp_files
    \<Rightarrow> tool_result" where
  "validate_pipeline w io document path b files =
     outcome_of (and_then (case (document, path) of
         (Some d, None) \<Rightarrow> Inr (mi_compact io d)
       | (None, Some p) \<Rightarrow> and_then (mcp_path w p) (\<lambda>q. ok_or (CHR 0x22 # path_text q @ [CHR 0x22] @ '': '' @ mi_cause io) (files q))
       | _ \<Rightarrow> Inl ''give either document or path'') (\<lambda>content. mw_validate w content b files))"

definition with_written :: "json \<Rightarrow> path_parts \<Rightarrow> json" where
  "with_written checked q = (case checked of
     JObject fs \<Rightarrow> JObject (obj_insert ''written'' (JString (path_text q)) fs) | _ \<Rightarrow> checked)"

definition write_document :: "mcp_io \<Rightarrow> path_parts \<Rightarrow> json \<Rightarrow> json \<Rightarrow> mcp_files \<Rightarrow> (str + json) \<times> mcp_files" where
  "write_document io q document checked files =
     (let body = mi_pretty io document @ [CHR 0x0A];
          failed = Inl (path_text q @ '': '' @ mi_cause io)
      in case mi_dirs_fail io of
           Some cause \<Rightarrow> (Inl cause, files)
         | None \<Rightarrow> (case mi_write io of
               WriteOpenFails \<Rightarrow> (failed, files)
             | WritePartial n \<Rightarrow> (failed, files(q \<mapsto> take n body))
             | WriteOk \<Rightarrow> (Inr (with_written checked q), files(q \<mapsto> body))))"

definition create_pipeline :: "mcp_workspace \<Rightarrow> mcp_io \<Rightarrow> str \<Rightarrow> json \<Rightarrow> bool \<Rightarrow> bindings \<Rightarrow> mcp_files
    \<Rightarrow> tool_result \<times> mcp_files" where
  "create_pipeline w io path document overwrite b files =
     (case mcp_path w path of
        Inl message \<Rightarrow> (outcome_of (Inl message), files)
      | Inr q \<Rightarrow>
          if path_extension q \<noteq> Some ''json'' then (outcome_of (Inl ''a pipeline's path ends in .json''), files)
          else if files q \<noteq> None \<and> \<not> overwrite
          then (outcome_of (Inl (path_text q @ '' is already there; pass overwrite: true to replace it'')), files)
          else case mw_validate w (mi_compact io document) b files of
            Inl message \<Rightarrow> (outcome_of (Inl message), files)
          | Inr checked \<Rightarrow>
              if json_at checked ''valid'' \<noteq> JBool True then (outcome_of (Inr checked), files)
              else (let (answer, files') = write_document io q document checked files in (outcome_of answer, files')))"

definition on_path :: "mcp_workspace \<Rightarrow> str \<Rightarrow> (path_parts \<Rightarrow> str + json) \<Rightarrow> tool_result" where
  "on_path w path work = outcome_of (and_then (mcp_path w path) work)"

definition run_limit :: "nat option \<Rightarrow> nat" where
  "run_limit limit = max 1 (min 500 (case limit of Some n \<Rightarrow> n | None \<Rightarrow> 10))"

definition run_pipeline :: "mcp_workspace \<Rightarrow> str \<Rightarrow> bindings \<Rightarrow> mcp_files \<Rightarrow> tool_result \<times> mcp_files" where
  "run_pipeline w path b files = (case mcp_path w path of
     Inl message \<Rightarrow> (outcome_of (Inl message), files)
   | Inr q \<Rightarrow> (case mw_run w q b files of (answer, files') \<Rightarrow> (outcome_of answer, files')))"

definition build_executable :: "mcp_workspace \<Rightarrow> str \<Rightarrow> str \<Rightarrow> str option \<Rightarrow> bindings \<Rightarrow> mcp_files \<Rightarrow> tool_result \<times> mcp_files" where
  "build_executable w path out target b files = (case and_then (mcp_path w path) (\<lambda>q. and_then (mcp_path w out) (\<lambda>r. Inr (q, r))) of
     Inl message \<Rightarrow> (outcome_of (Inl message), files)
   | Inr (q, r) \<Rightarrow> (case mw_build w q target r b files of (answer, files') \<Rightarrow> (outcome_of answer, files')))"

definition call_tool :: "mcp_workspace \<Rightarrow> mcp_io \<Rightarrow> tool \<Rightarrow> mcp_files \<Rightarrow> tool_result \<times> mcp_files" where
  "call_tool w io asked files = (case asked of
     ListComponents n \<Rightarrow> (list_components w n, files)
   | GetComponent i \<Rightarrow> (get_component w i, files)
   | GetSchema \<Rightarrow> (outcome_of (Inr (mw_schema w)), files)
   | ListPipelines \<Rightarrow> (outcome_of (mw_pipelines w files), files)
   | ValidatePipeline d p b \<Rightarrow> (validate_pipeline w io d p b files, files)
   | CreatePipeline p d ow b \<Rightarrow> create_pipeline w io p d ow b files
   | RunPipeline p b \<Rightarrow> run_pipeline w p b files
   | PlanPipeline p b \<Rightarrow> (on_path w p (\<lambda>q. mw_plan w q b files), files)
   | GetLineage p b \<Rightarrow> (on_path w p (\<lambda>q. mw_lineage w q b files), files)
   | ListRuns p n \<Rightarrow> (outcome_of (mw_runs w p (run_limit n) files), files)
   | GetRunLog i \<Rightarrow> (outcome_of (mw_run_record w (trim i) files), files)
   | BuildExecutable p out target b \<Rightarrow> build_executable w p out target b files
   | ListConnections \<Rightarrow> (outcome_of (mw_connections w files), files))"

section \<open>A path stays inside\<close>

lemma path_components_parts: "c \<in> set (path_components s) \<Longrightarrow> c \<noteq> [] \<and> c \<noteq> ''.'' \<and> CHR ''/'' \<notin> set c"
  using split_on_pieces [of c "\<lambda>c. c = CHR ''/''" s] by (auto simp: path_components_def)

lemma normalised_parts:
  "normalised walked parts = Some normal \<Longrightarrow> set normal \<subseteq> set walked \<union> (set parts - {''..''})"
proof (induction walked parts rule: normalised.induct)
  case (2 walked part parts)
  have "set (butlast walked) \<subseteq> set walked" by (auto dest: in_set_butlastD)
  with 2 show ?case by (auto split: if_splits)
qed simp

lemma normalised_plain: "''..'' \<notin> set parts \<Longrightarrow> normalised walked parts = Some (walked @ parts)"
  by (induction walked parts rule: normalised.induct) auto

definition plain_root :: "path_parts \<Rightarrow> bool" where
  "plain_root root \<longleftrightarrow> list_all (\<lambda>c. c \<noteq> [] \<and> c \<noteq> ''.'' \<and> c \<noteq> ''..'' \<and> CHR ''/'' \<notin> set c) root"

lemma inside_parts:
  assumes "inside root written = Inr p" "plain_root root"
  shows "\<exists>rel. rel \<noteq> [] \<and> p = root @ rel \<and> plain_root p"
proof -
  let ?w = "trim written"
  let ?parts = "if starts_with ?w ''/'' then path_components ?w else root @ path_components ?w"
  from assms(1) have p: "normalised [] ?parts = Some p" "take (length root) p = root" "p \<noteq> root"
    by (auto simp: inside_def Let_def split: if_splits option.splits)
  from p(2,3) obtain rel where rel: "p = root @ rel" "rel \<noteq> []"
    by (metis append_Nil2 append_take_drop_id)
  have parts: "c \<in> set ?parts \<Longrightarrow> c \<noteq> [] \<and> c \<noteq> ''.'' \<and> CHR ''/'' \<notin> set c" for c
    using path_components_parts [of c ?w] assms(2) by (auto simp: plain_root_def list_all_iff split: if_splits)
  from normalised_parts [OF p(1)] parts have "plain_root p"
    by (auto simp: plain_root_def list_all_iff)
  with rel show ?thesis by blast
qed

lemma inside_plain:
  assumes "plain_root root" "plain_root rel" "rel \<noteq> []" "trim w = w" "path_components w = rel" "\<not> starts_with w ''/''"
  shows "inside root w = Inr (root @ rel)"
proof -
  from assms(3,5) have "w \<noteq> []" by (auto simp: path_components_def)
  moreover have "''..'' \<notin> set (root @ rel)" using assms(1,2) by (auto simp: plain_root_def list_all_iff)
  ultimately show ?thesis using assms(3-6) by (simp add: inside_def normalised_plain)
qed

section \<open>What the server writes\<close>

definition tools_run :: "mcp_workspace \<Rightarrow> (mcp_io \<times> tool) list \<Rightarrow> mcp_files \<Rightarrow> mcp_files" where
  "tools_run w calls files = foldl (\<lambda>fs (io, asked). snd (call_tool w io asked fs)) files calls"

text \<open>
  What a call may have done to a file: written a document that had just been checked, written it as the
  artifact that was asked for, or run a pipeline of the workspace whose run changes it.
\<close>

definition wrote_checked :: "mcp_workspace \<Rightarrow> mcp_files \<Rightarrow> mcp_io \<times> tool \<Rightarrow> path_parts \<Rightarrow> bool" where
  "wrote_checked w before called q \<longleftrightarrow> (case called of (io, asked) \<Rightarrow> \<exists>path document ow b checked.
     asked = CreatePipeline path document ow b \<and> mcp_path w path = Inr q \<and>
     path_extension q = Some ''json'' \<and> (before q = None \<or> ow) \<and>
     mw_validate w (mi_compact io document) b before = Inr checked \<and> json_at checked ''valid'' = JBool True)"

definition built_there :: "mcp_workspace \<Rightarrow> mcp_io \<times> tool \<Rightarrow> path_parts \<Rightarrow> bool" where
  "built_there w called q \<longleftrightarrow> (\<exists>path out target b r. snd called = BuildExecutable path out target b \<and>
     mcp_path w path = Inr r \<and> mcp_path w out = Inr q)"

definition ran_over :: "mcp_workspace \<Rightarrow> mcp_files \<Rightarrow> mcp_io \<times> tool \<Rightarrow> path_parts \<Rightarrow> bool" where
  "ran_over w before called q \<longleftrightarrow> (\<exists>path b r. snd called = RunPipeline path b \<and> mcp_path w path = Inr r \<and>
     snd (mw_run w r b before) q \<noteq> before q)"

text \<open>The workspace's build writes the file it was told to and no other.\<close>

definition builds_there :: "mcp_workspace \<Rightarrow> bool" where
  "builds_there w \<longleftrightarrow> (\<forall>q target r b files p. p \<noteq> r \<longrightarrow> snd (mw_build w q target r b files) p = files p)"

lemma create_pipeline_effect:
  assumes "create_pipeline w io path document ow b files = (r, files')"
  shows "files' = files \<or> (\<exists>q content. files' = files(q \<mapsto> content) \<and>
    wrote_checked w files (io, CreatePipeline path document ow b) q \<and>
    (tr_is_error r \<or> content = mi_pretty io document @ [CHR 0x0A]))"
proof -
  have writes: "files' = files \<or> (\<exists>content. files' = files(q \<mapsto> content) \<and>
      ((\<exists>message. answer = Inl message) \<or> content = mi_pretty io document @ [CHR 0x0A]))"
    if "write_document io q document checked files = (answer, files')" for q checked answer
    using that by (auto simp: write_document_def Let_def split: option.splits write_result.splits)
  show ?thesis
  proof (cases "files' = files")
    case False
    with assms obtain q checked answer where q: "mcp_path w path = Inr q" "path_extension q = Some ''json''"
      "files q = None \<or> ow" "mw_validate w (mi_compact io document) b files = Inr checked"
      "json_at checked ''valid'' = JBool True" "write_document io q document checked files = (answer, files')"
      "r = outcome_of answer"
      by (auto simp: create_pipeline_def split: sum.splits if_splits prod.splits)
    from writes [OF q(6)] False obtain content where content: "files' = files(q \<mapsto> content)"
      "(\<exists>message. answer = Inl message) \<or> content = mi_pretty io document @ [CHR 0x0A]" by blast
    moreover have "wrote_checked w files (io, CreatePipeline path document ow b) q"
      using q(1-5) by (auto simp: wrote_checked_def)
    moreover have "tr_is_error r \<or> content = mi_pretty io document @ [CHR 0x0A]"
      using content(2) q(7) by (auto simp: outcome_of_def)
    ultimately show ?thesis by blast
  qed simp
qed

lemma call_tool_effect:
  assumes "builds_there w" "snd (call_tool w io asked files) q \<noteq> files q"
  shows "wrote_checked w files (io, asked) q \<or> built_there w (io, asked) q \<or> ran_over w files (io, asked) q"
proof -
  from assms(2) consider path document ow b where "asked = CreatePipeline path document ow b"
    | path b where "asked = RunPipeline path b" | path out target b where "asked = BuildExecutable path out target b"
    by (cases asked) (auto simp: call_tool_def)
  then show ?thesis
  proof cases
    case (1 path document ow b)
    obtain r files' where run: "create_pipeline w io path document ow b files = (r, files')" by fastforce
    with create_pipeline_effect [OF run] assms(2) show ?thesis by (auto simp: call_tool_def 1 split: if_splits)
  next
    case (2 path b)
    then show ?thesis using assms(2)
      by (auto simp: call_tool_def run_pipeline_def ran_over_def split: sum.splits prod.splits)
  next
    case (3 path out target b)
    from assms(2) obtain r place where at: "mcp_path w path = Inr r" "mcp_path w out = Inr place"
      by (cases "mcp_path w path"; cases "mcp_path w out") (auto simp: call_tool_def build_executable_def 3)
    with assms(2) have "snd (mw_build w r target place b files) q \<noteq> files q"
      by (auto simp: call_tool_def build_executable_def 3 split: prod.splits)
    with assms(1) have "q = place" unfolding builds_there_def by metis
    with at 3 show ?thesis by (auto simp: built_there_def)
  qed
qed

definition strictly_below :: "path_parts \<Rightarrow> path_parts \<Rightarrow> bool" where
  "strictly_below root q \<longleftrightarrow> (\<exists>rel. rel \<noteq> [] \<and> q = root @ rel \<and> plain_root q)"

lemma mcp_path_below: "mcp_path w written = Inr q \<Longrightarrow> plain_root (mw_root w) \<Longrightarrow> strictly_below (mw_root w) q"
  unfolding strictly_below_def
  by (rule inside_parts) (cases "inside (mw_root w) written"; simp add: mcp_path_def)+


text \<open>A workspace whose runs leave a record, and whose builds write what they are told to.\<close>

definition example_workspace :: mcp_workspace where
  "example_workspace = \<lparr> mw_root = [''home'', ''ws''], mw_manifest = JNull, mw_schema = JNull, mw_pipelines = (\<lambda>_. Inr JNull),
     mw_validate = (\<lambda>_ _ _. Inr (JObject [(''valid'', JBool True)])), mw_plan = (\<lambda>_ _ _. Inr JNull),
     mw_lineage = (\<lambda>_ _ _. Inr JNull), mw_run = (\<lambda>_ _ files. (Inr JNull, files([''home'', ''ws'', ''log''] \<mapsto> ''ran''))),
     mw_runs = (\<lambda>_ _ _. Inr JNull), mw_run_record = (\<lambda>_ _. Inr JNull),
     mw_build = (\<lambda>_ _ out _ files. (Inr JNull, files(out \<mapsto> ''artifact''))), mw_connections = (\<lambda>_. Inr JNull) \<rparr>"

definition example_io :: mcp_io where
  "example_io = \<lparr> mi_compact = (\<lambda>_. ''x''), mi_pretty = (\<lambda>_. ''x''), mi_dirs_fail = None, mi_write = WriteOk, mi_cause = [] \<rparr>"

definition example_bindings :: bindings where
  "example_bindings = \<lparr> bi_params = [], bi_context = None \<rparr>"

definition example_calls :: "(mcp_io \<times> tool) list" where
  "example_calls = [(example_io, CreatePipeline ''../../etc/p.json'' JNull False example_bindings),
     (example_io, CreatePipeline ''a/../p.json'' JNull False example_bindings),
     (example_io, BuildExecutable ''p.json'' ''/etc/passwd'' None example_bindings),
     (example_io, BuildExecutable ''p.json'' ''dist/p'' None example_bindings),
     (example_io, RunPipeline ''p.json'' example_bindings)]"

lemma example_written:
  "tools_run example_workspace example_calls Map.empty [''home'', ''ws'', ''p.json''] = Some (''x'' @ [CHR 0x0A])"
  "tools_run example_workspace example_calls Map.empty [''home'', ''ws'', ''dist'', ''p''] = Some ''artifact''"
  "tools_run example_workspace example_calls Map.empty [''home'', ''ws'', ''log''] = Some ''ran''"
  "tools_run example_workspace example_calls Map.empty [''etc'', ''p.json''] = None"
  "tools_run example_workspace example_calls Map.empty [''etc'', ''passwd''] = None"
  by code_simp+


end
