(* ===== verification/Console_Routes.thy ===== *)
theory Console_Routes
  imports Console_Auth Json_Value
begin

text \<open>
  The web console: which route a request takes and who may take it (\<^verbatim>\<open>crates/console/src/routes.rs\<close>),
  the failures of the workspace behind it (\<^verbatim>\<open>workspace.rs\<close>), the translation of a request off the
  socket (\<^verbatim>\<open>server.rs\<close>) and the link that opens it (\<^verbatim>\<open>lib.rs\<close>). The workspace is a record of
  functions, as the trait is; starting a run is what a request can do to it, so a response comes with
  the names started. Text is its UTF-8 bytes; the fixed parts of the page are an argument.
\<close>

section \<open>Requests and responses\<close>

record console_failure =
  cf_status :: nat
  cf_message :: str

definition failure_not_found :: "str \<Rightarrow> console_failure" where
  "failure_not_found message = \<lparr> cf_status = 404, cf_message = message \<rparr>"

definition failure_invalid :: "str \<Rightarrow> console_failure" where
  "failure_invalid message = \<lparr> cf_status = 422, cf_message = message \<rparr>"

record console_workspace =
  cw_label :: str
  cw_pipelines :: "console_failure + json"
  cw_lineage :: "str \<Rightarrow> console_failure + json"
  cw_runs :: "str option \<Rightarrow> nat \<Rightarrow> console_failure + json"
  cw_run :: "str \<Rightarrow> console_failure + json"
  cw_schedules :: "console_failure + json"
  cw_start :: "str \<Rightarrow> console_failure + json"

record incoming =
  rq_method :: str
  rq_path :: str
  rq_query :: str
  rq_authorization :: "str option"

datatype console_body = JsonBody json | HtmlBody str

record outgoing =
  og_status :: nat
  og_content_type :: str
  og_body :: console_body
  og_headers :: "(str \<times> str) list"

definition outgoing_json :: "nat \<Rightarrow> json \<Rightarrow> outgoing" where
  "outgoing_json status body = \<lparr> og_status = status, og_content_type = ''application/json; charset=utf-8'',
     og_body = JsonBody body, og_headers = [] \<rparr>"

definition outgoing_html :: "nat \<Rightarrow> str \<Rightarrow> outgoing" where
  "outgoing_html status body = \<lparr> og_status = status, og_content_type = ''text/html; charset=utf-8'',
     og_body = HtmlBody body, og_headers = [] \<rparr>"

definition outgoing_error :: "nat \<Rightarrow> str \<Rightarrow> outgoing" where
  "outgoing_error status message = outgoing_json status (JObject [(''error'', JString message)])"

definition add_header :: "str \<Rightarrow> str \<Rightarrow> outgoing \<Rightarrow> outgoing" where
  "add_header name v r = r\<lparr> og_headers := og_headers r @ [(name, v)] \<rparr>"

section \<open>Text that was percent-encoded\<close>

text \<open>\<^verbatim>\<open>String::from_utf8_lossy\<close>: what is not UTF-8 becomes the replacement character.\<close>

definition REPLACEMENT :: str where "REPLACEMENT = [CHR 0xEF, CHR 0xBF, CHR 0xBD]"

definition trails :: "char \<Rightarrow> bool" where
  "trails c \<longleftrightarrow> 0x80 \<le> code c \<and> code c \<le> 0xBF"

definition second_of :: "char \<Rightarrow> char \<Rightarrow> bool" where
  "second_of b c \<longleftrightarrow>
     (if code b = 0xE0 then 0xA0 \<le> code c \<and> code c \<le> 0xBF
      else if code b = 0xED then 0x80 \<le> code c \<and> code c \<le> 0x9F
      else if code b = 0xF0 then 0x90 \<le> code c \<and> code c \<le> 0xBF
      else if code b = 0xF4 then 0x80 \<le> code c \<and> code c \<le> 0x8F
      else trails c)"

fun lossy :: "str \<Rightarrow> str" where
  "lossy [] = []"
| "lossy (b # bs) =
     (if code b < 0x80 then b # lossy bs
      else if 0xC2 \<le> code b \<and> code b \<le> 0xDF then
        (case bs of c # cs \<Rightarrow> if trails c then b # c # lossy cs else REPLACEMENT @ lossy bs
         | [] \<Rightarrow> REPLACEMENT)
      else if 0xE0 \<le> code b \<and> code b \<le> 0xEF then
        (case bs of c # cs \<Rightarrow>
           if second_of b c then
             (case cs of d # ds \<Rightarrow> if trails d then b # c # d # lossy ds else REPLACEMENT @ lossy cs
              | [] \<Rightarrow> REPLACEMENT)
           else REPLACEMENT @ lossy bs
         | [] \<Rightarrow> REPLACEMENT)
      else if 0xF0 \<le> code b \<and> code b \<le> 0xF4 then
        (case bs of c # cs \<Rightarrow>
           if second_of b c then
             (case cs of d # ds \<Rightarrow>
                if trails d then
                  (case ds of e # es \<Rightarrow> if trails e then b # c # d # e # lossy es else REPLACEMENT @ lossy ds
                   | [] \<Rightarrow> REPLACEMENT)
                else REPLACEMENT @ lossy cs
              | [] \<Rightarrow> REPLACEMENT)
           else REPLACEMENT @ lossy bs
         | [] \<Rightarrow> REPLACEMENT)
      else REPLACEMENT @ lossy bs)"

definition hex_value :: "char \<Rightarrow> nat option" where
  "hex_value c =
     (if is_ascii_digit c then Some (code c - 48)
      else if 97 \<le> code c \<and> code c \<le> 102 then Some (code c - 87)
      else if 65 \<le> code c \<and> code c \<le> 70 then Some (code c - 55)
      else None)"

fun decode_bytes :: "str \<Rightarrow> str" where
  "decode_bytes [] = []"
| "decode_bytes (c # cs) =
     (if c = CHR ''+'' then CHR '' '' # decode_bytes cs
      else if c = CHR ''%'' then
        (case cs of h # l # rest \<Rightarrow>
           (case (hex_value h, hex_value l) of
              (Some hi, Some lo) \<Rightarrow> char_of (hi * 16 + lo) # decode_bytes rest
            | _ \<Rightarrow> c # decode_bytes cs)
         | _ \<Rightarrow> c # decode_bytes cs)
      else c # decode_bytes cs)"

definition percent_decode :: "str \<Rightarrow> str" where
  "percent_decode s = lossy (decode_bytes s)"

fun parameter_in :: "str list \<Rightarrow> str \<Rightarrow> str option" where
  "parameter_in [] name = None"
| "parameter_in (pair # pairs) name =
     (let (key, v) = (case split_once (\<lambda>c. c = CHR ''='') pair of Some split \<Rightarrow> split | None \<Rightarrow> (pair, []))
      in if percent_decode key = name
         then (let v = percent_decode v in if v = [] then None else Some v)
         else parameter_in pairs name)"

definition parameter :: "str \<Rightarrow> str \<Rightarrow> str option" where
  "parameter query name = parameter_in (split_on (\<lambda>c. c = CHR ''&'') query) name"

section \<open>Routes\<close>

definition DEFAULT_LIMIT :: nat where "DEFAULT_LIMIT = 50"

definition MAX_LIMIT :: nat where "MAX_LIMIT = 1000"

type_synonym handled = "(console_failure + json) \<times> str list"

definition quiet :: "console_failure + json \<Rightarrow> handled" where
  "quiet r = (r, [])"

definition with_role :: "role \<Rightarrow> role \<Rightarrow> handled \<Rightarrow> outgoing \<times> str list" where
  "with_role has required handler =
     (let (response, started) = (if allows has required
          then (case handler of
                  (Inr body, started) \<Rightarrow> (outgoing_json 200 body, started)
                | (Inl f, started) \<Rightarrow> (outgoing_error (cf_status f) (cf_message f), started))
          else (outgoing_error 403 (''a '' @ role_name has @ '' may not do this; this needs '' @ role_name required), []))
      in (add_header ''X-Etl-Role'' (role_name has) response, started))"

definition unauthorized :: outgoing where
  "unauthorized = add_header ''WWW-Authenticate'' ''Bearer'' (outgoing_error 401 ''a bearer token is required'')"

definition under_key :: "str \<Rightarrow> console_failure + json \<Rightarrow> console_failure + json" where
  "under_key key r = map_sum id (\<lambda>found. JObject [(key, found)]) r"

definition list_runs_route :: "console_workspace \<Rightarrow> str \<Rightarrow> console_failure + json" where
  "list_runs_route w query =
     and_then (case parameter query ''limit'' of
         Some content \<Rightarrow> and_then (ok_or (failure_invalid ([CHR 0x27] @ content @ [CHR 0x27] @ '' is not a number of runs''))
             (parse_u64 content)) (\<lambda>n. Inr (max 1 (min MAX_LIMIT n)))
       | None \<Rightarrow> Inr DEFAULT_LIMIT) (\<lambda>limit.
       under_key ''runs'' (cw_runs w (parameter query ''pipeline'') limit))"

definition start_route :: "console_workspace \<Rightarrow> str \<Rightarrow> handled" where
  "start_route w query = (case parameter query ''pipeline'' of
     None \<Rightarrow> (Inl (failure_invalid ''which pipeline? pass ?pipeline=<name>''), [])
   | Some name \<Rightarrow> (under_key ''run'' (cw_start w name), [name]))"

fun trim_matches :: "str \<Rightarrow> str \<Rightarrow> nat \<Rightarrow> str" where
  "trim_matches p s 0 = s"
| "trim_matches p s (Suc n) = (if p \<noteq> [] \<and> starts_with s p then trim_matches p (drop (length p) s) n else s)"

definition trim_start_matches :: "str \<Rightarrow> str \<Rightarrow> str" where
  "trim_start_matches p s = trim_matches p s (length s)"

definition strip_end :: "str \<Rightarrow> str \<Rightarrow> str option" where
  "strip_end s t = (if ends_with s t then Some (take (length s - length t) s) else None)"

definition run_route :: "console_workspace \<Rightarrow> str \<Rightarrow> console_failure + json" where
  "run_route w path =
     (let i = trim_start_matches ''/api/runs/'' path
      in if i = [] then Inl (failure_not_found ''no run id'') else under_key ''run'' (cw_run w i))"

definition api_route :: "console_workspace \<Rightarrow> role \<Rightarrow> incoming \<Rightarrow> outgoing \<times> str list" where
  "api_route w has request =
     (let reads = rq_method request = ''GET''; path = rq_path request; query = rq_query request
      in if reads \<and> path = ''/api/pipelines'' then with_role has Viewer (quiet (under_key ''pipelines'' (cw_pipelines w)))
      else if reads \<and> path = ''/api/schedules'' then with_role has Viewer (quiet (under_key ''schedules'' (cw_schedules w)))
      else if reads \<and> path = ''/api/runs'' then with_role has Viewer (quiet (list_runs_route w query))
      else if rq_method request = ''POST'' \<and> path = ''/api/runs'' then with_role has Operator (start_route w query)
      else if reads \<and> starts_with path ''/api/runs/'' then with_role has Viewer (quiet (run_route w path))
      else if reads \<and> starts_with path ''/api/pipelines/'' then
        (case strip_end (trim_start_matches ''/api/pipelines/'' path) ''/lineage'' of
           None \<Rightarrow> (outgoing_error 404 ''no such path'', [])
         | Some name \<Rightarrow> with_role has Viewer (quiet (cw_lineage w name)))
      else if reads then (outgoing_error 404 ''no such path'', [])
      else (outgoing_error 405 ''that path does not take this method'', []))"

definition role_of_request :: "tokens \<Rightarrow> incoming \<Rightarrow> role option" where
  "role_of_request toks request =
     Option.bind (Option.bind (rq_authorization request) bearer_of) (role_for toks)"

fun html_escape :: "str \<Rightarrow> str" where
  "html_escape [] = []"
| "html_escape (c # cs) =
     (if c = CHR ''&'' then ''&amp;'' else if c = CHR ''<'' then ''&lt;'' else if c = CHR ''>'' then ''&gt;''
      else if c = CHR 0x22 then ''&quot;'' else if c = CHR 0x27 then ''&#39;'' else [c]) @ html_escape cs"

definition is_page :: "incoming \<Rightarrow> bool" where
  "is_page request \<longleftrightarrow> rq_path request = ''/'' \<or> rq_path request = ''/index.html''"

definition route :: "(str \<Rightarrow> str) \<Rightarrow> incoming \<Rightarrow> tokens \<Rightarrow> console_workspace \<Rightarrow> outgoing \<times> str list" where
  "route shell request toks w =
     (if is_page request then
        (if rq_method request \<noteq> ''GET'' then (outgoing_error 405 ''the console page is a GET'', [])
         else (outgoing_html 200 (shell (html_escape (cw_label w))), []))
      else if rq_path request = ''/api/health'' then
        (if rq_method request = ''GET'' then (outgoing_json 200 (JObject [(''status'', JString ''ok'')]), [])
         else (outgoing_error 405 ''health is a GET'', []))
      else if \<not> starts_with (rq_path request) ''/api/'' then (outgoing_error 404 ''no such path'', [])
      else (case role_of_request toks request of
          None \<Rightarrow> (unauthorized, [])
        | Some has \<Rightarrow> api_route w has request))"

definition CONTENT_POLICY :: str where
  "CONTENT_POLICY = ''default-src 'none'; style-src 'unsafe-inline'; script-src 'unsafe-inline'; '' @
     ''connect-src 'self'; frame-ancestors 'none'; base-uri 'none'; form-action 'none'' @ [CHR 0x27]"

definition harden :: "outgoing \<Rightarrow> outgoing" where
  "harden r = add_header ''Cache-Control'' ''no-store'' (add_header ''Referrer-Policy'' ''no-referrer''
     (add_header ''X-Content-Type-Options'' ''nosniff'' (add_header ''Content-Security-Policy'' CONTENT_POLICY r)))"

definition handle_request :: "(str \<Rightarrow> str) \<Rightarrow> incoming \<Rightarrow> tokens \<Rightarrow> console_workspace \<Rightarrow> outgoing \<times> str list" where
  "handle_request shell request toks w = (let (response, started) = route shell request toks w in (harden response, started))"

definition too_large :: outgoing where
  "too_large = harden (outgoing_error 413 ''that request body is too large'')"

section \<open>Off the socket\<close>

definition MAX_BODY :: nat where "MAX_BODY = 64 * 1024"

definition oversized :: "nat option \<Rightarrow> nat \<Rightarrow> bool" where
  "oversized declared sent \<longleftrightarrow> (case declared of Some n \<Rightarrow> n | None \<Rightarrow> 0) > MAX_BODY \<or> min sent (MAX_BODY + 1) > MAX_BODY"

definition incoming_of :: "str \<Rightarrow> str \<Rightarrow> str option \<Rightarrow> incoming" where
  "incoming_of method target authorization =
     (let (path, query) = (case split_once (\<lambda>c. c = CHR ''?'') target of Some split \<Rightarrow> split | None \<Rightarrow> (target, []))
      in \<lparr> rq_method = method, rq_path = percent_decode path, rq_query = query, rq_authorization = authorization \<rparr>)"

definition answer_request :: "(str \<Rightarrow> str) \<Rightarrow> tokens \<Rightarrow> console_workspace \<Rightarrow> nat option \<Rightarrow> nat \<Rightarrow> str \<Rightarrow> str \<Rightarrow> str option
    \<Rightarrow> outgoing \<times> str list" where
  "answer_request shell toks w declared sent method target authorization =
     (if oversized declared sent then (too_large, [])
      else handle_request shell (incoming_of method target authorization) toks w)"

text \<open>The link \<^verbatim>\<open>etl serve\<close> prints; an address is its text with the host and the port apart.\<close>

definition console_link :: "str \<Rightarrow> bool \<Rightarrow> nat \<Rightarrow> str \<Rightarrow> str" where
  "console_link host unspecified port token =
     ''http://'' @ (if unspecified then ''127.0.0.1'' else host) @ '':'' @ show_nat port @ ''/?token='' @ token"

section \<open>Who can do what\<close>

lemma with_role_started: "snd (with_role has required handler) \<noteq> [] \<Longrightarrow> allows has required"
  by (auto simp: with_role_def split: if_splits)

lemma quiet_started: "snd (with_role has required (quiet r)) = []"
  by (auto simp: with_role_def quiet_def split: sum.splits if_splits)

lemma api_route_started:
  "snd (api_route w has request) \<noteq> [] \<Longrightarrow>
     has = Operator \<and> rq_method request = ''POST'' \<and> rq_path request = ''/api/runs''"
  using with_role_started [of has Operator "start_route w (rq_query request)"]
  by (auto simp: api_route_def Let_def quiet_started allows_def less_eq_role_def split: if_splits option.splits)

lemma route_started:
  assumes "snd (route shell request toks w) \<noteq> []"
  shows "role_of_request toks request = Some Operator \<and> rq_method request = ''POST'' \<and> rq_path request = ''/api/runs''"
  using assms api_route_started by (fastforce simp: route_def split: if_splits option.splits)

lemma role_of_request_iff:
  "role_of_request toks request = Some has \<longleftrightarrow>
     (\<exists>header token. rq_authorization request = Some header \<and> bearer_of header = Some token \<and>
        role_for toks token = Some has)"
  by (cases "rq_authorization request") (auto simp: role_of_request_def split: bind_splits)

text \<open>
  C26: Who can do what on the console. Without a token in its \<^verbatim>\<open>Authorization\<close> header a request other
  than for the page gets the same answer whatever the workspace holds, so it learns nothing of it; and
  a run is started only by a \<^verbatim>\<open>POST\<close> to \<^verbatim>\<open>/api/runs\<close> whose header carries the operator's token,
  never by a viewer and never by a token in the address.
\<close>

theorem console_access:
  "(role_of_request toks request = None \<and> \<not> is_page request \<longrightarrow>
      handle_request shell request toks w = handle_request shell' request toks w') \<and>
   (snd (handle_request shell request toks w) \<noteq> [] \<longrightarrow>
      rq_method request = ''POST'' \<and> rq_path request = ''/api/runs'' \<and>
      (\<exists>header. rq_authorization request = Some header \<and> bearer_of header = Some (tok_operator toks)))"
proof (intro conjI impI)
  assume "role_of_request toks request = None \<and> \<not> is_page request"
  then show "handle_request shell request toks w = handle_request shell' request toks w'"
    by (simp add: handle_request_def route_def)
next
  assume "snd (handle_request shell request toks w) \<noteq> []"
  then have "snd (route shell request toks w) \<noteq> []" by (simp add: handle_request_def split: prod.splits)
  note started = route_started [OF this]
  then show "rq_method request = ''POST''" "rq_path request = ''/api/runs''" by simp_all
  from started obtain header token where "rq_authorization request = Some header" "bearer_of header = Some token"
    "role_for toks token = Some Operator" by (auto simp: role_of_request_iff)
  moreover from this(3) have "token = tok_operator toks" by (simp add: role_for_eq split: if_splits)
  ultimately show "\<exists>header. rq_authorization request = Some header \<and> bearer_of header = Some (tok_operator toks)" by simp
qed

section \<open>Parameters\<close>

definition unreserved :: "char \<Rightarrow> bool" where
  "unreserved c \<longleftrightarrow> is_ascii_alphanumeric c \<or> c \<in> set ''-_.~''"

definition hex_upper :: "nat \<Rightarrow> char" where
  "hex_upper d = (if d < 10 then char_of (48 + d) else char_of (55 + d))"

fun percent_encode :: "str \<Rightarrow> str" where
  "percent_encode [] = []"
| "percent_encode (c # cs) = (if unreserved c then [c]
     else [CHR ''%'', hex_upper (code c div 16), hex_upper (code c mod 16)]) @ percent_encode cs"

definition query_of :: "(str \<times> str) list \<Rightarrow> str" where
  "query_of kvs = join_with ''&'' (map (\<lambda>(k, v). percent_encode k @ ''='' @ percent_encode v) kvs)"

lemma hex_value_upper: "d < 16 \<Longrightarrow> hex_value (hex_upper d) = Some d"
  by (auto simp: hex_value_def hex_upper_def is_ascii_digit_def)

lemma nibbles: "code c div 16 < 16" "code c mod 16 < 16"
proof -
  have "code c < 16 * 16" using char_code_less [of c] by simp
  then show "code c div 16 < 16" by (rule less_mult_imp_div_less)
qed simp

lemma decode_encoded: "decode_bytes (percent_encode s) = s"
proof (induction s)
  case (Cons c cs)
  note d = nibbles [of c]
  have "char_of (code c div 16 * 16 + code c mod 16) = c" by simp
  with Cons d show ?case
    by (cases "unreserved c") (auto simp: hex_value_upper unreserved_def char_class_defs)
qed simp

lemma encoded_chars:
  "c \<in> set (percent_encode s) \<Longrightarrow> c \<noteq> CHR ''&'' \<and> c \<noteq> CHR ''=''"
proof (induction s)
  case (Cons d s)
  have "hex_upper n \<noteq> CHR ''&'' \<and> hex_upper n \<noteq> CHR ''=''" if "n < 16" for n
    using that hex_value_upper [of n] by (auto simp: hex_value_def char_class_defs)
  then have "hex_upper (code d div 16) \<notin> {CHR ''&'', CHR ''=''}" "hex_upper (code d mod 16) \<notin> {CHR ''&'', CHR ''=''}"
    using nibbles [of d] by blast+
  with Cons show ?case by (auto simp: unreserved_def char_class_defs split: if_splits)
qed simp

lemma split_join:
  assumes "ws \<noteq> []" "\<forall>w \<in> set ws. \<forall>c \<in> set w. c \<noteq> CHR ''&''"
  shows "split_on (\<lambda>c. c = CHR ''&'') (join_with ''&'' ws) = ws"
  using assms
proof (induction ws)
  case (Cons w ws)
  show ?case
  proof (cases ws)
    case Nil
    with Cons show ?thesis by (simp add: split_on_no_sep)
  next
    case (Cons v rest)
    with Cons.prems Cons.IH have "split_on (\<lambda>c. c = CHR ''&'') (join_with ''&'' ws) = ws" by simp
    moreover have "split_on (\<lambda>c. c = CHR ''&'') (w @ CHR ''&'' # join_with ''&'' ws) =
        w # split_on (\<lambda>c. c = CHR ''&'') (join_with ''&'' ws)"
      using Cons.prems by (intro split_on_append_sep) auto
    ultimately show ?thesis using Cons by simp
  qed
qed simp

text \<open>
  A query that was built by encoding names and values reads back as it was meant: whatever
  characters they hold, a parameter is the first value given for its name, and an empty value counts
  as none. (The names and values are to be UTF-8.)
\<close>

lemma parameters_read_back:
  assumes "\<forall>(k, v) \<in> set kvs. lossy k = k \<and> lossy v = v" "kvs \<noteq> []"
  shows "parameter (query_of kvs) name = (case map_of kvs name of
     Some v \<Rightarrow> if v = [] then None else Some v | None \<Rightarrow> None)"
proof -
  let ?pair = "\<lambda>(k, v). percent_encode k @ ''='' @ percent_encode v"
  have "\<forall>w \<in> set (map ?pair kvs). \<forall>c \<in> set w. c \<noteq> CHR ''&''"
    using encoded_chars by (fastforce dest: encoded_chars)
  then have pieces: "parameter (query_of kvs) name = parameter_in (map ?pair kvs) name"
    using assms(2) by (simp add: parameter_def query_of_def split_join)
  have once: "split_once (\<lambda>c. c = CHR ''='') (percent_encode k @ CHR ''='' # percent_encode v)
      = Some (percent_encode k, percent_encode v)" for k v
    by (intro split_once_append) (auto dest: encoded_chars)
  have "parameter_in (map ?pair kvs) name = (case map_of kvs name of
     Some v \<Rightarrow> if v = [] then None else Some v | None \<Rightarrow> None)"
    using assms(1) by (induction kvs) (auto simp: once once [of _ "[]", simplified] percent_decode_def decode_encoded Let_def)
  with pieces show ?thesis by simp
qed

lemma parameters_read_back_witness:
  "parameter (query_of [(''pipeline'', ''a&b=c+d %''), (''limit'', [])]) ''pipeline'' = Some ''a&b=c+d %''"
proof -
  have "\<forall>(k, v) \<in> set [(''pipeline'', ''a&b=c+d %''), (''limit'', [])]. lossy k = k \<and> lossy v = v" by simp
  from parameters_read_back [OF this] show ?thesis by simp
qed

text \<open>
  The link does not encode the token it carries: a token from the environment that holds a plus, as
  base64 does, reads back with a space, and the page sends a token the console refuses.
\<close>

lemma link_breaks_token:
  "split_once (\<lambda>c. c = CHR ''?'') (console_link ''h'' True 80 ''a+b'') = Some (''http://127.0.0.1:80/'', ''token=a+b'')"
  "parameter ''token=a+b'' ''token'' = Some ''a b''"
  by code_simp+

definition example_post :: incoming where
  "example_post = \<lparr> rq_method = ''POST'', rq_path = ''/api/runs'', rq_query = ''pipeline=p'',
     rq_authorization = Some ''Bearer secret'' \<rparr>"

definition example_tokens :: tokens where
  "example_tokens = \<lparr> tok_operator = ''secret'', tok_viewer = ''look'', tok_operator_source = Minted, tok_viewer_source = Minted \<rparr>"

definition example_console :: console_workspace where
  "example_console = \<lparr> cw_label = [], cw_pipelines = Inr JNull, cw_lineage = (\<lambda>_. Inr JNull), cw_runs = (\<lambda>_ _. Inr JNull),
     cw_run = (\<lambda>_. Inr JNull), cw_schedules = Inr JNull, cw_start = (\<lambda>_. Inr JNull) \<rparr>"

theorem console_access_witness:
  "snd (handle_request id example_post example_tokens example_console) = [''p''] \<and>
   (\<exists>header. rq_authorization example_post = Some header \<and> bearer_of header = Some ''secret'')"
proof -
  have started: "snd (handle_request id example_post example_tokens example_console) = [''p'']" by code_simp
  then have "\<exists>header. rq_authorization example_post = Some header \<and> bearer_of header = Some (tok_operator example_tokens)"
    using console_access [of example_tokens example_post id example_console id example_console] by simp
  with started show ?thesis by (simp add: example_tokens_def)
qed

end
