(* ===== verification/Cli_Settings.thy ===== *)
theory Cli_Settings
  imports Runner_Main Mcp_Server Schedules Secret_Store
begin

text \<open>
  What every command of \<^verbatim>\<open>etl\<close> starts from (\<^verbatim>\<open>crates/cli/src/main.rs\<close>): the settings on its command line,
  the resolver built from them, and a pipeline read, resolved and compiled. The file is compiled in
  three places -- for a command, for a request, and for a build -- and each is its own definition. The
  world is a record: the parsers and printers of \<^verbatim>\<open>serde_json\<close>, the text of an error, and what the
  machine answers. All of a workspace's files are one map from paths to contents.
\<close>

section \<open>Exit codes\<close>

definition CLI_OK :: nat where "CLI_OK = 0"
definition CLI_USAGE :: nat where "CLI_USAGE = 1"
definition CLI_INVALID :: nat where "CLI_INVALID = 2"
definition CLI_FAILED :: nat where "CLI_FAILED = 3"

lemma cli_codes [simp]:
  "CLI_USAGE \<noteq> CLI_OK" "CLI_INVALID \<noteq> CLI_OK" "CLI_FAILED \<noteq> CLI_OK"
  "CLI_OK \<noteq> CLI_USAGE" "CLI_OK \<noteq> CLI_INVALID" "CLI_OK \<noteq> CLI_FAILED"
  "CLI_USAGE \<noteq> CLI_INVALID" "CLI_USAGE \<noteq> CLI_FAILED" "CLI_INVALID \<noteq> CLI_FAILED"
  "CLI_INVALID \<noteq> CLI_USAGE" "CLI_FAILED \<noteq> CLI_USAGE" "CLI_FAILED \<noteq> CLI_INVALID"
  by (simp_all add: CLI_OK_def CLI_USAGE_def CLI_INVALID_def CLI_FAILED_def)

section \<open>The world\<close>

datatype cli_error =
    CannotRead str
  | NotAPipeline str
  | BadBinding str
  | SecretsRefused secret_error
  | ContextsRefused context_error
  | ParamsRefused param_error
  | StateRefused state_error
  | CompileRefused engine_error

record cli_world =
  wd_registry :: registry
  wd_outside :: outside
  wd_env :: env_vars
  wd_today :: str
  wd_utc :: "nat \<Rightarrow> str"
  wd_stamp :: "nat \<Rightarrow> str"
  wd_pid :: nat
  wd_show :: "cli_error \<Rightarrow> str"
  wd_exec_show :: "exec_error \<Rightarrow> str"
  wd_parse_document :: "str \<Rightarrow> pipeline_doc option"
  wd_parse_contexts :: "str \<Rightarrow> contexts_file option"
  wd_contexts_fail :: bool
  wd_parse_store :: "str \<Rightarrow> store_file option"
  wd_key_fails :: bool
  wd_store_fails :: bool
  wd_decrypt :: encryptor
  wd_parse_state :: "str \<Rightarrow> pipeline_state option"
  wd_print_state :: "pipeline_state \<Rightarrow> str"
  wd_state_read_fails :: bool
  wd_state_dir_fails :: bool
  wd_state_write :: write_result
  wd_state_rename_fails :: bool
  wd_parse_record :: "str \<Rightarrow> run_record option"
  wd_print_record :: "run_record \<Rightarrow> str"
  wd_history_read_fails :: bool
  wd_history_dir_fails :: bool
  wd_history_write :: write_result

section \<open>Settings\<close>

record settings =
  stg_params :: "str list"
  stg_context :: "str option"
  stg_workspace :: "str option"
  stg_contexts :: "str option"
  stg_schedules :: "str option"

definition settings_default :: settings where
  "settings_default = \<lparr> stg_params = [], stg_context = None, stg_workspace = None, stg_contexts = None,
     stg_schedules = None \<rparr>"

definition SCHEDULES_PATH :: str where "SCHEDULES_PATH = ''.etl/schedules.json''"

definition workspace_root :: "cli_world \<Rightarrow> settings \<Rightarrow> str" where
  "workspace_root w s = (case stg_workspace s of
     Some d \<Rightarrow> d
   | None \<Rightarrow> (case os_current_dir (wd_outside w) of Some d \<Rightarrow> d | None \<Rightarrow> ''.''))"

definition schedules_path :: "cli_world \<Rightarrow> settings \<Rightarrow> str" where
  "schedules_path w s = (case stg_schedules s of
     Some p \<Rightarrow> p | None \<Rightarrow> Exec_World.path_join (workspace_root w s) SCHEDULES_PATH)"

definition contexts_path :: "cli_world \<Rightarrow> settings \<Rightarrow> str" where
  "contexts_path w s = (case stg_contexts s of
     Some p \<Rightarrow> p | None \<Rightarrow> Exec_World.path_join (workspace_root w s) CONTEXTS_PATH)"

definition binding_text :: "str \<times> str \<Rightarrow> str" where
  "binding_text b = fst b @ ''='' @ snd b"

definition for_schedule :: "schedule \<Rightarrow> settings \<Rightarrow> settings" where
  "for_schedule sch s = s\<lparr> stg_params := map binding_text (sch_params sch) @ stg_params s,
     stg_context := (case stg_context s of Some c \<Rightarrow> Some c | None \<Rightarrow> sch_context sch) \<rparr>"

definition settings_with :: "bindings \<Rightarrow> settings \<Rightarrow> settings" where
  "settings_with b s = s\<lparr> stg_params := stg_params s @ map binding_text (bi_params b),
     stg_context := (if bi_context b \<noteq> None then bi_context b else stg_context s) \<rparr>"

lemma workspace_of_settings [simp]:
  "workspace_root w (for_schedule sch s) = workspace_root w s"
  "workspace_root w (settings_with b s) = workspace_root w s"
  by (simp_all add: workspace_root_def for_schedule_def settings_with_def)

lemma contexts_of_settings [simp]:
  "contexts_path w (for_schedule sch s) = contexts_path w s"
  "contexts_path w (settings_with b s) = contexts_path w s"
  by (simp_all add: contexts_path_def split: option.split) (simp_all add: for_schedule_def settings_with_def)

section \<open>The resolver\<close>

fun bind_params :: "str list \<Rightarrow> resolver \<Rightarrow> cli_error + resolver" where
  "bind_params [] r = Inr r"
| "bind_params (b # bs) r = (case split_once (\<lambda>c. c = CHR ''='') b of
     None \<Rightarrow> Inl (BadBinding b)
   | Some (name, v) \<Rightarrow> bind_params bs (rv_bind (trim name) v r))"

definition store_source :: "cli_world \<Rightarrow> secret_store \<Rightarrow> secret_source" where
  "store_source w store = \<lparr> ss_get = (\<lambda>name. map_err (\<lambda>e. wd_show w (SecretsRefused e)) (secret_get (wd_decrypt w) name store)),
     ss_names = secret_names store \<rparr>"

definition with_secrets :: "cli_world \<Rightarrow> str \<Rightarrow> disk \<Rightarrow> resolver \<Rightarrow> cli_error + resolver" where
  "with_secrets w root d r =
     (if has_key root d
      then and_then (map_err SecretsRefused (open_existing (wd_parse_store w) (wd_key_fails w) (wd_store_fails w) root d))
        (\<lambda>store. Inr (r\<lparr> rv_secrets := Some (store_source w store) \<rparr>))
      else Inr r)"

definition contexts_file_of :: "cli_world \<Rightarrow> settings \<Rightarrow> disk \<Rightarrow> context_error + contexts_file" where
  "contexts_file_of w s d =
     (let path = contexts_path w s
      in contexts_load (wd_parse_contexts w)
           (case d path of None \<Rightarrow> FileAbsent
            | Some t \<Rightarrow> if wd_contexts_fail w then FileUnreadable else FileText t) path)"

definition try_resolver :: "cli_world \<Rightarrow> settings \<Rightarrow> disk \<Rightarrow> cli_error + resolver" where
  "try_resolver w s d =
     (let root = workspace_root w s
      in and_then (bind_params (stg_params s) (resolver_new (wd_today w) root)) (\<lambda>r1.
         and_then (with_secrets w root d r1) (\<lambda>r2.
         and_then (map_err ContextsRefused (contexts_file_of w s d)) (\<lambda>f.
           map_err ContextsRefused (contexts_apply f r2 (stg_context s))))))"

definition settings_resolver :: "cli_world \<Rightarrow> settings \<Rightarrow> disk \<Rightarrow> nat + resolver" where
  "settings_resolver w s d = map_err (\<lambda>_. CLI_USAGE) (try_resolver w s d)"

section \<open>Warnings\<close>

definition in_quotes :: "str \<Rightarrow> str" where
  "in_quotes s = [CHR 0x27] @ s @ [CHR 0x27]"

definition param_warning_text :: "param_warning \<Rightarrow> str" where
  "param_warning_text warning = (case warning of
     Undeclared name \<Rightarrow> in_quotes name @ '' was supplied but this pipeline declares no such parameter''
   | ShadowsBuiltIn name \<Rightarrow> in_quotes name @ '' hides the built-in of the same name'')"

definition warning_text :: "plan_warning \<Rightarrow> str" where
  "warning_text warning = (case warning of
     DisabledSkipped i \<Rightarrow> in_quotes i @ '' is switched off and was skipped''
   | DroppedDownstreamOfDisabled i disabled \<Rightarrow>
       in_quotes i @ '' was dropped because '' @ in_quotes disabled @ '' is switched off''
   | Orphan i \<Rightarrow> in_quotes i @ '' is not wired to anything''
   | IncrementalIgnored i component \<Rightarrow>
       in_quotes i @ '' asks to load incrementally, but '' @ in_quotes component @
       '' is not a source, so the whole of it is read''
   | UnknownProperty i property \<Rightarrow>
       in_quotes i @ '' sets '' @ in_quotes property @ '', which its component does not define''
   | UnknownMaterialize i v \<Rightarrow>
       in_quotes i @ '' asks to materialize as '' @ in_quotes v @
       '', which this engine does not know; using auto''
   | NoSink \<Rightarrow> ''this pipeline has no sink, so it will read data and write nothing'')"

section \<open>Read, resolve, compile\<close>

record loaded =
  ld_plan :: plan
  ld_resolved :: resolved_params
  ld_state_key :: str

definition cli_state_dir :: "cli_world \<Rightarrow> settings \<Rightarrow> str" where
  "cli_state_dir w s = Exec_World.path_join (workspace_root w s) STATE_DIR"

definition cli_load_state :: "cli_world \<Rightarrow> settings \<Rightarrow> str \<Rightarrow> disk \<Rightarrow> state_error + pipeline_state" where
  "cli_load_state w s key d = state_load (wd_parse_state w) (wd_state_read_fails w) (cli_state_dir w s) key d"

text \<open>\<^verbatim>\<open>load_and_compile\<close> for a command: an exit code, the reason having gone to the terminal.\<close>

definition load_and_compile :: "cli_world \<Rightarrow> settings \<Rightarrow> str \<Rightarrow> disk \<Rightarrow> nat + loaded" where
  "load_and_compile w s pipeline d =
     and_then (ok_or CLI_USAGE (d pipeline)) (\<lambda>content.
     and_then (ok_or CLI_USAGE (wd_parse_document w content)) (\<lambda>document.
     and_then (settings_resolver w s d) (\<lambda>r.
     and_then (map_err (\<lambda>_. CLI_INVALID) (resolve (wd_env w) document r)) (\<lambda>resolved.
     let key = key_for (doc_name (rp_document resolved)) pipeline
     in and_then (map_err (\<lambda>_. CLI_INVALID) (cli_load_state w s key d)) (\<lambda>stored.
     let options = rg_options (compile_options_for (rp_document resolved) stored)
     in and_then (map_err (\<lambda>_. CLI_INVALID)
          (compile_with (wd_registry w) (os_connector (wd_outside w)) options (rp_document resolved))) (\<lambda>plan.
     Inr \<lparr> ld_plan = plan, ld_resolved = resolved, ld_state_key = key \<rparr>))))))"

definition read_document :: "cli_world \<Rightarrow> str \<Rightarrow> disk \<Rightarrow> str + pipeline_doc" where
  "read_document w path d =
     and_then (ok_or (wd_show w (CannotRead path)) (d path)) (\<lambda>content.
       ok_or (wd_show w (NotAPipeline path)) (wd_parse_document w content))"

text \<open>The same for a request: the message itself, with the secrets of the document masked.\<close>

definition load_and_compile_quietly :: "cli_world \<Rightarrow> settings \<Rightarrow> str \<Rightarrow> disk \<Rightarrow> str + loaded" where
  "load_and_compile_quietly w s pipeline d =
     and_then (read_document w pipeline d) (\<lambda>document.
     and_then (map_err (wd_show w) (try_resolver w s d)) (\<lambda>r.
     and_then (map_err (\<lambda>e. wd_show w (ParamsRefused e)) (resolve (wd_env w) document r)) (\<lambda>resolved.
     let key = key_for (doc_name (rp_document resolved)) pipeline
     in and_then (map_err (\<lambda>e. wd_show w (StateRefused e)) (cli_load_state w s key d)) (\<lambda>stored.
     let options = rg_options (compile_options_for (rp_document resolved) stored)
     in and_then (map_err (\<lambda>e. resolved_redact resolved (wd_show w (CompileRefused e)))
          (compile_with (wd_registry w) (os_connector (wd_outside w)) options (rp_document resolved))) (\<lambda>plan.
     Inr \<lparr> ld_plan = plan, ld_resolved = resolved, ld_state_key = key \<rparr>)))))"

text \<open>
  For a build: the built-ins stay in the document, and it is compiled as if nothing were remembered.
\<close>

definition load_for_build :: "cli_world \<Rightarrow> settings \<Rightarrow> str \<Rightarrow> disk \<Rightarrow> (nat \<times> str) + loaded" where
  "load_for_build w s pipeline d =
     and_then (ok_or (CLI_USAGE, wd_show w (CannotRead pipeline)) (d pipeline)) (\<lambda>content.
     and_then (ok_or (CLI_USAGE, wd_show w (NotAPipeline pipeline)) (wd_parse_document w content)) (\<lambda>document.
     and_then (map_err (\<lambda>e. (CLI_USAGE, wd_show w e)) (try_resolver w s d)) (\<lambda>r.
     and_then (map_err (\<lambda>e. (CLI_INVALID, wd_show w (ParamsRefused e)))
         (resolve (wd_env w) document (defer_built_ins r))) (\<lambda>resolved.
     and_then (map_err (\<lambda>e. (CLI_INVALID, resolved_redact resolved (wd_show w (CompileRefused e))))
         (compile_with (wd_registry w) (os_connector (wd_outside w)) compile_options_default (rp_document resolved))) (\<lambda>plan.
     Inr \<lparr> ld_plan = plan, ld_resolved = resolved,
           ld_state_key = key_for (doc_name (rp_document resolved)) pipeline \<rparr>)))))"

lemma ok_or_eq_Inl_iff: "ok_or e x = Inl f \<longleftrightarrow> x = None \<and> f = e"
  by (auto simp: ok_or_def split: option.split)

lemma load_and_compile_code:
  assumes "load_and_compile w s pipeline d = Inl ec"
  shows "ec = CLI_USAGE \<or> ec = CLI_INVALID"
  using assms by (auto simp: load_and_compile_def settings_resolver_def and_then_eq_Inl_iff map_err_eq_Inl_iff
    ok_or_eq_Inl_iff Let_def)

text \<open>A command and a request compile a file to the same plan, and refuse the same files.\<close>

lemma map_err_and_then: "map_err g (and_then r f) = and_then (map_err g r) (\<lambda>x. map_err g (f x))"
  by (cases r) simp_all

lemma map_err_map_err: "map_err g (map_err h r) = map_err (\<lambda>e. g (h e)) r"
  by (cases r) simp_all

lemma map_err_ok_or: "map_err g (ok_or e x) = ok_or (g e) x"
  by (cases x) simp_all

lemma and_then_assoc: "and_then (and_then r f) g = and_then r (\<lambda>x. and_then (f x) g)"
  by (cases r) simp_all

lemmas map_err_laws = and_then_assoc map_err_and_then map_err_map_err map_err_ok_or

lemma quiet_load_agrees:
  "map_err (\<lambda>_. ()) (load_and_compile_quietly w s pipeline d) = map_err (\<lambda>_. ()) (load_and_compile w s pipeline d)"
  by (simp add: load_and_compile_quietly_def load_and_compile_def read_document_def settings_resolver_def map_err_laws Let_def)

section \<open>Checking a document\<close>

definition invalid_document :: "str list \<Rightarrow> str list \<Rightarrow> json" where
  "invalid_document errors warnings = JObject [(''valid'', JBool False),
     (''errors'', JArray (map JString errors)), (''warnings'', JArray (map JString warnings))]"

definition used_json :: "(str, str) om \<Rightarrow> json" where
  "used_json used = JObject (map (\<lambda>(reference, v). (reference, JString v)) used)"

definition check_resolved :: "cli_world \<Rightarrow> resolved_params \<Rightarrow> json" where
  "check_resolved w resolved =
     (let warnings = map param_warning_text (rp_warnings resolved)
      in case compile_with (wd_registry w) (os_connector (wd_outside w)) compile_options_default (rp_document resolved) of
           Inl e \<Rightarrow> invalid_document [resolved_redact resolved (wd_show w (CompileRefused e))] warnings
         | Inr plan \<Rightarrow> JObject [(''valid'', JBool True),
             (''stages'', JInt (int (length (pl_stages plan)))),
             (''sinks'', JInt (int (length (plan_sinks plan)))),
             (''warnings'', JArray (map (\<lambda>t. JString (resolved_redact resolved t))
                (warnings @ map warning_text (pl_warnings plan)))),
             (''resolved'', used_json (rp_used resolved))])"

definition check_document :: "cli_world \<Rightarrow> str \<Rightarrow> settings \<Rightarrow> disk \<Rightarrow> str + json" where
  "check_document w content s d = (case wd_parse_document w content of
     None \<Rightarrow> Inr (invalid_document [wd_show w (NotAPipeline [])] [])
   | Some document \<Rightarrow>
       and_then (map_err (wd_show w) (try_resolver w s d)) (\<lambda>r.
         Inr (case resolve (wd_env w) document r of
                Inl e \<Rightarrow> invalid_document [wd_show w (ParamsRefused e)] []
              | Inr resolved \<Rightarrow> check_resolved w resolved)))"

end
