(* ===== verification/Cli_Run.thy ===== *)
theory Cli_Run
  imports Cli_Settings Scheduler_Loop Console_Routes
begin

text \<open>
  One run of a pipeline from the command line (\<^verbatim>\<open>perform\<close>, \<^verbatim>\<open>save_state\<close> and the record of a run in
  \<^verbatim>\<open>crates/cli/src/main.rs\<close>), and the four places that start one: \<^verbatim>\<open>etl run\<close>, the scheduler, the console
  and the MCP server. The theorems: they leave the same files behind, a run that was started is
  recorded exactly once, and what is remembered moves only for a run that succeeded.
\<close>

section \<open>The record of a run\<close>

definition stage_record_of :: "stage_outcome \<Rightarrow> stage_record" where
  "stage_record_of o1 = \<lparr> sr_node_id = so_node_id o1, sr_label = so_label o1, sr_component_id = so_component_id o1,
     sr_rows = so_rows o1, sr_rejected = so_rejected o1, sr_skipped = map_option skip_describe (so_skipped o1),
     sr_elapsed_ms = so_elapsed o1 \<rparr>"

definition failure_line :: "stage_failure \<Rightarrow> str" where
  "failure_line f = sf_label f @ '' ('' @ sf_node_id f @ ''): '' @ sf_message f"

definition watermark_record_of :: "run_watermark \<Rightarrow> watermark_record" where
  "watermark_record_of m = \<lparr> wr_node_id = rw_node_id m, wr_column = rw_column m, wr_value = rw_value m \<rparr>"

definition record_of :: "str \<Rightarrow> str \<Rightarrow> str \<Rightarrow> str \<Rightarrow> run_report \<Rightarrow> run_record" where
  "record_of i key pipeline started report =
     \<lparr> rr_format_version = RUNS_FORMAT_VERSION, rr_id = i, rr_pipeline = key, rr_path = Some pipeline,
       rr_started = started, rr_elapsed_ms = run_report.rr_elapsed report,
       rr_outcome = (if report_failed report then run_outcome.RunFailed else RunSucceeded),
       run_record.rr_stages = map stage_record_of (run_report.rr_stages report),
       run_record.rr_notes = run_report.rr_notes report,
       run_record.rr_warnings = run_report.rr_warnings report,
       run_record.rr_failures = map failure_line (run_report.rr_failures report),
       run_record.rr_watermarks = map watermark_record_of (run_report.rr_watermarks report), rr_extra = [] \<rparr>"

definition failed_record :: "str \<Rightarrow> str \<Rightarrow> str \<Rightarrow> str \<Rightarrow> str \<Rightarrow> run_record" where
  "failed_record i key pipeline started message =
     \<lparr> rr_format_version = RUNS_FORMAT_VERSION, rr_id = i, rr_pipeline = key, rr_path = Some pipeline,
       rr_started = started, rr_elapsed_ms = 0, rr_outcome = run_outcome.RunFailed, run_record.rr_stages = [],
       run_record.rr_notes = [], run_record.rr_warnings = [], run_record.rr_failures = [message],
       run_record.rr_watermarks = [], rr_extra = [] \<rparr>"

definition cli_runs_dir :: "cli_world \<Rightarrow> settings \<Rightarrow> str" where
  "cli_runs_dir w s = Exec_World.path_join (workspace_root w s) RUNS_DIR"

text \<open>A record that cannot be written is complained about, no more.\<close>

definition remember_run :: "cli_world \<Rightarrow> settings \<Rightarrow> str \<Rightarrow> run_record \<Rightarrow> disk \<Rightarrow> disk" where
  "remember_run w s key r d = snd (history_append (wd_print_record w) (wd_history_dir_fails w) (wd_history_write w)
     (cli_runs_dir w s) key r d)"

section \<open>One run\<close>

record performed =
  pf_record :: run_record
  pf_report :: "run_report option"
  pf_state_key :: str

definition run_options_of :: "cli_world \<Rightarrow> settings \<Rightarrow> str option \<Rightarrow> bool \<Rightarrow> resolved_params \<Rightarrow> run_options" where
  "run_options_of w s duckdb counts resolved = \<lparr> ro_duckdb_bin = duckdb, ro_working_dir = Some (workspace_root w s),
     ro_counts = counts, ro_extension_dir = None, ro_redact = secret_values resolved \<rparr>"

definition not_found :: "exec_error \<Rightarrow> bool" where
  "not_found e \<longleftrightarrow> (case e of DuckdbNotFound _ \<Rightarrow> True | _ \<Rightarrow> False)"

definition perform :: "cli_world \<Rightarrow> str \<Rightarrow> str option \<Rightarrow> bool \<Rightarrow> settings \<Rightarrow> disk \<Rightarrow> (nat + performed) \<times> disk" where
  "perform w pipeline duckdb counts s d = (case load_and_compile w s pipeline d of
     Inl ec \<Rightarrow> (Inl ec, d)
   | Inr l \<Rightarrow>
       (let key = ld_state_key l;
            started = wd_utc w 0;
            i = new_id (wd_utc w 1) (wd_pid w)
        in case fst (run (wd_outside w) (ld_plan l) (run_options_of w s duckdb counts (ld_resolved l)) machine_start) of
             Inr report \<Rightarrow>
               (let r = record_of i key pipeline started report
                in (Inr \<lparr> pf_record = r, pf_report = Some report, pf_state_key = key \<rparr>, remember_run w s key r d))
           | Inl e \<Rightarrow>
               if not_found e then (Inl CLI_USAGE, d)
               else (let r = failed_record i key pipeline started (wd_exec_show w e)
                in (Inr \<lparr> pf_record = r, pf_report = None, pf_state_key = key \<rparr>, remember_run w s key r d))))"

text \<open>What is printed with \<^verbatim>\<open>--show-sql\<close>: the script, its secrets masked.\<close>

definition shown_sql :: "loaded \<Rightarrow> bool \<Rightarrow> str" where
  "shown_sql l counts = resolved_redact (ld_resolved l) (plan_script (ld_plan l) counts)"

definition save_state :: "cli_world \<Rightarrow> settings \<Rightarrow> str \<Rightarrow> run_report \<Rightarrow> disk \<Rightarrow> (nat + unit) \<times> disk" where
  "save_state w s key report d =
     (if run_report.rr_watermarks report = [] \<and> rr_checkpoints report = [] then (Inr (), d)
      else case cli_load_state w s key d of
        Inl _ \<Rightarrow> (Inl CLI_FAILED, d)
      | Inr stored \<Rightarrow>
          (let (remembered, stored') = remember (wd_stamp w) report stored
           in if \<not> remembered_changed remembered then (Inr (), d)
              else case state_save (wd_print_state w) (wd_state_dir_fails w) (wd_state_write w) (wd_state_rename_fails w)
                     (cli_state_dir w s) key stored' d of
                     (Inl _, d') \<Rightarrow> (Inl CLI_FAILED, d')
                   | (Inr _, d') \<Rightarrow> (Inr (), d')))"

section \<open>What starts a run\<close>

text \<open>\<^verbatim>\<open>etl run\<close>: the exit code.\<close>

definition command_run :: "cli_world \<Rightarrow> str \<Rightarrow> str option \<Rightarrow> bool \<Rightarrow> settings \<Rightarrow> disk \<Rightarrow> nat \<times> disk" where
  "command_run w pipeline duckdb counts s d = (case perform w pipeline duckdb counts s d of
     (Inl ec, d1) \<Rightarrow> (ec, d1)
   | (Inr p, d1) \<Rightarrow> (case pf_report p of
        None \<Rightarrow> (CLI_FAILED, d1)
      | Some report \<Rightarrow>
          if report_failed report then (CLI_FAILED, d1)
          else (case save_state w s (pf_state_key p) report d1 of
                  (Inr _, d2) \<Rightarrow> (CLI_OK, d2)
                | (Inl ec, d2) \<Rightarrow> (ec, d2))))"

text \<open>The scheduler's runner.\<close>

definition run_scheduled :: "cli_world \<Rightarrow> schedule \<Rightarrow> str option \<Rightarrow> bool \<Rightarrow> settings \<Rightarrow> disk \<Rightarrow> outcome \<times> disk" where
  "run_scheduled w sch duckdb counts s0 d =
     (let s = for_schedule sch s0;
          pipeline = pipeline_in sch (workspace_root w s)
      in case perform w pipeline duckdb counts s d of
           (Inl _, d1) \<Rightarrow> (Broken, d1)
         | (Inr p, d1) \<Rightarrow> (case pf_report p of
              None \<Rightarrow> (Failed, d1)
            | Some report \<Rightarrow>
                if report_failed report then (Failed, d1)
                else (case save_state w s (pf_state_key p) report d1 of
                        (Inl _, d2) \<Rightarrow> (Failed, d2)
                      | (Inr _, d2) \<Rightarrow> (Succeeded, d2))))"

text \<open>The console's, for the file a name was looked up as, under the lock of the process.\<close>

definition console_start :: "cli_world \<Rightarrow> str \<Rightarrow> str \<Rightarrow> str option \<Rightarrow> bool \<Rightarrow> settings \<Rightarrow> disk
    \<Rightarrow> (console_failure + run_record) \<times> disk" where
  "console_start w name path duckdb counts s d = (case perform w path duckdb counts s d of
     (Inl _, d1) \<Rightarrow> (Inl (failure_invalid (in_quotes name @ '' could not be compiled or started'')), d1)
   | (Inr p, d1) \<Rightarrow>
       (Inr (pf_record p),
        case pf_report p of
          None \<Rightarrow> d1
        | Some report \<Rightarrow> if report_failed report then d1 else snd (save_state w s (pf_state_key p) report d1)))"

text \<open>The MCP server's. The record is handed to \<^verbatim>\<open>serde_json\<close> with its outcome's name in it.\<close>

definition mcp_run :: "cli_world \<Rightarrow> str \<Rightarrow> bindings \<Rightarrow> str option \<Rightarrow> bool \<Rightarrow> settings \<Rightarrow> disk \<Rightarrow> (str + run_record) \<times> disk" where
  "mcp_run w pipeline b duckdb counts s0 d =
     (let s = settings_with b s0
      in case load_and_compile_quietly w s pipeline d of
           Inl message \<Rightarrow> (Inl message, d)
         | Inr _ \<Rightarrow> (case perform w pipeline duckdb counts s d of
              (Inl _, d1) \<Rightarrow> (Inl (pipeline @ '' could not be started: no DuckDB was found (tools/duckdb, '' @
                 DUCKDB_BIN_ENV @ '' or PATH)''), d1)
            | (Inr p, d1) \<Rightarrow> (case pf_report p of
                 None \<Rightarrow> (Inr (pf_record p), d1)
               | Some report \<Rightarrow>
                   if report_failed report then (Inr (pf_record p), d1)
                   else (case save_state w s (pf_state_key p) report d1 of
                           (Inl _, d2) \<Rightarrow> (Inl ''the run succeeded but its watermarks were not saved'', d2)
                         | (Inr _, d2) \<Rightarrow> (Inr (pf_record p), d2)))))"

section \<open>Which files a run touches\<close>

lemma path_join_under:
  assumes "\<not> starts_with p ''/''"
  shows "Exec_World.path_join root p = (if root = [] \<or> ends_with root ''/'' then root else root @ ''/'') @ p"
  using assms by (simp add: Exec_World.path_join_def)

lemma runs_apart_from_state:
  "history_path (cli_runs_dir w s) k \<noteq> path_for (cli_state_dir w s) j"
  "history_path (cli_runs_dir w s) k \<noteq> path_for (cli_state_dir w s) j @ ''.tmp''"
  by (simp_all add: cli_runs_dir_def cli_state_dir_def path_join_under RUNS_DIR_def STATE_DIR_def
      starts_with_def history_path_def path_for_def)

lemma remember_run_elsewhere:
  "p \<noteq> history_path (cli_runs_dir w s) key \<Longrightarrow> remember_run w s key r d p = d p"
  by (simp add: remember_run_def history_append_def Let_def split: sum.split write_result.split)

lemma remember_run_state [simp]: "cli_load_state w s k (remember_run w s key r d) = cli_load_state w s k d"
  using remember_run_elsewhere [OF runs_apart_from_state(1) [symmetric], of w s key r d k]
  by (simp add: cli_load_state_def state_load_def)

lemma perform_cases:
  obtains (refused) ec where "load_and_compile w s pipeline d = Inl ec" "ec \<noteq> CLI_OK"
      "perform w pipeline duckdb counts s d = (Inl ec, d)"
  | (not_started) l e where "load_and_compile w s pipeline d = Inr l"
      "fst (run (wd_outside w) (ld_plan l) (run_options_of w s duckdb counts (ld_resolved l)) machine_start) = Inl e"
      "not_found e" "perform w pipeline duckdb counts s d = (Inl CLI_USAGE, d)"
  | (failed) l e where "load_and_compile w s pipeline d = Inr l"
      "fst (run (wd_outside w) (ld_plan l) (run_options_of w s duckdb counts (ld_resolved l)) machine_start) = Inl e"
      "\<not> not_found e" "perform w pipeline duckdb counts s d =
        (let r = failed_record (new_id (wd_utc w 1) (wd_pid w)) (ld_state_key l) pipeline (wd_utc w 0) (wd_exec_show w e)
         in (Inr \<lparr> pf_record = r, pf_report = None, pf_state_key = ld_state_key l \<rparr>, remember_run w s (ld_state_key l) r d))"
  | (ran) l report where "load_and_compile w s pipeline d = Inr l"
      "fst (run (wd_outside w) (ld_plan l) (run_options_of w s duckdb counts (ld_resolved l)) machine_start) = Inr report"
      "perform w pipeline duckdb counts s d =
        (let r = record_of (new_id (wd_utc w 1) (wd_pid w)) (ld_state_key l) pipeline (wd_utc w 0) report
         in (Inr \<lparr> pf_record = r, pf_report = Some report, pf_state_key = ld_state_key l \<rparr>,
             remember_run w s (ld_state_key l) r d))"
proof (cases "load_and_compile w s pipeline d")
  case (Inl ec)
  from load_and_compile_code [OF this] have "ec \<noteq> CLI_OK" by auto
  with Inl that(1) show ?thesis by (simp add: perform_def)
next
  case (Inr l)
  let ?run = "fst (run (wd_outside w) (ld_plan l) (run_options_of w s duckdb counts (ld_resolved l)) machine_start)"
  show ?thesis
  proof (cases ?run)
    case (Inl e)
    with Inr that(2,3) show ?thesis by (cases "not_found e") (simp_all add: perform_def Let_def)
  next
    case (Inr report)
    with \<open>load_and_compile w s pipeline d = Inr l\<close> that(4) show ?thesis by (simp add: perform_def Let_def)
  qed
qed

section \<open>What a run remembers\<close>

lemma save_state_elsewhere:
  "snd (save_state w s key report d) (history_path (cli_runs_dir w s) k) = d (history_path (cli_runs_dir w s) k)"
  by (auto simp: save_state_def state_save_def Let_def temporary_path runs_apart_from_state
    split: sum.split prod.split write_result.split)

lemma unsaved_state:
  assumes "save_state w s key report d = (Inl e, d')"
  shows "d' (path_for (cli_state_dir w s) k) = d (path_for (cli_state_dir w s) k)"
  using assms by (auto simp: save_state_def split: if_splits sum.splits prod.splits dest: failed_save_keeps)

lemma saved_state:
  assumes "save_state w s key report d = (Inr u, d')" "\<not> report_failed report"
    and "cli_load_state w s key d = Inr stored"
    and "\<And>st. wd_parse_state w (wd_print_state w (st\<lparr> ps_format_version := STATE_FORMAT_VERSION \<rparr>) @ [CHR 0x0A])
      = Some (st\<lparr> ps_format_version := STATE_FORMAT_VERSION \<rparr>)"
  shows "\<exists>stored'. state_load (wd_parse_state w) False (cli_state_dir w s) key d' = Inr stored' \<and>
    (\<forall>i column. fits_watermark stored' i column = resumes_at report stored i column) \<and>
    (\<forall>i component. fits_checkpoint stored' i component = resumes_from report stored i component)"
proof -
  obtain remembered stored' where r: "remember (wd_stamp w) report stored = (remembered, stored')" by fastforce
  then have new: "stored' = snd (remember (wd_stamp w) report stored)" by simp
  have "\<exists>v. state_load (wd_parse_state w) False (cli_state_dir w s) key d' = Inr (stored'\<lparr> ps_format_version := v \<rparr>)"
  proof (cases "d' = d \<and> stored' = stored")
    case True
    with loaded_when_readable [OF assms(3) [unfolded cli_load_state_def]]
    have "state_load (wd_parse_state w) False (cli_state_dir w s) key d' = Inr (stored'\<lparr> ps_format_version := ps_format_version stored \<rparr>)"
      by simp
    then show ?thesis ..
  next
    case False
    moreover have "run_report.rr_watermarks report = [] \<Longrightarrow> rr_checkpoints report = [] \<Longrightarrow> stored' = stored"
      using new assms(2) by (simp add: remember_def)
    ultimately obtain u where "state_save (wd_print_state w) (wd_state_dir_fails w) (wd_state_write w)
        (wd_state_rename_fails w) (cli_state_dir w s) key stored' d = (Inr u, d')"
      using assms(1,3) r unchanged_when_nothing_remembered [OF r]
      by (auto simp: save_state_def split: if_splits sum.splits prod.splits)
    from saved_is_loaded [where parse = "wd_parse_state w", OF this assms(4)] show ?thesis by blast
  qed
  with new show ?thesis by (auto simp: remember_resumes)
qed

text \<open>
  C18: What a pipeline remembers moves exactly when \<^verbatim>\<open>etl run\<close> exits with 0, which takes a file that
  compiled, a run none of whose stages failed, and a state that was written: the next run then starts
  where this one stopped. With any other exit code the state of every pipeline is as it was. (That
  \<^verbatim>\<open>serde_json\<close> reads back the state it printed is the hypothesis.)
\<close>

theorem run_remembers_only_success:
  assumes "command_run w pipeline duckdb counts s d = (ec, d')"
    and "\<And>st. wd_parse_state w (wd_print_state w (st\<lparr> ps_format_version := STATE_FORMAT_VERSION \<rparr>) @ [CHR 0x0A])
      = Some (st\<lparr> ps_format_version := STATE_FORMAT_VERSION \<rparr>)"
  shows "if ec = CLI_OK
    then \<exists>l stored report stored'. load_and_compile w s pipeline d = Inr l \<and>
      cli_load_state w s (ld_state_key l) d = Inr stored \<and>
      fst (run (wd_outside w) (ld_plan l) (run_options_of w s duckdb counts (ld_resolved l)) machine_start) = Inr report \<and>
      \<not> report_failed report \<and>
      state_load (wd_parse_state w) False (cli_state_dir w s) (ld_state_key l) d' = Inr stored' \<and>
      (\<forall>i column. fits_watermark stored' i column = resumes_at report stored i column) \<and>
      (\<forall>i component. fits_checkpoint stored' i component = resumes_from report stored i component)
    else \<forall>key. state_load (wd_parse_state w) False (cli_state_dir w s) key d'
      = state_load (wd_parse_state w) False (cli_state_dir w s) key d"
proof -
  have untouched: "\<forall>key. state_load (wd_parse_state w) False (cli_state_dir w s) key d'
      = state_load (wd_parse_state w) False (cli_state_dir w s) key d"
    if "\<forall>k. d' (path_for (cli_state_dir w s) k) = d (path_for (cli_state_dir w s) k)"
    using that by (simp add: state_load_def)
  note recorded = remember_run_elsewhere [OF runs_apart_from_state(1) [symmetric], of w s]
  show ?thesis
  proof (cases rule: perform_cases [of w s pipeline d duckdb counts])
    case (ran l report)
    from ran(1) obtain stored where stored: "cli_load_state w s (ld_state_key l) d = Inr stored"
      by (auto simp: load_and_compile_def and_then_eq_Inr_iff Let_def)
    let ?r = "record_of (new_id (wd_utc w 1) (wd_pid w)) (ld_state_key l) pipeline (wd_utc w 0) report"
    obtain saved d2 where save: "save_state w s (ld_state_key l) report (remember_run w s (ld_state_key l) ?r d) = (saved, d2)"
      by fastforce
    show ?thesis
    proof (cases "report_failed report")
      case True
      with ran(3) assms(1) untouched recorded show ?thesis by (auto simp: command_run_def Let_def)
    next
      case False
      show ?thesis
      proof (cases saved)
        case (Inl e)
        with False ran(3) assms(1) save have "d' = d2" "ec \<noteq> CLI_OK"
          by (auto simp: command_run_def Let_def save_state_def split: if_splits sum.splits prod.splits)
        with untouched unsaved_state [OF save [unfolded Inl]] recorded show ?thesis by simp
      next
        case (Inr u)
        with False ran(3) assms(1) save have "d' = d2" "ec = CLI_OK" by (auto simp: command_run_def Let_def)
        with saved_state [OF save [unfolded Inr] False _ assms(2)] stored ran(1,2) False show ?thesis by auto
      qed
    qed
  qed (use assms(1) untouched recorded in \<open>auto simp: command_run_def Let_def\<close>)
qed

section \<open>Four front ends, one run\<close>

lemma quiet_load_refuses:
  assumes "load_and_compile_quietly w s pipeline d = Inl message"
  shows "\<exists>ec. load_and_compile w s pipeline d = Inl ec \<and> ec \<noteq> CLI_OK"
proof -
  from assms quiet_load_agrees [of w s pipeline d] obtain ec where "load_and_compile w s pipeline d = Inl ec"
    by (cases "load_and_compile w s pipeline d") auto
  with load_and_compile_code [OF this] show ?thesis by auto
qed

lemma quiet_load_accepts:
  assumes "load_and_compile_quietly w s pipeline d = Inr l"
  shows "load_and_compile w s pipeline d = Inr l"
  using assms quiet_load_agrees [of w s pipeline d] by (cases "load_and_compile w s pipeline d") auto

lemma save_state_code: "save_state w s key report d = (Inl ec, d') \<Longrightarrow> ec = CLI_FAILED"
  by (auto simp: save_state_def split: if_splits sum.splits prod.splits)

lemma recorded_outcome:
  "rr_outcome (record_of i key pipeline started report) = RunSucceeded \<longleftrightarrow> \<not> report_failed report"
  "rr_outcome (failed_record i key pipeline started message) \<noteq> RunSucceeded"
  by (simp_all add: record_of_def failed_record_def)

text \<open>The scheduler's outcome is the exit code in other words.\<close>

lemma run_scheduled_agrees:
  "run_scheduled w sch duckdb counts s d =
     ((let ec = fst (command_run w (pipeline_in sch (workspace_root w s)) duckdb counts (for_schedule sch s) d)
       in if ec = CLI_OK then Succeeded else if ec = CLI_FAILED then Failed else Broken),
      snd (command_run w (pipeline_in sch (workspace_root w s)) duckdb counts (for_schedule sch s) d))"
  by (cases rule: perform_cases [of w "for_schedule sch s" "pipeline_in sch (workspace_root w s)" d duckdb counts])
    (auto simp: run_scheduled_def command_run_def Let_def split: prod.split sum.split
      dest: save_state_code load_and_compile_code)

text \<open>A run that succeeded and whose state could not be saved.\<close>

definition left_unsaved :: "cli_world \<Rightarrow> str \<Rightarrow> str option \<Rightarrow> bool \<Rightarrow> settings \<Rightarrow> disk \<Rightarrow> bool" where
  "left_unsaved w pipeline duckdb counts s d \<longleftrightarrow> (\<exists>p d1 report ec d2. perform w pipeline duckdb counts s d = (Inr p, d1) \<and>
     pf_report p = Some report \<and> \<not> report_failed report \<and> save_state w s (pf_state_key p) report d1 = (Inl ec, d2))"

lemma unsaved_code: "left_unsaved w pipeline duckdb counts s d \<Longrightarrow> fst (command_run w pipeline duckdb counts s d) = CLI_FAILED"
  by (auto simp: left_unsaved_def command_run_def dest: save_state_code)

lemma console_start_agrees:
  "snd (console_start w name pipeline duckdb counts s d) = snd (command_run w pipeline duckdb counts s d)"
  "(\<exists>f. fst (console_start w name pipeline duckdb counts s d) = Inl f) \<longleftrightarrow>
     fst (command_run w pipeline duckdb counts s d) \<notin> {CLI_OK, CLI_FAILED}"
  "(\<exists>r. fst (console_start w name pipeline duckdb counts s d) = Inr r \<and> rr_outcome r = RunSucceeded) \<longleftrightarrow>
     fst (command_run w pipeline duckdb counts s d) = CLI_OK \<or> left_unsaved w pipeline duckdb counts s d"
  by (cases rule: perform_cases [of w s pipeline d duckdb counts];
      auto simp: console_start_def command_run_def left_unsaved_def Let_def recorded_outcome split: prod.split sum.split
        dest: save_state_code load_and_compile_code)+

text \<open>
  C19: The four places that start a run do the same to a workspace, for the same settings: the
  scheduler, the console and the MCP server leave the files \<^verbatim>\<open>etl run\<close> would have left. The scheduler's
  outcome is its exit code in other words, and an agent is told of a success exactly when the exit code is 0.
  The console refuses exactly what \<^verbatim>\<open>etl run\<close> refuses, and shows a success when the exit code is 0 and in
  one case more: a run that succeeded and whose state could not be saved, for which the exit code is 3.
\<close>

theorem front_ends_agree:
  "let code = (\<lambda>pipeline s. fst (command_run w pipeline duckdb counts s d));
       files = (\<lambda>pipeline s. snd (command_run w pipeline duckdb counts s d));
       at = pipeline_in sch (workspace_root w s)
   in run_scheduled w sch duckdb counts s d =
        ((let ec = code at (for_schedule sch s)
          in if ec = CLI_OK then Succeeded else if ec = CLI_FAILED then Failed else Broken),
         files at (for_schedule sch s)) \<and>
      snd (mcp_run w pipeline b duckdb counts s d) = files pipeline (settings_with b s) \<and>
      ((\<exists>r. fst (mcp_run w pipeline b duckdb counts s d) = Inr r \<and> rr_outcome r = RunSucceeded) \<longleftrightarrow>
        code pipeline (settings_with b s) = CLI_OK) \<and>
      snd (console_start w name pipeline duckdb counts s d) = files pipeline s \<and>
      ((\<exists>f. fst (console_start w name pipeline duckdb counts s d) = Inl f) \<longleftrightarrow>
        code pipeline s \<notin> {CLI_OK, CLI_FAILED}) \<and>
      ((\<exists>r. fst (console_start w name pipeline duckdb counts s d) = Inr r \<and> rr_outcome r = RunSucceeded) \<longleftrightarrow>
        code pipeline s = CLI_OK \<or> left_unsaved w pipeline duckdb counts s d) \<and>
      \<not> (left_unsaved w pipeline duckdb counts s d \<and> code pipeline s \<noteq> CLI_FAILED)"
proof -
  let ?t = "settings_with b s"
  have mcp: "snd (mcp_run w pipeline b duckdb counts s d) = snd (command_run w pipeline duckdb counts ?t d) \<and>
      ((\<exists>r. fst (mcp_run w pipeline b duckdb counts s d) = Inr r \<and> rr_outcome r = RunSucceeded) \<longleftrightarrow>
        fst (command_run w pipeline duckdb counts ?t d) = CLI_OK)"
  proof (cases "load_and_compile_quietly w ?t pipeline d")
    case (Inl message)
    with quiet_load_refuses [OF Inl] show ?thesis by (auto simp: mcp_run_def command_run_def perform_def)
  next
    case (Inr l)
    then show ?thesis
      by (cases rule: perform_cases [of w ?t pipeline d duckdb counts])
        (auto simp: mcp_run_def command_run_def Let_def recorded_outcome split: prod.split sum.split
          dest: save_state_code)
  qed
  show ?thesis unfolding Let_def
    using run_scheduled_agrees [of w sch duckdb counts s d] mcp console_start_agrees unsaved_code by (simp add: Let_def)
qed

section \<open>What is recorded\<close>

lemma history_path_inj: "history_path dir j = history_path dir k \<longleftrightarrow> j = k"
  by (simp add: history_path_def)

definition cli_history :: "cli_world \<Rightarrow> settings \<Rightarrow> str \<Rightarrow> disk \<Rightarrow> state_error + run_record list" where
  "cli_history w s key d = history_read (wd_parse_record w) False (cli_runs_dir w s) key d"

lemma history_of_path:
  "d' (history_path (cli_runs_dir w s) k) = d (history_path (cli_runs_dir w s) k) \<Longrightarrow> cli_history w s k d' = cli_history w s k d"
  by (simp add: cli_history_def history_read_def)

lemma remembered_once:
  assumes "check_key key = Inr ()" "wd_history_write w = WriteOk" "\<not> wd_history_dir_fails w"
    and "line_ok (wd_print_record w) (wd_parse_record w) r" "rr_format_version r = RUNS_FORMAT_VERSION"
    and "case d (history_path (cli_runs_dir w s) key) of None \<Rightarrow> True | Some t \<Rightarrow> ends_line t"
  shows "cli_history w s key (remember_run w s key r d) = and_then (cli_history w s key d) (\<lambda>rs. Inr (rs @ [r]))"
proof -
  from assms(1) obtain rs where rs: "history_read (wd_parse_record w) False (cli_runs_dir w s) key d = Inr rs"
    by (cases "history_read (wd_parse_record w) False (cli_runs_dir w s) key d")
      (auto simp: history_read_def Let_def split: option.splits)
  obtain res d' where a: "history_append (wd_print_record w) False WriteOk (cli_runs_dir w s) key r d = (res, d')"
    by fastforce
  have same: "r\<lparr> rr_format_version := RUNS_FORMAT_VERSION \<rparr> = r" using assms(5) by simp
  from append_then_read [OF assms(1) _ assms(6) rs a] assms(4) rs a assms(2,3) show ?thesis
    by (simp add: same remember_run_def cli_history_def)
qed

text \<open>
  C20: A run that was started is recorded exactly once, under its own key and whatever its outcome,
  and no other history changes; a file that was refused, or an engine that is not there, is not a run
  and leaves every file as it was. (The last line of the history is complete, the disk takes the
  line, and \<^verbatim>\<open>serde_json\<close> prints a record on one line that it reads back.)
\<close>

theorem started_runs_are_recorded_once:
  assumes "wd_history_write w = WriteOk" "\<not> wd_history_dir_fails w"
    and "\<And>r. line_ok (wd_print_record w) (wd_parse_record w) r"
    and "\<And>k. case d (history_path (cli_runs_dir w s) k) of None \<Rightarrow> True | Some t \<Rightarrow> ends_line t"
  shows "case load_and_compile w s pipeline d of
      Inl ec \<Rightarrow> command_run w pipeline duckdb counts s d = (ec, d)
    | Inr l \<Rightarrow>
        (let ended = fst (run (wd_outside w) (ld_plan l) (run_options_of w s duckdb counts (ld_resolved l)) machine_start);
             d' = snd (command_run w pipeline duckdb counts s d)
         in if \<exists>e. ended = Inl e \<and> not_found e then command_run w pipeline duckdb counts s d = (CLI_USAGE, d)
            else \<exists>r. cli_history w s (ld_state_key l) d' = and_then (cli_history w s (ld_state_key l) d) (\<lambda>rs. Inr (rs @ [r])) \<and>
              rr_pipeline r = ld_state_key l \<and> rr_path r = Some pipeline \<and>
              (rr_outcome r = RunSucceeded \<longleftrightarrow> (\<exists>report. ended = Inr report \<and> \<not> report_failed report)) \<and>
              (\<forall>k. k \<noteq> ld_state_key l \<longrightarrow> cli_history w s k d' = cli_history w s k d))"
proof -
  have recorded: "cli_history w s (ld_state_key l) d' = and_then (cli_history w s (ld_state_key l) d) (\<lambda>rs. Inr (rs @ [r])) \<and>
      (\<forall>k. k \<noteq> ld_state_key l \<longrightarrow> cli_history w s k d' = cli_history w s k d)"
    if l: "load_and_compile w s pipeline d = Inr l" and r: "rr_format_version r = RUNS_FORMAT_VERSION"
      and d': "\<And>k. d' (history_path (cli_runs_dir w s) k) = remember_run w s (ld_state_key l) r d (history_path (cli_runs_dir w s) k)"
    for l r d'
  proof -
    note same = history_of_path [of d' w s _ "remember_run w s (ld_state_key l) r d", OF d']
    from l have "check_key (ld_state_key l) = Inr ()"
      using key_for_safe by (auto simp: load_and_compile_def and_then_eq_Inr_iff Let_def)
    from remembered_once [where d = d, OF this assms(1,2) assms(3) [of r] r assms(4) [of "ld_state_key l"]] same
    have "cli_history w s (ld_state_key l) d' = and_then (cli_history w s (ld_state_key l) d) (\<lambda>rs. Inr (rs @ [r]))" by simp
    moreover have "cli_history w s k d' = cli_history w s k d" if "k \<noteq> ld_state_key l" for k
      using that same [of k] history_of_path [of "remember_run w s (ld_state_key l) r d" w s k d]
      by (simp add: remember_run_elsewhere history_path_inj)
    ultimately show ?thesis by blast
  qed
  have version: "rr_format_version (record_of i key pipeline started report) = RUNS_FORMAT_VERSION"
    "rr_format_version (failed_record i key pipeline started message) = RUNS_FORMAT_VERSION"
    "rr_pipeline (record_of i key pipeline started report) = key" "rr_path (record_of i key pipeline started report) = Some pipeline"
    "rr_pipeline (failed_record i key pipeline started message) = key"
    "rr_path (failed_record i key pipeline started message) = Some pipeline" for i key started report message
    by (simp_all add: record_of_def failed_record_def)
  show ?thesis
  proof (cases rule: perform_cases [of w s pipeline d duckdb counts])
    case (failed l e)
    then show ?thesis
      using recorded [OF failed(1), of "failed_record (new_id (wd_utc w 1) (wd_pid w)) (ld_state_key l) pipeline (wd_utc w 0) (wd_exec_show w e)"]
      by (auto simp: command_run_def Let_def version recorded_outcome)
  next
    case (ran l report)
    let ?r = "record_of (new_id (wd_utc w 1) (wd_pid w)) (ld_state_key l) pipeline (wd_utc w 0) report"
    have "snd (command_run w pipeline duckdb counts s d) (history_path (cli_runs_dir w s) k) =
        remember_run w s (ld_state_key l) ?r d (history_path (cli_runs_dir w s) k)" for k
      using ran(3) save_state_elsewhere [of w s "ld_state_key l" report "remember_run w s (ld_state_key l) ?r d" k]
      by (auto simp: command_run_def Let_def split: prod.split sum.split)
    from recorded [OF ran(1) version(1) this] ran(1,2) show ?thesis by (auto simp: Let_def version recorded_outcome)
  qed (auto simp: command_run_def)
qed

section \<open>An example\<close>

text \<open>A printer of records and its inverse, by numbering the records.\<close>

instance run_outcome :: countable
  by countable_datatype

definition stage_tuple :: "stage_record \<Rightarrow> str \<times> str \<times> str \<times> nat option \<times> nat option \<times> str option \<times> nat option" where
  "stage_tuple r = (sr_node_id r, sr_label r, sr_component_id r, sr_rows r, sr_rejected r, sr_skipped r, sr_elapsed_ms r)"

definition mark_tuple :: "watermark_record \<Rightarrow> str \<times> str \<times> str option" where
  "mark_tuple m = (wr_node_id m, wr_column m, wr_value m)"

definition record_number :: "run_record \<Rightarrow> nat" where
  "record_number r = to_nat ((rr_format_version r, rr_id r, rr_pipeline r, rr_path r, rr_started r, rr_elapsed_ms r),
     (rr_outcome r, map stage_tuple (run_record.rr_stages r), run_record.rr_notes r, run_record.rr_warnings r),
     (run_record.rr_failures r, map mark_tuple (run_record.rr_watermarks r), rr_extra r))"

lemma record_number_inj: "inj record_number"
proof (rule injI)
  fix r r' :: run_record assume "record_number r = record_number r'"
  then have maps: "map stage_tuple (run_record.rr_stages r) = map stage_tuple (run_record.rr_stages r')"
      "map mark_tuple (run_record.rr_watermarks r) = map mark_tuple (run_record.rr_watermarks r')"
    and rest: "rr_format_version r = rr_format_version r'" "rr_id r = rr_id r'" "rr_pipeline r = rr_pipeline r'"
      "rr_path r = rr_path r'" "rr_started r = rr_started r'" "rr_elapsed_ms r = rr_elapsed_ms r'"
      "rr_outcome r = rr_outcome r'" "run_record.rr_notes r = run_record.rr_notes r'"
      "run_record.rr_warnings r = run_record.rr_warnings r'" "run_record.rr_failures r = run_record.rr_failures r'"
      "rr_extra r = rr_extra r'"
    by (simp_all add: record_number_def)
  have "inj stage_tuple" "inj mark_tuple"
    by (auto simp: inj_def stage_tuple_def mark_tuple_def intro: stage_record.equality watermark_record.equality)
  with maps have "run_record.rr_stages r = run_record.rr_stages r'" "run_record.rr_watermarks r = run_record.rr_watermarks r'"
    by (simp_all add: inj_map_eq_map)
  with rest show "r = r'" by (simp add: run_record.equality)
qed

definition command_world :: cli_world where
  "command_world = \<lparr> wd_registry = two_components, wd_outside = example_outside\<lparr> os_connector := \<lambda>_. None \<rparr>,
     wd_env = (\<lambda>_. None), wd_today = ''2026-01-01'', wd_utc = (\<lambda>_. ''2026-01-01T00:00:00Z''),
     wd_stamp = (\<lambda>_. ''2026-01-01T00:00:00Z''), wd_pid = 1, wd_show = (\<lambda>_. []), wd_exec_show = (\<lambda>_. []),
     wd_parse_document = (\<lambda>_. Some idle_doc), wd_parse_contexts = (\<lambda>_. None), wd_contexts_fail = False,
     wd_parse_store = (\<lambda>_. None), wd_key_fails = False, wd_store_fails = False, wd_decrypt = (\<lambda>_ _ _ _. None),
     wd_parse_state = rn_state_parse idle_world, wd_print_state = rn_state_print idle_world,
     wd_state_read_fails = False, wd_state_dir_fails = False, wd_state_write = WriteOk, wd_state_rename_fails = False,
     wd_parse_record = (\<lambda>s. Some (inv record_number (length s - 1))),
     wd_print_record = (\<lambda>r. replicate (Suc (record_number r)) (CHR ''x'')),
     wd_history_read_fails = False, wd_history_dir_fails = False, wd_history_write = WriteOk \<rparr>"

definition command_settings :: settings where
  "command_settings = settings_default\<lparr> stg_workspace := Some ''/work'' \<rparr>"

definition command_disk :: disk where
  "command_disk = Map.empty(''/work/idle.json'' \<mapsto> ''{}'')"

lemma command_world_prints: "line_ok (wd_print_record command_world) (wd_parse_record command_world) r"
  by (simp add: line_ok_def command_world_def inv_f_f [OF record_number_inj] trim_def trim_start_def trim_end_def
    is_whitespace_def del: replicate_Suc)

lemma command_resolver:
  "try_resolver command_world command_settings command_disk = Inr (resolver_new ''2026-01-01'' ''/work'')"
proof -
  have root: "workspace_root command_world command_settings = ''/work''"
    by (simp add: workspace_root_def command_settings_def)
  have "\<not> has_key ''/work'' command_disk"
    by (simp add: has_key_def key_path_def command_disk_def Watch_Poll.path_join_def KEY_PATH_def)
  moreover have "contexts_file_of command_world command_settings command_disk = Inr contexts_default"
    by (simp add: contexts_file_of_def contexts_path_def root command_disk_def command_settings_def settings_default_def
      Exec_World.path_join_def CONTEXTS_PATH_def contexts_load_def starts_with_def ends_with_def)
  moreover have "stg_params command_settings = []" "stg_context command_settings = None" "wd_today command_world = ''2026-01-01''"
    by (simp_all add: command_settings_def settings_default_def command_world_def)
  ultimately show ?thesis
    by (simp add: try_resolver_def root with_secrets_def contexts_apply_def contexts_default_def rv_activate_def resolver_new_def)
qed

lemma command_loads:
  "\<exists>l. load_and_compile command_world command_settings ''/work/idle.json'' command_disk = Inr l \<and>
     pl_stages (ld_plan l) = [] \<and> ld_state_key l = ''idle'' \<and>
     cli_load_state command_world command_settings ''idle'' command_disk =
       Inr (pipeline_state_default\<lparr> ps_format_version := STATE_FORMAT_VERSION \<rparr>)"
proof -
  obtain resolved where res: "resolve (\<lambda>_. None) idle_doc (resolver_new ''2026-01-01'' ''/work'') = Inr resolved"
    "rp_document resolved = idle_doc"
    using idle_resolved by (cases "resolve (\<lambda>_. None) idle_doc (resolver_new ''2026-01-01'' ''/work'')") auto
  obtain plan where plan: "compile_with two_components (\<lambda>_. None) compile_options_default idle_doc = Inr plan"
    "pl_stages plan = []"
    using idle_compiled by (cases "compile_with two_components (\<lambda>_. None) compile_options_default idle_doc") auto
  have key: "key_for (doc_name idle_doc) ''/work/idle.json'' = ''idle''" by code_simp
  have load: "cli_load_state command_world command_settings ''idle'' command_disk =
       Inr (pipeline_state_default\<lparr> ps_format_version := STATE_FORMAT_VERSION \<rparr>)"
    by (simp add: cli_load_state_def state_load_def check_key_def cli_state_dir_def workspace_root_def command_settings_def
      command_disk_def Exec_World.path_join_def STATE_DIR_def path_for_def starts_with_def ends_with_def)
  have parts: "wd_env command_world = (\<lambda>_. None)" "wd_parse_document command_world = (\<lambda>_. Some idle_doc)"
    "wd_registry command_world = two_components" "os_connector (wd_outside command_world) = (\<lambda>_. None)"
    "command_disk ''/work/idle.json'' = Some ''{}''" by (simp_all add: command_world_def command_disk_def)
  have "rg_options remembering_default = compile_options_default" by (simp add: remembering_default_def)
  then show ?thesis
    by (simp add: load_and_compile_def parts settings_resolver_def command_resolver res key load idle_recalled plan)
qed

lemma command_ends:
  assumes "pl_stages plan = []"
  shows "\<exists>report. fst (run (wd_outside command_world) plan (run_options_of command_world command_settings None False resolved)
      machine_start) = Inr report \<and> run_report.rr_failures report = [] \<and> run_report.rr_watermarks report = [] \<and>
      rr_checkpoints report = []"
  using assms
  by (simp add: run_options_of_def workspace_root_def command_settings_def command_world_def act_code leaf_code mask_code
    example_defs spawn_script_def stage_counts_def has_prelude_probe_def parse_counts_def parse_watermarks_def
    read_watermarks_def watermark_probes_def script_outcomes_def cong: seq_first)

lemma command_succeeds:
  "fst (command_run command_world ''/work/idle.json'' None False command_settings command_disk) = CLI_OK"
proof -
  from command_loads obtain l where l: "load_and_compile command_world command_settings ''/work/idle.json'' command_disk = Inr l"
    "pl_stages (ld_plan l) = []" by blast
  from command_ends [OF l(2)] obtain report where report:
    "fst (run (wd_outside command_world) (ld_plan l) (run_options_of command_world command_settings None False (ld_resolved l))
      machine_start) = Inr report" "run_report.rr_failures report = []" "run_report.rr_watermarks report = []"
    "rr_checkpoints report = []" by blast
  then show ?thesis
    by (simp add: command_run_def perform_def l Let_def report_failed_def save_state_def)
qed

theorem run_remembers_only_success_witness:
  "\<exists>d' stored'. command_run command_world ''/work/idle.json'' None False command_settings command_disk = (CLI_OK, d') \<and>
    state_load (wd_parse_state command_world) False (cli_state_dir command_world command_settings) ''idle'' d' = Inr stored'"
proof -
  obtain d' where run: "command_run command_world ''/work/idle.json'' None False command_settings command_disk = (CLI_OK, d')"
    using command_succeeds by (metis prod.collapse)
  have "wd_parse_state command_world (wd_print_state command_world (st\<lparr> ps_format_version := STATE_FORMAT_VERSION \<rparr>) @ [CHR 0x0A])
      = Some (st\<lparr> ps_format_version := STATE_FORMAT_VERSION \<rparr>)" for st
    by (simp add: command_world_def idle_world_def inv_f_f [OF state_number_inj])
  from run_remembers_only_success [OF run this] run command_loads show ?thesis by auto
qed

theorem started_runs_are_recorded_once_witness:
  "\<exists>r. cli_history command_world command_settings ''idle''
     (snd (command_run command_world ''/work/idle.json'' None False command_settings command_disk)) = Inr [r] \<and>
     rr_outcome r = RunSucceeded"
proof -
  from command_loads obtain l where l: "load_and_compile command_world command_settings ''/work/idle.json'' command_disk = Inr l"
    "pl_stages (ld_plan l) = []" "ld_state_key l = ''idle''" by blast
  from command_ends [OF l(2)] obtain report where report:
    "fst (run (wd_outside command_world) (ld_plan l) (run_options_of command_world command_settings None False (ld_resolved l))
      machine_start) = Inr report" "run_report.rr_failures report = []" by blast
  have empty: "command_disk (history_path (cli_runs_dir command_world command_settings) k) = None" for k
    by (simp add: cli_runs_dir_def workspace_root_def command_settings_def command_disk_def Exec_World.path_join_def
      RUNS_DIR_def history_path_def starts_with_def ends_with_def)
  then have none: "cli_history command_world command_settings ''idle'' command_disk = Inr []"
    by (simp add: cli_history_def history_read_def check_key_def)
  have "wd_history_write command_world = WriteOk" "\<not> wd_history_dir_fails command_world"
    "\<And>k. case command_disk (history_path (cli_runs_dir command_world command_settings) k) of None \<Rightarrow> True | Some t \<Rightarrow> ends_line t"
    using empty by (simp_all add: command_world_def)
  from started_runs_are_recorded_once [where d = command_disk and pipeline = "''/work/idle.json''" and duckdb = None
      and counts = False, OF this(1,2) command_world_prints this(3)]
  show ?thesis using none l report empty by (auto simp: Let_def report_failed_def)
qed

end
