(* ===== verification/Cli_Bindings.thy ===== *)
theory Cli_Bindings
  imports Cli_Run
begin

text \<open>
  Which value a parameter has in a run. A binding is the text \<open>name=value\<close> from the command line until
  it reaches the resolver, a schedule's own bindings included; the theorem says what the four places
  a value can come from amount to once it is there.
\<close>

definition parse_binding :: "str \<Rightarrow> (str \<times> str) option" where
  "parse_binding b = map_option (\<lambda>(name, v). (trim name, v)) (split_once (\<lambda>c. c = CHR ''='') b)"

text \<open>The last of a list of bindings for a name.\<close>

definition last_bound :: "str list \<Rightarrow> str \<Rightarrow> str option" where
  "last_bound bs name = map_of (rev (filter_map parse_binding bs)) name"

definition plain_name :: "str \<Rightarrow> bool" where
  "plain_name n \<longleftrightarrow> CHR ''='' \<notin> set n \<and> trim n = n"

lemma bind_params_explicit:
  "bind_params bs r = Inr r' \<Longrightarrow> r' = r\<lparr> rv_explicit := rv_explicit r' \<rparr> \<and>
     om_get (rv_explicit r') name = (case last_bound bs name of Some v \<Rightarrow> Some v | None \<Rightarrow> om_get (rv_explicit r) name)"
proof (induction bs arbitrary: r)
  case Nil
  then show ?case by (simp add: last_bound_def)
next
  case (Cons b bs)
  then obtain n v where b: "split_once (\<lambda>c. c = CHR ''='') b = Some (n, v)"
    and rest: "bind_params bs (rv_bind (trim n) v r) = Inr r'" by (auto split: option.splits)
  then have "last_bound (b # bs) name = (case last_bound bs name of
      Some v \<Rightarrow> Some v | None \<Rightarrow> if name = trim n then Some v else None)"
    by (simp add: last_bound_def parse_binding_def map_add_def split: option.split)
  with Cons.IH [OF rest] show ?case by (auto simp: rv_bind_def om_get_insert split: option.split)
qed

lemma parse_binding_text: "plain_name n \<Longrightarrow> parse_binding (binding_text (n, v)) = Some (n, v)"
  using split_once_append [of "\<lambda>c. c = CHR ''=''" "CHR ''=''" n v]
  by (auto simp: parse_binding_def binding_text_def plain_name_def)

lemma last_bound_append: "last_bound (as @ bs) name = (case last_bound bs name of Some v \<Rightarrow> Some v | None \<Rightarrow> last_bound as name)"
  by (simp add: last_bound_def map_add_def split: option.split)

lemma map_of_om_rev:
  fixes m :: "('k :: linorder, 'v) om"
  assumes "om_ok m"
  shows "map_of (rev m) = om_get m"
proof -
  have "distinct (map fst m)" using assms by (simp add: om_ok_def strict_sorted_iff)
  then have "map_of (rev m) = map_of m" by (simp add: map_of_inject_set rev_map [symmetric])
  then show ?thesis by (simp add: om_get_def fun_eq_iff)
qed

lemma last_bound_of_map:
  assumes "list_all (\<lambda>(n, v). plain_name n) m" "om_ok m"
  shows "last_bound (map binding_text m) name = om_get m name"
proof -
  have "filter_map parse_binding (map binding_text m) = m"
    using assms(1) by (induction m) (auto simp: parse_binding_text)
  moreover from map_of_om_rev [OF assms(2)] have "map_of (rev m) = om_get m" .
  ultimately show ?thesis by (simp add: last_bound_def)
qed

text \<open>The contexts a file declares, and the one in force.\<close>

definition context_in_force :: "settings \<Rightarrow> schedule \<Rightarrow> contexts_file \<Rightarrow> str option" where
  "context_in_force s sch f = (case stg_context s of
     Some c \<Rightarrow> Some c
   | None \<Rightarrow> (case sch_context sch of Some c \<Rightarrow> Some c | None \<Rightarrow> cf_active f))"

definition context_value :: "contexts_file \<Rightarrow> str option \<Rightarrow> str \<Rightarrow> str option" where
  "context_value f inforce name = Option.bind inforce (\<lambda>c.
     Option.bind (om_get (cf_contexts f) c) (\<lambda>ctx. om_get (ec_variables ctx) name))"

lemma contexts_folded:
  "foldl (\<lambda>acc (name, c). rv_context name (ec_variables c) acc) r cs =
     r\<lparr> rv_contexts := foldl (\<lambda>acc (name, c). om_insert name c acc) (rv_contexts r) (map (map_prod id ec_variables) cs) \<rparr>"
  by (induction cs arbitrary: r) (auto simp: rv_context_def)

lemma contexts_applied:
  assumes "contexts_apply f r requested = Inr r'" "rv_contexts r = []" "om_ok (cf_contexts f)"
  shows "active_value r' name = context_value f (case requested of Some c \<Rightarrow> Some c | None \<Rightarrow> cf_active f) name"
    and "rv_explicit r' = rv_explicit r" "rv_workspace r' = rv_workspace r" "rv_today r' = rv_today r" "rv_defer r' = rv_defer r"
proof -
  let ?cs = "map (map_prod id ec_variables) (cf_contexts f)"
  have "om_get (foldl (\<lambda>acc (name, c). om_insert name c acc) [] ?cs) c = map_of (rev ?cs) c" for c
    using om.get_foldl_ins [of "[]" ?cs c] by (simp add: om_get_def split: option.split)
  moreover have "map_of (rev ?cs) c = map_option ec_variables (om_get (cf_contexts f) c)" for c
    using map_of_om_rev [OF assms(3)] by (simp add: rev_map map_of_map map_prod_def id_def)
  ultimately have vars: "om_get (foldl (\<lambda>acc (name, c). om_insert name c acc) [] ?cs) c =
      map_option ec_variables (om_get (cf_contexts f) c)" for c by simp
  show "active_value r' name = context_value f (case requested of Some c \<Rightarrow> Some c | None \<Rightarrow> cf_active f) name"
    using assms(1,2) vars
    by (auto simp: contexts_apply_def contexts_folded active_value_def context_value_def rv_activate_def Let_def
      split: option.splits if_splits)
  show "rv_explicit r' = rv_explicit r" "rv_workspace r' = rv_workspace r" "rv_today r' = rv_today r" "rv_defer r' = rv_defer r"
    using assms(1) by (auto simp: contexts_apply_def contexts_folded rv_activate_def Let_def split: option.splits if_splits)
qed

text \<open>
  In a scheduled run a parameter is what the command line of the scheduler last bound it to; failing
  that, what the schedule binds it to; failing that, its value in the context in force -- the one named
  on the command line, or by the schedule, or the file's active one; failing that, the pipeline's own
  default, and then a built-in. (Schedules and contexts are sorted maps, as they are read; the name of
  a schedule's parameter holds no equals sign and no outer white space.)
\<close>

lemma bindings_have_precedence:
  assumes "try_resolver w (for_schedule sch s) d = Inr r"
    and "om_ok (sch_params sch)" "list_all (\<lambda>(n, v). plain_name n) (sch_params sch)"
    and "\<And>t f. wd_parse_contexts w t = Some f \<Longrightarrow> om_ok (cf_contexts f)"
  shows "\<exists>f. contexts_file_of w s d = Inr f \<and>
    lookup_param r declared name = (case last_bound (stg_params s) name of
      Some v \<Rightarrow> Some v
    | None \<Rightarrow> (case om_get (sch_params sch) name of
        Some v \<Rightarrow> Some v
      | None \<Rightarrow> (case context_value f (context_in_force s sch f) name of
          Some v \<Rightarrow> Some v
        | None \<Rightarrow> (case Option.bind (om_get declared name) pa_default of
            Some v \<Rightarrow> Some (scalar v)
          | None \<Rightarrow> built_in (resolver_new (wd_today w) (workspace_root w s)) name))))"
proof -
  let ?s = "for_schedule sch s" and ?r0 = "resolver_new (wd_today w) (workspace_root w s)"
  have same: "workspace_root w ?s = workspace_root w s" "contexts_file_of w ?s d = contexts_file_of w s d"
    by (simp_all add: contexts_file_of_def)
  from assms(1) obtain r1 r2 f where r1: "bind_params (stg_params ?s) ?r0 = Inr r1"
    and r2: "with_secrets w (workspace_root w s) d r1 = Inr r2" and f: "contexts_file_of w s d = Inr f"
    and r: "contexts_apply f r2 (stg_context ?s) = Inr r"
    by (auto simp: try_resolver_def Let_def and_then_eq_Inr_iff same)
  from bind_params_explicit [OF r1] have explicit: "om_get (rv_explicit r1) name = last_bound (stg_params ?s) name" for name
    by (auto simp: resolver_new_def om_get_def split: option.splits)
  from r2 have kept: "rv_explicit r2 = rv_explicit r1" "rv_contexts r2 = rv_contexts r1" "rv_workspace r2 = rv_workspace r1"
    "rv_today r2 = rv_today r1" "rv_defer r2 = rv_defer r1"
    by (auto simp: with_secrets_def and_then_eq_Inr_iff split: if_splits)
  obtain new: "rv_contexts r1 = []" "rv_workspace r1 = workspace_root w s" "rv_today r1 = wd_today w" "\<not> rv_defer r1"
    using bind_params_explicit [OF r1] by (metis (no_types) resolver.select_convs resolver.update_convs resolver_new_def)
  have ok: "om_ok (cf_contexts f)"
    using f assms(4) by (auto simp: contexts_file_of_def contexts_load_def contexts_default_def Let_def
      split: option.splits if_splits file_read.splits)
  have none: "rv_contexts r2 = []" by (simp add: kept new)
  note applied = contexts_applied [OF r none ok]
  have built: "built_in r name = built_in ?r0 name"
    by (simp add: built_in_def applied kept new resolver_new_def)
  have bound: "last_bound (stg_params ?s) name = (case last_bound (stg_params s) name of
      Some v \<Rightarrow> Some v | None \<Rightarrow> om_get (sch_params sch) name)"
    by (simp add: for_schedule_def last_bound_append last_bound_of_map [OF assms(3,2)] split: option.split)
  have inforce: "(case stg_context ?s of Some c \<Rightarrow> Some c | None \<Rightarrow> cf_active f) = context_in_force s sch f"
    by (simp add: for_schedule_def context_in_force_def split: option.split)
  show ?thesis
    using f by (auto simp: lookup_param_def applied kept explicit bound inforce built split: option.split)
qed

section \<open>An example\<close>

definition bound_schedule :: schedule where
  "bound_schedule = sample_schedule\<lparr> sch_params := [(''since'', ''b''), (''until'', ''c'')] \<rparr>"

definition bound_settings :: settings where
  "bound_settings = command_settings\<lparr> stg_params := [''since=a''] \<rparr>"

lemma bound_resolver:
  "\<exists>r. try_resolver command_world (for_schedule bound_schedule bound_settings) command_disk = Inr r"
proof -
  have root: "workspace_root command_world bound_settings = ''/work''"
    by (simp add: workspace_root_def command_settings_def bound_settings_def)
  have "\<not> has_key ''/work'' command_disk"
    by (simp add: has_key_def key_path_def command_disk_def Watch_Poll.path_join_def KEY_PATH_def)
  moreover have "stg_contexts bound_settings = None" by code_simp
  then have "contexts_path command_world bound_settings = ''/work/.etl/contexts.json''"
    by (simp add: contexts_path_def root Exec_World.path_join_def CONTEXTS_PATH_def starts_with_def ends_with_def)
  then have "contexts_file_of command_world (for_schedule bound_schedule bound_settings) command_disk = Inr contexts_default"
    by (simp add: contexts_file_of_def command_disk_def contexts_load_def)
  moreover have "stg_params (for_schedule bound_schedule bound_settings) = [''since=b'', ''until=c'', ''since=a'']"
    "stg_context (for_schedule bound_schedule bound_settings) = None" by code_simp+
  ultimately show ?thesis by (simp add: try_resolver_def root with_secrets_def contexts_apply_def contexts_default_def)
qed

lemma bindings_have_precedence_witness:
  "\<exists>r. try_resolver command_world (for_schedule bound_schedule bound_settings) command_disk = Inr r \<and>
     lookup_param r [] ''since'' = Some ''a'' \<and> lookup_param r [] ''until'' = Some ''c''"
proof -
  obtain r where r: "try_resolver command_world (for_schedule bound_schedule bound_settings) command_disk = Inr r"
    using bound_resolver by blast
  have "om_ok (sch_params bound_schedule)" "list_all (\<lambda>(n, v). plain_name n) (sch_params bound_schedule)"
    "\<And>t f. wd_parse_contexts command_world t = Some f \<Longrightarrow> om_ok (cf_contexts f)"
    by (code_simp, code_simp, simp add: command_world_def)
  note here = bindings_have_precedence [OF r this]
  have "last_bound (stg_params bound_settings) ''since'' = Some ''a''" "last_bound (stg_params bound_settings) ''until'' = None"
    "om_get (sch_params bound_schedule) ''until'' = Some ''c''" by code_simp+
  with r here [where name = "''since''" and declared = "[]"] here [where name = "''until''" and declared = "[]"] show ?thesis by auto
qed

end
