(* ===== verification/Cli_Build.thy ===== *)
theory Cli_Build
  imports Cli_Run "HOL-Library.Sublist"
begin

text \<open>
  Baking a pipeline into an executable (\<^verbatim>\<open>build_artifact\<close> and what it calls in
  \<^verbatim>\<open>crates/cli/src/main.rs\<close>): which runner and which engine are copied, what goes into the region
  behind the runner, and what is refused. The theorem follows the artifact to where it is opened: it
  carries the resolved document, the engine and every extension the plan needs, byte for byte.
\<close>

section \<open>Targets\<close>

record build_target =
  tg_platform :: str
  tg_is_host :: bool

text \<open>The machine \<^verbatim>\<open>etl\<close> was built for and runs on, and the files it can read and write as bytes.\<close>

record build_world =
  bw_os :: str
  bw_arch :: str
  bw_exe :: "str option"
  bw_probe :: "octets \<Rightarrow> nat option"
  bw_parse :: "octets \<Rightarrow> payload option"
  bw_print :: "payload \<Rightarrow> octets"
  bw_io :: build_io
  bw_dirs_fail :: bool

definition host_platform :: "build_world \<Rightarrow> str" where
  "host_platform bw =
     (if bw_os bw = ''macos'' then ''osx'' else bw_os bw) @ ''_'' @
     (if bw_arch bw = ''x86_64'' then ''amd64'' else if bw_arch bw = ''aarch64'' then ''arm64'' else bw_arch bw)"

definition target_host :: "build_world \<Rightarrow> build_target" where
  "target_host bw = \<lparr> tg_platform = host_platform bw, tg_is_host = True \<rparr>"

definition target_named :: "build_world \<Rightarrow> str \<Rightarrow> build_target" where
  "target_named bw platform = \<lparr> tg_platform = platform, tg_is_host = (platform = host_platform bw) \<rparr>"

definition exe_suffix :: "build_target \<Rightarrow> str" where
  "exe_suffix t = (if starts_with (tg_platform t) ''windows'' then ''.exe'' else [])"

definition runner_path :: "build_target \<Rightarrow> str \<Rightarrow> str" where
  "runner_path t root = foldl Exec_World.path_join root [''tools'', ''runners'', tg_platform t, ''etl-runner'' @ exe_suffix t]"

definition engine_path :: "build_target \<Rightarrow> str \<Rightarrow> str" where
  "engine_path t root = foldl Exec_World.path_join root [''tools'', ''duckdb'', ''targets'', tg_platform t, ''duckdb'' @ exe_suffix t]"

section \<open>What is refused\<close>

datatype build_refusal =
    LoadRefused nat str
  | NotPortable "str list"
  | BakesSecret
  | NoRunnerAt str
  | NoRunnerBeside
  | NoRunnerVendored str str
  | NoEngine "str list"
  | NoEngineFor str
  | CouldNotRead str
  | CouldNotMake str
  | NoExtensionDir "str list"
  | NoPlatformExtensions str str
  | MissingExtension "str list" str str
  | WriteRefused payload_error

definition refusal_code :: "build_refusal \<Rightarrow> nat" where
  "refusal_code r = (case r of LoadRefused ec _ \<Rightarrow> ec | _ \<Rightarrow> CLI_USAGE)"

section \<open>The toolchain\<close>

definition toolchain_roots :: "cli_world \<Rightarrow> build_world \<Rightarrow> settings \<Rightarrow> str list" where
  "toolchain_roots w bw s =
     (let roots = [workspace_root w s];
          roots = (case os_current_dir (wd_outside w) of
              Some current \<Rightarrow> if current \<in> set roots then roots else roots @ [current] | None \<Rightarrow> roots);
          roots = (case Option.bind (bw_exe bw) path_parent of
              Some beside \<Rightarrow> if beside \<in> set roots then roots else roots @ [beside] | None \<Rightarrow> roots)
      in roots)"

definition locate_runner :: "cli_world \<Rightarrow> build_world \<Rightarrow> build_target \<Rightarrow> settings \<Rightarrow> str option" where
  "locate_runner w bw t s =
     (let is_file = os_is_file (wd_outside w);
          vendored = find is_file (map (runner_path t) (toolchain_roots w bw s))
      in if tg_is_host t then
           (case Option.bind (bw_exe bw) path_parent of
              None \<Rightarrow> None
            | Some directory \<Rightarrow>
                (let candidate = Exec_World.path_join directory (''etl-runner'' @ exe_suffix t)
                 in if is_file candidate then Some candidate else vendored))
         else vendored)"

definition PINNED_DUCKDB_VERSION :: str where "PINNED_DUCKDB_VERSION = ''v1.5.5''"

definition rooted :: "str \<Rightarrow> run_options" where
  "rooted root = run_options_default\<lparr> ro_working_dir := Some root \<rparr>"

definition first_of :: "('a \<Rightarrow> 'b option) \<Rightarrow> 'a list \<Rightarrow> 'b option" where
  "first_of f xs = (case filter_map f xs of [] \<Rightarrow> None | y # _ \<Rightarrow> Some y)"

definition find_engine :: "cli_world \<Rightarrow> build_target \<Rightarrow> str list \<Rightarrow> build_refusal + str" where
  "find_engine w t roots =
     (if tg_is_host t
      then ok_or (NoEngine roots) (first_of (\<lambda>root. case locate_duckdb (wd_outside w) (rooted root) of
             Inr path \<Rightarrow> Some path | Inl _ \<Rightarrow> None) roots)
      else ok_or (NoEngineFor (tg_platform t)) (find (os_is_file (wd_outside w)) (map (engine_path t) roots)))"

section \<open>The region behind the runner\<close>

text \<open>The files of the region and its bytes, as they are appended.\<close>

type_synonym region = "embedded_file list \<times> octets"

definition embed :: "str \<Rightarrow> file_role \<Rightarrow> bool \<Rightarrow> octets \<Rightarrow> region \<Rightarrow> region" where
  "embed name r executable content g =
     (fst g @ [\<lparr> ef_name = name, ef_role = r, ef_offset = of_nat (length (snd g)), ef_length = of_nat (length content),
        ef_executable = executable, ef_extra = [] \<rparr>], snd g @ content)"

text \<open>
  A path with \<^verbatim>\<open>.info\<close> after its last component, and the name under which an extension travels.
\<close>

definition with_info_suffix :: "str \<Rightarrow> str" where
  "with_info_suffix path = (case file_name path of
     Some name \<Rightarrow> (case path_parent path of Some parent \<Rightarrow> Exec_World.path_join parent (name @ ''.info'') | None \<Rightarrow> name @ ''.info'')
   | None \<Rightarrow> Exec_World.path_join path ''.info'')"

fun embed_existing :: "cli_world \<Rightarrow> file_store \<Rightarrow> str list \<Rightarrow> region \<Rightarrow> build_refusal + region" where
  "embed_existing w files [] g = Inr g"
| "embed_existing w files (path # paths) g =
     (if os_is_file (wd_outside w) path
      then and_then (ok_or (CouldNotRead path) (files path)) (\<lambda>content.
        embed_existing w files paths
          (embed (case file_name path of Some name \<Rightarrow> name | None \<Rightarrow> []) RoleExtension False content g))
      else embed_existing w files paths g)"

definition extension_candidates :: "str \<Rightarrow> str \<Rightarrow> str list" where
  "extension_candidates directory ext = map (Exec_World.path_join directory)
     [ext @ ''.duckdb_extension'', ext @ ''_scanner.duckdb_extension'']"

fun embed_extensions :: "cli_world \<Rightarrow> file_store \<Rightarrow> plan \<Rightarrow> str \<Rightarrow> str list \<Rightarrow> region \<Rightarrow> build_refusal + region" where
  "embed_extensions w files p directory [] g = Inr g"
| "embed_extensions w files p directory (ext # exts) g =
     and_then (ok_or (MissingExtension (map st_node_id (stages_needing p ext)) ext directory)
         (find (os_is_file (wd_outside w)) (extension_candidates directory ext))) (\<lambda>found.
     and_then (embed_existing w files [found, with_info_suffix found] g) (\<lambda>g'.
       embed_extensions w files p directory exts g'))"

definition extensions_of :: "cli_world \<Rightarrow> file_store \<Rightarrow> plan \<Rightarrow> build_target \<Rightarrow> str list \<Rightarrow> region \<Rightarrow> build_refusal + region" where
  "extensions_of w files p t roots g =
     (let wanted = plan_extensions p
      in if wanted = [] then Inr g
         else and_then (ok_or (NoExtensionDir roots)
             (first_of (\<lambda>root. locate_extension_dir (wd_outside w) (rooted root)) roots)) (\<lambda>directory.
           let platform_dir = Exec_World.path_join (Exec_World.path_join directory PINNED_DUCKDB_VERSION) (tg_platform t)
           in if \<not> os_is_dir (wd_outside w) platform_dir
              then Inl (NoPlatformExtensions (tg_platform t) platform_dir)
              else embed_extensions w files p platform_dir wanted g))"

definition gather_embedded :: "cli_world \<Rightarrow> build_world \<Rightarrow> file_store \<Rightarrow> plan \<Rightarrow> settings \<Rightarrow> build_target \<Rightarrow> payload
    \<Rightarrow> build_refusal + payload \<times> octets" where
  "gather_embedded w bw files p s t py =
     (let roots = toolchain_roots w bw s
      in and_then (find_engine w t roots) (\<lambda>engine.
         and_then (ok_or (CouldNotRead engine) (files engine)) (\<lambda>content.
         and_then (extensions_of w files p t roots (embed (''duckdb'' @ exe_suffix t) RoleEngine True content ([], []))) (\<lambda>(embedded, region).
           Inr (py\<lparr> py_duckdb_version := PINNED_DUCKDB_VERSION, py_platform := tg_platform t, py_files := embedded \<rparr>,
                region)))))"

section \<open>The build\<close>

record built =
  bt_destination :: str
  bt_state_key :: str
  bt_stages :: nat
  bt_size :: nat
  bt_carries_secrets :: bool
  bt_engine :: "str option"
  bt_extensions :: "str list"
  bt_notes :: "str list"

definition incremental_nodes :: "pipeline_doc \<Rightarrow> str list" where
  "incremental_nodes d = map pn_id (filter (\<lambda>n. nd_incremental (pn_data n) \<noteq> None) (doc_nodes d))"

definition stream_nodes :: "pipeline_doc \<Rightarrow> str list" where
  "stream_nodes d = map pn_id (filter (\<lambda>n. case nd_component_id (pn_data n) of
     Some i \<Rightarrow> starts_with i ''src.stream.'' | None \<Rightarrow> False) (doc_nodes d))"

definition build_notes :: "pipeline_doc \<Rightarrow> str list" where
  "build_notes d =
     (let incremental = incremental_nodes d; streams = stream_nodes d
      in (if incremental = [] then []
          else [join_with '', '' incremental @ '' loads incrementally. The artifact keeps its watermarks in .etl/state/ '' @
            ''under the directory it runs in (or --workspace); keep that directory between runs.'']) @
         (if streams = [] then []
          else [join_with '', '' streams @ '' keeps a read position. The artifact saves it in .etl/state/ under the '' @
            ''directory it runs in (or --workspace); a run from a fresh directory starts over.'']))"

definition choose_runner :: "cli_world \<Rightarrow> build_world \<Rightarrow> str option \<Rightarrow> build_target \<Rightarrow> settings \<Rightarrow> build_refusal + str" where
  "choose_runner w bw runner t s = (case runner of
     Some explicit \<Rightarrow> if os_is_file (wd_outside w) explicit then Inr explicit else Inl (NoRunnerAt explicit)
   | None \<Rightarrow> (case locate_runner w bw t s of
        Some found \<Rightarrow> Inr found
      | None \<Rightarrow> if tg_is_host t then Inl NoRunnerBeside
          else Inl (NoRunnerVendored (tg_platform t) (runner_path t (hd (toolchain_roots w bw s))))))"

definition build_destination :: "str option \<Rightarrow> build_target \<Rightarrow> str \<Rightarrow> str" where
  "build_destination out t key = (case out of
     Some path \<Rightarrow> path
   | None \<Rightarrow> if tg_is_host t then key @ exe_suffix t else key @ ''-'' @ tg_platform t @ exe_suffix t)"

text \<open>\<^verbatim>\<open>str::trim_end_matches\<close>: the end is taken off as often as it is there.\<close>

fun trim_ends :: "str \<Rightarrow> str \<Rightarrow> nat \<Rightarrow> str" where
  "trim_ends e t 0 = t"
| "trim_ends e t (Suc n) = (if e \<noteq> [] \<and> ends_with t e then trim_ends e (take (length t - length e) t) n else t)"

definition engine_line :: "payload \<Rightarrow> str option" where
  "engine_line p = (if py_files p = [] then None
     else Some (''DuckDB '' @ py_duckdb_version p @ (if py_platform p = [] then [] else '' ('' @ py_platform p @ '')'')))"

definition extension_names :: "payload \<Rightarrow> str list" where
  "extension_names p = map (\<lambda>f. trim_ends ''.duckdb_extension'' (ef_name f) (length (ef_name f)))
     (filter (\<lambda>f. ends_with (ef_name f) ''.duckdb_extension'')
       (filter (\<lambda>f. ef_role f = RoleExtension) (py_files p)))"

text \<open>Everything up to the copy: the runner to copy, where to, the payload, and the region.\<close>

definition prepare_build :: "cli_world \<Rightarrow> build_world \<Rightarrow> str \<Rightarrow> str option \<Rightarrow> str option \<Rightarrow> bool \<Rightarrow> bool \<Rightarrow> str option
    \<Rightarrow> settings \<Rightarrow> disk \<Rightarrow> file_store \<Rightarrow> build_refusal + loaded \<times> str \<times> str \<times> payload \<times> octets" where
  "prepare_build w bw pipeline out runner allow_secrets embed_engine target s d files =
     (let t = (case target of Some named \<Rightarrow> target_named bw named | None \<Rightarrow> target_host bw)
      in and_then (map_err (\<lambda>(ec, message). LoadRefused ec message) (load_for_build w s pipeline d)) (\<lambda>l.
          let resolved = ld_resolved l; key = ld_state_key l;
              local = map (\<lambda>st. in_quotes (st_node_id st) @ '' ('' @ st_component_id st @ '')'')
                (unportable (os_connector (wd_outside w)) (ld_plan l))
          in if local \<noteq> [] then Inl (NotPortable local)
             else if uses_secrets resolved \<and> \<not> allow_secrets then Inl BakesSecret
             else and_then (choose_runner w bw runner t s) (\<lambda>from.
               let fresh = (payload_new key (wd_utc w 0) (rp_document resolved))\<lparr> py_carries_secrets := uses_secrets resolved \<rparr>
               in and_then (if embed_engine then gather_embedded w bw files (ld_plan l) s t fresh else Inr (fresh, [])) (\<lambda>(p, region).
                 Inr (l, from, build_destination out t key, p, region)))))"

definition build_artifact :: "cli_world \<Rightarrow> build_world \<Rightarrow> str \<Rightarrow> str option \<Rightarrow> str option \<Rightarrow> bool \<Rightarrow> bool \<Rightarrow> str option
    \<Rightarrow> settings \<Rightarrow> disk \<Rightarrow> file_store \<Rightarrow> (build_refusal + built) \<times> file_store" where
  "build_artifact w bw pipeline out runner allow_secrets embed_engine target s d files =
     (case prepare_build w bw pipeline out runner allow_secrets embed_engine target s d files of
        Inl refused \<Rightarrow> (Inl refused, files)
      | Inr (l, from, out_path, p, region) \<Rightarrow>
          (case write_built (bw_probe bw) (bw_parse bw) (bw_print bw) (bw_io bw) from out_path region p files of
             (Inl e, _, files') \<Rightarrow> (Inl (WriteRefused e), files')
           | (Inr _, p', files') \<Rightarrow>
               (Inr \<lparr> bt_destination = out_path, bt_state_key = ld_state_key l, bt_stages = length (pl_stages (ld_plan l)),
                  bt_size = (case files' out_path of Some content \<Rightarrow> length content | None \<Rightarrow> 0),
                  bt_carries_secrets = py_carries_secrets p', bt_engine = engine_line p',
                  bt_extensions = extension_names p', bt_notes = build_notes (rp_document (ld_resolved l)) \<rparr>, files')))"

definition command_build :: "cli_world \<Rightarrow> build_world \<Rightarrow> str \<Rightarrow> str option \<Rightarrow> str option \<Rightarrow> bool \<Rightarrow> bool \<Rightarrow> str option
    \<Rightarrow> settings \<Rightarrow> disk \<Rightarrow> file_store \<Rightarrow> nat \<times> file_store" where
  "command_build w bw pipeline out runner allow_secrets embed_engine target s d files =
     (case build_artifact w bw pipeline out runner allow_secrets embed_engine target s d files of
        (Inl refused, files') \<Rightarrow> (refusal_code refused, files')
      | (Inr _, files') \<Rightarrow> (CLI_OK, files'))"

text \<open>The MCP server never lets a secret be baked in.\<close>

definition mcp_build :: "cli_world \<Rightarrow> build_world \<Rightarrow> str \<Rightarrow> str option \<Rightarrow> str \<Rightarrow> bindings \<Rightarrow> settings \<Rightarrow> disk \<Rightarrow> file_store
    \<Rightarrow> (build_refusal + built) \<times> file_store" where
  "mcp_build w bw pipeline target out b s d files =
     (case path_parent out of
        Some parent \<Rightarrow>
          if bw_dirs_fail bw then (Inl (CouldNotMake parent), files)
          else build_artifact w bw pipeline (Some out) None False True target (settings_with b s) d files
      | None \<Rightarrow> build_artifact w bw pipeline (Some out) None False True target (settings_with b s) d files)"

text \<open>Whoever asks, a build changes the file it is told to write and no other.\<close>

lemma build_artifact_elsewhere:
  assumes "build_artifact w bw pipeline (Some out) runner allow emb target s d files = (r, files')" "q \<noteq> out"
  shows "files' q = files q"
proof (cases "prepare_build w bw pipeline (Some out) runner allow emb target s d files")
  case (Inr x)
  obtain l from' out' p region where x: "x = (l, from', out', p, region)" by (metis prod_cases5)
  with Inr have "out' = out"
    by (auto simp: prepare_build_def Let_def and_then_eq_Inr_iff build_destination_def split: if_splits prod.splits)
  obtain r1 p' files1 where wrote: "write_built (bw_probe bw) (bw_parse bw) (bw_print bw) (bw_io bw) from' out' region p files = (r1, p', files1)"
    by (metis prod_cases3)
  then have "files' = files1" using assms(1) Inr x by (auto simp: build_artifact_def split: sum.splits)
  with write_built_elsewhere [OF wrote] assms(2) \<open>out' = out\<close> show ?thesis by simp
qed (use assms in \<open>simp add: build_artifact_def\<close>)

lemma mcp_build_elsewhere: "q \<noteq> out \<Longrightarrow> snd (mcp_build w bw pipeline target out b s d files) q = files q"
  using build_artifact_elsewhere [where out = out]
  by (auto simp: mcp_build_def split: option.split) (metis prod.collapse)+

section \<open>What the region holds\<close>

definition region_holds :: "region \<Rightarrow> embedded_file \<Rightarrow> octets \<Rightarrow> bool" where
  "region_holds g f content \<longleftrightarrow> f \<in> set (fst g) \<and> unat (ef_offset f) + unat (ef_length f) \<le> length (snd g) \<and>
     take (unat (ef_length f)) (drop (unat (ef_offset f)) (snd g)) = content"

definition region_grows :: "region \<Rightarrow> region \<Rightarrow> bool" where
  "region_grows g g' \<longleftrightarrow> prefix (fst g) (fst g') \<and> prefix (snd g) (snd g')"

lemma region_grows_refl [intro, simp]: "region_grows g g"
  by (simp add: region_grows_def)

lemma region_grows_trans: "region_grows g h \<Longrightarrow> region_grows h k \<Longrightarrow> region_grows g k"
  unfolding region_grows_def by (blast intro: prefix_order.trans)

lemma region_grows_embed [intro]: "region_grows g (embed name r x content g)"
  by (simp add: region_grows_def embed_def)

lemma region_grows_length: "region_grows g g' \<Longrightarrow> length (snd g) \<le> length (snd g')"
  by (simp add: region_grows_def prefix_length_le)

lemma region_holds_grows: "region_holds g f content \<Longrightarrow> region_grows g g' \<Longrightarrow> region_holds g' f content"
  by (auto simp: region_holds_def region_grows_def prefix_def)

lemma region_holds_embed:
  assumes "length (snd (embed name r x content g)) < 2 ^ 64"
  shows "\<exists>f. region_holds (embed name r x content g) f content \<and> ef_name f = name \<and> ef_role f = r"
proof -
  let ?f = "\<lparr> ef_name = name, ef_role = r, ef_offset = of_nat (length (snd g)), ef_length = of_nat (length content),
    ef_executable = x, ef_extra = [] \<rparr>"
  have "unat (of_nat (length (snd g)) :: 64 word) = length (snd g)" "unat (of_nat (length content) :: 64 word) = length content"
    using assms by (simp_all add: embed_def unat_of_nat)
  then have "region_holds (embed name r x content g) ?f content" by (simp add: region_holds_def embed_def)
  then show ?thesis by force
qed

lemma embed_existing_grows: "embed_existing w files paths g = Inr g' \<Longrightarrow> region_grows g g'"
proof (induction paths arbitrary: g)
  case (Cons path paths)
  show ?case
  proof (cases "os_is_file (wd_outside w) path")
    case True
    with Cons.prems obtain content where "embed_existing w files paths
        (embed (case file_name path of Some name \<Rightarrow> name | None \<Rightarrow> []) RoleExtension False content g) = Inr g'"
      by (auto simp: and_then_eq_Inr_iff)
    from region_grows_trans [OF region_grows_embed Cons.IH [OF this]] show ?thesis .
  next
    case False
    with Cons show ?thesis by simp
  qed
qed simp

lemma embed_existing_holds:
  assumes "embed_existing w files (path # paths) g = Inr g'" "os_is_file (wd_outside w) path" "length (snd g') < 2 ^ 64"
  shows "\<exists>f content. files path = Some content \<and> region_holds g' f content \<and> ef_role f = RoleExtension"
proof -
  let ?name = "case file_name path of Some name \<Rightarrow> name | None \<Rightarrow> []"
  from assms(1,2) obtain content where c: "files path = Some content"
    and rest: "embed_existing w files paths (embed ?name RoleExtension False content g) = Inr g'"
    by (auto simp: and_then_eq_Inr_iff)
  from embed_existing_grows [OF rest] assms(3) region_holds_embed [of ?name RoleExtension False content g] c
  show ?thesis by (meson le_less_trans region_grows_length region_holds_grows)
qed

lemma embed_extensions_grows: "embed_extensions w files p directory exts g = Inr g' \<Longrightarrow> region_grows g g'"
proof (induction exts arbitrary: g)
  case (Cons ext exts)
  then obtain found h where "embed_existing w files [found, with_info_suffix found] g = Inr h"
    "embed_extensions w files p directory exts h = Inr g'"
    by (auto simp: and_then_eq_Inr_iff simp del: embed_existing.simps)
  from region_grows_trans [OF embed_existing_grows [OF this(1)] Cons.IH [OF this(2)]] show ?case .
qed simp

lemma embed_extensions_holds:
  "embed_extensions w files p directory exts g = Inr g' \<Longrightarrow> ext \<in> set exts \<Longrightarrow> length (snd g') < 2 ^ 64 \<Longrightarrow>
    \<exists>path\<in>set (extension_candidates directory ext). \<exists>f content. files path = Some content \<and>
      region_holds g' f content \<and> ef_role f = RoleExtension"
proof (induction exts arbitrary: g)
  case (Cons other exts)
  then obtain found h where found: "find (os_is_file (wd_outside w)) (extension_candidates directory other) = Some found"
    and h: "embed_existing w files [found, with_info_suffix found] g = Inr h"
    and rest: "embed_extensions w files p directory exts h = Inr g'"
    by (auto simp: and_then_eq_Inr_iff simp del: embed_existing.simps)
  show ?case
  proof (cases "ext = other")
    case True
    from found have "found \<in> set (extension_candidates directory ext)" "os_is_file (wd_outside w) found"
      using True by (auto simp: find_Some_iff)
    moreover from embed_extensions_grows [OF rest] Cons.prems(3) have "length (snd h) < 2 ^ 64"
      by (meson le_less_trans region_grows_length)
    ultimately show ?thesis
      using embed_existing_holds [OF h] region_holds_grows [OF _ embed_extensions_grows [OF rest]] by blast
  next
    case False
    with Cons.prems rest show ?thesis by (intro Cons.IH) auto
  qed
qed simp

lemma gather_holds:
  assumes "gather_embedded w bw files p s t py = Inr (py', region)" "length region < 2 ^ 64"
  shows "py' = py\<lparr> py_duckdb_version := PINNED_DUCKDB_VERSION, py_platform := tg_platform t, py_files := py_files py' \<rparr>"
    and "\<exists>engine f content. find_engine w t (toolchain_roots w bw s) = Inr engine \<and> files engine = Some content \<and>
      region_holds (py_files py', region) f content \<and> ef_role f = RoleEngine"
    and "\<forall>ext\<in>set (plan_extensions p). \<exists>directory. \<exists>path\<in>set (extension_candidates directory ext). \<exists>f content.
      files path = Some content \<and> region_holds (py_files py', region) f content \<and> ef_role f = RoleExtension"
proof -
  let ?roots = "toolchain_roots w bw s"
  from assms(1) obtain engine content where engine: "find_engine w t ?roots = Inr engine" "files engine = Some content"
    and exts: "extensions_of w files p t ?roots (embed (''duckdb'' @ exe_suffix t) RoleEngine True content ([], [])) = Inr (py_files py', region)"
    and py': "py' = py\<lparr> py_duckdb_version := PINNED_DUCKDB_VERSION, py_platform := tg_platform t, py_files := py_files py' \<rparr>"
    by (auto simp: gather_embedded_def Let_def and_then_eq_Inr_iff split: prod.splits)
  let ?g = "embed (''duckdb'' @ exe_suffix t) RoleEngine True content ([], [])"
  have cases: "plan_extensions p = [] \<and> ?g = (py_files py', region) \<or>
      (\<exists>directory. embed_extensions w files p directory (plan_extensions p) ?g = Inr (py_files py', region))"
    using exts by (auto simp: extensions_of_def Let_def and_then_eq_Inr_iff split: if_splits)
  then have grows: "region_grows ?g (py_files py', region)" using embed_extensions_grows by fastforce
  from region_grows_length [OF grows] assms(2) have "length (snd ?g) < 2 ^ 64" by simp
  from region_holds_embed [OF this] region_holds_grows [OF _ grows] engine
  show "\<exists>engine f content. find_engine w t ?roots = Inr engine \<and> files engine = Some content \<and>
      region_holds (py_files py', region) f content \<and> ef_role f = RoleEngine" by blast
  show "\<forall>ext\<in>set (plan_extensions p). \<exists>directory. \<exists>path\<in>set (extension_candidates directory ext). \<exists>f content.
      files path = Some content \<and> region_holds (py_files py', region) f content \<and> ef_role f = RoleExtension"
    using cases embed_extensions_holds [where g' = "(py_files py', region)"] assms(2) by (metis empty_iff list.set(1) snd_conv)
qed (use assms in \<open>auto simp: gather_embedded_def Let_def and_then_eq_Inr_iff split: prod.splits\<close>)

text \<open>What an artifact carries: a file of the machine that built it, with a role, byte for byte.\<close>

definition carries :: "file_store \<Rightarrow> payload \<Rightarrow> blobs \<Rightarrow> file_role \<Rightarrow> octets \<Rightarrow> bool" where
  "carries files' p b r content \<longleftrightarrow> (\<exists>f\<in>set (py_files p). ef_role f = r \<and> blobs_read files' b f = Inr content)"

text \<open>
  C21: An artifact that was built is whole. Opened where it was written, it is found to hold the
  pipeline that was resolved, under its key; if an engine was asked for, it reads back the bytes of the
  engine that was located and of one file of every extension the plan needs, and otherwise it holds no
  files; no stage of it needs this machine; and a secret is in it only if that was allowed, in which
  case it says so. (\<^verbatim>\<open>serde_json\<close> reads back the header it printed; the file is shorter than
  \<open>2 ^ 64\<close> bytes.)
\<close>

theorem artifact_is_whole:
  assumes "build_artifact w bw pipeline out runner allow emb target s d files = (Inr bt, files')"
    and "\<forall>l from to p region. prepare_build w bw pipeline out runner allow emb target s d files = Inr (l, from, to, p, region) \<longrightarrow>
      bw_probe bw (bw_print bw (p\<lparr> py_blob_digest := fnv1a region \<rparr>)) = Some PAYLOAD_FORMAT_VERSION \<and>
      bw_parse bw (bw_print bw (p\<lparr> py_blob_digest := fnv1a region \<rparr>)) = Some (p\<lparr> py_blob_digest := fnv1a region \<rparr>)"
    and "\<forall>content. files' (bt_destination bt) = Some content \<longrightarrow> length content < 2 ^ 64"
  shows "\<exists>l p b t. load_for_build w s pipeline d = Inr l \<and>
    t = (case target of Some named \<Rightarrow> target_named bw named | None \<Rightarrow> target_host bw) \<and>
    read_from (bw_probe bw) (bw_parse bw) files' (bt_destination bt) = Inr (Some (p, b)) \<and>
    py_pipeline p = rp_document (ld_resolved l) \<and> py_name p = ld_state_key l \<and>
    unportable (os_connector (wd_outside w)) (ld_plan l) = [] \<and>
    py_carries_secrets p = uses_secrets (ld_resolved l) \<and> (uses_secrets (ld_resolved l) \<longrightarrow> allow) \<and>
    (if emb
     then (\<exists>engine content. find_engine w t (toolchain_roots w bw s) = Inr engine \<and> files engine = Some content \<and>
           carries files' p b RoleEngine content) \<and>
         (\<forall>ext\<in>set (plan_extensions (ld_plan l)). \<exists>directory. \<exists>path\<in>set (extension_candidates directory ext). \<exists>content.
           files path = Some content \<and> carries files' p b RoleExtension content)
     else py_files p = [])"
proof -
  let ?t = "case target of Some named \<Rightarrow> target_named bw named | None \<Rightarrow> target_host bw"
  obtain l from' p region p' where prepared: "prepare_build w bw pipeline out runner allow emb target s d files =
      Inr (l, from', bt_destination bt, p, region)"
    and written: "write_built (bw_probe bw) (bw_parse bw) (bw_print bw) (bw_io bw) from' (bt_destination bt) region p files = (Inr (), p', files')"
    using assms(1) unfolding build_artifact_def by (auto split: sum.splits prod.splits)
  from prepared have l: "load_for_build w s pipeline d = Inr l"
    and portable: "unportable (os_connector (wd_outside w)) (ld_plan l) = []"
    and allowed: "uses_secrets (ld_resolved l) \<longrightarrow> allow"
    and gathered: "(if emb then gather_embedded w bw files (ld_plan l) s ?t
        ((payload_new (ld_state_key l) (wd_utc w 0) (rp_document (ld_resolved l)))\<lparr> py_carries_secrets := uses_secrets (ld_resolved l) \<rparr>)
      else Inr ((payload_new (ld_state_key l) (wd_utc w 0) (rp_document (ld_resolved l)))\<lparr> py_carries_secrets := uses_secrets (ld_resolved l) \<rparr>, []))
      = Inr (p, region)"
    unfolding prepare_build_def Let_def by (auto simp: and_then_eq_Inr_iff split: prod.splits if_splits)
  have ok: "bw_io bw = BuildOk" and p': "p' = p\<lparr> py_blob_digest := fnv1a region \<rparr>"
    using written by (auto simp: write_built_def Let_def split: sum.splits option.splits build_io.splits)
  from assms(2) prepared p' have header: "bw_probe bw (bw_print bw p') = Some PAYLOAD_FORMAT_VERSION"
    "bw_parse bw (bw_print bw p') = Some p'" by simp_all
  from built_then_read [OF written [unfolded ok] header] assms(3) obtain b where
    b: "read_from (bw_probe bw) (bw_parse bw) files' (bt_destination bt) = Inr (Some (p', b))"
    and blobs: "\<And>f. unat (ef_offset f) + unat (ef_length f) \<le> length region \<Longrightarrow>
      blobs_read files' b f = Inr (take (unat (ef_length f)) (drop (unat (ef_offset f)) region))" by blast
  have carried: "carries files' p' b (ef_role f) content" if "region_holds (py_files p', region) f content" for f content
    using that blobs unfolding carries_def region_holds_def by auto
  have short: "length region < 2 ^ 64"
  proof -
    from written ok obtain own rest where "files' (bt_destination bt) = Some (own @ region @ rest)"
      by (auto simp: write_built_def Let_def split: sum.splits option.splits)
    with assms(3) show ?thesis by fastforce
  qed
  show ?thesis
  proof (cases emb)
    case True
    with gathered have g: "gather_embedded w bw files (ld_plan l) s ?t
        ((payload_new (ld_state_key l) (wd_utc w 0) (rp_document (ld_resolved l)))\<lparr> py_carries_secrets := uses_secrets (ld_resolved l) \<rparr>)
      = Inr (p, region)" by simp
    note held = gather_holds [OF g short]
    have same: "py_files p' = py_files p" by (simp add: p')
    have "py_pipeline p' = rp_document (ld_resolved l)" "py_name p' = ld_state_key l"
      "py_carries_secrets p' = uses_secrets (ld_resolved l)"
      by (subst p', subst held(1), simp add: payload_new_def)+
    moreover from held(2) carried same have "\<exists>engine content. find_engine w ?t (toolchain_roots w bw s) = Inr engine \<and>
        files engine = Some content \<and> carries files' p' b RoleEngine content" by metis
    moreover from held(3) carried same have "\<forall>ext\<in>set (plan_extensions (ld_plan l)). \<exists>directory.
        \<exists>path\<in>set (extension_candidates directory ext). \<exists>content.
          files path = Some content \<and> carries files' p' b RoleExtension content" by metis
    ultimately show ?thesis using l b portable allowed True by auto
  next
    case False
    with gathered have "p = (payload_new (ld_state_key l) (wd_utc w 0) (rp_document (ld_resolved l)))
        \<lparr> py_carries_secrets := uses_secrets (ld_resolved l) \<rparr>" by simp
    with l b portable allowed False show ?thesis by (auto simp: p' payload_new_def)
  qed
qed

section \<open>An example\<close>

definition idle_baked :: payload where
  "idle_baked = (payload_new ''idle'' ''2026-01-01T00:00:00Z'' idle_doc)\<lparr> py_duckdb_version := PINNED_DUCKDB_VERSION,
     py_platform := ''linux_amd64'', py_blob_digest := fnv1a [1, 2],
     py_files := [\<lparr> ef_name = ''duckdb'', ef_role = RoleEngine, ef_offset = 0, ef_length = 2, ef_executable = True, ef_extra = [] \<rparr>] \<rparr>"

definition bench :: build_world where
  "bench = \<lparr> bw_os = ''linux'', bw_arch = ''x86_64'', bw_exe = None, bw_probe = (\<lambda>_. Some PAYLOAD_FORMAT_VERSION),
     bw_parse = (\<lambda>_. Some idle_baked), bw_print = (\<lambda>_. [7]), bw_io = BuildOk, bw_dirs_fail = False \<rparr>"

definition bench_files :: file_store where
  "bench_files = [''/r'' \<mapsto> [9, 9], ''/work/tools/duckdb/duckdb'' \<mapsto> [1, 2]]"

lemma idle_deferred:
  "map_sum (\<lambda>_. ()) (\<lambda>r. (rp_document r, rp_secrets r)) (resolve (\<lambda>_. None) idle_doc
     (defer_built_ins (resolver_new ''2026-01-01'' ''/work''))) = Inr (idle_doc, [])"
  by code_simp

lemma bench_loads:
  "\<exists>l. load_for_build command_world command_settings ''/work/idle.json'' command_disk = Inr l \<and> pl_stages (ld_plan l) = [] \<and>
     rp_document (ld_resolved l) = idle_doc \<and> rp_secrets (ld_resolved l) = [] \<and> ld_state_key l = ''idle''"
proof -
  obtain resolved where res: "resolve (\<lambda>_. None) idle_doc (defer_built_ins (resolver_new ''2026-01-01'' ''/work'')) = Inr resolved"
    "rp_document resolved = idle_doc" "rp_secrets resolved = []"
    using idle_deferred by (cases "resolve (\<lambda>_. None) idle_doc (defer_built_ins (resolver_new ''2026-01-01'' ''/work''))") auto
  obtain plan where plan: "compile_with two_components (\<lambda>_. None) compile_options_default idle_doc = Inr plan"
    "pl_stages plan = []"
    using idle_compiled by (cases "compile_with two_components (\<lambda>_. None) compile_options_default idle_doc") auto
  have key: "key_for (doc_name idle_doc) ''/work/idle.json'' = ''idle''" by code_simp
  have parts: "wd_env command_world = (\<lambda>_. None)" "wd_parse_document command_world = (\<lambda>_. Some idle_doc)"
    "wd_registry command_world = two_components" "os_connector (wd_outside command_world) = (\<lambda>_. None)"
    "command_disk ''/work/idle.json'' = Some ''{}''" by (simp_all add: command_world_def command_disk_def)
  show ?thesis by (simp add: load_for_build_def parts command_resolver res key plan)
qed

lemma bench_engine:
  "find_engine command_world (target_host bench) (toolchain_roots command_world bench command_settings) = Inr ''/work/tools/duckdb/duckdb''"
proof -
  have "toolchain_roots command_world bench command_settings = [''/work'']"
    by (simp add: toolchain_roots_def workspace_root_def command_settings_def command_world_def example_outside_def bench_def)
  moreover have "locate_duckdb (wd_outside command_world) (rooted ''/work'') = Inr ''/work/tools/duckdb/duckdb''"
  proof -
    have "ancestors ''/work'' = ''/work'' # (case path_parent ''/work'' of Some q \<Rightarrow> ancestors q | None \<Rightarrow> [])"
      by (subst ancestors.simps) simp
    then show ?thesis
      by (simp add: locate_duckdb_def rooted_def run_options_default_def command_world_def example_outside_def
        find_vendored_def starting_point_def Exec_World.path_join_def starts_with_def ends_with_def)
  qed
  ultimately show ?thesis by (simp add: find_engine_def first_of_def target_host_def)
qed

lemma bench_prepared:
  "\<exists>l. prepare_build command_world bench ''/work/idle.json'' (Some ''/out'') (Some ''/r'') False True None command_settings
     command_disk bench_files = Inr (l, ''/r'', ''/out'', idle_baked\<lparr> py_blob_digest := 0 \<rparr>, [1, 2])"
proof -
  obtain l where l: "load_for_build command_world command_settings ''/work/idle.json'' command_disk = Inr l"
    "pl_stages (ld_plan l) = []" "rp_document (ld_resolved l) = idle_doc" "rp_secrets (ld_resolved l) = []"
    "ld_state_key l = ''idle''" using bench_loads by blast
  have platform: "tg_platform (target_host bench) = ''linux_amd64''" by code_simp
  then have suffix_of: "exe_suffix (target_host bench) = []" by (simp add: exe_suffix_def starts_with_def)
  have chosen: "choose_runner command_world bench (Some ''/r'') (target_host bench) command_settings = Inr ''/r''"
    by (simp add: choose_runner_def command_world_def example_outside_def)
  have gathered: "gather_embedded command_world bench bench_files (ld_plan l) command_settings (target_host bench) p =
      Inr (p\<lparr> py_duckdb_version := PINNED_DUCKDB_VERSION, py_platform := ''linux_amd64'', py_files := py_files idle_baked \<rparr>, [1, 2])" for p
    by (simp add: gather_embedded_def bench_engine extensions_of_def plan_extensions_def l(2) embed_def suffix_of platform
      idle_baked_def bench_files_def)
  have "wd_utc command_world 0 = ''2026-01-01T00:00:00Z''" by (simp add: command_world_def)
  with l show ?thesis
    by (simp add: prepare_build_def unportable_def uses_secrets_def chosen gathered build_destination_def)
      (simp add: idle_baked_def payload_new_def)
qed

theorem artifact_is_whole_witness:
  "\<exists>bt files' p b. build_artifact command_world bench ''/work/idle.json'' (Some ''/out'') (Some ''/r'') False True None
      command_settings command_disk bench_files = (Inr bt, files') \<and>
    read_from (bw_probe bench) (bw_parse bench) files' ''/out'' = Inr (Some (p, b)) \<and> carries files' p b RoleEngine [1, 2]"
proof -
  obtain l where prepared: "prepare_build command_world bench ''/work/idle.json'' (Some ''/out'') (Some ''/r'') False True None
      command_settings command_disk bench_files = Inr (l, ''/r'', ''/out'', idle_baked\<lparr> py_blob_digest := 0 \<rparr>, [1, 2])"
    using bench_prepared by blast
  have plain: "read_from (bw_probe bench) (bw_parse bench) bench_files ''/r'' = Inr None"
    by (simp add: read_from_def find_trailer_def TRAILER_LEN_def bench_files_def)
  obtain bt files' where built: "build_artifact command_world bench ''/work/idle.json'' (Some ''/out'') (Some ''/r'') False True None
      command_settings command_disk bench_files = (Inr bt, files')" "bt_destination bt = ''/out''"
    and content: "files' ''/out'' = Some ([9, 9] @ [1, 2] @ [7] @ trailer_of 1 2)"
    by (simp add: build_artifact_def prepared write_built_def plain copied_def) (simp add: bench_def bench_files_def Let_def numeral_2_eq_2)
  have header: "\<forall>l from to p region. prepare_build command_world bench ''/work/idle.json'' (Some ''/out'') (Some ''/r'') False True
      None command_settings command_disk bench_files = Inr (l, from, to, p, region) \<longrightarrow>
    bw_probe bench (bw_print bench (p\<lparr> py_blob_digest := fnv1a region \<rparr>)) = Some PAYLOAD_FORMAT_VERSION \<and>
    bw_parse bench (bw_print bench (p\<lparr> py_blob_digest := fnv1a region \<rparr>)) = Some (p\<lparr> py_blob_digest := fnv1a region \<rparr>)"
    using prepared by (auto simp: bench_def) (simp add: idle_baked_def)
  have "\<forall>content. files' (bt_destination bt) = Some content \<longrightarrow> length content < 2 ^ 64"
    using built(2) content by (simp add: trailer_parts(1) TRAILER_LEN_def)
  from artifact_is_whole [OF built(1) header this] obtain p b engine bytes where
    "read_from (bw_probe bench) (bw_parse bench) files' ''/out'' = Inr (Some (p, b))"
    "find_engine command_world (target_host bench) (toolchain_roots command_world bench command_settings) = Inr engine"
    "bench_files engine = Some bytes" "carries files' p b RoleEngine bytes"
    using built(2) by auto
  with built(1) bench_engine show ?thesis by (auto simp: bench_files_def)
qed

end
