(* ===== verification/Cli_Workspace.thy ===== *)
theory Cli_Workspace
  imports Cli_Run "HOL-Library.Multiset"
begin

text \<open>
  The workspace as the console and the MCP server see it (\<^verbatim>\<open>ConsoleWorkspace\<close> and \<^verbatim>\<open>collect_pipelines\<close> in
  \<^verbatim>\<open>crates/cli/src/main.rs\<close>): the pipelines a scan of the directory finds, the one a name stands for,
  and the runs of all of them. A directory is a tree in the order the file system hands it out, as deep
  as links make it; its files' contents are in the map of files. The theorems: a name finds a file the
  scan found or nothing, and the listing of runs is the newest of all there are.
\<close>

section \<open>The scan\<close>

datatype fs_entry = FsDir str "fs_entry list option" | FsFile str

definition MAX_DEPTH :: nat where "MAX_DEPTH = 4"

definition skipped_dir :: "str \<Rightarrow> bool" where
  "skipped_dir name \<longleftrightarrow> starts_with name ''.'' \<or> name = ''target'' \<or> name = ''node_modules''"

type_synonym found = "str \<times> str \<times> pipeline_doc"

definition collect_file :: "cli_world \<Rightarrow> disk \<Rightarrow> str \<Rightarrow> str \<Rightarrow> found list" where
  "collect_file w d directory name =
     (let path = Exec_World.path_join directory name
      in if \<not> ends_with name ''.json'' then []
         else case read_document w path d of
           Inl _ \<Rightarrow> []
         | Inr document \<Rightarrow>
             if doc_nodes document = [] then [] else [(key_for (doc_name document) path, path, document)])"

fun collect_pipelines :: "cli_world \<Rightarrow> disk \<Rightarrow> str \<Rightarrow> nat \<Rightarrow> fs_entry list option \<Rightarrow> found list"
  and collect_entries :: "cli_world \<Rightarrow> disk \<Rightarrow> str \<Rightarrow> nat \<Rightarrow> fs_entry list \<Rightarrow> found list" where
  "collect_pipelines w d directory depth None = []"
| "collect_pipelines w d directory depth (Some entries) =
     (if depth > MAX_DEPTH then [] else collect_entries w d directory depth entries)"
| "collect_entries w d directory depth [] = []"
| "collect_entries w d directory depth (FsDir name inner # entries) =
     (if skipped_dir name then []
      else collect_pipelines w d (Exec_World.path_join directory name) (Suc depth) inner) @
     collect_entries w d directory depth entries"
| "collect_entries w d directory depth (FsFile name # entries) =
     collect_file w d directory name @ collect_entries w d directory depth entries"

definition console_documents :: "cli_world \<Rightarrow> settings \<Rightarrow> fs_entry list option \<Rightarrow> disk \<Rightarrow> found list" where
  "console_documents w s tree d = sort_key fst (collect_pipelines w d (workspace_root w s) 0 tree)"

definition console_locate :: "cli_world \<Rightarrow> settings \<Rightarrow> fs_entry list option \<Rightarrow> str \<Rightarrow> disk \<Rightarrow> console_failure + str" where
  "console_locate w s tree name d =
     ok_or (failure_not_found (''no pipeline called '' @ in_quotes name))
       (map_option (\<lambda>(_, path, _). path) (find (\<lambda>(known, _, _). known = name) (console_documents w s tree d)))"

section \<open>The listing\<close>

definition recent_or_none :: "cli_world \<Rightarrow> settings \<Rightarrow> str \<Rightarrow> nat \<Rightarrow> disk \<Rightarrow> run_record list" where
  "recent_or_none w s key limit d =
     (case history_recent (wd_parse_record w) (wd_history_read_fails w) (cli_runs_dir w s) key limit d of
        Inr records \<Rightarrow> records | Inl _ \<Rightarrow> [])"

definition relative_to :: "str \<Rightarrow> str \<Rightarrow> str" where
  "relative_to root path = map (\<lambda>c. if c = CHR 0x5C then CHR ''/'' else c)
     (case strip_prefix (trim_slashes root @ ''/'') path of Some rest \<Rightarrow> rest | None \<Rightarrow> path)"

record pipeline_summary =
  sy_name :: str
  sy_path :: str
  sy_stages :: "nat option"
  sy_problem :: "str option"
  sy_last_outcome :: "str option"
  sy_last_run :: "str option"

definition summary_of :: "cli_world \<Rightarrow> settings \<Rightarrow> disk \<Rightarrow> found \<Rightarrow> pipeline_summary" where
  "summary_of w s d found1 = (case found1 of (name, path, document) \<Rightarrow>
     (let (stages, problem) = (case load_and_compile_quietly w s path d of
            Inr l \<Rightarrow> (Some (length (pl_stages (ld_plan l))), None)
          | Inl message \<Rightarrow> (None, Some message));
          last_run = (case recent_or_none w s (key_for (doc_name document) path) 1 d of [] \<Rightarrow> None | r # _ \<Rightarrow> Some r)
      in \<lparr> sy_name = name, sy_path = relative_to (workspace_root w s) path, sy_stages = stages, sy_problem = problem,
           sy_last_outcome = map_option (\<lambda>r. run_outcome_name (rr_outcome r)) last_run,
           sy_last_run = map_option rr_started last_run \<rparr>))"

definition console_pipelines :: "cli_world \<Rightarrow> settings \<Rightarrow> fs_entry list option \<Rightarrow> disk \<Rightarrow> pipeline_summary list" where
  "console_pipelines w s tree d = map (summary_of w s d) (console_documents w s tree d)"

text \<open>\<^verbatim>\<open>sort_by\<close> with the sides swapped: descending, and stable.\<close>

definition newest_first :: "run_record list \<Rightarrow> run_record list" where
  "newest_first rs = rev (sort_key rr_started (rev rs))"

definition console_runs :: "cli_world \<Rightarrow> settings \<Rightarrow> fs_entry list option \<Rightarrow> (state_error + str list option)
    \<Rightarrow> str option \<Rightarrow> nat \<Rightarrow> disk \<Rightarrow> console_failure + run_record list" where
  "console_runs w s tree listed pipeline limit d =
     and_then (case pipeline of
         Some name \<Rightarrow>
           and_then (console_locate w s tree name d) (\<lambda>path.
           and_then (map_err failure_invalid (read_document w path d)) (\<lambda>document.
             Inr [key_for (doc_name document) path]))
       | None \<Rightarrow> map_err (\<lambda>e. \<lparr> cf_status = 500, cf_message = wd_show w (StateRefused e) \<rparr>) (history_keys listed)) (\<lambda>keys.
       Inr (take limit (newest_first (concat (map (\<lambda>key. recent_or_none w s key limit d) keys)))))"

definition console_run :: "cli_world \<Rightarrow> settings \<Rightarrow> (state_error + str list option) \<Rightarrow> str \<Rightarrow> disk \<Rightarrow> console_failure + run_record" where
  "console_run w s listed i d =
     and_then (map_err (\<lambda>e. \<lparr> cf_status = 500, cf_message = wd_show w (StateRefused e) \<rparr>)
         (history_find (wd_parse_record w) (wd_history_read_fails w) (cli_runs_dir w s) listed None i d)) (\<lambda>found1.
       ok_or (failure_not_found (''no run called '' @ in_quotes i)) found1)"

text \<open>A request that starts a run: the name is looked up, then the file is run.\<close>

definition console_starts :: "cli_world \<Rightarrow> settings \<Rightarrow> fs_entry list option \<Rightarrow> str \<Rightarrow> str option \<Rightarrow> bool \<Rightarrow> disk
    \<Rightarrow> (console_failure + run_record) \<times> disk" where
  "console_starts w s tree name duckdb counts d = (case console_locate w s tree name d of
     Inl f \<Rightarrow> (Inl f, d)
   | Inr path \<Rightarrow> console_start w name path duckdb counts s d)"

section \<open>A name is looked up, never joined\<close>

text \<open>
  The files of a tree a scan may look at: every directory on the way is one that is not skipped, and
  there are at most four of them.
\<close>

inductive in_tree :: "fs_entry list \<Rightarrow> str list \<Rightarrow> str \<Rightarrow> bool" where
  here: "FsFile name \<in> set entries \<Longrightarrow> in_tree entries [] name"
| below: "FsDir name (Some inner) \<in> set entries \<Longrightarrow> in_tree inner dirs file \<Longrightarrow> in_tree entries (name # dirs) file"

inductive_cases in_tree_NilE: "in_tree entries [] file"
inductive_cases in_tree_ConsE: "in_tree entries (name # dirs) file"

definition is_document :: "cli_world \<Rightarrow> disk \<Rightarrow> str \<Rightarrow> str \<Rightarrow> pipeline_doc \<Rightarrow> bool" where
  "is_document w d path key document \<longleftrightarrow> read_document w path d = Inr document \<and> doc_nodes document \<noteq> [] \<and>
     key = key_for (doc_name document) path"

abbreviation below_dir :: "str \<Rightarrow> str list \<Rightarrow> str" where
  "below_dir directory parts \<equiv> foldl Exec_World.path_join directory parts"

lemma in_tree_simps:
  "\<not> in_tree [] dirs file"
  "in_tree (FsFile name # entries) dirs file \<longleftrightarrow> (dirs = [] \<and> file = name) \<or> in_tree entries dirs file"
  "in_tree (FsDir name inner # entries) dirs file \<longleftrightarrow>
     (\<exists>below ds. inner = Some below \<and> dirs = name # ds \<and> in_tree below ds file) \<or> in_tree entries dirs file"
  by (cases dirs; auto elim!: in_tree_NilE in_tree_ConsE intro: in_tree.intros)+

lemma collect_file_set:
  "(key, path, document) \<in> set (collect_file w d directory name) \<longleftrightarrow>
     ends_with name ''.json'' \<and> path = Exec_World.path_join directory name \<and> is_document w d path key document"
  by (cases "read_document w (Exec_World.path_join directory name) d") (auto simp: collect_file_def is_document_def Let_def)

text \<open>What a scan below a directory may report, at a depth.\<close>

definition reported :: "cli_world \<Rightarrow> disk \<Rightarrow> str \<Rightarrow> nat \<Rightarrow> fs_entry list \<Rightarrow> found \<Rightarrow> bool" where
  "reported w d directory depth entries found1 \<longleftrightarrow> (case found1 of (key, path, document) \<Rightarrow>
     \<exists>dirs file. in_tree entries dirs file \<and> depth + length dirs \<le> MAX_DEPTH \<and> \<not> list_ex skipped_dir dirs \<and>
       ends_with file ''.json'' \<and> path = below_dir directory (dirs @ [file]) \<and> is_document w d path key document)"

lemma reported_simps:
  "\<not> reported w d directory depth [] x"
  "depth \<le> MAX_DEPTH \<Longrightarrow> reported w d directory depth (FsFile name # entries) x \<longleftrightarrow>
     x \<in> set (collect_file w d directory name) \<or> reported w d directory depth entries x"
  "reported w d directory depth (FsDir name inner # entries) x \<longleftrightarrow>
     (\<not> skipped_dir name \<and> (\<exists>below. inner = Some below \<and> reported w d (Exec_World.path_join directory name) (Suc depth) below x)) \<or>
     reported w d directory depth entries x"
proof -
  obtain key path document where x: "x = (key, path, document)" by (cases x)
  show "\<not> reported w d directory depth [] x" by (simp add: x reported_def in_tree_simps)
  show "reported w d directory depth (FsFile name # entries) x \<longleftrightarrow>
     x \<in> set (collect_file w d directory name) \<or> reported w d directory depth entries x" if "depth \<le> MAX_DEPTH"
    using that unfolding x reported_def prod.case in_tree_simps collect_file_set
    by (intro iffI; elim exE conjE disjE) (simp, blast, (rule exI [of _ "[]"], rule exI [of _ name], simp), blast)
  show "reported w d directory depth (FsDir name inner # entries) x \<longleftrightarrow>
     (\<not> skipped_dir name \<and> (\<exists>below. inner = Some below \<and> reported w d (Exec_World.path_join directory name) (Suc depth) below x)) \<or>
     reported w d directory depth entries x"
    unfolding x reported_def prod.case in_tree_simps by (intro iffI; elim exE conjE disjE) fastforce+
qed

lemma reported_depth: "reported w d directory depth entries x \<Longrightarrow> depth \<le> MAX_DEPTH"
  by (auto simp: reported_def)

lemma collected:
  "x \<in> set (collect_pipelines w d directory depth tree) \<longleftrightarrow> depth \<le> MAX_DEPTH \<and>
     (\<exists>entries. tree = Some entries \<and> reported w d directory depth entries x)"
  "depth \<le> MAX_DEPTH \<Longrightarrow> x \<in> set (collect_entries w d directory depth entries) \<longleftrightarrow> reported w d directory depth entries x"
proof (induction w d directory depth tree and w d directory depth entries rule: collect_pipelines_collect_entries.induct)
  case (4 w d directory depth name inner entries)
  then show ?case by (auto simp: reported_simps dest: reported_depth)
qed (auto simp: reported_simps dest: reported_depth)

lemma find_sorted_Some:
  "find P (sort_key f xs) = Some x \<Longrightarrow> x \<in> set xs \<and> P x"
  by (auto simp: find_Some_iff) (metis nth_mem set_sort length_sort)

text \<open>
  C39: A name from the network is looked up among the workspace's own pipelines, never made into a
  path. It is found exactly when the scan reaches a document of that name, and what is found is that
  document: a \<^verbatim>\<open>.json\<close> file below the workspace, at most four directories down, none of them hidden or
  skipped, that parses as a pipeline with nodes and has the name as its key. So a name with a path
  separator is never found.
\<close>

theorem names_are_looked_up:
  "(case console_locate w s (Some entries) name d of
      Inr path \<Rightarrow> \<exists>dirs file document. in_tree entries dirs file \<and> length dirs \<le> MAX_DEPTH \<and> \<not> list_ex skipped_dir dirs \<and>
        ends_with file ''.json'' \<and> path = below_dir (workspace_root w s) (dirs @ [file]) \<and>
        is_document w d path name document \<and> check_key name = Inr ()
    | Inl f \<Rightarrow> cf_status f = 404 \<and> (\<nexists>dirs file document. in_tree entries dirs file \<and> length dirs \<le> MAX_DEPTH \<and>
        \<not> list_ex skipped_dir dirs \<and> ends_with file ''.json'' \<and>
        is_document w d (below_dir (workspace_root w s) (dirs @ [file])) name document))"
proof -
  let ?found = "collect_pipelines w d (workspace_root w s) 0 (Some entries)"
  have inside: "(key, path, document) \<in> set ?found \<longleftrightarrow> reported w d (workspace_root w s) 0 entries (key, path, document)"
    for key path document by (simp add: collected)
  show ?thesis
  proof (cases "find (\<lambda>(known, _, _). known = name) (sort_key fst ?found)")
    case None
    then have "reported w d (workspace_root w s) 0 entries (name, path, document) \<Longrightarrow> False" for path document
      using inside by (auto simp: find_None_iff)
    with None show ?thesis
      by (simp add: console_locate_def console_documents_def failure_not_found_def) (auto simp: reported_def)
  next
    case (Some x)
    from find_sorted_Some [OF Some] obtain path document where x: "x = (name, path, document)" "x \<in> set ?found" by auto
    with inside have "reported w d (workspace_root w s) 0 entries (name, path, document)" by simp
    then obtain dirs fl where "in_tree entries dirs fl" "length dirs \<le> MAX_DEPTH" "\<not> list_ex skipped_dir dirs"
      "ends_with fl ''.json''" "path = below_dir (workspace_root w s) (dirs @ [fl])" "is_document w d path name document"
      by (auto simp: reported_def)
    moreover from this(6) have "check_key name = Inr ()" using key_for_safe by (auto simp: is_document_def)
    ultimately show ?thesis using Some x(1) by (simp add: console_locate_def console_documents_def) blast
  qed
qed

text \<open>
  Two files of one name are told apart by nothing: which of them a name finds is the order in which
  the file system listed them, although the scan is sorted so that nothing depends on it.
\<close>

definition twin_world :: cli_world where
  "twin_world = command_world\<lparr> wd_parse_document := \<lambda>_. Some (idle_doc\<lparr> doc_name := Some ''orders'' \<rparr>) \<rparr>"

definition twin_disk :: disk where
  "twin_disk = [''/work/a.json'' \<mapsto> ''a'', ''/work/b.json'' \<mapsto> ''b'']"

lemma twins_follow_the_listing:
  "console_locate twin_world command_settings (Some [FsFile ''a.json'', FsFile ''b.json'']) ''orders'' twin_disk = Inr ''/work/a.json''"
  "console_locate twin_world command_settings (Some [FsFile ''b.json'', FsFile ''a.json'']) ''orders'' twin_disk = Inr ''/work/b.json''"
proof -
  have root: "workspace_root twin_world command_settings = ''/work''"
    by (simp add: workspace_root_def command_settings_def)
  have "trim ''orders'' = ''orders''" "sanitise ''orders'' = ''orders''" by code_simp+
  then have key: "key_for (Some ''orders'') path = ''orders''" for path by (simp add: key_for_def)
  have nodes: "doc_nodes idle_doc \<noteq> []" by (simp add: idle_doc_def)
  have file_of: "collect_file twin_world twin_disk ''/work'' (c # ''.json'') =
      [(''orders'', ''/work/'' @ c # ''.json'', idle_doc\<lparr> doc_name := Some ''orders'' \<rparr>)]"
    if "twin_disk (''/work/'' @ c # ''.json'') = Some t" "c \<noteq> CHR ''/''" for c t
    using that by (simp add: collect_file_def Exec_World.path_join_def starts_with_def ends_with_def read_document_def
      twin_world_def key nodes)
  have "twin_disk ''/work/a.json'' = Some ''a''" "twin_disk ''/work/b.json'' = Some ''b''" by (simp_all add: twin_disk_def)
  then have scanned: "collect_file twin_world twin_disk ''/work'' ''a.json'' = [(''orders'', ''/work/a.json'', idle_doc\<lparr> doc_name := Some ''orders'' \<rparr>)]"
    "collect_file twin_world twin_disk ''/work'' ''b.json'' = [(''orders'', ''/work/b.json'', idle_doc\<lparr> doc_name := Some ''orders'' \<rparr>)]"
    using file_of [of "CHR ''a''"] file_of [of "CHR ''b''"] by simp_all
  show "console_locate twin_world command_settings (Some [FsFile ''a.json'', FsFile ''b.json'']) ''orders'' twin_disk = Inr ''/work/a.json''"
    "console_locate twin_world command_settings (Some [FsFile ''b.json'', FsFile ''a.json'']) ''orders'' twin_disk = Inr ''/work/b.json''"
    by (simp_all add: console_locate_def console_documents_def root MAX_DEPTH_def scanned)
qed

section \<open>The newest runs\<close>

text \<open>The whole history of a pipeline, the last run first; none if it cannot be read.\<close>

definition all_runs :: "cli_world \<Rightarrow> settings \<Rightarrow> disk \<Rightarrow> str \<Rightarrow> run_record list" where
  "all_runs w s d key =
     (case history_read (wd_parse_record w) (wd_history_read_fails w) (cli_runs_dir w s) key d of
        Inr rs \<Rightarrow> rev rs | Inl _ \<Rightarrow> [])"

lemma recent_is_taken: "recent_or_none w s key limit d = take limit (all_runs w s d key)"
  by (cases "history_read (wd_parse_record w) (wd_history_read_fails w) (cli_runs_dir w s) key d")
    (simp_all add: recent_or_none_def all_runs_def history_recent_def)

lemma newest_first_values: "map rr_started (newest_first rs) = rev (sort (map rr_started rs))"
proof -
  have "sort (map rr_started rs) = map rr_started (sort_key rr_started (rev rs))"
    by (rule properties_for_sort) simp_all
  then show ?thesis by (simp add: newest_first_def rev_map)
qed

lemma insort_below_top:
  assumes "sorted L" "n \<le> length (filter (\<lambda>y. z \<le> y) L)"
  shows "take n (rev (insort z L)) = take n (rev L)"
  using assms
proof (induction L)
  case (Cons y ys)
  show ?case
  proof (cases "z \<le> y")
    case True
    with Cons.prems(1) have "filter (\<lambda>y. z \<le> y) ys = ys" by (intro filter_True) auto
    moreover from this Cons.prems True have "n - length ys = 0 \<or> n - length ys = 1" by auto
    ultimately show ?thesis using True by auto
  next
    case False
    with Cons have "take n (rev (insort z ys)) = take n (rev ys)" "n \<le> length (filter (\<lambda>y. z \<le> y) ys)" by auto
    moreover from this(2) have "n \<le> length ys" by (rule order_trans) simp
    ultimately show ?thesis using False by simp
  qed
qed simp

lemma top_is_enough:
  fixes ys zs :: "'a :: linorder list"
  assumes "\<And>z. z \<in> set zs \<Longrightarrow> n \<le> length (filter (\<lambda>y. z \<le> y) ys)"
  shows "take n (rev (sort (zs @ ys))) = take n (rev (sort ys))"
  using assms
proof (induction zs)
  case (Cons z zs)
  then have "n \<le> length (filter (\<lambda>y. z \<le> y) ys)" by simp
  also have "\<dots> \<le> length (filter (\<lambda>y. z \<le> y) (zs @ ys))" by simp
  also have "\<dots> = length (filter (\<lambda>y. z \<le> y) (sort (zs @ ys)))"
    by (metis mset_filter mset_sort size_mset)
  finally show ?case using Cons by (simp add: insort_below_top)
qed simp

lemma merged_tops:
  fixes h :: "'k \<Rightarrow> 'a :: linorder list"
  assumes "\<And>k. k \<in> set ks \<Longrightarrow> sorted (rev (h k))"
  shows "take n (rev (sort (concat (map (\<lambda>k. take n (h k)) ks)))) = take n (rev (sort (concat (map h ks))))"
proof -
  let ?tops = "concat (map (\<lambda>k. take n (h k)) ks)" and ?rests = "concat (map (\<lambda>k. drop n (h k)) ks)"
  have "mset (concat (map h ks)) = mset (?rests @ ?tops)"
    by (induction ks) (simp_all add: ac_simps, metis append_take_drop_id mset_append union_commute)
  then have all: "sort (concat (map h ks)) = sort (?rests @ ?tops)"
    by (intro properties_for_sort) simp_all
  have "n \<le> length (filter (\<lambda>y. z \<le> y) ?tops)" if z: "z \<in> set ?rests" for z
  proof -
    from z obtain k where k: "k \<in> set ks" "z \<in> set (drop n (h k))" by auto
    then obtain before after where ks: "ks = before @ k # after" by (meson split_list)
    from assms [OF k(1)] k(2) have "filter (\<lambda>y. z \<le> y) (take n (h k)) = take n (h k)"
      by (metis (no_types, lifting) append_take_drop_id filter_True rev_append sorted_append set_rev)
    moreover from k(2) have "length (take n (h k)) = n" by (cases "length (h k) \<le> n") auto
    ultimately show ?thesis by (simp add: ks)
  qed
  from top_is_enough [of ?rests n ?tops, OF this] show ?thesis unfolding all by simp
qed

text \<open>
  The list of runs is the newest there are. Of every pipeline only as many runs are read as may
  be listed; the list is as long, and holds the same starting times, as if all of the histories had
  been merged, sorted with the newest first and cut -- for histories in which no run starts before
  the one recorded before it.
\<close>

lemma listed_runs_are_the_newest:
  assumes "history_keys listed = Inr keys"
    and "\<And>key. key \<in> set keys \<Longrightarrow> sorted (map rr_started (rev (all_runs w s d key)))"
  shows "\<exists>rs. console_runs w s tree listed None limit d = Inr rs \<and>
    map rr_started rs = take limit (rev (sort (map rr_started (concat (map (all_runs w s d) keys))))) \<and>
    set rs \<subseteq> set (concat (map (all_runs w s d) keys))"
proof -
  let ?rs = "take limit (newest_first (concat (map (\<lambda>key. recent_or_none w s key limit d) keys)))"
  have "map rr_started ?rs = take limit (rev (sort (concat (map (\<lambda>key. take limit (map rr_started (all_runs w s d key))) keys))))"
    by (simp add: take_map [symmetric] newest_first_values recent_is_taken map_concat comp_def)
  also have "\<dots> = take limit (rev (sort (map rr_started (concat (map (all_runs w s d) keys)))))"
    using merged_tops [of keys "\<lambda>key. map rr_started (all_runs w s d key)" limit] assms(2)
    by (simp add: map_concat comp_def rev_map)
  finally have "map rr_started ?rs = take limit (rev (sort (map rr_started (concat (map (all_runs w s d) keys)))))" .
  moreover have "set ?rs \<subseteq> set (concat (map (all_runs w s d) keys))"
    by (force simp: newest_first_def recent_is_taken dest: in_set_takeD)
  ultimately show ?thesis using assms(1) by (auto simp: console_runs_def)
qed

definition listing_world :: cli_world where
  "listing_world = command_world\<lparr> wd_parse_record := sample_parse \<rparr>"

definition listing_disk :: disk where
  "listing_disk = [''/work/.etl/runs/a.jsonl'' \<mapsto> [CHR ''r'', CHR 0x0A, CHR ''r'', CHR 0x0A],
     ''/work/.etl/runs/b.jsonl'' \<mapsto> [CHR ''r'', CHR 0x0A]]"

lemma listing_runs:
  "all_runs listing_world command_settings listing_disk ''a'' = [sample_run, sample_run]"
  "all_runs listing_world command_settings listing_disk ''b'' = [sample_run]"
proof -
  have dir: "cli_runs_dir listing_world command_settings = ''/work/.etl/runs''"
    by (simp add: cli_runs_dir_def workspace_root_def command_settings_def Exec_World.path_join_def RUNS_DIR_def
      starts_with_def ends_with_def)
  have ok: "list_all (line_ok (\<lambda>_. ''r'') sample_parse) [sample_run, sample_run]"
    using sample_line_ok by (simp add: sample_run_def RUNS_FORMAT_VERSION_def)
  have "records_of sample_parse [CHR ''r'', CHR 0x0A, CHR ''r'', CHR 0x0A] = [sample_run, sample_run]"
    "records_of sample_parse [CHR ''r'', CHR 0x0A] = [sample_run]"
    using records_of_lines [OF ok] records_of_lines [of "\<lambda>_. ''r''" sample_parse "[sample_run]"] ok by simp_all
  moreover have "check_key ''a'' = Inr ()" "check_key ''b'' = Inr ()" by (simp_all add: check_key_iff)
  moreover have "wd_parse_record listing_world = sample_parse" "\<not> wd_history_read_fails listing_world"
    by (simp_all add: listing_world_def command_world_def)
  ultimately show "all_runs listing_world command_settings listing_disk ''a'' = [sample_run, sample_run]"
    "all_runs listing_world command_settings listing_disk ''b'' = [sample_run]"
    by (simp_all add: all_runs_def dir history_read_def history_path_def listing_disk_def)
qed

lemma listed_runs_are_the_newest_witness:
  "\<exists>rs. console_runs listing_world command_settings None (Inr (Some [''a.jsonl'', ''b.jsonl''])) None 2 listing_disk = Inr rs \<and>
     map rr_started rs = [''2026-01-01T00:00:00Z'', ''2026-01-01T00:00:00Z'']"
proof -
  have keys: "history_keys (Inr (Some [''a.jsonl'', ''b.jsonl''])) = Inr [''a'', ''b'']" by code_simp
  have "sorted (map rr_started (rev (all_runs listing_world command_settings listing_disk key)))"
    if "key \<in> set [''a'', ''b'']" for key using that by (auto simp: listing_runs)
  from listed_runs_are_the_newest [where w = listing_world and s = command_settings and d = listing_disk and tree = None
      and limit = 2, OF keys this] show ?thesis
    by (auto simp: listing_runs sample_run_def)
qed

end
