(* ===== verification/Cli_Schedule.thy ===== *)
theory Cli_Schedule
  imports Cli_Run Workspace_Lock
begin

text \<open>
  \<^verbatim>\<open>etl schedule\<close> (\<^verbatim>\<open>crates/cli/src/main.rs\<close>): the rows of \<^verbatim>\<open>list\<close>, the verdicts of \<^verbatim>\<open>check\<close>, and \<^verbatim>\<open>start\<close>,
  which takes the lock of the workspace, runs the scheduler over its files and gives the lock back. The
  clock, sleeping and watched files are the machine's; the runner is the one the command line gives the
  scheduler. The theorems: \<^verbatim>\<open>check\<close> tells what a run would do, and one pass returns with the lock
  released and an exit code that tells whether anything failed.
\<close>

section \<open>The entries\<close>

text \<open>When a schedule's pipeline last ran: the start of the last run of its key, if it can be read.\<close>

definition last_run_of :: "cli_world \<Rightarrow> settings \<Rightarrow> disk \<Rightarrow> schedule \<Rightarrow> int option" where
  "last_run_of w s d sch =
     (let pipeline = pipeline_in sch (workspace_root w s)
      in Option.bind (d pipeline) (\<lambda>content.
         Option.bind (wd_parse_document w content) (\<lambda>document.
         (case history_recent (wd_parse_record w) (wd_history_read_fails w) (cli_runs_dir w s)
               (key_for (doc_name document) pipeline) 1 d of
            Inr (r # _) \<Rightarrow> from_rfc3339 (rr_started r)
          | _ \<Rightarrow> None))))"

definition build_scheduler :: "cli_world \<Rightarrow> settings \<Rightarrow> int \<Rightarrow> schedule list \<Rightarrow> disk \<Rightarrow> entry list" where
  "build_scheduler w s now schedules d =
     fst (entries_new (workspace_root w s) now (\<lambda>sch u. (last_run_of w s d sch, u)) schedules ())"

record schedule_row =
  sw_name :: str
  sw_pipeline :: str
  sw_trigger :: str
  sw_enabled :: bool
  sw_next :: "str option"
  sw_last_run :: "str option"

definition schedule_row_of :: "entry \<Rightarrow> schedule_row" where
  "schedule_row_of e = \<lparr> sw_name = sch_name (en_schedule e), sw_pipeline = sch_pipeline (en_schedule e),
     sw_trigger = trigger_describe (sch_trigger (en_schedule e)), sw_enabled = sch_enabled (en_schedule e),
     sw_next = map_option to_rfc3339 (en_next e), sw_last_run = map_option to_rfc3339 (en_last_run e) \<rparr>"

definition console_schedules :: "cli_world \<Rightarrow> settings \<Rightarrow> int \<Rightarrow> schedule_error + schedule_file \<Rightarrow> disk
    \<Rightarrow> (schedule_error \<Rightarrow> str) \<Rightarrow> console_failure + schedule_row list" where
  "console_schedules w s now loaded_file d show =
     and_then (map_err (\<lambda>e. failure_invalid (show e)) loaded_file) (\<lambda>f.
       Inr (map schedule_row_of (build_scheduler w s now (sf_schedules f) d)))"

section \<open>List and check\<close>

definition listed_line :: "nat \<Rightarrow> int \<Rightarrow> entry \<Rightarrow> str" where
  "listed_line width now e = ''  '' @ pad_right width (sch_name (en_schedule e)) @ ''  '' @
     pad_right 22 (trigger_describe (sch_trigger (en_schedule e))) @ ''  '' @
     (if sch_enabled (en_schedule e) then describe_next e now else ''off'')"

definition schedule_list_lines :: "cli_world \<Rightarrow> settings \<Rightarrow> int \<Rightarrow> schedule_file \<Rightarrow> disk \<Rightarrow> str list" where
  "schedule_list_lines w s now f d =
     (if sf_schedules f = [] then [''No schedules. Write some to '' @ schedules_path w s]
      else let es = build_scheduler w s now (sf_schedules f) d;
               width = foldr max (map (\<lambda>e. char_count (sch_name (en_schedule e))) es) 0
           in map (listed_line width now) es @
              [[], show_nat (length (sf_schedules f)) @ '' schedule(s), '' @ show_nat (length (enabled_schedules f)) @
                '' enabled. Times are UTC.''])"

definition runnable :: "cli_world \<Rightarrow> settings \<Rightarrow> disk \<Rightarrow> schedule \<Rightarrow> bool" where
  "runnable w s d sch =
     (case load_and_compile w (for_schedule sch s) (pipeline_in sch (workspace_root w s)) d of Inr _ \<Rightarrow> True | Inl _ \<Rightarrow> False)"

definition command_schedule_check :: "cli_world \<Rightarrow> settings \<Rightarrow> schedule_file \<Rightarrow> disk \<Rightarrow> nat \<times> (bool \<times> str) list" where
  "command_schedule_check w s f d =
     (let verdicts = map (\<lambda>sch. (runnable w s d sch, sch_name sch)) (sf_schedules f);
          broken = length (filter (\<lambda>v. \<not> fst v) verdicts)
      in (if sf_schedules f = [] then CLI_OK else if broken > 0 then CLI_INVALID else CLI_OK, verdicts))"

section \<open>Start\<close>

text \<open>The machine a scheduler runs on, beside the files: its clock and the files it watches.\<close>

record 'c watch_machine =
  wm_now :: "'c \<Rightarrow> int \<times> 'c"
  wm_sleep :: "nat \<Rightarrow> 'c \<Rightarrow> 'c"
  wm_look :: "str \<Rightarrow> 'c \<Rightarrow> disk_view \<times> 'c"

definition schedule_env :: "cli_world \<Rightarrow> str option \<Rightarrow> bool \<Rightarrow> settings \<Rightarrow> 'c watch_machine \<Rightarrow> (disk \<times> 'c) env" where
  "schedule_env w duckdb counts s wm = \<lparr>
     ev_now = (\<lambda>(d, c). case wm_now wm c of (t, c') \<Rightarrow> (t, d, c')),
     ev_sleep = (\<lambda>n (d, c). (d, wm_sleep wm n c)),
     ev_runner = (\<lambda>sch (d, c). case run_scheduled w sch duckdb counts s d of (result, d') \<Rightarrow> (result, d', c)),
     ev_look = (\<lambda>path (d, c). case wm_look wm path c of (view, c') \<Rightarrow> (view, d, c')),
     ev_stop = (\<lambda>x. (False, x)) \<rparr>"

text \<open>
  The lock's own answers: whether this is Windows, the holder it writes, what fails when it is taken, and
  which of its two files cannot be removed when it is given back.
\<close>

record lock_world =
  lw_windows :: bool
  lw_path :: str
  lw_me :: holder
  lw_faults :: lock_faults
  lw_status_stays :: bool
  lw_file_stays :: bool

record 'c scheduled =
  sd_code :: nat
  sd_summary :: summary
  sd_disk :: disk
  sd_machine :: 'c
  sd_lock :: lock_files

definition command_schedule_start :: "nat \<Rightarrow> cli_world \<Rightarrow> lock_world \<Rightarrow> 'c watch_machine \<Rightarrow> schedule_file \<Rightarrow> bool \<Rightarrow> bool
    \<Rightarrow> str option \<Rightarrow> bool \<Rightarrow> settings \<Rightarrow> disk \<Rightarrow> 'c \<Rightarrow> lock_files \<Rightarrow> 'c scheduled option" where
  "command_schedule_start fuel w lw wm f force once duckdb counts s d c l =
     (let refused = (\<lambda>l'. Some \<lparr> sd_code = CLI_USAGE, sd_summary = [], sd_disk = d, sd_machine = c, sd_lock = l' \<rparr>)
      in if enabled_schedules f = [] then refused l
         else case lock_acquire (lw_windows lw) (lw_path lw) force (lw_me lw) (lw_faults lw) l of
           (Inl _, l1) \<Rightarrow> refused l1
         | (Inr _, l1) \<Rightarrow>
             (case wm_now wm c of (now, c1) \<Rightarrow>
              let es = build_scheduler w s now (enabled_schedules f) d
              in case wm_now wm c1 of (_, c2) \<Rightarrow>
                 map_option (\<lambda>(summary, es', d', c'). \<lparr>
                     sd_code = (if summary_failed summary > 0 then CLI_FAILED else CLI_OK), sd_summary = summary,
                     sd_disk = d', sd_machine = c', sd_lock = lock_drop (lw_windows lw) (lw_status_stays lw) (lw_file_stays lw) l1 \<rparr>)
                   (sched_run fuel (schedule_env w duckdb counts s wm) (if once then Some 1 else None) 0 [] es (d, c2))))"

section \<open>What check tells\<close>

lemma run_scheduled_broken:
  "(if runnable w s d sch
    then fst (run_scheduled w sch duckdb counts s d) = Broken \<longleftrightarrow>
      (\<exists>l e. load_and_compile w (for_schedule sch s) (pipeline_in sch (workspace_root w s)) d = Inr l \<and>
        fst (run (wd_outside w) (ld_plan l) (run_options_of w (for_schedule sch s) duckdb counts (ld_resolved l)) machine_start)
          = Inl e \<and> not_found e)
    else run_scheduled w sch duckdb counts s d = (Broken, d))"
  by (cases rule: perform_cases [of w "for_schedule sch s" "pipeline_in sch (workspace_root w s)" d duckdb counts])
    (auto simp: runnable_def run_scheduled_def Let_def split: prod.split sum.split)

text \<open>
  \<^verbatim>\<open>etl schedule check\<close> tells what the scheduler would do. It exits with 0 exactly when every schedule
  of the file compiles as its run would; a schedule it calls broken does not start and leaves every
  file as it was; and one it passes starts unless there is no DuckDB.
\<close>

lemma check_tells_what_runs:
  "(fst (command_schedule_check w s f d) = CLI_OK \<longleftrightarrow> list_all (runnable w s d) (sf_schedules f)) \<and>
   map fst (snd (command_schedule_check w s f d)) = map (runnable w s d) (sf_schedules f) \<and>
   (if runnable w s d sch
    then fst (run_scheduled w sch duckdb counts s d) = Broken \<longleftrightarrow>
      (\<exists>l e. load_and_compile w (for_schedule sch s) (pipeline_in sch (workspace_root w s)) d = Inr l \<and>
        fst (run (wd_outside w) (ld_plan l) (run_options_of w (for_schedule sch s) duckdb counts (ld_resolved l)) machine_start)
          = Inl e \<and> not_found e)
    else run_scheduled w sch duckdb counts s d = (Broken, d))"
proof (intro conjI run_scheduled_broken)
  show "fst (command_schedule_check w s f d) = CLI_OK \<longleftrightarrow> list_all (runnable w s d) (sf_schedules f)"
    by (auto simp: command_schedule_check_def Let_def filter_empty_conv list_all_iff)
qed (simp add: command_schedule_check_def Let_def)

section \<open>One pass\<close>

text \<open>Schedules run one after the other, each on the files the one before it left.\<close>

fun run_all :: "cli_world \<Rightarrow> str option \<Rightarrow> bool \<Rightarrow> settings \<Rightarrow> schedule list \<Rightarrow> disk \<Rightarrow> outcome list \<times> disk" where
  "run_all w duckdb counts s [] d = ([], d)"
| "run_all w duckdb counts s (sch # schs) d =
     (let (result, d1) = run_scheduled w sch duckdb counts s d; (results, d2) = run_all w duckdb counts s schs d1
      in (result # results, d2))"

lemma run_entry_scheduled:
  assumes "run_entry (schedule_env w duckdb counts s wm) e (d, c) = (t, e', d', c')"
  shows "run_scheduled w (en_schedule e) duckdb counts s d = (tk_outcome t, d')" "en_schedule e' = en_schedule e"
  using assms by (auto simp: run_entry_def schedule_env_def Let_def split: prod.splits)

lemma run_due_scheduled:
  "run_due (schedule_env w duckdb counts s wm) due es (d, c) = (ts, es', d', c') \<Longrightarrow> \<forall>k\<in>set due. k < length es \<Longrightarrow>
     run_all w duckdb counts s (map (\<lambda>k. en_schedule (es ! k)) due) d = (map tk_outcome ts, d')"
proof (induction due arbitrary: es d c ts)
  case (Cons k due)
  obtain t e d1 c1 where t: "run_entry (schedule_env w duckdb counts s wm) (es ! k) (d, c) = (t, e, d1, c1)"
    by (metis prod_cases4)
  with Cons.prems obtain ts1 where rest: "run_due (schedule_env w duckdb counts s wm) due (es[k := e]) (d1, c1) = (ts1, es', d', c')"
    and ts: "ts = t # ts1" by (auto split: prod.splits)
  have same: "map (\<lambda>j. en_schedule (es[k := e] ! j)) due = map (\<lambda>j. en_schedule (es ! j)) due"
    using Cons.prems(2) run_entry_scheduled(2) [OF t] by (auto simp: nth_list_update)
  from Cons.IH [OF rest] Cons.prems(2) same run_entry_scheduled(1) [OF t] ts show ?case by auto
qed simp

lemma due_now_disk:
  "due_now (schedule_env w duckdb counts s wm) now i es (d, c) = (due, es', d', c') \<Longrightarrow> d' = d"
proof (induction es arbitrary: i c due es')
  case (Cons e es)
  obtain b e1 d1 c1 where e: "entry_due (schedule_env w duckdb counts s wm) now e (d, c) = (b, e1, d1, c1)"
    by (metis prod_cases4)
  then have "d1 = d" by (auto simp: entry_due_def schedule_env_def split: option.splits prod.splits if_splits)
  with Cons e show ?case by (auto split: prod.splits)
qed simp

lemma entries_of_build: 
  "length (build_scheduler w s now schs d) = length schs"
  "map en_schedule (build_scheduler w s now schs d) = schs"
  "list_all (\<lambda>sch. wf_trigger (sch_trigger sch)) schs \<Longrightarrow> list_all wf_entry (build_scheduler w s now schs d)"
proof -
  have "map en_schedule (fst (entries_new ws now f schs u)) = schs" for ws f and u :: unit
    by (induction schs arbitrary: u) (auto split: prod.split)
  then show same: "map en_schedule (build_scheduler w s now schs d) = schs" by (simp add: build_scheduler_def)
  then show "length (build_scheduler w s now schs d) = length schs" by (metis length_map)
  have "list_all (\<lambda>sch. wf_trigger (sch_trigger sch)) schs \<Longrightarrow> list_all wf_entry (fst (entries_new ws now f schs u))" for ws f and u :: unit
    by (induction schs arbitrary: u) (auto split: prod.split intro: entry_new_wf)
  then show "list_all (\<lambda>sch. wf_trigger (sch_trigger sch)) schs \<Longrightarrow> list_all wf_entry (build_scheduler w s now schs d)"
    by (simp add: build_scheduler_def)
qed

lemma built_watched:
  assumes "k < length schs" "sch_trigger (schs ! k) = TWatch t"
  shows "en_watch (build_scheduler w s now schs d ! k) = Some (watch_resolve t (workspace_root w s), watch_state_default)"
proof -
  have "k < length schs \<Longrightarrow> sch_trigger (schs ! k) = TWatch t \<Longrightarrow>
      en_watch (fst (entries_new ws now f schs u) ! k) = Some (watch_resolve t ws, watch_state_default)" for ws f and u :: unit
    by (induction schs arbitrary: u k) (auto simp: entry_new_watched nth_Cons split: prod.split nat.split)
  with assms show ?thesis by (simp add: build_scheduler_def)
qed

lemma released_lock_is_free:
  assumes "lock_acquire windows path force me f l = (Inr u, l1)" "windows \<or> \<not> file_stays"
  shows "fst (lock_acquire windows path False you no_faults (lock_drop windows status_stays file_stays l1)) = Inr ()"
  using assms by (auto simp: lock_acquire_def open_exclusive_def lock_drop_def remove_lock_file_def Let_def no_faults_def
    split: option.splits prod.splits sum.splits if_splits)

text \<open>
  C22: \<^verbatim>\<open>etl schedule start --once\<close> comes back. It runs exactly the enabled schedules whose time had come when
  the pass began, each once, in the order of the file and each on the files the one before left, and none that
  watches a path: one pass looks at a path for the first time, and that look only takes the baseline. It exits
  with 3 exactly when one of them did not succeed, with 0 otherwise; and whoever asks next gets the lock,
  unless its file is the lock (outside Windows) and could not be removed.
\<close>

theorem one_pass_of_the_scheduler:
  assumes "enabled_schedules f \<noteq> []" "list_all (\<lambda>sch. wf_trigger (sch_trigger sch)) (enabled_schedules f)"
    and "lock_acquire (lw_windows lw) (lw_path lw) force (lw_me lw) (lw_faults lw) l = (Inr (), l1)"
    and "wm_now wm c = (now, c1)" "wm_now wm c1 = (shown, c2)" "wm_now wm c2 = (begun, c3)"
  shows "\<exists>r due. command_schedule_start (Suc fuel) w lw wm f force True duckdb counts s d c l = Some r \<and>
    sorted_wrt (<) due \<and> set due \<subseteq> {..<length (enabled_schedules f)} \<and>
    (\<forall>k < length (enabled_schedules f). (case sch_trigger (enabled_schedules f ! k) of TWatch _ \<Rightarrow> k \<notin> set due
      | _ \<Rightarrow> k \<in> set due \<longleftrightarrow> (\<exists>t. en_next (build_scheduler w s now (enabled_schedules f) d ! k) = Some t \<and> t \<le> begun))) \<and>
    map tk_name (sd_summary r) = map (\<lambda>k. sch_name (enabled_schedules f ! k)) due \<and>
    run_all w duckdb counts s (map (\<lambda>k. enabled_schedules f ! k) due) d = (map tk_outcome (sd_summary r), sd_disk r) \<and>
    sd_code r = (if \<exists>t\<in>set (sd_summary r). tk_outcome t \<noteq> Succeeded then CLI_FAILED else CLI_OK) \<and>
    (lw_windows lw \<or> \<not> lw_file_stays lw \<longrightarrow> fst (lock_acquire (lw_windows lw) (lw_path lw) False you no_faults (sd_lock r)) = Inr ())"
proof -
  let ?ss = "enabled_schedules f" and ?env = "schedule_env w duckdb counts s wm"
  let ?es = "build_scheduler w s now ?ss d"
  have now: "ev_now ?env (d, c2) = (begun, d, c3)" using assms(6) by (simp add: schedule_env_def)
  obtain due es1 d1 c4 where due: "due_now ?env begun 0 ?es (d, c3) = (due, es1, d1, c4)" by (metis prod_cases4)
  obtain ts es2 d2 c5 where ran: "run_due ?env due es1 (d, c4) = (ts, es2, d2, c5)" by (metis prod_cases4)
  have pass: "sched_pass ?env ?es (d, c2) = (ts, es2, d2, c5)"
    using due_now_disk [OF due] now due ran by (simp add: sched_pass_def)
  note wf = entries_of_build(3) [OF assms(2)] and range = due_now_range [OF due]
  note kept = due_now_keeps [OF due entries_of_build(3) [OF assms(2)]]
  have schedules: "en_schedule (es1 ! k) = ?ss ! k" if "k < length ?ss" for k
    using kept range that entries_of_build(1,2) [of w s now ?ss d] by (metis nth_map)
  have due_is: "map (\<lambda>k. en_schedule (es1 ! k)) due = map (\<lambda>k. ?ss ! k) due"
    using schedules range by (auto simp: entries_of_build(1))
  have start: "command_schedule_start (Suc fuel) w lw wm f force True duckdb counts s d c l = Some \<lparr>
      sd_code = (if summary_failed ts > 0 then CLI_FAILED else CLI_OK), sd_summary = ts, sd_disk = d2, sd_machine = c5,
      sd_lock = lock_drop (lw_windows lw) (lw_status_stays lw) (lw_file_stays lw) l1 \<rparr>"
  proof -
    have "ev_stop ?env x = (False, x)" for x by (simp add: schedule_env_def)
    with assms(1,3-5) pass show ?thesis by (simp add: command_schedule_start_def Let_def)
  qed
  have "case sch_trigger (?ss ! k) of TWatch _ \<Rightarrow> k \<notin> set due | _ \<Rightarrow> k \<in> set due \<longleftrightarrow> (\<exists>t. en_next (?es ! k) = Some t \<and> t \<le> begun)"
    if k: "k < length ?ss" for k
  proof -
    have "wf_entry (?es ! k)" using wf k by (simp add: list_all_length entries_of_build(1))
    moreover have "en_schedule (?es ! k) = ?ss ! k" using k entries_of_build(1,2) [of w s now ?ss d] by (metis nth_map)
    ultimately show ?thesis
      using due_now_timed [OF due, of k] k due_now_watched [OF due, of k] built_watched [of k ?ss]
      by (fastforce simp: wf_entry_def entries_of_build(1) watch_state_default_def split: trigger.split)
  qed
  moreover have "map tk_name ts = map (\<lambda>k. sch_name (?ss ! k)) due"
    using run_due_keeps [OF ran] kept range due_is by (auto simp: entries_of_build(1))
  moreover have "run_all w duckdb counts s (map (\<lambda>k. ?ss ! k) due) d = (map tk_outcome ts, d2)"
    using run_due_scheduled [OF ran] range due_is by (auto simp: entries_of_build(1))
  moreover have "summary_failed ts > 0 \<longleftrightarrow> (\<exists>t\<in>set ts. tk_outcome t \<noteq> Succeeded)"
    by (auto simp: summary_failed_def outcome_is_ok_def filter_empty_conv)
  moreover have "sorted_wrt (<) due" "set due \<subseteq> {..<length ?ss}" using range by (auto simp: entries_of_build(1))
  ultimately show ?thesis
    using start released_lock_is_free [OF assms(3), where you = you]
    by (intro exI [of _ "\<lparr> sd_code = (if summary_failed ts > 0 then CLI_FAILED else CLI_OK), sd_summary = ts,
      sd_disk = d2, sd_machine = c5, sd_lock = lock_drop (lw_windows lw) (lw_status_stays lw) (lw_file_stays lw) l1 \<rparr>"] exI [of _ due]) auto
qed

section \<open>An example\<close>

definition idle_schedule :: schedule where
  "idle_schedule = sample_schedule\<lparr> sch_pipeline := ''idle.json'' \<rparr>"

definition idle_schedules :: schedule_file where
  "idle_schedules = schedule_file_default\<lparr> sf_schedules := [idle_schedule] \<rparr>"

definition lock_of_work :: lock_world where
  "lock_of_work = \<lparr> lw_windows = False, lw_path = ''/work/.etl/scheduler.lock'', lw_me = \<lparr> ho_pid = 1, ho_host = [], ho_since = [] \<rparr>,
     lw_faults = no_faults, lw_status_stays = False, lw_file_stays = False \<rparr>"

definition ticking :: "int watch_machine" where
  "ticking = \<lparr> wm_now = (\<lambda>c. (c, c + 100)), wm_sleep = (\<lambda>n c. c + int n), wm_look = (\<lambda>_ c. ((None, None), c)) \<rparr>"

lemma idle_schedule_settings: "for_schedule idle_schedule command_settings = command_settings"
  "pipeline_in idle_schedule ''/work'' = ''/work/idle.json''" "workspace_root command_world command_settings = ''/work''"
  by (simp_all add: for_schedule_def idle_schedule_def sample_schedule_def command_settings_def settings_default_def
    pipeline_in_def is_absolute_def Watch_Poll.path_join_def workspace_root_def starts_with_def ends_with_def)

lemma idle_run_scheduled: "fst (run_scheduled command_world idle_schedule None False command_settings command_disk) = Succeeded"
  by (simp add: run_scheduled_agrees idle_schedule_settings command_succeeds Let_def)

theorem one_pass_of_the_scheduler_witness:
  "\<exists>r. command_schedule_start 1 command_world lock_of_work ticking idle_schedules False True None False command_settings
      command_disk 0 lock_empty = Some r \<and> map tk_name (sd_summary r) = [''hourly''] \<and> sd_code r = CLI_OK"
proof -
  have enabled: "enabled_schedules idle_schedules = [idle_schedule]"
    by (simp add: enabled_schedules_def idle_schedules_def idle_schedule_def sample_schedule_def)
  have "last_run_of command_world command_settings command_disk idle_schedule = None"
  proof -
    have "command_disk (history_path (cli_runs_dir command_world command_settings) k) = None" for k
      by (simp add: cli_runs_dir_def idle_schedule_settings command_disk_def Exec_World.path_join_def
        RUNS_DIR_def history_path_def starts_with_def ends_with_def)
    then have "(case history_recent (wd_parse_record command_world) fails (cli_runs_dir command_world command_settings) k 1 command_disk of
        Inr (r # _) \<Rightarrow> from_rfc3339 (rr_started r) | _ \<Rightarrow> None) = None" for k fails
      by (cases "check_key k") (simp_all add: history_recent_def history_read_def)
    then show ?thesis by (simp add: last_run_of_def Let_def Option.bind_eq_None_conv)
  qed
  then have next_is: "en_next (build_scheduler command_world command_settings 0 [idle_schedule] command_disk ! 0) = Some 60"
    by (simp add: build_scheduler_def entry_new_def) (simp add: idle_schedule_def sample_schedule_def)
  have wf: "list_all (\<lambda>sch. wf_trigger (sch_trigger sch)) [idle_schedule]"
    by (simp add: wf_trigger_def idle_schedule_def sample_schedule_def wf_interval_def MAX_SECONDS_def)
  have trigger: "sch_trigger idle_schedule = TEvery \<lparr> iv_seconds = 60, iv_text = ''1m'' \<rparr>"
    by (simp add: idle_schedule_def sample_schedule_def)
  obtain l1 where lock: "lock_acquire (lw_windows lock_of_work) (lw_path lock_of_work) False (lw_me lock_of_work)
      (lw_faults lock_of_work) lock_empty = (Inr (), l1)"
    by (simp add: lock_acquire_def lock_of_work_def lock_empty_def open_exclusive_def no_faults_def)
  have clock: "wm_now ticking 0 = (0, 100)" "wm_now ticking 100 = (100, 200)" "wm_now ticking 200 = (200, 300)"
    by (simp_all add: ticking_def)
  have "[idle_schedule] \<noteq> []" by simp
  from one_pass_of_the_scheduler [where f = idle_schedules and w = command_world and s = command_settings
      and d = command_disk and fuel = 0 and duckdb = None and counts = False and you = "lw_me lock_of_work", unfolded enabled, OF this wf lock clock]
  obtain r due where r: "command_schedule_start (Suc 0) command_world lock_of_work ticking idle_schedules False True
      None False command_settings command_disk 0 lock_empty = Some r" "sorted_wrt (<) due" "set due \<subseteq> {..<1}" "0 \<in> set due"
    "map tk_name (sd_summary r) = map (\<lambda>k. sch_name ([idle_schedule] ! k)) due"
    "run_all command_world None False command_settings (map (\<lambda>k. [idle_schedule] ! k) due) command_disk =
      (map tk_outcome (sd_summary r), sd_disk r)"
    "sd_code r = (if \<exists>t\<in>set (sd_summary r). tk_outcome t \<noteq> Succeeded then CLI_FAILED else CLI_OK)"
    using next_is by (auto simp: trigger)
  have "due = [0]" using r(2-4) by (cases due; cases "tl due") auto
  with r(1,5-7) idle_run_scheduled show ?thesis
    by (auto simp: idle_schedule_def sample_schedule_def split: prod.splits)
qed

end
