(* ===== verification/Cli_Commands.thy ===== *)
theory Cli_Commands
  imports Cli_Run
begin

text \<open>
  The commands of \<^verbatim>\<open>etl\<close> that look at a pipeline or a workspace, or change what it keeps
  (\<^verbatim>\<open>crates/cli/src/main.rs\<close>): their exit codes, the lines they print on standard output where those
  are plain text, and the files they leave. The theorems: a secret that was stored is the one a run
  gets, however it was typed, and forgetting a source forgets that source.
\<close>

section \<open>Looking at a pipeline\<close>

definition command_validate :: "cli_world \<Rightarrow> str \<Rightarrow> settings \<Rightarrow> disk \<Rightarrow> nat \<times> str list" where
  "command_validate w pipeline s d = (case load_and_compile w s pipeline d of
     Inl ec \<Rightarrow> (ec, [])
   | Inr l \<Rightarrow> (CLI_OK,
       [pipeline @ '' is valid: '' @ show_nat (length (pl_stages (ld_plan l))) @ '' stage(s), '' @
          show_nat (length (plan_sinks (ld_plan l))) @ '' sink(s)''] @
       (let used = rp_used (ld_resolved l)
        in if used = [] then []
           else [[], ''Resolved:''] @ map (\<lambda>(reference, v). ''  ${'' @ reference @ ''} = '' @ v) used)))"

definition kind_debug :: "stage_kind \<Rightarrow> str" where
  "kind_debug k = (case k of
     StSource \<Rightarrow> ''Source'' | StTransform \<Rightarrow> ''Transform'' | StSink \<Rightarrow> ''Sink''
   | StQuality \<Rightarrow> ''Quality'' | StControl \<Rightarrow> ''Control'')"

definition stage_listing :: "resolved_params \<Rightarrow> nat \<Rightarrow> stage \<Rightarrow> str list" where
  "stage_listing resolved at st =
     [show_nat (at + 1) @ ''. '' @ st_label st @ '' ['' @ st_component_id st @ ''] '' @ kind_debug (st_kind st)] @
     map (\<lambda>line. ''     '' @ line) (text_lines (resolved_redact resolved (st_sql st))) @ [[]]"

fun stage_listings :: "resolved_params \<Rightarrow> nat \<Rightarrow> stage list \<Rightarrow> str list" where
  "stage_listings resolved at [] = []"
| "stage_listings resolved at (st # sts) = stage_listing resolved at st @ stage_listings resolved (at + 1) sts"

definition command_plan :: "cli_world \<Rightarrow> str \<Rightarrow> bool \<Rightarrow> bool \<Rightarrow> settings \<Rightarrow> disk \<Rightarrow> nat \<times> str list" where
  "command_plan w pipeline as_script counts s d = (case load_and_compile w s pipeline d of
     Inl ec \<Rightarrow> (ec, [])
   | Inr l \<Rightarrow> (CLI_OK,
       if as_script then [resolved_redact (ld_resolved l) (plan_script (ld_plan l) counts)]
       else stage_listings (ld_resolved l) 0 (pl_stages (ld_plan l))))"

definition external_line :: "resolved_params \<Rightarrow> external_end \<Rightarrow> str" where
  "external_line resolved e = ''  '' @ resolved_redact resolved (ex_name e) @ ''  ('' @ ex_component_id e @ '')  via '' @ ex_node_id e"

definition flow_line :: "lineage_edge \<Rightarrow> str" where
  "flow_line e = ''  '' @ le_from e @ '' '' @ [CHR 0xE2, CHR 0x86, CHR 0x92] @ '' '' @ le_to e @
     (if le_port e = MAIN_PORT then [] else ''  ['' @ le_port e @ '']'')"

definition lineage_lines :: "resolved_params \<Rightarrow> str \<Rightarrow> lineage \<Rightarrow> str list" where
  "lineage_lines resolved pipeline g =
     [pipeline, [], ''Reads:''] @
     (if lg_inputs g = [] then [''  (nothing outside the pipeline)''] else map (external_line resolved) (lg_inputs g)) @
     [[], ''Writes:''] @
     (if lg_outputs g = [] then [''  (nothing '' @ [CHR 0xE2, CHR 0x80, CHR 0x94] @ '' this pipeline has no sink)'']
      else map (external_line resolved) (lg_outputs g)) @
     [[], ''Flow:''] @ map flow_line (lg_edges g) @
     concat (map (\<lambda>n. case ln_incremental_column n of
         Some column \<Rightarrow> [[], in_quotes (ln_id n) @ '' loads incrementally on '' @ in_quotes column @
           '', so a run reads only what is new.'']
       | None \<Rightarrow> []) (lg_nodes g))"

text \<open>With \<^verbatim>\<open>--json\<close> the lineage is printed by \<^verbatim>\<open>serde_json\<close>, then masked.\<close>

definition command_lineage :: "cli_world \<Rightarrow> (lineage \<Rightarrow> str) \<Rightarrow> str \<Rightarrow> bool \<Rightarrow> settings \<Rightarrow> disk \<Rightarrow> nat \<times> str list" where
  "command_lineage w print pipeline as_json s d = (case load_and_compile w s pipeline d of
     Inl ec \<Rightarrow> (ec, [])
   | Inr l \<Rightarrow>
       (let found = lineage_of (ld_plan l)
        in (CLI_OK, if as_json then [resolved_redact (ld_resolved l) (print found)]
                    else lineage_lines (ld_resolved l) pipeline found)))"

section \<open>Contexts and components\<close>

definition context_line :: "nat \<Rightarrow> str option \<Rightarrow> str \<times> env_context \<Rightarrow> str" where
  "context_line width active entry = (case entry of (name, c) \<Rightarrow>
     (if active = Some name then ''*'' else '' '') @ '' '' @ pad_right width name @ ''  '' @
     show_nat (length (ec_variables c)) @ '' variable(s)'' @
     (case ec_description c of Some t \<Rightarrow> ''  '' @ t | None \<Rightarrow> []))"

definition command_contexts :: "cli_world \<Rightarrow> settings \<Rightarrow> disk \<Rightarrow> nat \<times> str list" where
  "command_contexts w s d = (case contexts_file_of w s d of
     Inl _ \<Rightarrow> (CLI_USAGE, [])
   | Inr f \<Rightarrow>
       if cf_contexts f = [] then (CLI_OK, [''No contexts defined. Create '' @ contexts_path w s @ '' to add some.''])
       else let width = foldr max (map char_count (contexts_names f)) 0
            in (CLI_OK, map (context_line width (cf_active f)) (cf_contexts f) @
                 [[], show_nat (length (cf_contexts f)) @ '' context(s); * is active'']))"

definition component_line :: "nat \<Rightarrow> component_spec \<Rightarrow> str" where
  "component_line width c =
     (let required = map pp_name (filter pp_required (cs_properties c))
      in ''  '' @ pad_right width (cs_id c) @ ''  '' @ cs_label c @
         (if required = [] then [] else ''  (needs '' @ join_with '', '' required @ '')''))"

text \<open>\<^verbatim>\<open>--manifest\<close> prints what the registry says of itself, through \<^verbatim>\<open>serde_json\<close>.\<close>

definition command_components :: "component_spec list \<Rightarrow> (component_spec list \<Rightarrow> str) \<Rightarrow> str option \<Rightarrow> bool \<Rightarrow> nat \<times> str list" where
  "command_components specs print asked as_manifest =
     (if as_manifest then (CLI_OK, [print specs])
      else if (case asked of Some p \<Rightarrow> namespace_from_prefix p = None | None \<Rightarrow> False) then (CLI_USAGE, [])
      else let selected = filter (\<lambda>c. case asked of Some p \<Rightarrow> namespace_prefix (cs_namespace c) = p | None \<Rightarrow> True) specs;
               width = foldr max (map (\<lambda>c. char_count (cs_id c)) selected) 0
           in (CLI_OK, map (component_line width) selected @ [[], show_nat (length selected) @ '' component(s)'']))"

section \<open>State\<close>

definition state_lines :: "str \<Rightarrow> pipeline_state \<Rightarrow> (json \<Rightarrow> str) \<Rightarrow> str list" where
  "state_lines key stored show = [key] @
     (if state_is_empty stored then [''  (nothing remembered)''] else []) @
     map (\<lambda>(node, m). ''  '' @ node @ ''  '' @ wm_column m @ '' = '' @ wm_value m @ ''  (at '' @ wm_at m @ '')'') (ps_watermarks stored) @
     map (\<lambda>(node, c). ''  '' @ node @ ''  '' @ cp_component c @ '' position '' @ show (cp_value c) @ ''  (at '' @ cp_at c @ '')'')
       (ps_checkpoints stored)"

fun state_listing :: "cli_world \<Rightarrow> settings \<Rightarrow> (json \<Rightarrow> str) \<Rightarrow> str list \<Rightarrow> disk \<Rightarrow> nat \<times> str list" where
  "state_listing w s show [] d = (CLI_OK, [])"
| "state_listing w s show (key # keys) d = (case cli_load_state w s key d of
     Inl _ \<Rightarrow> (CLI_INVALID, [])
   | Inr stored \<Rightarrow> (case state_listing w s show keys d of (ec, lines) \<Rightarrow> (ec, state_lines key stored show @ lines)))"

definition command_state_list :: "cli_world \<Rightarrow> settings \<Rightarrow> (json \<Rightarrow> str) \<Rightarrow> (state_error + str list option) \<Rightarrow> str option \<Rightarrow> disk
    \<Rightarrow> nat \<times> str list" where
  "command_state_list w s show entries key d =
     (case (case key of Some one \<Rightarrow> Inr [one] | None \<Rightarrow> state_keys entries) of
        Inl _ \<Rightarrow> (CLI_USAGE, [])
      | Inr keys \<Rightarrow>
          if keys = [] then (CLI_OK, [''No pipeline in this workspace has run incrementally yet.''])
          else state_listing w s show keys d)"

text \<open>A command that changes files: its exit code, what it prints on standard output, and the files.\<close>

type_synonym changing = "nat \<times> str list \<times> disk"

definition save_forgotten :: "cli_world \<Rightarrow> settings \<Rightarrow> str \<Rightarrow> pipeline_state \<Rightarrow> str list \<Rightarrow> disk \<Rightarrow> changing" where
  "save_forgotten w s key stored said d =
     (case state_save (wd_print_state w) (wd_state_dir_fails w) (wd_state_write w) (wd_state_rename_fails w)
          (cli_state_dir w s) key stored d of
        (Inr _, d') \<Rightarrow> (CLI_OK, said, d') | (Inl _, d') \<Rightarrow> (CLI_FAILED, said, d'))"

definition command_state_forget :: "cli_world \<Rightarrow> settings \<Rightarrow> str \<Rightarrow> str option \<Rightarrow> disk \<Rightarrow> changing" where
  "command_state_forget w s key node d = (case cli_load_state w s key d of
     Inl _ \<Rightarrow> (CLI_INVALID, [], d)
   | Inr stored \<Rightarrow>
       (case node of
          Some n \<Rightarrow>
            (let (had, stored') = state_forget n stored
             in if \<not> had then (CLI_OK, [in_quotes n @ '' had no watermark or position in '' @ in_quotes key @ ''.''], d)
                else save_forgotten w s key stored'
                  [''Forgot '' @ in_quotes n @ '' in '' @ in_quotes key @ ''. Its next run reads from the start.''] d)
        | None \<Rightarrow> save_forgotten w s key (state_forget_all stored)
            [''Forgot every watermark and position in '' @ in_quotes key @ ''.''] d))"

section \<open>Secrets\<close>

text \<open>The byte-order mark as it is in UTF-8, taken off the front; line ends taken off the back.\<close>

definition BOM :: str where "BOM = [CHR 0xEF, CHR 0xBB, CHR 0xBF]"

definition stdin_secret :: "str \<Rightarrow> str" where
  "stdin_secret t = rev (dropWhile (\<lambda>c. c = CHR 0x0A \<or> c = CHR 0x0D) (rev (trim_start_matches BOM t)))"

text \<open>What the secret store is given by the machine: fresh bytes, its printer, and whether a file can be written.\<close>

record secret_world =
  sx_fresh_key :: bytes
  sx_nonce :: bytes
  sx_encrypt :: encryptor
  sx_print :: "store_file \<Rightarrow> str"
  sx_key_write_fails :: bool
  sx_store_write_fails :: bool

definition command_secret_init :: "cli_world \<Rightarrow> secret_world \<Rightarrow> settings \<Rightarrow> disk \<Rightarrow> changing" where
  "command_secret_init w sx s d =
     (let existed = has_key (workspace_root w s) d
      in case initialise (sx_fresh_key sx) (sx_key_write_fails sx) (workspace_root w s) d of
           (Inr path, d') \<Rightarrow> (CLI_OK,
             (if existed then [''This workspace already has a key at '' @ path,
                ''Leaving it alone: a new key would not replace the old one, it'',
                ''would make every existing secret permanently unreadable.'']
              else [''Created '' @ path, [], ''Back this file up somewhere safe and keep it out of version'',
                ''control. Without it the secrets in this workspace cannot be'', ''read, by you or by anyone else.'']), d')
         | (Inl _, d') \<Rightarrow> (CLI_USAGE, [], d'))"

text \<open>The value is the argument, or what standard input was read as; it fails before the store is opened.\<close>

definition secret_given :: "str option \<Rightarrow> bool \<Rightarrow> str option \<Rightarrow> str option" where
  "secret_given value stdin input =
     (if stdin then map_option stdin_secret input else Some (case value of Some v \<Rightarrow> v | None \<Rightarrow> []))"

definition command_secret_set :: "cli_world \<Rightarrow> secret_world \<Rightarrow> settings \<Rightarrow> str \<Rightarrow> str option \<Rightarrow> bool \<Rightarrow> str option \<Rightarrow> str option
    \<Rightarrow> disk \<Rightarrow> changing" where
  "command_secret_set w sx s name value stdin input description d =
     (case secret_given value stdin input of
        None \<Rightarrow> (CLI_USAGE, [], d)
      | Some v \<Rightarrow>
          (case open_store (sx_fresh_key sx) (sx_key_write_fails sx) (wd_parse_store w) (wd_key_fails w) (wd_store_fails w)
               (workspace_root w s) d of
             (Inl _, d1) \<Rightarrow> (CLI_USAGE, [], d1)
           | (Inr store, d1) \<Rightarrow>
               (case secret_set (sx_encrypt sx) (sx_nonce sx) name v description store of
                  Inl _ \<Rightarrow> (CLI_USAGE, [], d1)
                | Inr store' \<Rightarrow>
                    (case secret_save (sx_print sx) (sx_store_write_fails sx) store' d1 of
                       (Inl _, d2) \<Rightarrow> (CLI_USAGE, [], d2)
                   | (Inr _, d2) \<Rightarrow> (CLI_OK, [''Stored '' @ in_quotes name @ ''. Reference it as ${SECRET:'' @ name @ ''}''], d2)))))"

definition command_secret_list :: "cli_world \<Rightarrow> settings \<Rightarrow> disk \<Rightarrow> nat \<times> str list" where
  "command_secret_list w s d =
     (case open_existing (wd_parse_store w) (wd_key_fails w) (wd_store_fails w) (workspace_root w s) d of
        Inl _ \<Rightarrow> (CLI_USAGE, [])
      | Inr store \<Rightarrow>
          if secret_is_empty store then (CLI_OK, [''This workspace holds no secrets.''])
          else let width = foldr max (map char_count (secret_names store)) 0
               in (CLI_OK, map (\<lambda>name. ''  '' @ pad_right width name @ ''  '' @
                    (case secret_description store name of Some t \<Rightarrow> t | None \<Rightarrow> [])) (secret_names store) @
                    [[], show_nat (length (secret_names store)) @ '' secret(s)'']))"

definition command_secret_remove :: "cli_world \<Rightarrow> secret_world \<Rightarrow> settings \<Rightarrow> str \<Rightarrow> disk \<Rightarrow> changing" where
  "command_secret_remove w sx s name d =
     (case open_existing (wd_parse_store w) (wd_key_fails w) (wd_store_fails w) (workspace_root w s) d of
        Inl _ \<Rightarrow> (CLI_USAGE, [], d)
      | Inr store \<Rightarrow>
          (let (had, store') = secret_remove name store
           in if \<not> had then (CLI_USAGE, [], d)
              else (case secret_save (sx_print sx) (sx_store_write_fails sx) store' d of
                      (Inl _, d') \<Rightarrow> (CLI_USAGE, [], d') | (Inr _, d') \<Rightarrow> (CLI_OK, [''Removed '' @ in_quotes name], d'))))"

section \<open>Runs\<close>

text \<open>A number of milliseconds as seconds with two decimals, which the source leaves to floating point.\<close>

type_synonym seconds = "nat \<Rightarrow> str"

definition rows_text :: "nat option \<Rightarrow> str" where
  "rows_text rows = (case rows of Some n \<Rightarrow> show_nat n @ '' rows'' | None \<Rightarrow> ''-'')"

definition run_line :: "seconds \<Rightarrow> run_record \<Rightarrow> str" where
  "run_line secs r = ''  '' @ rr_id r @ ''  '' @ pad_right 9 (run_outcome_name (rr_outcome r)) @ ''  '' @
     pad_left 12 (rows_text (rows_written r)) @ ''  '' @ secs (rr_elapsed_ms r) @ ''s''"

fun runs_listing :: "cli_world \<Rightarrow> settings \<Rightarrow> seconds \<Rightarrow> nat \<Rightarrow> str list \<Rightarrow> disk \<Rightarrow> nat \<times> str list" where
  "runs_listing w s secs limit [] d = (CLI_OK, [])"
| "runs_listing w s secs limit (key # keys) d =
     (case history_recent (wd_parse_record w) (wd_history_read_fails w) (cli_runs_dir w s) key limit d of
        Inl _ \<Rightarrow> (CLI_INVALID, [])
      | Inr records \<Rightarrow>
          (case runs_listing w s secs limit keys d of (ec, rest) \<Rightarrow>
             (ec, [key] @ (if records = [] then [''  (no runs recorded)''] else []) @ map (run_line secs) records @ rest)))"

definition command_runs_list :: "cli_world \<Rightarrow> settings \<Rightarrow> seconds \<Rightarrow> (state_error + str list option) \<Rightarrow> str option \<Rightarrow> nat \<Rightarrow> disk
    \<Rightarrow> nat \<times> str list" where
  "command_runs_list w s secs entries pipeline limit d =
     (case (case pipeline of Some one \<Rightarrow> Inr [one] | None \<Rightarrow> history_keys entries) of
        Inl _ \<Rightarrow> (CLI_USAGE, [])
      | Inr keys \<Rightarrow>
          if keys = [] then (CLI_OK, [''No pipeline in this workspace has run yet.''])
          else runs_listing w s secs limit keys d)"

definition run_lines :: "seconds \<Rightarrow> run_record \<Rightarrow> str list" where
  "run_lines secs r =
     (let width = foldr max (map (\<lambda>st. char_count (sr_label st)) (run_record.rr_stages r)) 0
      in [rr_id r @ ''  '' @ rr_pipeline r] @
         (case rr_path r of Some path \<Rightarrow> [''  document   '' @ path] | None \<Rightarrow> []) @
         [''  started    '' @ rr_started r, ''  elapsed    '' @ secs (rr_elapsed_ms r) @ ''s'',
          ''  outcome    '' @ run_outcome_name (rr_outcome r)] @
         (if run_record.rr_stages r = [] then []
          else [] # map (\<lambda>st. ''  '' @ pad_right width (sr_label st) @ ''  '' @
              pad_left 12 (case sr_skipped st of Some reason \<Rightarrow> reason | None \<Rightarrow> rows_text (sr_rows st)) @ ''  '' @
              sr_component_id st) (run_record.rr_stages r)) @
         map (\<lambda>m. case wr_value m of
             Some v \<Rightarrow> ''  '' @ [CHR 0xC2, CHR 0xB7] @ '' '' @ wr_node_id m @ '' watermark '' @ v
           | None \<Rightarrow> ''  '' @ [CHR 0xC2, CHR 0xB7] @ '' '' @ wr_node_id m @ '' had nothing new'') (run_record.rr_watermarks r) @
         map (\<lambda>note. ''  '' @ [CHR 0xC2, CHR 0xB7] @ '' '' @ note) (run_record.rr_notes r) @
         map (\<lambda>t. ''  '' @ [CHR 0xE2, CHR 0x9A, CHR 0xA0] @ '' '' @ t) (run_record.rr_warnings r) @
         map (\<lambda>t. ''  ! '' @ t) (run_record.rr_failures r))"

definition command_runs_show :: "cli_world \<Rightarrow> settings \<Rightarrow> seconds \<Rightarrow> (run_record \<Rightarrow> str) \<Rightarrow> (state_error + str list option)
    \<Rightarrow> str \<Rightarrow> bool \<Rightarrow> disk \<Rightarrow> nat \<times> str list" where
  "command_runs_show w s secs print entries i as_json d =
     (case history_find (wd_parse_record w) (wd_history_read_fails w) (cli_runs_dir w s) entries None i d of
        Inl _ \<Rightarrow> (CLI_INVALID, [])
      | Inr None \<Rightarrow> (CLI_USAGE, [])
      | Inr (Some r) \<Rightarrow> (CLI_OK, if as_json then [print r] else run_lines secs r))"

definition command_runs_prune :: "cli_world \<Rightarrow> settings \<Rightarrow> bool \<Rightarrow> str \<Rightarrow> nat \<Rightarrow> disk \<Rightarrow> changing" where
  "command_runs_prune w s rename_fails pipeline keep d =
     (case history_prune (wd_print_record w) (wd_parse_record w) (wd_history_read_fails w) (wd_history_write w) rename_fails
          (cli_runs_dir w s) pipeline keep d of
        (Inl _, d') \<Rightarrow> (CLI_FAILED, [], d')
      | (Inr dropped, d') \<Rightarrow> (CLI_OK,
          [if dropped = 0 then in_quotes pipeline @ '' has '' @ show_nat keep @ '' or fewer runs recorded; nothing dropped.''
           else ''Dropped '' @ show_nat dropped @ '' run(s) from '' @ in_quotes pipeline @ '', keeping the most recent '' @
             show_nat keep @ ''.''], d'))"

section \<open>Forgetting\<close>

lemma saved_state_loads:
  assumes "save_forgotten w s key st said d = (ec, printed, d')" "check_key key = Inr ()" "wf_state st" "\<not> wd_state_read_fails w"
    and "\<forall>st. wf_state st \<longrightarrow> wd_parse_state w (wd_print_state w st @ [CHR 0x0A]) = Some st"
  shows "(ec = CLI_OK \<longrightarrow> cli_load_state w s key d' = Inr (st\<lparr> ps_format_version := STATE_FORMAT_VERSION \<rparr>)) \<and>
    (ec \<noteq> CLI_OK \<longrightarrow> cli_load_state w s key d' = cli_load_state w s key d) \<and>
    (\<forall>other. other \<noteq> key \<longrightarrow> cli_load_state w s other d' = cli_load_state w s other d)"
proof -
  let ?saved = "state_save (wd_print_state w) (wd_state_dir_fails w) (wd_state_write w) (wd_state_rename_fails w)
     (cli_state_dir w s) key st d"
  let ?path = "path_for (cli_state_dir w s)"
  have kept: "cli_load_state w s k d' = cli_load_state w s k d" if "d' (?path k) = d (?path k)" for k
    using that by (simp add: cli_load_state_def state_load_def)
  show ?thesis
  proof (cases "fst ?saved")
    case (Inl e)
    then have out: "?saved = (Inl e, d')" "ec = CLI_FAILED"
      using assms(1) by (cases ?saved; auto simp: save_forgotten_def)+
    from failed_save_keeps [OF out(1)] show ?thesis by (simp add: out(2) kept)
  next
    case (Inr u)
    let ?body = "wd_print_state w (st\<lparr> ps_format_version := STATE_FORMAT_VERSION \<rparr>) @ [CHR 0x0A]"
    have out: "?saved = (Inr u, d')" "ec = CLI_OK"
      using assms(1) Inr by (cases ?saved; auto simp: save_forgotten_def)+
    then have disk: "d' = (d(?path key @ ''.tmp'' := None))(?path key \<mapsto> ?body)"
      using assms(2) by (auto simp: state_save_def Let_def temporary_path split: if_splits write_result.splits)
    have "wf_state (st\<lparr> ps_format_version := STATE_FORMAT_VERSION \<rparr>)" using assms(3) by (simp add: wf_state_def)
    with assms(5) have "wd_parse_state w ?body = Some (st\<lparr> ps_format_version := STATE_FORMAT_VERSION \<rparr>)" by simp
    then have "cli_load_state w s key d' = Inr (st\<lparr> ps_format_version := STATE_FORMAT_VERSION \<rparr>)"
      using assms(2,4) by (simp add: cli_load_state_def state_load_def disk)
    moreover have "d' (?path other) = d (?path other)" if "other \<noteq> key" for other
      using that temporary_fresh [of "cli_state_dir w s" key other] by (auto simp: disk path_for_inj)
    ultimately show ?thesis using kept by (simp add: out(2))
  qed
qed

lemma loaded_state_key:
  assumes "cli_load_state w s key d = Inr st" "\<forall>t st. wd_parse_state w t = Some st \<longrightarrow> wf_state st"
  shows "check_key key = Inr () \<and> wf_state st"
  using assms by (auto simp: cli_load_state_def load_never_guesses wf_state_def pipeline_state_default_def
    split: option.splits)

text \<open>
  Forgetting a source of a pipeline forgets its watermark and its position, and what is remembered
  of its other sources, and of every other pipeline, is as it was; without a source, everything the
  pipeline remembers is forgotten. A command that fails has changed nothing that is remembered.
  (\<^verbatim>\<open>serde_json\<close> is relied on to read back what it printed, and to read maps as maps.)
\<close>

lemma forgetting_is_selective:
  assumes "command_state_forget w s key node d = (ec, printed, d')" "\<not> wd_state_read_fails w"
    and "\<forall>t st. wd_parse_state w t = Some st \<longrightarrow> wf_state st"
    and "\<forall>st. wf_state st \<longrightarrow> wd_parse_state w (wd_print_state w st @ [CHR 0x0A]) = Some st"
  shows "(\<forall>other. other \<noteq> key \<longrightarrow> cli_load_state w s other d' = cli_load_state w s other d) \<and>
    (if ec = CLI_OK
     then \<exists>before after. cli_load_state w s key d = Inr before \<and> cli_load_state w s key d' = Inr after \<and>
       (\<forall>n. let forgotten = node = None \<or> node = Some n
            in state_watermark after n = (if forgotten then None else state_watermark before n) \<and>
               state_checkpoint after n = (if forgotten then None else state_checkpoint before n))
     else cli_load_state w s key d' = cli_load_state w s key d)"
proof (cases "cli_load_state w s key d")
  case (Inl e)
  with assms(1) show ?thesis by (simp add: command_state_forget_def)
next
  case (Inr st)
  from loaded_state_key [OF Inr assms(3)] have ok: "check_key key = Inr ()" "wf_state st" by simp_all
  note laws = watermark_laws [OF ok(2)]
  note saved = saved_state_loads [OF _ ok(1) _ assms(2,4)]
  have marks: "state_watermark (x\<lparr> ps_format_version := v \<rparr>) n = state_watermark x n"
    "state_checkpoint (x\<lparr> ps_format_version := v \<rparr>) n = state_checkpoint x n" for x v n
    by (simp_all add: state_watermark_def state_checkpoint_def)
  show ?thesis
  proof (cases node)
    case None
    have cleared: "wf_state (state_forget_all st)" "state_watermark (state_forget_all st) n = None"
      "state_checkpoint (state_forget_all st) n = None" for n
      by (simp_all add: state_forget_all_def wf_state_def state_watermark_def state_checkpoint_def om_ok_def om_get_def)
    from assms(1) obtain said where "save_forgotten w s key (state_forget_all st) said d = (ec, printed, d')"
      by (simp add: command_state_forget_def Inr None)
    from saved [OF this cleared(1)] show ?thesis by (simp add: None Inr marks cleared)
  next
    case (Some n)
    show ?thesis
    proof (cases "fst (state_forget n st)")
      case True
      then obtain said where "save_forgotten w s key (snd (state_forget n st)) said d = (ec, printed, d')"
        using assms(1) by (simp add: command_state_forget_def Inr Some split: prod.splits)
      from saved [OF this state_ops_wf(4) [OF ok(2)]] show ?thesis by (simp add: Some Inr marks laws)
    next
      case False
      then have same: "ec = CLI_OK" "d' = d"
        using assms(1) by (simp_all add: command_state_forget_def Inr Some split: prod.splits)
      from False laws have "state_watermark st n = None" "state_checkpoint st n = None" by auto
      then show ?thesis by (simp add: same Inr Some)
    qed
  qed
qed

section \<open>A stored secret\<close>

lemma key_is_not_store: "store_path root \<noteq> key_path root"
  by (simp add: store_path_def key_path_def Watch_Poll.path_join_def STORE_PATH_def KEY_PATH_def)

lemma open_existing_Inr:
  assumes "open_existing parse key_fails store_fails root d = Inr store"
  shows "has_key root d \<and> read_key key_fails (key_path root) d = Inr (ss_key store) \<and> ss_workspace store = root"
  using assms by (auto simp: open_existing_def and_then_eq_Inr_iff split: if_splits)

lemma saved_store_opens:
  assumes "open_existing parse key_fails store_fails root d = Inr store" "\<not> store_fails"
    and "ss_workspace store' = root" "ss_key store' = ss_key store"
    and "secret_save print write_fails store' d = (Inr (), d')"
    and "parse (print (ss_file store') @ [CHR 0x0A]) = Some (ss_file store')"
  shows "has_key root d' \<and> open_existing parse key_fails store_fails root d' = Inr store'"
proof -
  have disk: "d' = d(store_path root \<mapsto> print (ss_file store') @ [CHR 0x0A])"
    using assms(5) by (simp add: secret_save_def Let_def assms(3) split: if_splits)
  from open_existing_Inr [OF assms(1)] have "has_key root d" "read_key key_fails (key_path root) d = Inr (ss_key store)"
    by simp_all
  then have "has_key root d'" "read_key key_fails (key_path root) d' = Inr (ss_key store)"
    using key_is_not_store [of root] by (auto simp: has_key_def read_key_def disk)
  then show ?thesis using assms(2,3,4,6) by (simp add: open_existing_def disk)
qed

text \<open>
  When \<^verbatim>\<open>etl secret set\<close> exits with 0, a command run afterwards in the same workspace gets the
  value that was given (as an argument, or on standard input without a byte-order mark at the front and
  line ends at the back) for that name, and what it got before for every other. (The cipher is relied on
  to decrypt what it encrypted, \<^verbatim>\<open>serde_json\<close> to read back what it printed; a nonce is 12 bytes.)
\<close>

lemma stored_secret_is_used:
  assumes "command_secret_set w sx s name typed stdin piped description d = (CLI_OK, printed, d')"
    and "length (sx_nonce sx) = 12" "\<not> wd_store_fails w" "rv_secrets r = None"
    and "\<forall>key aad m c. sx_encrypt sx key (sx_nonce sx) aad m = Some c \<longrightarrow> wd_decrypt w key (sx_nonce sx) aad c = Some m"
    and "\<forall>f. wd_parse_store w (sx_print sx f @ [CHR 0x0A]) = Some f"
  shows "\<exists>v src. secret_given typed stdin piped = Some v \<and>
    with_secrets w (workspace_root w s) d' r = Inr (r\<lparr> rv_secrets := Some src \<rparr>) \<and> ss_get src name = Inr (Some v) \<and>
    (\<forall>other before. other \<noteq> name \<and> with_secrets w (workspace_root w s) d r = Inr (r\<lparr> rv_secrets := Some before \<rparr>)
       \<longrightarrow> ss_get src other = ss_get before other)"
proof -
  let ?root = "workspace_root w s"
  let ?open = "open_existing (wd_parse_store w) (wd_key_fails w) (wd_store_fails w) ?root"
  from assms(1) obtain v d1 store store' where v: "secret_given typed stdin piped = Some v"
    and opened: "open_store (sx_fresh_key sx) (sx_key_write_fails sx) (wd_parse_store w) (wd_key_fails w)
        (wd_store_fails w) ?root d = (Inr store, d1)"
    and set: "secret_set (sx_encrypt sx) (sx_nonce sx) name v description store = Inr store'"
    and saved: "secret_save (sx_print sx) (sx_store_write_fails sx) store' d1 = (Inr (), d')"
    by (auto simp: command_secret_set_def split: option.splits sum.splits prod.splits)
  from opened have first: "?open d1 = Inr store" "has_key ?root d \<Longrightarrow> d1 = d"
    by (auto simp: open_store_def initialise_def has_key_def Let_def split: if_splits prod.splits sum.splits)
  from set have place: "ss_workspace store' = ?root" "ss_key store' = ss_key store"
    using open_existing_Inr [OF first(1)] by (auto elim: secret_set_Inr)
  from saved_store_opens [OF first(1) assms(3) place saved] assms(6)
  have after: "has_key ?root d'" "?open d' = Inr store'" by simp_all
  let ?src = "store_source w store'"
  have now: "with_secrets w ?root d' r = Inr (r\<lparr> rv_secrets := Some ?src \<rparr>)" by (simp add: with_secrets_def after)
  have got: "secret_get (wd_decrypt w) other store' = (if other = name then Inr (Some v) else secret_get (wd_decrypt w) other store)"
    for other using set_then_get [OF set assms(2), where decrypt = "wd_decrypt w"] assms(5) by blast
  have "ss_get ?src name = Inr (Some v)" by (simp add: store_source_def got)
  moreover have "ss_get ?src other = ss_get before other"
    if "other \<noteq> name" "with_secrets w ?root d r = Inr (r\<lparr> rv_secrets := Some before \<rparr>)" for other before
  proof -
    have keyed: "has_key ?root d"
      using that(2) assms(4) by (auto simp: with_secrets_def dest: arg_cong [where f = rv_secrets] split: if_splits)
    with first have "?open d = Inr store" by simp
    with keyed that(2) have "r\<lparr> rv_secrets := Some (store_source w store) \<rparr> = r\<lparr> rv_secrets := Some before \<rparr>"
      by (simp add: with_secrets_def)
    then have "before = store_source w store" by (auto dest: arg_cong [where f = rv_secrets])
    with that(1) show ?thesis by (simp add: store_source_def got)
  qed
  ultimately show ?thesis using v now by blast
qed

section \<open>Instances\<close>

text \<open>A printer that can be undone for what is counted by an injection, in unary.\<close>

definition unary_print :: "('a \<Rightarrow> nat) \<Rightarrow> 'a \<Rightarrow> str" where
  "unary_print number x = replicate (number x) (CHR ''x'')"

definition unary_parse :: "('a \<Rightarrow> nat) \<Rightarrow> str \<Rightarrow> 'a" where
  "unary_parse number t = inv number (length t - 1)"

lemma unary_reads_back: "inj number \<Longrightarrow> unary_parse number (unary_print number x @ [CHR 0x0A]) = x"
  by (simp add: unary_parse_def unary_print_def)

definition file_number :: "store_file \<Rightarrow> nat" where
  "file_number f = to_nat (st_format_version f,
     map (\<lambda>(n, e). (n, se_nonce e, se_ciphertext e, se_description e)) (st_secrets f))"

lemma file_number_inj: "inj file_number"
proof (rule injI)
  fix f f' :: store_file
  assume "file_number f = file_number f'"
  moreover have "inj (\<lambda>(n :: str, e :: secret_entry). (n, se_nonce e, se_ciphertext e, se_description e))"
    by (auto simp: inj_def intro: secret_entry.equality)
  ultimately show "f = f'" by (auto simp: file_number_def inj_map_eq_map intro: store_file.equality)
qed

definition keeping_world :: cli_world where
  "keeping_world = command_world\<lparr>
     wd_parse_state := (\<lambda>t. let st = unary_parse state_number t in if wf_state st then Some st else None),
     wd_print_state := unary_print state_number, wd_parse_store := (\<lambda>t. Some (unary_parse file_number t)),
     wd_decrypt := sample_decrypt \<rparr>"

definition two_sources :: pipeline_state where
  "two_sources = state_advance ''now'' ''b'' ''ts'' ''7'' (state_advance ''now'' ''a'' ''ts'' ''5'' pipeline_state_default)"

definition keeping_disk :: disk where
  "keeping_disk = Map.empty(path_for ''/work/.etl/state'' ''orders'' \<mapsto> unary_print state_number two_sources @ [CHR 0x0A])"

lemma keeping_state_dir: "cli_state_dir keeping_world command_settings = ''/work/.etl/state''"
  by (simp add: cli_state_dir_def workspace_root_def command_settings_def Exec_World.path_join_def STATE_DIR_def
    starts_with_def ends_with_def)

lemma keeping_loads: "cli_load_state keeping_world command_settings ''orders'' keeping_disk = Inr two_sources"
proof -
  have "wf_state two_sources" by (simp add: two_sources_def state_ops_wf)
  moreover have "ps_format_version two_sources = 0"
    by (simp add: two_sources_def state_advance_def pipeline_state_default_def)
  moreover have "\<not> wd_state_read_fails keeping_world"
    "wd_parse_state keeping_world = (\<lambda>t. let st = unary_parse state_number t in if wf_state st then Some st else None)"
    by (simp_all add: keeping_world_def command_world_def)
  moreover have "check_key ''orders'' = Inr ()" by (simp add: check_key_iff)
  moreover have "unary_parse state_number (unary_print state_number two_sources @ NL) = two_sources"
    using unary_reads_back [OF state_number_inj] by simp
  ultimately show ?thesis
    by (simp add: cli_load_state_def keeping_state_dir state_load_def keeping_disk_def Let_def)
qed

lemma forgetting_is_selective_witness:
  "let d' = snd (snd (command_state_forget keeping_world command_settings ''orders'' (Some ''a'') keeping_disk))
   in \<exists>after. cli_load_state keeping_world command_settings ''orders'' d' = Inr after \<and>
        state_watermark after ''a'' = None \<and> state_watermark after ''b'' = state_watermark two_sources ''b''"
proof -
  let ?out = "command_state_forget keeping_world command_settings ''orders'' (Some ''a'') keeping_disk"
  have had: "fst (state_forget ''a'' two_sources)"
    by (simp add: two_sources_def watermark_laws state_ops_wf)
  have saves: "\<not> wd_state_dir_fails keeping_world" "wd_state_write keeping_world = WriteOk"
    "\<not> wd_state_rename_fails keeping_world" by (simp_all add: keeping_world_def command_world_def)
  have "check_key ''orders'' = Inr ()" by (simp add: check_key_iff)
  with had have ok: "fst ?out = CLI_OK"
    by (auto simp: command_state_forget_def keeping_loads save_forgotten_def state_save_def saves Let_def split: prod.splits)
  have "\<not> wd_state_read_fails keeping_world"
    "\<forall>t st. wd_parse_state keeping_world t = Some st \<longrightarrow> wf_state st"
    "\<forall>st. wf_state st \<longrightarrow> wd_parse_state keeping_world (wd_print_state keeping_world st @ [CHR 0x0A]) = Some st"
    by (auto simp: keeping_world_def command_world_def Let_def unary_reads_back [OF state_number_inj] split: if_splits)
  moreover have "?out = (fst ?out, fst (snd ?out), snd (snd ?out))" by simp
  ultimately have "if fst ?out = CLI_OK then \<exists>before after.
      cli_load_state keeping_world command_settings ''orders'' keeping_disk = Inr before \<and>
      cli_load_state keeping_world command_settings ''orders'' (snd (snd ?out)) = Inr after \<and>
      (\<forall>n. let forgotten = Some ''a'' = None \<or> Some ''a'' = Some n
            in state_watermark after n = (if forgotten then None else state_watermark before n) \<and>
               state_checkpoint after n = (if forgotten then None else state_checkpoint before n))
      else cli_load_state keeping_world command_settings ''orders'' (snd (snd ?out)) =
           cli_load_state keeping_world command_settings ''orders'' keeping_disk"
    using forgetting_is_selective [of keeping_world command_settings "''orders''" "Some ''a''" keeping_disk "fst ?out" "fst (snd ?out)" "snd (snd ?out)"]
    by blast
  then show ?thesis by (auto simp: ok keeping_loads Let_def)
qed

definition sample_secrets :: secret_world where
  "sample_secrets = \<lparr> sx_fresh_key = replicate 32 0, sx_nonce = replicate 12 0, sx_encrypt = sample_encrypt,
     sx_print = unary_print file_number, sx_key_write_fails = False, sx_store_write_fails = False \<rparr>"

lemma fresh_key_reads: "read_key False (key_path root) (d(key_path root \<mapsto> to_hex (replicate 32 0) @ [CHR 0x0A])) = Inr (replicate 32 0)"
  by (simp add: read_key_def trim_hex from_hex_to_hex_eq KEY_BYTES_def)

lemma stored_secret_is_used_witness:
  "\<exists>src. with_secrets keeping_world ''/work''
       (snd (snd (command_secret_set keeping_world sample_secrets command_settings ''db'' None True (Some (BOM @ CHR ''p'' # NL)) None
          Map.empty))) (resolver_new [] ''/work'') = Inr ((resolver_new [] ''/work'')\<lparr> rv_secrets := Some src \<rparr>) \<and>
     ss_get src ''db'' = Inr (Some ''p'')"
proof -
  let ?out = "command_secret_set keeping_world sample_secrets command_settings ''db'' None True (Some (BOM @ CHR ''p'' # NL)) None
          Map.empty"
  have root: "workspace_root keeping_world command_settings = ''/work''"
    by (simp add: workspace_root_def command_settings_def)
  have typed: "secret_given None True (Some (BOM @ CHR ''p'' # NL)) = Some ''p''" by code_simp
  have parts: "sx_fresh_key sample_secrets = replicate 32 0" "sx_nonce sample_secrets = replicate 12 0"
    "sx_encrypt sample_secrets = sample_encrypt" "\<not> sx_key_write_fails sample_secrets" "\<not> sx_store_write_fails sample_secrets"
    "\<not> wd_key_fails keeping_world" "\<not> wd_store_fails keeping_world"
    by (simp_all add: sample_secrets_def keeping_world_def command_world_def)
  have "trim ''db'' = ''db''" by (rule trim_id) (simp add: is_whitespace_def)
  then have "fst ?out = CLI_OK"
    using key_is_not_store [of "''/work''"]
    by (simp add: command_secret_set_def typed root parts open_store_def initialise_def open_existing_def has_key_def
      fresh_key_reads secret_set_def sample_encrypt_def secret_save_def Let_def)
  then have out: "?out = (CLI_OK, fst (snd ?out), snd (snd ?out))" by (metis prod.collapse)
  have "\<forall>key aad m c. sx_encrypt sample_secrets key (sx_nonce sample_secrets) aad m = Some c \<longrightarrow>
      wd_decrypt keeping_world key (sx_nonce sample_secrets) aad c = Some m"
    by (auto simp: parts keeping_world_def sample_encrypt_def sample_decrypt_def)
  moreover have "\<forall>f. wd_parse_store keeping_world (sx_print sample_secrets f @ [CHR 0x0A]) = Some f"
    by (simp add: keeping_world_def sample_secrets_def unary_reads_back [OF file_number_inj])
  ultimately show ?thesis
    using stored_secret_is_used [OF out _ parts(7), of "resolver_new [] ''/work''"]
    by (auto simp: typed root parts(2) resolver_new_def)
qed

end
