(* ===== verification/Assist_Pick.thy ===== *)
theory Assist_Pick
  imports Component_Spec
begin

text \<open>
  Which components a request is offered (\<^verbatim>\<open>crates/assistant/src/pick.rs\<close>). The theorems: at most
  \<^verbatim>\<open>MAX_PICKED\<close> are offered, none of them control flow or user code, sources before sinks; a sink is
  always among them, and a source is where few components match. Where many do and none of them is a
  source or a sink, the fallback sinks push out the fallback sources: a request for which no source is
  offered is carried out at the end.
\<close>

section \<open>Words\<close>

text \<open>\<^verbatim>\<open>char::is_alphanumeric\<close> and \<^verbatim>\<open>char::to_lowercase\<close>, up to U+00FF.\<close>

definition is_alphanumeric :: "char \<Rightarrow> bool" where
  "is_alphanumeric c \<longleftrightarrow> is_ascii_alphanumeric c \<or>
     (let n = code c in n \<in> {0xAA, 0xB2, 0xB3, 0xB5, 0xB9, 0xBA, 0xBC, 0xBD, 0xBE} \<or> (0xC0 \<le> n \<and> n \<noteq> 0xD7 \<and> n \<noteq> 0xF7))"

definition lower_char :: "char \<Rightarrow> char" where
  "lower_char c = (if 0xC0 \<le> code c \<and> code c \<le> 0xDE \<and> code c \<noteq> 0xD7 then char_of (code c + 32 :: nat) else ascii_lower c)"

definition MAX_PICKED :: nat where "MAX_PICKED = 8"

definition FALLBACK_SOURCES :: "str list" where "FALLBACK_SOURCES = [''src.file.csv'', ''src.file.parquet'']"

definition FALLBACK_SINKS :: "str list" where "FALLBACK_SINKS = [''snk.file.parquet'', ''snk.file.csv'']"

definition STOPWORDS :: "str list" where
  "STOPWORDS = [''a'', ''an'', ''and'', ''all'', ''as'', ''at'', ''by'', ''each'', ''every'', ''file'', ''files'', ''for'', ''from'',
     ''get'', ''in'', ''into'', ''it'', ''its'', ''load'', ''make'', ''me'', ''of'', ''on'', ''one'', ''out'', ''please'',
     ''put'', ''read'', ''rows'', ''save'', ''send'', ''table'', ''tables'', ''take'', ''that'', ''the'', ''them'',
     ''then'', ''these'', ''this'', ''those'', ''to'', ''with'', ''write'']"

definition SYNONYMS :: "(str \<times> str) list" where
  "SYNONYMS = [(''duplicate'', ''dedup''), (''duplicates'', ''dedup''), (''pg'', ''postgres''), (''mssql'', ''sqlserver''),
     (''azure'', ''sqlserver''), (''where'', ''filter''), (''only'', ''filter''), (''over'', ''filter''), (''above'', ''filter''),
     (''under'', ''filter''), (''below'', ''filter''), (''greater'', ''filter''), (''less'', ''filter''), (''group'', ''aggregate''),
     (''sum'', ''aggregate''), (''count'', ''aggregate''), (''order'', ''sort''), (''rename'', ''rename''), (''columns'', ''select''),
     (''top'', ''limit''), (''first'', ''limit''), (''jsonlines'', ''jsonl''), (''ndjson'', ''jsonl''), (''xlsx'', ''excel''), (''bucket'', ''s3'')]"

definition words_of :: "str \<Rightarrow> str list" where
  "words_of t = filter (\<lambda>word. word \<noteq> [] \<and> word \<notin> set STOPWORDS) (map (map lower_char) (split_on (\<lambda>c. \<not> is_alphanumeric c) t))"

fun add_synonyms :: "(str \<times> str) list \<Rightarrow> str \<Rightarrow> str list \<Rightarrow> str list" where
  "add_synonyms [] word ws = ws"
| "add_synonyms ((said, meant) # rest) word ws =
     add_synonyms rest word (if word = said \<and> meant \<notin> set ws then ws @ [meant] else ws)"

definition add_word :: "str \<Rightarrow> str list \<Rightarrow> str list" where
  "add_word word ws = (let ws = add_synonyms SYNONYMS word ws in if word \<in> set ws then ws else ws @ [word])"

fun add_words :: "str list \<Rightarrow> str list \<Rightarrow> str list" where
  "add_words [] ws = ws"
| "add_words (word # rest) ws = add_words rest (add_word word ws)"

definition request_words :: "str \<Rightarrow> str list" where
  "request_words request = add_words (words_of request) []"

section \<open>Scores\<close>

text \<open>\<^verbatim>\<open>str::len\<close> counts bytes.\<close>

definition byte_length :: "str \<Rightarrow> nat" where
  "byte_length t = sum_list (map (\<lambda>c. if code c < (128 :: nat) then 1 else 2) t)"

definition word_matches :: "str \<Rightarrow> str \<Rightarrow> bool" where
  "word_matches word key \<longleftrightarrow>
     word = key \<or>
     (let (short, long) = (if byte_length word \<le> byte_length key then (word, key) else (key, word))
      in 4 \<le> byte_length short \<and> starts_with long short)"

definition word_score :: "str list \<Rightarrow> str list \<Rightarrow> str list \<Rightarrow> str \<Rightarrow> nat" where
  "word_score ident label description word =
     (if list_ex (word_matches word) ident then 3
      else if list_ex (word_matches word) label then 2
      else if list_ex (word_matches word) description then 1
      else 0)"

definition score :: "str list \<Rightarrow> component_spec \<Rightarrow> nat" where
  "score ws spec =
     (let ident = map (map lower_char) (drop 1 (split_on (\<lambda>c. c = CHR ''.'') (cs_id spec)));
          label = words_of (cs_label spec);
          description = (case cs_description spec of Some d \<Rightarrow> words_of d | None \<Rightarrow> [])
      in sum_list (map (word_score ident label description) ws))"

section \<open>The components offered\<close>

definition offered :: "namespace \<Rightarrow> bool" where
  "offered ns \<longleftrightarrow> ns \<noteq> NsControl \<and> ns \<noteq> NsCode"

definition scored :: "str list \<Rightarrow> component_spec list \<Rightarrow> (nat \<times> nat) list" where
  "scored ws specs = sort_key (\<lambda>x. - int (fst x)) (sort_key snd
     (filter (\<lambda>x. 2 \<le> fst x) (map (\<lambda>(index, spec). (score ws spec, index))
       (filter (\<lambda>(_, spec). offered (cs_namespace spec)) (enumerate 0 specs)))))"

definition fall_back :: "component_spec list \<Rightarrow> namespace \<times> str list \<Rightarrow> component_spec list \<Rightarrow> component_spec list" where
  "fall_back specs choice picked = (case choice of (ns, fallback) \<Rightarrow>
     if list_ex (\<lambda>spec. cs_namespace spec = ns) picked then picked
     else (if length picked + length fallback > MAX_PICKED then take (MAX_PICKED - length fallback) picked else picked) @
       filter (\<lambda>spec. cs_id spec \<in> set fallback) specs)"

definition best :: "str \<Rightarrow> component_spec list \<Rightarrow> component_spec list" where
  "best request specs = map (\<lambda>(_, index). specs ! index) (take MAX_PICKED (scored (request_words request) specs))"

definition reading_order :: "component_spec \<Rightarrow> nat" where
  "reading_order spec = (case cs_namespace spec of NsSource \<Rightarrow> 0 | NsSink \<Rightarrow> 2 | _ \<Rightarrow> 1)"

definition pick :: "str \<Rightarrow> component_spec list \<Rightarrow> component_spec list" where
  "pick request specs = sort_key reading_order
     (foldl (\<lambda>picked choice. fall_back specs choice picked) (best request specs)
       [(NsSource, FALLBACK_SOURCES), (NsSink, FALLBACK_SINKS)])"

section \<open>Facts\<close>

text \<open>What the registry guarantees of the specs: one id each, and the namespace that the id names.\<close>

definition specs_ok :: "component_spec list \<Rightarrow> bool" where
  "specs_ok specs \<longleftrightarrow> distinct (map cs_id specs) \<and>
     (\<forall>spec \<in> set specs. namespace_from_prefix (hd (split_on (\<lambda>c. c = CHR ''.'') (cs_id spec))) = Some (cs_namespace spec))"

lemma fallback_namespace:
  assumes "specs_ok specs" "spec \<in> set specs"
  shows "cs_id spec \<in> set FALLBACK_SOURCES \<Longrightarrow> cs_namespace spec = NsSource"
    "cs_id spec \<in> set FALLBACK_SINKS \<Longrightarrow> cs_namespace spec = NsSink"
  using assms by (auto simp: specs_ok_def FALLBACK_SOURCES_def FALLBACK_SINKS_def namespace_from_prefix_def)

lemma scored_in: "x \<in> set (scored ws specs) \<Longrightarrow> snd x < length specs \<and> offered (cs_namespace (specs ! snd x))"
  by (auto simp: scored_def in_set_enumerate_eq)

lemma best_in: "spec \<in> set (best request specs) \<Longrightarrow> spec \<in> set specs \<and> offered (cs_namespace spec)"
  by (auto simp: best_def dest!: in_set_takeD scored_in)

lemma best_length: "length (best request specs) \<le> MAX_PICKED"
  by (simp add: best_def)

lemma fallback_length:
  assumes "distinct (map cs_id specs)"
  shows "length (filter (\<lambda>spec. cs_id spec \<in> set ids) specs) \<le> length ids"
proof -
  let ?found = "map cs_id (filter (\<lambda>spec. cs_id spec \<in> set ids) specs)"
  have "distinct ?found" using assms by (simp add: distinct_map inj_on_def)
  then have "length ?found = card (set ?found)" by (rule distinct_card [symmetric])
  also have "\<dots> \<le> card (set ids)" by (rule card_mono) auto
  also have "\<dots> \<le> length ids" by (rule card_length)
  finally show ?thesis by simp
qed

lemma fall_back_length:
  assumes "distinct (map cs_id specs)" "length picked \<le> MAX_PICKED" "length fallback \<le> MAX_PICKED"
  shows "length (fall_back specs (ns, fallback) picked) \<le> MAX_PICKED"
  using fallback_length [OF assms(1), of fallback] assms(2,3) by (auto simp: fall_back_def)

lemma fall_back_in: "spec \<in> set (fall_back specs (ns, fallback) picked) \<Longrightarrow> spec \<in> set picked \<or> spec \<in> set specs \<and> cs_id spec \<in> set fallback"
  by (auto simp: fall_back_def dest: in_set_takeD split: if_splits)

lemma fall_back_offers:
  assumes "\<exists>spec \<in> set specs. cs_id spec \<in> set fallback \<and> cs_namespace spec = ns"
  shows "\<exists>spec \<in> set (fall_back specs (ns, fallback) picked). cs_namespace spec = ns"
  using assms by (auto simp: fall_back_def list_ex_iff)

lemma pick_alt: "pick request specs = sort_key reading_order
    (fall_back specs (NsSink, FALLBACK_SINKS) (fall_back specs (NsSource, FALLBACK_SOURCES) (best request specs)))"
  by (simp add: pick_def)

text \<open>A source among what is there is among what the sinks leave of it, unless it is behind the first six.\<close>

lemma sinks_leave:
  "\<exists>spec \<in> set (take 6 picked). cs_namespace spec = ns \<Longrightarrow>
     \<exists>spec \<in> set (fall_back specs (NsSink, FALLBACK_SINKS) picked). cs_namespace spec = ns"
  by (auto simp: fall_back_def FALLBACK_SINKS_def MAX_PICKED_def dest: in_set_takeD)

lemma sink_stays:
  "\<exists>spec \<in> set picked. cs_namespace spec = NsSink \<Longrightarrow> fall_back specs (NsSink, FALLBACK_SINKS) picked = picked"
  by (auto simp: fall_back_def list_ex_iff)

definition few_or_named :: "component_spec list \<Rightarrow> bool" where
  "few_or_named found \<longleftrightarrow> length found \<le> 5 \<or> (\<exists>spec \<in> set (take 6 found). cs_namespace spec \<in> {NsSource, NsSink})"

lemma source_survives:
  assumes "specs_ok specs" "\<exists>spec \<in> set specs. cs_id spec \<in> set FALLBACK_SOURCES" "few_or_named found"
  shows "\<exists>spec \<in> set (fall_back specs (NsSink, FALLBACK_SINKS) (fall_back specs (NsSource, FALLBACK_SOURCES) found)).
    cs_namespace spec = NsSource"
proof (cases "\<exists>spec \<in> set (take 6 found). cs_namespace spec = NsSource")
  case True
  then have "fall_back specs (NsSource, FALLBACK_SOURCES) found = found"
    by (auto simp: fall_back_def list_ex_iff dest: in_set_takeD)
  with True show ?thesis by (simp add: sinks_leave)
next
  case False
  let ?first = "fall_back specs (NsSource, FALLBACK_SOURCES) found"
  let ?sources = "filter (\<lambda>spec. cs_id spec \<in> set FALLBACK_SOURCES) specs"
  have ns: "\<forall>spec \<in> set ?sources. cs_namespace spec = NsSource" using fallback_namespace(1) [OF assms(1)] by auto
  have some: "?sources \<noteq> []" using assms(2) by (auto simp: filter_empty_conv)
  have any: "\<exists>spec \<in> set ?first. cs_namespace spec = NsSource"
    by (rule fall_back_offers) (use assms(2) ns in auto)
  show ?thesis
  proof (cases "length found \<le> 5")
    case True
    with False have "\<not> list_ex (\<lambda>spec. cs_namespace spec = NsSource) found" by (auto simp: list_ex_iff)
    then have "?first = found @ ?sources" using True by (simp add: fall_back_def FALLBACK_SOURCES_def MAX_PICKED_def)
    then have "hd ?sources \<in> set (take 6 ?first)" using True some by (cases ?sources) (auto simp: take_Cons')
    then show ?thesis using ns some by (intro sinks_leave) (metis hd_in_set)
  next
    case few: False
    then obtain spec where spec: "spec \<in> set (take 6 found)" "cs_namespace spec = NsSink"
      using assms(3) False by (auto simp: few_or_named_def)
    then have "spec \<in> set ?first"
      by (auto simp: fall_back_def FALLBACK_SOURCES_def MAX_PICKED_def dest: in_set_takeD)
    with spec(2) have "fall_back specs (NsSink, FALLBACK_SINKS) ?first = ?first" by (intro sink_stays) blast
    with any show ?thesis by simp
  qed
qed

text \<open>
  C32: what a request is offered. However the request reads, at most \<^verbatim>\<open>MAX_PICKED\<close> components are
  offered, all of them of the registry and none of them control flow or user code, sources first and
  sinks last; a sink is always among them; and a source is, as long as no more than five components match
  the request or one of the best six is a source or a sink.
\<close>

theorem a_handful_is_offered:
  assumes "specs_ok specs" "\<exists>spec \<in> set specs. cs_id spec \<in> set FALLBACK_SOURCES" "\<exists>spec \<in> set specs. cs_id spec \<in> set FALLBACK_SINKS"
  shows "length (pick request specs) \<le> MAX_PICKED \<and> sorted (map reading_order (pick request specs)) \<and>
    (\<forall>spec \<in> set (pick request specs). spec \<in> set specs \<and> offered (cs_namespace spec)) \<and>
    (\<exists>spec \<in> set (pick request specs). cs_namespace spec = NsSink) \<and>
    (few_or_named (best request specs) \<longrightarrow> (\<exists>spec \<in> set (pick request specs). cs_namespace spec = NsSource))"
proof (intro conjI impI ballI)
  let ?first = "fall_back specs (NsSource, FALLBACK_SOURCES) (best request specs)"
  have dist: "distinct (map cs_id specs)" using assms(1) by (simp add: specs_ok_def)
  have sizes: "length FALLBACK_SOURCES \<le> MAX_PICKED" "length FALLBACK_SINKS \<le> MAX_PICKED"
    by (simp_all add: FALLBACK_SOURCES_def FALLBACK_SINKS_def MAX_PICKED_def)
  have first: "length ?first \<le> MAX_PICKED" by (rule fall_back_length [OF dist best_length sizes(1)])
  show "length (pick request specs) \<le> MAX_PICKED"
    using fall_back_length [OF dist first sizes(2)] by (simp add: pick_alt)
  show "sorted (map reading_order (pick request specs))" by (simp add: pick_alt)
  show "spec \<in> set specs" "offered (cs_namespace spec)" if "spec \<in> set (pick request specs)" for spec
    using that best_in [of spec request specs] fallback_namespace [OF assms(1), of spec]
    by (auto simp: pick_alt offered_def dest!: fall_back_in)
  show "\<exists>spec \<in> set (pick request specs). cs_namespace spec = NsSink"
    using fall_back_offers [of specs FALLBACK_SINKS NsSink ?first] assms(3) fallback_namespace(2) [OF assms(1)]
    by (auto simp: pick_alt)
  show "\<exists>spec \<in> set (pick request specs). cs_namespace spec = NsSource" if "few_or_named (best request specs)"
    using source_survives [OF assms(1,2) that] by (simp add: pick_alt)
qed

section \<open>Requests\<close>

definition example_specs :: "component_spec list" where
  "example_specs = List.map_filter (\<lambda>ident. component_new ident [])
     [''src.file.csv'', ''xf.dedup'', ''xf.filter'', ''xf.sort'', ''xf.join'', ''xf.limit'', ''xf.union'', ''snk.file.csv'']"

lemma example_split:
  "words_of ''dedup filter sort join limit union'' = [''dedup'', ''filter'', ''sort'', ''join'', ''limit'', ''union'']"
  "words_of ''dedupe it'' = [''dedupe'']"
  by code_simp+

lemma example_words:
  "request_words ''dedup filter sort join limit union'' = [''dedup'', ''filter'', ''sort'', ''join'', ''limit'', ''union'']"
  "request_words ''dedupe it'' = [''dedupe'']"
  by (simp_all add: request_words_def example_split add_word_def SYNONYMS_def)

lemma example_namespaces: "example_specs = map (\<lambda>ident. the (component_new ident []))
    [''src.file.csv'', ''xf.dedup'', ''xf.filter'', ''xf.sort'', ''xf.join'', ''xf.limit'', ''xf.union'', ''snk.file.csv'']"
  by (simp add: example_specs_def map_filter_def component_new_def namespace_from_prefix_def)

lemma score_new:
  assumes "namespace_from_prefix (hd (split_on (\<lambda>c. c = CHR ''.'') ident)) = Some ns"
  shows "score ws (the (component_new ident [])) = sum_list (map (word_score (map (map lower_char) (drop 1 (split_on (\<lambda>c. c = CHR ''.'') ident))) [] []) ws)"
    "cs_namespace (the (component_new ident [])) = ns"
  using assms by (cases ns; simp add: score_def component_new_def words_of_def)+

lemma example_scores:
  "scored [''dedup'', ''filter'', ''sort'', ''join'', ''limit'', ''union''] example_specs = [(3, 1), (3, 2), (3, 3), (3, 4), (3, 5), (3, 6)]"
  "scored [''dedupe''] example_specs = [(3, 1)]"
  by (simp_all add: scored_def example_namespaces score_new namespace_from_prefix_def offered_def word_score_def word_matches_def
      starts_with_def byte_length_def lower_char_def ascii_lower_def is_ascii_upper_def)

lemma example_best:
  "best ''dedup filter sort join limit union'' example_specs = map ((!) example_specs) [1, 2, 3, 4, 5, 6]"
  "best ''dedupe it'' example_specs = map ((!) example_specs) [1]"
  by (simp_all add: best_def example_words example_scores MAX_PICKED_def)

text \<open>Six transforms and nothing else: the fallback sources are added, and pushed out by the fallback sinks.\<close>

lemma no_source_is_offered:
  "map cs_id (pick ''dedup filter sort join limit union'' example_specs)
    = [''xf.dedup'', ''xf.filter'', ''xf.sort'', ''xf.join'', ''xf.limit'', ''xf.union'', ''snk.file.csv'']"
  unfolding pick_def example_best by code_simp

lemma a_handful_is_offered_witness:
  "length (pick ''dedupe it'' example_specs) \<le> MAX_PICKED \<and>
   (\<exists>spec \<in> set (pick ''dedupe it'' example_specs). cs_namespace spec = NsSource)"
proof -
  have ids: "map (\<lambda>spec. (cs_id spec, cs_namespace spec)) example_specs = [(''src.file.csv'', NsSource), (''xf.dedup'', NsTransform),
     (''xf.filter'', NsTransform), (''xf.sort'', NsTransform), (''xf.join'', NsTransform), (''xf.limit'', NsTransform),
     (''xf.union'', NsTransform), (''snk.file.csv'', NsSink)]"
    by code_simp
  have "map cs_id example_specs = map fst (map (\<lambda>spec. (cs_id spec, cs_namespace spec)) example_specs)" by simp
  then have "distinct (map cs_id example_specs)" unfolding ids by simp
  moreover have "list_all (\<lambda>(ident, ns). namespace_from_prefix (hd (split_on (\<lambda>c. c = CHR ''.'') ident)) = Some ns)
      (map (\<lambda>spec. (cs_id spec, cs_namespace spec)) example_specs)"
    unfolding ids by (simp add: namespace_from_prefix_def)
  ultimately have ok: "specs_ok example_specs" by (auto simp: specs_ok_def list_all_iff)
  have sources: "\<exists>spec \<in> set example_specs. cs_id spec \<in> set FALLBACK_SOURCES"
    "\<exists>spec \<in> set example_specs. cs_id spec \<in> set FALLBACK_SINKS"
    by (simp_all add: example_namespaces FALLBACK_SOURCES_def FALLBACK_SINKS_def component_new_def namespace_from_prefix_def)
  have "length (best ''dedupe it'' example_specs) \<le> 5" by (simp add: example_best)
  then show ?thesis
    using a_handful_is_offered [OF ok sources, of "''dedupe it''"] by (auto simp: few_or_named_def)
qed

end
