(* ===== verification/Assist_Draft.thy ===== *)
theory Assist_Draft
  imports Assist_Pick Builder_Kit Run_History Exec_World Mcp_Server
begin

text \<open>
  What the local model is told and what is made of its answer (\<^verbatim>\<open>prompt.rs\<close>, \<^verbatim>\<open>lib.rs\<close> and \<^verbatim>\<open>server.rs\<close> of
  \<^verbatim>\<open>crates/assistant\<close>). The server is what it answers: the polls while the model loads, and the reply to
  a request. The theorems: waiting for the model ends, and the clean-up of a draft drops blank options
  and nothing else.
\<close>

section \<open>The prompt\<close>

definition MAX_TOKENS :: nat where "MAX_TOKENS = 3072"

definition TEMPERATURE :: json where "TEMPERATURE = JFloat ''0.2''"

definition DQ :: str where "DQ = [CHR 0x22]"

definition kind_told :: "property_spec \<Rightarrow> str" where
  "kind_told p = (case pp_type p of
     PtText \<Rightarrow> ''text'' | PtPath \<Rightarrow> ''text'' | PtSql \<Rightarrow> ''SQL'' | PtCode \<Rightarrow> ''code'' | PtBool \<Rightarrow> ''true or false''
   | PtInteger \<Rightarrow> ''whole number'' | PtNumber \<Rightarrow> ''number'' | PtStringList \<Rightarrow> ''list of column names''
   | PtMap \<Rightarrow> ''object of name to text'' | PtEnum \<Rightarrow> ''one of '' @ join_with '', '' (pp_options p))"

definition must_be_given :: "property_spec \<Rightarrow> bool" where
  "must_be_given p \<longleftrightarrow> pp_required p \<and> pp_default p = None"

definition property_line :: "property_spec \<Rightarrow> str" where
  "property_line p = pp_name p @ '' ('' @ kind_told p @ (if must_be_given p then '', required'' else []) @ '')'' @
     (case pp_help p of Some help \<Rightarrow> '': '' @ help | None \<Rightarrow> [])"

definition describe_spec :: "component_spec \<Rightarrow> str" where
  "describe_spec c = NL @ cs_id c @ '' ('' @ flow_type (cs_namespace c) @ ''): '' @ cs_label c @
     (case cs_description c of Some d \<Rightarrow> ''. '' @ d | None \<Rightarrow> []) @ NL @
     concat (map (\<lambda>p. ''  - '' @ property_line p @ NL) (cs_properties c))"

definition EXAMPLE :: str where
  \<open>EXAMPLE = ''{"formatVersion": 1, "nodes": [{"id": "read_orders", "type": "source", "position": {"x": 0, "y": 0}, '' @
    ''"data": {"label": "Orders CSV", "componentId": "src.file.csv", "properties": {"path": "data/orders.csv"}}}, '' @
    ''{"id": "big_orders", "type": "transform", "position": {"x": 280, "y": 0}, "data": {"label": "Orders over 100", '' @
    ''"componentId": "xf.filter", "properties": {"predicate": "amount > 100"}}}, {"id": "write_json", "type": "sink", '' @
    ''"position": {"x": 560, "y": 0}, "data": {"label": "Big orders JSON", "componentId": "snk.file.json", "properties": '' @
    ''{"path": "out/big_orders.json"}}}], "edges": [{"id": "e1", "source": "read_orders", "target": "big_orders", '' @
    ''"sourceHandle": "main", "targetHandle": "in"}, {"id": "e2", "source": "big_orders", "target": "write_json", '' @
    ''"sourceHandle": "main", "targetHandle": "in"}], "name": "big_orders"}'' @ NL\<close>

definition system_text :: "component_spec list \<Rightarrow> str" where
  "system_text picked =
     ''You write pipeline documents for a local ETL tool, as JSON. A pipeline is nodes wired by '' @
     ''edges: rows flow from a source node, through transform nodes, into a sink node.'' @ NL @ NL @ ''Rules:'' @ NL @
     ''- Each node runs one component: its id in data.componentId, its settings in '' @
     ''data.properties, a short human label in data.label.'' @ NL @
     ''- Node ids are short snake_case names. Each edge goes from one node (source) to the next '' @
     ''(target), with sourceHandle '' @ DQ @ ''main'' @ DQ @ '' and targetHandle '' @ DQ @ ''in'' @ DQ @ ''.'' @ NL @
     ''- Lay the nodes out left to right: position x 0, 280, 560 and so on, y 0.'' @ NL @
     ''- Use the request'' @ [CHR 0x27] @ ''s own names and values. Where it leaves one out, write a short '' @
     ''plausible value (a connection string such as host=localhost dbname=app user=etl, a '' @
     ''table named for the data, an output path under out/) rather than leaving it empty.'' @ NL @
     ''- Leave out optional properties the request does not call for.'' @ NL @
     ''- Never write ${...} references.'' @ NL @ NL @ ''Components you may use:'' @ NL @
     concat (map describe_spec picked) @
     NL @ ''An example, for '' @ DQ @ ''read orders.csv, keep orders over 100, write JSON'' @ DQ @ '':'' @ NL @ EXAMPLE"

definition user_text :: "str \<Rightarrow> str" where
  "user_text request = ''Write the pipeline for this request: '' @ request"

definition chat_message :: "str \<Rightarrow> str \<Rightarrow> json" where
  "chat_message role content = JObject [(''role'', JString role), (''content'', JString content)]"

definition request_body :: "str \<Rightarrow> component_spec list \<Rightarrow> nat \<Rightarrow> json" where
  "request_body request picked seed = JObject
     [(''messages'', JArray [chat_message ''system'' (system_text picked), chat_message ''user'' (user_text request)]),
      (''response_format'', JObject [(''type'', JString ''json_schema''),
        (''json_schema'', JObject [(''name'', JString ''pipeline''), (''strict'', JBool True), (''schema'', pipeline_schema picked)])]),
      (''temperature'', TEMPERATURE), (''seed'', JInt (int seed)), (''max_tokens'', JInt (int MAX_TOKENS)), (''stream'', JBool False)]"

section \<open>Finding the server and the model\<close>

definition locate :: "(str \<Rightarrow> bool) \<Rightarrow> (str \<Rightarrow> str option) \<Rightarrow> str option \<Rightarrow> str \<Rightarrow> str \<Rightarrow> str list \<Rightarrow> str \<Rightarrow> str + str" where
  "locate is_file env explicit var start vendored what =
     (let named = (case explicit of
            Some p \<Rightarrow> Some (p, p)
          | None \<Rightarrow> map_option (\<lambda>v. (v, var @ ''='' @ v)) (env var));
          relative = join_with ''/'' (''tools'' # vendored)
      in case named of
           Some (p, shown) \<Rightarrow> if is_file p then Inr p else Inl (what @ '' was not found at '' @ shown)
         | None \<Rightarrow> ok_or (what @ '' was not found in '' @ Exec_World.path_join start relative @
              '' or above it. Fetch it with ./scripts/fetch-model.ps1.'')
             (find is_file (map (\<lambda>directory. Exec_World.path_join directory relative) (ancestors start))))"

definition DEFAULT_MODEL :: str where "DEFAULT_MODEL = ''qwen2.5-coder-1.5b-instruct-q4_k_m.gguf''"

definition DEFAULT_EMBEDDER :: str where "DEFAULT_EMBEDDER = ''bge-small-en-v1.5-q8_0.gguf''"

definition locate_server :: "bool \<Rightarrow> (str \<Rightarrow> bool) \<Rightarrow> (str \<Rightarrow> str option) \<Rightarrow> str option \<Rightarrow> str \<Rightarrow> str + str" where
  "locate_server windows is_file env explicit start = locate is_file env explicit ''ETL_LLAMA_SERVER'' start
     [''llama'', if windows then ''llama-server.exe'' else ''llama-server''] ''llama-server''"

definition locate_model :: "(str \<Rightarrow> bool) \<Rightarrow> (str \<Rightarrow> str option) \<Rightarrow> str option \<Rightarrow> str \<Rightarrow> str + str" where
  "locate_model is_file env explicit start =
     locate is_file env explicit ''ETL_ASSIST_MODEL'' start [''models'', DEFAULT_MODEL] ''the model''"

definition locate_embedder :: "(str \<Rightarrow> bool) \<Rightarrow> (str \<Rightarrow> str option) \<Rightarrow> str option \<Rightarrow> str \<Rightarrow> str + str" where
  "locate_embedder is_file env explicit start =
     locate is_file env explicit ''ETL_EMBED_MODEL'' start [''models'', DEFAULT_EMBEDDER] ''the embedding model''"

section \<open>The server\<close>

text \<open>
  A running server: its log; the \<open>n\<close>th poll while the model loads (stopped, exited with a status,
  healthy, seconds since the start); and the reply to a request.
\<close>

record load_poll =
  pl_stopped :: bool
  pl_exited :: "str option"
  pl_healthy :: bool
  pl_elapsed :: nat

datatype post_reply = Unsent str | Unread str | Replied nat str

record llama =
  lm_log :: str
  lm_log_text :: "str option"
  lm_poll :: "nat \<Rightarrow> load_poll"
  lm_was_stopped :: bool
  lm_reply :: "str \<Rightarrow> json \<Rightarrow> post_reply"
  lm_parse :: "str \<Rightarrow> str + json"

definition STOPPED :: str where "STOPPED = ''stopped before it answered''"

definition STARTUP :: nat where "STARTUP = 180"

definition log_tail :: "llama \<Rightarrow> str" where
  "log_tail m = (case lm_log_text m of
     None \<Rightarrow> []
   | Some t \<Rightarrow> (let ls = text_lines t; tail = join_with NL (drop (length ls - 8) ls)
       in if tail = [] then [] else '' Its log ('' @ lm_log m @ '') ends:'' @ NL @ tail))"

fun wait_until_loaded :: "nat \<Rightarrow> llama \<Rightarrow> nat \<Rightarrow> (str + unit) option" where
  "wait_until_loaded 0 m n = None"
| "wait_until_loaded (Suc fuel) m n =
     (let p = lm_poll m n
      in if pl_stopped p then Some (Inl STOPPED)
         else case pl_exited p of
           Some status \<Rightarrow> Some (Inl (''llama-server stopped while loading the model ('' @ status @ '').'' @ log_tail m))
         | None \<Rightarrow>
             if pl_healthy p then Some (Inr ())
             else if pl_elapsed p > STARTUP
             then Some (Inl (''llama-server did not load the model within '' @ show_nat STARTUP @ '' seconds.'' @ log_tail m))
             else wait_until_loaded fuel m (n + 1))"

definition post_json :: "llama \<Rightarrow> str \<Rightarrow> json \<Rightarrow> str + json" where
  "post_json m path body = (case lm_reply m path body of
     Unsent reason \<Rightarrow> Inl (if lm_was_stopped m then STOPPED else ''llama-server did not answer: '' @ reason @ ''.'' @ log_tail m)
   | Unread reason \<Rightarrow> Inl (''llama-server'' @ [CHR 0x27] @ ''s answer could not be read: '' @ reason)
   | Replied status t \<Rightarrow>
       if status \<noteq> 200
       then Inl (''llama-server refused the request ('' @ show_nat status @ ''): '' @
         (case lm_parse m t of
            Inr answer \<Rightarrow> (case json_as_str (json_at (json_at answer ''error'') ''message'') of Some said \<Rightarrow> said | None \<Rightarrow> t)
          | Inl _ \<Rightarrow> t))
       else map_err (\<lambda>reason. ''llama-server'' @ [CHR 0x27] @ ''s answer is not JSON: '' @ reason) (lm_parse m t))"

definition json_first :: "json \<Rightarrow> json" where
  "json_first v = (case v of JArray (x # xs) \<Rightarrow> x | _ \<Rightarrow> JNull)"

definition complete :: "llama \<Rightarrow> json \<Rightarrow> str + str" where
  "complete m body = and_then (post_json m ''/v1/chat/completions'' body) (\<lambda>answer.
     let choice = json_first (json_at answer ''choices'')
     in if json_at choice ''finish_reason'' = JString ''length''
        then Inl (''the model had not finished after '' @ show_nat MAX_TOKENS @ '' tokens'')
        else ok_or (''llama-server'' @ [CHR 0x27] @ ''s answer has no message: '' @ json_text answer)
          (json_as_str (json_at (json_at choice ''message'') ''content'')))"

section \<open>The draft\<close>

text \<open>
  \<^verbatim>\<open>IndexMut\<close> of a JSON value: an object gains a missing key with null, null becomes an object, and
  anything else is a panic.
\<close>

definition index_mut :: "json \<Rightarrow> str \<Rightarrow> (str \<times> json) list option" where
  "index_mut v key = (case v of
     JObject fs \<Rightarrow> Some (if map_of fs key = None then fs @ [(key, JNull)] else fs)
   | JNull \<Rightarrow> Some [(key, JNull)]
   | _ \<Rightarrow> None)"

definition is_blank :: "json \<Rightarrow> bool" where
  "is_blank v = (case v of JString t \<Rightarrow> trim t = [] | _ \<Rightarrow> False)"

definition is_needed :: "component_spec \<Rightarrow> str \<Rightarrow> bool" where
  "is_needed c name = list_ex (\<lambda>p. pp_name p = name \<and> must_be_given p) (cs_properties c)"

definition kept_properties :: "component_spec \<Rightarrow> (str \<times> json) list \<Rightarrow> (str \<times> json) list" where
  "kept_properties c fs = filter (\<lambda>(name, v). \<not> is_blank v \<or> is_needed c name) fs"

definition clean_node :: "component_spec list \<Rightarrow> json \<Rightarrow> json" where
  "clean_node specs node =
     (case Option.bind (json_as_str (json_at (json_at node ''data'') ''componentId'')) (\<lambda>i. find (\<lambda>c. cs_id c = i) specs) of
        None \<Rightarrow> node
      | Some c \<Rightarrow> (case (node, json_at node ''data'') of
          (JObject ns, JObject ds) \<Rightarrow>
            (let ds1 = (if map_of ds ''properties'' = None then ds @ [(''properties'', JNull)] else ds);
                 ds2 = (case map_of ds1 ''properties'' of
                     Some (JObject fs) \<Rightarrow> obj_insert ''properties'' (JObject (kept_properties c fs)) ds1 | _ \<Rightarrow> ds1)
             in JObject (obj_insert ''data'' (JObject ds2) ns))
        | _ \<Rightarrow> node))"

definition drop_blank_options :: "component_spec list \<Rightarrow> json \<Rightarrow> json option" where
  "drop_blank_options specs document = map_option (\<lambda>fs. JObject (case map_of fs ''nodes'' of
       Some (JArray nodes) \<Rightarrow> obj_insert ''nodes'' (JArray (map (clean_node specs) nodes)) fs
     | _ \<Rightarrow> fs)) (index_mut document ''nodes'')"

record draft =
  dr_document :: json
  dr_offered :: "str list"

text \<open>\<open>None\<close> is the panic of an answer that is neither an object nor null.\<close>

definition draft_for :: "llama \<Rightarrow> str \<Rightarrow> component_spec list \<Rightarrow> nat \<Rightarrow> (str + draft) option" where
  "draft_for m request specs seed =
     (let picked = pick request specs
      in case and_then (complete m (request_body request picked seed)) (\<lambda>t.
             map_err (\<lambda>reason. ''the model'' @ [CHR 0x27] @ ''s answer is not JSON ('' @ reason @
               ''); is llama-server too old for json_schema?'') (lm_parse m t)) of
           Inl message \<Rightarrow> Some (Inl message)
         | Inr document \<Rightarrow> map_option (\<lambda>cleaned. Inr \<lparr> dr_document = cleaned, dr_offered = map cs_id picked \<rparr>)
             (drop_blank_options specs document))"

section \<open>Facts\<close>

text \<open>Waiting ends once the clock has passed the limit, at the latest.\<close>

lemma waiting_ends: "pl_elapsed (lm_poll m (n + k)) > STARTUP \<Longrightarrow> k < fuel \<Longrightarrow> wait_until_loaded fuel m n \<noteq> None"
proof (induction fuel arbitrary: n k)
  case (Suc fuel)
  show ?case
  proof (cases k)
    case 0
    with Suc.prems show ?thesis by (simp add: Let_def split: option.split)
  next
    case (Suc j)
    with Suc.prems have "wait_until_loaded fuel m (n + 1) \<noteq> None" by (intro Suc.IH [of "n + 1" j]) simp_all
    then show ?thesis by (simp add: Let_def split: option.split)
  qed
qed simp

text \<open>An explicit path is taken or refused, whatever else is there.\<close>

lemma explicit_path_wins:
  "locate is_file env (Some p) var start vendored what = (if is_file p then Inr p else Inl (what @ '' was not found at '' @ p))"
  by (simp add: locate_def)

lemma located_is_a_file: "locate is_file env explicit var start vendored what = Inr p \<Longrightarrow> is_file p"
  by (auto simp: locate_def Let_def find_Some_iff split: option.splits if_splits)

text \<open>What the clean-up leaves of a node's properties: the same, less blank ones that are not needed.\<close>

lemma kept_properties_once: "kept_properties c (kept_properties c fs) = kept_properties c fs"
  by (simp add: kept_properties_def)

lemma needed_are_kept: "is_needed c name \<Longrightarrow> map_of (kept_properties c fs) name = map_of fs name"
  by (induction fs) (auto simp: kept_properties_def)

lemma written_are_kept: "map_of fs name = Some v \<Longrightarrow> \<not> is_blank v \<Longrightarrow> map_of (kept_properties c fs) name = Some v"
  by (induction fs) (auto simp: kept_properties_def split: if_splits)

text \<open>A draft that is neither an object nor null is a panic, not an error.\<close>

lemma odd_draft_panics: "drop_blank_options specs (JArray vs) = None" "drop_blank_options specs (JString t) = None"
  by (simp_all add: drop_blank_options_def index_mut_def)

end
