(* ===== verification/Cli_Assist.thy ===== *)
theory Cli_Assist
  imports Assist_Draft Cli_Run
begin

text \<open>
  \<^verbatim>\<open>etl assist\<close> (\<^verbatim>\<open>command_assist\<close> of \<^verbatim>\<open>crates/cli/src/main.rs\<close>): the local model writes a pipeline, the engine
  checks it, and only a pipeline that the check accepts is printed or written. The server's log is a file of
  the temporary directory, which stays when there is no answer. What goes to standard error is left out.
\<close>

section \<open>The command\<close>

text \<open>
  The machine as the command sees it: the executable's path, which platform it is, the temporary directory and
  the process, what fails before the server runs, the server, its output by the time it is stopped and whether
  its log cannot be removed, the clock as a seed, the registry's specs in their order, the printer, and how writing the answer ends.
\<close>

record assist_world =
  ax_exe :: "str option"
  ax_windows :: bool
  ax_temp_dir :: str
  ax_pid :: nat
  ax_no_port :: "str option"
  ax_no_log :: "str option"
  ax_no_clone :: "str option"
  ax_spawn :: "str \<Rightarrow> str \<Rightarrow> str + llama"
  ax_output :: str
  ax_log_stays :: bool
  ax_clock :: nat
  ax_specs :: "component_spec list"
  ax_pretty :: "json \<Rightarrow> str"
  ax_dirs_fail :: bool
  ax_write :: write_result

definition assist_find :: "cli_world \<Rightarrow> assist_world \<Rightarrow> settings \<Rightarrow> (str option \<Rightarrow> str \<Rightarrow> str + str) \<Rightarrow> str option \<Rightarrow> str + str" where
  "assist_find w ax s locate_it explicit =
     (case locate_it explicit (workspace_root w s) of
        Inr p \<Rightarrow> Inr p
      | Inl message \<Rightarrow> (case Option.bind (ax_exe ax) path_parent of
          Some directory \<Rightarrow> map_err (\<lambda>_. message) (locate_it explicit directory)
        | None \<Rightarrow> Inl message))"

definition assist_located :: "cli_world \<Rightarrow> assist_world \<Rightarrow> settings \<Rightarrow> str option \<Rightarrow> str option \<Rightarrow> str + str \<times> str" where
  "assist_located w ax s model llama_server =
     (let is_file = os_is_file (wd_outside w)
      in and_then (assist_find w ax s (locate_server (ax_windows ax) is_file (wd_env w)) llama_server) (\<lambda>server.
         and_then (assist_find w ax s (locate_model is_file (wd_env w)) model) (\<lambda>found. Inr (server, found))))"

definition exists_at :: "cli_world \<Rightarrow> disk \<Rightarrow> str \<Rightarrow> bool" where
  "exists_at w d path \<longleftrightarrow> d path \<noteq> None \<or> os_is_dir (wd_outside w) path"

definition write_answer :: "assist_world \<Rightarrow> str \<Rightarrow> str \<Rightarrow> disk \<Rightarrow> nat \<times> str \<times> disk" where
  "write_answer ax out content d =
     (if path_parent out \<noteq> None \<and> path_parent out \<noteq> Some [] \<and> ax_dirs_fail ax then (CLI_USAGE, [], d)
      else case ax_write ax of
        WriteOpenFails \<Rightarrow> (CLI_USAGE, [], d)
      | WritePartial n \<Rightarrow> (CLI_USAGE, [], d(out \<mapsto> take n (content @ NL)))
      | WriteOk \<Rightarrow> (CLI_OK, [], d(out \<mapsto> content @ NL)))"

definition deliver_answer :: "cli_world \<Rightarrow> assist_world \<Rightarrow> settings \<Rightarrow> str option \<Rightarrow> json \<Rightarrow> disk \<Rightarrow> nat \<times> str \<times> disk" where
  "deliver_answer w ax s out document d =
     (let content = ax_pretty ax document
      in case check_document w content s d of
           Inl _ \<Rightarrow> (CLI_USAGE, [], d)
         | Inr checked \<Rightarrow>
             if json_at checked ''valid'' \<noteq> JBool True then (CLI_INVALID, [], d)
             else case out of
               None \<Rightarrow> (CLI_OK, content @ NL, d)
             | Some path \<Rightarrow> write_answer ax path content d)"

definition assist_log :: "assist_world \<Rightarrow> str" where
  "assist_log ax = Exec_World.path_join (ax_temp_dir ax) (''etl-llama-server-'' @ show_nat (ax_pid ax) @ ''.log'')"

text \<open>\<^verbatim>\<open>Server::spawn_with\<close>: the log is created, or emptied, before the server is started.\<close>

definition spawn_server :: "assist_world \<Rightarrow> str \<Rightarrow> str \<Rightarrow> str \<Rightarrow> disk \<Rightarrow> (str + llama) \<times> disk" where
  "spawn_server ax server model log d = (case ax_no_port ax of
     Some e \<Rightarrow> (Inl (''no free local port: '' @ e), d)
   | None \<Rightarrow> (case ax_no_log ax of
       Some e \<Rightarrow> (Inl (log @ '': '' @ e), d)
     | None \<Rightarrow> (case ax_no_clone ax of
         Some e \<Rightarrow> (Inl (log @ '': '' @ e), d(log \<mapsto> []))
       | None \<Rightarrow> (case ax_spawn ax server model of
           Inl e \<Rightarrow> (Inl (server @ '' could not be started: '' @ e), d(log \<mapsto> []))
         | Inr running \<Rightarrow> (Inr running, d(log \<mapsto> []))))))"

text \<open>
  The exit code, what is printed, and the files; the log holds what the server had put out when it was
  stopped. \<open>None\<close> is a model still loading after \<open>fuel\<close> polls (a greater fuel ends the wait,
  \<open>waiting_ends\<close>) or the panic of a draft that is no object.
\<close>

definition command_assist :: "nat \<Rightarrow> cli_world \<Rightarrow> assist_world \<Rightarrow> str \<Rightarrow> str option \<Rightarrow> bool \<Rightarrow> str option \<Rightarrow> str option
    \<Rightarrow> nat option \<Rightarrow> settings \<Rightarrow> disk \<Rightarrow> (nat \<times> str \<times> disk) option" where
  "command_assist fuel w ax request out overwrite model llama_server seed s d =
     (if (case out of Some path \<Rightarrow> exists_at w d path \<and> \<not> overwrite | None \<Rightarrow> False) then Some (CLI_USAGE, [], d)
      else case assist_located w ax s model llama_server of
        Inl _ \<Rightarrow> Some (CLI_USAGE, [], d)
      | Inr (server, found) \<Rightarrow>
          let log = assist_log ax
          in case spawn_server ax server found log d of
            (Inl _, d1) \<Rightarrow> Some (CLI_USAGE, [], d1)
          | (Inr running, d1) \<Rightarrow>
              let logged = d1(log \<mapsto> ax_output ax)
              in case wait_until_loaded fuel running 0 of
                None \<Rightarrow> None
              | Some (Inl _) \<Rightarrow> Some (CLI_USAGE, [], logged)
              | Some (Inr _) \<Rightarrow>
                  (case draft_for running request (ax_specs ax) (case seed of Some n \<Rightarrow> n | None \<Rightarrow> ax_clock ax) of
                     None \<Rightarrow> None
                   | Some (Inl _) \<Rightarrow> Some (CLI_FAILED, [], logged)
                   | Some (Inr drafted) \<Rightarrow> Some (deliver_answer w ax s out (dr_document drafted)
                       (if ax_log_stays ax then logged else logged(log := None)))))"

section \<open>What it writes\<close>

text \<open>What was written: the draft of this request, accepted by the check, to a path that was free or given up.\<close>

definition accepted :: "cli_world \<Rightarrow> assist_world \<Rightarrow> settings \<Rightarrow> disk \<Rightarrow> json \<Rightarrow> bool" where
  "accepted w ax s d document \<longleftrightarrow>
     (\<exists>checked. check_document w (ax_pretty ax document) s d = Inr checked \<and> json_at checked ''valid'' = JBool True)"

lemma deliver_answer_cases:
  assumes "deliver_answer w ax s out document d = (ec, printed, d')"
  shows "accepted w ax s d document \<and> ec = CLI_OK \<and>
       (case out of None \<Rightarrow> printed = ax_pretty ax document @ NL \<and> d' = d
        | Some path \<Rightarrow> printed = [] \<and> d' = d(path \<mapsto> ax_pretty ax document @ NL)) \<or>
     ec \<noteq> CLI_OK \<and> printed = [] \<and>
       (d' = d \<or> accepted w ax s d document \<and> (\<exists>path n. out = Some path \<and> d' = d(path \<mapsto> take n (ax_pretty ax document @ NL))))"
  using assms
  by (auto simp: deliver_answer_def write_answer_def accepted_def Let_def
      split: sum.splits if_splits option.splits write_result.splits)

text \<open>The files before the answer is delivered: those of the start, but for the log.\<close>

definition but_for_log :: "assist_world \<Rightarrow> disk \<Rightarrow> disk \<Rightarrow> bool" where
  "but_for_log ax d d1 \<longleftrightarrow> (\<forall>p. p \<noteq> assist_log ax \<longrightarrow> d1 p = d p)"

lemma spawn_server_log:
  "spawn_server ax server model (assist_log ax) d = (r, d1) \<Longrightarrow> but_for_log ax d d1"
  by (auto simp: spawn_server_def but_for_log_def split: option.splits sum.splits)

text \<open>How the command ends: with an answer to deliver, or without one.\<close>

lemma command_assist_cases:
  assumes "command_assist fuel w ax request out overwrite model llama_server seed s d = Some (ec, printed, d')"
  obtains
    (delivers) document d1 where "deliver_answer w ax s out document d1 = (ec, printed, d')" "but_for_log ax d d1"
      "d1 (assist_log ax) = (if ax_log_stays ax then Some (ax_output ax) else None)"
      "\<And>path. out = Some path \<Longrightarrow> d path = None \<or> overwrite"
  | (ends) "ec \<noteq> CLI_OK" "printed = []" "but_for_log ax d d'" "ec = CLI_FAILED \<Longrightarrow> d' (assist_log ax) = Some (ax_output ax)"
proof (cases "case out of Some path \<Rightarrow> exists_at w d path \<and> \<not> overwrite | None \<Rightarrow> False")
  case True
  with assms show ?thesis by (intro ends) (auto simp: command_assist_def but_for_log_def)
next
  case False
  then have free: "d path = None \<or> overwrite" if "out = Some path" for path using that by (auto simp: exists_at_def)
  show ?thesis
  proof (cases "assist_located w ax s model llama_server")
    case (Inl e)
    with assms False show ?thesis by (intro ends) (auto simp: command_assist_def but_for_log_def)
  next
    case (Inr at)
    obtain server found where at: "at = (server, found)" by force
    obtain started d1 where spawned: "spawn_server ax server found (assist_log ax) d = (started, d1)" by force
    note log = spawn_server_log [OF spawned]
    let ?logged = "d1(assist_log ax \<mapsto> ax_output ax)"
    have logged: "but_for_log ax d ?logged" using log by (simp add: but_for_log_def)
    show ?thesis
    proof (cases started)
      case (Inl e)
      with assms False Inr at spawned log show ?thesis by (intro ends) (auto simp: command_assist_def Let_def)
    next
      case (Inr running)
      note run = assms [unfolded command_assist_def] False \<open>assist_located w ax s model llama_server = Inr at\<close> at spawned Inr
      show ?thesis
      proof (cases "wait_until_loaded fuel running 0")
        case (Some waited)
        show ?thesis
        proof (cases waited)
          case (Inl e)
          with run Some logged show ?thesis by (intro ends) (auto simp: Let_def)
        next
          case (Inr u)
          show ?thesis
          proof (cases "draft_for running request (ax_specs ax) (case seed of Some n \<Rightarrow> n | None \<Rightarrow> ax_clock ax)")
            case (Some answer)
            show ?thesis
            proof (cases answer)
              case (Inl e)
              with run \<open>wait_until_loaded fuel running 0 = Some waited\<close> \<open>waited = Inr u\<close> Some logged
              show ?thesis by (intro ends) (auto simp: Let_def)
            next
              case (Inr drafted)
              with run \<open>wait_until_loaded fuel running 0 = Some waited\<close> \<open>waited = Inr u\<close> Some
              have "deliver_answer w ax s out (dr_document drafted) (if ax_log_stays ax then ?logged else ?logged(assist_log ax := None))
                = (ec, printed, d')" by (simp add: Let_def)
              from delivers [OF this] show ?thesis using logged free by (auto simp: but_for_log_def)
            qed
          qed (use run \<open>wait_until_loaded fuel running 0 = Some waited\<close> \<open>waited = Inr u\<close> in \<open>simp add: Let_def\<close>)
        qed
      qed (use run in \<open>simp add: Let_def\<close>)
    qed
  qed
qed

text \<open>
  C23: what \<^verbatim>\<open>etl assist\<close> leaves behind. It ends with exit code 0 exactly when the model's document passed
  the engine's check and was printed, or written in full to the path asked for; it prints nothing
  otherwise. No file is touched but that path and the log of the model's server in the temporary
  directory; that path only once the document was accepted, and where a file was there only if overwriting
  was allowed. The log is gone after an answer, if it could be removed, and stays when the model gave none.
\<close>

theorem assist_delivers_only_accepted:
  assumes "command_assist fuel w ax request out overwrite model llama_server seed s d = Some (ec, printed, d')"
  shows "(ec = CLI_OK \<longrightarrow> (\<exists>document d1. but_for_log ax d d1 \<and> accepted w ax s d1 document \<and>
       d1 (assist_log ax) = (if ax_log_stays ax then Some (ax_output ax) else None) \<and>
       (case out of None \<Rightarrow> printed = ax_pretty ax document @ NL \<and> d' = d1
        | Some path \<Rightarrow> printed = [] \<and> d' = d1(path \<mapsto> ax_pretty ax document @ NL)))) \<and>
     (ec \<noteq> CLI_OK \<longrightarrow> printed = []) \<and>
     (\<forall>p. p \<noteq> assist_log ax \<longrightarrow> d' p \<noteq> d p \<longrightarrow>
       out = Some p \<and> (d p = None \<or> overwrite) \<and> (\<exists>document d1. but_for_log ax d d1 \<and> accepted w ax s d1 document)) \<and>
     (ec = CLI_FAILED \<longrightarrow> d' (assist_log ax) = Some (ax_output ax))"
  using assms
proof (cases rule: command_assist_cases)
  case (delivers document d1)
  have codes: "ec \<noteq> CLI_FAILED"
    using delivers(1) by (auto simp: deliver_answer_def write_answer_def Let_def CLI_FAILED_def CLI_USAGE_def CLI_INVALID_def CLI_OK_def
        split: sum.splits if_splits option.splits write_result.splits)
  have same: "d1 p = d p" if "p \<noteq> assist_log ax" for p using that delivers(2) by (simp add: but_for_log_def)
  note how = deliver_answer_cases [OF delivers(1)]
  have touched: "out = Some p \<and> accepted w ax s d1 document" if "p \<noteq> assist_log ax" "d' p \<noteq> d p" for p
  proof -
    have "d' p \<noteq> d1 p" using that same by simp
    with how show ?thesis by (auto split: option.splits if_splits)
  qed
  show ?thesis
  proof (intro conjI impI allI)
    assume "ec = CLI_OK"
    with how delivers(2,3) show "\<exists>document d1. but_for_log ax d d1 \<and> accepted w ax s d1 document \<and>
       d1 (assist_log ax) = (if ax_log_stays ax then Some (ax_output ax) else None) \<and>
       (case out of None \<Rightarrow> printed = ax_pretty ax document @ NL \<and> d' = d1
        | Some path \<Rightarrow> printed = [] \<and> d' = d1(path \<mapsto> ax_pretty ax document @ NL))" by blast
  next
    assume "ec \<noteq> CLI_OK"
    with how show "printed = []" by blast
  next
    fix p assume p: "p \<noteq> assist_log ax" "d' p \<noteq> d p"
    from touched [OF p] show "out = Some p" by simp
    with delivers(4) show "d p = None \<or> overwrite" by simp
    from touched [OF p] delivers(2) show "\<exists>document d1. but_for_log ax d d1 \<and> accepted w ax s d1 document" by blast
  next
    assume "ec = CLI_FAILED"
    with codes show "d' (assist_log ax) = Some (ax_output ax)" by simp
  qed
next
  case ends
  then show ?thesis by (auto simp: but_for_log_def)
qed

section \<open>A draft accepted\<close>

definition example_answer :: json where
  "example_answer = JObject [(''choices'', JArray [JObject [(''finish_reason'', JString ''stop''),
     (''message'', JObject [(''content'', JString ''draft'')])]])]"

definition example_llama :: llama where
  "example_llama = \<lparr> lm_log = ''log'', lm_log_text = None,
     lm_poll = \<lambda>n. \<lparr> pl_stopped = False, pl_exited = None, pl_healthy = (n = 1), pl_elapsed = n \<rparr>, lm_was_stopped = False,
     lm_reply = \<lambda>_ _. Replied 200 ''chat'', lm_parse = \<lambda>t. Inr (if t = ''chat'' then example_answer else JObject []) \<rparr>"

definition example_assist :: assist_world where
  "example_assist = \<lparr> ax_exe = None, ax_windows = False, ax_temp_dir = ''/tmp'', ax_pid = 4,
     ax_no_port = None, ax_no_log = None, ax_no_clone = None, ax_spawn = \<lambda>_ _. Inr example_llama, ax_output = ''ready'',
     ax_log_stays = False, ax_clock = 7, ax_specs = [],
     ax_pretty = json_text, ax_dirs_fail = False, ax_write = WriteOk \<rparr>"

lemma example_draft: "\<exists>drafted. draft_for example_llama request [] seed = Some (Inr drafted)"
  by (simp add: draft_for_def complete_def post_json_def example_llama_def example_answer_def json_at_def json_get_def json_first_def
      json_as_str_def drop_blank_options_def index_mut_def Let_def)

lemma example_accepted: "accepted command_world example_assist command_settings command_disk document"
proof -
  obtain resolved where res: "resolve (\<lambda>_. None) idle_doc (resolver_new ''2026-01-01'' ''/work'') = Inr resolved"
    "rp_document resolved = idle_doc"
    using idle_resolved by (cases "resolve (\<lambda>_. None) idle_doc (resolver_new ''2026-01-01'' ''/work'')") auto
  obtain plan where plan: "compile_with two_components (\<lambda>_. None) compile_options_default idle_doc = Inr plan"
    using idle_compiled by (cases "compile_with two_components (\<lambda>_. None) compile_options_default idle_doc") auto
  have parts: "wd_env command_world = (\<lambda>_. None)" "wd_parse_document command_world = (\<lambda>_. Some idle_doc)"
    "wd_registry command_world = two_components" "os_connector (wd_outside command_world) = (\<lambda>_. None)"
    by (simp_all add: command_world_def)
  show ?thesis
    by (simp add: accepted_def check_document_def parts command_resolver res check_resolved_def plan json_at_def json_get_def)
qed

lemma assist_delivers_only_accepted_witness:
  "\<exists>printed d' document. command_assist 5 command_world example_assist ''copy it'' (Some ''/work/new.json'') False (Some ''m.gguf'')
      (Some ''llama-server'') None command_settings command_disk = Some (CLI_OK, printed, d') \<and>
    d' ''/work/new.json'' = Some (json_text document @ NL) \<and> d' (assist_log example_assist) = None"
proof -
  obtain drafted where drafted: "draft_for example_llama ''copy it'' [] 7 = Some (Inr drafted)"
    using example_draft by blast
  have waited: "wait_until_loaded 5 example_llama 0 = Some (Inr ())"
    by (simp add: eval_nat_numeral example_llama_def Let_def STARTUP_def)
  have free: "\<not> exists_at command_world command_disk ''/work/new.json''"
    by (simp add: exists_at_def command_disk_def command_world_def example_defs)
  have found: "assist_located command_world example_assist command_settings (Some ''m.gguf'') (Some ''llama-server'')
      = Inr (''llama-server'', ''m.gguf'')"
    by (simp add: assist_located_def assist_find_def locate_server_def locate_model_def explicit_path_wins command_world_def example_defs)
  have fields: "ax_spawn example_assist = (\<lambda>_ _. Inr example_llama)" "ax_clock example_assist = 7" "ax_specs example_assist = []"
    "ax_pretty example_assist = json_text" "\<not> ax_dirs_fail example_assist" "ax_write example_assist = WriteOk"
    "ax_no_port example_assist = None" "ax_no_log example_assist = None" "ax_no_clone example_assist = None" "\<not> ax_log_stays example_assist"
    by (simp_all add: example_assist_def)
  have "assist_log example_assist = ''/tmp/etl-llama-server-4.log''" by code_simp
  then have log: "assist_log example_assist \<noteq> ''/work/new.json''" by simp
  have "command_disk (assist_log example_assist) = None"
    unfolding \<open>assist_log example_assist = _\<close> by (simp add: command_disk_def)
  then have clean: "command_disk(assist_log example_assist := None) = command_disk" by (rule fun_upd_idem)
  obtain checked where checked: "check_document command_world (json_text (dr_document drafted)) command_settings command_disk = Inr checked"
    "json_at checked ''valid'' = JBool True"
    using example_accepted [of "dr_document drafted"] by (auto simp: accepted_def example_assist_def)
  have run: "command_assist 5 command_world example_assist ''copy it'' (Some ''/work/new.json'') False (Some ''m.gguf'')
      (Some ''llama-server'') None command_settings command_disk
    = Some (CLI_OK, [], command_disk(''/work/new.json'' \<mapsto> json_text (dr_document drafted) @ NL))"
    using free found waited drafted checked
    by (simp add: command_assist_def spawn_server_def deliver_answer_def write_answer_def fields clean Let_def)
  from assist_delivers_only_accepted [OF run] obtain document d1 where
    "d1 (assist_log example_assist) = None" "command_disk(''/work/new.json'' \<mapsto> json_text (dr_document drafted) @ NL)
      = d1(''/work/new.json'' \<mapsto> json_text document @ NL)"
    by (auto simp: fields)
  with run log show ?thesis by auto
qed

end
