(* ===== verification/Connector_Kit.thy ===== *)
theory Connector_Kit
  imports Builder_Kit Secret_Store
begin

text \<open>
  What the native connectors share: the small functions at the end of \<^verbatim>\<open>crates/connectors/src/http.rs\<close>
  that read a property, point into a response and shorten a body, base64 both ways on \<^verbatim>\<open>u32\<close> words, and
  the columns a streamed message's value becomes (\<^verbatim>\<open>value_columns\<close> of \<^verbatim>\<open>kafka.rs\<close>). The theorem: what was
  encoded in base64 decodes to the same bytes.
\<close>

type_synonym row = "(str \<times> json) list"

section \<open>Properties\<close>

definition text_property :: "json \<Rightarrow> str \<Rightarrow> str option" where
  "text_property properties key = (case Option.bind (json_get properties key) json_as_str of
     Some v \<Rightarrow> if trim v = [] then None else Some v
   | None \<Rightarrow> None)"

definition text_or :: "json \<Rightarrow> str \<Rightarrow> str \<Rightarrow> str" where
  "text_or properties key fallback = (case text_property properties key of Some v \<Rightarrow> v | None \<Rightarrow> fallback)"

definition needed :: "json \<Rightarrow> str \<Rightarrow> str \<Rightarrow> connector_error + str" where
  "needed properties key auth =
     ok_or (PropertyError key (''is required for '' @ auth @ '' auth'')) (text_property properties key)"

definition text_pair :: "str \<Rightarrow> str \<times> json \<Rightarrow> connector_error + str \<times> str" where
  "text_pair key entry = (case entry of
     (name, JString t) \<Rightarrow> Inr (name, t)
   | (name, _) \<Rightarrow> Inl (PropertyError key (''the value for '' @ QT @ name @ QT @ '' must be text'')))"

definition pairs_property :: "json \<Rightarrow> str \<Rightarrow> connector_error + (str \<times> str) list" where
  "pairs_property properties key = (case json_get properties key of
     None \<Rightarrow> Inr []
   | Some JNull \<Rightarrow> Inr []
   | Some (JObject fs) \<Rightarrow> traverse (text_pair key) fs
   | Some _ \<Rightarrow> Inl (PropertyError key ''must be name/value pairs''))"

definition whole :: "json \<Rightarrow> str \<Rightarrow> nat \<Rightarrow> connector_error + nat" where
  "whole properties key fallback = (case json_get properties key of
     None \<Rightarrow> Inr fallback
   | Some JNull \<Rightarrow> Inr fallback
   | Some v \<Rightarrow> ok_or (PropertyError key ''must be zero or more'') (json_as_u64 v))"

definition positive :: "json \<Rightarrow> str \<Rightarrow> nat \<Rightarrow> connector_error + nat" where
  "positive properties key fallback = and_then (whole properties key fallback) (\<lambda>v.
     if v = 0 then Inl (PropertyError key ''must be at least 1'') else Inr v)"

lemma positive_positive: "positive properties key fallback = Inr v \<Longrightarrow> 0 < v"
  by (auto simp: positive_def and_then_eq_Inr_iff split: if_splits)

section \<open>Responses\<close>

definition kind_of :: "json \<Rightarrow> str" where
  "kind_of v = (case v of
     JNull \<Rightarrow> ''null'' | JBool _ \<Rightarrow> ''a boolean'' | JInt _ \<Rightarrow> ''a number'' | JFloat _ \<Rightarrow> ''a number''
   | JString _ \<Rightarrow> ''a string'' | JArray _ \<Rightarrow> ''an array'' | JObject _ \<Rightarrow> ''an object'')"

definition BODY_SNIPPET :: nat where "BODY_SNIPPET = 300"

definition snippet :: "str \<Rightarrow> str" where
  "snippet t = (let trimmed = trim t
     in if trimmed = [] then ''(empty body)''
        else if BODY_SNIPPET < length trimmed then take BODY_SNIPPET trimmed @ [CHR 0xE2, CHR 0x80, CHR 0xA6]
        else trimmed)"

definition page_cap_reached :: "nat \<Rightarrow> connector_error" where
  "page_cap_reached max_pages = DataError (''reached max_pages ('' @ show_nat max_pages @
     '') with more still to read; raise max_pages if the API really has that many pages, or check the pagination settings'')"

text \<open>A JSON pointer is followed by \<^verbatim>\<open>serde_json\<close>, an argument here.\<close>

type_synonym pointer = "json \<Rightarrow> str \<Rightarrow> json option"

definition rows_at :: "pointer \<Rightarrow> json \<Rightarrow> str \<Rightarrow> nat \<Rightarrow> connector_error + json list" where
  "rows_at ptr document at page = (case ptr document at of
     Some (JArray items) \<Rightarrow> Inr items
   | Some other \<Rightarrow> Inl (DataError (''page '' @ show_nat page @ '': `records` ('' @ QT @ at @ QT @ '') points at '' @ kind_of other @
       '', not an array''))
   | None \<Rightarrow> Inl (DataError (''page '' @ show_nat page @ '': nothing at `records` ('' @ QT @ at @ QT @ '') in the response'')))"

section \<open>Base64\<close>

definition ALPHABET :: str where
  "ALPHABET = ''ABCDEFGHIJKLMNOPQRSTUVWXYZabcdefghijklmnopqrstuvwxyz0123456789+/''"

definition alphabet_at :: "32 word \<Rightarrow> char" where
  "alphabet_at n = ALPHABET ! unat (n AND 63)"

text \<open>One chunk of at most three bytes: the missing ones count as zero, and their letters are signs of equality.\<close>

definition encode_chunk :: "u8 list \<Rightarrow> str" where
  "encode_chunk chunk =
     (let b = (\<lambda>i. if i < length chunk then ucast (chunk ! i) else 0) :: nat \<Rightarrow> 32 word;
          n = push_bit 16 (b 0) OR push_bit 8 (b 1) OR b 2
      in [alphabet_at (drop_bit 18 n), alphabet_at (drop_bit 12 n),
          if length chunk > 1 then alphabet_at (drop_bit 6 n) else CHR ''='',
          if length chunk > 2 then alphabet_at n else CHR ''=''])"

fun base64_bytes :: "u8 list \<Rightarrow> str" where
  "base64_bytes [] = []"
| "base64_bytes [a] = encode_chunk [a]"
| "base64_bytes [a, b] = encode_chunk [a, b]"
| "base64_bytes (a # b # c # rest) = encode_chunk [a, b, c] @ base64_bytes rest"

definition base64 :: "str \<Rightarrow> str" where
  "base64 t = base64_bytes (as_bytes t)"

definition letter_value :: "u8 \<Rightarrow> 32 word option" where
  "letter_value c =
     (if 65 \<le> c \<and> c \<le> 90 then Some (ucast (c - 65))
      else if 97 \<le> c \<and> c \<le> 122 then Some (ucast (c - 97) + 26)
      else if 48 \<le> c \<and> c \<le> 57 then Some (ucast (c - 48) + 52)
      else if c = 43 then Some 62
      else if c = 47 then Some 63
      else None)"

fun letters_value :: "32 word \<Rightarrow> u8 list \<Rightarrow> 32 word option" where
  "letters_value n [] = Some n"
| "letters_value n (c # cs) = Option.bind (letter_value c) (\<lambda>v. letters_value (push_bit 6 n OR v) cs)"

definition decode_chunk :: "u8 list \<Rightarrow> bool \<Rightarrow> u8 list option" where
  "decode_chunk chunk final =
     (let pad = length (takeWhile (\<lambda>c. c = 61) (rev chunk))
      in if pad > 2 \<or> (pad > 0 \<and> \<not> final) then None
         else map_option (\<lambda>n0. let n = push_bit (6 * pad) n0
             in [ucast (drop_bit 16 n)] @ (if pad < 2 then [ucast (drop_bit 8 n)] else []) @
                (if pad < 1 then [ucast n] else []))
           (letters_value 0 (take (4 - pad) chunk)))"

fun decode_chunks :: "u8 list \<Rightarrow> u8 list option" where
  "decode_chunks (a # b # c # d # rest) =
     Option.bind (decode_chunk [a, b, c, d] (rest = [])) (\<lambda>bs. map_option ((@) bs) (decode_chunks rest))"
| "decode_chunks _ = Some []"

definition base64_decode :: "str \<Rightarrow> u8 list option" where
  "base64_decode t = (let bs = as_bytes (trim t) in if length bs mod 4 \<noteq> 0 then None else decode_chunks bs)"

section \<open>The value of a message as columns\<close>

datatype value_format = FormatJson | FormatText | FormatBytes

text \<open>\<^verbatim>\<open>serde_json\<close>'s parser says why it refused; reading UTF-8 is the standard library's.\<close>

definition has_bom :: "u8 list \<Rightarrow> bool" where
  "has_bom bs \<longleftrightarrow> take 3 bs = [0xEF, 0xBB, 0xBF]"

definition value_columns :: "(u8 list \<Rightarrow> str + json) \<Rightarrow> (u8 list \<Rightarrow> str option) \<Rightarrow> value_format \<Rightarrow> u8 list option \<Rightarrow> str \<Rightarrow> str list
    \<Rightarrow> connector_error + row" where
  "value_columns parse utf8 format v at reserved = (case format of
     FormatJson \<Rightarrow> (case v of
        None \<Rightarrow> Inr []
      | Some bs \<Rightarrow> (case parse bs of
           Inl reason \<Rightarrow> Inl (DataError (at @ '': the value is not JSON ('' @ reason @ '')'' @
             (if has_bom bs then ''; it starts with a UTF-8 byte-order mark, which JSON does not allow, so '' @
                ''the producer should write UTF-8 without one''
              else ''; use value_format text or bytes'')))
         | Inr (JObject fs) \<Rightarrow> (case find (\<lambda>name. name \<in> set reserved) (map fst fs) of
              Some name \<Rightarrow> Inl (DataError (at @ '': the value has a field '' @ QT @ name @ QT @ '', which is a column this connector '' @
                ''adds; use value_format text and unpack it downstream''))
            | None \<Rightarrow> Inr fs)
         | Inr other \<Rightarrow> Inl (DataError (at @ '': the value is '' @ kind_of other @
             '', not a JSON object; use value_format text to read it as one column''))))
   | FormatText \<Rightarrow> (case v of
        None \<Rightarrow> Inr [(''value'', JNull)]
      | Some bs \<Rightarrow> (case utf8 bs of
           Some t \<Rightarrow> Inr [(''value'', JString t)]
         | None \<Rightarrow> Inl (DataError (at @ '': the value is not UTF-8 text; use value_format bytes''))))
   | FormatBytes \<Rightarrow> Inr [(''value'', case v of None \<Rightarrow> JNull | Some bs \<Rightarrow> JString (base64_bytes bs))])"

definition key_text :: "(u8 list \<Rightarrow> str option) \<Rightarrow> u8 list option \<Rightarrow> json" where
  "key_text utf8 key = (case key of
     None \<Rightarrow> JNull
   | Some bs \<Rightarrow> JString (case utf8 bs of Some t \<Rightarrow> t | None \<Rightarrow> base64_bytes bs))"

definition format_of :: "json \<Rightarrow> connector_error + value_format" where
  "format_of properties = (let v = text_or properties ''value_format'' ''json''
     in if v = ''json'' then Inr FormatJson else if v = ''text'' then Inr FormatText
        else if v = ''bytes'' then Inr FormatBytes
        else Inl (PropertyError ''value_format'' (QT @ v @ QT @ '' is not one of json, text, bytes'')))"

section \<open>Base64 reads back\<close>

lemma letter_table: "list_all (\<lambda>(k, c). let b = of_nat (code c) :: u8
    in code c < (128 :: nat) \<and> b \<noteq> 61 \<and> \<not> is_whitespace c \<and> letter_value b = Some (of_nat k)) (enumerate 0 ALPHABET)"
  by (simp add: ALPHABET_def Let_def letter_value_def is_whitespace_def)

lemma letter_reads_back:
  "code (alphabet_at n) < (128 :: nat)" "of_nat (code (alphabet_at n)) \<noteq> (61 :: u8)" "\<not> is_whitespace (alphabet_at n)"
  "letter_value (of_nat (code (alphabet_at n))) = Some (n AND 63)"
proof -
  have "n AND 63 = take_bit 6 n" using take_bit_eq_mask [of 6 n] by (simp add: mask_eq_exp_minus_1)
  then have "unat (n AND 63) < 64" using take_bit_nat_less_exp [of 6 "unat n"] by (simp add: unsigned_take_bit_eq)
  moreover have "(of_nat (unat (n AND 63)) :: 32 word) = n AND 63" by simp
  ultimately show "code (alphabet_at n) < (128 :: nat)" "of_nat (code (alphabet_at n)) \<noteq> (61 :: u8)"
    "\<not> is_whitespace (alphabet_at n)" "letter_value (of_nat (code (alphabet_at n))) = Some (n AND 63)"
    using letter_table in_set_enumerate_eq [of "(unat (n AND 63), alphabet_at n)" 0 ALPHABET]
    by (auto simp: list_all_iff alphabet_at_def Let_def ALPHABET_def [THEN arg_cong, of length, simplified])
qed

text \<open>The letters of a chunk as bytes.\<close>

abbreviation ascii_bytes :: "str \<Rightarrow> u8 list" where
  "ascii_bytes t \<equiv> map (\<lambda>c. of_nat (code c)) t"

definition packed :: "u8 \<Rightarrow> u8 \<Rightarrow> u8 \<Rightarrow> 32 word" where
  "packed a b c = push_bit 16 (ucast a) OR push_bit 8 (ucast b) OR ucast c"

lemma mask_sextet: "m AND 63 = take_bit 6 m" for m :: "32 word"
  using take_bit_eq_mask [of 6 m] by (simp add: mask_eq_exp_minus_1)

lemma sextets:
  fixes n :: "32 word"
  shows "push_bit 6 (push_bit 6 (push_bit 6 (drop_bit 18 n AND 63) OR (drop_bit 12 n AND 63)) OR (drop_bit 6 n AND 63)) OR (n AND 63)
      = take_bit 24 n" (is ?four)
    "push_bit 6 (push_bit 6 (push_bit 6 (drop_bit 18 n AND 63) OR (drop_bit 12 n AND 63)) OR (drop_bit 6 n AND 63))
      = push_bit 6 (take_bit 18 (drop_bit 6 n))" (is ?three)
    "push_bit 12 (push_bit 6 (drop_bit 18 n AND 63) OR (drop_bit 12 n AND 63)) = push_bit 12 (take_bit 12 (drop_bit 12 n))"
      (is ?two)
proof -
  note cut = le_add_diff_inverse less_diff_conv2 not_less
  show ?four ?three ?two
    by (rule bit_word_eqI; rename_tac i; case_tac "i < 6"; case_tac "i < 12"; case_tac "i < 18"; simp add: mask_sextet bit_simps cut)+
qed

lemma unpacked:
  "ucast (drop_bit 16 (take_bit 24 (packed a b c))) = a" "ucast (drop_bit 8 (take_bit 24 (packed a b c))) = b"
  "ucast (take_bit 24 (packed a b c)) = c"
  "ucast (drop_bit 16 (push_bit 6 (take_bit 18 (drop_bit 6 (packed a b c))))) = a"
  "ucast (drop_bit 8 (push_bit 6 (take_bit 18 (drop_bit 6 (packed a b c))))) = b"
  "ucast (drop_bit 16 (push_bit 12 (take_bit 12 (drop_bit 12 (packed a b c))))) = a"
  by (rule bit_word_eqI; auto simp: packed_def bit_simps dest: bit_imp_le_length)+

lemma encode_chunks:
  "encode_chunk [a, b, c] = (let n = packed a b c in
     [alphabet_at (drop_bit 18 n), alphabet_at (drop_bit 12 n), alphabet_at (drop_bit 6 n), alphabet_at n])"
  "encode_chunk [a, b] = (let n = packed a b 0 in
     [alphabet_at (drop_bit 18 n), alphabet_at (drop_bit 12 n), alphabet_at (drop_bit 6 n), CHR ''=''])"
  "encode_chunk [a] = (let n = packed a 0 0 in
     [alphabet_at (drop_bit 18 n), alphabet_at (drop_bit 12 n), CHR ''='', CHR ''=''])"
  by (simp_all add: encode_chunk_def packed_def Let_def numeral_2_eq_2)

definition joined :: "32 word list \<Rightarrow> 32 word" where
  "joined ns = foldl (\<lambda>n m. push_bit 6 n OR (m AND 63)) 0 ns"

lemma letters_joined: "letters_value 0 (map (\<lambda>m. of_nat (code (alphabet_at m))) ns) = Some (joined ns)"
proof -
  have "letters_value n (map (\<lambda>m. of_nat (code (alphabet_at m))) ns) =
      Some (foldl (\<lambda>n m. push_bit 6 n OR (m AND 63)) n ns)" for n
    by (induction ns arbitrary: n) (simp_all add: letter_reads_back)
  then show ?thesis by (simp add: joined_def)
qed

lemma joined_sextets:
  "joined [drop_bit 18 n, drop_bit 12 n, drop_bit 6 n, n] = take_bit 24 n"
  "push_bit 6 (joined [drop_bit 18 n, drop_bit 12 n, drop_bit 6 n]) = push_bit 6 (take_bit 18 (drop_bit 6 n))"
  "push_bit 12 (joined [drop_bit 18 n, drop_bit 12 n]) = push_bit 12 (take_bit 12 (drop_bit 12 n))"
  by (simp_all only: joined_def foldl.simps push_bit_of_0 or.left_neutral sextets(1))
    (simp_all only: sextets(2,3))

lemma letters_cases:
  "letters_value 0 [of_nat (code (alphabet_at k)), of_nat (code (alphabet_at l)), of_nat (code (alphabet_at m)),
     of_nat (code (alphabet_at n))] = Some (joined [k, l, m, n])"
  "letters_value 0 [of_nat (code (alphabet_at k)), of_nat (code (alphabet_at l)), of_nat (code (alphabet_at m))]
     = Some (joined [k, l, m])"
  "letters_value 0 [of_nat (code (alphabet_at k)), of_nat (code (alphabet_at l))] = Some (joined [k, l])"
  using letters_joined [of "[k, l, m, n]"] letters_joined [of "[k, l, m]"] letters_joined [of "[k, l]"] by simp_all

lemma decode_chunk_encoded:
  "decode_chunk (ascii_bytes (encode_chunk [a, b, c])) final = Some [a, b, c]"
  "decode_chunk (ascii_bytes (encode_chunk [a, b])) True = Some [a, b]"
  "decode_chunk (ascii_bytes (encode_chunk [a])) True = Some [a]"
  by (simp_all add: encode_chunks decode_chunk_def Let_def letter_reads_back letters_cases joined_sextets unpacked
      del: letters_value.simps push_bit_numeral push_bit_of_Suc_0)

lemma encode_chunk_length: "length (encode_chunk bs) = 4"
  by (simp add: encode_chunk_def Let_def)

lemma decode_chunks_cons:
  assumes "length ls = 4"
  shows "decode_chunks (ls @ rest) =
    Option.bind (decode_chunk ls (rest = [])) (\<lambda>bs. map_option ((@) bs) (decode_chunks rest))"
proof -
  from assms obtain a b c d where "ls = [a, b, c, d]"
    by (auto simp: length_Suc_conv numeral_eq_Suc)
  then show ?thesis by simp
qed

lemma decode_chunks_encoded: "decode_chunks (ascii_bytes (base64_bytes bs)) = Some bs"
proof (induction bs rule: base64_bytes.induct)
  case (2 a)
  show ?case using decode_chunks_cons [of "ascii_bytes (encode_chunk [a])" "[]"]
    by (simp add: encode_chunk_length decode_chunk_encoded)
next
  case (3 a b)
  show ?case using decode_chunks_cons [of "ascii_bytes (encode_chunk [a, b])" "[]"]
    by (simp add: encode_chunk_length decode_chunk_encoded)
next
  case (4 a b c rest)
  then show ?case by (simp add: decode_chunks_cons encode_chunk_length decode_chunk_encoded)
qed simp

lemma padding_is_plain: "\<not> is_whitespace (CHR ''='')"
  by (simp add: is_whitespace_def)

lemma base64_letters: "c \<in> set (base64_bytes bs) \<Longrightarrow> code c < (128 :: nat) \<and> \<not> is_whitespace c"
proof (induction bs rule: base64_bytes.induct)
  case (2 a)
  then show ?case by (auto simp: encode_chunks Let_def letter_reads_back padding_is_plain)
next
  case (3 a b)
  then show ?case by (auto simp: encode_chunks Let_def letter_reads_back padding_is_plain)
next
  case (4 a b c rest)
  then show ?case by (auto simp: encode_chunks Let_def letter_reads_back)
qed simp

lemma as_bytes_ascii: "\<forall>c \<in> set t. code c < (128 :: nat) \<Longrightarrow> as_bytes t = ascii_bytes t"
  by (induction t) (simp_all add: as_bytes_def utf8_char_def)

lemma base64_length: "length (base64_bytes bs) mod 4 = 0"
  by (induction bs rule: base64_bytes.induct) (simp_all add: encode_chunk_length)

text \<open>What was encoded decodes to the same bytes, whatever they are.\<close>

lemma base64_reads_back: "base64_decode (base64_bytes bs) = Some bs"
proof -
  have "trim (base64_bytes bs) = base64_bytes bs"
    using base64_letters [of _ bs] by (intro trim_id) (cases "base64_bytes bs = []"; auto)
  moreover have "as_bytes (base64_bytes bs) = ascii_bytes (base64_bytes bs)"
    using base64_letters by (intro as_bytes_ascii) auto
  ultimately show ?thesis
    using base64_length [of bs] decode_chunks_encoded by (simp add: base64_decode_def Let_def)
qed

end
