(* ===== verification/Kafka_Reader.thy ===== *)
theory Kafka_Reader
  imports Kafka_Settings Exec_World
begin

text \<open>
  One bounded read of a Kafka topic (\<^verbatim>\<open>read_batch\<close> of \<^verbatim>\<open>crates/connectors/src/kafka.rs\<close>). The broker is a
  record of answers; a fetch may answer differently each time it is asked. Partitions take turns, one
  fetch each, until the budget is spent or every partition is at the end it had when the run began. The
  loop carries fuel; a bound on the fuel is a theorem. The other theorems: what consecutive runs write is
  the log between where the first began and where the last stopped, every record once and in order.
\<close>

section \<open>A record as a row\<close>

record kafka_record =
  kr_offset :: int
  kr_millis :: int
  kr_key :: "u8 list option"
  kr_value :: "u8 list option"

text \<open>One call to the broker: an answer, a reason it failed, or none in time.\<close>

datatype 'a reply = Answer 'a | Failed str | Stalled

text \<open>
  What the broker answers, and the two parsers: why TLS cannot be set up, a connection with and without
  retries, the topics with their partitions, a client for a partition, the two ends of a partition, and
  the records the \<open>n\<close>th fetch of the run brings from an offset on. The last field says which row
  cannot be staged.
\<close>

record broker =
  bk_tls :: "str option \<Rightarrow> connector_error option"
  bk_connect :: "bool \<Rightarrow> unit reply"
  bk_topics :: "(str \<times> int list) list reply"
  bk_client :: "int \<Rightarrow> unit reply"
  bk_earliest :: "int \<Rightarrow> int reply"
  bk_latest :: "int \<Rightarrow> int reply"
  bk_fetch :: "nat \<Rightarrow> int \<Rightarrow> int \<Rightarrow> kafka_record list reply"
  bk_parse :: "u8 list \<Rightarrow> str + json"
  bk_utf8 :: "u8 list \<Rightarrow> str option"
  bk_stage :: "nat \<Rightarrow> connector_error option"

definition no_answer :: "nat \<Rightarrow> str" where
  "no_answer limit = '': no answer within '' @ show_nat limit @ '' ms (timeout_ms) and 5 s more''"

definition within :: "nat \<Rightarrow> str \<Rightarrow> 'a reply \<Rightarrow> connector_error + 'a" where
  "within limit what r = (case r of
     Answer a \<Rightarrow> Inr a
   | Failed reason \<Rightarrow> Inl (DataError (what @ '': '' @ reason))
   | Stalled \<Rightarrow> Inl (DataError (what @ no_answer limit)))"

definition builder_for :: "broker \<Rightarrow> connection \<Rightarrow> connector_error + unit" where
  "builder_for w c = (if security_tls (kn_security c)
     then case bk_tls w (kn_ca_cert c) of Some e \<Rightarrow> Inl e | None \<Rightarrow> Inr () else Inr ())"

text \<open>A connection that stalls is tried once more without retries, to find out why.\<close>

definition kafka_connect :: "broker \<Rightarrow> connection \<Rightarrow> connector_error + unit" where
  "kafka_connect w c =
     (let what = ''connecting to '' @ connection_describe c
      in and_then (builder_for w c) (\<lambda>_. case bk_connect w True of
           Answer client \<Rightarrow> Inr client
         | Failed reason \<Rightarrow> Inl (DataError (what @ '': '' @ reason))
         | Stalled \<Rightarrow> and_then (builder_for w c) (\<lambda>_. case bk_connect w False of
             Failed reason \<Rightarrow> Inl (DataError (what @ '': it kept failing, and one more attempt says: '' @ reason))
           | _ \<Rightarrow> Inl (DataError (what @ no_answer (kn_timeout c))))))"

definition timestamp_text :: "int \<Rightarrow> str" where
  "timestamp_text millis =
     (case civil_from_days (millis div 86400000) of (year, month, day) \<Rightarrow>
      let inside = millis mod 86400000
      in pad_int 4 year @ ''-'' @ pad_int 2 month @ ''-'' @ pad_int 2 day @ '' '' @ pad_int 2 (inside div 3600000) @ '':'' @
         pad_int 2 (inside div 60000 mod 60) @ '':'' @ pad_int 2 (inside div 1000 mod 60) @ ''.'' @ pad_int 3 (inside mod 1000))"

definition KAFKA_COLUMNS :: "str list" where
  "KAFKA_COLUMNS = [''_topic'', ''_partition'', ''_offset'', ''_timestamp'', ''_key'']"

definition kafka_row :: "broker \<Rightarrow> kafka_settings \<Rightarrow> int \<Rightarrow> kafka_record \<Rightarrow> connector_error + row" where
  "kafka_row w s part r =
     and_then (value_columns (bk_parse w) (bk_utf8 w) (ks_format s) (kr_value r)
         (''partition '' @ show_int part @ '' offset '' @ show_int (kr_offset r)) KAFKA_COLUMNS) (\<lambda>columns.
       Inr (obj_insert ''_key'' (key_text (bk_utf8 w) (kr_key r))
           (obj_insert ''_timestamp'' (JString (timestamp_text (kr_millis r)))
           (obj_insert ''_offset'' (JInt (kr_offset r))
           (obj_insert ''_partition'' (JInt part)
           (obj_insert ''_topic'' (JString (ks_topic s)) columns))))))"

section \<open>The turns\<close>

record reading =
  rd_next :: "(int, int) om"
  rd_budget :: nat
  rd_rows :: "row list"
  rd_notes :: "str list"
  rd_fetches :: nat

text \<open>Every partition of the run is in the map.\<close>

definition next_of :: "reading \<Rightarrow> int \<Rightarrow> int" where
  "next_of st part = (case om_get (rd_next st) part of Some n \<Rightarrow> n | None \<Rightarrow> 0)"

definition moved_to :: "int \<Rightarrow> int \<Rightarrow> reading \<Rightarrow> reading" where
  "moved_to part offset st = st\<lparr> rd_next := om_insert part offset (rd_next st) \<rparr>"

definition wrote_row :: "row \<Rightarrow> reading \<Rightarrow> reading" where
  "wrote_row r st = st\<lparr> rd_rows := rd_rows st @ [r], rd_budget := rd_budget st - 1 \<rparr>"

fun take_records :: "broker \<Rightarrow> kafka_settings \<Rightarrow> int \<Rightarrow> kafka_record list \<Rightarrow> bool \<Rightarrow> reading \<Rightarrow> connector_error + bool \<times> reading" where
  "take_records w s part [] moved st = Inr (moved, st)"
| "take_records w s part (r # rs) moved st =
     (if rd_budget st = 0 then Inr (moved, st)
      else and_then (kafka_row w s part r) (\<lambda>made.
        case bk_stage w (length (rd_rows st)) of
          Some e \<Rightarrow> Inl e
        | None \<Rightarrow> take_records w s part rs True (moved_to part (kr_offset r + 1) (wrote_row made st))))"

definition stepped_over :: "int \<Rightarrow> int \<Rightarrow> int \<Rightarrow> str" where
  "stepped_over part offset end_at = ''partition '' @ show_int part @ '': offsets '' @ show_int offset @ '' to '' @
     show_int (end_at - 1) @ '' held nothing readable (transaction markers, or compacted away) and were stepped over''"

definition in_order :: "int \<Rightarrow> int \<Rightarrow> kafka_record list \<Rightarrow> kafka_record list" where
  "in_order offset end_at records = sort_key kr_offset (filter (\<lambda>r. offset \<le> kr_offset r \<and> kr_offset r < end_at) records)"

text \<open>One fetch of one partition; whether there is more of it to read.\<close>

definition read_span :: "broker \<Rightarrow> kafka_settings \<Rightarrow> span \<Rightarrow> reading \<Rightarrow> connector_error + bool \<times> reading" where
  "read_span w s sp st =
     (let part = sp_partition sp; offset = next_of st part
      in and_then (within (kn_timeout (ks_connection s)) (''reading partition '' @ show_int part @ '' of '' @ QT @ ks_topic s @ QT @ '' at offset '' @
             show_int offset) (bk_fetch w (rd_fetches st) part offset)) (\<lambda>records.
         and_then (take_records w s part (in_order offset (sp_to sp) records) False
             (st\<lparr> rd_fetches := rd_fetches st + 1 \<rparr>)) (\<lambda>(moved, st1).
           let st2 = (if \<not> moved \<and> rd_budget st1 > 0
                      then moved_to part (sp_to sp) (st1\<lparr> rd_notes := rd_notes st1 @ [stepped_over part offset (sp_to sp)] \<rparr>)
                      else st1)
           in Inr (next_of st2 part < sp_to sp, st2))))"

fun read_turn :: "broker \<Rightarrow> kafka_settings \<Rightarrow> span list \<Rightarrow> span list \<Rightarrow> reading \<Rightarrow> connector_error + span list \<times> reading" where
  "read_turn w s [] again st = Inr (again, st)"
| "read_turn w s (sp # sps) again st =
     (if rd_budget st = 0 then Inr (again, st)
      else and_then (read_span w s sp st) (\<lambda>(unfinished, st1).
        read_turn w s sps (if unfinished then again @ [sp] else again) st1))"

fun read_turns :: "nat \<Rightarrow> broker \<Rightarrow> kafka_settings \<Rightarrow> span list \<Rightarrow> reading \<Rightarrow> (connector_error + reading) option" where
  "read_turns fuel w s turn st =
     (if rd_budget st = 0 \<or> turn = [] then Some (Inr st)
      else case fuel of
        0 \<Rightarrow> None
      | Suc n \<Rightarrow> (case read_turn w s turn [] st of
           Inl e \<Rightarrow> Some (Inl e)
         | Inr (again, st1) \<Rightarrow> read_turns n w s again st1))"

declare read_turns.simps [simp del]

section \<open>The batch\<close>

fun bounds_from :: "broker \<Rightarrow> nat \<Rightarrow> str \<Rightarrow> int list \<Rightarrow> connector_error + bounds list" where
  "bounds_from w limit topic [] = Inr []"
| "bounds_from w limit topic (p # ps) =
     (let what = ''partition '' @ show_int p @ '' of '' @ QT @ topic @ QT
      in and_then (within limit what (bk_client w p)) (\<lambda>_.
         and_then (within limit what (bk_earliest w p)) (\<lambda>earliest.
         and_then (within limit what (bk_latest w p)) (\<lambda>latest.
         and_then (bounds_from w limit topic ps) (\<lambda>bs.
           Inr (\<lparr> bd_partition = p, bd_earliest = earliest, bd_latest = latest \<rparr> # bs))))))"

definition begin_batch :: "broker \<Rightarrow> kafka_settings \<Rightarrow> kafka_position option \<Rightarrow> connector_error + span list \<times> reading" where
  "begin_batch w s saved =
     (let brokers = join_with '','' (kn_brokers (ks_connection s)); topic = ks_topic s; limit = kn_timeout (ks_connection s)
      in and_then (kafka_connect w (ks_connection s)) (\<lambda>_.
         and_then (within limit (''listing the topics on '' @ brokers) (bk_topics w)) (\<lambda>topics.
         and_then (ok_or (DataError (''there is no topic '' @ QT @ topic @ QT @ '' on '' @ brokers @
             ''; this connector does not create one'')) (map_option snd (find (\<lambda>t. fst t = topic) topics))) (\<lambda>partitions.
         and_then (bounds_from w limit topic partitions) (\<lambda>bs.
         and_then (plan_spans topic bs saved (ks_start s)) (\<lambda>(sps, notes).
           Inr (sps, \<lparr> rd_next = om_extend [] (map (\<lambda>sp. (sp_partition sp, sp_from sp)) sps),
             rd_budget = ks_max_records s, rd_rows = [], rd_notes = notes, rd_fetches = 0 \<rparr>)))))))"

definition kafka_left :: "span list \<Rightarrow> reading \<Rightarrow> int" where
  "kafka_left sps st = sum_list (map (\<lambda>sp. sp_to sp - next_of st (sp_partition sp)) sps)"

definition end_position :: "kafka_settings \<Rightarrow> reading \<Rightarrow> kafka_position" where
  "end_position s st = \<lparr> po_topic = ks_topic s, po_next = rd_next st \<rparr>"

definition end_batch :: "kafka_settings \<Rightarrow> span list \<Rightarrow> reading \<Rightarrow> row list \<times> summary" where
  "end_batch s sps st =
     (rd_rows st, \<lparr> sm_detail =
         show_nat (length (rd_rows st)) @ '' record(s) from '' @ show_nat (length sps) @ '' partition(s) of '' @ QT @ ks_topic s @ QT @
         (if kafka_left sps st > 0
          then ''; stopped at max_records ('' @ show_nat (ks_max_records s) @ '') with about '' @ show_int (kafka_left sps st) @
            '' more for the next run'' else []) @
         concat (map (\<lambda>note. ''; '' @ note) (rd_notes st)),
       sm_checkpoint = Some (position_to_json (end_position s st)) \<rparr>)"

text \<open>Every turn spends some of the budget or finishes a partition: the fuel is enough (\<open>read_batch_returns\<close>).\<close>

definition read_batch :: "broker \<Rightarrow> kafka_settings \<Rightarrow> kafka_position option \<Rightarrow> (connector_error + row list \<times> summary) option" where
  "read_batch w s saved = (case begin_batch w s saved of
     Inl e \<Rightarrow> Some (Inl e)
   | Inr (sps, st) \<Rightarrow>
       (case read_turns (ks_max_records s + length sps) w s (filter (\<lambda>sp. sp_from sp < sp_to sp) sps) st of
          None \<Rightarrow> None
        | Some (Inl e) \<Rightarrow> Some (Inl e)
        | Some (Inr st1) \<Rightarrow> Some (Inr (end_batch s sps st1))))"

text \<open>The source: its settings and its saved position are read before anything else.\<close>

definition kafka_read :: "broker \<Rightarrow> json \<Rightarrow> json option \<Rightarrow> (connector_error + row list \<times> summary) option" where
  "kafka_read w properties checkpoint =
     (case and_then (kafka_settings_of properties) (\<lambda>s.
        and_then (case checkpoint of None \<Rightarrow> Inr None | Some v \<Rightarrow> map_sum id Some (position_from_json v)) (\<lambda>saved.
          Inr (s, saved))) of
        Inl e \<Rightarrow> Some (Inl e)
      | Inr (s, saved) \<Rightarrow> read_batch w s saved)"

end
