(* ===== verification/Kafka_Facts.thy ===== *)
theory Kafka_Facts
  imports Kafka_Reader "HOL-Library.Multiset" "HOL-Library.Sublist"
begin

text \<open>
  What a bounded read of a Kafka topic amounts to. A batch always returns, whatever the broker answers.
  Against a broker that serves one log, a batch writes, of every partition, the records between the
  offset it began at and the one it hands on, each once and in order, but for the stretch behind a fetch
  that brought nothing (the reader steps over it and says so). Consecutive runs together write the log
  without a repeat, and without a gap that no report names. \<open>serves\<close> is what a broker documents: the
  ends of a partition are offsets, and a fetch brings the records of a stretch that begins no later than
  the offset asked for; it may bring none.
\<close>

lemmas sum_steps = and_then_eq_Inr_iff

section \<open>Every batch returns\<close>

lemma take_records_budget:
  "take_records w s p rs moved st = Inr (moved', st') \<Longrightarrow>
     rd_budget st' \<le> rd_budget st \<and> (moved' \<longrightarrow> moved \<or> rd_budget st' < rd_budget st)"
proof (induction rs arbitrary: moved st)
  case (Cons r rs)
  then show ?case
    by (fastforce simp: sum_steps wrote_row_def moved_to_def split: if_splits option.splits)
qed simp

lemma read_span_budget:
  assumes "read_span w s sp st = Inr (unfinished, st')" "rd_budget st > 0"
  shows "rd_budget st' \<le> rd_budget st" "unfinished \<Longrightarrow> rd_budget st' < rd_budget st"
proof -
  from assms(1) obtain rs moved st1 where took: "take_records w s (sp_partition sp) rs False
        (st\<lparr> rd_fetches := rd_fetches st + 1 \<rparr>) = Inr (moved, st1)"
    and st': "st' = (if \<not> moved \<and> rd_budget st1 > 0
        then moved_to (sp_partition sp) (sp_to sp) (st1\<lparr> rd_notes := rd_notes st1 @
          [stepped_over (sp_partition sp) (next_of st (sp_partition sp)) (sp_to sp)] \<rparr>) else st1)"
    and unfinished: "unfinished \<longleftrightarrow> next_of st' (sp_partition sp) < sp_to sp"
    by (auto simp: read_span_def Let_def sum_steps split del: if_split)
  from take_records_budget [OF took] show "rd_budget st' \<le> rd_budget st"
    by (simp add: st' moved_to_def)
  have "\<not> unfinished" if "\<not> moved" "rd_budget st1 > 0"
    using that by (simp add: unfinished st' moved_to_def next_of_def om_get_insert)
  with take_records_budget [OF took] assms(2) show "unfinished \<Longrightarrow> rd_budget st' < rd_budget st"
    by (cases moved) (auto simp: st' moved_to_def)
qed

lemma read_turn_budget:
  "read_turn w s sps again st = Inr (again', st') \<Longrightarrow>
     rd_budget st' + length again' + (if sps \<noteq> [] \<and> rd_budget st > 0 then 1 else 0) \<le> rd_budget st + length again + length sps"
proof (induction sps arbitrary: again st)
  case (Cons sp sps)
  show ?case
  proof (cases "rd_budget st = 0")
    case False
    with Cons.prems obtain unfinished st1 where one: "read_span w s sp st = Inr (unfinished, st1)"
      and rest: "read_turn w s sps (if unfinished then again @ [sp] else again) st1 = Inr (again', st')"
      by (auto simp: sum_steps)
    from Cons.IH [OF rest] read_span_budget [OF one] False show ?thesis by (auto split: if_splits)
  qed (use Cons.prems in auto)
qed simp

lemma read_turns_return: "rd_budget st + length turn \<le> fuel \<Longrightarrow> read_turns fuel w s turn st \<noteq> None"
proof (induction fuel arbitrary: turn st)
  case 0
  then show ?case by (simp add: read_turns.simps)
next
  case (Suc fuel)
  show ?case
  proof (cases "read_turn w s turn [] st")
    case (Inr r)
    obtain again st1 where r: "r = (again, st1)" by force
    show ?thesis
    proof (cases "rd_budget st = 0 \<or> turn = []")
      case False
      then have "rd_budget st1 + length again \<le> fuel"
        using read_turn_budget [OF Inr [unfolded r]] Suc.prems by auto
      from Suc.IH [OF this] False Inr r show ?thesis by (subst read_turns.simps) simp
    qed (simp add: read_turns.simps)
  qed (simp add: read_turns.simps)
qed

lemma begin_batch_budget: "begin_batch w s saved = Inr (sps, st) \<Longrightarrow> rd_budget st = ks_max_records s"
  by (auto simp: begin_batch_def Let_def sum_steps)

lemma read_batch_returns: "read_batch w s saved \<noteq> None"
proof (cases "begin_batch w s saved")
  case (Inr r)
  obtain sps st where r: "r = (sps, st)" by force
  have "length (filter (\<lambda>sp. sp_from sp < sp_to sp) sps) \<le> length sps" by (rule length_filter_le)
  then have "rd_budget st + length (filter (\<lambda>sp. sp_from sp < sp_to sp) sps) \<le> ks_max_records s + length sps"
    using begin_batch_budget [OF Inr [unfolded r]] by simp
  from read_turns_return [OF this, of w s] Inr r show ?thesis
    by (auto simp: read_batch_def split: option.splits sum.splits)
qed (simp add: read_batch_def)

section \<open>A stretch of the log\<close>

type_synonym kafka_log = "int \<Rightarrow> kafka_record option"

definition log_range :: "kafka_log \<Rightarrow> int \<Rightarrow> int \<Rightarrow> kafka_record list" where
  "log_range L a b = List.map_filter L [a..b - 1]"

definition wf_log :: "kafka_log \<Rightarrow> bool" where
  "wf_log L \<longleftrightarrow> (\<forall>offset r. L offset = Some r \<longrightarrow> kr_offset r = offset)"

lemma map_filter_append: "List.map_filter f (xs @ ys) = List.map_filter f xs @ List.map_filter f ys"
  by (simp add: map_filter_def)

lemma log_range_empty [simp]: "b \<le> a \<Longrightarrow> log_range L a b = []"
  by (simp add: log_range_def map_filter_def)

lemma log_range_join: "a \<le> b \<Longrightarrow> b \<le> c \<Longrightarrow> log_range L a b @ log_range L b c = log_range L a c"
  using upto_split1 [of a b "c - 1"] by (cases "b = c") (auto simp: log_range_def map_filter_append [symmetric])

lemma set_log_range: "set (log_range L a b) = {r. \<exists>x. a \<le> x \<and> x < b \<and> L x = Some r}"
  by (force simp: log_range_def map_filter_def image_iff)

lemma log_range_filter:
  assumes "wf_log L" "a \<le> n" "n \<le> e"
  shows "filter (\<lambda>r. n \<le> kr_offset r \<and> kr_offset r < b) (log_range L a e) = log_range L n (min e b)"
proof -
  have "filter (\<lambda>r. n \<le> kr_offset r \<and> kr_offset r < b) (List.map_filter L xs)
      = List.map_filter L (filter (\<lambda>x. n \<le> x \<and> x < b) xs)" for xs
    using assms(1) by (induction xs) (auto simp: map_filter_def wf_log_def)
  moreover have "filter (\<lambda>x. n \<le> x \<and> x < b) [a..e - 1] = [n..min e b - 1]"
    by (rule sorted_distinct_set_unique) (use assms in \<open>auto intro: sorted_filter [where f = id, simplified]\<close>)
  ultimately show ?thesis by (simp add: log_range_def)
qed

lemma log_range_offsets: "wf_log L \<Longrightarrow> map kr_offset (log_range L a b) = filter (\<lambda>x. L x \<noteq> None) [a..b - 1]"
proof -
  assume "wf_log L"
  then have "map kr_offset (List.map_filter L xs) = filter (\<lambda>x. L x \<noteq> None) xs" for xs
    by (induction xs) (auto simp: map_filter_def wf_log_def)
  then show ?thesis by (simp add: log_range_def)
qed

lemma log_range_Cons:
  assumes "wf_log L" "log_range L a b = r # rs"
  shows "a \<le> kr_offset r" "kr_offset r < b" "log_range L a (kr_offset r + 1) = [r]" "log_range L (kr_offset r + 1) b = rs"
proof -
  have "r \<in> set (log_range L a b)" using assms(2) by simp
  then obtain x where x: "a \<le> x" "x < b" "L x = Some r" by (auto simp: set_log_range)
  then have r: "kr_offset r = x" using assms(1) by (simp add: wf_log_def)
  have below: "log_range L a x = []"
  proof (cases "log_range L a x")
    case (Cons q qs)
    then have "q \<in> set (log_range L a x)" by simp
    then obtain y where "y < x" "L y = Some q" by (auto simp: set_log_range)
    then have "kr_offset q < x" using assms(1) by (auto simp: wf_log_def)
    moreover have "q = r" using log_range_join [of a x b L] x assms(2) Cons by simp
    ultimately show ?thesis using r by simp
  qed simp
  have one: "log_range L x (x + 1) = [r]" using x by (simp add: log_range_def map_filter_def)
  show "a \<le> kr_offset r" "kr_offset r < b" using x r by simp_all
  show here: "log_range L a (kr_offset r + 1) = [r]" using log_range_join [of a x "x + 1" L] below one x r by simp
  show "log_range L (kr_offset r + 1) b = rs"
    using log_range_join [of a "x + 1" b L] here x r assms(2) by simp
qed

section \<open>A broker that serves the log\<close>

definition serves :: "broker \<Rightarrow> str \<Rightarrow> int list \<Rightarrow> (int \<Rightarrow> kafka_log) \<Rightarrow> bool" where
  "serves w topic ps log \<longleftrightarrow>
     (\<forall>topics. bk_topics w = Answer topics \<longrightarrow> map_option snd (find (\<lambda>t. fst t = topic) topics) = Some ps) \<and>
     (\<forall>p e. bk_earliest w p = Answer e \<longrightarrow> 0 \<le> e \<and> e < 2 ^ 63) \<and> (\<forall>p e. bk_latest w p = Answer e \<longrightarrow> 0 \<le> e \<and> e < 2 ^ 63) \<and>
     (\<forall>n p offset rs. bk_fetch w n p offset = Answer rs \<longrightarrow>
        (\<exists>a e. a \<le> offset \<and> offset \<le> e \<and> mset rs = mset (log_range (log p) a e)))"

lemma serves_fetch:
  assumes "serves w topic ps log" "wf_log (log p)" "bk_fetch w n p offset = Answer rs"
  obtains e where "offset \<le> e" "in_order offset end_at rs = log_range (log p) offset (min e end_at)"
proof -
  from assms(1,3) obtain a e where ae: "a \<le> offset" "offset \<le> e" and same: "mset rs = mset (log_range (log p) a e)"
    unfolding serves_def by blast
  let ?P = "\<lambda>r. offset \<le> kr_offset r \<and> kr_offset r < end_at"
  have kept: "filter ?P (log_range (log p) a e) = log_range (log p) offset (min e end_at)"
    by (rule log_range_filter [OF assms(2) ae])
  have "mset (filter ?P rs) = mset (log_range (log p) offset (min e end_at))"
    using same kept by (metis mset_filter)
  moreover have "sorted (map kr_offset (log_range (log p) offset (min e end_at)))"
    by (simp add: log_range_offsets [OF assms(2)] sorted_filter [where f = id, simplified])
  moreover have "inj_on kr_offset (set (filter ?P rs))"
  proof -
    have "distinct (map kr_offset (log_range (log p) offset (min e end_at)))"
      by (simp add: log_range_offsets [OF assms(2)])
    then show ?thesis using calculation(1) by (metis distinct_map mset_eq_setD)
  qed
  ultimately have "in_order offset end_at rs = log_range (log p) offset (min e end_at)"
    unfolding in_order_def by (intro sort_key_inj_key_eq) simp_all
  then show ?thesis using ae(2) that by simp
qed

section \<open>One batch\<close>

text \<open>Rows told as the records they were made from, each with its partition.\<close>

definition rows_of :: "broker \<Rightarrow> kafka_settings \<Rightarrow> (int \<times> kafka_record) list \<Rightarrow> row list \<Rightarrow> bool" where
  "rows_of w s recs rows \<longleftrightarrow> list_all2 (\<lambda>(p, r) made. kafka_row w s p r = Inr made) recs rows"

definition of_partition :: "int \<Rightarrow> (int \<times> kafka_record) list \<Rightarrow> kafka_record list" where
  "of_partition p recs = map snd (filter (\<lambda>(q, r). q = p) recs)"

lemma of_partition_append [simp]: "of_partition p (xs @ ys) = of_partition p xs @ of_partition p ys"
  by (simp add: of_partition_def)

lemma of_partition_pairs [simp]: "of_partition p (map (Pair q) rs) = (if p = q then rs else [])"
  by (auto simp: of_partition_def comp_def filter_map)

lemma next_of_moved [simp]: "next_of (moved_to q offset st) p = (if p = q then offset else next_of st p)"
  by (simp add: next_of_def moved_to_def om_get_insert)

lemma next_of_rest [simp]: "next_of (st\<lparr> rd_fetches := n \<rparr>) p = next_of st p" "next_of (st\<lparr> rd_notes := m \<rparr>) p = next_of st p"
  by (simp_all add: next_of_def)

lemma moved_to_notes: "rd_notes (moved_to q offset st) = rd_notes st"
  by (simp add: moved_to_def)

lemma moved_to_rest [simp]:
  "rd_rows (moved_to q offset st) = rd_rows st" "rd_budget (moved_to q offset st) = rd_budget st"
  "next_of (wrote_row made st) p = next_of st p" "rd_rows (wrote_row made st) = rd_rows st @ [made]"
  by (simp_all add: moved_to_def wrote_row_def next_of_def)

text \<open>Taking the records of a stretch writes the first of them and moves the offset past the last one written.\<close>

lemma take_records_log:
  assumes "wf_log L" "take_records w s p rs moved st = Inr (moved', st')" "rs = log_range L (next_of st p) b"
    "rows_of w s recs (rd_rows st)"
  shows "next_of st p \<le> next_of st' p" "next_of st' p \<le> max (next_of st p) b"
    "\<And>q. q \<noteq> p \<Longrightarrow> next_of st' q = next_of st q"
    "rows_of w s (recs @ map (Pair p) (log_range L (next_of st p) (next_of st' p))) (rd_rows st')"
    "\<not> moved' \<Longrightarrow> rd_budget st' > 0 \<Longrightarrow> rs = []"
proof -
  have "next_of st p \<le> next_of st' p \<and> next_of st' p \<le> max (next_of st p) b \<and>
      (\<forall>q. q \<noteq> p \<longrightarrow> next_of st' q = next_of st q) \<and>
      rows_of w s (recs @ map (Pair p) (log_range L (next_of st p) (next_of st' p))) (rd_rows st') \<and>
      (\<not> moved' \<longrightarrow> rd_budget st' > 0 \<longrightarrow> rs = [] \<and> \<not> moved) \<and> (moved \<longrightarrow> moved')"
    using assms(2-4)
  proof (induction rs arbitrary: moved st recs)
    case (Cons r rs)
    note range = log_range_Cons [OF assms(1) Cons.prems(2) [symmetric]]
    show ?case
    proof (cases "rd_budget st = 0")
      case False
      define st1 where "st1 made = moved_to p (kr_offset r + 1) (wrote_row made st)" for made
      from False Cons.prems(1) obtain made where made: "kafka_row w s p r = Inr made"
        and rest: "take_records w s p rs True (st1 made) = Inr (moved', st')"
        by (auto simp: sum_steps st1_def split: option.splits)
      have "rows_of w s (recs @ [(p, r)]) (rd_rows (st1 made))"
        using Cons.prems(3) made by (simp add: rows_of_def st1_def list_all2_appendI)
      from Cons.IH [OF rest _ this] range(4)
      have step: "kr_offset r + 1 \<le> next_of st' p" "next_of st' p \<le> max (kr_offset r + 1) b"
        "\<forall>q. q \<noteq> p \<longrightarrow> next_of st' q = next_of st q" moved'
        "rows_of w s ((recs @ [(p, r)]) @ map (Pair p) (log_range L (kr_offset r + 1) (next_of st' p))) (rd_rows st')"
        by (simp_all add: st1_def)
      moreover have "[r] @ log_range L (kr_offset r + 1) (next_of st' p) = log_range L (next_of st p) (next_of st' p)"
        using log_range_join [of "next_of st p" "kr_offset r + 1" "next_of st' p" L] range step(1) by simp
      ultimately show ?thesis using range(1,2) by (simp flip: append_assoc) (metis append_assoc append_Cons append_Nil list.simps(9))
    qed (use Cons.prems(1,3) in simp)
  qed simp
  then show "next_of st p \<le> next_of st' p" "next_of st' p \<le> max (next_of st p) b"
    "\<And>q. q \<noteq> p \<Longrightarrow> next_of st' q = next_of st q"
    "rows_of w s (recs @ map (Pair p) (log_range L (next_of st p) (next_of st' p))) (rd_rows st')"
    "\<not> moved' \<Longrightarrow> rd_budget st' > 0 \<Longrightarrow> rs = []" by simp_all
qed

lemma take_records_notes: "take_records w s p rs moved st = Inr (moved', st') \<Longrightarrow> rd_notes st' = rd_notes st"
  by (induction rs arbitrary: moved st) (auto simp: sum_steps wrote_row_def moved_to_def split: if_splits option.splits)

text \<open>
  The invariant of the loop: of every partition, the rows so far are its records from where the run
  began to where it is, or to where a fetch brought nothing: then the run is at the end, and a note says
  what it stepped over.
\<close>

definition came_empty :: "broker \<Rightarrow> int \<Rightarrow> int \<Rightarrow> int \<Rightarrow> bool" where
  "came_empty w p x y \<longleftrightarrow> bk_latest w p = Answer y \<and>
     (\<exists>n rs. bk_fetch w n p x = Answer rs \<and> (\<forall>r \<in> set rs. kr_offset r < x \<or> y \<le> kr_offset r))"

definition read_to :: "broker \<Rightarrow> kafka_log \<Rightarrow> int \<Rightarrow> kafka_record list \<Rightarrow> int \<Rightarrow> int \<Rightarrow> str list \<Rightarrow> bool" where
  "read_to w L p rs a b said \<longleftrightarrow> (\<exists>x. a \<le> x \<and> x \<le> b \<and> rs = log_range L a x \<and>
     (x < b \<longrightarrow> came_empty w p x b \<and> stepped_over p x b \<in> set said))"

lemma read_to_says_more: "read_to w L p rs a b said \<Longrightarrow> set said \<subseteq> set said' \<Longrightarrow> read_to w L p rs a b said'"
  unfolding read_to_def by blast

definition batch_so_far :: "broker \<Rightarrow> kafka_settings \<Rightarrow> (int \<Rightarrow> kafka_log) \<Rightarrow> span list \<Rightarrow> (int \<times> kafka_record) list \<Rightarrow> reading \<Rightarrow> bool" where
  "batch_so_far w s log sps recs st \<longleftrightarrow> rows_of w s recs (rd_rows st) \<and>
     (\<forall>sp \<in> set sps. sp_from sp \<le> next_of st (sp_partition sp) \<and> next_of st (sp_partition sp) \<le> max (sp_from sp) (sp_to sp) \<and>
        read_to w (log (sp_partition sp)) (sp_partition sp) (of_partition (sp_partition sp) recs)
          (sp_from sp) (next_of st (sp_partition sp)) (rd_notes st))"

definition ends_at :: "broker \<Rightarrow> span list \<Rightarrow> bool" where
  "ends_at w sps \<longleftrightarrow> distinct (map sp_partition sps) \<and> (\<forall>sp \<in> set sps. bk_latest w (sp_partition sp) = Answer (sp_to sp))"

lemma advanced:
  assumes "batch_so_far w s log sps recs st" "distinct (map sp_partition sps)" "sp \<in> set sps"
    "next_of st (sp_partition sp) \<le> offset" "offset \<le> max (sp_from sp) (sp_to sp)"
    "\<And>q. next_of st' q = (if q = sp_partition sp then offset else next_of st q)"
    "rows_of w s (recs @ map (Pair (sp_partition sp)) new) (rd_rows st')" "set (rd_notes st) \<subseteq> set (rd_notes st')"
    "read_to w (log (sp_partition sp)) (sp_partition sp) (of_partition (sp_partition sp) recs @ new) (sp_from sp) offset (rd_notes st')"
  shows "batch_so_far w s log sps (recs @ map (Pair (sp_partition sp)) new) st'"
proof -
  have other: "sp_partition sp' \<noteq> sp_partition sp" if "sp' \<in> set sps" "sp' \<noteq> sp" for sp'
    using that assms(2,3) by (auto simp: distinct_map dest: inj_onD)
  have here: "sp_from sp \<le> next_of st (sp_partition sp)" using assms(1,3) by (auto simp: batch_so_far_def)
  show ?thesis
    unfolding batch_so_far_def
  proof (intro conjI ballI)
    fix sp' assume sp': "sp' \<in> set sps"
    note there = assms(1) [unfolded batch_so_far_def, THEN conjunct2, THEN bspec, OF sp']
    show "sp_from sp' \<le> next_of st' (sp_partition sp')" "next_of st' (sp_partition sp') \<le> max (sp_from sp') (sp_to sp')"
      "read_to w (log (sp_partition sp')) (sp_partition sp') (of_partition (sp_partition sp') (recs @ map (Pair (sp_partition sp)) new))
         (sp_from sp') (next_of st' (sp_partition sp')) (rd_notes st')"
      using there other [OF sp'] here assms(4,5,9) read_to_says_more [OF _ assms(8)]
      by (cases "sp' = sp"; simp add: assms(6))+
  qed (rule assms(7))
qed

lemma in_order_empty: "in_order x y rs = [] \<longleftrightarrow> (\<forall>r \<in> set rs. kr_offset r < x \<or> y \<le> kr_offset r)"
proof -
  have "in_order x y rs = [] \<longleftrightarrow> filter (\<lambda>r. x \<le> kr_offset r \<and> kr_offset r < y) rs = []"
    unfolding in_order_def by (simp flip: length_0_conv)
  then show ?thesis by (auto simp: filter_empty_conv not_le not_less)
qed

lemma read_span_log:
  assumes "serves w topic ps log" "\<And>p. wf_log (log p)" "ends_at w sps" "batch_so_far w s log sps recs st"
    "read_span w s sp st = Inr (unfinished, st')" "sp \<in> set sps" "sp_from sp < sp_to sp"
  obtains recs' where "batch_so_far w s log sps recs' st'"
proof -
  let ?p = "sp_partition sp"
  let ?here = "next_of st ?p"
  from assms(5) obtain rs moved st1 where fetched: "bk_fetch w (rd_fetches st) ?p ?here = Answer rs"
    and took: "take_records w s ?p (in_order ?here (sp_to sp) rs) False (st\<lparr> rd_fetches := rd_fetches st + 1 \<rparr>) = Inr (moved, st1)"
    and st': "st' = (if \<not> moved \<and> rd_budget st1 > 0 then moved_to ?p (sp_to sp) (st1\<lparr> rd_notes := rd_notes st1 @
          [stepped_over ?p ?here (sp_to sp)] \<rparr>) else st1)"
    by (auto simp: read_span_def Let_def sum_steps within_def split: reply.splits split del: if_split)
  have latest: "bk_latest w ?p = Answer (sp_to sp)" using assms(3,6) by (simp add: ends_at_def)
  obtain e where e: "in_order ?here (sp_to sp) rs = log_range (log ?p) ?here (min e (sp_to sp))"
    by (rule serves_fetch [OF assms(1,2) fetched])
  have told: "rows_of w s recs (rd_rows (st\<lparr> rd_fetches := rd_fetches st + 1 \<rparr>))"
    using assms(4) by (simp add: batch_so_far_def)
  from assms(4,6) have bound: "sp_from sp \<le> ?here" "?here \<le> sp_to sp"
    and so_far: "read_to w (log ?p) ?p (of_partition ?p recs) (sp_from sp) ?here (rd_notes st)"
    using assms(7) by (auto simp: batch_so_far_def)
  note step = take_records_log [OF assms(2) took, unfolded next_of_rest, OF e told]
  have said: "rd_notes st1 = rd_notes st" using take_records_notes [OF took] by simp
  have dist: "distinct (map sp_partition sps)" using assms(3) by (simp add: ends_at_def)
  show ?thesis
  proof (cases "?here = sp_to sp")
    case True
    then have "in_order ?here (sp_to sp) rs = []" by (auto simp: in_order_empty)
    then have "st1 = st\<lparr> rd_fetches := rd_fetches st + 1 \<rparr>" using took by simp
    then have after: "set (rd_notes st) \<subseteq> set (rd_notes st')" "rd_rows st' = rd_rows st" "next_of st' q = next_of st q" for q
      using True by (auto simp: st' moved_to_notes)
    from read_to_says_more [OF so_far this(1)] told show ?thesis
      by (intro that [OF advanced [OF assms(4) dist assms(6) order_refl, where new = "[]"]])
        (use after bound in simp_all)
  next
    case False
    then have read: "of_partition ?p recs = log_range (log ?p) (sp_from sp) ?here"
      using so_far bound latest by (auto simp: read_to_def came_empty_def order_less_le)
    show ?thesis
    proof (cases "\<not> moved \<and> rd_budget st1 > 0")
      case True
      then have empty: "in_order ?here (sp_to sp) rs = []" using step(5) by blast
      then have st1: "st1 = st\<lparr> rd_fetches := rd_fetches st + 1 \<rparr>" using took by simp
      have "came_empty w ?p ?here (sp_to sp)"
        using empty fetched latest by (auto simp: came_empty_def in_order_empty)
      then have "read_to w (log ?p) ?p (of_partition ?p recs @ []) (sp_from sp) (sp_to sp) (rd_notes st')"
        unfolding read_to_def using True bound by (intro exI [where x = "?here"]) (simp add: read st' said moved_to_notes)
      moreover have after: "set (rd_notes st) \<subseteq> set (rd_notes st')" "rd_rows st' = rd_rows st"
        "next_of st' q = (if q = ?p then sp_to sp else next_of st q)" for q
        using True by (auto simp: st' st1 moved_to_notes)
      ultimately show ?thesis using told bound
        by (intro that [OF advanced [OF assms(4) dist assms(6), where offset = "sp_to sp" and new = "[]"]]) simp_all
    next
      case False
      then have "read_to w (log ?p) ?p (of_partition ?p recs @ log_range (log ?p) ?here (next_of st1 ?p))
          (sp_from sp) (next_of st1 ?p) (rd_notes st')"
        unfolding read_to_def using bound step(1) log_range_join [of "sp_from sp" ?here "next_of st1 ?p" "log ?p"]
        by (intro exI [where x = "next_of st1 ?p"]) (simp add: read)
      with False step bound show ?thesis
        by (intro that [OF advanced [OF assms(4) dist assms(6) step(1)]]) (auto simp: st' said)
    qed
  qed
qed

text \<open>The map of offsets keeps its keys.\<close>

definition keyed :: "int set \<Rightarrow> reading \<Rightarrow> bool" where
  "keyed P st \<longleftrightarrow> om_ok (rd_next st) \<and> fst ` set (rd_next st) = P"

lemma keyed_moved: "keyed P st \<Longrightarrow> p \<in> P \<Longrightarrow> keyed P (moved_to p offset st)"
  by (auto simp: keyed_def moved_to_def)

lemma keyed_wrote: "keyed P (wrote_row made st) = keyed P st"
  by (simp add: keyed_def wrote_row_def)

lemma take_records_keyed: "take_records w s p rs moved st = Inr (moved', st') \<Longrightarrow> keyed P st \<Longrightarrow> p \<in> P \<Longrightarrow> keyed P st'"
  by (induction rs arbitrary: moved st)
    (auto simp: sum_steps keyed_moved keyed_wrote split: if_splits option.splits)

lemma keyed_same: "keyed P (st\<lparr> rd_fetches := n \<rparr>) = keyed P st" "keyed P (st\<lparr> rd_notes := m \<rparr>) = keyed P st"
  by (simp_all add: keyed_def)

lemma read_span_keyed:
  "read_span w s sp st = Inr (unfinished, st') \<Longrightarrow> keyed P st \<Longrightarrow> sp_partition sp \<in> P \<Longrightarrow> keyed P st'"
  by (auto simp: read_span_def Let_def sum_steps keyed_same intro!: keyed_moved dest!: take_records_keyed split: if_splits)

text \<open>What a turn keeps, and what it leaves for the next one.\<close>

definition turn_of :: "span list \<Rightarrow> span list \<Rightarrow> bool" where
  "turn_of sps turn \<longleftrightarrow> set turn \<subseteq> {sp \<in> set sps. sp_from sp < sp_to sp}"

definition batch_ok :: "broker \<Rightarrow> kafka_settings \<Rightarrow> (int \<Rightarrow> kafka_log) \<Rightarrow> span list \<Rightarrow> reading \<Rightarrow> bool" where
  "batch_ok w s log sps st \<longleftrightarrow> keyed (sp_partition ` set sps) st \<and> (\<exists>recs. batch_so_far w s log sps recs st)"

lemma read_turn_log:
  assumes "serves w topic ps log" "\<And>p. wf_log (log p)" "ends_at w sps"
  shows "read_turn w s turn again st = Inr (again', st') \<Longrightarrow> turn_of sps turn \<Longrightarrow> turn_of sps again \<Longrightarrow>
    batch_ok w s log sps st \<Longrightarrow> batch_ok w s log sps st' \<and> turn_of sps again'"
proof (induction turn arbitrary: again st)
  case (Cons sp turn)
  show ?case
  proof (cases "rd_budget st = 0")
    case False
    with Cons.prems(1) obtain unfinished st1 where one: "read_span w s sp st = Inr (unfinished, st1)"
      and rest: "read_turn w s turn (if unfinished then again @ [sp] else again) st1 = Inr (again', st')"
      by (auto simp: sum_steps)
    have sp: "sp \<in> set sps" "sp_from sp < sp_to sp" using Cons.prems(2) by (auto simp: turn_of_def)
    from Cons.prems(4) obtain recs where "batch_so_far w s log sps recs st" "keyed (sp_partition ` set sps) st"
      by (auto simp: batch_ok_def)
    with read_span_log [OF assms this(1) one sp] read_span_keyed [OF one this(2)] sp(1)
    have "batch_ok w s log sps st1" unfolding batch_ok_def by blast
    with Cons.IH [OF rest] Cons.prems(2,3) show ?thesis by (auto simp: turn_of_def split: if_splits)
  qed (use Cons.prems in simp)
qed simp

lemma read_turns_log:
  assumes "serves w topic ps log" "\<And>p. wf_log (log p)" "ends_at w sps"
  shows "read_turns fuel w s turn st = Some (Inr st') \<Longrightarrow> turn_of sps turn \<Longrightarrow> batch_ok w s log sps st \<Longrightarrow> batch_ok w s log sps st'"
proof (induction fuel arbitrary: turn st)
  case 0
  then show ?case by (simp add: read_turns.simps split: if_splits)
next
  case (Suc fuel)
  show ?case
  proof (cases "rd_budget st = 0 \<or> turn = []")
    case False
    with Suc.prems(1) obtain again st1 where "read_turn w s turn [] st = Inr (again, st1)"
      and rest: "read_turns fuel w s again st1 = Some (Inr st')"
      by (subst (asm) read_turns.simps) (auto split: sum.splits)
    from read_turn_log [OF assms this(1) Suc.prems(2) _ Suc.prems(3)] Suc.IH [OF rest] show ?thesis
      by (simp add: turn_of_def)
  qed (use Suc.prems in \<open>simp add: read_turns.simps\<close>)
qed

lemma bounds_from_facts:
  "bounds_from w limit topic ps = Inr bs \<Longrightarrow> map bd_partition bs = ps \<and>
     (\<forall>b \<in> set bs. bk_earliest w (bd_partition b) = Answer (bd_earliest b) \<and> bk_latest w (bd_partition b) = Answer (bd_latest b))"
  by (induction ps arbitrary: bs) (auto simp: Let_def sum_steps within_def split: reply.splits)

text \<open>A partition with a saved offset starts there; one without starts at an end.\<close>

definition span_made :: "(int, int) om option \<Rightarrow> start \<Rightarrow> bounds \<Rightarrow> span \<Rightarrow> bool" where
  "span_made saved start b sp \<longleftrightarrow> sp_partition sp = bd_partition b \<and> sp_to sp = bd_latest b \<and>
     (case Option.bind saved (\<lambda>next. om_get next (bd_partition b)) of
        Some n \<Rightarrow> sp_from sp = n \<and> bd_earliest b \<le> n \<and> n \<le> bd_latest b
      | None \<Rightarrow> sp_from sp = (case start of Earliest \<Rightarrow> bd_earliest b | Latest \<Rightarrow> bd_latest b))"

lemma spans_of_made: "spans_of saved start bs = Inr (sps, said) \<Longrightarrow> list_all2 (span_made saved start) bs sps"
proof (induction bs arbitrary: sps said)
  case (Cons b bs)
  then obtain sp n ss m where "span_of saved start b = Inr (sp, n)" "spans_of saved start bs = Inr (ss, m)" "sps = sp # ss"
    by (auto simp: sum_steps)
  moreover from this(1) have "span_made saved start b sp"
    by (auto simp: span_of_def span_made_def Let_def split: option.splits if_splits)
  ultimately show ?case using Cons.IH by simp
qed simp

lemma plan_spans_made:
  assumes "plan_spans topic bs saved start = Inr (sps, notes)"
  obtains usable where "list_all2 (span_made usable start) bs sps"
    "\<And>q. saved = Some q \<Longrightarrow> po_topic q = topic \<Longrightarrow> usable = Some (po_next q)"
proof -
  from assms obtain usable n ns where "spans_of usable start bs = Inr (sps, ns)"
    and "(case saved of None \<Rightarrow> usable = None
      | Some p \<Rightarrow> usable = (if po_topic p = topic then Some (po_next p) else None))"
    by (cases saved) (auto simp: plan_spans_def Let_def sum_steps split: if_splits)
  then show ?thesis by (intro that [OF spans_of_made]) auto
qed

text \<open>Where a batch begins.\<close>

definition partitions_ok :: "int list \<Rightarrow> bool" where
  "partitions_ok ps \<longleftrightarrow> distinct ps \<and> (\<forall>p \<in> set ps. - (2 ^ 31) \<le> p \<and> p < 2 ^ 31)"

lemma list_all2_keys: "list_all2 P xs ys \<Longrightarrow> (\<And>x y. P x y \<Longrightarrow> f x = g y) \<Longrightarrow> map f xs = map g ys"
  by (induction rule: list_all2_induct) auto

lemma begin_batch_facts:
  assumes "serves w (ks_topic s) ps log" "partitions_ok ps" "begin_batch w s saved = Inr (sps, st)"
  shows "map sp_partition sps = ps" "ends_at w sps" "batch_ok w s log sps st"
    "\<forall>sp \<in> set sps. 0 \<le> sp_from sp \<and> sp_from sp < 2 ^ 63 \<and> 0 \<le> sp_to sp \<and> sp_to sp < 2 ^ 63 \<and>
       (\<forall>q n. saved = Some q \<longrightarrow> po_topic q = ks_topic s \<longrightarrow> om_get (po_next q) (sp_partition sp) = Some n \<longrightarrow> sp_from sp = n)"
proof -
  from assms(3) obtain topics partitions bs said where "bk_topics w = Answer topics"
    "map_option snd (find (\<lambda>t. fst t = ks_topic s) topics) = Some partitions"
    and bs: "bounds_from w (kn_timeout (ks_connection s)) (ks_topic s) partitions = Inr bs"
    and spans: "plan_spans (ks_topic s) bs saved (ks_start s) = Inr (sps, said)"
    and st: "st = \<lparr> rd_next = om_extend [] (map (\<lambda>sp. (sp_partition sp, sp_from sp)) sps),
             rd_budget = ks_max_records s, rd_rows = [], rd_notes = said, rd_fetches = 0 \<rparr>"
    by (auto simp: begin_batch_def Let_def sum_steps within_def ok_or_eq_Inr_iff split: reply.splits)
  with assms(1) have "partitions = ps" by (auto simp: serves_def)
  note bs = bounds_from_facts [OF bs [unfolded this]]
  obtain usable where made: "list_all2 (span_made usable (ks_start s)) bs sps"
    and usable: "\<And>q. saved = Some q \<Longrightarrow> po_topic q = ks_topic s \<Longrightarrow> usable = Some (po_next q)"
    using plan_spans_made [OF spans] by (metis (no_types))
  have "map bd_partition bs = map sp_partition sps" by (rule list_all2_keys [OF made]) (simp add: span_made_def)
  with bs show parts: "map sp_partition sps = ps" by simp
  have each: "\<exists>b \<in> set bs. span_made usable (ks_start s) b sp" if "sp \<in> set sps" for sp
    using made that by (metis list_all2_conv_all_nth in_set_conv_nth)
  have ends: "0 \<le> bd_earliest b" "bd_earliest b < 2 ^ 63" "0 \<le> bd_latest b" "bd_latest b < 2 ^ 63" if "b \<in> set bs" for b
    using bs assms(1) that unfolding serves_def by blast+
  show "ends_at w sps"
    using parts assms(2) bs each by (fastforce simp: ends_at_def partitions_ok_def span_made_def)
  show "\<forall>sp \<in> set sps. 0 \<le> sp_from sp \<and> sp_from sp < 2 ^ 63 \<and> 0 \<le> sp_to sp \<and> sp_to sp < 2 ^ 63 \<and>
       (\<forall>q n. saved = Some q \<longrightarrow> po_topic q = ks_topic s \<longrightarrow> om_get (po_next q) (sp_partition sp) = Some n \<longrightarrow> sp_from sp = n)"
  proof
    fix sp assume "sp \<in> set sps"
    then obtain b where b: "b \<in> set bs" "span_made usable (ks_start s) b sp" using each by blast
    with ends [OF b(1)] usable show "0 \<le> sp_from sp \<and> sp_from sp < 2 ^ 63 \<and> 0 \<le> sp_to sp \<and> sp_to sp < 2 ^ 63 \<and>
       (\<forall>q n. saved = Some q \<longrightarrow> po_topic q = ks_topic s \<longrightarrow> om_get (po_next q) (sp_partition sp) = Some n \<longrightarrow> sp_from sp = n)"
      by (auto simp: span_made_def split: option.splits start.splits)
  qed
  have dist: "distinct (map sp_partition sps)" using parts assms(2) by (simp add: partitions_ok_def)
  have start: "next_of st (sp_partition sp) = sp_from sp" if "sp \<in> set sps" for sp
  proof -
    have "map_of (rev (map (\<lambda>sp. (sp_partition sp, sp_from sp)) sps)) (sp_partition sp) = Some (sp_from sp)"
      using that dist by (intro map_of_is_SomeI) (auto simp: rev_map [symmetric] comp_def)
    then show ?thesis
      using om.get_foldl_ins [of "[]" "map (\<lambda>sp. (sp_partition sp, sp_from sp)) sps" "sp_partition sp"]
      by (simp add: st next_of_def om_extend_def)
  qed
  have "fst ` set (foldl (\<lambda>acc (k, v). om_insert k v acc) m kvs) = fst ` set m \<union> fst ` set kvs" for m :: "(int, int) om" and kvs
    by (induction kvs arbitrary: m) (simp_all add: case_prod_unfold)
  then have "keyed (sp_partition ` set sps) st"
    using om.foldl_ins_ok [of "[]" "map (\<lambda>sp. (sp_partition sp, sp_from sp)) sps"]
    by (simp add: keyed_def st om_extend_def image_image)
  moreover have "batch_so_far w s log sps [] st"
    using start by (auto simp: batch_so_far_def rows_of_def st of_partition_def read_to_def)
  ultimately show "batch_ok w s log sps st" by (auto simp: batch_ok_def)
qed

text \<open>What a batch wrote and where it stopped.\<close>

lemma told_in_the_detail: "note \<in> set noted \<Longrightarrow> sublist note (before @ concat (map (\<lambda>note. ''; '' @ note) noted))"
proof -
  assume "note \<in> set noted"
  then obtain xs ys where "noted = xs @ note # ys" by (auto simp: in_set_conv_decomp)
  then have "before @ concat (map (\<lambda>note. ''; '' @ note) noted)
      = (before @ concat (map (\<lambda>note. ''; '' @ note) xs) @ ''; '') @ note @ concat (map (\<lambda>note. ''; '' @ note) ys)" by simp
  then show ?thesis unfolding sublist_def by blast
qed

lemma end_batch_detail: "\<exists>before. sm_detail (snd (end_batch s sps st)) = before @ concat (map (\<lambda>note. ''; '' @ note) (rd_notes st))"
  unfolding end_batch_def by (simp only: snd_conv summary.select_convs append_assoc [symmetric]) (rule exI, rule refl)

lemma read_batch_log:
  assumes "serves w (ks_topic s) ps log" "partitions_ok ps" "\<And>p. wf_log (log p)"
    "read_batch w s saved = Some (Inr (rows, summ))"
  obtains pos recs where "sm_checkpoint summ = Some (position_to_json pos)" "wf_position pos" "po_topic pos = ks_topic s"
    "rows_of w s recs rows"
    "\<And>p. p \<in> set ps \<Longrightarrow> \<exists>a x b. om_get (po_next pos) p = Some b \<and> a \<le> x \<and> x \<le> b \<and> of_partition p recs = log_range (log p) a x \<and>
       (x < b \<longrightarrow> came_empty w p x b \<and> sublist (stepped_over p x b) (sm_detail summ)) \<and>
       (\<forall>q n. saved = Some q \<longrightarrow> po_topic q = ks_topic s \<longrightarrow> om_get (po_next q) p = Some n \<longrightarrow> a = n)"
proof -
  from assms(4) obtain sps st st' where began: "begin_batch w s saved = Inr (sps, st)"
    and turns: "read_turns (ks_max_records s + length sps) w s (filter (\<lambda>sp. sp_from sp < sp_to sp) sps) st = Some (Inr st')"
    and out: "end_batch s sps st' = (rows, summ)"
    by (auto simp: read_batch_def split: sum.splits option.splits)
  note start = begin_batch_facts [OF assms(1,2) began]
  have "turn_of sps (filter (\<lambda>sp. sp_from sp < sp_to sp) sps)" by (auto simp: turn_of_def)
  from read_turns_log [OF assms(1,3) start(2) turns this start(3)]
  obtain recs where ok: "keyed (sp_partition ` set sps) st'" "batch_so_far w s log sps recs st'"
    by (auto simp: batch_ok_def)
  have each: "om_get (rd_next st') (sp_partition sp) = Some (next_of st' (sp_partition sp))" if "sp \<in> set sps" for sp
  proof -
    have "sp_partition sp \<in> fst ` set (rd_next st')" using ok(1) that by (simp add: keyed_def)
    then show ?thesis using om_get_None_iff by (force simp: next_of_def split: option.split)
  qed
  show ?thesis
  proof (rule that [of "end_position s st'" recs])
    show "sm_checkpoint summ = Some (position_to_json (end_position s st'))" "po_topic (end_position s st') = ks_topic s"
      "rows_of w s recs rows"
      using out ok(2) by (auto simp: end_batch_def end_position_def batch_so_far_def)
    show "wf_position (end_position s st')"
      unfolding wf_position_def
    proof (intro conjI ballI)
      show okm: "om_ok (po_next (end_position s st'))" using ok(1) by (simp add: end_position_def keyed_def)
      fix x assume x: "x \<in> set (po_next (end_position s st'))"
      obtain p n where pn: "x = (p, n)" by force
      from okm x have "om_get (rd_next st') p = Some n"
        by (auto simp: pn end_position_def om_get_def om_ok_def strict_sorted_iff)
      moreover obtain sp where sp: "sp \<in> set sps" "sp_partition sp = p"
        using x ok(1) by (force simp: pn end_position_def keyed_def)
      ultimately have n: "n = next_of st' (sp_partition sp)" using each by fastforce
      have "p \<in> set ps" using sp start(1) by auto
      moreover have "sp_from sp \<le> n" "n \<le> max (sp_from sp) (sp_to sp)"
        using ok(2) sp(1) by (auto simp: n batch_so_far_def)
      moreover note start(4) [THEN bspec, OF sp(1)]
      ultimately show "case x of (p, n) \<Rightarrow> - (2 ^ 31) \<le> p \<and> p < 2 ^ 31 \<and> 0 \<le> n \<and> n < 2 ^ 63"
        using assms(2) by (auto simp: pn partitions_ok_def max_def split: if_splits)
    qed
    fix p assume "p \<in> set ps"
    then obtain sp where sp: "sp \<in> set sps" "p = sp_partition sp" using start(1) by auto
    then obtain x where x: "sp_from sp \<le> x" "x \<le> next_of st' p" "of_partition p recs = log_range (log p) (sp_from sp) x"
      "x < next_of st' p \<Longrightarrow> came_empty w p x (next_of st' p) \<and> stepped_over p x (next_of st' p) \<in> set (rd_notes st')"
      using ok(2) by (fastforce simp: batch_so_far_def read_to_def)
    have "sublist line (sm_detail summ)" if "line \<in> set (rd_notes st')" for line
      using end_batch_detail [of s sps st'] told_in_the_detail [OF that] out by force
    with x sp each [OF sp(1)] start(4)
    show "\<exists>a x b. om_get (po_next (end_position s st')) p = Some b \<and> a \<le> x \<and> x \<le> b \<and> of_partition p recs = log_range (log p) a x \<and>
       (x < b \<longrightarrow> came_empty w p x b \<and> sublist (stepped_over p x b) (sm_detail summ)) \<and>
       (\<forall>q n. saved = Some q \<longrightarrow> po_topic q = ks_topic s \<longrightarrow> om_get (po_next q) p = Some n \<longrightarrow> a = n)"
      by (intro exI [where x = "sp_from sp"] exI [where x = x] exI [where x = "next_of st' p"]) (auto simp: end_position_def)
  qed
qed

section \<open>Consecutive runs\<close>

text \<open>
  A run that succeeds keeps its rows, its report and its checkpoint; one that fails leaves the checkpoint
  as it was (\<open>Exec_World\<close> and \<open>Remember\<close> model how).
\<close>

fun kafka_runs :: "broker list \<Rightarrow> json \<Rightarrow> json option \<Rightarrow> row list \<times> str list \<times> json option" where
  "kafka_runs [] properties checkpoint = ([], [], checkpoint)"
| "kafka_runs (w # ws) properties checkpoint = (case kafka_read w properties checkpoint of
     Some (Inr (rows, summ)) \<Rightarrow>
       (case kafka_runs ws properties (sm_checkpoint summ) of (later, reports, kept) \<Rightarrow> (rows @ later, sm_detail summ # reports, kept))
   | _ \<Rightarrow> kafka_runs ws properties checkpoint)"

text \<open>A stretch that a run stepped over: its fetch brought nothing of it, and its report names it.\<close>

definition stepped :: "broker list \<Rightarrow> str list \<Rightarrow> int \<Rightarrow> int \<times> int \<Rightarrow> bool" where
  "stepped ws reports p = (\<lambda>(x, y). (\<exists>w \<in> set ws. came_empty w p x y) \<and> (\<exists>report \<in> set reports. sublist (stepped_over p x y) report))"

definition outside_gaps :: "(int \<times> int) list \<Rightarrow> kafka_record \<Rightarrow> bool" where
  "outside_gaps gaps r \<longleftrightarrow> (\<forall>(x, y) \<in> set gaps. kr_offset r < x \<or> y \<le> kr_offset r)"

definition inside :: "int \<Rightarrow> int \<Rightarrow> int \<times> int \<Rightarrow> bool" where
  "inside a b = (\<lambda>(x, y). a \<le> x \<and> x < y \<and> y \<le> b)"

lemma stepped_more:
  "stepped ws reports p gap \<Longrightarrow> set ws \<subseteq> set ws' \<Longrightarrow> set reports \<subseteq> set reports' \<Longrightarrow> stepped ws' reports' p gap"
  unfolding stepped_def by blast

lemma log_range_gaps:
  assumes "wf_log L" "a \<le> x" "x \<le> b" "b \<le> c" "list_all (inside b c) gaps"
  shows "filter (outside_gaps ((if x < b then [(x, b)] else []) @ gaps)) (log_range L a c)
    = log_range L a x @ filter (outside_gaps gaps) (log_range L b c)" (is "filter ?out _ = _")
proof -
  have at: "l \<le> kr_offset r \<and> kr_offset r < h" if "r \<in> set (log_range L l h)" for r l h
    using that assms(1) by (auto simp: set_log_range wf_log_def)
  have "filter ?out (log_range L a x) = log_range L a x"
    using assms(2-5) by (auto simp: filter_id_conv outside_gaps_def inside_def list_all_iff dest!: at)
  moreover have "filter ?out (log_range L x b) = []"
    using assms(3) by (auto simp: filter_empty_conv outside_gaps_def dest!: at)
  moreover have "filter ?out (log_range L b c) = filter (outside_gaps gaps) (log_range L b c)"
    by (rule filter_cong) (auto simp: outside_gaps_def dest!: at)
  moreover have "log_range L a c = log_range L a x @ log_range L x b @ log_range L b c"
    using log_range_join [of a x c L] log_range_join [of x b c L] assms(2-4) by simp
  ultimately show ?thesis by (simp del: filter.simps)
qed

text \<open>What runs wrote of a partition from one position to another.\<close>

definition runs_read :: "kafka_settings \<Rightarrow> broker list \<Rightarrow> kafka_log \<Rightarrow> int \<Rightarrow> int \<Rightarrow> int \<Rightarrow> row list \<Rightarrow> str list \<Rightarrow> bool" where
  "runs_read s ws L p a b rows reports \<longleftrightarrow> a \<le> b \<and> (\<exists>recs gaps.
     list_all2 (\<lambda>(p, r) made. \<exists>w \<in> set ws. kafka_row w s p r = Inr made) recs rows \<and>
     of_partition p recs = filter (outside_gaps gaps) (log_range L a b) \<and>
     list_all (inside a b) gaps \<and> list_all (stepped ws reports p) gaps)"

lemma runs_read_step:
  assumes "wf_log L" "rows_of w s recs rows1" "a \<le> x" "x \<le> b" "of_partition p recs = log_range L a x"
    "x < b \<Longrightarrow> came_empty w p x b \<and> sublist (stepped_over p x b) report" "runs_read s ws L p b c rows2 reports"
  shows "runs_read s (w # ws) L p a c (rows1 @ rows2) (report # reports)"
proof -
  from assms(7) obtain recs' gaps where later: "b \<le> c"
    "list_all2 (\<lambda>(p, r) made. \<exists>w \<in> set ws. kafka_row w s p r = Inr made) recs' rows2"
    "of_partition p recs' = filter (outside_gaps gaps) (log_range L b c)"
    "list_all (inside b c) gaps" "list_all (stepped ws reports p) gaps"
    by (auto simp: runs_read_def)
  let ?gaps = "(if x < b then [(x, b)] else []) @ gaps"
  have "list_all2 (\<lambda>(p, r) made. \<exists>w \<in> set (w # ws). kafka_row w s p r = Inr made) (recs @ recs') (rows1 @ rows2)"
    using assms(2) later(2) unfolding rows_of_def by (intro list_all2_appendI) (auto elim!: list_all2_mono)
  moreover have "of_partition p (recs @ recs') = filter (outside_gaps ?gaps) (log_range L a c)"
    unfolding log_range_gaps [OF assms(1,3,4) later(1,4)] by (simp add: assms(5) later(3))
  moreover have "list_all (inside a c) ?gaps"
    using later(1,4) assms(3,4) by (fastforce simp: list_all_iff inside_def)
  moreover have "list_all (stepped (w # ws) (report # reports) p) ?gaps"
    using later(5) assms(6) by (auto simp: list_all_iff intro: stepped_more) (auto simp: stepped_def)
  moreover have "a \<le> c" using assms(3,4) later(1) by simp
  ultimately show ?thesis unfolding runs_read_def by blast
qed

lemma runs_read_more:
  assumes "runs_read s ws L p a b rows reports"
  shows "runs_read s (w # ws) L p a b rows reports"
proof -
  from assms obtain recs gaps where one: "a \<le> b"
    "list_all2 (\<lambda>(p, r) made. \<exists>w \<in> set ws. kafka_row w s p r = Inr made) recs rows"
    "of_partition p recs = filter (outside_gaps gaps) (log_range L a b)"
    "list_all (inside a b) gaps" "list_all (stepped ws reports p) gaps"
    by (auto simp: runs_read_def)
  from one(2) have "list_all2 (\<lambda>(p, r) made. \<exists>w \<in> set (w # ws). kafka_row w s p r = Inr made) recs rows"
    by (auto elim!: list_all2_mono)
  moreover from one(5) have "list_all (stepped (w # ws) reports p) gaps"
    by (auto simp: list_all_iff intro: stepped_more)
  ultimately show ?thesis using one unfolding runs_read_def by blast
qed

lemma kafka_runs_log:
  assumes "kafka_settings_of properties = Inr s" "partitions_ok ps" "\<And>p. wf_log (log p)" "p \<in> set ps"
  shows "\<forall>w \<in> set ws. serves w (ks_topic s) ps log \<Longrightarrow> wf_position q \<Longrightarrow> po_topic q = ks_topic s \<Longrightarrow>
    om_get (po_next q) p = Some a \<Longrightarrow> kafka_runs ws properties (Some (position_to_json q)) = (rows, reports, kept) \<Longrightarrow>
    \<exists>q' b. kept = Some (position_to_json q') \<and> wf_position q' \<and> om_get (po_next q') p = Some b \<and>
      runs_read s ws (log p) p a b rows reports"
proof (induction ws arbitrary: q a rows reports)
  case Nil
  then have "runs_read s [] (log p) p a a [] []"
    by (auto simp: runs_read_def of_partition_def intro!: exI [where x = "[]"])
  with Nil show ?case by auto
next
  case (Cons w ws)
  have read: "kafka_read w properties (Some (position_to_json q)) = read_batch w s (Some q)"
    using assms(1) position_reads_back [OF Cons.prems(2)] by (simp add: kafka_read_def)
  have serves: "serves w (ks_topic s) ps log" "\<forall>w \<in> set ws. serves w (ks_topic s) ps log" using Cons.prems(1) by simp_all
  show ?case
  proof (cases "\<exists>rows1 summ. read_batch w s (Some q) = Some (Inr (rows1, summ))")
    case True
    then obtain rows1 summ where one: "read_batch w s (Some q) = Some (Inr (rows1, summ))" by blast
    obtain pos recs where mid: "sm_checkpoint summ = Some (position_to_json pos)" "wf_position pos" "po_topic pos = ks_topic s"
      "rows_of w s recs rows1"
      and ends: "\<And>p. p \<in> set ps \<Longrightarrow> \<exists>a x b. om_get (po_next pos) p = Some b \<and> a \<le> x \<and> x \<le> b \<and> of_partition p recs = log_range (log p) a x \<and>
        (x < b \<longrightarrow> came_empty w p x b \<and> sublist (stepped_over p x b) (sm_detail summ)) \<and>
        (\<forall>q' n. Some q = Some q' \<longrightarrow> po_topic q' = ks_topic s \<longrightarrow> om_get (po_next q') p = Some n \<longrightarrow> a = n)"
      by (rule read_batch_log [OF serves(1) assms(2,3) one]) (rule that)
    from ends [OF assms(4)] Cons.prems(3,4) obtain x b where "om_get (po_next pos) p = Some b"
      "a \<le> x" "x \<le> b" "of_partition p recs = log_range (log p) a x"
      "x < b \<longrightarrow> came_empty w p x b \<and> sublist (stepped_over p x b) (sm_detail summ)"
      by blast
    note mid = mid this
    obtain rows2 reports2 where rows2: "kafka_runs ws properties (Some (position_to_json pos)) = (rows2, reports2, kept)"
      "rows = rows1 @ rows2" "reports = sm_detail summ # reports2"
      using Cons.prems(5) one mid(1) by (auto simp: read split: prod.splits)
    from Cons.IH [OF serves(2) mid(2,3,5) rows2(1)] obtain q' c where
      "kept = Some (position_to_json q')" "wf_position q'" "om_get (po_next q') p = Some c"
      "runs_read s ws (log p) p b c rows2 reports2" by blast
    with runs_read_step [OF assms(3) mid(4,6,7,8) mid(9) [rule_format] this(4)] show ?thesis
      by (auto simp: rows2)
  next
    case False
    then have "kafka_runs ws properties (Some (position_to_json q)) = (rows, reports, kept)"
      using Cons.prems(5) by (auto simp: read split: option.splits sum.splits)
    with Cons.IH [OF serves(2) Cons.prems(2-4)] show ?thesis by (blast intro: runs_read_more)
  qed
qed

lemma outside_no_gaps [simp]: "filter (outside_gaps []) rs = rs"
  by (simp add: outside_gaps_def)

section \<open>The claims\<close>

text \<open>
  C10: consecutive runs of the Kafka source repeat no record and lose none in silence. Starting from a
  saved position, whatever number of records each run is allowed, whichever runs fail and whatever
  stretches of the log the broker's fetches bring, the rows that the runs wrote are, of every partition,
  exactly the records of the log from the saved offset to the one kept at the end, each once and in the
  order of the log, except those in stretches a run stepped over: behind each such stretch stands a fetch
  that brought no record of it, and a report that names it. Where no report names a stretch, the records
  are all there.
\<close>

theorem runs_read_the_log_once:
  assumes "kafka_settings_of properties = Inr s" "partitions_ok ps" "\<forall>p. wf_log (log p)"
    "\<forall>w \<in> set ws. serves w (ks_topic s) ps log" "wf_position q" "po_topic q = ks_topic s" "p \<in> set ps"
    "om_get (po_next q) p = Some a" "kafka_runs ws properties (Some (position_to_json q)) = (rows, reports, kept)"
  shows "\<exists>q' b recs gaps. kept = Some (position_to_json q') \<and> wf_position q' \<and> om_get (po_next q') p = Some b \<and> a \<le> b \<and>
    list_all2 (\<lambda>(p, r) made. \<exists>w \<in> set ws. kafka_row w s p r = Inr made) recs rows \<and>
    of_partition p recs = filter (outside_gaps gaps) (log_range (log p) a b) \<and>
    list_all (inside a b) gaps \<and> list_all (stepped ws reports p) gaps \<and>
    ((\<forall>report \<in> set reports. \<forall>x y. \<not> sublist (stepped_over p x y) report) \<longrightarrow> of_partition p recs = log_range (log p) a b)"
proof -
  from kafka_runs_log [OF assms(1,2) assms(3) [THEN spec] assms(7) assms(4-6,8,9)]
  obtain q' b recs gaps where "kept = Some (position_to_json q')" "wf_position q'" "om_get (po_next q') p = Some b" "a \<le> b"
    "list_all2 (\<lambda>(p, r) made. \<exists>w \<in> set ws. kafka_row w s p r = Inr made) recs rows"
    "of_partition p recs = filter (outside_gaps gaps) (log_range (log p) a b)"
    "list_all (inside a b) gaps" "list_all (stepped ws reports p) gaps"
    by (auto simp: runs_read_def)
  moreover from this(8) have "gaps = []" if "\<forall>report \<in> set reports. \<forall>x y. \<not> sublist (stepped_over p x y) report"
    using that by (cases gaps) (auto simp: stepped_def)
  ultimately have "kept = Some (position_to_json q') \<and> wf_position q' \<and> om_get (po_next q') p = Some b \<and> a \<le> b \<and>
    list_all2 (\<lambda>(p, r) made. \<exists>w \<in> set ws. kafka_row w s p r = Inr made) recs rows \<and>
    of_partition p recs = filter (outside_gaps gaps) (log_range (log p) a b) \<and>
    list_all (inside a b) gaps \<and> list_all (stepped ws reports p) gaps \<and>
    ((\<forall>report \<in> set reports. \<forall>x y. \<not> sublist (stepped_over p x y) report) \<longrightarrow> of_partition p recs = log_range (log p) a b)"
    by (cases "gaps = []") auto
  then show ?thesis by blast
qed

text \<open>A log with a gap, read two records at a time.\<close>

definition example_log :: "int \<Rightarrow> kafka_log" where
  "example_log p offset = (if p = 0 \<and> offset \<in> {0, 1, 3}
     then Some \<lparr> kr_offset = offset, kr_millis = 0, kr_key = None, kr_value = None \<rparr> else None)"

definition example_broker :: broker where
  "example_broker = \<lparr> bk_tls = \<lambda>_. None, bk_connect = \<lambda>_. Answer (), bk_topics = Answer [(''t'', [0])], bk_client = \<lambda>_. Answer (),
     bk_earliest = \<lambda>_. Answer 0, bk_latest = \<lambda>_. Answer 4,
     bk_fetch = \<lambda>_ p offset. Answer (log_range (example_log p) offset (max offset 4)),
     bk_parse = \<lambda>_. Inl [], bk_utf8 = \<lambda>_. None, bk_stage = \<lambda>_. None \<rparr>"

definition example_topic :: json where
  "example_topic = JObject [(''brokers'', JString ''h:1''), (''topic'', JString ''t''), (''max_records'', JInt 2)]"

definition example_start :: kafka_position where
  "example_start = \<lparr> po_topic = ''t'', po_next = [(0, 0)] \<rparr>"

definition example_settings :: kafka_settings where
  "example_settings = \<lparr> ks_connection = \<lparr> kn_brokers = [''h:1''], kn_security = Plaintext, kn_sasl = None, kn_ca_cert = None, kn_timeout = 30000 \<rparr>,
     ks_topic = ''t'', ks_start = Earliest, ks_max_records = 2, ks_format = FormatJson \<rparr>"

text \<open>The same broker on a day when its fetches bring nothing.\<close>

definition dry_broker :: broker where
  "dry_broker = example_broker\<lparr> bk_fetch := \<lambda>n p offset. Answer [] \<rparr>"

lemma example_serves: "serves example_broker ''t'' [0] example_log" "serves dry_broker ''t'' [0] example_log"
proof -
  have "\<exists>a e. a \<le> offset \<and> offset \<le> e \<and>
      mset (log_range (example_log p) offset (max offset 4)) = mset (log_range (example_log p) a e)" for p offset
    by (intro exI [where x = offset] exI [where x = "max offset 4"]) simp
  then show "serves example_broker ''t'' [0] example_log" by (simp add: serves_def example_broker_def)
  have "\<exists>a e. a \<le> offset \<and> offset \<le> e \<and> log_range (example_log p) a e = []" for p offset
    by (intro exI [where x = offset]) simp
  then show "serves dry_broker ''t'' [0] example_log" by (simp add: serves_def example_broker_def dry_broker_def)
qed

lemma example_read: "kafka_settings_of example_topic = Inr example_settings"
  by code_simp

definition three_runs :: "row list \<times> str list \<times> json option" where
  "three_runs = kafka_runs [example_broker, dry_broker, example_broker] example_topic (Some (position_to_json example_start))"

lemma three_runs_are:
  "(\<lambda>(rows, reports, kept). (map (\<lambda>made. map_of made ''_offset'') rows, reports, kept)) three_runs =
   ([Some (JInt 0), Some (JInt 1)],
    [''2 record(s) from 1 partition(s) of '' @ QT @ ''t'' @ QT @ ''; stopped at max_records (2) with about 2 more for the next run'',
     ''0 record(s) from 1 partition(s) of '' @ QT @ ''t'' @ QT @ ''; '' @ stepped_over 0 2 4,
     ''0 record(s) from 1 partition(s) of '' @ QT @ ''t'' @ QT],
    Some (position_to_json \<lparr> po_topic = ''t'', po_next = [(0, 4)] \<rparr>))"
  by code_simp

lemma runs_read_the_log_once_witness:
  "map (\<lambda>made. map_of made ''_offset'') (fst three_runs) = [Some (JInt 0), Some (JInt 1)] \<and>
   fst (snd three_runs) ! 1 = ''0 record(s) from 1 partition(s) of '' @ QT @ ''t'' @ QT @ ''; '' @ stepped_over 0 2 4 \<and>
   (\<exists>q' b recs gaps. snd (snd three_runs) = Some (position_to_json q') \<and> om_get (po_next q') 0 = Some b \<and>
      of_partition 0 recs = filter (outside_gaps gaps) (log_range (example_log 0) 0 b) \<and>
      list_all (stepped [example_broker, dry_broker, example_broker] (fst (snd three_runs)) 0) gaps)"
proof -
  obtain rows reports kept where runs: "three_runs = (rows, reports, kept)" by (cases three_runs) auto
  have logs: "\<forall>p. wf_log (example_log p)" by (auto simp: wf_log_def example_log_def)
  have brokers: "\<forall>w \<in> set [example_broker, dry_broker, example_broker]. serves w (ks_topic example_settings) [0] example_log"
    using example_serves by (simp add: example_settings_def)
  have start: "wf_position example_start" "po_topic example_start = ks_topic example_settings"
    "0 \<in> set [0 :: int]" "om_get (po_next example_start) 0 = Some 0"
    by (simp_all add: wf_position_def example_start_def example_settings_def om_get_def)
  have "partitions_ok [0]" by (simp add: partitions_ok_def)
  from runs_read_the_log_once [OF example_read this logs brokers start runs [unfolded three_runs_def]] three_runs_are
  show ?thesis unfolding runs by auto
qed

text \<open>
  Where a fetch brings nothing although the log goes on (a stretch of transaction markers as long as a
  fetch, say), the rest of the partition is stepped over and the position saved behind it: the records
  there are never read.
\<close>

lemma empty_fetch_skips_the_rest:
  "(\<lambda>(rows, reports, kept). (rows, kept))
     (kafka_runs [dry_broker, example_broker] example_topic (Some (position_to_json example_start)))
    = ([], Some (position_to_json \<lparr> po_topic = ''t'', po_next = [(0, 4)] \<rparr>))"
  by code_simp

end
