(* ===== verification/Kafka_Sink.thy ===== *)
theory Kafka_Sink
  imports Kafka_Reader "HOL-Library.Multiset"
begin

text \<open>
  The Kafka sink (\<^verbatim>\<open>SinkSettings\<close>, \<^verbatim>\<open>write_batches\<close> and \<^verbatim>\<open>assign\<close> of \<^verbatim>\<open>crates/connectors/src/kafka.rs\<close>): rows
  are gathered into batches, a batch is split by partition and each share is sent in one request. The
  state holds the requests the broker has acknowledged, in order. The theorems: every row of a
  successful write was sent exactly once, and the records of a key all went to the key's partition, in
  the order of the rows.
\<close>

section \<open>Settings\<close>

datatype compression = NoCompression | Gzip | Snappy | Lz4 | Zstd

record sink_settings =
  nk_connection :: connection
  nk_topic :: str
  nk_key_column :: "str option"
  nk_batch_size :: nat
  nk_compression :: compression

definition compression_of :: "json \<Rightarrow> connector_error + compression" where
  "compression_of properties = (let v = text_or properties ''compression'' ''none''
     in if v = ''none'' then Inr NoCompression else if v = ''gzip'' then Inr Gzip
        else if v = ''snappy'' then Inr Snappy else if v = ''lz4'' then Inr Lz4 else if v = ''zstd'' then Inr Zstd
        else Inl (PropertyError ''compression'' (QT @ v @ QT @ '' is not one of none, gzip, snappy, lz4, zstd'')))"

definition sink_settings_of :: "json \<Rightarrow> connector_error + sink_settings" where
  "sink_settings_of properties =
     and_then (compression_of properties) (\<lambda>z.
     and_then (connection_of properties) (\<lambda>c.
     and_then (topic_of properties) (\<lambda>t.
     and_then (positive properties ''batch_size'' 500) (\<lambda>n.
       Inr \<lparr> nk_connection = c, nk_topic = t, nk_key_column = text_property properties ''key_column'',
             nk_batch_size = n, nk_compression = z \<rparr>))))"

section \<open>One batch, by partition\<close>

record sent_record =
  sr_key :: "u8 list option"
  sr_value :: "u8 list"
  sr_at :: int

definition row_key :: "str option \<Rightarrow> row \<Rightarrow> connector_error + u8 list option" where
  "row_key key_column r = (case key_column of
     None \<Rightarrow> Inr None
   | Some c \<Rightarrow> (case map_of r c of
       None \<Rightarrow> Inl (PropertyError ''key_column'' (QT @ c @ QT @ '' is not a column of the rows''))
     | Some v \<Rightarrow> Inr (key_bytes v)))"

definition partition_of :: "int list \<Rightarrow> int \<Rightarrow> u8 list option \<Rightarrow> int" where
  "partition_of partitions keyless key = (case key of Some bs \<Rightarrow> partition_for bs partitions | None \<Rightarrow> keyless)"

definition record_of_row :: "int \<Rightarrow> row \<Rightarrow> u8 list option \<Rightarrow> sent_record" where
  "record_of_row now r key = \<lparr> sr_key = key, sr_value = as_bytes (json_text (JObject r)), sr_at = now \<rparr>"

definition pushed :: "int \<Rightarrow> 'a \<Rightarrow> (int, 'a list) om \<Rightarrow> (int, 'a list) om" where
  "pushed p x m = om_insert p ((case om_get m p of Some xs \<Rightarrow> xs | None \<Rightarrow> []) @ [x]) m"

fun assign_rows :: "row list \<Rightarrow> str option \<Rightarrow> int list \<Rightarrow> int \<Rightarrow> int \<Rightarrow> (int, sent_record list) om
    \<Rightarrow> connector_error + (int, sent_record list) om" where
  "assign_rows [] key_column partitions keyless now m = Inr m"
| "assign_rows (r # rs) key_column partitions keyless now m =
     and_then (row_key key_column r) (\<lambda>key.
       assign_rows rs key_column partitions keyless now
         (pushed (partition_of partitions keyless key) (record_of_row now r key) m))"

definition assign :: "row list \<Rightarrow> str option \<Rightarrow> int list \<Rightarrow> int \<Rightarrow> int \<Rightarrow> connector_error + (int, sent_record list) om" where
  "assign rows key_column partitions keyless now = assign_rows rows key_column partitions keyless now []"

section \<open>The write\<close>

text \<open>What the broker answers to the \<open>n\<close>th request, and the clock at a batch.\<close>

record sink_world =
  nw_broker :: broker
  nw_produce :: "nat \<Rightarrow> int \<Rightarrow> unit reply"
  nw_now :: "nat \<Rightarrow> int"

record writing =
  wg_requests :: "(int \<times> sent_record list) list"
  wg_asked :: nat
  wg_batches :: nat
  wg_records :: nat

definition delivered_so_far :: "nat \<Rightarrow> nat \<Rightarrow> nat \<Rightarrow> connector_error \<Rightarrow> connector_error" where
  "delivered_so_far batch batches records e = DataError (''batch '' @ show_nat batch @ '' failed after '' @ show_nat batches @
     '' batch(es) ('' @ show_nat records @ '' record(s)) were delivered, and part of batch '' @ show_nat batch @
     '' may have landed too: '' @ connector_error_text e)"

fun send_shares :: "sink_world \<Rightarrow> sink_settings \<Rightarrow> (int \<times> sent_record list) list \<Rightarrow> writing \<Rightarrow> (connector_error + unit) \<times> writing" where
  "send_shares w s [] st = (Inr (), st)"
| "send_shares w s ((p, records) # shares) st =
     (case within (kn_timeout (nk_connection s)) (''sending to partition '' @ show_int p @ '' of '' @ QT @ nk_topic s @ QT)
           (nw_produce w (wg_asked st) p) of
        Inl e \<Rightarrow> (Inl e, st\<lparr> wg_asked := wg_asked st + 1 \<rparr>)
      | Inr _ \<Rightarrow> send_shares w s shares (st\<lparr> wg_asked := wg_asked st + 1, wg_requests := wg_requests st @ [(p, records)] \<rparr>))"

text \<open>Rows without a key share one partition per batch. A topic with no partitions is an index out of bounds.\<close>

definition keyless_partition :: "int list \<Rightarrow> nat \<Rightarrow> int option" where
  "keyless_partition partitions batches = (if partitions = [] then None else Some (partitions ! (batches mod length partitions)))"

definition write_batch :: "sink_world \<Rightarrow> sink_settings \<Rightarrow> int list \<Rightarrow> row list \<Rightarrow> writing \<Rightarrow> (connector_error + unit) option \<times> writing" where
  "write_batch w s partitions rows st =
     (case keyless_partition partitions (wg_batches st) of
        None \<Rightarrow> (None, st)
      | Some keyless \<Rightarrow>
          let failed = delivered_so_far (wg_batches st + 1) (wg_batches st) (wg_records st)
          in case assign rows (nk_key_column s) partitions keyless (nw_now w (wg_batches st)) of
               Inl e \<Rightarrow> (Some (Inl (failed e)), st)
             | Inr shares \<Rightarrow> (case send_shares w s shares st of
                 (Inl e, st1) \<Rightarrow> (Some (Inl (failed e)), st1)
               | (Inr _, st1) \<Rightarrow> (Some (Inr ()), st1\<lparr> wg_batches := wg_batches st1 + 1, wg_records := wg_records st1 + length rows \<rparr>)))"

text \<open>The reader as what its reads answer; after the last one it is exhausted.\<close>

fun write_loop :: "sink_world \<Rightarrow> sink_settings \<Rightarrow> int list \<Rightarrow> (connector_error + row) list \<Rightarrow> row list \<Rightarrow> writing
    \<Rightarrow> (connector_error + unit) option \<times> writing" where
  "write_loop w s partitions [] batch st = (if batch = [] then (Some (Inr ()), st) else write_batch w s partitions batch st)"
| "write_loop w s partitions (Inl e # input) batch st = (Some (Inl e), st)"
| "write_loop w s partitions (Inr r # input) batch st =
     (if length (batch @ [r]) = nk_batch_size s
      then case write_batch w s partitions (batch @ [r]) st of
             (Some (Inr _), st1) \<Rightarrow> write_loop w s partitions input [] st1
           | refused \<Rightarrow> refused
      else write_loop w s partitions input (batch @ [r]) st)"

fun clients_for :: "broker \<Rightarrow> nat \<Rightarrow> str \<Rightarrow> int list \<Rightarrow> connector_error + unit" where
  "clients_for w limit topic [] = Inr ()"
| "clients_for w limit topic (p # ps) =
     and_then (within limit (''partition '' @ show_int p @ '' of '' @ QT @ topic @ QT) (bk_client w p)) (\<lambda>_. clients_for w limit topic ps)"

definition sink_partitions :: "broker \<Rightarrow> sink_settings \<Rightarrow> connector_error + int list" where
  "sink_partitions w s =
     (let c = nk_connection s; topic = nk_topic s
      in and_then (kafka_connect w c) (\<lambda>_.
         and_then (within (kn_timeout c) (''listing the topics of '' @ topic @ QT @ ''s cluster'') (bk_topics w)) (\<lambda>topics.
         and_then (ok_or (DataError (''there is no topic '' @ QT @ topic @ QT @ '' on '' @ join_with '','' (kn_brokers c) @
             ''; this connector does not create one'')) (map_option snd (find (\<lambda>t. fst t = topic) topics))) (\<lambda>partitions.
         and_then (clients_for w (kn_timeout c) topic partitions) (\<lambda>_. Inr partitions)))))"

definition nothing_sent :: writing where
  "nothing_sent = \<lparr> wg_requests = [], wg_asked = 0, wg_batches = 0, wg_records = 0 \<rparr>"

definition write_detail :: "sink_settings \<Rightarrow> writing \<Rightarrow> str" where
  "write_detail s st = (if wg_batches st = 0 then ''0 records; nothing sent to '' @ QT @ nk_topic s @ QT
     else show_nat (wg_records st) @ '' record(s) in '' @ show_nat (wg_batches st) @ '' batch(es) to '' @ QT @ nk_topic s @ QT)"

definition write_batches :: "sink_world \<Rightarrow> sink_settings \<Rightarrow> (connector_error + row) list \<Rightarrow> (connector_error + summary) option \<times> writing" where
  "write_batches w s input =
     (case sink_partitions (nw_broker w) s of
        Inl e \<Rightarrow> (Some (Inl e), nothing_sent)
      | Inr partitions \<Rightarrow> (case write_loop w s partitions input [] nothing_sent of
          (None, st) \<Rightarrow> (None, st)
        | (Some (Inl e), st) \<Rightarrow> (Some (Inl e), st)
        | (Some (Inr _), st) \<Rightarrow> (Some (Inr \<lparr> sm_detail = write_detail s st, sm_checkpoint = None \<rparr>), st)))"

definition kafka_write :: "sink_world \<Rightarrow> json \<Rightarrow> (connector_error + row) list \<Rightarrow> (connector_error + summary) option \<times> writing" where
  "kafka_write w properties input =
     (case sink_settings_of properties of
        Inl e \<Rightarrow> (Some (Inl e), nothing_sent)
      | Inr s \<Rightarrow> write_batches w s input)"

section \<open>What was sent\<close>

definition share :: "int \<Rightarrow> (int, 'a list) om \<Rightarrow> 'a list" where
  "share p m = (case om_get m p of Some xs \<Rightarrow> xs | None \<Rightarrow> [])"

definition sent_to :: "int \<Rightarrow> (int \<times> 'a list) list \<Rightarrow> 'a list" where
  "sent_to p requests = concat (map snd (filter (\<lambda>r. fst r = p) requests))"

definition all_sent :: "(int \<times> 'a list) list \<Rightarrow> 'a list" where
  "all_sent requests = concat (map snd requests)"

lemma sent_append [simp]:
  "sent_to p (xs @ ys) = sent_to p xs @ sent_to p ys" "all_sent (xs @ ys) = all_sent xs @ all_sent ys"
  by (simp_all add: sent_to_def all_sent_def)

lemma sent_to_share: "om_ok m \<Longrightarrow> sent_to p m = share p m"
proof (induction m)
  case (Cons x m)
  obtain k v where x: "x = (k, v)" by force
  have "om_get m k = None" using Cons.prems by (auto simp: x intro: om_get_below)
  with Cons show ?case by (auto simp: x sent_to_def share_def om_get_Cons split: option.splits)
qed (simp add: sent_to_def share_def om_get_def)

lemma pushed_ok [simp]: "om_ok m \<Longrightarrow> om_ok (pushed p x m)"
  by (simp add: pushed_def om_insert_ok)

lemma share_pushed: "share q (pushed p x m) = (if q = p then share p m @ [x] else share q m)"
  by (simp add: share_def pushed_def om_get_insert)

lemma pushed_Cons: "om_ok ((k, v) # m) \<Longrightarrow> pushed p x ((k, v) # m) =
    (if p < k then (p, [x]) # (k, v) # m else if p = k then (k, v @ [x]) # m else (k, v) # pushed p x m)"
proof -
  assume ok: "om_ok ((k, v) # m)"
  have "om_get m p = None" if "p < k"
    using ok that by (intro om_get_below) (auto intro: order.strict_trans)
  then show ?thesis by (auto simp: pushed_def om_get_Cons)
qed

lemma all_pushed: "om_ok m \<Longrightarrow> mset (all_sent (pushed p x m)) = add_mset x (mset (all_sent m))"
proof (induction m)
  case (Cons y m)
  obtain k v where y: "y = (k, v)" by force
  from Cons show ?case by (auto simp: y pushed_Cons all_sent_def)
qed (simp add: pushed_def all_sent_def om_get_def)

lemma assign_rows_shares:
  "assign_rows rows kc ps keyless now m = Inr m' \<Longrightarrow> om_ok m \<Longrightarrow> \<exists>keys. om_ok m' \<and> list_all2 (\<lambda>r key. row_key kc r = Inr key) rows keys \<and>
     (\<forall>p. share p m' = share p m @ map (\<lambda>(r, key). record_of_row now r key)
        (filter (\<lambda>(r, key). partition_of ps keyless key = p) (zip rows keys))) \<and>
     mset (all_sent m') = mset (all_sent m) + mset (map (\<lambda>(r, key). record_of_row now r key) (zip rows keys))"
proof (induction rows arbitrary: m)
  case (Cons r rows)
  from Cons.prems(1) obtain key where key: "row_key kc r = Inr key"
    and rest: "assign_rows rows kc ps keyless now (pushed (partition_of ps keyless key) (record_of_row now r key) m) = Inr m'"
    by (auto simp: and_then_eq_Inr_iff)
  obtain keys where "om_ok m'" "list_all2 (\<lambda>r key. row_key kc r = Inr key) rows keys"
    "\<forall>p. share p m' = share p (pushed (partition_of ps keyless key) (record_of_row now r key) m) @ map (\<lambda>(r, key). record_of_row now r key)
        (filter (\<lambda>(r, key). partition_of ps keyless key = p) (zip rows keys))"
    "mset (all_sent m') = mset (all_sent (pushed (partition_of ps keyless key) (record_of_row now r key) m)) +
        mset (map (\<lambda>(r, key). record_of_row now r key) (zip rows keys))"
    using Cons.IH [OF rest pushed_ok [OF Cons.prems(2)]] by blast
  with key Cons.prems(2) show ?case
    by (intro exI [where x = "key # keys"]) (auto simp: share_pushed all_pushed)
qed simp

lemma send_shares_done: "send_shares w s shares st = (Inr u, st') \<Longrightarrow>
    wg_requests st' = wg_requests st @ shares \<and> wg_batches st' = wg_batches st \<and> wg_records st' = wg_records st"
  by (induction shares arbitrary: st) (fastforce split: sum.splits)+

text \<open>What the rows sent so far look like to each partition.\<close>

definition payload :: "sent_record \<Rightarrow> u8 list option \<times> u8 list" where
  "payload x = (sr_key x, sr_value x)"

definition row_payload :: "row \<times> u8 list option \<Rightarrow> u8 list option \<times> u8 list" where
  "row_payload = (\<lambda>(r, key). (key, as_bytes (json_text (JObject r))))"

lemma payload_of_row: "payload (record_of_row now r key) = row_payload (r, key)"
  by (simp add: payload_def record_of_row_def row_payload_def)

definition delivered :: "str option \<Rightarrow> int list \<Rightarrow> row list \<Rightarrow> u8 list option list \<Rightarrow> writing \<Rightarrow> bool" where
  "delivered kc ps rows keys st \<longleftrightarrow> list_all2 (\<lambda>r key. row_key kc r = Inr key) rows keys \<and>
     wg_records st = length rows \<and>
     mset (map payload (all_sent (wg_requests st))) = mset (map row_payload (zip rows keys)) \<and>
     (\<forall>bs. filter (\<lambda>x. fst x = Some bs) (map payload (sent_to (partition_for bs ps) (wg_requests st)))
        = filter (\<lambda>x. fst x = Some bs) (map row_payload (zip rows keys))) \<and>
     (\<forall>p bs. p \<noteq> partition_for bs ps \<longrightarrow> filter (\<lambda>x. fst x = Some bs) (map payload (sent_to p (wg_requests st))) = [])"

lemma shares_by_key:
  "filter (\<lambda>x. fst x = Some bs) (map payload (map (\<lambda>(r, key). record_of_row now r key)
      (filter (\<lambda>(r, key). partition_of ps keyless key = p) rks)))
   = (if p = partition_for bs ps then filter (\<lambda>x. fst x = Some bs) (map row_payload rks) else [])"
  by (induction rks) (auto simp: payload_of_row row_payload_def partition_of_def)

lemma write_batch_delivers:
  assumes "write_batch w s ps batch st = (Some (Inr u), st')" "delivered (nk_key_column s) ps rows keys st"
  obtains keys' where "delivered (nk_key_column s) ps (rows @ batch) (keys @ keys') st'"
proof -
  from assms(1) obtain keyless m st1 where shares: "assign batch (nk_key_column s) ps keyless (nw_now w (wg_batches st)) = Inr m"
    and sent: "send_shares w s m st = (Inr (), st1)"
    and st': "st' = st1\<lparr> wg_batches := wg_batches st1 + 1, wg_records := wg_records st1 + length batch \<rparr>"
    by (auto simp: write_batch_def Let_def split: option.splits sum.splits prod.splits)
  from assign_rows_shares [OF shares [unfolded assign_def]] obtain keys' where keys': "om_ok m"
    "list_all2 (\<lambda>r key. row_key (nk_key_column s) r = Inr key) batch keys'"
    "\<And>p. share p m = map (\<lambda>(r, key). record_of_row (nw_now w (wg_batches st)) r key)
        (filter (\<lambda>(r, key). partition_of ps keyless key = p) (zip batch keys'))"
    "mset (all_sent m) = mset (map (\<lambda>(r, key). record_of_row (nw_now w (wg_batches st)) r key) (zip batch keys'))"
    by (auto simp: share_def om_get_def all_sent_def)
  have total: "mset (map payload (all_sent m)) = mset (map row_payload (zip batch keys'))"
    using arg_cong [OF keys'(4), of "image_mset payload"] by (simp add: multiset.map_comp comp_def case_prod_unfold payload_of_row)
  have len: "length rows = length keys" using assms(2) by (auto simp: delivered_def dest: list_all2_lengthD)
  show ?thesis
    using assms(2) send_shares_done [OF sent] keys'(2) total len shares_by_key
    by (intro that [of keys']) (simp add: delivered_def st' list_all2_appendI sent_to_share [OF keys'(1)] keys'(3) del: map_map)
qed

lemma write_loop_delivers:
  "write_loop w s ps input batch st = (Some (Inr u), st') \<Longrightarrow> delivered (nk_key_column s) ps rows keys st \<Longrightarrow>
     \<exists>later keys'. input = map Inr later \<and> delivered (nk_key_column s) ps (rows @ batch @ later) (keys @ keys') st'"
proof (induction input arbitrary: batch st rows keys)
  case Nil
  show ?case
  proof (cases "batch = []")
    case False
    with Nil.prems have "write_batch w s ps batch st = (Some (Inr u), st')" by simp
    from write_batch_delivers [OF this Nil.prems(2)] obtain keys' where
      "delivered (nk_key_column s) ps (rows @ batch) (keys @ keys') st'" by blast
    then show ?thesis by auto
  qed (use Nil.prems in \<open>auto intro: exI [where x = "[]"]\<close>)
next
  case (Cons x input)
  then obtain r where x: "x = Inr r" by (cases x) auto
  show ?case
  proof (cases "length (batch @ [r]) = nk_batch_size s")
    case True
    with Cons.prems(1) obtain st1 where one: "write_batch w s ps (batch @ [r]) st = (Some (Inr ()), st1)"
      and rest: "write_loop w s ps input [] st1 = (Some (Inr u), st')"
      by (auto simp: x split: prod.splits option.splits sum.splits)
    from write_batch_delivers [OF one Cons.prems(2)] obtain k where
      "delivered (nk_key_column s) ps (rows @ batch @ [r]) (keys @ k) st1" by auto
    from Cons.IH [OF rest this] obtain later k' where "input = map Inr later"
      "delivered (nk_key_column s) ps ((rows @ batch @ [r]) @ [] @ later) ((keys @ k) @ k') st'" by blast
    then show ?thesis by (intro exI [where x = "r # later"] exI [where x = "k @ k'"]) (simp add: x)
  next
    case False
    with Cons.prems(1) have "write_loop w s ps input (batch @ [r]) st = (Some (Inr u), st')" by (simp add: x)
    from Cons.IH [OF this Cons.prems(2)] obtain later k where "input = map Inr later"
      "delivered (nk_key_column s) ps (rows @ (batch @ [r]) @ later) (keys @ k) st'" by blast
    then show ?thesis by (intro exI [where x = "r # later"] exI [where x = k]) (simp add: x)
  qed
qed

text \<open>
  C11: a write to a Kafka topic that succeeds sent every row exactly once, and kept the order that a key
  promises. However the rows were cut into batches and whatever the partitions are, the records sent are
  the rows that were read, each with its key; the records of a key all went to one partition, the one its
  hash picks, and stand there in the order of the rows.
\<close>

theorem a_key_keeps_its_order:
  assumes "write_batches w s input = (Some (Inr summ), st)"
  shows "\<exists>rows keys ps. input = map Inr rows \<and> sink_partitions (nw_broker w) s = Inr ps \<and>
     list_all2 (\<lambda>r key. row_key (nk_key_column s) r = Inr key) rows keys \<and>
     mset (map payload (all_sent (wg_requests st))) = mset (map row_payload (zip rows keys)) \<and>
     (\<forall>bs p. filter (\<lambda>x. fst x = Some bs) (map payload (sent_to p (wg_requests st))) =
        (if p = partition_for bs ps then filter (\<lambda>x. fst x = Some bs) (map row_payload (zip rows keys)) else []))"
proof -
  from assms obtain ps where ps: "sink_partitions (nw_broker w) s = Inr ps"
    and loop: "write_loop w s ps input [] nothing_sent = (Some (Inr ()), st)"
    by (auto simp: write_batches_def split: sum.splits prod.splits option.splits)
  have "delivered (nk_key_column s) ps [] [] nothing_sent"
    by (simp add: delivered_def nothing_sent_def all_sent_def sent_to_def)
  from write_loop_delivers [OF loop this] ps show ?thesis by (auto simp: delivered_def)
qed

definition example_sink :: sink_settings where
  "example_sink = \<lparr> nk_connection = \<lparr> kn_brokers = [''h:1''], kn_security = Plaintext, kn_sasl = None, kn_ca_cert = None, kn_timeout = 30000 \<rparr>,
     nk_topic = ''t'', nk_key_column = Some ''k'', nk_batch_size = 2, nk_compression = NoCompression \<rparr>"

definition example_sink_world :: sink_world where
  "example_sink_world = \<lparr> nw_broker = \<lparr> bk_tls = \<lambda>_. None, bk_connect = \<lambda>_. Answer (), bk_topics = Answer [(''t'', [0, 1])], bk_client = \<lambda>_. Answer (),
     bk_earliest = \<lambda>_. Answer 0, bk_latest = \<lambda>_. Answer 0, bk_fetch = \<lambda>_ _ _. Answer [],
     bk_parse = \<lambda>_. Inl [], bk_utf8 = \<lambda>_. None, bk_stage = \<lambda>_. None \<rparr>, nw_produce = \<lambda>_ _. Answer (), nw_now = \<lambda>_. 0 \<rparr>"

definition example_feed :: "(connector_error + row) list" where
  "example_feed = [Inr [(''k'', JString ''a''), (''v'', JInt 1)], Inr [(''k'', JString ''a''), (''v'', JInt 2)], Inr [(''k'', JNull), (''v'', JInt 3)]]"

lemma example_write:
  "(case write_batches example_sink_world example_sink example_feed of (out, st) \<Rightarrow>
      (map_option (map_sum (\<lambda>_. ()) (\<lambda>_. ())) out, map (\<lambda>(p, xs). (p, length xs)) (wg_requests st)))
    = (Some (Inr ()), [(0, 2), (1, 1)])"
proof -
  have key: "partition_for (as_bytes ''a'') [0, 1] = 0"
    by (simp add: partition_for_def murmur2_def murmur_tail_def murmur_mix_def le_bytes_def as_bytes_def utf8_char_def Let_def flip: numeral_2_eq_2)
  have topics: "sink_partitions (nw_broker example_sink_world) example_sink = Inr [0, 1]"
    by (simp add: sink_partitions_def example_sink_world_def example_sink_def kafka_connect_def builder_for_def security_tls_def within_def Let_def)
  show ?thesis
    unfolding write_batches_def topics
    by (simp add: example_feed_def example_sink_def write_batch_def keyless_partition_def nothing_sent_def Let_def
        assign_def row_key_def key_bytes_def partition_of_def pushed_def om_get_def key example_sink_world_def within_def)
qed

lemma a_key_keeps_its_order_witness:
  "\<exists>summ st rows keys ps. write_batches example_sink_world example_sink example_feed = (Some (Inr summ), st) \<and>
     map (\<lambda>(p, xs). (p, length xs)) (wg_requests st) = [(0, 2), (1, 1)] \<and> example_feed = map Inr rows \<and>
     mset (map payload (all_sent (wg_requests st))) = mset (map row_payload (zip rows keys)) \<and>
     filter (\<lambda>x. fst x = Some [97]) (map payload (sent_to (partition_for [97] ps) (wg_requests st)))
       = filter (\<lambda>x. fst x = Some [97]) (map row_payload (zip rows keys))"
proof -
  obtain out st where run: "write_batches example_sink_world example_sink example_feed = (out, st)" by force
  with example_write obtain summ where summ: "out = Some (Inr summ)"
    and st: "map (\<lambda>(p, xs). (p, length xs)) (wg_requests st) = [(0, 2), (1, 1)]"
    by (cases out; cases "the out"; simp)
  from a_key_keeps_its_order [OF run [unfolded summ]] obtain rows keys ps where "example_feed = map Inr rows"
    "mset (map payload (all_sent (wg_requests st))) = mset (map row_payload (zip rows keys))"
    "filter (\<lambda>x. fst x = Some [97]) (map payload (sent_to (partition_for [97] ps) (wg_requests st)))
       = filter (\<lambda>x. fst x = Some [97]) (map row_payload (zip rows keys))" by (fastforce simp del: map_map mset_map)
  with run [unfolded summ] st show ?thesis
    by (intro exI [where x = summ] exI [where x = st] exI [where x = rows] exI [where x = keys] exI [where x = ps] conjI)
qed

text \<open>A topic that lists no partitions is an index out of bounds at the first batch, not an error.\<close>

lemma no_partitions_panics:
  "write_batch w s [] rows st = (None, st)"
  by (simp add: write_batch_def keyless_partition_def)

end
