(* ===== verification/Http_Client.thy ===== *)
theory Http_Client
  imports Connector_Kit
begin

text \<open>
  The HTTP layer under the web connectors (\<^verbatim>\<open>crates/connectors/src/http.rs\<close>): settings, pacing, one attempt,
  and the loop that retries. The server is a function from the number of a request and the request to
  what comes back; the client's state holds the clock, the requests with the time each was sent, and the
  pauses. The theorems: a request is sent at most once more than \<^verbatim>\<open>retries\<close>, only what another attempt may mend is
  repeated, and two requests are never closer than the interval that was set; with the largest \<^verbatim>\<open>retries\<close> there
  is the counter wraps, and a server that stays busy is asked for ever.
\<close>

section \<open>Specs and settings\<close>

definition http_properties :: "(str list \<times> str) option \<Rightarrow> property_spec list" where
  "http_properties choice =
    [prop_help ''The endpoint, e.g. https://api.example.com/v1/orders.'' (prop_required (prop_text ''url''))] @
    (case choice of
       Some (methods, default_method) \<Rightarrow> [prop_default (JString default_method) (prop_enumerated ''method'' methods)]
     | None \<Rightarrow> []) @
    [prop_help ''Extra request headers, name to value.'' (prop_map ''headers''),
     prop_help (''bearer sends Authorization: Bearer <token>; header sends <auth_header>: <token>; '' @ ''basic uses username and password.'')
       (prop_default (JString ''none'') (prop_enumerated ''auth'' [''none'', ''bearer'', ''basic'', ''header''])),
     prop_help ''For bearer or header auth. Use ${SECRET:name} rather than the value itself.'' (prop_text ''token''),
     prop_help ''The header name for header auth.'' (prop_default (JString ''X-API-Key'') (prop_text ''auth_header'')),
     prop_help ''For basic auth.'' (prop_text ''username''),
     prop_help ''For basic auth. Use ${SECRET:name} rather than the value itself.'' (prop_text ''password''),
     prop_help ''How long one request may take.'' (prop_default (JInt 30000) (prop_integer ''timeout_ms'')),
     prop_help ''Extra attempts after a 429, a 5xx or a network failure. Never for other 4xx.''
       (prop_default (JInt 3) (prop_integer ''retries'')),
     prop_help ''The first wait before a retry, doubling each time. Retry-After wins.'' (prop_default (JInt 500) (prop_integer ''retry_backoff_ms'')),
     prop_help ''The least time between two requests, for APIs with a rate limit.'' (prop_default (JInt 0) (prop_integer ''min_interval_ms''))]"

datatype http_method = Get | Post | Put | Patch

type_synonym u32 = "32 word"

text \<open>Times are milliseconds. \<^verbatim>\<open>retries\<close> is kept in 32 bits.\<close>

record http_settings =
  hs_url :: str
  hs_method :: http_method
  hs_headers :: "(str \<times> str) list"
  hs_auth :: "(str \<times> str) option"
  hs_timeout :: nat
  hs_retries :: u32
  hs_backoff :: nat
  hs_interval :: nat

definition auth_of :: "json \<Rightarrow> connector_error + (str \<times> str) option" where
  "auth_of properties = (let v = text_or properties ''auth'' ''none''
     in if v = ''none'' then Inr None
        else if v = ''bearer'' then and_then (needed properties ''token'' ''bearer'') (\<lambda>t. Inr (Some (''Authorization'', ''Bearer '' @ t)))
        else if v = ''header'' then and_then (needed properties ''token'' ''header'')
          (\<lambda>t. Inr (Some (text_or properties ''auth_header'' ''X-API-Key'', t)))
        else if v = ''basic'' then and_then (needed properties ''username'' ''basic'')
          (\<lambda>u. Inr (Some (''Authorization'', ''Basic '' @ base64 (u @ '':'' @ text_or properties ''password'' []))))
        else Inl (PropertyError ''auth'' (QT @ v @ QT @ '' is not one of none, bearer, basic, header'')))"

definition with_method :: "json \<Rightarrow> http_method \<Rightarrow> connector_error + http_settings" where
  "with_method properties m =
     and_then (ok_or (PropertyError ''url'' ''is required'') (text_property properties ''url'')) (\<lambda>url.
     if \<not> (starts_with url ''http://'' \<or> starts_with url ''https://'')
     then Inl (PropertyError ''url'' ''must start with http:// or https://'')
     else and_then (auth_of properties) (\<lambda>auth.
       and_then (pairs_property properties ''headers'') (\<lambda>headers.
       and_then (positive properties ''timeout_ms'' 30000) (\<lambda>timeout.
       and_then (whole properties ''retries'' 3) (\<lambda>retries.
       and_then (whole properties ''retry_backoff_ms'' 500) (\<lambda>backoff.
       and_then (whole properties ''min_interval_ms'' 0) (\<lambda>interval.
         Inr \<lparr> hs_url = url, hs_method = m, hs_headers = headers, hs_auth = auth, hs_timeout = timeout,
               hs_retries = of_nat retries, hs_backoff = backoff, hs_interval = interval \<rparr>)))))))"

definition http_settings_of :: "json \<Rightarrow> str \<Rightarrow> connector_error + http_settings" where
  "http_settings_of properties default_method =
     (let v = text_or properties ''method'' default_method
      in if v = ''GET'' then with_method properties Get
         else if v = ''POST'' then with_method properties Post
         else if v = ''PUT'' then with_method properties Put
         else if v = ''PATCH'' then with_method properties Patch
         else Inl (PropertyError ''method'' (QT @ v @ QT @ '' is not supported'')))"

definition posting :: "json \<Rightarrow> connector_error + http_settings" where
  "posting properties = with_method properties Post"

definition signed :: "str \<Rightarrow> http_method \<Rightarrow> nat \<Rightarrow> u32 \<Rightarrow> http_settings" where
  "signed url m timeout retries = \<lparr> hs_url = url, hs_method = m, hs_headers = [], hs_auth = None, hs_timeout = timeout,
     hs_retries = retries, hs_backoff = 200, hs_interval = 0 \<rparr>"

definition signed_post :: "str \<Rightarrow> nat \<Rightarrow> u32 \<Rightarrow> http_settings" where
  "signed_post url timeout retries = signed url Post timeout retries"

section \<open>The next link\<close>

definition trim_dquotes :: "str \<Rightarrow> str" where
  "trim_dquotes v = (let q = (\<lambda>c. c = CHR 0x22) in rev (dropWhile q (rev (dropWhile q v))))"

definition names_next :: "str \<Rightarrow> bool" where
  "names_next parameter = (case split_once (\<lambda>c. c = CHR ''='') (trim parameter) of
     None \<Rightarrow> False
   | Some (name, v) \<Rightarrow> eq_ignore_ascii_case (trim name) ''rel'' \<and>
       list_ex (\<lambda>rel. eq_ignore_ascii_case rel ''next'') (split_whitespace (trim_dquotes (trim v))))"

definition link_target :: "str \<Rightarrow> str option" where
  "link_target part = (case split_once (\<lambda>c. c = CHR ''>'') (trim part) of
     None \<Rightarrow> None
   | Some (target, parameters) \<Rightarrow> (case strip_prefix ''<'' (trim target) of
       None \<Rightarrow> None
     | Some t \<Rightarrow> if list_ex names_next (split_on (\<lambda>c. c = CHR '';'') parameters) then Some t else None))"

fun find_map :: "('a \<Rightarrow> 'b option) \<Rightarrow> 'a list \<Rightarrow> 'b option" where
  "find_map f [] = None"
| "find_map f (x # xs) = (case f x of Some y \<Rightarrow> Some y | None \<Rightarrow> find_map f xs)"

definition next_link :: "str \<Rightarrow> str option" where
  "next_link header = find_map link_target (split_on (\<lambda>c. c = CHR '','') header)"

section \<open>One attempt\<close>

record http_request =
  hq_method :: http_method
  hq_url :: str
  hq_headers :: "(str \<times> str) list"
  hq_query :: "(str \<times> str) list"
  hq_body :: "u8 list option"

text \<open>What comes back: the library's three kinds of failure, or a status, two headers, and the body or why it could not be read.\<close>

datatype http_answer =
    BadUri str
  | Unbuildable str
  | Unreachable str
  | Response nat "str option" "str option" "str + str"

record http_reply =
  hy_body :: str
  hy_next :: "str option"
  hy_after :: "nat option"

datatype attempt = Retry str "nat option" | Fatal connector_error

datatype 'a judged = Accept 'a | JudgedRetry str | JudgedFail connector_error

record http_extra =
  he_headers :: "nat \<Rightarrow> (str \<times> str) list"
  he_content_type :: str
  he_throttled :: "nat \<Rightarrow> str \<Rightarrow> bool"

definition seconds_header :: "str option \<Rightarrow> nat option" where
  "seconds_header v = Option.bind v (\<lambda>t. parse_unsigned 64 (trim t))"

definition request_for :: "http_settings \<Rightarrow> http_extra option \<Rightarrow> nat \<Rightarrow> str \<Rightarrow> (str \<times> str) list \<Rightarrow> u8 list option \<Rightarrow> http_request" where
  "request_for s extra now url query body =
     (let headers = [(''Accept'', ''application/json'')] @ hs_headers s @
            (case hs_auth s of Some h \<Rightarrow> [h] | None \<Rightarrow> []) @
            (case extra of Some x \<Rightarrow> he_headers x now | None \<Rightarrow> []);
          content_type = (case extra of Some x \<Rightarrow> he_content_type x | None \<Rightarrow> ''application/json'')
      in if hs_method s = Get then \<lparr> hq_method = Get, hq_url = url, hq_headers = headers, hq_query = query, hq_body = None \<rparr>
         else \<lparr> hq_method = hs_method s, hq_url = url, hq_headers = headers @ [(''Content-Type'', content_type)],
                hq_query = query, hq_body = body \<rparr>)"

definition judge_status :: "http_extra option \<Rightarrow> str \<Rightarrow> nat \<Rightarrow> str option \<Rightarrow> str option \<Rightarrow> str \<Rightarrow> attempt + http_reply" where
  "judge_status extra url status after link t =
     (let said = ''HTTP '' @ show_nat status @ '' from '' @ url @ '': '' @ snippet t; after = seconds_header after
      in if 200 \<le> status \<and> status \<le> 299
         then Inr \<lparr> hy_body = t, hy_next = Option.bind link next_link, hy_after = after \<rparr>
         else if status = 429 \<or> 500 \<le> status \<and> status \<le> 599 then Inl (Retry said after)
         else if (case extra of Some x \<Rightarrow> he_throttled x status t | None \<Rightarrow> False) then Inl (Retry (''throttled: '' @ said) after)
         else Inl (Fatal (DataError said)))"

definition attempt_of :: "http_extra option \<Rightarrow> str \<Rightarrow> http_answer \<Rightarrow> attempt + http_reply" where
  "attempt_of extra url answer = (case answer of
     BadUri reason \<Rightarrow> Inl (Fatal (PropertyError ''url'' (QT @ url @ QT @ '' is not a usable URL: '' @ reason)))
   | Unbuildable reason \<Rightarrow> Inl (Fatal (PropertyError ''headers'' (''could not build the request: '' @ reason)))
   | Unreachable reason \<Rightarrow> Inl (Retry (''could not reach '' @ url @ '': '' @ reason) None)
   | Response status after link (Inl reason) \<Rightarrow> Inl (Retry (''reading the response from '' @ url @ '' failed: '' @ reason) None)
   | Response status after link (Inr t) \<Rightarrow> judge_status extra url status after link t)"

section \<open>The client\<close>

text \<open>The server, and how long each request takes.\<close>

record http_world =
  hw_answer :: "nat \<Rightarrow> http_request \<Rightarrow> http_answer"
  hw_took :: "nat \<Rightarrow> nat"

record client =
  cl_now :: nat
  cl_last :: "nat option"
  cl_sent :: "(nat \<times> http_request) list"
  cl_pauses :: "nat list"

definition client_new :: "nat \<Rightarrow> client" where
  "client_new now = \<lparr> cl_now = now, cl_last = None, cl_sent = [], cl_pauses = [] \<rparr>"

definition pace :: "http_settings \<Rightarrow> client \<Rightarrow> client" where
  "pace s c =
     (let c1 = (case cl_last c of
            Some last_sent \<Rightarrow> if cl_now c - last_sent < hs_interval s then c\<lparr> cl_now := last_sent + hs_interval s \<rparr> else c
          | None \<Rightarrow> c)
      in c1\<lparr> cl_last := Some (cl_now c1) \<rparr>)"

definition once :: "http_world \<Rightarrow> http_settings \<Rightarrow> str \<Rightarrow> (str \<times> str) list \<Rightarrow> u8 list option \<Rightarrow> http_extra option \<Rightarrow> client
    \<Rightarrow> (attempt + http_reply) \<times> client" where
  "once w s url query body extra c =
     (let request = request_for s extra (cl_now c) url query body; n = length (cl_sent c)
      in (attempt_of extra url (hw_answer w n request),
          c\<lparr> cl_sent := cl_sent c @ [(cl_now c, request)], cl_now := cl_now c + hw_took w n \<rparr>))"

definition MAX_RETRY_AFTER :: nat where "MAX_RETRY_AFTER = 300"

definition DURATION_MAX :: nat where "DURATION_MAX = (2 ^ 64 - 1) * 1000 + 999"

definition rejudge :: "(http_reply \<Rightarrow> 'a judged) \<Rightarrow> attempt + http_reply \<Rightarrow> attempt + 'a" where
  "rejudge judge r = (case r of
     Inl a \<Rightarrow> Inl a
   | Inr reply \<Rightarrow> (case judge reply of
       Accept v \<Rightarrow> Inr v | JudgedRetry reason \<Rightarrow> Inl (Retry reason (hy_after reply)) | JudgedFail e \<Rightarrow> Inl (Fatal e)))"

definition waited :: "nat \<Rightarrow> client \<Rightarrow> client" where
  "waited pause c = c\<lparr> cl_now := cl_now c + pause, cl_pauses := cl_pauses c @ [pause] \<rparr>"

text \<open>
  The loop. \<^verbatim>\<open>attempt\<close> is a 32-bit counter that wraps, as the release build has it, so a client whose
  \<^verbatim>\<open>retries\<close> is the largest number there is never gives up: then not returning is the value \<^verbatim>\<open>None\<close>.
\<close>

partial_function (option) send_loop :: "u32 \<Rightarrow> nat \<Rightarrow> http_world \<Rightarrow> http_settings \<Rightarrow> str \<Rightarrow> (str \<times> str) list \<Rightarrow> u8 list option
    \<Rightarrow> http_extra option \<Rightarrow> (http_reply \<Rightarrow> 'a judged) \<Rightarrow> client \<Rightarrow> ((connector_error + 'a) \<times> client) option" where
  "send_loop attempt wait w s url query body extra judge c =
     (case once w s url query body extra (pace s c) of
        (outcome, c1) \<Rightarrow> (case rejudge judge outcome of
          Inr v \<Rightarrow> Some (Inr v, c1)
        | Inl (Fatal e) \<Rightarrow> Some (Inl e, c1)
        | Inl (Retry reason after) \<Rightarrow>
            if hs_retries s < attempt + 1
            then Some (Inl (DataError (reason @ '', after '' @ show_nat (unat (attempt + 1)) @ '' attempt(s)'')), c1)
            else (case after of
                Some seconds \<Rightarrow>
                  if seconds > MAX_RETRY_AFTER
                  then Some (Inl (DataError (reason @ '', and the server asked to wait '' @ show_nat seconds @
                    ''s before retrying, which is more than the '' @ show_nat MAX_RETRY_AFTER @ ''s this will wait'')), c1)
                  else send_loop (attempt + 1) (min (wait * 2) DURATION_MAX) w s url query body extra judge (waited (seconds * 1000) c1)
              | None \<Rightarrow> send_loop (attempt + 1) (min (wait * 2) DURATION_MAX) w s url query body extra judge (waited wait c1))))"

definition send_with :: "http_world \<Rightarrow> http_settings \<Rightarrow> str \<Rightarrow> (str \<times> str) list \<Rightarrow> u8 list option \<Rightarrow> http_extra option
    \<Rightarrow> (http_reply \<Rightarrow> 'a judged) \<Rightarrow> client \<Rightarrow> ((connector_error + 'a) \<times> client) option" where
  "send_with w s url query body extra judge c = send_loop 0 (hs_backoff s) w s url query body extra judge c"

definition send_judged :: "http_world \<Rightarrow> http_settings \<Rightarrow> str \<Rightarrow> (str \<times> str) list \<Rightarrow> u8 list option
    \<Rightarrow> (http_reply \<Rightarrow> 'a judged) \<Rightarrow> client \<Rightarrow> ((connector_error + 'a) \<times> client) option" where
  "send_judged w s url query body judge c = send_with w s url query body None judge c"

definition send :: "http_world \<Rightarrow> http_settings \<Rightarrow> str \<Rightarrow> (str \<times> str) list \<Rightarrow> u8 list option \<Rightarrow> client
    \<Rightarrow> ((connector_error + http_reply) \<times> client) option" where
  "send w s url query body c = send_judged w s url query body Accept c"

section \<open>What a send does\<close>

text \<open>The log of a client: requests at least the interval apart, the last of them the one remembered.\<close>

definition wf_client :: "http_settings \<Rightarrow> client \<Rightarrow> bool" where
  "wf_client s c \<longleftrightarrow> sorted_wrt (\<lambda>a b. fst a + hs_interval s \<le> fst b) (cl_sent c) \<and>
     (case cl_last c of
        None \<Rightarrow> cl_sent c = []
      | Some t \<Rightarrow> t \<le> cl_now c \<and> (\<forall>a \<in> set (cl_sent c). fst a \<le> t))"

lemma wf_client_new: "wf_client s (client_new now)"
  by (simp add: wf_client_def client_new_def)

definition paced :: "http_settings \<Rightarrow> client \<Rightarrow> bool" where
  "paced s c \<longleftrightarrow> sorted_wrt (\<lambda>a b. fst a + hs_interval s \<le> fst b) (cl_sent c) \<and> cl_last c = Some (cl_now c) \<and>
     (\<forall>a \<in> set (cl_sent c). fst a + hs_interval s \<le> cl_now c)"

lemma pace_paces: "wf_client s c \<Longrightarrow> paced s (pace s c)"
  by (fastforce simp: wf_client_def paced_def pace_def Let_def split: option.splits)

lemma pace_sent [simp]: "cl_sent (pace s c) = cl_sent c"
  by (simp add: pace_def Let_def split: option.split)

lemma once_sent: "once w s url query body extra c = (outcome, c1) \<Longrightarrow>
    cl_sent c1 = cl_sent c @ [(cl_now c, request_for s extra (cl_now c) url query body)] \<and>
    outcome = attempt_of extra url (hw_answer w (length (cl_sent c)) (request_for s extra (cl_now c) url query body))"
  by (auto simp: once_def Let_def)

lemma once_wf: "once w s url query body extra c = (outcome, c1) \<Longrightarrow> paced s c \<Longrightarrow> wf_client s c1"
  by (auto simp: once_def Let_def paced_def wf_client_def sorted_wrt_append) fastforce

lemma waited_keeps [simp]: "wf_client s c \<Longrightarrow> wf_client s (waited pause c)" "cl_sent (waited pause c) = cl_sent c"
  by (auto simp: wf_client_def waited_def split: option.splits)

text \<open>What an attempt came to, after its reply was judged.\<close>

definition came_to :: "http_world \<Rightarrow> http_extra option \<Rightarrow> str \<Rightarrow> (http_reply \<Rightarrow> 'a judged) \<Rightarrow> nat \<Rightarrow> http_request \<Rightarrow> attempt + 'a" where
  "came_to w extra url judge n request = rejudge judge (attempt_of extra url (hw_answer w n request))"

definition asks :: "http_settings \<Rightarrow> str \<Rightarrow> (str \<times> str) list \<Rightarrow> u8 list option \<Rightarrow> http_request \<Rightarrow> bool" where
  "asks s url query body q \<longleftrightarrow> hq_url q = url \<and> hq_query q = query \<and> hq_method q = hs_method s \<and>
     hq_body q = (if hs_method s = Get then None else body)"

lemma asks_request: "asks s url query body (request_for s extra now url query body)"
  by (simp add: asks_def request_for_def Let_def)

section \<open>What another attempt may mend\<close>

text \<open>
  The contract of the header comment and of the \<^verbatim>\<open>retries\<close> help, over what came back and not over the code: an
  attempt is worth repeating after a network failure, a body that broke off, a 429, a 5xx, a success that its
  reader wants again, or a status that the service calls throttling; never after any other.
\<close>

definition is_success :: "nat \<Rightarrow> bool" where
  "is_success status \<longleftrightarrow> 200 \<le> status \<and> status < 300"

definition reply_of :: "str option \<Rightarrow> str option \<Rightarrow> str \<Rightarrow> http_reply" where
  "reply_of after link t = \<lparr> hy_body = t, hy_next = Option.bind link next_link, hy_after = seconds_header after \<rparr>"

fun accepted :: "(http_reply \<Rightarrow> 'a judged) \<Rightarrow> http_answer \<Rightarrow> 'a \<Rightarrow> bool" where
  "accepted judge (Response status after link (Inr t)) v \<longleftrightarrow> is_success status \<and> judge (reply_of after link t) = Accept v"
| "accepted judge _ v \<longleftrightarrow> False"

fun mendable :: "http_extra option \<Rightarrow> (http_reply \<Rightarrow> 'a judged) \<Rightarrow> http_answer \<Rightarrow> bool" where
  "mendable extra judge (BadUri _) \<longleftrightarrow> False"
| "mendable extra judge (Unbuildable _) \<longleftrightarrow> False"
| "mendable extra judge (Unreachable _) \<longleftrightarrow> True"
| "mendable extra judge (Response status after link (Inl _)) \<longleftrightarrow> True"
| "mendable extra judge (Response status after link (Inr t)) \<longleftrightarrow>
     (if is_success status then \<exists>reason. judge (reply_of after link t) = JudgedRetry reason
      else status = 429 \<or> status \<in> {500..<600} \<or> (\<exists>x. extra = Some x \<and> he_throttled x status t))"

fun asked_wait :: "http_answer \<Rightarrow> nat option" where
  "asked_wait (Response _ after _ (Inr _)) = seconds_header after"
| "asked_wait _ = None"

text \<open>
  Attempts from the \<open>n\<close>th request on, with at most \<open>left\<close> repeats and the pauses between them: each that was
  repeated was worth it, and the pause before the next is what the server asked for, if it did, and else
  the wait, which doubles; the last was accepted, or it was not worth repeating, or no repeat was left, or the
  server asked for a longer wait than five minutes.
\<close>

fun one_send :: "http_world \<Rightarrow> http_extra option \<Rightarrow> (http_reply \<Rightarrow> 'a judged) \<Rightarrow> nat \<Rightarrow> nat \<Rightarrow> nat \<Rightarrow> http_request list
    \<Rightarrow> nat list \<Rightarrow> connector_error + 'a \<Rightarrow> bool" where
  "one_send w extra judge left wait n [] pauses result \<longleftrightarrow> False"
| "one_send w extra judge left wait n [q] pauses result \<longleftrightarrow> pauses = [] \<and>
     (let answer = hw_answer w n q
      in (\<forall>v. result = Inr v \<longleftrightarrow> accepted judge answer v) \<and>
         (mendable extra judge answer \<longrightarrow> left = 0 \<or> (\<exists>seconds. asked_wait answer = Some seconds \<and> 300 < seconds)))"
| "one_send w extra judge left wait n (q # qs) pauses result \<longleftrightarrow> mendable extra judge (hw_answer w n q) \<and> 0 < left \<and>
     (\<exists>rest. pauses = (case asked_wait (hw_answer w n q) of Some seconds \<Rightarrow> seconds * 1000 | None \<Rightarrow> wait) # rest \<and>
        (\<forall>seconds. asked_wait (hw_answer w n q) = Some seconds \<longrightarrow> seconds \<le> 300) \<and>
        one_send w extra judge (left - 1) (min (wait * 2) DURATION_MAX) (n + 1) qs rest result)"

lemma one_send_length: "one_send w extra judge left wait n qs pauses result \<Longrightarrow> 1 \<le> length qs \<and> length qs \<le> left + 1"
  by (induction w extra judge left wait n qs pauses result rule: one_send.induct) (auto, fastforce)

text \<open>The code decides the same.\<close>

lemma came_to_accepted_iff: "came_to w extra url judge n q = Inr v \<longleftrightarrow> accepted judge (hw_answer w n q) v"
  by (cases "hw_answer w n q"; cases "\<exists>t. snd (snd (snd (case hw_answer w n q of Response a b c d \<Rightarrow> (a, b, c, d)))) = Inr t")
    (auto simp: came_to_def rejudge_def attempt_of_def judge_status_def Let_def is_success_def reply_of_def
      split: sum.splits judged.splits if_splits)

lemma mendable_retries:
  "mendable extra judge (hw_answer w n q) \<longleftrightarrow>
     (\<exists>reason. came_to w extra url judge n q = Inl (Retry reason (asked_wait (hw_answer w n q))))"
  by (cases "(extra, judge, hw_answer w n q)" rule: mendable.cases)
    (auto simp: came_to_def rejudge_def attempt_of_def judge_status_def Let_def is_success_def reply_of_def
      split: sum.splits judged.splits if_splits option.splits)

lemma retry_after:
  "came_to w extra url judge n q = Inl (Retry reason after) \<Longrightarrow> after = asked_wait (hw_answer w n q)"
  by (cases "(extra, judge, hw_answer w n q)" rule: mendable.cases)
    (auto simp: came_to_def rejudge_def attempt_of_def judge_status_def Let_def is_success_def reply_of_def
      split: sum.splits judged.splits if_splits option.splits)

lemma one_send_last:
  assumes "\<And>v. result = Inr v \<longleftrightarrow> came_to w extra url judge n q = Inr v"
    "\<And>reason after. came_to w extra url judge n q = Inl (Retry reason after) \<Longrightarrow>
       left = 0 \<or> (\<exists>seconds. after = Some seconds \<and> 300 < seconds)"
  shows "one_send w extra judge left wait n [q] [] result"
  using assms by (simp add: came_to_accepted_iff [symmetric, where url = url and extra = extra] mendable_retries [where url = url]
      retry_after [where url = url, symmetric] Let_def) (metis retry_after)

lemma one_send_again:
  assumes "came_to w extra url judge n q = Inl (Retry reason after)" "\<And>seconds. after = Some seconds \<Longrightarrow> seconds \<le> 300"
    "one_send w extra judge left (min (wait * 2) DURATION_MAX) (n + 1) qs pauses result"
  shows "one_send w extra judge (Suc left) wait n (q # qs) ((case after of Some seconds \<Rightarrow> seconds * 1000 | None \<Rightarrow> wait) # pauses) result"
proof -
  obtain q' qs' where "qs = q' # qs'" using assms(3) by (cases qs) auto
  moreover have "mendable extra judge (hw_answer w n q)" "after = asked_wait (hw_answer w n q)"
    using assms(1) retry_after [OF assms(1)] by (auto simp: mendable_retries [where url = url])
  ultimately show ?thesis using assms(2,3) by simp
qed

section \<open>The loop sends so\<close>

lemma pace_pauses [simp]: "cl_pauses (pace s c) = cl_pauses c"
  by (simp add: pace_def Let_def split: option.split)

lemma once_pauses: "once w s url query body extra c = (outcome, c1) \<Longrightarrow> cl_pauses c1 = cl_pauses c"
  by (auto simp: once_def Let_def)

lemma waited_pauses [simp]: "cl_pauses (waited pause c) = cl_pauses c @ [pause]"
  by (simp add: waited_def)

lemma counted_up:
  assumes "unat attempt + left = unat r" "r \<noteq> (- 1 :: u32)"
  shows "unat (attempt + 1) = unat attempt + 1" "r < attempt + 1 \<longleftrightarrow> left = 0"
proof -
  have "r \<le> - 1" by simp
  then have "r < - 1" using assms(2) by (simp add: order.not_eq_order_implies_strict)
  moreover have "attempt \<le> r" using assms(1) by (simp add: word_le_nat_alt)
  ultimately have "attempt \<noteq> - 1" by auto
  then have "1 + attempt \<noteq> 0" by (metis add.commute add_eq_0_iff2)
  then show up: "unat (attempt + 1) = unat attempt + 1" by (metis Suc_eq_plus1 add.commute unatSuc)
  show "r < attempt + 1 \<longleftrightarrow> left = 0" using assms(1) by (auto simp: word_less_nat_alt up)
qed

text \<open>One turn of the loop: it ends, or pauses and turns again.\<close>

lemma one_turn:
  assumes "unat attempt + left = unat (hs_retries s)" "hs_retries s \<noteq> - 1" "wf_client s c"
  obtains
    (ends) result c1 q where "send_loop attempt wait w s url query body extra judge c = Some (result, c1)"
      "cl_sent c1 = cl_sent c @ [q]" "cl_pauses c1 = cl_pauses c" "wf_client s c1" "asks s url query body (snd q)"
      "one_send w extra judge left wait (length (cl_sent c)) [snd q] [] result"
  | (turns) reason after c1 q fewer where
      "send_loop attempt wait w s url query body extra judge c = send_loop (attempt + 1) (min (wait * 2) DURATION_MAX) w s url query body
         extra judge (waited (case after of Some seconds \<Rightarrow> seconds * 1000 | None \<Rightarrow> wait) c1)"
      "came_to w extra url judge (length (cl_sent c)) (snd q) = Inl (Retry reason after)" "\<And>seconds. after = Some seconds \<Longrightarrow> seconds \<le> 300"
      "cl_sent c1 = cl_sent c @ [q]" "cl_pauses c1 = cl_pauses c" "wf_client s c1" "asks s url query body (snd q)"
      "left = Suc fewer" "unat (attempt + 1) + fewer = unat (hs_retries s)"
proof -
  obtain outcome c1 where one: "once w s url query body extra (pace s c) = (outcome, c1)" by force
  define q where "q = (cl_now (pace s c), request_for s extra (cl_now (pace s c)) url query body)"
  have came: "rejudge judge outcome = came_to w extra url judge (length (cl_sent c)) (snd q)"
    using once_sent [OF one] by (simp add: came_to_def q_def)
  have sent: "cl_sent c1 = cl_sent c @ [q]" "cl_pauses c1 = cl_pauses c" "wf_client s c1" "asks s url query body (snd q)"
    using once_sent [OF one] asks_request once_pauses [OF one] once_wf [OF one pace_paces [OF assms(3)]] by (simp_all add: q_def)
  note up = counted_up [OF assms(1,2)]
  note unfold = send_loop.simps [of attempt] one came up(2) MAX_RETRY_AFTER_def
  consider v where "came_to w extra url judge (length (cl_sent c)) (snd q) = Inr v"
    | e where "came_to w extra url judge (length (cl_sent c)) (snd q) = Inl (Fatal e)"
    | reason after where "came_to w extra url judge (length (cl_sent c)) (snd q) = Inl (Retry reason after)"
        "left = 0 \<or> (\<exists>seconds. after = Some seconds \<and> 300 < seconds)"
    | reason after where "came_to w extra url judge (length (cl_sent c)) (snd q) = Inl (Retry reason after)"
        "left \<noteq> 0" "\<And>seconds. after = Some seconds \<Longrightarrow> seconds \<le> 300"
    by (metis attempt.exhaust not_le obj_sumE)
  then show ?thesis
  proof cases
    case (1 v)
    show ?thesis
      by (rule ends [OF _ sent one_send_last [where url = url]]) (use 1 in \<open>auto simp: unfold\<close>)
  next
    case (2 e)
    show ?thesis
      by (rule ends [OF _ sent one_send_last [where url = url]]) (use 2 in \<open>auto simp: unfold\<close>)
  next
    case (3 reason after)
    then obtain e where "send_loop attempt wait w s url query body extra judge c = Some (Inl e, c1)"
      by (cases "left = 0") (auto simp: unfold)
    from ends [OF this sent one_send_last [where url = url]] 3 show ?thesis by auto
  next
    case (4 reason after)
    then obtain fewer where left: "left = Suc fewer" by (cases left) auto
    with assms(1) up(1) have "unat (attempt + 1) + fewer = unat (hs_retries s)" by simp
    have "send_loop attempt wait w s url query body extra judge c = send_loop (attempt + 1) (min (wait * 2) DURATION_MAX) w s url query body
        extra judge (waited (case after of Some seconds \<Rightarrow> seconds * 1000 | None \<Rightarrow> wait) c1)"
    proof (cases after)
      case (Some seconds)
      then have "\<not> 300 < seconds" using 4(3) [OF Some] by simp
      with Some 4(1,2) show ?thesis by (simp add: unfold)
    qed (use 4(1,2) in \<open>simp add: unfold\<close>)
    from turns [OF this 4(1,3) sent left \<open>unat (attempt + 1) + fewer = unat (hs_retries s)\<close>] show ?thesis .
  qed
qed

lemma send_loop_sends:
  "unat attempt + left = unat (hs_retries s) \<Longrightarrow> hs_retries s \<noteq> - 1 \<Longrightarrow> wf_client s c \<Longrightarrow>
     \<exists>result c' new pauses. send_loop attempt wait w s url query body extra judge c = Some (result, c') \<and>
       cl_sent c' = cl_sent c @ new \<and> cl_pauses c' = cl_pauses c @ pauses \<and> wf_client s c' \<and>
       one_send w extra judge left wait (length (cl_sent c)) (map snd new) pauses result \<and>
       (\<forall>q \<in> set (map snd new). asks s url query body q)"
proof (induction left arbitrary: attempt wait c)
  case 0
  show ?case
  proof (cases rule: one_turn [OF 0, of wait w url query body extra judge])
    case (1 result c1 q)
    then show ?thesis
      by (intro exI [where x = result] exI [where x = c1] exI [where x = "[q]"] exI [where x = "[]"]) (simp del: one_send.simps)
  qed simp
next
  case (Suc left)
  show ?case
  proof (cases rule: one_turn [OF Suc.prems, of wait w url query body extra judge])
    case (1 result c1 q)
    then show ?thesis
      by (intro exI [where x = result] exI [where x = c1] exI [where x = "[q]"] exI [where x = "[]"]) (simp del: one_send.simps)
  next
    case (2 reason after c1 q fewer)
    define pause where "pause = (case after of Some seconds \<Rightarrow> seconds * 1000 | None \<Rightarrow> wait)"
    have fewer: "unat (attempt + 1) + left = unat (hs_retries s)" using 2(8,9) by simp
    from Suc.IH [OF fewer Suc.prems(2) waited_keeps(1) [OF 2(6)], of "min (wait * 2) DURATION_MAX" pause]
    obtain result c' new pauses where run: "send_loop attempt wait w s url query body extra judge c = Some (result, c')"
      "cl_sent c' = cl_sent c1 @ new" "cl_pauses c' = cl_pauses c1 @ pause # pauses" "wf_client s c'"
      "one_send w extra judge left (min (wait * 2) DURATION_MAX) (length (cl_sent c) + 1) (map snd new) pauses result"
      "\<forall>q \<in> set (map snd new). asks s url query body q"
      by (auto simp: 2(1,4) pause_def)
    from one_send_again [OF 2(2,3) run(5)] run 2(4,5,7) show ?thesis
      by (intro exI [where x = result] exI [where x = c'] exI [where x = "q # new"] exI [where x = "pause # pauses"])
        (simp add: pause_def del: one_send.simps)
  qed
qed

text \<open>What holds of a send that returns, by the turns it took.\<close>

lemma send_loop_turns:
  assumes "send_loop attempt wait w s url query body extra judge c = Some r"
    "\<And>c outcome c1 v. once w s url query body extra (pace s c) = (outcome, c1) \<Longrightarrow> rejudge judge outcome = Inr v \<Longrightarrow> Q c (Inr v, c1)"
    "\<And>c outcome c1 e. once w s url query body extra (pace s c) = (outcome, c1) \<Longrightarrow> rejudge judge outcome = Inl (Fatal e) \<Longrightarrow> Q c (Inl e, c1)"
    "\<And>attempt c outcome c1 reason after e. once w s url query body extra (pace s c) = (outcome, c1) \<Longrightarrow>
       rejudge judge outcome = Inl (Retry reason after) \<Longrightarrow>
       hs_retries s < attempt \<or> (\<exists>seconds. after = Some seconds \<and> MAX_RETRY_AFTER < seconds) \<Longrightarrow> Q c (Inl e, c1)"
    "\<And>c outcome c1 pause r. once w s url query body extra (pace s c) = (outcome, c1) \<Longrightarrow> Q (waited pause c1) r \<Longrightarrow> Q c r"
  shows "Q c r"
proof -
  let ?P = "\<lambda>(_ :: u32) (_ :: nat) w' s' url' query' body' extra' judge' c r. w' = w \<longrightarrow> s' = s \<longrightarrow> url' = url \<longrightarrow> query' = query \<longrightarrow>
      body' = body \<longrightarrow> extra' = extra \<longrightarrow> judge' = judge \<longrightarrow> Q c r"
  have "?P attempt wait w s url query body extra judge c r"
  proof (rule send_loop.raw_induct [where P = ?P, OF _ assms(1)], intro impI, hypsubst)
    fix f and attempt :: u32 and wait c r
    assume IH: "\<And>attempt wait w' s' url' query' body' extra' judge' c r.
        f attempt wait w' s' url' query' body' extra' judge' c = Some r \<Longrightarrow> ?P attempt wait w' s' url' query' body' extra' judge' c r"
      and eq: "(case once w s url query body extra (pace s c) of
        (outcome, c1) \<Rightarrow> (case rejudge judge outcome of
          Inl (Retry reason after) \<Rightarrow>
            if hs_retries s < attempt + 1
            then Some (Inl (DataError (reason @ '', after '' @ show_nat (unat (attempt + 1)) @ '' attempt(s)'')), c1)
            else (case after of
                None \<Rightarrow> f (attempt + 1) (min (wait * 2) DURATION_MAX) w s url query body extra judge (waited wait c1)
              | Some seconds \<Rightarrow>
                  if MAX_RETRY_AFTER < seconds
                  then Some (Inl (DataError (reason @ '', and the server asked to wait '' @ show_nat seconds @
                    ''s before retrying, which is more than the '' @ show_nat MAX_RETRY_AFTER @ ''s this will wait'')), c1)
                  else f (attempt + 1) (min (wait * 2) DURATION_MAX) w s url query body extra judge (waited (seconds * 1000) c1))
        | Inl (Fatal e) \<Rightarrow> Some (Inl e, c1)
        | Inr v \<Rightarrow> Some (Inr v, c1))) = Some r"
    obtain outcome c1 where one: "once w s url query body extra (pace s c) = (outcome, c1)" by force
    have again: "Q c r" if "f (attempt + 1) (min (wait * 2) DURATION_MAX) w s url query body extra judge (waited pause c1) = Some r" for pause
      using IH [OF that] assms(5) [OF one] by blast
    show "Q c r"
    proof (cases "rejudge judge outcome")
      case (Inr v)
      with eq assms(2) [OF one this] show ?thesis by (simp add: one)
    next
      case (Inl a)
      show ?thesis
      proof (cases a)
        case (Fatal e)
        with eq Inl assms(3) [OF one, of e] show ?thesis by (auto simp: one)
      next
        case (Retry reason after)
        show ?thesis
        proof (cases "hs_retries s < attempt + 1 \<or> (\<exists>seconds. after = Some seconds \<and> MAX_RETRY_AFTER < seconds)")
          case True
          with eq Inl Retry have "\<exists>e. r = (Inl e, c1)" by (cases "hs_retries s < attempt + 1") (auto simp: one)
          with assms(4) [OF one, of reason after "attempt + 1"] True Inl Retry show ?thesis by blast
        next
          case False
          with eq Inl Retry again show ?thesis by (cases after) (auto simp: one)
        qed
      qed
    qed
  qed
  then show ?thesis by simp
qed

text \<open>Whatever the setting: a send that returns leaves the log in order, and what it returns some attempt got.\<close>

lemma send_loop_returns:
  assumes "send_loop attempt wait w s url query body extra judge c = Some (result, c')" "wf_client s c"
  shows "wf_client s c' \<and> (\<forall>v. result = Inr v \<longrightarrow> (\<exists>n q. asks s url query body q \<and> came_to w extra url judge n q = Inr v))"
proof -
  let ?Q = "\<lambda>c r. wf_client s c \<longrightarrow> wf_client s (snd r) \<and>
     (\<forall>v. fst r = Inr v \<longrightarrow> (\<exists>n q. asks s url query body q \<and> came_to w extra url judge n q = Inr v))"
  have wf: "wf_client s c1" if "once w s url query body extra (pace s c) = (outcome, c1)" "wf_client s c" for c outcome c1
    by (rule once_wf [OF that(1) pace_paces [OF that(2)]])
  have "?Q c (result, c')"
  proof (rule send_loop_turns [where Q = ?Q, OF assms(1)], goal_cases)
    case (1 c outcome c1 v)
    then have "came_to w extra url judge (length (cl_sent c)) (request_for s extra (cl_now (pace s c)) url query body) = Inr v"
      using once_sent [OF 1(1)] by (simp add: came_to_def)
    with wf [OF 1(1)] asks_request [of s url query body extra] show ?case by auto
  qed (use wf in auto)
  with assms(2) show ?thesis by simp
qed

text \<open>A status that no wait changes is sent once.\<close>

lemma refused_once:
  assumes "one_send w None judge left wait n qs pauses result" "\<And>q. hw_answer w n q = Response status after link (Inr t)"
    "400 \<le> status" "status < 500" "status \<noteq> 429"
  shows "length qs = 1"
proof -
  have "\<not> mendable None judge (hw_answer w n q)" for q
    using assms(2-5) by (simp add: is_success_def)
  then show ?thesis using assms(1) by (cases qs; cases "tl qs") auto
qed

text \<open>
  With the largest number that \<^verbatim>\<open>retries\<close> can be the counter wraps before it is passed: against a server that
  is always busy the send does not return.
\<close>

lemma the_largest_retries_never_give_up:
  assumes "hs_retries s = - 1" "\<And>n q. mendable extra judge (hw_answer w n q)"
    "\<And>n q seconds. asked_wait (hw_answer w n q) = Some seconds \<Longrightarrow> seconds \<le> 300"
  shows "send_with w s url query body extra judge c = None"
proof (rule ccontr)
  assume "send_with w s url query body extra judge c \<noteq> None"
  then obtain r where "send_loop 0 (hs_backoff s) w s url query body extra judge c = Some r" by (auto simp: send_with_def)
  then show False
  proof (rule send_loop_turns [where Q = "\<lambda>_ _. False"], goal_cases)
    case (3 attempt c outcome c1 reason after e)
    then have "came_to w extra url judge (length (cl_sent c)) (request_for s extra (cl_now (pace s c)) url query body) = Inl (Retry reason after)"
      using once_sent [OF 3(1)] by (simp add: came_to_def)
    from retry_after [OF this] assms(3) have "after = Some seconds \<Longrightarrow> seconds \<le> 300" for seconds by metis
    with 3(3) assms(1) show ?case by (fastforce simp: MAX_RETRY_AFTER_def)
  next
    case (1 c outcome c1 v)
    then show ?case 
      using once_sent [OF 1(1)] assms(2) mendable_retries [where url = url and judge = judge and w = w and extra = extra]
      by (metis came_to_def pace_sent sum.distinct(1))
  next
    case (2 c outcome c1 e)
    then show ?case
      using once_sent [OF 2(1)] assms(2) mendable_retries [where url = url and judge = judge and w = w and extra = extra]
      by (metis attempt.distinct(1) came_to_def pace_sent sum.inject(1))
  qed
qed

text \<open>
  C15: a send is patient, but not without end. Unless \<^verbatim>\<open>retries\<close> is the largest number of 32 bits, it
  returns, after at least one request and at most one more than \<^verbatim>\<open>retries\<close>, each to the same URL with the
  same query and body. Every request but the last got an answer that another attempt may mend; the last was
  accepted and is the result, or the result is an error, and then its answer was one no repeat mends, or
  no repeat was left, or the server asked for a wait of more than five minutes. The pauses between them
  are those the server asked for, or else double from the backoff; and with the ones before, no two requests
  of the client are closer than \<^verbatim>\<open>min_interval_ms\<close>.
\<close>

theorem a_send_is_patient_but_bounded:
  assumes "wf_client s c" "hs_retries s \<noteq> - 1"
  shows "\<exists>result c' new pauses. send_with w s url query body extra judge c = Some (result, c') \<and>
    cl_sent c' = cl_sent c @ new \<and> 1 \<le> length new \<and> length new \<le> unat (hs_retries s) + 1 \<and>
    (\<forall>q \<in> set (map snd new). asks s url query body q) \<and> cl_pauses c' = cl_pauses c @ pauses \<and>
    one_send w extra judge (unat (hs_retries s)) (hs_backoff s) (length (cl_sent c)) (map snd new) pauses result \<and>
    sorted_wrt (\<lambda>a b. fst a + hs_interval s \<le> fst b) (cl_sent c') \<and> wf_client s c'"
proof -
  have "unat (0 :: u32) + unat (hs_retries s) = unat (hs_retries s)" by simp
  from send_loop_sends [OF this assms(2,1), of "hs_backoff s" w url query body extra judge] obtain result c' new pauses where new:
    "send_with w s url query body extra judge c = Some (result, c')" "cl_sent c' = cl_sent c @ new" "cl_pauses c' = cl_pauses c @ pauses"
    "wf_client s c'" "\<forall>q \<in> set (map snd new). asks s url query body q"
    "one_send w extra judge (unat (hs_retries s)) (hs_backoff s) (length (cl_sent c)) (map snd new) pauses result"
    unfolding send_with_def by blast
  with one_send_length [OF new(6)] have "1 \<le> length new" "length new \<le> unat (hs_retries s) + 1" by simp_all
  with new show ?thesis by (intro exI [where x = result] exI [where x = c'] exI [where x = new] exI [where x = pauses]) (simp add: wf_client_def)
qed

text \<open>A server that is busy once and then asks for a wait, and a client that has just sent a request.\<close>

definition example_http :: http_world where
  "example_http = \<lparr> hw_answer = \<lambda>n q. if n < 1 then Response 503 None None (Inr ''busy'')
      else if n < 2 then Response 429 (Some ''2'') None (Inr ''busy'') else Response 200 None None (Inr ''ok''),
     hw_took = \<lambda>_. 10 \<rparr>"

lemma example_turns:
  assumes "hs_retries s = 3" "hs_interval s = 0" "hs_backoff s = 200"
  shows "\<exists>c'. send example_http s url [] None (client_new 0) =
      Some (Inr \<lparr> hy_body = ''ok'', hy_next = None, hy_after = None \<rparr>, c') \<and>
    cl_pauses c' = [200, 2000] \<and> map fst (cl_sent c') = [0, 210, 2220]"
proof -
  define w where "w = example_http"
  define q where "q t = request_for s None t url [] None" for t
  have answers: "\<exists>reason. attempt_of None url (hw_answer w 0 r) = Inl (Retry reason None)"
    "\<exists>reason. attempt_of None url (hw_answer w 1 r) = Inl (Retry reason (Some 2))"
    "attempt_of None url (hw_answer w 2 r) = Inr \<lparr> hy_body = ''ok'', hy_next = None, hy_after = None \<rparr>" for r
    by (simp_all add: w_def example_http_def attempt_of_def judge_status_def Let_def) (code_simp)+
  have took: "hw_took w n = 10" for n by (simp add: w_def example_http_def)
  note turn = pace_def once_def Let_def rejudge_def waited_def DURATION_MAX_def MAX_RETRY_AFTER_def q_def [symmetric] assms took client_new_def
  from answers(1) obtain r0 where r0: "attempt_of None url (hw_answer w 0 (q 0)) = Inl (Retry r0 None)" by blast
  from answers(2) obtain r1 where r1: "attempt_of None url (hw_answer w 1 (q 210)) = Inl (Retry r1 (Some 2))" by blast
  have "send_loop 0 200 w s url [] None None Accept (client_new 0)
      = send_loop 1 400 w s url [] None None Accept \<lparr> cl_now = 210, cl_last = Some 0, cl_sent = [(0, q 0)], cl_pauses = [200] \<rparr>"
    by (subst send_loop.simps) (simp add: turn r0)
  also have "\<dots> = send_loop 2 800 w s url [] None None Accept
      \<lparr> cl_now = 2220, cl_last = Some 210, cl_sent = [(0, q 0), (210, q 210)], cl_pauses = [200, 2000] \<rparr>"
    by (subst send_loop.simps) (simp add: turn r1 [simplified])
  also have "\<dots> = Some (Inr \<lparr> hy_body = ''ok'', hy_next = None, hy_after = None \<rparr>,
      \<lparr> cl_now = 2230, cl_last = Some 2220, cl_sent = [(0, q 0), (210, q 210), (2220, q 2220)], cl_pauses = [200, 2000] \<rparr>)"
    by (subst send_loop.simps) (simp add: turn answers(3) [simplified] numeral_2_eq_2 [symmetric])
  finally show ?thesis by (simp add: send_def send_judged_def send_with_def assms w_def)
qed

lemma a_send_is_patient_but_bounded_witness:
  "\<exists>c' new. send example_http (signed ''http://h'' Get 1000 3) ''http://h'' [] None (client_new 0) =
      Some (Inr \<lparr> hy_body = ''ok'', hy_next = None, hy_after = None \<rparr>, c') \<and>
    cl_sent c' = new \<and> length new \<le> 4 \<and> cl_pauses c' = [200, 2000] \<and> map fst new = [0, 210, 2220]"
proof -
  let ?s = "signed ''http://h'' Get 1000 3"
  have set: "hs_retries ?s = 3" "hs_interval ?s = 0" "hs_backoff ?s = 200" by (simp_all add: signed_def)
  have "wf_client ?s (client_new 0)" "hs_retries ?s \<noteq> - 1" by (simp_all add: wf_client_new set)
  from a_send_is_patient_but_bounded [OF this, of example_http "''http://h''" "[]" None None Accept]
  obtain result c' where run: "send example_http ?s ''http://h'' [] None (client_new 0) = Some (result, c')" "length (cl_sent c') \<le> 4"
    by (auto simp: send_def send_judged_def set client_new_def)
  with example_turns [OF set, of "''http://h''"] show ?thesis by auto
qed

text \<open>A comma inside the target of a link hides it: the header is cut at every comma.\<close>

lemma comma_hides_the_next_link:
  "next_link (''<https://h/rows?page=2>; rel='' @ [CHR 0x22] @ ''next'' @ [CHR 0x22]) = Some ''https://h/rows?page=2''"
  "next_link (''<https://h/rows?fields=a,b&page=2>; rel='' @ [CHR 0x22] @ ''next'' @ [CHR 0x22]) = None"
  by code_simp+

end
