(* ===== verification/Rest_Connector.thy ===== *)
theory Rest_Connector
  imports Http_Client Kafka_Settings
begin

text \<open>
  The REST connectors (\<^verbatim>\<open>crates/connectors/src/rest.rs\<close>): a source that follows one of five paginations and a
  sink that sends rows in batches, both through the client of \<open>Http_Client\<close>. The theorem of the source: an
  offset-paginated read that succeeds holds every row the server has, in order and once, whatever attempts
  failed on the way; the cap on pages is an error and never a short result.
\<close>

section \<open>Specs\<close>

definition rest_source_spec :: "component_spec option" where
  "rest_source_spec = map_option (\<lambda>c. spec_properties (http_properties (Some ([''GET'', ''POST''], ''GET'')) @
    [prop_help ''Query parameters sent with every request.'' (prop_map ''query''),
     prop_help ''A JSON request body, for APIs that take a search as a POST.'' (prop_code ''body''),
     prop_help (''Where the rows are in each response, as a JSON pointer such as /data. Empty '' @
        ''means the response is itself the array.'') (prop_default (JString []) (prop_text ''records'')),
     prop_help (''page and offset count up until a short page; cursor follows cursor_path; link '' @
        ''follows the Link: rel='' @ [CHR 0x22] @ ''next'' @ [CHR 0x22] @ '' header.'')
       (prop_default (JString ''none'') (prop_enumerated ''pagination'' [''none'', ''page'', ''offset'', ''cursor'', ''link''])),
     prop_help ''For page pagination: the query parameter holding the page number.'' (prop_default (JString ''page'') (prop_text ''page_param'')),
     prop_help (''For page pagination: the first page'' @ QT @ ''s number.'') (prop_default (JInt 1) (prop_integer ''page_start'')),
     prop_help ''For offset pagination: the query parameter holding the offset.'' (prop_default (JString ''offset'') (prop_text ''offset_param'')),
     prop_help (''The query parameter holding the page size, e.g. per_page or limit. Offset '' @ ''pagination defaults it to limit.'') (prop_text ''size_param''),
     prop_help (''Rows per page. Sent as size_param, and a page shorter than this is the last. '' @ ''Offset pagination defaults it to 100.'') (prop_integer ''page_size''),
     prop_help (''For cursor pagination: where the next cursor is in each response, as a JSON '' @
        ''pointer such as /meta/next_cursor. Missing, null or empty ends the read.'') (prop_text ''cursor_path''),
     prop_help ''For cursor pagination: the query parameter the cursor is sent in.'' (prop_default (JString ''cursor'') (prop_text ''cursor_param'')),
     prop_help (''A safety cap. Reaching it is an error, not a quiet stop, so a load is never '' @ ''silently partial.'')
       (prop_default (JInt 1000) (prop_integer ''max_pages'')),
     columns_property])
    (spec_icon ''globe'' (spec_description ''Read JSON records from an HTTP API, following its pagination.'' c)))
    (component_new ''src.saas.rest'' ''REST API'')"

definition rest_sink_spec :: "component_spec option" where
  "rest_sink_spec = map_option (\<lambda>c. spec_properties (http_properties (Some ([''POST'', ''PUT'', ''PATCH''], ''POST'')) @
    [prop_help ''Rows per request. 1 sends each row as a JSON object; more sends a JSON array.'' (prop_default (JInt 100) (prop_integer ''batch_size'')),
     prop_help (''Nest each request body under this key, e.g. records sends {'' @ [CHR 0x22] @ ''records'' @ [CHR 0x22] @ '': [...]}.'') (prop_text ''wrap'')])
    (spec_icon ''globe'' (spec_description ''Send rows to an HTTP API as JSON, in batches.'' c)))
    (component_new ''snk.saas.rest'' ''REST API'')"

section \<open>Pagination\<close>

datatype pagination =
    PageNone
  | ByPage str int "(str option \<times> nat) option"
  | ByOffset str nat str nat
  | ByCursor str str "str option"
  | ByLink

definition page_size_of :: "json \<Rightarrow> connector_error + nat option" where
  "page_size_of properties = (case json_get properties ''page_size'' of
     None \<Rightarrow> Inr None | Some JNull \<Rightarrow> Inr None | Some _ \<Rightarrow> map_sum id Some (positive properties ''page_size'' 100))"

definition pagination_of :: "json \<Rightarrow> connector_error + pagination" where
  "pagination_of properties =
     and_then (page_size_of properties) (\<lambda>size.
     let v = text_or properties ''pagination'' ''none''
     in if v = ''none'' then Inr PageNone
        else if v = ''page'' then Inr (ByPage (text_or properties ''page_param'' ''page'')
          (case Option.bind (json_get properties ''page_start'') json_as_i64 of Some n \<Rightarrow> n | None \<Rightarrow> 1)
          (map_option (\<lambda>n. (text_property properties ''size_param'', n)) size))
        else if v = ''offset'' then Inr (ByOffset (text_or properties ''offset_param'' ''offset'') 0
          (text_or properties ''size_param'' ''limit'') (case size of Some n \<Rightarrow> n | None \<Rightarrow> 100))
        else if v = ''cursor'' then and_then (ok_or (PropertyError ''cursor_path''
            (''is required for cursor pagination: say where each response holds the next cursor, e.g. /meta/next_cursor''))
            (text_property properties ''cursor_path''))
          (\<lambda>path. Inr (ByCursor path (text_or properties ''cursor_param'' ''cursor'') None))
        else if v = ''link'' then Inr ByLink
        else Inl (PropertyError ''pagination'' (QT @ v @ QT @ '' is not one of none, page, offset, cursor, link'')))"

definition page_query :: "pagination \<Rightarrow> (str \<times> str) list" where
  "page_query p = (case p of
     PageNone \<Rightarrow> []
   | ByLink \<Rightarrow> []
   | ByPage param n width \<Rightarrow> (param, show_int n) #
       (case width of Some (Some size_param, k) \<Rightarrow> [(size_param, show_nat k)] | _ \<Rightarrow> [])
   | ByOffset param offset size_param width \<Rightarrow> [(param, show_nat offset), (size_param, show_nat width)]
   | ByCursor _ param current \<Rightarrow> (case current of Some c \<Rightarrow> [(param, c)] | None \<Rightarrow> []))"

text \<open>The text behind the first occurrence of a piece, and the text before it.\<close>

fun find_text :: "str \<Rightarrow> str \<Rightarrow> (str \<times> str) option" where
  "find_text piece [] = (if piece = [] then Some ([], []) else None)"
| "find_text piece (c # s) = (if starts_with (c # s) piece then Some ([], drop (length piece) (c # s))
     else map_option (\<lambda>(before, behind). (c # before, behind)) (find_text piece s))"

definition resolve_link :: "str \<Rightarrow> str \<Rightarrow> str" where
  "resolve_link current target =
     (if starts_with target ''http://'' \<or> starts_with target ''https://'' then target
      else case strip_prefix ''/'' target of
        None \<Rightarrow> target
      | Some path \<Rightarrow> (case find_text ''://'' current of
          None \<Rightarrow> target
        | Some (scheme, rest) \<Rightarrow> scheme @ ''://'' @ takeWhile (\<lambda>c. c \<noteq> CHR ''/'') rest @ ''/'' @ path))"

definition page_advance :: "pointer \<Rightarrow> pagination \<Rightarrow> nat \<Rightarrow> json \<Rightarrow> http_reply \<Rightarrow> str \<Rightarrow> connector_error + (pagination \<times> str) option" where
  "page_advance ptr p count document reply url = (case p of
     PageNone \<Rightarrow> Inr None
   | ByPage param n width \<Rightarrow>
       if (case width of Some (_, k) \<Rightarrow> count < k | None \<Rightarrow> count = 0) then Inr None
       else Inr (Some (ByPage param (n + 1) width, url))
   | ByOffset param offset size_param width \<Rightarrow>
       if count < width then Inr None else Inr (Some (ByOffset param (offset + count) size_param width, url))
   | ByCursor path param current \<Rightarrow>
       (case (case ptr document path of
            Some (JString t) \<Rightarrow> if t \<noteq> [] then Some t else None
          | Some (JInt n) \<Rightarrow> Some (show_int n)
          | Some (JFloat t) \<Rightarrow> Some t
          | _ \<Rightarrow> None) of
          None \<Rightarrow> Inr None
        | Some next \<Rightarrow>
            if current = Some next
            then Inl (DataError (''the API returned the cursor '' @ QT @ next @ QT @ '' twice in a row, which would loop forever''))
            else Inr (Some (ByCursor path param (Some next), url)))
   | ByLink \<Rightarrow> Inr (map_option (\<lambda>next. (ByLink, resolve_link url next)) (hy_next reply)))"

section \<open>The source\<close>

text \<open>What the source needs beside the server: the parser, JSON pointers, and which row cannot be staged.\<close>

record rest_world =
  rw_http :: http_world
  rw_parse :: "str \<Rightarrow> str + json"
  rw_pointer :: pointer
  rw_stage :: "nat \<Rightarrow> connector_error option"

record rest_settings =
  rs_http :: http_settings
  rs_pagination :: pagination
  rs_records :: str
  rs_max_pages :: nat
  rs_query :: "(str \<times> str) list"
  rs_body :: "u8 list option"

definition rest_settings_of :: "json \<Rightarrow> connector_error + rest_settings" where
  "rest_settings_of properties =
     and_then (http_settings_of properties ''GET'') (\<lambda>s.
     and_then (pagination_of properties) (\<lambda>p.
     and_then (positive properties ''max_pages'' 1000) (\<lambda>n.
     and_then (pairs_property properties ''query'') (\<lambda>query.
       Inr \<lparr> rs_http = s, rs_pagination = p, rs_records = text_or properties ''records'' [], rs_max_pages = n,
             rs_query = query, rs_body = map_option as_bytes (text_property properties ''body'') \<rparr>))))"

definition rest_check :: "(str \<Rightarrow> str + json) \<Rightarrow> json \<Rightarrow> connector_error + unit" where
  "rest_check parse properties =
     and_then (http_settings_of properties ''GET'') (\<lambda>_.
     and_then (pagination_of properties) (\<lambda>_.
       case text_property properties ''body'' of
         None \<Rightarrow> Inr ()
       | Some body \<Rightarrow> map_sum (\<lambda>reason. PropertyError ''body'' (''is not JSON: '' @ reason)) (\<lambda>_. ()) (parse body)))"

fun write_rows :: "rest_world \<Rightarrow> nat \<Rightarrow> json list \<Rightarrow> nat \<Rightarrow> row list \<Rightarrow> connector_error + row list" where
  "write_rows w page [] index rows = Inr rows"
| "write_rows w page (item # items) index rows = (case item of
     JObject r \<Rightarrow> (case rw_stage w (length rows) of
       Some e \<Rightarrow> Inl e
     | None \<Rightarrow> write_rows w page items (index + 1) (rows @ [r]))
   | other \<Rightarrow> Inl (DataError (''row '' @ show_nat (index + 1) @ '' on page '' @ show_nat page @ '' is '' @ kind_of other @
       '', not an object; point `records` at the array of objects'')))"

text \<open>The loop, by the pages that are left: \<open>page\<close> is the number of the one about to be read.\<close>

fun read_pages :: "nat \<Rightarrow> nat \<Rightarrow> rest_world \<Rightarrow> rest_settings \<Rightarrow> pagination \<Rightarrow> str \<Rightarrow> row list \<Rightarrow> client
    \<Rightarrow> ((connector_error + row list \<times> nat) \<times> client) option" where
  "read_pages 0 page w s p url rows c = Some (Inl (page_cap_reached (rs_max_pages s)), c)"
| "read_pages (Suc left) page w s p url rows c =
     (case send (rw_http w) (rs_http s) url (rs_query s @ page_query p) (rs_body s) c of
        None \<Rightarrow> None
      | Some (Inl e, c1) \<Rightarrow> Some (Inl e, c1)
      | Some (Inr reply, c1) \<Rightarrow>
          (case and_then (map_err (\<lambda>reason. DataError (''page '' @ show_nat page @ '' is not JSON ('' @ reason @ ''): '' @ snippet (hy_body reply)))
                 (rw_parse w (hy_body reply))) (\<lambda>document.
               and_then (rows_at (rw_pointer w) document (rs_records s) page) (\<lambda>items.
               and_then (write_rows w page items 0 rows) (\<lambda>rows1.
               and_then (page_advance (rw_pointer w) p (length items) document reply url) (\<lambda>next. Inr (rows1, next))))) of
             Inl e \<Rightarrow> Some (Inl e, c1)
           | Inr (rows1, None) \<Rightarrow> Some (Inr (rows1, page), c1)
           | Inr (rows1, Some (p1, url1)) \<Rightarrow> read_pages left (page + 1) w s p1 url1 rows1 c1))"

definition rest_read :: "rest_world \<Rightarrow> json \<Rightarrow> client \<Rightarrow> ((connector_error + row list \<times> str) \<times> client) option" where
  "rest_read w properties c =
     (case rest_settings_of properties of
        Inl e \<Rightarrow> Some (Inl e, c)
      | Inr s \<Rightarrow>
          (case read_pages (rs_max_pages s) 1 w s (rs_pagination s) (hs_url (rs_http s)) [] c of
             None \<Rightarrow> None
           | Some (Inl e, c1) \<Rightarrow> Some (Inl e, c1)
           | Some (Inr (rows, pages), c1) \<Rightarrow>
               Some (Inr (rows, show_nat (length rows) @ '' record(s) from '' @ show_nat pages @ '' page(s) of '' @ hs_url (rs_http s)), c1)))"

section \<open>The sink\<close>

definition rest_sink_settings :: "json \<Rightarrow> connector_error + http_settings" where
  "rest_sink_settings properties = and_then (http_settings_of properties ''POST'') (\<lambda>s.
     if hs_method s = Get then Inl (PropertyError ''method'' ''GET cannot send rows; use POST, PUT or PATCH'') else Inr s)"

datatype batch = One row | Many "row list"

definition batch_json :: "str option \<Rightarrow> batch \<Rightarrow> json" where
  "batch_json wrap b =
     (let body = (case b of One r \<Rightarrow> JObject r | Many rows \<Rightarrow> JArray (map JObject rows))
      in case wrap of Some key \<Rightarrow> JObject [(key, body)] | None \<Rightarrow> body)"

definition batch_of :: "nat \<Rightarrow> row list \<Rightarrow> batch" where
  "batch_of width rows = (if width = 1 \<and> length rows = 1 then One (hd rows) else Many rows)"

record rest_writing =
  rg_client :: client
  rg_batches :: nat
  rg_records :: nat

definition rest_write_batch :: "http_world \<Rightarrow> http_settings \<Rightarrow> nat \<Rightarrow> str option \<Rightarrow> row list \<Rightarrow> rest_writing
    \<Rightarrow> ((connector_error + unit) \<times> rest_writing) option" where
  "rest_write_batch w s width wrap rows st =
     (case send w s (hs_url s) [] (Some (as_bytes (json_text (batch_json wrap (batch_of width rows))))) (rg_client st) of
        None \<Rightarrow> None
      | Some (Inl e, c1) \<Rightarrow> Some (Inl (DataError (''batch '' @ show_nat (rg_batches st + 1) @ '' failed after '' @ show_nat (rg_batches st) @
          '' batch(es) ('' @ show_nat (rg_records st) @ '' record(s)) were delivered: '' @ connector_error_text e)), st\<lparr> rg_client := c1 \<rparr>)
      | Some (Inr _, c1) \<Rightarrow> Some (Inr (), \<lparr> rg_client = c1, rg_batches = rg_batches st + 1, rg_records = rg_records st + length rows \<rparr>))"

fun rest_write_loop :: "http_world \<Rightarrow> http_settings \<Rightarrow> nat \<Rightarrow> str option \<Rightarrow> (connector_error + row) list \<Rightarrow> row list \<Rightarrow> rest_writing
    \<Rightarrow> ((connector_error + unit) \<times> rest_writing) option" where
  "rest_write_loop w s width wrap [] pending st = (if pending = [] then Some (Inr (), st) else rest_write_batch w s width wrap pending st)"
| "rest_write_loop w s width wrap (Inl e # input) pending st = Some (Inl e, st)"
| "rest_write_loop w s width wrap (Inr r # input) pending st =
     (if length (pending @ [r]) = width
      then case rest_write_batch w s width wrap (pending @ [r]) st of
             Some (Inr _, st1) \<Rightarrow> rest_write_loop w s width wrap input [] st1
           | refused \<Rightarrow> refused
      else rest_write_loop w s width wrap input (pending @ [r]) st)"

definition rest_write :: "http_world \<Rightarrow> json \<Rightarrow> (connector_error + row) list \<Rightarrow> client \<Rightarrow> ((connector_error + nat \<times> str) \<times> client) option" where
  "rest_write w properties input c =
     (case and_then (rest_sink_settings properties) (\<lambda>s.
        and_then (positive properties ''batch_size'' 100) (\<lambda>width. Inr (s, width))) of
        Inl e \<Rightarrow> Some (Inl e, c)
      | Inr (s, width) \<Rightarrow>
          (case rest_write_loop w s width (text_property properties ''wrap'') input [] \<lparr> rg_client = c, rg_batches = 0, rg_records = 0 \<rparr> of
             None \<Rightarrow> None
           | Some (Inl e, st) \<Rightarrow> Some (Inl e, rg_client st)
           | Some (Inr _, st) \<Rightarrow> Some (Inr (rg_records st,
               if rg_batches st = 0 then ''0 records; nothing sent to '' @ hs_url s
               else show_nat (rg_records st) @ '' record(s) in '' @ show_nat (rg_batches st) @ '' request(s) to '' @ hs_url s), rg_client st)))"

section \<open>A read by offset\<close>

text \<open>
  What a paginated server documents: an answer that is a success holds, where the rows are looked for, the
  page of its list that the query asks for.
\<close>

definition serves_pages :: "rest_world \<Rightarrow> rest_settings \<Rightarrow> str \<Rightarrow> str \<Rightarrow> nat \<Rightarrow> row list \<Rightarrow> bool" where
  "serves_pages w s param size_param width items \<longleftrightarrow>
     (\<forall>n q status after link t offset. hw_answer (rw_http w) n q = Response status after link (Inr t) \<longrightarrow> 200 \<le> status \<longrightarrow> status \<le> 299 \<longrightarrow>
        hq_url q = hs_url (rs_http s) \<longrightarrow> hq_query q = rs_query s @ page_query (ByOffset param offset size_param width) \<longrightarrow>
        (\<exists>document. rw_parse w t = Inr document \<and>
          rw_pointer w document (rs_records s) = Some (JArray (map JObject (take width (drop offset items))))))"

lemma write_rows_objects: "write_rows w page (map JObject rs) index rows = Inr rows1 \<Longrightarrow> rows1 = rows @ rs"
proof (induction rs arbitrary: index rows)
  case (Cons r rs)
  then have "write_rows w page (map JObject rs) (index + 1) (rows @ [r]) = Inr rows1" by (simp split: option.splits)
  from Cons.IH [OF this] show ?case by simp
qed simp

lemma write_rows_all: "(\<forall>k. rw_stage w k = None) \<Longrightarrow> write_rows w page (map JObject rs) index rows = Inr (rows @ rs)"
  by (induction rs arbitrary: index rows) auto

lemma came_to_accepted:
  assumes "came_to w None url judge n q = Inr v"
  shows "\<exists>status after link reply. hw_answer w n q = Response status after link (Inr (hy_body reply)) \<and>
    200 \<le> status \<and> status \<le> 299 \<and> judge reply = Accept v"
proof -
  obtain reply where reply: "attempt_of None url (hw_answer w n q) = Inr reply" "judge reply = Accept v"
    using assms by (auto simp: came_to_def rejudge_def split: sum.splits judged.splits)
  have "\<exists>status after link. hw_answer w n q = Response status after link (Inr (hy_body reply)) \<and> 200 \<le> status \<and> status \<le> 299"
    using reply(1) by (auto simp: attempt_of_def judge_status_def Let_def split: sum.splits http_answer.splits if_splits)
  with reply(2) show ?thesis by blast
qed

text \<open>A reply that was accepted is the body of a success that some attempt got, and its judge took it.\<close>

lemma send_judged_accepted:
  assumes "send_judged w s url query body judge c = Some (Inr v, c1)" "wf_client s c"
  shows "wf_client s c1" "\<exists>n q status after link reply. hw_answer w n q = Response status after link (Inr (hy_body reply)) \<and>
    200 \<le> status \<and> status \<le> 299 \<and> asks s url query body q \<and> judge reply = Accept v"
proof -
  have "send_loop 0 (hs_backoff s) w s url query body None judge c = Some (Inr v, c1)"
    using assms(1) by (simp add: send_judged_def send_with_def)
  from send_loop_returns [OF this assms(2)] obtain n q where q: "wf_client s c1" "asks s url query body q" "came_to w None url judge n q = Inr v"
    by blast
  show "wf_client s c1" by (rule q(1))
  from came_to_accepted [OF q(3)] obtain status after link reply where
    "hw_answer w n q = Response status after link (Inr (hy_body reply)) \<and> 200 \<le> status \<and> status \<le> 299 \<and> judge reply = Accept v" by blast
  moreover note q(2)
  ultimately show "\<exists>n q status after link reply. hw_answer w n q = Response status after link (Inr (hy_body reply)) \<and>
    200 \<le> status \<and> status \<le> 299 \<and> asks s url query body q \<and> judge reply = Accept v"
    by (rule_tac x = n in exI, rule_tac x = q in exI) blast
qed

lemma send_replied:
  assumes "send w s url query body c = Some (Inr reply, c1)" "wf_client s c"
  shows "wf_client s c1" "\<exists>n q status after link. hw_answer w n q = Response status after link (Inr (hy_body reply)) \<and>
    200 \<le> status \<and> status \<le> 299 \<and> hq_url q = url \<and> hq_query q = query"
proof -
  note sent = assms(1) [unfolded send_def]
  show "wf_client s c1" by (rule send_judged_accepted(1) [OF sent assms(2)])
  from send_judged_accepted(2) [OF sent assms(2)]
  show "\<exists>n q status after link. hw_answer w n q = Response status after link (Inr (hy_body reply)) \<and>
    200 \<le> status \<and> status \<le> 299 \<and> hq_url q = url \<and> hq_query q = query"
    unfolding asks_def judged.inject by blast
qed

lemma page_of_offset:
  assumes "serves_pages w s param size_param width items" "wf_client (rs_http s) c"
    "send (rw_http w) (rs_http s) (hs_url (rs_http s)) (rs_query s @ page_query (ByOffset param offset size_param width)) (rs_body s) c = Some (Inr reply, c1)"
  shows "\<exists>document. rw_parse w (hy_body reply) = Inr document \<and>
    rows_at (rw_pointer w) document (rs_records s) page = Inr (map JObject (take width (drop offset items)))"
proof -
  from send_replied(2) [OF assms(3,2)] obtain n q status after link where
    "hw_answer (rw_http w) n q = Response status after link (Inr (hy_body reply))" "200 \<le> status" "status \<le> 299"
    "hq_url q = hs_url (rs_http s)" "hq_query q = rs_query s @ page_query (ByOffset param offset size_param width)" by blast
  with assms(1) obtain document where "rw_parse w (hy_body reply) = Inr document"
    "rw_pointer w document (rs_records s) = Some (JArray (map JObject (take width (drop offset items))))"
    unfolding serves_pages_def by blast
  then show ?thesis by (simp add: rows_at_def)
qed

lemma read_pages_by_offset:
  assumes "serves_pages w s param size_param width items"
  shows "read_pages left page w s (ByOffset param offset size_param width) (hs_url (rs_http s)) (take offset items) c
      = Some (Inr (rows, pages), c') \<Longrightarrow> wf_client (rs_http s) c \<Longrightarrow> rows = items"
proof (induction left arbitrary: page offset c)
  case (Suc left)
  let ?query = "rs_query s @ page_query (ByOffset param offset size_param width)"
  define here where "here = take width (drop offset items)"
  obtain r c1 where sent: "send (rw_http w) (rs_http s) (hs_url (rs_http s)) ?query (rs_body s) c = Some (r, c1)"
    using Suc.prems(1) by (cases "send (rw_http w) (rs_http s) (hs_url (rs_http s)) ?query (rs_body s) c") auto
  with Suc.prems(1) obtain reply where r: "r = Inr reply" by (cases r) auto
  from page_of_offset [OF assms Suc.prems(2) sent [unfolded r], of page, folded here_def] obtain document where document:
    "rw_parse w (hy_body reply) = Inr document" "rows_at (rw_pointer w) document (rs_records s) page = Inr (map JObject here)" by blast
  have wf: "wf_client (rs_http s) c1" by (rule send_replied(1) [OF sent [unfolded r] Suc.prems(2)])
  obtain rows1 where rows1: "write_rows w page (map JObject here) 0 (take offset items) = Inr rows1"
    using Suc.prems(1) by (cases "write_rows w page (map JObject here) 0 (take offset items)") (auto simp: sent r document)
  then have whole: "rows1 = take offset items @ here" by (rule write_rows_objects)
  show ?case
  proof (cases "length here < width")
    case True
    then have "here = drop offset items" by (simp add: here_def min_def split: if_splits)
    then have "rows1 = items" using whole by simp
    with True Suc.prems(1) rows1 show ?thesis by (simp add: sent r document page_advance_def)
  next
    case False
    then have len: "length here = width" by (simp add: here_def)
    have "rows1 = take (offset + width) items" using whole by (simp add: take_add here_def)
    with len Suc.prems(1) rows1 have "read_pages left (page + 1) w s (ByOffset param (offset + width) size_param width) (hs_url (rs_http s))
        (take (offset + width) items) c1 = Some (Inr (rows, pages), c')"
      by (simp add: sent r document page_advance_def)
    from Suc.IH [OF this wf] show ?thesis .
  qed
qed simp

text \<open>A server that answers every request with a success.\<close>

definition healthy :: "rest_world \<Rightarrow> bool" where
  "healthy w \<longleftrightarrow> (\<forall>n q. \<exists>status after link t. hw_answer (rw_http w) n q = Response status after link (Inr t) \<and> 200 \<le> status \<and> status \<le> 299) \<and>
     (\<forall>k. rw_stage w k = None)"

lemma healthy_send:
  assumes "healthy w"
  shows "\<exists>reply c1. send (rw_http w) s url query body c = Some (Inr reply, c1)"
proof -
  obtain outcome c1 where one: "once (rw_http w) s url query body None (pace s c) = (outcome, c1)" by force
  let ?n = "length (cl_sent (pace s c))" and ?q = "request_for s None (cl_now (pace s c)) url query body"
  obtain status after link t where "hw_answer (rw_http w) ?n ?q = Response status after link (Inr t)" "200 \<le> status" "status \<le> 299"
    using assms unfolding healthy_def by blast
  then have "\<exists>reply. outcome = Inr reply"
    using once_sent [OF one] by (simp add: attempt_of_def judge_status_def)
  then show ?thesis
    using one by (auto simp: send_def send_judged_def send_with_def send_loop.simps rejudge_def)
qed

lemma read_pages_ends:
  assumes "serves_pages w s param size_param width items" "healthy w" "0 < width"
  shows "(length items - offset) div width < left \<Longrightarrow> wf_client (rs_http s) c \<Longrightarrow>
    \<exists>rows pages c'. read_pages left page w s (ByOffset param offset size_param width) (hs_url (rs_http s)) (take offset items) c = Some (Inr (rows, pages), c')"
proof (induction left arbitrary: page offset c)
  case (Suc left)
  let ?query = "rs_query s @ page_query (ByOffset param offset size_param width)"
  define here where "here = take width (drop offset items)"
  obtain reply c1 where sent: "send (rw_http w) (rs_http s) (hs_url (rs_http s)) ?query (rs_body s) c = Some (Inr reply, c1)"
    using healthy_send [OF assms(2)] by blast
  from page_of_offset [OF assms(1) Suc.prems(2) sent, of page, folded here_def] obtain document where document:
    "rw_parse w (hy_body reply) = Inr document" "rows_at (rw_pointer w) document (rs_records s) page = Inr (map JObject here)" by blast
  have rows1: "write_rows w page (map JObject here) 0 (take offset items) = Inr (take offset items @ here)"
    using assms(2) by (intro write_rows_all) (simp add: healthy_def)
  show ?case
  proof (cases "length here < width")
    case True
    with sent document rows1 show ?thesis by (simp add: page_advance_def)
  next
    case False
    then have long: "offset + width \<le> length items" "length here = width"
      using assms(3) by (auto simp: here_def)
    have rows2: "take offset items @ here = take (offset + width) items" by (simp add: take_add here_def)
    then have "(length items - offset) div width = Suc ((length items - (offset + width)) div width)"
      using assms(3) long(1) by (subst le_div_geq) simp_all
    with Suc.prems(1) have "(length items - (offset + width)) div width < left" by simp
    from Suc.IH [OF this send_replied(1) [OF sent Suc.prems(2)], of "page + 1"] sent document rows1 long(2) rows2
    show ?thesis by (simp add: page_advance_def)
  qed
qed simp

text \<open>
  a read by offset is whole or an error. Against a server whose successes hold the page of its list that
  was asked for, whatever attempts failed and were retried on the way, a read that succeeds has written
  exactly the rows of the list, in order; and where every answer is a success and the list has fewer
  pages than the cap, it does succeed. The cap and the retries can only turn a read into an error.
\<close>

lemma offset_read_is_whole:
  assumes "rest_settings_of properties = Inr s" "rs_pagination s = ByOffset param 0 size_param width"
    "serves_pages w s param size_param width items"
  shows "(\<forall>rows told c'. rest_read w properties (client_new now) = Some (Inr (rows, told), c') \<longrightarrow> rows = items) \<and>
    (healthy w \<and> 0 < width \<and> length items div width < rs_max_pages s \<longrightarrow>
      (\<exists>told c'. rest_read w properties (client_new now) = Some (Inr (items, told), c')))"
proof (intro conjI allI impI)
  have start: "wf_client (rs_http s) (client_new now)" by (rule wf_client_new)
  note whole = read_pages_by_offset [OF assms(3) _ start, of _ _ 0, simplified]
  show "rows = items" if "rest_read w properties (client_new now) = Some (Inr (rows, told), c')" for rows told c'
    using that whole by (auto simp: rest_read_def assms(1,2) split: sum.splits prod.splits option.splits)
  assume ok: "healthy w \<and> 0 < width \<and> length items div width < rs_max_pages s"
  with read_pages_ends [OF assms(3), of 0 "rs_max_pages s" "client_new now" 1] start
  obtain rows pages c' where read: "read_pages (rs_max_pages s) 1 w s (ByOffset param 0 size_param width) (hs_url (rs_http s)) []
      (client_new now) = Some (Inr (rows, pages), c')" by auto
  with whole show "\<exists>told c'. rest_read w properties (client_new now) = Some (Inr (items, told), c')"
    by (auto simp: rest_read_def assms(1,2))
qed

section \<open>A list of three rows\<close>

definition example_rest :: json where
  "example_rest = JObject [(''url'', JString ''http://h/rows''), (''pagination'', JString ''offset''), (''page_size'', JInt 2)]"

definition example_items :: "row list" where
  "example_items = [[(''n'', JInt 1)], [(''n'', JInt 2)], [(''n'', JInt 3)]]"

definition example_rest_world :: rest_world where
  "example_rest_world = \<lparr> rw_http = \<lparr> hw_answer = \<lambda>n q. Response 200 None None (Inr (snd (hd (hq_query q)))), hw_took = \<lambda>_. 10 \<rparr>,
     rw_parse = \<lambda>t. Inr (JArray (map JObject (take 2 (drop (the (parse_digits t)) example_items)))),
     rw_pointer = \<lambda>v at. Some v, rw_stage = \<lambda>_. None \<rparr>"

lemma example_rest_settings: "case rest_settings_of example_rest of Inl _ \<Rightarrow> False
  | Inr s \<Rightarrow> rs_pagination s = ByOffset ''offset'' 0 ''limit'' 2 \<and> rs_query s = [] \<and> rs_max_pages s = 1000"
  by code_simp

lemma offset_read_is_whole_witness:
  "\<exists>told c'. rest_read example_rest_world example_rest (client_new 0) = Some (Inr (example_items, told), c')"
proof -
  obtain s where s: "rest_settings_of example_rest = Inr s" "rs_pagination s = ByOffset ''offset'' 0 ''limit'' 2"
    "rs_query s = []" "rs_max_pages s = 1000"
    using example_rest_settings by (cases "rest_settings_of example_rest") auto
  have "serves_pages example_rest_world s ''offset'' ''limit'' 2 example_items"
    by (auto simp: serves_pages_def example_rest_world_def s page_query_def)
  moreover have "healthy example_rest_world"
    by (simp add: healthy_def example_rest_world_def)
  moreover have "length example_items div 2 < rs_max_pages s" by (simp add: example_items_def s)
  ultimately show ?thesis using offset_read_is_whole [OF s(1,2)] by simp
qed

text \<open>A link is taken from the server as it is, credentials and all, and a path of another host is glued to this one.\<close>

lemma links_leave_the_host:
  "resolve_link ''https://api.example.com/v1'' ''https://elsewhere.example/v1'' = ''https://elsewhere.example/v1''"
  "resolve_link ''https://api.example.com/v1'' ''//cdn.example.com/v1'' = ''https://api.example.com//cdn.example.com/v1''"
  by code_simp+

end
