(* ===== verification/Graphql_Connector.thy ===== *)
theory Graphql_Connector
  imports Rest_Connector
begin

text \<open>
  The GraphQL connectors (\<^verbatim>\<open>crates/connectors/src/graphql.rs\<close>): a source that runs a query and follows relay
  or offset pages, and a sink that runs a mutation once for a batch of rows, over the client of
  \<open>Http_Client\<close> and with the parser, the pointers and the staging of \<open>Rest_Connector\<close>. What GraphQL adds is
  that an answer with status 200 can be a failure. The theorems: nothing is accepted that names an error,
  and a relay read that succeeds holds every row of every page, whatever answers with errors came between.
\<close>

section \<open>Specs\<close>

definition DEFAULT_RETRY_CODES :: "str list" where
  "DEFAULT_RETRY_CODES = [''THROTTLED'', ''RATE_LIMITED'']"

definition ERRORS_QUOTED :: nat where "ERRORS_QUOTED = 3"

definition variables_property :: property_spec where
  "variables_property = prop_help (''A JSON object of variables sent with every request, e.g. {'' @ [CHR 0x22] @ ''status'' @ [CHR 0x22] @ '': '' @
     [CHR 0x22] @ ''shipped'' @ [CHR 0x22] @ ''}. ${...} parameters work inside it.'') (prop_code ''variables'')"

definition retry_codes_property :: property_spec where
  "retry_codes_property = prop_help (''Error codes that mean '' @ [CHR 0x22] @ ''slow down'' @ [CHR 0x22] @ '' rather than '' @ [CHR 0x22] @
     ''wrong'' @ [CHR 0x22] @ '': when every error in a response has one of these as its extensions.code or type, the request is retried '' @
     ''like a 429. Empty retries none.'')
     (prop_default (JArray (map JString DEFAULT_RETRY_CODES)) (prop_string_list ''retry_codes''))"

definition graphql_source_spec :: "component_spec option" where
  "graphql_source_spec = map_option (\<lambda>c. spec_properties (http_properties None @
    [prop_help (''The GraphQL query. For relay pagination it declares $after (or cursor_variable) '' @
        ''and asks for pageInfo { hasNextPage endCursor }.'') (prop_required (prop_code ''query'')),
     variables_property,
     prop_help (''Where the rows are in each response, as a JSON pointer such as /data/orders/nodes. Prefer nodes to edges where '' @
        ''the API has both: edges gives each row a node column instead of its fields.'') (prop_required (prop_text ''records'')),
     prop_help (''relay follows pageInfo.endCursor until hasNextPage is false; offset counts '' @ ''up in page_size steps until a short page.'')
       (prop_default (JString ''none'') (prop_enumerated ''pagination'' [''none'', ''relay'', ''offset''])),
     prop_help ''For relay pagination: the variable the cursor is sent in, null at first.''
       (prop_default (JString ''after'') (prop_text ''cursor_variable'')),
     prop_help (''For relay pagination: where pageInfo is, as a JSON pointer. Unset means beside '' @
        ''the records: /data/orders/pageInfo for records at /data/orders/nodes.'') (prop_text ''page_info''),
     prop_help ''For offset pagination: the variable holding the offset.'' (prop_default (JString ''offset'') (prop_text ''offset_variable'')),
     prop_help ''For offset pagination: the variable holding page_size.'' (prop_default (JString ''limit'') (prop_text ''limit_variable'')),
     prop_help ''For offset pagination: rows per page. A shorter page is the last.'' (prop_default (JInt 100) (prop_integer ''page_size'')),
     prop_help (''A safety cap. Reaching it is an error, not a quiet stop, so a load is never '' @ ''silently partial.'')
       (prop_default (JInt 1000) (prop_integer ''max_pages'')),
     retry_codes_property,
     columns_property])
    (spec_icon ''globe'' (spec_description ''Read records from a GraphQL API, following relay or offset pages.'' c)))
    (component_new ''src.saas.graphql'' ''GraphQL API'')"

definition graphql_sink_spec :: "component_spec option" where
  "graphql_sink_spec = map_option (\<lambda>c. spec_properties (http_properties None @
    [prop_help (''The GraphQL mutation, run once per batch. It declares the rows variable, e.g. '' @
        ''mutation ($rows: [OrderInput!]!) { addOrders(input: $rows) { count } }.'') (prop_required (prop_code ''mutation'')),
     prop_help ''The variable each batch is sent in, always as a list.'' (prop_default (JString ''rows'') (prop_text ''rows_variable'')),
     variables_property,
     prop_help ''Rows per request.'' (prop_default (JInt 100) (prop_integer ''batch_size'')),
     retry_codes_property])
    (spec_icon ''globe'' (spec_description ''Send rows to a GraphQL API through a mutation, in batches.'' c)))
    (component_new ''snk.saas.graphql'' ''GraphQL API'')"

section \<open>Small things\<close>

definition graphql_request :: "str \<Rightarrow> (str \<times> json) list \<Rightarrow> u8 list" where
  "graphql_request document variables =
     as_bytes (json_text (JObject [(''query'', JString document), (''variables'', JObject variables)]))"

definition operation_of :: "json \<Rightarrow> str \<Rightarrow> connector_error + str" where
  "operation_of properties key = ok_or (PropertyError key ''is required'') (text_property properties key)"

definition variables_of :: "(str \<Rightarrow> str + json) \<Rightarrow> json \<Rightarrow> connector_error + (str \<times> json) list" where
  "variables_of parse properties = (case text_property properties ''variables'' of
     None \<Rightarrow> Inr []
   | Some written \<Rightarrow> (case parse written of
       Inr (JObject fs) \<Rightarrow> Inr fs
     | Inr other \<Rightarrow> Inl (PropertyError ''variables'' (''is '' @ kind_of other @ '', not a JSON object such as {'' @ [CHR 0x22] @ ''status'' @
         [CHR 0x22] @ '': '' @ [CHR 0x22] @ ''shipped'' @ [CHR 0x22] @ ''}''))
     | Inl reason \<Rightarrow> Inl (PropertyError ''variables'' (''is not JSON: '' @ reason))))"

definition is_name_char :: "char \<Rightarrow> bool" where
  "is_name_char c \<longleftrightarrow> is_ascii_alphanumeric c \<or> c = CHR ''_''"

definition variable_name :: "json \<Rightarrow> str \<Rightarrow> str \<Rightarrow> connector_error + str" where
  "variable_name properties key fallback =
     (let written = trim (text_or properties key fallback);
          name = (case strip_prefix ''$'' written of Some bare \<Rightarrow> bare | None \<Rightarrow> written)
      in if name \<noteq> [] \<and> (is_ascii_alphabetic (hd name) \<or> hd name = CHR ''_'') \<and> list_all is_name_char name then Inr name
         else Inl (PropertyError key (QT @ name @ QT @ '' is not a GraphQL variable name'')))"

lemma starts_with_length: "starts_with s piece \<Longrightarrow> length piece \<le> length s"
  by (metis starts_with_def length_take min.cobounded1)

lemma find_text_shortens: "find_text piece s = Some (before, behind) \<Longrightarrow> length behind + length piece \<le> length s"
  by (induction piece s arbitrary: before rule: find_text.induct) (auto dest: starts_with_length split: if_splits)

text \<open>Whether some occurrence of \<^verbatim>\<open>$name\<close> is followed by no further letter of a name.\<close>

function declares :: "str \<Rightarrow> str \<Rightarrow> bool" where
  "declares document name = (case find_text (CHR ''$'' # name) document of
     None \<Rightarrow> False
   | Some (_, behind) \<Rightarrow> (behind = [] \<or> \<not> is_name_char (hd behind)) \<or> declares behind name)"
  by pat_completeness auto
termination
  by (relation "measure (\<lambda>(document, _). length document)") (auto dest: find_text_shortens)

declare declares.simps [simp del]

definition text_item :: "json \<Rightarrow> connector_error + str" where
  "text_item v = ok_or (PropertyError ''retry_codes'' ''must be a list of codes'') (json_as_str v)"

definition retry_codes_of :: "json \<Rightarrow> connector_error + str list" where
  "retry_codes_of properties = (case json_get properties ''retry_codes'' of
     None \<Rightarrow> Inr DEFAULT_RETRY_CODES
   | Some JNull \<Rightarrow> Inr DEFAULT_RETRY_CODES
   | Some (JArray codes) \<Rightarrow> traverse text_item codes
   | Some _ \<Rightarrow> Inl (PropertyError ''retry_codes'' ''must be a list of codes''))"

section \<open>Responses\<close>

definition error_code_of :: "pointer \<Rightarrow> json \<Rightarrow> str option" where
  "error_code_of ptr e = (case Option.bind (ptr e ''/extensions/code'') json_as_str of
     Some tag \<Rightarrow> Some tag
   | None \<Rightarrow> Option.bind (json_get e ''type'') json_as_str)"

definition path_part :: "json \<Rightarrow> str" where
  "path_part v = (case v of JString t \<Rightarrow> t | other \<Rightarrow> json_text other)"

definition describe_error :: "pointer \<Rightarrow> json \<Rightarrow> str" where
  "describe_error ptr e =
     [CHR 0x22] @ (case Option.bind (json_get e ''message'') json_as_str of Some m \<Rightarrow> m | None \<Rightarrow> ''(no message)'') @ [CHR 0x22] @
     (case error_code_of ptr e of Some tag \<Rightarrow> '' ['' @ tag @ '']'' | None \<Rightarrow> []) @
     (case Option.bind (json_get e ''path'') json_as_array of
        Some parts \<Rightarrow> '' at '' @ join_with ''.'' (map path_part parts) | None \<Rightarrow> [])"

definition describe_errors :: "pointer \<Rightarrow> json list \<Rightarrow> str" where
  "describe_errors ptr errors = join_with ''; '' (map (describe_error ptr) (take ERRORS_QUOTED errors) @
     (if length errors > ERRORS_QUOTED then [''and '' @ show_nat (length errors - ERRORS_QUOTED) @ '' more''] else []))"

definition throttled_by :: "pointer \<Rightarrow> str list \<Rightarrow> json list \<Rightarrow> bool" where
  "throttled_by ptr retry_codes errors = (let codes = filter_map (error_code_of ptr) errors
     in length codes = length errors \<and> list_all (\<lambda>tag. tag \<in> set retry_codes) codes)"

definition errors_of :: "str \<Rightarrow> json \<Rightarrow> connector_error + json list" where
  "errors_of what document = (case json_get document ''errors'' of
     None \<Rightarrow> Inr []
   | Some JNull \<Rightarrow> Inr []
   | Some (JArray errors) \<Rightarrow> Inr errors
   | Some other \<Rightarrow> Inl (DataError (what @ '': `errors` in the response is '' @ kind_of other @ '', not a list'')))"

definition judge_reply :: "(str \<Rightarrow> str + json) \<Rightarrow> pointer \<Rightarrow> str \<Rightarrow> str list \<Rightarrow> http_reply \<Rightarrow> json judged" where
  "judge_reply parse ptr what retry_codes reply = (case parse (hy_body reply) of
     Inl reason \<Rightarrow> JudgedFail (DataError (what @ '': the response is not JSON ('' @ reason @ ''): '' @ snippet (hy_body reply)))
   | Inr document \<Rightarrow> (case errors_of what document of
       Inl e \<Rightarrow> JudgedFail e
     | Inr errors \<Rightarrow>
         if errors \<noteq> [] then
           if throttled_by ptr retry_codes errors
           then JudgedRetry (what @ '': the API is throttling ('' @
             join_with '', '' (remdups_adj (filter_map (error_code_of ptr) errors)) @ '')'')
           else JudgedFail (DataError (what @ '': the API answered with '' @ show_nat (length errors) @ '' error(s): '' @
             describe_errors ptr errors))
         else (case json_get document ''data'' of
             None \<Rightarrow> JudgedFail (DataError (what @ '': the response has neither data nor errors: '' @ snippet (hy_body reply)))
           | Some JNull \<Rightarrow> JudgedFail (DataError (what @ '': the response has neither data nor errors: '' @ snippet (hy_body reply)))
           | Some _ \<Rightarrow> Accept document)))"

text \<open>A document without errors: what may be read from.\<close>

definition clean :: "json \<Rightarrow> bool" where
  "clean document \<longleftrightarrow> json_get document ''errors'' \<in> {None, Some JNull, Some (JArray [])} \<and>
     (\<exists>data. json_get document ''data'' = Some data \<and> data \<noteq> JNull)"

lemma judge_accepts:
  "judge_reply parse ptr what retry_codes reply = Accept document \<longleftrightarrow> parse (hy_body reply) = Inr document \<and> clean document"
  by (auto simp: judge_reply_def errors_of_def clean_def split: sum.splits option.splits json.splits if_splits)


section \<open>Pagination\<close>

datatype paging =
    Unpaged
  | Relay str str "str option"
  | OffsetPages str str nat nat

text \<open>Where \<^verbatim>\<open>pageInfo\<close> is when nobody said: the pointer to the records, its last part replaced.\<close>

definition beside :: "str \<Rightarrow> str" where
  "beside records_at =
     (if CHR ''/'' \<in> set records_at then rev (tl (dropWhile (\<lambda>c. c \<noteq> CHR ''/'') (rev records_at))) else []) @ ''/pageInfo''"

definition page_info_of :: "json \<Rightarrow> str \<Rightarrow> connector_error + str" where
  "page_info_of properties records_at = (case text_property properties ''page_info'' of
     Some at \<Rightarrow> if starts_with at ''/'' then Inr at
       else Inl (PropertyError ''page_info'' (QT @ at @ QT @ '' is not a JSON pointer; it starts with /''))
   | None \<Rightarrow> Inr (beside records_at))"

definition paging_of :: "json \<Rightarrow> str \<Rightarrow> connector_error + paging" where
  "paging_of properties records_at = (let v = text_or properties ''pagination'' ''none''
     in if v = ''none'' then Inr Unpaged
        else if v = ''relay'' then
          and_then (variable_name properties ''cursor_variable'' ''after'') (\<lambda>variable.
          and_then (page_info_of properties records_at) (\<lambda>page_info. Inr (Relay variable page_info None)))
        else if v = ''offset'' then
          and_then (variable_name properties ''offset_variable'' ''offset'') (\<lambda>offset_variable.
          and_then (variable_name properties ''limit_variable'' ''limit'') (\<lambda>limit_variable.
          and_then (positive properties ''page_size'' 100) (\<lambda>width. Inr (OffsetPages offset_variable limit_variable width 0))))
        else Inl (PropertyError ''pagination'' (QT @ v @ QT @ '' is not one of none, relay, offset'')))"

definition paging_name :: "paging \<Rightarrow> str" where
  "paging_name p = (case p of Unpaged \<Rightarrow> ''no'' | Relay _ _ _ \<Rightarrow> ''relay'' | OffsetPages _ _ _ _ \<Rightarrow> ''offset'')"

definition paging_variables :: "paging \<Rightarrow> str list" where
  "paging_variables p = (case p of
     Unpaged \<Rightarrow> [] | Relay variable _ _ \<Rightarrow> [variable] | OffsetPages offset_variable limit_variable _ _ \<Rightarrow> [offset_variable, limit_variable])"

definition paging_bind :: "paging \<Rightarrow> (str \<times> json) list \<Rightarrow> (str \<times> json) list" where
  "paging_bind p variables = (case p of
     Unpaged \<Rightarrow> variables
   | Relay variable _ current \<Rightarrow> obj_insert variable (case current of Some c \<Rightarrow> JString c | None \<Rightarrow> JNull) variables
   | OffsetPages offset_variable limit_variable width offset \<Rightarrow>
       obj_insert limit_variable (JInt (int width)) (obj_insert offset_variable (JInt (int offset)) variables))"

definition end_cursor :: "nat \<Rightarrow> (str \<times> json) list \<Rightarrow> connector_error + str" where
  "end_cursor page info = (let missing = DataError (''page '' @ show_nat page @
       '': hasNextPage is true but endCursor is missing; ask for endCursor in the query'' @ QT @ ''s pageInfo'')
     in case map_of info ''endCursor'' of Some (JString t) \<Rightarrow> if t \<noteq> [] then Inr t else Inl missing | _ \<Rightarrow> Inl missing)"

text \<open>The next page, or nothing when that was the last.\<close>

definition paging_advance :: "pointer \<Rightarrow> paging \<Rightarrow> nat \<Rightarrow> json \<Rightarrow> nat \<Rightarrow> connector_error + paging option" where
  "paging_advance ptr p count document page = (case p of
     Unpaged \<Rightarrow> Inr None
   | OffsetPages offset_variable limit_variable width offset \<Rightarrow>
       Inr (if count < width then None else Some (OffsetPages offset_variable limit_variable width (offset + count)))
   | Relay variable page_info current \<Rightarrow>
       and_then (ok_or (DataError (''page '' @ show_nat page @ '': no pageInfo at '' @ QT @ page_info @ QT @
           ''; ask for pageInfo { hasNextPage endCursor } in the query, or set page_info to where it is''))
         (Option.bind (ptr document page_info) json_as_object)) (\<lambda>info.
       and_then (ok_or (DataError (''page '' @ show_nat page @ '': pageInfo at '' @ QT @ page_info @ QT @
           '' has no hasNextPage; ask for it in the query''))
         (Option.bind (map_of info ''hasNextPage'') json_as_bool)) (\<lambda>more.
       if \<not> more then Inr None
       else and_then (end_cursor page info) (\<lambda>next.
         if current = Some next
         then Inl (DataError (''the API returned the cursor '' @ QT @ next @ QT @ '' twice in a row, which would loop forever''))
         else Inr (Some (Relay variable page_info (Some next)))))))"

section \<open>Settings\<close>

record graphql_settings =
  gq_http :: http_settings
  gq_query :: str
  gq_variables :: "(str \<times> json) list"
  gq_records :: str
  gq_paging :: paging
  gq_max_pages :: nat
  gq_retry_codes :: "str list"

fun paging_declared :: "str \<Rightarrow> (str \<times> json) list \<Rightarrow> paging \<Rightarrow> str list \<Rightarrow> connector_error + unit" where
  "paging_declared query variables p [] = Inr ()"
| "paging_declared query variables p (name # names) =
     (if \<not> declares query name
      then Inl (PropertyError ''query'' (paging_name p @ '' pagination sends $'' @ name @ '', but the query does not declare it; add $'' @ name @
        '' to the operation'' @ QT @ ''s variables''))
      else if name \<in> set (map fst variables)
      then Inl (PropertyError ''variables'' (''sets '' @ QT @ name @ QT @ '', which '' @ paging_name p @ '' pagination sends itself''))
      else paging_declared query variables p names)"

definition records_pointer :: "json \<Rightarrow> connector_error + str" where
  "records_pointer properties =
     and_then (ok_or (PropertyError ''records'' ''is required: say where the rows are, e.g. /data/orders/nodes'')
       (text_property properties ''records'')) (\<lambda>at.
     if starts_with at ''/'' then Inr at
     else Inl (PropertyError ''records'' (QT @ at @ QT @ '' is not a JSON pointer; it starts with /, e.g. /data/orders/nodes'')))"

definition graphql_settings_of :: "(str \<Rightarrow> str + json) \<Rightarrow> json \<Rightarrow> connector_error + graphql_settings" where
  "graphql_settings_of parse properties =
     and_then (posting properties) (\<lambda>http.
     and_then (operation_of properties ''query'') (\<lambda>query.
     and_then (variables_of parse properties) (\<lambda>variables.
     and_then (records_pointer properties) (\<lambda>records_at.
     and_then (paging_of properties records_at) (\<lambda>p.
     and_then (paging_declared query variables p (paging_variables p)) (\<lambda>_.
     and_then (positive properties ''max_pages'' 1000) (\<lambda>max_pages.
     and_then (retry_codes_of properties) (\<lambda>retry_codes.
       Inr \<lparr> gq_http = http, gq_query = query, gq_variables = variables, gq_records = records_at, gq_paging = p,
             gq_max_pages = max_pages, gq_retry_codes = retry_codes \<rparr>))))))))"

record mutation_settings =
  gm_http :: http_settings
  gm_mutation :: str
  gm_rows_variable :: str
  gm_variables :: "(str \<times> json) list"
  gm_batch_size :: nat
  gm_retry_codes :: "str list"

definition mutation_settings_of :: "(str \<Rightarrow> str + json) \<Rightarrow> json \<Rightarrow> connector_error + mutation_settings" where
  "mutation_settings_of parse properties =
     and_then (posting properties) (\<lambda>http.
     and_then (operation_of properties ''mutation'') (\<lambda>mutation.
     and_then (variables_of parse properties) (\<lambda>variables.
     and_then (variable_name properties ''rows_variable'' ''rows'') (\<lambda>rows_variable.
     if \<not> declares mutation rows_variable
     then Inl (PropertyError ''mutation'' (''the rows are sent as $'' @ rows_variable @ '', but the mutation does not declare it; add $'' @
       rows_variable @ '' to the operation'' @ QT @ ''s variables, or set rows_variable''))
     else if rows_variable \<in> set (map fst variables)
     then Inl (PropertyError ''variables'' (''sets '' @ QT @ rows_variable @ QT @ '', which is where the rows go''))
     else and_then (positive properties ''batch_size'' 100) (\<lambda>width.
       and_then (retry_codes_of properties) (\<lambda>retry_codes.
         Inr \<lparr> gm_http = http, gm_mutation = mutation, gm_rows_variable = rows_variable, gm_variables = variables,
               gm_batch_size = width, gm_retry_codes = retry_codes \<rparr>))))))"

definition graphql_check :: "(str \<Rightarrow> str + json) \<Rightarrow> json \<Rightarrow> connector_error + unit" where
  "graphql_check parse properties = map_sum id (\<lambda>_. ()) (graphql_settings_of parse properties)"

definition mutation_check :: "(str \<Rightarrow> str + json) \<Rightarrow> json \<Rightarrow> connector_error + unit" where
  "mutation_check parse properties = map_sum id (\<lambda>_. ()) (mutation_settings_of parse properties)"

section \<open>The source\<close>

text \<open>One page: the request with its variables, its answer judged, its rows written, and the page after it.\<close>

definition graphql_page :: "rest_world \<Rightarrow> graphql_settings \<Rightarrow> nat \<Rightarrow> paging \<Rightarrow> row list \<Rightarrow> client
    \<Rightarrow> ((connector_error + row list \<times> paging option) \<times> client) option" where
  "graphql_page w s page p rows c =
     (case send_judged (rw_http w) (gq_http s) (hs_url (gq_http s)) []
        (Some (graphql_request (gq_query s) (paging_bind p (gq_variables s))))
        (judge_reply (rw_parse w) (rw_pointer w) (''page '' @ show_nat page) (gq_retry_codes s)) c of
        None \<Rightarrow> None
      | Some (Inl e, c1) \<Rightarrow> Some (Inl e, c1)
      | Some (Inr document, c1) \<Rightarrow>
          Some (and_then (rows_at (rw_pointer w) document (gq_records s) page) (\<lambda>items.
           and_then (write_rows w page items 0 rows) (\<lambda>rows1.
           and_then (paging_advance (rw_pointer w) p (length items) document page) (\<lambda>next. Inr (rows1, next)))), c1))"

text \<open>The loop, by the pages that are left: \<open>page\<close> is the number of the one about to be read.\<close>

fun graphql_pages :: "nat \<Rightarrow> nat \<Rightarrow> rest_world \<Rightarrow> graphql_settings \<Rightarrow> paging \<Rightarrow> row list \<Rightarrow> client
    \<Rightarrow> ((connector_error + row list \<times> nat) \<times> client) option" where
  "graphql_pages 0 page w s p rows c = Some (Inl (page_cap_reached (gq_max_pages s)), c)"
| "graphql_pages (Suc left) page w s p rows c =
     (case graphql_page w s page p rows c of
        None \<Rightarrow> None
      | Some (Inl e, c1) \<Rightarrow> Some (Inl e, c1)
      | Some (Inr (rows1, None), c1) \<Rightarrow> Some (Inr (rows1, page), c1)
      | Some (Inr (rows1, Some p1), c1) \<Rightarrow> graphql_pages left (page + 1) w s p1 rows1 c1)"

definition graphql_read :: "rest_world \<Rightarrow> json \<Rightarrow> client \<Rightarrow> ((connector_error + row list \<times> str) \<times> client) option" where
  "graphql_read w properties c =
     (case graphql_settings_of (rw_parse w) properties of
        Inl e \<Rightarrow> Some (Inl e, c)
      | Inr s \<Rightarrow>
          (case graphql_pages (gq_max_pages s) 1 w s (gq_paging s) [] c of
             None \<Rightarrow> None
           | Some (Inl e, c1) \<Rightarrow> Some (Inl e, c1)
           | Some (Inr (rows, pages), c1) \<Rightarrow>
               Some (Inr (rows, show_nat (length rows) @ '' record(s) from '' @ show_nat pages @ '' page(s) of '' @ hs_url (gq_http s)), c1)))"

section \<open>The sink\<close>

definition graphql_write_batch :: "rest_world \<Rightarrow> mutation_settings \<Rightarrow> row list \<Rightarrow> rest_writing
    \<Rightarrow> ((connector_error + unit) \<times> rest_writing) option" where
  "graphql_write_batch w s rows st =
     (let what = ''batch '' @ show_nat (rg_batches st + 1);
          sent = obj_insert (gm_rows_variable s) (JArray (map JObject rows)) (gm_variables s)
      in case send_judged (rw_http w) (gm_http s) (hs_url (gm_http s)) [] (Some (graphql_request (gm_mutation s) sent))
             (judge_reply (rw_parse w) (rw_pointer w) what (gm_retry_codes s)) (rg_client st) of
           None \<Rightarrow> None
         | Some (Inl e, c1) \<Rightarrow> Some (Inl (DataError (what @ '' failed after '' @ show_nat (rg_batches st) @
             '' batch(es) ('' @ show_nat (rg_records st) @ '' record(s)) were delivered: '' @ connector_error_text e)), st\<lparr> rg_client := c1 \<rparr>)
         | Some (Inr _, c1) \<Rightarrow> Some (Inr (), \<lparr> rg_client = c1, rg_batches = rg_batches st + 1, rg_records = rg_records st + length rows \<rparr>))"

fun graphql_write_loop :: "rest_world \<Rightarrow> mutation_settings \<Rightarrow> (connector_error + row) list \<Rightarrow> row list \<Rightarrow> rest_writing
    \<Rightarrow> ((connector_error + unit) \<times> rest_writing) option" where
  "graphql_write_loop w s [] pending st = (if pending = [] then Some (Inr (), st) else graphql_write_batch w s pending st)"
| "graphql_write_loop w s (Inl e # feed) pending st = Some (Inl e, st)"
| "graphql_write_loop w s (Inr r # feed) pending st =
     (if length (pending @ [r]) = gm_batch_size s
      then case graphql_write_batch w s (pending @ [r]) st of
             Some (Inr _, st1) \<Rightarrow> graphql_write_loop w s feed [] st1
           | refused \<Rightarrow> refused
      else graphql_write_loop w s feed (pending @ [r]) st)"

definition graphql_write :: "rest_world \<Rightarrow> json \<Rightarrow> (connector_error + row) list \<Rightarrow> client \<Rightarrow> ((connector_error + nat \<times> str) \<times> client) option" where
  "graphql_write w properties feed c =
     (case mutation_settings_of (rw_parse w) properties of
        Inl e \<Rightarrow> Some (Inl e, c)
      | Inr s \<Rightarrow>
          (case graphql_write_loop w s feed [] \<lparr> rg_client = c, rg_batches = 0, rg_records = 0 \<rparr> of
             None \<Rightarrow> None
           | Some (Inl e, st) \<Rightarrow> Some (Inl e, rg_client st)
           | Some (Inr _, st) \<Rightarrow> Some (Inr (rg_records st,
               if rg_batches st = 0 then ''0 records; nothing sent to '' @ hs_url (gm_http s)
               else show_nat (rg_records st) @ '' record(s) in '' @ show_nat (rg_batches st) @ '' request(s) to '' @ hs_url (gm_http s)),
               rg_client st)))"

section \<open>What a page comes to\<close>

lemma posting_posts: "posting properties = Inr s \<Longrightarrow> hs_method s = Post"
  by (auto simp: posting_def with_method_def and_then_eq_Inr_iff split: if_splits)

lemma graphql_settings_post: "graphql_settings_of parse properties = Inr s \<Longrightarrow> hs_method (gq_http s) = Post"
  by (auto simp: graphql_settings_of_def and_then_eq_Inr_iff posting_posts)

text \<open>What is sent for a page.\<close>

definition page_body :: "graphql_settings \<Rightarrow> paging \<Rightarrow> u8 list" where
  "page_body s p = graphql_request (gq_query s) (paging_bind p (gq_variables s))"

section \<open>A relay read\<close>

text \<open>
  A list of pages, each with its rows and its cursor, and what a server that serves it documents: an answer
  that is a success, that is JSON and that names no error holds the page that follows the cursor it was
  sent, and says whether there is another. An answer that names errors may hold anything.
\<close>

type_synonym relay_page = "row list \<times> str"

definition cursor_before :: "relay_page list \<Rightarrow> nat \<Rightarrow> str option" where
  "cursor_before pages k = (if k = 0 then None else Some (snd (pages ! (k - 1))))"

definition holds_page :: "rest_world \<Rightarrow> graphql_settings \<Rightarrow> str \<Rightarrow> relay_page list \<Rightarrow> nat \<Rightarrow> json \<Rightarrow> bool" where
  "holds_page w s page_info pages k document \<longleftrightarrow>
     rw_pointer w document (gq_records s) = Some (JArray (map JObject (fst (pages ! k)))) \<and>
     (\<exists>info. rw_pointer w document page_info = Some (JObject info) \<and>
       map_of info ''hasNextPage'' = Some (JBool (Suc k < length pages)) \<and>
       (Suc k < length pages \<longrightarrow> map_of info ''endCursor'' = Some (JString (snd (pages ! k)))))"

definition serves_relay :: "rest_world \<Rightarrow> graphql_settings \<Rightarrow> str \<Rightarrow> str \<Rightarrow> relay_page list \<Rightarrow> bool" where
  "serves_relay w s variable page_info pages \<longleftrightarrow>
     (\<forall>k n q status after link t document. k < length pages \<longrightarrow> hw_answer (rw_http w) n q = Response status after link (Inr t) \<longrightarrow>
        200 \<le> status \<longrightarrow> status \<le> 299 \<longrightarrow> hq_url q = hs_url (gq_http s) \<longrightarrow>
        hq_body q = Some (page_body s (Relay variable page_info (cursor_before pages k))) \<longrightarrow>
        rw_parse w t = Inr document \<longrightarrow> clean document \<longrightarrow> holds_page w s page_info pages k document)"

lemma holds_page_advances:
  assumes "holds_page w s page_info pages k document"
  shows "rows_at (rw_pointer w) document (gq_records s) page = Inr (map JObject (fst (pages ! k)))"
    "\<not> Suc k < length pages \<Longrightarrow> paging_advance (rw_pointer w) (Relay variable page_info current) count document page = Inr None"
    "Suc k < length pages \<Longrightarrow> paging_advance (rw_pointer w) (Relay variable page_info current) count document page = Inr (Some p) \<Longrightarrow>
       p = Relay variable page_info (Some (snd (pages ! k)))"
    "Suc k < length pages \<Longrightarrow> snd (pages ! k) \<noteq> [] \<Longrightarrow> current \<noteq> Some (snd (pages ! k)) \<Longrightarrow>
       paging_advance (rw_pointer w) (Relay variable page_info current) count document page
         = Inr (Some (Relay variable page_info (Some (snd (pages ! k)))))"
    "Suc k < length pages \<Longrightarrow> paging_advance (rw_pointer w) (Relay variable page_info current) count document page \<noteq> Inr None"
proof -
  obtain info where info: "rw_pointer w document page_info = Some (JObject info)" "map_of info ''hasNextPage'' = Some (JBool (Suc k < length pages))"
    "Suc k < length pages \<longrightarrow> map_of info ''endCursor'' = Some (JString (snd (pages ! k)))"
    using assms by (auto simp: holds_page_def)
  note at = paging_advance_def json_as_object_def json_as_bool_def end_cursor_def Let_def info
  show "rows_at (rw_pointer w) document (gq_records s) page = Inr (map JObject (fst (pages ! k)))"
    using assms by (simp add: holds_page_def rows_at_def)
  show "paging_advance (rw_pointer w) (Relay variable page_info current) count document page = Inr None" if "\<not> Suc k < length pages"
    using that by (simp add: at)
  show "p = Relay variable page_info (Some (snd (pages ! k)))" if "Suc k < length pages"
    "paging_advance (rw_pointer w) (Relay variable page_info current) count document page = Inr (Some p)"
    using that by (auto simp: at split: if_splits)
  show "paging_advance (rw_pointer w) (Relay variable page_info current) count document page
      = Inr (Some (Relay variable page_info (Some (snd (pages ! k)))))"
    if "Suc k < length pages" "snd (pages ! k) \<noteq> []" "current \<noteq> Some (snd (pages ! k))"
    using that by (simp add: at)
  show "paging_advance (rw_pointer w) (Relay variable page_info current) count document page \<noteq> Inr None" if "Suc k < length pages"
    using that by (simp add: at)
qed

lemma take_rows: "k < length pages \<Longrightarrow> concat (map fst (take (Suc k) pages)) = concat (map fst (take k pages)) @ fst (pages ! k)"
  by (simp add: take_Suc_conv_app_nth)

section \<open>Throttling\<close>

text \<open>An answer that may be read from, and one whose every error asks to slow down.\<close>

definition clean_answer :: "rest_world \<Rightarrow> http_answer \<Rightarrow> bool" where
  "clean_answer w a \<longleftrightarrow> (\<exists>status after link t document. a = Response status after link (Inr t) \<and> 200 \<le> status \<and> status \<le> 299 \<and>
     rw_parse w t = Inr document \<and> clean document)"

definition throttled_answer :: "rest_world \<Rightarrow> str list \<Rightarrow> http_answer \<Rightarrow> bool" where
  "throttled_answer w retry_codes a \<longleftrightarrow> (\<exists>status link t document errors. a = Response status None link (Inr t) \<and> 200 \<le> status \<and> status \<le> 299 \<and>
     rw_parse w t = Inr document \<and> json_get document ''errors'' = Some (JArray errors) \<and> errors \<noteq> [] \<and>
     throttled_by (rw_pointer w) retry_codes errors)"

abbreviation page_judge :: "rest_world \<Rightarrow> graphql_settings \<Rightarrow> str \<Rightarrow> http_reply \<Rightarrow> json judged" where
  "page_judge w s what \<equiv> judge_reply (rw_parse w) (rw_pointer w) what (gq_retry_codes s)"

lemma clean_answer_comes_to:
  "clean_answer w (hw_answer (rw_http w) n q) \<Longrightarrow> \<exists>document. came_to (rw_http w) None url (page_judge w s what) n q = Inr document"
  by (fastforce simp: clean_answer_def came_to_def attempt_of_def judge_status_def Let_def rejudge_def
      judge_accepts [THEN iffD2] split: judged.splits)

lemma throttled_answer_comes_to:
  "throttled_answer w (gq_retry_codes s) (hw_answer (rw_http w) n q) \<Longrightarrow>
     \<exists>reason. came_to (rw_http w) None url (page_judge w s what) n q = Inl (Retry reason None)"
  by (auto simp: throttled_answer_def came_to_def attempt_of_def judge_status_def Let_def rejudge_def judge_reply_def errors_of_def
      seconds_header_def)

lemma may_try_again:
  assumes "unat attempt + Suc i \<le> unat (r :: u32)"
  shows "\<not> r < attempt + 1" "unat (attempt + 1) + i \<le> unat r"
proof -
  have "unat attempt < unat r" using assms by simp
  then have "attempt < r" by (simp add: word_less_nat_alt)
  then have "attempt \<noteq> - 1" by auto
  then have "1 + attempt \<noteq> 0" by (metis add.commute add_eq_0_iff2)
  then have "unat (attempt + 1) = Suc (unat attempt)" by (metis add.commute unatSuc)
  then show "\<not> r < attempt + 1" "unat (attempt + 1) + i \<le> unat r" using assms by (simp_all add: word_less_nat_alt)
qed

lemma send_loop_gets_through:
  "\<forall>j<i. \<forall>q. \<exists>reason. came_to w extra url judge (length (cl_sent c) + j) q = Inl (Retry reason None) \<Longrightarrow>
   \<forall>q. \<exists>v. came_to w extra url judge (length (cl_sent c) + i) q = Inr v \<Longrightarrow> unat attempt + i \<le> unat (hs_retries s) \<Longrightarrow>
     \<exists>v c1. send_loop attempt wait w s url query body extra judge c = Some (Inr v, c1)"
proof (induction i arbitrary: attempt wait c)
  case 0
  obtain outcome c1 where one: "once w s url query body extra (pace s c) = (outcome, c1)" by force
  with 0(2) once_sent [OF one] obtain v where "rejudge judge outcome = Inr v" by (auto simp: came_to_def)
  then show ?case by (simp add: send_loop.simps [of attempt] one)
next
  case (Suc i)
  obtain outcome c1 where one: "once w s url query body extra (pace s c) = (outcome, c1)" by force
  note sent = once_sent [OF one, simplified]
  note again = may_try_again [OF Suc.prems(3)]
  obtain reason where "rejudge judge outcome = Inl (Retry reason None)"
    using Suc.prems(1) sent by (force simp: came_to_def)
  moreover have "\<exists>v c2. send_loop (attempt + 1) (min (wait * 2) DURATION_MAX) w s url query body extra judge (waited wait c1) = Some (Inr v, c2)"
    using Suc.prems(1,2) sent again(2) by (intro Suc.IH) auto
  ultimately show ?case using again(1) by (simp add: send_loop.simps [of attempt] one)
qed

section \<open>A relay read is whole\<close>

lemma page_of_relay:
  assumes "serves_relay w s variable page_info pages" "hs_method (gq_http s) = Post" "k < length pages"
    "send_judged (rw_http w) (gq_http s) (hs_url (gq_http s)) []
       (Some (graphql_request (gq_query s) (paging_bind (Relay variable page_info (cursor_before pages k)) (gq_variables s))))
       (page_judge w s what) c = Some (Inr document, c1)"
    "wf_client (gq_http s) c"
  shows "wf_client (gq_http s) c1" "holds_page w s page_info pages k document"
proof -
  show "wf_client (gq_http s) c1" by (rule send_judged_accepted(1) [OF assms(4,5)])
  from send_judged_accepted(2) [OF assms(4,5)] obtain n q status after link reply where
    sent: "hw_answer (rw_http w) n q = Response status after link (Inr (hy_body reply))" "200 \<le> status" "status \<le> 299"
    "asks (gq_http s) (hs_url (gq_http s)) [] (Some (page_body s (Relay variable page_info (cursor_before pages k)))) q"
    "page_judge w s what reply = Accept document" unfolding page_body_def by blast
  then have "hq_url q = hs_url (gq_http s)" "hq_body q = Some (page_body s (Relay variable page_info (cursor_before pages k)))"
    "rw_parse w (hy_body reply) = Inr document" "clean document"
    using assms(2) by (simp_all add: asks_def judge_accepts)
  with sent(1-3) assms(1,3) show "holds_page w s page_info pages k document" unfolding serves_relay_def by blast
qed

lemma graphql_pages_by_relay:
  assumes "serves_relay w s variable page_info pages" "hs_method (gq_http s) = Post"
  shows "graphql_pages left page w s (Relay variable page_info (cursor_before pages k)) (concat (map fst (take k pages))) c
      = Some (Inr (rows, n), c') \<Longrightarrow> k < length pages \<Longrightarrow> wf_client (gq_http s) c \<Longrightarrow> rows = concat (map fst pages)"
proof (induction left arbitrary: page k c)
  case (Suc left)
  let ?p = "Relay variable page_info (cursor_before pages k)"
  obtain r c1 where one: "graphql_page w s page ?p (concat (map fst (take k pages))) c = Some (r, c1)"
    using Suc.prems(1) by (cases "graphql_page w s page ?p (concat (map fst (take k pages))) c") auto
  with Suc.prems(1) obtain rows1 next_page where r: "r = Inr (rows1, next_page)" by (cases r) auto
  with one obtain document where sent: "send_judged (rw_http w) (gq_http s) (hs_url (gq_http s)) []
       (Some (graphql_request (gq_query s) (paging_bind ?p (gq_variables s)))) (page_judge w s (''page '' @ show_nat page)) c = Some (Inr document, c1)"
    by (auto simp: graphql_page_def split: prod.splits sum.splits option.splits)
  note holds = page_of_relay(2) [OF assms Suc.prems(2) sent Suc.prems(3)]
  have rows1: "rows1 = concat (map fst (take (Suc k) pages))"
    and read: "paging_advance (rw_pointer w) ?p (length (fst (pages ! k))) document page = Inr next_page"
    using one sent r holds_page_advances(1) [OF holds] take_rows [OF Suc.prems(2)]
    by (auto simp: graphql_page_def and_then_eq_Inr_iff dest: write_rows_objects)
  show ?case
  proof (cases "Suc k < length pages")
    case True
    then obtain p1 where "next_page = Some p1" using read holds_page_advances(5) [OF holds] by (cases next_page) auto
    with read holds_page_advances(3) [OF holds True] have "next_page = Some (Relay variable page_info (cursor_before pages (Suc k)))"
      by (simp add: cursor_before_def)
    with Suc.prems(1) one r rows1 have "graphql_pages left (page + 1) w s (Relay variable page_info (cursor_before pages (Suc k)))
        (concat (map fst (take (Suc k) pages))) c1 = Some (Inr (rows, n), c')" by simp
    from Suc.IH [OF this True page_of_relay(1) [OF assms Suc.prems(2) sent Suc.prems(3)]] show ?thesis .
  next
    case False
    with read holds_page_advances(2) [OF holds] have "next_page = None" by simp
    with Suc.prems(1) one r rows1 False Suc.prems(2) show ?thesis by simp
  qed
qed simp

text \<open>Answers that are throttled no more often in a row than the client tries again, and cursors that move on.\<close>

definition gets_through :: "rest_world \<Rightarrow> graphql_settings \<Rightarrow> bool" where
  "gets_through w s \<longleftrightarrow> (\<forall>k. rw_stage w k = None) \<and>
     (\<forall>n. \<exists>i \<le> unat (hs_retries (gq_http s)). (\<forall>j<i. \<forall>q. throttled_answer w (gq_retry_codes s) (hw_answer (rw_http w) (n + j) q)) \<and>
       (\<forall>q. clean_answer w (hw_answer (rw_http w) (n + i) q)))"

definition cursors_move :: "relay_page list \<Rightarrow> bool" where
  "cursors_move pages \<longleftrightarrow> (\<forall>k. Suc k < length pages \<longrightarrow> snd (pages ! k) \<noteq> [] \<and> cursor_before pages k \<noteq> Some (snd (pages ! k)))"

lemma page_gets_through:
  assumes "gets_through w s"
  shows "\<exists>document c1. send_judged (rw_http w) (gq_http s) url query body (page_judge w s what) c = Some (Inr document, c1)"
proof -
  obtain i where i: "unat (0 :: u32) + i \<le> unat (hs_retries (gq_http s))"
    "\<And>j q. j < i \<Longrightarrow> throttled_answer w (gq_retry_codes s) (hw_answer (rw_http w) (length (cl_sent c) + j) q)"
    "\<And>q. clean_answer w (hw_answer (rw_http w) (length (cl_sent c) + i) q)"
    using assms unfolding gets_through_def by (metis add_0 unat_0)
  show ?thesis unfolding send_judged_def send_with_def
    by (rule send_loop_gets_through [where attempt = 0, OF _ _ i(1)]) (simp_all add: throttled_answer_comes_to clean_answer_comes_to i(2,3))
qed

lemma graphql_pages_end:
  assumes "serves_relay w s variable page_info pages" "hs_method (gq_http s) = Post" "gets_through w s" "cursors_move pages"
  shows "length pages \<le> left + k \<Longrightarrow> k < length pages \<Longrightarrow> wf_client (gq_http s) c \<Longrightarrow>
    \<exists>rows n c'. graphql_pages left page w s (Relay variable page_info (cursor_before pages k)) (concat (map fst (take k pages))) c
      = Some (Inr (rows, n), c')"
proof (induction left arbitrary: page k c)
  case (Suc left)
  let ?p = "Relay variable page_info (cursor_before pages k)"
  obtain document c1 where sent: "send_judged (rw_http w) (gq_http s) (hs_url (gq_http s)) []
       (Some (graphql_request (gq_query s) (paging_bind ?p (gq_variables s)))) (page_judge w s (''page '' @ show_nat page)) c = Some (Inr document, c1)"
    using page_gets_through [OF assms(3)] by blast
  note here = page_of_relay [OF assms(1,2) Suc.prems(2) sent Suc.prems(3)]
  have rows1: "write_rows w page (map JObject (fst (pages ! k))) 0 (concat (map fst (take k pages))) = Inr (concat (map fst (take (Suc k) pages)))"
    using assms(3) by (subst write_rows_all) (simp_all add: gets_through_def take_rows [OF Suc.prems(2)])
  show ?case
  proof (cases "Suc k < length pages")
    case True
    from Suc.IH [OF _ True here(1), of "page + 1"] Suc.prems(1) sent rows1 holds_page_advances(1) [OF here(2)]
      holds_page_advances(4) [OF here(2) True] True assms(4)
    show ?thesis by (simp add: graphql_page_def cursors_move_def cursor_before_def)
  next
    case False
    with sent rows1 holds_page_advances(1,2) [OF here(2)] show ?thesis by (simp add: graphql_page_def)
  qed
qed simp

text \<open>
  C12: a relay read is whole or an error, although a success may be a failure. Against a server whose
  answers without errors hold the page that follows the cursor they were asked for, whatever came beside:
  failed attempts, throttled ones, partial data next to an error. A read that succeeds has written exactly
  the rows of all the pages, in order; and where answers are throttled no more often in a row than the node
  retries, the cursors move on, and the pages are no more than the cap, it does succeed.
\<close>

theorem relay_read_is_whole:
  assumes "graphql_settings_of (rw_parse w) properties = Inr s" "gq_paging s = Relay variable page_info None"
    "serves_relay w s variable page_info pages" "pages \<noteq> []"
  shows "(\<forall>rows told c'. graphql_read w properties (client_new now) = Some (Inr (rows, told), c') \<longrightarrow> rows = concat (map fst pages)) \<and>
    (gets_through w s \<and> cursors_move pages \<and> length pages \<le> gq_max_pages s \<longrightarrow>
      (\<exists>told c'. graphql_read w properties (client_new now) = Some (Inr (concat (map fst pages), told), c')))"
proof (intro conjI allI impI)
  have start: "wf_client (gq_http s) (client_new now)" "0 < length pages" using assms(4) by (simp_all add: wf_client_new)
  have first: "cursor_before pages 0 = None" by (simp add: cursor_before_def)
  note post = graphql_settings_post [OF assms(1)]
  note whole = graphql_pages_by_relay [OF assms(3) post _ start(2,1), simplified first take_0 list.map concat.simps]
  show "rows = concat (map fst pages)" if "graphql_read w properties (client_new now) = Some (Inr (rows, told), c')" for rows told c'
    using that whole by (auto simp: graphql_read_def assms(1,2) split: sum.splits prod.splits option.splits)
  assume ok: "gets_through w s \<and> cursors_move pages \<and> length pages \<le> gq_max_pages s"
  then obtain rows n c' where read: "graphql_pages (gq_max_pages s) 1 w s (Relay variable page_info None) [] (client_new now) = Some (Inr (rows, n), c')"
    using graphql_pages_end [OF assms(3) post, where left = "gq_max_pages s" and k = 0 and page = 1 and c = "client_new now"] start first by auto
  with whole show "\<exists>told c'. graphql_read w properties (client_new now) = Some (Inr (concat (map fst pages), told), c')"
    by (auto simp: graphql_read_def assms(1,2))
qed

section \<open>Two pages, with a throttled answer between them\<close>

definition example_graphql :: json where
  "example_graphql = JObject [(''url'', JString ''http://h/graphql''), (''query'', JString ''query ($after: String) { rows }''),
     (''records'', JString ''/data/rows/nodes''), (''pagination'', JString ''relay'')]"

definition example_relay :: "relay_page list" where
  "example_relay = [([[(''n'', JInt 1)], [(''n'', JInt 2)]], ''c1''), ([[(''n'', JInt 3)]], ''c2'')]"

definition example_connection :: "nat \<Rightarrow> (str \<times> json) list" where
  "example_connection k = [(''nodes'', JArray (map JObject (fst (example_relay ! k)))),
     (''pageInfo'', JObject [(''hasNextPage'', JBool (k = 0)), (''endCursor'', JString (snd (example_relay ! k)))])]"

definition example_document :: "nat \<Rightarrow> json" where
  "example_document k = JObject [(''data'', JObject [(''rows'', JObject (example_connection k))])]"

text \<open>Throttled, with half of the data beside the error.\<close>

definition example_throttled :: json where
  "example_throttled = JObject [(''data'', JObject [(''rows'', JObject [(''nodes'', JArray [])])]),
     (''errors'', JArray [JObject [(''message'', JString ''slow down''), (''type'', JString ''RATE_LIMITED'')]])]"

fun follow :: "str list \<Rightarrow> json \<Rightarrow> json option" where
  "follow [] v = Some v"
| "follow (key # keys) v = Option.bind (json_get v key) (follow keys)"

definition example_graphql_world :: rest_world where
  "example_graphql_world = \<lparr> rw_http = \<lparr> hw_answer = \<lambda>n q. Response 200 None None (Inr (
       if even n then ''slow''
       else if hq_body q = Some (graphql_request ''query ($after: String) { rows }'' [(''after'', JNull)]) then ''first'' else ''second'')),
       hw_took = \<lambda>_. 10 \<rparr>,
     rw_parse = \<lambda>t. Inr (if t = ''slow'' then example_throttled else if t = ''first'' then example_document 0 else example_document 1),
     rw_pointer = \<lambda>v at. follow (tl (split_on (\<lambda>c. c = CHR ''/'') at)) v, rw_stage = \<lambda>_. None \<rparr>"

lemma example_graphql_settings: "case graphql_settings_of (rw_parse example_graphql_world) example_graphql of Inl _ \<Rightarrow> False
  | Inr s \<Rightarrow> gq_paging s = Relay ''after'' ''/data/rows/pageInfo'' None \<and> gq_variables s = [] \<and> gq_max_pages s = 1000 \<and>
      gq_retry_codes s = DEFAULT_RETRY_CODES \<and> gq_query s = ''query ($after: String) { rows }'' \<and> gq_records s = ''/data/rows/nodes'' \<and>
      hs_retries (gq_http s) = 3"
  by code_simp

lemma example_documents:
  "\<not> clean example_throttled" "clean (example_document k)"
  "throttled_by (rw_pointer example_graphql_world) DEFAULT_RETRY_CODES
     [JObject [(''message'', JString ''slow down''), (''type'', JString ''RATE_LIMITED'')]]"
  "rw_pointer example_graphql_world (example_document k) ''/data/rows/nodes'' = Some (JArray (map JObject (fst (example_relay ! k))))"
  "rw_pointer example_graphql_world (example_document k) ''/data/rows/pageInfo'' =
     Some (JObject [(''hasNextPage'', JBool (k = 0)), (''endCursor'', JString (snd (example_relay ! k)))])"
  by (simp_all add: clean_def example_throttled_def example_document_def example_connection_def json_get_def throttled_by_def error_code_of_def
      example_graphql_world_def DEFAULT_RETRY_CODES_def json_as_str_def)

lemma example_cursors_differ:
  "graphql_request ''query ($after: String) { rows }'' [(''after'', JString ''c1'')]
     \<noteq> graphql_request ''query ($after: String) { rows }'' [(''after'', JNull)]"
  by code_simp

lemma example_serves_relay:
  assumes "gq_query s = ''query ($after: String) { rows }''" "gq_variables s = []" "gq_records s = ''/data/rows/nodes''"
  shows "serves_relay example_graphql_world s ''after'' ''/data/rows/pageInfo'' example_relay"
proof -
  have body: "page_body s (Relay ''after'' ''/data/rows/pageInfo'' (cursor_before example_relay k)) =
      graphql_request ''query ($after: String) { rows }'' [(''after'', if k = 0 then JNull else JString ''c1'')]" if "k < 2" for k
    using that by (auto simp: page_body_def assms paging_bind_def cursor_before_def example_relay_def less_2_cases_iff)
  have holds: "holds_page example_graphql_world s ''/data/rows/pageInfo'' example_relay k (example_document k)" if "k < 2" for k
    unfolding holds_page_def assms(3) example_documents using that by (auto simp: example_relay_def less_2_cases_iff)
  have two: "length example_relay = 2" by (simp add: example_relay_def)
  show ?thesis
    unfolding serves_relay_def two
  proof (intro allI impI)
    fix k n q status after link t document
    assume k: "k < 2" and answer: "hw_answer (rw_http example_graphql_world) n q = Response status after link (Inr t)"
      and asked: "hq_body q = Some (page_body s (Relay ''after'' ''/data/rows/pageInfo'' (cursor_before example_relay k)))"
      and read: "rw_parse example_graphql_world t = Inr document" "clean document"
    from answer have t: "t = (if even n then ''slow'' else
        if hq_body q = Some (graphql_request ''query ($after: String) { rows }'' [(''after'', JNull)]) then ''first'' else ''second'')"
      by (simp add: example_graphql_world_def)
    have "document = example_document k"
      using t read asked k example_documents(1) example_cursors_differ
      by (auto simp: body example_graphql_world_def less_2_cases_iff split: if_splits)
    then show "holds_page example_graphql_world s ''/data/rows/pageInfo'' example_relay k document" using holds [OF k] by simp
  qed
qed

lemma example_answers:
  "odd n \<Longrightarrow> clean_answer example_graphql_world (hw_answer (rw_http example_graphql_world) n q)"
  "even n \<Longrightarrow> throttled_answer example_graphql_world DEFAULT_RETRY_CODES (hw_answer (rw_http example_graphql_world) n q)"
  using example_documents(2) [of 0] example_documents(2) [of 1] example_documents(3)
  by (auto simp: clean_answer_def throttled_answer_def example_graphql_world_def example_throttled_def json_get_def)

lemma example_gets_through:
  assumes "gq_retry_codes s = DEFAULT_RETRY_CODES" "hs_retries (gq_http s) = 3"
  shows "gets_through example_graphql_world s"
proof -
  have "\<exists>i \<le> 3. (\<forall>j<i. \<forall>q. throttled_answer example_graphql_world DEFAULT_RETRY_CODES (hw_answer (rw_http example_graphql_world) (n + j) q)) \<and>
      (\<forall>q. clean_answer example_graphql_world (hw_answer (rw_http example_graphql_world) (n + i) q))" for n
    by (rule exI [where x = "if even n then 1 else 0"]) (simp add: example_answers)
  then show ?thesis by (simp add: gets_through_def assms) (simp add: example_graphql_world_def)
qed

lemma relay_read_is_whole_witness:
  "\<exists>told c'. graphql_read example_graphql_world example_graphql (client_new 0)
     = Some (Inr ([[(''n'', JInt 1)], [(''n'', JInt 2)], [(''n'', JInt 3)]], told), c')"
proof -
  obtain s where s: "graphql_settings_of (rw_parse example_graphql_world) example_graphql = Inr s"
    "gq_paging s = Relay ''after'' ''/data/rows/pageInfo'' None" "gq_variables s = []" "gq_max_pages s = 1000"
    "gq_retry_codes s = DEFAULT_RETRY_CODES" "gq_query s = ''query ($after: String) { rows }''" "gq_records s = ''/data/rows/nodes''"
    "hs_retries (gq_http s) = 3"
    using example_graphql_settings by (cases "graphql_settings_of (rw_parse example_graphql_world) example_graphql") auto
  have "cursors_move example_relay" "length example_relay \<le> gq_max_pages s" "example_relay \<noteq> []"
    by (simp_all add: cursors_move_def cursor_before_def example_relay_def s)
  with relay_read_is_whole [OF s(1,2) example_serves_relay [OF s(6,3,7)]] example_gets_through [OF s(5,8)]
  show ?thesis by (simp add: example_relay_def)
qed

section \<open>What a success may be\<close>

text \<open>An error beside the data fails, whatever the data; every error throttled retries; anything else is accepted.\<close>

lemma an_error_fails:
  assumes "parse (hy_body reply) = Inr document" "json_get document ''errors'' = Some (JArray errors)" "errors \<noteq> []"
  shows "(\<exists>reason. judge_reply parse ptr what retry_codes reply = JudgedRetry reason) \<longleftrightarrow> throttled_by ptr retry_codes errors"
    "\<not> throttled_by ptr retry_codes errors \<Longrightarrow> judge_reply parse ptr what retry_codes reply =
       JudgedFail (DataError (what @ '': the API answered with '' @ show_nat (length errors) @ '' error(s): '' @ describe_errors ptr errors))"
  using assms by (simp_all add: judge_reply_def errors_of_def)

lemma length_filter_map: "length (filter_map f xs) \<le> length xs"
  by (induction xs) (auto split: option.split)

lemma throttled_by_all: "throttled_by ptr retry_codes errors \<longleftrightarrow>
    (\<forall>e \<in> set errors. \<exists>tag \<in> set retry_codes. error_code_of ptr e = Some tag)"
proof (induction errors)
  case (Cons e errors)
  then show ?case using length_filter_map [of "error_code_of ptr" errors]
    by (auto simp: throttled_by_def Let_def split: option.split)
qed (simp add: throttled_by_def)

text \<open>A node whose \<^verbatim>\<open>retry_codes\<close> are empty retries no answer with errors.\<close>

lemma no_codes_no_retries: "errors \<noteq> [] \<Longrightarrow> \<not> throttled_by ptr [] errors"
  by (cases errors) (auto simp: throttled_by_all)

text \<open>A batch is always a list, and what is reported as delivered was accepted batch by batch.\<close>

lemma graphql_write_batch_counts:
  "graphql_write_batch w s rows st = Some (Inr (), st') \<Longrightarrow> rg_batches st' = rg_batches st + 1 \<and> rg_records st' = rg_records st + length rows"
  "graphql_write_batch w s rows st = Some (Inl e, st') \<Longrightarrow> rg_batches st' = rg_batches st \<and> rg_records st' = rg_records st"
  by (auto simp: graphql_write_batch_def Let_def split: prod.splits sum.splits option.splits)

lemma graphql_write_loop_counts:
  "graphql_write_loop w s (map Inr rows) pending st = Some (Inr (), st') \<Longrightarrow> rg_records st' = rg_records st + length pending + length rows"
proof (induction rows arbitrary: pending st)
  case Nil
  then show ?case by (auto split: if_splits dest: graphql_write_batch_counts)
next
  case (Cons r rows)
  then show ?case
    by (fastforce split: if_splits prod.splits sum.splits option.splits dest: graphql_write_batch_counts)
qed

end
