(* ===== verification/Xml_Connector.thy ===== *)
theory Xml_Connector
  imports Kafka_Settings Assist_Pick Exec_World State_Store
begin

text \<open>
  The XML connectors (\<^verbatim>\<open>crates/connectors/src/xml.rs\<close>). The lexer is \<^verbatim>\<open>quick_xml\<close>'s: the reader is a state
  machine over the events it reports, each with the byte it starts at, and the tables of entities and the
  escaping of text are arguments. The disk is a map, with the reasons each call may fail for. The theorems:
  the reader takes a document exactly when every record in it is flat, and then reads each record as a
  reference reads its subtree; and a write leaves the whole document or the file as it was.
\<close>

section \<open>Names and properties\<close>

text \<open>\<^verbatim>\<open>char::is_alphabetic\<close>, up to U+00FF.\<close>

definition is_alphabetic :: "char \<Rightarrow> bool" where
  "is_alphabetic c \<longleftrightarrow> is_ascii_alphabetic c \<or>
     (let n = code c in n \<in> {0xAA, 0xB5, 0xBA} \<or> (0xC0 \<le> n \<and> n \<noteq> 0xD7 \<and> n \<noteq> 0xF7))"

definition is_xml_name :: "str \<Rightarrow> bool" where
  "is_xml_name name = (case name of
     [] \<Rightarrow> False
   | first # rest \<Rightarrow> (is_alphabetic first \<or> first = CHR ''_'') \<and> list_all (\<lambda>c. is_alphanumeric c \<or> c \<in> set ''_-.'') rest)"

definition required_property :: "json \<Rightarrow> str \<Rightarrow> connector_error + str" where
  "required_property properties key = (case Option.bind (json_get properties key) json_as_str of
     Some v \<Rightarrow> if trim v \<noteq> [] then Inr v else Inl (PropertyError key ''is required'')
   | None \<Rightarrow> Inl (PropertyError key ''is required''))"

definition check_name :: "str \<Rightarrow> str \<Rightarrow> connector_error + unit" where
  "check_name key name = (if is_xml_name name then Inr ()
     else Inl (PropertyError key (QT @ name @ QT @ '' is not a valid XML element name'')))"

definition check_column :: "str \<Rightarrow> str \<Rightarrow> connector_error + unit" where
  "check_column name column = (if is_xml_name name then Inr ()
     else Inl (DataError (''column '' @ QT @ column @ QT @
       '' is not a valid XML element or attribute name; rename it before this sink (xf.rename)'')))"

definition xml_source_spec :: "component_spec option" where
  "xml_source_spec = map_option (\<lambda>c. spec_properties
    [prop_help ''The file to read.'' (prop_required (prop_path ''path'')),
     prop_help (''The element that is one row, e.g. order. Its children become columns, its '' @ ''attributes columns named @name.'')
       (prop_required (prop_text ''record'')),
     columns_property]
    (spec_icon ''file-code'' (spec_description
      ''Read an XML file where one element is one row and its children are the columns.'' c)))
    (component_new ''src.file.xml'' ''XML file'')"

definition xml_sink_spec :: "component_spec option" where
  "xml_sink_spec = map_option (\<lambda>c. spec_properties
    [prop_help ''The file to write.'' (prop_required (prop_path ''path'')),
     prop_help ''The element that wraps every row.'' (prop_default (JString ''records'') (prop_text ''root'')),
     prop_help ''The element each row is written as.'' (prop_default (JString ''record'') (prop_text ''record'')),
     prop_help ''What to do when the file already exists.''
       (prop_default (JString ''overwrite'') (prop_enumerated ''mode'' [''overwrite'', ''error_if_exists'']))]
    (spec_icon ''file-code'' (spec_description ''Write rows as an XML file: one element per row, one child per column.'' c)))
    (component_new ''snk.file.xml'' ''XML file'')"

definition xml_source_check :: "json \<Rightarrow> connector_error + unit" where
  "xml_source_check properties = and_then (required_property properties ''record'') (check_name ''record'')"

definition xml_sink_check :: "json \<Rightarrow> connector_error + unit" where
  "xml_sink_check properties =
     and_then (and_then (required_property properties ''root'') (check_name ''root'')) (\<lambda>_.
     and_then (required_property properties ''record'') (check_name ''record''))"

section \<open>Reading\<close>

text \<open>
  What the lexer reports. The name of an element is its local one; an attribute is its local key and its
  normalised value, or why it has none; a reference is the character it stands for, if it is a character
  reference, and its name.
\<close>

type_synonym xml_attributes = "(str + str \<times> str) list"

datatype xml_event =
    XStart str xml_attributes
  | XEmpty str xml_attributes
  | XEnd
  | XText "str + str"
  | XCData "str + str"
  | XRef "str + char option" "str + str"
  | XOther

text \<open>The document: for each step where the lexer stands, and the event or where and why it failed.\<close>

type_synonym xml_feed = "(nat \<times> (nat \<times> str + xml_event)) list"

datatype xml_position = Outside | InRecord | InField str str

record xml_reading =
  xr_position :: xml_position
  xr_current :: row
  xr_rows :: "row list"

record xml_world =
  xw_entity :: "str \<Rightarrow> str option"
  xw_stage :: "nat \<Rightarrow> connector_error option"

definition malformed :: "nat \<Rightarrow> str \<Rightarrow> connector_error" where
  "malformed at reason = DataError (''not well-formed XML at byte '' @ show_nat at @ '': '' @ reason)"

definition well_formed :: "nat \<Rightarrow> str + 'a \<Rightarrow> connector_error + 'a" where
  "well_formed at r = map_err (malformed at) r"

definition claim_column :: "row \<Rightarrow> str \<Rightarrow> str \<Rightarrow> nat \<Rightarrow> connector_error + unit" where
  "claim_column current name record_name at = (if name \<in> set (map fst current)
     then Inl (DataError (''<'' @ name @ ''> appears more than once in one <'' @ record_name @ ''> (at byte '' @ show_nat at @
       ''); a repeated element is a list, and only single values can be read as columns''))
     else Inr ())"

fun take_attributes :: "xml_attributes \<Rightarrow> str option \<Rightarrow> nat \<Rightarrow> row \<Rightarrow> connector_error + row" where
  "take_attributes [] child at into = Inr into"
| "take_attributes (a # rest) child at into = (case well_formed at a of
     Inl e \<Rightarrow> Inl e
   | Inr (key, v) \<Rightarrow> take_attributes rest child at
       (obj_insert ((case child of None \<Rightarrow> [] | Some name \<Rightarrow> name) @ ''@'' @ key) (JString v) into))"

definition own_text :: "str \<Rightarrow> nat \<Rightarrow> connector_error" where
  "own_text record_name at = DataError (''<'' @ record_name @ ''> at byte '' @ show_nat at @
     '' holds text of its own beside its child elements; only one level of child elements can be read as columns'')"

definition too_deep :: "str \<Rightarrow> str \<Rightarrow> nat \<Rightarrow> str \<Rightarrow> connector_error" where
  "too_deep name record_name at inner = DataError (''<'' @ name @ ''> inside <'' @ record_name @ ''> at byte '' @ show_nat at @
     '' contains <'' @ inner @ ''>; only one level of child elements can be read as columns'')"

definition write_record :: "xml_world \<Rightarrow> row \<Rightarrow> xml_reading \<Rightarrow> connector_error + xml_reading" where
  "write_record w r st = (case xw_stage w (length (xr_rows st)) of
     Some e \<Rightarrow> Inl e | None \<Rightarrow> Inr (st\<lparr> xr_rows := xr_rows st @ [r] \<rparr>))"

definition outside_step :: "xml_world \<Rightarrow> str \<Rightarrow> nat \<Rightarrow> xml_event \<Rightarrow> xml_reading \<Rightarrow> connector_error + xml_reading" where
  "outside_step w record_name at e st = (case e of
     XStart name attributes \<Rightarrow>
       if name = record_name
       then and_then (take_attributes attributes None at []) (\<lambda>r. Inr (st\<lparr> xr_current := r, xr_position := InRecord \<rparr>))
       else Inr st
   | XEmpty name attributes \<Rightarrow>
       if name = record_name then and_then (take_attributes attributes None at []) (\<lambda>r. write_record w r st) else Inr st
   | _ \<Rightarrow> Inr st)"

definition column_starts :: "str \<Rightarrow> nat \<Rightarrow> str \<Rightarrow> xml_attributes \<Rightarrow> row \<Rightarrow> connector_error + row" where
  "column_starts record_name at name attributes current =
     and_then (claim_column current name record_name at) (\<lambda>_. take_attributes attributes (Some name) at current)"

definition record_step :: "xml_world \<Rightarrow> str \<Rightarrow> nat \<Rightarrow> xml_event \<Rightarrow> xml_reading \<Rightarrow> connector_error + xml_reading" where
  "record_step w record_name at e st = (case e of
     XStart name attributes \<Rightarrow> and_then (column_starts record_name at name attributes (xr_current st))
       (\<lambda>r. Inr (st\<lparr> xr_current := r, xr_position := InField name [] \<rparr>))
   | XEmpty name attributes \<Rightarrow> and_then (column_starts record_name at name attributes (xr_current st))
       (\<lambda>r. Inr (st\<lparr> xr_current := obj_insert name (JString []) r \<rparr>))
   | XEnd \<Rightarrow> and_then (write_record w (xr_current st) st) (\<lambda>st1. Inr (st1\<lparr> xr_current := [], xr_position := Outside \<rparr>))
   | XText content \<Rightarrow> and_then (well_formed at content) (\<lambda>t. if trim t \<noteq> [] then Inl (own_text record_name at) else Inr st)
   | XCData _ \<Rightarrow> Inl (own_text record_name at)
   | XRef _ _ \<Rightarrow> Inl (own_text record_name at)
   | XOther \<Rightarrow> Inr st)"

definition reference_text :: "xml_world \<Rightarrow> nat \<Rightarrow> str + char option \<Rightarrow> str + str \<Rightarrow> connector_error + str" where
  "reference_text w at character name = and_then (well_formed at character) (\<lambda>c. case c of
     Some c \<Rightarrow> Inr [c]
   | None \<Rightarrow> and_then (well_formed at name) (\<lambda>n.
       ok_or (DataError (''unknown entity &'' @ n @ ''; at byte '' @ show_nat at)) (xw_entity w n)))"

definition field_step :: "xml_world \<Rightarrow> str \<Rightarrow> nat \<Rightarrow> str \<Rightarrow> str \<Rightarrow> xml_event \<Rightarrow> xml_reading \<Rightarrow> connector_error + xml_reading" where
  "field_step w record_name at name t e st = (case e of
     XText part \<Rightarrow> and_then (well_formed at part) (\<lambda>more. Inr (st\<lparr> xr_position := InField name (t @ more) \<rparr>))
   | XCData part \<Rightarrow> and_then (well_formed at part) (\<lambda>more. Inr (st\<lparr> xr_position := InField name (t @ more) \<rparr>))
   | XRef character reference \<Rightarrow> and_then (reference_text w at character reference)
       (\<lambda>more. Inr (st\<lparr> xr_position := InField name (t @ more) \<rparr>))
   | XEnd \<Rightarrow> Inr (st\<lparr> xr_current := obj_insert name (JString t) (xr_current st), xr_position := InRecord \<rparr>)
   | XStart inner _ \<Rightarrow> Inl (too_deep name record_name at inner)
   | XEmpty inner _ \<Rightarrow> Inl (too_deep name record_name at inner)
   | XOther \<Rightarrow> Inr st)"

definition xml_step :: "xml_world \<Rightarrow> str \<Rightarrow> nat \<Rightarrow> xml_event \<Rightarrow> xml_reading \<Rightarrow> connector_error + xml_reading" where
  "xml_step w record_name at e st = (case xr_position st of
     Outside \<Rightarrow> outside_step w record_name at e st
   | InRecord \<Rightarrow> record_step w record_name at e st
   | InField name t \<Rightarrow> field_step w record_name at name t e st)"

text \<open>The end of the input ends the loop, wherever the reader is.\<close>

fun read_events :: "xml_world \<Rightarrow> str \<Rightarrow> xml_feed \<Rightarrow> xml_reading \<Rightarrow> connector_error + xml_reading" where
  "read_events w record_name [] st = Inr st"
| "read_events w record_name ((at, Inl (where_it_failed, reason)) # feed) st = Inl (malformed where_it_failed reason)"
| "read_events w record_name ((at, Inr e) # feed) st = and_then (xml_step w record_name at e st) (read_events w record_name feed)"

definition xml_start :: xml_reading where
  "xml_start = \<lparr> xr_position = Outside, xr_current = [], xr_rows = [] \<rparr>"

definition read_records :: "xml_world \<Rightarrow> str \<Rightarrow> xml_feed \<Rightarrow> connector_error + row list" where
  "read_records w record_name feed = map_sum id xr_rows (read_events w record_name feed xml_start)"

definition context_resolve :: "str option \<Rightarrow> str \<Rightarrow> str" where
  "context_resolve working_dir path = (case working_dir of Some directory \<Rightarrow> Exec_World.path_join directory path | None \<Rightarrow> path)"

definition xml_read :: "xml_world \<Rightarrow> (str \<Rightarrow> str + xml_feed) \<Rightarrow> str option \<Rightarrow> json \<Rightarrow> connector_error + row list \<times> str" where
  "xml_read w open_file working_dir properties =
     and_then (required_property properties ''path'') (\<lambda>path.
     and_then (required_property properties ''record'') (\<lambda>record_name.
     and_then (check_name ''record'' record_name) (\<lambda>_.
     let resolved = context_resolve working_dir path
     in and_then (map_err (IoFailure resolved) (open_file resolved)) (\<lambda>feed.
        and_then (read_records w record_name feed) (\<lambda>rows.
          Inr (rows, if rows = [] then ''no <'' @ record_name @ ''> elements in '' @ path @ ''; 0 records read''
            else show_nat (length rows) @ '' record(s) read from '' @ path))))))"

section \<open>Writing\<close>

text \<open>The output: what has been written, and the calls made, of which \<open>io\<close> says which fail and why.\<close>

record xml_out =
  xo_text :: str
  xo_calls :: nat

definition write_line :: "(nat \<Rightarrow> str option) \<Rightarrow> str \<Rightarrow> xml_out \<Rightarrow> (connector_error + unit) \<times> xml_out" where
  "write_line io line out = (case io (xo_calls out) of
     Some reason \<Rightarrow> (Inl (DataError (''writing XML: '' @ reason)), out\<lparr> xo_calls := xo_calls out + 1 \<rparr>)
   | None \<Rightarrow> (Inr (), \<lparr> xo_text = xo_text out @ line @ NL, xo_calls = xo_calls out + 1 \<rparr>))"

fun write_lines :: "(nat \<Rightarrow> str option) \<Rightarrow> str list \<Rightarrow> xml_out \<Rightarrow> (connector_error + unit) \<times> xml_out" where
  "write_lines io [] out = (Inr (), out)"
| "write_lines io (line # lines) out = (case write_line io line out of
     (Inl e, out1) \<Rightarrow> (Inl e, out1) | (Inr _, out1) \<Rightarrow> write_lines io lines out1)"

record xml_child =
  ch_name :: str
  ch_text :: "str option"
  ch_attributes :: str

text \<open>The child with this name is changed, added at the position its first column appeared.\<close>

fun child_named :: "str \<Rightarrow> (xml_child \<Rightarrow> xml_child) \<Rightarrow> xml_child list \<Rightarrow> xml_child list" where
  "child_named name change [] = [change \<lparr> ch_name = name, ch_text = None, ch_attributes = [] \<rparr>]"
| "child_named name change (c # cs) = (if ch_name c = name then change c # cs else c # child_named name change cs)"

definition xml_cell_text :: "str \<Rightarrow> json \<Rightarrow> nat \<Rightarrow> connector_error + str option" where
  "xml_cell_text column v row_number =
     (let refused = Inl (DataError (''column '' @ QT @ column @ QT @ '' in row '' @ show_nat row_number @
        '' is a list or a struct, which has no flat XML form; select or flatten it before this sink''))
      in case v of
           JNull \<Rightarrow> Inr None
         | JString t \<Rightarrow> Inr (Some t)
         | JInt n \<Rightarrow> Inr (Some (show_int n))
         | JFloat t \<Rightarrow> Inr (Some t)
         | JBool b \<Rightarrow> Inr (Some (if b then ''true'' else ''false''))
         | JArray _ \<Rightarrow> refused
         | JObject _ \<Rightarrow> refused)"

definition attribute_text :: "str \<Rightarrow> str \<Rightarrow> str" where
  "attribute_text name t = '' '' @ name @ ''='' @ [CHR 0x22] @ t @ [CHR 0x22]"

definition write_column :: "(str \<Rightarrow> str) \<Rightarrow> nat \<Rightarrow> str \<times> json \<Rightarrow> str \<times> xml_child list \<Rightarrow> connector_error + str \<times> xml_child list" where
  "write_column esc row_number cell written = (case (cell, written) of ((column, v), (attributes, children)) \<Rightarrow>
     and_then (xml_cell_text column v row_number) (\<lambda>content. case content of
       None \<Rightarrow> Inr (attributes, children)
     | Some raw \<Rightarrow> (let t = esc raw
         in case strip_prefix ''@'' column of
              Some attribute \<Rightarrow> and_then (check_column attribute column) (\<lambda>_. Inr (attributes @ attribute_text attribute t, children))
            | None \<Rightarrow> (case split_once (\<lambda>c. c = CHR ''@'') column of
                Some (child, attribute) \<Rightarrow>
                  and_then (check_column child column) (\<lambda>_.
                  and_then (check_column attribute column) (\<lambda>_.
                    Inr (attributes, child_named child (\<lambda>c. c\<lparr> ch_attributes := ch_attributes c @ attribute_text attribute t \<rparr>) children)))
              | None \<Rightarrow> and_then (check_column column column) (\<lambda>_.
                  Inr (attributes, child_named column (\<lambda>c. c\<lparr> ch_text := Some t \<rparr>) children))))))"

fun write_columns :: "(str \<Rightarrow> str) \<Rightarrow> nat \<Rightarrow> row \<Rightarrow> str \<times> xml_child list \<Rightarrow> connector_error + str \<times> xml_child list" where
  "write_columns esc row_number [] written = Inr written"
| "write_columns esc row_number (cell # cells) written =
     and_then (write_column esc row_number cell written) (write_columns esc row_number cells)"

definition child_line :: "xml_child \<Rightarrow> str" where
  "child_line c = (case ch_text c of
     Some t \<Rightarrow> ''    <'' @ ch_name c @ ch_attributes c @ ''>'' @ t @ ''</'' @ ch_name c @ ''>''
   | None \<Rightarrow> ''    <'' @ ch_name c @ ch_attributes c @ ''/>'')"

definition record_lines :: "str \<Rightarrow> str \<Rightarrow> xml_child list \<Rightarrow> str list" where
  "record_lines record_name attributes children =
     (if children = [] then [''  <'' @ record_name @ attributes @ ''/>'']
      else [''  <'' @ record_name @ attributes @ ''>''] @ map child_line children @ [''  </'' @ record_name @ ''>''])"

fun write_all :: "(str \<Rightarrow> str) \<Rightarrow> (nat \<Rightarrow> str option) \<Rightarrow> str \<Rightarrow> (connector_error + row) list \<Rightarrow> nat \<Rightarrow> xml_out
    \<Rightarrow> (connector_error + nat) \<times> xml_out" where
  "write_all esc io record_name [] count out = (Inr count, out)"
| "write_all esc io record_name (Inl e # feed) count out = (Inl e, out)"
| "write_all esc io record_name (Inr r # feed) count out =
     (case write_columns esc (count + 1) r ([], []) of
        Inl e \<Rightarrow> (Inl e, out)
      | Inr (attributes, children) \<Rightarrow>
          (case write_lines io (record_lines record_name attributes children) out of
             (Inl e, out1) \<Rightarrow> (Inl e, out1)
           | (Inr _, out1) \<Rightarrow> write_all esc io record_name feed (count + 1) out1))"

definition XML_DECLARATION :: str where
  "XML_DECLARATION = ''<?xml version='' @ [CHR 0x22] @ ''1.0'' @ [CHR 0x22] @ '' encoding='' @ [CHR 0x22] @ ''UTF-8'' @ [CHR 0x22] @ ''?>''"

definition write_records :: "(str \<Rightarrow> str) \<Rightarrow> (nat \<Rightarrow> str option) \<Rightarrow> str \<Rightarrow> str \<Rightarrow> (connector_error + row) list \<Rightarrow> xml_out
    \<Rightarrow> (connector_error + nat) \<times> xml_out" where
  "write_records esc io root record_name feed out =
     (case write_lines io [XML_DECLARATION, ''<'' @ root @ ''>''] out of
        (Inl e, out1) \<Rightarrow> (Inl e, out1)
      | (Inr _, out1) \<Rightarrow> (case write_all esc io record_name feed 0 out1 of
          (Inl e, out2) \<Rightarrow> (Inl e, out2)
        | (Inr count, out2) \<Rightarrow> (case write_line io (''</'' @ root @ ''>'') out2 of
            (Inl e, out3) \<Rightarrow> (Inl e, out3)
          | (Inr _, out3) \<Rightarrow> (Inr count, out3))))"

section \<open>The file\<close>

text \<open>What a disk answers: why the file cannot be made, the buffer flushed or the file renamed, and whether one can be removed.\<close>

record xml_disk_answers =
  xd_create :: "str option"
  xd_io :: "nat \<Rightarrow> str option"
  xd_flush :: "str option"
  xd_rename :: "str option"
  xd_remove_fails :: bool

text \<open>The file beside a target that names a file (and not a directory, with a slash at its end).\<close>

definition partial_path :: "str \<Rightarrow> str" where
  "partial_path target = target @ ''.partial''"

text \<open>
  The file is made, written and renamed; whatever fails, the partial file is removed if it can be. What the
  buffer held reaches the file when it is dropped at the latest.
\<close>

definition write_atomically :: "xml_disk_answers \<Rightarrow> str \<Rightarrow> (xml_out \<Rightarrow> (connector_error + nat) \<times> xml_out) \<Rightarrow> disk
    \<Rightarrow> (connector_error + nat) \<times> disk" where
  "write_atomically a target produce d =
     (let partial_file = partial_path target;
          (outcome, d1) = (case xd_create a of
            Some reason \<Rightarrow> (Inl (IoFailure partial_file reason), d)
          | None \<Rightarrow> (case produce \<lparr> xo_text = [], xo_calls = 0 \<rparr> of
              (Inl e, out) \<Rightarrow> (Inl e, d(partial_file \<mapsto> xo_text out))
            | (Inr count, out) \<Rightarrow> (case xd_flush a of
                Some reason \<Rightarrow> (Inl (IoFailure partial_file reason), d(partial_file \<mapsto> xo_text out))
              | None \<Rightarrow> (case xd_rename a of
                  Some reason \<Rightarrow> (Inl (IoFailure target reason), d(partial_file \<mapsto> xo_text out))
                | None \<Rightarrow> (Inr count, d(partial_file := None, target \<mapsto> xo_text out))))))
      in case outcome of
           Inl _ \<Rightarrow> (outcome, if xd_remove_fails a then d1 else d1(partial_file := None))
         | Inr _ \<Rightarrow> (outcome, d1))"

definition xml_write :: "(str \<Rightarrow> str) \<Rightarrow> xml_disk_answers \<Rightarrow> str option \<Rightarrow> json \<Rightarrow> (connector_error + row) list \<Rightarrow> disk
    \<Rightarrow> (connector_error + nat \<times> str) \<times> disk" where
  "xml_write esc a working_dir properties feed d =
     (case and_then (required_property properties ''path'') (\<lambda>path.
           and_then (required_property properties ''root'') (\<lambda>root.
           and_then (required_property properties ''record'') (\<lambda>record_name.
           and_then (check_name ''root'' root) (\<lambda>_.
           and_then (check_name ''record'' record_name) (\<lambda>_. Inr (path, root, record_name)))))) of
        Inl e \<Rightarrow> (Inl e, d)
      | Inr (path, root, record_name) \<Rightarrow>
          (case write_atomically a (context_resolve working_dir path) (write_records esc (xd_io a) root record_name feed) d of
             (Inl e, d1) \<Rightarrow> (Inl e, d1)
           | (Inr records, d1) \<Rightarrow> (Inr (records, show_nat records @ '' record(s) written to '' @ path), d1)))"

section \<open>A write is whole or nothing\<close>

lemma write_atomically_whole:
  assumes "write_atomically a target produce d = (outcome, d')"
  shows "(\<forall>other. other \<noteq> target \<and> other \<noteq> partial_path target \<longrightarrow> d' other = d other) \<and>
    (case outcome of
       Inr count \<Rightarrow> (\<exists>out. produce \<lparr> xo_text = [], xo_calls = 0 \<rparr> = (Inr count, out) \<and> d' target = Some (xo_text out) \<and>
         d' (partial_path target) = None)
     | Inl _ \<Rightarrow> d' target = d target \<and> (\<not> xd_remove_fails a \<longrightarrow> d' (partial_path target) = None))"
proof -
  have "partial_path target \<noteq> target" by (simp add: partial_path_def)
  then show ?thesis
    using assms by (auto simp: write_atomically_def Let_def split: option.splits prod.splits sum.splits if_splits)
qed

section \<open>Documents as trees\<close>

text \<open>
  The reference: a document is a forest, its leaves the events that are no tags. What a record is, and what
  a column, is said by recursion over the forest, with no state.
\<close>

datatype xml_tree =
    Tree str xml_attributes "xml_tree list"
  | Bare str xml_attributes
  | Piece xml_event

definition is_piece :: "xml_event \<Rightarrow> bool" where
  "is_piece e = (case e of XStart _ _ \<Rightarrow> False | XEmpty _ _ \<Rightarrow> False | XEnd \<Rightarrow> False | _ \<Rightarrow> True)"

fun is_forest :: "xml_tree list \<Rightarrow> bool" and is_tree :: "xml_tree \<Rightarrow> bool" where
  "is_forest [] = True"
| "is_forest (t # ts) = (is_tree t \<and> is_forest ts)"
| "is_tree (Tree name attributes ts) = is_forest ts"
| "is_tree (Bare name attributes) = True"
| "is_tree (Piece e) = is_piece e"

fun forest_events :: "xml_tree list \<Rightarrow> xml_event list" and tree_events :: "xml_tree \<Rightarrow> xml_event list" where
  "forest_events [] = []"
| "forest_events (t # ts) = tree_events t @ forest_events ts"
| "tree_events (Tree name attributes ts) = XStart name attributes # forest_events ts @ [XEnd]"
| "tree_events (Bare name attributes) = [XEmpty name attributes]"
| "tree_events (Piece e) = [e]"

definition hush :: "'e + 'a \<Rightarrow> 'a option" where
  "hush r = (case r of Inl _ \<Rightarrow> None | Inr v \<Rightarrow> Some v)"

text \<open>The text of a column: its pieces, one after the other, and no element.\<close>

fun piece_text :: "xml_world \<Rightarrow> xml_event \<Rightarrow> str option" where
  "piece_text w (XText t) = hush t"
| "piece_text w (XCData t) = hush t"
| "piece_text w (XRef character name) = hush (reference_text w 0 character name)"
| "piece_text w XOther = Some []"
| "piece_text w _ = None"

fun column_text :: "xml_world \<Rightarrow> xml_tree list \<Rightarrow> str option" where
  "column_text w [] = Some []"
| "column_text w (Piece e # ts) = Option.bind (piece_text w e) (\<lambda>t. map_option ((@) t) (column_text w ts))"
| "column_text w (_ # ts) = None"

text \<open>A child of a record adds its attributes and its text, under a name that is not there yet.\<close>

definition add_column :: "str \<Rightarrow> xml_attributes \<Rightarrow> str option \<Rightarrow> row \<Rightarrow> row option" where
  "add_column name attributes content r = (if name \<in> set (map fst r) then None
     else Option.bind (hush (take_attributes attributes (Some name) 0 r)) (\<lambda>r1.
       map_option (\<lambda>t. obj_insert name (JString t) r1) content))"

fun add_child :: "xml_world \<Rightarrow> xml_tree \<Rightarrow> row \<Rightarrow> row option" where
  "add_child w (Tree name attributes ts) r = add_column name attributes (column_text w ts) r"
| "add_child w (Bare name attributes) r = add_column name attributes (Some []) r"
| "add_child w (Piece (XText t)) r = Option.bind (hush t) (\<lambda>t. if trim t = [] then Some r else None)"
| "add_child w (Piece XOther) r = Some r"
| "add_child w (Piece _) r = None"

fun add_children :: "xml_world \<Rightarrow> xml_tree list \<Rightarrow> row \<Rightarrow> row option" where
  "add_children w [] r = Some r"
| "add_children w (t # ts) r = Option.bind (add_child w t r) (add_children w ts)"

definition flat_record :: "xml_world \<Rightarrow> xml_attributes \<Rightarrow> xml_tree list \<Rightarrow> row option" where
  "flat_record w attributes ts = Option.bind (hush (take_attributes attributes None 0 [])) (add_children w ts)"

text \<open>The records of a document, in order: the outermost elements with the name, each flat or not.\<close>

fun forest_records :: "xml_world \<Rightarrow> str \<Rightarrow> xml_tree list \<Rightarrow> row option list"
  and tree_records :: "xml_world \<Rightarrow> str \<Rightarrow> xml_tree \<Rightarrow> row option list" where
  "forest_records w record_name [] = []"
| "forest_records w record_name (t # ts) = tree_records w record_name t @ forest_records w record_name ts"
| "tree_records w record_name (Tree name attributes ts) =
     (if name = record_name then [flat_record w attributes ts] else forest_records w record_name ts)"
| "tree_records w record_name (Bare name attributes) = (if name = record_name then [flat_record w attributes []] else [])"
| "tree_records w record_name (Piece e) = []"

section \<open>The reader reads the trees\<close>

text \<open>Where an event starts shows in messages only.\<close>

fun run_events :: "xml_world \<Rightarrow> str \<Rightarrow> xml_event list \<Rightarrow> xml_reading \<Rightarrow> xml_reading option" where
  "run_events w record_name [] st = Some st"
| "run_events w record_name (e # es) st = Option.bind (hush (xml_step w record_name 0 e st)) (run_events w record_name es)"

lemma hush_simps [simp]:
  "hush (Inl e) = None" "hush (Inr v) = Some v" "hush (and_then r f) = Option.bind (hush r) (\<lambda>v. hush (f v))"
  "hush (map_err g r) = hush r" "hush (well_formed at s) = hush s"
  by (auto simp: hush_def well_formed_def split: sum.split)

lemma hush_ok_or [simp]: "hush (ok_or e x) = x"
  by (cases x) simp_all

lemma hush_if [simp]: "hush (if b then x else y) = (if b then hush x else hush y)"
  by simp

lemma hush_take_attributes: "hush (take_attributes attributes child at into) = hush (take_attributes attributes child 0 into)"
  by (induction attributes arbitrary: into) (auto simp: well_formed_def split: sum.split)

lemma hush_reference_text: "hush (reference_text w at character name) = hush (reference_text w 0 character name)"
  by (cases "hush character") (simp_all add: reference_text_def split: option.split)

lemma hush_claim_column [simp]: "hush (claim_column current name record_name at) = (if name \<in> set (map fst current) then None else Some ())"
  by (simp add: claim_column_def)

lemma hush_step: "hush (xml_step w record_name at e st) = hush (xml_step w record_name 0 e st)"
  by (auto simp: xml_step_def outside_step_def record_step_def field_step_def column_starts_def hush_take_attributes [of _ _ at]
      hush_reference_text [of _ at] cong: if_cong split: xml_position.split xml_event.split)

lemma hush_read_events:
  "map snd feed = map Inr es \<Longrightarrow> hush (read_events w record_name feed st) = run_events w record_name es st"
proof (induction es arbitrary: feed st)
  case (Cons e es)
  then obtain at rest where "feed = (at, Inr e) # rest" "map snd rest = map Inr es" by (cases feed) auto
  with Cons.IH show ?case by (simp add: hush_step [of _ _ at])
qed simp

lemma run_append: "run_events w record_name (xs @ ys) st = Option.bind (run_events w record_name xs st) (run_events w record_name ys)"
proof (induction xs arbitrary: st)
  case (Cons e xs)
  then show ?case by (cases "hush (xml_step w record_name 0 e st)") simp_all
qed simp

lemma run_column_text:
  "is_forest ts \<Longrightarrow> xr_position st = InField name t \<Longrightarrow>
     run_events w record_name (forest_events ts) st = map_option (\<lambda>more. st\<lparr> xr_position := InField name (t @ more) \<rparr>) (column_text w ts)"
proof (induction ts arbitrary: t st)
  case (Cons u ts)
  show ?case
  proof (cases u)
    case (Piece e)
    with Cons show ?thesis
      by (cases e) (auto simp: is_piece_def xml_step_def field_step_def Option.bind_map_option option.map_comp o_def
          split: option.splits bind_split)
  qed (use Cons in \<open>simp_all add: xml_step_def field_step_def\<close>)
qed simp

lemma run_child:
  assumes "is_tree u" "xr_position st = InRecord"
  shows "run_events w record_name (tree_events u) st = map_option (\<lambda>r. st\<lparr> xr_current := r \<rparr>) (add_child w u (xr_current st))"
proof (cases u)
  case (Tree name attributes ts)
  define st1 where "st1 r = st\<lparr> xr_current := r, xr_position := InField name [] \<rparr>" for r
  have inside: "run_events w record_name (forest_events ts) (st1 r) =
      map_option (\<lambda>more. (st1 r)\<lparr> xr_position := InField name more \<rparr>) (column_text w ts)" for r
    using run_column_text [of ts "st1 r" name "[]"] assms(1) by (simp add: Tree st1_def)
  show ?thesis
    using assms(2) inside
    by (auto simp: Tree xml_step_def record_step_def column_starts_def add_column_def run_append st1_def [symmetric] field_step_def
        Option.bind_map_option option.map_comp o_def map_option_bind split: bind_split option.splits)
       (auto simp: st1_def)
next
  case (Bare name attributes)
  then show ?thesis using assms(2)
    by (auto simp: xml_step_def record_step_def column_starts_def add_column_def map_option_bind split: bind_split)
next
  case (Piece e)
  then show ?thesis using assms
    by (cases e) (auto simp: xml_step_def record_step_def is_piece_def map_option_bind split: bind_split)
qed

lemma run_children:
  "is_forest ts \<Longrightarrow> xr_position st = InRecord \<Longrightarrow>
     run_events w record_name (forest_events ts) st = map_option (\<lambda>r. st\<lparr> xr_current := r \<rparr>) (add_children w ts (xr_current st))"
proof (induction ts arbitrary: st)
  case (Cons u ts)
  show ?case
  proof (cases "add_child w u (xr_current st)")
    case None
    then show ?thesis using Cons.prems by (simp add: run_append run_child)
  next
    case (Some r)
    then show ?thesis using Cons.prems Cons.IH [of "st\<lparr> xr_current := r \<rparr>"] by (simp add: run_append run_child)
  qed
qed simp

text \<open>Rows are added where all records are flat.\<close>

definition all_flat :: "row option list \<Rightarrow> row list option" where
  "all_flat rs = (if None \<in> set rs then None else Some (map the rs))"

lemma all_flat_append: "all_flat (xs @ ys) = Option.bind (all_flat xs) (\<lambda>r. map_option ((@) r) (all_flat ys))"
  by (auto simp: all_flat_def)

lemma all_flat_one: "all_flat [r] = map_option (\<lambda>r. [r]) r"
  by (cases r) (simp_all add: all_flat_def)

lemma run_forest:
  assumes "\<forall>k. xw_stage w k = None"
  shows "is_forest ts \<Longrightarrow> xr_position st = Outside \<Longrightarrow> xr_current st = [] \<Longrightarrow>
      run_events w record_name (forest_events ts) st =
        map_option (\<lambda>rows. st\<lparr> xr_rows := xr_rows st @ rows \<rparr>) (all_flat (forest_records w record_name ts))"
    and "is_tree t \<Longrightarrow> xr_position st = Outside \<Longrightarrow> xr_current st = [] \<Longrightarrow>
      run_events w record_name (tree_events t) st =
        map_option (\<lambda>rows. st\<lparr> xr_rows := xr_rows st @ rows \<rparr>) (all_flat (tree_records w record_name t))"
proof (induction ts and t arbitrary: st and st rule: is_forest_is_tree.induct)
  case 1
  then show ?case by (simp add: all_flat_def)
next
  case (2 t ts)
  then have one: "run_events w record_name (tree_events t) st =
        map_option (\<lambda>rows. st\<lparr> xr_rows := xr_rows st @ rows \<rparr>) (all_flat (tree_records w record_name t))" by simp
  show ?case
  proof (cases "all_flat (tree_records w record_name t)")
    case None
    then show ?thesis by (simp add: run_append one all_flat_append)
  next
    case (Some rows)
    then show ?thesis using 2 by (simp add: run_append one all_flat_append option.map_comp o_def)
  qed
next
  case (3 name attributes ts)
  show ?case
  proof (cases "name = record_name")
    case True
    have same: "st\<lparr> xr_rows := rows, xr_current := [], xr_position := Outside \<rparr> = st\<lparr> xr_rows := rows \<rparr>" for rows
      using 3(3,4) by (cases st) simp
    from True show ?thesis using 3 assms
      by (cases "hush (take_attributes attributes None 0 [])")
        (simp_all add: xml_step_def outside_step_def flat_record_def run_append run_children all_flat_one option.map_comp o_def
          Option.bind_map_option record_step_def write_record_def same map_conv_bind_option split: option.split)
  next
    case False
    with 3 show ?thesis by (cases "all_flat (forest_records w record_name ts)")
      (simp_all add: xml_step_def outside_step_def run_append)
  qed
next
  case (4 name attributes)
  then show ?case using assms
    by (cases "hush (take_attributes attributes None 0 [])")
      (simp_all add: xml_step_def outside_step_def flat_record_def write_record_def all_flat_one all_flat_def)
next
  case (5 e)
  then show ?case by (cases e) (simp_all add: is_piece_def xml_step_def outside_step_def all_flat_def)
qed

lemma all_flat_Some: "all_flat rs = Some rows \<longleftrightarrow> rs = map Some rows"
proof
  assume "all_flat rs = Some rows"
  then have "None \<notin> set rs" "rows = map the rs" by (auto simp: all_flat_def split: if_splits)
  moreover from this(1) have "map (\<lambda>r. Some (the r)) rs = rs" by (intro map_idI) (metis option.collapse)
  ultimately show "rs = map Some rows" by (simp add: o_def)
qed (auto simp: all_flat_def o_def)

text \<open>
  C13: the reader reads what is flat and refuses the rest. Take any document, as a forest of elements and
  what stands between them, in whatever way the lexer cuts it into events. It is read without error exactly
  when every record in it is flat: no child twice, no element in a child, no text beside the children, no
  piece that cannot be decoded. Then there is one row for each record, in order, with the columns that the
  record's own subtree says, so nothing of one record is carried over into the next.
\<close>

theorem flat_records_are_read:
  assumes "\<forall>k. xw_stage w k = None" "is_forest document" "map snd feed = map Inr (forest_events document)"
  shows "read_records w record_name feed = Inr rows \<longleftrightarrow> forest_records w record_name document = map Some rows"
proof -
  have "hush (read_events w record_name feed xml_start) =
      map_option (\<lambda>rows. xml_start\<lparr> xr_rows := rows \<rparr>) (all_flat (forest_records w record_name document))"
    using run_forest(1) [OF assms(1,2), of xml_start record_name] hush_read_events [OF assms(3), of w record_name xml_start]
    by (simp add: xml_start_def)
  then have "hush (read_records w record_name feed) = all_flat (forest_records w record_name document)"
    by (cases "read_events w record_name feed xml_start"; cases "all_flat (forest_records w record_name document)")
      (auto simp: read_records_def)
  moreover have "read_records w record_name feed = Inr rows \<longleftrightarrow> hush (read_records w record_name feed) = Some rows"
    by (cases "read_records w record_name feed") simp_all
  ultimately show ?thesis by (simp add: all_flat_Some)
qed

text \<open>Two records, one of them with a reference in a column, in an element around them.\<close>

definition example_xml :: "xml_tree list" where
  "example_xml =
    [Piece XOther, Tree ''orders'' []
      [Piece (XText (Inr NL)), Tree ''order'' [Inr (''id'', ''1'')]
         [Piece (XText (Inr NL)), Tree ''note'' [Inr (''lang'', ''en'')]
           [Piece (XText (Inr ''a '')), Piece (XRef (Inr None) (Inr ''amp'')), Piece (XText (Inr '' b''))]],
       Bare ''order'' [Inr (''id'', ''2'')]]]"

definition example_xml_world :: xml_world where
  "example_xml_world = \<lparr> xw_entity = \<lambda>n. if n = ''amp'' then Some ''&'' else None, xw_stage = \<lambda>_. None \<rparr>"

lemma flat_records_are_read_witness:
  "read_records example_xml_world ''order'' (map (\<lambda>e. (0, Inr e)) (forest_events example_xml)) =
     Inr [[(''@id'', JString ''1''), (''note@lang'', JString ''en''), (''note'', JString ''a & b'')], [(''@id'', JString ''2'')]]"
proof -
  have "forest_records example_xml_world ''order'' example_xml =
    map Some [[(''@id'', JString ''1''), (''note@lang'', JString ''en''), (''note'', JString ''a & b'')], [(''@id'', JString ''2'')]]"
    by code_simp
  moreover have "is_forest example_xml" by code_simp
  moreover have "map snd (map (\<lambda>e. (0 :: nat, Inr e)) (forest_events example_xml)) = map Inr (forest_events example_xml)" by simp
  ultimately show ?thesis
    using flat_records_are_read [of example_xml_world example_xml] by (simp add: example_xml_world_def)
qed

text \<open>
  The lexer reports the end of the input whatever is open, and the reader stops there: a file that was cut
  short in a record is read without it, and without an error.
\<close>

lemma a_cut_document_is_read:
  "read_records example_xml_world ''order'' (map (\<lambda>e. (0, Inr e))
     [XStart ''orders'' [], XEmpty ''order'' [Inr (''id'', ''1'')], XStart ''order'' [Inr (''id'', ''2'')], XStart ''note'' [], XText (Inr ''pai'')])
     = Inr [[(''@id'', JString ''1'')]]"
  by code_simp

text \<open>Two attributes whose names differ in their prefixes are one column, and the last is kept.\<close>

lemma prefixed_attributes_collide:
  "read_records example_xml_world ''order'' [(0, Inr (XEmpty ''order'' [Inr (''id'', ''first''), Inr (''id'', ''second'')]))]
     = Inr [[(''@id'', JString ''second'')]]"
  by code_simp

end
