(* ===== verification/Clickhouse_Connector.thy ===== *)
theory Clickhouse_Connector
  imports Rest_Connector Params
begin

text \<open>
  The ClickHouse connectors (\<^verbatim>\<open>crates/connectors/src/clickhouse.rs\<close>): a read streamed a line at a time, all of
  it or only what is above the highest value of the last run, and inserts in batches through the client of
  \<open>Http_Client\<close>. The server's answer to a read is a status and lines, any of which the network may cut;
  SHA-256, the clock and the JSON parser are arguments. The theorem: runs that resume read a table whose
  column only goes up once and in order, however it grows between them and however few rows a run takes.
\<close>

section \<open>The server\<close>

definition INSERT_ROWS :: nat where "INSERT_ROWS = 100000"

definition INSERT_BYTES :: nat where "INSERT_BYTES = 16 * 1024 * 1024"

definition SESSION :: "(str \<times> str) list" where
  "SESSION = [(''session_timezone'', ''UTC''), (''output_format_json_quote_64bit_integers'', ''1''),
     (''output_format_json_quote_decimals'', ''1''), (''date_time_input_format'', ''best_effort'')]"

definition clickhouse_properties :: "property_spec list" where
  "clickhouse_properties =
    [prop_help ''The HTTP interface, e.g. http://clickhouse.local:8123 or https://...:8443.'' (prop_required (prop_text ''url'')),
     prop_help ''Unset: default.'' (prop_text ''username''),
     prop_help ''Use ${SECRET:name} rather than the value itself.'' (prop_text ''password''),
     prop_help (''Unset: the user'' @ QT @ ''s default database.'') (prop_text ''database''),
     prop_help (''How long to wait for a server'' @ QT @ ''s first answer to a request.'') (prop_default (JInt 300000) (prop_integer ''timeout_ms''))]"

record ck_server =
  cs_url :: str
  cs_authorization :: str
  cs_user :: str
  cs_database :: "str option"
  cs_timeout :: nat

fun trim_end_piece :: "nat \<Rightarrow> str \<Rightarrow> str \<Rightarrow> str" where
  "trim_end_piece 0 piece s = s"
| "trim_end_piece (Suc n) piece s = (case strip_suffix piece s of Some shorter \<Rightarrow> trim_end_piece n piece shorter | None \<Rightarrow> s)"

text \<open>\<^verbatim>\<open>host[:port]\<close> of an endpoint, the default port of its scheme left out (\<^verbatim>\<open>aws.rs\<close>).\<close>

definition host_of :: "str \<Rightarrow> str option" where
  "host_of endpoint = Option.bind (find_text ''://'' endpoint) (\<lambda>(scheme, rest).
     let authority = takeWhile (\<lambda>c. c \<noteq> CHR ''/'') rest
     in if authority = [] then None
        else if scheme = ''https'' then Some (trim_end_piece (length authority) '':443'' authority)
        else if scheme = ''http'' then Some (trim_end_piece (length authority) '':80'' authority)
        else None)"

definition ck_server_of :: "json \<Rightarrow> connector_error + ck_server" where
  "ck_server_of properties =
     and_then (ok_or (PropertyError ''url'' ''is required'')
       (map_option (\<lambda>url. trim_end_matches (\<lambda>c. c = CHR ''/'') (trim url)) (text_property properties ''url''))) (\<lambda>url.
     if host_of url = None \<or> CHR ''?'' \<in> set url
     then Inl (PropertyError ''url'' (QT @ url @ QT @ '' is not http://host[:port] or https://host[:port]''))
     else let user = trim (text_or properties ''username'' ''default''); password = text_or properties ''password'' []
       in and_then (positive properties ''timeout_ms'' 300000) (\<lambda>timeout.
         Inr \<lparr> cs_url = url, cs_authorization = ''Basic '' @ base64 (user @ '':'' @ password), cs_user = user,
               cs_database = map_option trim (text_property properties ''database''), cs_timeout = timeout \<rparr>))"

definition ck_place :: "ck_server \<Rightarrow> str" where
  "ck_place server = cs_url server @ '' as '' @ cs_user server"

definition ck_query :: "ck_server \<Rightarrow> (str \<times> str) list \<Rightarrow> (str \<times> str) list" where
  "ck_query server extra = SESSION @ (case cs_database server of Some d \<Rightarrow> [(''database'', d)] | None \<Rightarrow> []) @ extra"

definition clickhouse_error :: "str \<Rightarrow> str" where
  "clickhouse_error t = snippet (case find_text '' (version '' (trim t) of Some (before, _) \<Rightarrow> before | None \<Rightarrow> trim t)"

definition ck_identifier :: "str \<Rightarrow> str" where
  "ck_identifier name = ''`'' @ replace_all ''`'' (BACKSLASH @ ''`'') (replace_all BACKSLASH (BACKSLASH @ BACKSLASH) name) @ ''`''"

definition table_name :: "str \<Rightarrow> connector_error + str" where
  "table_name name = (let parts = map trim (split_on (\<lambda>c. c = CHR ''.'') name)
     in if length parts > 2 \<or> [] \<in> set parts then Inl (PropertyError ''table'' (QT @ name @ QT @ '' is not table or database.table''))
        else Inr (join_with ''.'' (map ck_identifier parts)))"

section \<open>Values\<close>

definition unwrapped :: "str \<Rightarrow> str option" where
  "unwrapped kind = find_map (\<lambda>wrapper. Option.bind (strip_prefix wrapper kind) (strip_suffix '')'')) [''Nullable('', ''LowCardinality('']"

text \<open>The type inside; each turn takes a wrapper off, so the length of the type bounds them.\<close>

fun bare_loop :: "nat \<Rightarrow> str \<Rightarrow> str" where
  "bare_loop 0 kind = kind"
| "bare_loop (Suc n) kind = (case unwrapped kind of Some inner \<Rightarrow> bare_loop n (trim inner) | None \<Rightarrow> kind)"

definition bare_type :: "str \<Rightarrow> str" where
  "bare_type kind = bare_loop (length kind) (trim kind)"

definition ck_value :: "str \<Rightarrow> json \<Rightarrow> json" where
  "ck_value kind v = (case v of
     JString t \<Rightarrow>
       if bare_type kind \<in> {''Int64'', ''UInt64'', ''Int128'', ''UInt128'', ''Int256'', ''UInt256''}
       then (case parse_i64 t of Some n \<Rightarrow> JInt n | None \<Rightarrow> (case parse_unsigned 64 t of Some n \<Rightarrow> JInt (int n) | None \<Rightarrow> JString t))
       else JString t
   | other \<Rightarrow> other)"

definition contains_text :: "str \<Rightarrow> str \<Rightarrow> bool" where
  "contains_text s piece \<longleftrightarrow> find_text piece s \<noteq> None"

definition exception_row :: "json list \<Rightarrow> str option" where
  "exception_row cells = (case cells of
     [JString t] \<Rightarrow> if starts_with t ''Code: '' \<and> contains_text t ''DB::Exception'' then Some t else None
   | _ \<Rightarrow> None)"

section \<open>What a read asks for\<close>

definition clickhouse_source_spec :: "component_spec option" where
  "clickhouse_source_spec = map_option (\<lambda>c. spec_properties (clickhouse_properties @
    [prop_help ''table or database.table. Or give query.'' (prop_text ''table''),
     prop_help ''SQL to read, instead of table.'' (prop_code ''query''),
     prop_help (''Read only rows whose value here is above the last successful run'' @ QT @ ''s highest. It '' @ ''must only ever go up.'')
       (prop_text ''incremental_column''),
     prop_help (''With incremental_column, where the first run starts, as a SQL literal, e.g. '' @
        ''toDateTime64('' @ QT @ ''2026-01-01 00:00:00'' @ QT @ '', 6) or 1000. Unset: from the beginning.'') (prop_text ''start''),
     prop_help ''The most one run reads. Unset: every row.'' (prop_integer ''max_records''),
     columns_property])
    (spec_icon ''database'' (spec_description (''Read a ClickHouse table or query over the HTTP interface, streamed, all of it or '' @
       ''only rows new since the last successful run.'') c)))
    (component_new ''src.db.clickhouse'' ''ClickHouse table'')"

record ck_source =
  ck_what :: str
  ck_sql :: str
  ck_incremental :: "(str \<times> str option) option"
  ck_max_records :: "nat option"

text \<open>A short, stable name for a query (\<^verbatim>\<open>bigquery.rs\<close>): the first eight bytes of its SHA-256 in hex.\<close>

definition fingerprint :: "(u8 list \<Rightarrow> u8 list) \<Rightarrow> str \<Rightarrow> str" where
  "fingerprint sha256 query = to_hex (take 8 (sha256 (as_bytes query)))"

definition ck_reading_of :: "(u8 list \<Rightarrow> u8 list) \<Rightarrow> json \<Rightarrow> connector_error + str \<times> str" where
  "ck_reading_of sha256 properties = (case (text_property properties ''table'', text_property properties ''query'') of
     (Some _, Some _) \<Rightarrow> Inl (PropertyError ''query'' ''and table both say what to read; give one'')
   | (Some table, None) \<Rightarrow> and_then (table_name (trim table)) (\<lambda>t. Inr (''table '' @ t, ''SELECT * FROM '' @ t))
   | (None, Some written) \<Rightarrow> (let query = trim_end_matches (\<lambda>c. c = CHR '';'') (trim written)
       in if contains_text (map ascii_upper query) '' FORMAT ''
          then Inl (PropertyError ''query'' ''names its own FORMAT; the connector chooses the format it reads'')
          else Inr (''query '' @ fingerprint sha256 query, query))
   | (None, None) \<Rightarrow> Inl (PropertyError ''table'' ''or query is required''))"

definition ck_incremental_of :: "json \<Rightarrow> connector_error + (str \<times> str option) option" where
  "ck_incremental_of properties = (case map_option trim (text_property properties ''incremental_column'') of
     None \<Rightarrow> if text_property properties ''start'' \<noteq> None
       then Inl (PropertyError ''start'' ''goes with incremental_column, which is not set'') else Inr None
   | Some column \<Rightarrow> Inr (Some (column, map_option trim (text_property properties ''start''))))"

definition ck_cap_of :: "json \<Rightarrow> connector_error + nat option" where
  "ck_cap_of properties = (case json_get properties ''max_records'' of
     None \<Rightarrow> Inr None | Some JNull \<Rightarrow> Inr None | Some _ \<Rightarrow> map_sum id Some (positive properties ''max_records'' 1))"

definition ck_source_of :: "(u8 list \<Rightarrow> u8 list) \<Rightarrow> json \<Rightarrow> connector_error + ck_source" where
  "ck_source_of sha256 properties =
     and_then (ck_reading_of sha256 properties) (\<lambda>(what, sql).
     and_then (ck_incremental_of properties) (\<lambda>incremental.
     and_then (ck_cap_of properties) (\<lambda>cap.
       Inr \<lparr> ck_what = what, ck_sql = sql, ck_incremental = incremental, ck_max_records = cap \<rparr>)))"

definition clickhouse_source_check :: "(u8 list \<Rightarrow> u8 list) \<Rightarrow> json \<Rightarrow> connector_error + unit" where
  "clickhouse_source_check sha256 properties =
     and_then (ck_server_of properties) (\<lambda>_. map_sum id (\<lambda>_. ()) (ck_source_of sha256 properties))"

definition saved_text :: "json \<Rightarrow> str \<Rightarrow> str \<Rightarrow> str" where
  "saved_text saved key fallback = (case Option.bind (json_get saved key) json_as_str of Some t \<Rightarrow> t | None \<Rightarrow> fallback)"

text \<open>The statement, its parameters, and a note when a saved position was set aside.\<close>

definition ck_statement :: "ck_source \<Rightarrow> json option \<Rightarrow> str \<times> (str \<times> str) list \<times> str option" where
  "ck_statement s saved =
     (let limit = (case ck_max_records s of Some cap \<Rightarrow> '' LIMIT '' @ show_nat cap | None \<Rightarrow> []);
          format = '' FORMAT JSONCompactEachRowWithNamesAndTypes''
      in case ck_incremental s of
           None \<Rightarrow> (ck_sql s @ limit @ format, [], None)
         | Some (column, start) \<Rightarrow>
             (let name = ck_identifier column; inner = ck_sql s;
                  mine = Option.bind saved (\<lambda>v. if json_get v ''read'' = Some (JString (ck_what s)) \<and> json_get v ''column'' = Some (JString column)
                    then Some v else None);
                  note = (case (saved, mine) of
                    (Some v, None) \<Rightarrow> Some (''; the saved position was for '' @ saved_text v ''read'' ''?'' @ '' by '' @ QT @
                      saved_text v ''column'' ''?'' @ QT @ '', so this read started over'')
                  | _ \<Rightarrow> None);
                  order = '' ORDER BY '' @ name @ limit @ format
              in case mine of
                   Some v \<Rightarrow> (''SELECT * FROM ('' @ inner @ '') WHERE '' @ name @ '' > {etl_after:'' @ saved_text v ''type'' ''String'' @ ''}'' @ order,
                     [(''param_etl_after'', saved_text v ''value'' [])], note)
                 | None \<Rightarrow> (case start of
                     Some literal \<Rightarrow> (''SELECT * FROM ('' @ inner @ '') WHERE '' @ name @ '' > ('' @ literal @ '')'' @ order, [], note)
                   | None \<Rightarrow> (''SELECT * FROM ('' @ inner @ '')'' @ order, [], note))))"

section \<open>The source\<close>

record ck_request =
  kq_url :: str
  kq_authorization :: str
  kq_query :: "(str \<times> str) list"
  kq_sql :: str

text \<open>What a read gets: nothing, a refusal with its body, or lines, one of which may fail to arrive.\<close>

datatype ck_answer = CkUnreachable str | CkRefused nat str | CkLines "(str + str) list"

record ck_world =
  kw_answer :: "ck_request \<Rightarrow> ck_answer"
  kw_parse :: "str \<Rightarrow> str + json"
  kw_sha256 :: "u8 list \<Rightarrow> u8 list"
  kw_stage :: "nat \<Rightarrow> connector_error option"

record ck_reading =
  kr_rows :: "row list"
  kr_highest :: "json option"

definition ck_failed :: "ck_server \<Rightarrow> ck_source \<Rightarrow> str \<Rightarrow> connector_error" where
  "ck_failed server s e = DataError (ck_what s @ '' at '' @ ck_place server @ '': '' @ e)"

definition ck_refusal_text :: "str \<Rightarrow> str" where
  "ck_refusal_text body =
     (let q = (\<lambda>c. c \<in> {CHR ''['', CHR '']'', CHR 0x22})
      in case find (\<lambda>line. contains_text line ''DB::Exception'') (rev (split_on (\<lambda>c. c = CHR 0x0A) body)) of
           Some line \<Rightarrow> (let bare = (case strip_suffix [CHR 0x0D] line of Some t \<Rightarrow> t | None \<Rightarrow> line)
             in rev (dropWhile q (rev (dropWhile q bare))))
         | None \<Rightarrow> body)"

definition text_list :: "json \<Rightarrow> str list option" where
  "text_list v = (case v of
     JArray vs \<Rightarrow> if list_all (\<lambda>v. json_as_str v \<noteq> None) vs then Some (filter_map json_as_str vs) else None
   | _ \<Rightarrow> None)"

definition header_line :: "ck_world \<Rightarrow> (str \<Rightarrow> connector_error) \<Rightarrow> str \<Rightarrow> (str + str) list \<Rightarrow> connector_error + str list \<times> (str + str) list" where
  "header_line w failed what lines = (case lines of
     [] \<Rightarrow> Inl (failed (''the answer has no '' @ what @ '' line''))
   | Inl e # _ \<Rightarrow> Inl (failed e)
   | Inr line # rest \<Rightarrow> (case kw_parse w line of
       Inr v \<Rightarrow> (case text_list v of
           Some ts \<Rightarrow> Inr (ts, rest)
         | None \<Rightarrow> Inl (failed (''the '' @ what @ '' line is not JSON: '' @ snippet line)))
     | Inl _ \<Rightarrow> Inl (failed (''the '' @ what @ '' line is not JSON: '' @ snippet line))))"

fun first_index :: "str \<Rightarrow> str list \<Rightarrow> nat option" where
  "first_index x [] = None"
| "first_index x (y # ys) = (if x = y then Some 0 else map_option Suc (first_index x ys))"

definition row_of :: "str list \<Rightarrow> str list \<Rightarrow> json list \<Rightarrow> row" where
  "row_of names kinds cells = fold (\<lambda>(name, kind, cell) r. obj_insert name (ck_value kind cell) r) (zip names (zip kinds cells)) []"

definition cells_of :: "ck_world \<Rightarrow> (str \<Rightarrow> connector_error) \<Rightarrow> str list \<Rightarrow> str \<Rightarrow> connector_error + json list" where
  "cells_of w failed names line =
     and_then (case kw_parse w line of Inr (JArray cells) \<Rightarrow> Inr cells | _ \<Rightarrow> Inl (failed (''a row is not JSON: '' @ snippet line))) (\<lambda>cells.
     case (if length cells \<noteq> length names \<or> length names = 1 then exception_row cells else None) of
       Some exception \<Rightarrow> Inl (failed (clickhouse_error exception))
     | None \<Rightarrow>
         if length cells \<noteq> length names
         then Inl (failed (''a row has '' @ show_nat (length cells) @ '' values for '' @ show_nat (length names) @ '' columns''))
         else Inr cells)"

fun ck_lines :: "ck_world \<Rightarrow> (str \<Rightarrow> connector_error) \<Rightarrow> str list \<Rightarrow> str list \<Rightarrow> nat option \<Rightarrow> (str + str) list \<Rightarrow> ck_reading
    \<Rightarrow> connector_error + ck_reading" where
  "ck_lines w failed names kinds position [] st = Inr st"
| "ck_lines w failed names kinds position (Inl e # lines) st = Inl (failed (''reading the result: '' @ e))"
| "ck_lines w failed names kinds position (Inr line # lines) st =
     (if trim line = [] then ck_lines w failed names kinds position lines st
      else case cells_of w failed names line of
        Inl e \<Rightarrow> Inl e
      | Inr cells \<Rightarrow>
          (let r = row_of names kinds cells;
               highest = (case position of Some index \<Rightarrow> map_of r (names ! index) | None \<Rightarrow> kr_highest st)
           in case kw_stage w (length (kr_rows st)) of
                Some e \<Rightarrow> Inl e
              | None \<Rightarrow> ck_lines w failed names kinds position lines \<lparr> kr_rows = kr_rows st @ [r], kr_highest = highest \<rparr>))"

definition position_text :: "json \<Rightarrow> str" where
  "position_text v = (case v of JString t \<Rightarrow> t | other \<Rightarrow> json_text other)"

definition ck_checkpoint :: "ck_source \<Rightarrow> str \<Rightarrow> str \<Rightarrow> str \<Rightarrow> json" where
  "ck_checkpoint s column kind t = JObject [(''read'', JString (ck_what s)), (''column'', JString column),
     (''type'', JString (bare_type kind)), (''value'', JString t)]"

text \<open>The rows, what is told, and the position to remember.\<close>

type_synonym ck_result = "row list \<times> str \<times> json option"

definition ck_summary :: "ck_server \<Rightarrow> ck_source \<Rightarrow> str list \<Rightarrow> nat option \<Rightarrow> str option \<Rightarrow> ck_reading \<Rightarrow> ck_result" where
  "ck_summary server s kinds position note st =
     (let count = length (kr_rows st);
          first = show_nat count @ '' row(s) from '' @ ck_what s @ '' at '' @ ck_place server;
          capped = (if ck_max_records s = Some count then ''; stopped at max_records, with more for the next run'' else []);
          noted = (case note of Some n \<Rightarrow> n | None \<Rightarrow> [])
      in case (ck_incremental s, position) of
           (Some (column, _), Some index) \<Rightarrow>
             (if kr_highest st \<in> {None, Some JNull}
              then (kr_rows st, first @ ''; nothing new by '' @ column @ capped @ noted, None)
              else let t = position_text (the (kr_highest st))
                in (kr_rows st, first @ ''; read up to '' @ column @ '' = '' @ t @ capped @ noted,
                  Some (ck_checkpoint s column (kinds ! index) t)))
         | _ \<Rightarrow> (kr_rows st, first @ capped @ noted, None))"

definition ck_request_of :: "ck_server \<Rightarrow> ck_source \<Rightarrow> json option \<Rightarrow> ck_request" where
  "ck_request_of server s saved = (case ck_statement s saved of (sql, parameters, note) \<Rightarrow>
     \<lparr> kq_url = cs_url server @ ''/'', kq_authorization = cs_authorization server, kq_query = ck_query server parameters, kq_sql = sql \<rparr>)"

definition ck_read :: "ck_world \<Rightarrow> ck_server \<Rightarrow> ck_source \<Rightarrow> json option \<Rightarrow> connector_error + ck_result" where
  "ck_read w server s saved =
     (let failed = ck_failed server s; note = snd (snd (ck_statement s saved))
      in case kw_answer w (ck_request_of server s saved) of
             CkUnreachable e \<Rightarrow> Inl (failed (''could not reach the server: '' @ e))
           | CkRefused status body \<Rightarrow> Inl (failed (''HTTP '' @ show_nat status @ '': '' @ clickhouse_error (ck_refusal_text body)))
           | CkLines lines \<Rightarrow>
               and_then (header_line w failed ''names'' lines) (\<lambda>(names, lines1).
               and_then (header_line w failed ''types'' lines1) (\<lambda>(kinds, lines2).
               and_then (case ck_incremental s of
                   None \<Rightarrow> Inr None
                 | Some (column, _) \<Rightarrow> map_sum id Some (ok_or (PropertyError ''incremental_column''
                     (QT @ column @ QT @ '' is not a column of what is read'')) (first_index column names))) (\<lambda>position.
               and_then (ck_lines w failed names kinds position lines2 \<lparr> kr_rows = [], kr_highest = None \<rparr>) (\<lambda>st.
                 Inr (ck_summary server s kinds position note st))))))"

definition clickhouse_read :: "ck_world \<Rightarrow> json \<Rightarrow> json option \<Rightarrow> connector_error + ck_result" where
  "clickhouse_read w properties saved =
     and_then (ck_server_of properties) (\<lambda>server.
     and_then (ck_source_of (kw_sha256 w) properties) (\<lambda>s. ck_read w server s saved))"

section \<open>The sink\<close>

definition clickhouse_sink_spec :: "component_spec option" where
  "clickhouse_sink_spec = map_option (\<lambda>c. spec_properties (clickhouse_properties @
    [prop_help ''table or database.table. It must exist.'' (prop_required (prop_text ''table'')),
     prop_help ''append adds the rows; truncate empties the table first.''
       (prop_default (JString ''append'') (prop_enumerated ''mode'' [''append'', ''truncate'']))])
    (spec_icon ''database'' (spec_description (''Write rows to an existing ClickHouse table over the HTTP interface, as '' @
       ''JSONEachRow, 100,000 rows or 16 MB an INSERT.'') c)))
    (component_new ''snk.db.clickhouse'' ''ClickHouse table'')"

definition ck_sink_of :: "json \<Rightarrow> connector_error + str \<times> bool" where
  "ck_sink_of properties =
     (if text_property properties ''query'' \<noteq> None then Inl (PropertyError ''query'' ''is for reading; a sink writes to table'')
      else and_then (ok_or (PropertyError ''table'' ''is required'') (text_property properties ''table'')) (\<lambda>written.
        and_then (table_name (trim written)) (\<lambda>table.
        let mode = text_or properties ''mode'' ''append''
        in if mode = ''append'' then Inr (table, False)
           else if mode = ''truncate'' then Inr (table, True)
           else Inl (PropertyError ''mode'' (QT @ mode @ QT @ '' is not one of append, truncate'')))))"

definition clickhouse_sink_check :: "json \<Rightarrow> connector_error + unit" where
  "clickhouse_sink_check properties =
     and_then (ck_server_of properties) (\<lambda>_. map_sum id (\<lambda>_. ()) (ck_sink_of properties))"

text \<open>One statement with a body, sent with a token or without.\<close>

definition ck_execute :: "http_world \<Rightarrow> http_settings \<Rightarrow> ck_server \<Rightarrow> str \<Rightarrow> u8 list \<Rightarrow> str option \<Rightarrow> client
    \<Rightarrow> ((connector_error + unit) \<times> client) option" where
  "ck_execute w hs server sql rows token c =
     (let query = ck_query server ((''query'', sql) # (case token of Some t \<Rightarrow> [(''insert_deduplication_token'', t)] | None \<Rightarrow> []));
          extra = \<lparr> he_headers = \<lambda>_. [(''Authorization'', cs_authorization server)], he_content_type = ''application/x-ndjson'',
            he_throttled = \<lambda>_ _. False \<rparr>
      in case send_with w hs (cs_url server @ ''/'') query (Some rows) (Some extra) Accept c of
           None \<Rightarrow> None
         | Some (Inl e, c1) \<Rightarrow> Some (Inl (DataError (clickhouse_error (connector_error_text e))), c1)
         | Some (Inr _, c1) \<Rightarrow> Some (Inr (), c1))"

record ck_inserting =
  ki_client :: client
  ki_inserted :: nat
  ki_statements :: nat

definition ck_insert_failed :: "str \<Rightarrow> nat \<Rightarrow> connector_error \<Rightarrow> connector_error" where
  "ck_insert_failed table inserted e = DataError (connector_error_text e @ ''. '' @ show_nat inserted @ '' row(s) had been inserted into '' @
     table @ '' before this, and stay'')"

definition ck_insert_batch :: "http_world \<Rightarrow> http_settings \<Rightarrow> ck_server \<Rightarrow> str \<Rightarrow> str \<Rightarrow> u8 list \<Rightarrow> nat \<Rightarrow> ck_inserting
    \<Rightarrow> ((connector_error + unit) \<times> ck_inserting) option" where
  "ck_insert_batch w hs server table run body in_batch st =
     (case ck_execute w hs server (''INSERT INTO '' @ table @ '' FORMAT JSONEachRow'') body
        (Some (run @ ''-'' @ show_nat (ki_statements st))) (ki_client st) of
        None \<Rightarrow> None
      | Some (Inl e, c1) \<Rightarrow> Some (Inl (ck_insert_failed table (ki_inserted st) e), st\<lparr> ki_client := c1 \<rparr>)
      | Some (Inr _, c1) \<Rightarrow> Some (Inr (), \<lparr> ki_client = c1, ki_inserted = ki_inserted st + in_batch, ki_statements = ki_statements st + 1 \<rparr>))"

fun ck_insert_loop :: "http_world \<Rightarrow> http_settings \<Rightarrow> ck_server \<Rightarrow> str \<Rightarrow> str \<Rightarrow> nat \<Rightarrow> nat \<Rightarrow> (connector_error + row) list
    \<Rightarrow> u8 list \<Rightarrow> nat \<Rightarrow> ck_inserting \<Rightarrow> ((connector_error + unit) \<times> ck_inserting) option" where
  "ck_insert_loop w hs server table run batch_rows batch_bytes [] batch in_batch st =
     (if in_batch > 0 then ck_insert_batch w hs server table run batch in_batch st else Some (Inr (), st))"
| "ck_insert_loop w hs server table run batch_rows batch_bytes (Inl e # feed) batch in_batch st = Some (Inl e, st)"
| "ck_insert_loop w hs server table run batch_rows batch_bytes (Inr r # feed) batch in_batch st =
     (let line = as_bytes (json_text (JObject r) @ NL)
      in if in_batch > 0 \<and> (in_batch = batch_rows \<or> length batch + length line > batch_bytes)
         then case ck_insert_batch w hs server table run batch in_batch st of
                None \<Rightarrow> None
              | Some (Inl e, st1) \<Rightarrow> Some (Inl e, st1)
              | Some (Inr _, st1) \<Rightarrow> ck_insert_loop w hs server table run batch_rows batch_bytes feed line 1 st1
         else ck_insert_loop w hs server table run batch_rows batch_bytes feed (batch @ line) (in_batch + 1) st)"

definition ck_insert :: "http_world \<Rightarrow> (u8 list \<Rightarrow> u8 list) \<Rightarrow> str \<Rightarrow> ck_server \<Rightarrow> str \<times> bool \<Rightarrow> (connector_error + row) list \<Rightarrow> nat \<Rightarrow> nat
    \<Rightarrow> client \<Rightarrow> ((connector_error + nat \<times> str) \<times> client) option" where
  "ck_insert w sha256 clock server into feed batch_rows batch_bytes c =
     (case into of (table, emptied) \<Rightarrow>
        let hs = signed (cs_url server @ ''/'') Post (cs_timeout server) 3;
            run = fingerprint sha256 (table @ clock)
        in case (if emptied then ck_execute w hs server (''TRUNCATE TABLE '' @ table) [] None c else Some (Inr (), c)) of
             None \<Rightarrow> None
           | Some (Inl e, c1) \<Rightarrow> Some (Inl (ck_insert_failed table 0 e), c1)
           | Some (Inr _, c1) \<Rightarrow>
               (case ck_insert_loop w hs server table run batch_rows batch_bytes feed [] 0
                  \<lparr> ki_client = c1, ki_inserted = 0, ki_statements = 0 \<rparr> of
                  None \<Rightarrow> None
                | Some (Inl e, st) \<Rightarrow> Some (Inl e, ki_client st)
                | Some (Inr _, st) \<Rightarrow> Some (Inr (ki_inserted st, show_nat (ki_inserted st) @ '' row(s) '' @
                    (if emptied then ''replaced the rows of'' else ''appended to'') @ '' '' @ table @ '' at '' @ ck_place server @ '' in '' @
                    show_nat (ki_statements st) @ '' INSERT(s)''), ki_client st)))"

definition clickhouse_write :: "http_world \<Rightarrow> (u8 list \<Rightarrow> u8 list) \<Rightarrow> str \<Rightarrow> json \<Rightarrow> (connector_error + row) list \<Rightarrow> client
    \<Rightarrow> ((connector_error + nat \<times> str) \<times> client) option" where
  "clickhouse_write w sha256 clock properties feed c =
     (case and_then (ck_server_of properties) (\<lambda>server. and_then (ck_sink_of properties) (\<lambda>into. Inr (server, into))) of
        Inl e \<Rightarrow> Some (Inl e, c)
      | Inr (server, into) \<Rightarrow> ck_insert w sha256 clock server into feed INSERT_ROWS INSERT_BYTES c)"

section \<open>Runs that resume\<close>

text \<open>What the engine keeps: a run that failed leaves the position, and so does one that reports none.\<close>

fun ck_runs :: "ck_server \<Rightarrow> ck_source \<Rightarrow> ck_world list \<Rightarrow> json option \<Rightarrow> row list" where
  "ck_runs server s [] saved = []"
| "ck_runs server s (w # ws) saved = (case ck_read w server s saved of
     Inl e \<Rightarrow> ck_runs server s ws saved
   | Inr (rows, told, position) \<Rightarrow> rows @ ck_runs server s ws (case position of Some p \<Rightarrow> Some p | None \<Rightarrow> saved))"

text \<open>
  A table as the server shows it: the two lines at the head, and its rows by the value of the column, each
  a line that parses to its cells. \<open>rank\<close> is the order of the server on the values.
\<close>

record ck_entry =
  ce_line :: str
  ce_cells :: "json list"
  ce_key :: str

record ck_view =
  cv_parse :: "str \<Rightarrow> str + json"
  cv_head :: "str \<times> str"
  cv_names :: "str list"
  cv_kinds :: "str list"
  cv_index :: nat
  cv_entries :: "ck_entry list"

definition entry_row :: "ck_view \<Rightarrow> ck_entry \<Rightarrow> row" where
  "entry_row v e = row_of (cv_names v) (cv_kinds v) (ce_cells e)"

definition entry_shown :: "ck_view \<Rightarrow> ck_entry \<Rightarrow> bool" where
  "entry_shown v e \<longleftrightarrow> trim (ce_line e) \<noteq> [] \<and> cv_parse v (ce_line e) = Inr (JArray (ce_cells e)) \<and>
     length (ce_cells e) = length (cv_names v) \<and> (length (cv_names v) = 1 \<longrightarrow> exception_row (ce_cells e) = None) \<and>
     (\<exists>x. map_of (entry_row v e) (cv_names v ! cv_index v) = Some x \<and> x \<noteq> JNull \<and> position_text x = ce_key e)"

definition wf_view :: "ck_view \<Rightarrow> str \<Rightarrow> (str \<Rightarrow> 'r :: linorder) \<Rightarrow> bool" where
  "wf_view v column rank \<longleftrightarrow> cv_parse v (fst (cv_head v)) = Inr (JArray (map JString (cv_names v))) \<and>
     cv_parse v (snd (cv_head v)) = Inr (JArray (map JString (cv_kinds v))) \<and> first_index column (cv_names v) = Some (cv_index v) \<and>
     (\<forall>e \<in> set (cv_entries v). entry_shown v e) \<and> sorted_wrt (\<lambda>a b. rank (ce_key a) < rank (ce_key b)) (cv_entries v)"

text \<open>The rows above a value, in order, at most as many as the cap, of the first \<open>n\<close>: what a read means.\<close>

definition asked :: "ck_view \<Rightarrow> (str \<Rightarrow> 'r :: linorder) \<Rightarrow> nat option \<Rightarrow> nat \<Rightarrow> str option \<Rightarrow> ck_entry list" where
  "asked v rank cap n after =
     (let above = (case after of None \<Rightarrow> take n (cv_entries v)
        | Some t \<Rightarrow> filter (\<lambda>e. rank t < rank (ce_key e)) (take n (cv_entries v)))
      in case cap of None \<Rightarrow> above | Some c \<Rightarrow> take c above)"

definition head_lines :: "ck_view \<Rightarrow> (str + str) list" where
  "head_lines v = [Inr (fst (cv_head v)), Inr (snd (cv_head v))]"

text \<open>An answer that is not whole: none, a refusal, a line that did not arrive, an exception among the rows.\<close>

definition cut_short :: "ck_view \<Rightarrow> ck_answer \<Rightarrow> bool" where
  "cut_short v a = (case a of
     CkLines lines \<Rightarrow> (\<exists>e. Inl e \<in> set lines) \<or>
       (\<exists>rest line t. lines = head_lines v @ rest \<and> Inr line \<in> set rest \<and> trim line \<noteq> [] \<and>
          cv_parse v line = Inr (JArray [JString t]) \<and> exception_row [JString t] = Some t)
   | _ \<Rightarrow> True)"

definition position_after :: "ck_source \<Rightarrow> str \<Rightarrow> ck_view \<Rightarrow> str \<Rightarrow> json" where
  "position_after s column v t = ck_checkpoint s column (cv_kinds v ! cv_index v) t"

definition whole_answer :: "ck_source \<Rightarrow> ck_view \<Rightarrow> (str \<Rightarrow> 'r :: linorder) \<Rightarrow> nat \<Rightarrow> str option \<Rightarrow> ck_answer" where
  "whole_answer s v rank n after = CkLines (head_lines v @ map (\<lambda>e. Inr (ce_line e)) (asked v rank (ck_max_records s) n after))"

text \<open>The SQL that means those rows, and a request that sends it with the value as a parameter.\<close>

definition resume_sql :: "ck_source \<Rightarrow> str \<Rightarrow> ck_view \<Rightarrow> str option \<Rightarrow> str" where
  "resume_sql s column v after = ''SELECT * FROM ('' @ ck_sql s @ '')'' @
     (case after of None \<Rightarrow> []
      | Some _ \<Rightarrow> '' WHERE '' @ ck_identifier column @ '' > {etl_after:'' @ bare_type (cv_kinds v ! cv_index v) @ ''}'') @
     '' ORDER BY '' @ ck_identifier column @ (case ck_max_records s of Some cap \<Rightarrow> '' LIMIT '' @ show_nat cap | None \<Rightarrow> []) @
     '' FORMAT JSONCompactEachRowWithNamesAndTypes''"

definition sends :: "ck_server \<Rightarrow> ck_source \<Rightarrow> str \<Rightarrow> ck_view \<Rightarrow> str option \<Rightarrow> ck_request \<Rightarrow> bool" where
  "sends server s column v after q \<longleftrightarrow> kq_sql q = resume_sql s column v after \<and>
     kq_query q = ck_query server (case after of Some t \<Rightarrow> [(''param_etl_after'', t)] | None \<Rightarrow> [])"

lemma sends_request:
  assumes "ck_incremental s = Some (column, None)"
  shows "sends server s column v after (ck_request_of server s (map_option (position_after s column v) after))"
  using assms by (cases after) (simp_all add: sends_def ck_request_of_def ck_statement_def resume_sql_def position_after_def ck_checkpoint_def
      json_get_def saved_text_def json_as_str_def Let_def)

definition serves_table :: "ck_server \<Rightarrow> ck_source \<Rightarrow> str \<Rightarrow> ck_view \<Rightarrow> (str \<Rightarrow> 'r :: linorder) \<Rightarrow> nat \<Rightarrow> ck_world \<Rightarrow> bool" where
  "serves_table server s column v rank n w \<longleftrightarrow> kw_parse w = cv_parse v \<and>
     (\<forall>after q. sends server s column v after q \<longrightarrow> kw_answer w q = whole_answer s v rank n after \<or> cut_short v (kw_answer w q))"

lemma filter_above:
  assumes "sorted_wrt (\<lambda>a b. rank (ce_key a) < rank (ce_key b)) es" "m < length es"
  shows "filter (\<lambda>e. rank (ce_key (es ! m)) < (rank (ce_key e) :: 'r :: linorder)) (take n es) = drop (Suc m) (take n es)"
proof -
  have low: "\<not> rank (ce_key (es ! m)) < rank (ce_key e)" if "e \<in> set (take (Suc m) es)" for e
  proof -
    from that obtain i where "i < length es" "i \<le> m" "e = es ! i" by (auto simp: in_set_conv_nth)
    then show ?thesis using assms sorted_wrt_nth_less [OF assms(1), of i m] by (cases "i = m") (auto simp: not_less)
  qed
  have high: "rank (ce_key (es ! m)) < rank (ce_key e)" if "e \<in> set (drop (Suc m) es)" for e
  proof -
    from that obtain i where "i < length es - Suc m" "e = es ! (Suc m + i)" by (auto simp: in_set_conv_nth)
    moreover from this(1) have "Suc m + i < length es" by simp
    ultimately show ?thesis using sorted_wrt_nth_less [OF assms(1), of m "Suc m + i"] by simp
  qed
  let ?P = "\<lambda>e. rank (ce_key (es ! m)) < rank (ce_key e)"
  have "set (take (Suc m) (take n es)) \<subseteq> set (take (Suc m) es)" by (metis min.commute set_take_subset take_take)
  then have "filter ?P (take (Suc m) (take n es)) = []" using low by (auto simp: filter_empty_conv)
  moreover have "set (drop (Suc m) (take n es)) \<subseteq> set (drop (Suc m) es)" by (simp add: drop_take set_take_subset)
  then have "filter ?P (drop (Suc m) (take n es)) = drop (Suc m) (take n es)" using high by (auto intro!: filter_True)
  ultimately show ?thesis by (metis append_Nil append_take_drop_id filter_append)
qed

text \<open>The position after \<open>m\<close> rows, and the rows the next run is given.\<close>

definition after_rows :: "ck_view \<Rightarrow> nat \<Rightarrow> str option" where
  "after_rows v m = (if m = 0 then None else Some (ce_key (cv_entries v ! (m - 1))))"

definition capped :: "nat option \<Rightarrow> 'a list \<Rightarrow> 'a list" where
  "capped cap xs = (case cap of None \<Rightarrow> xs | Some c \<Rightarrow> take c xs)"

lemma asked_after_rows:
  assumes "wf_view v column rank" "m \<le> length (cv_entries v)"
  shows "asked v rank cap n (after_rows v m) = capped cap (drop m (take n (cv_entries v)))"
proof (cases m)
  case 0
  then show ?thesis by (simp add: asked_def after_rows_def capped_def Let_def)
next
  case (Suc k)
  with assms have "k < length (cv_entries v)" "sorted_wrt (\<lambda>a b. rank (ce_key a) < rank (ce_key b)) (cv_entries v)"
    by (simp_all add: wf_view_def)
  from filter_above [OF this(2,1), of n] show ?thesis by (simp add: Suc asked_def after_rows_def capped_def Let_def)
qed

text \<open>Rows that were asked for follow the ones before without a gap.\<close>

lemma capped_follows: "take m es @ capped cap (drop m (take n es)) = take (m + length (capped cap (drop m (take n es)))) es"
proof -
  have "\<exists>k. capped cap (drop m (take n es)) = take k (drop m es)"
    by (cases cap) (auto simp: capped_def drop_take)
  then obtain k where "capped cap (drop m (take n es)) = take k (drop m es)" by blast
  then show ?thesis by (simp add: take_add min_def)
qed

lemma ck_lines_of_entries:
  assumes "\<forall>e \<in> set es. entry_shown v e" "kw_parse w = cv_parse v"
  shows "ck_lines w failed (cv_names v) (cv_kinds v) (Some (cv_index v)) (map (\<lambda>e. Inr (ce_line e)) es) st = Inr st' \<Longrightarrow>
    kr_rows st' = kr_rows st @ map (entry_row v) es \<and>
    kr_highest st' = (if es = [] then kr_highest st else map_of (entry_row v (last es)) (cv_names v ! cv_index v))"
  using assms(1)
proof (induction es arbitrary: st)
  case (Cons e es)
  then have shown: "entry_shown v e" by simp
  then have cells: "cells_of w failed (cv_names v) (ce_line e) = Inr (ce_cells e)" and line: "trim (ce_line e) \<noteq> []"
    using assms(2) by (auto simp: entry_shown_def cells_of_def)
  let ?st = "\<lparr> kr_rows = kr_rows st @ [entry_row v e], kr_highest = map_of (entry_row v e) (cv_names v ! cv_index v) \<rparr>"
  from Cons.prems(1) cells line have "ck_lines w failed (cv_names v) (cv_kinds v) (Some (cv_index v)) (map (\<lambda>e. Inr (ce_line e)) es) ?st = Inr st'"
    by (simp add: Let_def entry_row_def split: option.splits)
  from Cons.IH [OF this] Cons.prems(2) show ?case by auto
qed simp

lemma ck_lines_go_through:
  assumes "\<forall>e \<in> set es. entry_shown v e" "kw_parse w = cv_parse v" "\<forall>k. kw_stage w k = None"
  shows "\<exists>st'. ck_lines w failed (cv_names v) (cv_kinds v) (Some (cv_index v)) (map (\<lambda>e. Inr (ce_line e)) es) st = Inr st'"
  using assms(1)
proof (induction es arbitrary: st)
  case (Cons e es)
  then have "cells_of w failed (cv_names v) (ce_line e) = Inr (ce_cells e)" "trim (ce_line e) \<noteq> []"
    using assms(2) by (auto simp: entry_shown_def cells_of_def)
  with Cons assms(3) show ?case by (simp add: Let_def)
qed simp

lemma cut_lines_fail: "Inl e \<in> set lines \<Longrightarrow> \<exists>e'. ck_lines w failed names kinds position lines st = Inl e'"
  by (induction w failed names kinds position lines st rule: ck_lines.induct) (auto simp: Let_def split: sum.splits option.splits)

lemma exception_fails:
  "Inr line \<in> set lines \<Longrightarrow> trim line \<noteq> [] \<Longrightarrow> kw_parse w line = Inr (JArray [JString t]) \<Longrightarrow> exception_row [JString t] = Some t \<Longrightarrow>
     \<exists>e. ck_lines w failed names kinds position lines st = Inl e"
proof (induction w failed names kinds position lines st rule: ck_lines.induct)
  case (3 w failed names kinds position line' lines st)
  show ?case
  proof (cases "line' = line")
    case True
    have "\<exists>e. cells_of w failed names line = Inl e" using 3(4-6) by (auto simp: cells_of_def)
    with True 3(4) show ?thesis by auto
  qed (use 3 in \<open>auto simp: Let_def split: sum.splits option.splits\<close>)
qed auto

lemma text_list_strings: "text_list (JArray (map JString ts)) = Some ts"
  by (simp add: text_list_def list_all_iff json_as_str_def) (induction ts; simp add: json_as_str_def)

lemma head_read:
  assumes "wf_view v column rank" "kw_parse w = cv_parse v"
  shows "header_line w failed what1 (head_lines v @ rest) = Inr (cv_names v, Inr (snd (cv_head v)) # rest)"
    "header_line w failed what2 (Inr (snd (cv_head v)) # rest) = Inr (cv_kinds v, rest)"
  using assms by (simp_all add: wf_view_def header_line_def head_lines_def text_list_strings)

lemma header_line_Inr: "header_line w failed what lines = Inr (ts, rest) \<Longrightarrow> \<exists>line. lines = Inr line # rest"
  by (auto simp: header_line_def split: list.splits sum.splits option.splits)

text \<open>A read that succeeded got lines, of which two are the head, and went through the rest.\<close>

lemma ck_read_Inr:
  assumes "ck_read w server s saved = Inr r"
  shows "\<exists>lines names lines1 kinds lines2 position st. kw_answer w (ck_request_of server s saved) = CkLines lines \<and>
    header_line w (ck_failed server s) ''names'' lines = Inr (names, lines1) \<and>
    header_line w (ck_failed server s) ''types'' lines1 = Inr (kinds, lines2) \<and>
    (case ck_incremental s of None \<Rightarrow> position = None | Some (column, _) \<Rightarrow> position = first_index column names \<and> position \<noteq> None) \<and>
    ck_lines w (ck_failed server s) names kinds position lines2 \<lparr> kr_rows = [], kr_highest = None \<rparr> = Inr st \<and>
    r = ck_summary server s kinds position (snd (snd (ck_statement s saved))) st"
proof (cases "kw_answer w (ck_request_of server s saved)")
  case (CkLines lines)
  obtain names lines1 where h1: "header_line w (ck_failed server s) ''names'' lines = Inr (names, lines1)"
    using assms CkLines by (cases "header_line w (ck_failed server s) ''names'' lines") (auto simp: ck_read_def)
  obtain kinds lines2 where h2: "header_line w (ck_failed server s) ''types'' lines1 = Inr (kinds, lines2)"
    using assms CkLines h1 by (cases "header_line w (ck_failed server s) ''types'' lines1") (auto simp: ck_read_def)
  define found where "found = (case ck_incremental s of
                   None \<Rightarrow> Inr None
                 | Some (column, _) \<Rightarrow> map_sum id Some (ok_or (PropertyError ''incremental_column''
                     (QT @ column @ QT @ '' is not a column of what is read'')) (first_index column names)))"
  obtain position where h3: "found = Inr position"
    using assms CkLines h1 h2 by (cases found) (simp_all add: ck_read_def Let_def found_def [symmetric])
  obtain st where h4: "ck_lines w (ck_failed server s) names kinds position lines2 \<lparr> kr_rows = [], kr_highest = None \<rparr> = Inr st"
    using assms CkLines h1 h2 h3
    by (cases "ck_lines w (ck_failed server s) names kinds position lines2 \<lparr> kr_rows = [], kr_highest = None \<rparr>")
      (simp_all add: ck_read_def Let_def found_def [symmetric])
  have "r = ck_summary server s kinds position (snd (snd (ck_statement s saved))) st"
    using assms CkLines h1 h2 h3 h4 by (simp add: ck_read_def Let_def found_def [symmetric])
  moreover have "case ck_incremental s of None \<Rightarrow> position = None | Some (column, _) \<Rightarrow> position = first_index column names \<and> position \<noteq> None"
    using h3 by (auto simp: found_def ok_or_def split: option.splits prod.splits) (metis option.exhaust)
  ultimately show ?thesis using CkLines h1 h2 h4 by blast
qed (use assms in \<open>auto simp: ck_read_def Let_def\<close>)

lemma cut_read_fails:
  assumes "wf_view v column rank" "kw_parse w = cv_parse v" "cut_short v (kw_answer w (ck_request_of server s saved))"
  shows "\<exists>e. ck_read w server s saved = Inl e"
proof (rule ccontr)
  assume "\<not> ?thesis"
  then obtain r where "ck_read w server s saved = Inr r" by (cases "ck_read w server s saved") auto
  from ck_read_Inr [OF this] obtain lines names lines1 kinds lines2 position st where
    a: "kw_answer w (ck_request_of server s saved) = CkLines lines" and
    h: "header_line w (ck_failed server s) ''names'' lines = Inr (names, lines1)"
      "header_line w (ck_failed server s) ''types'' lines1 = Inr (kinds, lines2)" and
    l: "ck_lines w (ck_failed server s) names kinds position lines2 \<lparr> kr_rows = [], kr_highest = None \<rparr> = Inr st" by blast
  from header_line_Inr [OF h(1)] header_line_Inr [OF h(2)] obtain l1 l2 where lines: "lines = Inr l1 # Inr l2 # lines2" by auto
  from assms(3) a consider reason where "Inl reason \<in> set lines2" |
      rest line t where "lines = head_lines v @ rest" "Inr line \<in> set rest" "trim line \<noteq> []" "cv_parse v line = Inr (JArray [JString t])"
        "exception_row [JString t] = Some t"
    by (auto simp: cut_short_def lines)
  then show False
  proof cases
    case 1
    from cut_lines_fail [OF this] l show ?thesis by (metis sum.distinct(1))
  next
    case 2
    then have "rest = lines2" by (simp add: lines head_lines_def)
    with 2 assms(2) exception_fails [of line lines2 w t] l show ?thesis by (metis sum.distinct(1))
  qed
qed

text \<open>One run: the rows it was given, and the value of the last of them.\<close>

lemma ck_read_whole:
  assumes "wf_view v column rank" "kw_parse w = cv_parse v" "ck_incremental s = Some (column, None)"
    "kw_answer w (ck_request_of server s saved) = CkLines (head_lines v @ map (\<lambda>e. Inr (ce_line e)) es)" "set es \<subseteq> set (cv_entries v)"
  shows "ck_read w server s saved = Inr (rows, told, position) \<Longrightarrow> rows = map (entry_row v) es \<and>
      position = (if es = [] then None else Some (position_after s column v (ce_key (last es))))"
    "\<forall>k. kw_stage w k = None \<Longrightarrow> \<exists>r. ck_read w server s saved = Inr r"
proof -
  let ?st = "\<lparr> kr_rows = [], kr_highest = None \<rparr>"
  have shown: "\<forall>e \<in> set es. entry_shown v e" using assms(1,5) by (auto simp: wf_view_def)
  have index: "first_index column (cv_names v) = Some (cv_index v)" using assms(1) by (simp add: wf_view_def)
  have unfold: "ck_read w server s saved =
      and_then (ck_lines w (ck_failed server s) (cv_names v) (cv_kinds v) (Some (cv_index v)) (map (\<lambda>e. Inr (ce_line e)) es) ?st) (\<lambda>st.
        Inr (ck_summary server s (cv_kinds v) (Some (cv_index v)) (snd (snd (ck_statement s saved))) st))"
    using assms(3,4) index by (simp add: ck_read_def Let_def head_read [OF assms(1,2)])
  show "rows = map (entry_row v) es \<and> position = (if es = [] then None else Some (position_after s column v (ce_key (last es))))"
    if read: "ck_read w server s saved = Inr (rows, told, position)"
  proof -
    from read unfold obtain st where st:
      "ck_lines w (ck_failed server s) (cv_names v) (cv_kinds v) (Some (cv_index v)) (map (\<lambda>e. Inr (ce_line e)) es) ?st = Inr st"
      "(rows, told, position) = ck_summary server s (cv_kinds v) (Some (cv_index v)) (snd (snd (ck_statement s saved))) st"
      by (auto simp: and_then_eq_Inr_iff)
    note lines = ck_lines_of_entries [OF shown assms(2) st(1)]
    show ?thesis
    proof (cases "es = []")
      case True
      then show ?thesis using st(2) lines assms(3) by (simp add: ck_summary_def Let_def)
    next
      case False
      with shown have "entry_shown v (last es)" by simp
      then obtain x where "map_of (entry_row v (last es)) (cv_names v ! cv_index v) = Some x" "x \<noteq> JNull" "position_text x = ce_key (last es)"
        by (auto simp: entry_shown_def)
      then show ?thesis using st(2) lines assms(3) False by (simp add: ck_summary_def Let_def position_after_def)
    qed
  qed
  show "\<exists>r. ck_read w server s saved = Inr r" if stage: "\<forall>k. kw_stage w k = None"
  proof -
    from ck_lines_go_through [OF shown assms(2) stage, of "ck_failed server s" ?st] obtain st where
      "ck_lines w (ck_failed server s) (cv_names v) (cv_kinds v) (Some (cv_index v)) (map (\<lambda>e. Inr (ce_line e)) es) ?st = Inr st" by blast
    then have "ck_read w server s saved = Inr (ck_summary server s (cv_kinds v) (Some (cv_index v)) (snd (snd (ck_statement s saved))) st)"
      by (simp add: unfold)
    then show ?thesis by blast
  qed
qed

lemma slices_join:
  assumes "m \<le> a" "a \<le> b" "a \<le> length xs"
  shows "drop m (take a xs) @ drop a (take b xs) = drop m (take b xs)"
proof -
  have "take b xs = take a xs @ drop a (take b xs)"
    using assms(2) append_take_drop_id [of a "take b xs"] by (simp add: min_def)
  then have "drop m (take b xs) = drop m (take a xs @ drop a (take b xs))" by simp
  also have "\<dots> = drop m (take a xs) @ drop a (take b xs)" using assms(1,3) by simp
  finally show ?thesis by simp
qed

definition remembered :: "ck_source \<Rightarrow> str \<Rightarrow> ck_view \<Rightarrow> nat \<Rightarrow> json option" where
  "remembered s column v m = map_option (position_after s column v) (after_rows v m)"

definition steady :: "ck_server \<Rightarrow> ck_source \<Rightarrow> str \<Rightarrow> ck_view \<Rightarrow> (str \<Rightarrow> 'r :: linorder) \<Rightarrow> nat \<Rightarrow> ck_world \<Rightarrow> bool" where
  "steady server s column v rank n w \<longleftrightarrow> (\<forall>k. kw_stage w k = None) \<and>
     (\<forall>after q. sends server s column v after q \<longrightarrow> kw_answer w q = whole_answer s v rank n after)"

lemma one_run:
  assumes "wf_view v column rank" "serves_table server s column v rank n w" "ck_incremental s = Some (column, None)" "m \<le> length (cv_entries v)"
  shows "ck_read w server s (remembered s column v m) = Inr (rows, told, position) \<Longrightarrow>
      \<exists>m' \<le> length (cv_entries v). m \<le> m' \<and> rows = map (entry_row v) (drop m (take m' (cv_entries v))) \<and>
        (case position of Some p \<Rightarrow> Some p | None \<Rightarrow> remembered s column v m) = remembered s column v m' \<and>
        (ck_max_records s = None \<and> n \<le> length (cv_entries v) \<longrightarrow> n \<le> m')"
    "steady server s column v rank n w \<Longrightarrow> \<exists>r. ck_read w server s (remembered s column v m) = Inr r"
proof -
  let ?es = "cv_entries v" and ?saved = "remembered s column v m"
  define es where "es = capped (ck_max_records s) (drop m (take n ?es))"
  define m' where "m' = m + length es"
  have parse: "kw_parse w = cv_parse v" using assms(2) by (simp add: serves_table_def)
  have sends: "sends server s column v (after_rows v m) (ck_request_of server s ?saved)"
    unfolding remembered_def by (rule sends_request [OF assms(3)])
  have es: "asked v rank (ck_max_records s) n (after_rows v m) = es" by (simp add: es_def asked_after_rows [OF assms(1,4)])
  have upto: "take m ?es @ es = take m' ?es" unfolding es_def m'_def by (rule capped_follows)
  have subset: "set es \<subseteq> set ?es" by (metis Un_subset_iff set_append set_take_subset upto)
  have whole: "kw_answer w (ck_request_of server s ?saved) = CkLines (head_lines v @ map (\<lambda>e. Inr (ce_line e)) es)"
    if "kw_answer w (ck_request_of server s ?saved) = whole_answer s v rank n (after_rows v m)"
    using that by (simp add: whole_answer_def es)
  have len: "m' \<le> length ?es"
    using arg_cong [OF upto, of length] assms(4) by (simp add: m'_def min_def split: if_splits)
  show "\<exists>r. ck_read w server s ?saved = Inr r" if "steady server s column v rank n w"
    using that ck_read_whole(2) [OF assms(1) parse assms(3) whole subset] sends by (simp add: steady_def)
  assume read: "ck_read w server s ?saved = Inr (rows, told, position)"
  have "\<not> cut_short v (kw_answer w (ck_request_of server s ?saved))"
    using cut_read_fails [OF assms(1) parse] read by fastforce
  then have "kw_answer w (ck_request_of server s ?saved) = whole_answer s v rank n (after_rows v m)"
    using assms(2) sends by (auto simp: serves_table_def)
  from ck_read_whole(1) [OF assms(1) parse assms(3) whole [OF this] subset read] have
    got: "rows = map (entry_row v) es" "position = (if es = [] then None else Some (position_after s column v (ce_key (last es))))" by simp_all
  have slice: "es = drop m (take m' ?es)"
    using upto assms(4) by (metis append_eq_conv_conj length_take min.absorb2)
  have "last es = ?es ! (m' - 1)" if "es \<noteq> []"
  proof -
    from upto that have "last es = last (take m' ?es)" by (metis last_append)
    moreover have "take m' ?es \<noteq> []" using upto that by (metis append_is_Nil_conv)
    ultimately show ?thesis using len by (simp add: last_conv_nth)
  qed
  then have "(case position of Some p \<Rightarrow> Some p | None \<Rightarrow> ?saved) = remembered s column v m'"
    using got(2) by (auto simp: remembered_def after_rows_def m'_def)
  moreover have "ck_max_records s = None \<and> n \<le> length ?es \<longrightarrow> n \<le> m'"
    by (auto simp: m'_def es_def capped_def)
  moreover have "rows = map (entry_row v) (drop m (take m' ?es))" using got(1) slice by simp
  moreover have "m \<le> m'" by (simp add: m'_def)
  ultimately show "\<exists>m' \<le> length ?es. m \<le> m' \<and> rows = map (entry_row v) (drop m (take m' ?es)) \<and>
        (case position of Some p \<Rightarrow> Some p | None \<Rightarrow> ?saved) = remembered s column v m' \<and>
        (ck_max_records s = None \<and> n \<le> length ?es \<longrightarrow> n \<le> m')"
    using len by blast
qed

lemma runs_from:
  assumes "wf_view v column rank" "ck_incremental s = Some (column, None)"
  shows "list_all (\<lambda>(w, n). serves_table server s column v rank n w \<and> n \<le> length (cv_entries v)) runs \<Longrightarrow> m \<le> length (cv_entries v) \<Longrightarrow>
    \<exists>m' \<le> length (cv_entries v). m \<le> m' \<and>
      ck_runs server s (map fst runs) (remembered s column v m) = map (entry_row v) (drop m (take m' (cv_entries v))) \<and>
      (ck_max_records s = None \<longrightarrow> (\<forall>(w, n) \<in> set runs. steady server s column v rank n w \<longrightarrow> n \<le> m'))"
proof (induction runs arbitrary: m)
  case (Cons r runs)
  obtain w n where r: "r = (w, n)" by force
  with Cons.prems have here: "serves_table server s column v rank n w" "n \<le> length (cv_entries v)" by simp_all
  note step = one_run [OF assms(1) here(1) assms(2) Cons.prems(2)]
  show ?case
  proof (cases "ck_read w server s (remembered s column v m)")
    case (Inl e)
    then have "\<not> steady server s column v rank n w" using step(2) by auto
    with Cons.IH [OF _ Cons.prems(2)] Cons.prems(1) Inl show ?thesis by (auto simp: r)
  next
    case (Inr result)
    obtain rows told position where result: "result = (rows, told, position)" by (cases result)
    from step(1) [OF Inr [unfolded result]] here(2) obtain m1 where m1: "m1 \<le> length (cv_entries v)" "m \<le> m1"
      "rows = map (entry_row v) (drop m (take m1 (cv_entries v)))"
      "(case position of Some p \<Rightarrow> Some p | None \<Rightarrow> remembered s column v m) = remembered s column v m1" "ck_max_records s = None \<longrightarrow> n \<le> m1"
      by blast
    from Cons.IH [OF _ m1(1)] Cons.prems(1) obtain m' where m': "m' \<le> length (cv_entries v)" "m1 \<le> m'"
      "ck_runs server s (map fst runs) (remembered s column v m1) = map (entry_row v) (drop m1 (take m' (cv_entries v)))"
      "ck_max_records s = None \<longrightarrow> (\<forall>(w, n) \<in> set runs. steady server s column v rank n w \<longrightarrow> n \<le> m')" by auto
    have all: "ck_runs server s (map fst (r # runs)) (remembered s column v m) = map (entry_row v) (drop m (take m' (cv_entries v)))"
      using m1(3,4) m'(3) slices_join [OF m1(2) m'(2) m1(1)] by (simp add: r Inr result flip: map_append)
    have last: "ck_max_records s = None \<longrightarrow> (\<forall>(w, n) \<in> set (r # runs). steady server s column v rank n w \<longrightarrow> n \<le> m')"
      using m1(5) m'(2,4) by (auto simp: r)
    show ?thesis
      by (rule exI [where x = m']) (use all last m1(2) m'(1,2) in linarith)
  qed
next
  case Nil
  then show ?case by (intro exI [where x = m]) simp
qed

text \<open>
  C14: incremental reads of ClickHouse resume. Against a table whose column only goes up, shown to each run
  as far as it has grown, and a server that answers the run's SQL or cuts its answer short in any of the
  ways the code knows: whatever runs failed in between, and however few rows a run may take, the rows of all the
  runs that succeeded are the first rows of the table, each once and in order. Without a cap they reach as
  far as any run that was answered whole.
\<close>

theorem incremental_runs_resume:
  assumes "wf_view v column rank" "ck_incremental s = Some (column, None)"
    "list_all (\<lambda>(w, n). serves_table server s column v rank n w \<and> n \<le> length (cv_entries v)) runs"
  shows "\<exists>m \<le> length (cv_entries v). ck_runs server s (map fst runs) None = map (entry_row v) (take m (cv_entries v)) \<and>
    (ck_max_records s = None \<longrightarrow> (\<forall>(w, n) \<in> set runs. steady server s column v rank n w \<longrightarrow> n \<le> m))"
proof -
  have "remembered s column v 0 = None" by (simp add: remembered_def after_rows_def)
  with runs_from [OF assms, of 0] show ?thesis by auto
qed

section \<open>A table of three rows\<close>

definition example_ck_server :: ck_server where
  "example_ck_server = \<lparr> cs_url = ''http://h:8123'', cs_authorization = ''Basic eA=='', cs_user = ''x'', cs_database = None, cs_timeout = 1000 \<rparr>"

definition example_ck_source :: "nat option \<Rightarrow> ck_source" where
  "example_ck_source cap = \<lparr> ck_what = ''table `t`'', ck_sql = ''SELECT * FROM `t`'', ck_incremental = Some (''n'', None), ck_max_records = cap \<rparr>"

definition example_view :: ck_view where
  "example_view = \<lparr> cv_parse = \<lambda>t. Inr (JArray [if t = ''names'' then JString ''n'' else if t = ''types'' then JString ''Int32''
       else JInt (int (the (parse_digits t)))]),
     cv_head = (''names'', ''types''), cv_names = [''n''], cv_kinds = [''Int32''], cv_index = 0,
     cv_entries = map (\<lambda>t. \<lparr> ce_line = t, ce_cells = [JInt (int (the (parse_digits t)))], ce_key = t \<rparr>) [''1'', ''2'', ''3''] \<rparr>"

definition example_rank :: "str \<Rightarrow> nat" where
  "example_rank t = the (parse_digits t)"

definition example_ck_world :: "nat option \<Rightarrow> nat \<Rightarrow> ck_world" where
  "example_ck_world cap n = \<lparr> kw_answer = \<lambda>q. whole_answer (example_ck_source cap) example_view example_rank n (map_of (kq_query q) ''param_etl_after''),
     kw_parse = cv_parse example_view, kw_sha256 = id, kw_stage = \<lambda>_. None \<rparr>"

definition example_down :: ck_world where
  "example_down = (example_ck_world None 3)\<lparr> kw_answer := \<lambda>q. CkLines [Inr ''names'', Inr ''types'', Inr ''3'', Inl ''reset''] \<rparr>"

lemma example_digits: "show_int 1 = ''1'' \<and> show_int 2 = ''2'' \<and> show_int 3 = ''3''"
  by code_simp

lemma example_wf_view: "wf_view example_view ''n'' example_rank"
  by (simp add: wf_view_def example_view_def entry_shown_def entry_row_def row_of_def example_rank_def position_text_def ck_value_def
      exception_row_def parse_digits_def digits_value_def digit_value_def is_ascii_digit_def trim_def trim_start_def trim_end_def is_whitespace_def example_digits)

lemma example_asked:
  "sends example_ck_server s column v after q \<Longrightarrow> map_of (kq_query q) ''param_etl_after'' = after"
  by (cases after) (simp_all add: sends_def ck_query_def SESSION_def example_ck_server_def)

lemma incremental_runs_resume_witness:
  "ck_runs example_ck_server (example_ck_source None) [example_ck_world None 2, example_down, example_ck_world None 3] None =
     [[(''n'', JInt 1)], [(''n'', JInt 2)], [(''n'', JInt 3)]]"
proof -
  let ?runs = "[(example_ck_world None 2, 2), (example_down, 3), (example_ck_world None 3, 3)]"
  have steady: "steady example_ck_server (example_ck_source None) ''n'' example_view example_rank n (example_ck_world None n)" for n
    by (simp add: steady_def example_ck_world_def example_asked)
  then have "serves_table example_ck_server (example_ck_source None) ''n'' example_view example_rank n (example_ck_world None n)" for n
    by (simp add: steady_def serves_table_def example_ck_world_def)
  moreover have "serves_table example_ck_server (example_ck_source None) ''n'' example_view example_rank 3 example_down"
    by (simp add: serves_table_def example_down_def example_ck_world_def cut_short_def)
  moreover have three: "length (cv_entries example_view) = 3" by (simp add: example_view_def)
  ultimately have "list_all (\<lambda>(w, n). serves_table example_ck_server (example_ck_source None) ''n'' example_view example_rank n w \<and>
      n \<le> length (cv_entries example_view)) ?runs" by simp
  from incremental_runs_resume [OF example_wf_view _ this] steady [of 3] obtain m where m: "m \<le> length (cv_entries example_view)" "3 \<le> m"
    "ck_runs example_ck_server (example_ck_source None) (map fst ?runs) None = map (entry_row example_view) (take m (cv_entries example_view))"
    by (auto simp: example_ck_source_def)
  then have "m = 3" using three by simp
  with m(3) show ?thesis
    by (simp add: example_view_def entry_row_def row_of_def ck_value_def parse_digits_def digits_value_def digit_value_def is_ascii_digit_def)
qed

text \<open>
  Two rows of one value on both sides of the cap: the second is above no position that is remembered, and is
  never read. A null in the column sorts last, so the run that reads it remembers nothing.
\<close>

definition tied_world :: ck_world where
  "tied_world = \<lparr> kw_answer = \<lambda>q. CkLines ([Inr ''names'', Inr ''types''] @
       (case map_of (kq_query q) ''param_etl_after'' of None \<Rightarrow> [Inr ''1''] | Some t \<Rightarrow> [])),
     kw_parse = cv_parse example_view, kw_sha256 = id, kw_stage = \<lambda>_. None \<rparr>"

lemma ties_at_the_cap_are_lost:
  "ck_runs example_ck_server (example_ck_source (Some 1)) [tied_world, tied_world, tied_world] None = [[(''n'', JInt 1)]]"
  by code_simp

definition null_world :: ck_world where
  "null_world = \<lparr> kw_answer = \<lambda>q. CkLines [Inr ''names'', Inr ''types'', Inr ''1'', Inr ''null''],
     kw_parse = (\<lambda>t. if t = ''null'' then Inr (JArray [JNull]) else cv_parse example_view t), kw_sha256 = id, kw_stage = \<lambda>_. None \<rparr>"

lemma a_null_forgets:
  "case ck_read null_world example_ck_server (example_ck_source None) None of
     Inr (rows, _, position) \<Rightarrow> rows = [[(''n'', JInt 1)], [(''n'', JNull)]] \<and> position = None | Inl _ \<Rightarrow> False"
  by code_simp

text \<open>In a read of one column, a value that looks like the server's exception is taken for one.\<close>

lemma a_value_taken_for_an_exception:
  assumes "kw_parse w line = Inr (JArray [JString (''Code: 1. DB::Exception: logged'')])"
  shows "cells_of w failed [''message''] line = Inl (failed (clickhouse_error ''Code: 1. DB::Exception: logged''))"
  using assms by (simp add: cells_of_def exception_row_def starts_with_def contains_text_def)

section \<open>Inserts\<close>

text \<open>A token is never used for two batches of a run, and the rows reported are those of the batches that were accepted.\<close>

lemma ck_insert_batch_counts:
  "ck_insert_batch w hs server table run body k st = Some (Inr (), st') \<Longrightarrow>
     ki_inserted st' = ki_inserted st + k \<and> ki_statements st' = ki_statements st + 1"
  "ck_insert_batch w hs server table run body k st = Some (Inl e, st') \<Longrightarrow> ki_inserted st' = ki_inserted st \<and> ki_statements st' = ki_statements st"
  by (auto simp: ck_insert_batch_def split: prod.splits sum.splits option.splits)

lemma ck_insert_loop_counts:
  "ck_insert_loop w hs server table run n b (map Inr rows) batch k st = Some (Inr (), st') \<Longrightarrow> ki_inserted st' = ki_inserted st + k + length rows"
proof (induction rows arbitrary: batch k st)
  case Nil
  then show ?case by (auto split: if_splits dest: ck_insert_batch_counts)
next
  case (Cons r rows)
  show ?case
    using Cons.prems by (fastforce simp: Let_def split: if_splits prod.splits sum.splits option.splits dest: ck_insert_batch_counts Cons.IH)
qed

end
