(* ===== verification/Spec2Isabelle.thy ===== *)
theory Spec2Isabelle
  imports Cron_Next Scheduler_Loop Run_History Workspace_Lock Secret_Store Console_Auth
    Plan_Compile Registry_Sound Builder_Facts Exec_Example Remember Lineage Runner_Main Mcp_Server Console_Routes
    Cli_Bindings Cli_Build Cli_Workspace Cli_Schedule Cli_Commands Cli_Assist Kafka_Facts Kafka_Sink Graphql_Connector
    Xml_Connector Clickhouse_Connector
begin

text \<open>
  A verification library of \<^verbatim>\<open>etl\<close>, a tool that runs data pipelines on one machine. A pipeline is a JSON
  document of nodes and edges; the engine compiles it to DuckDB SQL and runs it; a workspace directory
  keeps what is remembered between runs (\<^verbatim>\<open>.etl/state\<close>), the history of runs (\<^verbatim>\<open>.etl/runs\<close>), schedules,
  contexts and secrets; and a command line, a scheduler, a web console, an MCP server and executables built
  from a pipeline all start runs. The library models these parts in the order the data flows.

  \<^bold>\<open>Foundations.\<close> \<open>Etl_Prelude\<close> (text, numbers, \<^verbatim>\<open>Result\<close> as a sum), \<open>Ordered_Map\<close> (\<^verbatim>\<open>BTreeMap\<close> as a sorted
  association list; the locale \<open>ordered_map\<close>), \<open>Json_Value\<close> (\<^verbatim>\<open>serde_json::Value\<close>), \<open>Civil_Time\<close>
  (\<^verbatim>\<open>crates/state/src/time.rs\<close>).

  \<^bold>\<open>Schedules\<close> (\<^verbatim>\<open>crates/scheduler\<close>). \<open>Cron_Expr\<close>, \<open>Cron_Next\<close>, \<open>Every_Interval\<close>, \<open>Watch_Poll\<close> are the three
  kinds of trigger; \<open>Firing\<close> is the contract (a locale) the loop relies on, which \<open>Every_Interval\<close> and \<open>Cron_Next\<close>
  provide; \<open>Schedules\<close> is the file, \<open>Scheduler_Loop\<close> the loop over an explicit clock and runner, \<open>Workspace_Lock\<close>
  the lock of a workspace as calls interleaved between processes and crashes, with the calls that can fail. Shown: cron fires at the first
  matching minute and not before, a schedule that ran is next due after it finished, one process holds a lock.

  \<^bold>\<open>Stores.\<close> \<open>State_Store\<close> and \<open>Run_History\<close> (\<^verbatim>\<open>crates/state\<close>), \<open>Secret_Store\<close> (\<^verbatim>\<open>crates/secrets\<close>): the disk is
  a map from paths to contents, a save its calls in order. Shown: what is saved is loaded, a crash between any
  two calls leaves the old file or the new one.

  \<^bold>\<open>Documents and compiler\<close> (\<^verbatim>\<open>crates/metadata\<close>, \<^verbatim>\<open>crates/duckdb-engine\<close>). \<open>Component_Spec\<close> and \<open>Pipeline_Doc\<close>
  are the data; \<open>Params\<close> resolves \<^verbatim>\<open>${...}\<close>, \<open>Plan_Graph\<close> indexes, drops and orders the nodes, \<open>Plan_Stage\<close> lowers
  each to a stage through the builders (\<open>Builder_Kit\<close>, \<open>Reader_Writer_Builders\<close>, \<open>Transform_Builders\<close>,
  \<open>Ai_Text_Builders\<close>) that the registry \<open>Spec_Table\<close> names. \<open>Params_Facts\<close>, \<open>Plan_Order\<close>, \<open>Property_Check\<close>,
  \<open>Plan_Compile\<close>, \<open>Registry_Sound\<close> and \<open>Builder_Facts\<close> hold their theorems: the order is topological or the error
  names the cycle, a document that passed the checks lowers, substitution is one pass, quoted text is one token.

  \<^bold>\<open>Execution\<close> (\<^verbatim>\<open>exec.rs\<close>, \<^verbatim>\<open>session.rs\<close>, \<^verbatim>\<open>native.rs\<close>). \<open>Exec_World\<close> holds the processes and connectors as the
  fields of a record and the run as actions over a machine; \<open>Session_Frame\<close> the statements sent to a held process;
  \<open>Exec_Native\<close>, \<open>Exec_Script\<close>, \<open>Exec_Driven\<close> the two paths of a run. \<open>Exec_Logic\<close> is a small logic for these
  actions; \<open>Exec_Settle\<close>, \<open>Exec_Flow\<close>, \<open>Exec_Counts\<close> use it: a failed run acknowledges nothing, each receipt is
  settled once, a stage is skipped exactly downstream of a failure or of a branch not taken, both paths report the
  same counts. \<open>Exec_Example\<close> carries runs out. \<open>Remember\<close> takes a report to the state the next compile starts
  from, \<open>Lineage\<close> reads a compiled plan back as the document's graph.

  \<^bold>\<open>Executables\<close> (\<^verbatim>\<open>crates/runner\<close>). \<open>Runner_Payload\<close> is the format behind the runner's own bytes, \<open>Runner_Extract\<close>
  unpacking as calls interleaved between processes, \<open>Runner_Main\<close> the program.

  \<^bold>\<open>Front ends.\<close> \<open>Console_Auth\<close> and \<open>Console_Routes\<close> (\<^verbatim>\<open>crates/console\<close>), \<open>Mcp_Server\<close> (\<^verbatim>\<open>crates/mcp\<close>), and
  \<^verbatim>\<open>crates/cli/src/main.rs\<close>: \<open>Cli_Settings\<close> (settings, loading and compiling), \<open>Cli_Run\<close> (one run and the four
  things that start one), \<open>Cli_Bindings\<close> (where a value comes from), \<open>Cli_Build\<close> (\<^verbatim>\<open>etl build\<close>), \<open>Cli_Workspace\<close>
  (the workspace as the console sees it), \<open>Cli_Schedule\<close> and \<open>Cli_Commands\<close> (the other commands), \<open>Cli_Assist\<close> (\<^verbatim>\<open>etl assist\<close>, over \<open>Assist_Pick\<close> and
  \<open>Assist_Draft\<close>: \<^verbatim>\<open>crates/assistant\<close>). Here the parts
  come together: what a pipeline remembers moves exactly with exit code 0, whichever front end started the run.

  \<^bold>\<open>Connectors\<close> (\<^verbatim>\<open>crates/connectors\<close>). \<open>Connector_Kit\<close> is what the HTTP connectors share (properties, base64);
  \<open>Kafka_Settings\<close>, \<open>Kafka_Reader\<close> and \<open>Kafka_Sink\<close> are \<^verbatim>\<open>kafka.rs\<close>, with the broker as a record of answers, and
  \<open>Kafka_Facts\<close> the theorems of the source: a batch always returns, and consecutive runs repeat no record
  and miss none but those of a stretch their reports name.
  \<open>Http_Client\<close> is the client under the web connectors, over an explicit clock, \<open>Rest_Connector\<close> the REST source
  and sink, and \<open>Graphql_Connector\<close> the GraphQL ones over both: retries are bounded and paced, a read by offset is the
  whole list or an error, and so is a relay read, whatever successes with errors in them came between. \<open>Xml_Connector\<close> is \<^verbatim>\<open>xml.rs\<close>,
  a state machine over the events of the lexer, shown equal to a recursion over the document as a forest. \<open>Clickhouse_Connector\<close> is \<^verbatim>\<open>clickhouse.rs\<close>: its
  incremental reads, over a server that answers the SQL they send, resume without a gap.

  \<^bold>\<open>Bounds and fuel.\<close> Loops are structural or have measures, with these exceptions. The scheduler's loop takes
  fuel, since it may run forever; bounded to a number of passes it returns for any greater fuel, which is a
  theorem. The search of the next cron minute is bounded as the source bounds it, by years. The scan of a
  workspace is bounded by \<^verbatim>\<open>MAX_DEPTH\<close> as in the source. The turns of a Kafka read carry the records allowed and the
  partitions as fuel, and never run out of it. The attempts of a request are counted in 32 bits, and the loop is a
  partial function: it returns unless \<^verbatim>\<open>retries\<close> is the greatest such number, and then need not. Integers of the source that can overflow are words or
  carry the checked operation's failure; lengths and counts are \<open>nat\<close>.

  \<^bold>\<open>Text.\<close> A \<open>str\<close> is a list of characters, one for each scalar value up to U+00FF. The few signs outside that
  range which the program itself writes (an arrow, an ellipsis, a dash, a byte-order mark) stand as the bytes of their
  UTF-8. Formats in which bytes matter (the secret store, base64, keys of records) encode each character as UTF-8.

  \<^bold>\<open>Arguments.\<close> What is not the repository's code is an argument: \<^verbatim>\<open>serde_json\<close> (that it reads back what it
  printed is a hypothesis where a theorem needs it), AES-GCM (that it decrypts what it encrypted), the clock, the
  process table, DuckDB, native connectors, which system calls fail. Every theorem with such a hypothesis has an
  instance.

  \<^bold>\<open>Not modelled.\<close> The other connectors, which are clients of network services; the desktop window; the
  threads and sockets under the console and the protocol under the MCP server; argument parsing; \<^verbatim>\<open>etl serve\<close> and
  \<^verbatim>\<open>etl mcp\<close> as commands; what goes to standard error; file modes and \<^verbatim>\<open>fsync\<close>.
\<close>

end
